(* ===== verification/Vireo_Prelude.thy ===== *)
theory Vireo_Prelude
  imports Main "HOL-Library.Word"
begin

text \<open>
  Shared vocabulary of the development: the widths of the C integers (LP64 Linux, as the build
  requires), memory regions as byte lists, and the generic lemmas on lists and words that the
  component theories use. A pointer argument that the code compares with NULL is an \<open>option\<close>:
  \<open>None\<close> is NULL, and \<open>Some x\<close> is an address whose current contents are \<open>x\<close>. An output
  parameter is passed in with its old contents and returned with its new ones, so that
  \<^emph>\<open>a failing call leaves the output alone\<close> is a statement about the model and not an assumption.
\<close>

named_theorems vireo_defs \<open>definitions of operations, unfolded when an operation is proved\<close>
named_theorems wire_simps \<open>reading back what was written to a memory region\<close>

unbundle bit_operations_syntax

type_synonym u8 = "8 word"
type_synonym u16 = "16 word"
type_synonym u32 = "32 word"
type_synonym u64 = "64 word"
type_synonym size_t = "64 word"
type_synonym bytes = "u8 list"

abbreviation SIZE_MAX :: size_t where
  "SIZE_MAX \<equiv> - 1"

abbreviation UINT64_MAX :: u64 where
  "UINT64_MAX \<equiv> - 1"

abbreviation UINT32_MAX :: u32 where
  "UINT32_MAX \<equiv> - 1"

subsection \<open>Memory regions\<close>

text \<open>
  \<open>mem_write off src dst\<close> copies \<open>src\<close> over the bytes of \<open>dst\<close> that start at \<open>off\<close>. A write past
  the end of \<open>dst\<close> makes the list longer, so a theorem that an operation keeps the length of a
  region also shows that it never writes outside the region.
\<close>

definition mem_write :: "nat \<Rightarrow> 'a list \<Rightarrow> 'a list \<Rightarrow> 'a list" where
  "mem_write off src dst = take off dst @ src @ drop (off + length src) dst"

definition mem_read :: "nat \<Rightarrow> nat \<Rightarrow> 'a list \<Rightarrow> 'a list" where
  "mem_read off n src = take n (drop off src)"

lemma length_mem_write [simp]:
  "off + length src \<le> length dst \<Longrightarrow> length (mem_write off src dst) = length dst"
  by (simp add: mem_write_def)

lemma length_mem_write_ge: "length dst \<le> length (mem_write off src dst)"
  by (simp add: mem_write_def)

lemma length_mem_read [simp]: "off + n \<le> length src \<Longrightarrow> length (mem_read off n src) = n"
  by (simp add: mem_read_def)

lemma mem_write_Nil [simp]: "mem_write off [] dst = dst"
  by (simp add: mem_write_def)

lemma mem_read_0 [simp]: "mem_read off 0 src = []"
  by (simp add: mem_read_def)

lemma mem_read_write_same [wire_simps]:
  "off + length src \<le> length dst \<Longrightarrow> n = length src \<Longrightarrow> mem_read off n (mem_write off src dst) = src"
  by (simp add: mem_read_def mem_write_def)

lemma take_mem_write: "n \<le> off \<Longrightarrow> off \<le> length dst \<Longrightarrow> take n (mem_write off src dst) = take n dst"
  by (simp add: mem_write_def min_def)

lemma drop_mem_write:
  "off + length src \<le> n \<Longrightarrow> n \<le> length dst \<Longrightarrow> drop n (mem_write off src dst) = drop n dst"
  by (simp add: mem_write_def)

lemma nth_mem_write:
  "off + length src \<le> length dst \<Longrightarrow> i < length dst \<Longrightarrow>
   mem_write off src dst ! i =
     (if off \<le> i \<and> i < off + length src then src ! (i - off) else dst ! i)"
  by (auto simp: mem_write_def nth_append min_def)

lemma nth_mem_read: "off + n \<le> length src \<Longrightarrow> i < n \<Longrightarrow> mem_read off n src ! i = src ! (off + i)"
  by (simp add: mem_read_def)

lemma mem_read_write_before [wire_simps]:
  "p + n \<le> off \<Longrightarrow> off + length src \<le> length dst \<Longrightarrow>
   mem_read p n (mem_write off src dst) = mem_read p n dst"
  by (auto simp: list_eq_iff_nth_eq nth_mem_read nth_mem_write)

lemma mem_read_write_after [wire_simps]:
  "off + length src \<le> p \<Longrightarrow> p + n \<le> length dst \<Longrightarrow>
   mem_read p n (mem_write off src dst) = mem_read p n dst"
  by (auto simp: list_eq_iff_nth_eq nth_mem_read nth_mem_write)

lemma mem_read_split: "mem_read off (a + b) w = mem_read off a w @ mem_read (off + a) b w"
  by (simp add: mem_read_def take_add add.commute)

lemma mem_read_pair: "off + 2 \<le> length w \<Longrightarrow> mem_read off 2 w = [w ! off, w ! Suc off]"
  by (auto simp: list_eq_iff_nth_eq nth_mem_read less_Suc_eq numeral_2_eq_2)

lemma mem_read_all: "mem_read 0 (length xs) xs = xs"
  by (simp add: mem_read_def)

subsection \<open>Sequences of calls\<close>

text \<open>Runs of a state-passing step function: the answers, in order, and the last state.\<close>

fun run_calls :: "('c \<Rightarrow> 's \<Rightarrow> 'a \<times> 's) \<Rightarrow> 'c list \<Rightarrow> 's \<Rightarrow> 'a list \<times> 's" where
  "run_calls f [] s = ([], s)"
| "run_calls f (c # cs) s = (let (a, s) = f c s; (as, s) = run_calls f cs s in (a # as, s))"

subsection \<open>Words\<close>

lemma unat_sub_le: "b \<le> (a :: 'a :: len word) \<Longrightarrow> unat (a - b) = unat a - unat b"
  by (simp add: unat_sub)

lemma unat_add_less:
  "unat (a :: 'a :: len word) + unat b < 2 ^ LENGTH('a) \<Longrightarrow> unat (a + b) = unat a + unat b"
  by (simp add: unat_word_ariths)

lemma unat_mult_less:
  "unat (a :: 'a :: len word) * unat b < 2 ^ LENGTH('a) \<Longrightarrow> unat (a * b) = unat a * unat b"
  by (simp add: unat_word_ariths)

lemma unat_max_word: "unat (- 1 :: 'a :: len word) = 2 ^ LENGTH('a) - 1"
  by transfer (simp add: take_bit_minus_one_eq_mask mask_eq_exp_minus_1 nat_diff_distrib nat_power_eq)

lemma unat_lt_64: "unat (x :: 64 word) < 18446744073709551616"
proof -
  have "unat x < 2 ^ LENGTH(64)" by (rule unsigned_less)
  then show ?thesis by simp
qed

lemma unat_ucast_le:
  "LENGTH('a) \<le> LENGTH('b) \<Longrightarrow> unat (ucast (x :: 'a :: len word) :: 'b :: len word) = unat x"
  by transfer (simp add: take_bit_int_eq_self_iff less_le_trans [OF take_bit_int_less_exp])

end
