(* ===== verification/Base_Result.thy ===== *)
theory Base_Result
  imports Vireo_Prelude
begin

text \<open>
  The result codes every operation returns (\<^verbatim>\<open>include/vireo/base/result.h\<close>,
  \<^verbatim>\<open>src/base/result.c\<close>). The enumeration is a datatype; the query functions take the raw
  enumeration value, because the code defines their behaviour on values outside the enumeration.
\<close>

datatype vireo_result =
    VIREO_OK
  | VIREO_RESULT_INVALID_ARGUMENT
  | VIREO_RESULT_RANGE
  | VIREO_RESULT_OVERFLOW
  | VIREO_RESULT_NO_MEMORY
  | VIREO_RESULT_NOT_FOUND
  | VIREO_RESULT_BUSY
  | VIREO_RESULT_TIMEOUT
  | VIREO_RESULT_CANCELLED
  | VIREO_RESULT_IO
  | VIREO_RESULT_PROTOCOL
  | VIREO_RESULT_DATABASE
  | VIREO_RESULT_INTERNAL

fun vireo_result_code :: "vireo_result \<Rightarrow> int" where
  "vireo_result_code VIREO_OK = 0"
| "vireo_result_code VIREO_RESULT_INVALID_ARGUMENT = 1"
| "vireo_result_code VIREO_RESULT_RANGE = 2"
| "vireo_result_code VIREO_RESULT_OVERFLOW = 3"
| "vireo_result_code VIREO_RESULT_NO_MEMORY = 4"
| "vireo_result_code VIREO_RESULT_NOT_FOUND = 5"
| "vireo_result_code VIREO_RESULT_BUSY = 6"
| "vireo_result_code VIREO_RESULT_TIMEOUT = 7"
| "vireo_result_code VIREO_RESULT_CANCELLED = 8"
| "vireo_result_code VIREO_RESULT_IO = 9"
| "vireo_result_code VIREO_RESULT_PROTOCOL = 10"
| "vireo_result_code VIREO_RESULT_DATABASE = 11"
| "vireo_result_code VIREO_RESULT_INTERNAL = 12"

definition vireo_result_name :: "int \<Rightarrow> string" where
  "vireo_result_name result =
     (if result = vireo_result_code VIREO_OK then ''ok''
      else if result = vireo_result_code VIREO_RESULT_INVALID_ARGUMENT then ''invalid_argument''
      else if result = vireo_result_code VIREO_RESULT_RANGE then ''range''
      else if result = vireo_result_code VIREO_RESULT_BUSY then ''busy''
      else if result = vireo_result_code VIREO_RESULT_CANCELLED then ''cancelled''
      else if result = vireo_result_code VIREO_RESULT_DATABASE then ''database''
      else if result = vireo_result_code VIREO_RESULT_INTERNAL then ''internal''
      else if result = vireo_result_code VIREO_RESULT_IO then ''io''
      else if result = vireo_result_code VIREO_RESULT_NOT_FOUND then ''not_found''
      else if result = vireo_result_code VIREO_RESULT_NO_MEMORY then ''no_memory''
      else if result = vireo_result_code VIREO_RESULT_OVERFLOW then ''overflow''
      else if result = vireo_result_code VIREO_RESULT_PROTOCOL then ''protocol''
      else if result = vireo_result_code VIREO_RESULT_TIMEOUT then ''timeout''
      else ''unknown'')"

definition vireo_result_description :: "int \<Rightarrow> string" where
  "vireo_result_description result =
     (if result = vireo_result_code VIREO_OK then ''success''
      else if result = vireo_result_code VIREO_RESULT_INVALID_ARGUMENT then ''invalid argument''
      else if result = vireo_result_code VIREO_RESULT_RANGE then ''value out of range''
      else if result = vireo_result_code VIREO_RESULT_OVERFLOW then ''arithmetic overflow''
      else if result = vireo_result_code VIREO_RESULT_NO_MEMORY then ''memory allocation failed''
      else if result = vireo_result_code VIREO_RESULT_NOT_FOUND then ''resource not found''
      else if result = vireo_result_code VIREO_RESULT_BUSY then ''resource busy''
      else if result = vireo_result_code VIREO_RESULT_TIMEOUT then ''operation timed out''
      else if result = vireo_result_code VIREO_RESULT_CANCELLED then ''operation cancelled''
      else if result = vireo_result_code VIREO_RESULT_IO then ''I/O operation failed''
      else if result = vireo_result_code VIREO_RESULT_PROTOCOL then ''protocol error''
      else if result = vireo_result_code VIREO_RESULT_DATABASE then ''database error''
      else if result = vireo_result_code VIREO_RESULT_INTERNAL then ''internal error''
      else ''unknown result'')"

definition vireo_result_is_retryable :: "int \<Rightarrow> bool" where
  "vireo_result_is_retryable result \<longleftrightarrow>
     result = vireo_result_code VIREO_RESULT_TIMEOUT \<or> result = vireo_result_code VIREO_RESULT_BUSY"

subsection \<open>Lemmas\<close>

lemma vireo_result_code_inject [simp]: "vireo_result_code a = vireo_result_code b \<longleftrightarrow> a = b"
  by (cases a; cases b; simp)

lemma vireo_result_code_range: "0 \<le> vireo_result_code r \<and> vireo_result_code r \<le> 12"
  by (cases r) simp_all

lemma vireo_result_name_of_code_inject:
  "vireo_result_name (vireo_result_code a) = vireo_result_name (vireo_result_code b) \<longleftrightarrow> a = b"
  by (cases a; cases b; simp add: vireo_result_name_def)

lemma vireo_result_name_known:
  "vireo_result_name r \<noteq> ''unknown'' \<longleftrightarrow> 0 \<le> r \<and> r \<le> 12"
proof
  assume "vireo_result_name r \<noteq> ''unknown''"
  then show "0 \<le> r \<and> r \<le> 12"
    by (simp add: vireo_result_name_def split: if_splits)
next
  assume "0 \<le> r \<and> r \<le> 12"
  then have "r \<in> {0, 1, 2, 3, 4, 5, 6, 7, 8, 9, 10, 11, 12}"
    unfolding insert_iff empty_iff by presburger
  then show "vireo_result_name r \<noteq> ''unknown''"
    by (auto simp: vireo_result_name_def)
qed

end
