(* ===== verification/Base_Checked.thy ===== *)
theory Base_Checked
  imports Base_Result
begin

text \<open>
  Checked arithmetic (\<^verbatim>\<open>src/base/checked.c\<close>): every addition, multiplication, narrowing,
  alignment and range test that the rest of the program does on sizes. The operations work on
  machine words and compare before they compute. The locale \<open>checked_binop\<close> states what a caller
  may rely on, over the exact arithmetic of \<open>nat\<close>; each of the six operations is an
  interpretation of it.
\<close>

definition vireo_checked_size_add :: "size_t \<Rightarrow> size_t \<Rightarrow> size_t option \<Rightarrow> vireo_result \<times> size_t option" where
  "vireo_checked_size_add left right out =
     (case out of
        None \<Rightarrow> (VIREO_RESULT_INVALID_ARGUMENT, None)
      | Some _ \<Rightarrow>
          if right > SIZE_MAX - left then (VIREO_RESULT_OVERFLOW, out)
          else (VIREO_OK, Some (left + right)))"

definition vireo_checked_size_mul :: "size_t \<Rightarrow> size_t \<Rightarrow> size_t option \<Rightarrow> vireo_result \<times> size_t option" where
  "vireo_checked_size_mul left right out =
     (case out of
        None \<Rightarrow> (VIREO_RESULT_INVALID_ARGUMENT, None)
      | Some _ \<Rightarrow>
          if left \<noteq> 0 \<and> right > SIZE_MAX div left then (VIREO_RESULT_OVERFLOW, out)
          else (VIREO_OK, Some (left * right)))"

definition vireo_checked_u32_add :: "u32 \<Rightarrow> u32 \<Rightarrow> u32 option \<Rightarrow> vireo_result \<times> u32 option" where
  "vireo_checked_u32_add left right out =
     (case out of
        None \<Rightarrow> (VIREO_RESULT_INVALID_ARGUMENT, None)
      | Some _ \<Rightarrow>
          if right > UINT32_MAX - left then (VIREO_RESULT_OVERFLOW, out)
          else (VIREO_OK, Some (left + right)))"

definition vireo_checked_u32_mul :: "u32 \<Rightarrow> u32 \<Rightarrow> u32 option \<Rightarrow> vireo_result \<times> u32 option" where
  "vireo_checked_u32_mul left right out =
     (case out of
        None \<Rightarrow> (VIREO_RESULT_INVALID_ARGUMENT, None)
      | Some _ \<Rightarrow>
          if left \<noteq> 0 \<and> right > UINT32_MAX div left then (VIREO_RESULT_OVERFLOW, out)
          else (VIREO_OK, Some (left * right)))"

definition vireo_checked_u64_add :: "u64 \<Rightarrow> u64 \<Rightarrow> u64 option \<Rightarrow> vireo_result \<times> u64 option" where
  "vireo_checked_u64_add left right out =
     (case out of
        None \<Rightarrow> (VIREO_RESULT_INVALID_ARGUMENT, None)
      | Some _ \<Rightarrow>
          if right > UINT64_MAX - left then (VIREO_RESULT_OVERFLOW, out)
          else (VIREO_OK, Some (left + right)))"

definition vireo_checked_u64_mul :: "u64 \<Rightarrow> u64 \<Rightarrow> u64 option \<Rightarrow> vireo_result \<times> u64 option" where
  "vireo_checked_u64_mul left right out =
     (case out of
        None \<Rightarrow> (VIREO_RESULT_INVALID_ARGUMENT, None)
      | Some _ \<Rightarrow>
          if left \<noteq> 0 \<and> right > UINT64_MAX div left then (VIREO_RESULT_OVERFLOW, out)
          else (VIREO_OK, Some (left * right)))"

text \<open>
  On LP64 the preprocessor test \<^verbatim>\<open>SIZE_MAX < UINT64_MAX\<close> is false, so the narrowing check of
  \<open>vireo_checked_u64_to_size\<close> is not compiled.
\<close>

definition vireo_checked_u64_to_size :: "u64 \<Rightarrow> size_t option \<Rightarrow> vireo_result \<times> size_t option" where
  "vireo_checked_u64_to_size v out =
     (case out of
        None \<Rightarrow> (VIREO_RESULT_INVALID_ARGUMENT, None)
      | Some _ \<Rightarrow> (VIREO_OK, Some (ucast v)))"

definition vireo_checked_size_align_up ::
  "size_t \<Rightarrow> size_t \<Rightarrow> size_t option \<Rightarrow> vireo_result \<times> size_t option" where
  "vireo_checked_size_align_up v alignment out =
     (if out = None \<or> alignment = 0 then (VIREO_RESULT_INVALID_ARGUMENT, out)
      else
        let remainder = v mod alignment in
        if remainder = 0 then (VIREO_OK, Some v)
        else
          let increment = alignment - remainder in
          vireo_checked_size_add v increment out)"

definition vireo_checked_size_range :: "size_t \<Rightarrow> size_t \<Rightarrow> size_t \<Rightarrow> vireo_result" where
  "vireo_checked_size_range offset len limit =
     (if offset > limit then VIREO_RESULT_RANGE
      else if len > limit - offset then VIREO_RESULT_RANGE
      else VIREO_OK)"

subsection \<open>What a caller relies on\<close>

locale checked_binop =
  fixes f :: "'a :: len word \<Rightarrow> 'a word \<Rightarrow> 'a word option \<Rightarrow> vireo_result \<times> 'a word option"
    and exact :: "nat \<Rightarrow> nat \<Rightarrow> nat"
  assumes null: "f a b None = (VIREO_RESULT_INVALID_ARGUMENT, None)"
    and fits: "exact (unat a) (unat b) < 2 ^ LENGTH('a) \<Longrightarrow>
      f a b (Some old) = (VIREO_OK, Some (of_nat (exact (unat a) (unat b))))"
    and overflow: "\<not> exact (unat a) (unat b) < 2 ^ LENGTH('a) \<Longrightarrow>
      f a b (Some old) = (VIREO_RESULT_OVERFLOW, Some old)"
begin

lemma cases_Some:
  "f a b (Some old) =
     (if exact (unat a) (unat b) < 2 ^ LENGTH('a)
      then (VIREO_OK, Some (of_nat (exact (unat a) (unat b))))
      else (VIREO_RESULT_OVERFLOW, Some old))"
  by (simp add: fits overflow)

lemma succeeds_iff:
  "fst (f a b out) = VIREO_OK \<longleftrightarrow> out \<noteq> None \<and> exact (unat a) (unat b) < 2 ^ LENGTH('a)"
  by (cases out) (simp_all add: null cases_Some)

lemma result_exact:
  "f a b out = (VIREO_OK, Some c) \<Longrightarrow> unat c = exact (unat a) (unat b)"
  by (cases out) (auto simp: null cases_Some unat_of_nat split: if_splits)

lemma failure_keeps_output: "fst (f a b out) \<noteq> VIREO_OK \<Longrightarrow> snd (f a b out) = out"
  by (cases out) (auto simp: null cases_Some split: if_splits)

lemma only_errors:
  "fst (f a b out) \<in> {VIREO_OK, VIREO_RESULT_INVALID_ARGUMENT, VIREO_RESULT_OVERFLOW}"
  by (cases out) (auto simp: null cases_Some)

end

text \<open>The comparisons made before the wrap-around operations, over exact arithmetic.\<close>

lemma add_overflow_test:
  "(- 1 - a < (b :: 'a :: len word)) \<longleftrightarrow> \<not> unat a + unat b < 2 ^ LENGTH('a)"
proof -
  have "unat (- 1 - a) = 2 ^ LENGTH('a) - 1 - unat a"
    by (simp add: unat_sub unat_max_word)
  moreover have "unat a < 2 ^ LENGTH('a)" by simp
  ultimately show ?thesis
    unfolding word_less_nat_alt by linarith
qed

lemma mul_overflow_test:
  "a \<noteq> 0 \<Longrightarrow> (- 1 div a < (b :: 'a :: len word)) \<longleftrightarrow> \<not> unat a * unat b < 2 ^ LENGTH('a)"
proof -
  assume "a \<noteq> 0"
  then have a: "0 < unat a" by (simp add: unat_gt_0)
  have "unat (- 1 div a) = (2 ^ LENGTH('a) - 1) div unat a"
    by (simp add: unat_div unat_max_word)
  moreover have "(2 ^ LENGTH('a) - 1) div unat a < unat b \<longleftrightarrow> 2 ^ LENGTH('a) - 1 < unat a * unat b"
    using a by (simp add: div_less_iff_less_mult mult.commute)
  moreover have "(1 :: nat) \<le> 2 ^ LENGTH('a)" by simp
  ultimately show ?thesis
    unfolding word_less_nat_alt by linarith
qed

lemma mul_overflow_test_full:
  "(a \<noteq> 0 \<and> - 1 div a < (b :: 'a :: len word)) \<longleftrightarrow> \<not> unat a * unat b < 2 ^ LENGTH('a)"
  by (cases "a = 0") (simp_all add: mul_overflow_test)

interpretation size_add: checked_binop vireo_checked_size_add "(+)"
  by unfold_locales
    (simp_all add: vireo_checked_size_add_def add_overflow_test [where 'a = 64, simplified])

interpretation size_mul: checked_binop vireo_checked_size_mul "(*)"
  by unfold_locales
    (simp_all add: vireo_checked_size_mul_def mul_overflow_test_full [where 'a = 64, simplified])

interpretation u32_add: checked_binop vireo_checked_u32_add "(+)"
  by unfold_locales
    (simp_all add: vireo_checked_u32_add_def add_overflow_test [where 'a = 32, simplified])

interpretation u32_mul: checked_binop vireo_checked_u32_mul "(*)"
  by unfold_locales
    (simp_all add: vireo_checked_u32_mul_def mul_overflow_test_full [where 'a = 32, simplified])

interpretation u64_add: checked_binop vireo_checked_u64_add "(+)"
  by unfold_locales
    (simp_all add: vireo_checked_u64_add_def add_overflow_test [where 'a = 64, simplified])

interpretation u64_mul: checked_binop vireo_checked_u64_mul "(*)"
  by unfold_locales
    (simp_all add: vireo_checked_u64_mul_def mul_overflow_test_full [where 'a = 64, simplified])

lemma size_add_Some:
  "vireo_checked_size_add a b (Some old) =
     (if unat a + unat b < 2 ^ 64 then (VIREO_OK, Some (a + b)) else (VIREO_RESULT_OVERFLOW, Some old))"
  using size_add.cases_Some [of a b old] by simp

lemma size_mul_Some:
  "vireo_checked_size_mul a b (Some old) =
     (if unat a * unat b < 2 ^ 64 then (VIREO_OK, Some (a * b)) else (VIREO_RESULT_OVERFLOW, Some old))"
  using size_mul.cases_Some [of a b old] by simp

lemma u64_add_Some:
  "vireo_checked_u64_add a b (Some old) =
     (if unat a + unat b < 2 ^ 64 then (VIREO_OK, Some (a + b)) else (VIREO_RESULT_OVERFLOW, Some old))"
  using u64_add.cases_Some [of a b old] by simp

lemma u64_mul_Some:
  "vireo_checked_u64_mul a b (Some old) =
     (if unat a * unat b < 2 ^ 64 then (VIREO_OK, Some (a * b)) else (VIREO_RESULT_OVERFLOW, Some old))"
  using u64_mul.cases_Some [of a b old] by simp

lemmas checked_Some = size_add_Some size_mul_Some u64_add_Some u64_mul_Some

lemma size_range_OK:
  "vireo_checked_size_range off len limit = VIREO_OK \<longleftrightarrow> unat off + unat len \<le> unat limit"
proof (cases "off \<le> limit")
  case True
  then have "unat (limit - off) = unat limit - unat off" and "unat off \<le> unat limit"
    by (simp_all add: unat_sub word_le_nat_alt)
  then show ?thesis
    using True by (auto simp: vireo_checked_size_range_def word_less_nat_alt word_le_nat_alt not_less)
next
  case False
  then show ?thesis
    by (auto simp: vireo_checked_size_range_def word_less_nat_alt word_le_nat_alt not_less)
qed

lemma size_range_cases: "vireo_checked_size_range off len limit \<in> {VIREO_OK, VIREO_RESULT_RANGE}"
  by (simp add: vireo_checked_size_range_def)

text \<open>
  Checked addition and multiplication of sizes are exact arithmetic: with a writable output
  they succeed precisely when the mathematical result fits in 64 bits, the value written is that
  result, and a failing call reports overflow and leaves the output unchanged; a NULL output is
  rejected.
\<close>

theorem checked_size_ops_exact:
  "vireo_checked_size_add a b out =
     (case out of None \<Rightarrow> (VIREO_RESULT_INVALID_ARGUMENT, None)
      | Some old \<Rightarrow>
          if unat a + unat b < 2 ^ 64 then (VIREO_OK, Some (word_of_nat (unat a + unat b)))
          else (VIREO_RESULT_OVERFLOW, Some old))
   \<and> vireo_checked_size_mul a b out =
     (case out of None \<Rightarrow> (VIREO_RESULT_INVALID_ARGUMENT, None)
      | Some old \<Rightarrow>
          if unat a * unat b < 2 ^ 64 then (VIREO_OK, Some (word_of_nat (unat a * unat b)))
          else (VIREO_RESULT_OVERFLOW, Some old))"
  by (cases out) (simp_all add: size_add.null size_mul.null size_add_Some size_mul_Some)

subsection \<open>Alignment\<close>

definition align_spec :: "nat \<Rightarrow> nat \<Rightarrow> nat" where
  "align_spec v al = (if v mod al = 0 then v else v + (al - v mod al))"

lemma align_spec_least:
  assumes "0 < al"
  shows "al dvd align_spec v al" and "v \<le> align_spec v al"
    and "al dvd m \<Longrightarrow> v \<le> m \<Longrightarrow> align_spec v al \<le> m"
proof -
  have split: "v = al * (v div al) + v mod al" by simp
  have small: "v mod al < al" using assms by simp
  show "al dvd align_spec v al"
  proof (cases "v mod al = 0")
    case False
    then have "align_spec v al = v + (al - v mod al)" by (simp add: align_spec_def)
    then have "align_spec v al = al * (v div al) + al" using split small by linarith
    then show ?thesis by simp
  qed (auto simp: align_spec_def)
  show "v \<le> align_spec v al" by (simp add: align_spec_def)
  assume "al dvd m" and "v \<le> m"
  then obtain k where m: "m = al * k" by (elim dvdE)
  show "align_spec v al \<le> m"
  proof (cases "v mod al = 0")
    case False
    then have "al * (v div al) < al * k" using m \<open>v \<le> m\<close> split by linarith
    then have "Suc (v div al) \<le> k" by simp
    then have "al * Suc (v div al) \<le> al * k" by (rule mult_le_mono2)
    then have "al * (v div al) + al \<le> m" using m by simp
    moreover have "align_spec v al = v + (al - v mod al)" using False by (simp add: align_spec_def)
    ultimately show ?thesis using split small by linarith
  qed (use \<open>v \<le> m\<close> in \<open>auto simp: align_spec_def\<close>)
qed

lemma align_up_eq:
  assumes "al \<noteq> 0"
  shows "vireo_checked_size_align_up v al (Some old) =
     (if align_spec (unat v) (unat al) < 2 ^ 64
      then (VIREO_OK, Some (word_of_nat (align_spec (unat v) (unat al))))
      else (VIREO_RESULT_OVERFLOW, Some old))"
proof -
  have "v mod al \<le> al"
    using assms by (simp add: word_le_nat_alt unat_mod unat_gt_0 less_imp_le)
  then have inc: "unat (al - v mod al) = unat al - unat v mod unat al"
    by (simp add: unat_sub unat_mod)
  have zero: "v mod al = 0 \<longleftrightarrow> unat v mod unat al = 0"
    by (metis unat_eq_zero unat_mod)
  show ?thesis
  proof (cases "v mod al = 0")
    case True
    then have "align_spec (unat v) (unat al) = unat v" using zero by (simp add: align_spec_def)
    with True show ?thesis
      using assms unat_lt_64 [of v] by (simp add: vireo_checked_size_align_up_def)
  next
    case False
    then have "align_spec (unat v) (unat al) = unat v + unat (al - v mod al)"
      using zero by (simp add: align_spec_def inc)
    with False show ?thesis
      using assms by (simp add: vireo_checked_size_align_up_def Let_def size_add_Some)
  qed
qed

text \<open>
  Aligning a size up returns the least multiple of a non-zero alignment that is not below the
  value, whatever the alignment (it need not be a power of two), and reports overflow exactly when
  no such multiple fits in 64 bits.
\<close>

theorem checked_align_up_least:
  assumes "al \<noteq> 0"
  shows "(\<exists>r. vireo_checked_size_align_up v al (Some old) = (VIREO_OK, Some r) \<and>
             unat al dvd unat r \<and> unat v \<le> unat r \<and>
             (\<forall>m. unat al dvd m \<and> unat v \<le> m \<longrightarrow> unat r \<le> m))
     \<or> (vireo_checked_size_align_up v al (Some old) = (VIREO_RESULT_OVERFLOW, Some old) \<and>
        (\<forall>m. unat al dvd m \<and> unat v \<le> m \<longrightarrow> 2 ^ 64 \<le> m))"
proof -
  let ?m = "align_spec (unat v) (unat al)"
  have "0 < unat al" using assms by (simp add: unat_gt_0)
  note least = align_spec_least(1,2) [OF this, of "unat v"] align_spec_least(3) [OF this, of _ "unat v"]
  show ?thesis
  proof (cases "?m < 2 ^ 64")
    case True
    then have "unat (word_of_nat ?m :: size_t) = ?m" by (simp add: unat_of_nat)
    with True least show ?thesis by (auto simp: align_up_eq [OF assms])
  next
    case False
    have "2 ^ 64 \<le> m" if "unat al dvd m \<and> unat v \<le> m" for m
      using least(3) [of m] that False by linarith
    with False show ?thesis by (simp add: align_up_eq [OF assms])
  qed
qed

theorem checked_align_up_least_witness:
  "vireo_checked_size_align_up 13 8 (Some 0) = (VIREO_OK, Some 16) \<and> 8 dvd unat (16 :: size_t)"
proof -
  have "(8 :: size_t) \<noteq> 0" by simp
  from checked_align_up_least [OF this, of 13 0] show ?thesis
    by (simp add: vireo_checked_size_align_up_def vireo_checked_size_add_def)
qed

end
