(* ===== verification/Base_Memory.thy ===== *)
theory Base_Memory
  imports Base_Checked
begin

text \<open>
  The C allocator and the secure clear. The code takes memory from an allocate/deallocate pair
  (malloc and free in production, a fault-injecting pair in its own tests). The model keeps the
  number of allocation requests made, the calls that fail, the blocks that are live, the byte that
  fresh memory happens to hold, and the contents of every block at the moment it was released: so
  \<^emph>\<open>nothing leaks\<close>, \<^emph>\<open>nothing is released twice\<close> and \<^emph>\<open>secrets are erased before release\<close> are
  statements about the model. \<open>vireo_secure_clear\<close> is \<^verbatim>\<open>src/base/secure_clear.c\<close>.
\<close>

record vireo_heap =
  heap_calls :: nat
  heap_failing :: "nat list"
  heap_live :: "(nat \<times> nat) list"
  heap_fill :: u8
  heap_released :: "bytes list"

definition allocate_default :: "vireo_heap \<Rightarrow> size_t \<Rightarrow> nat option \<times> vireo_heap" where
  "allocate_default h sz =
     (let n = heap_calls h; h' = h\<lparr>heap_calls := Suc n\<rparr> in
      if n \<in> set (heap_failing h) then (None, h')
      else (Some n, h'\<lparr>heap_live := (n, unat sz) # heap_live h\<rparr>))"

definition deallocate_default :: "vireo_heap \<Rightarrow> nat \<Rightarrow> bytes \<Rightarrow> vireo_heap" where
  "deallocate_default h block contents =
     h\<lparr>heap_live := filter (\<lambda>(b, _). b \<noteq> block) (heap_live h),
       heap_released := contents # heap_released h\<rparr>"

definition fresh_bytes :: "vireo_heap \<Rightarrow> size_t \<Rightarrow> bytes" where
  "fresh_bytes h sz = replicate (unat sz) (heap_fill h)"

fun secure_clear_loop :: "nat \<Rightarrow> nat \<Rightarrow> bytes \<Rightarrow> bytes" where
  "secure_clear_loop pos 0 region = region"
| "secure_clear_loop pos (Suc sz) region =
     secure_clear_loop (Suc pos) sz (mem_write pos [0] region)"

definition vireo_secure_clear :: "bytes option \<Rightarrow> size_t \<Rightarrow> vireo_result \<times> bytes option" where
  "vireo_secure_clear data sz =
     (if sz \<noteq> 0 \<and> data = None then (VIREO_RESULT_INVALID_ARGUMENT, None)
      else (VIREO_OK, map_option (secure_clear_loop 0 (unat sz)) data))"

text \<open>Clearing \<open>sz\<close> bytes of a region from an offset on, as \<^verbatim>\<open>vireo_secure_clear(p + off, sz)\<close>.\<close>

definition clear_at :: "nat \<Rightarrow> size_t \<Rightarrow> bytes \<Rightarrow> bytes" where
  "clear_at off sz region =
     take off region @ the (snd (vireo_secure_clear (Some (drop off region)) sz))"

definition heap_wf :: "vireo_heap \<Rightarrow> bool" where
  "heap_wf h \<longleftrightarrow> distinct (map fst (heap_live h)) \<and> (\<forall>b \<in> set (map fst (heap_live h)). b < heap_calls h)"

text \<open>A concrete allocator: its fourth request fails and fresh memory reads as 0xA5.\<close>

definition demo_heap :: vireo_heap where
  "demo_heap = \<lparr>heap_calls = 0, heap_failing = [3], heap_live = [], heap_fill = 165, heap_released = []\<rparr>"

subsection \<open>Lemmas\<close>

lemma secure_clear_loop_eq:
  "pos + n \<le> length region \<Longrightarrow>
   secure_clear_loop pos n region = mem_write pos (replicate n 0) region"
proof (induction pos n region rule: secure_clear_loop.induct)
  case (1 pos region)
  then show ?case by simp
next
  case (2 pos sz region)
  then have "secure_clear_loop (Suc pos) sz (mem_write pos [0] region)
      = mem_write (Suc pos) (replicate sz 0) (mem_write pos [0] region)"
    by simp
  also have "\<dots> = mem_write pos (replicate (Suc sz) 0) region"
    using "2.prems"
    by (simp add: mem_write_def min_def add.commute)
  finally show ?case by simp
qed

lemma clear_at_eq:
  "off + unat sz \<le> length region \<Longrightarrow> clear_at off sz region = mem_write off (replicate (unat sz) 0) region"
  by (simp add: clear_at_def vireo_secure_clear_def secure_clear_loop_eq mem_write_def add.commute)

lemma length_clear_at [simp]:
  "off + unat sz \<le> length region \<Longrightarrow> length (clear_at off sz region) = length region"
  by (simp add: clear_at_eq)

lemma clear_at_all: "unat sz = length region \<Longrightarrow> clear_at 0 sz region = replicate (length region) 0"
  by (simp add: clear_at_eq mem_write_def)

lemma allocate_wf: "heap_wf h \<Longrightarrow> allocate_default h n = (r, h') \<Longrightarrow> heap_wf h'"
  by (force simp: heap_wf_def allocate_default_def Let_def split: if_splits)

lemma allocate_None:
  "allocate_default h n = (None, h') \<Longrightarrow> heap_live h' = heap_live h \<and> heap_released h' = heap_released h
     \<and> heap_fill h' = heap_fill h"
  by (auto simp: allocate_default_def Let_def split: if_splits)

lemma allocate_Some:
  "allocate_default h n = (Some b, h') \<Longrightarrow>
     heap_live h' = (b, unat n) # heap_live h \<and> heap_released h' = heap_released h
     \<and> heap_fill h' = heap_fill h \<and> b = heap_calls h \<and> heap_calls h' = Suc (heap_calls h)"
  by (auto simp: allocate_default_def Let_def split: if_splits)

lemma deallocate_wf: "heap_wf h \<Longrightarrow> heap_wf (deallocate_default h b c)"
proof -
  assume wf: "heap_wf h"
  have "distinct (map fst (filter P xs))" if "distinct (map fst xs)" for P and xs :: "(nat \<times> nat) list"
    using that by (simp add: distinct_map_filter)
  with wf show ?thesis
    by (auto simp: heap_wf_def deallocate_default_def)
qed

lemma filter_fresh_block:
  "heap_wf h \<Longrightarrow> heap_calls h \<le> b \<Longrightarrow> filter (\<lambda>(x, _). x \<noteq> b) (heap_live h) = heap_live h"
  by (auto simp: heap_wf_def filter_id_conv)

lemma released_set:
  assumes "b \<notin> fst ` base"
  shows "{x \<in> insert (b, n) base. case x of (y, _) \<Rightarrow> y \<noteq> b} = base"
proof -
  have "y \<noteq> b" if "(y, m) \<in> base" for y m
    using assms that by (metis fst_conv imageI)
  then show ?thesis by auto
qed

lemma set_deallocate:
  "set (heap_live h) = insert (b, n) base \<Longrightarrow> b \<notin> fst ` base \<Longrightarrow>
   set (heap_live (deallocate_default h b c)) = base"
  using released_set [of b base n] by (simp add: deallocate_default_def)

lemma demo_heap_wf: "heap_wf demo_heap"
  by (simp add: heap_wf_def demo_heap_def)

end
