(* ===== verification/Base_Buffer.thy ===== *)
theory Base_Buffer
  imports Base_Memory
begin

text \<open>
  The bounded byte buffer (\<^verbatim>\<open>src/base/buffer.c\<close>): contiguous storage with a read and a write
  index, full appends, prefix consumption with erasure, and explicit compaction, growth and
  shrinking through a storage swap. \<open>buf_bytes\<close> is what the buffer stands for, a byte queue; the
  locale \<open>byte_fifo\<close> is the queue contract that the connection layer relies on.
\<close>

abbreviation VIREO_BUFFER_MAX_CAPACITY :: size_t where
  "VIREO_BUFFER_MAX_CAPACITY \<equiv> 67108864"

text \<open>\<^verbatim>\<open>sizeof(struct vireo_buffer)\<close>: four 8-byte fields and a three-pointer allocator table.\<close>

abbreviation sizeof_vireo_buffer :: size_t where
  "sizeof_vireo_buffer \<equiv> 56"

text \<open>The allocator table: which of its two callbacks is set.\<close>

record vireo_buffer_allocator =
  ba_allocate :: bool
  ba_deallocate :: bool

record vireo_buffer =
  b_data :: bytes
  b_capacity :: size_t
  b_read_index :: size_t
  b_write_index :: size_t
  b_block :: nat
  b_self :: nat

record vireo_buffer_info =
  bi_capacity :: size_t
  bi_readable_size :: size_t
  bi_tail_space :: size_t

definition vireo_buffer_create_with_allocator ::
  "size_t \<Rightarrow> vireo_buffer_allocator option \<Rightarrow> vireo_buffer option option \<Rightarrow> vireo_heap \<Rightarrow>
   vireo_result \<times> vireo_buffer option option \<times> vireo_heap" where
  "vireo_buffer_create_with_allocator capacity allocator out_buffer heap =
     (if out_buffer = None \<or> the out_buffer \<noteq> None \<or> allocator = None \<or>
         \<not> ba_allocate (the allocator) \<or> \<not> ba_deallocate (the allocator)
      then (VIREO_RESULT_INVALID_ARGUMENT, out_buffer, heap)
      else if capacity = 0 \<or> capacity > VIREO_BUFFER_MAX_CAPACITY
      then (VIREO_RESULT_RANGE, out_buffer, heap)
      else
        let (candidate, heap) = allocate_default heap sizeof_vireo_buffer in
        case candidate of
          None \<Rightarrow> (VIREO_RESULT_NO_MEMORY, out_buffer, heap)
        | Some self \<Rightarrow>
            let (data, heap) = allocate_default heap capacity in
            (case data of
               None \<Rightarrow>
                 (VIREO_RESULT_NO_MEMORY, out_buffer,
                  deallocate_default heap self
                    (clear_at 0 sizeof_vireo_buffer (fresh_bytes heap sizeof_vireo_buffer)))
             | Some block \<Rightarrow>
                 (VIREO_OK,
                  Some (Some \<lparr>b_data = fresh_bytes heap capacity, b_capacity = capacity,
                              b_read_index = 0, b_write_index = 0,
                              b_block = block, b_self = self\<rparr>),
                  heap)))"

definition vireo_buffer_create ::
  "size_t \<Rightarrow> vireo_buffer option option \<Rightarrow> vireo_heap \<Rightarrow>
   vireo_result \<times> vireo_buffer option option \<times> vireo_heap" where
  "vireo_buffer_create capacity out_buffer heap =
     vireo_buffer_create_with_allocator capacity
       (Some \<lparr>ba_allocate = True, ba_deallocate = True\<rparr>) out_buffer heap"

definition vireo_buffer_destroy ::
  "vireo_buffer option option \<Rightarrow> vireo_heap \<Rightarrow> vireo_result \<times> vireo_buffer option option \<times> vireo_heap" where
  "vireo_buffer_destroy buffer heap =
     (case buffer of
        None \<Rightarrow> (VIREO_RESULT_INVALID_ARGUMENT, buffer, heap)
      | Some None \<Rightarrow> (VIREO_OK, buffer, heap)
      | Some (Some owned) \<Rightarrow>
          let heap = deallocate_default heap (b_block owned)
                       (clear_at 0 (b_capacity owned) (b_data owned));
              heap = deallocate_default heap (b_self owned)
                       (clear_at 0 sizeof_vireo_buffer (fresh_bytes heap sizeof_vireo_buffer))
          in (VIREO_OK, Some None, heap))"

definition vireo_buffer_inspect ::
  "vireo_buffer option \<Rightarrow> vireo_buffer_info option \<Rightarrow> vireo_result \<times> vireo_buffer_info option" where
  "vireo_buffer_inspect buffer out_info =
     (case (buffer, out_info) of
        (Some b, Some _) \<Rightarrow>
          (VIREO_OK, Some \<lparr>bi_capacity = b_capacity b,
                           bi_readable_size = b_write_index b - b_read_index b,
                           bi_tail_space = b_capacity b - b_write_index b\<rparr>)
      | _ \<Rightarrow> (VIREO_RESULT_INVALID_ARGUMENT, out_info))"

definition vireo_buffer_append ::
  "vireo_buffer option \<Rightarrow> bytes option \<Rightarrow> size_t \<Rightarrow> vireo_result \<times> vireo_buffer option" where
  "vireo_buffer_append buffer data sz =
     (if buffer = None \<or> (sz \<noteq> 0 \<and> data = None) then (VIREO_RESULT_INVALID_ARGUMENT, buffer)
      else
        let b = the buffer;
            (result, next_write) = vireo_checked_size_add (b_write_index b) sz (Some 0) in
        if result \<noteq> VIREO_OK then (result, buffer)
        else
          let result = vireo_checked_size_range (b_write_index b) sz (b_capacity b) in
          if result \<noteq> VIREO_OK then (result, buffer)
          else
            let b = (if sz \<noteq> 0
                     then b\<lparr>b_data := mem_write (unat (b_write_index b))
                                        (take (unat sz) (the data)) (b_data b)\<rparr>
                     else b)
            in (VIREO_OK, Some (b\<lparr>b_write_index := the next_write\<rparr>)))"

text \<open>The borrowed view: NULL when nothing is readable, else the region from the read index on.\<close>

definition vireo_buffer_peek ::
  "vireo_buffer option \<Rightarrow> bytes option option \<Rightarrow> size_t option \<Rightarrow>
   vireo_result \<times> bytes option option \<times> size_t option" where
  "vireo_buffer_peek buffer out_data out_size =
     (if buffer = None \<or> out_data = None \<or> out_size = None
      then (VIREO_RESULT_INVALID_ARGUMENT, out_data, out_size)
      else
        let b = the buffer; sz = b_write_index b - b_read_index b in
        (VIREO_OK,
         Some (if sz = 0 then None else Some (drop (unat (b_read_index b)) (b_data b))),
         Some sz))"

definition vireo_buffer_consume :: "vireo_buffer option \<Rightarrow> size_t \<Rightarrow> vireo_result \<times> vireo_buffer option" where
  "vireo_buffer_consume buffer sz =
     (case buffer of
        None \<Rightarrow> (VIREO_RESULT_INVALID_ARGUMENT, buffer)
      | Some b \<Rightarrow>
          let result = vireo_checked_size_range (b_read_index b) sz (b_write_index b) in
          if result \<noteq> VIREO_OK then (result, buffer)
          else
            let b = b\<lparr>b_data := clear_at (unat (b_read_index b)) sz (b_data b)\<rparr>;
                b = b\<lparr>b_read_index := b_read_index b + sz\<rparr>
            in (VIREO_OK,
                Some (if b_read_index b = b_write_index b
                      then b\<lparr>b_read_index := 0, b_write_index := 0\<rparr> else b)))"

definition vireo_buffer_compact :: "vireo_buffer option \<Rightarrow> vireo_result \<times> vireo_buffer option" where
  "vireo_buffer_compact buffer =
     (case buffer of
        None \<Rightarrow> (VIREO_RESULT_INVALID_ARGUMENT, buffer)
      | Some b \<Rightarrow>
          let readable = b_write_index b - b_read_index b;
              moved = (if readable \<noteq> 0 \<and> b_read_index b \<noteq> 0
                       then mem_write 0 (mem_read (unat (b_read_index b)) (unat readable) (b_data b))
                              (b_data b)
                       else b_data b);
              cleared = clear_at (unat readable) (b_write_index b - readable) moved
          in (VIREO_OK,
              Some (b\<lparr>b_data := cleared, b_read_index := 0, b_write_index := readable\<rparr>)))"

definition replace_storage ::
  "vireo_buffer \<Rightarrow> size_t \<Rightarrow> vireo_heap \<Rightarrow> vireo_result \<times> vireo_buffer \<times> vireo_heap" where
  "replace_storage b capacity heap =
     (let readable = b_write_index b - b_read_index b;
          (candidate, heap) = allocate_default heap capacity
      in case candidate of
           None \<Rightarrow> (VIREO_RESULT_NO_MEMORY, b, heap)
         | Some block \<Rightarrow>
             let data = (if readable \<noteq> 0
                         then mem_write 0 (mem_read (unat (b_read_index b)) (unat readable) (b_data b))
                                (fresh_bytes heap capacity)
                         else fresh_bytes heap capacity);
                 heap = deallocate_default heap (b_block b) (clear_at 0 (b_capacity b) (b_data b))
             in (VIREO_OK,
                 b\<lparr>b_data := data, b_capacity := capacity, b_read_index := 0,
                   b_write_index := readable, b_block := block\<rparr>,
                 heap))"

definition vireo_buffer_reserve ::
  "vireo_buffer option \<Rightarrow> size_t \<Rightarrow> vireo_heap \<Rightarrow> vireo_result \<times> vireo_buffer option \<times> vireo_heap" where
  "vireo_buffer_reserve buffer min_tail_space heap =
     (case buffer of
        None \<Rightarrow> (VIREO_RESULT_INVALID_ARGUMENT, buffer, heap)
      | Some b \<Rightarrow>
          let readable = b_write_index b - b_read_index b;
              (result, required) = vireo_checked_size_add readable min_tail_space (Some 0) in
          if result \<noteq> VIREO_OK then (result, buffer, heap)
          else if the required > VIREO_BUFFER_MAX_CAPACITY then (VIREO_RESULT_RANGE, buffer, heap)
          else if min_tail_space \<le> b_capacity b - b_write_index b then (VIREO_OK, buffer, heap)
          else if the required \<le> b_capacity b
          then (let (result, buffer') = vireo_buffer_compact buffer in (result, buffer', heap))
          else
            let (result, next_capacity) =
                  (if b_capacity b \<le> VIREO_BUFFER_MAX_CAPACITY div 2
                   then vireo_checked_size_mul (b_capacity b) 2 (Some VIREO_BUFFER_MAX_CAPACITY)
                   else (VIREO_OK, Some VIREO_BUFFER_MAX_CAPACITY)) in
            if result \<noteq> VIREO_OK then (result, buffer, heap)
            else
              let next_capacity =
                    (if the next_capacity < the required then the required else the next_capacity);
                  (result, b', heap) = replace_storage b next_capacity heap
              in (result, Some b', heap))"

definition vireo_buffer_shrink ::
  "vireo_buffer option \<Rightarrow> size_t \<Rightarrow> vireo_heap \<Rightarrow> vireo_result \<times> vireo_buffer option \<times> vireo_heap" where
  "vireo_buffer_shrink buffer capacity heap =
     (case buffer of
        None \<Rightarrow> (VIREO_RESULT_INVALID_ARGUMENT, buffer, heap)
      | Some b \<Rightarrow>
          let readable = b_write_index b - b_read_index b in
          if capacity = 0 \<or> capacity > b_capacity b \<or> capacity < readable
          then (VIREO_RESULT_RANGE, buffer, heap)
          else if capacity = b_capacity b then (VIREO_OK, buffer, heap)
          else
            let (result, b', heap) = replace_storage b capacity heap
            in (result, Some b', heap))"

subsection \<open>Invariant and abstraction\<close>

definition buf_inv :: "vireo_buffer \<Rightarrow> bool" where
  "buf_inv b \<longleftrightarrow>
     unat (b_read_index b) \<le> unat (b_write_index b) \<and>
     unat (b_write_index b) \<le> unat (b_capacity b) \<and>
     length (b_data b) = unat (b_capacity b) \<and>
     0 < unat (b_capacity b) \<and> unat (b_capacity b) \<le> 67108864"

definition buf_bytes :: "vireo_buffer \<Rightarrow> bytes" where
  "buf_bytes b =
     mem_read (unat (b_read_index b)) (unat (b_write_index b) - unat (b_read_index b)) (b_data b)"

text \<open>No byte outside the readable range holds anything but zero or what fresh memory held.\<close>

definition buf_clean :: "u8 \<Rightarrow> vireo_buffer \<Rightarrow> bool" where
  "buf_clean fill b \<longleftrightarrow>
     (\<forall>i < length (b_data b).
        i < unat (b_read_index b) \<or> unat (b_write_index b) \<le> i \<longrightarrow> b_data b ! i \<in> {0, fill})"

subsection \<open>Reading moved and extended regions\<close>

lemma mem_read_write_extend:
  "r \<le> w \<Longrightarrow> w + length xs \<le> length d \<Longrightarrow>
   mem_read r (w + length xs - r) (mem_write w xs d) = mem_read r (w - r) d @ xs"
  by (simp add: mem_read_def mem_write_def drop_take)

lemma mem_read_write_prefix:
  "r + length xs \<le> w \<Longrightarrow> w \<le> length d \<Longrightarrow>
   mem_read (r + length xs) (w - (r + length xs)) (mem_write r xs d) = drop (length xs) (mem_read r (w - r) d)"
  by (simp add: mem_read_def mem_write_def drop_take add.commute)

lemma mem_read_moved:
  "k + length ys \<le> length d \<Longrightarrow> length xs = k \<Longrightarrow>
   mem_read 0 k (mem_write k ys (mem_write 0 xs d)) = xs"
  by (simp add: mem_read_def mem_write_def)

lemma length_buf_bytes [simp]:
  "buf_inv b \<Longrightarrow> length (buf_bytes b) = unat (b_write_index b) - unat (b_read_index b)"
  by (simp add: buf_inv_def buf_bytes_def)

lemma unat_readable:
  "buf_inv b \<Longrightarrow> unat (b_write_index b - b_read_index b) = unat (b_write_index b) - unat (b_read_index b)"
  by (simp add: buf_inv_def unat_sub word_le_nat_alt)

lemma unat_tail:
  "buf_inv b \<Longrightarrow> unat (b_capacity b - b_write_index b) = unat (b_capacity b) - unat (b_write_index b)"
  by (simp add: buf_inv_def unat_sub word_le_nat_alt)

subsection \<open>Each operation, on every branch\<close>

lemma append_eq:
  assumes inv: "buf_inv b" and src: "unat sz \<le> length src"
  shows "vireo_buffer_append (Some b) (Some src) sz =
     (if unat (b_write_index b) + unat sz \<le> unat (b_capacity b)
      then (VIREO_OK, Some (b\<lparr>b_data := mem_write (unat (b_write_index b)) (take (unat sz) src) (b_data b),
                                b_write_index := b_write_index b + sz\<rparr>))
      else if unat (b_write_index b) + unat sz < 2 ^ 64 then (VIREO_RESULT_RANGE, Some b)
      else (VIREO_RESULT_OVERFLOW, Some b))"
proof -
  have "unat (b_capacity b) \<le> 67108864" using inv by (simp add: buf_inv_def)
  then show ?thesis
    using size_range_OK [of "b_write_index b" sz "b_capacity b"]
      size_range_cases [of "b_write_index b" sz "b_capacity b"]
    by (cases "sz = 0") (auto simp: vireo_buffer_append_def size_add_Some Let_def)
qed

lemma append_refines:
  assumes "buf_inv b" and "unat sz \<le> length src"
    and "unat (b_write_index b) + unat sz \<le> unat (b_capacity b)"
    and "b' = b\<lparr>b_data := mem_write (unat (b_write_index b)) (take (unat sz) src) (b_data b),
               b_write_index := b_write_index b + sz\<rparr>"
  shows "buf_inv b'" and "buf_bytes b' = buf_bytes b @ take (unat sz) src"
    and "buf_clean fill b \<Longrightarrow> buf_clean fill b'"
proof -
  have "unat (b_write_index b) + unat sz < 2 ^ 64" using assms(1,3) by (simp add: buf_inv_def)
  then have w: "unat (b_write_index b + sz) = unat (b_write_index b) + unat sz"
    by (simp add: unat_add_less)
  have inv: "unat (b_read_index b) \<le> unat (b_write_index b)" "length (b_data b) = unat (b_capacity b)"
    using assms(1) by (simp_all add: buf_inv_def)
  have len: "length (take (unat sz) src) = unat sz" using assms(2) by simp
  show "buf_inv b'" using assms(1,2,3) w len by (simp add: buf_inv_def assms(4))
  show "buf_bytes b' = buf_bytes b @ take (unat sz) src"
    using mem_read_write_extend [of "unat (b_read_index b)" "unat (b_write_index b)" "take (unat sz) src" "b_data b"]
      inv assms(3) len by (simp add: buf_bytes_def assms(4) w)
  show "buf_clean fill b \<Longrightarrow> buf_clean fill b'"
    using inv assms(3) len by (auto simp: buf_clean_def assms(4) w nth_mem_write)
qed

lemma consume_eq:
  assumes inv: "buf_inv b"
  shows "vireo_buffer_consume (Some b) sz =
     (if unat sz \<le> length (buf_bytes b)
      then (VIREO_OK,
            Some (let b1 = b\<lparr>b_data := mem_write (unat (b_read_index b)) (replicate (unat sz) 0) (b_data b),
                             b_read_index := b_read_index b + sz\<rparr>
                  in if unat sz = length (buf_bytes b) then b1\<lparr>b_read_index := 0, b_write_index := 0\<rparr>
                     else b1))
      else (VIREO_RESULT_RANGE, Some b))"
proof -
  have b: "unat (b_read_index b) \<le> unat (b_write_index b)" "unat (b_write_index b) \<le> length (b_data b)"
    "unat (b_write_index b) \<le> 67108864"
    using inv by (auto simp: buf_inv_def)
  have clear: "clear_at (unat (b_read_index b)) sz (b_data b)
      = mem_write (unat (b_read_index b)) (replicate (unat sz) 0) (b_data b)"
    if "unat sz \<le> length (buf_bytes b)"
    using that b inv by (intro clear_at_eq) simp
  have eq: "b_read_index b + sz = b_write_index b \<longleftrightarrow> unat sz = length (buf_bytes b)"
    if "unat sz \<le> length (buf_bytes b)"
  proof -
    have "unat (b_read_index b + sz) = unat (b_read_index b) + unat sz"
      using that b inv by (intro unat_add_less) simp
    then show ?thesis
      using that b inv unsigned_word_eqI [of "b_read_index b + sz" "b_write_index b", where ?'a = nat]
      by auto
  qed
  show ?thesis
    using size_range_OK [of "b_read_index b" sz "b_write_index b"] inv b
      size_range_cases [of "b_read_index b" sz "b_write_index b"] clear eq
    by (auto simp: vireo_buffer_consume_def Let_def)
qed

lemma consume_refines:
  assumes inv: "buf_inv b" and len: "unat sz \<le> length (buf_bytes b)"
    and b': "vireo_buffer_consume (Some b) sz = (rc, Some b')"
  shows "buf_inv b'" and "buf_bytes b' = drop (unat sz) (buf_bytes b)"
    and "buf_clean fill b \<Longrightarrow> buf_clean fill b'"
proof -
  let ?r = "unat (b_read_index b)" and ?w = "unat (b_write_index b)" and ?n = "unat sz"
  let ?d = "mem_write ?r (replicate ?n 0) (b_data b)"
  have b: "?r \<le> ?w" "?w \<le> length (b_data b)" "?w \<le> 67108864"
    using inv by (auto simp: buf_inv_def)
  have sum: "?r + ?n \<le> ?w" using len inv b by simp
  then have w: "unat (b_read_index b + sz) = ?r + ?n"
    using b by (intro unat_add_less) simp
  have d: "length ?d = length (b_data b)" using sum b by simp
  have clean: "buf_clean fill b \<Longrightarrow> i < length (b_data b) \<Longrightarrow> i < ?r + ?n \<or> ?w \<le> i \<Longrightarrow>
      ?d ! i \<in> {0, fill}" for i
    using sum b by (auto simp: buf_clean_def nth_mem_write)
  note res = b' [unfolded consume_eq [OF inv] if_P [OF len], simplified, THEN conjunct2, symmetric]
  show "buf_inv b'"
    using inv sum w d by (auto simp: res buf_inv_def Let_def)
  show "buf_clean fill b \<Longrightarrow> buf_clean fill b'"
  proof -
    assume c: "buf_clean fill b"
    have "?d ! i \<in> {0, fill}" if "i < length (b_data b)" and "?n = length (buf_bytes b)" for i
    proof (rule clean [OF c that(1)])
      show "i < ?r + ?n \<or> ?w \<le> i" using that(2) inv b by auto
    qed
    then show ?thesis
      using clean [OF c] d
      by (cases "?n = length (buf_bytes b)") (simp_all add: res buf_clean_def Let_def w)
  qed
  show "buf_bytes b' = drop ?n (buf_bytes b)"
  proof (cases "?n = length (buf_bytes b)")
    case True
    then show ?thesis by (simp add: res Let_def) (simp add: buf_bytes_def)
  next
    case False
    then have "buf_bytes b' = mem_read (?r + ?n) (?w - (?r + ?n)) ?d"
      by (simp add: res Let_def buf_bytes_def w)
    also have "\<dots> = drop ?n (mem_read ?r (?w - ?r) (b_data b))"
      using mem_read_write_prefix [of ?r "replicate ?n (0 :: u8)" ?w "b_data b"] sum b by simp
    finally show ?thesis by (simp add: buf_bytes_def)
  qed
qed

lemma compact_refines:
  assumes inv: "buf_inv b" and b': "vireo_buffer_compact (Some b) = (rc, Some b')"
  shows "rc = VIREO_OK" and "buf_inv b'" and "buf_bytes b' = buf_bytes b"
    and "b_read_index b' = 0" and "b_capacity b' = b_capacity b"
    and "b_block b' = b_block b" and "b_self b' = b_self b"
    and "buf_clean fill b \<Longrightarrow> buf_clean fill b'"
proof -
  let ?r = "unat (b_read_index b)" and ?w = "unat (b_write_index b)" and ?d = "b_data b"
  let ?k = "?w - ?r"
  have b: "?r \<le> ?w" "?w \<le> length ?d" using inv by (auto simp: buf_inv_def)
  note k = unat_readable [OF inv]
  define moved where "moved = mem_write 0 (mem_read ?r ?k ?d) ?d"
  have moved: "(if b_write_index b - b_read_index b \<noteq> 0 \<and> b_read_index b \<noteq> 0
        then mem_write 0 (mem_read ?r ?k ?d) ?d else ?d) = moved"
  proof (cases "b_write_index b - b_read_index b = 0")
    case True
    then have "?k = 0" using k by simp
    then show ?thesis by (simp add: moved_def)
  next
    case False
    show ?thesis
    proof (cases "b_read_index b = 0")
      case True
      then have "moved = ?d" using b by (simp add: moved_def mem_write_def mem_read_def)
      with True show ?thesis by simp
    qed (use False in \<open>simp add: moved_def\<close>)
  qed
  have len: "length moved = length ?d" using b by (simp add: moved_def)
  have rest: "unat (b_write_index b - (b_write_index b - b_read_index b)) = ?r" by simp
  define cleared where "cleared = mem_write ?k (replicate ?r 0) moved"
  have clr: "clear_at ?k (b_write_index b - (b_write_index b - b_read_index b)) moved = cleared"
    using b len by (simp add: clear_at_eq cleared_def)
  have res: "rc = VIREO_OK" "b' = b\<lparr>b_data := cleared, b_read_index := 0,
      b_write_index := b_write_index b - b_read_index b\<rparr>"
    using b' moved clr by (auto simp: vireo_buffer_compact_def Let_def k)
  show "rc = VIREO_OK" "b_read_index b' = 0" "b_capacity b' = b_capacity b"
    "b_block b' = b_block b" "b_self b' = b_self b"
    using res by simp_all
  have clen: "length cleared = length ?d" using b len by (simp add: cleared_def)
  show "buf_inv b'" using inv clen by (auto simp: res buf_inv_def k)
  show "buf_bytes b' = buf_bytes b"
    using b mem_read_moved [of ?k "replicate ?r (0 :: u8)" ?d "mem_read ?r ?k ?d"]
    by (simp add: res buf_bytes_def k cleared_def moved_def)
  show "buf_clean fill b'" if "buf_clean fill b"
    using that b len by (auto simp: res buf_clean_def k clen cleared_def nth_mem_write)
      (auto simp: moved_def nth_mem_write)
qed

lemma replace_storage_refines:
  assumes inv: "buf_inv b" and cap: "length (buf_bytes b) \<le> unat c" "0 < unat c" "unat c \<le> 67108864"
    and run: "replace_storage b c h = (VIREO_OK, b', h')"
  shows "buf_inv b'" and "buf_bytes b' = buf_bytes b" and "b_capacity b' = c"
    and "b_read_index b' = 0" and "unat (b_write_index b') = length (buf_bytes b)"
    and "buf_clean (heap_fill h) b'" and "b_self b' = b_self b"
proof -
  let ?r = "unat (b_read_index b)" and ?w = "unat (b_write_index b)" and ?d = "b_data b"
  let ?k = "?w - ?r"
  have b: "?r \<le> ?w" "?w \<le> length ?d" using inv by (auto simp: buf_inv_def)
  note k = unat_readable [OF inv]
  have kc: "?k \<le> unat c" using cap inv by simp
  obtain blk h1 where alloc: "allocate_default h c = (Some blk, h1)"
    using run by (auto simp: replace_storage_def Let_def split: prod.splits option.splits)
  then have fill: "heap_fill h1 = heap_fill h" by (auto dest: allocate_Some)
  define data where "data = mem_write 0 (mem_read ?r ?k ?d) (fresh_bytes h1 c)"
  have "(if b_write_index b - b_read_index b \<noteq> 0
         then mem_write 0 (mem_read ?r ?k ?d) (fresh_bytes h1 c) else fresh_bytes h1 c) = data"
    by (cases "b_write_index b - b_read_index b = 0") (use k in \<open>auto simp: data_def\<close>)
  then have res: "b' = b\<lparr>b_data := data, b_capacity := c, b_read_index := 0,
      b_write_index := b_write_index b - b_read_index b, b_block := blk\<rparr>"
    using run alloc by (auto simp: replace_storage_def Let_def k)
  have len: "length data = unat c" using kc b by (simp add: data_def fresh_bytes_def)
  show "buf_inv b'" using cap kc len by (simp add: res buf_inv_def k)
  show "buf_bytes b' = buf_bytes b"
    using b kc by (simp add: res buf_bytes_def k data_def mem_read_write_same fresh_bytes_def)
  show "b_capacity b' = c" "b_read_index b' = 0" "unat (b_write_index b') = length (buf_bytes b)"
    "b_self b' = b_self b"
    using inv by (simp_all add: res k)
  show "buf_clean (heap_fill h) b'"
    using kc b by (auto simp: buf_clean_def res k data_def nth_mem_write fresh_bytes_def fill)
qed

lemma replace_storage_failure:
  "replace_storage b c h = (rc, b', h') \<Longrightarrow> rc \<noteq> VIREO_OK \<Longrightarrow> rc = VIREO_RESULT_NO_MEMORY \<and> b' = b"
  by (auto simp: replace_storage_def Let_def split: prod.splits option.splits)

lemma replace_storage_fill: "replace_storage b c h = (rc, b', h') \<Longrightarrow> heap_fill h' = heap_fill h"
  by (auto simp: replace_storage_def Let_def deallocate_default_def
      dest: allocate_None allocate_Some split: prod.splits option.splits)

subsection \<open>The buffer as a byte queue\<close>

datatype buffer_op =
    Append bytes
  | Consume size_t
  | Compact
  | Reserve size_t
  | Shrink size_t

fun buffer_exec :: "buffer_op \<Rightarrow> vireo_buffer \<times> vireo_heap \<Rightarrow> vireo_result \<times> vireo_buffer \<times> vireo_heap" where
  "buffer_exec (Append xs) (b, h) =
     (let (rc, b') = vireo_buffer_append (Some b) (Some xs) (word_of_nat (length xs)) in (rc, the b', h))"
| "buffer_exec (Consume n) (b, h) =
     (let (rc, b') = vireo_buffer_consume (Some b) n in (rc, the b', h))"
| "buffer_exec Compact (b, h) =
     (let (rc, b') = vireo_buffer_compact (Some b) in (rc, the b', h))"
| "buffer_exec (Reserve n) (b, h) =
     (let (rc, b', h') = vireo_buffer_reserve (Some b) n h in (rc, the b', h'))"
| "buffer_exec (Shrink n) (b, h) =
     (let (rc, b', h') = vireo_buffer_shrink (Some b) n h in (rc, the b', h'))"

text \<open>The queue an operation acts on, and the sizes a C caller can pass.\<close>

fun fifo_step :: "buffer_op \<Rightarrow> bytes \<Rightarrow> bytes" where
  "fifo_step (Append xs) q = q @ xs"
| "fifo_step (Consume n) q = drop (unat n) q"
| "fifo_step Compact q = q"
| "fifo_step (Reserve n) q = q"
| "fifo_step (Shrink n) q = q"

fun op_ok :: "buffer_op \<Rightarrow> bool" where
  "op_ok (Append xs) \<longleftrightarrow> length xs < 2 ^ 64"
| "op_ok _ \<longleftrightarrow> True"

lemma reserve_eq:
  assumes inv: "buf_inv b"
  shows "vireo_buffer_reserve (Some b) n h =
    (let need = length (buf_bytes b) + unat n in
     if 2 ^ 64 \<le> need then (VIREO_RESULT_OVERFLOW, Some b, h)
     else if 67108864 < need then (VIREO_RESULT_RANGE, Some b, h)
     else if unat n \<le> unat (b_capacity b) - unat (b_write_index b) then (VIREO_OK, Some b, h)
     else if need \<le> unat (b_capacity b)
     then (fst (vireo_buffer_compact (Some b)), snd (vireo_buffer_compact (Some b)), h)
     else
       let c = max need (if unat (b_capacity b) \<le> 33554432 then 2 * unat (b_capacity b) else 67108864);
           (rc, b', h') = replace_storage b (word_of_nat c) h
       in (rc, Some b', h'))"
proof -
  let ?k = "b_write_index b - b_read_index b"
  have k: "unat ?k = length (buf_bytes b)" using inv by (simp add: unat_readable)
  have cap: "unat (b_capacity b) \<le> 67108864" using inv by (simp add: buf_inv_def)
  show ?thesis
  proof (cases "length (buf_bytes b) + unat n < 2 ^ 64")
    case False
    then show ?thesis by (simp add: vireo_buffer_reserve_def size_add_Some k Let_def)
  next
    case True
    then have req: "unat (?k + n) = length (buf_bytes b) + unat n"
      using k by (simp add: unat_add_less)
    have dbl: "unat (2 * b_capacity b) = 2 * unat (b_capacity b)"
      using cap by (subst unat_mult_less) simp_all
    have wmax: "word_of_nat (max (length (buf_bytes b) + unat n) m) =
        (if m < length (buf_bytes b) + unat n then ?k + n else (word_of_nat m :: size_t))" for m
      by (auto simp: max_def req [symmetric])
    have half: "b_capacity b \<le> 33554432 \<longleftrightarrow> unat (b_capacity b) \<le> 33554432"
      by (simp add: word_le_nat_alt)
    have mul: "vireo_checked_size_mul (b_capacity b) 2 (Some 67108864) = (VIREO_OK, Some (2 * b_capacity b))"
      using cap by (simp add: size_mul_Some)
    have cmp: "2 * b_capacity b < ?k + n \<longleftrightarrow> 2 * unat (b_capacity b) < length (buf_bytes b) + unat n"
      "67108864 < ?k + n \<longleftrightarrow> 67108864 < length (buf_bytes b) + unat n"
      "?k + n \<le> b_capacity b \<longleftrightarrow> length (buf_bytes b) + unat n \<le> unat (b_capacity b)"
      "n \<le> b_capacity b - b_write_index b \<longleftrightarrow> unat n \<le> unat (b_capacity b) - unat (b_write_index b)"
      by (simp_all add: word_less_nat_alt word_le_nat_alt dbl req unat_tail [OF inv])
    show ?thesis
      using True
      by (simp add: vireo_buffer_reserve_def size_add_Some k Let_def cmp half mul wmax
          split: prod.splits)
  qed
qed

definition exec_ok :: "buffer_op \<Rightarrow> vireo_buffer \<times> vireo_heap \<Rightarrow> vireo_result \<times> vireo_buffer \<times> vireo_heap \<Rightarrow> bool" where
  "exec_ok op s t \<longleftrightarrow>
     (case (s, t) of ((b, h), (rc, b', h')) \<Rightarrow>
        buf_inv b' \<and>
        buf_bytes b' = (if rc = VIREO_OK then fifo_step op (buf_bytes b) else buf_bytes b) \<and>
        (rc \<noteq> VIREO_OK \<longrightarrow> b' = b) \<and>
        heap_fill h' = heap_fill h \<and>
        (buf_clean (heap_fill h) b \<longrightarrow> buf_clean (heap_fill h) b'))"

lemma exec_append_ok: "buf_inv b \<Longrightarrow> length xs < 2 ^ 64 \<Longrightarrow> exec_ok (Append xs) (b, h) (buffer_exec (Append xs) (b, h))"
proof -
  assume inv: "buf_inv b" and len: "length xs < 2 ^ 64"
  then have n: "unat (word_of_nat (length xs) :: size_t) = length xs" by (simp add: unat_of_nat)
  have "exec_ok (Append xs) (b, h) (buffer_exec (Append xs) (b, h))"
    if "unat (b_write_index b) + length xs \<le> unat (b_capacity b)"
    using append_refines [OF inv, of "word_of_nat (length xs)" xs, OF _ _ refl] inv that n
      append_eq [OF inv, of "word_of_nat (length xs)" xs]
    by (simp add: exec_ok_def)
  moreover have "exec_ok (Append xs) (b, h) (buffer_exec (Append xs) (b, h))"
    if "\<not> unat (b_write_index b) + length xs \<le> unat (b_capacity b)"
    using that inv n append_eq [OF inv, of "word_of_nat (length xs)" xs]
    by (simp add: exec_ok_def)
  ultimately show ?thesis by blast
qed

lemma exec_consume_ok: "buf_inv b \<Longrightarrow> exec_ok (Consume n) (b, h) (buffer_exec (Consume n) (b, h))"
proof (cases "unat n \<le> length (buf_bytes b)")
  case True
  assume inv: "buf_inv b"
  obtain b' where run: "vireo_buffer_consume (Some b) n = (VIREO_OK, Some b')"
    using consume_eq [OF inv, of n] True by simp
  show ?thesis using consume_refines [OF inv True run] run by (simp add: exec_ok_def)
next
  case False
  assume inv: "buf_inv b"
  then show ?thesis using consume_eq [OF inv, of n] False by (simp add: exec_ok_def)
qed

lemma exec_compact_ok: "buf_inv b \<Longrightarrow> exec_ok Compact (b, h) (buffer_exec Compact (b, h))"
proof -
  assume inv: "buf_inv b"
  obtain rc b' where run: "vireo_buffer_compact (Some b) = (rc, Some b')"
    by (simp add: vireo_buffer_compact_def Let_def)
  show ?thesis using compact_refines [OF inv run] run by (simp add: exec_ok_def)
qed

lemma replace_storage_ok:
  assumes "buf_inv b" and "length (buf_bytes b) \<le> unat c" "0 < unat c" "unat c \<le> 67108864"
    and run: "replace_storage b c h = (rc, b', h')" and "fifo_step op (buf_bytes b) = buf_bytes b"
  shows "exec_ok op (b, h) (rc, b', h')"
proof (cases "rc = VIREO_OK")
  case True
  with assms show ?thesis
    using replace_storage_refines [OF assms(1-4), of h b' h'] replace_storage_fill [OF run]
    by (simp add: exec_ok_def)
next
  case False
  with assms show ?thesis
    using replace_storage_failure [OF run] replace_storage_fill [OF run] by (simp add: exec_ok_def)
qed

lemma exec_unchanged: "buf_inv b \<Longrightarrow> rc \<noteq> VIREO_OK \<or> fifo_step op (buf_bytes b) = buf_bytes b \<Longrightarrow> exec_ok op (b, h) (rc, b, h)"
  by (auto simp: exec_ok_def)

lemma reserve_capacity:
  assumes inv: "buf_inv b" and "\<not> need \<le> unat (b_capacity b)" "need \<le> 67108864"
  defines "c \<equiv> max need (if unat (b_capacity b) \<le> 33554432 then 2 * unat (b_capacity b) else 67108864)"
  shows "unat (word_of_nat c :: size_t) = c" and "need \<le> c" and "0 < c" and "c \<le> 67108864"
    and "unat (b_capacity b) \<le> c"
  using assms by (auto simp: c_def unat_of_nat buf_inv_def max_def)

lemma exec_reserve_ok: "buf_inv b \<Longrightarrow> exec_ok (Reserve n) (b, h) (buffer_exec (Reserve n) (b, h))"
proof -
  assume inv: "buf_inv b"
  let ?need = "length (buf_bytes b) + unat n"
  show ?thesis
  proof (cases "?need \<le> 67108864 \<and> \<not> unat n \<le> unat (b_capacity b) - unat (b_write_index b)")
    case False
    then show ?thesis using inv by (auto simp: reserve_eq Let_def intro: exec_unchanged)
  next
    case tail: True
    show ?thesis
    proof (cases "?need \<le> unat (b_capacity b)")
      case True
      with tail show ?thesis
        using exec_compact_ok [OF inv, of h] inv
        by (auto simp: reserve_eq Let_def exec_ok_def split: prod.splits)
    next
      case False
      let ?c = "max ?need (if unat (b_capacity b) \<le> 33554432 then 2 * unat (b_capacity b) else 67108864)"
      note c = reserve_capacity [OF inv False]
      obtain rc b' h' where run: "replace_storage b (word_of_nat ?c) h = (rc, b', h')"
        by (metis prod_cases3)
      have "exec_ok (Reserve n) (b, h) (rc, b', h')"
        using tail c by (intro replace_storage_ok [OF inv _ _ _ run]) auto
      with tail False run show ?thesis using inv by (simp add: reserve_eq Let_def)
    qed
  qed
qed

lemma exec_shrink_ok: "buf_inv b \<Longrightarrow> exec_ok (Shrink n) (b, h) (buffer_exec (Shrink n) (b, h))"
proof -
  assume inv: "buf_inv b"
  obtain rc b' h' where run: "replace_storage b n h = (rc, b', h')" by (metis prod_cases3)
  show ?thesis
  proof (cases "n = 0 \<or> b_capacity b < n \<or> n < b_write_index b - b_read_index b \<or> n = b_capacity b")
    case True
    then show ?thesis
      using inv by (auto simp: vireo_buffer_shrink_def Let_def intro: exec_unchanged)
  next
    case False
    then have "length (buf_bytes b) \<le> unat n" "0 < unat n" "unat n \<le> 67108864"
      using inv by (auto simp: not_less word_le_nat_alt unat_readable unat_gt_0)
        (auto simp: buf_inv_def)
    then have "exec_ok (Shrink n) (b, h) (rc, b', h')"
      by (intro replace_storage_ok [OF inv _ _ _ run]) simp_all
    with False run show ?thesis by (simp add: vireo_buffer_shrink_def Let_def)
  qed
qed

lemmas exec_oks = exec_append_ok exec_consume_ok exec_compact_ok exec_reserve_ok exec_shrink_ok

lemma buffer_exec_ok: "buf_inv b \<Longrightarrow> op_ok op \<Longrightarrow> exec_ok op (b, h) (buffer_exec op (b, h))"
  by (cases op) (auto intro: exec_oks simp del: buffer_exec.simps)

fun buffer_run :: "buffer_op list \<Rightarrow> vireo_buffer \<times> vireo_heap \<Rightarrow> vireo_result list \<times> vireo_buffer \<times> vireo_heap" where
  "buffer_run [] s = ([], s)"
| "buffer_run (op # ops) s =
     (let (rc, s') = buffer_exec op s; (rcs, t) = buffer_run ops s' in (rc # rcs, t))"

fun fifo_run :: "buffer_op list \<Rightarrow> vireo_result list \<Rightarrow> bytes \<Rightarrow> bytes" where
  "fifo_run (op # ops) (rc # rcs) q = fifo_run ops rcs (if rc = VIREO_OK then fifo_step op q else q)"
| "fifo_run _ _ q = q"

lemma buffer_run_ok:
  assumes "buf_inv b" and "list_all op_ok ops" and "buffer_run ops (b, h) = (rcs, b', h')"
  shows "buf_inv b' \<and> buf_bytes b' = fifo_run ops rcs (buf_bytes b) \<and> length rcs = length ops \<and>
    heap_fill h' = heap_fill h \<and> (buf_clean (heap_fill h) b \<longrightarrow> buf_clean (heap_fill h) b')"
  using assms
proof (induction ops arbitrary: b h rcs)
  case Nil
  then show ?case by simp
next
  case (Cons op ops)
  obtain rc b1 h1 where step: "buffer_exec op (b, h) = (rc, b1, h1)" by (metis prod_cases3)
  obtain rcs1 where rest: "buffer_run ops (b1, h1) = (rcs1, b', h')" and rcs: "rcs = rc # rcs1"
    using Cons.prems(3) step by (auto simp: Let_def split: prod.splits)
  have ok: "exec_ok op (b, h) (rc, b1, h1)"
    using buffer_exec_ok [of b op h] Cons.prems step by simp
  then have "buf_inv b1" by (simp add: exec_ok_def)
  from Cons.IH [OF this _ rest] Cons.prems(2) ok show ?case
    by (simp add: exec_ok_def rcs)
qed

text \<open>
  C5. The buffer is a byte queue. Whatever sequence of appends, consumes, compactions, reserves and
  shrinks is run on a well-formed buffer, with allocation failures in between, the buffer stays
  well formed, its readable bytes are those of an unbounded queue on which exactly the operations
  that returned OK took effect, and no consumed byte is left behind outside the readable range.
\<close>

theorem buffer_run_refines_fifo:
  assumes "buf_inv b" and "buf_clean (heap_fill h) b" and "list_all op_ok ops"
    and "buffer_run ops (b, h) = (rcs, b', h')"
  shows "buf_inv b' \<and> buf_bytes b' = fifo_run ops rcs (buf_bytes b) \<and> buf_clean (heap_fill h) b'"
  using buffer_run_ok [OF assms(1,3,4)] assms(2) by blast

definition demo_buffer :: vireo_buffer where
  "demo_buffer = \<lparr>b_data = replicate 4 165, b_capacity = 4, b_read_index = 0, b_write_index = 0,
                  b_block = 1, b_self = 0\<rparr>"

theorem buffer_run_refines_fifo_witness:
  "let ops = [Append [1, 2, 3], Consume 2, Append [4, 5], Reserve 2, Append [4, 5], Consume 9];
       (rcs, b', h') = buffer_run ops (demo_buffer, demo_heap)
   in rcs = [VIREO_OK, VIREO_OK, VIREO_RESULT_RANGE, VIREO_OK, VIREO_OK, VIREO_RESULT_RANGE]
      \<and> buf_inv b' \<and> buf_bytes b' = [3, 4, 5] \<and> buf_clean 165 b'"
proof -
  let ?ops = "[Append [1, 2, 3], Consume 2, Append [4, 5], Reserve 2, Append [4, 5], Consume 9]"
  have inv: "buf_inv demo_buffer" and ops: "list_all op_ok ?ops"
    by (simp_all add: buf_inv_def demo_buffer_def)
  have clean: "buf_clean (heap_fill demo_heap) demo_buffer"
    by (simp add: buf_clean_def demo_buffer_def demo_heap_def nth_Cons split: nat.splits)
  obtain rcs b' h' where run: "buffer_run ?ops (demo_buffer, demo_heap) = (rcs, b', h')"
    by (metis prod_cases3)
  have "fst (buffer_run ?ops (demo_buffer, demo_heap))
      = [VIREO_OK, VIREO_OK, VIREO_RESULT_RANGE, VIREO_OK, VIREO_OK, VIREO_RESULT_RANGE]"
    by code_simp
  then have rcs: "rcs = [VIREO_OK, VIREO_OK, VIREO_RESULT_RANGE, VIREO_OK, VIREO_OK, VIREO_RESULT_RANGE]"
    by (simp only: run fst_conv)
  have "buf_bytes demo_buffer = []" by (simp add: buf_bytes_def demo_buffer_def)
  then have "buf_inv b' \<and> buf_bytes b' = [3, 4, 5] \<and> buf_clean 165 b'"
    using buffer_run_refines_fifo [OF inv clean ops run] by (simp add: rcs demo_heap_def)
  then show ?thesis unfolding Let_def run prod.case rcs by (rule conjI [OF refl])
qed

text \<open>
  Reserving works: when the request fits the hard limit and the allocator does not fail, the
  call succeeds, afterwards at least the requested tail space is there without moving anything,
  and the capacity never exceeds the hard limit.
\<close>

theorem buffer_reserve_guarantee:
  assumes "buf_inv b" and "length (buf_bytes b) + unat n \<le> 67108864"
    and "heap_calls h \<notin> set (heap_failing h)"
  shows "\<exists>b' h'. vireo_buffer_reserve (Some b) n h = (VIREO_OK, Some b', h') \<and>
     buf_bytes b' = buf_bytes b \<and> unat (b_capacity b') \<le> 67108864 \<and>
     unat n \<le> unat (b_capacity b') - unat (b_write_index b')"
proof (cases "unat n \<le> unat (b_capacity b) - unat (b_write_index b)")
  case True
  with assms show ?thesis by (auto simp: reserve_eq Let_def) (simp add: buf_inv_def)
next
  case tail: False
  let ?need = "length (buf_bytes b) + unat n"
  show ?thesis
  proof (cases "?need \<le> unat (b_capacity b)")
    case True
    obtain rc b' where run: "vireo_buffer_compact (Some b) = (rc, Some b')"
      by (simp add: vireo_buffer_compact_def Let_def)
    note c = compact_refines [OF assms(1) run]
    have "unat (b_write_index b') = length (buf_bytes b)"
      using length_buf_bytes [OF c(2)] c(3,4) by simp
    with c True tail assms run show ?thesis
      by (auto simp: reserve_eq Let_def) (simp add: buf_inv_def)
  next
    case False
    let ?c = "max ?need (if unat (b_capacity b) \<le> 33554432 then 2 * unat (b_capacity b) else 67108864)"
    note c = reserve_capacity [OF assms(1) False assms(2)]
    obtain b' h' where run: "replace_storage b (word_of_nat ?c) h = (VIREO_OK, b', h')"
      using assms(3) by (simp add: replace_storage_def allocate_default_def Let_def)
    have "length (buf_bytes b) \<le> unat (word_of_nat ?c :: size_t)"
      "0 < unat (word_of_nat ?c :: size_t)" "unat (word_of_nat ?c :: size_t) \<le> 67108864"
      using c by linarith+
    note r = replace_storage_refines [OF assms(1) this run]
    have "unat n \<le> unat (b_capacity b') - unat (b_write_index b')"
      using r(3,5) c(1,2) by simp
    moreover have "unat (b_capacity b') \<le> 67108864" using r(1) by (simp add: buf_inv_def)
    ultimately show ?thesis
      using tail False run r(2) assms by (simp add: reserve_eq Let_def)
  qed
qed

theorem buffer_reserve_guarantee_witness:
  "\<exists>b' h'. vireo_buffer_reserve (Some demo_buffer) 100 demo_heap = (VIREO_OK, Some b', h') \<and>
     buf_bytes b' = buf_bytes demo_buffer \<and> unat (b_capacity b') \<le> 67108864 \<and>
     unat (100 :: size_t) \<le> unat (b_capacity b') - unat (b_write_index b')"
proof (rule buffer_reserve_guarantee)
  show "buf_inv demo_buffer" by (simp add: buf_inv_def demo_buffer_def)
  show "length (buf_bytes demo_buffer) + unat (100 :: size_t) \<le> 67108864"
    by (simp add: buf_bytes_def demo_buffer_def)
  show "heap_calls demo_heap \<notin> set (heap_failing demo_heap)" by (simp add: demo_heap_def)
qed

subsection \<open>Ownership of memory\<close>

text \<open>
  \<open>buf_owns b h base old\<close>: beside the blocks \<open>base\<close> that belong to others, exactly the storage and
  the control block of \<open>b\<close> are live, and every block released since the log was \<open>old\<close> was all zeros.
\<close>

definition buf_owns :: "vireo_buffer \<Rightarrow> vireo_heap \<Rightarrow> (nat \<times> nat) set \<Rightarrow> bytes set \<Rightarrow> bool" where
  "buf_owns b h base old \<longleftrightarrow>
     heap_wf h \<and>
     set (heap_live h) = insert (b_block b, unat (b_capacity b)) (insert (b_self b, 56) base) \<and>
     b_block b \<noteq> b_self b \<and> b_block b \<notin> fst ` base \<and> b_self b \<notin> fst ` base \<and>
     (\<forall>c \<in> set (heap_released h). c \<in> old \<or> (\<forall>x \<in> set c. x = 0))"

lemma clear_all_zero:
  "length d = unat sz \<Longrightarrow> x \<in> set (clear_at 0 sz d) \<Longrightarrow> x = 0"
  by (simp add: clear_at_all)

lemma live_fresh: "heap_wf h \<Longrightarrow> (a, n) \<in> set (heap_live h) \<Longrightarrow> a \<noteq> heap_calls h"
  by (force simp: heap_wf_def)

lemma replace_storage_owns:
  assumes own: "buf_owns b h base old" and len: "length (b_data b) = unat (b_capacity b)"
    and run: "replace_storage b c h = (rc, b', h')"
  shows "buf_owns b' h' base old"
proof -
  obtain blk h1 where alloc: "allocate_default h c = (blk, h1)" by (metis surj_pair)
  have wf: "heap_wf h1" using alloc own by (auto simp: buf_owns_def intro: allocate_wf)
  show ?thesis
  proof (cases blk)
    case None
    with run alloc have "b' = b" "h' = h1" by (simp_all add: replace_storage_def Let_def)
    with own wf allocate_None [of h c h1] alloc None show ?thesis by (simp add: buf_owns_def)
  next
    case (Some k)
    note a = allocate_Some [OF alloc [unfolded Some]]
    have fresh: "k \<noteq> b_block b" "k \<noteq> b_self b" "k \<notin> fst ` base"
      using own a live_fresh [of h] by (fastforce simp: buf_owns_def)+
    have "h' = deallocate_default h1 (b_block b) (clear_at 0 (b_capacity b) (b_data b))"
      and "b_block b' = k" "b_capacity b' = c" "b_self b' = b_self b"
      using run alloc Some by (auto simp: replace_storage_def Let_def)
    moreover have "set (heap_live (deallocate_default h1 (b_block b) z))
        = insert (k, unat c) (insert (b_self b, 56) base)" for z
    proof (rule set_deallocate)
      show "set (heap_live h1) = insert (b_block b, unat (b_capacity b))
          (insert (k, unat c) (insert (b_self b, 56) base))"
        using own a by (simp add: buf_owns_def insert_commute)
      show "b_block b \<notin> fst ` insert (k, unat c) (insert (b_self b, 56) base)"
        using own fresh by (simp add: buf_owns_def)
    qed
    ultimately show ?thesis
      using own fresh a deallocate_wf [OF wf] clear_all_zero [OF len]
      by (simp add: buf_owns_def) (simp add: deallocate_default_def)
  qed
qed

lemma buffer_exec_owns:
  assumes inv: "buf_inv b" and ok: "op_ok op" and own: "buf_owns b h base old"
    and run: "buffer_exec op (b, h) = (rc, b', h')"
  shows "buf_owns b' h' base old"
proof -
  have len: "length (b_data b) = unat (b_capacity b)" using inv by (simp add: buf_inv_def)
  have same: ?thesis if "h' = h" "b_block b' = b_block b" "b_self b' = b_self b" "b_capacity b' = b_capacity b"
    using own that by (simp add: buf_owns_def)
  have repl: ?thesis if "replace_storage b c h = (rc, b', h')" for c
    using replace_storage_owns [OF own len that] .
  show ?thesis
  proof (cases op)
    case (Append xs)
    with ok have "unat (word_of_nat (length xs) :: size_t) = length xs" by (simp add: unat_of_nat)
    with run Append show ?thesis
      using append_eq [OF inv, of "word_of_nat (length xs)" xs]
      by (intro same) (auto split: if_splits)
  next
    case (Consume n)
    with run show ?thesis
      using consume_eq [OF inv, of n] by (intro same) (auto simp: Let_def split: if_splits)
  next
    case Compact
    with run show ?thesis
      by (intro same) (auto simp: vireo_buffer_compact_def Let_def)
  next
    case (Reserve n)
    then have "h' = h \<and> (b' = b \<or> snd (vireo_buffer_compact (Some b)) = Some b') \<or>
        (\<exists>c. replace_storage b c h = (rc, b', h'))"
      using run by (auto simp: reserve_eq [OF inv] Let_def vireo_buffer_compact_def split: if_splits prod.splits)
    then show ?thesis
      using same repl by (auto simp: vireo_buffer_compact_def Let_def)
  next
    case (Shrink n)
    then have "h' = h \<and> b' = b \<or> (\<exists>c. replace_storage b c h = (rc, b', h'))"
      using run by (auto simp: vireo_buffer_shrink_def Let_def split: if_splits prod.splits)
    then show ?thesis using same repl by blast
  qed
qed

lemma buffer_run_owns:
  "buf_inv b \<Longrightarrow> list_all op_ok ops \<Longrightarrow> buf_owns b h base old \<Longrightarrow>
   buffer_run ops (b, h) = (rcs, b', h') \<Longrightarrow> buf_owns b' h' base old"
proof (induction ops arbitrary: b h rcs)
  case (Cons op ops)
  obtain rc b1 h1 where step: "buffer_exec op (b, h) = (rc, b1, h1)" by (metis prod_cases3)
  obtain rcs1 where rest: "buffer_run ops (b1, h1) = (rcs1, b', h')"
    using Cons.prems(4) step by (auto simp: Let_def split: prod.splits)
  have "buf_inv b1" using buffer_exec_ok [of b op h] Cons.prems step by (simp add: exec_ok_def)
  moreover have "buf_owns b1 h1 base old"
    using buffer_exec_owns [OF _ _ _ step] Cons.prems by simp
  ultimately show ?case using Cons.IH rest Cons.prems(2) by simp
qed simp

lemma buffer_create_OK:
  assumes wf: "heap_wf h" and run: "vireo_buffer_create c (Some None) h = (VIREO_OK, out, h')"
  obtains b where "out = Some (Some b)" and "buf_inv b" and "buf_bytes b = []"
    and "buf_clean (heap_fill h') b" and "buf_owns b h' (set (heap_live h)) (set (heap_released h))"
proof -
  obtain self h1 where a1: "allocate_default h 56 = (Some self, h1)"
    using run by (auto simp: vireo_buffer_create_def vireo_buffer_create_with_allocator_def Let_def
        split: if_splits prod.splits option.splits)
  obtain blk h2 where a2: "allocate_default h1 c = (Some blk, h2)"
    using run a1 by (auto simp: vireo_buffer_create_def vireo_buffer_create_with_allocator_def Let_def
        split: if_splits prod.splits option.splits)
  have c: "c \<noteq> 0" "c \<le> 67108864"
    using run by (auto simp: vireo_buffer_create_def vireo_buffer_create_with_allocator_def split: if_splits)
  define b where "b = \<lparr>b_data = fresh_bytes h2 c, b_capacity = c, b_read_index = 0, b_write_index = 0,
    b_block = blk, b_self = self\<rparr>"
  have "out = Some (Some b) \<and> h' = h2"
    using run a1 a2 c
    by (auto simp: vireo_buffer_create_def vireo_buffer_create_with_allocator_def b_def Let_def
        split: if_splits)
  then have out: "out = Some (Some b)" and h': "h' = h2" by auto
  note s1 = allocate_Some [OF a1] and s2 = allocate_Some [OF a2]
  have wf2: "heap_wf h2" using wf a1 a2 by (blast intro: allocate_wf)
  have live: "heap_calls h \<notin> fst ` set (heap_live h)" "Suc (heap_calls h) \<notin> fst ` set (heap_live h)"
    using wf by (force simp: heap_wf_def)+
  have "buf_owns b h2 (set (heap_live h)) (set (heap_released h))"
    using s1 s2 wf2 live by (simp add: buf_owns_def b_def)
  moreover have "buf_inv b" using c by (simp add: buf_inv_def b_def fresh_bytes_def unat_gt_0 word_le_nat_alt)
  moreover have "buf_bytes b = []" by (simp add: buf_bytes_def b_def)
  moreover have "buf_clean (heap_fill h2) b" by (simp add: buf_clean_def b_def fresh_bytes_def)
  ultimately show thesis using that out h' by blast
qed

text \<open>
  C38. No leak, no double release, no residue: create a buffer, run any operations on it (some of
  them failing, some allocations refused), destroy it. Then exactly the blocks that were live
  before are live again, the handle is cleared, and every block the buffer gave back to the
  allocator had been overwritten with zeros first.
\<close>

theorem buffer_lifecycle_no_leak:
  assumes "heap_wf h0" and "vireo_buffer_create c (Some None) h0 = (VIREO_OK, Some (Some b), h1)"
    and "list_all op_ok ops" and "buffer_run ops (b, h1) = (rcs, b', h2)"
    and "vireo_buffer_destroy (Some (Some b')) h2 = (rc, out, h3)"
  shows "rc = VIREO_OK \<and> out = Some None \<and> heap_wf h3 \<and> set (heap_live h3) = set (heap_live h0) \<and>
    (\<forall>d \<in> set (heap_released h3). d \<in> set (heap_released h0) \<or> (\<forall>x \<in> set d. x = 0))"
proof -
  let ?base = "set (heap_live h0)" and ?old = "set (heap_released h0)"
  have b: "buf_inv b" "buf_owns b h1 ?base ?old"
    using buffer_create_OK [OF assms(1,2)] by auto
  have inv: "buf_inv b'" using buffer_run_ok [OF b(1) assms(3,4)] by simp
  have own: "buf_owns b' h2 ?base ?old" using buffer_run_owns [OF b(1) assms(3) b(2) assms(4)] .
  let ?h = "deallocate_default h2 (b_block b') (clear_at 0 (b_capacity b') (b_data b'))"
  let ?z = "clear_at 0 sizeof_vireo_buffer (fresh_bytes ?h sizeof_vireo_buffer)"
  have res: "rc = VIREO_OK" "out = Some None" "h3 = deallocate_default ?h (b_self b') ?z"
    using assms(5) by (simp_all add: vireo_buffer_destroy_def Let_def)
  have "set (heap_live ?h) = insert (b_self b', 56) ?base"
    by (rule set_deallocate) (use own in \<open>auto simp: buf_owns_def\<close>)
  then have live: "set (heap_live h3) = ?base"
    unfolding res(3) by (rule set_deallocate) (use own in \<open>simp add: buf_owns_def\<close>)
  have "heap_wf h3" using own unfolding res(3) by (intro deallocate_wf) (simp add: buf_owns_def)
  moreover have "length (fresh_bytes ?h sizeof_vireo_buffer) = unat sizeof_vireo_buffer"
    by (simp add: fresh_bytes_def)
  then have "\<forall>x \<in> set ?z. x = 0" by (blast dest: clear_all_zero)
  moreover have "\<forall>x \<in> set (clear_at 0 (b_capacity b') (b_data b')). x = 0"
    using inv by (auto simp: buf_inv_def dest: clear_all_zero)
  ultimately show ?thesis
    using own res live by (auto simp: buf_owns_def) (auto simp: deallocate_default_def)
qed

theorem buffer_lifecycle_no_leak_witness:
  "\<exists>rcs b b' h1 h2 h3.
     vireo_buffer_create 4 (Some None) demo_heap = (VIREO_OK, Some (Some b), h1) \<and>
     buffer_run [Append [1, 2, 3], Reserve 90, Consume 1] (b, h1) = (rcs, b', h2) \<and>
     vireo_buffer_destroy (Some (Some b')) h2 = (VIREO_OK, Some None, h3) \<and> heap_live h3 = [] \<and>
     (\<forall>d \<in> set (heap_released h3). \<forall>x \<in> set d. x = 0)"
proof -
  let ?ops = "[Append [1, 2, 3], Reserve 90, Consume 1]"
  obtain rc out h1 where c: "vireo_buffer_create 4 (Some None) demo_heap = (rc, out, h1)"
    by (metis prod_cases3)
  have wf: "heap_wf demo_heap" by (simp add: heap_wf_def demo_heap_def)
  have "rc = VIREO_OK" using arg_cong [OF c, of fst]
    by (simp add: vireo_buffer_create_def vireo_buffer_create_with_allocator_def demo_heap_def
        allocate_default_def)
  with c obtain b where create: "vireo_buffer_create 4 (Some None) demo_heap = (VIREO_OK, Some (Some b), h1)"
    using buffer_create_OK [OF wf] by metis
  obtain rcs b' h2 where run: "buffer_run ?ops (b, h1) = (rcs, b', h2)" by (metis prod_cases3)
  obtain rc3 out3 h3 where d: "vireo_buffer_destroy (Some (Some b')) h2 = (rc3, out3, h3)"
    by (metis prod_cases3)
  have "list_all op_ok ?ops" by simp
  from buffer_lifecycle_no_leak [OF wf create this run d] create run d show ?thesis
    by (auto simp: demo_heap_def)
qed

subsection \<open>The queue contract\<close>

text \<open>
  A client that only pushes and pops bytes relies on \<open>byte_fifo\<close>. \<open>fifo_transfer\<close> runs such a client
  and records what was accepted and what was delivered.
\<close>

fun fifo_transfer ::
  "(bytes \<Rightarrow> 'b \<Rightarrow> vireo_result \<times> 'b) \<Rightarrow> (size_t \<Rightarrow> 'b \<Rightarrow> vireo_result \<times> 'b) \<Rightarrow> ('b \<Rightarrow> bytes) \<Rightarrow>
   (bytes + size_t) list \<Rightarrow> 'b \<Rightarrow> bytes \<times> bytes \<times> 'b" where
  "fifo_transfer push pop contents [] b = ([], [], b)"
| "fifo_transfer push pop contents (Inl xs # ops) b =
     (let (rc, b1) = push xs b; (acc, del, b2) = fifo_transfer push pop contents ops b1
      in ((if rc = VIREO_OK then xs @ acc else acc), del, b2))"
| "fifo_transfer push pop contents (Inr n # ops) b =
     (let (rc, b1) = pop n b; (acc, del, b2) = fifo_transfer push pop contents ops b1
      in (acc, (if rc = VIREO_OK then take (unat n) (contents b) @ del else del), b2))"

locale byte_fifo =
  fixes inv :: "'b \<Rightarrow> bool"
    and contents :: "'b \<Rightarrow> bytes"
    and push :: "bytes \<Rightarrow> 'b \<Rightarrow> vireo_result \<times> 'b"
    and pop :: "size_t \<Rightarrow> 'b \<Rightarrow> vireo_result \<times> 'b"
  assumes push_inv: "inv b \<Longrightarrow> length xs < 2 ^ 64 \<Longrightarrow> push xs b = (rc, b') \<Longrightarrow> inv b'"
    and push_contents: "inv b \<Longrightarrow> length xs < 2 ^ 64 \<Longrightarrow> push xs b = (rc, b') \<Longrightarrow>
      contents b' = (if rc = VIREO_OK then contents b @ xs else contents b)"
    and pop_inv: "inv b \<Longrightarrow> pop n b = (rc, b') \<Longrightarrow> inv b'"
    and pop_contents: "inv b \<Longrightarrow> pop n b = (rc, b') \<Longrightarrow>
      contents b' = (if rc = VIREO_OK then drop (unat n) (contents b) else contents b)"
    and pop_succeeds: "inv b \<Longrightarrow> fst (pop n b) = VIREO_OK \<longleftrightarrow> unat n \<le> length (contents b)"
begin

lemma transfer_conserves:
  assumes "inv b" and "\<forall>xs. Inl xs \<in> set ops \<longrightarrow> length xs < 2 ^ 64"
    and "fifo_transfer push pop contents ops b = (acc, del, b')"
  shows "del @ contents b' = contents b @ acc"
  using assms
proof (induction ops arbitrary: b acc del)
  case Nil
  then show ?case by simp
next
  case (Cons op ops)
  show ?case
  proof (cases op)
    case (Inl xs)
    obtain rc b1 where p: "push xs b = (rc, b1)" by (metis surj_pair)
    obtain a1 where t: "fifo_transfer push pop contents ops b1 = (a1, del, b')"
      and acc: "acc = (if rc = VIREO_OK then xs @ a1 else a1)"
      using Cons.prems(3) Inl p by (auto simp: Let_def split: prod.splits)
    have "del @ contents b' = contents b1 @ a1"
      using Cons.IH [OF push_inv [OF _ _ p] _ t] Cons.prems Inl by auto
    then show ?thesis using push_contents [OF _ _ p] Cons.prems Inl acc by auto
  next
    case (Inr n)
    obtain rc b1 where p: "pop n b = (rc, b1)" by (metis surj_pair)
    obtain d1 where t: "fifo_transfer push pop contents ops b1 = (acc, d1, b')"
      and del: "del = (if rc = VIREO_OK then take (unat n) (contents b) @ d1 else d1)"
      using Cons.prems(3) Inr p by (auto simp: Let_def split: prod.splits)
    have "d1 @ contents b' = contents b1 @ acc"
      using Cons.IH [OF pop_inv [OF _ p] _ t] Cons.prems by auto
    then show ?thesis using pop_contents [OF _ p] Cons.prems(1) del by auto
  qed
qed

end

definition buffer_push :: "bytes \<Rightarrow> vireo_buffer \<Rightarrow> vireo_result \<times> vireo_buffer" where
  "buffer_push xs b = map_prod id the (vireo_buffer_append (Some b) (Some xs) (word_of_nat (length xs)))"

definition buffer_pop :: "size_t \<Rightarrow> vireo_buffer \<Rightarrow> vireo_result \<times> vireo_buffer" where
  "buffer_pop n b = map_prod id the (vireo_buffer_consume (Some b) n)"

interpretation buffer_fifo: byte_fifo buf_inv buf_bytes buffer_push buffer_pop
proof unfold_locales
  fix b b' :: vireo_buffer and xs :: bytes and n :: size_t and rc
  assume inv: "buf_inv b"
  show "buf_inv b'" "buf_bytes b' = (if rc = VIREO_OK then buf_bytes b @ xs else buf_bytes b)"
    if "length xs < 2 ^ 64" "buffer_push xs b = (rc, b')"
    using exec_append_ok [OF inv that(1), of demo_heap] that(2)
    by (auto simp: exec_ok_def buffer_push_def map_prod_def split: prod.splits)
  show "buf_inv b'" "buf_bytes b' = (if rc = VIREO_OK then drop (unat n) (buf_bytes b) else buf_bytes b)"
    if "buffer_pop n b = (rc, b')"
    using exec_consume_ok [OF inv, of n demo_heap] that
    by (auto simp: exec_ok_def buffer_pop_def map_prod_def split: prod.splits)
  show "fst (buffer_pop n b) = VIREO_OK \<longleftrightarrow> unat n \<le> length (buf_bytes b)"
    by (simp add: buffer_pop_def consume_eq [OF inv])
qed

lemmas buffer_transfer_conserves = buffer_fifo.transfer_conserves

end
