(* ===== verification/Base_Pool.thy ===== *)
theory Base_Pool
  imports Base_Memory
begin

unbundle bit_operations_syntax

text \<open>
  The fixed-capacity object pool of \<^verbatim>\<open>src/base/pool.c\<close>: one storage block of equal slots, metadata
  outside the slots (a free list threaded through slot indices, a generation per slot) and leases
  that name a slot by pool identity, index and generation. An object pointer is the storage block
  together with a byte offset into it. The locale \<open>lease_table\<close> is what the users of leases rely on:
  a fresh lease has never been issued before, and a lease is accepted back exactly once.
\<close>

record vireo_pool_layout =
  pl_element_size :: size_t
  pl_element_alignment :: size_t
  pl_capacity :: size_t
  pl_slot_stride :: size_t
  pl_storage_bytes :: size_t

record vireo_pool_options =
  po_element_size :: size_t
  po_element_alignment :: size_t
  po_capacity :: size_t
  po_max_memory_bytes :: size_t

record vireo_pool_info =
  pi_layout :: vireo_pool_layout
  pi_allocation_bytes :: size_t
  pi_max_memory_bytes :: size_t
  pi_metadata_bytes :: size_t
  pi_pool_id :: u64
  pi_last_generation :: u64
  pi_in_use_count :: size_t
  pi_available_count :: size_t

record vireo_pool_lease =
  pl_pool_id :: u64
  pl_slot_index :: size_t
  pl_generation :: u64

text \<open>The allocator table: which of its two callbacks is set.\<close>

record vireo_pool_allocator =
  pa_allocate :: bool
  pa_deallocate :: bool

record slot_metadata =
  sm_next_free :: size_t
  sm_generation :: u64
  sm_in_use :: bool

text \<open>
  \<open>p_storage\<close>, \<open>p_slots_block\<close> and \<open>p_self\<close> are the three blocks that the pool owns; \<open>p_slots\<close> is
  the contents of the second.
\<close>

record vireo_pool =
  p_layout :: vireo_pool_layout
  p_allocation_bytes :: size_t
  p_max_memory_bytes :: size_t
  p_metadata_bytes :: size_t
  p_storage :: nat
  p_slots :: "slot_metadata list"
  p_slots_block :: nat
  p_free_head :: size_t
  p_in_use_count :: size_t
  p_pool_id :: u64
  p_last_generation :: u64
  p_self :: nat

abbreviation VIREO_POOL_MAX_MEMORY :: size_t where
  "VIREO_POOL_MAX_MEMORY \<equiv> 67108864"

text \<open>Sizes on LP64: a slot's metadata, the control block, and the strictest fundamental alignment.\<close>

abbreviation sizeof_slot_metadata :: size_t where
  "sizeof_slot_metadata \<equiv> 24"

abbreviation sizeof_vireo_pool :: size_t where
  "sizeof_vireo_pool \<equiv> 136"

abbreviation alignof_max_align :: size_t where
  "alignof_max_align \<equiv> 16"

definition vireo_pool_layout_compute ::
  "size_t \<Rightarrow> size_t \<Rightarrow> size_t \<Rightarrow> size_t \<Rightarrow> vireo_pool_layout option \<Rightarrow>
   vireo_result \<times> vireo_pool_layout option" where
  "vireo_pool_layout_compute element_size element_alignment capacity max_storage_bytes out =
     (if out = None \<or> element_size = 0 \<or> element_alignment = 0 \<or> capacity = 0 \<or>
         max_storage_bytes = 0 \<or> element_alignment AND (element_alignment - 1) \<noteq> 0
      then (VIREO_RESULT_INVALID_ARGUMENT, out)
      else
        let (result, slot_stride) = vireo_checked_size_align_up element_size element_alignment (Some 0) in
        if result \<noteq> VIREO_OK then (result, out)
        else
          let (result, storage_bytes) = vireo_checked_size_mul (the slot_stride) capacity (Some 0) in
          if result \<noteq> VIREO_OK then (result, out)
          else if the storage_bytes > max_storage_bytes then (VIREO_RESULT_RANGE, out)
          else (VIREO_OK,
                Some \<lparr>pl_element_size = element_size, pl_element_alignment = element_alignment,
                      pl_capacity = capacity, pl_slot_stride = the slot_stride,
                      pl_storage_bytes = the storage_bytes\<rparr>))"

text \<open>
  The identity counter is shared between threads. \<open>races\<close> lists the values that failed
  compare-exchanges read back, so the loop retries once per element; the last component of the
  result is the counter afterwards.
\<close>

fun claim_identity :: "u64 list \<Rightarrow> u64 \<Rightarrow> u64 \<Rightarrow> vireo_result \<times> u64 \<times> u64" where
  "claim_identity races observed out =
     (let (result, nxt) = vireo_checked_u64_add observed 1 (Some 0) in
      if result \<noteq> VIREO_OK then (result, out, observed)
      else case races of
             [] \<Rightarrow> (VIREO_OK, the nxt, the nxt)
           | seen # races \<Rightarrow> claim_identity races seen out)"

definition initial_slots :: "size_t \<Rightarrow> slot_metadata list" where
  "initial_slots capacity =
     map (\<lambda>i. \<lparr>sm_next_free = (if word_of_nat i + 1 = capacity then SIZE_MAX else word_of_nat i + 1),
               sm_generation = 0, sm_in_use = False\<rparr>) [0 ..< unat capacity]"

text \<open>
  The pool neither reads nor writes the bytes of its objects, so a released block is recorded with
  no contents.
\<close>

definition vireo_pool_create_with_counters ::
  "vireo_pool_options option \<Rightarrow> vireo_pool_allocator option \<Rightarrow> u64 list \<Rightarrow> u64 option \<Rightarrow> u64 \<Rightarrow>
   vireo_pool option option \<Rightarrow> vireo_heap \<Rightarrow>
   vireo_result \<times> u64 option \<times> vireo_pool option option \<times> vireo_heap" where
  "vireo_pool_create_with_counters options allocator races identity_source initial_generation
     out_pool heap =
     (if options = None \<or> out_pool = None \<or> the out_pool \<noteq> None \<or> allocator = None \<or>
         \<not> pa_allocate (the allocator) \<or> \<not> pa_deallocate (the allocator) \<or>
         identity_source = None \<or> po_max_memory_bytes (the options) = 0
      then (VIREO_RESULT_INVALID_ARGUMENT, identity_source, out_pool, heap)
      else
        let options = the options;
            (result, layout) = vireo_pool_layout_compute (po_element_size options)
              (po_element_alignment options) (po_capacity options) SIZE_MAX
              (Some \<lparr>pl_element_size = 0, pl_element_alignment = 0, pl_capacity = 0,
                     pl_slot_stride = 0, pl_storage_bytes = 0\<rparr>) in
        if result \<noteq> VIREO_OK then (result, identity_source, out_pool, heap)
        else
        let layout = the layout;
            (result, metadata_bytes) =
              vireo_checked_size_mul sizeof_slot_metadata (pl_capacity layout) (Some 0) in
        if result \<noteq> VIREO_OK then (result, identity_source, out_pool, heap)
        else
        let (result, allocation_bytes) =
              vireo_checked_size_add sizeof_vireo_pool (pl_storage_bytes layout) (Some 0) in
        if result \<noteq> VIREO_OK then (result, identity_source, out_pool, heap)
        else
        let (result, allocation_bytes) =
              vireo_checked_size_add (the allocation_bytes) (the metadata_bytes) allocation_bytes in
        if result \<noteq> VIREO_OK then (result, identity_source, out_pool, heap)
        else if pl_element_alignment layout > alignof_max_align \<or>
                po_max_memory_bytes options > VIREO_POOL_MAX_MEMORY \<or>
                the allocation_bytes > po_max_memory_bytes options
        then (VIREO_RESULT_RANGE, identity_source, out_pool, heap)
        else
        let (result, identity, source) = claim_identity races (the identity_source) 0 in
        if result \<noteq> VIREO_OK then (result, Some source, out_pool, heap)
        else
        let (candidate, heap) = allocate_default heap sizeof_vireo_pool in
        if candidate = None then (VIREO_RESULT_NO_MEMORY, Some source, out_pool, heap)
        else
        let (storage, heap) = allocate_default heap (pl_storage_bytes layout) in
        if storage = None
        then (VIREO_RESULT_NO_MEMORY, Some source, out_pool, deallocate_default heap (the candidate) [])
        else
        let (slots, heap) = allocate_default heap (the metadata_bytes) in
        if slots = None
        then (VIREO_RESULT_NO_MEMORY, Some source, out_pool,
              deallocate_default (deallocate_default heap (the storage) []) (the candidate) [])
        else (VIREO_OK, Some source,
              Some (Some \<lparr>p_layout = layout, p_allocation_bytes = the allocation_bytes,
                          p_max_memory_bytes = po_max_memory_bytes options,
                          p_metadata_bytes = the metadata_bytes, p_storage = the storage,
                          p_slots = initial_slots (pl_capacity layout),
                          p_slots_block = the slots, p_free_head = 0, p_in_use_count = 0,
                          p_pool_id = identity, p_last_generation = initial_generation,
                          p_self = the candidate\<rparr>),
              heap))"

definition vireo_pool_create_with_allocator ::
  "vireo_pool_options option \<Rightarrow> vireo_pool_allocator option \<Rightarrow> u64 list \<Rightarrow> u64 \<Rightarrow>
   vireo_pool option option \<Rightarrow> vireo_heap \<Rightarrow>
   vireo_result \<times> u64 option \<times> vireo_pool option option \<times> vireo_heap" where
  "vireo_pool_create_with_allocator options allocator races last_pool_id out_pool heap =
     vireo_pool_create_with_counters options allocator races (Some last_pool_id) 0 out_pool heap"

definition vireo_pool_create ::
  "vireo_pool_options option \<Rightarrow> u64 list \<Rightarrow> u64 \<Rightarrow> vireo_pool option option \<Rightarrow> vireo_heap \<Rightarrow>
   vireo_result \<times> u64 option \<times> vireo_pool option option \<times> vireo_heap" where
  "vireo_pool_create options races last_pool_id out_pool heap =
     vireo_pool_create_with_allocator options (Some \<lparr>pa_allocate = True, pa_deallocate = True\<rparr>)
       races last_pool_id out_pool heap"

definition vireo_pool_inspect ::
  "vireo_pool option \<Rightarrow> vireo_pool_info option \<Rightarrow> vireo_result \<times> vireo_pool_info option" where
  "vireo_pool_inspect pool out_info =
     (case (pool, out_info) of
        (Some p, Some _) \<Rightarrow>
          (VIREO_OK, Some \<lparr>pi_layout = p_layout p, pi_allocation_bytes = p_allocation_bytes p,
             pi_max_memory_bytes = p_max_memory_bytes p, pi_metadata_bytes = p_metadata_bytes p,
             pi_pool_id = p_pool_id p, pi_last_generation = p_last_generation p,
             pi_in_use_count = p_in_use_count p,
             pi_available_count = pl_capacity (p_layout p) - p_in_use_count p\<rparr>)
      | _ \<Rightarrow> (VIREO_RESULT_INVALID_ARGUMENT, out_info))"

definition vireo_pool_acquire ::
  "vireo_pool option \<Rightarrow> vireo_pool_lease option \<Rightarrow> (nat \<times> size_t) option \<Rightarrow>
   vireo_result \<times> vireo_pool option \<times> vireo_pool_lease option \<times> (nat \<times> size_t) option" where
  "vireo_pool_acquire pool out_lease out_object =
     (if pool = None \<or> out_lease = None \<or> out_object = None
      then (VIREO_RESULT_INVALID_ARGUMENT, pool, out_lease, out_object)
      else
        let p = the pool;
            (result, generation) = vireo_checked_u64_add (p_last_generation p) 1 (Some 0) in
        if result \<noteq> VIREO_OK then (result, pool, out_lease, out_object)
        else if p_free_head p = SIZE_MAX then (VIREO_RESULT_BUSY, pool, out_lease, out_object)
        else
          let index = p_free_head p;
              (result, offset) =
                vireo_checked_size_mul index (pl_slot_stride (p_layout p)) (Some 0) in
          if result \<noteq> VIREO_OK then (result, pool, out_lease, out_object)
          else
            let object = (p_storage p, the offset);
                lease = \<lparr>pl_pool_id = p_pool_id p, pl_slot_index = index,
                         pl_generation = the generation\<rparr>;
                slot = p_slots p ! unat index;
                p = p\<lparr>p_free_head := sm_next_free slot\<rparr>;
                slot = slot\<lparr>sm_generation := the generation, sm_in_use := True\<rparr>;
                p = p\<lparr>p_slots := (p_slots p)[unat index := slot],
                      p_last_generation := the generation,
                      p_in_use_count := p_in_use_count p + 1\<rparr>
            in (VIREO_OK, Some p, Some lease, Some object))"

definition vireo_pool_release ::
  "vireo_pool option \<Rightarrow> vireo_pool_lease option \<Rightarrow>
   vireo_result \<times> vireo_pool option \<times> vireo_pool_lease option" where
  "vireo_pool_release pool lease =
     (if pool = None \<or> lease = None then (VIREO_RESULT_INVALID_ARGUMENT, pool, lease)
      else
        let p = the pool; l = the lease in
        if pl_pool_id l = 0 \<and> pl_slot_index l = 0 \<and> pl_generation l = 0
        then (VIREO_RESULT_NOT_FOUND, pool, lease)
        else if pl_pool_id l = 0 \<or> pl_generation l = 0 \<or> pl_pool_id l \<noteq> p_pool_id p
        then (VIREO_RESULT_INVALID_ARGUMENT, pool, lease)
        else if pl_slot_index l \<ge> pl_capacity (p_layout p)
        then (VIREO_RESULT_RANGE, pool, lease)
        else
          let index = unat (pl_slot_index l); slot = p_slots p ! index in
          if \<not> sm_in_use slot \<or> sm_generation slot \<noteq> pl_generation l
          then (VIREO_RESULT_NOT_FOUND, pool, lease)
          else
            let slot = slot\<lparr>sm_in_use := False, sm_next_free := p_free_head p\<rparr>;
                p = p\<lparr>p_slots := (p_slots p)[index := slot], p_free_head := pl_slot_index l,
                      p_in_use_count := p_in_use_count p - 1\<rparr>
            in (VIREO_OK, Some p,
                Some \<lparr>pl_pool_id = 0, pl_slot_index = 0, pl_generation = 0\<rparr>))"

definition vireo_pool_destroy ::
  "vireo_pool option option \<Rightarrow> vireo_heap \<Rightarrow> vireo_result \<times> vireo_pool option option \<times> vireo_heap" where
  "vireo_pool_destroy pool heap =
     (case pool of
        None \<Rightarrow> (VIREO_RESULT_INVALID_ARGUMENT, pool, heap)
      | Some None \<Rightarrow> (VIREO_OK, pool, heap)
      | Some (Some owned) \<Rightarrow>
          if p_in_use_count owned \<noteq> 0 then (VIREO_RESULT_BUSY, pool, heap)
          else
            let heap = deallocate_default heap (p_slots_block owned) [];
                heap = deallocate_default heap (p_storage owned) [];
                heap = deallocate_default heap (p_self owned) []
            in (VIREO_OK, Some None, heap))"

declare claim_identity.simps [simp del]

subsection \<open>The lease contract\<close>

datatype 'l lease_op =
    Take
  | Give 'l

fun lease_run ::
  "('s \<Rightarrow> vireo_result \<times> 's \<times> 'l) \<Rightarrow> ('l \<Rightarrow> 's \<Rightarrow> vireo_result \<times> 's) \<Rightarrow> 'l lease_op list \<Rightarrow> 's \<Rightarrow>
   'l list \<times> 's" where
  "lease_run acquire release [] s = ([], s)"
| "lease_run acquire release (Take # ops) s =
     (let (rc, s, l) = acquire s; (ls, s) = lease_run acquire release ops s
      in (if rc = VIREO_OK then l # ls else ls, s))"
| "lease_run acquire release (Give l # ops) s = lease_run acquire release ops (snd (release l s))"

locale lease_table =
  fixes inv :: "'s \<Rightarrow> bool"
    and live :: "'s \<Rightarrow> 'l set"
    and issued :: "'s \<Rightarrow> 'l set"
    and acquire :: "'s \<Rightarrow> vireo_result \<times> 's \<times> 'l"
    and release :: "'l \<Rightarrow> 's \<Rightarrow> vireo_result \<times> 's"
  assumes live_issued: "inv s \<Longrightarrow> live s \<subseteq> issued s"
    and take_inv: "inv s \<Longrightarrow> acquire s = (rc, s', l) \<Longrightarrow> inv s'"
    and take_OK: "inv s \<Longrightarrow> acquire s = (VIREO_OK, s', l) \<Longrightarrow>
      l \<notin> issued s \<and> live s' = insert l (live s) \<and> insert l (issued s) \<subseteq> issued s'"
    and take_fails: "inv s \<Longrightarrow> acquire s = (rc, s', l) \<Longrightarrow> rc \<noteq> VIREO_OK \<Longrightarrow> s' = s"
    and give_inv: "inv s \<Longrightarrow> release l s = (rc, s') \<Longrightarrow> inv s'"
    and give_effect: "inv s \<Longrightarrow> release l s = (rc, s') \<Longrightarrow>
      (rc = VIREO_OK \<longleftrightarrow> l \<in> live s) \<and> live s' = live s - {l} \<and> issued s' = issued s"
begin

lemma run_inv: "inv s \<Longrightarrow> inv (snd (lease_run acquire release ops s))"
proof (induction ops arbitrary: s)
  case (Cons op ops)
  show ?case
  proof (cases op)
    case Take
    obtain rc s1 l where t: "acquire s = (rc, s1, l)" by (metis prod_cases3)
    have "inv s1" using take_inv [OF Cons.prems t] .
    from Cons.IH [OF this] show ?thesis using Take t by (simp add: split_def Let_def)
  next
    case (Give l)
    have "inv (snd (release l s))" using give_inv [OF Cons.prems] by (metis surj_pair snd_conv)
    from Cons.IH [OF this] show ?thesis using Give by simp
  qed
qed simp

lemma issued_mono: "inv s \<Longrightarrow> issued s \<subseteq> issued (snd (lease_run acquire release ops s))"
proof (induction ops arbitrary: s)
  case (Cons op ops)
  show ?case
  proof (cases op)
    case Take
    obtain rc s1 l where t: "acquire s = (rc, s1, l)" by (metis prod_cases3)
    have "issued s \<subseteq> issued s1"
      using take_OK [OF Cons.prems] take_fails [OF Cons.prems t] t by (cases "rc = VIREO_OK") auto
    with Cons.IH [OF take_inv [OF Cons.prems t]] show ?thesis using Take t by (auto simp: split_def Let_def)
  next
    case (Give l)
    obtain rc s1 where g: "release l s = (rc, s1)" by (metis surj_pair)
    show ?thesis
      using Cons.IH [OF give_inv [OF Cons.prems g]] give_effect [OF Cons.prems g] Give g by simp
  qed
qed simp

text \<open>A lease that is not live any more never becomes live again.\<close>

lemma stale_stays_stale:
  "inv s \<Longrightarrow> l \<in> issued s \<Longrightarrow> l \<notin> live s \<Longrightarrow> l \<notin> live (snd (lease_run acquire release ops s))"
proof (induction ops arbitrary: s)
  case (Cons op ops)
  show ?case
  proof (cases op)
    case Take
    obtain rc s1 m where t: "acquire s = (rc, s1, m)" by (metis prod_cases3)
    have "l \<in> issued s1 \<and> l \<notin> live s1"
      using take_OK [OF Cons.prems(1)] take_fails [OF Cons.prems(1) t] t Cons.prems(2,3)
      by (cases "rc = VIREO_OK") auto
    with Cons.IH [OF take_inv [OF Cons.prems(1) t]] show ?thesis using Take t by (simp add: split_def Let_def)
  next
    case (Give m)
    obtain rc s1 where g: "release m s = (rc, s1)" by (metis surj_pair)
    show ?thesis
      using Cons.IH [OF give_inv [OF Cons.prems(1) g]] give_effect [OF Cons.prems(1) g]
        Cons.prems(2,3) Give g by simp
  qed
qed simp

lemma given_once:
  assumes "inv s" and "release l s = (VIREO_OK, s1)" and "lease_run acquire release ops s1 = (ls, s2)"
  shows "fst (release l s2) \<noteq> VIREO_OK \<and> l \<notin> live s2"
proof -
  have inv1: "inv s1" using assms(1,2) by (rule give_inv)
  note eff = give_effect [OF assms(1,2)]
  have "l \<in> issued s1" "l \<notin> live s1" using eff live_issued [OF assms(1)] by auto
  with stale_stays_stale [OF inv1, of l ops] have l: "l \<notin> live s2" using assms(3) by simp
  have "inv s2" using run_inv [OF inv1, of ops] assms(3) by simp
  with l give_effect [of s2 l] show ?thesis by (metis prod.collapse)
qed

lemma taken_fresh:
  "inv s \<Longrightarrow> lease_run acquire release ops s = (ls, s') \<Longrightarrow>
   distinct ls \<and> set ls \<inter> issued s = {} \<and> set ls \<subseteq> issued s'"
proof (induction ops arbitrary: s ls)
  case (Cons op ops)
  show ?case
  proof (cases op)
    case Take
    obtain rc s1 l where t: "acquire s = (rc, s1, l)" by (metis prod_cases3)
    obtain ms where r: "lease_run acquire release ops s1 = (ms, s')"
      and ls: "ls = (if rc = VIREO_OK then l # ms else ms)"
      using Cons.prems(2) Take t by (auto simp: Let_def split: prod.splits)
    have inv1: "inv s1" using take_inv [OF Cons.prems(1) t] .
    note ih = Cons.IH [OF inv1 r] and mono = issued_mono [OF inv1, of ops]
    show ?thesis
      using ih mono r ls take_OK [OF Cons.prems(1), of s1 l] take_fails [OF Cons.prems(1) t] t
      by (cases "rc = VIREO_OK") auto
  next
    case (Give l)
    obtain rc s1 where g: "release l s = (rc, s1)" by (metis surj_pair)
    show ?thesis
      using Cons.IH [OF give_inv [OF Cons.prems(1) g]] give_effect [OF Cons.prems(1) g]
        Cons.prems(2) Give g by simp
  qed
qed simp

end

subsection \<open>The pool's invariant\<close>

primrec free_chain :: "slot_metadata list \<Rightarrow> size_t \<Rightarrow> nat list \<Rightarrow> bool" where
  "free_chain slots head [] \<longleftrightarrow> head = SIZE_MAX"
| "free_chain slots head (i # is) \<longleftrightarrow>
     head \<noteq> SIZE_MAX \<and> unat head = i \<and> i < length slots \<and> free_chain slots (sm_next_free (slots ! i)) is"

definition free_slots :: "slot_metadata list \<Rightarrow> nat set" where
  "free_slots slots = {i. i < length slots \<and> \<not> sm_in_use (slots ! i)}"

definition layout_ok :: "vireo_pool_layout \<Rightarrow> bool" where
  "layout_ok l \<longleftrightarrow> pl_element_size l \<noteq> 0 \<and> pl_element_size l \<le> pl_slot_stride l \<and>
     unat (pl_element_alignment l) dvd unat (pl_slot_stride l) \<and>
     unat (pl_slot_stride l) * unat (pl_capacity l) = unat (pl_storage_bytes l) \<and>
     pl_capacity l \<noteq> SIZE_MAX"

definition pool_inv :: "vireo_pool \<Rightarrow> bool" where
  "pool_inv p \<longleftrightarrow> layout_ok (p_layout p) \<and> length (p_slots p) = unat (pl_capacity (p_layout p)) \<and>
     p_pool_id p \<noteq> 0 \<and>
     (\<exists>fl. free_chain (p_slots p) (p_free_head p) fl \<and> distinct fl \<and> set fl = free_slots (p_slots p) \<and>
           unat (p_in_use_count p) + length fl = length (p_slots p)) \<and>
     (\<forall>s \<in> set (p_slots p). sm_in_use s \<longrightarrow> sm_generation s \<noteq> 0 \<and> sm_generation s \<le> p_last_generation p)"

definition pool_live :: "vireo_pool \<Rightarrow> vireo_pool_lease set" where
  "pool_live p = {l. pl_pool_id l = p_pool_id p \<and> pl_slot_index l < pl_capacity (p_layout p) \<and>
     sm_in_use (p_slots p ! unat (pl_slot_index l)) \<and>
     sm_generation (p_slots p ! unat (pl_slot_index l)) = pl_generation l}"

definition pool_issued :: "vireo_pool \<Rightarrow> vireo_pool_lease set" where
  "pool_issued p = {l. pl_pool_id l = p_pool_id p \<and> pl_generation l \<noteq> 0 \<and>
     pl_generation l \<le> p_last_generation p}"

text \<open>The bytes that a lease stands for, as offsets into the storage block.\<close>

definition lease_region :: "vireo_pool \<Rightarrow> vireo_pool_lease \<Rightarrow> nat set" where
  "lease_region p l =
     (let start = unat (pl_slot_index l) * unat (pl_slot_stride (p_layout p))
      in {start ..< start + unat (pl_element_size (p_layout p))})"

definition pool_take :: "vireo_pool \<Rightarrow> vireo_result \<times> vireo_pool \<times> vireo_pool_lease" where
  "pool_take p =
     (let (rc, p, l, obj) = vireo_pool_acquire (Some p)
        (Some \<lparr>pl_pool_id = 0, pl_slot_index = 0, pl_generation = 0\<rparr>) (Some (0, 0))
      in (rc, the p, the l))"

definition pool_give :: "vireo_pool_lease \<Rightarrow> vireo_pool \<Rightarrow> vireo_result \<times> vireo_pool" where
  "pool_give l p = (let (rc, p, l) = vireo_pool_release (Some p) (Some l) in (rc, the p))"

lemma free_chain_update: "i \<notin> set fl \<Longrightarrow> free_chain (slots[i := x]) h fl = free_chain slots h fl"
  by (induction fl arbitrary: h) auto

lemma free_slots_update:
  "i < length slots \<Longrightarrow> free_slots (slots[i := x]) =
     (if sm_in_use x then free_slots slots - {i} else insert i (free_slots slots))"
  by (auto simp: free_slots_def nth_list_update)

lemma slots_bound:
  assumes "pool_inv p"
  shows "length (p_slots p) < 2 ^ 64 - 1"
proof -
  have "pl_capacity (p_layout p) \<noteq> - 1" using assms by (simp add: pool_inv_def layout_ok_def)
  then have "unat (pl_capacity (p_layout p)) \<noteq> unat (- 1 :: size_t)" by (simp add: word_unat_eq_iff)
  moreover have "unat (- 1 :: size_t) = 2 ^ 64 - 1" using unat_max_word [where 'a = 64] by simp
  ultimately show ?thesis
    using assms unat_lt_64 [of "pl_capacity (p_layout p)"] by (simp add: pool_inv_def)
qed

lemma slot_offset_bound:
  assumes "pool_inv p" and "i < length (p_slots p)"
  shows "i * unat (pl_slot_stride (p_layout p)) + unat (pl_slot_stride (p_layout p))
           \<le> unat (pl_storage_bytes (p_layout p))"
proof -
  have "Suc i * unat (pl_slot_stride (p_layout p)) \<le> length (p_slots p) * unat (pl_slot_stride (p_layout p))"
    using assms(2) by (intro mult_le_mono1) simp
  then show ?thesis using assms(1) by (simp add: pool_inv_def layout_ok_def mult.commute add.commute)
qed

lemma next_generation:
  "vireo_checked_u64_add g 1 (Some old) =
     (if g = UINT64_MAX then (VIREO_RESULT_OVERFLOW, Some old) else (VIREO_OK, Some (g + 1)))"
  and next_generation_greater: "g \<noteq> UINT64_MAX \<Longrightarrow> unat (g + 1) = unat g + 1"
proof -
  have max: "unat (- 1 :: u64) = 2 ^ 64 - 1" using unat_max_word [where 'a = 64] by simp
  have iff: "unat g + 1 < 2 ^ 64 \<longleftrightarrow> g \<noteq> UINT64_MAX"
    using max unat_lt_64 [of g] by (auto simp: word_unat_eq_iff)
  show "vireo_checked_u64_add g 1 (Some old) =
     (if g = UINT64_MAX then (VIREO_RESULT_OVERFLOW, Some old) else (VIREO_OK, Some (g + 1)))"
    using iff by (simp add: u64_add_Some)
  assume "g \<noteq> UINT64_MAX"
  then show "unat (g + 1) = unat g + 1"
    using iff unat_add_less [of g 1] by simp
qed

definition acquired :: "vireo_pool \<Rightarrow> vireo_pool" where
  "acquired p =
     (let i = unat (p_free_head p) in
      p\<lparr>p_free_head := sm_next_free (p_slots p ! i),
        p_slots := (p_slots p)[i := (p_slots p ! i)
          \<lparr>sm_generation := p_last_generation p + 1, sm_in_use := True\<rparr>],
        p_last_generation := p_last_generation p + 1,
        p_in_use_count := p_in_use_count p + 1\<rparr>)"

lemma free_head_valid:
  assumes "pool_inv p" and "p_free_head p \<noteq> SIZE_MAX"
  obtains fl where "unat (p_free_head p) < length (p_slots p)"
    and "\<not> sm_in_use (p_slots p ! unat (p_free_head p))"
    and "free_chain (p_slots p) (sm_next_free (p_slots p ! unat (p_free_head p))) fl"
    and "distinct fl" and "unat (p_free_head p) \<notin> set fl"
    and "set fl = free_slots (p_slots p) - {unat (p_free_head p)}"
    and "unat (p_in_use_count p) + length fl + 1 = length (p_slots p)"
proof -
  obtain fl where fl: "free_chain (p_slots p) (p_free_head p) fl" "distinct fl"
      "set fl = free_slots (p_slots p)" "unat (p_in_use_count p) + length fl = length (p_slots p)"
    using assms(1) by (auto simp: pool_inv_def)
  with assms(2) obtain js where "fl = unat (p_free_head p) # js" by (cases fl) auto
  with fl that [of js] show thesis by (auto simp: free_slots_def)
qed

lemma acquire_eq:
  assumes inv: "pool_inv p"
  shows "vireo_pool_acquire (Some p) (Some l) (Some obj) =
     (if p_last_generation p = UINT64_MAX then (VIREO_RESULT_OVERFLOW, Some p, Some l, Some obj)
      else if p_free_head p = SIZE_MAX then (VIREO_RESULT_BUSY, Some p, Some l, Some obj)
      else (VIREO_OK, Some (acquired p),
            Some \<lparr>pl_pool_id = p_pool_id p, pl_slot_index = p_free_head p,
                  pl_generation = p_last_generation p + 1\<rparr>,
            Some (p_storage p, p_free_head p * pl_slot_stride (p_layout p))))"
proof (cases "p_last_generation p = UINT64_MAX \<or> p_free_head p = SIZE_MAX")
  case True
  then show ?thesis by (auto simp: vireo_pool_acquire_def next_generation Let_def)
next
  case False
  then have "unat (p_free_head p) < length (p_slots p)"
    using free_head_valid [OF inv] by metis
  from slot_offset_bound [OF inv this]
  have "unat (p_free_head p) * unat (pl_slot_stride (p_layout p)) < 2 ^ 64"
    using unat_lt_64 [of "pl_storage_bytes (p_layout p)"] inv
    by (simp add: pool_inv_def layout_ok_def)
  with False show ?thesis
    by (simp add: vireo_pool_acquire_def next_generation size_mul_Some Let_def acquired_def)
qed

lemma acquired_inv:
  assumes inv: "pool_inv p" and gen: "p_last_generation p \<noteq> UINT64_MAX" and head: "p_free_head p \<noteq> SIZE_MAX"
  shows "pool_inv (acquired p)"
proof -
  obtain fl where fl: "unat (p_free_head p) < length (p_slots p)"
    "free_chain (p_slots p) (sm_next_free (p_slots p ! unat (p_free_head p))) fl"
    "distinct fl" "unat (p_free_head p) \<notin> set fl"
    "set fl = free_slots (p_slots p) - {unat (p_free_head p)}"
    "unat (p_in_use_count p) + length fl + 1 = length (p_slots p)"
    using free_head_valid [OF inv head] by metis
  have "unat (p_in_use_count p + 1) = unat (p_in_use_count p) + 1"
    using fl(6) slots_bound [OF inv] by (intro trans [OF unat_add_less]) simp_all
  moreover have "p_last_generation p + 1 \<noteq> 0" "p_last_generation p \<le> p_last_generation p + 1"
    using next_generation_greater [OF gen] by (auto simp: word_le_nat_alt word_unat_eq_iff)
  ultimately show ?thesis
    using inv fl
    by (auto simp: pool_inv_def acquired_def Let_def free_chain_update free_slots_update
        intro!: exI [of _ fl] dest!: set_update_subset_insert [THEN subsetD])
qed

lemma pool_take_eq:
  "pool_inv p \<Longrightarrow> pool_take p =
     (if p_last_generation p = UINT64_MAX
      then (VIREO_RESULT_OVERFLOW, p, \<lparr>pl_pool_id = 0, pl_slot_index = 0, pl_generation = 0\<rparr>)
      else if p_free_head p = SIZE_MAX
      then (VIREO_RESULT_BUSY, p, \<lparr>pl_pool_id = 0, pl_slot_index = 0, pl_generation = 0\<rparr>)
      else (VIREO_OK, acquired p,
            \<lparr>pl_pool_id = p_pool_id p, pl_slot_index = p_free_head p,
             pl_generation = p_last_generation p + 1\<rparr>))"
  by (simp add: pool_take_def acquire_eq Let_def)

lemma acquired_live:
  assumes inv: "pool_inv p" and "p_last_generation p \<noteq> UINT64_MAX" and head: "p_free_head p \<noteq> SIZE_MAX"
  shows "pool_live (acquired p) =
    insert \<lparr>pl_pool_id = p_pool_id p, pl_slot_index = p_free_head p,
            pl_generation = p_last_generation p + 1\<rparr> (pool_live p)"
proof -
  have i: "unat (p_free_head p) < length (p_slots p)" "\<not> sm_in_use (p_slots p ! unat (p_free_head p))"
    using free_head_valid [OF inv head] by metis+
  have len: "length (p_slots p) = unat (pl_capacity (p_layout p))" using inv by (simp add: pool_inv_def)
  show ?thesis
    using i len
    by (auto simp: pool_live_def acquired_def Let_def nth_list_update word_less_nat_alt
        word_unat_eq_iff [symmetric] split: if_splits intro!: vireo_pool_lease.equality)
qed

definition released :: "vireo_pool_lease \<Rightarrow> vireo_pool \<Rightarrow> vireo_pool" where
  "released l p =
     (let i = unat (pl_slot_index l) in
      p\<lparr>p_slots := (p_slots p)[i := (p_slots p ! i)\<lparr>sm_in_use := False, sm_next_free := p_free_head p\<rparr>],
        p_free_head := pl_slot_index l, p_in_use_count := p_in_use_count p - 1\<rparr>)"

lemma live_slot:
  assumes inv: "pool_inv p" and l: "l \<in> pool_live p"
  shows "unat (pl_slot_index l) < length (p_slots p)" and "pl_slot_index l \<noteq> SIZE_MAX"
    and "p_slots p ! unat (pl_slot_index l) \<in> set (p_slots p)" and "l \<in> pool_issued p"
proof -
  show i: "unat (pl_slot_index l) < length (p_slots p)"
    using assms by (simp add: pool_inv_def pool_live_def word_less_nat_alt)
  then show mem: "p_slots p ! unat (pl_slot_index l) \<in> set (p_slots p)" by simp
  have "unat (- 1 :: size_t) = 2 ^ 64 - 1" using unat_max_word [where 'a = 64] by simp
  then show "pl_slot_index l \<noteq> SIZE_MAX"
    using i slots_bound [OF inv] by auto
  show "l \<in> pool_issued p"
    using inv l mem by (auto simp: pool_inv_def pool_live_def pool_issued_def)
qed

lemma release_eq:
  assumes inv: "pool_inv p"
  shows "vireo_pool_release (Some p) (Some l) =
     (if l \<in> pool_live p
      then (VIREO_OK, Some (released l p), Some \<lparr>pl_pool_id = 0, pl_slot_index = 0, pl_generation = 0\<rparr>)
      else (if pl_pool_id l = 0 \<and> pl_slot_index l = 0 \<and> pl_generation l = 0 then VIREO_RESULT_NOT_FOUND
            else if pl_pool_id l = 0 \<or> pl_generation l = 0 \<or> pl_pool_id l \<noteq> p_pool_id p
            then VIREO_RESULT_INVALID_ARGUMENT
            else if pl_slot_index l \<ge> pl_capacity (p_layout p) then VIREO_RESULT_RANGE
            else VIREO_RESULT_NOT_FOUND, Some p, Some l))"
proof (cases "l \<in> pool_live p")
  case True
  have "pl_pool_id l \<noteq> 0" "pl_generation l \<noteq> 0"
    using live_slot(4) [OF inv True] inv by (auto simp: pool_issued_def pool_inv_def)
  with True show ?thesis
    by (auto simp: vireo_pool_release_def released_def Let_def pool_live_def not_le)
next
  case False
  then show ?thesis
    by (auto simp: vireo_pool_release_def Let_def pool_live_def not_le)
qed

lemma released_inv:
  assumes inv: "pool_inv p" and l: "l \<in> pool_live p"
  shows "pool_inv (released l p)"
proof -
  let ?i = "unat (pl_slot_index l)"
  note slot = live_slot [OF inv l]
  obtain fl where fl: "free_chain (p_slots p) (p_free_head p) fl" "distinct fl"
      "set fl = free_slots (p_slots p)" "unat (p_in_use_count p) + length fl = length (p_slots p)"
    using inv by (auto simp: pool_inv_def)
  have used: "sm_in_use (p_slots p ! ?i)" using l by (simp add: pool_live_def)
  then have notin: "?i \<notin> set fl" using fl(3) by (simp add: free_slots_def)
  have "set (?i # fl) \<subseteq> {..< length (p_slots p)}" using fl(3) slot(1) by (auto simp: free_slots_def)
  then have "card (set (?i # fl)) \<le> card {..< length (p_slots p)}" by (intro card_mono) auto
  then have "Suc (length fl) \<le> length (p_slots p)"
    using fl(2) notin by (simp add: distinct_card)
  then have pos: "0 < unat (p_in_use_count p)" using fl(4) by simp
  then have "1 \<le> p_in_use_count p" by (simp add: word_le_nat_alt)
  then have "unat (p_in_use_count p - 1) = unat (p_in_use_count p) - 1" by (simp add: unat_sub)
  then show ?thesis
    using inv fl slot notin pos
    by (auto simp: pool_inv_def released_def Let_def free_chain_update free_slots_update
        intro!: exI [of _ "?i # fl"] dest!: set_update_subset_insert [THEN subsetD])
qed

lemma released_live:
  assumes inv: "pool_inv p" and l: "l \<in> pool_live p"
  shows "pool_live (released l p) = pool_live p - {l}"
  using live_slot [OF inv l] l inv
  by (auto simp: pool_live_def released_def Let_def nth_list_update word_less_nat_alt pool_inv_def
      word_unat_eq_iff [symmetric] split: if_splits intro!: vireo_pool_lease.equality)

lemma pool_give_eq:
  "pool_inv p \<Longrightarrow> l \<in> pool_live p \<Longrightarrow> pool_give l p = (VIREO_OK, released l p)"
  "pool_inv p \<Longrightarrow> l \<notin> pool_live p \<Longrightarrow> snd (pool_give l p) = p \<and> fst (pool_give l p) \<noteq> VIREO_OK"
  by (simp_all add: pool_give_def release_eq)

lemma issued_grows:
  "p_last_generation p \<noteq> UINT64_MAX \<Longrightarrow> pool_issued p \<subseteq> pool_issued (acquired p)"
  using next_generation_greater [of "p_last_generation p"]
  by (auto simp: pool_issued_def acquired_def Let_def word_le_nat_alt)

interpretation pool_leases: lease_table pool_inv pool_live pool_issued pool_take pool_give
proof unfold_locales
  fix p p' :: vireo_pool and l rc
  assume inv: "pool_inv p"
  show "pool_live p \<subseteq> pool_issued p" using live_slot(4) [OF inv] by blast
  show "pool_inv p'" if "pool_take p = (rc, p', l)"
    using that inv by (auto simp: pool_take_eq acquired_inv split: if_splits)
  show "p' = p" if "pool_take p = (rc, p', l)" "rc \<noteq> VIREO_OK"
    using that inv by (auto simp: pool_take_eq split: if_splits)
  show "l \<notin> pool_issued p \<and> pool_live p' = insert l (pool_live p) \<and>
      insert l (pool_issued p) \<subseteq> pool_issued p'" if "pool_take p = (VIREO_OK, p', l)"
  proof -
    have g: "p_last_generation p \<noteq> UINT64_MAX" and h: "p_free_head p \<noteq> SIZE_MAX"
      and p': "p' = acquired p"
      and l: "l = \<lparr>pl_pool_id = p_pool_id p, pl_slot_index = p_free_head p,
                   pl_generation = p_last_generation p + 1\<rparr>"
      using that inv by (auto simp: pool_take_eq split: if_splits)
    have "l \<notin> pool_issued p" "l \<in> pool_issued p'"
      using next_generation_greater [OF g]
      by (auto simp: l p' pool_issued_def acquired_def Let_def word_le_nat_alt word_unat_eq_iff)
    then show ?thesis using issued_grows [OF g] acquired_live [OF inv g h] by (simp add: l p')
  qed
  show "pool_inv p'" if "pool_give l p = (rc, p')"
    using that inv pool_give_eq [OF inv, of l] released_inv [OF inv] by (cases "l \<in> pool_live p") auto
  show "(rc = VIREO_OK \<longleftrightarrow> l \<in> pool_live p) \<and> pool_live p' = pool_live p - {l} \<and>
      pool_issued p' = pool_issued p" if "pool_give l p = (rc, p')"
    using that inv pool_give_eq [OF inv, of l] released_live [OF inv]
    by (cases "l \<in> pool_live p") (auto simp: pool_issued_def released_def Let_def)
qed

subsection \<open>What stays fixed, and how many leases are out\<close>

definition pool_frame :: "vireo_pool \<Rightarrow> vireo_pool_layout \<times> u64 \<times> nat list" where
  "pool_frame p = (p_layout p, p_pool_id p, [p_storage p, p_slots_block p, p_self p])"

lemma pool_take_frame: "pool_inv p \<Longrightarrow> pool_take p = (rc, p', l) \<Longrightarrow> pool_frame p' = pool_frame p"
  by (auto simp: pool_take_eq pool_frame_def acquired_def Let_def split: if_splits)

lemma pool_give_frame: "pool_inv p \<Longrightarrow> pool_frame (snd (pool_give l p)) = pool_frame p"
  using pool_give_eq [of p l]
  by (cases "l \<in> pool_live p") (auto simp: pool_frame_def released_def Let_def)

lemma pool_run_frame:
  "pool_inv p \<Longrightarrow> pool_frame (snd (lease_run pool_take pool_give ops p)) = pool_frame p"
proof (induction ops arbitrary: p)
  case (Cons op ops)
  show ?case
  proof (cases op)
    case Take
    obtain rc q l where t: "pool_take p = (rc, q, l)" by (metis prod_cases3)
    show ?thesis
      using Cons.IH [OF pool_leases.take_inv [OF Cons.prems t]] pool_take_frame [OF Cons.prems t] Take t
      by (simp add: split_def Let_def)
  next
    case (Give l)
    have "pool_inv (snd (pool_give l p))" using pool_leases.give_inv [OF Cons.prems] by (metis surj_pair snd_conv)
    from Cons.IH [OF this] show ?thesis using pool_give_frame [OF Cons.prems] Give by simp
  qed
qed simp

lemma pool_live_card:
  assumes inv: "pool_inv p"
  shows "finite (pool_live p)" and "card (pool_live p) = unat (p_in_use_count p)"
proof -
  let ?used = "{i. i < length (p_slots p) \<and> sm_in_use (p_slots p ! i)}"
  let ?lease = "\<lambda>i. \<lparr>pl_pool_id = p_pool_id p, pl_slot_index = word_of_nat i,
                     pl_generation = sm_generation (p_slots p ! i)\<rparr>"
  have len: "length (p_slots p) = unat (pl_capacity (p_layout p))" using inv by (simp add: pool_inv_def)
  have small: "unat (word_of_nat i :: size_t) = i" if "i < length (p_slots p)" for i
    using that slots_bound [OF inv] by (simp add: unat_of_nat)
  have "l \<in> ?lease ` ?used" if "l \<in> pool_live p" for l
    using that by (intro image_eqI [of _ _ "unat (pl_slot_index l)"])
      (auto simp: pool_live_def len word_less_nat_alt)
  moreover have "?lease i \<in> pool_live p" if "i \<in> ?used" for i
    using that small [of i] by (simp add: pool_live_def len word_less_nat_alt)
  ultimately have live: "pool_live p = ?lease ` ?used" by blast
  have "inj_on ?lease ?used" using small by (auto simp: inj_on_def) (metis small)
  then have "card (pool_live p) = card ?used" unfolding live by (rule card_image)
  moreover obtain fl where fl: "distinct fl" "set fl = free_slots (p_slots p)"
      "unat (p_in_use_count p) + length fl = length (p_slots p)"
    using inv by (auto simp: pool_inv_def)
  moreover have "?used = {..< length (p_slots p)} - free_slots (p_slots p)" by (auto simp: free_slots_def)
  then have "card ?used = length (p_slots p) - card (free_slots (p_slots p))"
    by (simp add: card_Diff_subset free_slots_def subset_iff)
  ultimately show "card (pool_live p) = unat (p_in_use_count p)"
    using distinct_card [OF fl(1)] by simp
  show "finite (pool_live p)" unfolding live by simp
qed

subsection \<open>Creation\<close>

lemma layout_compute_OK:
  assumes "vireo_pool_layout_compute sz al cap limit out = (VIREO_OK, Some l)"
  shows "pl_element_size l = sz" and "pl_element_alignment l = al" and "pl_capacity l = cap"
    and "sz \<noteq> 0" and "sz \<le> pl_slot_stride l" and "unat al dvd unat (pl_slot_stride l)"
    and "unat (pl_slot_stride l) * unat cap = unat (pl_storage_bytes l)" and "cap \<noteq> 0"
proof -
  have al: "al \<noteq> 0" using assms by (auto simp: vireo_pool_layout_compute_def split: if_splits)
  let ?a = "align_spec (unat sz) (unat al)"
  have a: "?a < 2 ^ 64" and stride: "pl_slot_stride l = word_of_nat ?a"
    and mul: "unat (pl_slot_stride l) * unat cap < 2 ^ 64"
    and sb: "pl_storage_bytes l = pl_slot_stride l * cap"
    and fields: "pl_element_size l = sz" "pl_element_alignment l = al" "pl_capacity l = cap"
      "sz \<noteq> 0" "cap \<noteq> 0"
    using assms
    by (auto simp: vireo_pool_layout_compute_def align_up_eq [OF al] size_mul_Some Let_def
        split: if_splits)
  have ua: "unat (pl_slot_stride l) = ?a" using a stride by (simp add: unat_of_nat)
  have pos: "0 < unat al" using al by (simp add: unat_gt_0)
  show "pl_element_size l = sz" "pl_element_alignment l = al" "pl_capacity l = cap" "sz \<noteq> 0" "cap \<noteq> 0"
    using fields by simp_all
  show "sz \<le> pl_slot_stride l" "unat al dvd unat (pl_slot_stride l)"
    using align_spec_least [OF pos] ua by (simp_all add: word_le_nat_alt)
  show "unat (pl_slot_stride l) * unat cap = unat (pl_storage_bytes l)"
    using mul unat_mult_less [of "pl_slot_stride l" cap] by (simp add: sb)
qed

lemma claim_identity_OK:
  "claim_identity races observed out = (VIREO_OK, identity, source) \<Longrightarrow>
   identity \<noteq> 0 \<and> source = identity \<and> unat identity = unat (last (observed # races)) + 1"
proof (induction races arbitrary: observed)
  case Nil
  then show ?case
    using next_generation_greater [of observed]
    by (auto simp: claim_identity.simps [of "[]"] next_generation word_unat_eq_iff split: if_splits)
next
  case (Cons seen rs)
  then have "claim_identity rs seen out = (VIREO_OK, identity, source)"
    by (auto simp: claim_identity.simps [of "seen # rs"] next_generation split: if_splits)
  from Cons.IH [OF this] show ?case by simp
qed

lemma initial_slots_chain:
  assumes "unat cap < 2 ^ 64 - 1" and "k \<le> unat cap"
  shows "free_chain (initial_slots cap) (if k = unat cap then SIZE_MAX else word_of_nat k) [k ..< unat cap]"
  using assms(2)
proof (induction "unat cap - k" arbitrary: k)
  case 0
  then show ?case by simp
next
  case (Suc n)
  then have k: "k < unat cap" by simp
  have small: "unat (word_of_nat j :: size_t) = j" if "j < 2 ^ 64" for j
    using that by (simp add: unat_of_nat)
  have uk: "unat (word_of_nat k :: size_t) = k" "unat (word_of_nat (Suc k) :: size_t) = Suc k"
    using k assms(1) by (auto intro!: small simp del: of_nat_Suc)
  have ne: "(word_of_nat k :: size_t) \<noteq> SIZE_MAX"
    using uk(1) k assms(1) unat_max_word [where 'a = 64] by auto
  have "(1 + word_of_nat k = cap) = (Suc k = unat cap)"
    by (simp only: word_unat_eq_iff uk(2) [unfolded of_nat_Suc])
  then have "sm_next_free (initial_slots cap ! k) = (if Suc k = unat cap then SIZE_MAX else word_of_nat (Suc k))"
    using k by (simp add: initial_slots_def add.commute)
  moreover have "free_chain (initial_slots cap)
      (if Suc k = unat cap then SIZE_MAX else word_of_nat (Suc k)) [Suc k ..< unat cap]"
    using Suc.hyps Suc.prems k by simp
  ultimately show ?case
    using k uk ne by (simp add: upt_conv_Cons initial_slots_def)
qed

abbreviation zero_layout :: vireo_pool_layout where
  "zero_layout \<equiv> \<lparr>pl_element_size = 0, pl_element_alignment = 0, pl_capacity = 0,
                   pl_slot_stride = 0, pl_storage_bytes = 0\<rparr>"

text \<open>The blocks of a pool, with their sizes.\<close>

definition pool_blocks :: "vireo_pool \<Rightarrow> (nat \<times> nat) set" where
  "pool_blocks p = {(p_self p, unat sizeof_vireo_pool),
     (p_storage p, unat (pl_storage_bytes (p_layout p))), (p_slots_block p, unat (p_metadata_bytes p))}"

lemma pool_create_fields:
  assumes "vireo_pool_create (Some opts) races src (Some None) h = (VIREO_OK, src', Some (Some p), h')"
  obtains h1 h2 where "vireo_pool_layout_compute (po_element_size opts) (po_element_alignment opts)
      (po_capacity opts) SIZE_MAX (Some zero_layout) = (VIREO_OK, Some (p_layout p))"
    and "claim_identity races src 0 = (VIREO_OK, p_pool_id p, the src')"
    and "24 * unat (pl_capacity (p_layout p)) = unat (p_metadata_bytes p)"
    and "unat (p_allocation_bytes p) =
      136 + unat (pl_storage_bytes (p_layout p)) + unat (p_metadata_bytes p)"
    and "p_allocation_bytes p \<le> po_max_memory_bytes opts" and "po_max_memory_bytes opts \<le> VIREO_POOL_MAX_MEMORY"
    and "p_slots p = initial_slots (pl_capacity (p_layout p))"
    and "p_free_head p = 0" and "p_in_use_count p = 0" and "p_last_generation p = 0"
    and "allocate_default h sizeof_vireo_pool = (Some (p_self p), h1)"
    and "allocate_default h1 (pl_storage_bytes (p_layout p)) = (Some (p_storage p), h2)"
    and "allocate_default h2 (p_metadata_bytes p) = (Some (p_slots_block p), h')"
proof -
  let ?lc = "vireo_pool_layout_compute (po_element_size opts) (po_element_alignment opts)
      (po_capacity opts) SIZE_MAX (Some zero_layout)"
  obtain l mb ab1 ab2 id src1 h1 h2 where steps:
    "?lc = (VIREO_OK, l)" "vireo_checked_size_mul sizeof_slot_metadata (pl_capacity (the l)) (Some 0) = (VIREO_OK, mb)"
    "vireo_checked_size_add sizeof_vireo_pool (pl_storage_bytes (the l)) (Some 0) = (VIREO_OK, ab1)"
    "vireo_checked_size_add (the ab1) (the mb) ab1 = (VIREO_OK, ab2)"
    "\<not> (po_max_memory_bytes opts > VIREO_POOL_MAX_MEMORY \<or> the ab2 > po_max_memory_bytes opts)"
    "claim_identity races src 0 = (VIREO_OK, id, src1)" "src' = Some src1"
    "allocate_default h sizeof_vireo_pool = (Some (p_self p), h1)"
    "allocate_default h1 (pl_storage_bytes (the l)) = (Some (p_storage p), h2)"
    "allocate_default h2 (the mb) = (Some (p_slots_block p), h')"
    "p = \<lparr>p_layout = the l, p_allocation_bytes = the ab2, p_max_memory_bytes = po_max_memory_bytes opts,
      p_metadata_bytes = the mb, p_storage = p_storage p, p_slots = initial_slots (pl_capacity (the l)),
      p_slots_block = p_slots_block p, p_free_head = 0, p_in_use_count = 0, p_pool_id = id,
      p_last_generation = 0, p_self = p_self p\<rparr>"
    using assms
    by (auto simp: vireo_pool_create_def vireo_pool_create_with_allocator_def
        vireo_pool_create_with_counters_def Let_def split: if_splits prod.splits)
  obtain lay where lay: "l = Some lay"
    using steps(1) by (auto simp: vireo_pool_layout_compute_def Let_def split: if_splits prod.splits)
  let ?m = "sizeof_slot_metadata * pl_capacity lay" and ?c = "136 + pl_storage_bytes lay"
  have fits: "24 * unat (pl_capacity lay) < 2 ^ 64" "136 + unat (pl_storage_bytes lay) < 2 ^ 64"
    "unat ?c + unat ?m < 2 ^ 64" and eqs: "mb = Some ?m" "ab1 = Some ?c" "ab2 = Some (?c + ?m)"
    using steps(2-4) lay by (auto simp: size_mul_Some size_add_Some split: if_splits)
  have "unat ?m = 24 * unat (pl_capacity lay)" "unat ?c = 136 + unat (pl_storage_bytes lay)"
    "unat (?c + ?m) = unat ?c + unat ?m"
    using fits unat_mult_less [of "24 :: size_t" "pl_capacity lay"]
      unat_add_less [of "136 :: size_t" "pl_storage_bytes lay"] unat_add_less [of ?c ?m] by simp_all
  moreover have "p_layout p = lay" "p_metadata_bytes p = ?m" "p_allocation_bytes p = ?c + ?m"
    "p_slots p = initial_slots (pl_capacity lay)" "p_free_head p = 0" "p_in_use_count p = 0"
    "p_pool_id p = id" "p_last_generation p = 0"
    by (subst steps(11), simp add: lay eqs)+
  ultimately show thesis
    using steps lay eqs by (intro that [of h1 h2]) (auto simp: not_less)
qed

lemma pool_create_OK:
  assumes wf: "heap_wf h"
    and run: "vireo_pool_create (Some opts) races src (Some None) h = (VIREO_OK, src', Some (Some p), h')"
  shows "pool_inv p" and "pool_live p = {}" and "heap_wf h'"
    and "set (heap_live h') = pool_blocks p \<union> set (heap_live h)"
    and "pool_blocks p \<inter> set (heap_live h) = {}" and "distinct [p_self p, p_storage p, p_slots_block p]"
    and "fst ` pool_blocks p \<inter> fst ` set (heap_live h) = {}"
    and "pl_element_alignment (p_layout p) = po_element_alignment opts"
    and "pl_element_size (p_layout p) = po_element_size opts"
proof -
  obtain h1 h2 where steps:
    "vireo_pool_layout_compute (po_element_size opts) (po_element_alignment opts)
      (po_capacity opts) SIZE_MAX (Some zero_layout) = (VIREO_OK, Some (p_layout p))"
    "claim_identity races src 0 = (VIREO_OK, p_pool_id p, the src')"
    "24 * unat (pl_capacity (p_layout p)) = unat (p_metadata_bytes p)"
    "p_slots p = initial_slots (pl_capacity (p_layout p))"
    "p_free_head p = 0" "p_in_use_count p = 0" "p_last_generation p = 0"
    and a: "allocate_default h sizeof_vireo_pool = (Some (p_self p), h1)"
    "allocate_default h1 (pl_storage_bytes (p_layout p)) = (Some (p_storage p), h2)"
    "allocate_default h2 (p_metadata_bytes p) = (Some (p_slots_block p), h')"
    using pool_create_fields [OF run] by metis
  note lay = layout_compute_OK [OF steps(1)]
  let ?cap = "pl_capacity (p_layout p)"
  have small: "unat ?cap < 2 ^ 64 - 1" using steps(3) unat_lt_64 [of "p_metadata_bytes p"] by simp
  moreover have "unat (- 1 :: size_t) = 2 ^ 64 - 1" using unat_max_word [where 'a = 64] by simp
  ultimately have "?cap \<noteq> SIZE_MAX" by auto
  then have "layout_ok (p_layout p)" using lay by (simp add: layout_ok_def)
  moreover have "0 < unat ?cap" using lay by (simp add: unat_gt_0)
  then have "free_chain (p_slots p) (p_free_head p) [0 ..< unat ?cap]"
    using initial_slots_chain [OF small, of 0] steps by simp
  moreover have "free_slots (p_slots p) = {..< unat ?cap}"
    by (auto simp: steps free_slots_def initial_slots_def)
  moreover have "p_pool_id p \<noteq> 0" using claim_identity_OK [OF steps(2)] by simp
  moreover have "length (p_slots p) = unat ?cap" "\<forall>s \<in> set (p_slots p). \<not> sm_in_use s"
    by (auto simp: steps(4) initial_slots_def)
  ultimately show "pool_inv p"
    unfolding pool_inv_def
    by (intro conjI exI [of _ "[0 ..< unat ?cap]"]) (simp_all add: steps(6) lessThan_atLeast0)
  show "pool_live p = {}" by (auto simp: pool_live_def steps initial_slots_def word_less_nat_alt)
  show "heap_wf h'" using wf a by (blast intro: allocate_wf)
  note s = allocate_Some [OF a(1)] allocate_Some [OF a(2)] allocate_Some [OF a(3)]
  show "set (heap_live h') = pool_blocks p \<union> set (heap_live h)"
    using s by (auto simp: pool_blocks_def)
  show "distinct [p_self p, p_storage p, p_slots_block p]" using s by simp
  have "b < heap_calls h" if "b \<in> fst ` set (heap_live h)" for b using that wf by (auto simp: heap_wf_def)
  moreover have "heap_calls h \<le> b" if "b \<in> fst ` pool_blocks p" for b
    using that s by (auto simp: pool_blocks_def)
  ultimately show disj: "fst ` pool_blocks p \<inter> fst ` set (heap_live h) = {}"
    by (metis disjoint_iff not_less)
  then show "pool_blocks p \<inter> set (heap_live h) = {}" by fast
  show "pl_element_alignment (p_layout p) = po_element_alignment opts"
    "pl_element_size (p_layout p) = po_element_size opts" using lay by simp_all
qed

subsection \<open>Properties\<close>

text \<open>
  C30. Exclusive slots: after any sequence of acquires and releases on a newly created pool, the
  object bytes of every live lease lie inside the storage block at a multiple of the requested
  alignment, two different live leases never share a byte, the in-use counter is the number of live
  leases, and the pointer handed out with a lease is the start of that lease's bytes.
\<close>

theorem pool_live_leases_exclusive:
  assumes "heap_wf h"
    and "vireo_pool_create (Some opts) races src (Some None) h = (VIREO_OK, src', Some (Some p), h')"
    and "lease_run pool_take pool_give ops p = (ls, q)"
  shows "card (pool_live q) = unat (p_in_use_count q) \<and>
    (\<forall>l \<in> pool_live q.
       lease_region q l \<noteq> {} \<and> lease_region q l \<subseteq> {..< unat (pl_storage_bytes (p_layout p))} \<and>
       unat (po_element_alignment opts) dvd unat (pl_slot_index l) * unat (pl_slot_stride (p_layout q)) \<and>
       (\<forall>m \<in> pool_live q. m \<noteq> l \<longrightarrow> lease_region q l \<inter> lease_region q m = {})) \<and>
    (\<forall>old obj q' l obj'. vireo_pool_acquire (Some q) (Some old) (Some obj) =
         (VIREO_OK, Some q', Some l, Some obj') \<longrightarrow>
       fst obj' = p_storage p \<and>
       unat (snd obj') = unat (pl_slot_index l) * unat (pl_slot_stride (p_layout q)))"
proof -
  note c = pool_create_OK [OF assms(1,2)]
  have inv: "pool_inv q" using pool_leases.run_inv [OF c(1), of ops] assms(3) by simp
  have frame: "pool_frame q = pool_frame p" using pool_run_frame [OF c(1), of ops] assms(3) by simp
  then have lay: "p_layout q = p_layout p" and st: "p_storage q = p_storage p"
    by (simp_all add: pool_frame_def)
  let ?s = "unat (pl_slot_stride (p_layout q))" and ?e = "unat (pl_element_size (p_layout q))"
  have lo: "?e \<le> ?s" "0 < ?e" "unat (pl_element_alignment (p_layout q)) dvd ?s"
    using inv by (simp_all add: pool_inv_def layout_ok_def word_le_nat_alt unat_gt_0)
  have apart: "lease_region q l \<inter> lease_region q m = {}"
    if lm: "l \<in> pool_live q" "m \<in> pool_live q" "unat (pl_slot_index l) < unat (pl_slot_index m)" for l m
  proof -
    have "Suc (unat (pl_slot_index l)) * ?s \<le> unat (pl_slot_index m) * ?s"
      using lm(3) by (intro mult_le_mono1) simp
    then show ?thesis using lo(1) by (auto simp: lease_region_def Let_def)
  qed
  have same: "l = m" if "l \<in> pool_live q" "m \<in> pool_live q" "unat (pl_slot_index l) = unat (pl_slot_index m)" for l m
    using that by (auto simp: pool_live_def word_unat_eq_iff [symmetric] intro!: vireo_pool_lease.equality)
  have each: "lease_region q l \<noteq> {} \<and> lease_region q l \<subseteq> {..< unat (pl_storage_bytes (p_layout p))} \<and>
       unat (po_element_alignment opts) dvd unat (pl_slot_index l) * ?s \<and>
       (\<forall>m \<in> pool_live q. m \<noteq> l \<longrightarrow> lease_region q l \<inter> lease_region q m = {})"
    if l: "l \<in> pool_live q" for l
    using slot_offset_bound [OF inv live_slot(1) [OF inv l]] lo c(8) lay l apart same
    by (auto simp: lease_region_def Let_def) (metis Int_iff empty_iff linorder_neqE_nat)+
  have ptr: "fst obj' = p_storage p \<and> unat (snd obj') = unat (pl_slot_index l) * ?s"
    if "vireo_pool_acquire (Some q) (Some old) (Some obj) = (VIREO_OK, Some q', Some l, Some obj')"
    for old obj q' l obj'
  proof -
    have h: "p_free_head q \<noteq> SIZE_MAX" and o: "obj' = (p_storage q, p_free_head q * pl_slot_stride (p_layout q))"
      and i: "pl_slot_index l = p_free_head q"
      using that inv by (auto simp: acquire_eq split: if_splits)
    have "unat (p_free_head q) < length (p_slots q)" using free_head_valid [OF inv h] by metis
    from slot_offset_bound [OF inv this] have "unat (p_free_head q) * ?s < 2 ^ 64"
      using unat_lt_64 [of "pl_storage_bytes (p_layout q)"] by simp
    then show ?thesis
      using unat_mult_less [of "p_free_head q" "pl_slot_stride (p_layout q)"] o i st by simp
  qed
  show ?thesis using pool_live_card [OF inv] each ptr by simp
qed

text \<open>
  C23. A lease is accepted back exactly once: once its release has succeeded, every further attempt
  to release it, after any other acquires and releases (also ones that reuse its slot), reports
  NOT_FOUND and changes neither the pool nor the lease.
\<close>

theorem pool_stale_lease_rejected:
  assumes "heap_wf h"
    and "vireo_pool_create (Some opts) races src (Some None) h = (VIREO_OK, src', Some (Some p), h')"
    and "lease_run pool_take pool_give ops p = (ls, q)"
    and "vireo_pool_release (Some q) (Some l) = (VIREO_OK, Some q1, l')"
    and "lease_run pool_take pool_give ops1 q1 = (ls1, q2)"
  shows "vireo_pool_release (Some q2) (Some l) = (VIREO_RESULT_NOT_FOUND, Some q2, Some l)"
proof -
  note c = pool_create_OK [OF assms(1,2)]
  have inv: "pool_inv q" using pool_leases.run_inv [OF c(1), of ops] assms(3) by simp
  have give: "pool_give l q = (VIREO_OK, q1)" using assms(4) by (simp add: pool_give_def)
  have inv1: "pool_inv q1" using pool_leases.give_inv [OF inv give] .
  have inv2: "pool_inv q2" using pool_leases.run_inv [OF inv1, of ops1] assms(5) by simp
  have dead: "l \<notin> pool_live q2" using pool_leases.given_once [OF inv give assms(5)] by simp
  have l: "l \<in> pool_live q" using pool_leases.give_effect [OF inv give] by simp
  then have "pl_pool_id l = p_pool_id q" "pl_generation l \<noteq> 0" "pl_slot_index l < pl_capacity (p_layout q)"
    using live_slot(4) [OF inv] by (auto simp: pool_live_def pool_issued_def)
  moreover have "pool_frame q2 = pool_frame q"
    using pool_run_frame [OF inv1, of ops1] pool_give_frame [OF inv, of l] give assms(5) by simp
  then have "p_pool_id q2 = p_pool_id q" "p_layout q2 = p_layout q" by (simp_all add: pool_frame_def)
  moreover have "p_pool_id q \<noteq> 0" using inv by (simp add: pool_inv_def)
  ultimately show ?thesis using dead inv2 by (auto simp: release_eq not_le)
qed

lemma pool_create_fails:
  assumes wf: "heap_wf h"
    and run: "vireo_pool_create opts races src (Some None) h = (rc, src', out, h')" and "rc \<noteq> VIREO_OK"
  shows "out = Some None \<and> heap_live h' = heap_live h"
proof -
  have "a < heap_calls h" if "(a, n) \<in> set (heap_live h)" for a n
    using that wf by (auto simp: heap_wf_def)
  then show ?thesis
    using run \<open>rc \<noteq> VIREO_OK\<close>
    by (auto simp: vireo_pool_create_def vireo_pool_create_with_allocator_def
        vireo_pool_create_with_counters_def Let_def allocate_default_def deallocate_default_def
        filter_id_conv split: if_splits prod.splits) force+
qed

text \<open>
  A pool costs what it promised and leaks nothing: a failing create keeps the caller's handle
  and leaves no block behind; a successful one takes exactly three blocks whose sizes add up to the
  reported allocation, within the caller's budget and the 64 MiB limit; destroy refuses while a
  lease is out, and otherwise gives back precisely these blocks.
\<close>

theorem pool_lifecycle_no_leak:
  assumes "heap_wf h" and "vireo_pool_create (Some opts) races src (Some None) h = (rc, src', out, h1)"
  shows "(rc \<noteq> VIREO_OK \<longrightarrow> out = Some None \<and> heap_live h1 = heap_live h) \<and>
    (\<forall>p. rc = VIREO_OK \<and> out = Some (Some p) \<longrightarrow>
       (\<Sum>(b, n) \<in> pool_blocks p. n) = unat (p_allocation_bytes p) \<and>
       p_allocation_bytes p \<le> po_max_memory_bytes opts \<and> po_max_memory_bytes opts \<le> VIREO_POOL_MAX_MEMORY \<and>
       set (heap_live h1) = pool_blocks p \<union> set (heap_live h) \<and>
       (\<forall>ops ls q. lease_run pool_take pool_give ops p = (ls, q) \<longrightarrow>
          (if pool_live q = {}
           then \<exists>h2. vireo_pool_destroy (Some (Some q)) h1 = (VIREO_OK, Some None, h2) \<and>
                     set (heap_live h2) = set (heap_live h)
           else vireo_pool_destroy (Some (Some q)) h1 = (VIREO_RESULT_BUSY, Some (Some q), h1))))"
proof (cases "rc = VIREO_OK")
  case False
  then show ?thesis using pool_create_fails [OF assms] by simp
next
  case True
  have "(\<Sum>(b, n) \<in> pool_blocks p. n) = unat (p_allocation_bytes p) \<and>
       p_allocation_bytes p \<le> po_max_memory_bytes opts \<and> po_max_memory_bytes opts \<le> VIREO_POOL_MAX_MEMORY \<and>
       set (heap_live h1) = pool_blocks p \<union> set (heap_live h) \<and>
       (\<forall>ops ls q. lease_run pool_take pool_give ops p = (ls, q) \<longrightarrow>
          (if pool_live q = {}
           then \<exists>h2. vireo_pool_destroy (Some (Some q)) h1 = (VIREO_OK, Some None, h2) \<and>
                     set (heap_live h2) = set (heap_live h)
           else vireo_pool_destroy (Some (Some q)) h1 = (VIREO_RESULT_BUSY, Some (Some q), h1)))"
    if out: "out = Some (Some p)" for p
  proof (intro conjI allI impI)
    note run = assms(2) [unfolded True out]
    note c = pool_create_OK [OF assms(1) run]
    show "p_allocation_bytes p \<le> po_max_memory_bytes opts" "po_max_memory_bytes opts \<le> VIREO_POOL_MAX_MEMORY"
      "set (heap_live h1) = pool_blocks p \<union> set (heap_live h)"
      using pool_create_fields [OF run] c(4) by metis+
    have "unat (p_allocation_bytes p) = 136 + unat (pl_storage_bytes (p_layout p)) + unat (p_metadata_bytes p)"
      using pool_create_fields [OF run] by metis
    then show "(\<Sum>(b, n) \<in> pool_blocks p. n) = unat (p_allocation_bytes p)"
      using c(6) by (simp add: pool_blocks_def)
    fix ops ls q
    assume ops: "lease_run pool_take pool_give ops p = (ls, q)"
    have inv: "pool_inv q" using pool_leases.run_inv [OF c(1), of ops] ops by simp
    have "pool_frame q = pool_frame p" using pool_run_frame [OF c(1), of ops] ops by simp
    then have blocks: "p_self q = p_self p" "p_storage q = p_storage p" "p_slots_block q = p_slots_block p"
      by (simp_all add: pool_frame_def)
    have cnt: "p_in_use_count q = 0 \<longleftrightarrow> pool_live q = {}"
      using pool_live_card [OF inv] by (metis card_eq_0_iff unat_eq_zero)
    let ?d1 = "deallocate_default h1 (p_slots_block p) []"
    let ?d2 = "deallocate_default ?d1 (p_storage p) []"
    have fresh: "p_self p \<notin> fst ` set (heap_live h)" "p_storage p \<notin> fst ` set (heap_live h)"
      "p_slots_block p \<notin> fst ` set (heap_live h)"
      using c(7) by (auto simp: pool_blocks_def)
    have "set (heap_live ?d1) = insert (p_storage p, unat (pl_storage_bytes (p_layout p)))
        (insert (p_self p, 136) (set (heap_live h)))"
      by (rule set_deallocate) (use c(4,6) fresh in \<open>auto simp: pool_blocks_def\<close>)
    then have "set (heap_live ?d2) = insert (p_self p, 136) (set (heap_live h))"
      by (rule set_deallocate) (use c(6) fresh in simp)
    then have "set (heap_live (deallocate_default ?d2 (p_self p) [])) = set (heap_live h)"
      by (rule set_deallocate) (rule fresh(1))
    then show "if pool_live q = {}
        then \<exists>h2. vireo_pool_destroy (Some (Some q)) h1 = (VIREO_OK, Some None, h2) \<and>
                  set (heap_live h2) = set (heap_live h)
        else vireo_pool_destroy (Some (Some q)) h1 = (VIREO_RESULT_BUSY, Some (Some q), h1)"
      using cnt by (simp add: vireo_pool_destroy_def blocks)
  qed
  then show ?thesis using True by blast
qed

subsection \<open>A concrete pool\<close>

definition demo_options :: vireo_pool_options where
  "demo_options = \<lparr>po_element_size = 12, po_element_alignment = 8, po_capacity = 3,
                   po_max_memory_bytes = 4096\<rparr>"

definition demo_pool :: vireo_pool where
  "demo_pool = \<lparr>p_layout = \<lparr>pl_element_size = 12, pl_element_alignment = 8, pl_capacity = 3,
       pl_slot_stride = 16, pl_storage_bytes = 48\<rparr>,
     p_allocation_bytes = 256, p_max_memory_bytes = 4096, p_metadata_bytes = 72, p_storage = 1,
     p_slots = [\<lparr>sm_next_free = 1, sm_generation = 0, sm_in_use = False\<rparr>,
                \<lparr>sm_next_free = 2, sm_generation = 0, sm_in_use = False\<rparr>,
                \<lparr>sm_next_free = SIZE_MAX, sm_generation = 0, sm_in_use = False\<rparr>],
     p_slots_block = 2, p_free_head = 0, p_in_use_count = 0, p_pool_id = 8, p_last_generation = 0,
     p_self = 0\<rparr>"

definition demo_pool_heap :: vireo_heap where
  "demo_pool_heap = \<lparr>heap_calls = 3, heap_failing = [3], heap_live = [(2, 72), (1, 48), (0, 136)],
                     heap_fill = 165, heap_released = []\<rparr>"

lemma demo_pool_created:
  "vireo_pool_create (Some demo_options) [5, 7] 4 (Some None) demo_heap =
     (VIREO_OK, Some 8, Some (Some demo_pool), demo_pool_heap)"
  by code_simp

abbreviation demo_lease :: "size_t \<Rightarrow> u64 \<Rightarrow> vireo_pool_lease" where
  "demo_lease i g \<equiv> \<lparr>pl_pool_id = 8, pl_slot_index = i, pl_generation = g\<rparr>"

theorem pool_live_leases_exclusive_witness:
  "let q = snd (lease_run pool_take pool_give [Take, Take, Give (demo_lease 0 1), Take] demo_pool)
   in card (pool_live q) = 2 \<and> demo_lease 0 3 \<in> pool_live q \<and> demo_lease 1 2 \<in> pool_live q \<and>
      lease_region q (demo_lease 0 3) \<inter> lease_region q (demo_lease 1 2) = {}"
proof -
  let ?ops = "[Take, Take, Give (demo_lease 0 1), Take]"
  obtain ls q where run: "lease_run pool_take pool_give ?ops demo_pool = (ls, q)" by (metis surj_pair)
  have "(\<lambda>q. p_in_use_count q = 2 \<and> p_pool_id q = 8 \<and> pl_capacity (p_layout q) = 3 \<and>
      map (\<lambda>s. (sm_in_use s, sm_generation s)) (p_slots q) = [(True, 3), (True, 2), (False, 0)])
    (snd (lease_run pool_take pool_give ?ops demo_pool))"
    by code_simp
  then have q: "p_in_use_count q = 2" "p_pool_id q = 8" "pl_capacity (p_layout q) = 3"
    "map (\<lambda>s. (sm_in_use s, sm_generation s)) (p_slots q) = [(True, 3), (True, 2), (False, 0)]"
    by (simp_all only: run snd_conv)
  then have slots: "sm_in_use (p_slots q ! 0)" "sm_generation (p_slots q ! 0) = 3"
    "sm_in_use (p_slots q ! 1)" "sm_generation (p_slots q ! 1) = 2"
    by (auto simp: map_eq_Cons_conv)
  have mem: "demo_lease 0 3 \<in> pool_live q" "demo_lease 1 2 \<in> pool_live q"
    unfolding pool_live_def mem_Collect_eq vireo_pool_lease.simps q(2,3) unat_0 unat_1 using slots by simp_all
  have ne: "demo_lease 1 2 \<noteq> demo_lease 0 3" by simp
  note w = pool_live_leases_exclusive [OF demo_heap_wf demo_pool_created run]
  have "card (pool_live q) = 2" using w [THEN conjunct1] q(1) by simp
  moreover have "lease_region q (demo_lease 0 3) \<inter> lease_region q (demo_lease 1 2) = {}"
    using w [THEN conjunct2, THEN conjunct1] mem ne by blast
  ultimately show ?thesis using mem unfolding Let_def run snd_conv by (intro conjI)
qed

theorem pool_stale_lease_rejected_witness:
  "\<exists>q q1 q2 ls ls1 l'.
     lease_run pool_take pool_give [Take] demo_pool = (ls, q) \<and>
     vireo_pool_release (Some q) (Some (demo_lease 0 1)) = (VIREO_OK, Some q1, l') \<and>
     lease_run pool_take pool_give [Take, Take] q1 = (ls1, q2) \<and> demo_lease 0 2 \<in> set ls1 \<and>
     vireo_pool_release (Some q2) (Some (demo_lease 0 1)) =
       (VIREO_RESULT_NOT_FOUND, Some q2, Some (demo_lease 0 1))"
proof -
  obtain ls q where r: "lease_run pool_take pool_give [Take] demo_pool = (ls, q)" by (metis surj_pair)
  have "(\<lambda>q. fst (vireo_pool_release (Some q) (Some (demo_lease 0 1))) = VIREO_OK \<and>
      fst (snd (vireo_pool_release (Some q) (Some (demo_lease 0 1)))) \<noteq> None \<and>
      demo_lease 0 2 \<in> set (fst (lease_run pool_take pool_give [Take, Take]
        (the (fst (snd (vireo_pool_release (Some q) (Some (demo_lease 0 1)))))))))
    (snd (lease_run pool_take pool_give [Take] demo_pool))"
    by code_simp
  then obtain q1 l' where rel: "vireo_pool_release (Some q) (Some (demo_lease 0 1)) = (VIREO_OK, Some q1, l')"
    and reuse: "demo_lease 0 2 \<in> set (fst (lease_run pool_take pool_give [Take, Take] q1))"
    unfolding r snd_conv by (metis fst_conv option.collapse prod.collapse)
  obtain ls1 q2 where r1: "lease_run pool_take pool_give [Take, Take] q1 = (ls1, q2)" by (metis surj_pair)
  from pool_stale_lease_rejected [OF demo_heap_wf demo_pool_created r rel r1] r rel r1 reuse
  show ?thesis by (metis fst_conv)
qed

theorem pool_lifecycle_no_leak_witness:
  "(\<Sum>(b, n) \<in> pool_blocks demo_pool. n) = 256 \<and>
   (\<exists>h2. vireo_pool_destroy (Some (Some demo_pool)) demo_pool_heap = (VIREO_OK, Some None, h2) \<and>
         heap_live h2 = [])"
proof -
  note w = pool_lifecycle_no_leak [OF demo_heap_wf demo_pool_created, THEN conjunct2, rule_format, of demo_pool]
  have run: "lease_run pool_take pool_give [] demo_pool = ([], demo_pool)" by simp
  have "pool_live demo_pool = {}"
    using pool_create_OK(2) [OF demo_heap_wf demo_pool_created] .
  then have "\<exists>h2. vireo_pool_destroy (Some (Some demo_pool)) demo_pool_heap = (VIREO_OK, Some None, h2) \<and>
      set (heap_live h2) = set (heap_live demo_heap)"
    using w run by (metis (no_types, lifting))
  moreover have "(\<Sum>(b, n) \<in> pool_blocks demo_pool. n) = unat (p_allocation_bytes demo_pool)"
    using w by blast
  ultimately show ?thesis by (simp add: demo_heap_def demo_pool_def)
qed

end
