(* ===== verification/Protocol_Wire.thy ===== *)
theory Protocol_Wire
  imports Base_Checked
begin

unbundle bit_operations_syntax

text \<open>
  Big-endian integers, shared by the wire codecs of \<^verbatim>\<open>src/protocol\<close>. Each of \<^verbatim>\<open>codec.c\<close>, \<^verbatim>\<open>tlv.c\<close>
  and \<^verbatim>\<open>chunk.c\<close> has its own shift-and-mask helpers; the locale \<open>wire_int\<close> is the contract that all
  of them meet and that the codec proofs use.
\<close>

definition be16 :: "u16 \<Rightarrow> bytes" where
  "be16 v = [ucast (drop_bit 8 v), ucast v]"

definition be32 :: "u32 \<Rightarrow> bytes" where
  "be32 v = [ucast (drop_bit 24 v), ucast (drop_bit 16 v), ucast (drop_bit 8 v), ucast v]"

definition be64 :: "u64 \<Rightarrow> bytes" where
  "be64 v = [ucast (drop_bit 56 v), ucast (drop_bit 48 v), ucast (drop_bit 40 v), ucast (drop_bit 32 v),
             ucast (drop_bit 24 v), ucast (drop_bit 16 v), ucast (drop_bit 8 v), ucast v]"

definition rd16 :: "bytes \<Rightarrow> u16" where
  "rd16 w = push_bit 8 (ucast (w ! 0)) OR ucast (w ! 1)"

definition rd32 :: "bytes \<Rightarrow> u32" where
  "rd32 w = push_bit 24 (ucast (w ! 0)) OR push_bit 16 (ucast (w ! 1)) OR push_bit 8 (ucast (w ! 2))
            OR ucast (w ! 3)"

definition rd64 :: "bytes \<Rightarrow> u64" where
  "rd64 w = push_bit 56 (ucast (w ! 0)) OR push_bit 48 (ucast (w ! 1)) OR push_bit 40 (ucast (w ! 2))
            OR push_bit 32 (ucast (w ! 3)) OR push_bit 24 (ucast (w ! 4)) OR push_bit 16 (ucast (w ! 5))
            OR push_bit 8 (ucast (w ! 6)) OR ucast (w ! 7)"

locale wire_int =
  fixes enc :: "'a :: len word \<Rightarrow> bytes"
    and dec :: "bytes \<Rightarrow> 'a word"
    and n :: nat
  assumes enc_length: "length (enc v) = n"
    and dec_enc: "dec (enc v @ rest) = v"
    and enc_dec: "length bs = n \<Longrightarrow> enc (dec (bs @ rest)) = bs"
begin

lemma dec_take: "n \<le> length w \<Longrightarrow> enc (dec w) = take n w"
  using enc_dec [of "take n w" "drop n w"] by simp

lemma dec_at: "off + n \<le> length w \<Longrightarrow> mem_read off n w = enc v \<Longrightarrow> dec (drop off w) = v"
  by (metis append_take_drop_id dec_enc mem_read_def)

lemma enc_at: "off + n \<le> length w \<Longrightarrow> enc (dec (drop off w)) = mem_read off n w"
  using dec_take [of "drop off w"] by (simp add: mem_read_def)

lemma enc_inject: "enc v = enc w \<longleftrightarrow> v = w"
  by (metis append_Nil2 dec_enc)

lemma dec_inject:
  "n \<le> length w1 \<Longrightarrow> n \<le> length w2 \<Longrightarrow> dec w1 = dec w2 \<longleftrightarrow> take n w1 = take n w2"
  by (metis dec_take enc_inject)

end

lemma rd16_be16: "rd16 (be16 v @ rest) = v"
proof (rule bit_word_eqI)
  fix n
  assume "n < LENGTH(16)"
  then consider "n < 8" | "8 \<le> n" "n < 16" by fastforce
  then show "bit (rd16 (be16 v @ rest)) n = bit v n"
    by cases (simp_all add: be16_def rd16_def bit_simps less_diff_conv2)
qed

lemma be16_rd16: "length bs = 2 \<Longrightarrow> be16 (rd16 (bs @ rest)) = bs"
proof -
  assume "length bs = 2"
  then obtain a b where "bs = [a, b]" by (auto simp: numeral_eq_Suc length_Suc_conv)
  then show ?thesis
    by (auto simp: be16_def rd16_def intro!: bit_word_eqI) (auto simp: bit_simps dest: bit_imp_le_length)
qed

interpretation w16: wire_int be16 rd16 2
  by unfold_locales (simp_all add: rd16_be16 be16_rd16, simp add: be16_def)

lemma rd32_be32: "rd32 (be32 v @ rest) = v"
proof (rule bit_word_eqI)
  fix n
  assume "n < LENGTH(32)"
  then consider "n < 8" | "8 \<le> n" "n < 16" | "16 \<le> n" "n < 24" | "24 \<le> n" "n < 32" by fastforce
  then show "bit (rd32 (be32 v @ rest)) n = bit v n"
    by cases (simp_all add: be32_def rd32_def bit_simps less_diff_conv2)
qed

lemma be32_rd32: "length bs = 4 \<Longrightarrow> be32 (rd32 (bs @ rest)) = bs"
proof -
  assume "length bs = 4"
  then obtain a b c d where "bs = [a, b, c, d]" by (auto simp: numeral_eq_Suc length_Suc_conv)
  then show ?thesis
    by (auto simp: be32_def rd32_def intro!: bit_word_eqI) (auto simp: bit_simps dest: bit_imp_le_length)
qed

interpretation w32: wire_int be32 rd32 4
  by unfold_locales (simp_all add: rd32_be32 be32_rd32, simp add: be32_def)

lemma rd64_be64: "rd64 (be64 v @ rest) = v"
proof (rule bit_word_eqI)
  fix n
  assume "n < LENGTH(64)"
  then consider "n < 8" | "8 \<le> n" "n < 16" | "16 \<le> n" "n < 24" | "24 \<le> n" "n < 32" | "32 \<le> n" "n < 40" | "40 \<le> n" "n < 48" | "48 \<le> n" "n < 56" | "56 \<le> n" "n < 64" by fastforce
  then show "bit (rd64 (be64 v @ rest)) n = bit v n"
    by cases (simp_all add: be64_def rd64_def bit_simps less_diff_conv2)
qed

lemma be64_rd64: "length bs = 8 \<Longrightarrow> be64 (rd64 (bs @ rest)) = bs"
proof -
  assume "length bs = 8"
  then obtain a b c d e f g h where "bs = [a, b, c, d, e, f, g, h]" by (auto simp: numeral_eq_Suc length_Suc_conv)
  then show ?thesis
    by (auto simp: be64_def rd64_def intro!: bit_word_eqI) (auto simp: bit_simps dest: bit_imp_le_length)
qed

interpretation w64: wire_int be64 rd64 8
  by unfold_locales (simp_all add: rd64_be64 be64_rd64, simp add: be64_def)

lemmas wire_int_lengths [simp] = w16.enc_length w32.enc_length w64.enc_length
lemmas wire_int_roundtrip [wire_simps] = w16.dec_enc w32.dec_enc w64.dec_enc

text \<open>A frame that is filled from left to right.\<close>

lemma mem_write_fill:
  "off = length pre \<Longrightarrow> mem_write off src (pre @ dst) = pre @ src @ drop (length src) dst"
  by (simp add: mem_write_def)

lemma mem_read_append:
  "off + n \<le> length pre \<Longrightarrow> mem_read off n (pre @ w) = mem_read off n pre"
  "length pre \<le> off \<Longrightarrow> mem_read off n (pre @ w) = mem_read (off - length pre) n w"
  by (simp_all add: mem_read_def)

end
