(* ===== verification/Protocol_Tlv.thy ===== *)
theory Protocol_Tlv
  imports Protocol_Wire
begin

unbundle bit_operations_syntax

text \<open>
  The type-length-value layer of \<^verbatim>\<open>src/protocol/tlv.c\<close>: a writer and a reader over borrowed byte
  regions, typed views, the UTF-8 and name checks and the rule-table validation of a whole body.
  \<open>tlv_encode\<close> is the abstract meaning of a body, a list of fields. A C enum parameter may hold a
  value outside its enumerators, which the code rejects: the last constructor of the two enums
  stands for all such values.
\<close>

datatype vireo_tlv_issue =
    VIREO_TLV_ISSUE_NONE
  | VIREO_TLV_ISSUE_TRUNCATED_HEADER
  | VIREO_TLV_ISSUE_TRUNCATED_VALUE
  | VIREO_TLV_ISSUE_UNKNOWN_TYPE
  | VIREO_TLV_ISSUE_INVALID_LENGTH
  | VIREO_TLV_ISSUE_DUPLICATE_FIELD
  | VIREO_TLV_ISSUE_MISSING_REQUIRED_FIELD
  | VIREO_TLV_ISSUE_INVALID_UTF8
  | VIREO_TLV_ISSUE_INVALID_NAME

datatype vireo_tlv_unknown_policy =
    VIREO_TLV_UNKNOWN_REJECT
  | VIREO_TLV_UNKNOWN_SKIP
  | VIREO_TLV_UNKNOWN_OTHER

datatype vireo_tlv_value_kind =
    VIREO_TLV_VALUE_BYTES
  | VIREO_TLV_VALUE_U16
  | VIREO_TLV_VALUE_U32
  | VIREO_TLV_VALUE_U64
  | VIREO_TLV_VALUE_UTF8
  | VIREO_TLV_VALUE_NAME
  | VIREO_TLV_VALUE_OTHER

abbreviation (input) VIREO_TLV_TYPE_OFFSET :: nat where
  "VIREO_TLV_TYPE_OFFSET \<equiv> 0"

abbreviation (input) VIREO_TLV_LENGTH_OFFSET :: nat where
  "VIREO_TLV_LENGTH_OFFSET \<equiv> 2"

abbreviation (input) VIREO_TLV_HEADER_SIZE :: size_t where
  "VIREO_TLV_HEADER_SIZE \<equiv> 4"

abbreviation (input) VIREO_TLV_MAX_VALUE_SIZE :: size_t where
  "VIREO_TLV_MAX_VALUE_SIZE \<equiv> 65535"

record vireo_tlv_writer =
  tw_data :: "bytes option"
  tw_capacity :: size_t
  tw_used :: size_t

record vireo_tlv_reader =
  tr_data :: "bytes option"
  tr_size :: size_t
  tr_offset :: size_t

text \<open>\<open>tv_value\<close> is the region from the view's value pointer on; \<open>tv_length\<close> bytes of it are the value.\<close>

record vireo_tlv_view =
  tv_type :: u16
  tv_value :: "bytes option"
  tv_length :: size_t

record vireo_tlv_rule =
  rule_type :: u16
  rule_min_length :: u16
  rule_max_length :: u16
  rule_value_kind :: vireo_tlv_value_kind
  rule_required :: bool
  rule_repeatable :: bool

subsection \<open>Integers\<close>

definition vireo_tlv_write_u16_be :: "nat \<Rightarrow> u16 \<Rightarrow> bytes \<Rightarrow> bytes" where
  "vireo_tlv_write_u16_be off v wire = mem_write off [ucast (drop_bit 8 v), ucast v] wire"

definition vireo_tlv_write_u32_be :: "nat \<Rightarrow> u32 \<Rightarrow> bytes \<Rightarrow> bytes" where
  "vireo_tlv_write_u32_be off v wire =
     mem_write off [ucast (drop_bit 24 v), ucast (drop_bit 16 v), ucast (drop_bit 8 v), ucast v] wire"

definition vireo_tlv_write_u64_be :: "nat \<Rightarrow> u64 \<Rightarrow> bytes \<Rightarrow> bytes" where
  "vireo_tlv_write_u64_be off v wire =
     mem_write off [ucast (drop_bit 56 v), ucast (drop_bit 48 v), ucast (drop_bit 40 v), ucast (drop_bit 32 v),
       ucast (drop_bit 24 v), ucast (drop_bit 16 v), ucast (drop_bit 8 v), ucast v] wire"

definition vireo_tlv_read_u16_be :: "bytes \<Rightarrow> u16" where
  "vireo_tlv_read_u16_be wire =
     (let high = push_bit 8 (ucast (wire ! 0)); low = ucast (wire ! 1) in high OR low)"

definition vireo_tlv_read_u32_be :: "bytes \<Rightarrow> u32" where
  "vireo_tlv_read_u32_be wire =
     (let byte0 = push_bit 24 (ucast (wire ! 0)); byte1 = push_bit 16 (ucast (wire ! 1));
          byte2 = push_bit 8 (ucast (wire ! 2)); byte3 = ucast (wire ! 3)
      in byte0 OR byte1 OR byte2 OR byte3)"

definition vireo_tlv_read_u64_be :: "bytes \<Rightarrow> u64" where
  "vireo_tlv_read_u64_be wire =
     (let byte0 = push_bit 56 (ucast (wire ! 0)); byte1 = push_bit 48 (ucast (wire ! 1));
          byte2 = push_bit 40 (ucast (wire ! 2)); byte3 = push_bit 32 (ucast (wire ! 3));
          byte4 = push_bit 24 (ucast (wire ! 4)); byte5 = push_bit 16 (ucast (wire ! 5));
          byte6 = push_bit 8 (ucast (wire ! 6)); byte7 = ucast (wire ! 7)
      in byte0 OR byte1 OR byte2 OR byte3 OR byte4 OR byte5 OR byte6 OR byte7)"

subsection \<open>Validity checks\<close>

definition vireo_tlv_writer_is_valid :: "vireo_tlv_writer option \<Rightarrow> bool" where
  "vireo_tlv_writer_is_valid writer =
     (case writer of
        None \<Rightarrow> False
      | Some w \<Rightarrow>
          if tw_used w > tw_capacity w then False
          else if tw_data w = None \<and> tw_capacity w \<noteq> 0 then False
          else True)"

definition vireo_tlv_reader_is_valid :: "vireo_tlv_reader option \<Rightarrow> bool" where
  "vireo_tlv_reader_is_valid reader =
     (case reader of
        None \<Rightarrow> False
      | Some r \<Rightarrow>
          if tr_offset r > tr_size r then False
          else if tr_data r = None \<and> tr_size r \<noteq> 0 then False
          else True)"

definition vireo_tlv_utf8_is_continuation :: "u8 \<Rightarrow> bool" where
  "vireo_tlv_utf8_is_continuation b \<longleftrightarrow> b AND 0xC0 = 0x80"

text \<open>The loop, over the bytes from the current offset to the end.\<close>

function utf8_scan :: "bytes \<Rightarrow> bool" where
  "utf8_scan rest =
     (if rest = [] then True
      else
        let first = rest ! 0 in
        if first \<le> 0x7F then utf8_scan (drop 1 rest)
        else if first \<ge> 0xC2 \<and> first \<le> 0xDF then
          (if length rest < 2 then False
           else if \<not> vireo_tlv_utf8_is_continuation (rest ! 1) then False
           else utf8_scan (drop 2 rest))
        else if first \<ge> 0xE0 \<and> first \<le> 0xEF then
          (if length rest < 3 then False
           else if \<not> vireo_tlv_utf8_is_continuation (rest ! 1) \<or>
                   \<not> vireo_tlv_utf8_is_continuation (rest ! 2) then False
           else if first = 0xE0 \<and> rest ! 1 < 0xA0 then False
           else if first = 0xED \<and> rest ! 1 > 0x9F then False
           else utf8_scan (drop 3 rest))
        else if first \<ge> 0xF0 \<and> first \<le> 0xF4 then
          (if length rest < 4 then False
           else if \<not> vireo_tlv_utf8_is_continuation (rest ! 1) \<or>
                   \<not> vireo_tlv_utf8_is_continuation (rest ! 2) \<or>
                   \<not> vireo_tlv_utf8_is_continuation (rest ! 3) then False
           else if first = 0xF0 \<and> rest ! 1 < 0x90 then False
           else if first = 0xF4 \<and> rest ! 1 > 0x8F then False
           else utf8_scan (drop 4 rest))
        else False)"
  by pat_completeness auto
termination by (relation "measure length") auto

declare utf8_scan.simps [simp del]

definition vireo_tlv_utf8_is_valid :: "bytes \<Rightarrow> size_t \<Rightarrow> bool" where
  "vireo_tlv_utf8_is_valid data sz = utf8_scan (take (unat sz) data)"

fun name_scan :: "bytes \<Rightarrow> bool" where
  "name_scan [] = True"
| "name_scan (b # rest) =
     (if b \<le> 0x1F \<or> b = 0x7F \<or> b = 0x2F then False
      else if b = 0xC2 \<and> Suc (length rest) \<ge> 2 \<and> rest ! 0 \<ge> 0x80 \<and> rest ! 0 \<le> 0x9F then False
      else name_scan rest)"

definition vireo_tlv_name_is_valid :: "bytes \<Rightarrow> size_t \<Rightarrow> bool" where
  "vireo_tlv_name_is_valid data sz =
     (if sz = 0 then False
      else if sz = 1 \<and> data ! 0 = 0x2E then False
      else if sz = 2 \<and> data ! 0 = 0x2E \<and> data ! 1 = 0x2E then False
      else name_scan (take (unat sz) data))"

definition vireo_tlv_rules_are_valid :: "vireo_tlv_rule list option \<Rightarrow> size_t \<Rightarrow> bool" where
  "vireo_tlv_rules_are_valid rules rule_count =
     (if rule_count \<noteq> 0 \<and> rules = None then False
      else list_all (\<lambda>index.
             let rule = the rules ! index in
             if rule_min_length rule > rule_max_length rule then False
             else if rule_value_kind rule = VIREO_TLV_VALUE_OTHER then False
             else list_all (\<lambda>previous. rule_type (the rules ! previous) \<noteq> rule_type rule) [0 ..< index])
           [0 ..< unat rule_count])"

definition vireo_tlv_find_rule_index :: "vireo_tlv_rule list option \<Rightarrow> size_t \<Rightarrow> u16 \<Rightarrow> size_t" where
  "vireo_tlv_find_rule_index rules rule_count type =
     (case find (\<lambda>index. rule_type (the rules ! index) = type) [0 ..< unat rule_count] of
        Some index \<Rightarrow> word_of_nat index
      | None \<Rightarrow> rule_count)"

definition vireo_tlv_value_validate :: "vireo_tlv_rule \<Rightarrow> vireo_tlv_view \<Rightarrow> vireo_tlv_issue" where
  "vireo_tlv_value_validate rule view =
     (if tv_length view < ucast (rule_min_length rule) \<or> tv_length view > ucast (rule_max_length rule)
      then VIREO_TLV_ISSUE_INVALID_LENGTH
      else
        case rule_value_kind rule of
          VIREO_TLV_VALUE_BYTES \<Rightarrow> VIREO_TLV_ISSUE_NONE
        | VIREO_TLV_VALUE_U16 \<Rightarrow>
            if tv_length view \<noteq> 2 then VIREO_TLV_ISSUE_INVALID_LENGTH else VIREO_TLV_ISSUE_NONE
        | VIREO_TLV_VALUE_U32 \<Rightarrow>
            if tv_length view \<noteq> 4 then VIREO_TLV_ISSUE_INVALID_LENGTH else VIREO_TLV_ISSUE_NONE
        | VIREO_TLV_VALUE_U64 \<Rightarrow>
            if tv_length view \<noteq> 8 then VIREO_TLV_ISSUE_INVALID_LENGTH else VIREO_TLV_ISSUE_NONE
        | VIREO_TLV_VALUE_UTF8 \<Rightarrow>
            if \<not> vireo_tlv_utf8_is_valid (the (tv_value view)) (tv_length view)
            then VIREO_TLV_ISSUE_INVALID_UTF8 else VIREO_TLV_ISSUE_NONE
        | VIREO_TLV_VALUE_NAME \<Rightarrow>
            if \<not> vireo_tlv_utf8_is_valid (the (tv_value view)) (tv_length view)
            then VIREO_TLV_ISSUE_INVALID_UTF8
            else if \<not> vireo_tlv_name_is_valid (the (tv_value view)) (tv_length view)
            then VIREO_TLV_ISSUE_INVALID_NAME
            else VIREO_TLV_ISSUE_NONE
        | VIREO_TLV_VALUE_OTHER \<Rightarrow> VIREO_TLV_ISSUE_INVALID_LENGTH)"

subsection \<open>Writer\<close>

definition vireo_tlv_writer_init ::
  "vireo_tlv_writer option \<Rightarrow> bytes option \<Rightarrow> size_t \<Rightarrow> vireo_result \<times> vireo_tlv_writer option" where
  "vireo_tlv_writer_init out_writer data capacity =
     (if out_writer = None then (VIREO_RESULT_INVALID_ARGUMENT, out_writer)
      else if data = None \<and> capacity \<noteq> 0 then (VIREO_RESULT_INVALID_ARGUMENT, out_writer)
      else (VIREO_OK, Some \<lparr>tw_data = data, tw_capacity = capacity, tw_used = 0\<rparr>))"

definition vireo_tlv_writer_put ::
  "vireo_tlv_writer option \<Rightarrow> u16 \<Rightarrow> bytes option \<Rightarrow> size_t \<Rightarrow> vireo_result \<times> vireo_tlv_writer option" where
  "vireo_tlv_writer_put writer type value value_size =
     (if \<not> vireo_tlv_writer_is_valid writer then (VIREO_RESULT_INVALID_ARGUMENT, writer)
      else if value = None \<and> value_size \<noteq> 0 then (VIREO_RESULT_INVALID_ARGUMENT, writer)
      else if value_size > VIREO_TLV_MAX_VALUE_SIZE then (VIREO_RESULT_RANGE, writer)
      else
        let (result, tlv_size) = vireo_checked_size_add VIREO_TLV_HEADER_SIZE value_size (Some 0) in
        if result \<noteq> VIREO_OK then (result, writer)
        else
          let w = the writer;
              (result, new_used) = vireo_checked_size_add (tw_used w) (the tlv_size) (Some 0) in
          if result \<noteq> VIREO_OK then (result, writer)
          else if the new_used > tw_capacity w then (VIREO_RESULT_RANGE, writer)
          else
            let wire = unat (tw_used w);
                data = the (tw_data w);
                data = vireo_tlv_write_u16_be (wire + VIREO_TLV_TYPE_OFFSET) type data;
                data = vireo_tlv_write_u16_be (wire + VIREO_TLV_LENGTH_OFFSET) (ucast value_size) data;
                data = (if value_size \<noteq> 0
                        then mem_write (wire + 4) (take (unat value_size) (the value)) data else data)
            in (VIREO_OK, Some (w\<lparr>tw_data := Some data, tw_used := the new_used\<rparr>)))"

definition vireo_tlv_writer_put_u16 ::
  "vireo_tlv_writer option \<Rightarrow> u16 \<Rightarrow> u16 \<Rightarrow> vireo_result \<times> vireo_tlv_writer option" where
  "vireo_tlv_writer_put_u16 writer type v =
     (let encoded = vireo_tlv_write_u16_be 0 v (replicate 2 0)
      in vireo_tlv_writer_put writer type (Some encoded) 2)"

definition vireo_tlv_writer_put_u32 ::
  "vireo_tlv_writer option \<Rightarrow> u16 \<Rightarrow> u32 \<Rightarrow> vireo_result \<times> vireo_tlv_writer option" where
  "vireo_tlv_writer_put_u32 writer type v =
     (let encoded = vireo_tlv_write_u32_be 0 v (replicate 4 0)
      in vireo_tlv_writer_put writer type (Some encoded) 4)"

definition vireo_tlv_writer_put_u64 ::
  "vireo_tlv_writer option \<Rightarrow> u16 \<Rightarrow> u64 \<Rightarrow> vireo_result \<times> vireo_tlv_writer option" where
  "vireo_tlv_writer_put_u64 writer type v =
     (let encoded = vireo_tlv_write_u64_be 0 v (replicate 8 0)
      in vireo_tlv_writer_put writer type (Some encoded) 8)"

subsection \<open>Reader\<close>

definition vireo_tlv_reader_init ::
  "vireo_tlv_reader option \<Rightarrow> bytes option \<Rightarrow> size_t \<Rightarrow> vireo_result \<times> vireo_tlv_reader option" where
  "vireo_tlv_reader_init out_reader data sz =
     (if out_reader = None then (VIREO_RESULT_INVALID_ARGUMENT, out_reader)
      else if data = None \<and> sz \<noteq> 0 then (VIREO_RESULT_INVALID_ARGUMENT, out_reader)
      else (VIREO_OK, Some \<lparr>tr_data = data, tr_size = sz, tr_offset = 0\<rparr>))"

definition vireo_tlv_reader_next ::
  "vireo_tlv_reader option \<Rightarrow> vireo_tlv_view option \<Rightarrow> vireo_tlv_issue option \<Rightarrow>
   vireo_result \<times> vireo_tlv_reader option \<times> vireo_tlv_view option \<times> vireo_tlv_issue option" where
  "vireo_tlv_reader_next reader out_view out_issue =
     (let out_issue = map_option (\<lambda>_. VIREO_TLV_ISSUE_NONE) out_issue in
      if out_view = None \<or> out_issue = None then (VIREO_RESULT_INVALID_ARGUMENT, reader, out_view, out_issue)
      else if \<not> vireo_tlv_reader_is_valid reader
      then (VIREO_RESULT_INVALID_ARGUMENT, reader, out_view, out_issue)
      else
        let r = the reader in
        if tr_offset r = tr_size r then (VIREO_RESULT_NOT_FOUND, reader, out_view, out_issue)
        else
          let remaining = tr_size r - tr_offset r in
          if remaining < VIREO_TLV_HEADER_SIZE
          then (VIREO_RESULT_PROTOCOL, reader, out_view, Some VIREO_TLV_ISSUE_TRUNCATED_HEADER)
          else
            let wire = drop (unat (tr_offset r)) (the (tr_data r));
                value_size = ucast (vireo_tlv_read_u16_be (drop VIREO_TLV_LENGTH_OFFSET wire)) in
            if value_size > remaining - VIREO_TLV_HEADER_SIZE
            then (VIREO_RESULT_PROTOCOL, reader, out_view, Some VIREO_TLV_ISSUE_TRUNCATED_VALUE)
            else
              let view = \<lparr>tv_type = vireo_tlv_read_u16_be (drop VIREO_TLV_TYPE_OFFSET wire),
                          tv_value = Some (drop 4 wire), tv_length = value_size\<rparr>;
                  next_offset = tr_offset r + VIREO_TLV_HEADER_SIZE + value_size
              in (VIREO_OK, Some (r\<lparr>tr_offset := next_offset\<rparr>), Some view, out_issue))"

definition vireo_tlv_view_read_u16 ::
  "vireo_tlv_view option \<Rightarrow> u16 option \<Rightarrow> vireo_result \<times> u16 option" where
  "vireo_tlv_view_read_u16 view out_value =
     (if view = None \<or> out_value = None then (VIREO_RESULT_INVALID_ARGUMENT, out_value)
      else if tv_value (the view) = None \<and> tv_length (the view) \<noteq> 0
      then (VIREO_RESULT_INVALID_ARGUMENT, out_value)
      else if tv_length (the view) \<noteq> 2 then (VIREO_RESULT_PROTOCOL, out_value)
      else (VIREO_OK, Some (vireo_tlv_read_u16_be (the (tv_value (the view))))))"

definition vireo_tlv_view_read_u32 ::
  "vireo_tlv_view option \<Rightarrow> u32 option \<Rightarrow> vireo_result \<times> u32 option" where
  "vireo_tlv_view_read_u32 view out_value =
     (if view = None \<or> out_value = None then (VIREO_RESULT_INVALID_ARGUMENT, out_value)
      else if tv_value (the view) = None \<and> tv_length (the view) \<noteq> 0
      then (VIREO_RESULT_INVALID_ARGUMENT, out_value)
      else if tv_length (the view) \<noteq> 4 then (VIREO_RESULT_PROTOCOL, out_value)
      else (VIREO_OK, Some (vireo_tlv_read_u32_be (the (tv_value (the view))))))"

definition vireo_tlv_view_read_u64 ::
  "vireo_tlv_view option \<Rightarrow> u64 option \<Rightarrow> vireo_result \<times> u64 option" where
  "vireo_tlv_view_read_u64 view out_value =
     (if view = None \<or> out_value = None then (VIREO_RESULT_INVALID_ARGUMENT, out_value)
      else if tv_value (the view) = None \<and> tv_length (the view) \<noteq> 0
      then (VIREO_RESULT_INVALID_ARGUMENT, out_value)
      else if tv_length (the view) \<noteq> 8 then (VIREO_RESULT_PROTOCOL, out_value)
      else (VIREO_OK, Some (vireo_tlv_read_u64_be (the (tv_value (the view))))))"

lemma reader_next_OK:
  assumes "vireo_tlv_reader_next (Some r) out_view out_issue = (VIREO_OK, r', view, issue)"
  shows "\<exists>n. r' = Some (r\<lparr>tr_offset := tr_offset r + 4 + n\<rparr>) \<and>
    unat (tr_offset r + 4 + n) = unat (tr_offset r) + 4 + unat n \<and>
    unat (tr_offset r) + 4 + unat n \<le> unat (tr_size r)"
proof -
  let ?rem = "tr_size r - tr_offset r"
  let ?n = "ucast (vireo_tlv_read_u16_be (drop 2 (drop (unat (tr_offset r)) (the (tr_data r))))) :: size_t"
  have le: "tr_offset r \<le> tr_size r" "\<not> ?rem < 4" "\<not> ?n > ?rem - 4"
    and r': "r' = Some (r\<lparr>tr_offset := tr_offset r + 4 + ?n\<rparr>)"
    using assms by (auto simp: vireo_tlv_reader_next_def vireo_tlv_reader_is_valid_def Let_def not_less
        split: if_splits)
  have rem: "unat ?rem = unat (tr_size r) - unat (tr_offset r)" using le(1) by (simp add: unat_sub_le)
  have four: "4 \<le> unat ?rem" using le(2) by (simp add: word_less_nat_alt)
  then have "unat (?rem - 4) = unat ?rem - 4" by (subst unat_sub_le) (simp_all add: word_le_nat_alt)
  then have sum: "unat (tr_offset r) + 4 + unat ?n \<le> unat (tr_size r)"
    using le(3) rem four by (simp add: word_less_nat_alt)
  have "unat (tr_offset r + 4) = unat (tr_offset r) + 4"
    using sum unat_lt_64 [of "tr_size r"] unat_add_less [of "tr_offset r" 4] by simp
  then have "unat (tr_offset r + 4 + ?n) = unat (tr_offset r) + 4 + unat ?n"
    using sum unat_lt_64 [of "tr_size r"] unat_add_less [of "tr_offset r + 4" ?n] by simp
  with r' sum show ?thesis by blast
qed

lemma reader_next_measure:
  assumes "vireo_tlv_reader_next (Some r) out_view out_issue = (VIREO_OK, r', view, issue)"
  shows "unat (tr_size (the r')) - unat (tr_offset (the r')) < unat (tr_size r) - unat (tr_offset r)"
  using reader_next_OK [OF assms] by auto

lemmas reader_next_measures = reader_next_measure reader_next_measure [OF sym]

subsection \<open>Whole bodies\<close>

text \<open>
  \<open>schema_loop\<close> is the \<^verbatim>\<open>for (;;)\<close> of \<open>vireo_tlv_schema_validate\<close>; \<open>tlv_read_loop\<close> is the shape of the
  field loops of the message codecs, which differ only in what they do with a field.
\<close>

definition zero_view :: vireo_tlv_view where
  "zero_view = \<lparr>tv_type = 0, tv_value = None, tv_length = 0\<rparr>"

function schema_loop ::
  "vireo_tlv_rule list option \<Rightarrow> size_t \<Rightarrow> vireo_tlv_unknown_policy \<Rightarrow> vireo_tlv_reader \<Rightarrow> bytes \<Rightarrow>
   vireo_tlv_issue \<Rightarrow> vireo_result \<times> bytes \<times> vireo_tlv_issue" where
  "schema_loop rules rule_count unknown_policy reader seen issue =
     (case vireo_tlv_reader_next (Some reader) (Some zero_view) (Some issue) of
        (result, reader', view, out_issue) \<Rightarrow>
          if result = VIREO_RESULT_NOT_FOUND then (VIREO_OK, seen, the out_issue)
          else if result \<noteq> VIREO_OK then (result, seen, the out_issue)
          else
            let rule_index = vireo_tlv_find_rule_index rules rule_count (tv_type (the view)) in
            if rule_index = rule_count then
              (if unknown_policy = VIREO_TLV_UNKNOWN_REJECT
               then (VIREO_RESULT_PROTOCOL, seen, VIREO_TLV_ISSUE_UNKNOWN_TYPE)
               else schema_loop rules rule_count unknown_policy (the reader') seen (the out_issue))
            else
              let rule = the rules ! unat rule_index in
              if seen ! unat rule_index \<noteq> 0 \<and> \<not> rule_repeatable rule
              then (VIREO_RESULT_PROTOCOL, seen, VIREO_TLV_ISSUE_DUPLICATE_FIELD)
              else
                let issue = vireo_tlv_value_validate rule (the view) in
                if issue \<noteq> VIREO_TLV_ISSUE_NONE then (VIREO_RESULT_PROTOCOL, seen, issue)
                else schema_loop rules rule_count unknown_policy (the reader') (seen[unat rule_index := 1])
                       (the out_issue))"
  by pat_completeness auto
termination
  by (relation "measure (\<lambda>(_, _, _, reader, _, _). unat (tr_size reader) - unat (tr_offset reader))")
    (auto dest: reader_next_measures)

declare schema_loop.simps [simp del]

definition vireo_tlv_schema_validate ::
  "bytes option \<Rightarrow> size_t \<Rightarrow> vireo_tlv_rule list option \<Rightarrow> size_t \<Rightarrow> vireo_tlv_unknown_policy \<Rightarrow>
   bytes option \<Rightarrow> size_t \<Rightarrow> vireo_tlv_issue option \<Rightarrow>
   vireo_result \<times> bytes option \<times> vireo_tlv_issue option" where
  "vireo_tlv_schema_validate data sz rules rule_count unknown_policy seen seen_capacity out_issue =
     (let out_issue = map_option (\<lambda>_. VIREO_TLV_ISSUE_NONE) out_issue in
      if out_issue = None then (VIREO_RESULT_INVALID_ARGUMENT, seen, out_issue)
      else if data = None \<and> sz \<noteq> 0 then (VIREO_RESULT_INVALID_ARGUMENT, seen, out_issue)
      else if rule_count \<noteq> 0 \<and> (rules = None \<or> seen = None)
      then (VIREO_RESULT_INVALID_ARGUMENT, seen, out_issue)
      else if unknown_policy \<noteq> VIREO_TLV_UNKNOWN_REJECT \<and> unknown_policy \<noteq> VIREO_TLV_UNKNOWN_SKIP
      then (VIREO_RESULT_INVALID_ARGUMENT, seen, out_issue)
      else if seen_capacity < rule_count then (VIREO_RESULT_RANGE, seen, out_issue)
      else if \<not> vireo_tlv_rules_are_valid rules rule_count
      then (VIREO_RESULT_INVALID_ARGUMENT, seen, out_issue)
      else
        let seen = (if rule_count \<noteq> 0
                    then map_option (mem_write 0 (replicate (unat rule_count) 0)) seen else seen);
            (result, reader) =
              vireo_tlv_reader_init (Some \<lparr>tr_data = None, tr_size = 0, tr_offset = 0\<rparr>) data sz in
        if result \<noteq> VIREO_OK then (result, seen, out_issue)
        else
          let (result, flags, issue) =
                schema_loop rules rule_count unknown_policy (the reader)
                  (case seen of None \<Rightarrow> [] | Some flags \<Rightarrow> flags) (the out_issue);
              seen = map_option (\<lambda>_. flags) seen in
          if result \<noteq> VIREO_OK then (result, seen, Some issue)
          else if list_ex (\<lambda>index. rule_required (the rules ! index) \<and> flags ! index = 0)
                    [0 ..< unat rule_count]
          then (VIREO_RESULT_PROTOCOL, seen, Some VIREO_TLV_ISSUE_MISSING_REQUIRED_FIELD)
          else (VIREO_OK, seen, Some issue))"

function tlv_read_loop ::
  "(vireo_tlv_view \<Rightarrow> 's \<Rightarrow> vireo_result \<times> 's) \<Rightarrow> vireo_tlv_reader \<Rightarrow> 's \<Rightarrow> vireo_result \<times> 's" where
  "tlv_read_loop on_field r s =
     (if \<not> tr_offset r < tr_size r then (VIREO_OK, s)
      else case vireo_tlv_reader_next (Some r) (Some zero_view) (Some VIREO_TLV_ISSUE_NONE) of
        (rc, r', view, issue) \<Rightarrow>
          if rc \<noteq> VIREO_OK then (rc, s)
          else case on_field (the view) s of
            (rc, s') \<Rightarrow> if rc \<noteq> VIREO_OK then (rc, s') else tlv_read_loop on_field (the r') s')"
  by pat_completeness auto
termination
  by (relation "measure (\<lambda>(_, r, _). unat (tr_size r) - unat (tr_offset r))")
    (auto dest: reader_next_measures)

declare tlv_read_loop.simps [simp del]

subsection \<open>Fields\<close>

type_synonym field = "u16 \<times> bytes"

definition field_bytes :: "field \<Rightarrow> bytes" where
  "field_bytes f = be16 (fst f) @ be16 (word_of_nat (length (snd f))) @ snd f"

definition tlv_encode :: "field list \<Rightarrow> bytes" where
  "tlv_encode fs = concat (map field_bytes fs)"

definition field_fits :: "field \<Rightarrow> bool" where
  "field_fits f \<longleftrightarrow> length (snd f) \<le> 65535"

lemma tlv_encode_simps [simp]:
  "tlv_encode [] = []" "tlv_encode (f # fs) = field_bytes f @ tlv_encode fs"
  "tlv_encode (fs @ gs) = tlv_encode fs @ tlv_encode gs"
  by (simp_all add: tlv_encode_def)

lemma length_field_bytes [simp]: "length (field_bytes f) = 4 + length (snd f)"
  by (simp add: field_bytes_def)

lemma tlv_int_helpers:
  "vireo_tlv_write_u16_be off v2 w = mem_write off (be16 v2) w"
  "vireo_tlv_write_u32_be off v4 w = mem_write off (be32 v4) w"
  "vireo_tlv_write_u64_be off v8 w = mem_write off (be64 v8) w"
  "vireo_tlv_read_u16_be = rd16" "vireo_tlv_read_u32_be = rd32" "vireo_tlv_read_u64_be = rd64"
  by (simp_all add: vireo_tlv_write_u16_be_def vireo_tlv_write_u32_be_def vireo_tlv_write_u64_be_def
      be16_def be32_def be64_def vireo_tlv_read_u16_be_def vireo_tlv_read_u32_be_def
      vireo_tlv_read_u64_be_def rd16_def rd32_def rd64_def fun_eq_iff or.assoc)

text \<open>What is left to read, and one reading step on it.\<close>

definition tlv_step :: "bytes \<Rightarrow> vireo_tlv_issue + (field \<times> bytes) option" where
  "tlv_step rest =
     (if rest = [] then Inr None
      else if length rest < 4 then Inl VIREO_TLV_ISSUE_TRUNCATED_HEADER
      else let n = unat (rd16 (drop 2 rest)) in
        if n > length rest - 4 then Inl VIREO_TLV_ISSUE_TRUNCATED_VALUE
        else Inr (Some ((rd16 rest, take n (drop 4 rest)), drop (4 + n) rest)))"

lemma tlv_step_Some:
  assumes "tlv_step rest = Inr (Some (f, rest'))"
  shows "rest = field_bytes f @ rest'" and "field_fits f"
proof -
  let ?n = "unat (rd16 (drop 2 rest))"
  have len: "4 \<le> length rest" "?n \<le> length rest - 4"
    and f: "f = (rd16 rest, take ?n (drop 4 rest))" "rest' = drop (4 + ?n) rest"
    using assms by (auto simp: tlv_step_def Let_def not_less split: if_splits)
  have small: "?n \<le> 65535"
  proof -
    have "?n < 2 ^ LENGTH(16)" by (rule unsigned_less)
    then show ?thesis by simp
  qed
  then show "field_fits f" by (simp add: field_fits_def f)
  have "be16 (rd16 rest) = take 2 rest" "be16 (rd16 (drop 2 rest)) = take 2 (drop 2 rest)"
    using len(1) by (simp_all add: w16.dec_take)
  moreover have "word_of_nat (length (snd f)) = rd16 (drop 2 rest)" using len by (simp add: f min_absorb2)
  ultimately have "field_bytes f = take 2 rest @ take 2 (drop 2 rest) @ take ?n (drop 4 rest)"
    by (simp add: field_bytes_def f)
  also have "\<dots> @ rest' = rest"
    using append_take_drop_id [of 2 rest] append_take_drop_id [of 2 "drop 2 rest"]
      append_take_drop_id [of ?n "drop 4 rest"] by (simp add: f add.commute)
  finally show "rest = field_bytes f @ rest'" by simp
qed

lemma tlv_step_field: "field_fits f \<Longrightarrow> tlv_step (field_bytes f @ rest) = Inr (Some (f, rest))"
proof -
  assume "field_fits f"
  then have "unat (word_of_nat (length (snd f)) :: u16) = length (snd f)"
    by (simp add: field_fits_def unat_of_nat)
  moreover have "rd16 (field_bytes f @ rest) = fst f" by (simp add: field_bytes_def w16.dec_enc)
  moreover have "drop 2 (field_bytes f @ rest) = be16 (word_of_nat (length (snd f))) @ snd f @ rest"
    "drop 4 (field_bytes f @ rest) = snd f @ rest"
    by (simp_all add: field_bytes_def)
  moreover have "field_bytes f \<noteq> []" using length_field_bytes [of f] by (metis add_is_0 list.size(3) zero_neq_numeral)
  ultimately show ?thesis by (simp add: tlv_step_def w16.dec_enc)
qed

lemma tlv_step_end [simp]: "tlv_step [] = Inr None"
  by (simp add: tlv_step_def)

lemma tlv_step_None: "tlv_step rest = Inr None \<longleftrightarrow> rest = []"
  by (simp add: tlv_step_def Let_def)

lemma tlv_encode_inject:
  "list_all field_fits fs \<Longrightarrow> list_all field_fits gs \<Longrightarrow> tlv_encode fs = tlv_encode gs \<longleftrightarrow> fs = gs"
proof (induction fs arbitrary: gs)
  case Nil
  then show ?case by (cases gs) (auto simp: field_bytes_def be16_def)
next
  case (Cons f fs)
  show ?case
  proof (cases gs)
    case Nil
    then show ?thesis by (auto simp: field_bytes_def be16_def)
  next
    case (Cons g hs)
    have "f = g \<and> tlv_encode fs = tlv_encode hs"
      if "field_bytes f @ tlv_encode fs = field_bytes g @ tlv_encode hs"
      using arg_cong [OF that, of tlv_step] Cons.prems Cons by (simp add: tlv_step_field)
    then show ?thesis using Cons.prems Cons.IH Cons by auto
  qed
qed

definition reader_ok :: "vireo_tlv_reader \<Rightarrow> bool" where
  "reader_ok r \<longleftrightarrow> tr_data r \<noteq> None \<and> tr_offset r \<le> tr_size r \<and> unat (tr_size r) \<le> length (the (tr_data r))"

definition reader_rest :: "vireo_tlv_reader \<Rightarrow> bytes" where
  "reader_rest r = drop (unat (tr_offset r)) (take (unat (tr_size r)) (the (tr_data r)))"

definition view_bytes :: "vireo_tlv_view \<Rightarrow> bytes" where
  "view_bytes v = take (unat (tv_length v)) (the (tv_value v))"

definition view_of :: "vireo_tlv_view \<Rightarrow> field \<Rightarrow> bool" where
  "view_of v f \<longleftrightarrow> tv_type v = fst f \<and> tv_value v \<noteq> None \<and> unat (tv_length v) = length (snd f) \<and>
     length (snd f) \<le> length (the (tv_value v)) \<and> view_bytes v = snd f"

lemma reader_rest_facts:
  assumes "reader_ok r"
  shows "length (reader_rest r) = unat (tr_size r - tr_offset r)"
    and "reader_rest r = [] \<longleftrightarrow> tr_offset r = tr_size r"
    and "reader_rest r = [] \<longleftrightarrow> \<not> tr_offset r < tr_size r"
    and "k + m \<le> length (reader_rest r) \<Longrightarrow>
      take m (drop k (reader_rest r)) = take m (drop k (drop (unat (tr_offset r)) (the (tr_data r))))"
proof -
  have le: "tr_offset r \<le> tr_size r" using assms by (simp add: reader_ok_def)
  show len: "length (reader_rest r) = unat (tr_size r - tr_offset r)"
    using assms by (simp add: reader_ok_def reader_rest_def unat_sub_le min_absorb2)
  have "reader_rest r = [] \<longleftrightarrow> unat (tr_size r - tr_offset r) = 0" using len by (metis length_0_conv)
  then show e: "reader_rest r = [] \<longleftrightarrow> tr_offset r = tr_size r" by (auto simp: unat_eq_zero)
  show "reader_rest r = [] \<longleftrightarrow> \<not> tr_offset r < tr_size r" using e le by auto
  assume "k + m \<le> length (reader_rest r)"
  then have "k + m \<le> unat (tr_size r) - unat (tr_offset r)" using len le by (simp add: unat_sub_le)
  then show "take m (drop k (reader_rest r)) = take m (drop k (drop (unat (tr_offset r)) (the (tr_data r))))"
    by (simp add: reader_rest_def drop_take min_absorb1)
qed

lemma rd16_prefix: "2 \<le> length a \<Longrightarrow> 2 \<le> length b \<Longrightarrow> take 2 a = take 2 b \<Longrightarrow> rd16 a = rd16 b"
  by (simp add: w16.dec_inject)

lemma reader_next_cases:
  assumes ok: "reader_ok r"
  obtains (finish) "reader_rest r = []" and "\<not> tr_offset r < tr_size r"
      and "vireo_tlv_reader_next (Some r) (Some oldv) (Some oldi) =
        (VIREO_RESULT_NOT_FOUND, Some r, Some oldv, Some VIREO_TLV_ISSUE_NONE)"
  | (bad) i where "tlv_step (reader_rest r) = Inl i" and "i \<noteq> VIREO_TLV_ISSUE_NONE"
      and "tr_offset r < tr_size r"
      and "vireo_tlv_reader_next (Some r) (Some oldv) (Some oldi) =
        (VIREO_RESULT_PROTOCOL, Some r, Some oldv, Some i)"
  | (field) f r' v where "tlv_step (reader_rest r) = Inr (Some (f, reader_rest r'))" and "reader_ok r'"
      and "view_of v f" and "tr_offset r < tr_size r"
      and "vireo_tlv_reader_next (Some r) (Some oldv) (Some oldi) =
        (VIREO_OK, Some r', Some v, Some VIREO_TLV_ISSUE_NONE)"
proof -
  let ?rest = "reader_rest r" and ?wire = "drop (unat (tr_offset r)) (the (tr_data r))"
  let ?rem = "tr_size r - tr_offset r"
  note rest = reader_rest_facts [OF ok]
  have valid: "vireo_tlv_reader_is_valid (Some r)"
    using ok by (auto simp: reader_ok_def vireo_tlv_reader_is_valid_def not_less)
  consider "?rest = []" | "?rest \<noteq> []" "length ?rest < 4" | "4 \<le> length ?rest" by fastforce
  then show thesis
  proof cases
    case 1
    then show thesis using finish valid rest by (simp add: vireo_tlv_reader_next_def)
  next
    case 2
    then have "tr_offset r \<noteq> tr_size r" "?rem < 4" using rest by (simp_all add: word_less_nat_alt)
    with 2 show thesis
      using bad [of VIREO_TLV_ISSUE_TRUNCATED_HEADER] valid rest
      by (auto simp: vireo_tlv_reader_next_def tlv_step_def)
  next
    case 3
    then have off: "tr_offset r \<noteq> tr_size r" and rem: "\<not> ?rem < 4"
      using rest by (auto simp: word_less_nat_alt)
    have lt: "tr_offset r < tr_size r" using ok off by (auto simp: reader_ok_def order_le_less)
    have wlen: "length ?rest \<le> length ?wire" using ok by (auto simp: reader_rest_def reader_ok_def intro: diff_le_mono)
    have hd: "rd16 ?rest = rd16 ?wire" "rd16 (drop 2 ?rest) = rd16 (drop 2 ?wire)"
      using 3 wlen rest(4) [of 0 2] rest(4) [of 2 2] by (auto intro!: rd16_prefix)
    let ?n = "ucast (rd16 (drop 2 ?wire)) :: size_t"
    have n: "unat ?n = unat (rd16 (drop 2 ?rest))" by (simp add: hd unat_ucast_le)
    have rem4: "unat (?rem - 4) = length ?rest - 4"
      using 3 rest(1) by (subst unat_sub_le) (simp_all add: word_le_nat_alt)
    show thesis
    proof (cases "length ?rest - 4 < unat ?n")
      case True
      then show thesis
      proof (intro bad [of VIREO_TLV_ISSUE_TRUNCATED_VALUE])
        show "tlv_step ?rest = Inl VIREO_TLV_ISSUE_TRUNCATED_VALUE"
          using True 3 n by (auto simp: tlv_step_def Let_def)
        show "vireo_tlv_reader_next (Some r) (Some oldv) (Some oldi) =
            (VIREO_RESULT_PROTOCOL, Some r, Some oldv, Some VIREO_TLV_ISSUE_TRUNCATED_VALUE)"
          using True valid off rem rem4
          by (simp add: vireo_tlv_reader_next_def tlv_int_helpers Let_def word_less_nat_alt)
      qed (simp_all add: lt)
    next
      case False
      let ?v = "\<lparr>tv_type = rd16 ?wire, tv_value = Some (drop 4 ?wire), tv_length = ?n\<rparr>"
      let ?r = "r\<lparr>tr_offset := tr_offset r + 4 + ?n\<rparr>"
      let ?f = "(rd16 ?rest, take (unat ?n) (drop 4 ?rest))"
      have nxt: "vireo_tlv_reader_next (Some r) (Some oldv) (Some oldi) =
          (VIREO_OK, Some ?r, Some ?v, Some VIREO_TLV_ISSUE_NONE)"
        using False valid off rem rem4
        by (simp add: vireo_tlv_reader_next_def tlv_int_helpers Let_def word_less_nat_alt)
      obtain m where m: "Some ?r = Some (r\<lparr>tr_offset := tr_offset r + 4 + m\<rparr>)"
        "unat (tr_offset r + 4 + m) = unat (tr_offset r) + 4 + unat m"
        "unat (tr_offset r) + 4 + unat m \<le> unat (tr_size r)"
        using reader_next_OK [OF nxt] by blast
      have "tr_offset ?r = tr_offset (r\<lparr>tr_offset := tr_offset r + 4 + m\<rparr>)" using m(1) by (metis option.inject)
      then have "?n = m" by simp
      then have o: "unat (tr_offset r + 4 + ?n) = unat (tr_offset r) + 4 + unat ?n"
        "unat (tr_offset r) + 4 + unat ?n \<le> unat (tr_size r)"
        using m(2,3) by blast+
      then have ok': "reader_ok ?r" using ok by (simp add: reader_ok_def word_le_nat_alt)
      have "reader_rest ?r = drop (4 + unat ?n) ?rest"
        using o(1) by (simp add: reader_rest_def ac_simps)
      then have step: "tlv_step ?rest = Inr (Some (?f, reader_rest ?r))"
        using 3 False n by (auto simp: tlv_step_def Let_def)
      have "take (unat ?n) (drop 4 ?rest) = take (unat ?n) (drop 4 ?wire)"
        using rest(4) [of 4 "unat ?n"] False 3 by simp
      then have "view_of ?v ?f"
        using False 3 wlen hd by (auto simp: view_of_def view_bytes_def)
      from field [OF step ok' this lt nxt] show thesis .
    qed
  qed
qed

subsection \<open>The field loop of the codecs\<close>

fun fields_run :: "(field \<Rightarrow> 's \<Rightarrow> vireo_result \<times> 's) \<Rightarrow> field list \<Rightarrow> 's \<Rightarrow> vireo_result \<times> 's" where
  "fields_run g [] s = (VIREO_OK, s)"
| "fields_run g (f # fs) s = (case g f s of (rc, s') \<Rightarrow> if rc \<noteq> VIREO_OK then (rc, s') else fields_run g fs s')"

lemma tlv_read_loop_fields:
  assumes "reader_ok r" and "reader_rest r = tlv_encode fs" and "list_all field_fits fs"
    and "\<And>v f s. f \<in> set fs \<Longrightarrow> view_of v f \<Longrightarrow> on_field v s = g f s"
  shows "tlv_read_loop on_field r s = fields_run g fs s"
  using assms
proof (induction fs arbitrary: r s)
  case Nil
  then show ?case using reader_rest_facts(3) [of r] by (simp add: tlv_read_loop.simps [of on_field r])
next
  case (Cons f fs)
  have step: "tlv_step (reader_rest r) = Inr (Some (f, tlv_encode fs))"
    using Cons.prems by (simp add: tlv_step_field)
  from Cons.prems(1) show ?case
  proof (cases rule: reader_next_cases [where oldv = zero_view and oldi = VIREO_TLV_ISSUE_NONE])
    case (field h r' v)
    then have h: "h = f" and rest: "reader_rest r' = tlv_encode fs" using step by auto
    have "on_field v s = g f s" using Cons.prems(4) [of f v s] field h by simp
    moreover have "tlv_read_loop on_field r' s' = fields_run g fs s'" for s'
      using Cons.IH [OF field(2) rest] Cons.prems(3,4) by simp
    ultimately show ?thesis
      using field by (auto simp: tlv_read_loop.simps [of on_field r] split: prod.split)
  qed (use step in auto)
qed

lemma tlv_read_loop_OK:
  assumes "reader_ok r" and "tlv_read_loop on_field r s = (VIREO_OK, s')"
  obtains fs where "reader_rest r = tlv_encode fs" and "list_all field_fits fs"
proof -
  have "\<exists>fs. reader_rest r = tlv_encode fs \<and> list_all field_fits fs"
    using assms
  proof (induction on_field r s rule: tlv_read_loop.induct)
    case (1 on_field r s)
    from "1.prems"(1) show ?case
    proof (cases rule: reader_next_cases [where oldv = zero_view and oldi = VIREO_TLV_ISSUE_NONE])
      case finish
      then show ?thesis by (intro exI [of _ "[]"]) simp
    next
      case (bad i)
      then show ?thesis using "1.prems"(2) by (simp add: tlv_read_loop.simps [of on_field r])
    next
      case (field f r' v)
      obtain rc s1 where o: "on_field v s = (rc, s1)" by (metis surj_pair)
      have "rc = VIREO_OK" "tlv_read_loop on_field r' s1 = (VIREO_OK, s')"
        using "1.prems"(2) field o by (auto simp: tlv_read_loop.simps [of on_field r] split: if_splits)
      then obtain fs where "reader_rest r' = tlv_encode fs" "list_all field_fits fs"
        using "1.IH" field o by force
      then show ?thesis using tlv_step_Some [OF field(1)] by (intro exI [of _ "f # fs"]) simp
    qed
  qed
  then show thesis using that by blast
qed

lemma reader_init_OK:
  assumes "unat sz \<le> length d"
  shows "\<exists>r. vireo_tlv_reader_init (Some r0) (Some d) sz = (VIREO_OK, Some r) \<and> reader_ok r \<and>
    reader_rest r = take (unat sz) d"
  using assms by (simp add: vireo_tlv_reader_init_def reader_ok_def reader_rest_def)

lemma view_reads:
  assumes "view_of v f"
  shows "vireo_tlv_view_read_u16 (Some v) (Some old2) =
     (if length (snd f) = 2 then (VIREO_OK, Some (rd16 (snd f))) else (VIREO_RESULT_PROTOCOL, Some old2))"
    and "vireo_tlv_view_read_u32 (Some v) (Some old4) =
     (if length (snd f) = 4 then (VIREO_OK, Some (rd32 (snd f))) else (VIREO_RESULT_PROTOCOL, Some old4))"
    and "vireo_tlv_view_read_u64 (Some v) (Some old8) =
     (if length (snd f) = 8 then (VIREO_OK, Some (rd64 (snd f))) else (VIREO_RESULT_PROTOCOL, Some old8))"
proof -
  note v = assms
  from v have n: "tv_length v = k \<longleftrightarrow> length (snd f) = unat k" for k
    by (auto simp: view_of_def word_unat_eq_iff)
  have val: "tv_value v \<noteq> None" and b: "take (length (snd f)) (the (tv_value v)) = snd f"
    and len: "length (snd f) \<le> length (the (tv_value v))"
    using v by (auto simp: view_of_def view_bytes_def)
  have "rd16 (the (tv_value v)) = rd16 (snd f)" if "length (snd f) = 2"
    using that b len by (subst w16.dec_inject) auto
  moreover have "rd32 (the (tv_value v)) = rd32 (snd f)" if "length (snd f) = 4"
    using that b len by (subst w32.dec_inject) auto
  moreover have "rd64 (the (tv_value v)) = rd64 (snd f)" if "length (snd f) = 8"
    using that b len by (subst w64.dec_inject) auto
  ultimately show "vireo_tlv_view_read_u16 (Some v) (Some old2) =
      (if length (snd f) = 2 then (VIREO_OK, Some (rd16 (snd f))) else (VIREO_RESULT_PROTOCOL, Some old2))"
    and "vireo_tlv_view_read_u32 (Some v) (Some old4) =
      (if length (snd f) = 4 then (VIREO_OK, Some (rd32 (snd f))) else (VIREO_RESULT_PROTOCOL, Some old4))"
    and "vireo_tlv_view_read_u64 (Some v) (Some old8) =
      (if length (snd f) = 8 then (VIREO_OK, Some (rd64 (snd f))) else (VIREO_RESULT_PROTOCOL, Some old8))"
    using val n [of 2] n [of 4] n [of 8]
    by (auto simp: vireo_tlv_view_read_u16_def vireo_tlv_view_read_u32_def vireo_tlv_view_read_u64_def
        tlv_int_helpers)
qed

subsection \<open>The writer as a sink of fields\<close>

fun put_all :: "(field \<Rightarrow> 'w \<Rightarrow> vireo_result \<times> 'w) \<Rightarrow> field list \<Rightarrow> 'w \<Rightarrow> vireo_result \<times> 'w" where
  "put_all put [] w = (VIREO_OK, w)"
| "put_all put (f # fs) w = (case put f w of (rc, w') \<Rightarrow> if rc \<noteq> VIREO_OK then (rc, w') else put_all put fs w')"

locale field_sink =
  fixes ok :: "'w \<Rightarrow> bool"
    and written :: "'w \<Rightarrow> bytes"
    and room :: "'w \<Rightarrow> nat"
    and put :: "field \<Rightarrow> 'w \<Rightarrow> vireo_result \<times> 'w"
  assumes put_fits: "ok w \<Longrightarrow> field_fits f \<Longrightarrow> length (field_bytes f) \<le> room w \<Longrightarrow>
      \<exists>w'. put f w = (VIREO_OK, w') \<and> ok w' \<and> written w' = written w @ field_bytes f \<and>
           room w' = room w - length (field_bytes f)"
    and put_full: "ok w \<Longrightarrow> field_fits f \<Longrightarrow> room w < length (field_bytes f) \<Longrightarrow>
      fst (put f w) \<noteq> VIREO_OK \<and> snd (put f w) = w"
begin

lemma put_all_fits:
  assumes "ok w" and "list_all field_fits fs" and "length (tlv_encode fs) \<le> room w"
  shows "\<exists>w'. put_all put fs w = (VIREO_OK, w') \<and> ok w' \<and> written w' = written w @ tlv_encode fs \<and>
    room w' = room w - length (tlv_encode fs)"
  using assms
proof (induction fs arbitrary: w)
  case (Cons f fs)
  then obtain w1 where w1: "put f w = (VIREO_OK, w1)" "ok w1" "written w1 = written w @ field_bytes f"
    "room w1 = room w - length (field_bytes f)"
    using put_fits [of w f] by auto
  with Cons.IH [of w1] Cons.prems show ?case by auto
qed simp

lemma put_all_full:
  assumes "ok w" and "list_all field_fits fs" and "room w < length (tlv_encode fs)"
  shows "\<exists>rc w'. put_all put fs w = (rc, w') \<and> rc \<noteq> VIREO_OK \<and> ok w'"
  using assms
proof (induction fs arbitrary: w)
  case (Cons f fs)
  show ?case
  proof (cases "length (field_bytes f) \<le> room w")
    case True
    then obtain w1 where "put f w = (VIREO_OK, w1)" "ok w1" "room w1 = room w - length (field_bytes f)"
      using put_fits [of w f] Cons.prems by auto
    with Cons.IH [of w1] Cons.prems True show ?thesis by auto
  next
    case False
    then show ?thesis using put_full [of w f] Cons.prems by (cases "put f w") auto
  qed
qed simp

end

definition writer_ok :: "vireo_tlv_writer \<Rightarrow> bool" where
  "writer_ok w \<longleftrightarrow> tw_data w \<noteq> None \<and> tw_used w \<le> tw_capacity w \<and>
     unat (tw_capacity w) \<le> length (the (tw_data w))"

definition writer_written :: "vireo_tlv_writer \<Rightarrow> bytes" where
  "writer_written w = take (unat (tw_used w)) (the (tw_data w))"

definition writer_room :: "vireo_tlv_writer \<Rightarrow> nat" where
  "writer_room w = unat (tw_capacity w) - unat (tw_used w)"

definition writer_put :: "field \<Rightarrow> vireo_tlv_writer \<Rightarrow> vireo_result \<times> vireo_tlv_writer" where
  "writer_put f w =
     map_prod id the (vireo_tlv_writer_put (Some w) (fst f) (Some (snd f)) (word_of_nat (length (snd f))))"

lemma mem_write_append: "mem_write (off + length a) b (mem_write off a d) = mem_write off (a @ b) d"
  if "off \<le> length d"
  using that by (simp add: mem_write_def ac_simps)

lemma writer_put_eq:
  assumes ok: "writer_ok w" and fits: "field_fits f"
  shows "vireo_tlv_writer_put (Some w) (fst f) (Some (snd f)) (word_of_nat (length (snd f))) =
    (if length (field_bytes f) \<le> writer_room w
     then (VIREO_OK, Some (w\<lparr>tw_data := Some (mem_write (unat (tw_used w)) (field_bytes f) (the (tw_data w))),
             tw_used := tw_used w + word_of_nat (length (field_bytes f))\<rparr>))
     else (if unat (tw_used w) + length (field_bytes f) < 2 ^ 64 then VIREO_RESULT_RANGE
           else VIREO_RESULT_OVERFLOW, Some w))"
proof -
  let ?n = "word_of_nat (length (snd f)) :: size_t" and ?u = "unat (tw_used w)"
  have small: "length (snd f) \<le> 65535" using fits by (simp add: field_fits_def)
  then have n: "unat ?n = length (snd f)" by (simp add: unat_of_nat)
  have le: "\<not> ?n > 65535" using n small by (simp add: word_less_nat_alt)
  have valid: "vireo_tlv_writer_is_valid (Some w)"
    using ok by (auto simp: writer_ok_def vireo_tlv_writer_is_valid_def not_less)
  have uc: "?u \<le> unat (tw_capacity w)" using ok by (simp add: writer_ok_def word_le_nat_alt)
  have tot: "unat (4 + ?n) = 4 + length (snd f)" using n small by (subst unat_add_less) simp_all
  have uc16: "ucast ?n = (word_of_nat (length (snd f)) :: u16)"
    using n small by (simp add: word_unat_eq_iff unat_of_nat unsigned_ucast_eq take_bit_eq_mod)
  have data: "mem_write (?u + 4) (snd f) (mem_write (?u + 2) (be16 (word_of_nat (length (snd f))))
      (mem_write ?u (be16 (fst f)) d)) = mem_write ?u (field_bytes f) d" if "?u \<le> length d" for d
    using that mem_write_append [of ?u d "be16 (fst f)" "be16 (word_of_nat (length (snd f)))"]
      mem_write_append [of ?u d "be16 (fst f) @ be16 (word_of_nat (length (snd f)))" "snd f"]
    by (simp add: field_bytes_def)
  have len: "?u \<le> length (the (tw_data w))" using ok uc by (simp add: writer_ok_def)
  have add1: "vireo_checked_size_add 4 ?n (Some 0) = (VIREO_OK, Some (4 + ?n))"
    using n small by (simp add: size_add_Some)
  show ?thesis
  proof (cases "length (field_bytes f) \<le> writer_room w")
    case True
    then have sum: "?u + (4 + length (snd f)) \<le> unat (tw_capacity w)" using uc by (simp add: writer_room_def)
    then have s64: "?u + unat (4 + ?n) < 2 ^ 64" using tot unat_lt_64 [of "tw_capacity w"] by simp
    then have "unat (tw_used w + (4 + ?n)) = ?u + (4 + length (snd f))" using unat_add_less [of "tw_used w" "4 + ?n"] tot by simp
    then have "\<not> tw_used w + (4 + ?n) > tw_capacity w" using sum by (simp add: word_less_nat_alt)
    moreover have "word_of_nat (length (field_bytes f)) = 4 + ?n" by simp
    ultimately show ?thesis
      using True valid le add1 s64 data [OF len] n uc16
      by (cases "?n = 0") (simp_all add: vireo_tlv_writer_put_def size_add_Some tlv_int_helpers Let_def)
  next
    case False
    have "tw_used w + (4 + ?n) > tw_capacity w" if "?u + unat (4 + ?n) < 2 ^ 64"
      using that False uc tot unat_add_less [of "tw_used w" "4 + ?n"]
      by (simp add: word_less_nat_alt writer_room_def)
    then show ?thesis
      using False valid le add1 n tot
      by (auto simp: vireo_tlv_writer_put_def size_add_Some Let_def)
  qed
qed

interpretation tlv_sink: field_sink writer_ok writer_written writer_room writer_put
proof unfold_locales
  fix w f
  assume ok: "writer_ok w" and fits: "field_fits f"
  note eq = writer_put_eq [OF ok fits]
  let ?u = "unat (tw_used w)" and ?n = "length (field_bytes f)"
  show "fst (writer_put f w) \<noteq> VIREO_OK \<and> snd (writer_put f w) = w" if "writer_room w < ?n"
    using that by (simp add: writer_put_def eq)
  assume room: "?n \<le> writer_room w"
  have uc: "?u \<le> unat (tw_capacity w)" and len: "unat (tw_capacity w) \<le> length (the (tw_data w))"
    using ok by (simp_all add: writer_ok_def word_le_nat_alt)
  have sum: "?u + ?n \<le> unat (tw_capacity w)" using room uc by (simp add: writer_room_def)
  then have "?n < 2 ^ 64" "?u + ?n < 2 ^ 64" using unat_lt_64 [of "tw_capacity w"] by simp_all
  then have "unat (word_of_nat ?n :: size_t) = ?n" by (simp add: unat_of_nat del: length_field_bytes)
  then have used: "unat (tw_used w + word_of_nat ?n) = ?u + ?n"
    using \<open>?u + ?n < 2 ^ 64\<close> unat_add_less [of "tw_used w" "word_of_nat ?n"] by simp
  let ?d = "mem_write ?u (field_bytes f) (the (tw_data w))"
  let ?w = "w\<lparr>tw_data := Some ?d, tw_used := tw_used w + word_of_nat ?n\<rparr>"
  have "length ?d = length (the (tw_data w))" using sum len by (intro length_mem_write) simp
  then have "writer_ok ?w" using sum len used by (simp add: writer_ok_def word_le_nat_alt del: length_field_bytes)
  moreover have "take (?u + ?n) ?d = take ?u (the (tw_data w)) @ field_bytes f"
    using sum len by (simp add: mem_write_def min_absorb2)
  then have "writer_written ?w = writer_written w @ field_bytes f"
    by (simp add: writer_written_def used del: length_field_bytes of_nat_add)
  moreover have "writer_room ?w = writer_room w - ?n"
    by (simp add: writer_room_def used del: length_field_bytes of_nat_add)
  ultimately show "\<exists>w'. writer_put f w = (VIREO_OK, w') \<and> writer_ok w' \<and>
      writer_written w' = writer_written w @ field_bytes f \<and> writer_room w' = writer_room w - ?n"
    using room by (intro exI [of _ ?w]) (simp add: writer_put_def eq)
qed

text \<open>The integer writers are the byte writer on the big-endian encoding.\<close>

lemma writer_put_ints:
  "vireo_tlv_writer_put_u16 w t v2 = vireo_tlv_writer_put w t (Some (be16 v2)) 2"
  "vireo_tlv_writer_put_u32 w t v4 = vireo_tlv_writer_put w t (Some (be32 v4)) 4"
  "vireo_tlv_writer_put_u64 w t v8 = vireo_tlv_writer_put w t (Some (be64 v8)) 8"
  by (simp_all add: vireo_tlv_writer_put_u16_def vireo_tlv_writer_put_u32_def vireo_tlv_writer_put_u64_def
      tlv_int_helpers mem_write_def)

subsection \<open>Writing and reading back\<close>

lemma writer_put_frame:
  assumes "writer_ok w" and "field_fits f" and "writer_put f w = (rc, w')"
  shows "writer_ok w' \<and> tw_capacity w' = tw_capacity w \<and> length (the (tw_data w')) = length (the (tw_data w)) \<and>
    drop (unat (tw_capacity w)) (the (tw_data w')) = drop (unat (tw_capacity w)) (the (tw_data w))"
proof (cases "length (field_bytes f) \<le> writer_room w")
  case True
  have le: "unat (tw_used w) \<le> unat (tw_capacity w)" "unat (tw_capacity w) \<le> length (the (tw_data w))"
    using assms(1) by (auto simp: writer_ok_def word_le_nat_alt)
  then have "unat (tw_used w) + length (field_bytes f) \<le> unat (tw_capacity w)"
    using True by (simp add: writer_room_def)
  moreover have "writer_ok w'" using tlv_sink.put_fits [OF assms(1,2) True] assms(3) by auto
  ultimately show ?thesis
    using True le assms(3) writer_put_eq [OF assms(1,2)]
    by (auto simp: writer_put_def drop_mem_write simp del: length_field_bytes)
next
  case False
  then show ?thesis using assms writer_put_eq [OF assms(1,2)] by (simp add: writer_put_def)
qed

lemma put_all_frame:
  "writer_ok w \<Longrightarrow> list_all field_fits fs \<Longrightarrow> put_all writer_put fs w = (rc, w') \<Longrightarrow>
   writer_ok w' \<and> tw_capacity w' = tw_capacity w \<and> length (the (tw_data w')) = length (the (tw_data w)) \<and>
   drop (unat (tw_capacity w)) (the (tw_data w')) = drop (unat (tw_capacity w)) (the (tw_data w))"
proof (induction fs arbitrary: w)
  case (Cons f fs)
  obtain rc1 w1 where p: "writer_put f w = (rc1, w1)" by (metis surj_pair)
  have "writer_ok w1 \<and> tw_capacity w1 = tw_capacity w \<and> length (the (tw_data w1)) = length (the (tw_data w)) \<and>
      drop (unat (tw_capacity w)) (the (tw_data w1)) = drop (unat (tw_capacity w)) (the (tw_data w))"
    using writer_put_frame [OF _ _ p] Cons.prems by simp
  then show ?case using Cons.IH [of w1] Cons.prems p by (auto split: if_splits)
qed simp

definition collect_field :: "vireo_tlv_view \<Rightarrow> field list \<Rightarrow> vireo_result \<times> field list" where
  "collect_field v acc = (VIREO_OK, acc @ [(tv_type v, view_bytes v)])"

lemma fields_run_collect: "fields_run (\<lambda>f acc. (VIREO_OK, acc @ [f])) fs acc = (VIREO_OK, acc @ fs)"
  by (induction fs arbitrary: acc) simp_all

lemma writer_init_OK:
  "unat cap \<le> length d \<Longrightarrow> \<exists>w. vireo_tlv_writer_init (Some w0) (Some d) cap = (VIREO_OK, Some w) \<and>
     writer_ok w \<and> writer_written w = [] \<and> writer_room w = unat cap"
  by (simp add: vireo_tlv_writer_init_def writer_ok_def writer_written_def writer_room_def)

text \<open>
  C27. Fields survive the wire: put any list of fields into a writer over a buffer. Every put
  succeeds exactly when the encodings fit the capacity, and then a reader over the bytes written
  returns precisely these fields in order; no put writes outside the buffer.
\<close>

theorem tlv_write_read_roundtrip:
  assumes "unat cap \<le> length d" and "list_all field_fits fs"
    and "vireo_tlv_writer_init (Some w0) (Some d) cap = (VIREO_OK, Some w)"
    and "put_all writer_put fs w = (rc, w')"
  shows "(rc = VIREO_OK \<longleftrightarrow> length (tlv_encode fs) \<le> unat cap) \<and>
    length (the (tw_data w')) = length d \<and> drop (unat cap) (the (tw_data w')) = drop (unat cap) d \<and>
    (rc = VIREO_OK \<longrightarrow> (\<exists>r. vireo_tlv_reader_init (Some r0) (tw_data w') (tw_used w') = (VIREO_OK, Some r) \<and>
       tlv_read_loop collect_field r [] = (VIREO_OK, fs)))"
proof -
  have w: "writer_ok w" "writer_written w = []" "writer_room w = unat cap" "tw_capacity w = cap" "tw_data w = Some d"
    using assms(1,3) writer_init_OK [OF assms(1), of w0] by (auto simp: vireo_tlv_writer_init_def)
  have frame: "length (the (tw_data w')) = length d" "drop (unat cap) (the (tw_data w')) = drop (unat cap) d"
    using put_all_frame [OF w(1) assms(2,4)] w by auto
  show ?thesis
  proof (cases "length (tlv_encode fs) \<le> unat cap")
    case True
    then have w': "rc = VIREO_OK" "writer_ok w'" "writer_written w' = tlv_encode fs"
      "writer_room w' = unat cap - length (tlv_encode fs)"
      using tlv_sink.put_all_fits [OF w(1) assms(2)] w assms(4) by auto
    have le: "unat (tw_used w') \<le> length (the (tw_data w'))" "tw_data w' \<noteq> None"
      using w'(2) by (auto simp: writer_ok_def word_le_nat_alt)
    then obtain r where r: "vireo_tlv_reader_init (Some r0) (tw_data w') (tw_used w') = (VIREO_OK, Some r)"
      "reader_ok r" "reader_rest r = tlv_encode fs"
      using reader_init_OK [of "tw_used w'" "the (tw_data w')" r0] w'(3) by (auto simp: writer_written_def)
    have "tlv_read_loop collect_field r [] = fields_run (\<lambda>f acc. (VIREO_OK, acc @ [f])) fs []"
      by (rule tlv_read_loop_fields [OF r(2,3) assms(2)]) (auto simp: collect_field_def view_of_def)
    then show ?thesis using True w'(1) r(1) frame by (auto simp: fields_run_collect)
  next
    case False
    then have "rc \<noteq> VIREO_OK"
      using tlv_sink.put_all_full [OF w(1) assms(2)] w assms(4) by auto
    then show ?thesis using False frame by simp
  qed
qed

theorem tlv_write_read_roundtrip_witness:
  "\<exists>w w' r. vireo_tlv_writer_init (Some \<lparr>tw_data = None, tw_capacity = 0, tw_used = 0\<rparr>) (Some (replicate 12 9)) 11 =
       (VIREO_OK, Some w) \<and>
     put_all writer_put [(1, [7, 8]), (2, [5])] w = (VIREO_OK, w') \<and>
     vireo_tlv_reader_init (Some \<lparr>tr_data = None, tr_size = 0, tr_offset = 0\<rparr>) (tw_data w') (tw_used w') = (VIREO_OK, Some r) \<and>
     tlv_read_loop collect_field r [] = (VIREO_OK, [(1, [7, 8]), (2, [5])]) \<and> drop 11 (the (tw_data w')) = [9]"
proof -
  let ?fs = "[(1, [7, 8]), (2, [5])] :: field list"
  have cap: "unat (11 :: size_t) \<le> length (replicate 12 (9 :: u8))" and fits: "list_all field_fits ?fs"
    by (simp_all add: field_fits_def)
  obtain w where w: "vireo_tlv_writer_init (Some \<lparr>tw_data = None, tw_capacity = 0, tw_used = 0\<rparr>) (Some (replicate 12 9)) 11 =
      (VIREO_OK, Some w)" using writer_init_OK [OF cap] by blast
  obtain rc w' where p: "put_all writer_put ?fs w = (rc, w')" by (metis surj_pair)
  from tlv_write_read_roundtrip [OF cap fits w p, of "\<lparr>tr_data = None, tr_size = 0, tr_offset = 0\<rparr>"] w p
  show ?thesis by auto
qed

end
