(* ===== verification/Protocol_Utf8.thy ===== *)
theory Protocol_Utf8
  imports Protocol_Tlv
begin

unbundle bit_operations_syntax

text \<open>
  What the UTF-8 and name checks of \<^verbatim>\<open>src/protocol/tlv.c\<close> accept, stated over Unicode scalar values
  instead of bytes.
\<close>

definition scalar :: "nat \<Rightarrow> bool" where
  "scalar c \<longleftrightarrow> c \<le> 0x10FFFF \<and> \<not> (0xD800 \<le> c \<and> c \<le> 0xDFFF)"

definition utf8_char :: "nat \<Rightarrow> bytes" where
  "utf8_char c = map word_of_nat
     (if c < 0x80 then [c]
      else if c < 0x800 then [0xC0 + c div 64, 0x80 + c mod 64]
      else if c < 0x10000 then [0xE0 + c div 4096, 0x80 + c div 64 mod 64, 0x80 + c mod 64]
      else [0xF0 + c div 262144, 0x80 + c div 4096 mod 64, 0x80 + c div 64 mod 64, 0x80 + c mod 64])"

definition utf8_text :: "nat list \<Rightarrow> bytes" where
  "utf8_text cs = concat (map utf8_char cs)"

lemma utf8_text_simps [simp]: "utf8_text [] = []" "utf8_text (c # cs) = utf8_char c @ utf8_text cs"
  by (simp_all add: utf8_text_def)

lemma byte_of_nat [simp]: "n < 256 \<Longrightarrow> unat (word_of_nat n :: u8) = n"
  by (simp add: unat_of_nat)

lemma byte_bound: "unat (b :: u8) < 256"
proof -
  have "unat b < 2 ^ LENGTH(8)" by (rule unsigned_less)
  then show ?thesis by simp
qed

lemma continuation_table:
  "list_all (\<lambda>n. vireo_tlv_utf8_is_continuation (word_of_nat n) \<longleftrightarrow> 128 \<le> n \<and> n < 192) [0 ..< 256]"
  by code_simp

lemma continuation_iff: "vireo_tlv_utf8_is_continuation b \<longleftrightarrow> 128 \<le> unat b \<and> unat b < 192"
proof -
  have "unat b \<in> set [0 ..< 256]" using byte_bound [of b] by simp
  with continuation_table have "vireo_tlv_utf8_is_continuation (word_of_nat (unat b)) \<longleftrightarrow> 128 \<le> unat b \<and> unat b < 192"
    unfolding list_all_iff by blast
  then show ?thesis by simp
qed

text \<open>One turn of the loop, by the range of the first byte.\<close>

lemmas scan_unfold = utf8_scan.simps [of "a # r" for a r]

lemma scan_1: "unat a < 128 \<Longrightarrow> utf8_scan (a # rest) = utf8_scan rest"
proof -
  assume "unat a < 128"
  then have "a \<le> 0x7F" by (simp add: word_le_nat_alt)
  then show ?thesis by (simp add: scan_unfold [of a] Let_def)
qed

lemma scan_2:
  assumes "194 \<le> unat a" and "unat a < 224"
  shows "utf8_scan (a # rest) = (case rest of b # r \<Rightarrow> 128 \<le> unat b \<and> unat b < 192 \<and> utf8_scan r | _ \<Rightarrow> False)"
proof -
  have c: "\<not> a \<le> 0x7F" "a \<ge> 0xC2" "a \<le> 0xDF" using assms by (auto simp: word_le_nat_alt)
  show ?thesis by (cases rest) (simp_all add: scan_unfold [of a] c continuation_iff Let_def, blast)
qed

lemma scan_3:
  assumes "224 \<le> unat a" and "unat a < 240"
  shows "utf8_scan (a # rest) = (case rest of b # c # r \<Rightarrow>
      128 \<le> unat b \<and> unat b < 192 \<and> 128 \<le> unat c \<and> unat c < 192 \<and>
      \<not> (unat a = 224 \<and> unat b < 160) \<and> \<not> (unat a = 237 \<and> 159 < unat b) \<and> utf8_scan r | _ \<Rightarrow> False)"
proof -
  have c: "\<not> a \<le> 0x7F" "\<not> a \<le> 0xDF" "a \<ge> 0xE0" "a \<le> 0xEF"
    using assms by (auto simp: word_le_nat_alt)
  have e: "a = 0xE0 \<longleftrightarrow> unat a = 224" "a = 0xED \<longleftrightarrow> unat a = 237" by (auto simp: word_unat_eq_iff)
  have l: "b < 0xA0 \<longleftrightarrow> unat b < 160" "0x9F < b \<longleftrightarrow> 159 < unat b" for b :: u8
    by (simp_all add: word_less_nat_alt)
  consider "length rest < 2" | b c' r where "rest = b # c' # r" by (metis Suc_le_length_iff not_less numeral_2_eq_2)
  then show ?thesis
  proof cases
    case 1
    then show ?thesis by (auto simp: scan_unfold [of a] c Let_def split: list.split)
  next
    case 2
    then show ?thesis by (simp add: scan_unfold [of a] c e l continuation_iff Let_def) blast
  qed
qed

lemma scan_4:
  assumes "240 \<le> unat a" and "unat a < 245"
  shows "utf8_scan (a # rest) = (case rest of b # c # d # r \<Rightarrow>
      128 \<le> unat b \<and> unat b < 192 \<and> 128 \<le> unat c \<and> unat c < 192 \<and> 128 \<le> unat d \<and> unat d < 192 \<and>
      \<not> (unat a = 240 \<and> unat b < 144) \<and> \<not> (unat a = 244 \<and> 143 < unat b) \<and> utf8_scan r | _ \<Rightarrow> False)"
proof -
  have c: "\<not> a \<le> 0x7F" "\<not> a \<le> 0xDF" "\<not> a \<le> 0xEF" "a \<ge> 0xF0" "a \<le> 0xF4"
    using assms by (auto simp: word_le_nat_alt)
  have e: "a = 0xF0 \<longleftrightarrow> unat a = 240" "a = 0xF4 \<longleftrightarrow> unat a = 244" by (auto simp: word_unat_eq_iff)
  have l: "b < 0x90 \<longleftrightarrow> unat b < 144" "0x8F < b \<longleftrightarrow> 143 < unat b" for b :: u8
    by (simp_all add: word_less_nat_alt)
  consider "length rest < 3" | b c' d r where "rest = b # c' # d # r"
    by (metis Suc_le_length_iff not_less numeral_3_eq_3)
  then show ?thesis
  proof cases
    case 1
    then show ?thesis by (auto simp: scan_unfold [of a] c Let_def split: list.split)
  next
    case 2
    then show ?thesis by (simp add: scan_unfold [of a] c e l continuation_iff Let_def) blast
  qed
qed

lemma scan_bad:
  assumes "(128 \<le> unat a \<and> unat a < 194) \<or> 245 \<le> unat a"
  shows "\<not> utf8_scan (a # rest)"
proof -
  have c: "\<not> a \<le> 0x7F" "\<not> (a \<ge> 0xC2 \<and> a \<le> 0xDF)" "\<not> (a \<ge> 0xE0 \<and> a \<le> 0xEF)" "\<not> (a \<ge> 0xF0 \<and> a \<le> 0xF4)"
    using assms by (auto simp: word_le_nat_alt)
  show ?thesis by (simp only: scan_unfold [of a] c Let_def nth_Cons_0 if_False simp_thms list.distinct)
qed

lemma utf8_scan_char:
  assumes "scalar c"
  shows "utf8_scan (utf8_char c @ rest) = utf8_scan rest"
proof -
  consider "c < 0x80" | "0x80 \<le> c" "c < 0x800" | "0x800 \<le> c" "c < 0x10000" | "0x10000 \<le> c" by linarith
  then show ?thesis
  proof cases
    case 1
    then show ?thesis by (simp add: utf8_char_def scan_1)
  next
    case 2
    then have "c div 64 < 32" "2 \<le> c div 64" by auto
    then have "unat (word_of_nat (0xC0 + c div 64) :: u8) = 0xC0 + c div 64"
      "unat (word_of_nat (0x80 + c mod 64) :: u8) = 0x80 + c mod 64"
      by (simp_all del: of_nat_add)
    with 2 \<open>2 \<le> c div 64\<close> \<open>c div 64 < 32\<close> show ?thesis
      by (simp add: utf8_char_def scan_2 del: of_nat_add)
  next
    case 3
    let ?a = "c div 4096" and ?b = "c div 64 mod 64"
    have r: "?a < 16" using 3 by auto
    then have u: "unat (word_of_nat (0xE0 + ?a) :: u8) = 0xE0 + ?a"
      "unat (word_of_nat (0x80 + ?b) :: u8) = 0x80 + ?b"
      "unat (word_of_nat (0x80 + c mod 64) :: u8) = 0x80 + c mod 64"
      by (simp_all del: of_nat_add)
    have "32 \<le> ?b" if "?a = 0" using that 3 by auto
    moreover have "?b \<le> 31" if "?a = 13"
    proof -
      have "c < 55296" using that assms by (auto simp: scalar_def)
      then have "c div 64 < 864" by auto
      moreover have "c div 64 div 64 = 13" using that by (simp add: div_mult2_eq [symmetric])
      moreover have "c div 64 = 64 * (c div 64 div 64) + ?b" by simp
      ultimately show ?thesis by linarith
    qed
    ultimately show ?thesis
      using 3 r u by (auto simp: utf8_char_def scan_3 simp del: of_nat_add)
  next
    case 4
    let ?a = "c div 262144" and ?b = "c div 4096 mod 64"
    have "?a < 5" using assms by (auto simp: scalar_def)
    then have u: "unat (word_of_nat (0xF0 + ?a) :: u8) = 0xF0 + ?a"
      "unat (word_of_nat (0x80 + ?b) :: u8) = 0x80 + ?b"
      "unat (word_of_nat (0x80 + c div 64 mod 64) :: u8) = 0x80 + c div 64 mod 64"
      "unat (word_of_nat (0x80 + c mod 64) :: u8) = 0x80 + c mod 64"
      by (simp_all del: of_nat_add)
    have "16 \<le> ?b" if "?a = 0" using that 4 by auto
    moreover have "?b \<le> 15" if "?a = 4"
    proof -
      have "c < 1114112" using assms by (auto simp: scalar_def)
      then have "c div 4096 < 272" by auto
      moreover have "c div 4096 div 64 = 4" using that by (simp add: div_mult2_eq [symmetric])
      moreover have "c div 4096 = 64 * (c div 4096 div 64) + ?b" by simp
      ultimately show ?thesis by linarith
    qed
    ultimately show ?thesis
      using 4 \<open>?a < 5\<close> u by (auto simp: utf8_char_def scan_4 simp del: of_nat_add)
  qed
qed

text \<open>Decoding one character that the scan accepts.\<close>

lemma byte_eqI: "unat (b :: u8) = n \<Longrightarrow> b = word_of_nat n"
  by auto

lemma utf8_scan_split:
  assumes "utf8_scan (a # rest)"
  obtains c r where "scalar c" and "a # rest = utf8_char c @ r" and "utf8_scan r"
proof -
  consider "unat a < 128" | "194 \<le> unat a" "unat a < 224" | "224 \<le> unat a" "unat a < 240"
    | "240 \<le> unat a" "unat a < 245" | "(128 \<le> unat a \<and> unat a < 194) \<or> 245 \<le> unat a" by linarith
  then show thesis
  proof cases
    case 1
    then have "a # rest = utf8_char (unat a) @ rest" by (simp add: utf8_char_def)
    with 1 show thesis using assms that [of "unat a" rest] by (simp add: scan_1 scalar_def)
  next
    case 2
    then obtain b r where r: "rest = b # r" "128 \<le> unat b" "unat b < 192" "utf8_scan r"
      using assms by (auto simp: scan_2 split: list.splits)
    define x where "x = unat a - 192"
    define y where "y = unat b - 128"
    have u: "word_of_nat (192 + x) = a" "word_of_nat (128 + y) = b" and lim: "2 \<le> x" "x < 32" "y < 64"
      using 2 r(2,3) by (simp_all add: x_def y_def)
    let ?c = "x * 64 + y"
    have c: "?c div 64 = x" "?c mod 64 = y" "128 \<le> ?c" "?c < 2048" using lim by auto
    then have "utf8_char ?c = map word_of_nat [192 + x, 128 + y]" by (simp add: utf8_char_def)
    with r c show thesis using that [of ?c r] u by (simp add: scalar_def)
  next
    case 3
    then obtain b d r where r: "rest = b # d # r" "128 \<le> unat b" "unat b < 192" "128 \<le> unat d" "unat d < 192"
      "\<not> (unat a = 224 \<and> unat b < 160)" "\<not> (unat a = 237 \<and> 159 < unat b)" "utf8_scan r"
      using assms by (auto simp: scan_3 split: list.splits)
    define x where "x = unat a - 224"
    define y where "y = unat b - 128"
    define z where "z = unat d - 128"
    have u: "word_of_nat (224 + x) = a" "word_of_nat (128 + y) = b" "word_of_nat (128 + z) = d"
      and lim: "x < 16" "y < 64" "z < 64" "x = 0 \<longrightarrow> 32 \<le> y" "x = 13 \<longrightarrow> y < 32"
      using 3 r(2-7) by (auto simp: x_def y_def z_def)
    let ?c = "x * 4096 + y * 64 + z"
    have "?c = (x * 64 + y) * 64 + z" by simp
    then have "?c mod 64 = z" using lim(3) by (simp only: mod_mult_self3 mod_less)
    moreover have "?c div 4096 = x" "?c div 64 = x * 64 + y" "2048 \<le> ?c" "?c < 65536"
      using lim by auto
    ultimately have "utf8_char ?c = map word_of_nat [224 + x, 128 + (x * 64 + y) mod 64, 128 + z]" by (simp add: utf8_char_def)
    moreover have "(x * 64 + y) mod 64 = y" using lim by simp
    moreover have "scalar ?c"
    proof -
      have "x < 13 \<or> x = 13 \<or> 14 \<le> x" by linarith
      then show ?thesis using lim by (auto simp: scalar_def)
    qed
    ultimately show thesis using that [of ?c r] r u by simp
  next
    case 4
    then obtain b d e r where r: "rest = b # d # e # r" "128 \<le> unat b" "unat b < 192" "128 \<le> unat d" "unat d < 192"
      "128 \<le> unat e" "unat e < 192"
      "\<not> (unat a = 240 \<and> unat b < 144)" "\<not> (unat a = 244 \<and> 143 < unat b)" "utf8_scan r"
      using assms by (auto simp: scan_4 split: list.splits)
    define x where "x = unat a - 240"
    define y where "y = unat b - 128"
    define z where "z = unat d - 128"
    define w where "w = unat e - 128"
    have u: "word_of_nat (240 + x) = a" "word_of_nat (128 + y) = b" "word_of_nat (128 + z) = d" "word_of_nat (128 + w) = e"
      and lim: "x < 5" "y < 64" "z < 64" "w < 64" "x = 0 \<longrightarrow> 16 \<le> y" "x = 4 \<longrightarrow> y < 16"
      using 4 r(2-9) by (auto simp: x_def y_def z_def w_def)
    let ?c = "x * 262144 + y * 4096 + z * 64 + w"
    have c: "?c div 262144 = x" "?c div 4096 = x * 64 + y" "?c div 64 = (x * 64 + y) * 64 + z"
      "65536 \<le> ?c" "?c \<le> 1114111"
      using lim by auto
    have "?c = ((x * 64 + y) * 64 + z) * 64 + w" by simp
    then have "?c mod 64 = w" using lim(4) by (simp only: mod_mult_self3 mod_less)
    with c have "utf8_char ?c = map word_of_nat [240 + x, 128 + (x * 64 + y) mod 64, 128 + ((x * 64 + y) * 64 + z) mod 64, 128 + w]"
      by (simp add: utf8_char_def)
    moreover have "(x * 64 + y) mod 64 = y" "((x * 64 + y) * 64 + z) mod 64 = z"
      using lim by (simp_all only: mod_mult_self3 mod_less)
    ultimately show thesis using that [of ?c r] r u c by (simp add: scalar_def)
  next
    case 5
    then show thesis using assms scan_bad by blast
  qed
qed

lemma utf8_scan_text: "utf8_scan bs \<longleftrightarrow> (\<exists>cs. list_all scalar cs \<and> bs = utf8_text cs)"
proof -
  have "utf8_scan bs \<Longrightarrow> \<exists>cs. list_all scalar cs \<and> bs = utf8_text cs"
  proof (induction "length bs" arbitrary: bs rule: less_induct)
    case less
    show ?case
    proof (cases bs)
      case Nil
      then show ?thesis by (intro exI [of _ "[]"]) simp
    next
      case (Cons a rest)
      then obtain c r where c: "scalar c" "bs = utf8_char c @ r" "utf8_scan r"
        using utf8_scan_split less.prems by metis
      moreover have "utf8_char c \<noteq> []" by (simp add: utf8_char_def)
      ultimately obtain cs where "list_all scalar cs" "r = utf8_text cs"
        using less.hyps [of r] by auto
      then show ?thesis using c by (intro exI [of _ "c # cs"]) simp
    qed
  qed
  moreover have "list_all scalar cs \<Longrightarrow> utf8_scan (utf8_text cs)" for cs
    by (induction cs) (simp_all add: utf8_scan_char utf8_scan.simps [of "[]"])
  ultimately show ?thesis by metis
qed

text \<open>
  C40. The UTF-8 check accepts exactly the byte strings that encode a sequence of Unicode scalar
  values: no overlong form, no surrogate, nothing above U+10FFFF, nothing truncated.
\<close>

theorem utf8_valid_exact:
  "vireo_tlv_utf8_is_valid data sz \<longleftrightarrow> (\<exists>cs. list_all scalar cs \<and> take (unat sz) data = utf8_text cs)"
  by (simp add: vireo_tlv_utf8_is_valid_def utf8_scan_text)

subsection \<open>Names\<close>

lemma name_scan_byte:
  "name_scan (b # rest) \<longleftrightarrow> unat b > 31 \<and> unat b \<noteq> 127 \<and> unat b \<noteq> 47 \<and>
     \<not> (unat b = 194 \<and> rest \<noteq> [] \<and> 128 \<le> unat (hd rest) \<and> unat (hd rest) \<le> 159) \<and> name_scan rest"
  by (cases rest) (auto simp: word_le_nat_alt word_unat_eq_iff)

declare name_scan.simps(2) [simp del]

definition name_char :: "nat \<Rightarrow> bool" where
  "name_char c \<longleftrightarrow> 0x20 \<le> c \<and> c \<noteq> 0x2F \<and> \<not> (0x7F \<le> c \<and> c \<le> 0x9F)"

lemma name_scan_char: "scalar c \<Longrightarrow> name_scan (utf8_char c @ rest) \<longleftrightarrow> name_char c \<and> name_scan rest"
proof -
  assume sc: "scalar c"
  have u: "unat (word_of_nat (0x80 + n mod 64) :: u8) = 0x80 + n mod 64" for n
    by (rule byte_of_nat) (simp add: order.strict_trans1 [OF add_left_mono [of "n mod 64" 63]])
  have m: "n mod 64 < 64" for n :: nat by simp
  consider "c < 0x80" | "0x80 \<le> c" "c < 0x800" | "0x800 \<le> c" "c < 0x10000" | "0x10000 \<le> c" by linarith
  then show ?thesis
  proof cases
    case 1
    then show ?thesis by (auto simp: utf8_char_def name_scan_byte name_char_def)
  next
    case 2
    then have r: "c div 64 < 32" "2 \<le> c div 64" by auto
    then have a: "unat (word_of_nat (0xC0 + c div 64) :: u8) = 0xC0 + c div 64" by (simp del: of_nat_add)
    have split: "c = 64 * (c div 64) + c mod 64" by simp
    have "(c div 64 = 2 \<and> c mod 64 \<le> 31) \<longleftrightarrow> c \<le> 0x9F"
    proof
      assume "c div 64 = 2 \<and> c mod 64 \<le> 31"
      then show "c \<le> 0x9F" using split by linarith
    next
      assume "c \<le> 0x9F"
      then have "c div 64 < 3" by auto
      then have "c div 64 = 2" using r by linarith
      then show "c div 64 = 2 \<and> c mod 64 \<le> 31" using split \<open>c \<le> 0x9F\<close> by linarith
    qed
    with 2 r m [of c] show ?thesis
      by (auto simp: utf8_char_def name_scan_byte a u name_char_def simp del: of_nat_add)
  next
    case 3
    have r: "c div 4096 < 16" using 3 by auto
    then have "unat (word_of_nat (0xE0 + c div 4096) :: u8) = 0xE0 + c div 4096" by (simp del: of_nat_add)
    with 3 r show ?thesis
      using m [of c] m [of "c div 64"]
      by (auto simp: utf8_char_def name_scan_byte u name_char_def simp del: of_nat_add)
  next
    case 4
    have r: "c div 262144 < 5" using sc by (auto simp: scalar_def)
    then have "unat (word_of_nat (0xF0 + c div 262144) :: u8) = 0xF0 + c div 262144" by (simp del: of_nat_add)
    with 4 r show ?thesis
      using m [of c] m [of "c div 64"] m [of "c div 4096"]
      by (auto simp: utf8_char_def name_scan_byte u name_char_def simp del: of_nat_add)
  qed
qed

lemma name_scan_text: "list_all scalar cs \<Longrightarrow> name_scan (utf8_text cs) \<longleftrightarrow> (\<forall>c \<in> set cs. name_char c)"
  by (induction cs) (simp_all add: name_scan_char)

text \<open>A dot starts no longer encoding.\<close>

lemma utf8_dot:
  assumes "utf8_text cs = 0x2E # bs" and "list_all scalar cs"
  obtains ds where "cs = 0x2E # ds" and "utf8_text ds = bs" and "list_all scalar ds"
proof -
  obtain c ds where cs: "cs = c # ds" using assms(1) by (cases cs) auto
  then have hd: "hd (utf8_char c) = 0x2E" and sc: "scalar c"
    using assms by (auto simp: utf8_char_def split: if_splits)
  have "c < 0x80"
  proof (rule ccontr)
    assume "\<not> c < 0x80"
    then have "hd (utf8_char c) \<in> word_of_nat ` {192 ..< 256}"
      using sc by (auto simp: utf8_char_def scalar_def simp del: of_nat_add intro!: imageI)
    then obtain n where "192 \<le> n" "n < 256" "(word_of_nat n :: u8) = 0x2E" using hd by auto
    then show False using byte_of_nat [of n] by simp
  qed
  then have "c = 0x2E" using hd byte_of_nat [of c] by (simp add: utf8_char_def)
  then show thesis using that assms cs by (simp add: utf8_char_def)
qed

lemma utf8_text_empty: "utf8_text cs = [] \<longleftrightarrow> cs = []"
  by (cases cs) (auto simp: utf8_char_def)

lemma name_check_text:
  assumes "take (unat sz) data = utf8_text cs" and "list_all scalar cs" and "unat sz \<le> length data"
  shows "vireo_tlv_name_is_valid data sz \<longleftrightarrow>
    cs \<notin> {[], [0x2E], [0x2E, 0x2E]} \<and>
    (\<forall>c \<in> set cs. name_char c)"
proof -
  have len: "length (utf8_text cs) = unat sz" using assms(1,3) by (metis length_take min_absorb2)
  have nth: "data ! i = utf8_text cs ! i" if "i < unat sz" for i using assms(1) that by (metis nth_take)
  have z: "sz = 0 \<longleftrightarrow> cs = []" using len utf8_text_empty [of cs] by (auto simp: unat_eq_zero)
  have one: "sz = 1 \<and> data ! 0 = 0x2E \<longleftrightarrow> cs = [0x2E]"
  proof
    assume a: "sz = 1 \<and> data ! 0 = 0x2E"
    then have "utf8_text cs = [0x2E]" using len nth [of 0] by (auto simp: length_Suc_conv)
    then show "cs = [0x2E]" using assms(2) by (auto elim!: utf8_dot simp: utf8_text_empty)
  next
    assume a: "cs = [0x2E]"
    then have "unat sz = unat (1 :: size_t)" using len by (simp add: utf8_char_def)
    then show "sz = 1 \<and> data ! 0 = 0x2E" using a nth [of 0] by (simp add: word_unat_eq_iff utf8_char_def)
  qed
  have two: "sz = 2 \<and> data ! 0 = 0x2E \<and> data ! 1 = 0x2E \<longleftrightarrow> cs = [0x2E, 0x2E]"
  proof
    assume a: "sz = 2 \<and> data ! 0 = 0x2E \<and> data ! 1 = 0x2E"
    then have "length (utf8_text cs) = 2" "utf8_text cs ! 0 = 0x2E" "utf8_text cs ! 1 = 0x2E"
      using len nth [of 0] nth [of 1] by simp_all
    then have "utf8_text cs = [0x2E, 0x2E]"
      by (simp add: list_eq_iff_nth_eq less_Suc_eq numeral_2_eq_2)
    then show "cs = [0x2E, 0x2E]" using assms(2) by (auto elim!: utf8_dot simp: utf8_text_empty)
  next
    assume a: "cs = [0x2E, 0x2E]"
    then have "unat sz = unat (2 :: size_t)" using len by (simp add: utf8_char_def)
    then show "sz = 2 \<and> data ! 0 = 0x2E \<and> data ! 1 = 0x2E"
      using a nth [of 0] nth [of 1] by (simp add: word_unat_eq_iff utf8_char_def)
  qed
  have scan: "name_scan (take (unat sz) data) \<longleftrightarrow> (\<forall>c \<in> set cs. name_char c)"
    using assms(1,2) by (simp add: name_scan_text)
  show ?thesis
    unfolding vireo_tlv_name_is_valid_def z one two scan by auto
qed

text \<open>
  On text that passed the UTF-8 check, the byte-wise name check decides exactly this: the name is
  not empty, not \<open>.\<close> and not \<open>..\<close>, and contains no slash and no control character (C0, DEL, C1).
\<close>

theorem name_valid_exact:
  assumes "take (unat sz) data = utf8_text cs" and "list_all scalar cs" and "unat sz \<le> length data"
  shows "vireo_tlv_name_is_valid data sz \<longleftrightarrow>
    cs \<notin> {[], [0x2E], [0x2E, 0x2E]} \<and>
    (\<forall>c \<in> set cs. 0x20 \<le> c \<and> c \<noteq> 0x2F \<and> \<not> (0x7F \<le> c \<and> c \<le> 0x9F))"
  using name_check_text [OF assms] by (simp add: name_char_def)

theorem name_valid_exact_witness:
  "vireo_tlv_name_is_valid [0x61, 0xC3, 0xA9, 0x2E] 4 \<and> \<not> vireo_tlv_name_is_valid [0x2E, 0x2E] 2"
proof -
  have t: "take (unat (4 :: size_t)) [0x61, 0xC3, 0xA9, 0x2E] = utf8_text [0x61, 0xE9, 0x2E]"
    "take (unat (2 :: size_t)) [0x2E, 0x2E] = utf8_text [0x2E, 0x2E]"
    by (simp_all add: utf8_char_def)
  have "vireo_tlv_name_is_valid [0x61, 0xC3, 0xA9, 0x2E] 4"
    by (subst name_valid_exact [OF t(1)]) (simp_all add: scalar_def)
  moreover have "\<not> vireo_tlv_name_is_valid [0x2E, 0x2E] 2"
    by (subst name_valid_exact [OF t(2)]) (simp_all add: scalar_def)
  ultimately show ?thesis by blast
qed

end
