(* ===== verification/Protocol_Schema.thy ===== *)
theory Protocol_Schema
  imports Protocol_Utf8
begin

text \<open>
  What \<open>vireo_tlv_schema_validate\<close> accepts, stated over fields: the body is a sequence of whole fields,
  each one permitted by the rule of its type, with the required ones present and the others not
  repeated beyond what their rules allow.
\<close>

definition value_spec :: "vireo_tlv_rule \<Rightarrow> bytes \<Rightarrow> bool" where
  "value_spec r v \<longleftrightarrow> unat (rule_min_length r) \<le> length v \<and> length v \<le> unat (rule_max_length r) \<and>
     (case rule_value_kind r of
        VIREO_TLV_VALUE_BYTES \<Rightarrow> True
      | VIREO_TLV_VALUE_U16 \<Rightarrow> length v = 2
      | VIREO_TLV_VALUE_U32 \<Rightarrow> length v = 4
      | VIREO_TLV_VALUE_U64 \<Rightarrow> length v = 8
      | VIREO_TLV_VALUE_UTF8 \<Rightarrow> \<exists>cs. list_all scalar cs \<and> v = utf8_text cs
      | VIREO_TLV_VALUE_NAME \<Rightarrow> \<exists>cs. list_all scalar cs \<and> v = utf8_text cs \<and>
          cs \<notin> {[], [0x2E], [0x2E, 0x2E]} \<and> list_all name_char cs
      | VIREO_TLV_VALUE_OTHER \<Rightarrow> False)"

lemma view_of_take:
  "view_of v f \<Longrightarrow> take (unat (tv_length v)) (the (tv_value v)) = snd f \<and>
     unat (tv_length v) \<le> length (the (tv_value v))"
  unfolding view_of_def view_bytes_def by metis

lemma utf8_valid_view:
  "view_of v f \<Longrightarrow> vireo_tlv_utf8_is_valid (the (tv_value v)) (tv_length v) \<longleftrightarrow>
     (\<exists>cs. list_all scalar cs \<and> snd f = utf8_text cs)"
  using view_of_take [of v f] by (simp only: utf8_scan_text vireo_tlv_utf8_is_valid_def)

lemma name_valid_view:
  assumes "view_of v f" and "list_all scalar cs" and "snd f = utf8_text cs"
  shows "vireo_tlv_name_is_valid (the (tv_value v)) (tv_length v) \<longleftrightarrow>
     cs \<notin> {[], [0x2E], [0x2E, 0x2E]} \<and> list_all name_char cs"
  unfolding list_all_iff
  using view_of_take [OF assms(1)] assms(2,3) by (intro name_check_text) auto

lemma value_validate_iff:
  assumes "view_of v f"
  shows "vireo_tlv_value_validate r v = VIREO_TLV_ISSUE_NONE \<longleftrightarrow> value_spec r (snd f)"
proof -
  have len: "unat (tv_length v) = length (snd f)" using assms by (simp add: view_of_def)
  have bounds: "tv_length v < ucast (rule_min_length r) \<longleftrightarrow> \<not> unat (rule_min_length r) \<le> length (snd f)"
    "tv_length v > ucast (rule_max_length r) \<longleftrightarrow> \<not> length (snd f) \<le> unat (rule_max_length r)"
    by (simp_all add: word_less_nat_alt unat_ucast_le len not_le)
  have eq: "tv_length v = k \<longleftrightarrow> length (snd f) = unat k" for k by (simp add: word_unat_eq_iff len)
  show ?thesis
    using name_valid_view [OF assms]
    by (cases "rule_value_kind r")
      (auto simp: vireo_tlv_value_validate_def value_spec_def bounds eq utf8_valid_view [OF assms])
qed

subsection \<open>Rule lookup\<close>

lemma find_rule_index_cases:
  assumes "unat n \<le> length rs"
  obtains (unknown) "vireo_tlv_find_rule_index (Some rs) n t = n" and "\<forall>r \<in> set (take (unat n) rs). rule_type r \<noteq> t"
  | (known) i where "i < unat n" and "vireo_tlv_find_rule_index (Some rs) n t \<noteq> n"
      and "unat (vireo_tlv_find_rule_index (Some rs) n t) = i" and "rule_type (rs ! i) = t"
proof (cases "find (\<lambda>index. rule_type (rs ! index) = t) [0 ..< unat n]")
  case None
  then have "rule_type (rs ! i) \<noteq> t" if "i < unat n" for i using that by (auto simp: find_None_iff)
  then have "\<forall>r \<in> set (take (unat n) rs). rule_type r \<noteq> t" 
    using assms by (metis in_set_conv_nth length_take min_absorb2 nth_take)
  then show thesis using None unknown by (simp add: vireo_tlv_find_rule_index_def)
next
  case (Some i)
  then have i: "i < unat n" "rule_type (rs ! i) = t" by (auto simp: find_Some_iff)
  have "unat (word_of_nat i :: size_t) = i" using i(1) unat_lt_64 [of n] by (simp add: unat_of_nat)
  moreover have "(word_of_nat i :: size_t) \<noteq> n" using calculation i(1) by (auto simp: word_unat_eq_iff)
  ultimately show thesis using known [of i] Some i by (simp add: vireo_tlv_find_rule_index_def)
qed

lemma rules_valid_distinct:
  assumes "vireo_tlv_rules_are_valid (Some rs) n" and "unat n \<le> length rs"
  shows "distinct (map rule_type (take (unat n) rs))"
  unfolding distinct_conv_nth
proof (intro allI impI)
  fix i j
  assume ij: "i < length (map rule_type (take (unat n) rs))" "j < length (map rule_type (take (unat n) rs))" "i \<noteq> j"
  have neq: "rule_type (rs ! k) \<noteq> rule_type (rs ! l)" if "k < l" "l < unat n" for k l
  proof -
    have "\<forall>index \<in> set [0 ..< unat n]. list_all (\<lambda>p. rule_type (rs ! p) \<noteq> rule_type (rs ! index)) [0 ..< index]"
      using assms(1) unfolding vireo_tlv_rules_are_valid_def list_all_iff [of _ "[0 ..< unat n]"]
      by (auto simp: Let_def split: if_splits)
    then have "list_all (\<lambda>p. rule_type (rs ! p) \<noteq> rule_type (rs ! l)) [0 ..< l]" using that(2) by simp
    then show ?thesis using that(1) by (simp add: list_all_iff)
  qed
  show "map rule_type (take (unat n) rs) ! i \<noteq> map rule_type (take (unat n) rs) ! j"
    using ij neq [of i j] neq [of j i] assms(2) by (auto simp: linorder_neq_iff)
qed

subsection \<open>The loop over fields\<close>

fun accepted :: "vireo_tlv_rule list \<Rightarrow> vireo_tlv_unknown_policy \<Rightarrow> u16 set \<Rightarrow> field list \<Rightarrow> bool" where
  "accepted rs pol S [] = True"
| "accepted rs pol S (f # fs) =
     (case find (\<lambda>r. rule_type r = fst f) rs of
        None \<Rightarrow> pol \<noteq> VIREO_TLV_UNKNOWN_REJECT \<and> accepted rs pol S fs
      | Some r \<Rightarrow> (fst f \<in> S \<longrightarrow> rule_repeatable r) \<and> value_spec r (snd f) \<and>
                  accepted rs pol (insert (fst f) S) fs)"

definition marks :: "vireo_tlv_rule list \<Rightarrow> bytes \<Rightarrow> u16 set \<Rightarrow> bool" where
  "marks rs seen S \<longleftrightarrow> length rs \<le> length seen \<and> (\<forall>i < length rs. seen ! i \<noteq> 0 \<longleftrightarrow> rule_type (rs ! i) \<in> S)"

lemma marks_update:
  assumes "marks rs seen S" and "distinct (map rule_type rs)" and "i < length rs"
  shows "marks rs (seen[i := 1]) (insert (rule_type (rs ! i)) S)"
proof -
  have "rule_type (rs ! j) = rule_type (rs ! i) \<longleftrightarrow> j = i" if "j < length rs" for j
    using that assms(2,3) by (auto simp: distinct_conv_nth)
  then show ?thesis using assms(1,3) by (auto simp: marks_def nth_list_update)
qed

lemma marks_unknown:
  "\<forall>r \<in> set rs. rule_type r \<noteq> t \<Longrightarrow> marks rs seen (insert t S) \<longleftrightarrow> marks rs seen S"
proof -
  assume "\<forall>r \<in> set rs. rule_type r \<noteq> t"
  then have "rule_type (rs ! i) \<noteq> t" if "i < length rs" for i using that by simp
  then show ?thesis by (auto simp: marks_def)
qed

lemma find_rule_unique:
  assumes "distinct (map rule_type rs)" and "i < length rs"
  shows "find (\<lambda>r. rule_type r = rule_type (rs ! i)) rs = Some (rs ! i)"
proof -
  have "rule_type (rs ! j) \<noteq> rule_type (rs ! i)" if "j < i" for j
    using that assms by (auto simp: distinct_conv_nth)
  then show ?thesis using assms(2) by (auto simp: find_Some_iff)
qed

lemma schema_loop_iff:
  assumes n: "unat n \<le> length rs" and dist: "distinct (map rule_type (take (unat n) rs))"
    and pol: "pol \<noteq> VIREO_TLV_UNKNOWN_OTHER"
  shows "reader_ok r \<Longrightarrow> marks (take (unat n) rs) seen S \<Longrightarrow>
    schema_loop (Some rs) n pol r seen VIREO_TLV_ISSUE_NONE = (rc, seen', issue') \<Longrightarrow>
    (rc = VIREO_OK \<and> issue' = VIREO_TLV_ISSUE_NONE \<and>
      (\<exists>fs. reader_rest r = tlv_encode fs \<and> list_all field_fits fs \<and>
        accepted (take (unat n) rs) pol S fs \<and> marks (take (unat n) rs) seen' (S \<union> fst ` set fs))) \<or>
    (rc = VIREO_RESULT_PROTOCOL \<and> \<not> (\<exists>fs. reader_rest r = tlv_encode fs \<and> list_all field_fits fs \<and>
        accepted (take (unat n) rs) pol S fs))"
proof (induction "unat (tr_size r) - unat (tr_offset r)" arbitrary: r seen S rule: less_induct)
  case less
  let ?R = "take (unat n) rs"
  note loop = less.prems(3) [unfolded schema_loop.simps [of "Some rs" n pol r]]
  from less.prems(1) show ?case
  proof (cases rule: reader_next_cases [where oldv = zero_view and oldi = VIREO_TLV_ISSUE_NONE])
    case finish
    then have "rc = VIREO_OK" "seen' = seen" "issue' = VIREO_TLV_ISSUE_NONE" using loop by auto
    with finish less.prems(2) show ?thesis
      by (intro disjI1 conjI exI [of _ "[]"]) simp_all
  next
    case (bad i)
    have "\<not> (\<exists>fs. reader_rest r = tlv_encode fs \<and> list_all field_fits fs)"
    proof
      assume "\<exists>fs. reader_rest r = tlv_encode fs \<and> list_all field_fits fs"
      then obtain fs where "reader_rest r = tlv_encode fs" "list_all field_fits fs" by blast
      then show False using bad(1) by (cases fs) (simp_all add: tlv_step_field)
    qed
    moreover have "rc = VIREO_RESULT_PROTOCOL" using loop bad by auto
    ultimately show ?thesis by blast
  next
    case (field f r' v)
    have dec: "unat (tr_size r') - unat (tr_offset r') < unat (tr_size r) - unat (tr_offset r)"
      using reader_next_measure [OF field(5)] by simp
    have split: "reader_rest r = field_bytes f @ reader_rest r'" "field_fits f" using tlv_step_Some [OF field(1)] by auto
    have fields: "(\<exists>fs. reader_rest r = tlv_encode fs \<and> list_all field_fits fs \<and> P fs) \<longleftrightarrow>
        (\<exists>fs. reader_rest r' = tlv_encode fs \<and> list_all field_fits fs \<and> P (f # fs))" for P
    proof
      assume "\<exists>fs. reader_rest r = tlv_encode fs \<and> list_all field_fits fs \<and> P fs"
      then obtain fs where fs: "reader_rest r = tlv_encode fs" "list_all field_fits fs" "P fs" by blast
      with field(1) obtain g gs where "fs = g # gs" by (cases fs) auto
      with fs field(1) show "\<exists>fs. reader_rest r' = tlv_encode fs \<and> list_all field_fits fs \<and> P (f # fs)"
        by (intro exI [of _ gs]) (auto simp: tlv_step_field)
    next
      assume "\<exists>fs. reader_rest r' = tlv_encode fs \<and> list_all field_fits fs \<and> P (f # fs)"
      then obtain fs where "reader_rest r' = tlv_encode fs" "list_all field_fits fs" "P (f # fs)" by blast
      with split show "\<exists>fs. reader_rest r = tlv_encode fs \<and> list_all field_fits fs \<and> P fs"
        by (intro exI [of _ "f # fs"]) simp
    qed
    have t: "tv_type v = fst f" using field(3) by (simp add: view_of_def)
    from n show ?thesis
    proof (cases rule: find_rule_index_cases [where t = "fst f"])
      case unknown
      have nf: "find (\<lambda>r. rule_type r = fst f) ?R = None" using unknown(2) by (simp add: find_None_iff)
      show ?thesis
      proof (cases "pol = VIREO_TLV_UNKNOWN_REJECT")
        case True
        then have "rc = VIREO_RESULT_PROTOCOL" using loop field unknown t by auto
        then show ?thesis unfolding fields using nf True by simp
      next
        case False
        then have "schema_loop (Some rs) n pol r' seen VIREO_TLV_ISSUE_NONE = (rc, seen', issue')"
          using loop field unknown t by simp
        from less.hyps [OF dec field(2) less.prems(2) this] show ?thesis
          unfolding fields using nf False marks_unknown [OF unknown(2)] by (simp add: Un_insert_right)
      qed
    next
      case (known i)
      have i: "i < length ?R" "?R ! i = rs ! i" using known(1) n by simp_all
      have ff: "find (\<lambda>r. rule_type r = fst f) ?R = Some (rs ! i)"
        using find_rule_unique [OF dist i(1)] i(2) known(4) by simp
      have seen: "seen ! i \<noteq> 0 \<longleftrightarrow> fst f \<in> S" using less.prems(2) i known(4) by (simp add: marks_def)
      have val: "vireo_tlv_value_validate (rs ! i) v = VIREO_TLV_ISSUE_NONE \<longleftrightarrow> value_spec (rs ! i) (snd f)"
        using field(3) by (rule value_validate_iff)
      show ?thesis
      proof (cases "(fst f \<in> S \<longrightarrow> rule_repeatable (rs ! i)) \<and> value_spec (rs ! i) (snd f)")
        case True
        then have loop': "schema_loop (Some rs) n pol r' (seen[i := 1]) VIREO_TLV_ISSUE_NONE = (rc, seen', issue')"
          using loop field known t seen val by (auto simp: Let_def split: if_splits)
        have "marks ?R (seen[i := 1]) (insert (fst f) S)"
          using marks_update [OF less.prems(2) dist i(1)] i(2) known(4) by simp
        from less.hyps [OF dec field(2) this loop'] show ?thesis
          unfolding fields using ff True by simp
      next
        case False
        then have "rc = VIREO_RESULT_PROTOCOL" using loop field known t seen val by (auto simp: Let_def split: if_splits)
        then show ?thesis unfolding fields using ff False by auto
      qed
    qed
  qed
qed

subsection \<open>The accepted bodies\<close>

definition schema_accepts :: "vireo_tlv_rule list \<Rightarrow> vireo_tlv_unknown_policy \<Rightarrow> field list \<Rightarrow> bool" where
  "schema_accepts rs pol fs \<longleftrightarrow>
     (\<forall>f \<in> set fs. (\<exists>r \<in> set rs. rule_type r = fst f \<and> value_spec r (snd f)) \<or>
        (pol = VIREO_TLV_UNKNOWN_SKIP \<and> (\<forall>r \<in> set rs. rule_type r \<noteq> fst f))) \<and>
     (\<forall>r \<in> set rs. rule_required r \<longrightarrow> rule_type r \<in> fst ` set fs) \<and>
     (\<forall>r \<in> set rs. \<not> rule_repeatable r \<longrightarrow> count_list (map fst fs) (rule_type r) \<le> 1)"

definition field_allowed :: "vireo_tlv_rule list \<Rightarrow> vireo_tlv_unknown_policy \<Rightarrow> field \<Rightarrow> bool" where
  "field_allowed rs pol f \<longleftrightarrow>
     (case find (\<lambda>r. rule_type r = fst f) rs of None \<Rightarrow> pol \<noteq> VIREO_TLV_UNKNOWN_REJECT
      | Some r \<Rightarrow> value_spec r (snd f))"

lemma field_allowed_iff:
  assumes "distinct (map rule_type rs)" and "pol \<noteq> VIREO_TLV_UNKNOWN_OTHER"
  shows "field_allowed rs pol f \<longleftrightarrow> (\<exists>r \<in> set rs. rule_type r = fst f \<and> value_spec r (snd f)) \<or>
        (pol = VIREO_TLV_UNKNOWN_SKIP \<and> (\<forall>r \<in> set rs. rule_type r \<noteq> fst f))"
proof (cases "\<exists>r \<in> set rs. rule_type r = fst f")
  case True
  then obtain i where i: "i < length rs" "rule_type (rs ! i) = fst f" by (auto simp: in_set_conv_nth)
  then have "find (\<lambda>r. rule_type r = fst f) rs = Some (rs ! i)" using find_rule_unique [OF assms(1) i(1)] by simp
  moreover have "r = rs ! i" if "r \<in> set rs" "rule_type r = fst f" for r
    using that i assms(1) by (metis distinct_map inj_onD nth_mem)
  ultimately show ?thesis using i by (auto simp: field_allowed_def)
next
  case False
  then have "find (\<lambda>r. rule_type r = fst f) rs = None" by (auto simp: find_None_iff)
  then show ?thesis using False assms(2) by (cases pol) (auto simp: field_allowed_def)
qed

lemma accepted_iff:
  assumes "distinct (map rule_type rs)"
  shows "accepted rs pol S fs \<longleftrightarrow> list_all (field_allowed rs pol) fs \<and>
    (\<forall>r \<in> set rs. \<not> rule_repeatable r \<longrightarrow>
       count_list (map fst fs) (rule_type r) + (if rule_type r \<in> S then 1 else 0) \<le> 1)"
proof (induction fs arbitrary: S)
  case (Cons f fs)
  show ?case
  proof (cases "find (\<lambda>r. rule_type r = fst f) rs")
    case None
    then have "\<forall>r \<in> set rs. fst f \<noteq> rule_type r" by (auto simp: find_None_iff)
    then show ?thesis using None Cons.IH [of S] by (auto simp: field_allowed_def)
  next
    case (Some q)
    then have q: "q \<in> set rs" "rule_type q = fst f" by (auto simp: find_Some_iff)
    have uniq: "r = q" if "r \<in> set rs" "rule_type r = fst f" for r
      using that q assms by (metis distinct_map inj_onD)
    let ?A = "\<lambda>r. \<not> rule_repeatable r \<longrightarrow>
      count_list (map fst (f # fs)) (rule_type r) + (if rule_type r \<in> S then 1 else 0) \<le> 1"
    let ?B = "\<lambda>r. \<not> rule_repeatable r \<longrightarrow>
      count_list (map fst fs) (rule_type r) + (if rule_type r \<in> insert (fst f) S then 1 else 0) \<le> 1"
    have "?A q \<longleftrightarrow> (fst f \<in> S \<longrightarrow> rule_repeatable q) \<and> ?B q" using q(2) by auto
    moreover have "?A r \<longleftrightarrow> ?B r" if "r \<in> set rs" "r \<noteq> q" for r
      using that uniq by (auto split: if_splits)
    ultimately have "(\<forall>r \<in> set rs. ?A r) \<longleftrightarrow> (fst f \<in> S \<longrightarrow> rule_repeatable q) \<and> (\<forall>r \<in> set rs. ?B r)"
      using q(1) by blast
    then show ?thesis using Some Cons.IH [of "insert (fst f) S"] by (auto simp: field_allowed_def)
  qed
qed simp

lemma schema_validate_iff:
  assumes "unat sz \<le> length data" and "unat n \<le> length rs" and "unat n \<le> length seen" and "n \<le> cap"
    and "pol \<noteq> VIREO_TLV_UNKNOWN_OTHER" and "vireo_tlv_rules_are_valid (Some rs) n"
  shows "fst (vireo_tlv_schema_validate (Some data) sz (Some rs) n pol (Some seen) cap (Some issue)) = VIREO_OK \<longleftrightarrow>
    (\<exists>fs. take (unat sz) data = tlv_encode fs \<and> list_all field_fits fs \<and> schema_accepts (take (unat n) rs) pol fs)"
    and "fst (vireo_tlv_schema_validate (Some data) sz (Some rs) n pol (Some seen) cap (Some issue))
      \<in> {VIREO_OK, VIREO_RESULT_PROTOCOL}"
proof -
  let ?R = "take (unat n) rs"
  have dist: "distinct (map rule_type ?R)" using rules_valid_distinct assms(2,6) by blast
  let ?m = "if n \<noteq> 0 then mem_write 0 (replicate (unat n) 0) seen else seen"
  have marks: "marks ?R ?m {}"
    using assms(2,3) by (auto simp: marks_def mem_write_def nth_append unat_eq_zero)
  obtain r where r: "vireo_tlv_reader_init (Some \<lparr>tr_data = None, tr_size = 0, tr_offset = 0\<rparr>) (Some data) sz = (VIREO_OK, Some r)"
    "reader_ok r" "reader_rest r = take (unat sz) data"
    using reader_init_OK [OF assms(1)] by blast
  obtain rc flags iss where loop: "schema_loop (Some rs) n pol r ?m VIREO_TLV_ISSUE_NONE = (rc, flags, iss)"
    by (metis prod_cases3)
  have pol: "\<not> (pol \<noteq> VIREO_TLV_UNKNOWN_REJECT \<and> pol \<noteq> VIREO_TLV_UNKNOWN_SKIP)" using assms(5) by (cases pol) auto
  let ?missing = "list_ex (\<lambda>i. rule_required (rs ! i) \<and> flags ! i = 0) [0 ..< unat n]"
  have res: "fst (vireo_tlv_schema_validate (Some data) sz (Some rs) n pol (Some seen) cap (Some issue)) = VIREO_OK \<longleftrightarrow>
      rc = VIREO_OK \<and> \<not> ?missing"
    using loop r(1) pol assms(4,6)
    by (cases "n = 0"; cases pol) (simp_all add: vireo_tlv_schema_validate_def Let_def not_less)
  have acc: "schema_accepts ?R pol fs \<longleftrightarrow> accepted ?R pol {} fs \<and>
      (\<forall>r \<in> set ?R. rule_required r \<longrightarrow> rule_type r \<in> fst ` set fs)" for fs
    using field_allowed_iff [OF dist assms(5)]
    by (auto simp: schema_accepts_def accepted_iff [OF dist] list_all_iff)
  note outcome = schema_loop_iff [OF assms(2) dist assms(5) r(2) marks loop]
  then have "rc \<in> {VIREO_OK, VIREO_RESULT_PROTOCOL}" by blast
  then show "fst (vireo_tlv_schema_validate (Some data) sz (Some rs) n pol (Some seen) cap (Some issue))
      \<in> {VIREO_OK, VIREO_RESULT_PROTOCOL}"
    using loop r(1) pol assms(4,6)
    by (cases "n = 0"; cases pol) (auto simp: vireo_tlv_schema_validate_def Let_def not_less)
  from outcome
  show "fst (vireo_tlv_schema_validate (Some data) sz (Some rs) n pol (Some seen) cap (Some issue)) = VIREO_OK \<longleftrightarrow>
    (\<exists>fs. take (unat sz) data = tlv_encode fs \<and> list_all field_fits fs \<and> schema_accepts ?R pol fs)"
  proof
    assume "rc = VIREO_RESULT_PROTOCOL \<and> \<not> (\<exists>fs. reader_rest r = tlv_encode fs \<and> list_all field_fits fs \<and> accepted ?R pol {} fs)"
    then show ?thesis using res acc r(3) by auto
  next
    assume "rc = VIREO_OK \<and> iss = VIREO_TLV_ISSUE_NONE \<and> (\<exists>fs. reader_rest r = tlv_encode fs \<and>
      list_all field_fits fs \<and> accepted ?R pol {} fs \<and> marks ?R flags ({} \<union> fst ` set fs))"
    then obtain fs where fs: "rc = VIREO_OK" "reader_rest r = tlv_encode fs" "list_all field_fits fs"
      "accepted ?R pol {} fs" "marks ?R flags (fst ` set fs)" by auto
    have "set ?R = (!) rs ` {0 ..< unat n}" using assms(2) by (simp add: nth_image)
    then have "?missing \<longleftrightarrow> (\<exists>r \<in> set ?R. rule_required r \<and> rule_type r \<notin> fst ` set fs)"
      using fs(5) assms(2) by (auto simp: marks_def list_ex_iff)
    then have "?missing \<longleftrightarrow> \<not> schema_accepts ?R pol fs" using acc fs(4) by auto
    moreover have "gs = fs" if "reader_rest r = tlv_encode gs" "list_all field_fits gs" for gs
      using that fs tlv_encode_inject by metis
    ultimately have "(\<exists>gs. reader_rest r = tlv_encode gs \<and> list_all field_fits gs \<and> schema_accepts ?R pol gs) \<longleftrightarrow>
        \<not> ?missing"
      using fs(2,3) by blast
    then show ?thesis using res fs(1) unfolding r(3) by simp
  qed
qed

text \<open>
  C24. Schema validation is exact: with a valid rule table and enough room for its marks, it returns
  OK precisely for the bodies that consist of whole fields, where every field obeys the rule of its
  type (or has no rule and unknown fields are skipped), every required type occurs and no type
  occurs twice unless its rule allows it.
\<close>

theorem schema_validate_exact:
  assumes "unat sz \<le> length data" and "unat n \<le> length rs" and "unat n \<le> length seen" and "n \<le> cap"
    and "pol \<noteq> VIREO_TLV_UNKNOWN_OTHER" and "vireo_tlv_rules_are_valid (Some rs) n"
  shows "fst (vireo_tlv_schema_validate (Some data) sz (Some rs) n pol (Some seen) cap (Some issue)) = VIREO_OK \<longleftrightarrow>
    (\<exists>fs. take (unat sz) data = tlv_encode fs \<and> list_all field_fits fs \<and> schema_accepts (take (unat n) rs) pol fs)"
  using assms by (rule schema_validate_iff(1))

theorem schema_validate_exact_witness:
  "fst (vireo_tlv_schema_validate (Some [0, 1, 0, 2, 7, 8]) 6
     (Some [\<lparr>rule_type = 1, rule_min_length = 2, rule_max_length = 2, rule_value_kind = VIREO_TLV_VALUE_U16,
             rule_required = True, rule_repeatable = False\<rparr>]) 1 VIREO_TLV_UNKNOWN_REJECT
     (Some [255]) 1 (Some VIREO_TLV_ISSUE_NONE)) = VIREO_OK"
proof (subst schema_validate_exact)
  have "tlv_encode [(1, [7, 8])] = [0, 1, 0, 2, 7, 8]" by (simp add: field_bytes_def be16_def)
  then show "\<exists>fs. take (unat (6 :: size_t)) [0, 1, 0, 2, 7, 8] = tlv_encode fs \<and> list_all field_fits fs \<and>
      schema_accepts (take (unat (1 :: size_t)) [\<lparr>rule_type = 1, rule_min_length = 2, rule_max_length = 2,
        rule_value_kind = VIREO_TLV_VALUE_U16, rule_required = True, rule_repeatable = False\<rparr>])
        VIREO_TLV_UNKNOWN_REJECT fs"
    by (intro exI [of _ "[(1, [7, 8])]"]) (simp add: field_fits_def schema_accepts_def value_spec_def)
qed (simp_all add: vireo_tlv_rules_are_valid_def)

end
