(* ===== verification/Protocol_Registry.thy ===== *)
theory Protocol_Registry
  imports Base_Checked
begin

unbundle bit_operations_syntax

text \<open>
  The v1 protocol registry: the constants of \<^verbatim>\<open>include/vireo/protocol/protocol.h\<close>, the header
  structure, and the pure queries of \<^verbatim>\<open>src/protocol/protocol.c\<close>. The two \<open>switch\<close> statements that
  return names are tables (one entry per case label); the membership switches are lists of labels
  of their own, as in the source, so that their agreement is something to prove.
\<close>

subsection \<open>Constants\<close>

abbreviation (input) VIREO_PROTOCOL_MAGIC_VALUE :: u32 where
  "VIREO_PROTOCOL_MAGIC_VALUE \<equiv> 1447645765"

abbreviation (input) VIREO_PROTOCOL_VERSION :: u8 where
  "VIREO_PROTOCOL_VERSION \<equiv> 1"

abbreviation (input) VIREO_PROTOCOL_HEADER_SIZE :: u8 where
  "VIREO_PROTOCOL_HEADER_SIZE \<equiv> 32"

abbreviation (input) VIREO_PROTOCOL_MAX_BODY_SIZE :: u32 where
  "VIREO_PROTOCOL_MAX_BODY_SIZE \<equiv> 16777216"

abbreviation (input) VIREO_PROTOCOL_SEQUENCE_NONE :: u32 where
  "VIREO_PROTOCOL_SEQUENCE_NONE \<equiv> 0"

abbreviation (input) VIREO_PROTOCOL_REQUEST_STATUS :: u16 where
  "VIREO_PROTOCOL_REQUEST_STATUS \<equiv> 0"

abbreviation (input) VIREO_PROTOCOL_NO_SESSION_HANDLE :: u32 where
  "VIREO_PROTOCOL_NO_SESSION_HANDLE \<equiv> 0"

abbreviation (input) VIREO_PROTOCOL_NO_TASK_HANDLE :: u32 where
  "VIREO_PROTOCOL_NO_TASK_HANDLE \<equiv> 0"

abbreviation (input) VIREO_PROTOCOL_MAGIC_OFFSET :: nat where
  "VIREO_PROTOCOL_MAGIC_OFFSET \<equiv> 0"

abbreviation (input) VIREO_PROTOCOL_VERSION_OFFSET :: nat where
  "VIREO_PROTOCOL_VERSION_OFFSET \<equiv> 4"

abbreviation (input) VIREO_PROTOCOL_HEADER_LENGTH_OFFSET :: nat where
  "VIREO_PROTOCOL_HEADER_LENGTH_OFFSET \<equiv> 5"

abbreviation (input) VIREO_PROTOCOL_COMMAND_OFFSET :: nat where
  "VIREO_PROTOCOL_COMMAND_OFFSET \<equiv> 6"

abbreviation (input) VIREO_PROTOCOL_FLAGS_OFFSET :: nat where
  "VIREO_PROTOCOL_FLAGS_OFFSET \<equiv> 8"

abbreviation (input) VIREO_PROTOCOL_STATUS_OFFSET :: nat where
  "VIREO_PROTOCOL_STATUS_OFFSET \<equiv> 10"

abbreviation (input) VIREO_PROTOCOL_BODY_LENGTH_OFFSET :: nat where
  "VIREO_PROTOCOL_BODY_LENGTH_OFFSET \<equiv> 12"

abbreviation (input) VIREO_PROTOCOL_SEQUENCE_OFFSET :: nat where
  "VIREO_PROTOCOL_SEQUENCE_OFFSET \<equiv> 16"

abbreviation (input) VIREO_PROTOCOL_SESSION_HANDLE_OFFSET :: nat where
  "VIREO_PROTOCOL_SESSION_HANDLE_OFFSET \<equiv> 20"

abbreviation (input) VIREO_PROTOCOL_TASK_HANDLE_OFFSET :: nat where
  "VIREO_PROTOCOL_TASK_HANDLE_OFFSET \<equiv> 24"

abbreviation (input) VIREO_PROTOCOL_CRC32C_OFFSET :: nat where
  "VIREO_PROTOCOL_CRC32C_OFFSET \<equiv> 28"

abbreviation (input) VIREO_PROTOCOL_FLAG_RESPONSE :: u16 where
  "VIREO_PROTOCOL_FLAG_RESPONSE \<equiv> 1"

abbreviation (input) VIREO_PROTOCOL_FLAG_LONG_COMMAND :: u16 where
  "VIREO_PROTOCOL_FLAG_LONG_COMMAND \<equiv> 2"

abbreviation (input) VIREO_PROTOCOL_FLAG_CHUNK :: u16 where
  "VIREO_PROTOCOL_FLAG_CHUNK \<equiv> 4"

abbreviation (input) VIREO_PROTOCOL_FLAG_END :: u16 where
  "VIREO_PROTOCOL_FLAG_END \<equiv> 8"

abbreviation (input) VIREO_PROTOCOL_FLAG_NEED_ACK :: u16 where
  "VIREO_PROTOCOL_FLAG_NEED_ACK \<equiv> 16"

abbreviation (input) VIREO_PROTOCOL_FLAG_MORE :: u16 where
  "VIREO_PROTOCOL_FLAG_MORE \<equiv> 32"

abbreviation (input) VIREO_PROTOCOL_FLAG_KNOWN_MASK :: u16 where
  "VIREO_PROTOCOL_FLAG_KNOWN_MASK \<equiv> 63"

abbreviation (input) VIREO_COMMAND_PING :: u16 where
  "VIREO_COMMAND_PING \<equiv> 1"

abbreviation (input) VIREO_COMMAND_SERVER_INFO :: u16 where
  "VIREO_COMMAND_SERVER_INFO \<equiv> 2"

abbreviation (input) VIREO_COMMAND_REGISTER :: u16 where
  "VIREO_COMMAND_REGISTER \<equiv> 256"

abbreviation (input) VIREO_COMMAND_LOGIN :: u16 where
  "VIREO_COMMAND_LOGIN \<equiv> 257"

abbreviation (input) VIREO_COMMAND_LOGOUT :: u16 where
  "VIREO_COMMAND_LOGOUT \<equiv> 258"

abbreviation (input) VIREO_COMMAND_SESSION_RESUME :: u16 where
  "VIREO_COMMAND_SESSION_RESUME \<equiv> 259"

abbreviation (input) VIREO_COMMAND_UPLOAD_INIT :: u16 where
  "VIREO_COMMAND_UPLOAD_INIT \<equiv> 513"

abbreviation (input) VIREO_COMMAND_UPLOAD_CHUNK :: u16 where
  "VIREO_COMMAND_UPLOAD_CHUNK \<equiv> 514"

abbreviation (input) VIREO_COMMAND_UPLOAD_COMMIT :: u16 where
  "VIREO_COMMAND_UPLOAD_COMMIT \<equiv> 515"

abbreviation (input) VIREO_COMMAND_UPLOAD_ABORT :: u16 where
  "VIREO_COMMAND_UPLOAD_ABORT \<equiv> 516"

abbreviation (input) VIREO_COMMAND_UPLOAD_STATUS :: u16 where
  "VIREO_COMMAND_UPLOAD_STATUS \<equiv> 517"

abbreviation (input) VIREO_COMMAND_DOWNLOAD_INIT :: u16 where
  "VIREO_COMMAND_DOWNLOAD_INIT \<equiv> 769"

abbreviation (input) VIREO_COMMAND_DOWNLOAD_CHUNK :: u16 where
  "VIREO_COMMAND_DOWNLOAD_CHUNK \<equiv> 770"

abbreviation (input) VIREO_COMMAND_DOWNLOAD_ACK :: u16 where
  "VIREO_COMMAND_DOWNLOAD_ACK \<equiv> 771"

abbreviation (input) VIREO_COMMAND_DOWNLOAD_FINISH :: u16 where
  "VIREO_COMMAND_DOWNLOAD_FINISH \<equiv> 772"

abbreviation (input) VIREO_COMMAND_DOWNLOAD_ABORT :: u16 where
  "VIREO_COMMAND_DOWNLOAD_ABORT \<equiv> 773"

abbreviation (input) VIREO_COMMAND_DOWNLOAD_SOURCES :: u16 where
  "VIREO_COMMAND_DOWNLOAD_SOURCES \<equiv> 774"

abbreviation (input) VIREO_COMMAND_NODE_LIST :: u16 where
  "VIREO_COMMAND_NODE_LIST \<equiv> 1025"

abbreviation (input) VIREO_COMMAND_NODE_STAT :: u16 where
  "VIREO_COMMAND_NODE_STAT \<equiv> 1026"

abbreviation (input) VIREO_COMMAND_NODE_MKDIR :: u16 where
  "VIREO_COMMAND_NODE_MKDIR \<equiv> 1027"

abbreviation (input) VIREO_COMMAND_NODE_REMOVE :: u16 where
  "VIREO_COMMAND_NODE_REMOVE \<equiv> 1028"

abbreviation (input) VIREO_COMMAND_NODE_MOVE :: u16 where
  "VIREO_COMMAND_NODE_MOVE \<equiv> 1029"

abbreviation (input) VIREO_COMMAND_NODE_ROOT :: u16 where
  "VIREO_COMMAND_NODE_ROOT \<equiv> 1030"

abbreviation (input) VIREO_COMMAND_TASK_LIST :: u16 where
  "VIREO_COMMAND_TASK_LIST \<equiv> 1281"

abbreviation (input) VIREO_COMMAND_TASK_STATUS :: u16 where
  "VIREO_COMMAND_TASK_STATUS \<equiv> 1282"

abbreviation (input) VIREO_COMMAND_TASK_CANCEL :: u16 where
  "VIREO_COMMAND_TASK_CANCEL \<equiv> 1283"

abbreviation (input) VIREO_COMMAND_STORAGE_REGISTER :: u16 where
  "VIREO_COMMAND_STORAGE_REGISTER \<equiv> 1537"

abbreviation (input) VIREO_COMMAND_STORAGE_HEARTBEAT :: u16 where
  "VIREO_COMMAND_STORAGE_HEARTBEAT \<equiv> 1538"

abbreviation (input) VIREO_COMMAND_STORAGE_PUT_RESERVED_FIRST :: u16 where
  "VIREO_COMMAND_STORAGE_PUT_RESERVED_FIRST \<equiv> 1552"

abbreviation (input) VIREO_COMMAND_STORAGE_PUT_RESERVED_LAST :: u16 where
  "VIREO_COMMAND_STORAGE_PUT_RESERVED_LAST \<equiv> 1556"

abbreviation (input) VIREO_COMMAND_STORAGE_GET_CHUNK :: u16 where
  "VIREO_COMMAND_STORAGE_GET_CHUNK \<equiv> 1568"

abbreviation (input) VIREO_COMMAND_STORAGE_DELETE_CHUNK :: u16 where
  "VIREO_COMMAND_STORAGE_DELETE_CHUNK \<equiv> 1584"

abbreviation (input) VIREO_STATUS_OK :: u16 where
  "VIREO_STATUS_OK \<equiv> 0"

abbreviation (input) VIREO_STATUS_ACCEPTED :: u16 where
  "VIREO_STATUS_ACCEPTED \<equiv> 1"

abbreviation (input) VIREO_STATUS_BAD_REQUEST :: u16 where
  "VIREO_STATUS_BAD_REQUEST \<equiv> 1001"

abbreviation (input) VIREO_STATUS_UNSUPPORTED :: u16 where
  "VIREO_STATUS_UNSUPPORTED \<equiv> 1002"

abbreviation (input) VIREO_STATUS_VERSION_MISMATCH :: u16 where
  "VIREO_STATUS_VERSION_MISMATCH \<equiv> 1003"

abbreviation (input) VIREO_STATUS_CRC_MISMATCH :: u16 where
  "VIREO_STATUS_CRC_MISMATCH \<equiv> 1004"

abbreviation (input) VIREO_STATUS_BODY_TOO_LARGE :: u16 where
  "VIREO_STATUS_BODY_TOO_LARGE \<equiv> 1005"

abbreviation (input) VIREO_STATUS_INVALID_FLAGS :: u16 where
  "VIREO_STATUS_INVALID_FLAGS \<equiv> 1006"

abbreviation (input) VIREO_STATUS_DUPLICATE_REQUEST :: u16 where
  "VIREO_STATUS_DUPLICATE_REQUEST \<equiv> 1007"

abbreviation (input) VIREO_STATUS_RATE_LIMITED :: u16 where
  "VIREO_STATUS_RATE_LIMITED \<equiv> 1008"

abbreviation (input) VIREO_STATUS_UNAUTHORIZED :: u16 where
  "VIREO_STATUS_UNAUTHORIZED \<equiv> 1101"

abbreviation (input) VIREO_STATUS_FORBIDDEN :: u16 where
  "VIREO_STATUS_FORBIDDEN \<equiv> 1102"

abbreviation (input) VIREO_STATUS_INVALID_TOKEN :: u16 where
  "VIREO_STATUS_INVALID_TOKEN \<equiv> 1103"

abbreviation (input) VIREO_STATUS_AUTHENTICATION_FAILED :: u16 where
  "VIREO_STATUS_AUTHENTICATION_FAILED \<equiv> 1104"

abbreviation (input) VIREO_STATUS_SESSION_EXPIRED :: u16 where
  "VIREO_STATUS_SESSION_EXPIRED \<equiv> 1105"

abbreviation (input) VIREO_STATUS_USER_EXISTS :: u16 where
  "VIREO_STATUS_USER_EXISTS \<equiv> 1106"

abbreviation (input) VIREO_STATUS_USER_DISABLED :: u16 where
  "VIREO_STATUS_USER_DISABLED \<equiv> 1107"

abbreviation (input) VIREO_STATUS_WEAK_CREDENTIAL :: u16 where
  "VIREO_STATUS_WEAK_CREDENTIAL \<equiv> 1108"

abbreviation (input) VIREO_STATUS_NOT_FOUND :: u16 where
  "VIREO_STATUS_NOT_FOUND \<equiv> 1201"

abbreviation (input) VIREO_STATUS_ALREADY_EXISTS :: u16 where
  "VIREO_STATUS_ALREADY_EXISTS \<equiv> 1202"

abbreviation (input) VIREO_STATUS_INVALID_PATH :: u16 where
  "VIREO_STATUS_INVALID_PATH \<equiv> 1203"

abbreviation (input) VIREO_STATUS_NOT_DIRECTORY :: u16 where
  "VIREO_STATUS_NOT_DIRECTORY \<equiv> 1204"

abbreviation (input) VIREO_STATUS_DIRECTORY_NOT_EMPTY :: u16 where
  "VIREO_STATUS_DIRECTORY_NOT_EMPTY \<equiv> 1205"

abbreviation (input) VIREO_STATUS_CONFLICT :: u16 where
  "VIREO_STATUS_CONFLICT \<equiv> 1206"

abbreviation (input) VIREO_STATUS_UPLOAD_REJECTED :: u16 where
  "VIREO_STATUS_UPLOAD_REJECTED \<equiv> 1301"

abbreviation (input) VIREO_STATUS_TASK_NOT_FOUND :: u16 where
  "VIREO_STATUS_TASK_NOT_FOUND \<equiv> 1302"

abbreviation (input) VIREO_STATUS_CHUNK_MISMATCH :: u16 where
  "VIREO_STATUS_CHUNK_MISMATCH \<equiv> 1303"

abbreviation (input) VIREO_STATUS_HASH_MISMATCH :: u16 where
  "VIREO_STATUS_HASH_MISMATCH \<equiv> 1304"

abbreviation (input) VIREO_STATUS_INVALID_TASK_STATE :: u16 where
  "VIREO_STATUS_INVALID_TASK_STATE \<equiv> 1305"

abbreviation (input) VIREO_STATUS_TASK_EXPIRED :: u16 where
  "VIREO_STATUS_TASK_EXPIRED \<equiv> 1306"

abbreviation (input) VIREO_STATUS_RANGE_INVALID :: u16 where
  "VIREO_STATUS_RANGE_INVALID \<equiv> 1307"

abbreviation (input) VIREO_STATUS_CHUNK_WINDOW_EXCEEDED :: u16 where
  "VIREO_STATUS_CHUNK_WINDOW_EXCEEDED \<equiv> 1308"

abbreviation (input) VIREO_STATUS_TASK_CANCELLED :: u16 where
  "VIREO_STATUS_TASK_CANCELLED \<equiv> 1309"

abbreviation (input) VIREO_STATUS_SOURCE_UNAVAILABLE :: u16 where
  "VIREO_STATUS_SOURCE_UNAVAILABLE \<equiv> 1310"

abbreviation (input) VIREO_STATUS_RESUME :: u16 where
  "VIREO_STATUS_RESUME \<equiv> 1390"

abbreviation (input) VIREO_STATUS_FAST_UPLOAD :: u16 where
  "VIREO_STATUS_FAST_UPLOAD \<equiv> 1391"

abbreviation (input) VIREO_STATUS_PARTIAL :: u16 where
  "VIREO_STATUS_PARTIAL \<equiv> 1392"

abbreviation (input) VIREO_STATUS_CHUNK_ALREADY_RECEIVED :: u16 where
  "VIREO_STATUS_CHUNK_ALREADY_RECEIVED \<equiv> 1393"

abbreviation (input) VIREO_STATUS_BUSY :: u16 where
  "VIREO_STATUS_BUSY \<equiv> 1901"

abbreviation (input) VIREO_STATUS_INTERNAL_ERROR :: u16 where
  "VIREO_STATUS_INTERNAL_ERROR \<equiv> 1902"

abbreviation (input) VIREO_STATUS_STORAGE_NO_SPACE :: u16 where
  "VIREO_STATUS_STORAGE_NO_SPACE \<equiv> 1903"

abbreviation (input) VIREO_STATUS_DB_ERROR :: u16 where
  "VIREO_STATUS_DB_ERROR \<equiv> 1904"

abbreviation (input) VIREO_STATUS_IO_ERROR :: u16 where
  "VIREO_STATUS_IO_ERROR \<equiv> 1905"

abbreviation (input) VIREO_STATUS_TIMEOUT :: u16 where
  "VIREO_STATUS_TIMEOUT \<equiv> 1906"

abbreviation (input) VIREO_STATUS_OVERLOADED :: u16 where
  "VIREO_STATUS_OVERLOADED \<equiv> 1907"

abbreviation (input) VIREO_STATUS_UNAVAILABLE :: u16 where
  "VIREO_STATUS_UNAVAILABLE \<equiv> 1908"

subsection \<open>The header\<close>

record vireo_protocol_header =
  h_command :: u16
  h_flags :: u16
  h_status :: u16
  h_body_len :: u32
  h_sequence :: u32
  h_session_handle :: u32
  h_task_handle :: u32
  h_crc32c :: u32

subsection \<open>Queries\<close>

definition vireo_protocol_flags_have_unknown_bits :: "u16 \<Rightarrow> bool" where
  "vireo_protocol_flags_have_unknown_bits flags \<longleftrightarrow>
     flags AND (NOT VIREO_PROTOCOL_FLAG_KNOWN_MASK) \<noteq> 0"

definition vireo_command_is_known :: "u16 \<Rightarrow> bool" where
  "vireo_command_is_known command \<longleftrightarrow> command \<in> set
    [VIREO_COMMAND_PING,
     VIREO_COMMAND_SERVER_INFO,
     VIREO_COMMAND_REGISTER,
     VIREO_COMMAND_LOGIN,
     VIREO_COMMAND_LOGOUT,
     VIREO_COMMAND_SESSION_RESUME,
     VIREO_COMMAND_UPLOAD_INIT,
     VIREO_COMMAND_UPLOAD_CHUNK,
     VIREO_COMMAND_UPLOAD_COMMIT,
     VIREO_COMMAND_UPLOAD_ABORT,
     VIREO_COMMAND_UPLOAD_STATUS,
     VIREO_COMMAND_DOWNLOAD_INIT,
     VIREO_COMMAND_DOWNLOAD_CHUNK,
     VIREO_COMMAND_DOWNLOAD_ACK,
     VIREO_COMMAND_DOWNLOAD_FINISH,
     VIREO_COMMAND_DOWNLOAD_ABORT,
     VIREO_COMMAND_DOWNLOAD_SOURCES,
     VIREO_COMMAND_NODE_LIST,
     VIREO_COMMAND_NODE_STAT,
     VIREO_COMMAND_NODE_MKDIR,
     VIREO_COMMAND_NODE_REMOVE,
     VIREO_COMMAND_NODE_MOVE,
     VIREO_COMMAND_NODE_ROOT,
     VIREO_COMMAND_TASK_LIST,
     VIREO_COMMAND_TASK_STATUS,
     VIREO_COMMAND_TASK_CANCEL,
     VIREO_COMMAND_STORAGE_REGISTER,
     VIREO_COMMAND_STORAGE_HEARTBEAT,
     VIREO_COMMAND_STORAGE_GET_CHUNK,
     VIREO_COMMAND_STORAGE_DELETE_CHUNK]"

definition vireo_command_is_reserved :: "u16 \<Rightarrow> bool" where
  "vireo_command_is_reserved command \<longleftrightarrow>
     command \<ge> VIREO_COMMAND_STORAGE_PUT_RESERVED_FIRST \<and> command \<le> VIREO_COMMAND_STORAGE_PUT_RESERVED_LAST"

definition command_names :: "(u16 \<times> string) list" where
  "command_names =
    [(VIREO_COMMAND_PING, ''ping''),
     (VIREO_COMMAND_SERVER_INFO, ''server_info''),
     (VIREO_COMMAND_REGISTER, ''register''),
     (VIREO_COMMAND_LOGIN, ''login''),
     (VIREO_COMMAND_LOGOUT, ''logout''),
     (VIREO_COMMAND_SESSION_RESUME, ''session_resume''),
     (VIREO_COMMAND_UPLOAD_INIT, ''upload_init''),
     (VIREO_COMMAND_UPLOAD_CHUNK, ''upload_chunk''),
     (VIREO_COMMAND_UPLOAD_COMMIT, ''upload_commit''),
     (VIREO_COMMAND_UPLOAD_ABORT, ''upload_abort''),
     (VIREO_COMMAND_UPLOAD_STATUS, ''upload_status''),
     (VIREO_COMMAND_DOWNLOAD_INIT, ''download_init''),
     (VIREO_COMMAND_DOWNLOAD_CHUNK, ''download_chunk''),
     (VIREO_COMMAND_DOWNLOAD_ACK, ''download_ack''),
     (VIREO_COMMAND_DOWNLOAD_FINISH, ''download_finish''),
     (VIREO_COMMAND_DOWNLOAD_ABORT, ''download_abort''),
     (VIREO_COMMAND_DOWNLOAD_SOURCES, ''download_sources''),
     (VIREO_COMMAND_NODE_LIST, ''node_list''),
     (VIREO_COMMAND_NODE_STAT, ''node_stat''),
     (VIREO_COMMAND_NODE_MKDIR, ''node_mkdir''),
     (VIREO_COMMAND_NODE_REMOVE, ''node_remove''),
     (VIREO_COMMAND_NODE_MOVE, ''node_move''),
     (VIREO_COMMAND_NODE_ROOT, ''node_root''),
     (VIREO_COMMAND_TASK_LIST, ''task_list''),
     (VIREO_COMMAND_TASK_STATUS, ''task_status''),
     (VIREO_COMMAND_TASK_CANCEL, ''task_cancel''),
     (VIREO_COMMAND_STORAGE_REGISTER, ''storage_register''),
     (VIREO_COMMAND_STORAGE_HEARTBEAT, ''storage_heartbeat''),
     (VIREO_COMMAND_STORAGE_GET_CHUNK, ''storage_get_chunk''),
     (VIREO_COMMAND_STORAGE_DELETE_CHUNK, ''storage_delete_chunk'')]"

definition vireo_command_name :: "u16 \<Rightarrow> string" where
  "vireo_command_name command =
     (case map_of command_names command of
        Some name \<Rightarrow> name
      | None \<Rightarrow> if vireo_command_is_reserved command then ''reserved_storage_put'' else ''unknown'')"

definition vireo_status_is_known :: "u16 \<Rightarrow> bool" where
  "vireo_status_is_known status \<longleftrightarrow> status \<in> set
    [VIREO_STATUS_OK,
     VIREO_STATUS_ACCEPTED,
     VIREO_STATUS_BAD_REQUEST,
     VIREO_STATUS_UNSUPPORTED,
     VIREO_STATUS_VERSION_MISMATCH,
     VIREO_STATUS_CRC_MISMATCH,
     VIREO_STATUS_BODY_TOO_LARGE,
     VIREO_STATUS_INVALID_FLAGS,
     VIREO_STATUS_DUPLICATE_REQUEST,
     VIREO_STATUS_RATE_LIMITED,
     VIREO_STATUS_UNAUTHORIZED,
     VIREO_STATUS_FORBIDDEN,
     VIREO_STATUS_INVALID_TOKEN,
     VIREO_STATUS_AUTHENTICATION_FAILED,
     VIREO_STATUS_SESSION_EXPIRED,
     VIREO_STATUS_USER_EXISTS,
     VIREO_STATUS_USER_DISABLED,
     VIREO_STATUS_WEAK_CREDENTIAL,
     VIREO_STATUS_NOT_FOUND,
     VIREO_STATUS_ALREADY_EXISTS,
     VIREO_STATUS_INVALID_PATH,
     VIREO_STATUS_NOT_DIRECTORY,
     VIREO_STATUS_DIRECTORY_NOT_EMPTY,
     VIREO_STATUS_CONFLICT,
     VIREO_STATUS_UPLOAD_REJECTED,
     VIREO_STATUS_TASK_NOT_FOUND,
     VIREO_STATUS_CHUNK_MISMATCH,
     VIREO_STATUS_HASH_MISMATCH,
     VIREO_STATUS_INVALID_TASK_STATE,
     VIREO_STATUS_TASK_EXPIRED,
     VIREO_STATUS_RANGE_INVALID,
     VIREO_STATUS_CHUNK_WINDOW_EXCEEDED,
     VIREO_STATUS_TASK_CANCELLED,
     VIREO_STATUS_SOURCE_UNAVAILABLE,
     VIREO_STATUS_RESUME,
     VIREO_STATUS_FAST_UPLOAD,
     VIREO_STATUS_PARTIAL,
     VIREO_STATUS_CHUNK_ALREADY_RECEIVED,
     VIREO_STATUS_BUSY,
     VIREO_STATUS_INTERNAL_ERROR,
     VIREO_STATUS_STORAGE_NO_SPACE,
     VIREO_STATUS_DB_ERROR,
     VIREO_STATUS_IO_ERROR,
     VIREO_STATUS_TIMEOUT,
     VIREO_STATUS_OVERLOADED,
     VIREO_STATUS_UNAVAILABLE]"

definition status_names :: "(u16 \<times> string) list" where
  "status_names =
    [(VIREO_STATUS_OK, ''ok''),
     (VIREO_STATUS_ACCEPTED, ''accepted''),
     (VIREO_STATUS_BAD_REQUEST, ''bad_request''),
     (VIREO_STATUS_UNSUPPORTED, ''unsupported''),
     (VIREO_STATUS_VERSION_MISMATCH, ''version_mismatch''),
     (VIREO_STATUS_CRC_MISMATCH, ''crc_mismatch''),
     (VIREO_STATUS_BODY_TOO_LARGE, ''body_too_large''),
     (VIREO_STATUS_INVALID_FLAGS, ''invalid_flags''),
     (VIREO_STATUS_DUPLICATE_REQUEST, ''duplicate_request''),
     (VIREO_STATUS_RATE_LIMITED, ''rate_limited''),
     (VIREO_STATUS_UNAUTHORIZED, ''unauthorized''),
     (VIREO_STATUS_FORBIDDEN, ''forbidden''),
     (VIREO_STATUS_INVALID_TOKEN, ''invalid_token''),
     (VIREO_STATUS_AUTHENTICATION_FAILED, ''authentication_failed''),
     (VIREO_STATUS_SESSION_EXPIRED, ''session_expired''),
     (VIREO_STATUS_USER_EXISTS, ''user_exists''),
     (VIREO_STATUS_USER_DISABLED, ''user_disabled''),
     (VIREO_STATUS_WEAK_CREDENTIAL, ''weak_credential''),
     (VIREO_STATUS_NOT_FOUND, ''not_found''),
     (VIREO_STATUS_ALREADY_EXISTS, ''already_exists''),
     (VIREO_STATUS_INVALID_PATH, ''invalid_path''),
     (VIREO_STATUS_NOT_DIRECTORY, ''not_directory''),
     (VIREO_STATUS_DIRECTORY_NOT_EMPTY, ''directory_not_empty''),
     (VIREO_STATUS_CONFLICT, ''conflict''),
     (VIREO_STATUS_UPLOAD_REJECTED, ''upload_rejected''),
     (VIREO_STATUS_TASK_NOT_FOUND, ''task_not_found''),
     (VIREO_STATUS_CHUNK_MISMATCH, ''chunk_mismatch''),
     (VIREO_STATUS_HASH_MISMATCH, ''hash_mismatch''),
     (VIREO_STATUS_INVALID_TASK_STATE, ''invalid_task_state''),
     (VIREO_STATUS_TASK_EXPIRED, ''task_expired''),
     (VIREO_STATUS_RANGE_INVALID, ''range_invalid''),
     (VIREO_STATUS_CHUNK_WINDOW_EXCEEDED, ''chunk_window_exceeded''),
     (VIREO_STATUS_TASK_CANCELLED, ''task_cancelled''),
     (VIREO_STATUS_SOURCE_UNAVAILABLE, ''source_unavailable''),
     (VIREO_STATUS_RESUME, ''resume''),
     (VIREO_STATUS_FAST_UPLOAD, ''fast_upload''),
     (VIREO_STATUS_PARTIAL, ''partial''),
     (VIREO_STATUS_CHUNK_ALREADY_RECEIVED, ''chunk_already_received''),
     (VIREO_STATUS_BUSY, ''busy''),
     (VIREO_STATUS_INTERNAL_ERROR, ''internal_error''),
     (VIREO_STATUS_STORAGE_NO_SPACE, ''storage_no_space''),
     (VIREO_STATUS_DB_ERROR, ''db_error''),
     (VIREO_STATUS_IO_ERROR, ''io_error''),
     (VIREO_STATUS_TIMEOUT, ''timeout''),
     (VIREO_STATUS_OVERLOADED, ''overloaded''),
     (VIREO_STATUS_UNAVAILABLE, ''unavailable'')]"

definition vireo_status_name :: "u16 \<Rightarrow> string" where
  "vireo_status_name status =
     (case map_of status_names status of Some name \<Rightarrow> name | None \<Rightarrow> ''unknown'')"

subsection \<open>The registry is consistent\<close>

lemma command_tables:
  "distinct (map snd command_names)"
  "''unknown'' \<notin> snd ` set command_names" "''reserved_storage_put'' \<notin> snd ` set command_names"
  "list_all (\<lambda>(c, n). vireo_command_is_known c \<and> \<not> vireo_command_is_reserved c) command_names"
  by code_simp+

lemma command_known_names: "vireo_command_is_known c \<longleftrightarrow> c \<in> fst ` set command_names"
  by (simp add: vireo_command_is_known_def command_names_def)

lemma status_tables:
  "distinct (map snd status_names)" "''unknown'' \<notin> snd ` set status_names"
  by code_simp+

lemma status_known_names: "vireo_status_is_known c \<longleftrightarrow> c \<in> fst ` set status_names"
  by (simp add: vireo_status_is_known_def status_names_def)

lemma table_hit: "c \<in> fst ` set tab \<Longrightarrow> \<exists>n. map_of tab c = Some n \<and> n \<in> snd ` set tab"
  by (metis image_eqI map_of_SomeD map_of_eq_None_iff option.exhaust snd_conv)

lemma table_miss: "c \<notin> fst ` set tab \<Longrightarrow> map_of tab c = None"
  by (simp add: map_of_eq_None_iff)

lemma map_of_inj_values:
  assumes "distinct (map snd xs)" and "map_of xs a = Some n" and "map_of xs b = Some n"
  shows "a = b"
proof -
  have "inj_on snd (set xs)" using assms(1) by (simp add: distinct_map)
  moreover have "(a, n) \<in> set xs" "(b, n) \<in> set xs" using assms(2,3) by (auto dest: map_of_SomeD)
  ultimately have "(a, n) = (b, n)" by (metis inj_onD snd_conv)
  then show ?thesis by simp
qed

lemma command_cases:
  obtains (known) n where "map_of command_names c = Some n" and "vireo_command_name c = n"
      and "n \<noteq> ''unknown''" and "n \<noteq> ''reserved_storage_put''" and "vireo_command_is_known c"
      and "\<not> vireo_command_is_reserved c"
  | (unknown) "map_of command_names c = None" and "\<not> vireo_command_is_known c"
      and "vireo_command_name c = (if vireo_command_is_reserved c then ''reserved_storage_put'' else ''unknown'')"
proof (cases "c \<in> fst ` set command_names")
  case True
  then obtain n where "map_of command_names c = Some n" "n \<noteq> ''unknown''" "n \<noteq> ''reserved_storage_put''"
    using table_hit command_tables(2,3) by metis
  moreover have "\<not> vireo_command_is_reserved c"
    using True command_tables(4) by (auto simp: list_all_iff)
  ultimately show thesis
    using True command_known_names by (intro known) (auto simp: vireo_command_name_def)
next
  case False
  then show thesis
    by (intro unknown) (simp_all add: vireo_command_name_def table_miss command_known_names)
qed

lemma status_cases:
  obtains (known) n where "map_of status_names c = Some n" and "vireo_status_name c = n"
      and "n \<noteq> ''unknown''" and "vireo_status_is_known c"
  | (unknown) "map_of status_names c = None" and "\<not> vireo_status_is_known c"
      and "vireo_status_name c = ''unknown''"
proof (cases "c \<in> fst ` set status_names")
  case True
  then obtain n where "map_of status_names c = Some n" "n \<noteq> ''unknown''"
    using table_hit status_tables(2) by metis
  then show thesis
    using True status_known_names by (intro known) (auto simp: vireo_status_name_def)
next
  case False
  then show thesis
    by (intro unknown) (simp_all add: vireo_status_name_def table_miss status_known_names)
qed

text \<open>
  The registry is consistent: a command is known exactly when it has a name of its own, no
  command is both known and reserved, no two known commands share a name, and the same holds for
  statuses.
\<close>

theorem registry_consistent:
  "(vireo_command_is_known c \<longleftrightarrow> vireo_command_name c \<notin> {''unknown'', ''reserved_storage_put''}) \<and>
   (vireo_command_name c = ''reserved_storage_put'' \<longleftrightarrow> vireo_command_is_reserved c) \<and>
   \<not> (vireo_command_is_known c \<and> vireo_command_is_reserved c) \<and>
   (vireo_command_is_known c \<and> vireo_command_name c = vireo_command_name d \<longrightarrow> c = d) \<and>
   (vireo_status_is_known s \<longleftrightarrow> vireo_status_name s \<noteq> ''unknown'') \<and>
   (vireo_status_is_known s \<and> vireo_status_name s = vireo_status_name t \<longrightarrow> s = t)"
proof (intro conjI)
  show "vireo_command_is_known c \<longleftrightarrow> vireo_command_name c \<notin> {''unknown'', ''reserved_storage_put''}"
    by (cases rule: command_cases [of c]) simp_all
  show "vireo_command_name c = ''reserved_storage_put'' \<longleftrightarrow> vireo_command_is_reserved c"
    by (cases rule: command_cases [of c]) simp_all
  show "\<not> (vireo_command_is_known c \<and> vireo_command_is_reserved c)"
    by (cases rule: command_cases [of c]) simp_all
  show "vireo_command_is_known c \<and> vireo_command_name c = vireo_command_name d \<longrightarrow> c = d"
    by (cases rule: command_cases [of c]; cases rule: command_cases [of d])
      (simp_all add: map_of_inj_values [OF command_tables(1)])
  show "vireo_status_is_known s \<longleftrightarrow> vireo_status_name s \<noteq> ''unknown''"
    by (cases rule: status_cases [of s]) simp_all
  show "vireo_status_is_known s \<and> vireo_status_name s = vireo_status_name t \<longrightarrow> s = t"
    by (cases rule: status_cases [of s]; cases rule: status_cases [of t])
      (simp_all add: map_of_inj_values [OF status_tables(1)])
qed

theorem registry_consistent_witness:
  "vireo_command_name 1025 = ''node_list'' \<and> vireo_command_is_known 1025 \<and>
   \<not> vireo_command_is_reserved 1025 \<and> vireo_status_is_known 1206 \<and> vireo_status_name 1206 = ''conflict''"
proof -
  have n: "vireo_command_name 1025 = ''node_list''" "vireo_status_name 1206 = ''conflict''" by code_simp+
  from registry_consistent [of 1025 1025 1206 1206] show ?thesis unfolding n by auto
qed

end
