(* ===== verification/Protocol_Codec.thy ===== *)
theory Protocol_Codec
  imports Protocol_Registry Protocol_Wire
begin

unbundle bit_operations_syntax

text \<open>
  The frame codec of \<^verbatim>\<open>src/protocol/codec.c\<close>: the 32-byte header in network byte order, the basic
  request and response checks, and the CRC-32C that covers the header prefix and the body.
\<close>

datatype vireo_protocol_codec_issue =
    VIREO_PROTOCOL_CODEC_ISSUE_NONE
  | VIREO_PROTOCOL_CODEC_ISSUE_INVALID_MAGIC
  | VIREO_PROTOCOL_CODEC_ISSUE_VERSION_MISMATCH
  | VIREO_PROTOCOL_CODEC_ISSUE_INVALID_HEADER_LENGTH
  | VIREO_PROTOCOL_CODEC_ISSUE_BODY_TOO_LARGE
  | VIREO_PROTOCOL_CODEC_ISSUE_BODY_LENGTH_MISMATCH
  | VIREO_PROTOCOL_CODEC_ISSUE_UNKNOWN_FLAGS
  | VIREO_PROTOCOL_CODEC_ISSUE_UNKNOWN_COMMAND
  | VIREO_PROTOCOL_CODEC_ISSUE_RESERVED_COMMAND
  | VIREO_PROTOCOL_CODEC_ISSUE_INVALID_SEQUENCE
  | VIREO_PROTOCOL_CODEC_ISSUE_REQUEST_HAS_RESPONSE_FLAG
  | VIREO_PROTOCOL_CODEC_ISSUE_REQUEST_HAS_MORE_FLAG
  | VIREO_PROTOCOL_CODEC_ISSUE_INVALID_REQUEST_STATUS
  | VIREO_PROTOCOL_CODEC_ISSUE_RESPONSE_MISSING_RESPONSE_FLAG
  | VIREO_PROTOCOL_CODEC_ISSUE_UNKNOWN_RESPONSE_STATUS
  | VIREO_PROTOCOL_CODEC_ISSUE_CRC_MISMATCH

abbreviation VIREO_PROTOCOL_CRC32C_REFLECTED_POLYNOMIAL :: u32 where
  "VIREO_PROTOCOL_CRC32C_REFLECTED_POLYNOMIAL \<equiv> 2197175160"

text \<open>The writers take the region and the offset of their \<^verbatim>\<open>wire\<close> pointer into it.\<close>

definition vireo_protocol_write_u16_be :: "nat \<Rightarrow> u16 \<Rightarrow> bytes \<Rightarrow> bytes" where
  "vireo_protocol_write_u16_be off v wire = mem_write off [ucast (drop_bit 8 v), ucast v] wire"

definition vireo_protocol_write_u32_be :: "nat \<Rightarrow> u32 \<Rightarrow> bytes \<Rightarrow> bytes" where
  "vireo_protocol_write_u32_be off v wire =
     mem_write off [ucast (drop_bit 24 v), ucast (drop_bit 16 v), ucast (drop_bit 8 v), ucast v] wire"

definition vireo_protocol_read_u16_be :: "bytes \<Rightarrow> u16" where
  "vireo_protocol_read_u16_be wire =
     (let high = push_bit 8 (ucast (wire ! 0)); low = ucast (wire ! 1) in high OR low)"

definition vireo_protocol_read_u32_be :: "bytes \<Rightarrow> u32" where
  "vireo_protocol_read_u32_be wire =
     (let byte1 = push_bit 24 (ucast (wire ! 0)); byte2 = push_bit 16 (ucast (wire ! 1));
          byte3 = push_bit 8 (ucast (wire ! 2)); byte4 = ucast (wire ! 3)
      in byte1 OR byte2 OR byte3 OR byte4)"

text \<open>One turn of the inner loop, the eight turns for a byte, and the outer loop over the data.\<close>

definition crc32c_bit :: "u32 \<Rightarrow> u32" where
  "crc32c_bit crc =
     (let mask = 0 - (crc AND 1)
      in drop_bit 1 crc XOR (VIREO_PROTOCOL_CRC32C_REFLECTED_POLYNOMIAL AND mask))"

definition crc32c_byte :: "u32 \<Rightarrow> u8 \<Rightarrow> u32" where
  "crc32c_byte crc b = (crc32c_bit ^^ 8) (crc XOR ucast b)"

definition vireo_protocol_crc32c_update :: "u32 \<Rightarrow> bytes \<Rightarrow> size_t \<Rightarrow> u32" where
  "vireo_protocol_crc32c_update crc data data_size = foldl crc32c_byte crc (take (unat data_size) data)"

definition vireo_protocol_header_encode ::
  "vireo_protocol_header option \<Rightarrow> bytes option \<Rightarrow> size_t \<Rightarrow> vireo_result \<times> bytes option" where
  "vireo_protocol_header_encode header wire wire_capacity =
     (if header = None \<or> wire = None then (VIREO_RESULT_INVALID_ARGUMENT, wire)
      else if wire_capacity < ucast VIREO_PROTOCOL_HEADER_SIZE then (VIREO_RESULT_RANGE, wire)
      else if h_body_len (the header) > VIREO_PROTOCOL_MAX_BODY_SIZE then (VIREO_RESULT_RANGE, wire)
      else
        let header = the header;
            encoded = replicate 32 0;
            encoded = vireo_protocol_write_u32_be VIREO_PROTOCOL_MAGIC_OFFSET VIREO_PROTOCOL_MAGIC_VALUE encoded;
            encoded = mem_write VIREO_PROTOCOL_VERSION_OFFSET [VIREO_PROTOCOL_VERSION] encoded;
            encoded = mem_write VIREO_PROTOCOL_HEADER_LENGTH_OFFSET [VIREO_PROTOCOL_HEADER_SIZE] encoded;
            encoded = vireo_protocol_write_u16_be VIREO_PROTOCOL_COMMAND_OFFSET (h_command header) encoded;
            encoded = vireo_protocol_write_u16_be VIREO_PROTOCOL_FLAGS_OFFSET (h_flags header) encoded;
            encoded = vireo_protocol_write_u16_be VIREO_PROTOCOL_STATUS_OFFSET (h_status header) encoded;
            encoded = vireo_protocol_write_u32_be VIREO_PROTOCOL_BODY_LENGTH_OFFSET (h_body_len header) encoded;
            encoded = vireo_protocol_write_u32_be VIREO_PROTOCOL_SEQUENCE_OFFSET (h_sequence header) encoded;
            encoded = vireo_protocol_write_u32_be VIREO_PROTOCOL_SESSION_HANDLE_OFFSET
                        (h_session_handle header) encoded;
            encoded = vireo_protocol_write_u32_be VIREO_PROTOCOL_TASK_HANDLE_OFFSET (h_task_handle header) encoded;
            encoded = vireo_protocol_write_u32_be VIREO_PROTOCOL_CRC32C_OFFSET (h_crc32c header) encoded
        in (VIREO_OK, Some (mem_write 0 encoded (the wire))))"

definition vireo_protocol_header_decode ::
  "bytes option \<Rightarrow> size_t \<Rightarrow> vireo_protocol_header option \<Rightarrow> vireo_protocol_codec_issue option \<Rightarrow>
   vireo_result \<times> vireo_protocol_header option \<times> vireo_protocol_codec_issue option" where
  "vireo_protocol_header_decode wire wire_size out_header out_issue =
     (let out_issue = map_option (\<lambda>_. VIREO_PROTOCOL_CODEC_ISSUE_NONE) out_issue in
      if wire = None \<or> out_header = None \<or> out_issue = None
      then (VIREO_RESULT_INVALID_ARGUMENT, out_header, out_issue)
      else if wire_size < ucast VIREO_PROTOCOL_HEADER_SIZE then (VIREO_RESULT_RANGE, out_header, out_issue)
      else
        let wire = the wire in
        if vireo_protocol_read_u32_be (drop VIREO_PROTOCOL_MAGIC_OFFSET wire) \<noteq> VIREO_PROTOCOL_MAGIC_VALUE
        then (VIREO_RESULT_PROTOCOL, out_header, Some VIREO_PROTOCOL_CODEC_ISSUE_INVALID_MAGIC)
        else if wire ! VIREO_PROTOCOL_VERSION_OFFSET \<noteq> VIREO_PROTOCOL_VERSION
        then (VIREO_RESULT_PROTOCOL, out_header, Some VIREO_PROTOCOL_CODEC_ISSUE_VERSION_MISMATCH)
        else if wire ! VIREO_PROTOCOL_HEADER_LENGTH_OFFSET \<noteq> VIREO_PROTOCOL_HEADER_SIZE
        then (VIREO_RESULT_PROTOCOL, out_header, Some VIREO_PROTOCOL_CODEC_ISSUE_INVALID_HEADER_LENGTH)
        else
          let command = vireo_protocol_read_u16_be (drop VIREO_PROTOCOL_COMMAND_OFFSET wire);
              flags = vireo_protocol_read_u16_be (drop VIREO_PROTOCOL_FLAGS_OFFSET wire);
              status = vireo_protocol_read_u16_be (drop VIREO_PROTOCOL_STATUS_OFFSET wire);
              body_len = vireo_protocol_read_u32_be (drop VIREO_PROTOCOL_BODY_LENGTH_OFFSET wire) in
          if body_len > VIREO_PROTOCOL_MAX_BODY_SIZE
          then (VIREO_RESULT_PROTOCOL, out_header, Some VIREO_PROTOCOL_CODEC_ISSUE_BODY_TOO_LARGE)
          else
            (VIREO_OK,
             Some \<lparr>h_command = command, h_flags = flags, h_status = status, h_body_len = body_len,
                   h_sequence = vireo_protocol_read_u32_be (drop VIREO_PROTOCOL_SEQUENCE_OFFSET wire),
                   h_session_handle = vireo_protocol_read_u32_be (drop VIREO_PROTOCOL_SESSION_HANDLE_OFFSET wire),
                   h_task_handle = vireo_protocol_read_u32_be (drop VIREO_PROTOCOL_TASK_HANDLE_OFFSET wire),
                   h_crc32c = vireo_protocol_read_u32_be (drop VIREO_PROTOCOL_CRC32C_OFFSET wire)\<rparr>,
             out_issue))"

definition vireo_protocol_request_header_validate ::
  "vireo_protocol_header option \<Rightarrow> vireo_protocol_codec_issue option \<Rightarrow>
   vireo_result \<times> vireo_protocol_codec_issue option" where
  "vireo_protocol_request_header_validate header out_issue =
     (let out_issue = map_option (\<lambda>_. VIREO_PROTOCOL_CODEC_ISSUE_NONE) out_issue in
      if header = None \<or> out_issue = None then (VIREO_RESULT_INVALID_ARGUMENT, out_issue)
      else
        let header = the header in
        if h_body_len header > VIREO_PROTOCOL_MAX_BODY_SIZE
        then (VIREO_RESULT_PROTOCOL, Some VIREO_PROTOCOL_CODEC_ISSUE_BODY_TOO_LARGE)
        else if vireo_protocol_flags_have_unknown_bits (h_flags header)
        then (VIREO_RESULT_PROTOCOL, Some VIREO_PROTOCOL_CODEC_ISSUE_UNKNOWN_FLAGS)
        else if vireo_command_is_reserved (h_command header)
        then (VIREO_RESULT_PROTOCOL, Some VIREO_PROTOCOL_CODEC_ISSUE_RESERVED_COMMAND)
        else if \<not> vireo_command_is_known (h_command header)
        then (VIREO_RESULT_PROTOCOL, Some VIREO_PROTOCOL_CODEC_ISSUE_UNKNOWN_COMMAND)
        else if h_sequence header = VIREO_PROTOCOL_SEQUENCE_NONE
        then (VIREO_RESULT_PROTOCOL, Some VIREO_PROTOCOL_CODEC_ISSUE_INVALID_SEQUENCE)
        else if h_flags header AND VIREO_PROTOCOL_FLAG_RESPONSE \<noteq> 0
        then (VIREO_RESULT_PROTOCOL, Some VIREO_PROTOCOL_CODEC_ISSUE_REQUEST_HAS_RESPONSE_FLAG)
        else if h_flags header AND VIREO_PROTOCOL_FLAG_MORE \<noteq> 0
        then (VIREO_RESULT_PROTOCOL, Some VIREO_PROTOCOL_CODEC_ISSUE_REQUEST_HAS_MORE_FLAG)
        else if h_status header \<noteq> VIREO_PROTOCOL_REQUEST_STATUS
        then (VIREO_RESULT_PROTOCOL, Some VIREO_PROTOCOL_CODEC_ISSUE_INVALID_REQUEST_STATUS)
        else (VIREO_OK, out_issue))"

definition vireo_protocol_response_header_validate ::
  "vireo_protocol_header option \<Rightarrow> vireo_protocol_codec_issue option \<Rightarrow>
   vireo_result \<times> vireo_protocol_codec_issue option" where
  "vireo_protocol_response_header_validate header out_issue =
     (let out_issue = map_option (\<lambda>_. VIREO_PROTOCOL_CODEC_ISSUE_NONE) out_issue in
      if header = None \<or> out_issue = None then (VIREO_RESULT_INVALID_ARGUMENT, out_issue)
      else
        let header = the header in
        if h_body_len header > VIREO_PROTOCOL_MAX_BODY_SIZE
        then (VIREO_RESULT_PROTOCOL, Some VIREO_PROTOCOL_CODEC_ISSUE_BODY_TOO_LARGE)
        else if vireo_protocol_flags_have_unknown_bits (h_flags header)
        then (VIREO_RESULT_PROTOCOL, Some VIREO_PROTOCOL_CODEC_ISSUE_UNKNOWN_FLAGS)
        else if vireo_command_is_reserved (h_command header)
        then (VIREO_RESULT_PROTOCOL, Some VIREO_PROTOCOL_CODEC_ISSUE_RESERVED_COMMAND)
        else if \<not> vireo_command_is_known (h_command header)
        then (VIREO_RESULT_PROTOCOL, Some VIREO_PROTOCOL_CODEC_ISSUE_UNKNOWN_COMMAND)
        else if h_sequence header = VIREO_PROTOCOL_SEQUENCE_NONE
        then (VIREO_RESULT_PROTOCOL, Some VIREO_PROTOCOL_CODEC_ISSUE_INVALID_SEQUENCE)
        else if h_flags header AND VIREO_PROTOCOL_FLAG_RESPONSE = 0
        then (VIREO_RESULT_PROTOCOL, Some VIREO_PROTOCOL_CODEC_ISSUE_RESPONSE_MISSING_RESPONSE_FLAG)
        else if \<not> vireo_status_is_known (h_status header)
        then (VIREO_RESULT_PROTOCOL, Some VIREO_PROTOCOL_CODEC_ISSUE_UNKNOWN_RESPONSE_STATUS)
        else (VIREO_OK, out_issue))"

text \<open>A NULL body of size zero is the empty region.\<close>

abbreviation region :: "bytes option \<Rightarrow> bytes" where
  "region p \<equiv> (case p of None \<Rightarrow> [] | Some data \<Rightarrow> data)"

definition vireo_protocol_frame_crc32c_calculate ::
  "bytes option \<Rightarrow> size_t \<Rightarrow> bytes option \<Rightarrow> size_t \<Rightarrow> u32 option \<Rightarrow> vireo_result \<times> u32 option" where
  "vireo_protocol_frame_crc32c_calculate wire wire_size body body_size out_crc32c =
     (if wire = None \<or> out_crc32c = None \<or> (body = None \<and> body_size \<noteq> 0)
      then (VIREO_RESULT_INVALID_ARGUMENT, out_crc32c)
      else if wire_size < ucast VIREO_PROTOCOL_HEADER_SIZE then (VIREO_RESULT_RANGE, out_crc32c)
      else if body_size > ucast VIREO_PROTOCOL_MAX_BODY_SIZE then (VIREO_RESULT_RANGE, out_crc32c)
      else
        let wire_body_size = vireo_protocol_read_u32_be (drop VIREO_PROTOCOL_BODY_LENGTH_OFFSET (the wire)) in
        if ucast wire_body_size \<noteq> body_size then (VIREO_RESULT_RANGE, out_crc32c)
        else
          let crc32c = 4294967295;
              crc32c = vireo_protocol_crc32c_update crc32c (the wire) (of_nat VIREO_PROTOCOL_CRC32C_OFFSET);
              crc32c = vireo_protocol_crc32c_update crc32c (region body) body_size;
              crc32c = NOT crc32c
          in (VIREO_OK, Some crc32c))"

definition vireo_protocol_frame_crc32c_verify ::
  "bytes option \<Rightarrow> size_t \<Rightarrow> bytes option \<Rightarrow> size_t \<Rightarrow> vireo_protocol_codec_issue option \<Rightarrow>
   vireo_result \<times> vireo_protocol_codec_issue option" where
  "vireo_protocol_frame_crc32c_verify wire wire_size body body_size out_issue =
     (let out_issue = map_option (\<lambda>_. VIREO_PROTOCOL_CODEC_ISSUE_NONE) out_issue in
      if wire = None \<or> out_issue = None \<or> (body = None \<and> body_size \<noteq> 0)
      then (VIREO_RESULT_INVALID_ARGUMENT, out_issue)
      else if wire_size < ucast VIREO_PROTOCOL_HEADER_SIZE then (VIREO_RESULT_RANGE, out_issue)
      else if body_size > ucast VIREO_PROTOCOL_MAX_BODY_SIZE then (VIREO_RESULT_RANGE, out_issue)
      else
        let wire_body_size = vireo_protocol_read_u32_be (drop VIREO_PROTOCOL_BODY_LENGTH_OFFSET (the wire)) in
        if ucast wire_body_size \<noteq> body_size
        then (VIREO_RESULT_RANGE, Some VIREO_PROTOCOL_CODEC_ISSUE_BODY_LENGTH_MISMATCH)
        else
          let (result, calculated_crc32c) =
                vireo_protocol_frame_crc32c_calculate wire wire_size body body_size (Some 0) in
          if result \<noteq> VIREO_OK then (result, out_issue)
          else
            let wire_crc32c = vireo_protocol_read_u32_be (drop VIREO_PROTOCOL_CRC32C_OFFSET (the wire)) in
            if the calculated_crc32c \<noteq> wire_crc32c
            then (VIREO_RESULT_PROTOCOL, Some VIREO_PROTOCOL_CODEC_ISSUE_CRC_MISMATCH)
            else (VIREO_OK, out_issue))"

subsection \<open>The header layout\<close>

lemma codec_int_helpers:
  "vireo_protocol_write_u16_be off v w = mem_write off (be16 v) w"
  "vireo_protocol_write_u32_be off v4 w = mem_write off (be32 v4) w"
  "vireo_protocol_read_u16_be = rd16" "vireo_protocol_read_u32_be = rd32"
  by (simp_all add: vireo_protocol_write_u16_be_def vireo_protocol_write_u32_be_def be16_def be32_def
      vireo_protocol_read_u16_be_def vireo_protocol_read_u32_be_def rd16_def rd32_def fun_eq_iff or.assoc)

definition header_bytes :: "vireo_protocol_header \<Rightarrow> bytes" where
  "header_bytes h = be32 VIREO_PROTOCOL_MAGIC_VALUE @ [VIREO_PROTOCOL_VERSION, VIREO_PROTOCOL_HEADER_SIZE] @
     be16 (h_command h) @ be16 (h_flags h) @ be16 (h_status h) @ be32 (h_body_len h) @ be32 (h_sequence h) @
     be32 (h_session_handle h) @ be32 (h_task_handle h) @ be32 (h_crc32c h)"

lemma length_header_bytes [simp]: "length (header_bytes h) = 32"
  by (simp add: header_bytes_def)

lemma header_encode_eq:
  assumes "32 \<le> cap" and "h_body_len h \<le> VIREO_PROTOCOL_MAX_BODY_SIZE"
  shows "vireo_protocol_header_encode (Some h) (Some wire) cap = (VIREO_OK, Some (mem_write 0 (header_bytes h) wire))"
proof -
  note fill = mem_write_fill [of _ "[]", simplified]
  have "mem_write 28 (be32 (h_crc32c h)) (mem_write 24 (be32 (h_task_handle h))
      (mem_write 20 (be32 (h_session_handle h)) (mem_write 16 (be32 (h_sequence h))
      (mem_write 12 (be32 (h_body_len h)) (mem_write 10 (be16 (h_status h)) (mem_write 8 (be16 (h_flags h))
      (mem_write 6 (be16 (h_command h)) (mem_write 5 [32] (mem_write 4 [1]
      (mem_write 0 (be32 VIREO_PROTOCOL_MAGIC_VALUE) (replicate 32 0))))))))))) = header_bytes h"
    by (simp add: fill mem_write_def header_bytes_def)
  with assms show ?thesis
    by (simp add: vireo_protocol_header_encode_def codec_int_helpers not_less [symmetric])
qed

lemma header_field_positions:
  assumes "32 \<le> length w"
  shows "take 32 w = header_bytes h \<longleftrightarrow>
    mem_read 0 4 w = be32 VIREO_PROTOCOL_MAGIC_VALUE \<and> w ! 4 = VIREO_PROTOCOL_VERSION \<and>
    w ! 5 = VIREO_PROTOCOL_HEADER_SIZE \<and> mem_read 6 2 w = be16 (h_command h) \<and>
    mem_read 8 2 w = be16 (h_flags h) \<and> mem_read 10 2 w = be16 (h_status h) \<and>
    mem_read 12 4 w = be32 (h_body_len h) \<and> mem_read 16 4 w = be32 (h_sequence h) \<and>
    mem_read 20 4 w = be32 (h_session_handle h) \<and> mem_read 24 4 w = be32 (h_task_handle h) \<and>
    mem_read 28 4 w = be32 (h_crc32c h)"
proof -
  have "take 32 w = mem_read 0 (4 + (2 + (2 + (2 + (2 + (4 + (4 + (4 + (4 + 4))))))))) w"
    by (simp add: mem_read_def)
  also have "\<dots> = mem_read 0 4 w @ [w ! 4, w ! 5] @ mem_read 6 2 w @ mem_read 8 2 w @ mem_read 10 2 w @
      mem_read 12 4 w @ mem_read 16 4 w @ mem_read 20 4 w @ mem_read 24 4 w @ mem_read 28 4 w"
    unfolding mem_read_split using assms mem_read_pair [of 4 w] by simp
  finally show ?thesis using assms by (simp add: header_bytes_def)
qed

lemma header_decode_eq:
  assumes len: "32 \<le> length w" and sz: "32 \<le> sz"
  shows "vireo_protocol_header_decode (Some w) sz (Some old) (Some issue) = (VIREO_OK, Some h, Some i) \<longleftrightarrow>
    take 32 w = header_bytes h \<and> h_body_len h \<le> VIREO_PROTOCOL_MAX_BODY_SIZE \<and>
    i = VIREO_PROTOCOL_CODEC_ISSUE_NONE"
proof -
  have r: "rd32 (drop off w) = v \<longleftrightarrow> mem_read off 4 w = be32 v" if "off + 4 \<le> 32" for off v
    using that len w32.enc_at [of off w] w32.dec_at [of off w v] by auto
  have r2: "rd16 (drop off w) = v \<longleftrightarrow> mem_read off 2 w = be16 v" if "off + 2 \<le> 32" for off v
    using that len w16.enc_at [of off w] w16.dec_at [of off w v] by auto
  have fields: "h = \<lparr>h_command = rd16 (drop 6 w), h_flags = rd16 (drop 8 w), h_status = rd16 (drop 10 w),
      h_body_len = rd32 (drop 12 w), h_sequence = rd32 (drop 16 w), h_session_handle = rd32 (drop 20 w),
      h_task_handle = rd32 (drop 24 w), h_crc32c = rd32 (drop 28 w)\<rparr> \<longleftrightarrow>
    mem_read 6 2 w = be16 (h_command h) \<and> mem_read 8 2 w = be16 (h_flags h) \<and>
    mem_read 10 2 w = be16 (h_status h) \<and> mem_read 12 4 w = be32 (h_body_len h) \<and>
    mem_read 16 4 w = be32 (h_sequence h) \<and> mem_read 20 4 w = be32 (h_session_handle h) \<and>
    mem_read 24 4 w = be32 (h_task_handle h) \<and> mem_read 28 4 w = be32 (h_crc32c h)"
    by (cases h) (simp add: r [symmetric] r2 [symmetric], blast)
  have magic: "rd32 w = VIREO_PROTOCOL_MAGIC_VALUE \<longleftrightarrow> mem_read 0 4 w = be32 VIREO_PROTOCOL_MAGIC_VALUE"
    using r [of 0] by simp
  show ?thesis
    unfolding header_field_positions [OF len]
    using fields sz
    by (auto simp: vireo_protocol_header_decode_def codec_int_helpers magic Let_def not_less)
qed

text \<open>
  C26. The header codec is a bijection between header structures with a legal body length and their
  32 wire bytes: encoding writes exactly the first 32 bytes of the output, decoding them gives the
  same structure back, and whatever header decodes, encoding it again reproduces the bytes read.
\<close>

theorem header_codec_roundtrip:
  assumes "32 \<le> length w" and "32 \<le> sz" and "h_body_len h \<le> VIREO_PROTOCOL_MAX_BODY_SIZE"
  shows "(\<exists>w'. vireo_protocol_header_encode (Some h) (Some w) sz = (VIREO_OK, Some w') \<and>
      length w' = length w \<and> drop 32 w' = drop 32 w \<and>
      vireo_protocol_header_decode (Some w') sz (Some old) (Some issue) =
        (VIREO_OK, Some h, Some VIREO_PROTOCOL_CODEC_ISSUE_NONE)) \<and>
    (\<forall>g i. vireo_protocol_header_decode (Some w) sz (Some old) (Some issue) = (VIREO_OK, Some g, i) \<longrightarrow>
       vireo_protocol_header_encode (Some g) (Some w) sz = (VIREO_OK, Some w))"
proof (intro conjI allI impI)
  let ?w = "mem_write 0 (header_bytes h) w"
  have len: "length ?w = length w" using assms(1) by simp
  have "take 32 ?w = header_bytes h" "drop 32 ?w = drop 32 w" by (simp_all add: mem_write_def)
  then show "\<exists>w'. vireo_protocol_header_encode (Some h) (Some w) sz = (VIREO_OK, Some w') \<and>
      length w' = length w \<and> drop 32 w' = drop 32 w \<and>
      vireo_protocol_header_decode (Some w') sz (Some old) (Some issue) =
        (VIREO_OK, Some h, Some VIREO_PROTOCOL_CODEC_ISSUE_NONE)"
    using assms len by (simp add: header_encode_eq header_decode_eq)
  fix g i
  assume d: "vireo_protocol_header_decode (Some w) sz (Some old) (Some issue) = (VIREO_OK, Some g, i)"
  then obtain j where "i = Some j"
    by (auto simp: vireo_protocol_header_decode_def Let_def split: if_splits)
  with d have "take 32 w = header_bytes g" "h_body_len g \<le> VIREO_PROTOCOL_MAX_BODY_SIZE"
    using header_decode_eq [OF assms(1,2)] by auto
  then show "vireo_protocol_header_encode (Some g) (Some w) sz = (VIREO_OK, Some w)"
    using assms(2) by (simp add: header_encode_eq mem_write_def) (metis append_take_drop_id)
qed

subsection \<open>The checksum\<close>

lemma word_xor_cancel:
  "a XOR c = b XOR c \<longleftrightarrow> a = b" "c XOR a = c XOR b \<longleftrightarrow> a = b" for a b c :: "'a :: len word"
proof -
  show r: "a XOR c = b XOR c \<longleftrightarrow> a = b" for a b c :: "'a :: len word"
  proof
    assume "a XOR c = b XOR c"
    then have "(a XOR c) XOR c = (b XOR c) XOR c" by simp
    then show "a = b" by (simp add: xor.assoc)
  qed simp
  show "c XOR a = c XOR b \<longleftrightarrow> a = b" using r [of a c b] by (simp add: xor.commute)
qed

lemma crc32c_bit_alt:
  "crc32c_bit c = drop_bit 1 c XOR (if odd c then VIREO_PROTOCOL_CRC32C_REFLECTED_POLYNOMIAL else 0)"
  by (simp add: crc32c_bit_def and_one_eq odd_iff_mod_2_eq_one)

lemma crc32c_bit_xor: "crc32c_bit (a XOR b) = crc32c_bit a XOR crc32c_bit b"
  by (auto simp: crc32c_bit_alt even_xor_iff xor.left_commute xor.commute xor.assoc)

lemma crc32c_bits_xor: "(crc32c_bit ^^ n) (a XOR b) = (crc32c_bit ^^ n) a XOR (crc32c_bit ^^ n) b"
  by (induction n) (simp_all add: crc32c_bit_xor)

lemma crc32c_bit_0: "crc32c_bit c = 0 \<Longrightarrow> c = 0"
proof -
  assume z: "crc32c_bit c = 0"
  have "\<not> bit (drop_bit 1 c) 31" by (auto simp: bit_simps dest: bit_imp_le_length)
  moreover have "bit VIREO_PROTOCOL_CRC32C_REFLECTED_POLYNOMIAL 31" by simp
  ultimately have "bit (drop_bit 1 c XOR VIREO_PROTOCOL_CRC32C_REFLECTED_POLYNOMIAL) 31"
    unfolding bit_xor_iff by blast
  then have "drop_bit 1 c XOR VIREO_PROTOCOL_CRC32C_REFLECTED_POLYNOMIAL \<noteq> 0" by (metis bit_0_eq bot_apply bot_bool_def)
  then have "even c" using z by (auto simp: crc32c_bit_alt split: if_splits)
  then have d: "drop_bit 1 c = 0" using z by (simp add: crc32c_bit_alt)
  show "c = 0"
  proof (rule bit_word_eqI)
    fix n
    show "bit c n = bit 0 n"
      using \<open>even c\<close> arg_cong [OF d, of "\<lambda>w. bit w (n - 1)"] by (cases n) (auto simp: bit_0 bit_drop_bit_eq)
  qed
qed

lemma crc32c_bits_inj: "(crc32c_bit ^^ n) a = (crc32c_bit ^^ n) b \<Longrightarrow> a = b"
proof -
  assume "(crc32c_bit ^^ n) a = (crc32c_bit ^^ n) b"
  then have "(crc32c_bit ^^ n) (a XOR b) = 0" by (simp add: crc32c_bits_xor)
  then have "a XOR b = 0" by (induction n) (auto dest: crc32c_bit_0)
  then show "a = b" using word_xor_cancel(1) [of a b b] by simp
qed

lemma crc32c_bit_push: "\<not> bit z 31 \<Longrightarrow> crc32c_bit (push_bit 1 z) = z"
proof -
  assume z: "\<not> bit z 31"
  have "drop_bit 1 (push_bit 1 z) = z"
  proof (rule bit_word_eqI)
    fix n assume "n < LENGTH(32)"
    then show "bit (drop_bit 1 (push_bit 1 z)) n = bit z n"
      using z unfolding bit_drop_bit_eq o_def bit_push_bit_iff by (cases "n = 31") auto
  qed
  then show ?thesis by (simp add: crc32c_bit_alt)
qed

lemma crc32c_bits_shift:
  "(\<And>k. 32 - n \<le> k \<Longrightarrow> \<not> bit y k) \<Longrightarrow> (crc32c_bit ^^ n) (push_bit n y) = y"
proof (induction n)
  case (Suc n)
  have "\<not> bit (push_bit n y) 31" using Suc.prems by (auto simp: bit_simps)
  then have "crc32c_bit (push_bit 1 (push_bit n y)) = push_bit n y" by (rule crc32c_bit_push)
  then show ?case using Suc by (simp add: funpow_Suc_right del: funpow.simps(2))
qed simp

text \<open>A short run of bytes enters the register as one little-endian integer.\<close>

fun le_int :: "bytes \<Rightarrow> u32" where
  "le_int [] = 0"
| "le_int (b # bs) = ucast b XOR push_bit 8 (le_int bs)"

lemma bit_le_int: "bit (le_int bs) k \<Longrightarrow> k < 8 * length bs"
proof (induction bs arbitrary: k)
  case (Cons b bs)
  then show ?case
    by (fastforce simp: bit_simps dest: bit_imp_le_length)
qed simp

lemma le_int_inj: "length xs = length ys \<Longrightarrow> length xs \<le> 4 \<Longrightarrow> le_int xs = le_int ys \<Longrightarrow> xs = ys"
proof (induction xs arbitrary: ys)
  case (Cons x xs)
  then obtain y zs where ys: "ys = y # zs" "length xs = length zs" by (cases ys) auto
  have eq: "ucast x XOR push_bit 8 (le_int xs) = (ucast y XOR push_bit 8 (le_int zs) :: u32)"
    using Cons.prems(3) ys by simp
  have "bit x k = bit y k" if "k < 8" for k
    using that arg_cong [OF eq, of "\<lambda>w. bit w k"] by (simp add: bit_simps)
  then have "x = y" by (intro bit_word_eqI) simp
  have "bit (le_int xs) k = bit (le_int zs) k" if "k < 32" for k
  proof (cases "k < 24")
    case True
    then show ?thesis
      using arg_cong [OF eq, of "\<lambda>w. bit w (k + 8)"] by (auto simp: bit_simps dest: bit_imp_le_length)
  next
    case False
    then show ?thesis using bit_le_int [of xs k] bit_le_int [of zs k] Cons.prems(1,2) ys by auto
  qed
  then have "le_int xs = le_int zs" by (intro bit_word_eqI) simp
  then show ?case using Cons.IH Cons.prems ys \<open>x = y\<close> by simp
qed simp

lemma crc32c_short_run:
  "length bs \<le> 4 \<Longrightarrow> foldl crc32c_byte c bs = (crc32c_bit ^^ (8 * length bs)) (c XOR le_int bs)"
proof (induction bs arbitrary: c)
  case (Cons b bs)
  have "\<not> bit (le_int bs) k" if "32 - 8 \<le> k" for k
    using that Cons.prems bit_le_int [of bs k] by auto
  then have "(crc32c_bit ^^ 8) (push_bit 8 (le_int bs)) = le_int bs" by (rule crc32c_bits_shift)
  then have "crc32c_byte c b XOR le_int bs = (crc32c_bit ^^ 8) (c XOR le_int (b # bs))"
    by (simp add: crc32c_byte_def xor.assoc [symmetric] del: funpow.simps(2)
        flip: crc32c_bits_xor)
      (simp only: crc32c_bits_xor xor.assoc)
  moreover have "8 * length (b # bs) = 8 * length bs + 8" by simp
  ultimately show ?case using Cons by (simp only: funpow_add o_def foldl_Cons)
qed simp

lemma crc32c_inj: "foldl crc32c_byte a bs = foldl crc32c_byte b bs \<Longrightarrow> a = b"
proof (induction bs arbitrary: a b)
  case (Cons x xs)
  then have "crc32c_byte a x = crc32c_byte b x" using Cons.IH [of "crc32c_byte a x" "crc32c_byte b x"] by simp
  then have "a XOR ucast x = b XOR ucast x" unfolding crc32c_byte_def by (rule crc32c_bits_inj)
  then show ?case by (simp only: word_xor_cancel)
qed simp

lemma crc32c_burst:
  assumes "length xs = length ys" and "length xs \<le> 4"
    and "foldl crc32c_byte c (pre @ xs @ post) = foldl crc32c_byte c (pre @ ys @ post)"
  shows "xs = ys"
proof -
  let ?c = "foldl crc32c_byte c pre"
  have "foldl crc32c_byte ?c xs = foldl crc32c_byte ?c ys"
    using assms(3) crc32c_inj [of "foldl crc32c_byte ?c xs" post "foldl crc32c_byte ?c ys"] by simp
  then have "(crc32c_bit ^^ (8 * length xs)) (?c XOR le_int xs) = (crc32c_bit ^^ (8 * length xs)) (?c XOR le_int ys)"
    using assms(1,2) by (simp add: crc32c_short_run)
  then have "?c XOR le_int xs = ?c XOR le_int ys" by (rule crc32c_bits_inj)
  then have "le_int xs = le_int ys" by (simp only: word_xor_cancel)
  then show ?thesis using assms(1,2) by (intro le_int_inj)
qed

subsection \<open>Frames\<close>

definition frame_crc :: "bytes \<Rightarrow> bytes \<Rightarrow> u32" where
  "frame_crc w b = NOT (foldl crc32c_byte 4294967295 (take 28 w @ b))"

definition frame_ok :: "bytes \<Rightarrow> size_t \<Rightarrow> bytes \<Rightarrow> size_t \<Rightarrow> bool" where
  "frame_ok w sz b bsz \<longleftrightarrow> 32 \<le> length w \<and> 32 \<le> sz \<and> length b = unat bsz \<and> bsz \<le> 16777216"

lemma crc_calculate_eq:
  assumes "frame_ok w sz b bsz"
  shows "vireo_protocol_frame_crc32c_calculate (Some w) sz (Some b) bsz (Some old) =
    (if ucast (rd32 (drop 12 w)) = bsz then (VIREO_OK, Some (frame_crc w b)) else (VIREO_RESULT_RANGE, Some old))"
  using assms
  by (simp add: vireo_protocol_frame_crc32c_calculate_def codec_int_helpers frame_ok_def frame_crc_def
      vireo_protocol_crc32c_update_def not_less [symmetric])

lemma crc_verify_eq:
  assumes "frame_ok w sz b bsz"
  shows "vireo_protocol_frame_crc32c_verify (Some w) sz (Some b) bsz (Some old) =
    (if ucast (rd32 (drop 12 w)) \<noteq> bsz
     then (VIREO_RESULT_RANGE, Some VIREO_PROTOCOL_CODEC_ISSUE_BODY_LENGTH_MISMATCH)
     else if frame_crc w b \<noteq> rd32 (drop 28 w)
     then (VIREO_RESULT_PROTOCOL, Some VIREO_PROTOCOL_CODEC_ISSUE_CRC_MISMATCH)
     else (VIREO_OK, Some VIREO_PROTOCOL_CODEC_ISSUE_NONE))"
proof -
  have "\<not> sz < 32" "\<not> 16777216 < bsz" using assms by (simp_all add: frame_ok_def not_less)
  then show ?thesis
    by (simp add: vireo_protocol_frame_crc32c_verify_def crc_calculate_eq [OF assms] codec_int_helpers Let_def)
qed

text \<open>Only the first \<open>body_size\<close> bytes of the body region matter.\<close>

lemma crc_calculate_take:
  "vireo_protocol_frame_crc32c_calculate w sz (Some b) bsz out =
   vireo_protocol_frame_crc32c_calculate w sz (Some (take (unat bsz) b)) bsz out"
  by (simp add: vireo_protocol_frame_crc32c_calculate_def vireo_protocol_crc32c_update_def)

lemma crc_verify_take:
  "vireo_protocol_frame_crc32c_verify w sz (Some b) bsz out =
   vireo_protocol_frame_crc32c_verify w sz (Some (take (unat bsz) b)) bsz out"
  unfolding vireo_protocol_frame_crc32c_verify_def crc_calculate_take [of w sz b bsz] by simp

lemma header_bytes_at:
  "rd32 (drop 12 (header_bytes h @ r)) = h_body_len h"
  "rd32 (drop 28 (header_bytes h @ r)) = h_crc32c h"
  "take 28 (header_bytes h @ r) = take 28 (header_bytes (h\<lparr>h_crc32c := c\<rparr>) @ r2)"
  by (simp_all add: header_bytes_def w32.dec_enc)

text \<open>
  Sealing a frame: encode a header with an arbitrary checksum, compute the frame's CRC-32C over
  it and the body, and encode the header again with that value. The frame then verifies, and it
  still decodes to the header with only the checksum changed.
\<close>

theorem sealed_frame_verifies:
  assumes "length w = 32" and "h_body_len h \<le> VIREO_PROTOCOL_MAX_BODY_SIZE" and "length b = unat (h_body_len h)"
  shows "\<exists>w1 w2 crc. vireo_protocol_header_encode (Some h) (Some w) 32 = (VIREO_OK, Some w1) \<and>
    vireo_protocol_frame_crc32c_calculate (Some w1) 32 (Some b) (ucast (h_body_len h)) (Some 0) =
      (VIREO_OK, Some crc) \<and>
    vireo_protocol_header_encode (Some (h\<lparr>h_crc32c := crc\<rparr>)) (Some w1) 32 = (VIREO_OK, Some w2) \<and>
    vireo_protocol_frame_crc32c_verify (Some w2) 32 (Some b) (ucast (h_body_len h)) (Some issue) =
      (VIREO_OK, Some VIREO_PROTOCOL_CODEC_ISSUE_NONE) \<and>
    vireo_protocol_header_decode (Some w2) 32 (Some old) (Some issue) =
      (VIREO_OK, Some (h\<lparr>h_crc32c := crc\<rparr>), Some VIREO_PROTOCOL_CODEC_ISSUE_NONE)"
proof -
  let ?n = "ucast (h_body_len h) :: size_t"
  have n: "unat ?n = unat (h_body_len h)" by (simp add: unat_ucast_le)
  have "?n \<le> 16777216" using assms(2) by (simp add: word_le_nat_alt n)
  with assms n have ok: "frame_ok (header_bytes g) 32 b ?n" for g by (simp add: frame_ok_def)
  let ?c = "frame_crc (header_bytes h) b"
  let ?g = "h\<lparr>h_crc32c := ?c\<rparr>"
  have eq: "vireo_protocol_header_encode (Some g) (Some v) 32 = (VIREO_OK, Some (header_bytes g))"
    if "length v = 32" "h_body_len g \<le> VIREO_PROTOCOL_MAX_BODY_SIZE" for g v
    using that by (simp add: header_encode_eq mem_write_def)
  have "frame_crc (header_bytes ?g) b = ?c"
    using header_bytes_at(3) [of h "[]" ?c "[]"] by (simp add: frame_crc_def)
  then have "vireo_protocol_frame_crc32c_verify (Some (header_bytes ?g)) 32 (Some b) ?n (Some issue) =
      (VIREO_OK, Some VIREO_PROTOCOL_CODEC_ISSUE_NONE)"
    using crc_verify_eq [OF ok [of ?g]] header_bytes_at [of ?g "[]"] by simp
  moreover have "vireo_protocol_header_decode (Some (header_bytes ?g)) 32 (Some old) (Some issue) =
      (VIREO_OK, Some ?g, Some VIREO_PROTOCOL_CODEC_ISSUE_NONE)"
    using assms(2) by (subst header_decode_eq) simp_all
  moreover have "vireo_protocol_frame_crc32c_calculate (Some (header_bytes h)) 32 (Some b) ?n (Some 0) =
      (VIREO_OK, Some ?c)"
    using header_bytes_at(1) [of h "[]"] by (simp add: crc_calculate_eq [OF ok])
  ultimately show ?thesis using assms eq by (intro exI [of _ "header_bytes h"] exI [of _ "header_bytes ?g"] exI [of _ ?c]) simp
qed

text \<open>
  C25. Corruption is detected: if a frame verifies, then every frame of the same size that carries the
  same checksum field and differs only inside four consecutive bytes of the checksummed data
  (header prefix followed by body) fails to verify; and so does the same frame with another
  checksum field.
\<close>

theorem crc_detects_bursts:
  assumes "frame_ok w sz b bsz" and "vireo_protocol_frame_crc32c_verify (Some w) sz (Some b) bsz (Some i) = (VIREO_OK, j)"
    and "length w' = length w" and "length b' = length b"
    and "take 28 w @ b = pre @ xs @ post" and "take 28 w' @ b' = pre @ ys @ post"
    and "length xs = length ys" and "length xs \<le> 4"
    and "(xs \<noteq> ys \<and> mem_read 28 4 w' = mem_read 28 4 w) \<or> (xs = ys \<and> mem_read 28 4 w' \<noteq> mem_read 28 4 w)"
  shows "fst (vireo_protocol_frame_crc32c_verify (Some w') sz (Some b') bsz (Some i)) \<noteq> VIREO_OK"
proof -
  have ok': "frame_ok w' sz b' bsz" using assms(1,3,4) by (simp add: frame_ok_def)
  have len: "32 \<le> length w" "32 \<le> length w'" using assms(1,3) by (simp_all add: frame_ok_def)
  have crc: "frame_crc w b = rd32 (drop 28 w)"
    using assms(2) crc_verify_eq [OF assms(1)] by (auto split: if_splits)
  have field: "rd32 (drop 28 w') = rd32 (drop 28 w) \<longleftrightarrow> mem_read 28 4 w' = mem_read 28 4 w"
    using len w32.dec_inject [of "drop 28 w'" "drop 28 w"] by (simp add: mem_read_def)
  have "frame_crc w' b' = frame_crc w b \<longleftrightarrow> xs = ys"
    unfolding frame_crc_def assms(5,6) using crc32c_burst [OF assms(7,8), of 4294967295 pre post]
    by (metis bit.double_compl)
  then have "frame_crc w' b' \<noteq> rd32 (drop 28 w')" using assms(9) crc field by metis
  then show ?thesis by (simp add: crc_verify_eq [OF ok'])
qed

subsection \<open>Request and response headers\<close>

lemma unknown_flags_iff:
  "vireo_protocol_flags_have_unknown_bits flags \<longleftrightarrow> (\<exists>k. bit flags k \<and> 6 \<le> k)"
proof -
  have lt: "k < 16" if "bit flags k" for k using bit_imp_le_length [OF that] by simp
  have m: "(63 :: u16) = mask 6" by (simp add: mask_eq_exp_minus_1)
  have "flags AND NOT (63 :: u16) = 0 \<longleftrightarrow> (\<forall>k. bit flags k \<longrightarrow> k < 6)"
    unfolding m bit_eq_iff using lt by (auto simp: bit_simps)
  then show ?thesis
    unfolding vireo_protocol_flags_have_unknown_bits_def by (auto simp: not_less)
qed

lemma flag_bits:
  "(flags :: u16) AND VIREO_PROTOCOL_FLAG_RESPONSE = 0 \<longleftrightarrow> \<not> bit flags 0"
  "flags AND VIREO_PROTOCOL_FLAG_MORE = 0 \<longleftrightarrow> \<not> bit flags 5"
proof -
  have p: "(32 :: u16) = 2 ^ 5" by simp
  show "flags AND VIREO_PROTOCOL_FLAG_RESPONSE = 0 \<longleftrightarrow> \<not> bit flags 0"
    by (simp add: and_one_eq bit_0 even_iff_mod_2_eq_zero)
  show "flags AND VIREO_PROTOCOL_FLAG_MORE = 0 \<longleftrightarrow> \<not> bit flags 5"
    unfolding p by (simp only: and_exp_eq_0_iff_not_bit)
qed

definition legal_frame :: "vireo_protocol_header \<Rightarrow> bool" where
  "legal_frame h \<longleftrightarrow> h_body_len h \<le> VIREO_PROTOCOL_MAX_BODY_SIZE \<and> (\<forall>k. bit (h_flags h) k \<longrightarrow> k < 6) \<and>
     h_command h \<in> fst ` set command_names \<and> h_sequence h \<noteq> 0"

lemma header_validate_iff:
  "fst (vireo_protocol_request_header_validate (Some h) (Some i)) = VIREO_OK \<longleftrightarrow>
     legal_frame h \<and> \<not> bit (h_flags h) 0 \<and> \<not> bit (h_flags h) 5 \<and> h_status h = 0"
  "fst (vireo_protocol_response_header_validate (Some h) (Some i)) = VIREO_OK \<longleftrightarrow>
     legal_frame h \<and> bit (h_flags h) 0 \<and> h_status h \<in> fst ` set status_names"
proof -
  have reserved: "c \<in> fst ` set command_names \<Longrightarrow> \<not> vireo_command_is_reserved c" for c
    by (cases rule: command_cases [of c]) (simp_all add: command_known_names)
  have known: "legal_frame h \<longleftrightarrow> \<not> h_body_len h > VIREO_PROTOCOL_MAX_BODY_SIZE \<and>
      \<not> vireo_protocol_flags_have_unknown_bits (h_flags h) \<and> \<not> vireo_command_is_reserved (h_command h) \<and>
      vireo_command_is_known (h_command h) \<and> h_sequence h \<noteq> 0"
    using reserved by (auto simp: legal_frame_def unknown_flags_iff command_known_names not_less not_le)
  show "fst (vireo_protocol_request_header_validate (Some h) (Some i)) = VIREO_OK \<longleftrightarrow>
      legal_frame h \<and> \<not> bit (h_flags h) 0 \<and> \<not> bit (h_flags h) 5 \<and> h_status h = 0"
    unfolding known by (simp add: vireo_protocol_request_header_validate_def Let_def flag_bits)
  show "fst (vireo_protocol_response_header_validate (Some h) (Some i)) = VIREO_OK \<longleftrightarrow>
      legal_frame h \<and> bit (h_flags h) 0 \<and> h_status h \<in> fst ` set status_names"
    unfolding known status_known_names [symmetric]
    by (simp add: vireo_protocol_response_header_validate_def Let_def flag_bits)
qed

text \<open>
  The header checks accept exactly the legal frames: bounded body, only the six defined flag
  bits, a named command, a non-zero sequence; as a request without the RESPONSE and MORE bits and
  with status 0, as a response with the RESPONSE bit and a registered status. The issue is NONE
  exactly when the check passes, and no header passes both checks.
\<close>

theorem header_validation_exact:
  "(fst (vireo_protocol_request_header_validate (Some h) (Some i)) = VIREO_OK \<longleftrightarrow>
      legal_frame h \<and> \<not> bit (h_flags h) 0 \<and> \<not> bit (h_flags h) 5 \<and> h_status h = 0) \<and>
   (fst (vireo_protocol_response_header_validate (Some h) (Some i)) = VIREO_OK \<longleftrightarrow>
      legal_frame h \<and> bit (h_flags h) 0 \<and> h_status h \<in> fst ` set status_names) \<and>
   (fst (vireo_protocol_request_header_validate (Some h) (Some i)) = VIREO_OK \<longleftrightarrow>
      snd (vireo_protocol_request_header_validate (Some h) (Some i)) = Some VIREO_PROTOCOL_CODEC_ISSUE_NONE) \<and>
   (fst (vireo_protocol_response_header_validate (Some h) (Some i)) = VIREO_OK \<longleftrightarrow>
      snd (vireo_protocol_response_header_validate (Some h) (Some i)) = Some VIREO_PROTOCOL_CODEC_ISSUE_NONE) \<and>
   \<not> (fst (vireo_protocol_request_header_validate (Some h) (Some i)) = VIREO_OK \<and>
      fst (vireo_protocol_response_header_validate (Some h) (Some i)) = VIREO_OK)"
proof -
  have "fst (vireo_protocol_request_header_validate (Some h) (Some i)) = VIREO_OK \<longleftrightarrow>
      snd (vireo_protocol_request_header_validate (Some h) (Some i)) = Some VIREO_PROTOCOL_CODEC_ISSUE_NONE"
    by (simp add: vireo_protocol_request_header_validate_def Let_def)
  moreover have "fst (vireo_protocol_response_header_validate (Some h) (Some i)) = VIREO_OK \<longleftrightarrow>
      snd (vireo_protocol_response_header_validate (Some h) (Some i)) = Some VIREO_PROTOCOL_CODEC_ISSUE_NONE"
    by (simp add: vireo_protocol_response_header_validate_def Let_def)
  ultimately show ?thesis using header_validate_iff [of h i] by blast
qed

subsection \<open>A concrete frame\<close>

definition demo_header :: vireo_protocol_header where
  "demo_header = \<lparr>h_command = 1025, h_flags = 0, h_status = 0, h_body_len = 2, h_sequence = 7,
                  h_session_handle = 9, h_task_handle = 0, h_crc32c = 0\<rparr>"

theorem header_codec_roundtrip_witness:
  "\<exists>w'. vireo_protocol_header_encode (Some demo_header) (Some (replicate 40 255)) 40 = (VIREO_OK, Some w') \<and>
     drop 32 w' = replicate 8 255 \<and>
     vireo_protocol_header_decode (Some w') 40 (Some demo_header) (Some VIREO_PROTOCOL_CODEC_ISSUE_NONE) =
       (VIREO_OK, Some demo_header, Some VIREO_PROTOCOL_CODEC_ISSUE_NONE)"
proof -
  have "32 \<le> length (replicate 40 (255 :: u8))" "(32 :: size_t) \<le> 40"
    "h_body_len demo_header \<le> VIREO_PROTOCOL_MAX_BODY_SIZE"
    by (simp_all add: demo_header_def)
  from header_codec_roundtrip [OF this, THEN conjunct1] show ?thesis by auto
qed

theorem sealed_frame_verifies_witness:
  "\<exists>w crc. vireo_protocol_header_encode (Some (demo_header\<lparr>h_crc32c := crc\<rparr>)) (Some w) 32 = (VIREO_OK, Some w) \<and>
     vireo_protocol_frame_crc32c_verify (Some w) 32 (Some [104, 105]) 2 (Some VIREO_PROTOCOL_CODEC_ISSUE_NONE) =
       (VIREO_OK, Some VIREO_PROTOCOL_CODEC_ISSUE_NONE)"
proof -
  have "length (replicate 32 (0 :: u8)) = 32" "h_body_len demo_header \<le> VIREO_PROTOCOL_MAX_BODY_SIZE"
    "length [104, 105 :: u8] = unat (h_body_len demo_header)"
    by (simp_all add: demo_header_def)
  from sealed_frame_verifies [OF this] obtain w1 w2 crc
    where s: "vireo_protocol_header_encode (Some demo_header) (Some (replicate 32 0)) 32 = (VIREO_OK, Some w1)"
    "vireo_protocol_header_encode (Some (demo_header\<lparr>h_crc32c := crc\<rparr>)) (Some w1) 32 = (VIREO_OK, Some w2)"
    "vireo_protocol_frame_crc32c_verify (Some w2) 32 (Some [104, 105]) (ucast (h_body_len demo_header))
       (Some VIREO_PROTOCOL_CODEC_ISSUE_NONE) = (VIREO_OK, Some VIREO_PROTOCOL_CODEC_ISSUE_NONE)"
    by blast
  have "w2 = header_bytes (demo_header\<lparr>h_crc32c := crc\<rparr>)"
    using s(1,2) by (auto simp: header_encode_eq demo_header_def mem_write_def)
  then have "vireo_protocol_header_encode (Some (demo_header\<lparr>h_crc32c := crc\<rparr>)) (Some w2) 32 = (VIREO_OK, Some w2)"
    by (simp add: header_encode_eq demo_header_def mem_write_def)
  then show ?thesis using s(3) by (auto simp: demo_header_def)
qed

text \<open>The frame of \<open>demo_header\<close> with its checksum, and the same frame with one body byte changed.\<close>

definition demo_frame :: bytes where
  "demo_frame = header_bytes (demo_header\<lparr>h_crc32c := frame_crc (header_bytes demo_header) [104, 105]\<rparr>)"

theorem crc_detects_bursts_witness:
  "fst (vireo_protocol_frame_crc32c_verify (Some demo_frame) 32 (Some [104, 106]) 2
     (Some VIREO_PROTOCOL_CODEC_ISSUE_NONE)) \<noteq> VIREO_OK"
proof -
  have ok: "frame_ok demo_frame 32 [104, 105] 2" by (simp add: frame_ok_def demo_frame_def)
  have v: "vireo_protocol_frame_crc32c_verify (Some demo_frame) 32 (Some [104, 105]) 2
      (Some VIREO_PROTOCOL_CODEC_ISSUE_NONE) = (VIREO_OK, Some VIREO_PROTOCOL_CODEC_ISSUE_NONE)"
  proof -
    let ?c = "frame_crc (header_bytes demo_header) [104, 105]"
    have "frame_crc demo_frame [104, 105] = ?c"
      using header_bytes_at(3) [of demo_header "[]" ?c "[]"] by (simp add: frame_crc_def demo_frame_def)
    moreover have "rd32 (drop 28 demo_frame) = ?c" "rd32 (drop 12 demo_frame) = 2"
      using header_bytes_at(1,2) [of "demo_header\<lparr>h_crc32c := ?c\<rparr>" "[]"]
      by (simp_all add: demo_frame_def) (simp add: demo_header_def)
    ultimately show ?thesis by (simp add: crc_verify_eq [OF ok])
  qed
  show ?thesis
    by (rule crc_detects_bursts [OF ok v, where pre = "take 28 demo_frame @ [104]" and xs = "[105]" and
          ys = "[106]" and post = "[]"]) simp_all
qed

end
