(* ===== verification/Protocol_Message.thy ===== *)
theory Protocol_Message
  imports Protocol_Codec Protocol_Schema
begin

text \<open>
  What the message codecs of \<^verbatim>\<open>src/protocol/node_*.c\<close> share: every one of these files has the same
  static \<^verbatim>\<open>publish\<close>, which seals a frame built in a local array and copies it out in one go.
  \<open>sealed h body\<close> is such a frame. An output array of the caller is a byte list, of which a
  successful encode overwrites a prefix.
\<close>

definition publish ::
  "vireo_protocol_header \<Rightarrow> bytes \<Rightarrow> size_t \<Rightarrow> bytes \<Rightarrow> size_t \<Rightarrow> vireo_result \<times> bytes \<times> size_t" where
  "publish h frame sz wire out_size =
     (let (rc, frame) = vireo_protocol_header_encode (Some h) (Some frame) 32;
          (rc, crc) = (if rc = VIREO_OK
                       then vireo_protocol_frame_crc32c_calculate frame 32 (Some (drop 32 (the frame)))
                              (sz - 32) (Some (h_crc32c h))
                       else (rc, Some (h_crc32c h)));
          h = h\<lparr>h_crc32c := the crc\<rparr>;
          (rc, frame) = (if rc = VIREO_OK then vireo_protocol_header_encode (Some h) frame 32 else (rc, frame))
      in if rc = VIREO_OK
         then (rc, mem_write 0 (take (unat sz) (the frame)) wire, sz)
         else (rc, wire, out_size))"

definition sealed :: "vireo_protocol_header \<Rightarrow> bytes \<Rightarrow> bytes" where
  "sealed h body = header_bytes (h\<lparr>h_crc32c := frame_crc (header_bytes h) body\<rparr>) @ body"

definition body_ok :: "vireo_protocol_header \<Rightarrow> bytes \<Rightarrow> bool" where
  "body_ok h body \<longleftrightarrow> unat (h_body_len h) = length body \<and> h_body_len h \<le> VIREO_PROTOCOL_MAX_BODY_SIZE"

lemma length_sealed [simp]: "length (sealed h body) = 32 + length body"
  by (simp add: sealed_def)

lemma sealed_parts [simp]:
  "take 32 (sealed h body) = header_bytes (h\<lparr>h_crc32c := frame_crc (header_bytes h) body\<rparr>)"
  "drop 32 (sealed h body) = body"
  by (simp_all add: sealed_def)

lemma body_ok_facts:
  assumes "body_ok h body"
  shows "length body \<le> 16777216" and "unat (ucast (h_body_len h) :: size_t) = length body"
    and "frame_ok (header_bytes g @ r) 32 body (ucast (h_body_len h))"
proof -
  show n: "unat (ucast (h_body_len h) :: size_t) = length body"
    using assms by (simp add: body_ok_def unat_ucast_le)
  show le: "length body \<le> 16777216" using assms by (simp add: body_ok_def word_le_nat_alt)
  show "frame_ok (header_bytes g @ r) 32 body (ucast (h_body_len h))"
    using n le by (simp add: frame_ok_def word_le_nat_alt)
qed

lemma publish_eq:
  assumes ok: "body_ok h body" and frame: "32 \<le> length frame" "take (length body) (drop 32 frame) = body"
    and sz: "unat sz = 32 + length body"
  shows "publish h frame sz wire old = (VIREO_OK, mem_write 0 (sealed h body) wire, sz)"
proof -
  let ?n = "ucast (h_body_len h) :: size_t"
  note facts = body_ok_facts [OF ok]
  have n: "sz - 32 = ?n"
    using sz facts(2) by (simp add: word_unat_eq_iff) (subst unat_sub_le; simp add: word_le_nat_alt)
  have len: "h_body_len h \<le> VIREO_PROTOCOL_MAX_BODY_SIZE" using ok by (simp add: body_ok_def)
  have enc: "vireo_protocol_header_encode (Some g) (Some f) 32 = (VIREO_OK, Some (header_bytes g @ drop 32 f))"
    if "h_body_len g \<le> VIREO_PROTOCOL_MAX_BODY_SIZE" for g f
    using that by (simp add: header_encode_eq mem_write_def)
  have crc: "vireo_protocol_frame_crc32c_calculate (Some (header_bytes h @ drop 32 frame)) 32
      (Some (drop 32 frame)) ?n (Some c) = (VIREO_OK, Some (frame_crc (header_bytes h) body))" for c
    using crc_calculate_eq [OF facts(3)] header_bytes_at(1) frame(2) facts(2)
    by (subst crc_calculate_take) (simp add: frame_crc_def)
  have "take (unat sz) (header_bytes g @ drop 32 frame) = header_bytes g @ body" for g
    using sz frame(2) by simp
  then show ?thesis
    using len by (simp add: publish_def enc n crc sealed_def)
qed

lemma sealed_decode:
  assumes "body_ok h body" and "32 \<le> sz"
  shows "vireo_protocol_header_decode (Some (sealed h body)) sz (Some old) (Some i) =
    (VIREO_OK, Some (h\<lparr>h_crc32c := frame_crc (header_bytes h) body\<rparr>), Some VIREO_PROTOCOL_CODEC_ISSUE_NONE)"
  using assms by (subst header_decode_eq) (simp_all add: body_ok_def)

lemma sealed_verify:
  assumes "body_ok h body"
  shows "vireo_protocol_frame_crc32c_verify (Some (sealed h body)) 32 (Some body) (ucast (h_body_len h)) (Some i) =
    (VIREO_OK, Some VIREO_PROTOCOL_CODEC_ISSUE_NONE)"
proof -
  let ?c = "frame_crc (header_bytes h) body"
  have "frame_crc (sealed h body) body = ?c"
    using header_bytes_at(3) [of h body ?c body] by (simp add: frame_crc_def sealed_def)
  then show ?thesis
    unfolding sealed_def using crc_verify_eq [OF body_ok_facts(3) [OF assms]] header_bytes_at(1,2)
    by simp
qed

subsection \<open>Writing a body\<close>

text \<open>
  The writer of an encode works on the part of the local frame behind the header. \<open>put_seq\<close> is the
  chain \<^verbatim>\<open>if (rc == VIREO_OK) rc = put(...)\<close> of the encoders: the first failing call ends it.
\<close>

definition body_writer :: "bytes \<Rightarrow> size_t \<Rightarrow> vireo_result \<times> vireo_tlv_writer option" where
  "body_writer frame capacity =
     vireo_tlv_writer_init (Some \<lparr>tw_data = None, tw_capacity = 0, tw_used = 0\<rparr>) (Some (drop 32 frame)) capacity"

definition body_frame :: "bytes \<Rightarrow> vireo_tlv_writer option \<Rightarrow> bytes" where
  "body_frame frame w = take 32 frame @ the (tw_data (the w))"

definition put_seq :: "(vireo_tlv_writer option \<Rightarrow> vireo_result \<times> vireo_tlv_writer option) list \<Rightarrow>
    vireo_result \<times> vireo_tlv_writer option \<Rightarrow> vireo_result \<times> vireo_tlv_writer option" where
  "put_seq puts st = foldl (\<lambda>st put. if fst st = VIREO_OK then put (snd st) else st) st puts"

definition field_put :: "field \<Rightarrow> vireo_tlv_writer option \<Rightarrow> vireo_result \<times> vireo_tlv_writer option" where
  "field_put f w = vireo_tlv_writer_put w (fst f) (Some (snd f)) (word_of_nat (length (snd f)))"

lemma writer_put_take: "vireo_tlv_writer_put w t (Some d) n = vireo_tlv_writer_put w t (Some (take (unat n) d)) n"
  unfolding vireo_tlv_writer_put_def option.sel take_take min.idem by simp

lemma field_puts:
  "(\<lambda>w. vireo_tlv_writer_put_u16 w t v2) = field_put (t, be16 v2)"
  "(\<lambda>w. vireo_tlv_writer_put_u64 w t v8) = field_put (t, be64 v8)"
  "unat n \<le> length d \<Longrightarrow> (\<lambda>w. vireo_tlv_writer_put w t (Some d) n) = field_put (t, take (unat n) d)"
  using writer_put_take [of _ t d n]
  by (auto simp: fun_eq_iff field_put_def writer_put_ints min_absorb2)

lemma field_put_some: "field_put f (Some w) = map_prod id Some (writer_put f w)"
proof -
  have "snd (field_put f (Some w)) \<noteq> None"
    by (simp add: field_put_def vireo_tlv_writer_put_def Let_def split: prod.split)
  then show ?thesis by (cases "field_put f (Some w)") (auto simp: writer_put_def field_put_def)
qed

lemma put_seq_all: "put_seq (map field_put fs) (VIREO_OK, Some w) = map_prod id Some (put_all writer_put fs w)"
proof -
  have stop: "rc \<noteq> VIREO_OK \<Longrightarrow> put_seq ps (rc, w) = (rc, w)" for rc ps and w :: "vireo_tlv_writer option"
    by (induction ps) (simp_all add: put_seq_def)
  show ?thesis
  proof (induction fs arbitrary: w)
    case (Cons f fs)
    obtain rc w1 where p: "writer_put f w = (rc, w1)" by (metis surj_pair)
    have "put_seq (map field_put (f # fs)) (VIREO_OK, Some w) = put_seq (map field_put fs) (rc, Some w1)"
      by (simp add: put_seq_def field_put_some p)
    then show ?case using Cons.IH [of w1] stop p by (cases "rc = VIREO_OK") simp_all
  qed (simp add: put_seq_def)
qed

lemma body_written:
  assumes fits: "list_all field_fits fs" and cap: "unat cap = length (tlv_encode fs)"
    and frame: "32 + unat cap \<le> length frame"
  obtains w where "put_seq (map field_put fs) (body_writer frame cap) = (VIREO_OK, Some w)"
    and "32 \<le> length (body_frame frame (Some w))"
    and "take (length (tlv_encode fs)) (drop 32 (body_frame frame (Some w))) = tlv_encode fs"
    and "tw_used w = cap"
proof -
  obtain w0 where w0: "body_writer frame cap = (VIREO_OK, Some w0)" "writer_ok w0" "writer_written w0 = []"
    "writer_room w0 = unat cap"
    using frame by (auto simp: body_writer_def vireo_tlv_writer_init_def writer_ok_def writer_written_def writer_room_def)
  obtain w where w: "put_all writer_put fs w0 = (VIREO_OK, w)" "writer_ok w" "writer_written w = tlv_encode fs"
    using tlv_sink.put_all_fits [OF w0(2) fits] w0(3,4) cap by auto
  have used: "length (tlv_encode fs) = unat (tw_used w)"
    using w(2,3) by (auto simp: writer_written_def writer_ok_def word_le_nat_alt min_absorb2 dest: arg_cong [of _ _ length])
  show thesis
  proof (rule that [of w])
    show "put_seq (map field_put fs) (body_writer frame cap) = (VIREO_OK, Some w)"
      using w0(1) w(1) put_seq_all by simp
    show "32 \<le> length (body_frame frame (Some w))" using frame by (simp add: body_frame_def)
    show "take (length (tlv_encode fs)) (drop 32 (body_frame frame (Some w))) = tlv_encode fs"
      using w(3) used frame by (simp add: body_frame_def writer_written_def min_absorb2)
    show "tw_used w = cap" using used cap by (simp add: word_unat_eq_iff)
  qed
qed

lemma body_empty:
  "body_writer frame 0 = (VIREO_OK, Some \<lparr>tw_data = Some (drop 32 frame), tw_capacity = 0, tw_used = 0\<rparr>)"
  by (simp add: body_writer_def vireo_tlv_writer_init_def)

subsection \<open>Reading a frame\<close>

text \<open>
  The first stage of every decoder: decode the header and check it for its direction. The decoders
  reject a frame with one issue for both steps.
\<close>

definition zero_header :: vireo_protocol_header where
  "zero_header = \<lparr>h_command = 0, h_flags = 0, h_status = 0, h_body_len = 0, h_sequence = 0,
     h_session_handle = 0, h_task_handle = 0, h_crc32c = 0\<rparr>"

definition checked_header :: "bytes \<Rightarrow> size_t \<Rightarrow> bool \<Rightarrow> vireo_protocol_header option" where
  "checked_header wire sz response =
     (let (rc, header, issue) = vireo_protocol_header_decode (Some wire) sz (Some zero_header)
                                  (Some VIREO_PROTOCOL_CODEC_ISSUE_NONE) in
      if rc \<noteq> VIREO_OK then None
      else if fst (if response then vireo_protocol_response_header_validate header issue
                   else vireo_protocol_request_header_validate header issue) \<noteq> VIREO_OK then None
      else header)"

definition crc_ok :: "bytes \<Rightarrow> vireo_protocol_header \<Rightarrow> bool" where
  "crc_ok wire h \<longleftrightarrow>
     fst (vireo_protocol_frame_crc32c_verify (Some wire) 32 (Some (drop 32 wire)) (ucast (h_body_len h))
            (Some VIREO_PROTOCOL_CODEC_ISSUE_NONE)) = VIREO_OK"

definition direction_ok :: "bool \<Rightarrow> vireo_protocol_header \<Rightarrow> bool" where
  "direction_ok response h \<longleftrightarrow>
     (if response then bit (h_flags h) 0 \<and> h_status h \<in> fst ` set status_names
      else \<not> bit (h_flags h) 0 \<and> \<not> bit (h_flags h) 5 \<and> h_status h = 0)"

lemma checked_header_iff:
  assumes "unat sz \<le> length wire"
  shows "checked_header wire sz response = Some h \<longleftrightarrow>
    32 \<le> sz \<and> take 32 wire = header_bytes h \<and> legal_frame h \<and> direction_ok response h"
proof (cases "32 \<le> sz")
  case True
  then have len: "32 \<le> length wire" using assms by (simp add: word_le_nat_alt)
  note dec = header_decode_eq [OF len True, of zero_header VIREO_PROTOCOL_CODEC_ISSUE_NONE]
  obtain rc g i where d: "vireo_protocol_header_decode (Some wire) sz (Some zero_header)
      (Some VIREO_PROTOCOL_CODEC_ISSUE_NONE) = (rc, g, i)" by (metis prod_cases3)
  have gi: "rc = VIREO_OK \<Longrightarrow> \<exists>g' i'. g = Some g' \<and> i = Some i'"
    using d by (auto simp: vireo_protocol_header_decode_def Let_def split: if_splits)
  show ?thesis
  proof (cases "rc = VIREO_OK")
    case True
    then obtain g' i' where g: "g = Some g'" "i = Some i'" using gi by blast
    have "checked_header wire sz response = Some h \<longleftrightarrow> g' = h \<and> legal_frame h \<and> direction_ok response h"
      using header_validate_iff [of h i'] by (auto simp: checked_header_def d g True direction_ok_def)
    moreover have "g' = h \<longleftrightarrow> take 32 wire = header_bytes h \<and> h_body_len h \<le> VIREO_PROTOCOL_MAX_BODY_SIZE"
      if "legal_frame h"
      using dec [of h i'] dec [of g' i'] d g True by auto
    ultimately show ?thesis using \<open>32 \<le> sz\<close> by (auto simp: legal_frame_def)
  next
    case False
    then show ?thesis using dec [of h VIREO_PROTOCOL_CODEC_ISSUE_NONE] d
      by (auto simp: checked_header_def legal_frame_def)
  qed
qed (auto simp: checked_header_def vireo_protocol_header_decode_def Let_def not_le)

lemma crc_ok_sealed: "body_ok h body \<Longrightarrow> crc_ok (sealed h body) (h\<lparr>h_crc32c := c\<rparr>)"
  by (simp add: crc_ok_def sealed_verify)

lemma sealed_checked:
  assumes "body_ok h body" and "legal_frame h" and "direction_ok response h" and "unat sz = 32 + length body"
  shows "checked_header (sealed h body) sz response = Some (h\<lparr>h_crc32c := frame_crc (header_bytes h) body\<rparr>)"
  using assms by (subst checked_header_iff) (simp_all add: word_le_nat_alt legal_frame_def direction_ok_def)

text \<open>The header initialisers of the encoders: the fields not named are zero.\<close>

definition message_header :: "bool \<Rightarrow> u16 \<Rightarrow> u16 \<Rightarrow> u32 \<Rightarrow> u32 \<Rightarrow> u32 \<Rightarrow> vireo_protocol_header" where
  "message_header response command status body_len sequence session_handle =
     zero_header\<lparr>h_command := command, h_flags := (if response then VIREO_PROTOCOL_FLAG_RESPONSE else 0),
       h_status := status, h_body_len := body_len, h_sequence := sequence, h_session_handle := session_handle\<rparr>"

lemma message_header_simps [simp]:
  "h_command (message_header r c st n q sh) = c"
  "h_flags (message_header r c st n q sh) = (if r then 1 else 0)"
  "h_status (message_header r c st n q sh) = st"
  "h_body_len (message_header r c st n q sh) = n"
  "h_sequence (message_header r c st n q sh) = q"
  "h_session_handle (message_header r c st n q sh) = sh"
  "h_task_handle (message_header r c st n q sh) = 0"
  by (simp_all add: message_header_def zero_header_def)

lemma message_sealed:
  assumes "vireo_command_is_known c" and "q \<noteq> 0" and "if r then vireo_status_is_known st else st = 0"
    and "unat n = length body" and "length body \<le> 16777216" and "unat sz = 32 + length body"
  shows "\<exists>crc. checked_header (sealed (message_header r c st n q sh) body) sz r =
      Some ((message_header r c st n q sh)\<lparr>h_crc32c := crc\<rparr>) \<and>
    crc_ok (sealed (message_header r c st n q sh) body) ((message_header r c st n q sh)\<lparr>h_crc32c := crc\<rparr>)"
proof -
  let ?h = "message_header r c st n q sh"
  have ok: "body_ok ?h body" using assms(4,5) by (simp add: body_ok_def word_le_nat_alt)
  have "legal_frame ?h" "direction_ok r ?h"
    using assms(1-5)
    by (auto simp: legal_frame_def direction_ok_def command_known_names status_known_names word_le_nat_alt bit_1_iff)
  then show ?thesis using sealed_checked [OF ok _ _ assms(6)] crc_ok_sealed [OF ok] by blast
qed

lemma message_publish:
  assumes "unat n = length body" and "length body \<le> 16777216" and "unat sz = 32 + length body"
    and "32 \<le> length frame" "take (length body) (drop 32 frame) = body"
  shows "publish (message_header r c st n q sh) frame sz wire old =
    (VIREO_OK, mem_write 0 (sealed (message_header r c st n q sh) body) wire, sz)"
  using assms by (intro publish_eq) (simp_all add: body_ok_def word_le_nat_alt)

lemma checked_header_facts:
  assumes "checked_header wire sz r = Some h" and "unat sz \<le> length wire"
  shows "h_sequence h \<noteq> 0" and "h_body_len h \<le> VIREO_PROTOCOL_MAX_BODY_SIZE" and "r \<or> h_status h = 0"
  using assms checked_header_iff [OF assms(2), of r h]
  by (auto simp: legal_frame_def direction_ok_def split: if_splits)

text \<open>Bodies of one field.\<close>

lemma single_field:
  assumes "rule_required r" and "\<not> rule_repeatable r"
  shows "schema_accepts [r] VIREO_TLV_UNKNOWN_REJECT fs \<longleftrightarrow> (\<exists>v. fs = [(rule_type r, v)] \<and> value_spec r v)"
proof
  assume acc: "schema_accepts [r] VIREO_TLV_UNKNOWN_REJECT fs"
  then have all: "\<forall>f \<in> set fs. fst f = rule_type r \<and> value_spec r (snd f)" and "fs \<noteq> []"
    and count: "count_list (map fst fs) (rule_type r) \<le> 1"
    using assms by (auto simp: schema_accepts_def)
  then obtain f gs where fs: "fs = f # gs" by (cases fs) auto
  with all count have "gs = []" by (cases gs) auto
  with fs all show "\<exists>v. fs = [(rule_type r, v)] \<and> value_spec r v" by (cases f) auto
qed (use assms in \<open>auto simp: schema_accepts_def\<close>)

lemma single_field_schema:
  assumes "unat n \<le> length body" and "rule_required r" and "\<not> rule_repeatable r" and "seen \<noteq> []" and "1 \<le> cap"
    and "vireo_tlv_rules_are_valid (Some (r # rs)) 1"
  shows "fst (vireo_tlv_schema_validate (Some body) n (Some (r # rs)) 1 VIREO_TLV_UNKNOWN_REJECT
      (Some seen) cap (Some i)) = VIREO_OK \<longleftrightarrow>
    (\<exists>v. take (unat n) body = field_bytes (rule_type r, v) \<and> field_fits (rule_type r, v) \<and> value_spec r v)"
proof -
  have "fst (vireo_tlv_schema_validate (Some body) n (Some (r # rs)) 1 VIREO_TLV_UNKNOWN_REJECT
      (Some seen) cap (Some i)) = VIREO_OK \<longleftrightarrow>
    (\<exists>fs. take (unat n) body = tlv_encode fs \<and> list_all field_fits fs \<and>
       (\<exists>v. fs = [(rule_type r, v)] \<and> value_spec r v))"
    using assms single_field [OF assms(2,3)]
    by (subst schema_validate_iff(1)) (auto simp: neq_Nil_conv)
  also have "\<dots> \<longleftrightarrow> (\<exists>v. take (unat n) body = tlv_encode [(rule_type r, v)] \<and>
      list_all field_fits [(rule_type r, v)] \<and> value_spec r v)" by blast
  finally show ?thesis by simp
qed

lemma rd_be [simp]: "rd16 (be16 v2) = v2" "rd64 (be64 v8) = v8"
  using w16.dec_enc [of v2 "[]"] w64.dec_enc [of v8 "[]"] by simp_all

text \<open>
  \<open>first_u64\<close> is the condition \<^verbatim>\<open>reader_init(...) != VIREO_OK || reader_next(...) != VIREO_OK ||\<close>
  \<^verbatim>\<open>view_read_u64(...) != VIREO_OK\<close> of the decoders whose body is one identifier: \<open>None\<close> when one of
  the calls fails, else the number read.
\<close>

definition first_u64 :: "bytes \<Rightarrow> size_t \<Rightarrow> u64 option" where
  "first_u64 body sz =
     (let (rc, reader) = vireo_tlv_reader_init (Some \<lparr>tr_data = None, tr_size = 0, tr_offset = 0\<rparr>) (Some body) sz in
      if rc \<noteq> VIREO_OK then None
      else let (rc, reader, view, issue) = vireo_tlv_reader_next reader (Some zero_view) (Some VIREO_TLV_ISSUE_NONE) in
      if rc \<noteq> VIREO_OK then None
      else let (rc, value) = vireo_tlv_view_read_u64 view (Some 0) in
      if rc \<noteq> VIREO_OK then None else value)"

lemma first_u64_field:
  assumes "take (unat sz) body = field_bytes (t, v)" and "unat sz \<le> length body" and "length v = 8"
  shows "first_u64 body sz = Some (rd64 v)"
proof -
  obtain r where r: "vireo_tlv_reader_init (Some \<lparr>tr_data = None, tr_size = 0, tr_offset = 0\<rparr>) (Some body) sz =
      (VIREO_OK, Some r)" "reader_ok r" "reader_rest r = field_bytes (t, v)"
    using reader_init_OK [OF assms(2)] assms(1) by metis
  have step: "tlv_step (reader_rest r) = Inr (Some ((t, v), []))"
    using tlv_step_field [of "(t, v)" "[]"] assms(3) r(3) by (simp add: field_fits_def)
  from r(2) show ?thesis
  proof (cases rule: reader_next_cases [where oldv = zero_view and oldi = VIREO_TLV_ISSUE_NONE])
    case (field g r' w)
    then have "view_of w (t, v)" using step by simp
    from view_reads(3) [OF this] field r(1) assms(3) show ?thesis by (simp add: first_u64_def)
  qed (use step in auto)
qed

lemma frame_body_size:
  fixes n :: size_t
  assumes "unat n \<le> length wire" and "n = 32 + ucast (len :: u32)" and "len \<le> VIREO_PROTOCOL_MAX_BODY_SIZE"
  shows "unat (ucast len :: size_t) = length (take (unat n) wire) - 32" and "32 \<le> unat n"
    and "unat (ucast len :: size_t) \<le> length (drop 32 wire)"
proof -
  have "unat (ucast len :: size_t) = unat len" by (simp add: unat_ucast_le)
  moreover have "unat len \<le> 16777216" using assms(3) by (simp add: word_le_nat_alt)
  ultimately have "unat n = 32 + unat (ucast len :: size_t)"
    using assms(2) unat_add_less [of 32 "ucast len :: size_t"] by simp
  then show "unat (ucast len :: size_t) = length (take (unat n) wire) - 32" "32 \<le> unat n"
    "unat (ucast len :: size_t) \<le> length (drop 32 wire)"
    using assms(1) by (simp_all add: min_absorb2)
qed

text \<open>
  The field loops of the decoders: initialise a reader over the body and hand every field to
  \<open>on_field\<close>.
\<close>

definition read_body ::
  "(vireo_tlv_view \<Rightarrow> 's \<Rightarrow> vireo_result \<times> 's) \<Rightarrow> bytes \<Rightarrow> size_t \<Rightarrow> 's \<Rightarrow> vireo_result \<times> 's" where
  "read_body on_field body sz s =
     (let (rc, reader) = vireo_tlv_reader_init (Some \<lparr>tr_data = None, tr_size = 0, tr_offset = 0\<rparr>) (Some body) sz
      in if rc \<noteq> VIREO_OK then (rc, s) else tlv_read_loop on_field (the reader) s)"

lemma read_body_fields:
  assumes "take (unat sz) body = tlv_encode fs" and "unat sz \<le> length body" and "list_all field_fits fs"
    and "\<And>v f s. f \<in> set fs \<Longrightarrow> view_of v f \<Longrightarrow> on_field v s = g f s"
  shows "read_body on_field body sz s = fields_run g fs s"
proof -
  obtain r where "vireo_tlv_reader_init (Some \<lparr>tr_data = None, tr_size = 0, tr_offset = 0\<rparr>) (Some body) sz =
      (VIREO_OK, Some r)" "reader_ok r" "reader_rest r = tlv_encode fs"
    using reader_init_OK [OF assms(2)] assms(1) by metis
  moreover from this have "tlv_read_loop on_field r s = fields_run g fs s"
    by (intro tlv_read_loop_fields [OF _ _ assms(3,4)])
  ultimately show ?thesis by (simp add: read_body_def)
qed

lemma fields_run_Cons_OK:
  assumes "fields_run g (f # fs) s = (VIREO_OK, s')"
  obtains s1 where "g f s = (VIREO_OK, s1)" and "fields_run g fs s1 = (VIREO_OK, s')"
  using assms by (auto split: prod.splits if_splits)

lemma fields_run_inv:
  assumes "fields_run g fs s = (VIREO_OK, s')" and "P s"
    and step: "\<And>f s s'. f \<in> S \<Longrightarrow> P s \<Longrightarrow> g f s = (VIREO_OK, s') \<Longrightarrow> P s'" and "set fs \<subseteq> S"
  shows "P s'"
  using assms(1,2,4)
proof (induction fs arbitrary: s)
  case (Cons f fs)
  from Cons.prems(1) obtain s1 where s1: "g f s = (VIREO_OK, s1)" "fields_run g fs s1 = (VIREO_OK, s')"
    by (rule fields_run_Cons_OK)
  have "P s1" using Cons.prems(2,3) s1(1) step [of f s s1] by simp
  with s1(2) Cons.prems(3) show ?case using Cons.IH [of s1] by simp
qed simp

lemma fields_run_sets:
  assumes "fields_run g fs s = (VIREO_OK, s')" and "t \<in> fst ` set fs"
    and hit: "\<And>f s s'. f \<in> S \<Longrightarrow> fst f = t \<Longrightarrow> g f s = (VIREO_OK, s') \<Longrightarrow> P s'"
    and step: "\<And>f s s'. f \<in> S \<Longrightarrow> P s \<Longrightarrow> g f s = (VIREO_OK, s') \<Longrightarrow> P s'" and "set fs \<subseteq> S"
  shows "P s'"
  using assms(1,2,5)
proof (induction fs arbitrary: s)
  case (Cons f fs)
  from Cons.prems(1) obtain s1 where s1: "g f s = (VIREO_OK, s1)" "fields_run g fs s1 = (VIREO_OK, s')"
    by (rule fields_run_Cons_OK)
  show ?case
  proof (cases "fst f = t")
    case True
    then have "P s1" using Cons.prems(3) s1(1) hit [of f s s1] by simp
    have sub: "set fs \<subseteq> S" using Cons.prems(3) by simp
    from fields_run_inv [OF s1(2), of P, OF \<open>P s1\<close> step sub] show ?thesis .
  next
    case False
    with Cons.prems(2,3) s1(2) show ?thesis using Cons.IH [of s1] by auto
  qed
qed simp

text \<open>
  With at most one field of each type, a component of the state that only fields of type \<open>t\<close> write has
  in the end the value which the field of that type gives it.
\<close>

lemma fields_run_append_OK:
  assumes "fields_run g (xs @ ys) s = (VIREO_OK, s')"
  obtains s1 where "fields_run g xs s = (VIREO_OK, s1)" and "fields_run g ys s1 = (VIREO_OK, s')"
  using assms
proof (induction xs arbitrary: s thesis)
  case (Cons x xs)
  from Cons.prems(2) obtain s0 where "g x s = (VIREO_OK, s0)" "fields_run g (xs @ ys) s0 = (VIREO_OK, s')"
    using fields_run_Cons_OK by (metis append_Cons)
  then show ?case using Cons.IH [of s0] Cons.prems(1) by auto
qed simp

lemma fields_run_keep:
  assumes "fields_run g fs s = (VIREO_OK, s')"
    and "\<And>f s s'. f \<in> S \<Longrightarrow> g f s = (VIREO_OK, s') \<Longrightarrow> get s' = get s" and "set fs \<subseteq> S"
  shows "get s' = get s"
  by (rule fields_run_inv [OF assms(1), of "\<lambda>x. get x = get s" S]) (use assms(2,3) in auto)

lemma fields_run_get:
  assumes run: "fields_run g fs s = (VIREO_OK, s')" and dist: "distinct (map fst fs)" and mem: "(t, v) \<in> set fs"
    and other: "\<And>f s s'. f \<in> set fs \<Longrightarrow> fst f \<noteq> t \<Longrightarrow> g f s = (VIREO_OK, s') \<Longrightarrow> get s' = get s"
    and hit: "\<And>s1 s2. get s1 = get s \<Longrightarrow> g (t, v) s1 = (VIREO_OK, s2) \<Longrightarrow> get s2 = x"
  shows "get s' = x"
proof -
  obtain xs ys where fs: "fs = xs @ (t, v) # ys" using mem by (meson split_list)
  then have ne: "\<forall>f \<in> set xs \<union> set ys. fst f \<noteq> t" using dist by force
  obtain s1 where s1: "fields_run g xs s = (VIREO_OK, s1)" "fields_run g ((t, v) # ys) s1 = (VIREO_OK, s')"
    using run fs by (metis fields_run_append_OK)
  from s1(2) obtain s2 where s2: "g (t, v) s1 = (VIREO_OK, s2)" "fields_run g ys s2 = (VIREO_OK, s')"
    by (rule fields_run_Cons_OK)
  have keep: "get s2 = get s1" if "f \<in> set xs \<union> set ys" "g f s1 = (VIREO_OK, s2)" for f s1 s2
    using other [of f s1 s2] that ne fs by auto
  have "get s1 = get s" 
    using fields_run_keep [OF s1(1), of "set xs \<union> set ys" get, OF keep] by simp
  then have "get s2 = x" using s2(1) by (rule hit)
  moreover have "get s' = get s2" 
    using fields_run_keep [OF s2(2), of "set xs \<union> set ys" get, OF keep] by simp
  ultimately show ?thesis by simp
qed

lemma fields_run_total:
  "(\<And>f s. f \<in> set fs \<Longrightarrow> fst (g f s) = VIREO_OK) \<Longrightarrow> \<exists>s'. fields_run g fs s = (VIREO_OK, s')"
proof (induction fs arbitrary: s)
  case (Cons f fs)
  obtain s1 where "g f s = (VIREO_OK, s1)" using Cons.prems [of f s] by (cases "g f s") auto
  then show ?case using Cons by simp
qed simp

lemma accepted_distinct:
  assumes "schema_accepts rs VIREO_TLV_UNKNOWN_REJECT fs" and "\<forall>r \<in> set rs. \<not> rule_repeatable r"
  shows "distinct (map fst fs)"
proof -
  have le: "count_list (map fst fs) t \<le> 1" for t
  proof (cases "t \<in> fst ` set fs")
    case True
    then show ?thesis using assms unfolding schema_accepts_def by fastforce
  qed (simp add: count_list_0_iff)
  have "distinct xs" if "\<forall>t. count_list xs t \<le> 1" for xs :: "u16 list"
    using that
  proof (induction xs)
    case (Cons a xs)
    from Cons.prems have "count_list xs a = 0" by (auto dest: spec [of _ a])
    moreover have "count_list xs t \<le> 1" for t using spec [OF Cons.prems, of t] by (simp split: if_splits)
    ultimately show ?case using Cons.IH by (simp add: count_list_0_iff)
  qed simp
  then show ?thesis using le by blast
qed

lemma schema_accepts_unique:
  assumes "\<forall>r \<in> set rs. \<not> rule_repeatable r"
  shows "schema_accepts rs VIREO_TLV_UNKNOWN_REJECT fs \<longleftrightarrow> distinct (map fst fs) \<and>
    (\<forall>f \<in> set fs. \<exists>r \<in> set rs. rule_type r = fst f \<and> value_spec r (snd f)) \<and>
    (\<forall>r \<in> set rs. rule_required r \<longrightarrow> rule_type r \<in> fst ` set fs)"
proof -
  have "count_list xs t \<le> 1" if "distinct xs" for xs :: "u16 list" and t
    using that by (induction xs) (auto simp: count_list_0_iff)
  then show ?thesis using accepted_distinct [OF _ assms, of fs] by (auto simp: schema_accepts_def)
qed

lemma accepted_field:
  assumes "schema_accepts rs VIREO_TLV_UNKNOWN_REJECT fs" and "f \<in> set fs"
  obtains r where "r \<in> set rs" and "rule_type r = fst f" and "value_spec r (snd f)"
  using assms by (auto simp: schema_accepts_def)

lemma accepted_required:
  assumes "schema_accepts rs VIREO_TLV_UNKNOWN_REJECT fs" and "r \<in> set rs" and "rule_required r"
  obtains v where "(rule_type r, v) \<in> set fs"
  using assms by (force simp: schema_accepts_def)

text \<open>Schema validation of a body that was written field by field.\<close>

lemma schema_encoded:
  assumes "unat sz \<le> length body" and "unat n = length rs" and "unat n \<le> length seen" and "n \<le> cap"
    and "vireo_tlv_rules_are_valid (Some rs) n" and "take (unat sz) body = tlv_encode fs" and "list_all field_fits fs"
  shows "fst (vireo_tlv_schema_validate (Some body) sz (Some rs) n VIREO_TLV_UNKNOWN_REJECT (Some seen) cap (Some i)) =
    (if schema_accepts rs VIREO_TLV_UNKNOWN_REJECT fs then VIREO_OK else VIREO_RESULT_PROTOCOL)"
proof -
  let ?rc = "fst (vireo_tlv_schema_validate (Some body) sz (Some rs) n VIREO_TLV_UNKNOWN_REJECT (Some seen) cap (Some i))"
  have le: "unat n \<le> length rs" and pol: "VIREO_TLV_UNKNOWN_REJECT \<noteq> VIREO_TLV_UNKNOWN_OTHER"
    using assms(2) by simp_all
  note iff = schema_validate_iff [OF assms(1) le assms(3,4) pol assms(5), of i]
  have "?rc = VIREO_OK \<longleftrightarrow> schema_accepts rs VIREO_TLV_UNKNOWN_REJECT fs"
    using iff(1) assms(2,6,7) tlv_encode_inject [OF assms(7)] by auto
  then show ?thesis using iff(2) by auto
qed

lemma schema_any:
  assumes "fst (vireo_tlv_schema_validate (Some body) sz (Some rs) n VIREO_TLV_UNKNOWN_REJECT (Some seen) cap (Some i)) =
      VIREO_OK" and "unat sz \<le> length body" and "unat n = length rs" and "unat n \<le> length seen" and "n \<le> cap"
    and "vireo_tlv_rules_are_valid (Some rs) n"
  obtains fs where "take (unat sz) body = tlv_encode fs" and "list_all field_fits fs"
    and "schema_accepts rs VIREO_TLV_UNKNOWN_REJECT fs"
  using assms schema_validate_iff(1) [of sz body n rs seen cap VIREO_TLV_UNKNOWN_REJECT i] by auto

text \<open>
  A field loop whose state holds pointers into the body is related to a state of field values by a
  simulation.
\<close>

lemma read_body_sim:
  assumes "take (unat sz) body = tlv_encode fs" and "unat sz \<le> length body" and "list_all field_fits fs" and "R s a"
    and sim: "\<And>v f s a. f \<in> S \<Longrightarrow> view_of v f \<Longrightarrow> R s a \<Longrightarrow> \<exists>s'. on_field v s = (VIREO_OK, s') \<and> R s' (step f a)"
    and "set fs \<subseteq> S"
  shows "\<exists>s'. read_body on_field body sz s = (VIREO_OK, s') \<and> R s' (fold step fs a)"
proof -
  obtain r where r: "vireo_tlv_reader_init (Some \<lparr>tr_data = None, tr_size = 0, tr_offset = 0\<rparr>) (Some body) sz =
      (VIREO_OK, Some r)" "reader_ok r" "reader_rest r = tlv_encode fs"
    using reader_init_OK [OF assms(2)] assms(1) by metis
  have "\<exists>s'. tlv_read_loop on_field r s = (VIREO_OK, s') \<and> R s' (fold step fs a)"
    using r(2,3) assms(3,4,6)
  proof (induction fs arbitrary: r s a)
    case Nil
    then show ?case using reader_rest_facts(3) [of r] by (simp add: tlv_read_loop.simps [of on_field r])
  next
    case (Cons f fs)
    have st: "tlv_step (reader_rest r) = Inr (Some (f, tlv_encode fs))" using Cons.prems by (simp add: tlv_step_field)
    from Cons.prems(1) show ?case
    proof (cases rule: reader_next_cases [where oldv = zero_view and oldi = VIREO_TLV_ISSUE_NONE])
      case (field h r' v)
      then have h: "h = f" and rest: "reader_rest r' = tlv_encode fs" using st by auto
      obtain s1 where s1: "on_field v s = (VIREO_OK, s1)" "R s1 (step f a)"
        using sim [of f v s a] field h Cons.prems by auto
      have "\<exists>s'. tlv_read_loop on_field r' s1 = (VIREO_OK, s') \<and> R s' (fold step fs (step f a))"
        using Cons.IH [OF field(2) rest _ s1(2)] Cons.prems by simp
      then show ?thesis using field s1 by (auto simp: tlv_read_loop.simps [of on_field r])
    qed (use st in auto)
  qed
  then show ?thesis using r(1) by (simp add: read_body_def)
qed

text \<open>Field values by type.\<close>

definition field_upd :: "field \<Rightarrow> (u16 \<Rightarrow> bytes option) \<Rightarrow> u16 \<Rightarrow> bytes option" where
  "field_upd f m t = (if t = fst f then Some (snd f) else m t)"

definition field_map :: "field list \<Rightarrow> u16 \<Rightarrow> bytes option" where
  "field_map fs = fold field_upd fs (\<lambda>_. None)"

lemma fold_field_upd:
  "distinct (map fst fs) \<Longrightarrow>
   fold field_upd fs m t = Some b \<longleftrightarrow> (t, b) \<in> set fs \<or> t \<notin> fst ` set fs \<and> m t = Some b"
proof (induction fs arbitrary: m)
  case (Cons f fs)
  have ne: "fst f \<notin> fst ` set fs" "distinct (map fst fs)" using Cons.prems by simp_all
  then have "(fst f, d) \<notin> set fs" for d by (metis fst_conv image_eqI)
  then show ?case using Cons.IH [OF ne(2), of "field_upd f m"] ne(1)
    by (cases "t = fst f") (auto simp: field_upd_def prod_eq_iff)
qed simp

lemma field_map_iff: "distinct (map fst fs) \<Longrightarrow> field_map fs t = Some b \<longleftrightarrow> (t, b) \<in> set fs"
  by (simp add: field_map_def fold_field_upd)

lemma field_map_None: "distinct (map fst fs) \<Longrightarrow> t \<notin> fst ` set fs \<Longrightarrow> field_map fs t = None"
proof (rule ccontr)
  assume dist: "distinct (map fst fs)" and t: "t \<notin> fst ` set fs" and "field_map fs t \<noteq> None"
  then obtain b where "field_map fs t = Some b" by blast
  then have "(t, b) \<in> set fs" using field_map_iff [OF dist] by blast
  then show False using t by force
qed

text \<open>A frame that passes the header and checksum checks is the sealed frame of its header and body.\<close>

lemma checked_sealed:
  assumes "unat n = length wire" and "checked_header wire n r = Some h" and "crc_ok wire h"
    and "n = 32 + ucast (h_body_len h)"
  shows "wire = sealed (h\<lparr>h_crc32c := c\<rparr>) (drop 32 wire)" and "unat (h_body_len h) = length (drop 32 wire)"
    and "length (drop 32 wire) \<le> 16777216"
proof -
  have le: "unat n \<le> length wire" using assms(1) by simp
  have ch: "take 32 wire = header_bytes h" "h_body_len h \<le> VIREO_PROTOCOL_MAX_BODY_SIZE"
    using assms(2) checked_header_iff [OF le] by (auto simp: legal_frame_def)
  note fb = frame_body_size [OF le assms(4) ch(2)]
  have len: "length (drop 32 wire) = unat (ucast (h_body_len h) :: size_t)" using fb assms(1) by simp
  then show blen: "unat (h_body_len h) = length (drop 32 wire)" by (simp add: unat_ucast_le)
  show "length (drop 32 wire) \<le> 16777216" using blen ch(2) by (simp add: word_le_nat_alt)
  have w: "wire = header_bytes h @ drop 32 wire" using ch(1) append_take_drop_id [of 32 wire] by simp
  have ok: "frame_ok wire 32 (drop 32 wire) (ucast (h_body_len h))"
    using fb assms(1) len ch(2) by (simp add: frame_ok_def word_le_nat_alt unat_ucast_le)
  have crc: "frame_crc wire (drop 32 wire) = rd32 (drop 28 wire)"
    using assms(3) crc_verify_eq [OF ok] by (auto simp: crc_ok_def split: if_splits)
  have "rd32 (drop 28 wire) = h_crc32c h" using w header_bytes_at(2) [of h "drop 32 wire"] by simp
  moreover have "frame_crc wire (drop 32 wire) = frame_crc (header_bytes (h\<lparr>h_crc32c := c\<rparr>)) (drop 32 wire)"
    using w header_bytes_at(3) [of h "drop 32 wire" c "[]"] by (simp add: frame_crc_def)
  ultimately have "h\<lparr>h_crc32c := c, h_crc32c := frame_crc (header_bytes (h\<lparr>h_crc32c := c\<rparr>)) (drop 32 wire)\<rparr> = h"
    using crc by simp
  then show "wire = sealed (h\<lparr>h_crc32c := c\<rparr>) (drop 32 wire)" using w by (simp add: sealed_def)
qed

lemma view_copy: "view_of v f \<Longrightarrow> length (snd f) = n \<Longrightarrow> take n (the (tv_value v)) = snd f"
  using view_of_take [of v f] by (simp add: view_of_def)

text \<open>All idempotency keys have sixteen bytes; the all-zero key is not one.\<close>

definition key_zero :: "bytes \<Rightarrow> bool" where
  "key_zero key \<longleftrightarrow> list_all (\<lambda>b. b = 0) (take 16 key)"

subsection \<open>What a message codec promises\<close>

text \<open>
  \<open>codec_contract\<close> is the contract of an encode/decode pair. \<open>shape\<close> says that the arrays inside a
  structure have their declared size, \<open>valid\<close> which values can be sent, \<open>canon\<close> what of a value
  travels (a name array beyond its length does not), \<open>len\<close> is the size of the frame.

  Encoding succeeds for exactly the valid values, if the frame fits the capacity; it then overwrites
  a prefix of the output, the decoder accepts that prefix, and returns the value that was encoded.
  A failing encode keeps both outputs. Decoding returns either PROTOCOL with an issue and the output
  kept, or OK with a valid value, whatever bytes it is given.
\<close>

definition codec_contract ::
  "('v \<Rightarrow> bool) \<Rightarrow> ('v \<Rightarrow> bool) \<Rightarrow> ('v \<Rightarrow> 'v) \<Rightarrow> ('v \<Rightarrow> nat) \<Rightarrow>
   ('v option \<Rightarrow> bytes option \<Rightarrow> size_t \<Rightarrow> size_t option \<Rightarrow> vireo_result \<times> bytes option \<times> size_t option) \<Rightarrow>
   (bytes option \<Rightarrow> size_t \<Rightarrow> 'v option \<Rightarrow> 'i option \<Rightarrow> vireo_result \<times> 'v option \<times> 'i option) \<Rightarrow> 'i \<Rightarrow> bool" where
  "codec_contract shape valid canon len enc dec none \<longleftrightarrow>
     (\<forall>v wire cap old out i. shape v \<and> unat cap \<le> length wire \<longrightarrow>
        (if \<not> valid v then enc (Some v) (Some wire) cap (Some old) = (VIREO_RESULT_INVALID_ARGUMENT, Some wire, Some old)
         else if unat cap < len v then enc (Some v) (Some wire) cap (Some old) = (VIREO_RESULT_RANGE, Some wire, Some old)
         else \<exists>wire' n. enc (Some v) (Some wire) cap (Some old) = (VIREO_OK, Some wire', Some n) \<and>
              unat n = len v \<and> length wire' = length wire \<and> drop (len v) wire' = drop (len v) wire \<and>
              dec (Some (take (unat n) wire')) n (Some out) (Some i) = (VIREO_OK, Some (canon v), Some none))) \<and>
     (\<forall>wire n out i. unat n \<le> length wire \<longrightarrow>
        (\<exists>j. j \<noteq> none \<and> dec (Some wire) n (Some out) (Some i) = (VIREO_RESULT_PROTOCOL, Some out, Some j)) \<or>
        (\<exists>v. shape v \<and> valid v \<and> canon v = v \<and> dec (Some wire) n (Some out) (Some i) = (VIREO_OK, Some v, Some none)))"

lemma codec_contract_len:
  assumes "codec_contract shape valid canon len enc dec none" and "\<And>v. shape v \<Longrightarrow> valid v \<Longrightarrow> len v = len' v"
  shows "codec_contract shape valid canon len' enc dec none"
  using assms(1) by (simp add: codec_contract_def assms(2) [symmetric] cong: imp_cong if_cong)

text \<open>The contract carries over along a bijection between two types of structures.\<close>

lemma codec_contract_iso:
  assumes c: "codec_contract shape valid canon len enc dec none"
    and iso: "\<And>v. mk (parts v) = v" "\<And>p. parts (mk p) = p"
    and enc': "\<And>v wire cap old. enc' (Some v) (Some wire) cap (Some old) =
      enc (Some (parts v)) (Some wire) cap (Some old)"
    and dec': "\<And>wire n out i. dec' (Some wire) n (Some out) (Some i) =
      (case dec (Some wire) n (Some (parts out)) (Some i) of (rc, p, j) \<Rightarrow> (rc, map_option mk p, j))"
  shows "codec_contract (\<lambda>v. shape (parts v)) (\<lambda>v. valid (parts v)) (\<lambda>v. mk (canon (parts v)))
    (\<lambda>v. len (parts v)) enc' dec' none"
  unfolding codec_contract_def
proof (intro conjI allI impI)
  fix v and wire :: bytes and cap :: size_t and old out i
  assume "shape (parts v) \<and> unat cap \<le> length wire"
  with c [unfolded codec_contract_def, THEN conjunct1, rule_format, of "parts v" cap wire old "parts out" i]
  show "if \<not> valid (parts v) then enc' (Some v) (Some wire) cap (Some old) = (VIREO_RESULT_INVALID_ARGUMENT, Some wire, Some old)
      else if unat cap < len (parts v) then enc' (Some v) (Some wire) cap (Some old) = (VIREO_RESULT_RANGE, Some wire, Some old)
      else \<exists>wire' n. enc' (Some v) (Some wire) cap (Some old) = (VIREO_OK, Some wire', Some n) \<and>
        unat n = len (parts v) \<and> length wire' = length wire \<and> drop (len (parts v)) wire' = drop (len (parts v)) wire \<and>
        dec' (Some (take (unat n) wire')) n (Some out) (Some i) = (VIREO_OK, Some (mk (canon (parts v))), Some none)"
    by (fastforce simp: enc' dec' split: if_splits)
next
  fix wire :: bytes and n :: size_t and out i
  assume "unat n \<le> length wire"
  from c [unfolded codec_contract_def, THEN conjunct2, rule_format, OF this, of "parts out" i]
  show "(\<exists>j. j \<noteq> none \<and> dec' (Some wire) n (Some out) (Some i) = (VIREO_RESULT_PROTOCOL, Some out, Some j)) \<or>
      (\<exists>v. shape (parts v) \<and> valid (parts v) \<and> mk (canon (parts v)) = v \<and>
        dec' (Some wire) n (Some out) (Some i) = (VIREO_OK, Some v, Some none))"
  proof (elim disjE exE conjE)
    fix p assume "shape p" "valid p" "canon p = p" "dec (Some wire) n (Some (parts out)) (Some i) = (VIREO_OK, Some p, Some none)"
    then show ?thesis by (intro disjI2 exI [of _ "mk p"]) (simp add: iso dec')
  qed (simp add: dec' iso)
qed

locale frame_codec =
  fixes shape :: "'v \<Rightarrow> bool" and valid :: "'v \<Rightarrow> bool" and canon :: "'v \<Rightarrow> 'v" and frame :: "'v \<Rightarrow> bytes"
    and enc :: "'v option \<Rightarrow> bytes option \<Rightarrow> size_t \<Rightarrow> size_t option \<Rightarrow> vireo_result \<times> bytes option \<times> size_t option"
    and dec :: "bytes option \<Rightarrow> size_t \<Rightarrow> 'v option \<Rightarrow> 'i option \<Rightarrow> vireo_result \<times> 'v option \<times> 'i option"
    and none :: 'i
  assumes enc_invalid: "shape v \<Longrightarrow> \<not> valid v \<Longrightarrow>
      enc (Some v) (Some wire) cap (Some old) = (VIREO_RESULT_INVALID_ARGUMENT, Some wire, Some old)"
    and enc_short: "shape v \<Longrightarrow> valid v \<Longrightarrow> unat cap < length (frame v) \<Longrightarrow>
      enc (Some v) (Some wire) cap (Some old) = (VIREO_RESULT_RANGE, Some wire, Some old)"
    and enc_frame: "shape v \<Longrightarrow> valid v \<Longrightarrow> length (frame v) \<le> unat cap \<Longrightarrow>
      enc (Some v) (Some wire) cap (Some old) =
        (VIREO_OK, Some (mem_write 0 (frame v) wire), Some (word_of_nat (length (frame v))))"
    and dec_frame: "shape v \<Longrightarrow> valid v \<Longrightarrow> unat n = length (frame v) \<Longrightarrow>
      dec (Some (frame v)) n (Some out) (Some i) = (VIREO_OK, Some (canon v), Some none)"
    and dec_cases: "unat n \<le> length wire \<Longrightarrow>
      (\<exists>j. j \<noteq> none \<and> dec (Some wire) n (Some out) (Some i) = (VIREO_RESULT_PROTOCOL, Some out, Some j)) \<or>
      (\<exists>v. shape v \<and> valid v \<and> canon v = v \<and> dec (Some wire) n (Some out) (Some i) = (VIREO_OK, Some v, Some none))"
begin

lemma contract: "codec_contract shape valid canon (\<lambda>v. length (frame v)) enc dec none"
proof -
  have "\<exists>wire' n. enc (Some v) (Some wire) cap (Some old) = (VIREO_OK, Some wire', Some n) \<and>
      unat n = length (frame v) \<and> length wire' = length wire \<and>
      drop (length (frame v)) wire' = drop (length (frame v)) wire \<and>
      dec (Some (take (unat n) wire')) n (Some out) (Some i) = (VIREO_OK, Some (canon v), Some none)"
    if v: "shape v" "valid v" and len: "length (frame v) \<le> unat cap" "unat cap \<le> length wire"
    for v wire cap old out i
  proof (intro exI conjI)
    let ?n = "word_of_nat (length (frame v)) :: size_t"
    show n: "unat ?n = length (frame v)"
      using len(1) unat_lt_64 [of cap] by (simp add: unat_of_nat)
    show "enc (Some v) (Some wire) cap (Some old) = (VIREO_OK, Some (mem_write 0 (frame v) wire), Some ?n)"
      using enc_frame v len by simp
    show "length (mem_write 0 (frame v) wire) = length wire" using len by simp
    show "drop (length (frame v)) (mem_write 0 (frame v) wire) = drop (length (frame v)) wire"
      by (simp add: mem_write_def)
    show "dec (Some (take (unat ?n) (mem_write 0 (frame v) wire))) ?n (Some out) (Some i) =
        (VIREO_OK, Some (canon v), Some none)"
      using dec_frame [OF v n] n by (simp add: mem_write_def)
  qed
  then show ?thesis
    unfolding codec_contract_def using enc_invalid enc_short dec_cases by (simp add: not_less)
qed

end

end
