(* ===== verification/Protocol_Node_Root.thy ===== *)
theory Protocol_Node_Root
  imports Protocol_Message
begin

text \<open>
  The NODE_ROOT message of \<^verbatim>\<open>src/protocol/node_root.c\<close>: a request without body, and a response that
  carries the id of the user's root node on success and nothing otherwise. A rejecting path of the
  decoders is a value \<open>Inl issue\<close> of \<open>node_root_envelope\<close>; its result is always PROTOCOL.
\<close>

record vireo_node_root_request =
  root_rq_sequence :: u32
  root_rq_session_handle :: u32

record vireo_node_root_response =
  root_rs_status :: u16
  root_rs_sequence :: u32
  root_rs_session_handle :: u32
  root_rs_root_node_id :: u64

datatype vireo_node_root_issue =
    VIREO_NODE_ROOT_ISSUE_NONE | VIREO_NODE_ROOT_ISSUE_HEADER | VIREO_NODE_ROOT_ISSUE_ENVELOPE
  | VIREO_NODE_ROOT_ISSUE_CRC | VIREO_NODE_ROOT_ISSUE_FIELDS | VIREO_NODE_ROOT_ISSUE_VALUE

abbreviation (input) VIREO_NODE_ROOT_TLV_NODE_ID :: u16 where "VIREO_NODE_ROOT_TLV_NODE_ID \<equiv> 0x0401"
abbreviation (input) VIREO_NODE_ROOT_REQUEST_FRAME_SIZE :: size_t where "VIREO_NODE_ROOT_REQUEST_FRAME_SIZE \<equiv> 32"
abbreviation (input) VIREO_NODE_ROOT_RESPONSE_BODY_MAX :: size_t where "VIREO_NODE_ROOT_RESPONSE_BODY_MAX \<equiv> 12"
abbreviation (input) VIREO_NODE_ROOT_RESPONSE_FRAME_MAX :: size_t where "VIREO_NODE_ROOT_RESPONSE_FRAME_MAX \<equiv> 44"

definition root_rule :: vireo_tlv_rule where
  "root_rule = \<lparr>rule_type = VIREO_NODE_ROOT_TLV_NODE_ID, rule_min_length = 8, rule_max_length = 8,
     rule_value_kind = VIREO_TLV_VALUE_U64, rule_required = True, rule_repeatable = False\<rparr>"

definition node_root_status_allowed :: "u16 \<Rightarrow> bool" where
  "node_root_status_allowed status \<longleftrightarrow>
     status \<in> {VIREO_STATUS_OK, VIREO_STATUS_BAD_REQUEST, VIREO_STATUS_UNSUPPORTED,
       VIREO_STATUS_CRC_MISMATCH, VIREO_STATUS_BODY_TOO_LARGE, VIREO_STATUS_INVALID_FLAGS,
       VIREO_STATUS_DUPLICATE_REQUEST, VIREO_STATUS_RATE_LIMITED, VIREO_STATUS_UNAUTHORIZED,
       VIREO_STATUS_BUSY, VIREO_STATUS_INTERNAL_ERROR, VIREO_STATUS_TIMEOUT,
       VIREO_STATUS_OVERLOADED, VIREO_STATUS_UNAVAILABLE}"

definition node_root_envelope :: "bytes \<Rightarrow> size_t \<Rightarrow> bool \<Rightarrow> vireo_node_root_issue + vireo_protocol_header" where
  "node_root_envelope wire sz response =
     (if sz < 32 then Inl VIREO_NODE_ROOT_ISSUE_HEADER
      else if sz > (if response then VIREO_NODE_ROOT_RESPONSE_FRAME_MAX else VIREO_NODE_ROOT_REQUEST_FRAME_SIZE)
      then Inl VIREO_NODE_ROOT_ISSUE_ENVELOPE
      else case checked_header wire sz response of
        None \<Rightarrow> Inl VIREO_NODE_ROOT_ISSUE_HEADER
      | Some header \<Rightarrow>
          if h_command header \<noteq> VIREO_COMMAND_NODE_ROOT \<or> h_task_handle header \<noteq> 0 \<or>
             h_flags header \<noteq> (if response then VIREO_PROTOCOL_FLAG_RESPONSE else 0) \<or>
             sz \<noteq> 32 + ucast (h_body_len header) \<or>
             (if response
              then \<not> node_root_status_allowed (h_status header) \<or>
                   (if h_status header = VIREO_STATUS_OK then h_session_handle header = 0
                    else h_session_handle header \<noteq> 0 \<or> h_body_len header \<noteq> 0)
              else h_body_len header \<noteq> 0)
          then Inl VIREO_NODE_ROOT_ISSUE_ENVELOPE
          else if \<not> crc_ok wire header then Inl VIREO_NODE_ROOT_ISSUE_CRC
          else Inr header)"

definition vireo_node_root_request_encode ::
  "vireo_node_root_request option \<Rightarrow> bytes option \<Rightarrow> size_t \<Rightarrow> size_t option \<Rightarrow>
   vireo_result \<times> bytes option \<times> size_t option" where
  "vireo_node_root_request_encode value wire capacity out_size =
     (if value = None \<or> wire = None \<or> out_size = None \<or> root_rq_sequence (the value) = 0
      then (VIREO_RESULT_INVALID_ARGUMENT, wire, out_size)
      else if capacity < VIREO_NODE_ROOT_REQUEST_FRAME_SIZE then (VIREO_RESULT_RANGE, wire, out_size)
      else
        let frame = replicate 32 0;
            header = message_header False VIREO_COMMAND_NODE_ROOT 0 0
                       (root_rq_sequence (the value)) (root_rq_session_handle (the value));
            (rc, w, n) = publish header frame 32 (the wire) (the out_size)
        in (rc, Some w, Some n))"

definition vireo_node_root_request_decode ::
  "bytes option \<Rightarrow> size_t \<Rightarrow> vireo_node_root_request option \<Rightarrow> vireo_node_root_issue option \<Rightarrow>
   vireo_result \<times> vireo_node_root_request option \<times> vireo_node_root_issue option" where
  "vireo_node_root_request_decode wire wire_size out issue =
     (let issue = map_option (\<lambda>_. VIREO_NODE_ROOT_ISSUE_NONE) issue in
      if wire = None \<or> out = None \<or> issue = None then (VIREO_RESULT_INVALID_ARGUMENT, out, issue)
      else case node_root_envelope (the wire) wire_size False of
        Inl i \<Rightarrow> (VIREO_RESULT_PROTOCOL, out, Some i)
      | Inr header \<Rightarrow>
          (VIREO_OK, Some \<lparr>root_rq_sequence = h_sequence header,
             root_rq_session_handle = h_session_handle header\<rparr>, issue))"

definition vireo_node_root_response_encode ::
  "vireo_node_root_response option \<Rightarrow> bytes option \<Rightarrow> size_t \<Rightarrow> size_t option \<Rightarrow>
   vireo_result \<times> bytes option \<times> size_t option" where
  "vireo_node_root_response_encode value wire capacity out_size =
     (if value = None \<or> wire = None \<or> out_size = None \<or> root_rs_sequence (the value) = 0 \<or>
         \<not> node_root_status_allowed (root_rs_status (the value)) \<or>
         (if root_rs_status (the value) = VIREO_STATUS_OK
          then root_rs_session_handle (the value) = 0 \<or> root_rs_root_node_id (the value) = 0
          else root_rs_session_handle (the value) \<noteq> 0 \<or> root_rs_root_node_id (the value) \<noteq> 0)
      then (VIREO_RESULT_INVALID_ARGUMENT, wire, out_size)
      else
        let body = (if root_rs_status (the value) = VIREO_STATUS_OK then VIREO_NODE_ROOT_RESPONSE_BODY_MAX else 0);
            sz = 32 + body in
        if capacity < sz then (VIREO_RESULT_RANGE, wire, out_size)
        else
          let frame = replicate 44 0;
              (rc, frame) =
                (if body \<noteq> 0
                 then let (rc, w) = put_seq [\<lambda>w. vireo_tlv_writer_put_u64 w VIREO_NODE_ROOT_TLV_NODE_ID
                                                    (root_rs_root_node_id (the value))] (body_writer frame body)
                      in (rc, body_frame frame w)
                 else (VIREO_OK, frame));
              header = message_header True VIREO_COMMAND_NODE_ROOT (root_rs_status (the value)) (ucast body)
                         (root_rs_sequence (the value)) (root_rs_session_handle (the value)) in
          if rc \<noteq> VIREO_OK then (rc, wire, out_size)
          else let (rc, w, n) = publish header frame sz (the wire) (the out_size) in (rc, Some w, Some n))"

definition vireo_node_root_response_decode ::
  "bytes option \<Rightarrow> size_t \<Rightarrow> vireo_node_root_response option \<Rightarrow> vireo_node_root_issue option \<Rightarrow>
   vireo_result \<times> vireo_node_root_response option \<times> vireo_node_root_issue option" where
  "vireo_node_root_response_decode wire wire_size out issue =
     (let issue = map_option (\<lambda>_. VIREO_NODE_ROOT_ISSUE_NONE) issue in
      if wire = None \<or> out = None \<or> issue = None then (VIREO_RESULT_INVALID_ARGUMENT, out, issue)
      else case node_root_envelope (the wire) wire_size True of
        Inl i \<Rightarrow> (VIREO_RESULT_PROTOCOL, out, Some i)
      | Inr header \<Rightarrow>
          let result = \<lparr>root_rs_status = h_status header, root_rs_sequence = h_sequence header,
                        root_rs_session_handle = h_session_handle header, root_rs_root_node_id = 0\<rparr> in
          if h_status header \<noteq> VIREO_STATUS_OK then (VIREO_OK, Some result, issue)
          else
            let body = drop 32 (the wire); body_len = ucast (h_body_len header) in
            if fst (vireo_tlv_schema_validate (Some body) body_len (Some [root_rule]) 1 VIREO_TLV_UNKNOWN_REJECT
                      (Some [0]) 1 (Some VIREO_TLV_ISSUE_NONE)) \<noteq> VIREO_OK
            then (VIREO_RESULT_PROTOCOL, out, Some VIREO_NODE_ROOT_ISSUE_FIELDS)
            else case first_u64 body body_len of
              None \<Rightarrow> (VIREO_RESULT_PROTOCOL, out, Some VIREO_NODE_ROOT_ISSUE_FIELDS)
            | Some node_id \<Rightarrow>
                if node_id = 0 then (VIREO_RESULT_PROTOCOL, out, Some VIREO_NODE_ROOT_ISSUE_VALUE)
                else (VIREO_OK, Some (result\<lparr>root_rs_root_node_id := node_id\<rparr>), issue))"

subsection \<open>The contract\<close>

definition root_request_valid :: "vireo_node_root_request \<Rightarrow> bool" where
  "root_request_valid v \<longleftrightarrow> root_rq_sequence v \<noteq> 0"

definition root_response_valid :: "vireo_node_root_response \<Rightarrow> bool" where
  "root_response_valid v \<longleftrightarrow> root_rs_sequence v \<noteq> 0 \<and> node_root_status_allowed (root_rs_status v) \<and>
     (root_rs_status v = VIREO_STATUS_OK \<longleftrightarrow> root_rs_session_handle v \<noteq> 0) \<and>
     (root_rs_status v = VIREO_STATUS_OK \<longleftrightarrow> root_rs_root_node_id v \<noteq> 0)"

definition root_request_frame :: "vireo_node_root_request \<Rightarrow> bytes" where
  "root_request_frame v = sealed (message_header False VIREO_COMMAND_NODE_ROOT 0 0
     (root_rq_sequence v) (root_rq_session_handle v)) []"

definition root_fields :: "vireo_node_root_response \<Rightarrow> field list" where
  "root_fields v = (if root_rs_status v = VIREO_STATUS_OK
     then [(VIREO_NODE_ROOT_TLV_NODE_ID, be64 (root_rs_root_node_id v))] else [])"

definition root_response_frame :: "vireo_node_root_response \<Rightarrow> bytes" where
  "root_response_frame v = sealed (message_header True VIREO_COMMAND_NODE_ROOT (root_rs_status v)
     (if root_rs_status v = VIREO_STATUS_OK then 12 else 0) (root_rs_sequence v) (root_rs_session_handle v))
     (tlv_encode (root_fields v))"

lemma root_status_known: "node_root_status_allowed s \<Longrightarrow> vireo_status_is_known s"
  by (auto simp: node_root_status_allowed_def vireo_status_is_known_def)

lemma root_command_known: "vireo_command_is_known VIREO_COMMAND_NODE_ROOT"
  by (simp add: vireo_command_is_known_def)

interpretation root_request: frame_codec "\<lambda>_. True" root_request_valid id root_request_frame
  vireo_node_root_request_encode vireo_node_root_request_decode VIREO_NODE_ROOT_ISSUE_NONE
proof
  fix v :: vireo_node_root_request and wire cap old
  show "vireo_node_root_request_encode (Some v) (Some wire) cap (Some old) =
      (VIREO_RESULT_INVALID_ARGUMENT, Some wire, Some old)" if "\<not> root_request_valid v"
    using that by (simp add: vireo_node_root_request_encode_def root_request_valid_def)
  assume v: "root_request_valid v"
  show "vireo_node_root_request_encode (Some v) (Some wire) cap (Some old) =
      (VIREO_RESULT_RANGE, Some wire, Some old)" if "unat cap < length (root_request_frame v)"
    using that v by (simp add: vireo_node_root_request_encode_def root_request_valid_def root_request_frame_def
        word_less_nat_alt)
  show "vireo_node_root_request_encode (Some v) (Some wire) cap (Some old) =
      (VIREO_OK, Some (mem_write 0 (root_request_frame v) wire), Some (word_of_nat (length (root_request_frame v))))"
    if "length (root_request_frame v) \<le> unat cap"
    using that v by (simp add: vireo_node_root_request_encode_def root_request_valid_def root_request_frame_def
        word_less_nat_alt message_publish [where body = "[]"] not_less)
next
  fix v :: vireo_node_root_request and n :: size_t and out i
  assume v: "root_request_valid v" and n: "unat n = length (root_request_frame v)"
  have n32: "n = 32" using n by (simp add: word_unat_eq_iff root_request_frame_def)
  let ?h = "message_header False VIREO_COMMAND_NODE_ROOT 0 0 (root_rq_sequence v) (root_rq_session_handle v)"
  have "\<exists>crc. checked_header (root_request_frame v) 32 False = Some (?h\<lparr>h_crc32c := crc\<rparr>) \<and>
      crc_ok (root_request_frame v) (?h\<lparr>h_crc32c := crc\<rparr>)"
    unfolding root_request_frame_def using v root_command_known
    by (intro message_sealed) (auto simp: root_request_valid_def)
  then show "vireo_node_root_request_decode (Some (root_request_frame v)) n (Some out) (Some i) =
      (VIREO_OK, Some (id v), Some VIREO_NODE_ROOT_ISSUE_NONE)"
    by (auto simp: vireo_node_root_request_decode_def node_root_envelope_def n32)
next
  fix n :: size_t and wire :: bytes and out i
  assume len: "unat n \<le> length wire"
  show "(\<exists>j. j \<noteq> VIREO_NODE_ROOT_ISSUE_NONE \<and> vireo_node_root_request_decode (Some wire) n (Some out) (Some i) =
        (VIREO_RESULT_PROTOCOL, Some out, Some j)) \<or>
      (\<exists>v. True \<and> root_request_valid v \<and> id v = v \<and> vireo_node_root_request_decode (Some wire) n (Some out) (Some i) =
        (VIREO_OK, Some v, Some VIREO_NODE_ROOT_ISSUE_NONE))"
    using checked_header_facts(1) [OF _ len]
    by (auto simp: vireo_node_root_request_decode_def node_root_envelope_def root_request_valid_def split: option.split)
qed

lemma root_envelope_Inl: "node_root_envelope wire n r = Inl j \<Longrightarrow> j \<noteq> VIREO_NODE_ROOT_ISSUE_NONE"
  by (auto simp: node_root_envelope_def split: if_splits option.splits)

lemma root_envelope_response:
  assumes "node_root_envelope wire n True = Inr h" and "unat n \<le> length wire"
  shows "h_sequence h \<noteq> 0" and "node_root_status_allowed (h_status h)"
    and "h_status h = 0 \<longleftrightarrow> h_session_handle h \<noteq> 0"
    and "unat (ucast (h_body_len h) :: size_t) \<le> length (drop 32 wire)"
proof -
  have env: "checked_header wire n True = Some h" "n = 32 + ucast (h_body_len h)" "node_root_status_allowed (h_status h)"
    "h_status h = 0 \<longleftrightarrow> h_session_handle h \<noteq> 0"
    using assms(1) by (auto simp: node_root_envelope_def split: if_splits option.splits)
  note facts = checked_header_facts [OF env(1) assms(2)]
  show "h_sequence h \<noteq> 0" "node_root_status_allowed (h_status h)" "h_status h = 0 \<longleftrightarrow> h_session_handle h \<noteq> 0"
    using env facts(1) by blast+
  show "unat (ucast (h_body_len h) :: size_t) \<le> length (drop 32 wire)"
    using frame_body_size [OF assms(2) env(2) facts(2)] by blast
qed

lemma root_rules_valid: "vireo_tlv_rules_are_valid (Some [root_rule]) 1"
  by (simp add: vireo_tlv_rules_are_valid_def root_rule_def)

lemma root_body_read:
  assumes "unat n \<le> length body"
  shows "fst (vireo_tlv_schema_validate (Some body) n (Some [root_rule]) 1 VIREO_TLV_UNKNOWN_REJECT
      (Some [0]) 1 (Some VIREO_TLV_ISSUE_NONE)) = VIREO_OK \<longleftrightarrow>
    (\<exists>v. take (unat n) body = field_bytes (VIREO_NODE_ROOT_TLV_NODE_ID, v) \<and> length v = 8)"
  using single_field_schema [OF assms, of root_rule "[0]" 1 "[]"] root_rules_valid
  by (auto simp: root_rule_def value_spec_def field_fits_def)

lemma root_response_encode_eq:
  assumes "root_response_valid v" and "length (root_response_frame v) \<le> unat cap"
  shows "vireo_node_root_response_encode (Some v) (Some wire) cap (Some old) =
    (VIREO_OK, Some (mem_write 0 (root_response_frame v) wire), Some (word_of_nat (length (root_response_frame v))))"
proof (cases "root_rs_status v = 0")
  case True
  obtain w where w: "put_seq (map field_put (root_fields v)) (body_writer (replicate 44 0) 12) = (VIREO_OK, Some w)"
    "32 \<le> length (body_frame (replicate 44 0) (Some w))"
    "take 12 (drop 32 (body_frame (replicate 44 0) (Some w))) = tlv_encode (root_fields v)"
    using body_written [of "root_fields v" 12 "replicate 44 0"] True by (auto simp: root_fields_def field_fits_def)
  have "\<not> cap < 44" using assms(2) True by (simp add: root_response_frame_def root_fields_def word_less_nat_alt)
  then show ?thesis
    using assms True w message_publish [of 12 "tlv_encode (root_fields v)" 44]
    by (simp add: vireo_node_root_response_encode_def root_response_valid_def root_fields_def field_puts
        root_response_frame_def)
next
  case False
  have "\<not> cap < 32" using assms(2) False by (simp add: root_response_frame_def root_fields_def word_less_nat_alt)
  then show ?thesis
    using assms False message_publish [of 0 "[]" 32 "replicate 44 0"]
    by (simp add: vireo_node_root_response_encode_def root_response_valid_def root_fields_def root_response_frame_def)
qed

interpretation root_response: frame_codec "\<lambda>_. True" root_response_valid id root_response_frame
  vireo_node_root_response_encode vireo_node_root_response_decode VIREO_NODE_ROOT_ISSUE_NONE
proof
  fix v :: vireo_node_root_response and wire cap old
  show "vireo_node_root_response_encode (Some v) (Some wire) cap (Some old) =
      (VIREO_RESULT_INVALID_ARGUMENT, Some wire, Some old)" if "\<not> root_response_valid v"
    using that by (auto simp: vireo_node_root_response_encode_def root_response_valid_def)
  assume v: "root_response_valid v"
  show "vireo_node_root_response_encode (Some v) (Some wire) cap (Some old) =
      (VIREO_RESULT_RANGE, Some wire, Some old)" if "unat cap < length (root_response_frame v)"
    using that v by (cases "root_rs_status v = 0")
      (simp_all add: vireo_node_root_response_encode_def root_response_valid_def root_response_frame_def root_fields_def
        word_less_nat_alt)
  show "vireo_node_root_response_encode (Some v) (Some wire) cap (Some old) =
      (VIREO_OK, Some (mem_write 0 (root_response_frame v) wire), Some (word_of_nat (length (root_response_frame v))))"
    if "length (root_response_frame v) \<le> unat cap"
    using v that by (rule root_response_encode_eq)
next
  fix v :: vireo_node_root_response and n :: size_t and out i
  assume v: "root_response_valid v" and n: "unat n = length (root_response_frame v)"
  let ?ok = "root_rs_status v = VIREO_STATUS_OK"
  let ?h = "message_header True VIREO_COMMAND_NODE_ROOT (root_rs_status v) (if ?ok then 12 else 0)
    (root_rs_sequence v) (root_rs_session_handle v)"
  have n: "n = (if ?ok then 44 else 32)" using n by (simp add: word_unat_eq_iff root_response_frame_def root_fields_def)
  have "\<exists>crc. checked_header (root_response_frame v) n True = Some (?h\<lparr>h_crc32c := crc\<rparr>) \<and>
      crc_ok (root_response_frame v) (?h\<lparr>h_crc32c := crc\<rparr>)"
    unfolding root_response_frame_def using v n root_command_known root_status_known
    by (intro message_sealed) (auto simp: root_response_valid_def root_fields_def)
  then obtain crc where "checked_header (root_response_frame v) n True = Some (?h\<lparr>h_crc32c := crc\<rparr>)"
    "crc_ok (root_response_frame v) (?h\<lparr>h_crc32c := crc\<rparr>)" by blast
  then have env: "node_root_envelope (root_response_frame v) n True = Inr (?h\<lparr>h_crc32c := crc\<rparr>)"
    using v n by (auto simp: node_root_envelope_def root_response_valid_def)
  show "vireo_node_root_response_decode (Some (root_response_frame v)) n (Some out) (Some i) =
      (VIREO_OK, Some (id v), Some VIREO_NODE_ROOT_ISSUE_NONE)"
  proof (cases ?ok)
    case True
    let ?f = "(VIREO_NODE_ROOT_TLV_NODE_ID, be64 (root_rs_root_node_id v))"
    have body: "drop 32 (root_response_frame v) = field_bytes ?f" by (simp add: root_response_frame_def root_fields_def True)
    have "first_u64 (field_bytes ?f) 12 = Some (root_rs_root_node_id v)"
      by (simp add: first_u64_field [of 12 "field_bytes ?f" "fst ?f" "snd ?f"])
    moreover have "fst (vireo_tlv_schema_validate (Some (field_bytes ?f)) 12 (Some [root_rule]) 1
        VIREO_TLV_UNKNOWN_REJECT (Some [0]) 1 (Some VIREO_TLV_ISSUE_NONE)) = VIREO_OK"
      using root_body_read [of 12 "field_bytes ?f"] by fastforce
    ultimately show ?thesis
      using v True env body by (simp add: vireo_node_root_response_decode_def root_response_valid_def)
  next
    case False
    then show ?thesis using v env by (auto simp: vireo_node_root_response_decode_def root_response_valid_def)
  qed
next
  fix n :: size_t and wire :: bytes and out i
  assume len: "unat n \<le> length wire"
  show "(\<exists>j. j \<noteq> VIREO_NODE_ROOT_ISSUE_NONE \<and> vireo_node_root_response_decode (Some wire) n (Some out) (Some i) =
        (VIREO_RESULT_PROTOCOL, Some out, Some j)) \<or>
      (\<exists>v. True \<and> root_response_valid v \<and> id v = v \<and> vireo_node_root_response_decode (Some wire) n (Some out) (Some i) =
        (VIREO_OK, Some v, Some VIREO_NODE_ROOT_ISSUE_NONE))"
  proof (cases "node_root_envelope wire n True")
    case (Inl j)
    then show ?thesis using root_envelope_Inl by (simp add: vireo_node_root_response_decode_def)
  next
    case (Inr h)
    note h = root_envelope_response [OF Inr len]
    then show ?thesis using Inr
      by (auto simp: vireo_node_root_response_decode_def root_response_valid_def Let_def split: option.split)
  qed
qed

text \<open>
  C34. NODE_ROOT messages arrive as they were sent. The request and the response codec meet
  \<open>codec_contract\<close>: a request is sendable when its sequence is not zero; a response, when its status
  is one of the fourteen allowed ones and session handle and root id are present exactly for status
  OK. Frames have 32 bytes, or 44 for a successful response.
\<close>

theorem node_root_codec:
  "codec_contract (\<lambda>_. True) (\<lambda>v. root_rq_sequence v \<noteq> 0) id (\<lambda>_. 32)
     vireo_node_root_request_encode vireo_node_root_request_decode VIREO_NODE_ROOT_ISSUE_NONE \<and>
   codec_contract (\<lambda>_. True) root_response_valid id (\<lambda>v. if root_rs_status v = VIREO_STATUS_OK then 44 else 32)
     vireo_node_root_response_encode vireo_node_root_response_decode VIREO_NODE_ROOT_ISSUE_NONE"
proof
  have "root_request_valid = (\<lambda>v. root_rq_sequence v \<noteq> 0)" "(\<lambda>v. length (root_request_frame v)) = (\<lambda>_. 32)"
    by (auto simp: root_request_valid_def root_request_frame_def)
  then show "codec_contract (\<lambda>_. True) (\<lambda>v. root_rq_sequence v \<noteq> 0) id (\<lambda>_. 32)
      vireo_node_root_request_encode vireo_node_root_request_decode VIREO_NODE_ROOT_ISSUE_NONE"
    using root_request.contract by simp
  have "(\<lambda>v. length (root_response_frame v)) = (\<lambda>v. if root_rs_status v = VIREO_STATUS_OK then 44 else 32)"
    by (auto simp: root_response_frame_def root_fields_def)
  then show "codec_contract (\<lambda>_. True) root_response_valid id (\<lambda>v. if root_rs_status v = VIREO_STATUS_OK then 44 else 32)
      vireo_node_root_response_encode vireo_node_root_response_decode VIREO_NODE_ROOT_ISSUE_NONE"
    using root_response.contract by simp
qed

end
