(* ===== verification/Protocol_Id_Key.thy ===== *)
theory Protocol_Id_Key
  imports Protocol_Message
begin

text \<open>
  The body \<^verbatim>\<open>NODE_ID, IDEMPOTENCY_KEY\<close> that NODE_REMOVE requests and the successful responses to
  NODE_REMOVE, NODE_MKDIR and NODE_MOVE have in common: its rule table, the bodies the table accepts,
  and what the field loops of the three decoders make of them.
\<close>

definition id_key_rules :: "vireo_tlv_rule list" where
  "id_key_rules =
     [\<lparr>rule_type = 0x0401, rule_min_length = 8, rule_max_length = 8,
       rule_value_kind = VIREO_TLV_VALUE_U64, rule_required = True, rule_repeatable = False\<rparr>,
      \<lparr>rule_type = 0x0420, rule_min_length = 16, rule_max_length = 16,
       rule_value_kind = VIREO_TLV_VALUE_BYTES, rule_required = True, rule_repeatable = False\<rparr>]"

definition id_key_fields :: "u64 \<Rightarrow> bytes \<Rightarrow> field list" where
  "id_key_fields node_id key = [(0x0401, be64 node_id), (0x0420, key)]"

fun id_key_step :: "field \<Rightarrow> u64 \<times> bytes \<Rightarrow> vireo_result \<times> u64 \<times> bytes" where
  "id_key_step f (node_id, key) =
     (if fst f = 0x0401 then (VIREO_OK, rd64 (snd f), key) else (VIREO_OK, node_id, mem_write 0 (snd f) key))"

lemma key_zero_replicate [simp]: "key_zero (replicate 16 0)"
  by (simp add: key_zero_def list_all_iff)

lemma key_zero_iff: "length key = 16 \<Longrightarrow> key_zero key \<longleftrightarrow> key = replicate 16 0"
  by (auto simp: key_zero_def list_all_iff intro: replicate_eqI)

lemma id_key_rules_valid: "vireo_tlv_rules_are_valid (Some id_key_rules) 2"
  by (simp add: vireo_tlv_rules_are_valid_def id_key_rules_def upt_rec)

lemma id_key_accepted_field:
  assumes "schema_accepts id_key_rules VIREO_TLV_UNKNOWN_REJECT fs" and "f \<in> set fs"
  shows "fst f = 0x0401 \<and> length (snd f) = 8 \<or> fst f = 0x0420 \<and> length (snd f) = 16"
  using assms by (fastforce simp: schema_accepts_def id_key_rules_def value_spec_def)

lemma id_key_accepts:
  "length key = 16 \<Longrightarrow> schema_accepts id_key_rules VIREO_TLV_UNKNOWN_REJECT (id_key_fields node_id key)"
  by (simp add: schema_accepts_def id_key_rules_def id_key_fields_def value_spec_def)

lemma id_key_fits: "length key = 16 \<Longrightarrow> list_all field_fits (id_key_fields node_id key)"
  by (simp add: id_key_fields_def field_fits_def)

lemma length_id_key [simp]: "length key = 16 \<Longrightarrow> length (tlv_encode (id_key_fields node_id key)) = 32"
  by (simp add: id_key_fields_def)

lemma id_key_schema:
  assumes "unat sz \<le> length body" and "2 \<le> length seen" and "2 \<le> cap"
  shows "fst (vireo_tlv_schema_validate (Some body) sz (Some id_key_rules) 2 VIREO_TLV_UNKNOWN_REJECT
      (Some seen) cap (Some i)) = VIREO_OK \<longleftrightarrow>
    (\<exists>fs. take (unat sz) body = tlv_encode fs \<and> list_all field_fits fs \<and>
       schema_accepts id_key_rules VIREO_TLV_UNKNOWN_REJECT fs)"
proof -
  have "take (unat (2 :: size_t)) id_key_rules = id_key_rules" by (simp add: id_key_rules_def)
  then show ?thesis
    using assms id_key_rules_valid schema_validate_iff(1) [of sz body 2 id_key_rules seen cap VIREO_TLV_UNKNOWN_REJECT i]
    by (simp add: id_key_rules_def)
qed

lemma id_key_read:
  assumes "take (unat sz) body = tlv_encode (id_key_fields node_id key)" and "unat sz \<le> length body"
    and "length key = 16"
    and "\<And>v f s. fst f = 0x0401 \<and> length (snd f) = 8 \<or> fst f = 0x0420 \<and> length (snd f) = 16 \<Longrightarrow>
      view_of v f \<Longrightarrow> on_field v s = id_key_step f s"
  shows "read_body on_field body sz (0, replicate 16 0) = (VIREO_OK, node_id, key)"
proof -
  have "read_body on_field body sz (0, replicate 16 0) =
      fields_run id_key_step (id_key_fields node_id key) (0, replicate 16 0)"
  proof (rule read_body_fields [OF assms(1,2) id_key_fits [OF assms(3)]])
    fix v f s
    assume "f \<in> set (id_key_fields node_id key)" and "view_of v f"
    then show "on_field v s = id_key_step f s"
      using id_key_accepted_field [OF id_key_accepts [OF assms(3)]] assms(4) by blast
  qed
  then show ?thesis using assms(3) by (simp add: id_key_fields_def mem_write_def)
qed

lemma id_key_read_shape:
  assumes "take (unat sz) body = tlv_encode fs" and "unat sz \<le> length body" and "list_all field_fits fs"
    and "schema_accepts id_key_rules VIREO_TLV_UNKNOWN_REJECT fs"
    and "\<And>v f s. fst f = 0x0401 \<and> length (snd f) = 8 \<or> fst f = 0x0420 \<and> length (snd f) = 16 \<Longrightarrow>
      view_of v f \<Longrightarrow> on_field v s = id_key_step f s"
  shows "\<exists>node_id key. read_body on_field body sz (0, replicate 16 0) = (VIREO_OK, node_id, key) \<and> length key = 16"
proof -
  have "read_body on_field body sz (0, replicate 16 0) = fields_run id_key_step fs (0, replicate 16 0)"
    using id_key_accepted_field [OF assms(4)] assms(5)
    by (intro read_body_fields [OF assms(1-3)]) blast
  moreover have "\<exists>m k'. fields_run id_key_step fs (n, k) = (VIREO_OK, m, k') \<and> length k' = 16"
    if "length k = 16" "set fs \<subseteq> S" "\<forall>f \<in> S. fst f = 0x0401 \<or> length (snd f) = 16" for n k S
    using that
  proof (induction fs arbitrary: n k)
    case (Cons f fs)
    then have "fst f \<noteq> 0x0401 \<Longrightarrow> length (mem_write 0 (snd f) k) = 16" by auto
    with Cons show ?case by (cases "fst f = 0x0401") simp_all
  qed simp
  ultimately show ?thesis using id_key_accepted_field [OF assms(4)] by (metis length_replicate order_refl)
qed

text \<open>What a name has to be, on code points: not empty, not a dot name, no slash, no control character.\<close>

definition name_ok :: "bytes \<Rightarrow> bool" where
  "name_ok b \<longleftrightarrow> 1 \<le> length b \<and> length b \<le> 255 \<and>
     (\<exists>cs. list_all scalar cs \<and> b = utf8_text cs \<and> cs \<notin> {[], [0x2E], [0x2E, 0x2E]} \<and> list_all name_char cs)"

lemma ucast_nat: "(ucast (x :: size_t) :: u32) = word_of_nat (unat x)"
  by (simp add: word_unat_eq_iff unsigned_ucast_eq take_bit_eq_mod unat_of_nat)

subsection \<open>Responses with an id and a key\<close>

text \<open>
  The response codecs of NODE_REMOVE, NODE_MKDIR and NODE_MOVE are, up to the names of their
  structures and issues, this pair of functions. \<open>env\<close>, \<open>schema\<close> and \<open>on_field\<close> stand for the static
  functions of the file, the laws of \<open>id_key_codec\<close> say what they do.
\<close>

record id_key_response =
  ik_status :: u16
  ik_sequence :: u32
  ik_session_handle :: u32
  ik_node_id :: u64
  ik_key :: bytes

definition ik_shape :: "id_key_response \<Rightarrow> bool" where
  "ik_shape v \<longleftrightarrow> length (ik_key v) = 16"

definition ik_valid :: "(u16 \<Rightarrow> bool) \<Rightarrow> id_key_response \<Rightarrow> bool" where
  "ik_valid allowed v \<longleftrightarrow> ik_sequence v \<noteq> 0 \<and> allowed (ik_status v) \<and>
     (if ik_status v = VIREO_STATUS_OK then ik_session_handle v \<noteq> 0 \<and> ik_node_id v \<noteq> 0 \<and> \<not> key_zero (ik_key v)
      else ik_session_handle v = 0 \<and> ik_node_id v = 0 \<and> key_zero (ik_key v))"

definition ik_len :: "id_key_response \<Rightarrow> nat" where
  "ik_len v = (if ik_status v = VIREO_STATUS_OK then 64 else 32)"

definition ik_frame :: "u16 \<Rightarrow> id_key_response \<Rightarrow> bytes" where
  "ik_frame command v =
     sealed (message_header True command (ik_status v) (if ik_status v = VIREO_STATUS_OK then 32 else 0)
       (ik_sequence v) (ik_session_handle v))
     (if ik_status v = VIREO_STATUS_OK then tlv_encode (id_key_fields (ik_node_id v) (ik_key v)) else [])"

definition ik_encode :: "u16 \<Rightarrow> (u16 \<Rightarrow> bool) \<Rightarrow> id_key_response option \<Rightarrow> bytes option \<Rightarrow> size_t \<Rightarrow> size_t option \<Rightarrow>
    vireo_result \<times> bytes option \<times> size_t option" where
  "ik_encode command allowed value wire capacity out_size =
     (if value = None \<or> wire = None \<or> out_size = None \<or> ik_sequence (the value) = 0 \<or>
         \<not> allowed (ik_status (the value)) \<or>
         (if ik_status (the value) = VIREO_STATUS_OK
          then ik_session_handle (the value) = 0 \<or> ik_node_id (the value) = 0 \<or> key_zero (ik_key (the value))
          else ik_session_handle (the value) \<noteq> 0 \<or> ik_node_id (the value) \<noteq> 0 \<or> \<not> key_zero (ik_key (the value)))
      then (VIREO_RESULT_INVALID_ARGUMENT, wire, out_size)
      else
        let value = the value; body = (if ik_status value = VIREO_STATUS_OK then 32 else 0) in
        if capacity < 32 + body then (VIREO_RESULT_RANGE, wire, out_size)
        else
          let frame = replicate 64 0;
              (rc, frame) =
                (if body \<noteq> 0
                 then let (rc, w) = put_seq [\<lambda>w. vireo_tlv_writer_put_u64 w 0x0401 (ik_node_id value),
                             \<lambda>w. vireo_tlv_writer_put w 0x0420 (Some (ik_key value)) 16] (body_writer frame body)
                      in (rc, body_frame frame w)
                 else (VIREO_OK, frame));
              header = message_header True command (ik_status value) (ucast body) (ik_sequence value)
                         (ik_session_handle value) in
          if rc \<noteq> VIREO_OK then (rc, wire, out_size)
          else let (rc, w, n) = publish header frame (32 + body) (the wire) (the out_size) in (rc, Some w, Some n))"

definition ik_decode :: "(bytes \<Rightarrow> size_t \<Rightarrow> 'i + vireo_protocol_header) \<Rightarrow>
    (bytes \<Rightarrow> size_t \<Rightarrow> 'i \<Rightarrow> vireo_result \<times> 'i) \<Rightarrow> (vireo_tlv_view \<Rightarrow> u64 \<times> bytes \<Rightarrow> vireo_result \<times> u64 \<times> bytes) \<Rightarrow>
    'i \<Rightarrow> 'i \<Rightarrow> 'i \<Rightarrow> bytes option \<Rightarrow> size_t \<Rightarrow> id_key_response option \<Rightarrow> 'i option \<Rightarrow>
    vireo_result \<times> id_key_response option \<times> 'i option" where
  "ik_decode env schema on_field none fields_issue value_issue wire wire_size out issue =
     (let issue = map_option (\<lambda>_. none) issue in
      if wire = None \<or> out = None \<or> issue = None then (VIREO_RESULT_INVALID_ARGUMENT, out, issue)
      else case env (the wire) wire_size of
        Inl i \<Rightarrow> (VIREO_RESULT_PROTOCOL, out, Some i)
      | Inr header \<Rightarrow>
          let result = \<lparr>ik_status = h_status header, ik_sequence = h_sequence header,
                        ik_session_handle = h_session_handle header, ik_node_id = 0, ik_key = replicate 16 0\<rparr> in
          if h_status header \<noteq> VIREO_STATUS_OK then (VIREO_OK, Some result, issue)
          else
            let body = drop 32 (the wire); body_len = ucast (h_body_len header);
                (rc, i) = schema body body_len (the issue) in
            if rc \<noteq> VIREO_OK then (VIREO_RESULT_PROTOCOL, out, Some i)
            else
              let (rc, node_id, key) = read_body on_field body body_len (0, replicate 16 0) in
              if rc \<noteq> VIREO_OK then (VIREO_RESULT_PROTOCOL, out, Some fields_issue)
              else if node_id = 0 \<or> key_zero key then (VIREO_RESULT_PROTOCOL, out, Some value_issue)
              else (VIREO_OK, Some (result\<lparr>ik_node_id := node_id, ik_key := key\<rparr>), Some i))"

lemma ik_frame_len: "ik_shape v \<Longrightarrow> length (ik_frame command v) = ik_len v"
  by (simp add: ik_shape_def ik_frame_def ik_len_def)

lemma ucast_u32_eq: "(ucast (x :: u32) :: size_t) = 32 \<longleftrightarrow> x = 32"
  by (simp add: word_unat_eq_iff unat_ucast_le)

locale id_key_codec =
  fixes command :: u16 and allowed :: "u16 \<Rightarrow> bool"
    and env :: "bytes \<Rightarrow> size_t \<Rightarrow> 'i + vireo_protocol_header"
    and schema :: "bytes \<Rightarrow> size_t \<Rightarrow> 'i \<Rightarrow> vireo_result \<times> 'i"
    and on_field :: "vireo_tlv_view \<Rightarrow> u64 \<times> bytes \<Rightarrow> vireo_result \<times> u64 \<times> bytes"
    and none :: 'i and fields_issue :: 'i and value_issue :: 'i
  assumes command_known: "vireo_command_is_known command"
    and allowed_known: "allowed s \<Longrightarrow> vireo_status_is_known s"
    and issues: "fields_issue \<noteq> none" "value_issue \<noteq> none"
    and env_Inl: "env wire n = Inl j \<Longrightarrow> j \<noteq> none"
    and env_Inr: "env wire n = Inr h \<longleftrightarrow>
      (n = 32 \<or> n = 64) \<and> checked_header wire n True = Some h \<and> h_command h = command \<and> h_task_handle h = 0 \<and>
      h_flags h = VIREO_PROTOCOL_FLAG_RESPONSE \<and> n = 32 + ucast (h_body_len h) \<and> allowed (h_status h) \<and>
      (if h_status h = VIREO_STATUS_OK then h_session_handle h \<noteq> 0 \<and> h_body_len h = 32
       else h_session_handle h = 0 \<and> h_body_len h = 0) \<and> crc_ok wire h"
    and schema_rc: "unat n \<le> length body \<Longrightarrow> fst (schema body n i) = VIREO_OK \<longleftrightarrow>
      (\<exists>fs. take (unat n) body = tlv_encode fs \<and> list_all field_fits fs \<and>
         schema_accepts id_key_rules VIREO_TLV_UNKNOWN_REJECT fs)"
    and schema_issue: "schema body n none = (rc, j) \<Longrightarrow> if rc = VIREO_OK then j = none else j \<noteq> none"
    and field: "fst f = 0x0401 \<and> length (snd f) = 8 \<or> fst f = 0x0420 \<and> length (snd f) = 16 \<Longrightarrow> view_of v f \<Longrightarrow>
      on_field v st = id_key_step f st"
begin

lemma encode_frame:
  assumes shape: "ik_shape v" and v: "ik_valid allowed v" and len: "length (ik_frame command v) \<le> unat cap"
  shows "ik_encode command allowed (Some v) (Some wire) cap (Some old) =
    (VIREO_OK, Some (mem_write 0 (ik_frame command v) wire), Some (word_of_nat (length (ik_frame command v))))"
proof (cases "ik_status v = 0")
  case True
  have key: "length (ik_key v) = 16" using shape by (simp add: ik_shape_def)
  let ?fs = "id_key_fields (ik_node_id v) (ik_key v)"
  obtain w where w: "put_seq (map field_put ?fs) (body_writer (replicate 64 0) 32) = (VIREO_OK, Some w)"
    "32 \<le> length (body_frame (replicate 64 0) (Some w))"
    "take 32 (drop 32 (body_frame (replicate 64 0) (Some w))) = tlv_encode ?fs"
    using body_written [OF id_key_fits [OF key], of 32 _ "replicate 64 0"] key by auto
  have "\<not> cap < 64" using len True key by (simp add: ik_frame_def word_less_nat_alt)
  then show ?thesis
    using v True w key message_publish [of 32 "tlv_encode ?fs" 64]
    by (simp add: ik_encode_def ik_valid_def id_key_fields_def field_puts ik_frame_def)
next
  case False
  have "\<not> cap < 32" using len False by (simp add: ik_frame_def word_less_nat_alt)
  then show ?thesis
    using v False message_publish [of 0 "[]" 32 "replicate 64 0"] by (simp add: ik_encode_def ik_valid_def ik_frame_def)
qed

lemma decode_frame:
  assumes shape: "ik_shape v" and v: "ik_valid allowed v" and n: "unat n = length (ik_frame command v)"
  shows "ik_decode env schema on_field none fields_issue value_issue (Some (ik_frame command v)) n (Some out) (Some i) =
    (VIREO_OK, Some v, Some none)"
proof -
  have key: "length (ik_key v) = 16" using shape by (simp add: ik_shape_def)
  let ?ok = "ik_status v = VIREO_STATUS_OK"
  let ?h = "message_header True command (ik_status v) (if ?ok then 32 else 0) (ik_sequence v) (ik_session_handle v)"
  have n: "n = (if ?ok then 64 else 32)" using n key by (simp add: word_unat_eq_iff ik_frame_def)
  have "\<exists>crc. checked_header (ik_frame command v) n True = Some (?h\<lparr>h_crc32c := crc\<rparr>) \<and>
      crc_ok (ik_frame command v) (?h\<lparr>h_crc32c := crc\<rparr>)"
    unfolding ik_frame_def using v n key command_known allowed_known
    by (intro message_sealed) (auto simp: ik_valid_def)
  then obtain crc where "checked_header (ik_frame command v) n True = Some (?h\<lparr>h_crc32c := crc\<rparr>)"
    "crc_ok (ik_frame command v) (?h\<lparr>h_crc32c := crc\<rparr>)" by blast
  then have env: "env (ik_frame command v) n = Inr (?h\<lparr>h_crc32c := crc\<rparr>)"
    unfolding env_Inr using n v by (cases ?ok) (simp_all add: ik_valid_def)
  show ?thesis
  proof (cases ?ok)
    case True
    let ?body = "tlv_encode (id_key_fields (ik_node_id v) (ik_key v))"
    have body: "drop 32 (ik_frame command v) = ?body" using True by (simp add: ik_frame_def)
    have len: "unat (32 :: size_t) \<le> length ?body" using key by simp
    obtain j where sch: "schema ?body 32 none = (VIREO_OK, j)"
      using schema_rc [OF len, of none] id_key_accepts [OF key] id_key_fits [OF key] key
      by (cases "schema ?body 32 none") fastforce
    have "read_body on_field ?body 32 (0, replicate 16 0) = (VIREO_OK, ik_node_id v, ik_key v)"
      using key by (intro id_key_read field) simp_all
    then show ?thesis
      using True env body sch schema_issue [OF sch] v by (simp add: ik_decode_def ik_valid_def)
  next
    case False
    then show ?thesis using v env key_zero_iff [OF key] by (simp add: ik_decode_def ik_valid_def)
  qed
qed

lemma decode_cases:
  assumes len: "unat n \<le> length wire"
  shows "(\<exists>j. j \<noteq> none \<and> ik_decode env schema on_field none fields_issue value_issue (Some wire) n (Some out) (Some i) =
      (VIREO_RESULT_PROTOCOL, Some out, Some j)) \<or>
    (\<exists>v. ik_shape v \<and> ik_valid allowed v \<and>
      ik_decode env schema on_field none fields_issue value_issue (Some wire) n (Some out) (Some i) =
        (VIREO_OK, Some v, Some none))"
proof (cases "env wire n")
  case (Inl j)
  then show ?thesis using env_Inl by (simp add: ik_decode_def)
next
  case (Inr h)
  have h: "checked_header wire n True = Some h" "n = 32 + ucast (h_body_len h)" "allowed (h_status h)"
    "h_status h = 0 \<longleftrightarrow> h_session_handle h \<noteq> 0"
    using Inr [unfolded env_Inr] by (auto split: if_splits)
  note facts = checked_header_facts [OF h(1) len]
  have body: "unat (ucast (h_body_len h) :: size_t) \<le> length (drop 32 wire)"
    using frame_body_size [OF len h(2) facts(2)] by blast
  obtain rc j where sch: "schema (drop 32 wire) (ucast (h_body_len h)) none = (rc, j)" by (metis surj_pair)
  consider "h_status h \<noteq> 0" | "h_status h = 0" "rc = VIREO_OK" | "h_status h = 0" "rc \<noteq> VIREO_OK" by blast
  then show ?thesis
  proof cases
    case 1
    then show ?thesis using Inr h facts by (simp add: ik_decode_def ik_valid_def ik_shape_def)
  next
    case 2
    then obtain fs where "take (unat (ucast (h_body_len h) :: size_t)) (drop 32 wire) = tlv_encode fs"
      "list_all field_fits fs" "schema_accepts id_key_rules VIREO_TLV_UNKNOWN_REJECT fs"
      using schema_rc [OF body, of none] sch by auto
    from id_key_read_shape [OF this(1) body this(2,3), of on_field] field
    obtain node_id key where "read_body on_field (drop 32 wire) (ucast (h_body_len h)) (0, replicate 16 0) =
        (VIREO_OK, node_id, key)" "length key = 16" by blast
    then show ?thesis using Inr sch 2 h facts(1) schema_issue [OF sch] issues(2)
      by (auto simp: ik_decode_def ik_valid_def ik_shape_def)
  next
    case 3
    then show ?thesis using Inr sch schema_issue [OF sch] by (simp add: ik_decode_def)
  qed
qed

end

sublocale id_key_codec \<subseteq> frame_codec ik_shape "ik_valid allowed" id "ik_frame command" "ik_encode command allowed"
  "ik_decode env schema on_field none fields_issue value_issue" none
proof
  fix v :: id_key_response and wire cap old
  assume shape: "ik_shape v"
  then have key: "length (ik_key v) = 16" by (simp add: ik_shape_def)
  show "ik_encode command allowed (Some v) (Some wire) cap (Some old) =
      (VIREO_RESULT_INVALID_ARGUMENT, Some wire, Some old)" if "\<not> ik_valid allowed v"
    using that by (auto simp: ik_encode_def ik_valid_def split: if_splits)
  assume v: "ik_valid allowed v"
  show "ik_encode command allowed (Some v) (Some wire) cap (Some old) =
      (VIREO_RESULT_RANGE, Some wire, Some old)" if "unat cap < length (ik_frame command v)"
    using that v key by (cases "ik_status v = 0") (simp_all add: ik_encode_def ik_valid_def ik_frame_def word_less_nat_alt)
  show "ik_encode command allowed (Some v) (Some wire) cap (Some old) =
      (VIREO_OK, Some (mem_write 0 (ik_frame command v) wire), Some (word_of_nat (length (ik_frame command v))))"
    if "length (ik_frame command v) \<le> unat cap"
    using shape v that by (rule encode_frame)
next
  fix v :: id_key_response and n :: size_t and out i
  assume "ik_shape v" "ik_valid allowed v" "unat n = length (ik_frame command v)"
  then show "ik_decode env schema on_field none fields_issue value_issue (Some (ik_frame command v)) n (Some out) (Some i) =
      (VIREO_OK, Some (id v), Some none)"
    by (simp add: decode_frame)
qed (use decode_cases in simp)

end
