(* ===== verification/Protocol_Node_Remove.thy ===== *)
theory Protocol_Node_Remove
  imports Protocol_Id_Key
begin

text \<open>
  The NODE_REMOVE message of \<^verbatim>\<open>src/protocol/node_remove.c\<close>: request and successful response carry a
  node id and a sixteen byte idempotency key. The output parameters \<open>node_id\<close> and \<open>key\<close> of
  \<^verbatim>\<open>read_fields\<close> are the state of its loop.
\<close>

record vireo_node_remove_request =
  remove_rq_sequence :: u32
  remove_rq_session_handle :: u32
  remove_rq_node_id :: u64
  remove_rq_idempotency_key :: bytes

record vireo_node_remove_response =
  remove_rs_status :: u16
  remove_rs_sequence :: u32
  remove_rs_session_handle :: u32
  remove_rs_node_id :: u64
  remove_rs_idempotency_key :: bytes

datatype vireo_node_remove_issue =
    VIREO_NODE_REMOVE_ISSUE_NONE | VIREO_NODE_REMOVE_ISSUE_HEADER | VIREO_NODE_REMOVE_ISSUE_ENVELOPE
  | VIREO_NODE_REMOVE_ISSUE_CRC | VIREO_NODE_REMOVE_ISSUE_FIELDS | VIREO_NODE_REMOVE_ISSUE_VALUE

abbreviation (input) VIREO_NODE_REMOVE_TLV_NODE_ID :: u16 where "VIREO_NODE_REMOVE_TLV_NODE_ID \<equiv> 0x0401"
abbreviation (input) VIREO_NODE_REMOVE_TLV_IDEMPOTENCY_KEY :: u16 where "VIREO_NODE_REMOVE_TLV_IDEMPOTENCY_KEY \<equiv> 0x0420"
abbreviation (input) VIREO_NODE_REMOVE_REQUEST_BODY_SIZE :: size_t where "VIREO_NODE_REMOVE_REQUEST_BODY_SIZE \<equiv> 32"
abbreviation (input) VIREO_NODE_REMOVE_REQUEST_FRAME_SIZE :: size_t where "VIREO_NODE_REMOVE_REQUEST_FRAME_SIZE \<equiv> 64"
abbreviation (input) VIREO_NODE_REMOVE_RESPONSE_BODY_SIZE :: size_t where "VIREO_NODE_REMOVE_RESPONSE_BODY_SIZE \<equiv> 32"
abbreviation (input) VIREO_NODE_REMOVE_RESPONSE_FRAME_MAX :: size_t where "VIREO_NODE_REMOVE_RESPONSE_FRAME_MAX \<equiv> 64"

definition node_remove_request_rules :: "vireo_tlv_rule list" where
  "node_remove_request_rules =
     [\<lparr>rule_type = VIREO_NODE_REMOVE_TLV_NODE_ID, rule_min_length = 8, rule_max_length = 8,
       rule_value_kind = VIREO_TLV_VALUE_U64, rule_required = True, rule_repeatable = False\<rparr>,
      \<lparr>rule_type = VIREO_NODE_REMOVE_TLV_IDEMPOTENCY_KEY, rule_min_length = 16, rule_max_length = 16,
       rule_value_kind = VIREO_TLV_VALUE_BYTES, rule_required = True, rule_repeatable = False\<rparr>]"

definition node_remove_response_rules :: "vireo_tlv_rule list" where
  "node_remove_response_rules =
     [\<lparr>rule_type = VIREO_NODE_REMOVE_TLV_NODE_ID, rule_min_length = 8, rule_max_length = 8,
       rule_value_kind = VIREO_TLV_VALUE_U64, rule_required = True, rule_repeatable = False\<rparr>,
      \<lparr>rule_type = VIREO_NODE_REMOVE_TLV_IDEMPOTENCY_KEY, rule_min_length = 16, rule_max_length = 16,
       rule_value_kind = VIREO_TLV_VALUE_BYTES, rule_required = True, rule_repeatable = False\<rparr>]"

definition node_remove_status_allowed :: "u16 \<Rightarrow> bool" where
  "node_remove_status_allowed status \<longleftrightarrow>
     status \<in> {VIREO_STATUS_OK, VIREO_STATUS_BAD_REQUEST, VIREO_STATUS_UNSUPPORTED, VIREO_STATUS_CRC_MISMATCH,
       VIREO_STATUS_BODY_TOO_LARGE, VIREO_STATUS_INVALID_FLAGS, VIREO_STATUS_DUPLICATE_REQUEST,
       VIREO_STATUS_RATE_LIMITED, VIREO_STATUS_UNAUTHORIZED, VIREO_STATUS_NOT_FOUND, VIREO_STATUS_FORBIDDEN,
       VIREO_STATUS_INVALID_PATH, VIREO_STATUS_CONFLICT, VIREO_STATUS_DIRECTORY_NOT_EMPTY, VIREO_STATUS_BUSY,
       VIREO_STATUS_INTERNAL_ERROR, VIREO_STATUS_DB_ERROR, VIREO_STATUS_TIMEOUT, VIREO_STATUS_OVERLOADED,
       VIREO_STATUS_UNAVAILABLE}"

definition node_remove_schema :: "bytes \<Rightarrow> size_t \<Rightarrow> bool \<Rightarrow> vireo_node_remove_issue \<Rightarrow>
    vireo_result \<times> vireo_node_remove_issue" where
  "node_remove_schema body sz response issue =
     (let (rc, seen, ti) = vireo_tlv_schema_validate (Some body) sz
            (Some (if response then node_remove_response_rules else node_remove_request_rules)) 2
            VIREO_TLV_UNKNOWN_REJECT (Some (replicate 2 0)) 2 (Some VIREO_TLV_ISSUE_NONE)
      in (rc, if rc \<noteq> VIREO_OK then VIREO_NODE_REMOVE_ISSUE_FIELDS else issue))"

definition node_remove_envelope :: "bytes \<Rightarrow> size_t \<Rightarrow> bool \<Rightarrow> vireo_node_remove_issue + vireo_protocol_header" where
  "node_remove_envelope wire sz response =
     (if sz < 32 then Inl VIREO_NODE_REMOVE_ISSUE_HEADER
      else if (if response then sz \<noteq> 32 \<and> sz \<noteq> VIREO_NODE_REMOVE_RESPONSE_FRAME_MAX
               else sz \<noteq> VIREO_NODE_REMOVE_REQUEST_FRAME_SIZE)
      then Inl VIREO_NODE_REMOVE_ISSUE_ENVELOPE
      else case checked_header wire sz response of
        None \<Rightarrow> Inl VIREO_NODE_REMOVE_ISSUE_HEADER
      | Some header \<Rightarrow>
          if h_command header \<noteq> VIREO_COMMAND_NODE_REMOVE \<or> h_task_handle header \<noteq> 0 \<or>
             h_flags header \<noteq> (if response then VIREO_PROTOCOL_FLAG_RESPONSE else 0) \<or>
             sz \<noteq> 32 + ucast (h_body_len header) \<or>
             (response \<and>
              (\<not> node_remove_status_allowed (h_status header) \<or>
               (if h_status header = VIREO_STATUS_OK
                then h_session_handle header = 0 \<or> ucast (h_body_len header) \<noteq> VIREO_NODE_REMOVE_RESPONSE_BODY_SIZE
                else h_session_handle header \<noteq> 0 \<or> h_body_len header \<noteq> 0)))
          then Inl VIREO_NODE_REMOVE_ISSUE_ENVELOPE
          else if \<not> crc_ok wire header then Inl VIREO_NODE_REMOVE_ISSUE_CRC
          else Inr header)"

definition node_remove_on_field :: "vireo_tlv_view \<Rightarrow> u64 \<times> bytes \<Rightarrow> vireo_result \<times> u64 \<times> bytes" where
  "node_remove_on_field field st =
     (let (node_id, key) = st in
      if tv_type field = VIREO_NODE_REMOVE_TLV_NODE_ID then
        let (rc, v) = vireo_tlv_view_read_u64 (Some field) (Some node_id) in (rc, the v, key)
      else if tv_type field = VIREO_NODE_REMOVE_TLV_IDEMPOTENCY_KEY then
        (VIREO_OK, node_id, mem_write 0 (take 16 (the (tv_value field))) key)
      else (VIREO_RESULT_PROTOCOL, node_id, key))"

definition node_remove_read_fields :: "bytes \<Rightarrow> size_t \<Rightarrow> u64 \<times> bytes \<Rightarrow> vireo_result \<times> u64 \<times> bytes" where
  "node_remove_read_fields body sz st = read_body node_remove_on_field body sz st"

definition vireo_node_remove_request_encode ::
  "vireo_node_remove_request option \<Rightarrow> bytes option \<Rightarrow> size_t \<Rightarrow> size_t option \<Rightarrow>
   vireo_result \<times> bytes option \<times> size_t option" where
  "vireo_node_remove_request_encode value wire capacity out_size =
     (if value = None \<or> wire = None \<or> out_size = None \<or> remove_rq_sequence (the value) = 0 \<or>
         remove_rq_node_id (the value) = 0 \<or> key_zero (remove_rq_idempotency_key (the value))
      then (VIREO_RESULT_INVALID_ARGUMENT, wire, out_size)
      else
        let value = the value;
            frame = replicate 64 0;
            (rc, w) = put_seq
              [\<lambda>w. vireo_tlv_writer_put_u64 w VIREO_NODE_REMOVE_TLV_NODE_ID (remove_rq_node_id value),
               \<lambda>w. vireo_tlv_writer_put w VIREO_NODE_REMOVE_TLV_IDEMPOTENCY_KEY
                     (Some (remove_rq_idempotency_key value)) 16]
              (body_writer frame VIREO_NODE_REMOVE_REQUEST_BODY_SIZE);
            frame = body_frame frame w;
            rc = (if rc = VIREO_OK
                  then let (rc, issue) = node_remove_schema (drop 32 frame) VIREO_NODE_REMOVE_REQUEST_BODY_SIZE False
                                           VIREO_NODE_REMOVE_ISSUE_NONE
                       in if rc = VIREO_RESULT_PROTOCOL then VIREO_RESULT_INVALID_ARGUMENT else rc
                  else rc) in
        if rc \<noteq> VIREO_OK then (rc, wire, out_size)
        else if capacity < VIREO_NODE_REMOVE_REQUEST_FRAME_SIZE then (VIREO_RESULT_RANGE, wire, out_size)
        else
          let header = message_header False VIREO_COMMAND_NODE_REMOVE 0 (ucast VIREO_NODE_REMOVE_REQUEST_BODY_SIZE)
                         (remove_rq_sequence value) (remove_rq_session_handle value);
              (rc, w, n) = publish header frame VIREO_NODE_REMOVE_REQUEST_FRAME_SIZE (the wire) (the out_size)
          in (rc, Some w, Some n))"

definition vireo_node_remove_request_decode ::
  "bytes option \<Rightarrow> size_t \<Rightarrow> vireo_node_remove_request option \<Rightarrow> vireo_node_remove_issue option \<Rightarrow>
   vireo_result \<times> vireo_node_remove_request option \<times> vireo_node_remove_issue option" where
  "vireo_node_remove_request_decode wire wire_size out issue =
     (let issue = map_option (\<lambda>_. VIREO_NODE_REMOVE_ISSUE_NONE) issue in
      if wire = None \<or> out = None \<or> issue = None then (VIREO_RESULT_INVALID_ARGUMENT, out, issue)
      else case node_remove_envelope (the wire) wire_size False of
        Inl i \<Rightarrow> (VIREO_RESULT_PROTOCOL, out, Some i)
      | Inr header \<Rightarrow>
          let body = drop 32 (the wire); body_len = ucast (h_body_len header);
              (rc, i) = node_remove_schema body body_len False (the issue) in
          if rc \<noteq> VIREO_OK then (VIREO_RESULT_PROTOCOL, out, Some i)
          else
            let (rc, node_id, key) = node_remove_read_fields body body_len (0, replicate 16 0) in
            if rc \<noteq> VIREO_OK then (VIREO_RESULT_PROTOCOL, out, Some VIREO_NODE_REMOVE_ISSUE_FIELDS)
            else if node_id = 0 \<or> key_zero key then (VIREO_RESULT_PROTOCOL, out, Some VIREO_NODE_REMOVE_ISSUE_VALUE)
            else (VIREO_OK, Some \<lparr>remove_rq_sequence = h_sequence header,
                    remove_rq_session_handle = h_session_handle header, remove_rq_node_id = node_id,
                    remove_rq_idempotency_key = key\<rparr>, Some i))"

definition vireo_node_remove_response_encode ::
  "vireo_node_remove_response option \<Rightarrow> bytes option \<Rightarrow> size_t \<Rightarrow> size_t option \<Rightarrow>
   vireo_result \<times> bytes option \<times> size_t option" where
  "vireo_node_remove_response_encode value wire capacity out_size =
     (if value = None \<or> wire = None \<or> out_size = None \<or> remove_rs_sequence (the value) = 0 \<or>
         \<not> node_remove_status_allowed (remove_rs_status (the value)) \<or>
         (if remove_rs_status (the value) = VIREO_STATUS_OK
          then remove_rs_session_handle (the value) = 0 \<or> remove_rs_node_id (the value) = 0 \<or>
               key_zero (remove_rs_idempotency_key (the value))
          else remove_rs_session_handle (the value) \<noteq> 0 \<or> remove_rs_node_id (the value) \<noteq> 0 \<or>
               \<not> key_zero (remove_rs_idempotency_key (the value)))
      then (VIREO_RESULT_INVALID_ARGUMENT, wire, out_size)
      else
        let value = the value;
            sz = (if remove_rs_status value = VIREO_STATUS_OK then VIREO_NODE_REMOVE_RESPONSE_FRAME_MAX else 32) in
        if capacity < sz then (VIREO_RESULT_RANGE, wire, out_size)
        else
          let frame = replicate 64 0;
              (rc, frame) =
                (if remove_rs_status value = VIREO_STATUS_OK
                 then let (rc, w) = put_seq
                            [\<lambda>w. vireo_tlv_writer_put_u64 w VIREO_NODE_REMOVE_TLV_NODE_ID (remove_rs_node_id value),
                             \<lambda>w. vireo_tlv_writer_put w VIREO_NODE_REMOVE_TLV_IDEMPOTENCY_KEY
                                   (Some (remove_rs_idempotency_key value)) 16]
                            (body_writer frame VIREO_NODE_REMOVE_RESPONSE_BODY_SIZE)
                      in (rc, body_frame frame w)
                 else (VIREO_OK, frame));
              header = message_header True VIREO_COMMAND_NODE_REMOVE (remove_rs_status value) (ucast (sz - 32))
                         (remove_rs_sequence value) (remove_rs_session_handle value) in
          if rc \<noteq> VIREO_OK then (rc, wire, out_size)
          else let (rc, w, n) = publish header frame sz (the wire) (the out_size) in (rc, Some w, Some n))"

definition vireo_node_remove_response_decode ::
  "bytes option \<Rightarrow> size_t \<Rightarrow> vireo_node_remove_response option \<Rightarrow> vireo_node_remove_issue option \<Rightarrow>
   vireo_result \<times> vireo_node_remove_response option \<times> vireo_node_remove_issue option" where
  "vireo_node_remove_response_decode wire wire_size out issue =
     (let issue = map_option (\<lambda>_. VIREO_NODE_REMOVE_ISSUE_NONE) issue in
      if wire = None \<or> out = None \<or> issue = None then (VIREO_RESULT_INVALID_ARGUMENT, out, issue)
      else case node_remove_envelope (the wire) wire_size True of
        Inl i \<Rightarrow> (VIREO_RESULT_PROTOCOL, out, Some i)
      | Inr header \<Rightarrow>
          let result = \<lparr>remove_rs_status = h_status header, remove_rs_sequence = h_sequence header,
                        remove_rs_session_handle = h_session_handle header, remove_rs_node_id = 0,
                        remove_rs_idempotency_key = replicate 16 0\<rparr> in
          if h_status header \<noteq> VIREO_STATUS_OK then (VIREO_OK, Some result, issue)
          else
            let body = drop 32 (the wire); body_len = ucast (h_body_len header);
                (rc, i) = node_remove_schema body body_len True (the issue) in
            if rc \<noteq> VIREO_OK then (VIREO_RESULT_PROTOCOL, out, Some i)
            else
              let (rc, node_id, key) = node_remove_read_fields body body_len (0, replicate 16 0) in
              if rc \<noteq> VIREO_OK then (VIREO_RESULT_PROTOCOL, out, Some VIREO_NODE_REMOVE_ISSUE_FIELDS)
              else if node_id = 0 \<or> key_zero key then (VIREO_RESULT_PROTOCOL, out, Some VIREO_NODE_REMOVE_ISSUE_VALUE)
              else (VIREO_OK, Some (result\<lparr>remove_rs_node_id := node_id, remove_rs_idempotency_key := key\<rparr>), Some i))"

subsection \<open>The contract\<close>

definition remove_request_shape :: "vireo_node_remove_request \<Rightarrow> bool" where
  "remove_request_shape v \<longleftrightarrow> length (remove_rq_idempotency_key v) = 16"

definition remove_request_valid :: "vireo_node_remove_request \<Rightarrow> bool" where
  "remove_request_valid v \<longleftrightarrow> remove_rq_sequence v \<noteq> 0 \<and> remove_rq_node_id v \<noteq> 0 \<and>
     \<not> key_zero (remove_rq_idempotency_key v)"

definition remove_parts :: "vireo_node_remove_response \<Rightarrow> id_key_response" where
  "remove_parts v = \<lparr>ik_status = remove_rs_status v, ik_sequence = remove_rs_sequence v,
     ik_session_handle = remove_rs_session_handle v, ik_node_id = remove_rs_node_id v,
     ik_key = remove_rs_idempotency_key v\<rparr>"

definition remove_mk :: "id_key_response \<Rightarrow> vireo_node_remove_response" where
  "remove_mk p = \<lparr>remove_rs_status = ik_status p, remove_rs_sequence = ik_sequence p,
     remove_rs_session_handle = ik_session_handle p, remove_rs_node_id = ik_node_id p,
     remove_rs_idempotency_key = ik_key p\<rparr>"

definition remove_request_frame :: "vireo_node_remove_request \<Rightarrow> bytes" where
  "remove_request_frame v = sealed (message_header False VIREO_COMMAND_NODE_REMOVE 0 32
     (remove_rq_sequence v) (remove_rq_session_handle v))
     (tlv_encode (id_key_fields (remove_rq_node_id v) (remove_rq_idempotency_key v)))"

lemma remove_rules:
  "node_remove_request_rules = id_key_rules" "node_remove_response_rules = id_key_rules"
  by (simp_all add: node_remove_request_rules_def node_remove_response_rules_def id_key_rules_def)

lemma remove_status_known: "node_remove_status_allowed s \<Longrightarrow> vireo_status_is_known s"
  by (auto simp: node_remove_status_allowed_def vireo_status_is_known_def)

lemma remove_command_known: "vireo_command_is_known VIREO_COMMAND_NODE_REMOVE"
  by (simp add: vireo_command_is_known_def)

lemma remove_on_field:
  assumes "fst f = 0x0401 \<and> length (snd f) = 8 \<or> fst f = 0x0420 \<and> length (snd f) = 16" and "view_of v f"
  shows "node_remove_on_field v s = id_key_step f s"
  using assms view_reads(3) [OF assms(2), of "fst s"] view_copy [OF assms(2), of 16]
  by (cases s) (auto simp: node_remove_on_field_def view_of_def)

lemma remove_schema_OK:
  assumes "unat sz \<le> length body"
  shows "fst (node_remove_schema body sz response i) = VIREO_OK \<longleftrightarrow>
    (\<exists>fs. take (unat sz) body = tlv_encode fs \<and> list_all field_fits fs \<and>
       schema_accepts id_key_rules VIREO_TLV_UNKNOWN_REJECT fs)"
  using id_key_schema [OF assms, of "replicate 2 0" 2 VIREO_TLV_ISSUE_NONE]
  by (auto simp: node_remove_schema_def remove_rules split: prod.splits)

lemma remove_schema_issue:
  "node_remove_schema body sz response i = (rc, j) \<Longrightarrow> j = (if rc \<noteq> VIREO_OK then VIREO_NODE_REMOVE_ISSUE_FIELDS else i)"
  by (auto simp: node_remove_schema_def split: prod.splits)

text \<open>A body of this shape passes the schema and is read back.\<close>

lemma remove_body:
  assumes "length key = 16" and "take 32 body = tlv_encode (id_key_fields node_id key)" and "32 \<le> length body"
  shows "node_remove_schema body 32 response i = (VIREO_OK, i)"
    and "node_remove_read_fields body 32 (0, replicate 16 0) = (VIREO_OK, node_id, key)"
proof -
  have "fst (node_remove_schema body 32 response i) = VIREO_OK"
    using assms id_key_fits id_key_accepts by (subst remove_schema_OK) auto
  then show "node_remove_schema body 32 response i = (VIREO_OK, i)"
    by (cases "node_remove_schema body 32 response i") (auto dest: remove_schema_issue)
  show "node_remove_read_fields body 32 (0, replicate 16 0) = (VIREO_OK, node_id, key)"
    unfolding node_remove_read_fields_def using assms by (intro id_key_read remove_on_field) simp_all
qed

lemma remove_body_any:
  assumes "node_remove_schema body sz response i = (VIREO_OK, j)" and "unat sz \<le> length body"
  obtains node_id key where "node_remove_read_fields body sz (0, replicate 16 0) = (VIREO_OK, node_id, key)"
    and "length key = 16"
proof -
  obtain fs where "take (unat sz) body = tlv_encode fs" "list_all field_fits fs"
    "schema_accepts id_key_rules VIREO_TLV_UNKNOWN_REJECT fs"
    using assms remove_schema_OK [OF assms(2), of response i] by auto
  from id_key_read_shape [OF this(1) assms(2) this(2,3), of node_remove_on_field] remove_on_field
  show thesis using that unfolding node_remove_read_fields_def by blast
qed

lemma remove_envelope_Inl: "node_remove_envelope wire n r = Inl j \<Longrightarrow> j \<noteq> VIREO_NODE_REMOVE_ISSUE_NONE"
  by (auto simp: node_remove_envelope_def split: if_splits option.splits)

lemma remove_envelope_Inr:
  assumes "node_remove_envelope wire n r = Inr h" and "unat n \<le> length wire"
  shows "h_sequence h \<noteq> 0" and "unat (ucast (h_body_len h) :: size_t) \<le> length (drop 32 wire)"
    and "r \<Longrightarrow> node_remove_status_allowed (h_status h) \<and> (h_status h = 0 \<longleftrightarrow> h_session_handle h \<noteq> 0)"
proof -
  have env: "checked_header wire n r = Some h" "n = 32 + ucast (h_body_len h)"
    "r \<Longrightarrow> node_remove_status_allowed (h_status h) \<and> (h_status h = 0 \<longleftrightarrow> h_session_handle h \<noteq> 0)"
    using assms(1) by (auto simp: node_remove_envelope_def split: if_splits option.splits)
  note facts = checked_header_facts [OF env(1) assms(2)]
  show "h_sequence h \<noteq> 0" "r \<Longrightarrow> node_remove_status_allowed (h_status h) \<and> (h_status h = 0 \<longleftrightarrow> h_session_handle h \<noteq> 0)"
    using env facts(1) by blast+
  show "unat (ucast (h_body_len h) :: size_t) \<le> length (drop 32 wire)"
    using frame_body_size [OF assms(2) env(2) facts(2)] by blast
qed

lemma remove_request_written:
  assumes "remove_request_shape v"
  obtains w where "put_seq [\<lambda>w. vireo_tlv_writer_put_u64 w 0x0401 (remove_rq_node_id v),
       \<lambda>w. vireo_tlv_writer_put w 0x0420 (Some (remove_rq_idempotency_key v)) 16] (body_writer (replicate 64 0) 32) =
      (VIREO_OK, Some w)"
    and "32 \<le> length (body_frame (replicate 64 0) (Some w))"
    and "take 32 (drop 32 (body_frame (replicate 64 0) (Some w))) =
      tlv_encode (id_key_fields (remove_rq_node_id v) (remove_rq_idempotency_key v))"
    and "node_remove_schema (drop 32 (body_frame (replicate 64 0) (Some w))) 32 False VIREO_NODE_REMOVE_ISSUE_NONE =
      (VIREO_OK, VIREO_NODE_REMOVE_ISSUE_NONE)"
proof -
  have key: "length (remove_rq_idempotency_key v) = 16" using assms by (simp add: remove_request_shape_def)
  let ?fs = "id_key_fields (remove_rq_node_id v) (remove_rq_idempotency_key v)"
  have puts: "map field_put ?fs = [\<lambda>w. vireo_tlv_writer_put_u64 w 0x0401 (remove_rq_node_id v),
       \<lambda>w. vireo_tlv_writer_put w 0x0420 (Some (remove_rq_idempotency_key v)) 16]"
    using key by (simp add: id_key_fields_def field_puts)
  obtain w where w: "put_seq (map field_put ?fs) (body_writer (replicate 64 0) 32) = (VIREO_OK, Some w)"
    "32 \<le> length (body_frame (replicate 64 0) (Some w))"
    "take 32 (drop 32 (body_frame (replicate 64 0) (Some w))) = tlv_encode ?fs"
    using body_written [OF id_key_fits [OF key], of 32 _ "replicate 64 0"] key by auto
  have "32 \<le> length (drop 32 (body_frame (replicate 64 0) (Some w)))"
    using arg_cong [OF w(3), of length] key by simp
  from that [OF w(1) [unfolded puts] w(2,3) remove_body(1) [OF key w(3) this]] show thesis .
qed

interpretation remove_request: frame_codec remove_request_shape remove_request_valid id remove_request_frame
  vireo_node_remove_request_encode vireo_node_remove_request_decode VIREO_NODE_REMOVE_ISSUE_NONE
proof
  fix v :: vireo_node_remove_request and wire cap old
  assume shape: "remove_request_shape v"
  then have key: "length (remove_rq_idempotency_key v) = 16" by (simp add: remove_request_shape_def)
  show "vireo_node_remove_request_encode (Some v) (Some wire) cap (Some old) =
      (VIREO_RESULT_INVALID_ARGUMENT, Some wire, Some old)" if "\<not> remove_request_valid v"
    using that by (simp add: vireo_node_remove_request_encode_def remove_request_valid_def)
  assume v: "remove_request_valid v"
  obtain w where w: "put_seq [\<lambda>w. vireo_tlv_writer_put_u64 w 0x0401 (remove_rq_node_id v),
       \<lambda>w. vireo_tlv_writer_put w 0x0420 (Some (remove_rq_idempotency_key v)) 16] (body_writer (replicate 64 0) 32) =
      (VIREO_OK, Some w)" "32 \<le> length (body_frame (replicate 64 0) (Some w))"
    "take 32 (drop 32 (body_frame (replicate 64 0) (Some w))) =
      tlv_encode (id_key_fields (remove_rq_node_id v) (remove_rq_idempotency_key v))"
    "node_remove_schema (drop 32 (body_frame (replicate 64 0) (Some w))) 32 False VIREO_NODE_REMOVE_ISSUE_NONE =
      (VIREO_OK, VIREO_NODE_REMOVE_ISSUE_NONE)"
    using shape by (rule remove_request_written)
  show "vireo_node_remove_request_encode (Some v) (Some wire) cap (Some old) =
      (VIREO_RESULT_RANGE, Some wire, Some old)" if "unat cap < length (remove_request_frame v)"
    using that v w key by (simp add: vireo_node_remove_request_encode_def remove_request_valid_def
        remove_request_frame_def word_less_nat_alt)
  show "vireo_node_remove_request_encode (Some v) (Some wire) cap (Some old) =
      (VIREO_OK, Some (mem_write 0 (remove_request_frame v) wire), Some (word_of_nat (length (remove_request_frame v))))"
    if "length (remove_request_frame v) \<le> unat cap"
    using that v w key message_publish [of 32 "tlv_encode (id_key_fields (remove_rq_node_id v) (remove_rq_idempotency_key v))" 64]
    by (simp add: vireo_node_remove_request_encode_def remove_request_valid_def remove_request_frame_def
        word_less_nat_alt)
next
  fix v :: vireo_node_remove_request and n :: size_t and out i
  assume "remove_request_shape v" and v: "remove_request_valid v" and n: "unat n = length (remove_request_frame v)"
  then have key: "length (remove_rq_idempotency_key v) = 16" by (simp add: remove_request_shape_def)
  let ?h = "message_header False VIREO_COMMAND_NODE_REMOVE 0 32 (remove_rq_sequence v) (remove_rq_session_handle v)"
  have n: "n = 64" using n key by (simp add: word_unat_eq_iff remove_request_frame_def)
  have "\<exists>crc. checked_header (remove_request_frame v) n False = Some (?h\<lparr>h_crc32c := crc\<rparr>) \<and>
      crc_ok (remove_request_frame v) (?h\<lparr>h_crc32c := crc\<rparr>)"
    unfolding remove_request_frame_def using v n key remove_command_known
    by (intro message_sealed) (auto simp: remove_request_valid_def)
  then obtain crc where "node_remove_envelope (remove_request_frame v) n False = Inr (?h\<lparr>h_crc32c := crc\<rparr>)"
    using n by (auto simp: node_remove_envelope_def)
  moreover have "drop 32 (remove_request_frame v) =
      tlv_encode (id_key_fields (remove_rq_node_id v) (remove_rq_idempotency_key v))"
    by (simp add: remove_request_frame_def)
  ultimately show "vireo_node_remove_request_decode (Some (remove_request_frame v)) n (Some out) (Some i) =
      (VIREO_OK, Some (id v), Some VIREO_NODE_REMOVE_ISSUE_NONE)"
    using v key by (simp add: vireo_node_remove_request_decode_def remove_body [OF key] remove_request_valid_def)
next
  fix n :: size_t and wire :: bytes and out i
  assume len: "unat n \<le> length wire"
  show "(\<exists>j. j \<noteq> VIREO_NODE_REMOVE_ISSUE_NONE \<and> vireo_node_remove_request_decode (Some wire) n (Some out) (Some i) =
        (VIREO_RESULT_PROTOCOL, Some out, Some j)) \<or>
      (\<exists>v. remove_request_shape v \<and> remove_request_valid v \<and> id v = v \<and>
        vireo_node_remove_request_decode (Some wire) n (Some out) (Some i) =
        (VIREO_OK, Some v, Some VIREO_NODE_REMOVE_ISSUE_NONE))"
  proof (cases "node_remove_envelope wire n False")
    case (Inl j)
    then show ?thesis using remove_envelope_Inl by (simp add: vireo_node_remove_request_decode_def)
  next
    case (Inr h)
    note h = remove_envelope_Inr [OF Inr len]
    obtain rc j where sch: "node_remove_schema (drop 32 wire) (ucast (h_body_len h)) False VIREO_NODE_REMOVE_ISSUE_NONE =
        (rc, j)" by (metis surj_pair)
    show ?thesis
    proof (cases "rc = VIREO_OK")
      case True
      then obtain node_id key where "node_remove_read_fields (drop 32 wire) (ucast (h_body_len h)) (0, replicate 16 0) =
          (VIREO_OK, node_id, key)" "length key = 16"
        using remove_body_any [OF _ h(2)] sch by metis
      then show ?thesis using Inr sch True h(1) remove_schema_issue [OF sch]
        by (simp add: vireo_node_remove_request_decode_def remove_request_valid_def remove_request_shape_def)
    next
      case False
      then show ?thesis using Inr sch remove_schema_issue [OF sch] by (simp add: vireo_node_remove_request_decode_def)
    qed
  qed
qed

lemma remove_request_len: "remove_request_shape v \<Longrightarrow> length (remove_request_frame v) = 64"
  by (simp add: remove_request_frame_def remove_request_shape_def)

lemma remove_iso: "remove_mk (remove_parts v) = v" "remove_parts (remove_mk p) = p"
  by (simp_all add: remove_mk_def remove_parts_def)

interpretation remove_response: id_key_codec VIREO_COMMAND_NODE_REMOVE node_remove_status_allowed
  "\<lambda>wire n. node_remove_envelope wire n True" "\<lambda>body n. node_remove_schema body n True" node_remove_on_field
  VIREO_NODE_REMOVE_ISSUE_NONE VIREO_NODE_REMOVE_ISSUE_FIELDS VIREO_NODE_REMOVE_ISSUE_VALUE
proof
  show "node_remove_envelope wire n True = Inr h \<longleftrightarrow>
      (n = 32 \<or> n = 64) \<and> checked_header wire n True = Some h \<and> h_command h = VIREO_COMMAND_NODE_REMOVE \<and>
      h_task_handle h = 0 \<and> h_flags h = VIREO_PROTOCOL_FLAG_RESPONSE \<and> n = 32 + ucast (h_body_len h) \<and>
      node_remove_status_allowed (h_status h) \<and>
      (if h_status h = VIREO_STATUS_OK then h_session_handle h \<noteq> 0 \<and> h_body_len h = 32
       else h_session_handle h = 0 \<and> h_body_len h = 0) \<and> crc_ok wire h" for wire n h
    by (auto simp: node_remove_envelope_def ucast_u32_eq split: option.splits)
  show "if rc = VIREO_OK then j = VIREO_NODE_REMOVE_ISSUE_NONE else j \<noteq> VIREO_NODE_REMOVE_ISSUE_NONE"
    if "node_remove_schema body n True VIREO_NODE_REMOVE_ISSUE_NONE = (rc, j)" for body n rc j
    using remove_schema_issue [OF that] by simp
qed (auto simp: remove_schema_OK intro: remove_command_known remove_status_known remove_on_field
      dest: remove_envelope_Inl)

lemma remove_response_contract:
  "codec_contract (\<lambda>v. ik_shape (remove_parts v)) (\<lambda>v. ik_valid node_remove_status_allowed (remove_parts v))
     (\<lambda>v. remove_mk (id (remove_parts v))) (\<lambda>v. length (ik_frame VIREO_COMMAND_NODE_REMOVE (remove_parts v)))
     vireo_node_remove_response_encode vireo_node_remove_response_decode VIREO_NODE_REMOVE_ISSUE_NONE"
proof (rule codec_contract_iso [OF remove_response.contract remove_iso])
  show "vireo_node_remove_response_encode (Some v) (Some wire) cap (Some old) =
      ik_encode VIREO_COMMAND_NODE_REMOVE node_remove_status_allowed (Some (remove_parts v)) (Some wire) cap (Some old)"
    for v wire cap old
    by (cases "remove_rs_status v = 0")
      (simp_all add: vireo_node_remove_response_encode_def ik_encode_def remove_parts_def Let_def cong: if_cong)
  show "vireo_node_remove_response_decode (Some wire) n (Some out) (Some i) =
      (case ik_decode (\<lambda>wire n. node_remove_envelope wire n True) (\<lambda>body n. node_remove_schema body n True)
          node_remove_on_field VIREO_NODE_REMOVE_ISSUE_NONE VIREO_NODE_REMOVE_ISSUE_FIELDS
          VIREO_NODE_REMOVE_ISSUE_VALUE (Some wire) n (Some (remove_parts out)) (Some i) of
        (rc, p, j) \<Rightarrow> (rc, map_option remove_mk p, j))" for wire n out i
    by (simp add: vireo_node_remove_response_decode_def ik_decode_def node_remove_read_fields_def remove_iso Let_def
        split: sum.split prod.split) (simp add: remove_mk_def)
qed

text \<open>
  C33. NODE_REMOVE messages arrive as they were sent: the request and the response codec meet
  \<open>codec_contract\<close>. A request needs a sequence, a node id and a key that is not all zero; a response,
  an allowed status, with session handle, node id and key present exactly for status OK. The key of
  an unsuccessful response is all zero on both sides.
\<close>

theorem node_remove_codec:
  "codec_contract (\<lambda>v. length (remove_rq_idempotency_key v) = 16)
     (\<lambda>v. remove_rq_sequence v \<noteq> 0 \<and> remove_rq_node_id v \<noteq> 0 \<and> \<not> key_zero (remove_rq_idempotency_key v)) id (\<lambda>_. 64)
     vireo_node_remove_request_encode vireo_node_remove_request_decode VIREO_NODE_REMOVE_ISSUE_NONE \<and>
   codec_contract (\<lambda>v. length (remove_rs_idempotency_key v) = 16)
     (\<lambda>v. ik_valid node_remove_status_allowed (remove_parts v)) id (\<lambda>v. ik_len (remove_parts v))
     vireo_node_remove_response_encode vireo_node_remove_response_decode VIREO_NODE_REMOVE_ISSUE_NONE"
proof
  have "remove_request_shape = (\<lambda>v. length (remove_rq_idempotency_key v) = 16)"
    "remove_request_valid = (\<lambda>v. remove_rq_sequence v \<noteq> 0 \<and> remove_rq_node_id v \<noteq> 0 \<and> \<not> key_zero (remove_rq_idempotency_key v))"
    by (auto simp: remove_request_shape_def remove_request_valid_def)
  then show "codec_contract (\<lambda>v. length (remove_rq_idempotency_key v) = 16)
      (\<lambda>v. remove_rq_sequence v \<noteq> 0 \<and> remove_rq_node_id v \<noteq> 0 \<and> \<not> key_zero (remove_rq_idempotency_key v)) id (\<lambda>_. 64)
      vireo_node_remove_request_encode vireo_node_remove_request_decode VIREO_NODE_REMOVE_ISSUE_NONE"
    using codec_contract_len [OF remove_request.contract remove_request_len] by simp
  have "codec_contract (\<lambda>v. ik_shape (remove_parts v)) (\<lambda>v. ik_valid node_remove_status_allowed (remove_parts v))
     (\<lambda>v. remove_mk (id (remove_parts v))) (\<lambda>v. ik_len (remove_parts v))
     vireo_node_remove_response_encode vireo_node_remove_response_decode VIREO_NODE_REMOVE_ISSUE_NONE"
    by (rule codec_contract_len [OF remove_response_contract ik_frame_len])
  then show "codec_contract (\<lambda>v. length (remove_rs_idempotency_key v) = 16)
      (\<lambda>v. ik_valid node_remove_status_allowed (remove_parts v)) id (\<lambda>v. ik_len (remove_parts v))
      vireo_node_remove_response_encode vireo_node_remove_response_decode VIREO_NODE_REMOVE_ISSUE_NONE"
    by (simp add: ik_shape_def remove_iso(1) id_def) (simp add: remove_parts_def)
qed

end
