(* ===== verification/Protocol_Node_Mkdir.thy ===== *)
theory Protocol_Node_Mkdir
  imports Protocol_Id_Key
begin

text \<open>
  The NODE_MKDIR message of \<^verbatim>\<open>src/protocol/node_mkdir.c\<close>: a request with parent id, name and idempotency
  key, and a response with the id of the new directory and the key. The name is an array of 255 bytes
  with a length; what lies behind the length does not travel.
\<close>

record vireo_node_mkdir_request =
  mkdir_rq_sequence :: u32
  mkdir_rq_session_handle :: u32
  mkdir_rq_parent_id :: u64
  mkdir_rq_name :: bytes
  mkdir_rq_name_length :: size_t
  mkdir_rq_idempotency_key :: bytes

record vireo_node_mkdir_response =
  mkdir_rs_status :: u16
  mkdir_rs_sequence :: u32
  mkdir_rs_session_handle :: u32
  mkdir_rs_node_id :: u64
  mkdir_rs_idempotency_key :: bytes

datatype vireo_node_mkdir_issue =
    VIREO_NODE_MKDIR_ISSUE_NONE | VIREO_NODE_MKDIR_ISSUE_HEADER | VIREO_NODE_MKDIR_ISSUE_ENVELOPE
  | VIREO_NODE_MKDIR_ISSUE_CRC | VIREO_NODE_MKDIR_ISSUE_FIELDS | VIREO_NODE_MKDIR_ISSUE_VALUE

abbreviation (input) VIREO_NODE_MKDIR_TLV_PARENT_ID :: u16 where "VIREO_NODE_MKDIR_TLV_PARENT_ID \<equiv> 0x0402"
abbreviation (input) VIREO_NODE_MKDIR_TLV_NAME :: u16 where "VIREO_NODE_MKDIR_TLV_NAME \<equiv> 0x0403"
abbreviation (input) VIREO_NODE_MKDIR_TLV_NODE_ID :: u16 where "VIREO_NODE_MKDIR_TLV_NODE_ID \<equiv> 0x0401"
abbreviation (input) VIREO_NODE_MKDIR_TLV_IDEMPOTENCY_KEY :: u16 where "VIREO_NODE_MKDIR_TLV_IDEMPOTENCY_KEY \<equiv> 0x0420"
abbreviation (input) VIREO_NODE_MKDIR_NAME_CAPACITY :: size_t where "VIREO_NODE_MKDIR_NAME_CAPACITY \<equiv> 255"
abbreviation (input) VIREO_NODE_MKDIR_REQUEST_FRAME_MIN :: size_t where "VIREO_NODE_MKDIR_REQUEST_FRAME_MIN \<equiv> 69"
abbreviation (input) VIREO_NODE_MKDIR_REQUEST_FRAME_MAX :: size_t where "VIREO_NODE_MKDIR_REQUEST_FRAME_MAX \<equiv> 323"
abbreviation (input) VIREO_NODE_MKDIR_RESPONSE_BODY_SIZE :: size_t where "VIREO_NODE_MKDIR_RESPONSE_BODY_SIZE \<equiv> 32"
abbreviation (input) VIREO_NODE_MKDIR_RESPONSE_FRAME_MAX :: size_t where "VIREO_NODE_MKDIR_RESPONSE_FRAME_MAX \<equiv> 64"

definition node_mkdir_request_rules :: "vireo_tlv_rule list" where
  "node_mkdir_request_rules =
     [\<lparr>rule_type = VIREO_NODE_MKDIR_TLV_PARENT_ID, rule_min_length = 8, rule_max_length = 8,
       rule_value_kind = VIREO_TLV_VALUE_U64, rule_required = True, rule_repeatable = False\<rparr>,
      \<lparr>rule_type = VIREO_NODE_MKDIR_TLV_NAME, rule_min_length = 1, rule_max_length = 255,
       rule_value_kind = VIREO_TLV_VALUE_NAME, rule_required = True, rule_repeatable = False\<rparr>,
      \<lparr>rule_type = VIREO_NODE_MKDIR_TLV_IDEMPOTENCY_KEY, rule_min_length = 16, rule_max_length = 16,
       rule_value_kind = VIREO_TLV_VALUE_BYTES, rule_required = True, rule_repeatable = False\<rparr>]"

definition node_mkdir_response_rules :: "vireo_tlv_rule list" where
  "node_mkdir_response_rules =
     [\<lparr>rule_type = VIREO_NODE_MKDIR_TLV_NODE_ID, rule_min_length = 8, rule_max_length = 8,
       rule_value_kind = VIREO_TLV_VALUE_U64, rule_required = True, rule_repeatable = False\<rparr>,
      \<lparr>rule_type = VIREO_NODE_MKDIR_TLV_IDEMPOTENCY_KEY, rule_min_length = 16, rule_max_length = 16,
       rule_value_kind = VIREO_TLV_VALUE_BYTES, rule_required = True, rule_repeatable = False\<rparr>]"

definition node_mkdir_status_allowed :: "u16 \<Rightarrow> bool" where
  "node_mkdir_status_allowed status \<longleftrightarrow>
     status \<in> {VIREO_STATUS_OK, VIREO_STATUS_BAD_REQUEST, VIREO_STATUS_UNSUPPORTED, VIREO_STATUS_CRC_MISMATCH,
       VIREO_STATUS_BODY_TOO_LARGE, VIREO_STATUS_INVALID_FLAGS, VIREO_STATUS_DUPLICATE_REQUEST,
       VIREO_STATUS_RATE_LIMITED, VIREO_STATUS_UNAUTHORIZED, VIREO_STATUS_NOT_FOUND, VIREO_STATUS_ALREADY_EXISTS,
       VIREO_STATUS_INVALID_PATH, VIREO_STATUS_CONFLICT, VIREO_STATUS_BUSY, VIREO_STATUS_INTERNAL_ERROR,
       VIREO_STATUS_DB_ERROR, VIREO_STATUS_TIMEOUT, VIREO_STATUS_OVERLOADED, VIREO_STATUS_UNAVAILABLE}"

definition node_mkdir_schema :: "bytes \<Rightarrow> size_t \<Rightarrow> bool \<Rightarrow> vireo_node_mkdir_issue \<Rightarrow>
    vireo_result \<times> vireo_node_mkdir_issue" where
  "node_mkdir_schema body sz response issue =
     (let (rc, seen, ti) = vireo_tlv_schema_validate (Some body) sz
            (Some (if response then node_mkdir_response_rules else node_mkdir_request_rules))
            (if response then 2 else 3) VIREO_TLV_UNKNOWN_REJECT (Some (replicate 3 0)) 3 (Some VIREO_TLV_ISSUE_NONE)
      in (rc, if rc \<noteq> VIREO_OK
              then if ti = Some VIREO_TLV_ISSUE_INVALID_UTF8 \<or> ti = Some VIREO_TLV_ISSUE_INVALID_NAME
                   then VIREO_NODE_MKDIR_ISSUE_VALUE else VIREO_NODE_MKDIR_ISSUE_FIELDS
              else issue))"

definition vireo_node_mkdir_request_encode ::
  "vireo_node_mkdir_request option \<Rightarrow> bytes option \<Rightarrow> size_t \<Rightarrow> size_t option \<Rightarrow>
   vireo_result \<times> bytes option \<times> size_t option" where
  "vireo_node_mkdir_request_encode value wire capacity out_size =
     (if value = None \<or> wire = None \<or> out_size = None \<or> mkdir_rq_sequence (the value) = 0 \<or>
         mkdir_rq_parent_id (the value) = 0 \<or> mkdir_rq_name_length (the value) = 0 \<or>
         mkdir_rq_name_length (the value) > VIREO_NODE_MKDIR_NAME_CAPACITY \<or>
         key_zero (mkdir_rq_idempotency_key (the value))
      then (VIREO_RESULT_INVALID_ARGUMENT, wire, out_size)
      else
        let value = the value;
            body = 36 + mkdir_rq_name_length value;
            frame = replicate 323 0;
            (rc, w) = put_seq
              [\<lambda>w. vireo_tlv_writer_put_u64 w VIREO_NODE_MKDIR_TLV_PARENT_ID (mkdir_rq_parent_id value),
               \<lambda>w. vireo_tlv_writer_put w VIREO_NODE_MKDIR_TLV_NAME (Some (mkdir_rq_name value))
                     (mkdir_rq_name_length value),
               \<lambda>w. vireo_tlv_writer_put w VIREO_NODE_MKDIR_TLV_IDEMPOTENCY_KEY
                     (Some (mkdir_rq_idempotency_key value)) 16]
              (body_writer frame body);
            frame = body_frame frame w;
            rc = (if rc = VIREO_OK
                  then let (rc, issue) = node_mkdir_schema (drop 32 frame) body False VIREO_NODE_MKDIR_ISSUE_NONE
                       in if rc = VIREO_RESULT_PROTOCOL then VIREO_RESULT_INVALID_ARGUMENT else rc
                  else rc) in
        if rc \<noteq> VIREO_OK then (rc, wire, out_size)
        else if capacity < 32 + body then (VIREO_RESULT_RANGE, wire, out_size)
        else
          let header = message_header False VIREO_COMMAND_NODE_MKDIR 0 (ucast body)
                         (mkdir_rq_sequence value) (mkdir_rq_session_handle value);
              (rc, w, n) = publish header frame (32 + body) (the wire) (the out_size)
          in (rc, Some w, Some n))"

definition node_mkdir_envelope :: "bytes \<Rightarrow> size_t \<Rightarrow> bool \<Rightarrow> vireo_node_mkdir_issue + vireo_protocol_header" where
  "node_mkdir_envelope wire sz response =
     (if sz < 32 then Inl VIREO_NODE_MKDIR_ISSUE_HEADER
      else if (if response then sz \<noteq> 32 \<and> sz \<noteq> VIREO_NODE_MKDIR_RESPONSE_FRAME_MAX
               else sz < VIREO_NODE_MKDIR_REQUEST_FRAME_MIN \<or> sz > VIREO_NODE_MKDIR_REQUEST_FRAME_MAX)
      then Inl VIREO_NODE_MKDIR_ISSUE_ENVELOPE
      else case checked_header wire sz response of
        None \<Rightarrow> Inl VIREO_NODE_MKDIR_ISSUE_HEADER
      | Some header \<Rightarrow>
          if h_command header \<noteq> VIREO_COMMAND_NODE_MKDIR \<or> h_task_handle header \<noteq> 0 \<or>
             h_flags header \<noteq> (if response then VIREO_PROTOCOL_FLAG_RESPONSE else 0) \<or>
             sz \<noteq> 32 + ucast (h_body_len header) \<or>
             (response \<and>
              (\<not> node_mkdir_status_allowed (h_status header) \<or>
               (if h_status header = VIREO_STATUS_OK
                then h_session_handle header = 0 \<or> ucast (h_body_len header) \<noteq> VIREO_NODE_MKDIR_RESPONSE_BODY_SIZE
                else h_session_handle header \<noteq> 0 \<or> h_body_len header \<noteq> 0)))
          then Inl VIREO_NODE_MKDIR_ISSUE_ENVELOPE
          else if \<not> crc_ok wire header then Inl VIREO_NODE_MKDIR_ISSUE_CRC
          else Inr header)"

definition node_mkdir_on_field ::
  "vireo_tlv_view \<Rightarrow> vireo_node_mkdir_request \<Rightarrow> vireo_result \<times> vireo_node_mkdir_request" where
  "node_mkdir_on_field field st =
     (if tv_type field = VIREO_NODE_MKDIR_TLV_PARENT_ID then
        let (rc, v) = vireo_tlv_view_read_u64 (Some field) (Some (mkdir_rq_parent_id st))
        in (rc, st\<lparr>mkdir_rq_parent_id := the v\<rparr>)
      else if tv_type field = VIREO_NODE_MKDIR_TLV_NAME then
        (VIREO_OK, st\<lparr>mkdir_rq_name_length := tv_length field,
           mkdir_rq_name := mem_write 0 (take (unat (tv_length field)) (the (tv_value field))) (mkdir_rq_name st)\<rparr>)
      else if tv_type field = VIREO_NODE_MKDIR_TLV_IDEMPOTENCY_KEY then
        (VIREO_OK, st\<lparr>mkdir_rq_idempotency_key :=
           mem_write 0 (take 16 (the (tv_value field))) (mkdir_rq_idempotency_key st)\<rparr>)
      else (VIREO_RESULT_PROTOCOL, st))"

definition node_mkdir_read_request ::
  "bytes \<Rightarrow> size_t \<Rightarrow> vireo_node_mkdir_request \<Rightarrow> vireo_result \<times> vireo_node_mkdir_request" where
  "node_mkdir_read_request body sz result = read_body node_mkdir_on_field body sz result"

definition vireo_node_mkdir_request_decode ::
  "bytes option \<Rightarrow> size_t \<Rightarrow> vireo_node_mkdir_request option \<Rightarrow> vireo_node_mkdir_issue option \<Rightarrow>
   vireo_result \<times> vireo_node_mkdir_request option \<times> vireo_node_mkdir_issue option" where
  "vireo_node_mkdir_request_decode wire wire_size out issue =
     (let issue = map_option (\<lambda>_. VIREO_NODE_MKDIR_ISSUE_NONE) issue in
      if wire = None \<or> out = None \<or> issue = None then (VIREO_RESULT_INVALID_ARGUMENT, out, issue)
      else case node_mkdir_envelope (the wire) wire_size False of
        Inl i \<Rightarrow> (VIREO_RESULT_PROTOCOL, out, Some i)
      | Inr header \<Rightarrow>
          let body = drop 32 (the wire); body_len = ucast (h_body_len header);
              (rc, i) = node_mkdir_schema body body_len False (the issue) in
          if rc \<noteq> VIREO_OK then (VIREO_RESULT_PROTOCOL, out, Some i)
          else
            let (rc, result) = node_mkdir_read_request body body_len
                  \<lparr>mkdir_rq_sequence = h_sequence header, mkdir_rq_session_handle = h_session_handle header,
                   mkdir_rq_parent_id = 0, mkdir_rq_name = replicate 255 0, mkdir_rq_name_length = 0,
                   mkdir_rq_idempotency_key = replicate 16 0\<rparr> in
            if rc \<noteq> VIREO_OK then (VIREO_RESULT_PROTOCOL, out, Some VIREO_NODE_MKDIR_ISSUE_FIELDS)
            else if mkdir_rq_parent_id result = 0 \<or> key_zero (mkdir_rq_idempotency_key result)
            then (VIREO_RESULT_PROTOCOL, out, Some VIREO_NODE_MKDIR_ISSUE_VALUE)
            else (VIREO_OK, Some result, Some i))"

definition vireo_node_mkdir_response_encode ::
  "vireo_node_mkdir_response option \<Rightarrow> bytes option \<Rightarrow> size_t \<Rightarrow> size_t option \<Rightarrow>
   vireo_result \<times> bytes option \<times> size_t option" where
  "vireo_node_mkdir_response_encode value wire capacity out_size =
     (if value = None \<or> wire = None \<or> out_size = None \<or> mkdir_rs_sequence (the value) = 0 \<or>
         \<not> node_mkdir_status_allowed (mkdir_rs_status (the value)) \<or>
         (if mkdir_rs_status (the value) = VIREO_STATUS_OK
          then mkdir_rs_session_handle (the value) = 0 \<or> mkdir_rs_node_id (the value) = 0 \<or>
               key_zero (mkdir_rs_idempotency_key (the value))
          else mkdir_rs_session_handle (the value) \<noteq> 0 \<or> mkdir_rs_node_id (the value) \<noteq> 0 \<or>
               \<not> key_zero (mkdir_rs_idempotency_key (the value)))
      then (VIREO_RESULT_INVALID_ARGUMENT, wire, out_size)
      else
        let value = the value;
            body = (if mkdir_rs_status value = VIREO_STATUS_OK then VIREO_NODE_MKDIR_RESPONSE_BODY_SIZE else 0) in
        if capacity < 32 + body then (VIREO_RESULT_RANGE, wire, out_size)
        else
          let frame = replicate 64 0;
              (rc, frame) =
                (if body \<noteq> 0
                 then let (rc, w) = put_seq
                            [\<lambda>w. vireo_tlv_writer_put_u64 w VIREO_NODE_MKDIR_TLV_NODE_ID (mkdir_rs_node_id value),
                             \<lambda>w. vireo_tlv_writer_put w VIREO_NODE_MKDIR_TLV_IDEMPOTENCY_KEY
                                   (Some (mkdir_rs_idempotency_key value)) 16]
                            (body_writer frame body)
                      in (rc, body_frame frame w)
                 else (VIREO_OK, frame));
              header = message_header True VIREO_COMMAND_NODE_MKDIR (mkdir_rs_status value) (ucast body)
                         (mkdir_rs_sequence value) (mkdir_rs_session_handle value) in
          if rc \<noteq> VIREO_OK then (rc, wire, out_size)
          else let (rc, w, n) = publish header frame (32 + body) (the wire) (the out_size) in (rc, Some w, Some n))"

text \<open>The loop of the response decoder copies the key for every field that is not the node id.\<close>

definition node_mkdir_response_on_field :: "vireo_tlv_view \<Rightarrow> u64 \<times> bytes \<Rightarrow> vireo_result \<times> u64 \<times> bytes" where
  "node_mkdir_response_on_field field st =
     (let (node_id, key) = st in
      if tv_type field = VIREO_NODE_MKDIR_TLV_NODE_ID then
        let (rc, v) = vireo_tlv_view_read_u64 (Some field) (Some node_id) in (rc, the v, key)
      else (VIREO_OK, node_id, mem_write 0 (take 16 (the (tv_value field))) key))"

definition vireo_node_mkdir_response_decode ::
  "bytes option \<Rightarrow> size_t \<Rightarrow> vireo_node_mkdir_response option \<Rightarrow> vireo_node_mkdir_issue option \<Rightarrow>
   vireo_result \<times> vireo_node_mkdir_response option \<times> vireo_node_mkdir_issue option" where
  "vireo_node_mkdir_response_decode wire wire_size out issue =
     (let issue = map_option (\<lambda>_. VIREO_NODE_MKDIR_ISSUE_NONE) issue in
      if wire = None \<or> out = None \<or> issue = None then (VIREO_RESULT_INVALID_ARGUMENT, out, issue)
      else case node_mkdir_envelope (the wire) wire_size True of
        Inl i \<Rightarrow> (VIREO_RESULT_PROTOCOL, out, Some i)
      | Inr header \<Rightarrow>
          let result = \<lparr>mkdir_rs_status = h_status header, mkdir_rs_sequence = h_sequence header,
                        mkdir_rs_session_handle = h_session_handle header, mkdir_rs_node_id = 0,
                        mkdir_rs_idempotency_key = replicate 16 0\<rparr> in
          if h_status header \<noteq> VIREO_STATUS_OK then (VIREO_OK, Some result, issue)
          else
            let body = drop 32 (the wire); body_len = ucast (h_body_len header);
                (rc, i) = node_mkdir_schema body body_len True (the issue) in
            if rc \<noteq> VIREO_OK then (VIREO_RESULT_PROTOCOL, out, Some i)
            else
              let (rc, node_id, key) = read_body node_mkdir_response_on_field body body_len (0, replicate 16 0) in
              if rc \<noteq> VIREO_OK then (VIREO_RESULT_PROTOCOL, out, Some VIREO_NODE_MKDIR_ISSUE_FIELDS)
              else if node_id = 0 \<or> key_zero key then (VIREO_RESULT_PROTOCOL, out, Some VIREO_NODE_MKDIR_ISSUE_VALUE)
              else (VIREO_OK, Some (result\<lparr>mkdir_rs_node_id := node_id, mkdir_rs_idempotency_key := key\<rparr>), Some i))"

subsection \<open>The contract of the response\<close>

definition mkdir_parts :: "vireo_node_mkdir_response \<Rightarrow> id_key_response" where
  "mkdir_parts v = \<lparr>ik_status = mkdir_rs_status v, ik_sequence = mkdir_rs_sequence v,
     ik_session_handle = mkdir_rs_session_handle v, ik_node_id = mkdir_rs_node_id v,
     ik_key = mkdir_rs_idempotency_key v\<rparr>"

definition mkdir_mk :: "id_key_response \<Rightarrow> vireo_node_mkdir_response" where
  "mkdir_mk p = \<lparr>mkdir_rs_status = ik_status p, mkdir_rs_sequence = ik_sequence p,
     mkdir_rs_session_handle = ik_session_handle p, mkdir_rs_node_id = ik_node_id p,
     mkdir_rs_idempotency_key = ik_key p\<rparr>"

lemma mkdir_iso: "mkdir_mk (mkdir_parts v) = v" "mkdir_parts (mkdir_mk p) = p"
  by (simp_all add: mkdir_mk_def mkdir_parts_def)

lemma mkdir_status_known: "node_mkdir_status_allowed s \<Longrightarrow> vireo_status_is_known s"
  by (auto simp: node_mkdir_status_allowed_def vireo_status_is_known_def)

lemma mkdir_command_known: "vireo_command_is_known VIREO_COMMAND_NODE_MKDIR"
  by (simp add: vireo_command_is_known_def)

lemma mkdir_schema_issue:
  "node_mkdir_schema body sz response i = (rc, j) \<Longrightarrow> if rc = VIREO_OK then j = i else j \<noteq> VIREO_NODE_MKDIR_ISSUE_NONE"
  by (auto simp: node_mkdir_schema_def split: prod.splits if_splits)

lemma mkdir_schema_response:
  assumes "unat sz \<le> length body"
  shows "fst (node_mkdir_schema body sz True i) = VIREO_OK \<longleftrightarrow>
    (\<exists>fs. take (unat sz) body = tlv_encode fs \<and> list_all field_fits fs \<and>
       schema_accepts id_key_rules VIREO_TLV_UNKNOWN_REJECT fs)"
proof -
  have "node_mkdir_response_rules = id_key_rules" by (simp add: node_mkdir_response_rules_def id_key_rules_def)
  then show ?thesis using id_key_schema [OF assms, of "replicate 3 0" 3 VIREO_TLV_ISSUE_NONE]
    by (auto simp: node_mkdir_schema_def split: prod.splits)
qed

lemma mkdir_response_on_field:
  assumes "fst f = 0x0401 \<and> length (snd f) = 8 \<or> fst f = 0x0420 \<and> length (snd f) = 16" and "view_of v f"
  shows "node_mkdir_response_on_field v s = id_key_step f s"
  using assms view_reads(3) [OF assms(2), of "fst s"] view_copy [OF assms(2), of 16]
  by (cases s) (auto simp: node_mkdir_response_on_field_def view_of_def)

lemma mkdir_envelope_Inl: "node_mkdir_envelope wire n r = Inl j \<Longrightarrow> j \<noteq> VIREO_NODE_MKDIR_ISSUE_NONE"
  by (auto simp: node_mkdir_envelope_def split: if_splits option.splits)

interpretation mkdir_response: id_key_codec VIREO_COMMAND_NODE_MKDIR node_mkdir_status_allowed
  "\<lambda>wire n. node_mkdir_envelope wire n True" "\<lambda>body n. node_mkdir_schema body n True" node_mkdir_response_on_field
  VIREO_NODE_MKDIR_ISSUE_NONE VIREO_NODE_MKDIR_ISSUE_FIELDS VIREO_NODE_MKDIR_ISSUE_VALUE
proof
  show "node_mkdir_envelope wire n True = Inr h \<longleftrightarrow>
      (n = 32 \<or> n = 64) \<and> checked_header wire n True = Some h \<and> h_command h = VIREO_COMMAND_NODE_MKDIR \<and>
      h_task_handle h = 0 \<and> h_flags h = VIREO_PROTOCOL_FLAG_RESPONSE \<and> n = 32 + ucast (h_body_len h) \<and>
      node_mkdir_status_allowed (h_status h) \<and>
      (if h_status h = VIREO_STATUS_OK then h_session_handle h \<noteq> 0 \<and> h_body_len h = 32
       else h_session_handle h = 0 \<and> h_body_len h = 0) \<and> crc_ok wire h" for wire n h
    by (auto simp: node_mkdir_envelope_def ucast_u32_eq split: option.splits)
  show "if rc = VIREO_OK then j = VIREO_NODE_MKDIR_ISSUE_NONE else j \<noteq> VIREO_NODE_MKDIR_ISSUE_NONE"
    if "node_mkdir_schema body n True VIREO_NODE_MKDIR_ISSUE_NONE = (rc, j)" for body n rc j
    using mkdir_schema_issue [OF that] by simp
qed (auto simp: mkdir_schema_response intro: mkdir_command_known mkdir_status_known mkdir_response_on_field
      dest: mkdir_envelope_Inl)

lemma mkdir_response_contract:
  "codec_contract (\<lambda>v. ik_shape (mkdir_parts v)) (\<lambda>v. ik_valid node_mkdir_status_allowed (mkdir_parts v))
     (\<lambda>v. mkdir_mk (id (mkdir_parts v))) (\<lambda>v. length (ik_frame VIREO_COMMAND_NODE_MKDIR (mkdir_parts v)))
     vireo_node_mkdir_response_encode vireo_node_mkdir_response_decode VIREO_NODE_MKDIR_ISSUE_NONE"
proof (rule codec_contract_iso [OF mkdir_response.contract mkdir_iso])
  show "vireo_node_mkdir_response_encode (Some v) (Some wire) cap (Some old) =
      ik_encode VIREO_COMMAND_NODE_MKDIR node_mkdir_status_allowed (Some (mkdir_parts v)) (Some wire) cap (Some old)"
    for v wire cap old
    by (cases "mkdir_rs_status v = 0")
      (simp_all add: vireo_node_mkdir_response_encode_def ik_encode_def mkdir_parts_def Let_def cong: if_cong)
  show "vireo_node_mkdir_response_decode (Some wire) n (Some out) (Some i) =
      (case ik_decode (\<lambda>wire n. node_mkdir_envelope wire n True) (\<lambda>body n. node_mkdir_schema body n True)
          node_mkdir_response_on_field VIREO_NODE_MKDIR_ISSUE_NONE VIREO_NODE_MKDIR_ISSUE_FIELDS
          VIREO_NODE_MKDIR_ISSUE_VALUE (Some wire) n (Some (mkdir_parts out)) (Some i) of
        (rc, p, j) \<Rightarrow> (rc, map_option mkdir_mk p, j))" for wire n out i
    by (simp add: vireo_node_mkdir_response_decode_def ik_decode_def mkdir_iso Let_def split: sum.split prod.split)
      (simp add: mkdir_mk_def)
qed

subsection \<open>The contract of the request\<close>

definition mkdir_request_shape :: "vireo_node_mkdir_request \<Rightarrow> bool" where
  "mkdir_request_shape v \<longleftrightarrow> length (mkdir_rq_name v) = 255 \<and> length (mkdir_rq_idempotency_key v) = 16"

definition mkdir_name :: "vireo_node_mkdir_request \<Rightarrow> bytes" where
  "mkdir_name v = take (unat (mkdir_rq_name_length v)) (mkdir_rq_name v)"

definition mkdir_request_valid :: "vireo_node_mkdir_request \<Rightarrow> bool" where
  "mkdir_request_valid v \<longleftrightarrow> mkdir_rq_sequence v \<noteq> 0 \<and> mkdir_rq_parent_id v \<noteq> 0 \<and>
     \<not> key_zero (mkdir_rq_idempotency_key v) \<and> mkdir_rq_name_length v \<le> 255 \<and> name_ok (mkdir_name v)"

definition mkdir_request_canon :: "vireo_node_mkdir_request \<Rightarrow> vireo_node_mkdir_request" where
  "mkdir_request_canon v = v\<lparr>mkdir_rq_name := mkdir_name v @ replicate (255 - length (mkdir_name v)) 0\<rparr>"

definition mkdir_fields :: "vireo_node_mkdir_request \<Rightarrow> field list" where
  "mkdir_fields v = [(0x0402, be64 (mkdir_rq_parent_id v)), (0x0403, mkdir_name v), (0x0420, mkdir_rq_idempotency_key v)]"

definition mkdir_request_frame :: "vireo_node_mkdir_request \<Rightarrow> bytes" where
  "mkdir_request_frame v = sealed (message_header False VIREO_COMMAND_NODE_MKDIR 0
     (word_of_nat (36 + length (mkdir_name v))) (mkdir_rq_sequence v) (mkdir_rq_session_handle v))
     (tlv_encode (mkdir_fields v))"

lemma mkdir_rules_valid: "vireo_tlv_rules_are_valid (Some node_mkdir_request_rules) 3"
  by (simp add: vireo_tlv_rules_are_valid_def node_mkdir_request_rules_def upt_rec)

lemma mkdir_fields_accepted:
  assumes "mkdir_request_shape v"
  shows "schema_accepts node_mkdir_request_rules VIREO_TLV_UNKNOWN_REJECT (mkdir_fields v) \<longleftrightarrow> name_ok (mkdir_name v)"
  using assms
  by (auto simp: schema_accepts_def node_mkdir_request_rules_def mkdir_fields_def value_spec_def name_ok_def
      mkdir_request_shape_def)

lemma mkdir_fields_size:
  assumes "mkdir_request_shape v" and "mkdir_rq_name_length v \<le> 255"
  shows "length (mkdir_name v) = unat (mkdir_rq_name_length v)" and "length (mkdir_name v) \<le> 255"
    and "length (tlv_encode (mkdir_fields v)) = 36 + length (mkdir_name v)"
    and "list_all field_fits (mkdir_fields v)"
    and "unat (36 + mkdir_rq_name_length v) = 36 + length (mkdir_name v)"
    and "unat (68 + mkdir_rq_name_length v) = 68 + length (mkdir_name v)"
proof -
  have le: "unat (mkdir_rq_name_length v) \<le> 255" using assms(2) by (simp add: word_le_nat_alt)
  then show len: "length (mkdir_name v) = unat (mkdir_rq_name_length v)" "length (mkdir_name v) \<le> 255"
    using assms(1) by (simp_all add: mkdir_name_def mkdir_request_shape_def)
  show "length (tlv_encode (mkdir_fields v)) = 36 + length (mkdir_name v)" "list_all field_fits (mkdir_fields v)"
    using assms(1) len(2) by (simp_all add: mkdir_fields_def mkdir_request_shape_def field_fits_def)
  show "unat (36 + mkdir_rq_name_length v) = 36 + length (mkdir_name v)"
    "unat (68 + mkdir_rq_name_length v) = 68 + length (mkdir_name v)"
    using le len(1) unat_add_less [of 36 "mkdir_rq_name_length v"] unat_add_less [of 68 "mkdir_rq_name_length v"] by simp_all
qed

lemma mkdir_schema_request:
  assumes "unat sz \<le> length body" and "take (unat sz) body = tlv_encode fs" and "list_all field_fits fs"
  shows "fst (node_mkdir_schema body sz False i) =
    (if schema_accepts node_mkdir_request_rules VIREO_TLV_UNKNOWN_REJECT fs then VIREO_OK else VIREO_RESULT_PROTOCOL)"
proof -
  have "unat (3 :: size_t) = length node_mkdir_request_rules" by (simp add: node_mkdir_request_rules_def)
  from schema_encoded [OF assms(1) this _ _ mkdir_rules_valid assms(2,3), of "replicate 3 0" 3 VIREO_TLV_ISSUE_NONE]
  show ?thesis by (auto simp: node_mkdir_schema_def split: prod.splits)
qed

lemma mkdir_schema_any:
  assumes "node_mkdir_schema body sz False i = (VIREO_OK, j)" and "unat sz \<le> length body"
  obtains fs where "take (unat sz) body = tlv_encode fs" and "list_all field_fits fs"
    and "schema_accepts node_mkdir_request_rules VIREO_TLV_UNKNOWN_REJECT fs"
proof -
  have "fst (vireo_tlv_schema_validate (Some body) sz (Some node_mkdir_request_rules) 3 VIREO_TLV_UNKNOWN_REJECT
      (Some (replicate 3 0)) 3 (Some VIREO_TLV_ISSUE_NONE)) = VIREO_OK"
    using assms(1) by (auto simp: node_mkdir_schema_def split: prod.splits)
  moreover have "unat (3 :: size_t) = length node_mkdir_request_rules" by (simp add: node_mkdir_request_rules_def)
  ultimately show thesis by (rule schema_any [OF _ assms(2) _ _ _ mkdir_rules_valid]) (use that in auto)
qed

lemma mkdir_request_encode_eq:
  assumes shape: "mkdir_request_shape v"
  shows "vireo_node_mkdir_request_encode (Some v) (Some wire) cap (Some old) =
    (if \<not> mkdir_request_valid v then (VIREO_RESULT_INVALID_ARGUMENT, Some wire, Some old)
     else if unat cap < length (mkdir_request_frame v) then (VIREO_RESULT_RANGE, Some wire, Some old)
     else (VIREO_OK, Some (mem_write 0 (mkdir_request_frame v) wire), Some (word_of_nat (length (mkdir_request_frame v)))))"
proof (cases "mkdir_rq_sequence v = 0 \<or> mkdir_rq_parent_id v = 0 \<or> mkdir_rq_name_length v = 0 \<or>
    mkdir_rq_name_length v > 255 \<or> key_zero (mkdir_rq_idempotency_key v)")
  case True
  then have "\<not> mkdir_request_valid v" by (auto simp: mkdir_request_valid_def name_ok_def mkdir_name_def)
  with True show ?thesis by (simp add: vireo_node_mkdir_request_encode_def)
next
  case False
  let ?fs = "mkdir_fields v" and ?body = "36 + mkdir_rq_name_length v"
  have nl: "mkdir_rq_name_length v \<le> 255" using False by (simp add: not_less)
  note sz = mkdir_fields_size [OF shape nl]
  have puts: "map field_put ?fs = [\<lambda>w. vireo_tlv_writer_put_u64 w 0x0402 (mkdir_rq_parent_id v),
      \<lambda>w. vireo_tlv_writer_put w 0x0403 (Some (mkdir_rq_name v)) (mkdir_rq_name_length v),
      \<lambda>w. vireo_tlv_writer_put w 0x0420 (Some (mkdir_rq_idempotency_key v)) 16]"
    using shape nl by (simp add: mkdir_fields_def field_puts mkdir_name_def mkdir_request_shape_def word_le_nat_alt)
  obtain w where w: "put_seq (map field_put ?fs) (body_writer (replicate 323 0) ?body) = (VIREO_OK, Some w)"
    "32 \<le> length (body_frame (replicate 323 0) (Some w))"
    "take (length (tlv_encode ?fs)) (drop 32 (body_frame (replicate 323 0) (Some w))) = tlv_encode ?fs"
    using body_written [OF sz(4), of ?body "replicate 323 0"] sz(2,3,5) by auto
  let ?F = "body_frame (replicate 323 0) (Some w)"
  have len: "unat ?body \<le> length (drop 32 ?F)" using arg_cong [OF w(3), of length] sz(3,5) by simp
  have "take (unat ?body) (drop 32 ?F) = tlv_encode ?fs" using w(3) sz(3,5) by simp
  from mkdir_schema_request [OF len this sz(4)]
  have sch: "fst (node_mkdir_schema (drop 32 ?F) ?body False VIREO_NODE_MKDIR_ISSUE_NONE) =
      (if name_ok (mkdir_name v) then VIREO_OK else VIREO_RESULT_PROTOCOL)"
    by (simp add: mkdir_fields_accepted [OF shape])
  have valid: "mkdir_request_valid v \<longleftrightarrow> name_ok (mkdir_name v)" using False nl by (simp add: mkdir_request_valid_def)
  have flen: "length (mkdir_request_frame v) = 68 + length (mkdir_name v)" by (simp add: mkdir_request_frame_def sz(3))
  have cap: "cap < 68 + mkdir_rq_name_length v \<longleftrightarrow> unat cap < length (mkdir_request_frame v)"
    using sz(6) flen by (simp add: word_less_nat_alt)
  have word: "word_of_nat (length (mkdir_request_frame v)) = 68 + mkdir_rq_name_length v"
    using sz(1) flen by simp
  have hlen: "(ucast ?body :: u32) = word_of_nat (36 + length (mkdir_name v))"
    by (simp only: ucast_nat sz(5))
  have pub: "publish (message_header False VIREO_COMMAND_NODE_MKDIR 0 (ucast ?body) (mkdir_rq_sequence v) (mkdir_rq_session_handle v))
      ?F (68 + mkdir_rq_name_length v) wire old = (VIREO_OK, mem_write 0 (mkdir_request_frame v) wire, 68 + mkdir_rq_name_length v)"
    unfolding mkdir_request_frame_def hlen
    using sz w by (intro message_publish) (simp_all add: unat_of_nat del: of_nat_add)
  show ?thesis
    using False w(1) [unfolded puts] sch valid cap word pub
    by (cases "node_mkdir_schema (drop 32 ?F) ?body False VIREO_NODE_MKDIR_ISSUE_NONE")
      (auto simp: vireo_node_mkdir_request_encode_def)
qed

text \<open>The field loop on abstract fields.\<close>

definition mkdir_step :: "field \<Rightarrow> vireo_node_mkdir_request \<Rightarrow> vireo_result \<times> vireo_node_mkdir_request" where
  "mkdir_step f st =
     (if fst f = 0x0402 then (VIREO_OK, st\<lparr>mkdir_rq_parent_id := rd64 (snd f)\<rparr>)
      else if fst f = 0x0403 then
        (VIREO_OK, st\<lparr>mkdir_rq_name_length := word_of_nat (length (snd f)),
           mkdir_rq_name := mem_write 0 (snd f) (mkdir_rq_name st)\<rparr>)
      else (VIREO_OK, st\<lparr>mkdir_rq_idempotency_key := mem_write 0 (snd f) (mkdir_rq_idempotency_key st)\<rparr>))"

lemma mkdir_step_OK: "fst (mkdir_step f st) = VIREO_OK"
  by (simp add: mkdir_step_def)

lemma mkdir_accepted_field:
  assumes "schema_accepts node_mkdir_request_rules VIREO_TLV_UNKNOWN_REJECT fs" and "f \<in> set fs"
  shows "fst f = 0x0402 \<and> length (snd f) = 8 \<or> fst f = 0x0403 \<and> name_ok (snd f) \<or> fst f = 0x0420 \<and> length (snd f) = 16"
  using assms by (rule accepted_field)
    (auto simp: node_mkdir_request_rules_def value_spec_def name_ok_def)

lemma mkdir_read_fields:
  assumes "take (unat sz) body = tlv_encode fs" and "unat sz \<le> length body" and "list_all field_fits fs"
    and acc: "schema_accepts node_mkdir_request_rules VIREO_TLV_UNKNOWN_REJECT fs"
  shows "node_mkdir_read_request body sz st = fields_run mkdir_step fs st"
  unfolding node_mkdir_read_request_def
proof (rule read_body_fields [OF assms(1-3)])
  fix v f s
  assume f: "f \<in> set fs" and v: "view_of v f"
  have "word_of_nat (unat (tv_length v)) = tv_length v" by simp
  then have len: "tv_length v = word_of_nat (length (snd f))" using v unfolding view_of_def by metis
  show "node_mkdir_on_field v s = mkdir_step f s"
    using mkdir_accepted_field [OF acc f] v view_reads(3) [OF v, of "mkdir_rq_parent_id s"] view_copy [OF v, of 16]
      view_of_take [OF v] len
    by (auto simp: node_mkdir_on_field_def mkdir_step_def view_of_def)
qed

lemma mkdir_run_fields:
  assumes "mkdir_request_shape v" and "name_ok (mkdir_name v)" and "mkdir_rq_name_length v \<le> 255"
  shows "fields_run mkdir_step (mkdir_fields v)
    \<lparr>mkdir_rq_sequence = mkdir_rq_sequence v, mkdir_rq_session_handle = mkdir_rq_session_handle v,
     mkdir_rq_parent_id = 0, mkdir_rq_name = replicate 255 0, mkdir_rq_name_length = 0,
     mkdir_rq_idempotency_key = replicate 16 0\<rparr> = (VIREO_OK, mkdir_request_canon v)"
  using assms mkdir_fields_size(1,2) [OF assms(1,3)]
  by (simp add: mkdir_fields_def mkdir_step_def mkdir_request_canon_def mkdir_request_shape_def mem_write_def)

lemma mkdir_run_any:
  assumes acc: "schema_accepts node_mkdir_request_rules VIREO_TLV_UNKNOWN_REJECT fs"
    and st: "mkdir_rq_name st = replicate 255 0" "length (mkdir_rq_idempotency_key st) = 16"
  obtains r where "fields_run mkdir_step fs st = (VIREO_OK, r)" and "mkdir_request_shape r"
    and "mkdir_rq_sequence r = mkdir_rq_sequence st" and "mkdir_rq_session_handle r = mkdir_rq_session_handle st"
    and "name_ok (mkdir_name r)" and "mkdir_rq_name_length r \<le> 255" and "mkdir_request_canon r = r"
proof -
  note fields = mkdir_accepted_field [OF acc]
  obtain r where r: "fields_run mkdir_step fs st = (VIREO_OK, r)"
    using fields_run_total [of fs mkdir_step st] mkdir_step_OK by blast
  have dist: "distinct (map fst fs)" using acc by (rule accepted_distinct) (simp add: node_mkdir_request_rules_def)
  obtain b where b: "(0x0403, b) \<in> set fs"
    using acc by (rule accepted_required [of _ _ "node_mkdir_request_rules ! 1"]) (simp_all add: node_mkdir_request_rules_def)
  then have ok: "name_ok b" using fields [OF b] by simp
  then have lb: "length b \<le> 255" by (simp add: name_ok_def)
  have "(mkdir_rq_name r, mkdir_rq_name_length r) = (b @ replicate (255 - length b) 0, word_of_nat (length b))"
    by (rule fields_run_get [OF r dist b, of "\<lambda>s. (mkdir_rq_name s, mkdir_rq_name_length s)"])
      (use st(1) in \<open>auto simp: mkdir_step_def mem_write_def split: if_splits\<close>)
  then have name: "mkdir_rq_name r = b @ replicate (255 - length b) 0" "mkdir_rq_name_length r = word_of_nat (length b)"
    by simp_all
  have nl: "unat (mkdir_rq_name_length r) = length b" using lb name(2) by (simp add: unat_of_nat)
  then have mk: "mkdir_name r = b" by (simp add: mkdir_name_def name(1))
  have key: "length (mkdir_rq_idempotency_key r) = 16"
    using r st(2)
  proof (rule fields_run_inv [where S = "set fs"])
    fix f s s' assume "f \<in> set fs" "length (mkdir_rq_idempotency_key s) = 16" "mkdir_step f s = (VIREO_OK, s')"
    then show "length (mkdir_rq_idempotency_key s') = 16"
      using fields [of f] by (auto simp: mkdir_step_def split: if_splits)
  qed simp
  have "(mkdir_rq_sequence r, mkdir_rq_session_handle r) = (mkdir_rq_sequence st, mkdir_rq_session_handle st)"
    by (rule fields_run_keep [OF r, of UNIV "\<lambda>s. (mkdir_rq_sequence s, mkdir_rq_session_handle s)"])
      (auto simp: mkdir_step_def split: if_splits)
  then show thesis
    using that [OF r] name nl mk key ok lb
    by (simp add: mkdir_request_shape_def mkdir_request_canon_def word_le_nat_alt)
qed

lemma mkdir_envelope_request:
  assumes "node_mkdir_envelope wire n False = Inr h" and "unat n \<le> length wire"
  shows "h_sequence h \<noteq> 0" and "unat (ucast (h_body_len h) :: size_t) \<le> length (drop 32 wire)"
proof -
  have env: "checked_header wire n False = Some h" "n = 32 + ucast (h_body_len h)"
    using assms(1) by (auto simp: node_mkdir_envelope_def split: if_splits option.splits)
  note facts = checked_header_facts [OF env(1) assms(2)]
  show "h_sequence h \<noteq> 0" "unat (ucast (h_body_len h) :: size_t) \<le> length (drop 32 wire)"
    using facts(1) frame_body_size [OF assms(2) env(2) facts(2)] by blast+
qed

interpretation mkdir_request: frame_codec mkdir_request_shape mkdir_request_valid mkdir_request_canon mkdir_request_frame
  vireo_node_mkdir_request_encode vireo_node_mkdir_request_decode VIREO_NODE_MKDIR_ISSUE_NONE
proof
  fix v :: vireo_node_mkdir_request and n :: size_t and out i
  assume shape: "mkdir_request_shape v" and v: "mkdir_request_valid v" and n: "unat n = length (mkdir_request_frame v)"
  have nl: "mkdir_rq_name_length v \<le> 255" and ok: "name_ok (mkdir_name v)" using v by (simp_all add: mkdir_request_valid_def)
  note sz = mkdir_fields_size [OF shape nl]
  let ?len = "word_of_nat (36 + length (mkdir_name v)) :: u32"
  let ?h = "message_header False VIREO_COMMAND_NODE_MKDIR 0 ?len (mkdir_rq_sequence v) (mkdir_rq_session_handle v)"
  have len: "unat ?len = length (tlv_encode (mkdir_fields v))" using sz(2,3) by (simp add: unat_of_nat del: of_nat_add)
  have n': "unat n = 68 + length (mkdir_name v)" using n sz(3) by (simp add: mkdir_request_frame_def)
  have pos: "1 \<le> length (mkdir_name v)" using ok by (simp add: name_ok_def)
  have ulen: "unat (ucast ?len :: size_t) = length (tlv_encode (mkdir_fields v))" using len by (simp add: unat_ucast_le)
  then have n2: "n = 32 + ucast ?len"
    using n' sz(3) unat_add_less [of 32 "ucast ?len :: size_t"] sz(2) by (simp add: word_unat_eq_iff del: of_nat_add)
  have "\<exists>crc. checked_header (mkdir_request_frame v) n False = Some (?h\<lparr>h_crc32c := crc\<rparr>) \<and>
      crc_ok (mkdir_request_frame v) (?h\<lparr>h_crc32c := crc\<rparr>)"
    unfolding mkdir_request_frame_def using v n' len sz(2,3) mkdir_command_known
    by (intro message_sealed) (simp_all add: mkdir_request_valid_def)
  then obtain crc where "checked_header (mkdir_request_frame v) n False = Some (?h\<lparr>h_crc32c := crc\<rparr>)"
    "crc_ok (mkdir_request_frame v) (?h\<lparr>h_crc32c := crc\<rparr>)" by blast
  moreover have "\<not> n < 32" "\<not> n < 69" "\<not> n > 323" using n' pos sz(2) unfolding word_less_nat_alt by auto
  ultimately have env: "node_mkdir_envelope (mkdir_request_frame v) n False = Inr (?h\<lparr>h_crc32c := crc\<rparr>)"
    using n2 by (simp add: node_mkdir_envelope_def del: of_nat_add)
  have body: "drop 32 (mkdir_request_frame v) = tlv_encode (mkdir_fields v)" by (simp add: mkdir_request_frame_def)
  have acc: "schema_accepts node_mkdir_request_rules VIREO_TLV_UNKNOWN_REJECT (mkdir_fields v)"
    using ok mkdir_fields_accepted [OF shape] by simp
  obtain j where sch: "node_mkdir_schema (tlv_encode (mkdir_fields v)) (ucast ?len) False VIREO_NODE_MKDIR_ISSUE_NONE = (VIREO_OK, j)"
    using mkdir_schema_request [of "ucast ?len" "tlv_encode (mkdir_fields v)" "mkdir_fields v" VIREO_NODE_MKDIR_ISSUE_NONE] ulen sz(4) acc
    by (cases "node_mkdir_schema (tlv_encode (mkdir_fields v)) (ucast ?len) False VIREO_NODE_MKDIR_ISSUE_NONE") (simp del: of_nat_add)
  have "node_mkdir_read_request (tlv_encode (mkdir_fields v)) (ucast ?len)
      \<lparr>mkdir_rq_sequence = mkdir_rq_sequence v, mkdir_rq_session_handle = mkdir_rq_session_handle v,
       mkdir_rq_parent_id = 0, mkdir_rq_name = replicate 255 0, mkdir_rq_name_length = 0,
       mkdir_rq_idempotency_key = replicate 16 0\<rparr> = (VIREO_OK, mkdir_request_canon v)"
    using mkdir_read_fields [of "ucast ?len" "tlv_encode (mkdir_fields v)" "mkdir_fields v"] ulen sz(4) acc
      mkdir_run_fields [OF shape ok nl] by (simp del: of_nat_add)
  then show "vireo_node_mkdir_request_decode (Some (mkdir_request_frame v)) n (Some out) (Some i) =
      (VIREO_OK, Some (mkdir_request_canon v), Some VIREO_NODE_MKDIR_ISSUE_NONE)"
    using env body sch mkdir_schema_issue [OF sch] v
    by (simp add: vireo_node_mkdir_request_decode_def mkdir_request_valid_def mkdir_request_canon_def del: of_nat_add)
next
  fix n :: size_t and wire :: bytes and out i
  assume len: "unat n \<le> length wire"
  show "(\<exists>j. j \<noteq> VIREO_NODE_MKDIR_ISSUE_NONE \<and> vireo_node_mkdir_request_decode (Some wire) n (Some out) (Some i) =
        (VIREO_RESULT_PROTOCOL, Some out, Some j)) \<or>
      (\<exists>v. mkdir_request_shape v \<and> mkdir_request_valid v \<and> mkdir_request_canon v = v \<and>
        vireo_node_mkdir_request_decode (Some wire) n (Some out) (Some i) =
        (VIREO_OK, Some v, Some VIREO_NODE_MKDIR_ISSUE_NONE))"
  proof (cases "node_mkdir_envelope wire n False")
    case (Inl j)
    then show ?thesis using mkdir_envelope_Inl by (simp add: vireo_node_mkdir_request_decode_def)
  next
    case (Inr h)
    note h = mkdir_envelope_request [OF Inr len]
    obtain rc j where sch: "node_mkdir_schema (drop 32 wire) (ucast (h_body_len h)) False VIREO_NODE_MKDIR_ISSUE_NONE = (rc, j)"
      by (metis surj_pair)
    show ?thesis
    proof (cases "rc = VIREO_OK")
      case True
      obtain fs where fs: "take (unat (ucast (h_body_len h) :: size_t)) (drop 32 wire) = tlv_encode fs" "list_all field_fits fs"
        "schema_accepts node_mkdir_request_rules VIREO_TLV_UNKNOWN_REJECT fs"
        using sch True h(2) mkdir_schema_any by metis
      obtain r where r: "fields_run mkdir_step fs \<lparr>mkdir_rq_sequence = h_sequence h,
            mkdir_rq_session_handle = h_session_handle h, mkdir_rq_parent_id = 0, mkdir_rq_name = replicate 255 0,
            mkdir_rq_name_length = 0, mkdir_rq_idempotency_key = replicate 16 0\<rparr> = (VIREO_OK, r)"
        "mkdir_request_shape r" "mkdir_rq_sequence r = h_sequence h" "name_ok (mkdir_name r)"
        "mkdir_rq_name_length r \<le> 255" "mkdir_request_canon r = r"
        by (rule mkdir_run_any [OF fs(3), of "\<lparr>mkdir_rq_sequence = h_sequence h,
            mkdir_rq_session_handle = h_session_handle h, mkdir_rq_parent_id = 0, mkdir_rq_name = replicate 255 0,
            mkdir_rq_name_length = 0, mkdir_rq_idempotency_key = replicate 16 0\<rparr>"]) simp_all
      then show ?thesis
        using Inr True sch mkdir_schema_issue [OF sch] h(1) mkdir_read_fields [OF fs(1) h(2) fs(2,3)]
        by (simp add: vireo_node_mkdir_request_decode_def mkdir_request_valid_def)
    next
      case False
      then show ?thesis using Inr sch mkdir_schema_issue [OF sch] by (simp add: vireo_node_mkdir_request_decode_def)
    qed
  qed
qed (simp_all add: mkdir_request_encode_eq)

lemma mkdir_request_len:
  "mkdir_request_shape v \<Longrightarrow> mkdir_request_valid v \<Longrightarrow>
   length (mkdir_request_frame v) = 68 + unat (mkdir_rq_name_length v)"
  using mkdir_fields_size(1,3) [of v] by (simp add: mkdir_request_frame_def mkdir_request_valid_def)

text \<open>
  C31. NODE_MKDIR messages arrive as they were sent: request and response codec meet
  \<open>codec_contract\<close>. A request is sendable when sequence and parent are not zero, the key is not all
  zero and the name is well-formed UTF-8 of at most 255 bytes without slash and control characters
  that is neither \<open>.\<close> nor \<open>..\<close>; the name arrives zero-padded.
\<close>

theorem node_mkdir_codec:
  "codec_contract mkdir_request_shape mkdir_request_valid mkdir_request_canon
     (\<lambda>v. 68 + unat (mkdir_rq_name_length v))
     vireo_node_mkdir_request_encode vireo_node_mkdir_request_decode VIREO_NODE_MKDIR_ISSUE_NONE \<and>
   codec_contract (\<lambda>v. length (mkdir_rs_idempotency_key v) = 16)
     (\<lambda>v. ik_valid node_mkdir_status_allowed (mkdir_parts v)) id (\<lambda>v. ik_len (mkdir_parts v))
     vireo_node_mkdir_response_encode vireo_node_mkdir_response_decode VIREO_NODE_MKDIR_ISSUE_NONE"
proof
  show "codec_contract mkdir_request_shape mkdir_request_valid mkdir_request_canon
      (\<lambda>v. 68 + unat (mkdir_rq_name_length v))
      vireo_node_mkdir_request_encode vireo_node_mkdir_request_decode VIREO_NODE_MKDIR_ISSUE_NONE"
    by (rule codec_contract_len [OF mkdir_request.contract mkdir_request_len])
  have "codec_contract (\<lambda>v. ik_shape (mkdir_parts v)) (\<lambda>v. ik_valid node_mkdir_status_allowed (mkdir_parts v))
     (\<lambda>v. mkdir_mk (id (mkdir_parts v))) (\<lambda>v. ik_len (mkdir_parts v))
     vireo_node_mkdir_response_encode vireo_node_mkdir_response_decode VIREO_NODE_MKDIR_ISSUE_NONE"
    by (rule codec_contract_len [OF mkdir_response_contract ik_frame_len])
  then show "codec_contract (\<lambda>v. length (mkdir_rs_idempotency_key v) = 16)
      (\<lambda>v. ik_valid node_mkdir_status_allowed (mkdir_parts v)) id (\<lambda>v. ik_len (mkdir_parts v))
      vireo_node_mkdir_response_encode vireo_node_mkdir_response_decode VIREO_NODE_MKDIR_ISSUE_NONE"
    by (simp add: ik_shape_def mkdir_iso(1) id_def) (simp add: mkdir_parts_def)
qed

end
