(* ===== verification/Protocol_Auth_Request.thy ===== *)
theory Protocol_Auth_Request
  imports Protocol_Message
begin

text \<open>
  The decoder of \<^verbatim>\<open>src/protocol/auth_request.c\<close> for REGISTER, LOGIN, SESSION_RESUME and LOGOUT requests.
  The fields of its result point into the frame: such a pointer is the list of the bytes from there
  on, and \<open>None\<close> where the pointer is NULL.
\<close>

record vireo_auth_request_view =
  ar_command :: u16
  ar_sequence :: u32
  ar_username :: "bytes option"
  ar_username_size :: size_t
  ar_password :: "bytes option"
  ar_password_size :: size_t
  ar_device :: "bytes option"
  ar_session_handle :: u32
  ar_token :: "bytes option"

datatype vireo_auth_request_issue =
    VIREO_AUTH_REQUEST_ISSUE_NONE | VIREO_AUTH_REQUEST_ISSUE_HEADER | VIREO_AUTH_REQUEST_ISSUE_ENVELOPE
  | VIREO_AUTH_REQUEST_ISSUE_CRC | VIREO_AUTH_REQUEST_ISSUE_FIELDS | VIREO_AUTH_REQUEST_ISSUE_USERNAME
  | VIREO_AUTH_REQUEST_ISSUE_PASSWORD

abbreviation (input) VIREO_AUTH_TLV_USERNAME :: u16 where "VIREO_AUTH_TLV_USERNAME \<equiv> 1"
abbreviation (input) VIREO_AUTH_TLV_PASSWORD :: u16 where "VIREO_AUTH_TLV_PASSWORD \<equiv> 2"
abbreviation (input) VIREO_AUTH_TLV_DEVICE :: u16 where "VIREO_AUTH_TLV_DEVICE \<equiv> 3"
abbreviation (input) VIREO_AUTH_TLV_SESSION_TOKEN :: u16 where "VIREO_AUTH_TLV_SESSION_TOKEN \<equiv> 4"
abbreviation (input) VIREO_AUTH_RESUME_BODY_MAX :: size_t where "VIREO_AUTH_RESUME_BODY_MAX \<equiv> 36"
abbreviation (input) VIREO_AUTH_REGISTER_BODY_MAX :: size_t where "VIREO_AUTH_REGISTER_BODY_MAX \<equiv> 104"
abbreviation (input) VIREO_AUTH_LOGIN_BODY_MAX :: size_t where "VIREO_AUTH_LOGIN_BODY_MAX \<equiv> 124"

definition auth_request_rules :: "vireo_tlv_rule list" where
  "auth_request_rules =
     [\<lparr>rule_type = VIREO_AUTH_TLV_USERNAME, rule_min_length = 3, rule_max_length = 32,
       rule_value_kind = VIREO_TLV_VALUE_BYTES, rule_required = True, rule_repeatable = False\<rparr>,
      \<lparr>rule_type = VIREO_AUTH_TLV_PASSWORD, rule_min_length = 8, rule_max_length = 64,
       rule_value_kind = VIREO_TLV_VALUE_BYTES, rule_required = True, rule_repeatable = False\<rparr>,
      \<lparr>rule_type = VIREO_AUTH_TLV_DEVICE, rule_min_length = 16, rule_max_length = 16,
       rule_value_kind = VIREO_TLV_VALUE_BYTES, rule_required = True, rule_repeatable = False\<rparr>]"

definition auth_token_rule :: vireo_tlv_rule where
  "auth_token_rule =
     \<lparr>rule_type = VIREO_AUTH_TLV_SESSION_TOKEN, rule_min_length = 32, rule_max_length = 32,
      rule_value_kind = VIREO_TLV_VALUE_BYTES, rule_required = True, rule_repeatable = False\<rparr>"

text \<open>The body of the field loop: every field type but the first three is taken for the device.\<close>

definition auth_request_on_field ::
  "vireo_tlv_view \<Rightarrow> vireo_auth_request_view \<Rightarrow> vireo_result \<times> vireo_auth_request_view" where
  "auth_request_on_field field st =
     (VIREO_OK,
      if tv_type field = VIREO_AUTH_TLV_USERNAME
      then st\<lparr>ar_username := tv_value field, ar_username_size := tv_length field\<rparr>
      else if tv_type field = VIREO_AUTH_TLV_PASSWORD
      then st\<lparr>ar_password := tv_value field, ar_password_size := tv_length field\<rparr>
      else if tv_type field = VIREO_AUTH_TLV_SESSION_TOKEN then st\<lparr>ar_token := tv_value field\<rparr>
      else st\<lparr>ar_device := tv_value field\<rparr>)"

definition username_char :: "u8 \<Rightarrow> bool" where
  "username_char c \<longleftrightarrow> (c \<ge> 65 \<and> c \<le> 90) \<or> (c \<ge> 97 \<and> c \<le> 122) \<or> (c \<ge> 48 \<and> c \<le> 57) \<or> c = 95"

definition password_char :: "u8 \<Rightarrow> bool" where
  "password_char c \<longleftrightarrow> \<not> (c < 0x21 \<or> c > 0x7E)"

definition vireo_auth_request_decode ::
  "bytes option \<Rightarrow> size_t \<Rightarrow> vireo_auth_request_view option \<Rightarrow> vireo_auth_request_issue option \<Rightarrow>
   vireo_result \<times> vireo_auth_request_view option \<times> vireo_auth_request_issue option" where
  "vireo_auth_request_decode wire wire_size out_view out_issue =
     (let out_issue = map_option (\<lambda>_. VIREO_AUTH_REQUEST_ISSUE_NONE) out_issue in
      if wire = None \<or> out_view = None \<or> out_issue = None
      then (VIREO_RESULT_INVALID_ARGUMENT, out_view, out_issue)
      else case checked_header (the wire) wire_size False of
        None \<Rightarrow> (VIREO_RESULT_PROTOCOL, out_view, Some VIREO_AUTH_REQUEST_ISSUE_HEADER)
      | Some header \<Rightarrow>
          let login = h_command header = VIREO_COMMAND_LOGIN;
              resume = h_command header = VIREO_COMMAND_SESSION_RESUME;
              logout = h_command header = VIREO_COMMAND_LOGOUT;
              max_body = (if login then VIREO_AUTH_LOGIN_BODY_MAX else if resume then VIREO_AUTH_RESUME_BODY_MAX
                          else if logout then 0 else VIREO_AUTH_REGISTER_BODY_MAX) in
          if (\<not> login \<and> \<not> resume \<and> \<not> logout \<and> h_command header \<noteq> VIREO_COMMAND_REGISTER) \<or> h_flags header \<noteq> 0 \<or>
             (if logout then h_session_handle header = 0 else h_session_handle header \<noteq> 0) \<or>
             h_task_handle header \<noteq> 0 \<or> ucast (h_body_len header) > max_body \<or>
             wire_size \<noteq> 32 + ucast (h_body_len header)
          then (VIREO_RESULT_PROTOCOL, out_view, Some VIREO_AUTH_REQUEST_ISSUE_ENVELOPE)
          else if \<not> crc_ok (the wire) header then (VIREO_RESULT_PROTOCOL, out_view, Some VIREO_AUTH_REQUEST_ISSUE_CRC)
          else
            let body = drop 32 (the wire); body_len = ucast (h_body_len header) in
            if \<not> logout \<and>
               fst (vireo_tlv_schema_validate (Some body) body_len
                      (Some (if resume then [auth_token_rule] else auth_request_rules))
                      (if resume then 1 else if login then 3 else 2) VIREO_TLV_UNKNOWN_REJECT
                      (Some (replicate 3 0)) 3 (Some VIREO_TLV_ISSUE_NONE)) \<noteq> VIREO_OK
            then (VIREO_RESULT_PROTOCOL, out_view, Some VIREO_AUTH_REQUEST_ISSUE_FIELDS)
            else
              let (rc, result) = read_body auth_request_on_field body body_len
                    \<lparr>ar_command = h_command header, ar_sequence = h_sequence header, ar_username = None,
                     ar_username_size = 0, ar_password = None, ar_password_size = 0, ar_device = None,
                     ar_session_handle = h_session_handle header, ar_token = None\<rparr> in
              if rc \<noteq> VIREO_OK then (VIREO_RESULT_PROTOCOL, out_view, Some VIREO_AUTH_REQUEST_ISSUE_FIELDS)
              else if \<not> list_all username_char (take (unat (ar_username_size result)) (case ar_username result of None \<Rightarrow> [] | Some p \<Rightarrow> p))
              then (VIREO_RESULT_PROTOCOL, out_view, Some VIREO_AUTH_REQUEST_ISSUE_USERNAME)
              else if \<not> list_all password_char (take (unat (ar_password_size result)) (case ar_password result of None \<Rightarrow> [] | Some p \<Rightarrow> p))
              then (VIREO_RESULT_PROTOCOL, out_view, Some VIREO_AUTH_REQUEST_ISSUE_PASSWORD)
              else (VIREO_OK, Some result, out_issue))"

subsection \<open>What the decoder accepts\<close>

text \<open>The abstract content of a request, and the fields it consists of.\<close>

datatype auth_request =
    Register "bytes" "bytes"
  | Login "bytes" "bytes" "bytes"
  | Resume "bytes"
  | Logout

fun auth_command :: "auth_request \<Rightarrow> u16" where
  "auth_command (Register u p) = VIREO_COMMAND_REGISTER"
| "auth_command (Login u p d) = VIREO_COMMAND_LOGIN"
| "auth_command (Resume t) = VIREO_COMMAND_SESSION_RESUME"
| "auth_command Logout = VIREO_COMMAND_LOGOUT"

fun auth_fields :: "auth_request \<Rightarrow> field set" where
  "auth_fields (Register u p) = {(1, u), (2, p)}"
| "auth_fields (Login u p d) = {(1, u), (2, p), (3, d)}"
| "auth_fields (Resume t) = {(4, t)}"
| "auth_fields Logout = {}"

definition username_ok :: "bytes \<Rightarrow> bool" where
  "username_ok u \<longleftrightarrow> 3 \<le> length u \<and> length u \<le> 32 \<and> list_all username_char u"

definition password_ok :: "bytes \<Rightarrow> bool" where
  "password_ok p \<longleftrightarrow> 8 \<le> length p \<and> length p \<le> 64 \<and> list_all password_char p"

fun auth_ok :: "auth_request \<Rightarrow> bool" where
  "auth_ok (Register u p) \<longleftrightarrow> username_ok u \<and> password_ok p"
| "auth_ok (Login u p d) \<longleftrightarrow> username_ok u \<and> password_ok p \<and> length d = 16"
| "auth_ok (Resume t) \<longleftrightarrow> length t = 32"
| "auth_ok Logout \<longleftrightarrow> True"

definition points_to :: "bytes option \<Rightarrow> bytes \<Rightarrow> bool" where
  "points_to ptr b \<longleftrightarrow> (\<exists>p. ptr = Some p \<and> length b \<le> length p \<and> take (length b) p = b)"

definition auth_view :: "auth_request \<Rightarrow> u32 \<Rightarrow> u32 \<Rightarrow> vireo_auth_request_view \<Rightarrow> bool" where
  "auth_view r q s v \<longleftrightarrow> ar_command v = auth_command r \<and> ar_sequence v = q \<and> ar_session_handle v = s \<and>
     (case r of
        Register u p \<Rightarrow> points_to (ar_username v) u \<and> unat (ar_username_size v) = length u \<and>
          points_to (ar_password v) p \<and> unat (ar_password_size v) = length p \<and> ar_device v = None \<and> ar_token v = None
      | Login u p d \<Rightarrow> points_to (ar_username v) u \<and> unat (ar_username_size v) = length u \<and>
          points_to (ar_password v) p \<and> unat (ar_password_size v) = length p \<and> points_to (ar_device v) d \<and> ar_token v = None
      | Resume t \<Rightarrow> ar_username v = None \<and> ar_username_size v = 0 \<and> ar_password v = None \<and> ar_password_size v = 0 \<and>
          ar_device v = None \<and> points_to (ar_token v) t
      | Logout \<Rightarrow> ar_username v = None \<and> ar_username_size v = 0 \<and> ar_password v = None \<and> ar_password_size v = 0 \<and>
          ar_device v = None \<and> ar_token v = None)"

text \<open>A frame carries request \<open>r\<close> with sequence \<open>q\<close> and session \<open>s\<close>: its fields are those of \<open>r\<close>, in any order.\<close>

definition auth_frame :: "bytes \<Rightarrow> auth_request \<Rightarrow> u32 \<Rightarrow> u32 \<Rightarrow> bool" where
  "auth_frame w r q s \<longleftrightarrow> q \<noteq> 0 \<and> auth_ok r \<and> (s = 0 \<longleftrightarrow> r \<noteq> Logout) \<and>
     (\<exists>fs. distinct fs \<and> set fs = auth_fields r \<and>
        w = sealed (message_header False (auth_command r) 0 (word_of_nat (length (tlv_encode fs))) q s) (tlv_encode fs))"

fun auth_lengths :: "auth_request \<Rightarrow> bool" where
  "auth_lengths (Register u p) \<longleftrightarrow> 3 \<le> length u \<and> length u \<le> 32 \<and> 8 \<le> length p \<and> length p \<le> 64"
| "auth_lengths (Login u p d) \<longleftrightarrow> 3 \<le> length u \<and> length u \<le> 32 \<and> 8 \<le> length p \<and> length p \<le> 64 \<and> length d = 16"
| "auth_lengths (Resume t) \<longleftrightarrow> length t = 32"
| "auth_lengths Logout \<longleftrightarrow> True"

fun auth_chars :: "auth_request \<Rightarrow> bool" where
  "auth_chars (Register u p) \<longleftrightarrow> list_all username_char u \<and> list_all password_char p"
| "auth_chars (Login u p d) \<longleftrightarrow> list_all username_char u \<and> list_all password_char p"
| "auth_chars r \<longleftrightarrow> True"

lemma auth_ok_split: "auth_ok r \<longleftrightarrow> auth_lengths r \<and> auth_chars r"
  by (cases r) (auto simp: username_ok_def password_ok_def)

lemma auth_fields_types: "inj_on fst (auth_fields r)" "fst ` auth_fields r \<subseteq> {1, 2, 3, 4}"
  by (cases r; simp add: inj_on_def)+

definition auth_rules :: "u16 \<Rightarrow> vireo_tlv_rule list" where
  "auth_rules c = (if c = VIREO_COMMAND_SESSION_RESUME then [auth_token_rule]
     else take (if c = VIREO_COMMAND_LOGIN then 3 else 2) auth_request_rules)"

lemma keyed_set:
  assumes "distinct (map fst fs)" and "fst ` set fs = K"
  shows "set fs = (\<lambda>k. (k, the (map_of fs k))) ` K"
proof -
  have "f = (fst f, the (map_of fs (fst f)))" if "f \<in> set fs" for f
    using map_of_is_SomeI [OF assms(1), of "fst f" "snd f"] that by simp
  moreover have "(k, the (map_of fs k)) \<in> set fs" if "k \<in> K" for k
    using that assms(2) by (metis map_of_SomeD map_of_eq_None_iff option.collapse)
  ultimately show ?thesis using assms(2) by force
qed

text \<open>The length of a field's value, by its type.\<close>

definition auth_len :: "u16 \<Rightarrow> nat \<Rightarrow> bool" where
  "auth_len t n \<longleftrightarrow> (if t = 1 then 3 \<le> n \<and> n \<le> 32 else if t = 2 then 8 \<le> n \<and> n \<le> 64
     else if t = 3 then n = 16 else n = 32)"

definition auth_types :: "u16 \<Rightarrow> u16 set" where
  "auth_types c = (if c = VIREO_COMMAND_SESSION_RESUME then {4} else if c = VIREO_COMMAND_LOGIN then {1, 2, 3} else {1, 2})"

lemma auth_rules_props:
  "rule_type ` set (auth_rules c) = auth_types c"
  "\<forall>r \<in> set (auth_rules c). \<not> rule_repeatable r \<and> rule_required r \<and> (\<forall>v. value_spec r v \<longleftrightarrow> auth_len (rule_type r) (length v))"
proof -
  have tok: "value_spec auth_token_rule v \<longleftrightarrow> length v = 32" for v
    by (auto simp: auth_token_rule_def value_spec_def)
  have r3: "value_spec (auth_request_rules ! 0) v \<longleftrightarrow> 3 \<le> length v \<and> length v \<le> 32"
    "value_spec (auth_request_rules ! 1) v \<longleftrightarrow> 8 \<le> length v \<and> length v \<le> 64"
    "value_spec (auth_request_rules ! 2) v \<longleftrightarrow> length v = 16" for v
    by (auto simp: auth_request_rules_def value_spec_def)
  have "auth_request_rules = [auth_request_rules ! 0, auth_request_rules ! 1, auth_request_rules ! 2]"
    by (simp add: auth_request_rules_def)
  moreover have "rule_type (auth_request_rules ! 0) = 1" "rule_type (auth_request_rules ! 1) = 2"
      "rule_type (auth_request_rules ! 2) = 3" "rule_type auth_token_rule = 4"
      "\<forall>r \<in> set (auth_token_rule # auth_request_rules). \<not> rule_repeatable r \<and> rule_required r"
    by (simp_all add: auth_request_rules_def auth_token_rule_def)
  moreover have "auth_rules c = (if c = VIREO_COMMAND_SESSION_RESUME then [auth_token_rule]
      else if c = VIREO_COMMAND_LOGIN then auth_request_rules else [auth_request_rules ! 0, auth_request_rules ! 1])"
    by (simp add: auth_rules_def auth_request_rules_def)
  moreover have "auth_request_rules ! 0 \<in> set auth_request_rules" "auth_request_rules ! 1 \<in> set auth_request_rules"
    "set auth_request_rules = {auth_request_rules ! 0, auth_request_rules ! 1, auth_request_rules ! 2}"
    by (simp_all add: auth_request_rules_def)
  ultimately show "rule_type ` set (auth_rules c) = auth_types c"
    "\<forall>r \<in> set (auth_rules c). \<not> rule_repeatable r \<and> rule_required r \<and> (\<forall>v. value_spec r v \<longleftrightarrow> auth_len (rule_type r) (length v))"
    by (simp_all add: auth_types_def auth_len_def tok r3 r3(2) [simplified])
qed

lemma auth_fields_props:
  assumes "r \<noteq> Logout"
  shows "fst ` auth_fields r = auth_types (auth_command r)"
    and "auth_lengths r \<longleftrightarrow> (\<forall>f \<in> auth_fields r. auth_len (fst f) (length (snd f)))"
  using assms by (cases r; simp add: auth_types_def auth_len_def conj_ac)+

lemma auth_fields_ex:
  assumes "c \<in> {VIREO_COMMAND_REGISTER, VIREO_COMMAND_LOGIN, VIREO_COMMAND_SESSION_RESUME}"
  shows "\<exists>r. auth_command r = c \<and> r \<noteq> Logout \<and> auth_fields r = (\<lambda>k. (k, v k)) ` auth_types c"
proof -
  consider "c = VIREO_COMMAND_REGISTER" | "c = VIREO_COMMAND_LOGIN" | "c = VIREO_COMMAND_SESSION_RESUME"
    using assms by blast
  then show ?thesis
  proof cases
    case 1
    then show ?thesis by (intro exI [of _ "Register (v 1) (v 2)"]) (simp add: auth_types_def)
  next
    case 2
    then show ?thesis by (intro exI [of _ "Login (v 1) (v 2) (v 3)"]) (simp add: auth_types_def)
  next
    case 3
    then show ?thesis by (intro exI [of _ "Resume (v 4)"]) (simp add: auth_types_def)
  qed
qed

lemma auth_fields_accepted:
  assumes "c \<in> {VIREO_COMMAND_REGISTER, VIREO_COMMAND_LOGIN, VIREO_COMMAND_SESSION_RESUME}"
  shows "schema_accepts (auth_rules c) VIREO_TLV_UNKNOWN_REJECT fs \<longleftrightarrow>
    (\<exists>r. auth_command r = c \<and> r \<noteq> Logout \<and> distinct fs \<and> set fs = auth_fields r \<and> auth_lengths r)"
proof -
  have nr: "\<forall>r \<in> set (auth_rules c). \<not> rule_repeatable r" using auth_rules_props(2) by blast
  have "schema_accepts (auth_rules c) VIREO_TLV_UNKNOWN_REJECT fs \<longleftrightarrow> distinct (map fst fs) \<and>
      (\<forall>f \<in> set fs. fst f \<in> rule_type ` set (auth_rules c) \<and> auth_len (fst f) (length (snd f))) \<and>
      (rule_type ` set (auth_rules c) \<subseteq> fst ` set fs)"
    unfolding schema_accepts_unique [OF nr] using auth_rules_props(2) [of c] by fastforce
  also have "\<dots> \<longleftrightarrow> distinct (map fst fs) \<and> fst ` set fs = auth_types c \<and>
      (\<forall>f \<in> set fs. auth_len (fst f) (length (snd f)))"
    unfolding auth_rules_props(1) by auto
  also have "\<dots> \<longleftrightarrow> (\<exists>r. auth_command r = c \<and> r \<noteq> Logout \<and> distinct fs \<and> set fs = auth_fields r \<and> auth_lengths r)"
    (is "?L \<longleftrightarrow> ?R")
  proof
    assume L: ?L
    then have "set fs = (\<lambda>k. (k, the (map_of fs k))) ` auth_types c" by (intro keyed_set) simp_all
    moreover obtain r where "auth_command r = c" "r \<noteq> Logout"
      "auth_fields r = (\<lambda>k. (k, the (map_of fs k))) ` auth_types c"
      using auth_fields_ex [OF assms, of "\<lambda>k. the (map_of fs k)"] by blast
    ultimately have r: "auth_command r = c" "r \<noteq> Logout" "set fs = auth_fields r" by simp_all
    have "distinct fs" using L by (simp add: distinct_map)
    moreover have "auth_lengths r" using L auth_fields_props(2) [OF r(2)] r(3) by metis
    ultimately show ?R using r by blast
  next
    assume ?R
    then obtain r where r: "auth_command r = c" "r \<noteq> Logout" "distinct fs" "set fs = auth_fields r" "auth_lengths r" by blast
    have "distinct (map fst fs)" using r(3) auth_fields_types(1) [of r] unfolding distinct_map r(4) by simp
    moreover have "fst ` set fs = auth_types c" using auth_fields_props(1) [OF r(2)] r(1,4) by simp
    moreover have "\<forall>f \<in> set fs. auth_len (fst f) (length (snd f))" using auth_fields_props(2) [OF r(2)] r(4,5) by simp
    ultimately show ?L by blast
  qed
  finally show ?thesis .
qed

text \<open>The loop finds the fields of the request.\<close>

definition opt_ptr :: "bytes option \<Rightarrow> bytes option \<Rightarrow> bool" where
  "opt_ptr ptr b \<longleftrightarrow> (case b of None \<Rightarrow> ptr = None | Some x \<Rightarrow> points_to ptr x)"

definition opt_size :: "size_t \<Rightarrow> bytes option \<Rightarrow> bool" where
  "opt_size n b \<longleftrightarrow> (case b of None \<Rightarrow> n = 0 | Some x \<Rightarrow> unat n = length x)"

definition auth_rel :: "u16 \<Rightarrow> u32 \<Rightarrow> u32 \<Rightarrow> vireo_auth_request_view \<Rightarrow> (u16 \<Rightarrow> bytes option) \<Rightarrow> bool" where
  "auth_rel c q h s m \<longleftrightarrow> ar_command s = c \<and> ar_sequence s = q \<and> ar_session_handle s = h \<and>
     opt_ptr (ar_username s) (m 1) \<and> opt_size (ar_username_size s) (m 1) \<and>
     opt_ptr (ar_password s) (m 2) \<and> opt_size (ar_password_size s) (m 2) \<and>
     opt_ptr (ar_device s) (m 3) \<and> opt_ptr (ar_token s) (m 4)"

lemma auth_read:
  assumes "take (unat sz) body = tlv_encode fs" and "unat sz \<le> length body" and "list_all field_fits fs"
    and "distinct fs" and "set fs = auth_fields r"
  shows "\<exists>v. read_body auth_request_on_field body sz
      \<lparr>ar_command = auth_command r, ar_sequence = q, ar_username = None, ar_username_size = 0, ar_password = None,
       ar_password_size = 0, ar_device = None, ar_session_handle = h, ar_token = None\<rparr> = (VIREO_OK, v) \<and>
    auth_view r q h v"
proof -
  let ?s = "\<lparr>ar_command = auth_command r, ar_sequence = q, ar_username = None, ar_username_size = 0, ar_password = None,
       ar_password_size = 0, ar_device = None, ar_session_handle = h, ar_token = None\<rparr>"
  have "\<exists>v. read_body auth_request_on_field body sz ?s = (VIREO_OK, v) \<and>
      auth_rel (auth_command r) q h v (fold field_upd fs (\<lambda>_. None))"
  proof (rule read_body_sim [OF assms(1-3), where S = "auth_fields r" and R = "auth_rel (auth_command r) q h"])
    show "auth_rel (auth_command r) q h ?s (\<lambda>_. None)" by (simp add: auth_rel_def opt_ptr_def opt_size_def)
    fix v f s a
    assume f: "f \<in> auth_fields r" and v: "view_of v f" and rel: "auth_rel (auth_command r) q h s a"
    have "points_to (tv_value v) (snd f)" "unat (tv_length v) = length (snd f)" "tv_type v = fst f"
      using v view_of_take [OF v] by (auto simp: view_of_def points_to_def)
    moreover have "fst f \<in> {1, 2, 3, 4}" using f auth_fields_types(2) [of r] by blast
    moreover have "opt_ptr p (Some b) = points_to p b" "opt_size n (Some b) \<longleftrightarrow> unat n = length b" for p n b
      by (simp_all add: opt_ptr_def opt_size_def)
    ultimately show "\<exists>s'. auth_request_on_field v s = (VIREO_OK, s') \<and> auth_rel (auth_command r) q h s' (field_upd f a)"
      using rel by (auto simp: auth_request_on_field_def auth_rel_def field_upd_def)
  qed (simp add: assms(5))
  then obtain v where v: "read_body auth_request_on_field body sz ?s = (VIREO_OK, v)"
    "auth_rel (auth_command r) q h v (field_map fs)" by (auto simp: field_map_def)
  have dist: "distinct (map fst fs)" using assms(4,5) auth_fields_types(1) [of r] by (simp add: distinct_map)
  note fm = field_map_iff [OF dist, unfolded assms(5)] field_map_None [OF dist, unfolded assms(5)]
  have val: "field_map fs t = Some b" if "(t, b) \<in> auth_fields r" for t b using fm(1) that by blast
  have none: "field_map fs t = None" if "t \<notin> fst ` auth_fields r" for t using fm(2) that by blast
  note rel = v(2) [unfolded auth_rel_def opt_ptr_def opt_size_def]
  have "auth_view r q h v"
  proof (cases r)
    case (Register u p)
    then have "field_map fs 1 = Some u" "field_map fs 2 = Some p" "field_map fs 3 = None" "field_map fs 4 = None"
      by (simp_all add: val none)
    then show ?thesis using rel Register by (simp add: auth_view_def)
  next
    case (Login u p d)
    then have "field_map fs 1 = Some u" "field_map fs 2 = Some p" "field_map fs 3 = Some d" "field_map fs 4 = None"
      by (simp_all add: val none)
    then show ?thesis using rel Login by (simp add: auth_view_def)
  next
    case (Resume t)
    then have "field_map fs 1 = None" "field_map fs 2 = None" "field_map fs 3 = None" "field_map fs 4 = Some t"
      by (simp_all add: val none)
    then show ?thesis using rel Resume by (simp add: auth_view_def)
  next
    case Logout
    then have "field_map fs 1 = None" "field_map fs 2 = None" "field_map fs 3 = None" "field_map fs 4 = None"
      by (simp_all add: none)
    then show ?thesis using rel Logout by (simp add: auth_view_def)
  qed
  then show ?thesis using v(1) by blast
qed

lemma auth_schema:
  assumes "unat sz \<le> length body" and "c \<in> {VIREO_COMMAND_REGISTER, VIREO_COMMAND_LOGIN, VIREO_COMMAND_SESSION_RESUME}"
  shows "fst (vireo_tlv_schema_validate (Some body) sz
      (Some (if c = VIREO_COMMAND_SESSION_RESUME then [auth_token_rule] else auth_request_rules))
      (if c = VIREO_COMMAND_SESSION_RESUME then 1 else if c = VIREO_COMMAND_LOGIN then 3 else 2)
      VIREO_TLV_UNKNOWN_REJECT (Some (replicate 3 0)) 3 (Some i)) = VIREO_OK \<longleftrightarrow>
    (\<exists>fs r. take (unat sz) body = tlv_encode fs \<and> list_all field_fits fs \<and> auth_command r = c \<and> r \<noteq> Logout \<and>
       distinct fs \<and> set fs = auth_fields r \<and> auth_lengths r)" (is "fst (vireo_tlv_schema_validate _ _ (Some ?rs) ?n _ _ _ _) = _ \<longleftrightarrow> _")
proof -
  have len: "unat ?n \<le> length ?rs" "unat ?n \<le> length (replicate 3 (0 :: u8))" "?n \<le> 3"
    by (simp_all add: auth_request_rules_def)
  have "vireo_tlv_rules_are_valid (Some [auth_token_rule]) 1" "vireo_tlv_rules_are_valid (Some auth_request_rules) 2"
    "vireo_tlv_rules_are_valid (Some auth_request_rules) 3"
    by code_simp+
  then have valid: "vireo_tlv_rules_are_valid (Some ?rs) ?n" by simp
  have rs: "take (unat ?n) ?rs = auth_rules c" by (simp add: auth_rules_def)
  show ?thesis
    using schema_validate_iff(1) [OF assms(1) len _ valid, of VIREO_TLV_UNKNOWN_REJECT i]
    unfolding rs auth_fields_accepted [OF assms(2)] by auto
qed

lemma auth_view_chars:
  assumes "auth_view r q s v"
  shows "list_all username_char (take (unat (ar_username_size v)) (case ar_username v of None \<Rightarrow> [] | Some p \<Rightarrow> p)) \<and>
      list_all password_char (take (unat (ar_password_size v)) (case ar_password v of None \<Rightarrow> [] | Some p \<Rightarrow> p)) \<longleftrightarrow>
    auth_chars r"
  using assms by (cases r) (auto simp: auth_view_def points_to_def)

definition auth_envelope :: "vireo_protocol_header \<Rightarrow> size_t \<Rightarrow> bool" where
  "auth_envelope h n \<longleftrightarrow> h_flags h = 0 \<and> h_task_handle h = 0 \<and> n = 32 + ucast (h_body_len h) \<and>
     (h_command h = VIREO_COMMAND_REGISTER \<and> h_session_handle h = 0 \<and> h_body_len h \<le> 104 \<or>
      h_command h = VIREO_COMMAND_LOGIN \<and> h_session_handle h = 0 \<and> h_body_len h \<le> 124 \<or>
      h_command h = VIREO_COMMAND_SESSION_RESUME \<and> h_session_handle h = 0 \<and> h_body_len h \<le> 36 \<or>
      h_command h = VIREO_COMMAND_LOGOUT \<and> h_session_handle h \<noteq> 0 \<and> h_body_len h = 0)"

lemma auth_fields_size:
  assumes "distinct fs" and "set fs = auth_fields r" and "auth_lengths r"
  shows "length (tlv_encode fs) = (\<Sum>f \<in> auth_fields r. 4 + length (snd f))"
    and "auth_command r = VIREO_COMMAND_REGISTER \<Longrightarrow> length (tlv_encode fs) \<le> 104"
    and "auth_command r = VIREO_COMMAND_LOGIN \<Longrightarrow> length (tlv_encode fs) \<le> 124"
    and "auth_command r = VIREO_COMMAND_SESSION_RESUME \<Longrightarrow> length (tlv_encode fs) = 36"
    and "auth_command r = VIREO_COMMAND_LOGOUT \<Longrightarrow> length (tlv_encode fs) = 0"
    and "length (tlv_encode fs) \<le> 124" and "list_all field_fits fs"
proof -
  have "length (tlv_encode fs) = (\<Sum>f\<leftarrow>fs. 4 + length (snd f))"
    by (induction fs) (simp_all add: tlv_encode_def)
  then show len: "length (tlv_encode fs) = (\<Sum>f \<in> auth_fields r. 4 + length (snd f))"
    using sum_list_distinct_conv_sum_set [OF assms(1), of "\<lambda>f. 4 + length (snd f)"] assms(2) by simp
  show "auth_command r = VIREO_COMMAND_REGISTER \<Longrightarrow> length (tlv_encode fs) \<le> 104"
    "auth_command r = VIREO_COMMAND_LOGIN \<Longrightarrow> length (tlv_encode fs) \<le> 124"
    "auth_command r = VIREO_COMMAND_SESSION_RESUME \<Longrightarrow> length (tlv_encode fs) = 36"
    "auth_command r = VIREO_COMMAND_LOGOUT \<Longrightarrow> length (tlv_encode fs) = 0" "length (tlv_encode fs) \<le> 124"
    using assms(3) unfolding len by (cases r; simp)+
  show "list_all field_fits fs"
    using assms(2,3) unfolding list_all_iff assms(2) by (cases r) (simp_all add: field_fits_def)
qed

text \<open>The last two stages: schema and character checks.\<close>

definition auth_start :: "vireo_protocol_header \<Rightarrow> vireo_auth_request_view" where
  "auth_start h = \<lparr>ar_command = h_command h, ar_sequence = h_sequence h, ar_username = None, ar_username_size = 0,
     ar_password = None, ar_password_size = 0, ar_device = None, ar_session_handle = h_session_handle h, ar_token = None\<rparr>"

lemma auth_decode_OK:
  "vireo_auth_request_decode (Some wire) n (Some out) (Some i) = (VIREO_OK, Some v, Some VIREO_AUTH_REQUEST_ISSUE_NONE) \<longleftrightarrow>
   (\<exists>h. checked_header wire n False = Some h \<and> auth_envelope h n \<and> crc_ok wire h \<and>
     (h_command h \<noteq> VIREO_COMMAND_LOGOUT \<longrightarrow>
        fst (vireo_tlv_schema_validate (Some (drop 32 wire)) (ucast (h_body_len h))
          (Some (if h_command h = VIREO_COMMAND_SESSION_RESUME then [auth_token_rule] else auth_request_rules))
          (if h_command h = VIREO_COMMAND_SESSION_RESUME then 1 else if h_command h = VIREO_COMMAND_LOGIN then 3 else 2)
          VIREO_TLV_UNKNOWN_REJECT (Some (replicate 3 0)) 3 (Some VIREO_TLV_ISSUE_NONE)) = VIREO_OK) \<and>
     read_body auth_request_on_field (drop 32 wire) (ucast (h_body_len h)) (auth_start h) = (VIREO_OK, v) \<and>
     list_all username_char (take (unat (ar_username_size v)) (case ar_username v of None \<Rightarrow> [] | Some p \<Rightarrow> p)) \<and>
     list_all password_char (take (unat (ar_password_size v)) (case ar_password v of None \<Rightarrow> [] | Some p \<Rightarrow> p)))"
proof (cases "checked_header wire n False")
  case None
  then show ?thesis by (simp add: vireo_auth_request_decode_def)
next
  case (Some h)
  have le: "(ucast b :: size_t) \<le> 124 \<longleftrightarrow> b \<le> 124" "(ucast b :: size_t) \<le> 104 \<longleftrightarrow> b \<le> 104"
    "(ucast b :: size_t) \<le> 36 \<longleftrightarrow> b \<le> 36" "(ucast b :: size_t) = 0 \<longleftrightarrow> b = 0" for b :: u32
    by (simp_all add: word_le_nat_alt unat_ucast_le word_unat_eq_iff)
  let ?c = "h_command h"
  have env: "((?c \<noteq> VIREO_COMMAND_LOGIN \<and> ?c \<noteq> VIREO_COMMAND_SESSION_RESUME \<and> ?c \<noteq> VIREO_COMMAND_LOGOUT \<and> ?c \<noteq> VIREO_COMMAND_REGISTER) \<or>
      h_flags h \<noteq> 0 \<or> (if ?c = VIREO_COMMAND_LOGOUT then h_session_handle h = 0 else h_session_handle h \<noteq> 0) \<or>
      h_task_handle h \<noteq> 0 \<or>
      (ucast (h_body_len h) :: size_t) > (if ?c = VIREO_COMMAND_LOGIN then 124 else if ?c = VIREO_COMMAND_SESSION_RESUME then 36
        else if ?c = VIREO_COMMAND_LOGOUT then 0 else 104) \<or> n \<noteq> 32 + ucast (h_body_len h)) \<longleftrightarrow> \<not> auth_envelope h n"
    by (simp add: auth_envelope_def le not_less [symmetric] split: if_split) (auto simp: le not_le [symmetric])
  obtain rc w where rd: "read_body auth_request_on_field (drop 32 wire) (ucast (h_body_len h)) (auth_start h) = (rc, w)"
    by (metis surj_pair)
  show ?thesis
    unfolding vireo_auth_request_decode_def Let_def option.simps option.sel Some auth_start_def [symmetric] rd prod.case env
    using Some rd by auto
qed

lemma auth_decode_cases:
  "(\<exists>j. j \<noteq> VIREO_AUTH_REQUEST_ISSUE_NONE \<and>
     vireo_auth_request_decode (Some wire) n (Some out) (Some i) = (VIREO_RESULT_PROTOCOL, Some out, Some j)) \<or>
   (\<exists>v. vireo_auth_request_decode (Some wire) n (Some out) (Some i) =
     (VIREO_OK, Some v, Some VIREO_AUTH_REQUEST_ISSUE_NONE))"
proof (cases "checked_header wire n False")
  case None
  then show ?thesis by (simp add: vireo_auth_request_decode_def)
next
  case (Some h)
  obtain rc w where rd: "read_body auth_request_on_field (drop 32 wire) (ucast (h_body_len h)) (auth_start h) = (rc, w)"
    by (metis surj_pair)
  show ?thesis
    unfolding vireo_auth_request_decode_def Let_def option.simps option.sel Some auth_start_def [symmetric] rd prod.case
    by simp
qed

lemma auth_frame_decodes:
  assumes "unat n = length wire" and "auth_frame wire r q s"
  shows "\<exists>v. vireo_auth_request_decode (Some wire) n (Some out) (Some i) =
    (VIREO_OK, Some v, Some VIREO_AUTH_REQUEST_ISSUE_NONE) \<and> auth_view r q s v"
proof -
  obtain fs where fr: "q \<noteq> 0" "auth_lengths r" "auth_chars r" "s = 0 \<longleftrightarrow> r \<noteq> Logout" "distinct fs" "set fs = auth_fields r"
    "wire = sealed (message_header False (auth_command r) 0 (word_of_nat (length (tlv_encode fs))) q s) (tlv_encode fs)"
    using assms(2) by (auto simp: auth_frame_def auth_ok_split)
  let ?b = "tlv_encode fs" and ?n = "word_of_nat (length (tlv_encode fs)) :: u32"
  note sz = auth_fields_size [OF fr(5,6,2)]
  have n: "unat ?n = length ?b" using sz(6) by (simp add: unat_of_nat)
  have wn: "unat n = 32 + length ?b" using assms(1) fr(7) by simp
  have cn: "unat (ucast ?n :: size_t) = length ?b" using n by (simp add: unat_ucast_le)
  have wn': "n = 32 + ucast ?n"
    using wn cn sz(6) unat_add_less [of 32 "ucast ?n :: size_t"] by (simp add: word_unat_eq_iff)
  have cmd: "vireo_command_is_known (auth_command r)" by (cases r) (simp_all, code_simp+)
  obtain crc where h: "checked_header wire n False = Some ((message_header False (auth_command r) 0 ?n q s)\<lparr>h_crc32c := crc\<rparr>)"
    "crc_ok wire ((message_header False (auth_command r) 0 ?n q s)\<lparr>h_crc32c := crc\<rparr>)"
    using message_sealed [of "auth_command r" q False 0 ?n ?b n s] cmd fr(1) n sz(6) wn unfolding fr(7) by auto
  let ?h = "(message_header False (auth_command r) 0 ?n q s)\<lparr>h_crc32c := crc\<rparr>"
  have env: "auth_envelope ?h n"
    using wn' fr(4) sz(2-5) n by (cases r) (simp_all add: auth_envelope_def word_le_nat_alt word_unat_eq_iff)
  have body: "take (unat (ucast ?n :: size_t)) (drop 32 wire) = ?b" "unat (ucast ?n :: size_t) \<le> length (drop 32 wire)"
    using cn fr(7) by simp_all
  obtain v where v: "read_body auth_request_on_field (drop 32 wire) (ucast ?n) (auth_start ?h) = (VIREO_OK, v)" "auth_view r q s v"
    using auth_read [OF body sz(7) fr(5,6), of q s] by (auto simp: auth_start_def)
  have "auth_command r \<in> {VIREO_COMMAND_REGISTER, VIREO_COMMAND_LOGIN, VIREO_COMMAND_SESSION_RESUME}"
    if "r \<noteq> Logout" using that by (cases r) simp_all
  note schema = auth_schema [OF body(2) this]
  have "r \<noteq> Logout" if "auth_command r \<noteq> VIREO_COMMAND_LOGOUT" using that by (cases r) simp_all
  then have "auth_command r \<noteq> VIREO_COMMAND_LOGOUT \<longrightarrow> fst (vireo_tlv_schema_validate (Some (drop 32 wire)) (ucast ?n)
      (Some (if auth_command r = VIREO_COMMAND_SESSION_RESUME then [auth_token_rule] else auth_request_rules))
      (if auth_command r = VIREO_COMMAND_SESSION_RESUME then 1 else if auth_command r = VIREO_COMMAND_LOGIN then 3 else 2)
      VIREO_TLV_UNKNOWN_REJECT (Some (replicate 3 0)) 3 (Some VIREO_TLV_ISSUE_NONE)) = VIREO_OK"
    using schema body(1) fr(2,5,6) sz(7) by blast
  moreover have "h_command ?h = auth_command r" "h_body_len ?h = ?n" by simp_all
  ultimately show ?thesis
    using h env v auth_view_chars [OF v(2)] fr(3) unfolding auth_decode_OK by metis
qed

lemma auth_decode_frame:
  assumes "unat n = length wire"
    and "vireo_auth_request_decode (Some wire) n (Some out) (Some i) = (VIREO_OK, Some v, Some VIREO_AUTH_REQUEST_ISSUE_NONE)"
  shows "\<exists>r q s. auth_frame wire r q s"
proof -
  obtain h where ch: "checked_header wire n False = Some h" and env: "auth_envelope h n" and crc: "crc_ok wire h"
    and schema: "h_command h \<noteq> VIREO_COMMAND_LOGOUT \<Longrightarrow>
        fst (vireo_tlv_schema_validate (Some (drop 32 wire)) (ucast (h_body_len h))
          (Some (if h_command h = VIREO_COMMAND_SESSION_RESUME then [auth_token_rule] else auth_request_rules))
          (if h_command h = VIREO_COMMAND_SESSION_RESUME then 1 else if h_command h = VIREO_COMMAND_LOGIN then 3 else 2)
          VIREO_TLV_UNKNOWN_REJECT (Some (replicate 3 0)) 3 (Some VIREO_TLV_ISSUE_NONE)) = VIREO_OK"
    and rd: "read_body auth_request_on_field (drop 32 wire) (ucast (h_body_len h)) (auth_start h) = (VIREO_OK, v)"
    and chars: "list_all username_char (take (unat (ar_username_size v)) (case ar_username v of None \<Rightarrow> [] | Some p \<Rightarrow> p)) \<and>
     list_all password_char (take (unat (ar_password_size v)) (case ar_password v of None \<Rightarrow> [] | Some p \<Rightarrow> p))"
    using assms(2) unfolding auth_decode_OK by blast
  have hn: "n = 32 + ucast (h_body_len h)" using env by (simp add: auth_envelope_def)
  note w = checked_sealed [OF assms(1) ch crc hn]
  have bn: "unat (ucast (h_body_len h) :: size_t) = length (drop 32 wire)" using w(2) by (simp add: unat_ucast_le)
  have le: "unat (ucast (h_body_len h) :: size_t) \<le> length (drop 32 wire)" using bn by simp
  have "\<exists>fs r. drop 32 wire = tlv_encode fs \<and> list_all field_fits fs \<and> auth_command r = h_command h \<and>
      distinct fs \<and> set fs = auth_fields r \<and> auth_lengths r \<and> (h_session_handle h = 0 \<longleftrightarrow> r \<noteq> Logout)"
  proof (cases "h_command h = VIREO_COMMAND_LOGOUT")
    case True
    then have "drop 32 wire = []" "h_session_handle h \<noteq> 0" using env w(2) by (auto simp: auth_envelope_def)
    then show ?thesis using True by (intro exI [of _ "[]"] exI [of _ Logout]) simp
  next
    case False
    then have c: "h_command h \<in> {VIREO_COMMAND_REGISTER, VIREO_COMMAND_LOGIN, VIREO_COMMAND_SESSION_RESUME}"
      and s: "h_session_handle h = 0" using env by (auto simp: auth_envelope_def)
    show ?thesis using schema [OF False] s bn unfolding auth_schema [OF le c] by auto
  qed
  then obtain fs r where fs: "drop 32 wire = tlv_encode fs" "list_all field_fits fs" "auth_command r = h_command h"
    "distinct fs" "set fs = auth_fields r" "auth_lengths r" "h_session_handle h = 0 \<longleftrightarrow> r \<noteq> Logout" by blast
  have "take (unat (ucast (h_body_len h) :: size_t)) (drop 32 wire) = tlv_encode fs" using bn fs(1) by simp
  from auth_read [OF this le fs(2,4,5), of "h_sequence h" "h_session_handle h"]
  have "auth_view r (h_sequence h) (h_session_handle h) v" using rd fs(3) by (auto simp: auth_start_def)
  then have "auth_chars r" using auth_view_chars chars by blast
  note facts = checked_header_facts [OF ch eq_imp_le [OF assms(1)]]
  have "h_body_len h = word_of_nat (length (tlv_encode fs))" using w(2) fs(1) by (metis word_unat_eq_iff of_nat_unat ucast_id)
  then have "h\<lparr>h_crc32c := 0\<rparr> = message_header False (auth_command r) 0 (word_of_nat (length (tlv_encode fs))) (h_sequence h) (h_session_handle h)"
    using env facts(3) fs(3) by (simp add: auth_envelope_def message_header_def zero_header_def)
  then have "auth_frame wire r (h_sequence h) (h_session_handle h)"
    using w(1) [of 0] fs facts(1) \<open>auth_chars r\<close> unfolding auth_frame_def auth_ok_split by metis
  then show ?thesis by blast
qed

text \<open>
  C35. The authentication decoder accepts exactly the sealed frames that carry a well-formed REGISTER,
  LOGIN, SESSION_RESUME or LOGOUT request (each required field once, in any order, nothing else,
  credentials within their length and alphabet, a session handle for LOGOUT only). For such a frame
  it returns the request's fields; any other frame is refused with PROTOCOL, an issue, and the
  output untouched.
\<close>

theorem auth_request_exact:
  assumes "unat n = length wire"
  shows "(\<forall>r q s. auth_frame wire r q s \<longrightarrow>
      (\<exists>v. vireo_auth_request_decode (Some wire) n (Some out) (Some i) =
         (VIREO_OK, Some v, Some VIREO_AUTH_REQUEST_ISSUE_NONE) \<and> auth_view r q s v)) \<and>
    ((\<nexists>r q s. auth_frame wire r q s) \<longrightarrow>
      (\<exists>j. j \<noteq> VIREO_AUTH_REQUEST_ISSUE_NONE \<and>
         vireo_auth_request_decode (Some wire) n (Some out) (Some i) = (VIREO_RESULT_PROTOCOL, Some out, Some j)))"
  using auth_frame_decodes [OF assms] auth_decode_frame [OF assms] auth_decode_cases [of wire n out i] by blast

definition auth_sample :: bytes where
  "auth_sample = sealed (message_header False VIREO_COMMAND_REGISTER 0 19 7 0) (tlv_encode [(2, replicate 8 0x21), (1, [65, 48, 95])])"

theorem auth_request_exact_witness:
  "unat (51 :: size_t) = length auth_sample \<and> auth_frame auth_sample (Register [65, 48, 95] (replicate 8 0x21)) 7 0 \<and>
   (\<exists>v. vireo_auth_request_decode (Some auth_sample) 51 (Some (auth_start zero_header)) (Some VIREO_AUTH_REQUEST_ISSUE_CRC) =
      (VIREO_OK, Some v, Some VIREO_AUTH_REQUEST_ISSUE_NONE) \<and> auth_view (Register [65, 48, 95] (replicate 8 0x21)) 7 0 v)"
proof -
  have len: "unat (51 :: size_t) = length auth_sample" by (simp add: auth_sample_def)
  have "auth_frame auth_sample (Register [65, 48, 95] (replicate 8 0x21)) 7 0"
    unfolding auth_frame_def auth_sample_def
    by (intro conjI exI [of _ "[(2, replicate 8 0x21), (1, [65, 48, 95])]"])
      (simp_all add: username_ok_def password_ok_def username_char_def password_char_def insert_commute list_all_iff)
  then show ?thesis using len auth_request_exact [OF len] by blast
qed

end
