(* ===== verification/Timer_Time.thy ===== *)
theory Timer_Time
  imports Base_Checked
begin

text \<open>
  Deadlines (\<^verbatim>\<open>src/base/clock_deadline.c\<close>) and the quantisation of time by the timing wheel
  (\<^verbatim>\<open>src/timer/wheel_time.c\<close>). Time points and durations are unsigned 64-bit nanoseconds, ticks are
  unsigned 64-bit counts from the origin of the geometry.
\<close>

type_synonym vireo_monotonic_ns = u64
type_synonym vireo_duration_ns = u64
type_synonym vireo_timer_wheel_tick = u64

definition vireo_clock_deadline_after ::
  "vireo_monotonic_ns \<Rightarrow> vireo_duration_ns \<Rightarrow> vireo_monotonic_ns option \<Rightarrow> vireo_result \<times> vireo_monotonic_ns option" where
  "vireo_clock_deadline_after now delay out_deadline = vireo_checked_u64_add now delay out_deadline"

definition vireo_clock_deadline_expired ::
  "vireo_monotonic_ns \<Rightarrow> vireo_monotonic_ns \<Rightarrow> bool option \<Rightarrow> vireo_result \<times> bool option" where
  "vireo_clock_deadline_expired now deadline out_expired =
     (if out_expired = None then (VIREO_RESULT_INVALID_ARGUMENT, out_expired)
      else (VIREO_OK, Some (now \<ge> deadline)))"

definition vireo_clock_deadline_remaining ::
  "vireo_monotonic_ns \<Rightarrow> vireo_monotonic_ns \<Rightarrow> vireo_duration_ns option \<Rightarrow> vireo_result \<times> vireo_duration_ns option" where
  "vireo_clock_deadline_remaining now deadline out_remaining =
     (if out_remaining = None then (VIREO_RESULT_INVALID_ARGUMENT, out_remaining)
      else (VIREO_OK, Some (if now < deadline then deadline - now else 0)))"

record vireo_timer_wheel_geometry =
  origin_ns :: vireo_monotonic_ns
  tick_ns :: vireo_duration_ns
  bucket_count :: u64

definition geometry_valid :: "vireo_timer_wheel_geometry \<Rightarrow> bool" where
  "geometry_valid geometry \<longleftrightarrow> tick_ns geometry \<noteq> 0 \<and> bucket_count geometry \<noteq> 0"

definition tick_boundary ::
  "vireo_timer_wheel_geometry \<Rightarrow> vireo_timer_wheel_tick \<Rightarrow> vireo_monotonic_ns option \<Rightarrow>
   vireo_result \<times> vireo_monotonic_ns option" where
  "tick_boundary geometry tick out_time =
     (let (result, duration) = vireo_checked_u64_mul tick (tick_ns geometry) (Some 0) in
      if result \<noteq> VIREO_OK then (result, out_time)
      else vireo_clock_deadline_after (origin_ns geometry) (the duration) out_time)"

definition vireo_timer_wheel_geometry_make ::
  "vireo_monotonic_ns \<Rightarrow> vireo_duration_ns \<Rightarrow> u64 \<Rightarrow> vireo_timer_wheel_geometry option \<Rightarrow>
   vireo_result \<times> vireo_timer_wheel_geometry option" where
  "vireo_timer_wheel_geometry_make origin tick buckets out_geometry =
     (if out_geometry = None \<or> tick = 0 \<or> buckets = 0 then (VIREO_RESULT_INVALID_ARGUMENT, out_geometry)
      else (VIREO_OK, Some \<lparr>origin_ns = origin, tick_ns = tick, bucket_count = buckets\<rparr>))"

definition vireo_timer_wheel_elapsed_tick ::
  "vireo_timer_wheel_geometry \<Rightarrow> vireo_monotonic_ns \<Rightarrow> vireo_timer_wheel_tick option \<Rightarrow>
   vireo_result \<times> vireo_timer_wheel_tick option" where
  "vireo_timer_wheel_elapsed_tick geometry now_ns out_tick =
     (if out_tick = None \<or> \<not> geometry_valid geometry then (VIREO_RESULT_INVALID_ARGUMENT, out_tick)
      else if now_ns < origin_ns geometry then (VIREO_RESULT_RANGE, out_tick)
      else (VIREO_OK, Some ((now_ns - origin_ns geometry) div tick_ns geometry)))"

definition vireo_timer_wheel_deadline_tick ::
  "vireo_timer_wheel_geometry \<Rightarrow> vireo_monotonic_ns \<Rightarrow> vireo_timer_wheel_tick option \<Rightarrow>
   vireo_result \<times> vireo_timer_wheel_tick option" where
  "vireo_timer_wheel_deadline_tick geometry deadline_ns out_tick =
     (if out_tick = None \<or> \<not> geometry_valid geometry then (VIREO_RESULT_INVALID_ARGUMENT, out_tick)
      else if deadline_ns \<le> origin_ns geometry then (VIREO_OK, Some 0)
      else
        let delta = deadline_ns - origin_ns geometry;
            tick = delta div tick_ns geometry;
            (result, tick) = (if delta mod tick_ns geometry \<noteq> 0
                              then let (result, tick') = vireo_checked_u64_add tick 1 (Some tick) in (result, the tick')
                              else (VIREO_OK, tick)) in
        if result \<noteq> VIREO_OK then (result, out_tick)
        else
          let (result, boundary) = tick_boundary geometry tick (Some 0) in
          if result \<noteq> VIREO_OK then (result, out_tick) else (VIREO_OK, Some tick))"

definition vireo_timer_wheel_tick_time ::
  "vireo_timer_wheel_geometry \<Rightarrow> vireo_timer_wheel_tick \<Rightarrow> vireo_monotonic_ns option \<Rightarrow>
   vireo_result \<times> vireo_monotonic_ns option" where
  "vireo_timer_wheel_tick_time geometry tick out_time_ns =
     (if out_time_ns = None \<or> \<not> geometry_valid geometry then (VIREO_RESULT_INVALID_ARGUMENT, out_time_ns)
      else
        let (result, time) = tick_boundary geometry tick (Some 0) in
        if result \<noteq> VIREO_OK then (result, out_time_ns) else (VIREO_OK, time))"

definition vireo_timer_wheel_bucket_index ::
  "vireo_timer_wheel_geometry \<Rightarrow> vireo_timer_wheel_tick \<Rightarrow> u64 option \<Rightarrow> vireo_result \<times> u64 option" where
  "vireo_timer_wheel_bucket_index geometry tick out_bucket_index =
     (if out_bucket_index = None \<or> \<not> geometry_valid geometry
      then (VIREO_RESULT_INVALID_ARGUMENT, out_bucket_index)
      else (VIREO_OK, Some (tick mod bucket_count geometry)))"

subsection \<open>Exactness\<close>

text \<open>The reference: time points and ticks as natural numbers.\<close>

definition tick_at :: "vireo_timer_wheel_geometry \<Rightarrow> nat \<Rightarrow> nat" where
  "tick_at g t = unat (origin_ns g) + t * unat (tick_ns g)"

definition least_tick :: "vireo_timer_wheel_geometry \<Rightarrow> nat \<Rightarrow> nat" where
  "least_tick g d = (d - unat (origin_ns g) + (unat (tick_ns g) - 1)) div unat (tick_ns g)"

definition last_tick :: "vireo_timer_wheel_geometry \<Rightarrow> nat \<Rightarrow> nat" where
  "last_tick g n = (n - unat (origin_ns g)) div unat (tick_ns g)"

lemma tick_boundary_eq:
  "tick_boundary g t (Some old) =
     (if tick_at g (unat t) < 2 ^ 64 then (VIREO_OK, Some (origin_ns g + t * tick_ns g))
      else (VIREO_RESULT_OVERFLOW, Some old))"
proof -
  have "unat (t * tick_ns g) = unat t * unat (tick_ns g)" if "unat t * unat (tick_ns g) < 2 ^ 64"
    using that unat_mult_less [of t "tick_ns g"] by simp
  then show ?thesis
    by (simp add: tick_boundary_def u64_mul_Some u64_add_Some vireo_clock_deadline_after_def tick_at_def)
qed

lemma tick_at_word:
  "tick_at g (unat t) < 2 ^ 64 \<Longrightarrow> unat (origin_ns g + t * tick_ns g) = tick_at g (unat t)"
  unfolding tick_at_def using unat_mult_less [of t "tick_ns g"] unat_add_less [of "origin_ns g" "t * tick_ns g"] by simp

lemma ceil_div:
  assumes "0 < (m :: nat)"
  shows "(n + (m - 1)) div m = n div m + (if n mod m = 0 then 0 else 1)"
proof (cases "n mod m = 0")
  case True
  then obtain k where "n = m * k" by (auto simp: mod_eq_0_iff_dvd dvd_def)
  then have "n + (m - 1) = (m - 1) + m * k" by simp
  then show ?thesis using assms \<open>n = m * k\<close> by (simp only: div_mult_self2) simp
next
  case False
  have "n + (m - 1) = (n div m) * m + (n mod m + (m - 1))" by simp
  also have "\<dots> div m = n div m + (n mod m + (m - 1)) div m" using assms by (metis div_mult_self3 not_gr0)
  also have "(n mod m + (m - 1)) div m = 1"
    using False assms mod_less_divisor [OF assms, of n] by (intro div_nat_eqI) auto
  finally show ?thesis using False by simp
qed

lemma least_tick_iff: "tick_ns g \<noteq> 0 \<Longrightarrow> least_tick g d \<le> t \<longleftrightarrow> d \<le> tick_at g t"
proof -
  assume "tick_ns g \<noteq> 0"
  then have m: "0 < unat (tick_ns g)" by (simp add: unat_gt_0)
  have "(n + (m - 1)) div m \<le> t \<longleftrightarrow> n \<le> t * m" if "0 < m" for n m t :: nat
  proof -
    have "(n + (m - 1)) div m \<le> t \<longleftrightarrow> n + (m - 1) < Suc t * m"
      using that by (metis div_less_iff_less_mult less_Suc_eq_le)
    then show ?thesis using that by auto
  qed
  from this [OF m] show ?thesis unfolding least_tick_def tick_at_def by (simp add: le_diff_conv add.commute)
qed

lemma last_tick_iff:
  "tick_ns g \<noteq> 0 \<Longrightarrow> unat (origin_ns g) \<le> n \<Longrightarrow> t \<le> last_tick g n \<longleftrightarrow> tick_at g t \<le> n"
  by (simp add: last_tick_def tick_at_def less_eq_div_iff_mult_less_eq unat_gt_0 le_diff_conv2 add.commute)

lemma elapsed_tick_eq:
  assumes "geometry_valid g" and "origin_ns g \<le> now"
  shows "unat ((now - origin_ns g) div tick_ns g) = last_tick g (unat now)"
  using assms(2) by (simp add: last_tick_def unat_div unat_sub_le)

lemma deadline_tick_eq:
  assumes "geometry_valid g"
  shows "vireo_timer_wheel_deadline_tick g d (Some old) =
    (if tick_at g (least_tick g (unat d)) < 2 ^ 64 then (VIREO_OK, Some (word_of_nat (least_tick g (unat d))))
     else (VIREO_RESULT_OVERFLOW, Some old))"
proof (cases "d \<le> origin_ns g")
  case True
  then have "least_tick g (unat d) = 0"
    using assms by (simp add: least_tick_def geometry_valid_def word_le_nat_alt unat_gt_0)
  then show ?thesis
    using True assms using unat_lt_64 [of "origin_ns g"] by (simp add: vireo_timer_wheel_deadline_tick_def tick_at_def)
next
  case False
  let ?m = "tick_ns g" and ?n = "d - origin_ns g"
  have m: "?m \<noteq> 0" "0 < unat ?m" using assms by (simp_all add: geometry_valid_def unat_gt_0)
  have n: "unat ?n = unat d - unat (origin_ns g)" using False by (simp add: unat_sub_le)
  have L: "least_tick g (unat d) = unat (?n div ?m) + (if ?n mod ?m = 0 then 0 else 1)"
    using ceil_div [OF m(2), of "unat ?n"] n
    by (simp add: least_tick_def unat_div unat_mod word_unat_eq_iff)
  show ?thesis
  proof (cases "?n mod ?m = 0")
    case True
    then show ?thesis using False assms L
      by (simp add: vireo_timer_wheel_deadline_tick_def Let_def tick_boundary_eq)
  next
    case rem: False
    have big: "2 ^ 64 \<le> tick_at g (2 ^ 64)" using m(2) by (simp add: tick_at_def trans_le_add2)
    show ?thesis
    proof (cases "unat (?n div ?m) + 1 < 2 ^ 64")
      case True
      then have "unat (?n div ?m + 1) = least_tick g (unat d)" using L rem unat_add_less [of "?n div ?m" 1] by simp
      then show ?thesis using False assms rem True L
        by (simp add: vireo_timer_wheel_deadline_tick_def Let_def tick_boundary_eq u64_add_Some)
    next
      case over: False
      then have "least_tick g (unat d) = 2 ^ 64" using L rem unat_lt_64 [of "?n div ?m"] by simp
      then show ?thesis using False assms rem over big
        by (simp add: vireo_timer_wheel_deadline_tick_def Let_def u64_add_Some)
    qed
  qed
qed

text \<open>
  C39. Quantisation never fires early and is late by less than one tick. A deadline is rounded up to the
  first tick whose boundary is not before it (OVERFLOW exactly when that boundary does not fit 64
  bits); the current time is rounded down. So once the deadline's tick has elapsed the deadline has
  passed, and it has elapsed at the latest when a full tick, less a nanosecond, has gone by.
\<close>

theorem wheel_quantisation_exact:
  assumes "geometry_valid g"
  shows "(case vireo_timer_wheel_deadline_tick g d (Some old) of
      (VIREO_OK, Some t) \<Rightarrow>
        (\<exists>time. vireo_timer_wheel_tick_time g t (Some old) = (VIREO_OK, Some time) \<and> d \<le> time) \<and>
        (\<forall>s. unat d \<le> tick_at g s \<longrightarrow> unat t \<le> s) \<and>
        (\<forall>now e. vireo_timer_wheel_elapsed_tick g now (Some old) = (VIREO_OK, Some e) \<longrightarrow>
           (t \<le> e \<longrightarrow> d \<le> now) \<and> (unat d + unat (tick_ns g) \<le> unat now + 1 \<longrightarrow> t \<le> e))
    | (rc, out) \<Rightarrow> rc = VIREO_RESULT_OVERFLOW \<and> out = Some old \<and>
        (\<forall>s. unat d \<le> tick_at g s \<longrightarrow> 2 ^ 64 \<le> tick_at g s))"
proof (cases "tick_at g (least_tick g (unat d)) < 2 ^ 64")
  case True
  let ?L = "least_tick g (unat d)" and ?t = "word_of_nat (least_tick g (unat d)) :: u64"
  have m: "tick_ns g \<noteq> 0" "0 < unat (tick_ns g)" using assms by (simp_all add: geometry_valid_def unat_gt_0)
  have "?L \<le> tick_at g ?L" using m(2) by (simp add: tick_at_def trans_le_add2)
  then have t: "unat ?t = ?L" using True by (simp add: unat_of_nat)
  have d: "unat d \<le> tick_at g ?L" using least_tick_iff [OF m(1)] by blast
  have time: "vireo_timer_wheel_tick_time g ?t (Some old) = (VIREO_OK, Some (origin_ns g + ?t * tick_ns g))"
    using assms t True by (simp add: vireo_timer_wheel_tick_time_def tick_boundary_eq)
  have "unat (origin_ns g + ?t * tick_ns g) = tick_at g ?L" using tick_at_word [of g ?t] t True by simp
  then have le: "d \<le> origin_ns g + ?t * tick_ns g" using d by (simp add: word_le_nat_alt)
  have fire: "(?t \<le> e \<longrightarrow> d \<le> now) \<and> (unat d + unat (tick_ns g) \<le> unat now + 1 \<longrightarrow> ?t \<le> e)"
    if "vireo_timer_wheel_elapsed_tick g now (Some old) = (VIREO_OK, Some e)" for now e
  proof -
    have now: "origin_ns g \<le> now" and e: "unat e = last_tick g (unat now)"
      using that assms elapsed_tick_eq [OF assms, of now]
      by (auto simp: vireo_timer_wheel_elapsed_tick_def not_less split: if_splits)
    have iff: "?t \<le> e \<longleftrightarrow> tick_at g ?L \<le> unat now"
      using last_tick_iff [OF m(1), of "unat now" ?L] now e t by (simp add: word_le_nat_alt)
    have "tick_at g ?L < unat d + unat (tick_ns g) \<or> ?L = 0"
    proof (cases ?L)
      case (Suc k)
      then have "\<not> unat d \<le> tick_at g k" using least_tick_iff [OF m(1), of "unat d" k] by simp
      then show ?thesis using Suc by (simp add: tick_at_def)
    qed simp
    then show ?thesis using iff d now by (auto simp: word_le_nat_alt tick_at_def)
  qed
  show ?thesis
    using True t time le fire least_tick_iff [OF m(1), of "unat d"] by (simp add: deadline_tick_eq [OF assms])
next
  case False
  have m: "tick_ns g \<noteq> 0" using assms by (simp add: geometry_valid_def)
  have "2 ^ 64 \<le> tick_at g s" if "unat d \<le> tick_at g s" for s
  proof -
    have "least_tick g (unat d) \<le> s" using that least_tick_iff [OF m] by blast
    then have "tick_at g (least_tick g (unat d)) \<le> tick_at g s" by (simp add: tick_at_def mult_le_mono1)
    then show ?thesis using False by simp
  qed
  then show ?thesis using False by (simp add: deadline_tick_eq [OF assms])
qed

theorem wheel_quantisation_exact_witness:
  "let g = \<lparr>origin_ns = 1000, tick_ns = 10, bucket_count = 8\<rparr> in
     vireo_timer_wheel_deadline_tick g 1095 (Some 0) = (VIREO_OK, Some 10) \<and>
     (\<exists>time. vireo_timer_wheel_tick_time g 10 (Some 0) = (VIREO_OK, Some time) \<and> 1095 \<le> time)"
proof -
  let ?g = "\<lparr>origin_ns = 1000, tick_ns = 10, bucket_count = 8\<rparr>"
  have g: "geometry_valid ?g" by (simp add: geometry_valid_def)
  have d: "vireo_timer_wheel_deadline_tick ?g 1095 (Some 0) = (VIREO_OK, Some 10)" by code_simp
  have "\<exists>time. vireo_timer_wheel_tick_time ?g 10 (Some 0) = (VIREO_OK, Some time) \<and> 1095 \<le> time"
    using wheel_quantisation_exact [OF g, of 0 1095] d by simp
  with d show ?thesis by (simp only: Let_def simp_thms)
qed

end
