(* ===== verification/Base_Slots.thy ===== *)
theory Base_Slots
  imports Base_Checked
begin

text \<open>
  Fixed tables whose free entries form a list threaded through the table by index, with \<open>SIZE_MAX\<close>
  as the end mark: the timer handle registry and other tables of the program are of this form.
  \<open>used\<close> and \<open>next_free\<close> read an entry; \<open>slots_inv\<close> is the invariant that taking the head and
  giving an entry back preserve.
\<close>

primrec slot_chain :: "('a \<Rightarrow> size_t) \<Rightarrow> 'a list \<Rightarrow> size_t \<Rightarrow> nat list \<Rightarrow> bool" where
  "slot_chain next_free slots head [] \<longleftrightarrow> head = SIZE_MAX"
| "slot_chain next_free slots head (i # is) \<longleftrightarrow>
     head \<noteq> SIZE_MAX \<and> unat head = i \<and> i < length slots \<and> slot_chain next_free slots (next_free (slots ! i)) is"

definition unused_slots :: "('a \<Rightarrow> bool) \<Rightarrow> 'a list \<Rightarrow> nat set" where
  "unused_slots used slots = {i. i < length slots \<and> \<not> used (slots ! i)}"

definition slots_inv :: "('a \<Rightarrow> bool) \<Rightarrow> ('a \<Rightarrow> size_t) \<Rightarrow> 'a list \<Rightarrow> size_t \<Rightarrow> size_t \<Rightarrow> bool" where
  "slots_inv used next_free slots head count \<longleftrightarrow> length slots < 2 ^ 64 - 1 \<and>
     (\<exists>fl. slot_chain next_free slots head fl \<and> distinct fl \<and> set fl = unused_slots used slots \<and>
        unat count + length fl = length slots)"

lemma slot_chain_update: "i \<notin> set fl \<Longrightarrow> slot_chain n (slots[i := x]) h fl = slot_chain n slots h fl"
  by (induction fl arbitrary: h) auto

lemma unused_slots_update:
  "i < length slots \<Longrightarrow> unused_slots used (slots[i := x]) =
     (if used x then unused_slots used slots - {i} else insert i (unused_slots used slots))"
  by (auto simp: unused_slots_def nth_list_update)

lemma size_max_nat: "unat (- 1 :: 64 word) = 2 ^ 64 - 1"
  using unat_max_word [where 'a = 64] by simp

lemma slots_take:
  assumes inv: "slots_inv used n slots head count" and head: "head \<noteq> SIZE_MAX"
  shows "unat head < length slots" and "\<not> used (slots ! unat head)"
    and "used x \<Longrightarrow> slots_inv used n (slots[unat head := x]) (n (slots ! unat head)) (count + 1)"
proof -
  obtain fl where fl: "slot_chain n slots head fl" "distinct fl" "set fl = unused_slots used slots"
      "unat count + length fl = length slots" and len: "length slots < 2 ^ 64 - 1"
    using inv by (auto simp: slots_inv_def)
  with head obtain js where js: "fl = unat head # js" by (cases fl) auto
  then show i: "unat head < length slots" "\<not> used (slots ! unat head)"
    using fl by (auto simp: unused_slots_def)
  have cnt: "unat (count + 1) = unat count + 1"
    using fl(4) js len by (intro trans [OF unat_add_less]) simp_all
  assume x: "used x"
  have "unat head \<notin> set js" using js fl(2) by simp
  moreover have "set js = unused_slots used (slots[unat head := x])"
    using fl(2,3) js x i by (auto simp: unused_slots_update)
  ultimately show "slots_inv used n (slots[unat head := x]) (n (slots ! unat head)) (count + 1)"
    unfolding slots_inv_def using fl js cnt len
    by (intro conjI exI [of _ js]) (simp_all add: slot_chain_update)
qed

lemma slots_count_used:
  assumes "slots_inv used n slots head count"
  shows "unat count = card {i. i < length slots \<and> used (slots ! i)}"
proof -
  obtain fl where fl: "distinct fl" "set fl = unused_slots used slots" "unat count + length fl = length slots"
    using assms by (auto simp: slots_inv_def)
  have "card (unused_slots used slots) = length fl" using fl(1,2) by (metis distinct_card)
  moreover have "{..< length slots} = {i. i < length slots \<and> used (slots ! i)} \<union> unused_slots used slots"
    by (auto simp: unused_slots_def)
  then have "card {..< length slots} = card {i. i < length slots \<and> used (slots ! i)} + card (unused_slots used slots)"
    by (simp only:) (rule card_Un_disjoint, auto simp: unused_slots_def)
  ultimately show ?thesis using fl(3) by simp
qed

lemma slots_full: "slots_inv used n slots SIZE_MAX count \<Longrightarrow> i < length slots \<Longrightarrow> used (slots ! i)"
proof -
  assume inv: "slots_inv used n slots SIZE_MAX count" and i: "i < length slots"
  then obtain fl where fl: "slot_chain n slots SIZE_MAX fl" "set fl = unused_slots used slots" by (auto simp: slots_inv_def)
  from fl(1) have "fl = []" by (cases fl) simp_all
  then show "used (slots ! i)" using fl(2) i by (auto simp: unused_slots_def)
qed

lemma slots_give:
  assumes inv: "slots_inv used n slots head count" and i: "unat i < length slots" "used (slots ! unat i)"
    and x: "\<not> used x" "n x = head"
  shows "slots_inv used n (slots[unat i := x]) i (count - 1)" and "count \<noteq> 0"
proof -
  obtain fl where fl: "slot_chain n slots head fl" "distinct fl" "set fl = unused_slots used slots"
      "unat count + length fl = length slots" and len: "length slots < 2 ^ 64 - 1"
    using inv by (auto simp: slots_inv_def)
  have "{k. k < length slots \<and> used (slots ! k)} \<noteq> {}" using i by blast
  then have pos: "unat count \<noteq> 0" unfolding slots_count_used [OF inv] by simp
  then show "count \<noteq> 0" by auto
  then have cnt: "unat (count - 1) = unat count - 1" by (simp add: unat_minus_one)
  have notin: "unat i \<notin> set fl" using fl(3) i(2) by (simp add: unused_slots_def)
  have "i \<noteq> SIZE_MAX" using i(1) len size_max_nat by auto
  then show "slots_inv used n (slots[unat i := x]) i (count - 1)"
    unfolding slots_inv_def using fl i x notin cnt pos len
    by (intro conjI exI [of _ "unat i # fl"]) (simp_all add: slot_chain_update unused_slots_update)
qed

lemma slots_same:
  assumes "slots_inv used n slots head count" and "i < length slots"
    and "used x = used (slots ! i)" and "\<not> used x \<Longrightarrow> n x = n (slots ! i)"
  shows "slots_inv used n (slots[i := x]) head count"
proof -
  have "slot_chain n (slots[i := x]) h fl = slot_chain n slots h fl"
    if "set fl \<subseteq> unused_slots used slots" for h fl
    using that assms(2-4) by (induction fl arbitrary: h) (auto simp: nth_list_update unused_slots_def)
  moreover have "unused_slots used (slots[i := x]) = unused_slots used slots"
    using assms(2,3) by (auto simp: unused_slots_def nth_list_update)
  ultimately show ?thesis using assms(1) unfolding slots_inv_def by (metis length_list_update subset_refl)
qed

text \<open>A fresh table: every entry points to its successor, the last one to the end mark.\<close>

lemma slots_initial:
  assumes "slots \<noteq> []" and len: "length slots < 2 ^ 64 - 1" and "\<And>i. i < length slots \<Longrightarrow> \<not> used (slots ! i)"
    and link: "\<And>i. i < length slots \<Longrightarrow> n (slots ! i) = (if Suc i = length slots then SIZE_MAX else word_of_nat (Suc i))"
  shows "slots_inv used n slots 0 0"
proof -
  have idx: "unat (word_of_nat k :: size_t) = k \<and> (word_of_nat k :: size_t) \<noteq> SIZE_MAX" if "k < length slots" for k
    using that len size_max_nat by (auto simp: unat_of_nat dest!: arg_cong [of _ _ unat])
  have "slot_chain n slots (if k = length slots then SIZE_MAX else word_of_nat k) [k ..< length slots]"
    if "k \<le> length slots" for k
    using that
  proof (induction "length slots - k" arbitrary: k)
    case (Suc d)
    then have k: "k < length slots" by simp
    have "slot_chain n slots (n (slots ! k)) [Suc k ..< length slots]"
      using Suc.hyps(1) [of "Suc k"] Suc.hyps(2) k link [OF k] by simp
    then show ?case using k idx [OF k] by (simp add: upt_conv_Cons)
  qed simp
  from this [of 0] have "slot_chain n slots 0 [0 ..< length slots]" using assms(1) by simp
  then show ?thesis unfolding slots_inv_def
    using len assms(3) by (intro conjI exI [of _ "[0 ..< length slots]"]) (auto simp: unused_slots_def)
qed

end
