(* ===== verification/Timer_Handle.thy ===== *)
theory Timer_Handle
  imports Base_Pool Base_Slots
begin

text \<open>
  Timer identities: \<^verbatim>\<open>src/timer/handle.c\<close> (values) and \<^verbatim>\<open>src/timer/handle_owner.c\<close> (the table that
  issues them). A handle names its owner, a slot, and the generation in which the slot was taken;
  the owner's free slots form an index-threaded list. The allocator is the one of \<open>Base_Memory\<close>,
  \<open>ho_self\<close> and \<open>ho_slots_block\<close> are the two blocks an owner consists of, and the process-wide
  identity counter is shared as in the object pool.
\<close>

record vireo_timer_handle =
  th_owner_id :: u64
  th_slot_index :: size_t
  th_generation :: u64

definition zero_handle :: vireo_timer_handle where
  "zero_handle = \<lparr>th_owner_id = 0, th_slot_index = 0, th_generation = 0\<rparr>"

definition handle_has_valid_shape :: "vireo_timer_handle \<Rightarrow> bool" where
  "handle_has_valid_shape handle \<longleftrightarrow>
     (let empty = th_owner_id handle = 0 \<and> th_slot_index handle = 0 \<and> th_generation handle = 0;
          nonempty = th_owner_id handle \<noteq> 0 \<and> th_generation handle \<noteq> 0
      in empty \<or> nonempty)"

definition vireo_timer_handle_make ::
  "u64 \<Rightarrow> size_t \<Rightarrow> u64 \<Rightarrow> vireo_timer_handle option \<Rightarrow> vireo_result \<times> vireo_timer_handle option" where
  "vireo_timer_handle_make owner_id slot_index generation out_handle =
     (if out_handle = None \<or> owner_id = 0 \<or> generation = 0 then (VIREO_RESULT_INVALID_ARGUMENT, out_handle)
      else (VIREO_OK, Some \<lparr>th_owner_id = owner_id, th_slot_index = slot_index, th_generation = generation\<rparr>))"

definition vireo_timer_handle_is_empty :: "vireo_timer_handle \<Rightarrow> bool option \<Rightarrow> vireo_result \<times> bool option" where
  "vireo_timer_handle_is_empty handle out_empty =
     (if out_empty = None \<or> \<not> handle_has_valid_shape handle then (VIREO_RESULT_INVALID_ARGUMENT, out_empty)
      else (VIREO_OK, Some (th_owner_id handle = 0)))"

definition vireo_timer_handle_equal ::
  "vireo_timer_handle \<Rightarrow> vireo_timer_handle \<Rightarrow> bool option \<Rightarrow> vireo_result \<times> bool option" where
  "vireo_timer_handle_equal left right out_equal =
     (if out_equal = None \<or> \<not> handle_has_valid_shape left \<or> \<not> handle_has_valid_shape right
      then (VIREO_RESULT_INVALID_ARGUMENT, out_equal)
      else (VIREO_OK, Some (th_owner_id left = th_owner_id right \<and> th_slot_index left = th_slot_index right \<and>
                            th_generation left = th_generation right)))"

definition vireo_timer_handle_next_generation :: "u64 \<Rightarrow> u64 option \<Rightarrow> vireo_result \<times> u64 option" where
  "vireo_timer_handle_next_generation last_generation out_generation =
     vireo_checked_u64_add last_generation 1 out_generation"

subsection \<open>The owner\<close>

record vireo_timer_handle_owner_options =
  oo_capacity :: size_t
  oo_max_memory_bytes :: size_t

record vireo_timer_handle_owner_info =
  oi_owner_id :: u64
  oi_last_generation :: u64
  oi_capacity :: size_t
  oi_active_count :: size_t
  oi_available_count :: size_t
  oi_allocation_bytes :: size_t
  oi_max_memory_bytes :: size_t

record vireo_timer_handle_owner_allocator =
  oa_allocate :: bool
  oa_deallocate :: bool

record vireo_timer_handle_owner_slot =
  os_generation :: u64
  os_next_free :: size_t
  os_active :: bool

record vireo_timer_handle_owner =
  ho_slots :: "vireo_timer_handle_owner_slot list"
  ho_slots_block :: nat
  ho_capacity :: size_t
  ho_free_head :: size_t
  ho_active_count :: size_t
  ho_allocation_bytes :: size_t
  ho_max_memory_bytes :: size_t
  ho_owner_id :: u64
  ho_last_generation :: u64
  ho_self :: nat

abbreviation VIREO_TIMER_HANDLE_OWNER_MAX_CAPACITY :: size_t where
  "VIREO_TIMER_HANDLE_OWNER_MAX_CAPACITY \<equiv> 65536"

abbreviation VIREO_TIMER_HANDLE_OWNER_MAX_MEMORY :: size_t where
  "VIREO_TIMER_HANDLE_OWNER_MAX_MEMORY \<equiv> 67108864"

abbreviation sizeof_owner_slot :: size_t where "sizeof_owner_slot \<equiv> 24"
abbreviation sizeof_owner :: size_t where "sizeof_owner \<equiv> 88"

fun reserve_identity :: "u64 list \<Rightarrow> u64 \<Rightarrow> u64 \<Rightarrow> vireo_result \<times> u64 \<times> u64" where
  "reserve_identity races observed out_id =
     (let (result, nxt) = vireo_timer_handle_next_generation observed (Some 0) in
      if result \<noteq> VIREO_OK then (result, out_id, observed)
      else case races of
             [] \<Rightarrow> (VIREO_OK, the nxt, the nxt)
           | seen # races \<Rightarrow> reserve_identity races seen out_id)"

definition owner_slots_init :: "size_t \<Rightarrow> vireo_timer_handle_owner_slot list" where
  "owner_slots_init capacity =
     (let slots = map (\<lambda>i. \<lparr>os_generation = 0, os_next_free = word_of_nat i + 1, os_active = False\<rparr>) [0 ..< unat capacity];
          final = unat (capacity - 1)
      in slots[final := (slots ! final)\<lparr>os_next_free := SIZE_MAX\<rparr>])"

definition vireo_timer_handle_owner_create_runtime ::
  "vireo_timer_handle_owner_options option \<Rightarrow> vireo_timer_handle_owner option option \<Rightarrow>
   vireo_timer_handle_owner_allocator option \<Rightarrow> u64 list \<Rightarrow> u64 option \<Rightarrow> vireo_heap \<Rightarrow>
   vireo_result \<times> vireo_timer_handle_owner option option \<times> u64 option \<times> vireo_heap" where
  "vireo_timer_handle_owner_create_runtime options out_owner allocator races identity_counter heap =
     (if options = None \<or> out_owner = None \<or> allocator = None \<or> identity_counter = None \<or>
         the out_owner \<noteq> None \<or> \<not> oa_allocate (the allocator) \<or> \<not> oa_deallocate (the allocator) \<or>
         oo_capacity (the options) = 0 \<or> oo_max_memory_bytes (the options) = 0
      then (VIREO_RESULT_INVALID_ARGUMENT, out_owner, identity_counter, heap)
      else
        let options = the options;
            (result, slot_bytes) = vireo_checked_size_mul (oo_capacity options) sizeof_owner_slot (Some 0) in
        if result \<noteq> VIREO_OK then (result, out_owner, identity_counter, heap)
        else
        let (result, total_bytes) = vireo_checked_size_add sizeof_owner (the slot_bytes) (Some 0) in
        if result \<noteq> VIREO_OK then (result, out_owner, identity_counter, heap)
        else if oo_capacity options > VIREO_TIMER_HANDLE_OWNER_MAX_CAPACITY \<or>
                oo_max_memory_bytes options > VIREO_TIMER_HANDLE_OWNER_MAX_MEMORY \<or>
                the total_bytes > oo_max_memory_bytes options
        then (VIREO_RESULT_RANGE, out_owner, identity_counter, heap)
        else
        let (result, identity, counter) = reserve_identity races (the identity_counter) 0 in
        if result \<noteq> VIREO_OK then (result, out_owner, Some counter, heap)
        else
        let (candidate, heap) = allocate_default heap sizeof_owner in
        if candidate = None then (VIREO_RESULT_NO_MEMORY, out_owner, Some counter, heap)
        else
        let (slots, heap) = allocate_default heap (the slot_bytes) in
        if slots = None
        then (VIREO_RESULT_NO_MEMORY, out_owner, Some counter, deallocate_default heap (the candidate) [])
        else (VIREO_OK,
              Some (Some \<lparr>ho_slots = owner_slots_init (oo_capacity options), ho_slots_block = the slots,
                ho_capacity = oo_capacity options, ho_free_head = 0, ho_active_count = 0,
                ho_allocation_bytes = the total_bytes, ho_max_memory_bytes = oo_max_memory_bytes options,
                ho_owner_id = identity, ho_last_generation = 0, ho_self = the candidate\<rparr>),
              Some counter, heap))"

definition vireo_timer_handle_owner_create ::
  "vireo_timer_handle_owner_options option \<Rightarrow> vireo_timer_handle_owner option option \<Rightarrow> u64 list \<Rightarrow> u64 \<Rightarrow> vireo_heap \<Rightarrow>
   vireo_result \<times> vireo_timer_handle_owner option option \<times> u64 option \<times> vireo_heap" where
  "vireo_timer_handle_owner_create options out_owner races last_owner_id heap =
     vireo_timer_handle_owner_create_runtime options out_owner (Some \<lparr>oa_allocate = True, oa_deallocate = True\<rparr>)
       races (Some last_owner_id) heap"

definition vireo_timer_handle_owner_inspect ::
  "vireo_timer_handle_owner option \<Rightarrow> vireo_timer_handle_owner_info option \<Rightarrow>
   vireo_result \<times> vireo_timer_handle_owner_info option" where
  "vireo_timer_handle_owner_inspect owner out_info =
     (case (owner, out_info) of
        (Some ow, Some _) \<Rightarrow>
          (VIREO_OK, Some \<lparr>oi_owner_id = ho_owner_id ow, oi_last_generation = ho_last_generation ow,
             oi_capacity = ho_capacity ow, oi_active_count = ho_active_count ow,
             oi_available_count = ho_capacity ow - ho_active_count ow,
             oi_allocation_bytes = ho_allocation_bytes ow, oi_max_memory_bytes = ho_max_memory_bytes ow\<rparr>)
      | _ \<Rightarrow> (VIREO_RESULT_INVALID_ARGUMENT, out_info))"

definition vireo_timer_handle_owner_acquire ::
  "vireo_timer_handle_owner option \<Rightarrow> vireo_timer_handle option \<Rightarrow>
   vireo_result \<times> vireo_timer_handle_owner option \<times> vireo_timer_handle option" where
  "vireo_timer_handle_owner_acquire owner out_handle =
     (if owner = None \<or> out_handle = None then (VIREO_RESULT_INVALID_ARGUMENT, owner, out_handle)
      else
        let ow = the owner;
            (result, nxt) = vireo_timer_handle_next_generation (ho_last_generation ow) (Some 0) in
        if result \<noteq> VIREO_OK then (result, owner, out_handle)
        else if ho_free_head ow = SIZE_MAX then (VIREO_RESULT_BUSY, owner, out_handle)
        else
          let index = ho_free_head ow;
              slot = ho_slots ow ! unat index;
              ow = ow\<lparr>ho_free_head := os_next_free slot\<rparr>;
              slot = slot\<lparr>os_generation := the nxt, os_active := True\<rparr>;
              ow = ow\<lparr>ho_slots := (ho_slots ow)[unat index := slot], ho_active_count := ho_active_count ow + 1,
                    ho_last_generation := the nxt\<rparr>
          in (VIREO_OK, Some ow,
              Some \<lparr>th_owner_id = ho_owner_id ow, th_slot_index = index, th_generation = the nxt\<rparr>))"

definition vireo_timer_handle_owner_validate ::
  "vireo_timer_handle_owner option \<Rightarrow> vireo_timer_handle \<Rightarrow> vireo_result" where
  "vireo_timer_handle_owner_validate owner handle =
     (case owner of
        None \<Rightarrow> VIREO_RESULT_INVALID_ARGUMENT
      | Some ow \<Rightarrow>
          let (result, empty) = vireo_timer_handle_is_empty handle (Some False) in
          if result \<noteq> VIREO_OK then result
          else if the empty then VIREO_RESULT_NOT_FOUND
          else if th_owner_id handle \<noteq> ho_owner_id ow then VIREO_RESULT_INVALID_ARGUMENT
          else if th_slot_index handle \<ge> ho_capacity ow then VIREO_RESULT_RANGE
          else
            let slot = ho_slots ow ! unat (th_slot_index handle) in
            if \<not> os_active slot \<or> os_generation slot \<noteq> th_generation handle then VIREO_RESULT_NOT_FOUND
            else VIREO_OK)"

definition vireo_timer_handle_owner_release ::
  "vireo_timer_handle_owner option \<Rightarrow> vireo_timer_handle option \<Rightarrow>
   vireo_result \<times> vireo_timer_handle_owner option \<times> vireo_timer_handle option" where
  "vireo_timer_handle_owner_release owner handle =
     (if owner = None \<or> handle = None then (VIREO_RESULT_INVALID_ARGUMENT, owner, handle)
      else
        let result = vireo_timer_handle_owner_validate owner (the handle) in
        if result \<noteq> VIREO_OK then (result, owner, handle)
        else
          let ow = the owner;
              index = th_slot_index (the handle);
              slot = (ho_slots ow ! unat index)\<lparr>os_active := False, os_next_free := ho_free_head ow\<rparr>;
              ow = ow\<lparr>ho_slots := (ho_slots ow)[unat index := slot], ho_free_head := index,
                    ho_active_count := ho_active_count ow - 1\<rparr>
          in (VIREO_OK, Some ow, Some zero_handle))"

definition vireo_timer_handle_owner_destroy ::
  "vireo_timer_handle_owner option option \<Rightarrow> vireo_heap \<Rightarrow>
   vireo_result \<times> vireo_timer_handle_owner option option \<times> vireo_heap" where
  "vireo_timer_handle_owner_destroy owner heap =
     (case owner of
        None \<Rightarrow> (VIREO_RESULT_INVALID_ARGUMENT, owner, heap)
      | Some None \<Rightarrow> (VIREO_OK, owner, heap)
      | Some (Some ow) \<Rightarrow>
          if ho_active_count ow \<noteq> 0 then (VIREO_RESULT_BUSY, owner, heap)
          else
            let heap = deallocate_default heap (ho_slots_block ow) [];
                heap = deallocate_default heap (ho_self ow) []
            in (VIREO_OK, Some None, heap))"

declare reserve_identity.simps [simp del]

subsection \<open>The owner as a lease table\<close>

definition owner_inv :: "vireo_timer_handle_owner \<Rightarrow> bool" where
  "owner_inv ow \<longleftrightarrow> ho_owner_id ow \<noteq> 0 \<and> length (ho_slots ow) = unat (ho_capacity ow) \<and>
     slots_inv os_active os_next_free (ho_slots ow) (ho_free_head ow) (ho_active_count ow) \<and>
     (\<forall>s \<in> set (ho_slots ow). os_active s \<longrightarrow> os_generation s \<noteq> 0 \<and> os_generation s \<le> ho_last_generation ow)"

definition owner_live :: "vireo_timer_handle_owner \<Rightarrow> vireo_timer_handle set" where
  "owner_live ow = {h. th_owner_id h = ho_owner_id ow \<and> th_slot_index h < ho_capacity ow \<and>
     os_active (ho_slots ow ! unat (th_slot_index h)) \<and>
     os_generation (ho_slots ow ! unat (th_slot_index h)) = th_generation h}"

definition owner_issued :: "vireo_timer_handle_owner \<Rightarrow> vireo_timer_handle set" where
  "owner_issued ow = {h. th_owner_id h = ho_owner_id ow \<and> th_generation h \<noteq> 0 \<and> th_generation h \<le> ho_last_generation ow}"

definition owner_take :: "vireo_timer_handle_owner \<Rightarrow> vireo_result \<times> vireo_timer_handle_owner \<times> vireo_timer_handle" where
  "owner_take ow = (let (rc, ow, h) = vireo_timer_handle_owner_acquire (Some ow) (Some zero_handle) in (rc, the ow, the h))"

definition owner_give :: "vireo_timer_handle \<Rightarrow> vireo_timer_handle_owner \<Rightarrow> vireo_result \<times> vireo_timer_handle_owner" where
  "owner_give h ow = (let (rc, ow, h) = vireo_timer_handle_owner_release (Some ow) (Some h) in (rc, the ow))"

definition owner_acquired :: "vireo_timer_handle_owner \<Rightarrow> vireo_timer_handle_owner" where
  "owner_acquired ow =
     (let i = unat (ho_free_head ow) in
      ow\<lparr>ho_free_head := os_next_free (ho_slots ow ! i),
        ho_slots := (ho_slots ow)[i := (ho_slots ow ! i)\<lparr>os_generation := ho_last_generation ow + 1, os_active := True\<rparr>],
        ho_active_count := ho_active_count ow + 1, ho_last_generation := ho_last_generation ow + 1\<rparr>)"

definition owner_released :: "vireo_timer_handle \<Rightarrow> vireo_timer_handle_owner \<Rightarrow> vireo_timer_handle_owner" where
  "owner_released h ow =
     (let i = unat (th_slot_index h) in
      ow\<lparr>ho_slots := (ho_slots ow)[i := (ho_slots ow ! i)\<lparr>os_active := False, os_next_free := ho_free_head ow\<rparr>],
        ho_free_head := th_slot_index h, ho_active_count := ho_active_count ow - 1\<rparr>)"

lemma owner_acquire_eq:
  "vireo_timer_handle_owner_acquire (Some ow) (Some old) =
     (if ho_last_generation ow = UINT64_MAX then (VIREO_RESULT_OVERFLOW, Some ow, Some old)
      else if ho_free_head ow = SIZE_MAX then (VIREO_RESULT_BUSY, Some ow, Some old)
      else (VIREO_OK, Some (owner_acquired ow),
        Some \<lparr>th_owner_id = ho_owner_id ow, th_slot_index = ho_free_head ow, th_generation = ho_last_generation ow + 1\<rparr>))"
  by (simp add: vireo_timer_handle_owner_acquire_def vireo_timer_handle_next_generation_def next_generation Let_def
      owner_acquired_def)

lemma owner_live_issued:
  assumes inv: "owner_inv ow" and h: "h \<in> owner_live ow"
  shows "h \<in> owner_issued ow" and "unat (th_slot_index h) < length (ho_slots ow)" and "th_owner_id h \<noteq> 0"
    and "th_generation h \<noteq> 0"
proof -
  show i: "unat (th_slot_index h) < length (ho_slots ow)"
    using inv h by (simp add: owner_inv_def owner_live_def word_less_nat_alt)
  then have "ho_slots ow ! unat (th_slot_index h) \<in> set (ho_slots ow)" by simp
  then show "h \<in> owner_issued ow" "th_owner_id h \<noteq> 0" "th_generation h \<noteq> 0"
    using inv h by (auto simp: owner_inv_def owner_live_def owner_issued_def)
qed

lemma owner_validate_eq:
  assumes inv: "owner_inv ow"
  shows "vireo_timer_handle_owner_validate (Some ow) h =
    (if h \<in> owner_live ow then VIREO_OK
     else if h = zero_handle then VIREO_RESULT_NOT_FOUND
     else if th_owner_id h = 0 \<or> th_generation h = 0 \<or> th_owner_id h \<noteq> ho_owner_id ow then VIREO_RESULT_INVALID_ARGUMENT
     else if th_slot_index h \<ge> ho_capacity ow then VIREO_RESULT_RANGE
     else VIREO_RESULT_NOT_FOUND)"
  using owner_live_issued [OF inv, of h]
  by (cases h) (auto simp: vireo_timer_handle_owner_validate_def vireo_timer_handle_is_empty_def handle_has_valid_shape_def
      Let_def owner_live_def zero_handle_def not_le)

lemma owner_release_eq:
  assumes inv: "owner_inv ow"
  shows "vireo_timer_handle_owner_release (Some ow) (Some h) =
    (if h \<in> owner_live ow then (VIREO_OK, Some (owner_released h ow), Some zero_handle)
     else (vireo_timer_handle_owner_validate (Some ow) h, Some ow, Some h))"
  by (auto simp: vireo_timer_handle_owner_release_def owner_validate_eq [OF inv] owner_released_def Let_def)

lemma owner_acquired_inv:
  assumes inv: "owner_inv ow" and gen: "ho_last_generation ow \<noteq> UINT64_MAX" and head: "ho_free_head ow \<noteq> SIZE_MAX"
  shows "owner_inv (owner_acquired ow)"
    and "owner_live (owner_acquired ow) = insert \<lparr>th_owner_id = ho_owner_id ow, th_slot_index = ho_free_head ow,
      th_generation = ho_last_generation ow + 1\<rparr> (owner_live ow)"
    and "unat (ho_free_head ow) < length (ho_slots ow)" and "\<not> os_active (ho_slots ow ! unat (ho_free_head ow))"
proof -
  have sl: "slots_inv os_active os_next_free (ho_slots ow) (ho_free_head ow) (ho_active_count ow)"
    and len: "length (ho_slots ow) = unat (ho_capacity ow)"
    using inv by (simp_all add: owner_inv_def)
  note t = slots_take [OF sl head]
  show i: "unat (ho_free_head ow) < length (ho_slots ow)" "\<not> os_active (ho_slots ow ! unat (ho_free_head ow))" using t by simp_all
  have g: "ho_last_generation ow + 1 \<noteq> 0" "ho_last_generation ow \<le> ho_last_generation ow + 1"
    using next_generation_greater [OF gen] by (auto simp: word_le_nat_alt word_unat_eq_iff)
  show "owner_inv (owner_acquired ow)"
    using inv g t(3) by (auto simp: owner_inv_def owner_acquired_def Let_def dest!: set_update_subset_insert [THEN subsetD])
  show "owner_live (owner_acquired ow) = insert \<lparr>th_owner_id = ho_owner_id ow, th_slot_index = ho_free_head ow,
      th_generation = ho_last_generation ow + 1\<rparr> (owner_live ow)"
    using i len
    by (auto simp: owner_live_def owner_acquired_def Let_def nth_list_update word_less_nat_alt
        word_unat_eq_iff [symmetric] split: if_splits intro!: vireo_timer_handle.equality)
qed

lemma owner_released_inv:
  assumes inv: "owner_inv ow" and h: "h \<in> owner_live ow"
  shows "owner_inv (owner_released h ow)" and "owner_live (owner_released h ow) = owner_live ow - {h}"
    and "ho_active_count ow \<noteq> 0"
proof -
  have sl: "slots_inv os_active os_next_free (ho_slots ow) (ho_free_head ow) (ho_active_count ow)"
    and len: "length (ho_slots ow) = unat (ho_capacity ow)"
    using inv by (simp_all add: owner_inv_def)
  have i: "unat (th_slot_index h) < length (ho_slots ow)" "os_active (ho_slots ow ! unat (th_slot_index h))"
    using owner_live_issued(2) [OF inv h] h by (simp_all add: owner_live_def)
  note g = slots_give [OF sl i]
  show "ho_active_count ow \<noteq> 0"
    using g(2) [of "(ho_slots ow ! unat (th_slot_index h))\<lparr>os_active := False, os_next_free := ho_free_head ow\<rparr>"] by simp
  show "owner_inv (owner_released h ow)"
    using inv g(1) [of "(ho_slots ow ! unat (th_slot_index h))\<lparr>os_active := False, os_next_free := ho_free_head ow\<rparr>"]
    by (auto simp: owner_inv_def owner_released_def Let_def dest!: set_update_subset_insert [THEN subsetD])
  show "owner_live (owner_released h ow) = owner_live ow - {h}"
    using i len h
    by (auto simp: owner_live_def owner_released_def Let_def nth_list_update word_less_nat_alt
        word_unat_eq_iff [symmetric] split: if_splits intro!: vireo_timer_handle.equality)
qed

interpretation timer_leases: lease_table owner_inv owner_live owner_issued owner_take owner_give
proof unfold_locales
  fix p p' :: vireo_timer_handle_owner and l rc
  assume inv: "owner_inv p"
  have take_eq: "owner_take p = (rc, p', l) \<Longrightarrow> rc = VIREO_OK \<Longrightarrow>
      ho_last_generation p \<noteq> UINT64_MAX \<and> ho_free_head p \<noteq> SIZE_MAX \<and> p' = owner_acquired p \<and>
      l = \<lparr>th_owner_id = ho_owner_id p, th_slot_index = ho_free_head p, th_generation = ho_last_generation p + 1\<rparr>"
    and take_fails: "owner_take p = (rc, p', l) \<Longrightarrow> rc \<noteq> VIREO_OK \<Longrightarrow> p' = p" for rc
    by (auto simp: owner_take_def owner_acquire_eq split: if_splits)
  show "owner_live p \<subseteq> owner_issued p" using owner_live_issued(1) [OF inv] by blast
  show "p' = p" if "owner_take p = (rc, p', l)" "rc \<noteq> VIREO_OK" using take_fails [OF that] .
  show "owner_inv p'" if "owner_take p = (rc, p', l)"
    using take_eq [OF that] take_fails [OF that] owner_acquired_inv(1) [OF inv] inv by (cases "rc = VIREO_OK") auto
  show "l \<notin> owner_issued p \<and> owner_live p' = insert l (owner_live p) \<and> insert l (owner_issued p) \<subseteq> owner_issued p'"
    if "owner_take p = (VIREO_OK, p', l)"
  proof -
    note t = take_eq [OF that refl]
    have g: "unat (ho_last_generation p + 1) = unat (ho_last_generation p) + 1" using t next_generation_greater by blast
    then have "ho_last_generation p + 1 \<noteq> 0" by (metis Suc_eq_plus1 nat.simps(3) unat_0)
    then show ?thesis
      using t owner_acquired_inv(2) [OF inv] g
      by (auto simp: owner_issued_def owner_acquired_def Let_def word_le_nat_alt)
  qed
  show "owner_inv p'" if "owner_give l p = (rc, p')"
    using that inv owner_released_inv(1) [OF inv, of l] by (auto simp: owner_give_def owner_release_eq split: if_splits)
  show "(rc = VIREO_OK \<longleftrightarrow> l \<in> owner_live p) \<and> owner_live p' = owner_live p - {l} \<and> owner_issued p' = owner_issued p"
    if "owner_give l p = (rc, p')"
  proof (cases "l \<in> owner_live p")
    case True
    then have eq: "rc = VIREO_OK" "p' = owner_released l p"
      using that by (simp_all add: owner_give_def owner_release_eq [OF inv])
    have "owner_issued (owner_released l p) = owner_issued p" by (simp add: owner_issued_def owner_released_def Let_def)
    then show ?thesis using eq True owner_released_inv(2) [OF inv True] by simp
  next
    case False
    then have "vireo_timer_handle_owner_validate (Some p) l \<noteq> VIREO_OK" by (simp add: owner_validate_eq [OF inv])
    moreover have "rc = vireo_timer_handle_owner_validate (Some p) l" "p' = p"
      using that False by (auto simp: owner_give_def owner_release_eq [OF inv])
    ultimately show ?thesis using False by simp
  qed
qed

lemma owner_count_live:
  assumes inv: "owner_inv ow"
  shows "unat (ho_active_count ow) = card (owner_live ow)" and "ho_active_count ow = 0 \<longleftrightarrow> owner_live ow = {}"
proof -
  let ?h = "\<lambda>i. \<lparr>th_owner_id = ho_owner_id ow, th_slot_index = word_of_nat i, th_generation = os_generation (ho_slots ow ! i)\<rparr>"
  let ?A = "{i. i < length (ho_slots ow) \<and> os_active (ho_slots ow ! i)}"
  have len: "length (ho_slots ow) = unat (ho_capacity ow)" using inv by (simp add: owner_inv_def)
  have idx: "unat (word_of_nat i :: size_t) = i" if "i < length (ho_slots ow)" for i
    using that len unat_lt_64 [of "ho_capacity ow"] by (simp add: unat_of_nat)
  have "owner_live ow = ?h ` ?A"
  proof (intro set_eqI iffI)
    fix h assume "h \<in> owner_live ow"
    then show "h \<in> ?h ` ?A" using len
      by (intro image_eqI [of _ _ "unat (th_slot_index h)"]) (auto simp: owner_live_def word_less_nat_alt)
  next
    fix h assume "h \<in> ?h ` ?A"
    then show "h \<in> owner_live ow" using len idx by (auto simp: owner_live_def word_less_nat_alt)
  qed
  moreover have "inj_on ?h ?A" using idx by (auto simp: inj_on_def dest: arg_cong [of _ _ unat])
  ultimately show c: "unat (ho_active_count ow) = card (owner_live ow)"
    using slots_count_used [of os_active os_next_free "ho_slots ow" "ho_free_head ow" "ho_active_count ow"] inv
    by (simp add: card_image owner_inv_def)
  have "finite (owner_live ow)" using \<open>owner_live ow = ?h ` ?A\<close> by simp
  then show "ho_active_count ow = 0 \<longleftrightarrow> owner_live ow = {}" using c by (metis card_eq_0_iff unat_eq_zero)
qed

lemma reserve_identity_OK:
  "reserve_identity races src out = (VIREO_OK, identity, src') \<Longrightarrow> identity \<noteq> 0"
proof (induction races arbitrary: src)
  case Nil
  then show ?case using next_generation_greater [of src]
    by (auto simp: reserve_identity.simps vireo_timer_handle_next_generation_def next_generation word_unat_eq_iff split: if_splits)
next
  case (Cons r races)
  then show ?case by (simp add: reserve_identity.simps [of "r # races"] vireo_timer_handle_next_generation_def next_generation
      split: if_splits)
qed

lemma owner_slots_initial:
  assumes "cap \<noteq> 0" and "cap \<le> 65536"
  shows "slots_inv os_active os_next_free (owner_slots_init cap) 0 0" and "length (owner_slots_init cap) = unat cap"
    and "\<forall>s \<in> set (owner_slots_init cap). \<not> os_active s"
proof -
  have n: "0 < unat cap" "unat cap \<le> 65536" using assms by (simp_all add: unat_gt_0 word_le_nat_alt)
  have fin: "unat (cap - 1) = unat cap - 1" using assms(1) by (simp add: unat_minus_one)
  show len: "length (owner_slots_init cap) = unat cap" by (simp add: owner_slots_init_def Let_def)
  have at: "owner_slots_init cap ! i = \<lparr>os_generation = 0,
      os_next_free = (if Suc i = unat cap then SIZE_MAX else word_of_nat i + 1), os_active = False\<rparr>"
    if "i < unat cap" for i
    using that n fin by (auto simp: owner_slots_init_def Let_def nth_list_update)
  show "\<forall>s \<in> set (owner_slots_init cap). \<not> os_active s" using at len by (auto simp: in_set_conv_nth)
  show "slots_inv os_active os_next_free (owner_slots_init cap) 0 0"
    using n len at by (intro slots_initial) (auto simp: add.commute)
qed

definition owner_blocks :: "vireo_timer_handle_owner \<Rightarrow> (nat \<times> nat) set" where
  "owner_blocks ow = {(ho_self ow, 88), (ho_slots_block ow, 24 * unat (ho_capacity ow))}"

lemma owner_create_OK:
  assumes wf: "heap_wf h"
    and run: "vireo_timer_handle_owner_create (Some opts) (Some None) races src h = (VIREO_OK, Some (Some ow), src', h')"
  shows "owner_inv ow" and "owner_live ow = {}" and "ho_capacity ow = oo_capacity opts"
    and "ho_max_memory_bytes ow = oo_max_memory_bytes opts"
    and "unat (ho_allocation_bytes ow) = 88 + 24 * unat (oo_capacity opts)"
    and "ho_allocation_bytes ow \<le> oo_max_memory_bytes opts"
    and "oo_capacity opts \<noteq> 0" and "oo_capacity opts \<le> 65536" and "heap_wf h'"
    and "set (heap_live h') = owner_blocks ow \<union> set (heap_live h)" and "ho_self ow \<noteq> ho_slots_block ow"
    and "heap_calls h \<le> ho_self ow" and "heap_calls h \<le> ho_slots_block ow"
    and "ho_self ow < heap_calls h'" and "ho_slots_block ow < heap_calls h'"
proof -
  let ?cap = "oo_capacity opts"
  obtain ident counter h1 b1 b2 where c: "?cap \<noteq> 0" "oo_max_memory_bytes opts \<noteq> 0" "unat ?cap * 24 < 2 ^ 64"
      "unat (88 :: size_t) + unat (?cap * 24) < 2 ^ 64" "\<not> ?cap > 65536" "\<not> 88 + ?cap * 24 > oo_max_memory_bytes opts"
    and id: "reserve_identity races src 0 = (VIREO_OK, ident, counter)"
    and a: "allocate_default h 88 = (Some b1, h1)" "allocate_default h1 (?cap * 24) = (Some b2, h')"
    and ow: "ow = \<lparr>ho_slots = owner_slots_init ?cap, ho_slots_block = b2, ho_capacity = ?cap, ho_free_head = 0,
      ho_active_count = 0, ho_allocation_bytes = 88 + ?cap * 24, ho_max_memory_bytes = oo_max_memory_bytes opts,
      ho_owner_id = ident, ho_last_generation = 0, ho_self = b1\<rparr>"
    using run by (auto simp: vireo_timer_handle_owner_create_def vireo_timer_handle_owner_create_runtime_def Let_def
        size_mul_Some size_add_Some not_less split: if_splits prod.splits option.splits)
  have cap: "?cap \<le> 65536" using c(5) by simp
  then have le: "unat ?cap \<le> 65536" by (simp add: word_le_nat_alt)
  have n: "unat (?cap * 24) = unat ?cap * 24" using unat_mult_less [of ?cap 24] c(3) by simp
  have tot: "unat (88 + ?cap * 24) = 88 + unat ?cap * 24" using unat_add_less [of 88 "?cap * 24"] c(4) n by simp
  show "oo_capacity opts \<noteq> 0" "oo_capacity opts \<le> 65536" using c(1) cap .
  note init = owner_slots_initial [OF c(1) cap]
  show "owner_inv ow" using init reserve_identity_OK [OF id] by (simp add: owner_inv_def ow)
  have "\<not> os_active (owner_slots_init ?cap ! i)" if "i < unat ?cap" for i using init(2,3) that by (metis nth_mem)
  then show "owner_live ow = {}" by (auto simp: owner_live_def ow word_less_nat_alt)
  show "ho_capacity ow = ?cap" "ho_max_memory_bytes ow = oo_max_memory_bytes opts"
    "unat (ho_allocation_bytes ow) = 88 + 24 * unat ?cap" "ho_allocation_bytes ow \<le> oo_max_memory_bytes opts"
    using c(6) tot by (simp_all add: ow not_less)
  note s1 = allocate_Some [OF a(1)] and s2 = allocate_Some [OF a(2)]
  show "heap_wf h'" using allocate_wf [OF allocate_wf [OF wf a(1)] a(2)] .
  show "set (heap_live h') = owner_blocks ow \<union> set (heap_live h)" "ho_self ow \<noteq> ho_slots_block ow"
    "heap_calls h \<le> ho_self ow" "heap_calls h \<le> ho_slots_block ow" "ho_self ow < heap_calls h'" "ho_slots_block ow < heap_calls h'"
    using s1 s2 n by (auto simp: owner_blocks_def ow)
qed

lemma owner_create_fails:
  assumes "heap_wf h" and "vireo_timer_handle_owner_create opts (Some None) races src h = (rc, out, src', h')" and "rc \<noteq> VIREO_OK"
  shows "out = Some None \<and> heap_live h' = heap_live h \<and> heap_wf h' \<and> heap_calls h \<le> heap_calls h'"
proof -
  have fresh: "filter (\<lambda>(x, _). x \<noteq> heap_calls h) (heap_live h) = heap_live h" by (rule filter_fresh_block [OF assms(1)]) simp
  have wf: "heap_wf (h\<lparr>heap_calls := Suc (heap_calls h)\<rparr>)" "heap_wf (h\<lparr>heap_calls := Suc (Suc (heap_calls h)), heap_released := r\<rparr>)" for r
    using assms(1) by (auto simp: heap_wf_def less_Suc_eq)
  show ?thesis
    using assms wf
    by (auto simp: vireo_timer_handle_owner_create_def vireo_timer_handle_owner_create_runtime_def Let_def
        allocate_default_def deallocate_default_def fresh split: if_splits prod.splits)
qed

end
