(* ===== verification/Timer_Links.thy ===== *)
theory Timer_Links
  imports Main
begin

text \<open>
  The intrusive, circular, doubly linked lists of the timing wheel (the static helpers of
  \<^verbatim>\<open>src/timer/wheel_registry.c\<close> and \<^verbatim>\<open>src/timer/wheel_advance.c\<close>). A link lives inside a bucket head,
  one of the two list heads of the wheel, or a timer node; \<open>link_ref\<close> is its address and the store
  maps addresses to links, so aliasing between a node and its neighbours is as in the code.
  \<open>ring lk h xs\<close> says that from the head \<open>h\<close> the list reads \<open>xs\<close>, in both directions.
\<close>

datatype link_ref = Bucket nat | Pending | Ready | Node nat

record vireo_timer_wheel_link =
  lk_prev :: link_ref
  lk_next :: link_ref

type_synonym links = "link_ref \<Rightarrow> vireo_timer_wheel_link"

definition set_prev :: "link_ref \<Rightarrow> link_ref \<Rightarrow> links \<Rightarrow> links" where
  "set_prev a v lk = lk(a := (lk a)\<lparr>lk_prev := v\<rparr>)"

definition set_next :: "link_ref \<Rightarrow> link_ref \<Rightarrow> links \<Rightarrow> links" where
  "set_next a v lk = lk(a := (lk a)\<lparr>lk_next := v\<rparr>)"

definition link_detach :: "link_ref \<Rightarrow> links \<Rightarrow> links" where
  "link_detach link lk =
     (let lk = set_next (lk_prev (lk link)) (lk_next (lk link)) lk;
          lk = set_prev (lk_next (lk link)) (lk_prev (lk link)) lk;
          lk = set_prev link link lk
      in set_next link link lk)"

definition link_restore :: "link_ref \<Rightarrow> link_ref \<Rightarrow> link_ref \<Rightarrow> links \<Rightarrow> links" where
  "link_restore link prev nxt lk =
     (let lk = set_prev link prev lk;
          lk = set_next link nxt lk;
          lk = set_next prev link lk
      in set_prev nxt link lk)"

definition link_append :: "link_ref \<Rightarrow> link_ref \<Rightarrow> links \<Rightarrow> links" where
  "link_append head link lk =
     (let lk = set_prev link (lk_prev (lk head)) lk;
          lk = set_next link head lk;
          lk = set_next (lk_prev (lk head)) link lk
      in set_prev head link lk)"

definition snapshot_bucket :: "link_ref \<Rightarrow> link_ref \<Rightarrow> links \<Rightarrow> links" where
  "snapshot_bucket pending bucket lk =
     (if lk_next (lk bucket) = bucket then lk
      else
        let lk = set_next pending (lk_next (lk bucket)) lk;
            lk = set_prev pending (lk_prev (lk bucket)) lk;
            lk = set_prev (lk_next (lk pending)) pending lk;
            lk = set_next (lk_prev (lk pending)) pending lk;
            lk = set_prev bucket bucket lk
        in set_next bucket bucket lk)"

lemma set_link_simps [simp]:
  "lk_prev (set_prev a v lk b) = (if b = a then v else lk_prev (lk b))"
  "lk_next (set_prev a v lk b) = lk_next (lk b)"
  "lk_next (set_next a v lk b) = (if b = a then v else lk_next (lk b))"
  "lk_prev (set_next a v lk b) = lk_prev (lk b)"
  by (simp_all add: set_prev_def set_next_def)

lemma links_eqI:
  fixes lk lk' :: links
  shows "(\<And>a. lk_prev (lk a) = lk_prev (lk' a)) \<Longrightarrow> (\<And>a. lk_next (lk a) = lk_next (lk' a)) \<Longrightarrow> lk = lk'"
  by (auto intro!: ext vireo_timer_wheel_link.equality)

subsection \<open>Rings\<close>

definition adjacent :: "links \<Rightarrow> link_ref \<Rightarrow> link_ref \<Rightarrow> bool" where
  "adjacent lk x y \<longleftrightarrow> lk_next (lk x) = y \<and> lk_prev (lk y) = x"

definition ring :: "links \<Rightarrow> link_ref \<Rightarrow> link_ref list \<Rightarrow> bool" where
  "ring lk h xs \<longleftrightarrow> successively (adjacent lk) (h # xs @ [h]) \<and> distinct (h # xs)"

lemma successively_weaken:
  "successively P xs \<Longrightarrow> (\<And>x y. x \<in> set (butlast xs) \<Longrightarrow> y \<in> set (tl xs) \<Longrightarrow> P x y \<Longrightarrow> Q x y) \<Longrightarrow> successively Q xs"
proof (induction xs rule: induct_list012)
  case (3 x y zs)
  have "successively Q (y # zs)"
  proof (rule "3.IH"(2))
    fix a b assume ab: "a \<in> set (butlast (y # zs))" "b \<in> set (tl (y # zs))" "P a b"
    then show "Q a b" by (intro "3.prems"(2)) simp_all
  qed (use "3.prems"(1) in simp)
  then show ?case using "3.prems" by simp
qed simp_all

lemma ring_split:
  "ring lk h (xs @ l # ys) \<longleftrightarrow> successively (adjacent lk) (h # xs) \<and> adjacent lk (last (h # xs)) l \<and>
     adjacent lk l (hd (ys @ [h])) \<and> successively (adjacent lk) (ys @ [h]) \<and> distinct (h # xs @ l # ys)"
proof -
  have "successively (adjacent lk) ((h # xs) @ [l] @ (ys @ [h])) \<longleftrightarrow>
      successively (adjacent lk) (h # xs) \<and> adjacent lk (last (h # xs)) l \<and>
      adjacent lk l (hd (ys @ [h])) \<and> successively (adjacent lk) (ys @ [h])"
    unfolding successively_append_iff by auto
  then show ?thesis by (simp add: ring_def)
qed

lemma ring_join:
  "ring lk h (xs @ ys) \<longleftrightarrow> successively (adjacent lk) (h # xs) \<and> adjacent lk (last (h # xs)) (hd (ys @ [h])) \<and>
     successively (adjacent lk) (ys @ [h]) \<and> distinct (h # xs @ ys)"
proof -
  have "successively (adjacent lk) ((h # xs) @ (ys @ [h])) \<longleftrightarrow>
      successively (adjacent lk) (h # xs) \<and> adjacent lk (last (h # xs)) (hd (ys @ [h])) \<and>
      successively (adjacent lk) (ys @ [h])"
    unfolding successively_append_iff by auto
  then show ?thesis by (simp add: ring_def)
qed

lemma distinct_butlast_last: "xs \<noteq> [] \<Longrightarrow> distinct xs \<Longrightarrow> last xs \<notin> set (butlast xs)"
  by (metis append_butlast_last_id distinct_append disjoint_insert(1) list.set(2))

lemma ring_self: "ring lk a [] \<longleftrightarrow> lk_next (lk a) = a \<and> lk_prev (lk a) = a"
  by (auto simp: ring_def adjacent_def)

lemma ring_ends:
  assumes "ring lk h xs"
  shows "lk_prev (lk h) = last (h # xs)" and "lk_next (lk h) = hd (xs @ [h])"
    and "successively (adjacent lk) (h # xs)" and "successively (adjacent lk) (xs @ [h])"
    and "successively (adjacent lk) xs"
proof -
  show "lk_prev (lk h) = last (h # xs)" and s: "successively (adjacent lk) (h # xs)"
    using assms ring_join [of lk h xs "[]"] by (simp_all add: adjacent_def)
  show "lk_next (lk h) = hd (xs @ [h])" "successively (adjacent lk) (xs @ [h])"
    using assms ring_join [of lk h "[]" xs] by (simp_all add: adjacent_def)
  show "successively (adjacent lk) xs" using s by (auto simp: successively_Cons)
qed

lemma ring_distinct: "ring lk h xs \<Longrightarrow> distinct (h # xs)"
  by (simp add: ring_def)

lemma ring_Nil_iff:
  assumes "ring lk h xs"
  shows "lk_next (lk h) = h \<longleftrightarrow> xs = []" and "lk_prev (lk h) = h \<longleftrightarrow> xs = []"
  using ring_ends(1,2) [OF assms] ring_distinct [OF assms] last_in_set [of xs] by (cases xs; auto)+

lemma ring_first: "ring lk h (x # xs) \<Longrightarrow> lk_next (lk h) = x"
  by (simp add: ring_ends(2))

lemma ring_frame: "ring lk h xs \<Longrightarrow> (\<And>a. a \<in> set (h # xs) \<Longrightarrow> lk' a = lk a) \<Longrightarrow> ring lk' h xs"
  unfolding ring_def by (auto simp: adjacent_def elim!: successively_weaken split: if_splits dest: in_set_butlastD)

lemma detach_ring:
  assumes "ring lk h (xs @ l # ys)"
  shows "ring (link_detach l lk) h (xs @ ys)" and "ring (link_detach l lk) l []"
    and "a \<notin> set (h # xs @ l # ys) \<Longrightarrow> link_detach l lk a = lk a"
    and "link_restore l (lk_prev (lk l)) (lk_next (lk l)) (link_detach l lk) = lk"
proof -
  let ?p = "last (h # xs)" and ?n = "hd (ys @ [h])"
  note r = assms [unfolded ring_split]
  have pn: "lk_prev (lk l) = ?p" "lk_next (lk l) = ?n" "lk_next (lk ?p) = l" "lk_prev (lk ?n) = l"
    using r by (simp_all add: adjacent_def)
  have p: "?p \<in> set (h # xs)" by (rule last_in_set) simp
  have n: "?n \<in> set (ys @ [h])" by (rule hd_in_set) simp
  have pl: "?p \<noteq> l" "?n \<noteq> l" using p n r by auto
  have nx: "lk_next (link_detach l lk x) = (if x = l then l else if x = ?p then ?n else lk_next (lk x))" for x
    using pl pn by (auto simp: link_detach_def Let_def)
  have pv: "lk_prev (link_detach l lk x) = (if x = l then l else if x = ?n then ?p else lk_prev (lk x))" for x
    using pl pn by (auto simp: link_detach_def Let_def)
  have A: "successively (adjacent (link_detach l lk)) (h # xs)"
  proof (rule successively_weaken [of "adjacent lk"])
    fix x y assume xy: "x \<in> set (butlast (h # xs))" "y \<in> set (tl (h # xs))" "adjacent lk x y"
    have "x \<noteq> ?p"
      using xy(1) r distinct_butlast_last [of "h # xs"] by auto
    moreover have "y \<noteq> ?n" using xy(2) r n by (cases ys) auto
    moreover have "x \<noteq> l" "y \<noteq> l" using in_set_butlastD [OF xy(1)] xy(2) r by auto
    ultimately show "adjacent (link_detach l lk) x y" using xy(3) nx pv by (simp add: adjacent_def)
  qed (use r in simp)
  have B: "successively (adjacent (link_detach l lk)) (ys @ [h])"
  proof (rule successively_weaken [of "adjacent lk"])
    fix x y assume xy: "x \<in> set (butlast (ys @ [h]))" "y \<in> set (tl (ys @ [h]))" "adjacent lk x y"
    have "x \<noteq> ?p" using xy(1) r p by (cases xs rule: rev_cases) auto
    moreover have "y \<noteq> ?n" using xy(2) r by (cases ys) auto
    moreover have "x \<noteq> l" "y \<noteq> l" using xy(1,2) r by (cases ys; auto)+
    ultimately show "adjacent (link_detach l lk) x y" using xy(3) nx pv by (simp add: adjacent_def)
  qed (use r in simp)
  have "adjacent (link_detach l lk) ?p ?n" using nx pv pl by (simp add: adjacent_def)
  then show "ring (link_detach l lk) h (xs @ ys)" using A B r by (simp add: ring_join)
  show "ring (link_detach l lk) l []" using nx pv by (simp add: ring_self)
  show "link_detach l lk a = lk a" if "a \<notin> set (h # xs @ l # ys)"
  proof (rule vireo_timer_wheel_link.equality)
    have "a \<noteq> l" "a \<noteq> ?p" "a \<noteq> ?n" using that p n by auto
    then show "lk_prev (link_detach l lk a) = lk_prev (lk a)" "lk_next (link_detach l lk a) = lk_next (lk a)"
      using nx pv by simp_all
  qed simp
  show "link_restore l (lk_prev (lk l)) (lk_next (lk l)) (link_detach l lk) = lk"
    by (rule links_eqI) (use nx pv pn pl in \<open>auto simp: link_restore_def Let_def\<close>)
qed

lemma append_ring:
  assumes h: "ring lk h xs" and l: "l \<notin> set (h # xs)"
  shows "ring (link_append h l lk) h (xs @ [l])"
    and "a \<notin> set (h # l # xs) \<Longrightarrow> link_append h l lk a = lk a"
proof -
  let ?p = "last (h # xs)"
  have ends: "lk_prev (lk h) = ?p" "distinct (h # xs)" "successively (adjacent lk) (h # xs)"
    using ring_ends [OF h] ring_distinct [OF h] by simp_all
  have p: "?p \<in> set (h # xs)" by (rule last_in_set) simp
  then have pl: "?p \<noteq> l" "h \<noteq> l" using l by auto
  have nx: "lk_next (link_append h l lk x) = (if x = ?p then l else if x = l then h else lk_next (lk x))" for x
    using pl ends(1) by (auto simp: link_append_def Let_def)
  have pv: "lk_prev (link_append h l lk x) = (if x = h then l else if x = l then ?p else lk_prev (lk x))" for x
    using pl ends(1) by (auto simp: link_append_def Let_def)
  have A: "successively (adjacent (link_append h l lk)) (h # xs)"
  proof (rule successively_weaken [OF ends(3)])
    fix x y assume xy: "x \<in> set (butlast (h # xs))" "y \<in> set (tl (h # xs))" "adjacent lk x y"
    have "x \<noteq> ?p"
      using xy(1) ends(2) distinct_butlast_last [of "h # xs"] by auto
    moreover have "y \<noteq> h" using xy(2) ends(2) by auto
    moreover have "x \<noteq> l" "y \<noteq> l" using in_set_butlastD [OF xy(1)] xy(2) l by auto
    ultimately show "adjacent (link_append h l lk) x y" using xy(3) nx pv by (simp add: adjacent_def)
  qed
  have "adjacent (link_append h l lk) ?p l" "adjacent (link_append h l lk) l h" using nx pv pl by (auto simp: adjacent_def)
  then show "ring (link_append h l lk) h (xs @ [l])" using A ends(2) l by (auto simp: ring_split)
  show "link_append h l lk a = lk a" if "a \<notin> set (h # l # xs)"
  proof (rule vireo_timer_wheel_link.equality)
    have "a \<noteq> l" "a \<noteq> ?p" "a \<noteq> h" using that p by auto
    then show "lk_prev (link_append h l lk a) = lk_prev (lk a)" "lk_next (link_append h l lk a) = lk_next (lk a)"
      using nx pv by simp_all
  qed simp
qed

lemma snapshot_nonempty:
  assumes b: "ring lk b xs" and xs: "xs \<noteq> []" and ne: "p \<noteq> b" and notin: "p \<notin> set xs"
  shows "ring (snapshot_bucket p b lk) p xs" and "ring (snapshot_bucket p b lk) b []"
    and "\<And>a. a \<notin> set (p # b # xs) \<Longrightarrow> snapshot_bucket p b lk a = lk a"
proof -
  have e: "lk_prev (lk b) = last xs" "lk_next (lk b) = hd xs" "lk_next (lk b) \<noteq> b" "distinct (b # xs)"
    "successively (adjacent lk) xs"
    using ring_ends [OF b] ring_Nil_iff [OF b] ring_distinct [OF b] xs by simp_all
  have mem: "hd xs \<in> set xs" "last xs \<in> set xs" using xs by simp_all
  then have neq: "hd xs \<noteq> p" "hd xs \<noteq> b" "last xs \<noteq> p" "last xs \<noteq> b" using notin e(4) by auto
  have nx: "lk_next (snapshot_bucket p b lk x) =
      (if x = p then hd xs else if x = last xs then p else if x = b then b else lk_next (lk x))" for x
    using e(1-3) neq ne by (auto simp: snapshot_bucket_def Let_def)
  have pv: "lk_prev (snapshot_bucket p b lk x) =
      (if x = p then last xs else if x = hd xs then p else if x = b then b else lk_prev (lk x))" for x
    using e(1-3) neq ne by (auto simp: snapshot_bucket_def Let_def)
  have A: "successively (adjacent (snapshot_bucket p b lk)) xs"
  proof (rule successively_weaken [OF e(5)])
    fix x y assume xy: "x \<in> set (butlast xs)" "y \<in> set (tl xs)" "adjacent lk x y"
    have "x \<noteq> last xs" using xy(1) e(4) distinct_butlast_last [OF xs] by auto
    moreover have "y \<noteq> hd xs" using xy(2) e(4) xs by (cases xs) auto
    moreover have "x \<noteq> p" "x \<noteq> b" "y \<noteq> p" "y \<noteq> b" using xy(1,2) e(4) notin xs by (auto dest: in_set_butlastD list.set_sel(2))
    ultimately show "adjacent (snapshot_bucket p b lk) x y" using xy(3) nx pv by (simp add: adjacent_def)
  qed
  have "adjacent (snapshot_bucket p b lk) p (hd xs)" "adjacent (snapshot_bucket p b lk) (last xs) p"
    using nx pv neq by (auto simp: adjacent_def)
  then show "ring (snapshot_bucket p b lk) p xs" using A xs e(4) notin
    by (simp add: ring_def successively_append_iff successively_Cons)
  show "ring (snapshot_bucket p b lk) b []" using nx pv ne neq by (simp add: ring_self)
  show "snapshot_bucket p b lk a = lk a" if "a \<notin> set (p # b # xs)" for a
  proof (rule vireo_timer_wheel_link.equality)
    have "a \<noteq> p" "a \<noteq> b" "a \<noteq> hd xs" "a \<noteq> last xs" using that mem by auto
    then show "lk_prev (snapshot_bucket p b lk a) = lk_prev (lk a)" "lk_next (snapshot_bucket p b lk a) = lk_next (lk a)"
      using nx pv by simp_all
  qed simp
qed

lemma snapshot_ring:
  assumes p: "ring lk p []" and b: "ring lk b xs" and ne: "p \<noteq> b" and notin: "p \<notin> set xs"
  shows "ring (snapshot_bucket p b lk) p xs" and "ring (snapshot_bucket p b lk) b []"
    and "a \<notin> set (p # b # xs) \<Longrightarrow> snapshot_bucket p b lk a = lk a"
proof -
  have "ring (snapshot_bucket p b lk) p xs \<and> ring (snapshot_bucket p b lk) b [] \<and>
      (\<forall>a. a \<notin> set (p # b # xs) \<longrightarrow> snapshot_bucket p b lk a = lk a)"
  proof (cases "xs = []")
    case True
    then show ?thesis using p b ring_Nil_iff [OF b] by (simp add: snapshot_bucket_def)
  next
    case False
    then show ?thesis using snapshot_nonempty [OF b _ ne notin] by blast
  qed
  then show "ring (snapshot_bucket p b lk) p xs" "ring (snapshot_bucket p b lk) b []"
    "a \<notin> set (p # b # xs) \<Longrightarrow> snapshot_bucket p b lk a = lk a" by blast+
qed

end
