(* ===== verification/Timer_Wheel.thy ===== *)
theory Timer_Wheel
  imports Timer_Time Timer_Handle Timer_Links
begin

text \<open>
  The timing wheel: \<^verbatim>\<open>src/timer/wheel.c\<close> (creation, destruction), \<^verbatim>\<open>wheel_registry.c\<close> (register, cancel,
  rearm), \<^verbatim>\<open>wheel_advance.c\<close> (bounded advance, expiry) and \<^verbatim>\<open>wheel_shutdown.c\<close>. The links of all list
  heads and nodes are one store (\<open>wh_links\<close>); the node array holds the rest of each node and is
  \<open>None\<close> while the pointer is NULL. \<open>wh_self\<close>, \<open>wh_buckets\<close> and \<open>wh_nodes_block\<close> are the blocks of
  the wheel. The owner callbacks of the \<^verbatim>\<open>_runtime\<close> entry points are function arguments (\<open>None\<close> for
  NULL). \<open>timer_env\<close> is the process-wide state the owner factory works on.
\<close>

record timer_env =
  te_last_owner_id :: u64
  te_heap :: vireo_heap

record vireo_timer_wheel_options =
  wo_geometry :: vireo_timer_wheel_geometry
  wo_max_memory_bytes :: size_t

record vireo_timer_wheel_info =
  wi_geometry :: vireo_timer_wheel_geometry
  wi_allocation_bytes :: size_t
  wi_max_memory_bytes :: size_t

record vireo_timer_wheel_allocator =
  wa_allocate :: bool
  wa_deallocate :: bool

record vireo_timer_wheel_node =
  wn_handle :: vireo_timer_handle
  wn_deadline_ns :: vireo_monotonic_ns
  wn_due_tick :: vireo_timer_wheel_tick
  wn_bucket_index :: size_t
  wn_ready :: bool

record vireo_timer_wheel =
  wh_geometry :: vireo_timer_wheel_geometry
  wh_buckets :: nat
  wh_links :: links
  wh_bucket_count :: size_t
  wh_allocation_bytes :: size_t
  wh_max_memory_bytes :: size_t
  wh_owner :: "vireo_timer_handle_owner option"
  wh_nodes :: "vireo_timer_wheel_node list option"
  wh_nodes_block :: nat
  wh_timer_capacity :: size_t
  wh_node_bytes :: size_t
  wh_registry_budget :: size_t
  wh_latest_now_ns :: vireo_monotonic_ns
  wh_completed_tick :: vireo_timer_wheel_tick
  wh_processing :: bool
  wh_ready_count :: size_t
  wh_stopping :: bool
  wh_shutdown_cursor :: size_t
  wh_self :: nat

record vireo_timer_wheel_registry_options =
  ro_capacity :: size_t
  ro_max_memory_bytes :: size_t

record vireo_timer_wheel_registry_info =
  ri_prepared :: bool
  ri_capacity :: size_t
  ri_active_count :: size_t
  ri_available_count :: size_t
  ri_allocation_bytes :: size_t
  ri_max_memory_bytes :: size_t

record vireo_timer_wheel_timer_info =
  ti_deadline_ns :: vireo_monotonic_ns
  ti_due_tick :: vireo_timer_wheel_tick
  ti_bucket_index :: u64

record vireo_timer_wheel_advance_budget =
  max_ticks :: size_t
  max_nodes :: size_t

record vireo_timer_wheel_progress =
  wp_latest_now_ns :: vireo_monotonic_ns
  wp_target_tick :: vireo_timer_wheel_tick
  wp_completed_tick :: vireo_timer_wheel_tick
  wp_processing :: bool
  wp_ready_count :: size_t
  wp_caught_up :: bool

record vireo_timer_wheel_advance_report =
  ar_progress :: vireo_timer_wheel_progress
  ar_ticks_started :: size_t
  ar_nodes_examined :: size_t

record vireo_timer_wheel_expired =
  ex_handle :: vireo_timer_handle
  ex_timer :: vireo_timer_wheel_timer_info

record vireo_timer_wheel_shutdown_info =
  si_stopping :: bool
  si_active_count :: size_t
  si_finished :: bool

record vireo_timer_wheel_shutdown_cancelled =
  sc_handle :: vireo_timer_handle
  sc_timer :: vireo_timer_wheel_timer_info

record vireo_timer_wheel_shutdown_report =
  sr_scanned_slots :: size_t
  sr_has_cancelled :: bool
  sr_cancelled :: vireo_timer_wheel_shutdown_cancelled
  sr_remaining_count :: size_t
  sr_finished :: bool

type_synonym vireo_timer_wheel_owner_create_fn =
  "vireo_timer_handle_owner_options \<Rightarrow> timer_env \<Rightarrow> vireo_result \<times> vireo_timer_handle_owner option \<times> timer_env"
type_synonym vireo_timer_wheel_owner_acquire_fn =
  "vireo_timer_handle_owner \<Rightarrow> vireo_timer_handle \<Rightarrow> vireo_result \<times> vireo_timer_handle_owner \<times> vireo_timer_handle"
type_synonym vireo_timer_wheel_owner_release_fn =
  "vireo_timer_handle_owner \<Rightarrow> vireo_timer_handle \<Rightarrow> vireo_result \<times> vireo_timer_handle_owner \<times> vireo_timer_handle"

abbreviation VIREO_TIMER_WHEEL_MAX_BUCKETS :: u64 where "VIREO_TIMER_WHEEL_MAX_BUCKETS \<equiv> 65536"
abbreviation VIREO_TIMER_WHEEL_MAX_MEMORY :: size_t where "VIREO_TIMER_WHEEL_MAX_MEMORY \<equiv> 67108864"
abbreviation VIREO_TIMER_WHEEL_REGISTRY_MAX_CAPACITY :: size_t where "VIREO_TIMER_WHEEL_REGISTRY_MAX_CAPACITY \<equiv> 65536"
abbreviation VIREO_TIMER_WHEEL_REGISTRY_MAX_MEMORY :: size_t where "VIREO_TIMER_WHEEL_REGISTRY_MAX_MEMORY \<equiv> 67108864"
abbreviation VIREO_TIMER_WHEEL_ADVANCE_MAX_BUDGET :: size_t where "VIREO_TIMER_WHEEL_ADVANCE_MAX_BUDGET \<equiv> 65536"
abbreviation VIREO_TIMER_WHEEL_SHUTDOWN_MAX_SLOTS :: size_t where "VIREO_TIMER_WHEEL_SHUTDOWN_MAX_SLOTS \<equiv> 65536"

text \<open>Sizes on LP64.\<close>

abbreviation sizeof_wheel_link :: size_t where "sizeof_wheel_link \<equiv> 16"
abbreviation sizeof_wheel :: size_t where "sizeof_wheel \<equiv> 200"
abbreviation sizeof_wheel_node :: size_t where "sizeof_wheel_node \<equiv> 72"

subsection \<open>Creation and destruction\<close>

definition vireo_timer_wheel_create_runtime ::
  "vireo_timer_wheel_options option \<Rightarrow> vireo_timer_wheel option option \<Rightarrow> vireo_timer_wheel_allocator option \<Rightarrow>
   vireo_heap \<Rightarrow> vireo_result \<times> vireo_timer_wheel option option \<times> vireo_heap" where
  "vireo_timer_wheel_create_runtime options out_wheel allocator heap =
     (if options = None \<or> out_wheel = None \<or> allocator = None \<or> the out_wheel \<noteq> None \<or>
         \<not> wa_allocate (the allocator) \<or> \<not> wa_deallocate (the allocator) \<or>
         tick_ns (wo_geometry (the options)) = 0 \<or> bucket_count (wo_geometry (the options)) = 0 \<or>
         wo_max_memory_bytes (the options) = 0
      then (VIREO_RESULT_INVALID_ARGUMENT, out_wheel, heap)
      else
        let options = the options;
            (result, count) = vireo_checked_u64_to_size (bucket_count (wo_geometry options)) (Some 0) in
        if result \<noteq> VIREO_OK then (result, out_wheel, heap)
        else
        let (result, bucket_bytes) = vireo_checked_size_mul (the count) sizeof_wheel_link (Some 0) in
        if result \<noteq> VIREO_OK then (result, out_wheel, heap)
        else
        let (result, total_bytes) = vireo_checked_size_add sizeof_wheel (the bucket_bytes) (Some 0) in
        if result \<noteq> VIREO_OK then (result, out_wheel, heap)
        else if bucket_count (wo_geometry options) > VIREO_TIMER_WHEEL_MAX_BUCKETS \<or>
                wo_max_memory_bytes options > VIREO_TIMER_WHEEL_MAX_MEMORY \<or>
                the total_bytes > wo_max_memory_bytes options
        then (VIREO_RESULT_RANGE, out_wheel, heap)
        else
        let (candidate, heap) = allocate_default heap sizeof_wheel in
        if candidate = None then (VIREO_RESULT_NO_MEMORY, out_wheel, heap)
        else
        let (buckets, heap) = allocate_default heap (the bucket_bytes) in
        if buckets = None
        then (VIREO_RESULT_NO_MEMORY, out_wheel, deallocate_default heap (the candidate) [])
        else (VIREO_OK,
              Some (Some \<lparr>wh_geometry = wo_geometry options, wh_buckets = the buckets,
                wh_links = (\<lambda>a. \<lparr>lk_prev = a, lk_next = a\<rparr>), wh_bucket_count = the count,
                wh_allocation_bytes = the total_bytes, wh_max_memory_bytes = wo_max_memory_bytes options,
                wh_owner = None, wh_nodes = None, wh_nodes_block = 0, wh_timer_capacity = 0, wh_node_bytes = 0,
                wh_registry_budget = 0, wh_latest_now_ns = origin_ns (wo_geometry options),
                wh_completed_tick = 0, wh_processing = False, wh_ready_count = 0, wh_stopping = False,
                wh_shutdown_cursor = 0, wh_self = the candidate\<rparr>),
              heap))"

definition vireo_timer_wheel_create ::
  "vireo_timer_wheel_options option \<Rightarrow> vireo_timer_wheel option option \<Rightarrow> vireo_heap \<Rightarrow>
   vireo_result \<times> vireo_timer_wheel option option \<times> vireo_heap" where
  "vireo_timer_wheel_create options out_wheel heap =
     vireo_timer_wheel_create_runtime options out_wheel (Some \<lparr>wa_allocate = True, wa_deallocate = True\<rparr>) heap"

definition vireo_timer_wheel_inspect ::
  "vireo_timer_wheel option \<Rightarrow> vireo_timer_wheel_info option \<Rightarrow> vireo_result \<times> vireo_timer_wheel_info option" where
  "vireo_timer_wheel_inspect wheel out_info =
     (case (wheel, out_info) of
        (Some w, Some _) \<Rightarrow>
          (VIREO_OK, Some \<lparr>wi_geometry = wh_geometry w, wi_allocation_bytes = wh_allocation_bytes w,
             wi_max_memory_bytes = wh_max_memory_bytes w\<rparr>)
      | _ \<Rightarrow> (VIREO_RESULT_INVALID_ARGUMENT, out_info))"

definition head_is_empty :: "links \<Rightarrow> link_ref \<Rightarrow> bool" where
  "head_is_empty lk h \<longleftrightarrow> lk_prev (lk h) = h \<and> lk_next (lk h) = h"

definition vireo_timer_wheel_destroy ::
  "vireo_timer_wheel option option \<Rightarrow> vireo_heap \<Rightarrow> vireo_result \<times> vireo_timer_wheel option option \<times> vireo_heap" where
  "vireo_timer_wheel_destroy wheel heap =
     (case wheel of
        None \<Rightarrow> (VIREO_RESULT_INVALID_ARGUMENT, wheel, heap)
      | Some None \<Rightarrow> (VIREO_OK, wheel, heap)
      | Some (Some owned) \<Rightarrow>
          if \<not> head_is_empty (wh_links owned) Pending \<or> \<not> head_is_empty (wh_links owned) Ready
          then (VIREO_RESULT_BUSY, wheel, heap)
          else if list_ex (\<lambda>i. \<not> head_is_empty (wh_links owned) (Bucket i)) [0 ..< unat (wh_bucket_count owned)]
          then (VIREO_RESULT_BUSY, wheel, heap)
          else
            let (result, ow, heap) = vireo_timer_handle_owner_destroy (Some (wh_owner owned)) heap in
            if result \<noteq> VIREO_OK then (result, Some (Some (owned\<lparr>wh_owner := the ow\<rparr>)), heap)
            else
              let heap = (if wh_nodes owned \<noteq> None then deallocate_default heap (wh_nodes_block owned) [] else heap);
                  heap = deallocate_default heap (wh_buckets owned) [];
                  heap = deallocate_default heap (wh_self owned) []
              in (VIREO_OK, Some None, heap))"

subsection \<open>Registration\<close>

definition owner_create_native :: "u64 list \<Rightarrow> vireo_timer_wheel_owner_create_fn" where
  "owner_create_native races options env =
     (let (result, out, counter, heap) =
            vireo_timer_handle_owner_create (Some options) (Some None) races (te_last_owner_id env) (te_heap env)
      in (result, the out, \<lparr>te_last_owner_id = the counter, te_heap = heap\<rparr>))"

definition owner_acquire_native :: vireo_timer_wheel_owner_acquire_fn where
  "owner_acquire_native ow out =
     (let (result, ow, out) = vireo_timer_handle_owner_acquire (Some ow) (Some out) in (result, the ow, the out))"

definition owner_release_native :: vireo_timer_wheel_owner_release_fn where
  "owner_release_native ow handle =
     (let (result, ow, handle) = vireo_timer_handle_owner_release (Some ow) (Some handle) in (result, the ow, the handle))"

definition validate_slot :: "vireo_timer_wheel \<Rightarrow> vireo_timer_handle \<Rightarrow> vireo_result" where
  "validate_slot w handle =
     (let (result, empty) = vireo_timer_handle_is_empty handle (Some False) in
      if result \<noteq> VIREO_OK then result
      else if wh_owner w = None then VIREO_RESULT_NOT_FOUND
      else
        let result = vireo_timer_handle_owner_validate (wh_owner w) handle in
        if result \<noteq> VIREO_OK then result
        else if th_slot_index handle \<ge> wh_timer_capacity w then VIREO_RESULT_RANGE
        else VIREO_OK)"

definition deadline_values ::
  "vireo_timer_wheel \<Rightarrow> vireo_monotonic_ns \<Rightarrow> vireo_monotonic_ns \<Rightarrow> vireo_result \<times> vireo_timer_wheel_tick \<times> size_t" where
  "deadline_values w now_ns deadline_ns =
     (if now_ns < origin_ns (wh_geometry w) then (VIREO_RESULT_RANGE, 0, 0)
      else if deadline_ns \<le> now_ns then (VIREO_RESULT_TIMEOUT, 0, 0)
      else
        let (result, tick) = vireo_timer_wheel_deadline_tick (wh_geometry w) deadline_ns (Some 0) in
        if result \<noteq> VIREO_OK then (result, the tick, 0)
        else
          let (result, bucket) = vireo_timer_wheel_bucket_index (wh_geometry w) (the tick) (Some 0) in
          if result \<noteq> VIREO_OK then (result, the tick, 0)
          else let (result, out_bucket) = vireo_checked_u64_to_size (the bucket) (Some 0) in (result, the tick, the out_bucket))"

definition vireo_timer_wheel_prepare_runtime ::
  "vireo_timer_wheel option \<Rightarrow> vireo_timer_wheel_registry_options option \<Rightarrow>
   vireo_timer_wheel_owner_create_fn option \<Rightarrow> timer_env \<Rightarrow> vireo_result \<times> vireo_timer_wheel option \<times> timer_env" where
  "vireo_timer_wheel_prepare_runtime wheel options create_owner env =
     (if wheel = None \<or> options = None \<or> create_owner = None \<or>
         ro_capacity (the options) = 0 \<or> ro_max_memory_bytes (the options) = 0
      then (VIREO_RESULT_INVALID_ARGUMENT, wheel, env)
      else if wh_owner (the wheel) \<noteq> None then (VIREO_RESULT_BUSY, wheel, env)
      else
        let w = the wheel; options = the options;
            (result, bytes) = vireo_checked_size_mul (ro_capacity options) sizeof_wheel_node (Some 0) in
        if result \<noteq> VIREO_OK then (result, wheel, env)
        else if ro_capacity options > VIREO_TIMER_WHEEL_REGISTRY_MAX_CAPACITY \<or>
                ro_max_memory_bytes options > VIREO_TIMER_WHEEL_REGISTRY_MAX_MEMORY \<or>
                the bytes \<ge> ro_max_memory_bytes options
        then (VIREO_RESULT_RANGE, wheel, env)
        else
        let (nodes, heap) = allocate_default (te_heap env) (the bytes); env = env\<lparr>te_heap := heap\<rparr> in
        if nodes = None then (VIREO_RESULT_NO_MEMORY, wheel, env)
        else
        let fresh = replicate (unat (ro_capacity options)) \<lparr>wn_handle = zero_handle, wn_deadline_ns = 0, wn_due_tick = 0,
                      wn_bucket_index = 0, wn_ready = False\<rparr>;
            links = (\<lambda>a. case a of Node i \<Rightarrow> if i < unat (ro_capacity options) then \<lparr>lk_prev = a, lk_next = a\<rparr> else wh_links w a
                            | _ \<Rightarrow> wh_links w a);
            (result, ow, env) = (the create_owner)
               \<lparr>oo_capacity = ro_capacity options, oo_max_memory_bytes = ro_max_memory_bytes options - the bytes\<rparr> env in
        if result \<noteq> VIREO_OK
        then (result, wheel, env\<lparr>te_heap := deallocate_default (te_heap env) (the nodes) []\<rparr>)
        else (result,
              Some (w\<lparr>wh_owner := ow, wh_nodes := Some fresh, wh_nodes_block := the nodes, wh_links := links,
                      wh_timer_capacity := ro_capacity options, wh_node_bytes := the bytes,
                      wh_registry_budget := ro_max_memory_bytes options\<rparr>),
              env))"

definition vireo_timer_wheel_prepare ::
  "vireo_timer_wheel option \<Rightarrow> vireo_timer_wheel_registry_options option \<Rightarrow> u64 list \<Rightarrow> timer_env \<Rightarrow>
   vireo_result \<times> vireo_timer_wheel option \<times> timer_env" where
  "vireo_timer_wheel_prepare wheel options races env =
     vireo_timer_wheel_prepare_runtime wheel options (Some (owner_create_native races)) env"

definition vireo_timer_wheel_registry_inspect ::
  "vireo_timer_wheel option \<Rightarrow> vireo_timer_wheel_registry_info option \<Rightarrow>
   vireo_result \<times> vireo_timer_wheel_registry_info option" where
  "vireo_timer_wheel_registry_inspect wheel out_info =
     (if wheel = None \<or> out_info = None then (VIREO_RESULT_INVALID_ARGUMENT, out_info)
      else
        let w = the wheel in
        if wh_owner w = None
        then (VIREO_OK, Some \<lparr>ri_prepared = False, ri_capacity = 0, ri_active_count = 0, ri_available_count = 0,
                ri_allocation_bytes = 0, ri_max_memory_bytes = 0\<rparr>)
        else
          let (result, info) = vireo_timer_handle_owner_inspect (wh_owner w)
                (Some \<lparr>oi_owner_id = 0, oi_last_generation = 0, oi_capacity = 0, oi_active_count = 0,
                       oi_available_count = 0, oi_allocation_bytes = 0, oi_max_memory_bytes = 0\<rparr>) in
          if result \<noteq> VIREO_OK then (result, out_info)
          else
            let (result, total) = vireo_checked_size_add (wh_node_bytes w) (oi_allocation_bytes (the info)) (Some 0) in
            if result \<noteq> VIREO_OK then (result, out_info)
            else (VIREO_OK, Some \<lparr>ri_prepared = True, ri_capacity = wh_timer_capacity w,
                    ri_active_count = oi_active_count (the info), ri_available_count = oi_available_count (the info),
                    ri_allocation_bytes = the total, ri_max_memory_bytes = wh_registry_budget w\<rparr>))"

definition wheel_node :: "vireo_timer_wheel \<Rightarrow> nat \<Rightarrow> vireo_timer_wheel_node" where
  "wheel_node w i = the (wh_nodes w) ! i"

definition set_node :: "nat \<Rightarrow> vireo_timer_wheel_node \<Rightarrow> vireo_timer_wheel \<Rightarrow> vireo_timer_wheel" where
  "set_node i n w = w\<lparr>wh_nodes := map_option (\<lambda>ns. ns[i := n]) (wh_nodes w)\<rparr>"

definition vireo_timer_wheel_place_node :: "vireo_timer_wheel \<Rightarrow> nat \<Rightarrow> vireo_timer_wheel" where
  "vireo_timer_wheel_place_node w i =
     (let frontier = (if wh_processing w then wh_completed_tick w + 1 else wh_completed_tick w);
          node = wheel_node w i;
          node = node\<lparr>wn_ready := wn_due_tick node \<le> frontier\<rparr>;
          w = set_node i node w
      in if wn_ready node
         then w\<lparr>wh_links := link_append Ready (Node i) (wh_links w), wh_ready_count := wh_ready_count w + 1\<rparr>
         else w\<lparr>wh_links := link_append (Bucket (unat (wn_bucket_index node))) (Node i) (wh_links w)\<rparr>)"

definition vireo_timer_wheel_register_runtime ::
  "vireo_timer_wheel option \<Rightarrow> vireo_monotonic_ns \<Rightarrow> vireo_monotonic_ns \<Rightarrow> vireo_timer_handle option \<Rightarrow>
   vireo_timer_wheel_owner_acquire_fn option \<Rightarrow> vireo_result \<times> vireo_timer_wheel option \<times> vireo_timer_handle option" where
  "vireo_timer_wheel_register_runtime wheel now_ns deadline_ns out_handle acquire =
     (if wheel = None \<or> out_handle = None \<or> acquire = None then (VIREO_RESULT_INVALID_ARGUMENT, wheel, out_handle)
      else
        let w = the wheel;
            (result, empty) = vireo_timer_handle_is_empty (the out_handle) (Some False) in
        if result \<noteq> VIREO_OK \<or> \<not> the empty then (VIREO_RESULT_INVALID_ARGUMENT, wheel, out_handle)
        else if wh_owner w = None then (VIREO_RESULT_NOT_FOUND, wheel, out_handle)
        else if wh_stopping w then (VIREO_RESULT_CANCELLED, wheel, out_handle)
        else
          let (result, due, bucket) = deadline_values w now_ns deadline_ns in
          if result \<noteq> VIREO_OK then (result, wheel, out_handle)
          else
            let (result, ow, handle) = (the acquire) (the (wh_owner w)) zero_handle;
                w = w\<lparr>wh_owner := Some ow\<rparr> in
            if result \<noteq> VIREO_OK then (result, Some w, out_handle)
            else
              let i = unat (th_slot_index handle);
                  node = (wheel_node w i)\<lparr>wn_handle := handle, wn_deadline_ns := deadline_ns, wn_due_tick := due,
                                          wn_bucket_index := bucket\<rparr>;
                  w = vireo_timer_wheel_place_node (set_node i node w) i
              in (result, Some w, Some handle))"

definition vireo_timer_wheel_register ::
  "vireo_timer_wheel option \<Rightarrow> vireo_monotonic_ns \<Rightarrow> vireo_monotonic_ns \<Rightarrow> vireo_timer_handle option \<Rightarrow>
   vireo_result \<times> vireo_timer_wheel option \<times> vireo_timer_handle option" where
  "vireo_timer_wheel_register wheel now_ns deadline_ns out_handle =
     vireo_timer_wheel_register_runtime wheel now_ns deadline_ns out_handle (Some owner_acquire_native)"

definition timer_info :: "vireo_timer_wheel_node \<Rightarrow> vireo_timer_wheel_timer_info" where
  "timer_info node = \<lparr>ti_deadline_ns = wn_deadline_ns node, ti_due_tick = wn_due_tick node,
                      ti_bucket_index = ucast (wn_bucket_index node)\<rparr>"

definition vireo_timer_wheel_get ::
  "vireo_timer_wheel option \<Rightarrow> vireo_timer_handle \<Rightarrow> vireo_timer_wheel_timer_info option \<Rightarrow>
   vireo_result \<times> vireo_timer_wheel_timer_info option" where
  "vireo_timer_wheel_get wheel handle out_info =
     (if wheel = None \<or> out_info = None then (VIREO_RESULT_INVALID_ARGUMENT, out_info)
      else
        let result = validate_slot (the wheel) handle in
        if result \<noteq> VIREO_OK then (result, out_info)
        else (VIREO_OK, Some (timer_info (wheel_node (the wheel) (unat (th_slot_index handle))))))"

definition vireo_timer_wheel_cancel_runtime ::
  "vireo_timer_wheel option \<Rightarrow> vireo_timer_handle option \<Rightarrow> vireo_timer_wheel_owner_release_fn option \<Rightarrow>
   vireo_result \<times> vireo_timer_wheel option \<times> vireo_timer_handle option" where
  "vireo_timer_wheel_cancel_runtime wheel handle release =
     (if wheel = None \<or> handle = None \<or> release = None then (VIREO_RESULT_INVALID_ARGUMENT, wheel, handle)
      else
        let w = the wheel; result = validate_slot w (the handle) in
        if result \<noteq> VIREO_OK then (result, wheel, handle)
        else
          let i = unat (th_slot_index (the handle));
              prev = lk_prev (wh_links w (Node i)); nxt = lk_next (wh_links w (Node i));
              w = w\<lparr>wh_links := link_detach (Node i) (wh_links w)\<rparr>;
              (result, ow, local) = (the release) (the (wh_owner w)) (the handle);
              w = w\<lparr>wh_owner := Some ow\<rparr> in
          if result \<noteq> VIREO_OK
          then (result, Some (w\<lparr>wh_links := link_restore (Node i) prev nxt (wh_links w)\<rparr>), handle)
          else
            let w = (if wn_ready (wheel_node w i)
                     then set_node i ((wheel_node w i)\<lparr>wn_ready := False\<rparr>) (w\<lparr>wh_ready_count := wh_ready_count w - 1\<rparr>)
                     else w);
                w = set_node i ((wheel_node w i)\<lparr>wn_handle := zero_handle, wn_deadline_ns := 0, wn_due_tick := 0,
                                                wn_bucket_index := 0\<rparr>) w
            in (VIREO_OK, Some w, Some zero_handle))"

definition vireo_timer_wheel_cancel ::
  "vireo_timer_wheel option \<Rightarrow> vireo_timer_handle option \<Rightarrow>
   vireo_result \<times> vireo_timer_wheel option \<times> vireo_timer_handle option" where
  "vireo_timer_wheel_cancel wheel handle = vireo_timer_wheel_cancel_runtime wheel handle (Some owner_release_native)"

definition vireo_timer_wheel_rearm ::
  "vireo_timer_wheel option \<Rightarrow> vireo_timer_handle \<Rightarrow> vireo_monotonic_ns \<Rightarrow> vireo_monotonic_ns \<Rightarrow>
   vireo_result \<times> vireo_timer_wheel option" where
  "vireo_timer_wheel_rearm wheel handle now_ns deadline_ns =
     (if wheel = None then (VIREO_RESULT_INVALID_ARGUMENT, wheel)
      else
        let w = the wheel; result = validate_slot w handle in
        if result \<noteq> VIREO_OK then (result, wheel)
        else if wh_stopping w then (VIREO_RESULT_CANCELLED, wheel)
        else
          let (result, due, bucket) = deadline_values w now_ns deadline_ns in
          if result \<noteq> VIREO_OK then (result, wheel)
          else
            let i = unat (th_slot_index handle);
                w = w\<lparr>wh_links := link_detach (Node i) (wh_links w)\<rparr>;
                w = (if wn_ready (wheel_node w i)
                     then set_node i ((wheel_node w i)\<lparr>wn_ready := False\<rparr>) (w\<lparr>wh_ready_count := wh_ready_count w - 1\<rparr>)
                     else w);
                w = set_node i ((wheel_node w i)\<lparr>wn_deadline_ns := deadline_ns, wn_due_tick := due,
                                                wn_bucket_index := bucket\<rparr>) w
            in (VIREO_OK, Some (vireo_timer_wheel_place_node w i)))"

subsection \<open>Advancing\<close>

text \<open>A link that is not in a node never reaches this cast.\<close>

fun node_from_link :: "link_ref \<Rightarrow> nat" where
  "node_from_link (Node i) = i"
| "node_from_link _ = 0"

definition progress_value :: "vireo_timer_wheel \<Rightarrow> vireo_timer_wheel_progress" where
  "progress_value w =
     (let target = (wh_latest_now_ns w - origin_ns (wh_geometry w)) div tick_ns (wh_geometry w)
      in \<lparr>wp_latest_now_ns = wh_latest_now_ns w, wp_target_tick = target, wp_completed_tick = wh_completed_tick w,
          wp_processing = wh_processing w, wp_ready_count = wh_ready_count w,
          wp_caught_up = \<not> wh_processing w \<and> wh_completed_tick w = target\<rparr>)"

definition pending_is_empty :: "vireo_timer_wheel \<Rightarrow> bool" where
  "pending_is_empty w \<longleftrightarrow> lk_next (wh_links w Pending) = Pending"

text \<open>The two parts of an iteration of the advance loop: finishing a tick, and opening the next one.\<close>

definition finish_tick :: "vireo_timer_wheel \<Rightarrow> vireo_timer_wheel" where
  "finish_tick w = (if wh_processing w \<and> pending_is_empty w
     then w\<lparr>wh_completed_tick := wh_completed_tick w + 1, wh_processing := False\<rparr> else w)"

definition start_tick :: "vireo_timer_wheel \<Rightarrow> vireo_timer_wheel" where
  "start_tick w =
     (let visiting = wh_completed_tick w + 1;
          bucket = ucast (visiting mod bucket_count (wh_geometry w)) :: size_t
      in w\<lparr>wh_links := snapshot_bucket Pending (Bucket (unat bucket)) (wh_links w), wh_processing := True\<rparr>)"

definition examine_node :: "vireo_timer_wheel \<Rightarrow> vireo_timer_wheel" where
  "examine_node w =
     (let i = node_from_link (lk_next (wh_links w Pending));
          w = w\<lparr>wh_links := link_detach (Node i) (wh_links w)\<rparr>
      in vireo_timer_wheel_place_node w i)"

lemma word_diff_step: "a \<noteq> b \<Longrightarrow> unat (a - (b + 1)) < unat (a - b)" for a b :: "64 word"
proof -
  assume "a \<noteq> b"
  then have "a - b \<noteq> 0" by simp
  then have "unat (a - b - 1) = unat (a - b) - 1" "unat (a - b) \<noteq> 0" by (simp_all add: unat_minus_one unat_eq_zero)
  then show ?thesis by (simp add: algebra_simps)
qed

function advance_loop ::
  "u64 \<Rightarrow> vireo_timer_wheel_advance_budget \<Rightarrow> size_t \<Rightarrow> size_t \<Rightarrow> vireo_timer_wheel \<Rightarrow>
   vireo_timer_wheel \<times> size_t \<times> size_t" where
  "advance_loop target budget ticks nodes w =
     (let w = finish_tick w in
      if \<not> wh_processing w \<and> (wh_completed_tick w = target \<or> ticks = max_ticks budget) then (w, ticks, nodes)
      else
        let (w, ticks) = (if \<not> wh_processing w then (start_tick w, ticks + 1) else (w, ticks)) in
        if pending_is_empty w then advance_loop target budget ticks nodes w
        else if nodes = max_nodes budget then (w, ticks, nodes)
        else advance_loop target budget ticks (nodes + 1) (examine_node w))"
  by pat_completeness auto

termination
proof (relation "measure (\<lambda>(target, budget, ticks, nodes, w).
    unat (max_ticks budget - ticks) + unat (max_nodes budget - nodes))", goal_cases)
  case 1
  then show ?case by simp
next
  case (2 target budget ticks nodes w w1 p w2 ticks2)
  then have "\<not> wh_processing w1"
    by (auto simp: finish_tick_def pending_is_empty_def split: if_splits)
  then show ?case using 2 word_diff_step [of "max_ticks budget" ticks] by auto
next
  case (3 target budget ticks nodes w w1 p w2 ticks2)
  then show ?case
    using word_diff_step [of "max_ticks budget" ticks] word_diff_step [of "max_nodes budget" nodes]
    by (auto split: if_splits)
qed

declare advance_loop.simps [simp del]

definition vireo_timer_wheel_advance ::
  "vireo_timer_wheel option \<Rightarrow> vireo_monotonic_ns \<Rightarrow> vireo_timer_wheel_advance_budget \<Rightarrow>
   vireo_timer_wheel_advance_report option \<Rightarrow>
   vireo_result \<times> vireo_timer_wheel option \<times> vireo_timer_wheel_advance_report option" where
  "vireo_timer_wheel_advance wheel now_ns budget out_report =
     (if wheel = None \<or> out_report = None \<or> max_ticks budget = 0 \<or> max_nodes budget = 0
      then (VIREO_RESULT_INVALID_ARGUMENT, wheel, out_report)
      else if max_ticks budget > VIREO_TIMER_WHEEL_ADVANCE_MAX_BUDGET \<or> max_nodes budget > VIREO_TIMER_WHEEL_ADVANCE_MAX_BUDGET
      then (VIREO_RESULT_RANGE, wheel, out_report)
      else
        let w = the wheel in
        if wh_owner w = None then (VIREO_RESULT_NOT_FOUND, wheel, out_report)
        else if wh_stopping w then (VIREO_RESULT_CANCELLED, wheel, out_report)
        else if now_ns < origin_ns (wh_geometry w) \<or> now_ns < wh_latest_now_ns w
        then (VIREO_RESULT_RANGE, wheel, out_report)
        else
          let target = (now_ns - origin_ns (wh_geometry w)) div tick_ns (wh_geometry w);
              (w, ticks, nodes) = advance_loop target budget 0 0 (w\<lparr>wh_latest_now_ns := now_ns\<rparr>)
          in (VIREO_OK, Some w,
              Some \<lparr>ar_progress = progress_value w, ar_ticks_started = ticks, ar_nodes_examined = nodes\<rparr>))"

definition vireo_timer_wheel_progress_inspect ::
  "vireo_timer_wheel option \<Rightarrow> vireo_timer_wheel_progress option \<Rightarrow> vireo_result \<times> vireo_timer_wheel_progress option" where
  "vireo_timer_wheel_progress_inspect wheel out_progress =
     (if wheel = None \<or> out_progress = None then (VIREO_RESULT_INVALID_ARGUMENT, out_progress)
      else if wh_owner (the wheel) = None then (VIREO_RESULT_NOT_FOUND, out_progress)
      else (VIREO_OK, Some (progress_value (the wheel))))"

definition vireo_timer_wheel_take_expired_runtime ::
  "vireo_timer_wheel option \<Rightarrow> vireo_timer_wheel_expired option \<Rightarrow> vireo_timer_wheel_owner_release_fn option \<Rightarrow>
   vireo_result \<times> vireo_timer_wheel option \<times> vireo_timer_wheel_expired option" where
  "vireo_timer_wheel_take_expired_runtime wheel out_expired release =
     (if wheel = None \<or> out_expired = None \<or> release = None then (VIREO_RESULT_INVALID_ARGUMENT, wheel, out_expired)
      else
        let w = the wheel in
        if wh_owner w = None \<or> lk_next (wh_links w Ready) = Ready then (VIREO_RESULT_NOT_FOUND, wheel, out_expired)
        else
          let node = wheel_node w (node_from_link (lk_next (wh_links w Ready)));
              event = \<lparr>ex_handle = wn_handle node, ex_timer = timer_info node\<rparr>;
              (result, wheel, local) = vireo_timer_wheel_cancel_runtime wheel (Some (ex_handle event)) release
          in (result, wheel, if result = VIREO_OK then Some event else out_expired))"

definition vireo_timer_wheel_take_expired ::
  "vireo_timer_wheel option \<Rightarrow> vireo_timer_wheel_expired option \<Rightarrow>
   vireo_result \<times> vireo_timer_wheel option \<times> vireo_timer_wheel_expired option" where
  "vireo_timer_wheel_take_expired wheel out_expired =
     vireo_timer_wheel_take_expired_runtime wheel out_expired (Some owner_release_native)"

subsection \<open>Shutdown\<close>

definition vireo_timer_wheel_shutdown_begin :: "vireo_timer_wheel option \<Rightarrow> vireo_result \<times> vireo_timer_wheel option" where
  "vireo_timer_wheel_shutdown_begin wheel =
     (case wheel of
        None \<Rightarrow> (VIREO_RESULT_INVALID_ARGUMENT, wheel)
      | Some w \<Rightarrow> if wh_owner w = None then (VIREO_RESULT_NOT_FOUND, wheel)
                  else (VIREO_OK, Some (w\<lparr>wh_stopping := True\<rparr>)))"

definition no_owner_info :: vireo_timer_handle_owner_info where
  "no_owner_info = \<lparr>oi_owner_id = 0, oi_last_generation = 0, oi_capacity = 0, oi_active_count = 0,
     oi_available_count = 0, oi_allocation_bytes = 0, oi_max_memory_bytes = 0\<rparr>"

definition vireo_timer_wheel_shutdown_inspect ::
  "vireo_timer_wheel option \<Rightarrow> vireo_timer_wheel_shutdown_info option \<Rightarrow>
   vireo_result \<times> vireo_timer_wheel_shutdown_info option" where
  "vireo_timer_wheel_shutdown_inspect wheel out_info =
     (if wheel = None \<or> out_info = None then (VIREO_RESULT_INVALID_ARGUMENT, out_info)
      else if wh_owner (the wheel) = None then (VIREO_RESULT_NOT_FOUND, out_info)
      else
        let w = the wheel; (result, info) = vireo_timer_handle_owner_inspect (wh_owner w) (Some no_owner_info) in
        if result \<noteq> VIREO_OK then (result, out_info)
        else (VIREO_OK, Some \<lparr>si_stopping = wh_stopping w, si_active_count = oi_active_count (the info),
                si_finished = wh_stopping w \<and> oi_active_count (the info) = 0\<rparr>))"

text \<open>The scan of a shutdown step: the slot after the last one looked at, how many were looked at, and the active slot found.\<close>

function shutdown_scan :: "vireo_timer_wheel \<Rightarrow> size_t \<Rightarrow> size_t \<Rightarrow> size_t \<Rightarrow> size_t \<times> size_t \<times> nat option" where
  "shutdown_scan w max_slots cursor scanned =
     (if cursor < wh_timer_capacity w \<and> scanned < max_slots
      then if th_owner_id (wn_handle (wheel_node w (unat cursor))) = 0
           then shutdown_scan w max_slots (cursor + 1) (scanned + 1)
           else (cursor + 1, scanned + 1, Some (unat cursor))
      else (cursor, scanned, None))"
  by pat_completeness auto

termination
proof (relation "measure (\<lambda>(w, max_slots, cursor, scanned). unat (wh_timer_capacity w - cursor))", goal_cases)
  case 1
  then show ?case by simp
next
  case (2 w max_slots cursor scanned)
  then show ?case using word_diff_step [of "wh_timer_capacity w" cursor] by auto
qed

declare shutdown_scan.simps [simp del]

definition vireo_timer_wheel_shutdown_step_runtime ::
  "vireo_timer_wheel option \<Rightarrow> size_t \<Rightarrow> vireo_timer_wheel_shutdown_report option \<Rightarrow>
   vireo_timer_wheel_owner_release_fn option \<Rightarrow>
   vireo_result \<times> vireo_timer_wheel option \<times> vireo_timer_wheel_shutdown_report option" where
  "vireo_timer_wheel_shutdown_step_runtime wheel max_slots out_report release =
     (if wheel = None \<or> out_report = None \<or> release = None \<or> max_slots = 0
      then (VIREO_RESULT_INVALID_ARGUMENT, wheel, out_report)
      else if max_slots > VIREO_TIMER_WHEEL_SHUTDOWN_MAX_SLOTS then (VIREO_RESULT_RANGE, wheel, out_report)
      else if wh_owner (the wheel) = None then (VIREO_RESULT_NOT_FOUND, wheel, out_report)
      else if \<not> wh_stopping (the wheel) then (VIREO_RESULT_BUSY, wheel, out_report)
      else
        let w = the wheel; (result, info) = vireo_timer_handle_owner_inspect (wh_owner w) (Some no_owner_info) in
        if result \<noteq> VIREO_OK then (result, wheel, out_report)
        else
          let no_cancelled = \<lparr>sc_handle = zero_handle,
                sc_timer = \<lparr>ti_deadline_ns = 0, ti_due_tick = 0, ti_bucket_index = 0\<rparr>\<rparr>;
              active = oi_active_count (the info) in
          if active = 0
          then (VIREO_OK, Some (w\<lparr>wh_shutdown_cursor := wh_timer_capacity w\<rparr>),
                Some \<lparr>sr_scanned_slots = 0, sr_has_cancelled = False, sr_cancelled = no_cancelled,
                      sr_remaining_count = active, sr_finished = active = 0\<rparr>)
          else
            let (cursor, scanned, found) = shutdown_scan w max_slots (wh_shutdown_cursor w) 0 in
            case found of
              None \<Rightarrow> (VIREO_OK, Some (w\<lparr>wh_shutdown_cursor := cursor\<rparr>),
                Some \<lparr>sr_scanned_slots = scanned, sr_has_cancelled = False, sr_cancelled = no_cancelled,
                      sr_remaining_count = active, sr_finished = active = 0\<rparr>)
            | Some i \<Rightarrow>
                let node = wheel_node w i;
                    cancelled = \<lparr>sc_handle = wn_handle node, sc_timer = timer_info node\<rparr>;
                    (result, wheel', local) = vireo_timer_wheel_cancel_runtime wheel (Some (wn_handle node)) release in
                if result \<noteq> VIREO_OK then (result, wheel', out_report)
                else (VIREO_OK, Some ((the wheel')\<lparr>wh_shutdown_cursor := cursor\<rparr>),
                  Some \<lparr>sr_scanned_slots = scanned, sr_has_cancelled = True, sr_cancelled = cancelled,
                        sr_remaining_count = active - 1, sr_finished = active - 1 = 0\<rparr>))"

definition vireo_timer_wheel_shutdown_step ::
  "vireo_timer_wheel option \<Rightarrow> size_t \<Rightarrow> vireo_timer_wheel_shutdown_report option \<Rightarrow>
   vireo_result \<times> vireo_timer_wheel option \<times> vireo_timer_wheel_shutdown_report option" where
  "vireo_timer_wheel_shutdown_step wheel max_slots out_report =
     vireo_timer_wheel_shutdown_step_runtime wheel max_slots out_report (Some owner_release_native)"

end
