(* ===== verification/Timer_Wheel_Inv.thy ===== *)
theory Timer_Wheel_Inv
  imports Timer_Wheel
begin

text \<open>
  The invariant of the timing wheel and its preservation by the operations on single timers. The
  lists are described by \<open>L\<close>, which gives for every head the nodes in its ring.
\<close>

definition heads :: "nat \<Rightarrow> link_ref set" where
  "heads n = Bucket ` {..< n} \<union> {Pending, Ready}"

definition placed :: "nat \<Rightarrow> (link_ref \<Rightarrow> nat list) \<Rightarrow> nat \<Rightarrow> bool" where
  "placed n L i \<longleftrightarrow> (\<exists>h \<in> heads n. i \<in> set (L h))"

definition lists_ok :: "nat \<Rightarrow> nat \<Rightarrow> links \<Rightarrow> (link_ref \<Rightarrow> nat list) \<Rightarrow> bool" where
  "lists_ok n cap lk L \<longleftrightarrow>
     (\<forall>h \<in> heads n. ring lk h (map Node (L h)) \<and> set (L h) \<subseteq> {..< cap}) \<and>
     (\<forall>h \<in> heads n. \<forall>k \<in> heads n. h \<noteq> k \<longrightarrow> set (L h) \<inter> set (L k) = {}) \<and>
     (\<forall>i < cap. \<not> placed n L i \<longrightarrow> ring lk (Node i) [])"

lemma lists_okD:
  assumes "lists_ok n cap lk L" and "h \<in> heads n"
  shows "ring lk h (map Node (L h))" and "set (L h) \<subseteq> {..< cap}"
    and "\<And>k. k \<in> heads n \<Longrightarrow> h \<noteq> k \<Longrightarrow> set (L h) \<inter> set (L k) = {}"
  using assms unfolding lists_ok_def by blast+

lemma head_not_node: "h \<in> heads n \<Longrightarrow> h \<noteq> Node i"
  by (auto simp: heads_def)

lemma list_distinct: "lists_ok n cap lk L \<Longrightarrow> h \<in> heads n \<Longrightarrow> distinct (L h)"
  unfolding lists_ok_def using ring_distinct distinct_map by fastforce

lemma Node_image [simp]: "Node i \<in> Node ` A \<longleftrightarrow> i \<in> A"
  by auto

lemma lists_detach:
  assumes ok: "lists_ok n cap lk L" and h: "h \<in> heads n" and L: "L h = xs @ i # ys"
  shows "lists_ok n cap (link_detach (Node i) lk) (L(h := xs @ ys))"
    and "placed n (L(h := xs @ ys)) j \<longleftrightarrow> placed n L j \<and> j \<noteq> i"
proof -
  let ?lk = "link_detach (Node i) lk" and ?L = "L(h := xs @ ys)"
  have r: "ring lk h (map Node xs @ Node i # map Node ys)" using ok h L by (auto simp: lists_ok_def)
  note d = detach_ring [OF r]
  have dis: "set (L k) \<inter> set (L h) = {}" if "k \<in> heads n" "k \<noteq> h" for k
    using ok h that by (auto simp: lists_ok_def)
  have di: "i \<notin> set xs" "i \<notin> set ys" using list_distinct [OF ok h] L by simp_all
  show pl: "placed n ?L j \<longleftrightarrow> placed n L j \<and> j \<noteq> i" for j
  proof (cases "j = i")
    case True
    then show ?thesis using di dis L h by (force simp: placed_def)
  next
    case False
    then have "j \<in> set (?L k) \<longleftrightarrow> j \<in> set (L k)" for k using L by simp
    then show ?thesis using False by (simp add: placed_def)
  qed
  have other: "ring ?lk k (map Node (L k))" if k: "k \<in> heads n" "k \<noteq> h" for k
  proof (rule ring_frame [of lk])
    show "ring lk k (map Node (L k))" using ok k by (simp add: lists_ok_def)
    fix a assume a: "a \<in> set (k # map Node (L k))"
    show "?lk a = lk a"
      by (rule d(3)) (use a k h dis [OF k] L head_not_node in \<open>auto simp: heads_def\<close>)
  qed
  have free: "ring ?lk (Node j) []" if "j < cap" "\<not> placed n L j" for j
  proof (rule ring_frame [of lk])
    show "ring lk (Node j) []" using ok that by (simp add: lists_ok_def)
    fix a assume "a \<in> set [Node j]"
    then show "?lk a = lk a"
      using that(2) h L head_not_node [OF h] by (intro d(3)) (auto simp: placed_def)
  qed
  show "lists_ok n cap ?lk ?L"
    unfolding lists_ok_def pl
  proof (intro conjI ballI allI impI)
    fix k assume k: "k \<in> heads n"
    show "ring ?lk k (map Node (?L k))" using d(1) other [OF k] by (cases "k = h") simp_all
    show "set (?L k) \<subseteq> {..< cap}" using lists_okD(2) [OF ok k] lists_okD(2) [OF ok h] L by auto
    fix m assume m: "m \<in> heads n" "k \<noteq> m"
    have sub: "set (?L x) \<subseteq> set (L x)" for x using L by auto
    show "set (?L k) \<inter> set (?L m) = {}" using lists_okD(3) [OF ok k m] sub [of k] sub [of m] by blast
  next
    fix j assume "j < cap" "\<not> (placed n L j \<and> j \<noteq> i)"
    then show "ring ?lk (Node j) []" using d(2) free by (cases "j = i") auto
  qed
qed

lemma lists_append:
  assumes ok: "lists_ok n cap lk L" and h: "h \<in> heads n" and i: "i < cap" "\<not> placed n L i"
  shows "lists_ok n cap (link_append h (Node i) lk) (L(h := L h @ [i]))"
    and "placed n (L(h := L h @ [i])) j \<longleftrightarrow> placed n L j \<or> j = i"
proof -
  let ?lk = "link_append h (Node i) lk" and ?L = "L(h := L h @ [i])"
  have r: "ring lk h (map Node (L h))" using ok h by (simp add: lists_ok_def)
  have ni: "Node i \<notin> set (h # map Node (L h))" using i(2) h head_not_node [OF h, of i] by (auto simp: placed_def)
  note a = append_ring [OF r ni]
  have dis: "set (L k) \<inter> set (L h) = {}" "i \<notin> set (L k)" if "k \<in> heads n" "k \<noteq> h" for k
    using ok h that i by (auto simp: lists_ok_def placed_def)
  show pl: "placed n ?L j \<longleftrightarrow> placed n L j \<or> j = i" for j using h by (auto simp: placed_def)
  have other: "ring ?lk k (map Node (L k))" if k: "k \<in> heads n" "k \<noteq> h" for k
  proof (rule ring_frame [of lk])
    show "ring lk k (map Node (L k))" using ok k by (simp add: lists_ok_def)
    fix x assume x: "x \<in> set (k # map Node (L k))"
    show "?lk x = lk x"
      by (rule a(2)) (use x k h dis [OF k] head_not_node in \<open>auto simp: heads_def\<close>)
  qed
  have free: "ring ?lk (Node j) []" if "j < cap" "\<not> placed n L j" "j \<noteq> i" for j
  proof (rule ring_frame [of lk])
    show "ring lk (Node j) []" using ok that by (simp add: lists_ok_def)
    fix x assume "x \<in> set [Node j]"
    then show "?lk x = lk x"
      using that h head_not_node [OF h] by (intro a(2)) (auto simp: placed_def)
  qed
  show "lists_ok n cap ?lk ?L"
    unfolding lists_ok_def pl
  proof (intro conjI ballI allI impI)
    fix k assume k: "k \<in> heads n"
    show "ring ?lk k (map Node (?L k))" using a(1) other [OF k] by (cases "k = h") simp_all
    show "set (?L k) \<subseteq> {..< cap}" using lists_okD(2) [OF ok k] lists_okD(2) [OF ok h] i by auto
    fix m assume m: "m \<in> heads n" "k \<noteq> m"
    show "set (?L k) \<inter> set (?L m) = {}" using lists_okD(3) [OF ok k m] dis(2) [OF k] dis(2) [OF m(1)] m(2) by auto
  next
    fix j assume "j < cap" "\<not> (placed n L j \<or> j = i)"
    then show "ring ?lk (Node j) []" using free by simp
  qed
qed

lemma lists_snapshot:
  assumes ok: "lists_ok n cap lk L" and b: "b < n" and P: "L Pending = []"
  shows "lists_ok n cap (snapshot_bucket Pending (Bucket b) lk) (L(Pending := L (Bucket b), Bucket b := []))"
    and "placed n (L(Pending := L (Bucket b), Bucket b := [])) j \<longleftrightarrow> placed n L j"
proof -
  let ?lk = "snapshot_bucket Pending (Bucket b) lk" and ?L = "L(Pending := L (Bucket b), Bucket b := [])"
  have hd: "Pending \<in> heads n" "Bucket b \<in> heads n" using b by (auto simp: heads_def)
  have r: "ring lk Pending []" "ring lk (Bucket b) (map Node (L (Bucket b)))"
    using lists_okD(1) [OF ok hd(1)] lists_okD(1) [OF ok hd(2)] P by simp_all
  have pb: "Pending \<noteq> Bucket b" "Pending \<notin> set (map Node (L (Bucket b)))" by auto
  note s = snapshot_ring [OF r pb]
  have dis: "set (L k) \<inter> set (L (Bucket b)) = {}" if "k \<in> heads n" "k \<noteq> Bucket b" for k
    using lists_okD(3) [OF ok that(1) hd(2) that(2)] .
  show pl: "placed n ?L j \<longleftrightarrow> placed n L j" for j
  proof
    assume "placed n ?L j"
    then obtain k where "k \<in> heads n" "j \<in> set (?L k)" by (auto simp: placed_def)
    then show "placed n L j" using hd unfolding placed_def by (cases "k = Pending"; cases "k = Bucket b") auto
  next
    assume "placed n L j"
    then obtain k where k: "k \<in> heads n" "j \<in> set (L k)" by (auto simp: placed_def)
    show "placed n ?L j" unfolding placed_def
      by (rule bexI [of _ "if k = Bucket b then Pending else k"]) (use k hd P in auto)
  qed
  have other: "ring ?lk k (map Node (L k))" if k: "k \<in> heads n" "k \<noteq> Bucket b" "k \<noteq> Pending" for k
  proof (rule ring_frame [of lk])
    show "ring lk k (map Node (L k))" using ok k by (simp add: lists_ok_def)
    fix x assume x: "x \<in> set (k # map Node (L k))"
    show "?lk x = lk x"
      by (rule s(3)) (use x k dis [OF k(1,2)] in \<open>auto simp: heads_def\<close>)
  qed
  have free: "ring ?lk (Node j) []" if "j < cap" "\<not> placed n L j" for j
  proof (rule ring_frame [of lk])
    show "ring lk (Node j) []" using ok that by (simp add: lists_ok_def)
    fix x assume "x \<in> set [Node j]"
    then show "?lk x = lk x" using that hd by (intro s(3)) (auto simp: placed_def)
  qed
  show "lists_ok n cap ?lk ?L"
    unfolding lists_ok_def pl
  proof (intro conjI ballI allI impI)
    fix k assume k: "k \<in> heads n"
    show "ring ?lk k (map Node (?L k))" using s(1,2) other [OF k] by simp
    show "set (?L k) \<subseteq> {..< cap}" using lists_okD(2) [OF ok k] lists_okD(2) [OF ok hd(2)] by simp
    fix m assume m: "m \<in> heads n" "k \<noteq> m"
    show "set (?L k) \<inter> set (?L m) = {}" using lists_okD(3) [OF ok k m] dis [OF k] dis [OF m(1)] m(2) by auto
  next
    fix j assume "j < cap" "\<not> placed n L j"
    then show "ring ?lk (Node j) []" using free by simp
  qed
qed

subsection \<open>The invariant\<close>

abbreviation own :: "vireo_timer_wheel \<Rightarrow> vireo_timer_handle_owner" where "own w \<equiv> the (wh_owner w)"
abbreviation cap :: "vireo_timer_wheel \<Rightarrow> nat" where "cap w \<equiv> unat (wh_timer_capacity w)"
abbreviation buckets :: "vireo_timer_wheel \<Rightarrow> nat" where "buckets w \<equiv> unat (wh_bucket_count w)"
abbreviation active :: "vireo_timer_wheel \<Rightarrow> nat \<Rightarrow> bool" where "active w i \<equiv> os_active (ho_slots (own w) ! i)"
abbreviation due :: "vireo_timer_wheel \<Rightarrow> nat \<Rightarrow> nat" where "due w i \<equiv> unat (wn_due_tick (wheel_node w i))"

definition frontier :: "vireo_timer_wheel \<Rightarrow> nat" where
  "frontier w = (if wh_processing w then unat (wh_completed_tick w) + 1 else unat (wh_completed_tick w))"

definition target :: "vireo_timer_wheel \<Rightarrow> nat" where
  "target w = last_tick (wh_geometry w) (unat (wh_latest_now_ns w))"

definition slot_handle :: "vireo_timer_handle_owner \<Rightarrow> nat \<Rightarrow> vireo_timer_handle" where
  "slot_handle ow i = (if os_active (ho_slots ow ! i)
     then \<lparr>th_owner_id = ho_owner_id ow, th_slot_index = word_of_nat i, th_generation = os_generation (ho_slots ow ! i)\<rparr>
     else zero_handle)"

text \<open>Owner and nodes agree.\<close>

definition wheel_table :: "vireo_timer_wheel \<Rightarrow> bool" where
  "wheel_table w \<longleftrightarrow> wh_owner w \<noteq> None \<and> owner_inv (own w) \<and> ho_capacity (own w) = wh_timer_capacity w \<and>
     (\<exists>ns. wh_nodes w = Some ns \<and> length ns = cap w) \<and>
     (\<forall>i < cap w. wn_handle (wheel_node w i) = slot_handle (own w) i)"

text \<open>The clock of the wheel never runs ahead of the time it was given.\<close>

definition wheel_clock :: "vireo_timer_wheel \<Rightarrow> bool" where
  "wheel_clock w \<longleftrightarrow> geometry_valid (wh_geometry w) \<and> wh_bucket_count w = bucket_count (wh_geometry w) \<and>
     origin_ns (wh_geometry w) \<le> wh_latest_now_ns w \<and> frontier w \<le> target w"

text \<open>The due tick of an active timer is its deadline, rounded up.\<close>

definition wheel_due :: "vireo_timer_wheel \<Rightarrow> bool" where
  "wheel_due w \<longleftrightarrow> (\<forall>i < cap w. active w i \<longrightarrow>
     due w i = least_tick (wh_geometry w) (unat (wn_deadline_ns (wheel_node w i))) \<and>
     unat (wn_bucket_index (wheel_node w i)) = due w i mod buckets w)"

text \<open>The rings hold exactly the active timers, but for those in \<open>X\<close>.\<close>

definition wheel_rings :: "nat set \<Rightarrow> vireo_timer_wheel \<Rightarrow> (link_ref \<Rightarrow> nat list) \<Rightarrow> bool" where
  "wheel_rings X w L \<longleftrightarrow> lists_ok (buckets w) (cap w) (wh_links w) L \<and>
     (\<forall>i < cap w. placed (buckets w) L i \<longleftrightarrow> active w i \<and> i \<notin> X) \<and>
     (\<forall>i < cap w. wn_ready (wheel_node w i) \<longleftrightarrow> i \<in> set (L Ready)) \<and>
     unat (wh_ready_count w) = length (L Ready)"

text \<open>A timer is in the ready ring exactly when its tick has been reached.\<close>

definition wheel_order :: "vireo_timer_wheel \<Rightarrow> (link_ref \<Rightarrow> nat list) \<Rightarrow> bool" where
  "wheel_order w L \<longleftrightarrow>
     (\<forall>b < buckets w. \<forall>i \<in> set (L (Bucket b)). unat (wn_bucket_index (wheel_node w i)) = b \<and> frontier w < due w i) \<and>
     (\<forall>i \<in> set (L Pending). unat (wh_completed_tick w) < due w i) \<and>
     (\<forall>i \<in> set (L Ready). due w i \<le> frontier w) \<and> (L Pending \<noteq> [] \<longrightarrow> wh_processing w)"

definition wheel_stop :: "vireo_timer_wheel \<Rightarrow> bool" where
  "wheel_stop w \<longleftrightarrow> unat (wh_shutdown_cursor w) \<le> cap w \<and> (\<not> wh_stopping w \<longrightarrow> wh_shutdown_cursor w = 0) \<and>
     (\<forall>i < unat (wh_shutdown_cursor w). \<not> active w i)"

definition wheel_okx :: "nat set \<Rightarrow> vireo_timer_wheel \<Rightarrow> (link_ref \<Rightarrow> nat list) \<Rightarrow> bool" where
  "wheel_okx X w L \<longleftrightarrow> wheel_table w \<and> wheel_clock w \<and> wheel_due w \<and> wheel_rings X w L \<and> wheel_order w L \<and> wheel_stop w"

abbreviation wheel_ok :: "vireo_timer_wheel \<Rightarrow> (link_ref \<Rightarrow> nat list) \<Rightarrow> bool" where
  "wheel_ok w L \<equiv> wheel_okx {} w L"

lemma set_node_frame [simp]:
  "wh_geometry (set_node i n w) = wh_geometry w" "wh_links (set_node i n w) = wh_links w"
  "wh_bucket_count (set_node i n w) = wh_bucket_count w" "wh_owner (set_node i n w) = wh_owner w"
  "wh_timer_capacity (set_node i n w) = wh_timer_capacity w" "wh_latest_now_ns (set_node i n w) = wh_latest_now_ns w"
  "wh_completed_tick (set_node i n w) = wh_completed_tick w" "wh_processing (set_node i n w) = wh_processing w"
  "wh_ready_count (set_node i n w) = wh_ready_count w" "wh_stopping (set_node i n w) = wh_stopping w"
  "wh_shutdown_cursor (set_node i n w) = wh_shutdown_cursor w"
  "wh_nodes (set_node i n w) = map_option (\<lambda>ns. ns[i := n]) (wh_nodes w)"
  by (simp_all add: set_node_def)

lemma wheel_node_frame [simp]:
  "wheel_node (w\<lparr>wh_links := lk\<rparr>) i = wheel_node w i" "wheel_node (w\<lparr>wh_owner := ow\<rparr>) i = wheel_node w i"
  "wheel_node (w\<lparr>wh_ready_count := c\<rparr>) i = wheel_node w i" "wheel_node (w\<lparr>wh_completed_tick := t\<rparr>) i = wheel_node w i"
  "wheel_node (w\<lparr>wh_processing := p\<rparr>) i = wheel_node w i" "wheel_node (w\<lparr>wh_latest_now_ns := n\<rparr>) i = wheel_node w i"
  "wheel_node (w\<lparr>wh_stopping := p\<rparr>) i = wheel_node w i" "wheel_node (w\<lparr>wh_shutdown_cursor := c\<rparr>) i = wheel_node w i"
  by (simp_all add: wheel_node_def)

lemma wheel_node_set:
  "wheel_table w \<Longrightarrow> j < cap w \<Longrightarrow> wheel_node (set_node i n w) j = (if j = i then n else wheel_node w j)"
  by (auto simp: wheel_node_def wheel_table_def nth_list_update)

lemma frontier_frame [simp]:
  "frontier (set_node i n w) = frontier w" "frontier (w\<lparr>wh_links := lk\<rparr>) = frontier w"
  "frontier (w\<lparr>wh_owner := ow\<rparr>) = frontier w" "frontier (w\<lparr>wh_ready_count := c\<rparr>) = frontier w"
  "frontier (w\<lparr>wh_latest_now_ns := t\<rparr>) = frontier w" "frontier (w\<lparr>wh_stopping := p\<rparr>) = frontier w"
  "frontier (w\<lparr>wh_shutdown_cursor := c'\<rparr>) = frontier w"
  by (simp_all add: frontier_def)

lemma target_frame [simp]:
  "target (set_node i n w) = target w" "target (w\<lparr>wh_links := lk\<rparr>) = target w"
  "target (w\<lparr>wh_owner := ow\<rparr>) = target w" "target (w\<lparr>wh_ready_count := c\<rparr>) = target w"
  "target (w\<lparr>wh_stopping := p\<rparr>) = target w" "target (w\<lparr>wh_shutdown_cursor := c'\<rparr>) = target w"
  "target (w\<lparr>wh_completed_tick := t\<rparr>) = target w" "target (w\<lparr>wh_processing := p\<rparr>) = target w"
  by (simp_all add: target_def)

lemma target_lt: "target w < 2 ^ 64"
proof -
  have "target w \<le> unat (wh_latest_now_ns w)" unfolding target_def last_tick_def
    by (metis div_le_dividend diff_le_self le_trans)
  then show ?thesis using unat_lt_64 [of "wh_latest_now_ns w"] by simp
qed

lemma frontier_word:
  assumes "wheel_clock w"
  shows "unat (if wh_processing w then wh_completed_tick w + 1 else wh_completed_tick w) = frontier w"
proof -
  have "unat (wh_completed_tick w) + 1 < 2 ^ 64" if "wh_processing w"
    using assms that target_lt [of w] by (simp add: wheel_clock_def frontier_def)
  then show ?thesis using unat_add_less [of "wh_completed_tick w" 1] by (simp add: frontier_def)
qed

lemma wheel_bucket:
  assumes "wheel_clock w" and "wheel_due w" and "i < cap w" and "active w i"
  shows "unat (wn_bucket_index (wheel_node w i)) < buckets w"
proof -
  have "0 < buckets w" using assms(1) by (simp add: wheel_clock_def geometry_valid_def unat_gt_0)
  then show ?thesis using assms(2-4) by (simp add: wheel_due_def)
qed

subsection \<open>Placing a node\<close>

definition place_head :: "vireo_timer_wheel \<Rightarrow> nat \<Rightarrow> link_ref" where
  "place_head w i = (if due w i \<le> frontier w then Ready else Bucket (unat (wn_bucket_index (wheel_node w i))))"

lemma place_eq:
  assumes "wheel_clock w"
  shows "vireo_timer_wheel_place_node w i =
    (set_node i ((wheel_node w i)\<lparr>wn_ready := due w i \<le> frontier w\<rparr>) w)
      \<lparr>wh_links := link_append (place_head w i) (Node i) (wh_links w),
       wh_ready_count := (if due w i \<le> frontier w then wh_ready_count w + 1 else wh_ready_count w)\<rparr>"
proof -
  have "wn_due_tick (wheel_node w i) \<le> (if wh_processing w then wh_completed_tick w + 1 else wh_completed_tick w) \<longleftrightarrow>
      due w i \<le> frontier w"
    using frontier_word [OF assms] by (simp add: word_le_nat_alt)
  then show ?thesis by (simp add: vireo_timer_wheel_place_node_def Let_def place_head_def)
qed

lemma place_ok:
  assumes ok: "wheel_okx {i} w L" and i: "i < cap w" "active w i"
  shows "wheel_ok (vireo_timer_wheel_place_node w i) (L(place_head w i := L (place_head w i) @ [i]))"
proof -
  let ?h = "place_head w i" and ?w = "vireo_timer_wheel_place_node w i"
  let ?L = "L(?h := L ?h @ [i])" and ?n = "(wheel_node w i)\<lparr>wn_ready := due w i \<le> frontier w\<rparr>"
  have p: "wheel_table w" "wheel_clock w" "wheel_due w" "wheel_rings {i} w L" "wheel_order w L" "wheel_stop w"
    using ok by (simp_all add: wheel_okx_def)
  note w = place_eq [OF p(2), of i]
  have node: "wheel_node ?w j = (if j = i then ?n else wheel_node w j)" if "j < cap w" for j
    unfolding w using wheel_node_set [OF p(1) that] by simp
  have hd: "?h \<in> heads (buckets w)"
    using wheel_bucket [OF p(2,3) i] by (auto simp: place_head_def heads_def)
  have li: "lists_ok (buckets w) (cap w) (wh_links w) L" "\<not> placed (buckets w) L i"
    and ri: "\<forall>j < cap w. placed (buckets w) L j \<longleftrightarrow> active w j \<and> j \<notin> {i}"
      "\<forall>j < cap w. wn_ready (wheel_node w j) \<longleftrightarrow> j \<in> set (L Ready)" "unat (wh_ready_count w) = length (L Ready)"
    using p(4) i by (simp_all add: wheel_rings_def)
  note app = lists_append [OF li(1) hd i(1) li(2)]
  have sub: "set (L h) \<subseteq> {..< cap w}" if "h \<in> heads (buckets w)" for h using lists_okD(2) [OF li(1) that] .
  have hR: "Ready \<in> heads (buckets w)" "Pending \<in> heads (buckets w)" by (simp_all add: heads_def)
  have notin: "i \<notin> set (L h)" if "h \<in> heads (buckets w)" for h using li(2) that by (auto simp: placed_def)
  have "wheel_table ?w"
    using p(1) node unfolding w wheel_table_def by (auto simp: wheel_table_def)
  moreover have "wheel_clock ?w" using p(2) unfolding w by (simp add: wheel_clock_def)
  moreover have "wheel_due ?w"
  proof -
    have "wn_due_tick (wheel_node ?w j) = wn_due_tick (wheel_node w j) \<and> wn_deadline_ns (wheel_node ?w j) = wn_deadline_ns (wheel_node w j) \<and>
      wn_bucket_index (wheel_node ?w j) = wn_bucket_index (wheel_node w j)" if "j < cap w" for j
      using node [OF that] by simp
    moreover have "wh_geometry ?w = wh_geometry w" "cap ?w = cap w" "own ?w = own w" "buckets ?w = buckets w" unfolding w by simp_all
    ultimately show ?thesis using p(3) by (simp add: wheel_due_def)
  qed
  moreover have "wheel_rings {} ?w ?L"
  proof -
    have cnt: "unat (wh_ready_count w + 1) = unat (wh_ready_count w) + 1"
    proof (rule trans [OF unat_add_less])
      have "length (L Ready) = card (set (L Ready))" using list_distinct [OF li(1) hR(1)] by (simp add: distinct_card)
      also have "\<dots> \<le> card {..< cap w}" by (rule card_mono) (use sub [OF hR(1)] in auto)
      finally have "unat (wh_ready_count w) \<le> cap w" using ri(3) by simp
      moreover have "cap w < 2 ^ 64 - 1"
        using p(1) by (auto simp: wheel_table_def owner_inv_def slots_inv_def)
      ultimately show "unat (wh_ready_count w) + unat (1 :: size_t) < 2 ^ LENGTH(64)" by simp
    qed simp
    have "lists_ok (buckets w) (cap w) (wh_links ?w) ?L" using app(1) unfolding w by simp
    moreover have "\<forall>j < cap w. placed (buckets w) ?L j \<longleftrightarrow> active w j \<and> j \<notin> {}" using app(2) ri(1) i by auto
    moreover have "\<forall>j < cap w. wn_ready (wheel_node ?w j) \<longleftrightarrow> j \<in> set (?L Ready)"
      using node ri(2) notin [OF hR(1)] by (auto simp: place_head_def)
    moreover have "unat (wh_ready_count ?w) = length (?L Ready)"
      using ri(3) cnt unfolding w by (simp add: place_head_def)
    moreover have "cap ?w = cap w" "own ?w = own w" "buckets ?w = buckets w" unfolding w by simp_all
    ultimately show ?thesis unfolding wheel_rings_def by simp
  qed
  moreover have "wheel_order ?w ?L"
  proof -
    have fr: "frontier ?w = frontier w" "wh_completed_tick ?w = wh_completed_tick w" "wh_processing ?w = wh_processing w"
      "buckets ?w = buckets w" unfolding w by simp_all
    have same: "wn_due_tick (wheel_node ?w j) = wn_due_tick (wheel_node w j)"
      "wn_bucket_index (wheel_node ?w j) = wn_bucket_index (wheel_node w j)" if "j < cap w" for j
      using node [OF that] by simp_all
    have inb: "j < cap w" if "j \<in> set (L h)" "h \<in> heads (buckets w)" for j h using sub that by blast
    have B: "unat (wn_bucket_index (wheel_node ?w j)) = b \<and> frontier w < due ?w j"
      if "b < buckets w" "j \<in> set (?L (Bucket b))" for b j
    proof (cases "j = i")
      case True
      then have "\<not> due w i \<le> frontier w \<and> b = unat (wn_bucket_index (wheel_node w i))"
        using that notin [of "Bucket b"] by (auto simp: place_head_def heads_def split: if_splits)
      then show ?thesis using True same [OF i(1)] by simp
    next
      case False
      then have j: "j \<in> set (L (Bucket b))" using that(2) by (auto split: if_splits)
      then have "j < cap w" using inb that(1) by (auto simp: heads_def)
      then show ?thesis using same j p(5) that(1) by (simp add: wheel_order_def)
    qed
    have R: "due ?w j \<le> frontier w" if "j \<in> set (?L Ready)" for j
    proof (cases "j = i")
      case True
      then have "due w i \<le> frontier w" using that notin [OF hR(1)] by (auto simp: place_head_def split: if_splits)
      then show ?thesis using True same [OF i(1)] by simp
    next
      case False
      then have j: "j \<in> set (L Ready)" using that by (auto split: if_splits)
      then show ?thesis using same [OF inb [OF j hR(1)]] p(5) by (simp add: wheel_order_def)
    qed
    have P: "?L Pending = L Pending" by (simp add: place_head_def)
    show ?thesis unfolding wheel_order_def fr P
      using B R p(5) same(1) inb [OF _ hR(2)] by (simp add: wheel_order_def)
  qed
  moreover have "wheel_stop ?w" using p(6) unfolding w by (simp add: wheel_stop_def)
  ultimately show ?thesis by (simp add: wheel_okx_def)
qed

subsection \<open>Unlinking a node\<close>

definition unlink :: "vireo_timer_wheel \<Rightarrow> nat \<Rightarrow> vireo_timer_wheel" where
  "unlink w i =
     (let w = w\<lparr>wh_links := link_detach (Node i) (wh_links w)\<rparr>
      in if wn_ready (wheel_node w i)
         then set_node i ((wheel_node w i)\<lparr>wn_ready := False\<rparr>) (w\<lparr>wh_ready_count := wh_ready_count w - 1\<rparr>)
         else w)"

lemma unlink_frame [simp]:
  "wh_geometry (unlink w i) = wh_geometry w" "wh_bucket_count (unlink w i) = wh_bucket_count w"
  "wh_owner (unlink w i) = wh_owner w" "wh_timer_capacity (unlink w i) = wh_timer_capacity w"
  "wh_latest_now_ns (unlink w i) = wh_latest_now_ns w" "wh_completed_tick (unlink w i) = wh_completed_tick w"
  "wh_processing (unlink w i) = wh_processing w" "wh_stopping (unlink w i) = wh_stopping w"
  "wh_shutdown_cursor (unlink w i) = wh_shutdown_cursor w" "frontier (unlink w i) = frontier w"
  "target (unlink w i) = target w" "wh_links (unlink w i) = link_detach (Node i) (wh_links w)"
  by (simp_all add: unlink_def Let_def)

lemma unlink_node:
  assumes "wheel_table w" and "j < cap w"
  shows "wheel_node (unlink w i) j = (if j = i then (wheel_node w i)\<lparr>wn_ready := False\<rparr> else wheel_node w j)"
proof -
  have t: "wheel_table (w\<lparr>wh_links := lk, wh_ready_count := c\<rparr>)" for lk c using assms(1) by (simp add: wheel_table_def)
  have "wheel_node (set_node i n (w\<lparr>wh_links := lk, wh_ready_count := c\<rparr>)) j = (if j = i then n else wheel_node w j)" for n lk c
    using wheel_node_set [OF t [where lk = lk and c = c], where j = j and i = i and n = n] assms(2) by simp
  then show ?thesis by (auto simp: unlink_def Let_def)
qed

lemma unlink_table: "wheel_table w \<Longrightarrow> wheel_table (unlink w i)"
proof -
  assume t: "wheel_table w"
  have "\<exists>ns. wh_nodes (unlink w i) = Some ns \<and> length ns = cap w" using t by (auto simp: unlink_def Let_def wheel_table_def)
  then show ?thesis using t unlink_node [OF t] by (simp add: wheel_table_def)
qed

lemma unlink_ok:
  assumes ok: "wheel_ok w L" and i: "i < cap w" and h: "h \<in> heads (buckets w)" and L: "L h = xs @ i # ys"
  shows "wheel_okx {i} (unlink w i) (L(h := xs @ ys))"
proof -
  let ?w = "unlink w i" and ?L = "L(h := xs @ ys)"
  have p: "wheel_table w" "wheel_clock w" "wheel_due w" "wheel_rings {} w L" "wheel_order w L" "wheel_stop w"
    using ok by (simp_all add: wheel_okx_def)
  note node = unlink_node [OF p(1), of _ i]
  have li: "lists_ok (buckets w) (cap w) (wh_links w) L"
    and ri: "\<forall>j < cap w. placed (buckets w) L j \<longleftrightarrow> active w j"
      "\<forall>j < cap w. wn_ready (wheel_node w j) \<longleftrightarrow> j \<in> set (L Ready)" "unat (wh_ready_count w) = length (L Ready)"
    using p(4) by (simp_all add: wheel_rings_def)
  note det = lists_detach [OF li h L]
  have sub: "set (L k) \<subseteq> {..< cap w}" if "k \<in> heads (buckets w)" for k using lists_okD(2) [OF li that] .
  have hR: "Ready \<in> heads (buckets w)" "Pending \<in> heads (buckets w)" by (simp_all add: heads_def)
  have ready: "wn_ready (wheel_node w i) \<longleftrightarrow> h = Ready"
  proof
    assume "wn_ready (wheel_node w i)"
    then have "i \<in> set (L Ready)" using ri(2) i by simp
    then show "h = Ready" using lists_okD(3) [OF li h hR(1)] L by auto
  qed (use ri(2) i L in simp)
  have same: "wn_due_tick (wheel_node ?w j) = wn_due_tick (wheel_node w j)"
    "wn_bucket_index (wheel_node ?w j) = wn_bucket_index (wheel_node w j)"
    "wn_deadline_ns (wheel_node ?w j) = wn_deadline_ns (wheel_node w j)" if "j < cap w" for j
    using node [OF that] by simp_all
  have "wheel_clock ?w" using p(2) by (simp add: wheel_clock_def)
  moreover have "wheel_due ?w" using p(3) same by (simp add: wheel_due_def)
  moreover have "wheel_rings {i} ?w ?L"
  proof -
    have "\<forall>j < cap w. placed (buckets w) ?L j \<longleftrightarrow> active w j \<and> j \<notin> {i}" using det(2) ri(1) by simp
    moreover have di: "i \<notin> set (xs @ ys)" using list_distinct [OF li h] L by simp
    then have "\<forall>j < cap w. wn_ready (wheel_node ?w j) \<longleftrightarrow> j \<in> set (?L Ready)"
      using node ri(2) ready L by auto
    moreover have "unat (wh_ready_count ?w) = length (?L Ready)"
    proof (cases "h = Ready")
      case True
      then have "wh_ready_count ?w = wh_ready_count w - 1" using ready by (simp add: unlink_def Let_def)
      moreover have "unat (wh_ready_count w) = Suc (length (xs @ ys))" using ri(3) L True by simp
      moreover from this have "wh_ready_count w \<noteq> 0" by auto
      ultimately show ?thesis using True by (simp add: unat_minus_one)
    next
      case False
      then show ?thesis using ready ri(3) by (simp add: unlink_def Let_def)
    qed
    ultimately show ?thesis using det(1) unfolding wheel_rings_def by simp
  qed
  moreover have "wheel_order ?w ?L"
  proof -
    have sL: "set (?L k) \<subseteq> set (L k)" for k using L by auto
    have inb: "j < cap w" if "j \<in> set (?L k)" "k \<in> heads (buckets w)" for j k using sub [OF that(2)] sL [of k] that(1) by blast
    have B: "unat (wn_bucket_index (wheel_node ?w j)) = b \<and> frontier w < due ?w j"
      if "b < buckets w" "j \<in> set (?L (Bucket b))" for b j
      using same [OF inb [OF that(2)]] that sL [of "Bucket b"] p(5) by (auto simp: wheel_order_def heads_def)
    have R: "due ?w j \<le> frontier w" if "j \<in> set (?L Ready)" for j
      using same [OF inb [OF that hR(1)]] that sL [of Ready] p(5) by (auto simp: wheel_order_def)
    have P: "unat (wh_completed_tick w) < due ?w j" if "j \<in> set (?L Pending)" for j
      using same [OF inb [OF that hR(2)]] that sL [of Pending] p(5) by (auto simp: wheel_order_def)
    have "?L Pending \<noteq> [] \<longrightarrow> wh_processing w" using p(5) L by (auto simp: wheel_order_def)
    then show ?thesis using B R P by (simp add: wheel_order_def)
  qed
  moreover have "wheel_stop ?w" using p(6) by (simp add: wheel_stop_def)
  ultimately show ?thesis using unlink_table [OF p(1)] by (simp add: wheel_okx_def)
qed

lemma placed_split:
  assumes "wheel_ok w L" and "i < cap w" and "active w i"
  obtains h xs ys where "h \<in> heads (buckets w)" and "L h = xs @ i # ys"
proof -
  have "placed (buckets w) L i" using assms by (simp add: wheel_okx_def wheel_rings_def)
  then obtain h where "h \<in> heads (buckets w)" "i \<in> set (L h)" by (auto simp: placed_def)
  then show thesis using that by (meson split_list)
qed

subsection \<open>Changing the table\<close>

text \<open>The timer data of one unplaced node change.\<close>

definition timed :: "vireo_timer_wheel \<Rightarrow> vireo_timer_wheel_node \<Rightarrow> bool" where
  "timed w n \<longleftrightarrow> unat (wn_due_tick n) = least_tick (wh_geometry w) (unat (wn_deadline_ns n)) \<and>
     unat (wn_bucket_index n) = unat (wn_due_tick n) mod buckets w"

lemma retime_ok:
  assumes ok: "wheel_okx {i} w L" and i: "i < cap w" and n: "timed w n"
    and same: "wn_handle n = wn_handle (wheel_node w i)" "wn_ready n = wn_ready (wheel_node w i)"
  shows "wheel_okx {i} (set_node i n w) L"
proof -
  have p: "wheel_table w" "wheel_clock w" "wheel_due w" "wheel_rings {i} w L" "wheel_order w L" "wheel_stop w"
    using ok by (simp_all add: wheel_okx_def)
  note node = wheel_node_set [OF p(1), of _ i n]
  have li: "lists_ok (buckets w) (cap w) (wh_links w) L" "\<not> placed (buckets w) L i"
    using p(4) i by (simp_all add: wheel_rings_def)
  have nd: "wheel_node (set_node i n w) j = wheel_node w j" if "j \<in> set (L h)" "h \<in> heads (buckets w)" for j h
  proof -
    have "j < cap w" using lists_okD(2) [OF li(1) that(2)] that(1) by blast
    moreover have "j \<noteq> i" using li(2) that by (auto simp: placed_def)
    ultimately show ?thesis using node [of j] by simp
  qed
  have hR: "Ready \<in> heads (buckets w)" "Pending \<in> heads (buckets w)" by (simp_all add: heads_def)
  have "wheel_table (set_node i n w)" using p(1) node same(1) unfolding wheel_table_def by auto
  moreover have "wheel_clock (set_node i n w)" using p(2) by (simp add: wheel_clock_def)
  moreover have "wheel_due (set_node i n w)" using p(3) n node by (simp add: wheel_due_def timed_def)
  moreover have "wheel_rings {i} (set_node i n w) L" using p(4) node same(2) by (simp add: wheel_rings_def)
  moreover have "wheel_order (set_node i n w) L"
    using p(5) nd [OF _ hR(1)] nd [OF _ hR(2)] nd by (simp add: wheel_order_def heads_def)
  moreover have "wheel_stop (set_node i n w)" using p(6) by (simp add: wheel_stop_def)
  ultimately show ?thesis by (simp add: wheel_okx_def)
qed

text \<open>An unplaced node gives its identity back.\<close>

lemma slot_handle_live:
  assumes "owner_inv ow" and "i < length (ho_slots ow)" and "os_active (ho_slots ow ! i)"
  shows "slot_handle ow i \<in> owner_live ow" and "unat (th_slot_index (slot_handle ow i)) = i"
proof -
  have len: "length (ho_slots ow) = unat (ho_capacity ow)" using assms(1) by (simp add: owner_inv_def)
  then have "unat (word_of_nat i :: size_t) = i" using assms(2) unat_lt_64 [of "ho_capacity ow"] by (simp add: unat_of_nat)
  then show "slot_handle ow i \<in> owner_live ow" "unat (th_slot_index (slot_handle ow i)) = i"
    using assms(2,3) len by (simp_all add: slot_handle_def owner_live_def word_less_nat_alt)
qed

lemma live_slot_handle:
  assumes "owner_inv ow" and "h \<in> owner_live ow"
  shows "slot_handle ow (unat (th_slot_index h)) = h" and "unat (th_slot_index h) < length (ho_slots ow)"
    and "os_active (ho_slots ow ! unat (th_slot_index h))"
  using owner_live_issued(2) [OF assms] assms(2)
  by (auto simp: slot_handle_def owner_live_def intro!: vireo_timer_handle.equality)

lemma drop_ok:
  assumes ok: "wheel_okx {i} w L" and i: "i < cap w" "active w i"
    and n: "wn_handle n = zero_handle" "\<not> wn_ready n"
  shows "wheel_ok (set_node i n (w\<lparr>wh_owner := Some (owner_released (slot_handle (own w) i) (own w))\<rparr>)) L"
proof -
  let ?h = "slot_handle (own w) i"
  let ?ow = "owner_released ?h (own w)"
  let ?w = "set_node i n (w\<lparr>wh_owner := Some ?ow\<rparr>)"
  have p: "wheel_table w" "wheel_clock w" "wheel_due w" "wheel_rings {i} w L" "wheel_order w L" "wheel_stop w"
    using ok by (simp_all add: wheel_okx_def)
  have own: "owner_inv (own w)" "ho_capacity (own w) = wh_timer_capacity w" "length (ho_slots (own w)) = cap w"
    using p(1) by (simp_all add: wheel_table_def owner_inv_def)
  have h: "?h \<in> owner_live (own w)" "unat (th_slot_index ?h) = i"
    using slot_handle_live [OF own(1)] i own(3) by simp_all
  have slots: "ho_slots ?ow ! j = (if j = i then (ho_slots (own w) ! i)\<lparr>os_active := False, os_next_free := ho_free_head (own w)\<rparr>
      else ho_slots (own w) ! j)" if "j < cap w" for j
    using that h(2) own(3) by (simp add: owner_released_def Let_def nth_list_update)
  have act: "os_active (ho_slots ?ow ! j) \<longleftrightarrow> active w j \<and> j \<noteq> i" if "j < cap w" for j using slots [OF that] by simp
  have node: "wheel_node ?w j = (if j = i then n else wheel_node w j)" if "j < cap w" for j
  proof -
    have "wheel_node (set_node i n (w\<lparr>wh_owner := x\<rparr>)) j = wheel_node (set_node i n w) j" for x
      by (simp add: wheel_node_def)
    then show ?thesis using wheel_node_set [OF p(1) that] by simp
  qed
  have li: "lists_ok (buckets w) (cap w) (wh_links w) L" "\<not> placed (buckets w) L i"
    using p(4) i by (simp_all add: wheel_rings_def)
  have nd: "wheel_node ?w j = wheel_node w j" if "j \<in> set (L k)" "k \<in> heads (buckets w)" for j k
  proof -
    have "j < cap w" using lists_okD(2) [OF li(1) that(2)] that(1) by blast
    moreover have "j \<noteq> i" using li(2) that by (auto simp: placed_def)
    ultimately show ?thesis using node [of j] by simp
  qed
  have hR: "Ready \<in> heads (buckets w)" "Pending \<in> heads (buckets w)" by (simp_all add: heads_def)
  have "slot_handle ?ow j = (if j = i then zero_handle else slot_handle (own w) j)" if "j < cap w" for j
    using slots [OF that] by (simp add: slot_handle_def owner_released_def Let_def)
  then have "wheel_table ?w"
    using p(1) node n(1) owner_released_inv(1) [OF own(1) h(1)] unfolding wheel_table_def
    by (auto simp: owner_released_def Let_def)
  moreover have "wheel_clock ?w" using p(2) by (simp add: wheel_clock_def)
  moreover have "wheel_due ?w" using p(3) node act by (simp add: wheel_due_def)
  moreover have "wheel_rings {} ?w L"
    using p(4) node act n(2) li(2) hR(1) by (auto simp: wheel_rings_def placed_def)
  moreover have "wheel_order ?w L"
    using p(5) nd [OF _ hR(1)] nd [OF _ hR(2)] nd by (simp add: wheel_order_def heads_def)
  moreover have "wheel_stop ?w" using p(6) act by (simp add: wheel_stop_def)
  ultimately show ?thesis by (simp add: wheel_okx_def)
qed

text \<open>A new identity is taken and its node filled in.\<close>

lemma claim_ok:
  assumes ok: "wheel_ok w L" and gen: "ho_last_generation (own w) \<noteq> UINT64_MAX" and head: "ho_free_head (own w) \<noteq> SIZE_MAX"
    and i: "i = unat (ho_free_head (own w))" and run: "\<not> wh_stopping w"
    and n: "timed w n" "wn_ready n = wn_ready (wheel_node w i)"
      "wn_handle n = \<lparr>th_owner_id = ho_owner_id (own w), th_slot_index = ho_free_head (own w),
        th_generation = ho_last_generation (own w) + 1\<rparr>"
  shows "wheel_okx {i} (set_node i n (w\<lparr>wh_owner := Some (owner_acquired (own w))\<rparr>)) L"
    and "i < cap w" and "os_active (ho_slots (owner_acquired (own w)) ! i)" and "\<not> active w i"
proof -
  let ?ow = "owner_acquired (own w)"
  let ?w = "set_node i n (w\<lparr>wh_owner := Some ?ow\<rparr>)"
  have p: "wheel_table w" "wheel_clock w" "wheel_due w" "wheel_rings {} w L" "wheel_order w L" "wheel_stop w"
    using ok by (simp_all add: wheel_okx_def)
  have own: "owner_inv (own w)" "ho_capacity (own w) = wh_timer_capacity w" "length (ho_slots (own w)) = cap w"
    using p(1) by (simp_all add: wheel_table_def owner_inv_def)
  note acq = owner_acquired_inv [OF own(1) gen head]
  show ic: "i < cap w" and inact: "\<not> active w i" using acq(3,4) own(3) i by simp_all
  have slots: "ho_slots ?ow ! j = (if j = i then (ho_slots (own w) ! i)\<lparr>os_generation := ho_last_generation (own w) + 1, os_active := True\<rparr>
      else ho_slots (own w) ! j)" if "j < cap w" for j
    using that i own(3) by (simp add: owner_acquired_def Let_def nth_list_update)
  have act: "os_active (ho_slots ?ow ! j) \<longleftrightarrow> active w j \<or> j = i" if "j < cap w" for j using slots [OF that] by simp
  then show "os_active (ho_slots ?ow ! i)" using ic by simp
  have node: "wheel_node ?w j = (if j = i then n else wheel_node w j)" if "j < cap w" for j
  proof -
    have "wheel_node (set_node i n (w\<lparr>wh_owner := x\<rparr>)) j = wheel_node (set_node i n w) j" for x
      by (simp add: wheel_node_def)
    then show ?thesis using wheel_node_set [OF p(1) that] by simp
  qed
  have li: "lists_ok (buckets w) (cap w) (wh_links w) L" "\<not> placed (buckets w) L i"
    using p(4) ic inact by (simp_all add: wheel_rings_def)
  have nd: "wheel_node ?w j = wheel_node w j" if "j \<in> set (L k)" "k \<in> heads (buckets w)" for j k
  proof -
    have "j < cap w" using lists_okD(2) [OF li(1) that(2)] that(1) by blast
    moreover have "j \<noteq> i" using li(2) that by (auto simp: placed_def)
    ultimately show ?thesis using node [of j] by simp
  qed
  have hR: "Ready \<in> heads (buckets w)" "Pending \<in> heads (buckets w)" by (simp_all add: heads_def)
  have id: "ho_owner_id ?ow = ho_owner_id (own w)" by (simp add: owner_acquired_def Let_def)
  have "slot_handle ?ow j = (if j = i then wn_handle n else slot_handle (own w) j)" if "j < cap w" for j
    using slots [OF that] n(3) i id unfolding slot_handle_def by (cases "j = i") simp_all
  then have "wheel_table ?w"
    using p(1) node acq(1) unfolding wheel_table_def by (auto simp: owner_acquired_def Let_def)
  moreover have "wheel_clock ?w" using p(2) by (simp add: wheel_clock_def)
  moreover have "wheel_due ?w" using p(3) node act n(1) by (simp add: wheel_due_def timed_def)
  moreover have "wheel_rings {i} ?w L"
    using p(4) node act n(2) inact by (auto simp: wheel_rings_def)
  moreover have "wheel_order ?w L"
    using p(5) nd [OF _ hR(1)] nd [OF _ hR(2)] nd by (simp add: wheel_order_def heads_def)
  moreover have "wheel_stop ?w" using p(6) run by (simp add: wheel_stop_def)
  ultimately show "wheel_okx {i} ?w L" by (simp add: wheel_okx_def)
qed

subsection \<open>Operations on one timer\<close>

text \<open>The timers of a wheel, and those already found expired.\<close>

definition timers :: "vireo_timer_wheel \<Rightarrow> vireo_timer_handle \<Rightarrow> vireo_monotonic_ns option" where
  "timers w h = (if wh_owner w \<noteq> None \<and> h \<in> owner_live (own w)
     then Some (wn_deadline_ns (wheel_node w (unat (th_slot_index h)))) else None)"

definition ready_timers :: "vireo_timer_wheel \<Rightarrow> vireo_timer_handle set" where
  "ready_timers w = {h. wh_owner w \<noteq> None \<and> h \<in> owner_live (own w) \<and> wn_ready (wheel_node w (unat (th_slot_index h)))}"

lemma deadline_values_OK:
  assumes "wheel_clock w" and "deadline_values w now d = (VIREO_OK, t, b)"
  shows "unat t = least_tick (wh_geometry w) (unat d)" and "unat b = unat t mod buckets w" and "now < d"
    and "origin_ns (wh_geometry w) \<le> now"
proof -
  let ?g = "wh_geometry w"
  have g: "geometry_valid ?g" "wh_bucket_count w = bucket_count ?g" using assms(1) by (simp_all add: wheel_clock_def)
  have v: "\<not> now < origin_ns ?g" "\<not> d \<le> now" "tick_at ?g (least_tick ?g (unat d)) < 2 ^ 64"
    "t = word_of_nat (least_tick ?g (unat d))" "b = t mod bucket_count ?g"
    using assms(2) g(1) by (auto simp: deadline_values_def deadline_tick_eq vireo_timer_wheel_bucket_index_def
        vireo_checked_u64_to_size_def Let_def split: if_splits)
  have "0 < unat (tick_ns ?g)" using g(1) by (simp add: geometry_valid_def unat_gt_0)
  then have "least_tick ?g (unat d) \<le> tick_at ?g (least_tick ?g (unat d))" by (simp add: tick_at_def trans_le_add2)
  then show "unat t = least_tick ?g (unat d)" using v(3,4) by (simp add: unat_of_nat)
  show "unat b = unat t mod buckets w" using v(5) g(2) by (simp add: unat_mod)
  show "now < d" "origin_ns ?g \<le> now" using v(1,2) by simp_all
qed

lemma validate_slot_eq:
  assumes "wheel_table w"
  shows "validate_slot w h = vireo_timer_handle_owner_validate (wh_owner w) h"
    and "validate_slot w h = VIREO_OK \<longleftrightarrow> h \<in> owner_live (own w)"
proof -
  obtain ow where ow: "wh_owner w = Some ow" "owner_inv ow" "ho_capacity ow = wh_timer_capacity w"
    using assms by (auto simp: wheel_table_def)
  have rng: "\<not> th_slot_index h \<ge> wh_timer_capacity w" if "vireo_timer_handle_owner_validate (Some ow) h = VIREO_OK"
    using that ow(3) owner_validate_eq [OF ow(2), of h] by (auto simp: owner_live_def not_le split: if_splits)
  have bad: "vireo_timer_handle_owner_validate (Some ow) h = VIREO_RESULT_INVALID_ARGUMENT" if "\<not> handle_has_valid_shape h"
    using that by (simp add: vireo_timer_handle_owner_validate_def vireo_timer_handle_is_empty_def)
  show eq: "validate_slot w h = vireo_timer_handle_owner_validate (wh_owner w) h"
    using rng bad by (cases "handle_has_valid_shape h") (simp_all add: validate_slot_def ow(1) vireo_timer_handle_is_empty_def Let_def)
  show "validate_slot w h = VIREO_OK \<longleftrightarrow> h \<in> owner_live (own w)"
    unfolding eq using owner_validate_eq [OF ow(2), of h] ow(1) by simp
qed

end
