(* ===== verification/Timer_Wheel_Ops.thy ===== *)
theory Timer_Wheel_Ops
  imports Timer_Wheel_Inv
begin

text \<open>
  What register, cancel, rearm and take-expired do to the set of timers, on every branch.
\<close>

lemma okD:
  assumes "wheel_okx X w L"
  shows "wheel_table w" and "wheel_clock w" and "wheel_due w" and "wheel_rings X w L" and "wheel_order w L" and "wheel_stop w"
  using assms by (simp_all add: wheel_okx_def)

lemma table_owner:
  assumes "wheel_table w"
  obtains ow where "wh_owner w = Some ow" and "owner_inv ow" and "ho_capacity ow = wh_timer_capacity w"
    and "length (ho_slots ow) = cap w"
  using assms by (auto simp: wheel_table_def owner_inv_def)

lemma live_index:
  assumes "wheel_table w" and "h \<in> owner_live (own w)"
  shows "unat (th_slot_index h) < cap w" and "active w (unat (th_slot_index h))"
    and "wn_handle (wheel_node w (unat (th_slot_index h))) = h"
proof -
  obtain ow where ow: "wh_owner w = Some ow" "owner_inv ow" "length (ho_slots ow) = cap w"
    using assms(1) by (rule table_owner)
  note l = live_slot_handle [OF ow(2), of h]
  show "unat (th_slot_index h) < cap w" "active w (unat (th_slot_index h))" using l assms(2) ow(1,3) by simp_all
  then show "wn_handle (wheel_node w (unat (th_slot_index h))) = h"
    using assms(1) l(1) assms(2) ow(1) by (simp add: wheel_table_def)
qed

lemma same_index:
  assumes "wheel_table w" and "h \<in> owner_live (own w)" and "k \<in> owner_live (own w)"
    and "unat (th_slot_index h) = unat (th_slot_index k)"
  shows "h = k"
  using live_index(3) [OF assms(1,2)] live_index(3) [OF assms(1,3)] assms(4) by metis

text \<open>A timer whose tick lies at or before the frontier has expired.\<close>

lemma due_expired:
  assumes "wheel_clock w" and "due w i = least_tick (wh_geometry w) (unat d)" and "due w i \<le> frontier w"
  shows "d \<le> wh_latest_now_ns w"
proof -
  let ?g = "wh_geometry w"
  have g: "tick_ns ?g \<noteq> 0" "origin_ns ?g \<le> wh_latest_now_ns w" "frontier w \<le> target w"
    using assms(1) by (simp_all add: wheel_clock_def geometry_valid_def)
  have "unat d \<le> tick_at ?g (due w i)" using least_tick_iff [OF g(1), of "unat d" "due w i"] assms(2) by simp
  also have "\<dots> \<le> unat (wh_latest_now_ns w)"
    using last_tick_iff [OF g(1), of "unat (wh_latest_now_ns w)" "due w i"] g assms(3)
    by (simp add: target_def word_le_nat_alt)
  finally show ?thesis by (simp add: word_le_nat_alt)
qed

lemma ready_iff:
  assumes "wheel_ok w L" and "i < cap w" and "active w i"
  shows "wn_ready (wheel_node w i) \<Longrightarrow> due w i \<le> frontier w"
    and "\<not> wn_ready (wheel_node w i) \<Longrightarrow> unat (wh_completed_tick w) < due w i"
proof -
  note ok = okD [OF assms(1)]
  have r: "wn_ready (wheel_node w i) \<longleftrightarrow> i \<in> set (L Ready)" using ok(4) assms(2) by (simp add: wheel_rings_def)
  show "due w i \<le> frontier w" if "wn_ready (wheel_node w i)" using that r ok(5) by (simp add: wheel_order_def)
  assume nr: "\<not> wn_ready (wheel_node w i)"
  obtain h xs ys where h: "h \<in> heads (buckets w)" "L h = xs @ i # ys" using placed_split [OF assms] .
  then have i: "i \<in> set (L h)" by simp
  have "h \<noteq> Ready" using nr r i by auto
  then consider b where "h = Bucket b" "b < buckets w" | "h = Pending" using h(1) by (auto simp: heads_def)
  then show "unat (wh_completed_tick w) < due w i"
  proof cases
    case 1
    then have "frontier w < due w i" using ok(5) i by (simp add: wheel_order_def)
    then show ?thesis by (auto simp: frontier_def split: if_splits)
  next
    case 2
    then show ?thesis using ok(5) i by (simp add: wheel_order_def)
  qed
qed

subsection \<open>Cancel\<close>

lemma cancel_eq:
  assumes "wheel_table w"
  shows "vireo_timer_wheel_cancel (Some w) (Some h) =
    (if h \<in> owner_live (own w)
     then (VIREO_OK, Some (set_node (unat (th_slot_index h))
         ((wheel_node (unlink w (unat (th_slot_index h))) (unat (th_slot_index h)))
            \<lparr>wn_handle := zero_handle, wn_deadline_ns := 0, wn_due_tick := 0, wn_bucket_index := 0\<rparr>)
         ((unlink w (unat (th_slot_index h)))\<lparr>wh_owner := Some (owner_released h (own w))\<rparr>)), Some zero_handle)
     else (vireo_timer_handle_owner_validate (wh_owner w) h, Some w, Some h))"
proof -
  obtain ow where ow: "wh_owner w = Some ow" "owner_inv ow" using assms by (rule table_owner)
  have own: "owner_release_native ow h = (VIREO_OK, owner_released h ow, zero_handle)" if "h \<in> owner_live ow"
    using that by (simp add: owner_release_native_def owner_release_eq [OF ow(2)])
  let ?i = "unat (th_slot_index h)"
  have comm: "set_node i n (v\<lparr>wh_owner := x\<rparr>) = (set_node i n v)\<lparr>wh_owner := x\<rparr>" for i n x and v :: vireo_timer_wheel
    by (simp add: set_node_def)
  show ?thesis
  proof (cases "h \<in> owner_live (own w)")
    case True
    then have v: "validate_slot w h = VIREO_OK" using validate_slot_eq(2) [OF assms] by simp
    have "h \<in> owner_live ow" using True ow(1) by simp
    from own [OF this] show ?thesis using True v ow(1)
      by (simp add: vireo_timer_wheel_cancel_def vireo_timer_wheel_cancel_runtime_def Let_def unlink_def comm wheel_node_def set_node_def)
  next
    case False
    then have "validate_slot w h \<noteq> VIREO_OK" using validate_slot_eq(2) [OF assms] by simp
    then show ?thesis using False validate_slot_eq(1) [OF assms]
      by (simp add: vireo_timer_wheel_cancel_def vireo_timer_wheel_cancel_runtime_def Let_def)
  qed
qed

lemma cancel_ok:
  assumes ok: "wheel_ok w L" and h: "h \<in> owner_live (own w)"
  obtains w' L' where "vireo_timer_wheel_cancel (Some w) (Some h) = (VIREO_OK, Some w', Some zero_handle)"
    and "wheel_ok w' L'" and "timers w' = (timers w)(h := None)" and "ready_timers w' = ready_timers w - {h}"
    and "own w' = owner_released h (own w)" and "wh_stopping w' = wh_stopping w"
    and "wh_latest_now_ns w' = wh_latest_now_ns w" and "wh_geometry w' = wh_geometry w"
    and "wh_shutdown_cursor w' = wh_shutdown_cursor w" and "wh_timer_capacity w' = wh_timer_capacity w"
    and "\<And>j. j < cap w \<Longrightarrow> j \<noteq> unat (th_slot_index h) \<Longrightarrow> wheel_node w' j = wheel_node w j"
    and "wn_handle (wheel_node w' (unat (th_slot_index h))) = zero_handle"
proof -
  let ?i = "unat (th_slot_index h)"
  let ?u = "unlink w ?i"
  let ?n = "(wheel_node ?u ?i)\<lparr>wn_handle := zero_handle, wn_deadline_ns := 0, wn_due_tick := 0, wn_bucket_index := 0\<rparr>"
  let ?w = "set_node ?i ?n (?u\<lparr>wh_owner := Some (owner_released h (own w))\<rparr>)"
  note t = okD(1) [OF ok]
  obtain ow where ow: "wh_owner w = Some ow" "owner_inv ow" using t by (rule table_owner)
  note idx = live_index [OF t h]
  obtain k xs ys where k: "k \<in> heads (buckets w)" "L k = xs @ ?i # ys" using placed_split [OF ok idx(1,2)] .
  have u: "wheel_okx {?i} ?u (L(k := xs @ ys))" using unlink_ok [OF ok idx(1) k] .
  have sh: "slot_handle (own ?u) ?i = h" using live_slot_handle(1) [OF ow(2)] h ow(1) by simp
  have nd: "wheel_node ?u j = (if j = ?i then (wheel_node w ?i)\<lparr>wn_ready := False\<rparr> else wheel_node w j)" if "j < cap w" for j
    using unlink_node [OF t that] .
  have ok': "wheel_ok ?w (L(k := xs @ ys))"
    using drop_ok [OF u, of ?n] idx nd [OF idx(1)] sh by simp
  have live: "owner_live (owner_released h (own w)) = owner_live (own w) - {h}"
    using owner_released_inv(2) [OF ow(2)] h ow(1) by simp
  have tu: "wheel_table (?u\<lparr>wh_owner := Some x\<rparr>)" if "owner_inv x" "ho_capacity x = wh_timer_capacity w"
    "\<forall>i < cap w. wn_handle (wheel_node ?u i) = slot_handle x i" for x
    using unlink_table [OF t] that by (simp add: wheel_table_def)
  have node: "wheel_node ?w j = (if j = ?i then ?n else wheel_node w j)" if "j < cap w" for j
  proof -
    have "wheel_node (set_node ?i ?n (?u\<lparr>wh_owner := x\<rparr>)) j = wheel_node (set_node ?i ?n ?u) j" for x
      by (simp add: wheel_node_def)
    moreover have "wheel_node (set_node ?i ?n ?u) j = (if j = ?i then ?n else wheel_node ?u j)"
      using wheel_node_set [OF unlink_table [OF t], of j ?i ?i ?n] that by simp
    ultimately show ?thesis using nd [OF that] by simp
  qed
  have other: "wheel_node ?w (unat (th_slot_index m)) = wheel_node w (unat (th_slot_index m))"
    if "m \<in> owner_live (own w)" "m \<noteq> h" for m
    using node [OF live_index(1) [OF t that(1)]] same_index [OF t that(1) h] that(2) by auto
  have T: "timers ?w = (timers w)(h := None)"
    using other live ow(1) by (auto simp: timers_def fun_eq_iff)
  have R: "ready_timers ?w = ready_timers w - {h}"
    using other live ow(1) by (auto simp: ready_timers_def)
  show thesis
    by (rule that [of ?w "L(k := xs @ ys)", OF _ ok' T R]) (use cancel_eq [OF t, of h] h node idx(1) in auto)
qed

subsection \<open>Register\<close>

lemma place_frame [simp]:
  "wh_geometry (vireo_timer_wheel_place_node w i) = wh_geometry w"
  "wh_bucket_count (vireo_timer_wheel_place_node w i) = wh_bucket_count w"
  "wh_owner (vireo_timer_wheel_place_node w i) = wh_owner w"
  "wh_timer_capacity (vireo_timer_wheel_place_node w i) = wh_timer_capacity w"
  "wh_latest_now_ns (vireo_timer_wheel_place_node w i) = wh_latest_now_ns w"
  "wh_completed_tick (vireo_timer_wheel_place_node w i) = wh_completed_tick w"
  "wh_processing (vireo_timer_wheel_place_node w i) = wh_processing w"
  "wh_stopping (vireo_timer_wheel_place_node w i) = wh_stopping w"
  "wh_shutdown_cursor (vireo_timer_wheel_place_node w i) = wh_shutdown_cursor w"
  by (simp_all add: vireo_timer_wheel_place_node_def Let_def)

lemma place_node:
  assumes "wheel_table w" and "wheel_clock w" and "j < cap w"
  shows "wheel_node (vireo_timer_wheel_place_node w i) j =
    (if j = i then (wheel_node w i)\<lparr>wn_ready := due w i \<le> frontier w\<rparr> else wheel_node w j)"
  unfolding place_eq [OF assms(2)] using wheel_node_set [OF assms(1,3)] by simp

text \<open>The result code of a registration, in the order in which the code looks.\<close>

definition register_code :: "vireo_timer_wheel \<Rightarrow> vireo_monotonic_ns \<Rightarrow> vireo_monotonic_ns \<Rightarrow> vireo_result" where
  "register_code w now d =
     (if wh_stopping w then VIREO_RESULT_CANCELLED
      else if fst (deadline_values w now d) \<noteq> VIREO_OK then fst (deadline_values w now d)
      else if ho_last_generation (own w) = UINT64_MAX then VIREO_RESULT_OVERFLOW
      else if ho_free_head (own w) = SIZE_MAX then VIREO_RESULT_BUSY
      else VIREO_OK)"

lemma zero_handle_empty: "vireo_timer_handle_is_empty zero_handle (Some e) = (VIREO_OK, Some True)"
  by (simp add: vireo_timer_handle_is_empty_def handle_has_valid_shape_def zero_handle_def Let_def)

lemma register_fails:
  assumes "wheel_table w" and "register_code w now d \<noteq> VIREO_OK"
  shows "vireo_timer_wheel_register (Some w) now d (Some zero_handle) = (register_code w now d, Some w, Some zero_handle)"
proof -
  obtain ow where ow: "wh_owner w = Some ow" "owner_inv ow" using assms(1) by (rule table_owner)
  obtain rc t b where dv: "deadline_values w now d = (rc, t, b)" by (metis prod_cases3)
  have "w\<lparr>wh_owner := Some ow\<rparr> = w" using ow(1) by simp
  then show ?thesis using assms(2) dv ow(1)
    by (auto simp: vireo_timer_wheel_register_def vireo_timer_wheel_register_runtime_def zero_handle_empty register_code_def
        owner_acquire_native_def owner_acquire_eq)
qed

lemma register_ok:
  assumes ok: "wheel_ok w L" and rc: "register_code w now d = VIREO_OK"
  obtains w' L' h where "vireo_timer_wheel_register (Some w) now d (Some zero_handle) = (VIREO_OK, Some w', Some h)"
    and "wheel_ok w' L'" and "h \<notin> owner_issued (own w)" and "h \<in> owner_issued (own w')" and "owner_issued (own w) \<subseteq> owner_issued (own w')"
    and "timers w' = (timers w)(h \<mapsto> d)"
    and "ready_timers w' = ready_timers w \<or> d \<le> wh_latest_now_ns w \<and> ready_timers w' = insert h (ready_timers w)"
    and "now < d" and "wh_latest_now_ns w' = wh_latest_now_ns w" and "wh_stopping w' = wh_stopping w" and "wh_geometry w' = wh_geometry w"
proof -
  note p = okD [OF ok]
  obtain ow where ow: "wh_owner w = Some ow" "owner_inv ow" using p(1) by (rule table_owner)
  obtain t b where dv: "deadline_values w now d = (VIREO_OK, t, b)" and run: "\<not> wh_stopping w"
    and gen: "ho_last_generation (own w) \<noteq> UINT64_MAX" and head: "ho_free_head (own w) \<noteq> SIZE_MAX"
    using rc by (cases "deadline_values w now d") (auto simp: register_code_def split: if_splits)
  note dvo = deadline_values_OK [OF p(2) dv]
  let ?h = "\<lparr>th_owner_id = ho_owner_id ow, th_slot_index = ho_free_head ow, th_generation = ho_last_generation ow + 1\<rparr>"
  let ?i = "unat (ho_free_head ow)" and ?ow = "owner_acquired ow"
  let ?n = "(wheel_node w ?i)\<lparr>wn_handle := ?h, wn_deadline_ns := d, wn_due_tick := t, wn_bucket_index := b\<rparr>"
  let ?u = "set_node ?i ?n (w\<lparr>wh_owner := Some ?ow\<rparr>)"
  let ?w = "vireo_timer_wheel_place_node ?u ?i"
  have timed: "timed w ?n" using dvo(1,2) by (simp add: timed_def)
  have own: "own w = ow" using ow(1) by simp
  have n: "wn_ready ?n = wn_ready (wheel_node w ?i)" "wn_handle ?n = \<lparr>th_owner_id = ho_owner_id (own w), th_slot_index = ho_free_head (own w),
        th_generation = ho_last_generation (own w) + 1\<rparr>" by (simp_all add: own)
  have i: "?i = unat (ho_free_head (own w))" by (simp add: own)
  note c = claim_ok [OF ok gen head i run timed n, unfolded own]
  have icap: "?i < cap ?u" and iact: "active ?u ?i" using c(2,3) by simp_all
  note okw = place_ok [OF c(1) icap iact]
  note tu = okD(1,2) [OF c(1)]
  have eq: "vireo_timer_wheel_register (Some w) now d (Some zero_handle) = (VIREO_OK, Some ?w, Some ?h)"
    using dv run gen head ow(1)
    by (simp add: vireo_timer_wheel_register_def vireo_timer_wheel_register_runtime_def zero_handle_empty
        owner_acquire_native_def owner_acquire_eq Let_def)
  have nu: "wheel_node ?u j = (if j = ?i then ?n else wheel_node w j)" if "j < cap w" for j
  proof -
    have "wheel_node (set_node ?i ?n (w\<lparr>wh_owner := x\<rparr>)) j = wheel_node (set_node ?i ?n w) j" for x
      by (simp add: wheel_node_def)
    then show ?thesis using wheel_node_set [OF p(1) that] by simp
  qed
  have nw: "wheel_node ?w j = (if j = ?i then ?n\<lparr>wn_ready := due ?u ?i \<le> frontier w\<rparr> else wheel_node w j)" if "j < cap w" for j
    using place_node [OF tu, of j ?i] nu [OF that] that nu [OF c(2)] by simp
  have take: "owner_take ow = (VIREO_OK, ?ow, ?h)" using gen head ow(1) by (simp add: owner_take_def owner_acquire_eq)
  note lease = timer_leases.take_OK [OF ow(2) take]
  have live: "owner_live ?ow = insert ?h (owner_live ow)" "?h \<notin> owner_live ow"
    using lease owner_live_issued(1) [OF ow(2)] by blast+
  have other: "wheel_node ?w (unat (th_slot_index m)) = wheel_node w (unat (th_slot_index m))" if "m \<in> owner_live ow" for m
  proof -
    have m: "m \<in> owner_live (own w)" using that own by simp
    have "unat (th_slot_index m) \<noteq> ?i" using live_index(2) [OF p(1) m] c(4) own by auto
    then show ?thesis using nw [OF live_index(1) [OF p(1) m]] by simp
  qed
  have T: "timers ?w = (timers w)(?h \<mapsto> d)"
    using other live nw [OF c(2)] ow(1) by (auto simp: timers_def fun_eq_iff)
  have du: "due ?u ?i = least_tick (wh_geometry ?u) (unat d)" using nu [OF c(2)] dvo(1) by simp
  have R: "ready_timers ?w = (if due ?u ?i \<le> frontier w then insert ?h (ready_timers w) else ready_timers w)"
    using other live nw [OF c(2)] ow(1) by (auto simp: ready_timers_def)
  have "d \<le> wh_latest_now_ns w" if "due ?u ?i \<le> frontier w" using due_expired [OF tu(2) du] that by simp
  then have R': "ready_timers ?w = ready_timers w \<or> d \<le> wh_latest_now_ns w \<and> ready_timers ?w = insert ?h (ready_timers w)"
    using R by (cases "due ?u ?i \<le> frontier w") simp_all
  show thesis
    by (rule that [OF eq okw _ _ _ T R' dvo(3)]) (use lease own in auto)
qed

subsection \<open>Rearm\<close>

lemma rearm_fails:
  assumes t: "wheel_table w"
    and bad: "h \<notin> owner_live (own w) \<or> wh_stopping w \<or> fst (deadline_values w now d) \<noteq> VIREO_OK"
  obtains rc where "vireo_timer_wheel_rearm (Some w) h now d = (rc, Some w)" and "rc \<noteq> VIREO_OK"
proof -
  obtain rc t b where dv: "deadline_values w now d = (rc, t, b)" by (metis prod_cases3)
  have "validate_slot w h = VIREO_OK \<longleftrightarrow> h \<in> owner_live (own w)" using validate_slot_eq(2) [OF t] .
  then have "\<exists>rc. vireo_timer_wheel_rearm (Some w) h now d = (rc, Some w) \<and> rc \<noteq> VIREO_OK"
    using bad dv by (auto simp: vireo_timer_wheel_rearm_def Let_def)
  then show thesis using that by blast
qed

lemma rearm_ok:
  assumes ok: "wheel_ok w L" and h: "h \<in> owner_live (own w)" and run: "\<not> wh_stopping w"
    and dv: "fst (deadline_values w now d) = VIREO_OK"
  obtains w' L' where "vireo_timer_wheel_rearm (Some w) h now d = (VIREO_OK, Some w')" and "wheel_ok w' L'"
    and "timers w' = (timers w)(h \<mapsto> d)" and "now < d"
    and "ready_timers w' = ready_timers w - {h} \<or> d \<le> wh_latest_now_ns w \<and> ready_timers w' = insert h (ready_timers w)"
    and "wh_owner w' = wh_owner w" and "wh_latest_now_ns w' = wh_latest_now_ns w" and "wh_stopping w' = wh_stopping w"
    and "wh_geometry w' = wh_geometry w"
proof -
  note p = okD [OF ok]
  obtain ow where ow: "wh_owner w = Some ow" "owner_inv ow" using p(1) by (rule table_owner)
  obtain t b where dv: "deadline_values w now d = (VIREO_OK, t, b)"
    using dv by (cases "deadline_values w now d") auto
  note dvo = deadline_values_OK [OF p(2) dv]
  let ?i = "unat (th_slot_index h)"
  let ?u = "unlink w ?i"
  let ?n = "(wheel_node ?u ?i)\<lparr>wn_deadline_ns := d, wn_due_tick := t, wn_bucket_index := b\<rparr>"
  let ?v = "set_node ?i ?n ?u"
  let ?w = "vireo_timer_wheel_place_node ?v ?i"
  note idx = live_index [OF p(1) h]
  obtain k xs ys where k: "k \<in> heads (buckets w)" "L k = xs @ ?i # ys" using placed_split [OF ok idx(1,2)] .
  have u: "wheel_okx {?i} ?u (L(k := xs @ ys))" using unlink_ok [OF ok idx(1) k] .
  have v: "wheel_okx {?i} ?v (L(k := xs @ ys))"
    by (rule retime_ok [OF u]) (use idx dvo in \<open>simp_all add: timed_def\<close>)
  have icap: "?i < cap ?v" and iact: "active ?v ?i" using idx by simp_all
  note okw = place_ok [OF v icap iact]
  note tv = okD(1,2) [OF v] and tu = okD(1,2) [OF u]
  have eq: "vireo_timer_wheel_rearm (Some w) h now d = (VIREO_OK, Some ?w)"
    using dv run validate_slot_eq(2) [OF p(1), of h] h
    by (simp add: vireo_timer_wheel_rearm_def Let_def unlink_def)
  have nv: "wheel_node ?v j = (if j = ?i then ?n else wheel_node w j)" if "j < cap w" for j
    using wheel_node_set [OF tu(1), of j ?i ?n] unlink_node [OF p(1) that, of ?i] that by simp
  have nw: "wheel_node ?w j = (if j = ?i then ?n\<lparr>wn_ready := due ?v ?i \<le> frontier w\<rparr> else wheel_node w j)" if "j < cap w" for j
    using place_node [OF tv, of j ?i] nv [OF that] that nv [OF idx(1)] by simp
  have other: "wheel_node ?w (unat (th_slot_index m)) = wheel_node w (unat (th_slot_index m))"
    if "m \<in> owner_live (own w)" "m \<noteq> h" for m
    using nw [OF live_index(1) [OF p(1) that(1)]] same_index [OF p(1) that(1) h] that(2) by auto
  have T: "timers ?w = (timers w)(h \<mapsto> d)"
    using other nw [OF idx(1)] h ow(1) by (auto simp: timers_def fun_eq_iff)
  have du: "due ?v ?i = least_tick (wh_geometry ?v) (unat d)" using nv [OF idx(1)] dvo(1) by simp
  have mem: "m \<in> ready_timers ?w \<longleftrightarrow> (if m = h then due ?v ?i \<le> frontier w else m \<in> ready_timers w)" for m
    using other [of m] nw [OF idx(1)] h ow(1) by (cases "m = h"; cases "m \<in> owner_live (own w)") (simp_all add: ready_timers_def)
  have R: "ready_timers ?w = (if due ?v ?i \<le> frontier w then insert h (ready_timers w) else ready_timers w - {h})"
    unfolding set_eq_iff mem by simp
  have "d \<le> wh_latest_now_ns w" if "due ?v ?i \<le> frontier w" using due_expired [OF tv(2) du] that by simp
  then have R': "ready_timers ?w = ready_timers w - {h} \<or> d \<le> wh_latest_now_ns w \<and> ready_timers ?w = insert h (ready_timers w)"
    using R by (cases "due ?v ?i \<le> frontier w") simp_all
  show thesis by (rule that [OF eq okw T dvo(3) R']) simp_all
qed

end
