(* ===== verification/Timer_Wheel_Advance.thy ===== *)
theory Timer_Wheel_Advance
  imports Timer_Wheel_Ops
begin

text \<open>
  Expiry: taking an expired timer, and the bounded advance. The potential \<open>work_left\<close> bounds the
  ticks and nodes that advancing to the current time still has to look at.
\<close>

lemma ready_ring:
  assumes ok: "wheel_ok w L"
  shows "ready_timers w = slot_handle (own w) ` set (L Ready)"
    and "lk_next (wh_links w Ready) = Ready \<longleftrightarrow> L Ready = []"
    and "L Ready = i # is \<Longrightarrow> node_from_link (lk_next (wh_links w Ready)) = i \<and> i < cap w \<and> active w i"
    and "L Pending = i # is \<Longrightarrow> node_from_link (lk_next (wh_links w Pending)) = i \<and> i < cap w \<and> active w i"
    and "lk_next (wh_links w Pending) = Pending \<longleftrightarrow> L Pending = []"
proof -
  note p = okD [OF ok]
  have hR: "Ready \<in> heads (buckets w)" "Pending \<in> heads (buckets w)" by (simp_all add: heads_def)
  have li: "lists_ok (buckets w) (cap w) (wh_links w) L" and act: "\<forall>j < cap w. placed (buckets w) L j \<longleftrightarrow> active w j"
    and rd: "\<forall>j < cap w. wn_ready (wheel_node w j) \<longleftrightarrow> j \<in> set (L Ready)"
    using p(4) by (simp_all add: wheel_rings_def)
  note r = lists_okD [OF li hR(1)] and q = lists_okD [OF li hR(2)]
  show "lk_next (wh_links w Ready) = Ready \<longleftrightarrow> L Ready = []" "lk_next (wh_links w Pending) = Pending \<longleftrightarrow> L Pending = []"
    using ring_Nil_iff(1) [OF r(1)] ring_Nil_iff(1) [OF q(1)] by simp_all
  have mem: "j < cap w \<and> active w j" if "j \<in> set (L h)" "h \<in> heads (buckets w)" for j h
    using lists_okD(2) [OF li that(2)] that act by (auto simp: placed_def)
  show "node_from_link (lk_next (wh_links w Ready)) = i \<and> i < cap w \<and> active w i" if "L Ready = i # is"
    using ring_first [of "wh_links w" Ready "Node i" "map Node is"] r(1) that mem [OF _ hR(1), of i] by simp
  show "node_from_link (lk_next (wh_links w Pending)) = i \<and> i < cap w \<and> active w i" if "L Pending = i # is"
    using ring_first [of "wh_links w" Pending "Node i" "map Node is"] q(1) that mem [OF _ hR(2), of i] by simp
  obtain ow where ow: "wh_owner w = Some ow" "owner_inv ow" "ho_capacity ow = wh_timer_capacity w" "length (ho_slots ow) = cap w"
    using p(1) by (rule table_owner)
  show "ready_timers w = slot_handle (own w) ` set (L Ready)"
  proof (intro set_eqI iffI)
    fix h assume "h \<in> ready_timers w"
    then have h: "h \<in> owner_live (own w)" "wn_ready (wheel_node w (unat (th_slot_index h)))" by (simp_all add: ready_timers_def)
    then have "unat (th_slot_index h) \<in> set (L Ready)" using rd live_index(1) [OF p(1) h(1)] by simp
    moreover have "slot_handle (own w) (unat (th_slot_index h)) = h" using live_slot_handle(1) [OF ow(2)] h(1) ow(1) by simp
    ultimately show "h \<in> slot_handle (own w) ` set (L Ready)" by (metis image_eqI)
  next
    fix h assume "h \<in> slot_handle (own w) ` set (L Ready)"
    then obtain j where j: "j \<in> set (L Ready)" "h = slot_handle (own w) j" by blast
    then have "j < cap w" "active w j" using mem hR(1) by blast+
    then show "h \<in> ready_timers w"
      using slot_handle_live [OF ow(2), of j] ow j rd by (simp add: ready_timers_def)
  qed
qed

lemma ready_expired:
  assumes "wheel_ok w L" and "h \<in> ready_timers w"
  shows "\<exists>d. timers w h = Some d \<and> d \<le> wh_latest_now_ns w"
proof -
  note p = okD [OF assms(1)]
  have h: "wh_owner w \<noteq> None" "h \<in> owner_live (own w)" "wn_ready (wheel_node w (unat (th_slot_index h)))"
    using assms(2) by (auto simp: ready_timers_def)
  note idx = live_index [OF p(1) h(2)]
  have "due w (unat (th_slot_index h)) = least_tick (wh_geometry w) (unat (wn_deadline_ns (wheel_node w (unat (th_slot_index h)))))"
    using p(3) idx by (simp add: wheel_due_def)
  from due_expired [OF p(2) this ready_iff(1) [OF assms(1) idx(1,2) h(3)]] show ?thesis
    using h by (simp add: timers_def)
qed

lemma take_expired_none:
  assumes "wheel_ok w L" and "ready_timers w = {}"
  shows "vireo_timer_wheel_take_expired (Some w) (Some out) = (VIREO_RESULT_NOT_FOUND, Some w, Some out)"
  using assms ready_ring(1,2) [OF assms(1)]
  by (simp add: vireo_timer_wheel_take_expired_def vireo_timer_wheel_take_expired_runtime_def Let_def)

lemma take_expired_ok:
  assumes ok: "wheel_ok w L" and ne: "ready_timers w \<noteq> {}"
  obtains w' L' e where "vireo_timer_wheel_take_expired (Some w) (Some out) = (VIREO_OK, Some w', Some e)"
    and "wheel_ok w' L'" and "ex_handle e \<in> ready_timers w" and "timers w (ex_handle e) = Some (ti_deadline_ns (ex_timer e))"
    and "timers w' = (timers w)(ex_handle e := None)" and "ready_timers w' = ready_timers w - {ex_handle e}"
    and "owner_issued (own w') = owner_issued (own w)" and "wh_stopping w' = wh_stopping w"
    and "wh_latest_now_ns w' = wh_latest_now_ns w" and "wh_geometry w' = wh_geometry w"
proof -
  note p = okD [OF ok]
  obtain ow where ow: "wh_owner w = Some ow" "owner_inv ow" "ho_capacity ow = wh_timer_capacity w" "length (ho_slots ow) = cap w"
    using p(1) by (rule table_owner)
  obtain i "is" where L: "L Ready = i # is" using ne ready_ring(1) [OF ok] by (cases "L Ready") auto
  note r = ready_ring(3) [OF ok L]
  let ?h = "slot_handle (own w) i" and ?e = "\<lparr>ex_handle = wn_handle (wheel_node w i), ex_timer = timer_info (wheel_node w i)\<rparr>"
  have h: "?h \<in> owner_live (own w)" "unat (th_slot_index ?h) = i" using slot_handle_live [OF ow(2), of i] r ow by simp_all
  have wn: "wn_handle (wheel_node w i) = ?h" using live_index(3) [OF p(1) h(1)] h(2) by simp
  obtain w' L' where c: "vireo_timer_wheel_cancel (Some w) (Some ?h) = (VIREO_OK, Some w', Some zero_handle)" "wheel_ok w' L'"
    "timers w' = (timers w)(?h := None)" "ready_timers w' = ready_timers w - {?h}" "own w' = owner_released ?h (own w)"
    "wh_stopping w' = wh_stopping w" "wh_latest_now_ns w' = wh_latest_now_ns w" "wh_geometry w' = wh_geometry w"
    using cancel_ok [OF ok h(1)] by metis
  have "vireo_timer_wheel_take_expired (Some w) (Some out) = (VIREO_OK, Some w', Some ?e)"
    using c(1) r ow(1) L ready_ring(2) [OF ok] wn
    by (simp add: vireo_timer_wheel_take_expired_def vireo_timer_wheel_take_expired_runtime_def vireo_timer_wheel_cancel_def Let_def)
  moreover have "?h \<in> ready_timers w" using ready_ring(1) [OF ok] L by simp
  moreover have "timers w ?h = Some (wn_deadline_ns (wheel_node w i))" using h ow(1) by (simp add: timers_def)
  moreover have "owner_issued (own w') = owner_issued (own w)"
    unfolding c(5) by (simp add: owner_issued_def owner_released_def Let_def)
  ultimately show thesis using that [of w' ?e L'] c wn by (simp add: timer_info_def)
qed

subsection \<open>The steps of the loop\<close>

text \<open>What no step of the loop changes.\<close>

definition steady :: "vireo_timer_wheel \<Rightarrow> vireo_timer_wheel \<Rightarrow> bool" where
  "steady w w' \<longleftrightarrow> timers w' = timers w \<and> ready_timers w \<subseteq> ready_timers w' \<and> wh_owner w' = wh_owner w \<and>
     wh_geometry w' = wh_geometry w \<and> wh_latest_now_ns w' = wh_latest_now_ns w \<and> wh_stopping w' = wh_stopping w \<and>
     wh_timer_capacity w' = wh_timer_capacity w \<and> frontier w \<le> frontier w'"

lemma steady_refl: "steady w w" by (simp add: steady_def)
lemma steady_trans: "steady u v \<Longrightarrow> steady v w \<Longrightarrow> steady u w" by (auto simp: steady_def)

definition work_left :: "vireo_timer_wheel \<Rightarrow> (link_ref \<Rightarrow> nat list) \<Rightarrow> nat" where
  "work_left w L = (target w - frontier w) * (cap w + 1) + length (L Pending)"

lemma timers_frame:
  assumes "wh_owner w' = wh_owner w" and "\<And>i. wheel_node w' i = wheel_node w i"
  shows "timers w' = timers w" and "ready_timers w' = ready_timers w"
  using assms by (auto simp: timers_def ready_timers_def)

lemma finish_tick_ok:
  assumes ok: "wheel_ok w L"
  shows "wheel_ok (finish_tick w) L" and "steady w (finish_tick w)" and "work_left (finish_tick w) L = work_left w L"
    and "wh_processing (finish_tick w) \<longleftrightarrow> L Pending \<noteq> []" and "frontier (finish_tick w) = frontier w"
proof -
  note p = okD [OF ok]
  have e: "pending_is_empty w \<longleftrightarrow> L Pending = []" using ready_ring(5) [OF ok] by (simp add: pending_is_empty_def)
  have pr: "L Pending \<noteq> [] \<Longrightarrow> wh_processing w" using p(5) by (simp add: wheel_order_def)
  then show "wh_processing (finish_tick w) \<longleftrightarrow> L Pending \<noteq> []" using e by (auto simp: finish_tick_def)
  show fr: "frontier (finish_tick w) = frontier w"
    using frontier_word [OF p(2)] by (cases "wh_processing w") (simp_all add: finish_tick_def frontier_def)
  have node: "wheel_node (finish_tick w) i = wheel_node w i" for i by (simp add: finish_tick_def)
  have fields: "wh_owner (finish_tick w) = wh_owner w" "wh_geometry (finish_tick w) = wh_geometry w"
    "wh_latest_now_ns (finish_tick w) = wh_latest_now_ns w" "wh_stopping (finish_tick w) = wh_stopping w"
    "wh_timer_capacity (finish_tick w) = wh_timer_capacity w" "wh_bucket_count (finish_tick w) = wh_bucket_count w"
    "wh_links (finish_tick w) = wh_links w" "wh_ready_count (finish_tick w) = wh_ready_count w"
    "wh_nodes (finish_tick w) = wh_nodes w" "wh_shutdown_cursor (finish_tick w) = wh_shutdown_cursor w"
    by (simp_all add: finish_tick_def)
  have tg: "target (finish_tick w) = target w" by (simp add: finish_tick_def)
  show "steady w (finish_tick w)" using timers_frame [OF fields(1) node] fields fr by (simp add: steady_def)
  show "work_left (finish_tick w) L = work_left w L" using fr tg fields by (simp add: work_left_def)
  have "wheel_order (finish_tick w) L"
    using p(5) e fr node fields unfolding wheel_order_def by (auto simp: finish_tick_def)
  then show "wheel_ok (finish_tick w) L"
    using p fr tg node fields
    by (simp add: wheel_okx_def wheel_table_def wheel_clock_def wheel_due_def wheel_rings_def wheel_stop_def)
qed

lemma start_tick_ok:
  assumes ok: "wheel_ok w L" and idle: "\<not> wh_processing w" and lt: "unat (wh_completed_tick w) < target w"
  obtains L' where "wheel_ok (start_tick w) L'" and "steady w (start_tick w)" and "wh_processing (start_tick w)"
    and "work_left (start_tick w) L' < work_left w L" and "frontier (start_tick w) = frontier w + 1"
proof -
  let ?b = "unat ((wh_completed_tick w + 1) mod bucket_count (wh_geometry w))"
  let ?w = "start_tick w" and ?L = "L(Pending := L (Bucket ?b), Bucket ?b := [])"
  note p = okD [OF ok]
  have n: "0 < buckets w" "wh_bucket_count w = bucket_count (wh_geometry w)"
    using p(2) by (auto simp: wheel_clock_def geometry_valid_def unat_gt_0)
  have c1: "unat (wh_completed_tick w + 1) = unat (wh_completed_tick w) + 1"
    using lt target_lt [of w] unat_add_less [of "wh_completed_tick w" 1] by simp
  then have b: "?b = (unat (wh_completed_tick w) + 1) mod buckets w" "?b < buckets w"
    using n by (simp_all add: unat_mod)
  have eq: "?w = w\<lparr>wh_links := snapshot_bucket Pending (Bucket ?b) (wh_links w), wh_processing := True\<rparr>"
    by (simp add: start_tick_def Let_def)
  have pend: "L Pending = []" using p(5) idle by (auto simp: wheel_order_def)
  have li: "lists_ok (buckets w) (cap w) (wh_links w) L" and act: "\<forall>j < cap w. placed (buckets w) L j \<longleftrightarrow> active w j"
    using p(4) by (simp_all add: wheel_rings_def)
  note sn = lists_snapshot [OF li b(2) pend]
  have fr0: "frontier w = unat (wh_completed_tick w)" using idle by (simp add: frontier_def)
  have fr: "frontier ?w = frontier w + 1" unfolding eq using idle by (simp add: frontier_def)
  have node: "wheel_node ?w i = wheel_node w i" for i unfolding eq by simp
  have tg: "target ?w = target w" unfolding eq by simp
  have fields: "wh_owner ?w = wh_owner w" "wh_geometry ?w = wh_geometry w" "wh_latest_now_ns ?w = wh_latest_now_ns w"
    "wh_stopping ?w = wh_stopping w" "wh_timer_capacity ?w = wh_timer_capacity w" "wh_bucket_count ?w = wh_bucket_count w"
    "wh_ready_count ?w = wh_ready_count w" "wh_nodes ?w = wh_nodes w" "wh_shutdown_cursor ?w = wh_shutdown_cursor w"
    "wh_completed_tick ?w = wh_completed_tick w" "wh_links ?w = snapshot_bucket Pending (Bucket ?b) (wh_links w)"
    unfolding eq by simp_all
  have st: "steady w ?w" using timers_frame [OF fields(1) node] fields fr by (simp add: steady_def)
  have hb: "Bucket ?b \<in> heads (buckets w)" using b(2) by (simp add: heads_def)
  have "wheel_order ?w ?L"
  proof -
    have B: "unat (wn_bucket_index (wheel_node w j)) = c \<and> frontier w + 1 < due w j"
      if c: "c < buckets w" "j \<in> set (?L (Bucket c))" for c j
    proof -
      have cb: "c \<noteq> ?b" and j: "j \<in> set (L (Bucket c))" using c(2) by (auto split: if_splits)
      have hc: "Bucket c \<in> heads (buckets w)" using c(1) by (simp add: heads_def)
      have "j < cap w" using lists_okD(2) [OF li hc] j by blast
      moreover from this have "active w j" using act j hc by (auto simp: placed_def)
      ultimately have "unat (wn_bucket_index (wheel_node w j)) = due w j mod buckets w" using p(3) by (simp add: wheel_due_def)
      moreover have o: "unat (wn_bucket_index (wheel_node w j)) = c" "frontier w < due w j" using p(5) c(1) j by (simp_all add: wheel_order_def)
      ultimately have "due w j \<noteq> frontier w + 1" using cb b(1) fr0 by auto
      then show ?thesis using o by simp
    qed
    have R: "due w j \<le> frontier w + 1" if "j \<in> set (L Ready)" for j using p(5) that by (auto simp: wheel_order_def)
    have P: "unat (wh_completed_tick w) < due w j" if "j \<in> set (L (Bucket ?b))" for j
      using p(5) that b(2) fr0 by (simp add: wheel_order_def)
    show ?thesis unfolding wheel_order_def node fr fields using B R P by (auto simp: eq)
  qed
  moreover have "wheel_rings {} ?w ?L"
    using p(4) sn node fields by (simp add: wheel_rings_def)
  moreover have "wheel_clock ?w" using p(2) lt fr0 fr tg fields by (simp add: wheel_clock_def)
  moreover have "wheel_table ?w" "wheel_due ?w" "wheel_stop ?w"
    using p(1,3,6) node fields by (simp_all add: wheel_table_def wheel_due_def wheel_stop_def)
  ultimately have okw: "wheel_ok ?w ?L" by (simp add: wheel_okx_def)
  have "length (L (Bucket ?b)) \<le> cap w"
  proof -
    have "length (L (Bucket ?b)) = card (set (L (Bucket ?b)))" using list_distinct [OF li hb] by (simp add: distinct_card)
    also have "\<dots> \<le> card {..< cap w}" by (rule card_mono) (use lists_okD(2) [OF li hb] in auto)
    finally show ?thesis by simp
  qed
  moreover have "target w - frontier w = Suc (target w - (frontier w + 1))" using lt fr0 by simp
  ultimately have "work_left ?w ?L < work_left w L"
    by (simp add: work_left_def fr tg fields pend)
  then show thesis using that [OF okw st] fr by (simp add: eq)
qed

lemma examine_node_ok:
  assumes ok: "wheel_ok w L" and L: "L Pending = i # is"
  obtains L' where "wheel_ok (examine_node w) L'" and "steady w (examine_node w)" and "L' Pending = is"
    and "work_left (examine_node w) L' + 1 = work_left w L" and "wh_processing (examine_node w)"
    and "wh_completed_tick (examine_node w) = wh_completed_tick w"
proof -
  note p = okD [OF ok]
  note r = ready_ring(4) [OF ok L]
  have hP: "Pending \<in> heads (buckets w)" "Ready \<in> heads (buckets w)" by (simp_all add: heads_def)
  have li: "lists_ok (buckets w) (cap w) (wh_links w) L" using p(4) by (simp add: wheel_rings_def)
  have "i \<notin> set (L Ready)" using lists_okD(3) [OF li hP] L by auto
  then have nr: "\<not> wn_ready (wheel_node w i)" using p(4) r by (simp add: wheel_rings_def)
  let ?u = "unlink w i"
  have u: "?u = w\<lparr>wh_links := link_detach (Node i) (wh_links w)\<rparr>" using nr by (simp add: unlink_def Let_def)
  have ex: "examine_node w = vireo_timer_wheel_place_node ?u i" using r unfolding u by (simp add: examine_node_def Let_def)
  have ou: "wheel_okx {i} ?u (L(Pending := is))" using unlink_ok [OF ok _ hP(1), of i "[]" "is"] r L by simp
  let ?L = "(L(Pending := is))(place_head ?u i := (L(Pending := is)) (place_head ?u i) @ [i])"
  have okw: "wheel_ok (examine_node w) ?L" unfolding ex using place_ok [OF ou] r by simp
  have ph: "place_head ?u i \<noteq> Pending" by (simp add: place_head_def)
  then have Lp: "?L Pending = is" by simp
  note tu = okD(1,2) [OF ou]
  have nd: "wheel_node (examine_node w) j = (if j = i then (wheel_node w i)\<lparr>wn_ready := due w i \<le> frontier w\<rparr> else wheel_node w j)"
    if "j < cap w" for j
    unfolding ex using place_node [OF tu, of j i] that unfolding u by simp
  have own: "wh_owner (examine_node w) = wh_owner w" unfolding ex by simp
  have T: "timers (examine_node w) = timers w"
    using nd live_index(1) [OF p(1)] by (auto simp: timers_def own fun_eq_iff)
  have R: "ready_timers w \<subseteq> ready_timers (examine_node w)"
    using nd live_index(1) [OF p(1)] nr by (auto simp: ready_timers_def own)
  have fr: "frontier (examine_node w) = frontier w" unfolding ex by (simp add: frontier_def)
  have tg: "target (examine_node w) = target w" unfolding ex by (simp add: target_def)
  have st: "steady w (examine_node w)" using T R fr unfolding steady_def by (simp add: ex)
  have pr: "wh_processing w" using p(5) L by (simp add: wheel_order_def)
  show thesis
    by (rule that [OF okw st Lp]) (use fr tg L ph pr in \<open>simp_all add: work_left_def ex\<close>)
qed

subsection \<open>The loop\<close>

text \<open>
  The loop keeps the invariant; it stays within its budgets, pays for every tick and node out of
  \<open>work_left\<close>, and stops only when it has caught up or has used one of the budgets up.
\<close>

lemma advance_loop_ok:
  assumes "advance_loop tgt budget ticks nodes w = (w', ticks', nodes')" and "wheel_ok w L" and "unat tgt = target w"
    and "ticks \<le> max_ticks budget" and "nodes \<le> max_nodes budget"
  shows "\<exists>L'. wheel_ok w' L' \<and> steady w w' \<and> ticks' \<le> max_ticks budget \<and> nodes' \<le> max_nodes budget \<and>
    work_left w' L' + (unat ticks' - unat ticks) + (unat nodes' - unat nodes) \<le> work_left w L \<and> ticks \<le> ticks' \<and> nodes \<le> nodes' \<and>
    (\<not> wh_processing w' \<and> wh_completed_tick w' = tgt \<or> ticks' = max_ticks budget \<or> nodes' = max_nodes budget)"
  using assms
proof (induction tgt budget ticks nodes w arbitrary: L rule: advance_loop.induct)
  case (1 tgt budget ticks nodes w)
  let ?w1 = "finish_tick w"
  note f = finish_tick_ok [OF "1.prems"(2)]
  have tg1: "target ?w1 = target w" by (simp add: finish_tick_def)
  have step: "unat (x + 1) = unat x + 1" if "x \<le> m" "x \<noteq> m" for x m :: size_t
  proof -
    have "unat x < unat m" using that by (simp add: word_le_nat_alt word_unat_eq_iff)
    then have "unat x + unat (1 :: size_t) < 2 ^ LENGTH(64)" using unat_lt_64 [of m] by simp
    then show ?thesis using unat_add_less [of x 1] by simp
  qed
  have le1: "x + 1 \<le> m" if "x \<le> m" "x \<noteq> m" for x m :: size_t
    using that step [OF that] by (auto simp: word_le_nat_alt word_unat_eq_iff)
  show ?case
  proof (cases "\<not> wh_processing ?w1 \<and> (wh_completed_tick ?w1 = tgt \<or> ticks = max_ticks budget)")
    case True
    then have "(w', ticks', nodes') = (?w1, ticks, nodes)" using "1.prems"(1) by (simp add: advance_loop.simps [of tgt] Let_def)
    then show ?thesis using f True "1.prems" by (intro exI [of _ L]) auto
  next
    case go: False
    define w2 ticks2 where "w2 = (if \<not> wh_processing ?w1 then start_tick ?w1 else ?w1)"
      and "ticks2 = (if \<not> wh_processing ?w1 then ticks + 1 else ticks)"
    have pair: "(if \<not> wh_processing ?w1 then (start_tick ?w1, ticks + 1) else (?w1, ticks)) = (w2, ticks2)"
      by (simp add: w2_def ticks2_def)
    have "\<exists>L2. wheel_ok w2 L2 \<and> steady w w2 \<and> wh_processing w2 \<and> ticks2 \<le> max_ticks budget \<and> ticks \<le> ticks2 \<and>
        work_left w2 L2 + (unat ticks2 - unat ticks) \<le> work_left w L"
    proof (cases "wh_processing ?w1")
      case True
      then show ?thesis using f "1.prems"(4) by (intro exI [of _ L]) (simp add: w2_def ticks2_def)
    next
      case False
      then have t: "ticks \<noteq> max_ticks budget" "wh_completed_tick ?w1 \<noteq> tgt" using go by simp_all
      have "frontier ?w1 = unat (wh_completed_tick ?w1)" using False by (simp add: frontier_def)
      moreover have "frontier ?w1 \<le> target ?w1" using okD(2) [OF f(1)] by (simp add: wheel_clock_def)
      ultimately have "unat (wh_completed_tick ?w1) < target ?w1"
        using t(2) "1.prems"(3) tg1 by (simp add: word_unat_eq_iff)
      then obtain L2 where "wheel_ok (start_tick ?w1) L2" "steady ?w1 (start_tick ?w1)" "wh_processing (start_tick ?w1)"
        "work_left (start_tick ?w1) L2 < work_left ?w1 L"
        using start_tick_ok [OF f(1) False] by metis
      moreover have "unat (ticks + 1) = unat ticks + 1" "ticks + 1 \<le> max_ticks budget" "ticks \<le> ticks + 1"
        using step [OF "1.prems"(4) t(1)] le1 [OF "1.prems"(4) t(1)] by (simp_all add: word_le_nat_alt)
      ultimately show ?thesis using False f(2,3) steady_trans by (intro exI [of _ L2]) (auto simp: w2_def ticks2_def)
    qed
    then obtain L2 where L2: "wheel_ok w2 L2" "steady w w2" "wh_processing w2" "ticks2 \<le> max_ticks budget" "ticks \<le> ticks2"
        "work_left w2 L2 + (unat ticks2 - unat ticks) \<le> work_left w L" by blast
    have tg2: "unat tgt = target w2" using L2(2) "1.prems"(3) by (simp add: steady_def target_def)
    have e: "pending_is_empty w2 \<longleftrightarrow> L2 Pending = []" using ready_ring(5) [OF L2(1)] by (simp add: pending_is_empty_def)
    have tt: "unat ticks \<le> unat ticks2" using L2(5) by (simp add: word_le_nat_alt)
    have eq: "advance_loop tgt budget ticks nodes w =
        (if pending_is_empty w2 then advance_loop tgt budget ticks2 nodes w2
         else if nodes = max_nodes budget then (w2, ticks2, nodes)
         else advance_loop tgt budget ticks2 (nodes + 1) (examine_node w2))"
      unfolding advance_loop.simps [of tgt budget ticks nodes w] Let_def using go pair by (simp only: if_False) simp
    show ?thesis
    proof (cases "pending_is_empty w2")
      case True
      have run: "advance_loop tgt budget ticks2 nodes w2 = (w', ticks', nodes')" using eq True "1.prems"(1) by simp
      obtain L' where IH: "wheel_ok w' L'" "steady w2 w'" "ticks' \<le> max_ticks budget" "nodes' \<le> max_nodes budget"
        "work_left w' L' + (unat ticks' - unat ticks2) + (unat nodes' - unat nodes) \<le> work_left w2 L2" "ticks2 \<le> ticks'" "nodes \<le> nodes'"
        "\<not> wh_processing w' \<and> wh_completed_tick w' = tgt \<or> ticks' = max_ticks budget \<or> nodes' = max_nodes budget"
        using "1.IH"(1) [OF refl go pair [symmetric] refl True run L2(1) tg2 L2(4) "1.prems"(5)] by blast
      have "unat ticks2 \<le> unat ticks'" using IH(6) by (simp add: word_le_nat_alt)
      then show ?thesis using IH L2 steady_trans [OF L2(2) IH(2)] tt by (intro exI [of _ L']) auto
    next
      case ne: False
      show ?thesis
      proof (cases "nodes = max_nodes budget")
        case True
        then have "(w', ticks', nodes') = (w2, ticks2, nodes)" using eq ne "1.prems"(1) by simp
        then show ?thesis using L2 True "1.prems" by (intro exI [of _ L2]) auto
      next
        case False
        have run: "advance_loop tgt budget ticks2 (nodes + 1) (examine_node w2) = (w', ticks', nodes')"
          using eq ne False "1.prems"(1) by simp
        obtain i "is" where "L2 Pending = i # is" using ne e by (cases "L2 Pending") auto
        then obtain L3 where L3: "wheel_ok (examine_node w2) L3" "steady w2 (examine_node w2)"
          "work_left (examine_node w2) L3 + 1 = work_left w2 L2"
          using examine_node_ok [OF L2(1)] by metis
        have tg3: "unat tgt = target (examine_node w2)" using L3(2) tg2 by (simp add: steady_def target_def)
        have n1: "unat (nodes + 1) = unat nodes + 1" "nodes + 1 \<le> max_nodes budget"
          using step [OF "1.prems"(5) False] le1 [OF "1.prems"(5) False] by simp_all
        obtain L' where IH: "wheel_ok w' L'" "steady (examine_node w2) w'" "ticks' \<le> max_ticks budget" "nodes' \<le> max_nodes budget"
          "work_left w' L' + (unat ticks' - unat ticks2) + (unat nodes' - unat (nodes + 1)) \<le> work_left (examine_node w2) L3"
          "ticks2 \<le> ticks'" "nodes + 1 \<le> nodes'"
          "\<not> wh_processing w' \<and> wh_completed_tick w' = tgt \<or> ticks' = max_ticks budget \<or> nodes' = max_nodes budget"
          using "1.IH"(2) [OF refl go pair [symmetric] refl ne False run L3(1) tg3 L2(4) n1(2)] by blast
        have "unat ticks2 \<le> unat ticks'" "unat nodes + 1 \<le> unat nodes'" using IH(6,7) n1(1) by (simp_all add: word_le_nat_alt)
        moreover have "nodes \<le> nodes'" using calculation(2) by (simp add: word_le_nat_alt)
        ultimately show ?thesis
          using IH L2 L3(3) steady_trans [OF L2(2) steady_trans [OF L3(2) IH(2)]] tt n1(1) by (intro exI [of _ L']) auto
      qed
    qed
  qed
qed

subsection \<open>Advance\<close>

definition budget_ok :: "vireo_timer_wheel_advance_budget \<Rightarrow> bool" where
  "budget_ok b \<longleftrightarrow> max_ticks b \<noteq> 0 \<and> max_nodes b \<noteq> 0 \<and> max_ticks b \<le> 65536 \<and> max_nodes b \<le> 65536"

lemma last_tick_mono: "m \<le> n \<Longrightarrow> last_tick g m \<le> last_tick g n"
  by (simp add: last_tick_def div_le_mono)

lemma later_ok:
  assumes ok: "wheel_ok w L" and now: "wh_latest_now_ns w \<le> now"
  shows "wheel_ok (w\<lparr>wh_latest_now_ns := now\<rparr>) L"
proof -
  note p = okD [OF ok]
  have "target w \<le> target (w\<lparr>wh_latest_now_ns := now\<rparr>)"
    using now by (simp add: target_def last_tick_mono word_le_nat_alt)
  then have "wheel_clock (w\<lparr>wh_latest_now_ns := now\<rparr>)" using p(2) now by (auto simp: wheel_clock_def)
  then show ?thesis
    using p by (simp add: wheel_okx_def wheel_table_def wheel_due_def wheel_rings_def wheel_order_def wheel_stop_def)
qed

definition caught_up :: "vireo_timer_wheel \<Rightarrow> bool" where
  "caught_up w \<longleftrightarrow> \<not> wh_processing w \<and> unat (wh_completed_tick w) = target w"

lemma progress_caught_up:
  assumes "wheel_clock w"
  shows "wp_caught_up (progress_value w) \<longleftrightarrow> caught_up w"
proof -
  have "unat ((wh_latest_now_ns w - origin_ns (wh_geometry w)) div tick_ns (wh_geometry w)) = target w"
    using elapsed_tick_eq [of "wh_geometry w" "wh_latest_now_ns w"] assms by (simp add: wheel_clock_def target_def)
  then show ?thesis by (auto simp: progress_value_def caught_up_def Let_def word_unat_eq_iff)
qed

lemma caught_up_ready:
  assumes ok: "wheel_ok w L" and cu: "caught_up w"
  shows "ready_timers w = {h. \<exists>d. timers w h = Some d \<and> least_tick (wh_geometry w) (unat d) \<le> target w}"
proof -
  note p = okD [OF ok]
  have fr: "frontier w = target w" "unat (wh_completed_tick w) = target w" using cu by (simp_all add: caught_up_def frontier_def)
  have due: "due w (unat (th_slot_index h)) = least_tick (wh_geometry w) (unat (wn_deadline_ns (wheel_node w (unat (th_slot_index h)))))"
    if "h \<in> owner_live (own w)" for h
    using p(3) live_index(1,2) [OF p(1) that] by (simp add: wheel_due_def)
  have iff: "wn_ready (wheel_node w (unat (th_slot_index h))) \<longleftrightarrow> due w (unat (th_slot_index h)) \<le> target w"
    if "h \<in> owner_live (own w)" for h
    using ready_iff [OF ok live_index(1,2) [OF p(1) that]] fr by (cases "wn_ready (wheel_node w (unat (th_slot_index h)))") auto
  show ?thesis using due iff by (auto simp: ready_timers_def timers_def)
qed

lemma advance_fails:
  assumes "wheel_table w"
    and "\<not> budget_ok b \<or> wh_stopping w \<or> now < origin_ns (wh_geometry w) \<or> now < wh_latest_now_ns w"
  obtains rc where "vireo_timer_wheel_advance (Some w) now b (Some r) = (rc, Some w, Some r)" and "rc \<noteq> VIREO_OK"
proof -
  have "\<exists>rc. vireo_timer_wheel_advance (Some w) now b (Some r) = (rc, Some w, Some r) \<and> rc \<noteq> VIREO_OK"
    using assms by (auto simp: vireo_timer_wheel_advance_def budget_ok_def wheel_table_def Let_def not_le)
  then show thesis using that by blast
qed

lemma advance_ok:
  assumes ok: "wheel_ok w L" and b: "budget_ok b" and run: "\<not> wh_stopping w" and now: "wh_latest_now_ns w \<le> now"
  obtains w' L' rep where "vireo_timer_wheel_advance (Some w) now b (Some r) = (VIREO_OK, Some w', Some rep)"
    and "wheel_ok w' L'" and "steady (w\<lparr>wh_latest_now_ns := now\<rparr>) w'" and "wp_caught_up (ar_progress rep) \<longleftrightarrow> caught_up w'"
    and "ar_ticks_started rep \<le> max_ticks b" and "ar_nodes_examined rep \<le> max_nodes b"
    and "caught_up w' \<or> work_left w' L' < work_left (w\<lparr>wh_latest_now_ns := now\<rparr>) L"
    and "work_left w' L' \<le> work_left (w\<lparr>wh_latest_now_ns := now\<rparr>) L"
proof -
  let ?w = "w\<lparr>wh_latest_now_ns := now\<rparr>"
  let ?t = "(now - origin_ns (wh_geometry w)) div tick_ns (wh_geometry w)"
  note p = okD [OF ok] and ok1 = later_ok [OF ok now]
  have g: "geometry_valid (wh_geometry w)" "origin_ns (wh_geometry w) \<le> now"
    using p(2) now by (auto simp: wheel_clock_def)
  have t: "unat ?t = target ?w" using elapsed_tick_eq [OF g] by (simp add: target_def)
  obtain w' ticks nodes where l: "advance_loop ?t b 0 0 ?w = (w', ticks, nodes)" by (metis prod_cases3)
  obtain L' where r: "wheel_ok w' L'" "steady ?w w'" "ticks \<le> max_ticks b" "nodes \<le> max_nodes b"
    "work_left w' L' + unat ticks + unat nodes \<le> work_left ?w L"
    "\<not> wh_processing w' \<and> wh_completed_tick w' = ?t \<or> ticks = max_ticks b \<or> nodes = max_nodes b"
    using advance_loop_ok [OF l ok1 t] by auto
  have tg: "target w' = target ?w" using r(2) by (simp add: steady_def target_def)
  let ?rep = "\<lparr>ar_progress = progress_value w', ar_ticks_started = ticks, ar_nodes_examined = nodes\<rparr>"
  have own: "wh_owner w \<noteq> None" using p(1) by (simp add: wheel_table_def)
  have eq: "vireo_timer_wheel_advance (Some w) now b (Some r) = (VIREO_OK, Some w', Some ?rep)"
    using b run now g(2) own l by (simp add: vireo_timer_wheel_advance_def budget_ok_def Let_def not_less)
  have pos: "unat (max_ticks b) \<noteq> 0" "unat (max_nodes b) \<noteq> 0" using b by (simp_all add: budget_ok_def unat_eq_zero)
  have "caught_up w' \<or> work_left w' L' < work_left ?w L"
  proof (cases "\<not> wh_processing w' \<and> wh_completed_tick w' = ?t")
    case True
    then show ?thesis using t tg by (simp add: caught_up_def)
  next
    case False
    then show ?thesis using r(5,6) pos by auto
  qed
  then show thesis
    using that [OF eq r(1,2)] progress_caught_up [OF okD(2) [OF r(1)]] r(3-5) by simp
qed

end
