(* ===== verification/Timer_Service.thy ===== *)
theory Timer_Service
  imports Timer_Wheel_Advance
begin

text \<open>
  The timing wheel as a timer service. \<open>service_step\<close> specifies the service without buckets, ticks or
  lists: a map from live handles to deadlines, the set of timers reported as expired, and the
  handles issued so far. The wheel refines it, advancing terminates and catches up with the clock,
  and shutting down returns every timer once.
\<close>

subsection \<open>Start-up\<close>

definition wheel_blocks :: "vireo_timer_wheel \<Rightarrow> (nat \<times> nat) set" where
  "wheel_blocks w = {(wh_self w, 200), (wh_buckets w, 16 * buckets w)}"

lemma wheel_create_OK:
  assumes wf: "heap_wf h" and run: "vireo_timer_wheel_create (Some wo) (Some None) h = (VIREO_OK, Some (Some w), h1)"
  shows "geometry_valid (wh_geometry w)" and "wh_bucket_count w = bucket_count (wh_geometry w)"
    and "wh_geometry w = wo_geometry wo" and "wh_owner w = None" and "wh_nodes w = None"
    and "wh_links w = (\<lambda>a. \<lparr>lk_prev = a, lk_next = a\<rparr>)" and "wh_latest_now_ns w = origin_ns (wh_geometry w)"
    and "wh_completed_tick w = 0" and "\<not> wh_processing w" and "wh_ready_count w = 0" and "\<not> wh_stopping w"
    and "wh_shutdown_cursor w = 0" and "heap_wf h1" and "set (heap_live h1) = wheel_blocks w \<union> set (heap_live h)"
    and "heap_calls h \<le> wh_self w" and "wh_self w < wh_buckets w" and "wh_buckets w < heap_calls h1"
    and "unat (wh_allocation_bytes w) = 200 + 16 * buckets w" and "wh_allocation_bytes w \<le> wo_max_memory_bytes wo"
proof -
  let ?g = "wo_geometry wo"
  obtain b1 b2 h0 where c: "tick_ns ?g \<noteq> 0" "bucket_count ?g \<noteq> 0" "unat (bucket_count ?g) * 16 < 2 ^ 64"
      "unat (200 :: size_t) + unat (bucket_count ?g * 16) < 2 ^ 64" "\<not> 200 + bucket_count ?g * 16 > wo_max_memory_bytes wo"
    and a: "allocate_default h 200 = (Some b1, h0)" "allocate_default h0 (bucket_count ?g * 16) = (Some b2, h1)"
    and w: "w = \<lparr>wh_geometry = ?g, wh_buckets = b2, wh_links = (\<lambda>a. \<lparr>lk_prev = a, lk_next = a\<rparr>),
      wh_bucket_count = bucket_count ?g, wh_allocation_bytes = 200 + bucket_count ?g * 16,
      wh_max_memory_bytes = wo_max_memory_bytes wo, wh_owner = None, wh_nodes = None, wh_nodes_block = 0, wh_timer_capacity = 0,
      wh_node_bytes = 0, wh_registry_budget = 0, wh_latest_now_ns = origin_ns ?g, wh_completed_tick = 0, wh_processing = False,
      wh_ready_count = 0, wh_stopping = False, wh_shutdown_cursor = 0, wh_self = b1\<rparr>"
    using run by (auto simp: vireo_timer_wheel_create_def vireo_timer_wheel_create_runtime_def Let_def
        vireo_checked_u64_to_size_def size_mul_Some size_add_Some not_less split: if_splits prod.splits option.splits)
  have n: "unat (bucket_count ?g * 16) = unat (bucket_count ?g) * 16" using unat_mult_less [of "bucket_count ?g" 16] c(3) by simp
  have tot: "unat (200 + bucket_count ?g * 16) = 200 + unat (bucket_count ?g) * 16"
    using unat_add_less [of 200 "bucket_count ?g * 16"] c(4) n by simp
  show "heap_wf h1" using allocate_wf [OF allocate_wf [OF wf a(1)] a(2)] .
  show "geometry_valid (wh_geometry w)" using c(1,2) by (simp add: w geometry_valid_def)
  show "set (heap_live h1) = wheel_blocks w \<union> set (heap_live h)" "heap_calls h \<le> wh_self w" "wh_self w < wh_buckets w"
    "wh_buckets w < heap_calls h1"
    using allocate_Some [OF a(1)] allocate_Some [OF a(2)] n by (auto simp: wheel_blocks_def w)
  show "unat (wh_allocation_bytes w) = 200 + 16 * buckets w" "wh_allocation_bytes w \<le> wo_max_memory_bytes wo"
    using tot c(5) by (simp_all add: w not_less)
  show "wh_bucket_count w = bucket_count (wh_geometry w)" "wh_geometry w = wo_geometry wo" "wh_owner w = None" "wh_nodes w = None"
    "wh_links w = (\<lambda>a. \<lparr>lk_prev = a, lk_next = a\<rparr>)" "wh_latest_now_ns w = origin_ns (wh_geometry w)" "wh_completed_tick w = 0"
    "\<not> wh_processing w" "wh_ready_count w = 0" "\<not> wh_stopping w" "wh_shutdown_cursor w = 0"
    by (simp_all add: w)
qed

text \<open>All blocks of a prepared wheel.\<close>

definition prepared_blocks :: "vireo_timer_wheel \<Rightarrow> (nat \<times> nat) set" where
  "prepared_blocks w = wheel_blocks w \<union> {(wh_nodes_block w, 72 * cap w)} \<union> owner_blocks (own w)"

definition wheel_started ::
  "vireo_timer_wheel_options \<Rightarrow> vireo_timer_wheel_registry_options \<Rightarrow> u64 list \<Rightarrow> timer_env \<Rightarrow> vireo_timer_wheel \<Rightarrow> timer_env \<Rightarrow> bool" where
  "wheel_started wo ro races env w env' \<longleftrightarrow>
     (\<exists>w0 h1. vireo_timer_wheel_create (Some wo) (Some None) (te_heap env) = (VIREO_OK, Some (Some w0), h1) \<and>
        vireo_timer_wheel_prepare (Some w0) (Some ro) races (env\<lparr>te_heap := h1\<rparr>) = (VIREO_OK, Some w, env'))"

lemma prepare_parts:
  assumes "vireo_timer_wheel_prepare (Some w0) (Some ro) races \<lparr>te_last_owner_id = src, te_heap = h\<rparr> = (VIREO_OK, Some w, env')"
  obtains b h1 ow src' where "wh_owner w0 = None" and "ro_capacity ro \<noteq> 0" and "unat (ro_capacity ro) * 72 < 2 ^ 64"
    and "allocate_default h (ro_capacity ro * 72) = (Some b, h1)"
    and "vireo_timer_handle_owner_create (Some \<lparr>oo_capacity = ro_capacity ro,
        oo_max_memory_bytes = ro_max_memory_bytes ro - ro_capacity ro * 72\<rparr>) (Some None) races src h1 =
        (VIREO_OK, Some ow, src', te_heap env')"
    and "w = w0\<lparr>wh_owner := ow, wh_nodes := Some (replicate (unat (ro_capacity ro)) \<lparr>wn_handle = zero_handle, wn_deadline_ns = 0,
        wn_due_tick = 0, wn_bucket_index = 0, wn_ready = False\<rparr>), wh_nodes_block := b,
        wh_links := (\<lambda>a. case a of Node i \<Rightarrow> if i < unat (ro_capacity ro) then \<lparr>lk_prev = a, lk_next = a\<rparr> else wh_links w0 a
                        | _ \<Rightarrow> wh_links w0 a),
        wh_timer_capacity := ro_capacity ro, wh_node_bytes := ro_capacity ro * 72,
        wh_registry_budget := ro_max_memory_bytes ro\<rparr>"
    and "\<not> ro_capacity ro * 72 \<ge> ro_max_memory_bytes ro"
proof -
  obtain b h1 where a: "allocate_default h (ro_capacity ro * 72) = (Some b, h1)"
    using assms by (cases "allocate_default h (ro_capacity ro * 72)"; cases "fst (allocate_default h (ro_capacity ro * 72))")
      (auto simp: vireo_timer_wheel_prepare_def vireo_timer_wheel_prepare_runtime_def Let_def size_mul_Some split: if_splits)
  obtain rc out src' h2 where c: "vireo_timer_handle_owner_create (Some \<lparr>oo_capacity = ro_capacity ro,
        oo_max_memory_bytes = ro_max_memory_bytes ro - ro_capacity ro * 72\<rparr>) (Some None) races src h1 =
        (rc, out, src', h2)" by (metis prod_cases4)
  have "out \<noteq> None"
    using c by (auto simp: vireo_timer_handle_owner_create_def vireo_timer_handle_owner_create_runtime_def Let_def split: if_splits prod.splits)
  then show thesis
    using assms a c
    by (intro that [of b h1 "the out" src'])
      (auto simp: vireo_timer_wheel_prepare_def vireo_timer_wheel_prepare_runtime_def Let_def size_mul_Some owner_create_native_def
        split: if_splits)
qed

lemma wheel_started_OK:
  assumes wf: "heap_wf (te_heap env)" and st: "wheel_started wo ro races env w env'"
  shows "wheel_ok w (\<lambda>_. [])" and "timers w = Map.empty" and "ready_timers w = {}" and "\<not> wh_stopping w"
    and "wh_latest_now_ns w = origin_ns (wo_geometry wo)" and "wh_geometry w = wo_geometry wo"
    and "set (heap_live (te_heap env')) = prepared_blocks w \<union> set (heap_live (te_heap env))"
    and "heap_wf (te_heap env')" and "cap w = unat (ro_capacity ro)" and "cap w \<noteq> 0"
    and "distinct [wh_self w, wh_buckets w, wh_nodes_block w, ho_self (own w), ho_slots_block (own w)]"
    and "\<forall>b \<in> {wh_self w, wh_buckets w, wh_nodes_block w, ho_self (own w), ho_slots_block (own w)}. heap_calls (te_heap env) \<le> b"
proof -
  obtain w0 h1 where cr: "vireo_timer_wheel_create (Some wo) (Some None) (te_heap env) = (VIREO_OK, Some (Some w0), h1)"
    and pr: "vireo_timer_wheel_prepare (Some w0) (Some ro) races \<lparr>te_last_owner_id = te_last_owner_id env, te_heap = h1\<rparr> =
      (VIREO_OK, Some w, env')"
    using st by (cases env) (auto simp: wheel_started_def)
  note c = wheel_create_OK [OF wf cr]
  obtain b h2 owo src' where "wh_owner w0 = None" and q: "ro_capacity ro \<noteq> 0" "unat (ro_capacity ro) * 72 < 2 ^ 64"
    "allocate_default h1 (ro_capacity ro * 72) = (Some b, h2)"
    and oc: "vireo_timer_handle_owner_create (Some \<lparr>oo_capacity = ro_capacity ro,
        oo_max_memory_bytes = ro_max_memory_bytes ro - ro_capacity ro * 72\<rparr>) (Some None) races (te_last_owner_id env) h2 =
        (VIREO_OK, Some owo, src', te_heap env')"
    and w: "w = w0\<lparr>wh_owner := owo, wh_nodes := Some (replicate (unat (ro_capacity ro)) \<lparr>wn_handle = zero_handle, wn_deadline_ns = 0,
        wn_due_tick = 0, wn_bucket_index = 0, wn_ready = False\<rparr>), wh_nodes_block := b,
        wh_links := (\<lambda>a. case a of Node i \<Rightarrow> if i < unat (ro_capacity ro) then \<lparr>lk_prev = a, lk_next = a\<rparr> else wh_links w0 a
                        | _ \<Rightarrow> wh_links w0 a),
        wh_timer_capacity := ro_capacity ro, wh_node_bytes := ro_capacity ro * 72,
        wh_registry_budget := ro_max_memory_bytes ro\<rparr>"
    and "\<not> ro_capacity ro * 72 \<ge> ro_max_memory_bytes ro"
    using pr by (rule prepare_parts)
  have "owo \<noteq> None"
    using oc by (auto simp: vireo_timer_handle_owner_create_def vireo_timer_handle_owner_create_runtime_def Let_def split: if_splits prod.splits)
  then obtain ow where ow: "owo = Some ow" by blast
  note o = owner_create_OK [OF allocate_wf [OF c(13) q(3)] oc [unfolded ow]]
  have self: "wh_links w a = \<lparr>lk_prev = a, lk_next = a\<rparr>" for a by (cases a) (simp_all add: w c(6))
  have own: "own w = ow" "wh_owner w = Some ow" by (simp_all add: w ow)
  show cap: "cap w = unat (ro_capacity ro)" "cap w \<noteq> 0" using q(1) by (simp_all add: w unat_eq_zero)
  have node: "wheel_node w i = \<lparr>wn_handle = zero_handle, wn_deadline_ns = 0, wn_due_tick = 0, wn_bucket_index = 0, wn_ready = False\<rparr>"
    if "i < cap w" for i using that cap(1) by (simp add: wheel_node_def w)
  have len: "length (ho_slots ow) = unat (ho_capacity ow)" using o(1) by (simp add: owner_inv_def)
  have inactive: "\<not> os_active (ho_slots ow ! i)" if "i < cap w" for i
    using slot_handle_live(1) [OF o(1), of i] that cap(1) o(2,3) len by auto
  have "wheel_table w"
    using o(1,3) node inactive cap own unfolding wheel_table_def by (simp add: w ow slot_handle_def)
  moreover have "wheel_clock w" using c(1,2,7,8,9) by (simp add: wheel_clock_def w frontier_def)
  moreover have "wheel_due w" using inactive own by (simp add: wheel_due_def)
  moreover have "wheel_rings {} w (\<lambda>_. [])"
    using inactive own node self c(10) by (simp add: wheel_rings_def lists_ok_def placed_def ring_self w)
  moreover have "wheel_order w (\<lambda>_. [])" by (simp add: wheel_order_def)
  moreover have "wheel_stop w" using c(12) by (simp add: wheel_stop_def w)
  ultimately show "wheel_ok w (\<lambda>_. [])" by (simp add: wheel_okx_def)
  show "timers w = Map.empty" "ready_timers w = {}" using own o(2) by (auto simp: timers_def ready_timers_def)
  show "\<not> wh_stopping w" "wh_latest_now_ns w = origin_ns (wo_geometry wo)" "wh_geometry w = wo_geometry wo"
    using c by (simp_all add: w)
  show "heap_wf (te_heap env')" using o(9) .
  note s = allocate_Some [OF q(3)]
  have n: "unat (ro_capacity ro * 72) = 72 * unat (ro_capacity ro)" using unat_mult_less [of "ro_capacity ro" 72] q(2) by simp
  have "wheel_blocks w = wheel_blocks w0" by (simp add: wheel_blocks_def w)
  then show "set (heap_live (te_heap env')) = prepared_blocks w \<union> set (heap_live (te_heap env))"
    using o(10) s c(14) n cap(1) own by (auto simp: prepared_blocks_def w)
  have f: "wh_self w = wh_self w0" "wh_buckets w = wh_buckets w0" "wh_nodes_block w = b" by (simp_all add: w)
  show "distinct [wh_self w, wh_buckets w, wh_nodes_block w, ho_self (own w), ho_slots_block (own w)]"
    "\<forall>b \<in> {wh_self w, wh_buckets w, wh_nodes_block w, ho_self (own w), ho_slots_block (own w)}. heap_calls (te_heap env) \<le> b"
    using c(15-17) s o(11-15) unfolding f own by auto
qed

subsection \<open>The service\<close>

record timer_service =
  ts_timers :: "vireo_timer_handle \<Rightarrow> vireo_monotonic_ns option"
  ts_fired :: "vireo_timer_handle set"
  ts_issued :: "vireo_timer_handle set"
  ts_now :: vireo_monotonic_ns
  ts_stopping :: bool

datatype timer_op =
    Op_Register vireo_monotonic_ns vireo_monotonic_ns
  | Op_Cancel vireo_timer_handle
  | Op_Rearm vireo_timer_handle vireo_monotonic_ns vireo_monotonic_ns
  | Op_Advance vireo_monotonic_ns vireo_timer_wheel_advance_budget
  | Op_Take_Expired
  | Op_Stop

datatype timer_event =
    Ev_Failed vireo_result
  | Ev_Registered vireo_timer_handle
  | Ev_Done
  | Ev_Advanced bool
  | Ev_Expired vireo_timer_handle vireo_monotonic_ns

text \<open>
  The specification of the service. Deadlines are late by less than \<open>tick\<close> nanoseconds once an
  advance reports that it has caught up.
\<close>

inductive service_step :: "vireo_duration_ns \<Rightarrow> timer_service \<Rightarrow> timer_op \<Rightarrow> timer_event \<Rightarrow> timer_service \<Rightarrow> bool"
  for tick where
  fail: "rc \<noteq> VIREO_OK \<Longrightarrow> service_step tick s op (Ev_Failed rc) s"
| register: "\<not> ts_stopping s \<Longrightarrow> now < d \<Longrightarrow> h \<notin> ts_issued s \<Longrightarrow> insert h (ts_issued s) \<subseteq> I \<Longrightarrow>
    F = ts_fired s \<or> d \<le> ts_now s \<and> F = insert h (ts_fired s) \<Longrightarrow>
    service_step tick s (Op_Register now d) (Ev_Registered h)
      (s\<lparr>ts_timers := (ts_timers s)(h \<mapsto> d), ts_fired := F, ts_issued := I\<rparr>)"
| cancel: "h \<in> dom (ts_timers s) \<Longrightarrow> service_step tick s (Op_Cancel h) Ev_Done
    (s\<lparr>ts_timers := (ts_timers s)(h := None), ts_fired := ts_fired s - {h}\<rparr>)"
| rearm: "\<not> ts_stopping s \<Longrightarrow> h \<in> dom (ts_timers s) \<Longrightarrow> now < d \<Longrightarrow>
    F = ts_fired s - {h} \<or> d \<le> ts_now s \<and> F = insert h (ts_fired s) \<Longrightarrow>
    service_step tick s (Op_Rearm h now d) Ev_Done (s\<lparr>ts_timers := (ts_timers s)(h \<mapsto> d), ts_fired := F\<rparr>)"
| advance: "\<not> ts_stopping s \<Longrightarrow> ts_now s \<le> now \<Longrightarrow> ts_fired s \<subseteq> F \<Longrightarrow>
    (\<forall>h \<in> F. \<exists>d. ts_timers s h = Some d \<and> d \<le> now) \<Longrightarrow>
    (c \<longrightarrow> (\<forall>h d. ts_timers s h = Some d \<and> unat d + unat tick \<le> unat now + 1 \<longrightarrow> h \<in> F)) \<Longrightarrow>
    service_step tick s (Op_Advance now b) (Ev_Advanced c) (s\<lparr>ts_fired := F, ts_now := now\<rparr>)"
| expired: "h \<in> ts_fired s \<Longrightarrow> ts_timers s h = Some d \<Longrightarrow> d \<le> ts_now s \<Longrightarrow>
    service_step tick s Op_Take_Expired (Ev_Expired h d)
      (s\<lparr>ts_timers := (ts_timers s)(h := None), ts_fired := ts_fired s - {h}\<rparr>)"
| stop: "service_step tick s Op_Stop Ev_Done (s\<lparr>ts_stopping := True\<rparr>)"

inductive service_run :: "vireo_duration_ns \<Rightarrow> timer_service \<Rightarrow> timer_op list \<Rightarrow> timer_event list \<Rightarrow> timer_service \<Rightarrow> bool"
  for tick where
  run_end: "service_run tick s [] [] s"
| run_step: "service_step tick s op e s1 \<Longrightarrow> service_run tick s1 ops es s2 \<Longrightarrow> service_run tick s (op # ops) (e # es) s2"

text \<open>The same operations on the wheel.\<close>

definition no_report :: vireo_timer_wheel_advance_report where
  "no_report = \<lparr>ar_progress = \<lparr>wp_latest_now_ns = 0, wp_target_tick = 0, wp_completed_tick = 0, wp_processing = False,
     wp_ready_count = 0, wp_caught_up = False\<rparr>, ar_ticks_started = 0, ar_nodes_examined = 0\<rparr>"

definition no_expired :: vireo_timer_wheel_expired where
  "no_expired = \<lparr>ex_handle = zero_handle, ex_timer = \<lparr>ti_deadline_ns = 0, ti_due_tick = 0, ti_bucket_index = 0\<rparr>\<rparr>"

fun wheel_exec :: "timer_op \<Rightarrow> vireo_timer_wheel \<Rightarrow> timer_event \<times> vireo_timer_wheel" where
  "wheel_exec (Op_Register now d) w =
     (let (rc, w', h) = vireo_timer_wheel_register (Some w) now d (Some zero_handle)
      in (if rc = VIREO_OK then Ev_Registered (the h) else Ev_Failed rc, the w'))"
| "wheel_exec (Op_Cancel h) w =
     (let (rc, w', h') = vireo_timer_wheel_cancel (Some w) (Some h)
      in (if rc = VIREO_OK then Ev_Done else Ev_Failed rc, the w'))"
| "wheel_exec (Op_Rearm h now d) w =
     (let (rc, w') = vireo_timer_wheel_rearm (Some w) h now d
      in (if rc = VIREO_OK then Ev_Done else Ev_Failed rc, the w'))"
| "wheel_exec (Op_Advance now b) w =
     (let (rc, w', r) = vireo_timer_wheel_advance (Some w) now b (Some no_report)
      in (if rc = VIREO_OK then Ev_Advanced (wp_caught_up (ar_progress (the r))) else Ev_Failed rc, the w'))"
| "wheel_exec Op_Take_Expired w =
     (let (rc, w', e) = vireo_timer_wheel_take_expired (Some w) (Some no_expired)
      in (if rc = VIREO_OK then Ev_Expired (ex_handle (the e)) (ti_deadline_ns (ex_timer (the e))) else Ev_Failed rc, the w'))"
| "wheel_exec Op_Stop w =
     (let (rc, w') = vireo_timer_wheel_shutdown_begin (Some w)
      in (if rc = VIREO_OK then Ev_Done else Ev_Failed rc, the w'))"

fun wheel_run :: "timer_op list \<Rightarrow> vireo_timer_wheel \<Rightarrow> timer_event list \<times> vireo_timer_wheel" where
  "wheel_run [] w = ([], w)"
| "wheel_run (op # ops) w = (let (e, w) = wheel_exec op w; (es, w) = wheel_run ops w in (e # es, w))"

definition wheel_service :: "vireo_timer_wheel \<Rightarrow> timer_service" where
  "wheel_service w = \<lparr>ts_timers = timers w, ts_fired = ready_timers w, ts_issued = owner_issued (own w),
     ts_now = wh_latest_now_ns w, ts_stopping = wh_stopping w\<rparr>"

lemma live_dom: "wheel_table w \<Longrightarrow> h \<in> owner_live (own w) \<longleftrightarrow> h \<in> dom (timers w)"
  by (auto simp: timers_def wheel_table_def split: if_splits)

lemma least_tick_late:
  assumes "geometry_valid g" and "unat (origin_ns g) \<le> n" and "d + unat (tick_ns g) \<le> n + 1"
  shows "least_tick g d \<le> last_tick g n"
proof -
  have m: "tick_ns g \<noteq> 0" using assms(1) by (simp add: geometry_valid_def)
  have "tick_at g (least_tick g d) \<le> n"
  proof (cases "least_tick g d")
    case (Suc k)
    then have "\<not> d \<le> tick_at g k" using least_tick_iff [OF m, of d k] by simp
    then show ?thesis using Suc assms(3) by (simp add: tick_at_def)
  qed (use assms(2) in \<open>simp add: tick_at_def\<close>)
  then show ?thesis using last_tick_iff [OF m assms(2)] by blast
qed

lemma wheel_exec_refines:
  assumes ok: "wheel_ok w L" and ex: "wheel_exec op w = (e, w')"
  shows "(\<exists>L'. wheel_ok w' L') \<and> wh_geometry w' = wh_geometry w \<and>
    service_step (tick_ns (wh_geometry w)) (wheel_service w) op e (wheel_service w')"
proof (cases op)
  case (Op_Register now d)
  show ?thesis
  proof (cases "register_code w now d = VIREO_OK")
    case True
    obtain w1 L1 h where r: "vireo_timer_wheel_register (Some w) now d (Some zero_handle) = (VIREO_OK, Some w1, Some h)"
      "wheel_ok w1 L1" "h \<notin> owner_issued (own w)" "h \<in> owner_issued (own w1)" "owner_issued (own w) \<subseteq> owner_issued (own w1)"
      "timers w1 = (timers w)(h \<mapsto> d)"
      "ready_timers w1 = ready_timers w \<or> d \<le> wh_latest_now_ns w \<and> ready_timers w1 = insert h (ready_timers w)"
      "now < d" "wh_latest_now_ns w1 = wh_latest_now_ns w" "wh_stopping w1 = wh_stopping w" "wh_geometry w1 = wh_geometry w"
      using register_ok [OF ok True] by metis
    have run: "\<not> wh_stopping w" using True by (auto simp: register_code_def split: if_splits)
    have "service_step (tick_ns (wh_geometry w)) (wheel_service w) op (Ev_Registered h)
        ((wheel_service w)\<lparr>ts_timers := (ts_timers (wheel_service w))(h \<mapsto> d), ts_fired := ready_timers w1, ts_issued := owner_issued (own w1)\<rparr>)"
      unfolding Op_Register by (rule register) (use r run in \<open>simp_all add: wheel_service_def\<close>)
    moreover have "e = Ev_Registered h" "w' = w1" using ex r(1) Op_Register by simp_all
    ultimately show ?thesis using r by (auto simp: wheel_service_def)
  next
    case False
    then have "e = Ev_Failed (register_code w now d)" "w' = w"
      using ex register_fails [OF okD(1) [OF ok] False] False Op_Register by auto
    then show ?thesis using ok service_step.fail [OF False] by auto
  qed
next
  case (Op_Cancel h)
  show ?thesis
  proof (cases "h \<in> owner_live (own w)")
    case True
    obtain w1 L1 where r: "vireo_timer_wheel_cancel (Some w) (Some h) = (VIREO_OK, Some w1, Some zero_handle)" "wheel_ok w1 L1"
      "timers w1 = (timers w)(h := None)" "ready_timers w1 = ready_timers w - {h}" "own w1 = owner_released h (own w)"
      "wh_stopping w1 = wh_stopping w" "wh_latest_now_ns w1 = wh_latest_now_ns w" "wh_geometry w1 = wh_geometry w"
      using cancel_ok [OF ok True] by metis
    have iss: "owner_issued (own w1) = owner_issued (own w)"
      unfolding r(5) by (simp add: owner_issued_def owner_released_def Let_def)
    have "service_step (tick_ns (wh_geometry w)) (wheel_service w) op Ev_Done
        ((wheel_service w)\<lparr>ts_timers := (ts_timers (wheel_service w))(h := None), ts_fired := ts_fired (wheel_service w) - {h}\<rparr>)"
      unfolding Op_Cancel by (rule cancel) (use True live_dom [OF okD(1) [OF ok]] in \<open>simp add: wheel_service_def\<close>)
    moreover have "e = Ev_Done" "w' = w1" using ex r(1) Op_Cancel by simp_all
    ultimately show ?thesis using r iss by (auto simp: wheel_service_def)
  next
    case False
    then have rc: "vireo_timer_handle_owner_validate (wh_owner w) h \<noteq> VIREO_OK"
      using validate_slot_eq [OF okD(1) [OF ok], of h] by simp
    have "e = Ev_Failed (vireo_timer_handle_owner_validate (wh_owner w) h)" "w' = w"
      using ex cancel_eq [OF okD(1) [OF ok], of h] False rc Op_Cancel by auto
    then show ?thesis using ok service_step.fail [OF rc] by auto
  qed
next
  case (Op_Rearm h now d)
  show ?thesis
  proof (cases "h \<in> owner_live (own w) \<and> \<not> wh_stopping w \<and> fst (deadline_values w now d) = VIREO_OK")
    case True
    then obtain w1 L1 where r: "vireo_timer_wheel_rearm (Some w) h now d = (VIREO_OK, Some w1)" "wheel_ok w1 L1"
      "timers w1 = (timers w)(h \<mapsto> d)" "now < d"
      "ready_timers w1 = ready_timers w - {h} \<or> d \<le> wh_latest_now_ns w \<and> ready_timers w1 = insert h (ready_timers w)"
      "wh_owner w1 = wh_owner w" "wh_latest_now_ns w1 = wh_latest_now_ns w" "wh_stopping w1 = wh_stopping w" "wh_geometry w1 = wh_geometry w"
      using rearm_ok [OF ok] by metis
    have "service_step (tick_ns (wh_geometry w)) (wheel_service w) op Ev_Done
        ((wheel_service w)\<lparr>ts_timers := (ts_timers (wheel_service w))(h \<mapsto> d), ts_fired := ready_timers w1\<rparr>)"
      unfolding Op_Rearm by (rule rearm) (use r True live_dom [OF okD(1) [OF ok]] in \<open>simp_all add: wheel_service_def\<close>)
    moreover have "e = Ev_Done" "w' = w1" using ex r(1) Op_Rearm by simp_all
    ultimately show ?thesis using r by (auto simp: wheel_service_def)
  next
    case False
    then obtain rc where "vireo_timer_wheel_rearm (Some w) h now d = (rc, Some w)" "rc \<noteq> VIREO_OK"
      using rearm_fails [OF okD(1) [OF ok]] by metis
    then have "e = Ev_Failed rc" "w' = w" "rc \<noteq> VIREO_OK" using ex Op_Rearm by simp_all
    then show ?thesis using ok service_step.fail by auto
  qed
next
  case (Op_Advance now b)
  note p = okD [OF ok]
  show ?thesis
  proof (cases "budget_ok b \<and> \<not> wh_stopping w \<and> wh_latest_now_ns w \<le> now")
    case True
    then obtain w1 L1 rep where r: "vireo_timer_wheel_advance (Some w) now b (Some no_report) = (VIREO_OK, Some w1, Some rep)"
      "wheel_ok w1 L1" "steady (w\<lparr>wh_latest_now_ns := now\<rparr>) w1" "wp_caught_up (ar_progress rep) \<longleftrightarrow> caught_up w1"
      using advance_ok [OF ok] by metis
    have T: "timers (w\<lparr>wh_latest_now_ns := now\<rparr>) = timers w" "ready_timers (w\<lparr>wh_latest_now_ns := now\<rparr>) = ready_timers w"
      by (rule timers_frame; simp)+
    have st: "timers w1 = timers w" "ready_timers w \<subseteq> ready_timers w1" "wh_owner w1 = wh_owner w" "wh_geometry w1 = wh_geometry w"
      "wh_latest_now_ns w1 = now" "wh_stopping w1 = wh_stopping w"
      using r(3) T by (simp_all add: steady_def)
    have g: "geometry_valid (wh_geometry w)" "unat (origin_ns (wh_geometry w)) \<le> unat now"
      using p(2) True by (auto simp: wheel_clock_def word_le_nat_alt)
    have late: "h \<in> ready_timers w1" if "caught_up w1" "timers w h = Some d" "unat d + unat (tick_ns (wh_geometry w)) \<le> unat now + 1" for h d
      using caught_up_ready [OF r(2) that(1)] least_tick_late [OF g that(3)] that(2) st by (simp add: target_def)
    have "service_step (tick_ns (wh_geometry w)) (wheel_service w) op (Ev_Advanced (caught_up w1))
        ((wheel_service w)\<lparr>ts_fired := ready_timers w1, ts_now := now\<rparr>)"
      unfolding Op_Advance
    proof (rule advance)
      show "\<forall>h \<in> ready_timers w1. \<exists>d. ts_timers (wheel_service w) h = Some d \<and> d \<le> now"
        using ready_expired [OF r(2)] st by (simp add: wheel_service_def)
      show "caught_up w1 \<longrightarrow> (\<forall>h d. ts_timers (wheel_service w) h = Some d \<and> unat d + unat (tick_ns (wh_geometry w)) \<le> unat now + 1 \<longrightarrow>
          h \<in> ready_timers w1)"
        using late by (simp add: wheel_service_def)
    qed (use True st in \<open>simp_all add: wheel_service_def\<close>)
    moreover have "e = Ev_Advanced (caught_up w1)" "w' = w1" using ex r(1,4) Op_Advance by auto
    ultimately show ?thesis using r(2) st by (auto simp: wheel_service_def)
  next
    case False
    then obtain rc where "vireo_timer_wheel_advance (Some w) now b (Some no_report) = (rc, Some w, Some no_report)" "rc \<noteq> VIREO_OK"
      using advance_fails [OF p(1), of b now no_report] by (metis not_le)
    then have "e = Ev_Failed rc" "w' = w" "rc \<noteq> VIREO_OK" using ex Op_Advance by simp_all
    then show ?thesis using ok service_step.fail by auto
  qed
next
  case Op_Take_Expired
  show ?thesis
  proof (cases "ready_timers w = {}")
    case True
    then have "e = Ev_Failed VIREO_RESULT_NOT_FOUND" "w' = w"
      using ex take_expired_none [OF ok True] Op_Take_Expired by simp_all
    then show ?thesis using ok service_step.fail [of VIREO_RESULT_NOT_FOUND] by auto
  next
    case False
    obtain w1 L1 x where r: "vireo_timer_wheel_take_expired (Some w) (Some no_expired) = (VIREO_OK, Some w1, Some x)"
      "wheel_ok w1 L1" "ex_handle x \<in> ready_timers w" "timers w (ex_handle x) = Some (ti_deadline_ns (ex_timer x))"
      "timers w1 = (timers w)(ex_handle x := None)" "ready_timers w1 = ready_timers w - {ex_handle x}"
      "owner_issued (own w1) = owner_issued (own w)" "wh_stopping w1 = wh_stopping w"
      "wh_latest_now_ns w1 = wh_latest_now_ns w" "wh_geometry w1 = wh_geometry w"
      using take_expired_ok [OF ok False] by metis
    have "ti_deadline_ns (ex_timer x) \<le> wh_latest_now_ns w" using ready_expired [OF ok r(3)] r(4) by simp
    then have "service_step (tick_ns (wh_geometry w)) (wheel_service w) op (Ev_Expired (ex_handle x) (ti_deadline_ns (ex_timer x)))
        ((wheel_service w)\<lparr>ts_timers := (ts_timers (wheel_service w))(ex_handle x := None),
          ts_fired := ts_fired (wheel_service w) - {ex_handle x}\<rparr>)"
      unfolding Op_Take_Expired by (intro expired) (use r in \<open>simp_all add: wheel_service_def\<close>)
    moreover have "e = Ev_Expired (ex_handle x) (ti_deadline_ns (ex_timer x))" "w' = w1" using ex r(1) Op_Take_Expired by simp_all
    ultimately show ?thesis using r by (auto simp: wheel_service_def)
  qed
next
  case Op_Stop
  note p = okD [OF ok]
  have "e = Ev_Done" "w' = w\<lparr>wh_stopping := True\<rparr>"
    using ex Op_Stop p(1) by (auto simp: vireo_timer_wheel_shutdown_begin_def wheel_table_def)
  moreover have "wheel_ok (w\<lparr>wh_stopping := True\<rparr>) L"
    using p by (simp add: wheel_okx_def wheel_table_def wheel_clock_def wheel_due_def wheel_rings_def wheel_order_def wheel_stop_def)
  moreover have "timers (w\<lparr>wh_stopping := True\<rparr>) = timers w" "ready_timers (w\<lparr>wh_stopping := True\<rparr>) = ready_timers w"
    by (rule timers_frame; simp)+
  moreover have "service_step (tick_ns (wh_geometry w)) (wheel_service w) op Ev_Done ((wheel_service w)\<lparr>ts_stopping := True\<rparr>)"
    unfolding Op_Stop by (rule stop)
  ultimately show ?thesis by (auto simp: wheel_service_def)
qed

lemma wheel_run_refines:
  assumes "wheel_ok w L" and "wheel_run ops w = (es, w')"
  shows "(\<exists>L'. wheel_ok w' L') \<and> wh_geometry w' = wh_geometry w \<and>
    service_run (tick_ns (wh_geometry w)) (wheel_service w) ops es (wheel_service w')"
  using assms
proof (induction ops arbitrary: w L es)
  case Nil
  then show ?case by (auto intro: run_end)
next
  case (Cons op ops)
  obtain e w1 where x: "wheel_exec op w = (e, w1)" by (metis surj_pair)
  obtain es1 where r: "wheel_run ops w1 = (es1, w')" and es: "es = e # es1"
    using Cons.prems(2) x by (auto simp: Let_def split: prod.splits)
  note s = wheel_exec_refines [OF Cons.prems(1) x]
  obtain L1 where "wheel_ok w1 L1" using s by blast
  from Cons.IH [OF this r] s show ?case by (auto simp: es intro: run_step)
qed

subsection \<open>The wheel refines the service\<close>

text \<open>
  C6. The timing wheel refines the timer service: from start-up on, whatever the sequence of
  register, cancel, rearm, advance, take-expired and stop, its results are those of an abstract
  service that keeps a map from handles to deadlines. In particular handles are never issued twice,
  a timer is reported as expired at most once, never before its deadline, only while it is live,
  with the deadline it was last given; and when an advance reports that it has caught up, every
  timer a full tick past its deadline has been found.
\<close>

theorem wheel_refines_service:
  assumes "heap_wf (te_heap env)" and "wheel_started wo ro races env w env'" and "wheel_run ops w = (es, w')"
  shows "service_run (tick_ns (wo_geometry wo))
    \<lparr>ts_timers = Map.empty, ts_fired = {}, ts_issued = {}, ts_now = origin_ns (wo_geometry wo), ts_stopping = False\<rparr>
    ops es (wheel_service w')"
proof -
  note st = wheel_started_OK [OF assms(1,2)]
  have gen: "ho_last_generation (own w) = 0"
  proof -
    obtain w0 h1 where pr: "vireo_timer_wheel_prepare (Some w0) (Some ro) races \<lparr>te_last_owner_id = te_last_owner_id env, te_heap = h1\<rparr> =
      (VIREO_OK, Some w, env')"
      using assms(2) by (cases env) (auto simp: wheel_started_def)
    then show ?thesis by (rule prepare_parts)
        (auto simp: vireo_timer_handle_owner_create_def vireo_timer_handle_owner_create_runtime_def Let_def split: if_splits prod.splits)
  qed
  then have "owner_issued (own w) = {}" by (auto simp: owner_issued_def)
  then have "wheel_service w = \<lparr>ts_timers = Map.empty, ts_fired = {}, ts_issued = {}, ts_now = origin_ns (wo_geometry wo), ts_stopping = False\<rparr>"
    using st(2-5) by (simp add: wheel_service_def)
  then show ?thesis using wheel_run_refines [OF st(1) assms(3)] st(6) by simp
qed

subsection \<open>Advancing catches up\<close>

lemma advance_repeated:
  assumes "wheel_ok w L" and "budget_ok b" and "\<not> wh_stopping w" and "wh_latest_now_ns w \<le> now"
    and "work_left (w\<lparr>wh_latest_now_ns := now\<rparr>) L \<le> n"
  shows "\<exists>k es w'. k \<le> n \<and> wheel_run (replicate (Suc k) (Op_Advance now b)) w = (es @ [Ev_Advanced True], w') \<and>
    (\<exists>L'. wheel_ok w' L') \<and> caught_up w' \<and> steady (w\<lparr>wh_latest_now_ns := now\<rparr>) w'"
  using assms
proof (induction n arbitrary: w L rule: less_induct)
  case (less n)
  obtain w1 L1 rep where r: "vireo_timer_wheel_advance (Some w) now b (Some no_report) = (VIREO_OK, Some w1, Some rep)"
    "wheel_ok w1 L1" "steady (w\<lparr>wh_latest_now_ns := now\<rparr>) w1" "wp_caught_up (ar_progress rep) \<longleftrightarrow> caught_up w1"
    "caught_up w1 \<or> work_left w1 L1 < work_left (w\<lparr>wh_latest_now_ns := now\<rparr>) L"
    using advance_ok [OF less.prems(1-4)] by metis
  have ex: "wheel_exec (Op_Advance now b) w = (Ev_Advanced (caught_up w1), w1)" using r(1,4) by simp
  show ?case
  proof (cases "caught_up w1")
    case True
    have "wheel_run (replicate (Suc 0) (Op_Advance now b)) w = ([] @ [Ev_Advanced True], w1)" using ex True by simp
    then show ?thesis using r(2,3) True by blast
  next
    case False
    have now1: "wh_latest_now_ns w1 = now" "\<not> wh_stopping w1" using r(3) less.prems(3) by (simp_all add: steady_def)
    then have same: "w1\<lparr>wh_latest_now_ns := now\<rparr> = w1" by simp
    have lt: "work_left w1 L1 < n" using False r(5) less.prems(5) by simp
    obtain k es w2 where k: "k \<le> work_left w1 L1" "wheel_run (replicate (Suc k) (Op_Advance now b)) w1 = (es @ [Ev_Advanced True], w2)"
      "\<exists>L'. wheel_ok w2 L'" "caught_up w2" "steady w1 w2"
      using less.IH [OF lt r(2) less.prems(2) now1(2), of ] now1(1) same by auto
    have "wheel_run (replicate (Suc (Suc k)) (Op_Advance now b)) w = ((Ev_Advanced False # es) @ [Ev_Advanced True], w2)"
      using ex False k(2) by (simp del: wheel_exec.simps)
    then show ?thesis using k lt steady_trans [OF r(3) k(5)] by (intro exI [of _ "Suc k"]) (metis Suc_leI le_less_trans)
  qed
qed

text \<open>
  C28. Advancing makes progress: on any reachable running wheel, repeating the advance to a time not
  before the last one, with any admissible budget however small, reports after a bounded number of
  calls that it has caught up, namely after at most (outstanding ticks) * (capacity + 1) + capacity + 1
  calls. By then every timer that is due a tick before that time waits in the ready list, and no timer
  is lost or added on the way.
\<close>

theorem wheel_advance_catches_up:
  assumes "heap_wf (te_heap env)" and "wheel_started wo ro races env w0 env'" and "wheel_run ops w0 = (es0, w)"
    and "\<not> wh_stopping w" and "wh_latest_now_ns w \<le> now" and "budget_ok b"
  shows "\<exists>k es w'. k \<le> (last_tick (wo_geometry wo) (unat now) - unat (wh_completed_tick w)) * (cap w + 1) + cap w + 1 \<and>
    wheel_run (replicate k (Op_Advance now b)) w = (es @ [Ev_Advanced True], w') \<and> timers w' = timers w \<and>
    (\<forall>h d. timers w h = Some d \<and> unat d + unat (tick_ns (wo_geometry wo)) \<le> unat now + 1 \<longrightarrow> h \<in> ready_timers w')"
proof -
  note st = wheel_started_OK [OF assms(1,2)]
  obtain L where ok: "wheel_ok w L" and g: "wh_geometry w = wo_geometry wo"
    using wheel_run_refines [OF st(1) assms(3)] st(6) by auto
  let ?w = "w\<lparr>wh_latest_now_ns := now\<rparr>"
  note p = okD [OF ok]
  obtain k es w' where k: "k \<le> work_left ?w L" "wheel_run (replicate (Suc k) (Op_Advance now b)) w = (es @ [Ev_Advanced True], w')"
    "\<exists>L'. wheel_ok w' L'" "caught_up w'" "steady ?w w'"
    using advance_repeated [OF ok assms(6,4,5), of "work_left ?w L"] by auto
  have hP: "Pending \<in> heads (buckets w)" by (simp add: heads_def)
  have li: "lists_ok (buckets w) (cap w) (wh_links w) L" using p(4) by (simp add: wheel_rings_def)
  have "length (L Pending) = card (set (L Pending))" using list_distinct [OF li hP] by (simp add: distinct_card)
  also have "\<dots> \<le> card {..< cap w}" by (rule card_mono) (use lists_okD(2) [OF li hP] in auto)
  finally have lp: "length (L Pending) \<le> cap w" by simp
  have "target ?w - frontier ?w \<le> last_tick (wo_geometry wo) (unat now) - unat (wh_completed_tick w)"
    using g by (auto simp: target_def frontier_def intro: diff_le_mono2)
  then have "(target ?w - frontier ?w) * (cap ?w + 1) + length (L Pending) \<le>
      (last_tick (wo_geometry wo) (unat now) - unat (wh_completed_tick w)) * (cap ?w + 1) + cap w"
    by (rule add_mono [OF mult_le_mono1 lp])
  then have "work_left ?w L \<le> (last_tick (wo_geometry wo) (unat now) - unat (wh_completed_tick w)) * (cap w + 1) + cap w"
    by (simp add: work_left_def)
  then have "Suc k \<le> (last_tick (wo_geometry wo) (unat now) - unat (wh_completed_tick w)) * (cap w + 1) + cap w + 1"
    using k(1) by simp
  moreover have T: "timers w' = timers w" using k(5) timers_frame(1) [of ?w w] by (simp add: steady_def)
  moreover have "h \<in> ready_timers w'" if "timers w h = Some d" "unat d + unat (tick_ns (wo_geometry wo)) \<le> unat now + 1" for h d
  proof -
    obtain L' where ok': "wheel_ok w' L'" using k(3) by blast
    have s: "wh_geometry w' = wo_geometry wo" "wh_latest_now_ns w' = now" using k(5) g by (simp_all add: steady_def)
    have gv: "geometry_valid (wo_geometry wo)" "unat (origin_ns (wo_geometry wo)) \<le> unat now"
      using okD(2) [OF ok'] s by (auto simp: wheel_clock_def word_le_nat_alt)
    show ?thesis using caught_up_ready [OF ok' k(4)] least_tick_late [OF gv that(2)] that(1) T s by (simp add: target_def)
  qed
  ultimately show ?thesis using k(2) by (intro exI [of _ "Suc k"] exI [of _ es] exI [of _ w']) blast
qed

subsection \<open>A concrete wheel\<close>

definition demo_wheel_options :: vireo_timer_wheel_options where
  "demo_wheel_options = \<lparr>wo_geometry = \<lparr>origin_ns = 1000, tick_ns = 10, bucket_count = 4\<rparr>, wo_max_memory_bytes = 4096\<rparr>"

definition demo_registry_options :: vireo_timer_wheel_registry_options where
  "demo_registry_options = \<lparr>ro_capacity = 2, ro_max_memory_bytes = 4096\<rparr>"

definition demo_env :: timer_env where
  "demo_env = \<lparr>te_last_owner_id = 6, te_heap = demo_heap\<lparr>heap_failing := []\<rparr>\<rparr>"

definition demo_created :: "vireo_result \<times> vireo_timer_wheel option option \<times> vireo_heap" where
  "demo_created = vireo_timer_wheel_create (Some demo_wheel_options) (Some None) (te_heap demo_env)"

definition demo_prepared :: "vireo_result \<times> vireo_timer_wheel option \<times> timer_env" where
  "demo_prepared = vireo_timer_wheel_prepare (the (fst (snd demo_created))) (Some demo_registry_options) []
     (demo_env\<lparr>te_heap := snd (snd demo_created)\<rparr>)"

definition demo_wheel :: vireo_timer_wheel where
  "demo_wheel = the (fst (snd demo_prepared))"

definition demo_handle :: vireo_timer_handle where
  "demo_handle = \<lparr>th_owner_id = 7, th_slot_index = 0, th_generation = 1\<rparr>"

definition demo_budget :: vireo_timer_wheel_advance_budget where
  "demo_budget = \<lparr>max_ticks = 3, max_nodes = 1\<rparr>"

lemma demo_wheel_started:
  "heap_wf (te_heap demo_env)"
  "wheel_started demo_wheel_options demo_registry_options [] demo_env demo_wheel (snd (snd demo_prepared))"
proof -
  show "heap_wf (te_heap demo_env)" by (simp add: demo_env_def demo_heap_def heap_wf_def)
  have c: "fst demo_created = VIREO_OK" by code_simp
  have "\<not> Option.is_none (fst (snd demo_created))" by code_simp
  moreover have "\<not> Option.is_none (the (fst (snd demo_created)))" by code_simp
  ultimately obtain w0 where w0: "fst (snd demo_created) = Some (Some w0)" by (auto simp: Option.is_none_def)
  have p: "fst demo_prepared = VIREO_OK" by code_simp
  have "\<not> Option.is_none (fst (snd demo_prepared))" by code_simp
  then have "fst (snd demo_prepared) = Some demo_wheel" by (simp add: demo_wheel_def Option.is_none_def)
  moreover have "demo_prepared = vireo_timer_wheel_prepare (Some w0) (Some demo_registry_options) []
      (demo_env\<lparr>te_heap := snd (snd demo_created)\<rparr>)"
    by (simp add: demo_prepared_def w0)
  moreover have "vireo_timer_wheel_create (Some demo_wheel_options) (Some None) (te_heap demo_env) =
      (VIREO_OK, Some (Some w0), snd (snd demo_created))"
    using c w0 by (metis demo_created_def prod.collapse)
  ultimately show "wheel_started demo_wheel_options demo_registry_options [] demo_env demo_wheel (snd (snd demo_prepared))"
    using p unfolding wheel_started_def by (metis prod.collapse)
qed

definition demo_ops :: "timer_op list" where
  "demo_ops = [Op_Register 1000 1025, Op_Take_Expired, Op_Advance 1035 demo_budget, Op_Take_Expired, Op_Cancel demo_handle]"

definition demo_events :: "timer_event list" where
  "demo_events = [Ev_Registered demo_handle, Ev_Failed VIREO_RESULT_NOT_FOUND, Ev_Advanced True, Ev_Expired demo_handle 1025,
     Ev_Failed VIREO_RESULT_NOT_FOUND]"

lemma demo_run: "fst (wheel_run demo_ops demo_wheel) = demo_events"
  by code_simp

theorem wheel_refines_service_witness:
  "service_run 10 \<lparr>ts_timers = Map.empty, ts_fired = {}, ts_issued = {}, ts_now = 1000, ts_stopping = False\<rparr>
     demo_ops demo_events (wheel_service (snd (wheel_run demo_ops demo_wheel)))"
proof -
  have run: "wheel_run demo_ops demo_wheel = (demo_events, snd (wheel_run demo_ops demo_wheel))"
    using demo_run by (metis prod.collapse)
  show ?thesis using wheel_refines_service [OF demo_wheel_started run] by (simp add: demo_wheel_options_def)
qed

theorem wheel_advance_catches_up_witness:
  "\<exists>k es w'. k \<le> 36 \<and>
     wheel_run (replicate k (Op_Advance 1100 demo_budget)) (snd (wheel_run [Op_Register 1000 1025] demo_wheel)) =
       (es @ [Ev_Advanced True], w')"
proof -
  let ?w = "snd (wheel_run [Op_Register 1000 1025] demo_wheel)"
  have run: "wheel_run [Op_Register 1000 1025] demo_wheel = (fst (wheel_run [Op_Register 1000 1025] demo_wheel), ?w)" by simp
  have st: "\<not> wh_stopping ?w" by code_simp
  have now: "wh_latest_now_ns ?w \<le> 1100" by code_simp
  have b: "budget_ok demo_budget" by code_simp
  have f: "wh_completed_tick ?w = 0" "wh_timer_capacity ?w = 2" by code_simp+
  have "(last_tick (wo_geometry demo_wheel_options) (unat (1100 :: u64)) - unat (wh_completed_tick ?w)) * (cap ?w + 1) + cap ?w + 1 \<le> 36"
    unfolding f by (simp add: demo_wheel_options_def last_tick_def)
  then show ?thesis using wheel_advance_catches_up [OF demo_wheel_started run st now b] by (meson le_trans)
qed

end
