(* ===== verification/Timer_Shutdown.thy ===== *)
theory Timer_Shutdown
  imports Timer_Service
begin

text \<open>
  Shutdown of the timing wheel: the bounded sweep that returns the remaining timers one by one, and
  the destruction of the wheel.
\<close>

subsection \<open>The allocated parts\<close>

definition wheel_frame where
  "wheel_frame w = (wh_self w, wh_buckets w, wh_nodes_block w, wh_bucket_count w, wh_timer_capacity w, wh_nodes w = None, wh_owner w = None,
     ho_self (own w), ho_slots_block (own w), ho_capacity (own w))"

lemma set_node_wheel_frame: "wheel_frame (set_node i n w) = wheel_frame w"
  by (simp add: wheel_frame_def set_node_def)

lemma place_wheel_frame: "wheel_frame (vireo_timer_wheel_place_node w i) = wheel_frame w"
  by (simp add: vireo_timer_wheel_place_node_def Let_def wheel_frame_def set_node_def)

lemma advance_loop_frame: "wheel_frame (fst (advance_loop t b ticks nodes w)) = wheel_frame w"
proof (induction t b ticks nodes w rule: advance_loop.induct)
  case (1 t b ticks nodes w)
  have f: "wheel_frame (finish_tick v) = wheel_frame v" "wheel_frame (start_tick v) = wheel_frame v" for v
    by (simp_all add: wheel_frame_def finish_tick_def start_tick_def Let_def)
  have e: "wheel_frame (examine_node v) = wheel_frame v" for v
    by (simp add: examine_node_def Let_def place_wheel_frame) (simp add: wheel_frame_def)
  let ?w1 = "finish_tick w"
  show ?case
  proof (cases "\<not> wh_processing ?w1 \<and> (wh_completed_tick ?w1 = t \<or> ticks = max_ticks b)")
    case True
    then show ?thesis by (simp add: advance_loop.simps [of t] Let_def f)
  next
    case go: False
    define w2 ticks2 where "w2 = (if \<not> wh_processing ?w1 then start_tick ?w1 else ?w1)"
      and "ticks2 = (if \<not> wh_processing ?w1 then ticks + 1 else ticks)"
    have pair: "(if \<not> wh_processing ?w1 then (start_tick ?w1, ticks + 1) else (?w1, ticks)) = (w2, ticks2)"
      by (simp add: w2_def ticks2_def)
    have w2: "wheel_frame w2 = wheel_frame w" by (simp add: w2_def f)
    have eq: "advance_loop t b ticks nodes w =
        (if pending_is_empty w2 then advance_loop t b ticks2 nodes w2
         else if nodes = max_nodes b then (w2, ticks2, nodes)
         else advance_loop t b ticks2 (nodes + 1) (examine_node w2))"
      unfolding advance_loop.simps [of t b ticks nodes w] Let_def using go pair by (simp only: if_False) simp
    show ?thesis
      using "1.IH"(1) [OF refl go pair [symmetric] refl] "1.IH"(2) [OF refl go pair [symmetric] refl] e w2 eq by simp
  qed
qed

lemma wheel_exec_frame:
  assumes t: "wheel_table w" and ex: "wheel_exec op w = (e, w')"
  shows "wheel_frame w' = wheel_frame w"
proof -
  obtain ow where ow: "wh_owner w = Some ow" "owner_inv ow" using t by (rule table_owner)
  have upd: "wheel_frame (v\<lparr>wh_links := l\<rparr>) = wheel_frame v" "wheel_frame (v\<lparr>wh_ready_count := c\<rparr>) = wheel_frame v" for v l c
    by (simp_all add: wheel_frame_def)
  have acq: "wheel_frame (w\<lparr>wh_owner := Some (owner_acquired ow)\<rparr>) = wheel_frame w"
    and rel: "wheel_frame (w\<lparr>wh_owner := Some (owner_released h ow)\<rparr>) = wheel_frame w" for h
    using ow(1) by (simp_all add: wheel_frame_def owner_acquired_def owner_released_def Let_def)
  have un: "wheel_frame (unlink v i) = wheel_frame v" for v i by (simp add: unlink_def Let_def set_node_wheel_frame upd)
  have cancel: "wheel_frame (the (fst (snd (vireo_timer_wheel_cancel (Some w) (Some h))))) = wheel_frame w" for h
  proof -
    have "wheel_frame ((unlink w i)\<lparr>wh_owner := Some (owner_released h (own w))\<rparr>) = wheel_frame w" for i
      using un [of w i] ow(1) by (simp add: wheel_frame_def owner_released_def Let_def)
    then show ?thesis by (simp add: cancel_eq [OF t] set_node_wheel_frame)
  qed
  show ?thesis
  proof (cases op)
    case (Op_Register now d)
    obtain rc tk b where dv: "deadline_values w now d = (rc, tk, b)" by (metis prod_cases3)
    have "wheel_frame (w\<lparr>wh_owner := Some ow\<rparr>) = wheel_frame w" using ow(1) by (simp add: wheel_frame_def)
    then show ?thesis using ex Op_Register ow(1) dv acq
      by (auto simp: vireo_timer_wheel_register_def vireo_timer_wheel_register_runtime_def zero_handle_empty Let_def
          owner_acquire_native_def owner_acquire_eq place_wheel_frame set_node_wheel_frame split: if_splits)
  next
    case (Op_Cancel h)
    then show ?thesis using ex cancel [of h] by (auto simp: split_def Let_def)
  next
    case (Op_Rearm h now d)
    obtain rc tk b where dv: "deadline_values w now d = (rc, tk, b)" by (metis prod_cases3)
    show ?thesis using ex Op_Rearm dv
      by (auto simp: vireo_timer_wheel_rearm_def Let_def place_wheel_frame set_node_wheel_frame upd split: if_splits)
  next
    case (Op_Advance now b)
    have "wheel_frame (w\<lparr>wh_latest_now_ns := now\<rparr>) = wheel_frame w" by (simp add: wheel_frame_def)
    then show ?thesis using ex Op_Advance advance_loop_frame [of _ b 0 0 "w\<lparr>wh_latest_now_ns := now\<rparr>"]
      by (auto simp: vireo_timer_wheel_advance_def Let_def split_def split: if_splits)
  next
    case Op_Take_Expired
    then show ?thesis
      using ex cancel
      by (auto simp: vireo_timer_wheel_take_expired_def vireo_timer_wheel_take_expired_runtime_def Let_def split_def
          vireo_timer_wheel_cancel_def [symmetric] split: if_splits)
  next
    case Op_Stop
    then show ?thesis using ex by (auto simp: vireo_timer_wheel_shutdown_begin_def wheel_frame_def split: if_splits)
  qed
qed


subsection \<open>The sweep\<close>

lemma handle_active:
  assumes "wheel_table w" and "i < cap w"
  shows "th_owner_id (wn_handle (wheel_node w i)) = 0 \<longleftrightarrow> \<not> active w i"
  using assms by (auto simp: wheel_table_def owner_inv_def slot_handle_def zero_handle_def)

lemma word_succ: "x < m \<Longrightarrow> unat (x + 1) = unat x + 1" for x m :: size_t
  using unat_add_less [of x 1] unat_lt_64 [of m] by (simp add: word_less_nat_alt)

lemma shutdown_scan_ok:
  assumes "wheel_table w" and "shutdown_scan w n cursor scanned = (c', s', found)" and "unat cursor \<le> cap w" and "scanned \<le> n"
  shows "case found of
      None \<Rightarrow> unat cursor \<le> unat c' \<and> unat c' \<le> cap w \<and> (\<forall>i. unat cursor \<le> i \<and> i < unat c' \<longrightarrow> \<not> active w i) \<and>
        (c' = wh_timer_capacity w \<or> s' = n) \<and> unat s' - unat scanned = unat c' - unat cursor \<and> scanned \<le> s' \<and> s' \<le> n
    | Some i \<Rightarrow> unat c' = Suc i \<and> unat cursor \<le> i \<and> i < cap w \<and> active w i \<and> (\<forall>j. unat cursor \<le> j \<and> j < i \<longrightarrow> \<not> active w j)"
  using assms
proof (induction w n cursor scanned rule: shutdown_scan.induct)
  case (1 w n cursor scanned)
  show ?case
  proof (cases "cursor < wh_timer_capacity w \<and> scanned < n")
    case True
    have c: "unat (cursor + 1) = unat cursor + 1" "unat cursor < cap w" using True word_succ by (auto simp: word_less_nat_alt)
    have s: "unat (scanned + 1) = unat scanned + 1" "scanned + 1 \<le> n"
      using True word_succ [of scanned n] by (auto simp: word_less_nat_alt word_le_nat_alt)
    note ha = handle_active [OF "1.prems"(1) c(2)]
    show ?thesis
    proof (cases "active w (unat cursor)")
      case False
      then have run: "shutdown_scan w n (cursor + 1) (scanned + 1) = (c', s', found)"
        using "1.prems"(2) True ha by (simp add: shutdown_scan.simps [of w n cursor scanned])
      note IH = "1.IH" [OF True _ "1.prems"(1) run]
      have "th_owner_id (wn_handle (wheel_node w (unat cursor))) = 0" using ha False by simp
      note IH = IH [OF this]
      have rng: "unat cursor \<le> i \<longleftrightarrow> i = unat cursor \<or> unat (cursor + 1) \<le> i" for i using c(1) by auto
      show ?thesis using IH c s False by (cases found) (auto simp: rng word_le_nat_alt)
    next
      case act: True
      then have "(c', s', found) = (cursor + 1, scanned + 1, Some (unat cursor))"
        using "1.prems"(2) True ha by (simp add: shutdown_scan.simps [of w n cursor scanned])
      then show ?thesis using c act by auto
    qed
  next
    case False
    then have r: "(c', s', found) = (cursor, scanned, None)" using "1.prems"(2) by (auto simp: shutdown_scan.simps [of w n cursor scanned])
    have "cursor = wh_timer_capacity w \<or> scanned = n"
      using False "1.prems"(3,4) by (auto simp: word_le_nat_alt word_less_nat_alt word_unat_eq_iff)
    then show ?thesis using r "1.prems" by auto
  qed
qed

lemma active_left:
  assumes ok: "wheel_ok w L" and ne: "ho_active_count (own w) \<noteq> 0"
  obtains i where "unat (wh_shutdown_cursor w) \<le> i" and "i < cap w" and "active w i"
proof -
  note p = okD [OF ok]
  obtain ow where ow: "wh_owner w = Some ow" "owner_inv ow" "length (ho_slots ow) = cap w" using p(1) by (rule table_owner)
  obtain h where "h \<in> owner_live ow" using owner_count_live(2) [OF ow(2)] ne ow(1) by auto
  then have h: "h \<in> owner_live (own w)" using ow(1) by simp
  note idx = live_index [OF p(1) h]
  have "unat (wh_shutdown_cursor w) \<le> unat (th_slot_index h)"
    using p(6) idx(2) by (meson not_le wheel_stop_def)
  then show thesis using that idx by blast
qed

lemma cursor_ok:
  assumes "wheel_ok w L" and "wh_stopping w" and "unat c \<le> cap w" and "\<forall>i < unat c. \<not> active w i"
  shows "wheel_ok (w\<lparr>wh_shutdown_cursor := c\<rparr>) L" and "timers (w\<lparr>wh_shutdown_cursor := c\<rparr>) = timers w"
proof -
  show "wheel_ok (w\<lparr>wh_shutdown_cursor := c\<rparr>) L"
    using okD [OF assms(1)] assms(2-4)
    by (simp add: wheel_okx_def wheel_table_def wheel_clock_def wheel_due_def wheel_rings_def wheel_order_def wheel_stop_def)
  show "timers (w\<lparr>wh_shutdown_cursor := c\<rparr>) = timers w" by (rule timers_frame(1); simp)
qed

definition no_shutdown_report :: vireo_timer_wheel_shutdown_report where
  "no_shutdown_report = \<lparr>sr_scanned_slots = 0, sr_has_cancelled = False,
     sr_cancelled = \<lparr>sc_handle = zero_handle, sc_timer = \<lparr>ti_deadline_ns = 0, ti_due_tick = 0, ti_bucket_index = 0\<rparr>\<rparr>,
     sr_remaining_count = 0, sr_finished = False\<rparr>"

text \<open>Up to \<open>k\<close> shutdown steps: the timers returned, and whether the last report said \<^emph>\<open>finished\<close>.\<close>

fun wheel_sweep :: "nat \<Rightarrow> size_t \<Rightarrow> vireo_timer_wheel \<Rightarrow> (vireo_timer_handle \<times> vireo_monotonic_ns) list \<times> bool \<times> vireo_timer_wheel" where
  "wheel_sweep 0 n w = ([], False, w)"
| "wheel_sweep (Suc k) n w =
     (let (rc, w1, rep) = vireo_timer_wheel_shutdown_step (Some w) n (Some no_shutdown_report) in
      if rc \<noteq> VIREO_OK then ([], False, the w1)
      else
        let r = the rep; cs = (if sr_has_cancelled r then [(sc_handle (sr_cancelled r), ti_deadline_ns (sc_timer (sr_cancelled r)))] else []) in
        if sr_finished r then (cs, True, the w1)
        else let (ds, f, w2) = wheel_sweep k n (the w1) in (cs @ ds, f, w2))"

lemma shutdown_step_ok:
  assumes ok: "wheel_ok w L" and st: "wh_stopping w" and n: "n \<noteq> 0" "n \<le> 65536"
  obtains w' L' rep where "vireo_timer_wheel_shutdown_step (Some w) n (Some r) = (VIREO_OK, Some w', Some rep)"
    and "wheel_ok w' L'" and "wh_stopping w'" and "wh_timer_capacity w' = wh_timer_capacity w"
    and "sr_finished rep \<longleftrightarrow> timers w' = Map.empty"
    and "if sr_has_cancelled rep
      then \<exists>h d. sc_handle (sr_cancelled rep) = h \<and> ti_deadline_ns (sc_timer (sr_cancelled rep)) = d \<and> timers w h = Some d \<and>
        timers w' = (timers w)(h := None)
      else timers w' = timers w"
    and "sr_finished rep \<or> unat (wh_shutdown_cursor w) < unat (wh_shutdown_cursor w') \<and> unat (wh_shutdown_cursor w') < cap w"
    and "wheel_frame w' = wheel_frame w"
proof -
  note p = okD [OF ok]
  obtain ow where ow: "wh_owner w = Some ow" "owner_inv ow" "length (ho_slots ow) = cap w" using p(1) by (rule table_owner)
  have empty: "timers v = Map.empty \<longleftrightarrow> ho_active_count (own v) = 0" if "wheel_okx X v L'" for X v L'
  proof -
    note q = okD(1) [OF that]
    have "owner_inv (own v)" using q by (simp add: wheel_table_def)
    then show ?thesis using live_dom [OF q] owner_count_live(2) [of "own v"] by auto
  qed
  have cur: "unat (wh_shutdown_cursor w) \<le> cap w" "\<forall>i < unat (wh_shutdown_cursor w). \<not> active w i"
    using p(6) by (simp_all add: wheel_stop_def)
  have fr: "wheel_frame (v\<lparr>wh_shutdown_cursor := c\<rparr>) = wheel_frame v" for v c by (simp add: wheel_frame_def)
  show thesis
  proof (cases "ho_active_count ow = 0")
    case True
    let ?w = "w\<lparr>wh_shutdown_cursor := wh_timer_capacity w\<rparr>"
    have "owner_live ow = {}" using owner_count_live(2) [OF ow(2)] True by simp
    then have "\<forall>i < cap w. \<not> active w i" using slot_handle_live(1) [OF ow(2)] ow by auto
    note c = cursor_ok [OF ok st, of "wh_timer_capacity w", OF order_refl this]
    have "timers ?w = Map.empty" using empty [OF c(1)] True ow(1) by simp
    moreover have "\<exists>rep. vireo_timer_wheel_shutdown_step (Some w) n (Some r) = (VIREO_OK, Some ?w, Some rep) \<and> sr_finished rep \<and>
        \<not> sr_has_cancelled rep"
      using True ow(1) st n
      by (simp add: vireo_timer_wheel_shutdown_step_def vireo_timer_wheel_shutdown_step_runtime_def Let_def
          vireo_timer_handle_owner_inspect_def)
    ultimately show thesis using that [OF _ c(1)] c(2) st fr by auto
  next
    case ne: False
    obtain c s found where sc: "shutdown_scan w n (wh_shutdown_cursor w) 0 = (c, s, found)" by (metis prod_cases3)
    note scan = shutdown_scan_ok [OF p(1) sc cur(1)]
    show thesis
    proof (cases found)
      case None
      let ?w = "w\<lparr>wh_shutdown_cursor := c\<rparr>"
      have s: "unat (wh_shutdown_cursor w) \<le> unat c" "unat c \<le> cap w"
        "\<forall>i. unat (wh_shutdown_cursor w) \<le> i \<and> i < unat c \<longrightarrow> \<not> active w i"
        "c = wh_timer_capacity w \<or> s = n" "unat s = unat c - unat (wh_shutdown_cursor w)"
        using scan None by auto
      have inact: "\<forall>i < unat c. \<not> active w i" using s(3) cur(2) by (meson not_le)
      note co = cursor_ok [OF ok st s(2) inact]
      obtain i where i: "unat c \<le> i" "i < cap w" "active w i"
        using active_left [OF co(1)] ne ow(1) by auto
      have "s = n" using s(4) i by auto
      then have "unat (wh_shutdown_cursor w) < unat c" using s(1,5) n(1) by (metis diff_is_0_eq le_neq_implies_less unat_eq_zero)
      moreover have "timers ?w \<noteq> Map.empty" using empty [OF co(1)] ne ow(1) by simp
      moreover have "\<exists>rep. vireo_timer_wheel_shutdown_step (Some w) n (Some r) = (VIREO_OK, Some ?w, Some rep) \<and> \<not> sr_finished rep \<and>
          \<not> sr_has_cancelled rep"
        using ne ow(1) st n sc None
        by (simp add: vireo_timer_wheel_shutdown_step_def vireo_timer_wheel_shutdown_step_runtime_def Let_def
            vireo_timer_handle_owner_inspect_def)
      ultimately show thesis using that [OF _ co(1)] co(2) st i fr by auto
    next
      case (Some i)
      let ?h = "slot_handle ow i"
      have s: "unat c = Suc i" "unat (wh_shutdown_cursor w) \<le> i" "i < cap w" "active w i"
        "\<forall>j. unat (wh_shutdown_cursor w) \<le> j \<and> j < i \<longrightarrow> \<not> active w j"
        using scan Some by auto
      have h: "?h \<in> owner_live (own w)" "unat (th_slot_index ?h) = i" using slot_handle_live [OF ow(2), of i] s(3,4) ow by simp_all
      have wn: "wn_handle (wheel_node w i) = ?h" using live_index(3) [OF p(1) h(1)] h(2) by simp
      obtain w1 L1 where c1: "vireo_timer_wheel_cancel (Some w) (Some ?h) = (VIREO_OK, Some w1, Some zero_handle)" "wheel_ok w1 L1"
        "timers w1 = (timers w)(?h := None)" "own w1 = owner_released ?h (own w)" "wh_stopping w1 = wh_stopping w"
        "wh_shutdown_cursor w1 = wh_shutdown_cursor w" "wh_timer_capacity w1 = wh_timer_capacity w"
        using cancel_ok [OF ok h(1)] by metis
      let ?w = "w1\<lparr>wh_shutdown_cursor := c\<rparr>"
      have act1: "active w1 j \<longleftrightarrow> active w j \<and> j \<noteq> i" if "j < cap w" for j
        using that h(2) ow(1,3) unfolding c1(4) by (cases "j = i") (simp_all add: owner_released_def Let_def)
      have "\<forall>j < unat c. \<not> active w1 j"
      proof (intro allI impI)
        fix j assume j: "j < unat c"
        then have "j < cap w" "j \<le> i" using s(1,3) by simp_all
        then show "\<not> active w1 j" using act1 [of j] cur(2) s(5) by (metis le_neq_implies_less not_le)
      qed
      note co = cursor_ok [OF c1(2), of c] and co' = this
      have co: "wheel_ok ?w L1" "timers ?w = timers w1" using co' co st c1(5,7) s(1,3) by simp_all
      have cnt: "ho_active_count (own ?w) = ho_active_count ow - 1"
        using c1(4) ow(1) by (simp add: owner_released_def Let_def)
      have step: "\<exists>rep. vireo_timer_wheel_shutdown_step (Some w) n (Some r) = (VIREO_OK, Some ?w, Some rep) \<and>
          sr_finished rep = (ho_active_count ow - 1 = 0) \<and> sr_has_cancelled rep \<and> sc_handle (sr_cancelled rep) = ?h \<and>
          ti_deadline_ns (sc_timer (sr_cancelled rep)) = wn_deadline_ns (wheel_node w i)"
        using ne ow(1) st n sc Some c1(1) wn
        by (simp add: vireo_timer_wheel_shutdown_step_def vireo_timer_wheel_shutdown_step_runtime_def Let_def
            vireo_timer_handle_owner_inspect_def vireo_timer_wheel_cancel_def timer_info_def)
      then obtain rep where rep: "vireo_timer_wheel_shutdown_step (Some w) n (Some r) = (VIREO_OK, Some ?w, Some rep)"
          "sr_finished rep = (ho_active_count ow - 1 = 0)" "sr_has_cancelled rep" "sc_handle (sr_cancelled rep) = ?h"
          "ti_deadline_ns (sc_timer (sr_cancelled rep)) = wn_deadline_ns (wheel_node w i)" by blast
      have fin: "sr_finished rep \<longleftrightarrow> timers ?w = Map.empty" using empty [OF co(1)] cnt rep(2) by simp
      have T: "timers w ?h = Some (wn_deadline_ns (wheel_node w i))" using h ow(1) by (simp add: timers_def)
      have prog: "sr_finished rep \<or> unat (wh_shutdown_cursor w) < unat (wh_shutdown_cursor ?w) \<and> unat (wh_shutdown_cursor ?w) < cap w"
      proof (cases "sr_finished rep")
        case False
        then have "ho_active_count (own ?w) \<noteq> 0" using rep(2) cnt by simp
        then obtain k where "unat (wh_shutdown_cursor ?w) \<le> k" "k < cap ?w" using active_left [OF co(1)] by metis
        then show ?thesis using s(1,2) c1(7) by simp
      qed simp
      have "wheel_exec (Op_Cancel ?h) w = (Ev_Done, w1)" using c1(1) by simp
      then have frw: "wheel_frame ?w = wheel_frame w" using wheel_exec_frame [OF p(1)] fr by metis
      show thesis
        by (rule that [OF rep(1) co(1) _ _ fin _ prog frw]) (use st c1 rep T co(2) in simp_all)
    qed
  qed
qed

lemma wheel_sweep_ok:
  assumes "wheel_ok w L" and "wh_stopping w" and "n \<noteq> 0" "n \<le> 65536" and "1 \<le> k" and "cap w - unat (wh_shutdown_cursor w) \<le> k"
  shows "\<exists>cs w'. wheel_sweep k n w = (cs, True, w') \<and> distinct (map fst cs) \<and> set cs = {(h, d). timers w h = Some d} \<and>
    timers w' = Map.empty \<and> (\<exists>L'. wheel_ok w' L') \<and> wheel_frame w' = wheel_frame w"
  using assms
proof (induction k arbitrary: w L)
  case (Suc k)
  obtain w1 L1 rep where r: "vireo_timer_wheel_shutdown_step (Some w) n (Some no_shutdown_report) = (VIREO_OK, Some w1, Some rep)"
    "wheel_ok w1 L1" "wh_stopping w1" "wh_timer_capacity w1 = wh_timer_capacity w" "sr_finished rep \<longleftrightarrow> timers w1 = Map.empty"
    "if sr_has_cancelled rep
      then \<exists>h d. sc_handle (sr_cancelled rep) = h \<and> ti_deadline_ns (sc_timer (sr_cancelled rep)) = d \<and> timers w h = Some d \<and>
        timers w1 = (timers w)(h := None)
      else timers w1 = timers w"
    "sr_finished rep \<or> unat (wh_shutdown_cursor w) < unat (wh_shutdown_cursor w1) \<and> unat (wh_shutdown_cursor w1) < cap w"
    "wheel_frame w1 = wheel_frame w"
    by (rule shutdown_step_ok [OF Suc.prems(1-4), of no_shutdown_report])
  define cs where "cs = (if sr_has_cancelled rep then [(sc_handle (sr_cancelled rep), ti_deadline_ns (sc_timer (sr_cancelled rep)))] else [])"
  have split: "{(h, d). timers w h = Some d} = set cs \<union> {(h, d). timers w1 h = Some d}"
    "set (map fst cs) \<inter> dom (timers w1) = {}" "distinct (map fst cs)"
    using r(6) by (auto simp: cs_def split: if_splits)
  have eq: "wheel_sweep (Suc k) n w = (if sr_finished rep then (cs, True, w1)
      else let (ds, f, w2) = wheel_sweep k n w1 in (cs @ ds, f, w2))"
    using r(1) by (simp add: cs_def Let_def)
  show ?case
  proof (cases "sr_finished rep")
    case True
    then show ?thesis using eq split r(2,5,8) by auto
  next
    case False
    then have lt: "unat (wh_shutdown_cursor w) < unat (wh_shutdown_cursor w1)" "unat (wh_shutdown_cursor w1) < cap w"
      using r(7) by blast+
    have k: "1 \<le> k" using lt Suc.prems(6) by linarith
    have k': "cap w1 - unat (wh_shutdown_cursor w1) \<le> k" unfolding r(4) using lt Suc.prems(6) by linarith
    obtain ds w2 where d: "wheel_sweep k n w1 = (ds, True, w2)" "distinct (map fst ds)" "set ds = {(h, d). timers w1 h = Some d}"
      "timers w2 = Map.empty" "\<exists>L'. wheel_ok w2 L'" "wheel_frame w2 = wheel_frame w1"
      using Suc.IH [OF r(2,3) Suc.prems(3,4) k k'] by blast
    have "fst ` set ds \<subseteq> dom (timers w1)" unfolding d(3) by auto
    then have "distinct (map fst (cs @ ds))" using split(2,3) d(2) by auto
    moreover have "set (cs @ ds) = {(h, d). timers w h = Some d}" unfolding split(1) using d(3) by simp
    ultimately show ?thesis using eq False d r(8) by auto
  qed
qed simp

lemma wheel_run_frame:
  assumes "wheel_ok w L" and "wheel_run ops w = (es, w')"
  shows "wheel_frame w' = wheel_frame w"
  using assms
proof (induction ops arbitrary: w L es)
  case (Cons op ops)
  obtain e w1 where x: "wheel_exec op w = (e, w1)" by (metis surj_pair)
  then obtain es1 where r: "wheel_run ops w1 = (es1, w')" using Cons.prems(2) by (auto simp: Let_def split: prod.splits)
  obtain L1 where "wheel_ok w1 L1" using wheel_exec_refines [OF Cons.prems(1) x] by blast
  from Cons.IH [OF this r] show ?case using wheel_exec_frame [OF okD(1) [OF Cons.prems(1)] x] by simp
qed simp

subsection \<open>Destroying a wheel\<close>

lemma heads_empty:
  assumes ok: "wheel_ok w L"
  shows "timers w = Map.empty \<longleftrightarrow> (\<forall>h \<in> heads (buckets w). head_is_empty (wh_links w) h)"
proof -
  note p = okD [OF ok]
  obtain ow where ow: "wh_owner w = Some ow" "owner_inv ow" "length (ho_slots ow) = cap w" using p(1) by (rule table_owner)
  have li: "lists_ok (buckets w) (cap w) (wh_links w) L" and act: "\<forall>j < cap w. placed (buckets w) L j \<longleftrightarrow> active w j"
    using p(4) by (simp_all add: wheel_rings_def)
  have "head_is_empty (wh_links w) h \<longleftrightarrow> L h = []" if "h \<in> heads (buckets w)" for h
    using ring_Nil_iff [OF lists_okD(1) [OF li that]] lists_okD(1) [OF li that] by (auto simp: head_is_empty_def ring_self)
  then have "(\<forall>h \<in> heads (buckets w). head_is_empty (wh_links w) h) \<longleftrightarrow> (\<forall>j < cap w. \<not> active w j)"
    using act lists_okD(2) [OF li] by (auto simp: placed_def) (metis lessThan_iff list.set_intros(1) neq_Nil_conv subsetD)
  also have "\<dots> \<longleftrightarrow> owner_live (own w) = {}"
    using live_index [OF p(1)] slot_handle_live(1) [OF ow(2)] ow by auto
  also have "\<dots> \<longleftrightarrow> timers w = Map.empty" using live_dom [OF p(1)] by auto
  finally show ?thesis by simp
qed

lemma destroy_wheel:
  assumes wf: "heap_wf (te_heap env)" and st: "wheel_started wo ro races env w env'" and ok: "wheel_ok v L"
    and fr: "wheel_frame v = wheel_frame w"
  shows "if timers v = Map.empty
    then \<exists>h. vireo_timer_wheel_destroy (Some (Some v)) (te_heap env') = (VIREO_OK, Some None, h) \<and>
      set (heap_live h) = set (heap_live (te_heap env))
    else vireo_timer_wheel_destroy (Some (Some v)) (te_heap env') = (VIREO_RESULT_BUSY, Some (Some v), te_heap env')"
proof (cases "timers v = Map.empty")
  case False
  then obtain h where h: "h \<in> heads (buckets v)" "\<not> head_is_empty (wh_links v) h" using heads_empty [OF ok] by blast
  then have "h = Pending \<or> h = Ready \<or> (\<exists>i < buckets v. h = Bucket i)" by (auto simp: heads_def)
  with h(2) have "vireo_timer_wheel_destroy (Some (Some v)) (te_heap env') = (VIREO_RESULT_BUSY, Some (Some v), te_heap env')"
    by (auto simp: vireo_timer_wheel_destroy_def list_ex_iff)
  with False show ?thesis by simp
next
  case True
  note s = wheel_started_OK [OF wf st]
  note p = okD [OF ok]
  obtain ow where ow: "wh_owner v = Some ow" "owner_inv ow" using p(1) by (rule table_owner)
  have cnt: "ho_active_count ow = 0" using True live_dom [OF p(1)] owner_count_live(2) [OF ow(2)] ow(1) by auto
  have nodes: "wh_nodes v \<noteq> None" using fr okD(1) [OF s(1)] by (auto simp: wheel_frame_def wheel_table_def)
  have f: "wh_self v = wh_self w" "wh_buckets v = wh_buckets w" "wh_nodes_block v = wh_nodes_block w"
    "ho_self ow = ho_self (own w)" "ho_slots_block ow = ho_slots_block (own w)"
    using fr ow(1) by (simp_all add: wheel_frame_def)
  have fresh: "b \<notin> fst ` set (heap_live (te_heap env))" if "heap_calls (te_heap env) \<le> b" for b
    using wf that by (force simp: heap_wf_def)
  have new: "wh_self w \<notin> fst ` set (heap_live (te_heap env))" "wh_buckets w \<notin> fst ` set (heap_live (te_heap env))"
    "wh_nodes_block w \<notin> fst ` set (heap_live (te_heap env))" "ho_self (own w) \<notin> fst ` set (heap_live (te_heap env))"
    "ho_slots_block (own w) \<notin> fst ` set (heap_live (te_heap env))"
    by (rule fresh; use s(12) in blast)+
  have d: "distinct [ho_slots_block (own w), ho_self (own w), wh_nodes_block w, wh_buckets w, wh_self w]" using s(11) by auto
  let ?base = "set (heap_live (te_heap env))"
  let ?h1 = "deallocate_default (te_heap env') (ho_slots_block ow) []"
  let ?h2 = "deallocate_default ?h1 (ho_self ow) []"
  let ?h3 = "deallocate_default ?h2 (wh_nodes_block v) []"
  let ?h4 = "deallocate_default ?h3 (wh_buckets v) []"
  have "set (heap_live (te_heap env')) = insert (ho_slots_block (own w), 24 * unat (ho_capacity (own w)))
      (insert (ho_self (own w), 88) (insert (wh_nodes_block w, 72 * cap w)
      (insert (wh_buckets w, 16 * buckets w) (insert (wh_self w, 200) ?base))))"
    unfolding s(7) prepared_blocks_def wheel_blocks_def owner_blocks_def by blast
  then have "set (heap_live ?h1) = insert (ho_self (own w), 88) (insert (wh_nodes_block w, 72 * cap w)
      (insert (wh_buckets w, 16 * buckets w) (insert (wh_self w, 200) ?base)))"
    unfolding f by (rule set_deallocate) (use d new in simp)
  then have "set (heap_live ?h2) = insert (wh_nodes_block w, 72 * cap w)
      (insert (wh_buckets w, 16 * buckets w) (insert (wh_self w, 200) ?base))"
    unfolding f by (rule set_deallocate) (use d new in simp)
  then have "set (heap_live ?h3) = insert (wh_buckets w, 16 * buckets w) (insert (wh_self w, 200) ?base)"
    unfolding f by (rule set_deallocate) (use d new in simp)
  then have "set (heap_live ?h4) = insert (wh_self w, 200) ?base" unfolding f by (rule set_deallocate) (use d new in simp)
  then have "set (heap_live (deallocate_default ?h4 (wh_self v) [])) = ?base" unfolding f by (rule set_deallocate) (use new in simp)
  moreover have "\<forall>h \<in> heads (buckets v). head_is_empty (wh_links v) h" using heads_empty [OF ok] True by blast
  then have hd: "head_is_empty (wh_links v) Pending" "head_is_empty (wh_links v) Ready"
    "\<not> list_ex (\<lambda>i. \<not> head_is_empty (wh_links v) (Bucket i)) [0 ..< buckets v]"
    by (simp_all add: heads_def list_ex_iff)
  have "vireo_timer_wheel_destroy (Some (Some v)) (te_heap env') = (VIREO_OK, Some None, deallocate_default ?h4 (wh_self v) [])"
    using cnt nodes ow(1) hd
    by (simp add: vireo_timer_wheel_destroy_def vireo_timer_handle_owner_destroy_def Let_def del: deallocate_default_def)
  ultimately show ?thesis using True by simp
qed

text \<open>
  C29. Shutting down terminates and loses nothing: on any reachable wheel, once stopping, at most
  capacity many shutdown steps (each scanning at most the given number of slots) report that the
  shutdown is finished. The steps hand back every timer that was live, with its deadline, exactly
  once, and none remains.
\<close>

theorem wheel_shutdown_complete:
  assumes "heap_wf (te_heap env)" and "wheel_started wo ro races env w0 env'" and "wheel_run ops w0 = (es, w)"
    and "1 \<le> n" and "n \<le> 65536"
  shows "\<exists>w1 cs w2. vireo_timer_wheel_shutdown_begin (Some w) = (VIREO_OK, Some w1) \<and>
    wheel_sweep (unat (ro_capacity ro)) n w1 = (cs, True, w2) \<and> distinct (map fst cs) \<and>
    set cs = {(h, d). timers w h = Some d} \<and> timers w2 = Map.empty"
proof -
  note st = wheel_started_OK [OF assms(1,2)]
  obtain L where ok: "wheel_ok w L" using wheel_run_refines [OF st(1) assms(3)] by blast
  have cap: "cap w = unat (ro_capacity ro)" using wheel_run_frame [OF st(1) assms(3)] st(9) by (simp add: wheel_frame_def)
  let ?w = "w\<lparr>wh_stopping := True\<rparr>"
  have run: "vireo_timer_wheel_shutdown_begin (Some w) = (VIREO_OK, Some ?w)"
    using okD(1) [OF ok] by (auto simp: vireo_timer_wheel_shutdown_begin_def wheel_table_def)
  then have ex: "wheel_exec Op_Stop w = (Ev_Done, ?w)" by simp
  then obtain L1 where ok1: "wheel_ok ?w L1" using wheel_exec_refines [OF ok ex] by blast
  have T: "timers ?w = timers w" by (rule timers_frame(1); simp)
  have "1 \<le> cap w" "n \<noteq> 0" using cap st(9,10) assms(4) by auto
  then obtain cs w2 where "wheel_sweep (cap w) n ?w = (cs, True, w2)" "distinct (map fst cs)" "set cs = {(h, d). timers ?w h = Some d}"
      "timers w2 = Map.empty"
    using wheel_sweep_ok [OF ok1, of n "cap w"] assms(5) by auto
  then show ?thesis using run cap T by auto
qed

text \<open>
  A wheel leaks nothing: after any operations, also after a complete shutdown sweep, destroying it
  is refused as busy and changes nothing while a timer is live; once none is, it succeeds and the
  allocations alive are exactly those from before the wheel was created.
\<close>

theorem wheel_lifecycle_no_leak:
  assumes "heap_wf (te_heap env)" and "wheel_started wo ro races env w0 env'" and "wheel_run ops w0 = (es, w)"
    and "v = w \<or> wh_stopping w \<and> n \<noteq> 0 \<and> n \<le> 65536 \<and> wheel_sweep (unat (ro_capacity ro)) n w = (cs, True, v)"
  shows "if timers v = Map.empty
    then \<exists>h. vireo_timer_wheel_destroy (Some (Some v)) (te_heap env') = (VIREO_OK, Some None, h) \<and>
      set (heap_live h) = set (heap_live (te_heap env))
    else vireo_timer_wheel_destroy (Some (Some v)) (te_heap env') = (VIREO_RESULT_BUSY, Some (Some v), te_heap env')"
proof -
  note st = wheel_started_OK [OF assms(1,2)]
  obtain L where ok: "wheel_ok w L" using wheel_run_refines [OF st(1) assms(3)] by blast
  have fr: "wheel_frame w = wheel_frame w0" by (rule wheel_run_frame [OF st(1) assms(3)])
  then have cap: "cap w = unat (ro_capacity ro)" "1 \<le> cap w" using st(9,10) by (simp_all add: wheel_frame_def)
  have "\<exists>L. wheel_ok v L \<and> wheel_frame v = wheel_frame w0"
    using assms(4)
  proof
    assume "v = w"
    then show ?thesis using ok fr by blast
  next
    assume s: "wh_stopping w \<and> n \<noteq> 0 \<and> n \<le> 65536 \<and> wheel_sweep (unat (ro_capacity ro)) n w = (cs, True, v)"
    then show ?thesis using wheel_sweep_ok [OF ok, of n "cap w"] cap fr by auto
  qed
  then show ?thesis using destroy_wheel [OF assms(1,2)] by blast
qed

definition demo_busy :: vireo_timer_wheel where
  "demo_busy = snd (wheel_run [Op_Register 1000 1025, Op_Register 1000 1090, Op_Advance 1035 demo_budget] demo_wheel)"

theorem wheel_shutdown_complete_witness:
  "\<exists>w1 cs w2. vireo_timer_wheel_shutdown_begin (Some demo_busy) = (VIREO_OK, Some w1) \<and> wheel_sweep 2 1 w1 = (cs, True, w2) \<and>
     distinct (map fst cs) \<and> set cs = {(h, d). timers demo_busy h = Some d} \<and> timers w2 = Map.empty"
proof -
  have run: "wheel_run [Op_Register 1000 1025, Op_Register 1000 1090, Op_Advance 1035 demo_budget] demo_wheel =
      (fst (wheel_run [Op_Register 1000 1025, Op_Register 1000 1090, Op_Advance 1035 demo_budget] demo_wheel), demo_busy)"
    by (simp only: demo_busy_def prod.collapse)
  show ?thesis using wheel_shutdown_complete [OF demo_wheel_started run, of 1] by (simp add: demo_registry_options_def)
qed

theorem wheel_lifecycle_no_leak_witness:
  "\<exists>h. vireo_timer_wheel_destroy (Some (Some (snd (wheel_run demo_ops demo_wheel)))) (te_heap (snd (snd demo_prepared))) =
     (VIREO_OK, Some None, h) \<and> set (heap_live h) = set (heap_live (te_heap demo_env))"
proof -
  let ?w = "snd (wheel_run demo_ops demo_wheel)" and ?h = "te_heap (snd (snd demo_prepared))"
  have run: "wheel_run demo_ops demo_wheel = (fst (wheel_run demo_ops demo_wheel), ?w)" by simp
  have "fst (vireo_timer_wheel_destroy (Some (Some ?w)) ?h) \<noteq> VIREO_RESULT_BUSY" by code_simp
  then show ?thesis
    using wheel_lifecycle_no_leak [OF demo_wheel_started run disjI1 [OF refl]] by (auto split: if_splits)
qed

end
