(* ===== verification/Security_Rate_Limiter.thy ===== *)
theory Security_Rate_Limiter
  imports Base_Memory Timer_Time
begin

text \<open>
  The keyed rate limiter, \<^verbatim>\<open>src/security/rate_limiter.c\<close>: a fixed table of token buckets, one per
  pair of policy and 32-byte key, that decides a whole batch of charges at once. The arrays
  \<open>policies\<close>, \<open>entries\<close> and \<open>plans\<close> are lists; a loop over an array is a recursion or a fold over its
  indices. The allocator table of the code is a record of two optional functions over the heap.
\<close>

abbreviation VIREO_RATE_LIMIT_MAX_KEYS :: size_t where "VIREO_RATE_LIMIT_MAX_KEYS \<equiv> 4096"
abbreviation VIREO_RATE_LIMIT_MAX_POLICIES :: size_t where "VIREO_RATE_LIMIT_MAX_POLICIES \<equiv> 16"
abbreviation VIREO_RATE_LIMIT_MAX_BATCH :: size_t where "VIREO_RATE_LIMIT_MAX_BATCH \<equiv> 8"
abbreviation VIREO_RATE_LIMIT_MAX_MEMORY_BYTES :: size_t where "VIREO_RATE_LIMIT_MAX_MEMORY_BYTES \<equiv> 1048576"
abbreviation VIREO_RATE_LIMIT_MAX_BURST_TOKENS :: u32 where "VIREO_RATE_LIMIT_MAX_BURST_TOKENS \<equiv> 1000000"
abbreviation VIREO_RATE_LIMIT_MAX_REFILL_INTERVAL_NS :: u64 where
  "VIREO_RATE_LIMIT_MAX_REFILL_INTERVAL_NS \<equiv> 3600000000000"

record vireo_rate_limit_policy =
  rp_policy_id :: u32
  rp_burst_tokens :: u32
  rp_refill_interval_ns :: u64

record vireo_rate_limiter_options =
  rlo_max_keys :: size_t
  rlo_max_memory_bytes :: size_t

record vireo_rate_limit_request =
  rq_policy_id :: u32
  rq_key :: bytes
  rq_cost :: u32

datatype vireo_rate_limit_outcome = VIREO_RATE_LIMIT_ADMITTED | VIREO_RATE_LIMIT_THROTTLED | VIREO_RATE_LIMIT_CAPACITY

record vireo_rate_limit_decision =
  rd_outcome :: vireo_rate_limit_outcome
  rd_retry_after_ns :: u64
  rd_tracked_keys :: size_t

record vireo_rate_limiter_info =
  rli_max_keys :: size_t
  rli_tracked_keys :: size_t
  rli_policy_count :: size_t
  rli_allocated_bytes :: size_t
  rli_max_memory_bytes :: size_t
  rli_last_now :: vireo_monotonic_ns

record vireo_rate_limiter_allocator =
  ra_allocate :: "(vireo_heap \<Rightarrow> size_t \<Rightarrow> nat option \<times> vireo_heap) option"
  ra_release :: "(vireo_heap \<Rightarrow> nat \<Rightarrow> bytes \<Rightarrow> vireo_heap) option"

record vireo_rate_limit_entry =
  en_occupied :: bool
  en_policy_index :: size_t
  en_key :: bytes
  en_tokens :: u32
  en_anchor :: vireo_monotonic_ns

record vireo_rate_limiter =
  rl_max_keys :: size_t
  rl_tracked_keys :: size_t
  rl_policy_count :: size_t
  rl_allocated_bytes :: size_t
  rl_max_memory_bytes :: size_t
  rl_last_now :: vireo_monotonic_ns
  rl_allocator :: vireo_rate_limiter_allocator
  rl_policies :: "vireo_rate_limit_policy list"
  rl_entries :: "vireo_rate_limit_entry list"
  rl_self :: nat

record plan =
  pn_policy_index :: size_t
  pn_slot :: size_t
  pn_tokens :: u32
  pn_anchor :: vireo_monotonic_ns

abbreviation sizeof_rate_limit_entry :: size_t where "sizeof_rate_limit_entry \<equiv> 64"
abbreviation sizeof_rate_limiter :: size_t where "sizeof_rate_limiter \<equiv> 328"

definition native_allocator :: vireo_rate_limiter_allocator where
  "native_allocator = \<lparr>ra_allocate = Some allocate_default, ra_release = Some deallocate_default\<rparr>"

definition no_policy :: vireo_rate_limit_policy where
  "no_policy = \<lparr>rp_policy_id = 0, rp_burst_tokens = 0, rp_refill_interval_ns = 0\<rparr>"

definition no_entry :: vireo_rate_limit_entry where
  "no_entry = \<lparr>en_occupied = False, en_policy_index = 0, en_key = replicate 32 0, en_tokens = 0, en_anchor = 0\<rparr>"

subsection \<open>Creation\<close>

text \<open>The loop over the policies, from index \<open>i\<close> on; \<open>ps\<close> is the whole array.\<close>

fun check_policies :: "vireo_rate_limit_policy list \<Rightarrow> nat list \<Rightarrow> vireo_result" where
  "check_policies ps [] = VIREO_OK"
| "check_policies ps (i # rest) =
     (if rp_policy_id (ps ! i) = 0 \<or> rp_burst_tokens (ps ! i) = 0 \<or> rp_refill_interval_ns (ps ! i) = 0
      then VIREO_RESULT_INVALID_ARGUMENT
      else if list_ex (\<lambda>j. rp_policy_id (ps ! i) = rp_policy_id (ps ! j)) [0 ..< i] then VIREO_RESULT_INVALID_ARGUMENT
      else if rp_burst_tokens (ps ! i) > VIREO_RATE_LIMIT_MAX_BURST_TOKENS \<or>
        rp_refill_interval_ns (ps ! i) > VIREO_RATE_LIMIT_MAX_REFILL_INTERVAL_NS then VIREO_RESULT_RANGE
      else check_policies ps rest)"

definition vireo_rate_limiter_create_with_allocator ::
  "vireo_rate_limiter_options option \<Rightarrow> vireo_rate_limit_policy list option \<Rightarrow> size_t \<Rightarrow> vireo_monotonic_ns \<Rightarrow>
   vireo_rate_limiter option option \<Rightarrow> vireo_rate_limiter_allocator option \<Rightarrow> vireo_heap \<Rightarrow>
   vireo_result \<times> vireo_rate_limiter option option \<times> vireo_heap" where
  "vireo_rate_limiter_create_with_allocator options policies policy_count now out_limiter allocator heap =
     (if Option.is_none options \<or> Option.is_none policies \<or> Option.is_none out_limiter \<or> \<not> Option.is_none (the out_limiter) \<or>
         Option.is_none allocator \<or> Option.is_none (ra_allocate (the allocator)) \<or> Option.is_none (ra_release (the allocator)) \<or>
         rlo_max_keys (the options) = 0 \<or> rlo_max_memory_bytes (the options) = 0 \<or> policy_count = 0
      then (VIREO_RESULT_INVALID_ARGUMENT, out_limiter, heap)
      else
        let (result, entry_bytes) = vireo_checked_size_mul (rlo_max_keys (the options)) sizeof_rate_limit_entry (Some 0) in
        if result \<noteq> VIREO_OK then (result, out_limiter, heap)
        else
          let (result, total) = vireo_checked_size_add sizeof_rate_limiter (the entry_bytes) (Some 0) in
          if result \<noteq> VIREO_OK then (result, out_limiter, heap)
          else if rlo_max_keys (the options) > VIREO_RATE_LIMIT_MAX_KEYS \<or> policy_count > VIREO_RATE_LIMIT_MAX_POLICIES \<or>
            rlo_max_memory_bytes (the options) > VIREO_RATE_LIMIT_MAX_MEMORY_BYTES \<or>
            the total > rlo_max_memory_bytes (the options)
          then (VIREO_RESULT_RANGE, out_limiter, heap)
          else
            let result = check_policies (the policies) [0 ..< unat policy_count] in
            if result \<noteq> VIREO_OK then (result, out_limiter, heap)
            else
              let (memory, heap) = the (ra_allocate (the allocator)) heap (the total) in
              case memory of
                None \<Rightarrow> (VIREO_RESULT_NO_MEMORY, out_limiter, heap)
              | Some block \<Rightarrow>
                  (VIREO_OK, Some (Some
                    \<lparr>rl_max_keys = rlo_max_keys (the options), rl_tracked_keys = 0, rl_policy_count = policy_count,
                     rl_allocated_bytes = the total, rl_max_memory_bytes = rlo_max_memory_bytes (the options),
                     rl_last_now = now, rl_allocator = the allocator,
                     rl_policies = take (unat policy_count) (the policies) @ replicate (16 - unat policy_count) no_policy,
                     rl_entries = replicate (unat (rlo_max_keys (the options))) no_entry, rl_self = block\<rparr>), heap))"

definition vireo_rate_limiter_create ::
  "vireo_rate_limiter_options option \<Rightarrow> vireo_rate_limit_policy list option \<Rightarrow> size_t \<Rightarrow> vireo_monotonic_ns \<Rightarrow>
   vireo_rate_limiter option option \<Rightarrow> vireo_heap \<Rightarrow> vireo_result \<times> vireo_rate_limiter option option \<times> vireo_heap" where
  "vireo_rate_limiter_create options policies policy_count now out_limiter heap =
     vireo_rate_limiter_create_with_allocator options policies policy_count now out_limiter (Some native_allocator) heap"

subsection \<open>Deciding a batch\<close>

definition refill :: "vireo_rate_limit_entry \<Rightarrow> vireo_rate_limit_policy \<Rightarrow> vireo_monotonic_ns \<Rightarrow> plan \<Rightarrow> plan" where
  "refill entry policy now plan =
     (let elapsed = now - en_anchor entry;
          periods = elapsed div rp_refill_interval_ns policy
      in if periods \<ge> ucast (rp_burst_tokens policy - en_tokens entry)
         then plan\<lparr>pn_tokens := rp_burst_tokens policy, pn_anchor := now\<rparr>
         else plan\<lparr>pn_tokens := en_tokens entry + ucast periods,
                   pn_anchor := en_anchor entry + periods * rp_refill_interval_ns policy\<rparr>)"

definition referenced :: "plan list \<Rightarrow> size_t \<Rightarrow> bool" where
  "referenced plans slot = list_ex (\<lambda>p. pn_slot p = slot) plans"

text \<open>The index of the first policy with an id, or the number of policies.\<close>

fun find_policy :: "vireo_rate_limit_policy list \<Rightarrow> u32 \<Rightarrow> nat" where
  "find_policy [] ident = 0"
| "find_policy (p # ps) ident = (if rp_policy_id p \<noteq> ident then Suc (find_policy ps ident) else 0)"

text \<open>The validating loop; \<open>plans\<close> are those of the requests before the \<open>j\<close>th.\<close>

fun plan_requests ::
  "vireo_rate_limiter \<Rightarrow> vireo_monotonic_ns \<Rightarrow> vireo_rate_limit_request list \<Rightarrow> nat list \<Rightarrow> plan list \<Rightarrow>
   vireo_result \<times> plan list" where
  "plan_requests l now reqs [] plans = (VIREO_OK, plans)"
| "plan_requests l now reqs (j # js) plans =
     (if rq_policy_id (reqs ! j) = 0 \<or> rq_cost (reqs ! j) = 0 then (VIREO_RESULT_INVALID_ARGUMENT, plans)
      else
        let p = find_policy (take (unat (rl_policy_count l)) (rl_policies l)) (rq_policy_id (reqs ! j)) in
        if p = unat (rl_policy_count l) then (VIREO_RESULT_NOT_FOUND, plans)
        else if rq_cost (reqs ! j) > rp_burst_tokens (rl_policies l ! p) then (VIREO_RESULT_RANGE, plans)
        else if list_ex (\<lambda>k. pn_policy_index (plans ! k) = word_of_nat p \<and> rq_key (reqs ! k) = rq_key (reqs ! j)) [0 ..< j]
        then (VIREO_RESULT_INVALID_ARGUMENT, plans)
        else plan_requests l now reqs js
          (plans @ [\<lparr>pn_policy_index = word_of_nat p, pn_slot = SIZE_MAX,
             pn_tokens = rp_burst_tokens (rl_policies l ! p), pn_anchor = now\<rparr>]))"

definition match_entry ::
  "vireo_rate_limiter \<Rightarrow> vireo_monotonic_ns \<Rightarrow> nat \<Rightarrow> vireo_rate_limit_request \<Rightarrow> plan \<Rightarrow> plan" where
  "match_entry l now i r plan =
     (let entry = rl_entries l ! i in
      if en_occupied entry \<and> en_policy_index entry = pn_policy_index plan \<and> en_key entry = rq_key r
      then refill entry (rl_policies l ! unat (en_policy_index entry)) now (plan\<lparr>pn_slot := word_of_nat i\<rparr>)
      else plan)"

definition match_entries ::
  "vireo_rate_limiter \<Rightarrow> vireo_monotonic_ns \<Rightarrow> vireo_rate_limit_request list \<Rightarrow> plan list \<Rightarrow> plan list" where
  "match_entries l now reqs plans =
     fold (\<lambda>i plans. map2 (match_entry l now i) reqs plans) [0 ..< unat (rl_max_keys l)] plans"

text \<open>The waiting time of one dimension, zero when its tokens suffice.\<close>

definition plan_wait :: "vireo_rate_limiter \<Rightarrow> vireo_monotonic_ns \<Rightarrow> vireo_rate_limit_request \<Rightarrow> plan \<Rightarrow> u64" where
  "plan_wait l now r plan =
     (if pn_tokens plan < rq_cost r
      then ucast (rq_cost r - pn_tokens plan) * rp_refill_interval_ns (rl_policies l ! unat (pn_policy_index plan))
        - (now - pn_anchor plan)
      else 0)"

definition weigh_plan ::
  "vireo_rate_limiter \<Rightarrow> vireo_monotonic_ns \<Rightarrow> vireo_rate_limit_request \<times> plan \<Rightarrow> nat \<times> u64 \<Rightarrow> nat \<times> u64" where
  "weigh_plan l now rp mw =
     (let (r, plan) = rp; (missing, retry) = mw; wait = plan_wait l now r plan in
      (if pn_slot plan = SIZE_MAX then Suc missing else missing, if wait > retry then wait else retry))"

definition slot_usable :: "vireo_rate_limiter \<Rightarrow> vireo_monotonic_ns \<Rightarrow> nat \<Rightarrow> bool" where
  "slot_usable l now i =
     (let entry = rl_entries l ! i; policy = rl_policies l ! unat (en_policy_index entry) in
      if en_occupied entry
      then pn_tokens (refill entry policy now \<lparr>pn_policy_index = 0, pn_slot = 0, pn_tokens = 0, pn_anchor = 0\<rparr>) =
        rp_burst_tokens policy
      else True)"

fun pick_candidates :: "vireo_rate_limiter \<Rightarrow> vireo_monotonic_ns \<Rightarrow> plan list \<Rightarrow> nat \<Rightarrow> nat list \<Rightarrow> size_t list \<Rightarrow> size_t list" where
  "pick_candidates l now plans missing [] candidates = candidates"
| "pick_candidates l now plans missing (i # rest) candidates =
     (if \<not> length candidates < missing then candidates
      else if referenced plans (word_of_nat i) then pick_candidates l now plans missing rest candidates
      else if slot_usable l now i then pick_candidates l now plans missing rest (candidates @ [word_of_nat i])
      else pick_candidates l now plans missing rest candidates)"

fun assign_slots :: "plan list \<Rightarrow> size_t list \<Rightarrow> plan list" where
  "assign_slots [] candidates = []"
| "assign_slots (p # plans) candidates =
     (if pn_slot p = SIZE_MAX then p\<lparr>pn_slot := hd candidates\<rparr> # assign_slots plans (tl candidates)
      else p # assign_slots plans candidates)"

definition commit_plan :: "vireo_rate_limit_request \<times> plan \<Rightarrow> vireo_rate_limiter \<Rightarrow> vireo_rate_limiter" where
  "commit_plan rp l =
     (let (r, plan) = rp; i = unat (pn_slot plan); entry = rl_entries l ! i;
          l = (if \<not> en_occupied entry then l\<lparr>rl_tracked_keys := rl_tracked_keys l + 1\<rparr> else l)
      in l\<lparr>rl_entries := (rl_entries l)[i :=
             \<lparr>en_occupied = True, en_policy_index = pn_policy_index plan, en_key = rq_key r,
              en_tokens = pn_tokens plan - rq_cost r, en_anchor = pn_anchor plan\<rparr>]\<rparr>)"

definition vireo_rate_limiter_check ::
  "vireo_rate_limiter option \<Rightarrow> vireo_monotonic_ns \<Rightarrow> vireo_rate_limit_request list option \<Rightarrow> size_t \<Rightarrow>
   vireo_rate_limit_decision option \<Rightarrow> vireo_result \<times> vireo_rate_limiter option \<times> vireo_rate_limit_decision option" where
  "vireo_rate_limiter_check limiter now requests request_count decision =
     (if Option.is_none limiter \<or> Option.is_none requests \<or> Option.is_none decision \<or> request_count = 0
      then (VIREO_RESULT_INVALID_ARGUMENT, limiter, decision)
      else if request_count > VIREO_RATE_LIMIT_MAX_BATCH then (VIREO_RESULT_RANGE, limiter, decision)
      else
        let l = the limiter; reqs = take (unat request_count) (the requests);
            (result, plans) = plan_requests l now reqs [0 ..< unat request_count] [] in
        if result \<noteq> VIREO_OK then (result, limiter, decision)
        else if now < rl_last_now l then (VIREO_RESULT_INVALID_ARGUMENT, limiter, decision)
        else
          let plans = match_entries l now reqs plans;
              (missing, retry) = fold (weigh_plan l now) (zip reqs plans) (0, 0) in
          if retry \<noteq> 0
          then (VIREO_OK, Some (l\<lparr>rl_last_now := now\<rparr>), Some \<lparr>rd_outcome = VIREO_RATE_LIMIT_THROTTLED,
            rd_retry_after_ns = retry, rd_tracked_keys = rl_tracked_keys l\<rparr>)
          else
            let candidates = pick_candidates l now plans missing [0 ..< unat (rl_max_keys l)] [] in
            if length candidates < missing
            then (VIREO_OK, Some (l\<lparr>rl_last_now := now\<rparr>), Some \<lparr>rd_outcome = VIREO_RATE_LIMIT_CAPACITY,
              rd_retry_after_ns = 0, rd_tracked_keys = rl_tracked_keys l\<rparr>)
            else
              let plans = assign_slots plans candidates; l = fold commit_plan (zip reqs plans) l in
              (VIREO_OK, Some (l\<lparr>rl_last_now := now\<rparr>), Some \<lparr>rd_outcome = VIREO_RATE_LIMIT_ADMITTED,
                rd_retry_after_ns = 0, rd_tracked_keys = rl_tracked_keys l\<rparr>))"

definition vireo_rate_limiter_inspect ::
  "vireo_rate_limiter option \<Rightarrow> vireo_rate_limiter_info option \<Rightarrow> vireo_result \<times> vireo_rate_limiter_info option" where
  "vireo_rate_limiter_inspect limiter info =
     (if Option.is_none limiter \<or> Option.is_none info then (VIREO_RESULT_INVALID_ARGUMENT, info)
      else
        let l = the limiter in
        (VIREO_OK, Some \<lparr>rli_max_keys = rl_max_keys l, rli_tracked_keys = rl_tracked_keys l, rli_policy_count = rl_policy_count l,
           rli_allocated_bytes = rl_allocated_bytes l, rli_max_memory_bytes = rl_max_memory_bytes l, rli_last_now = rl_last_now l\<rparr>))"

definition vireo_rate_limiter_destroy ::
  "vireo_rate_limiter option option \<Rightarrow> vireo_heap \<Rightarrow> vireo_result \<times> vireo_rate_limiter option option \<times> vireo_heap" where
  "vireo_rate_limiter_destroy limiter heap =
     (case limiter of
        None \<Rightarrow> (VIREO_RESULT_INVALID_ARGUMENT, limiter, heap)
      | Some None \<Rightarrow> (VIREO_OK, limiter, heap)
      | Some (Some l) \<Rightarrow> (VIREO_OK, Some None, the (ra_release (rl_allocator l)) heap (rl_self l) []))"

end
