(* ===== verification/Security_Token_Bucket.thy ===== *)
theory Security_Token_Bucket
  imports Security_Rate_Limiter
begin

text \<open>
  The rate limiter against token buckets. In the specification every pair of policy and key owns a
  bucket whose credit, counted in nanoseconds of refill, grows with time up to its capacity and pays
  \<^emph>\<open>cost times interval\<close> for a charge; no entries, anchors or evictions appear in it. The limiter
  computes exactly its decisions.
\<close>

subsection \<open>Specification\<close>

definition bucket_full :: "vireo_rate_limit_policy \<Rightarrow> nat" where
  "bucket_full p = unat (rp_burst_tokens p) * unat (rp_refill_interval_ns p)"

definition policy_of :: "vireo_rate_limit_policy list \<Rightarrow> u32 \<Rightarrow> vireo_rate_limit_policy" where
  "policy_of ps ident = (case find (\<lambda>p. rp_policy_id p = ident) ps of Some p \<Rightarrow> p | None \<Rightarrow> no_policy)"

abbreviation full_credit :: "vireo_rate_limit_policy list \<Rightarrow> u32 \<times> bytes \<Rightarrow> nat" where
  "full_credit ps x \<equiv> bucket_full (policy_of ps (fst x))"

definition rq_dim :: "vireo_rate_limit_request \<Rightarrow> u32 \<times> bytes" where
  "rq_dim r = (rq_policy_id r, rq_key r)"

definition rq_price :: "vireo_rate_limit_policy list \<Rightarrow> vireo_rate_limit_request \<Rightarrow> nat" where
  "rq_price ps r = unat (rq_cost r) * unat (rp_refill_interval_ns (policy_of ps (rq_policy_id r)))"

record bucket_spec =
  sp_now :: nat
  sp_credit :: "u32 \<times> bytes \<Rightarrow> nat"

definition credit_at :: "vireo_rate_limit_policy list \<Rightarrow> bucket_spec \<Rightarrow> nat \<Rightarrow> u32 \<times> bytes \<Rightarrow> nat" where
  "credit_at ps s now x = min (full_credit ps x) (sp_credit s x + (now - sp_now s))"

definition bucket_check ::
  "vireo_rate_limit_policy list \<Rightarrow> nat \<Rightarrow> nat \<Rightarrow> vireo_rate_limit_request list \<Rightarrow> bucket_spec \<Rightarrow>
   vireo_rate_limit_outcome \<times> nat \<times> bucket_spec" where
  "bucket_check ps slots now reqs s =
     (let cr = credit_at ps s now in
      if \<exists>r \<in> set reqs. cr (rq_dim r) < rq_price ps r
      then (VIREO_RATE_LIMIT_THROTTLED, Max ((\<lambda>r. rq_price ps r - cr (rq_dim r)) ` set reqs), \<lparr>sp_now = now, sp_credit = cr\<rparr>)
      else if slots < card {x. cr x < full_credit ps x \<and> x \<notin> rq_dim ` set reqs} + length reqs
      then (VIREO_RATE_LIMIT_CAPACITY, 0, \<lparr>sp_now = now, sp_credit = cr\<rparr>)
      else (VIREO_RATE_LIMIT_ADMITTED, 0,
        \<lparr>sp_now = now, sp_credit = (\<lambda>x. cr x - (\<Sum>r \<leftarrow> reqs. if rq_dim r = x then rq_price ps r else 0))\<rparr>))"

text \<open>What is wrong with a batch, in the order of the requests.\<close>

definition request_code :: "vireo_rate_limit_policy list \<Rightarrow> (u32 \<times> bytes) list \<Rightarrow> vireo_rate_limit_request \<Rightarrow> vireo_result" where
  "request_code ps earlier r =
     (if rq_policy_id r = 0 \<or> rq_cost r = 0 then VIREO_RESULT_INVALID_ARGUMENT
      else if rq_policy_id r \<notin> rp_policy_id ` set ps then VIREO_RESULT_NOT_FOUND
      else if rq_cost r > rp_burst_tokens (policy_of ps (rq_policy_id r)) then VIREO_RESULT_RANGE
      else if rq_dim r \<in> set earlier then VIREO_RESULT_INVALID_ARGUMENT
      else VIREO_OK)"

fun batch_code :: "vireo_rate_limit_policy list \<Rightarrow> (u32 \<times> bytes) list \<Rightarrow> vireo_rate_limit_request list \<Rightarrow> vireo_result" where
  "batch_code ps earlier [] = VIREO_OK"
| "batch_code ps earlier (r # rs) =
     (if request_code ps earlier r = VIREO_OK then batch_code ps (earlier @ [rq_dim r]) rs else request_code ps earlier r)"

subsection \<open>Invariant and abstraction\<close>

definition policy_ok :: "vireo_rate_limit_policy \<Rightarrow> bool" where
  "policy_ok p \<longleftrightarrow> rp_policy_id p \<noteq> 0 \<and> rp_burst_tokens p \<noteq> 0 \<and> rp_refill_interval_ns p \<noteq> 0 \<and>
     rp_burst_tokens p \<le> VIREO_RATE_LIMIT_MAX_BURST_TOKENS \<and> rp_refill_interval_ns p \<le> VIREO_RATE_LIMIT_MAX_REFILL_INTERVAL_NS"

abbreviation active_policies :: "vireo_rate_limiter \<Rightarrow> vireo_rate_limit_policy list" where
  "active_policies l \<equiv> take (unat (rl_policy_count l)) (rl_policies l)"

abbreviation slot_count :: "vireo_rate_limiter \<Rightarrow> nat" where
  "slot_count l \<equiv> unat (rl_max_keys l)"

definition entry_policy :: "vireo_rate_limiter \<Rightarrow> vireo_rate_limit_entry \<Rightarrow> vireo_rate_limit_policy" where
  "entry_policy l e = rl_policies l ! unat (en_policy_index e)"

definition entry_dim :: "vireo_rate_limiter \<Rightarrow> vireo_rate_limit_entry \<Rightarrow> u32 \<times> bytes" where
  "entry_dim l e = (rp_policy_id (entry_policy l e), en_key e)"

definition occupied :: "vireo_rate_limiter \<Rightarrow> nat \<Rightarrow> bool" where
  "occupied l i \<longleftrightarrow> i < slot_count l \<and> en_occupied (rl_entries l ! i)"

definition config_ok :: "vireo_rate_limiter \<Rightarrow> bool" where
  "config_ok l \<longleftrightarrow> length (rl_policies l) = 16 \<and> rl_policy_count l \<le> 16 \<and> (\<forall>p \<in> set (active_policies l). policy_ok p) \<and>
     distinct (map rp_policy_id (active_policies l)) \<and> length (rl_entries l) = slot_count l \<and> slot_count l \<le> 4096"

definition entry_ok :: "vireo_rate_limiter \<Rightarrow> vireo_monotonic_ns \<Rightarrow> vireo_rate_limit_entry \<Rightarrow> bool" where
  "entry_ok l t e \<longleftrightarrow> en_policy_index e < rl_policy_count l \<and> en_tokens e \<le> rp_burst_tokens (entry_policy l e) \<and> en_anchor e \<le> t"

definition entries_ok :: "vireo_rate_limiter \<Rightarrow> bool" where
  "entries_ok l \<longleftrightarrow> (\<forall>i. occupied l i \<longrightarrow> entry_ok l (rl_last_now l) (rl_entries l ! i)) \<and>
     (\<forall>i j. occupied l i \<and> occupied l j \<and> entry_dim l (rl_entries l ! i) = entry_dim l (rl_entries l ! j) \<longrightarrow> i = j) \<and>
     unat (rl_tracked_keys l) = card {i. occupied l i}"

definition limiter_inv :: "vireo_rate_limiter \<Rightarrow> bool" where
  "limiter_inv l \<longleftrightarrow> config_ok l \<and> entries_ok l"

definition entry_credit :: "vireo_rate_limit_policy \<Rightarrow> nat \<Rightarrow> vireo_rate_limit_entry \<Rightarrow> nat" where
  "entry_credit p t e =
     min (bucket_full p) (unat (en_tokens e) * unat (rp_refill_interval_ns p) + (t - unat (en_anchor e)))"

definition limiter_credit :: "vireo_rate_limiter \<Rightarrow> nat \<Rightarrow> u32 \<times> bytes \<Rightarrow> nat" where
  "limiter_credit l t x =
     (case find (\<lambda>e. en_occupied e \<and> entry_dim l e = x) (rl_entries l) of
        Some e \<Rightarrow> entry_credit (entry_policy l e) t e
      | None \<Rightarrow> full_credit (active_policies l) x)"

definition limiter_spec :: "vireo_rate_limiter \<Rightarrow> bucket_spec" where
  "limiter_spec l = \<lparr>sp_now = unat (rl_last_now l), sp_credit = limiter_credit l (unat (rl_last_now l))\<rparr>"

subsection \<open>Policies\<close>

lemma find_policy_props:
  shows "find_policy ps i \<le> length ps"
    and "find_policy ps i = length ps \<longleftrightarrow> i \<notin> rp_policy_id ` set ps"
    and "i \<in> rp_policy_id ` set ps \<Longrightarrow> find_policy ps i < length ps \<and> rp_policy_id (ps ! find_policy ps i) = i \<and>
      policy_of ps i = ps ! find_policy ps i"
proof (induction ps)
  case (Cons p ps)
  { case 1 show ?case using Cons by simp }
  { case 2 show ?case using Cons by auto }
  { case 3 then show ?case using Cons(3) by (auto simp: policy_of_def) }
qed simp_all

lemma policy_ok_bounds:
  assumes "policy_ok p"
  shows "0 < unat (rp_burst_tokens p)" "unat (rp_burst_tokens p) \<le> 1000000" "0 < unat (rp_refill_interval_ns p)"
    "unat (rp_refill_interval_ns p) \<le> 3600000000000" "bucket_full p \<le> 3600000000000000000" "0 < bucket_full p"
proof -
  show b: "0 < unat (rp_burst_tokens p)" "unat (rp_burst_tokens p) \<le> 1000000" "0 < unat (rp_refill_interval_ns p)"
    "unat (rp_refill_interval_ns p) \<le> 3600000000000"
    using assms by (simp_all add: policy_ok_def unat_gt_0 word_le_nat_alt)
  show "bucket_full p \<le> 3600000000000000000" using mult_le_mono [OF b(2,4)] by (simp add: bucket_full_def)
  show "0 < bucket_full p" using b by (simp add: bucket_full_def)
qed

lemma active_policy_nth: "i < unat (rl_policy_count l) \<Longrightarrow> active_policies l ! i = rl_policies l ! i"
  by simp

lemma policy_of_dim:
  assumes "config_ok l" and "en_policy_index e < rl_policy_count l"
  shows "policy_of (active_policies l) (fst (entry_dim l e)) = entry_policy l e" and "policy_ok (entry_policy l e)"
    and "entry_policy l e \<in> set (active_policies l)"
proof -
  let ?ps = "active_policies l" and ?i = "unat (en_policy_index e)"
  have i: "?i < length ?ps" "?ps ! ?i = entry_policy l e"
    using assms by (auto simp: config_ok_def word_less_nat_alt word_le_nat_alt entry_policy_def)
  then show m: "entry_policy l e \<in> set ?ps" by (metis nth_mem)
  then show "policy_ok (entry_policy l e)" using assms(1) by (simp add: config_ok_def)
  have "rp_policy_id (entry_policy l e) \<in> rp_policy_id ` set ?ps" using m by simp
  note f = find_policy_props(3) [OF this]
  have "map rp_policy_id ?ps ! find_policy ?ps (rp_policy_id (entry_policy l e)) = map rp_policy_id ?ps ! ?i"
    using f i by (metis nth_map)
  then have "find_policy ?ps (rp_policy_id (entry_policy l e)) = ?i"
    using assms(1) f i nth_eq_iff_index_eq by (metis config_ok_def length_map)
  then show "policy_of ?ps (fst (entry_dim l e)) = entry_policy l e" using f i by (simp add: entry_dim_def)
qed

subsection \<open>Refilling\<close>

text \<open>A plan holds credit \<open>c\<close> of its bucket at time \<open>now\<close>.\<close>

definition plan_holds :: "vireo_rate_limit_policy \<Rightarrow> vireo_monotonic_ns \<Rightarrow> nat \<Rightarrow> plan \<Rightarrow> bool" where
  "plan_holds p now c q \<longleftrightarrow> c = unat (pn_tokens q) * unat (rp_refill_interval_ns p) + (unat now - unat (pn_anchor q)) \<and>
     pn_anchor q \<le> now \<and> unat now - unat (pn_anchor q) < unat (rp_refill_interval_ns p) \<and>
     pn_tokens q \<le> rp_burst_tokens p \<and> (pn_tokens q = rp_burst_tokens p \<longrightarrow> pn_anchor q = now)"

lemma plan_holdsI:
  assumes "unat (pn_tokens q) = tok" and "unat (pn_anchor q) = a" and "a \<le> unat now"
    and "unat now - a < unat (rp_refill_interval_ns p)" and "tok < unat (rp_burst_tokens p)"
    and "c = tok * unat (rp_refill_interval_ns p) + (unat now - a)"
  shows "plan_holds p now c q"
  using assms by (auto simp: plan_holds_def word_le_nat_alt)

lemma plan_holds_full:
  assumes "plan_holds p now c q" and "policy_ok p"
  shows "c \<le> bucket_full p" and "pn_tokens q = rp_burst_tokens p \<longleftrightarrow> c = bucket_full p"
proof -
  let ?I = "unat (rp_refill_interval_ns p)" and ?B = "unat (rp_burst_tokens p)" and ?T = "unat (pn_tokens q)"
  have h: "c = ?T * ?I + (unat now - unat (pn_anchor q))" "unat now - unat (pn_anchor q) < ?I" "?T \<le> ?B"
    "?T = ?B \<Longrightarrow> c = ?T * ?I"
    using assms(1) by (auto simp: plan_holds_def word_le_nat_alt word_unat_eq_iff)
  have lt: "c < bucket_full p" if "?T < ?B"
  proof -
    have "c < ?T * ?I + ?I" using h by simp
    also have "\<dots> \<le> ?B * ?I" using that mult_le_mono1 [of "Suc ?T" ?B ?I] by simp
    finally show ?thesis by (simp add: bucket_full_def)
  qed
  have eq: "c = bucket_full p" if "?T = ?B" using h(4) [OF that] that by (simp add: bucket_full_def)
  show "c \<le> bucket_full p" using lt eq h(3) by (cases "?T = ?B") auto
  show "pn_tokens q = rp_burst_tokens p \<longleftrightarrow> c = bucket_full p"
    using lt eq h(3) by (cases "?T = ?B") (auto simp: word_unat_eq_iff)
qed

lemma refill_holds:
  assumes "policy_ok p" and "en_tokens e \<le> rp_burst_tokens p" and "en_anchor e \<le> now"
  shows "plan_holds p now (entry_credit p (unat now) e) (refill e p now q)"
    and "pn_slot (refill e p now q) = pn_slot q" and "pn_policy_index (refill e p now q) = pn_policy_index q"
proof -
  show "pn_slot (refill e p now q) = pn_slot q" "pn_policy_index (refill e p now q) = pn_policy_index q"
    by (simp_all add: refill_def Let_def)
  let ?I = "unat (rp_refill_interval_ns p)" and ?B = "unat (rp_burst_tokens p)" and ?T = "unat (en_tokens e)"
  let ?E = "unat now - unat (en_anchor e)"
  note b = policy_ok_bounds [OF assms(1)]
  have T: "?T \<le> ?B" "unat (en_anchor e) \<le> unat now" using assms(2,3) by (simp_all add: word_le_nat_alt)
  have per: "unat ((now - en_anchor e) div rp_refill_interval_ns p) = ?E div ?I"
    using assms(3) by (simp add: unat_div unat_sub_le)
  have miss: "unat (ucast (rp_burst_tokens p - en_tokens e) :: u64) = ?B - ?T"
    using assms(2) by (simp add: unat_ucast_le unat_sub_le)
  show "plan_holds p now (entry_credit p (unat now) e) (refill e p now q)"
  proof (cases "?B - ?T \<le> ?E div ?I")
    case True
    then have "(?B - ?T) * ?I \<le> ?E" using b(3) by (simp add: less_eq_div_iff_mult_less_eq)
    then have "?B * ?I \<le> ?T * ?I + ?E" using T(1) by (simp add: diff_mult_distrib)
    then have "entry_credit p (unat now) e = ?B * ?I" by (simp add: entry_credit_def bucket_full_def)
    moreover have "refill e p now q = q\<lparr>pn_tokens := rp_burst_tokens p, pn_anchor := now\<rparr>"
      using True per miss by (simp add: refill_def Let_def word_le_nat_alt)
    ultimately show ?thesis using b by (simp add: plan_holds_def)
  next
    case False
    let ?k = "?E div ?I"
    have k: "?T + ?k < ?B" using False by simp
    have e: "entry_credit p (unat now) e = ?T * ?I + ?E"
    proof -
      have "?E < Suc ?k * ?I" using dividend_less_times_div [of ?I ?E] b(3) by (simp add: mult.commute)
      also have "\<dots> \<le> (?B - ?T) * ?I" using False mult_le_mono1 [of "Suc ?k" "?B - ?T" ?I] by linarith
      finally have "?T * ?I + ?E < ?B * ?I" using T(1) by (simp add: diff_mult_distrib)
      then show ?thesis by (simp add: entry_credit_def bucket_full_def)
    qed
    have r: "refill e p now q = q\<lparr>pn_tokens := en_tokens e + ucast ((now - en_anchor e) div rp_refill_interval_ns p),
        pn_anchor := en_anchor e + (now - en_anchor e) div rp_refill_interval_ns p * rp_refill_interval_ns p\<rparr>"
      using False per miss by (simp add: refill_def Let_def word_le_nat_alt)
    have uc: "unat (ucast ((now - en_anchor e) div rp_refill_interval_ns p) :: u32) = ?k"
      using per k b(2) by (simp add: unsigned_ucast_eq take_bit_nat_eq_self)
    have tk: "unat (en_tokens e + ucast ((now - en_anchor e) div rp_refill_interval_ns p) :: u32) = ?T + ?k"
      using uc k b(2) unat_add_less [of "en_tokens e" "ucast ((now - en_anchor e) div rp_refill_interval_ns p)"] by simp
    have le: "?k * ?I \<le> ?E" by (rule div_times_less_eq_dividend)
    have lt: "?k * ?I < 18446744073709551616" using le unat_lt_64 [of now] by linarith
    have mul: "unat ((now - en_anchor e) div rp_refill_interval_ns p * rp_refill_interval_ns p) = ?k * ?I"
      using unat_mult_less [of "(now - en_anchor e) div rp_refill_interval_ns p" "rp_refill_interval_ns p"] lt per by simp
    have lt': "unat (en_anchor e) + ?k * ?I < 18446744073709551616" using le T(2) unat_lt_64 [of now] by linarith
    have an: "unat (en_anchor e + (now - en_anchor e) div rp_refill_interval_ns p * rp_refill_interval_ns p) =
        unat (en_anchor e) + ?k * ?I"
      using unat_add_less [of "en_anchor e" "(now - en_anchor e) div rp_refill_interval_ns p * rp_refill_interval_ns p"]
        mul lt' by simp
    have rem: "?E - ?k * ?I < ?I" using b(3) by (simp add: minus_div_mult_eq_mod)
    have "(?T + ?k) * ?I + (unat now - (unat (en_anchor e) + ?k * ?I)) = ?T * ?I + ?E"
      using le T(2) unfolding add_mult_distrib by linarith
    moreover have "unat (en_anchor e) + ?k * ?I \<le> unat now" using le T(2) by linarith
    moreover have "unat now - (unat (en_anchor e) + ?k * ?I) < ?I" using rem by simp
    ultimately show ?thesis
      unfolding r e by (intro plan_holdsI [of _ "?T + ?k" "unat (en_anchor e) + ?k * ?I"]) (use tk an k in simp_all)
  qed
qed

subsection \<open>Credits of the limiter\<close>

lemma invD:
  assumes "limiter_inv l"
  shows "config_ok l" and "entries_ok l" and "length (rl_entries l) = slot_count l" and "slot_count l \<le> 4096"
  using assms by (simp_all add: limiter_inv_def config_ok_def)

lemma occupied_entry:
  assumes "limiter_inv l" and "occupied l i"
  shows "entry_ok l (rl_last_now l) (rl_entries l ! i)" and "policy_ok (entry_policy l (rl_entries l ! i))"
    and "policy_of (active_policies l) (fst (entry_dim l (rl_entries l ! i))) = entry_policy l (rl_entries l ! i)"
    and "\<And>j. occupied l j \<Longrightarrow> entry_dim l (rl_entries l ! j) = entry_dim l (rl_entries l ! i) \<Longrightarrow> j = i"
proof -
  show e: "entry_ok l (rl_last_now l) (rl_entries l ! i)" using assms by (simp add: limiter_inv_def entries_ok_def)
  show "policy_ok (entry_policy l (rl_entries l ! i))"
    "policy_of (active_policies l) (fst (entry_dim l (rl_entries l ! i))) = entry_policy l (rl_entries l ! i)"
    using policy_of_dim [OF invD(1) [OF assms(1)]] e by (simp_all add: entry_ok_def)
  show "\<And>j. occupied l j \<Longrightarrow> entry_dim l (rl_entries l ! j) = entry_dim l (rl_entries l ! i) \<Longrightarrow> j = i"
    using assms by (auto simp: limiter_inv_def entries_ok_def)
qed

lemma limiter_credit_found:
  assumes "limiter_inv l" and "occupied l i"
  shows "limiter_credit l t (entry_dim l (rl_entries l ! i)) = entry_credit (entry_policy l (rl_entries l ! i)) t (rl_entries l ! i)"
proof -
  let ?P = "\<lambda>e. en_occupied e \<and> entry_dim l e = entry_dim l (rl_entries l ! i)"
  note len = invD(3) [OF assms(1)]
  have "find ?P (rl_entries l) \<noteq> None"
    using assms(2) len by (auto simp: find_None_iff occupied_def in_set_conv_nth)
  then obtain e where e: "find ?P (rl_entries l) = Some e" by blast
  then obtain j where j: "j < slot_count l" "?P (rl_entries l ! j)" "e = rl_entries l ! j"
    using len by (auto simp: find_Some_iff)
  then have "j = i" using occupied_entry(4) [OF assms, of j] by (simp add: occupied_def)
  then show ?thesis using e j by (simp add: limiter_credit_def)
qed

lemma limiter_credit_new:
  assumes "limiter_inv l" and "\<And>i. occupied l i \<Longrightarrow> entry_dim l (rl_entries l ! i) \<noteq> x"
  shows "limiter_credit l t x = full_credit (active_policies l) x"
proof -
  have "find (\<lambda>e. en_occupied e \<and> entry_dim l e = x) (rl_entries l) = None"
    using assms(2) invD(3) [OF assms(1)] by (auto simp: find_None_iff occupied_def in_set_conv_nth)
  then show ?thesis by (simp add: limiter_credit_def)
qed

lemma entry_credit_later:
  assumes "unat (en_anchor e) \<le> t" and "t \<le> t'"
  shows "entry_credit p t' e = min (bucket_full p) (entry_credit p t e + (t' - t))"
  using assms by (auto simp: entry_credit_def min_def)

lemma credit_at_limiter:
  assumes inv: "limiter_inv l" and le: "rl_last_now l \<le> now"
  shows "credit_at (active_policies l) (limiter_spec l) (unat now) x = limiter_credit l (unat now) x"
proof (cases "\<exists>i. occupied l i \<and> entry_dim l (rl_entries l ! i) = x")
  case True
  then obtain i where i: "occupied l i" "entry_dim l (rl_entries l ! i) = x" by blast
  note o = occupied_entry [OF inv i(1)]
  show ?thesis
    using o(1,3) le limiter_credit_found [OF inv i(1)] i(2)
      entry_credit_later [of "rl_entries l ! i" "unat (rl_last_now l)" "unat now" "entry_policy l (rl_entries l ! i)"]
    by (simp add: credit_at_def limiter_spec_def entry_ok_def word_le_nat_alt)
next
  case False
  then show ?thesis using limiter_credit_new [OF inv] by (auto simp: credit_at_def limiter_spec_def)
qed

subsection \<open>The validating loop\<close>

definition init_plan :: "vireo_rate_limiter \<Rightarrow> vireo_monotonic_ns \<Rightarrow> vireo_rate_limit_request \<Rightarrow> plan" where
  "init_plan l now r =
     (let p = find_policy (active_policies l) (rq_policy_id r) in
      \<lparr>pn_policy_index = word_of_nat p, pn_slot = SIZE_MAX, pn_tokens = rp_burst_tokens (rl_policies l ! p), pn_anchor = now\<rparr>)"

lemma found_policy:
  assumes "config_ok l" and "i \<in> rp_policy_id ` set (active_policies l)"
  shows "find_policy (active_policies l) i < unat (rl_policy_count l)"
    and "unat (word_of_nat (find_policy (active_policies l) i) :: size_t) = find_policy (active_policies l) i"
    and "rl_policies l ! find_policy (active_policies l) i = policy_of (active_policies l) i"
    and "rp_policy_id (policy_of (active_policies l) i) = i" and "policy_ok (policy_of (active_policies l) i)"
proof -
  note f = find_policy_props(3) [OF assms(2)]
  show lt: "find_policy (active_policies l) i < unat (rl_policy_count l)" using f by simp
  then show "unat (word_of_nat (find_policy (active_policies l) i) :: size_t) = find_policy (active_policies l) i"
    using unat_lt_64 [of "rl_policy_count l"] by (simp add: unsigned_of_nat take_bit_nat_eq_self)
  show "rl_policies l ! find_policy (active_policies l) i = policy_of (active_policies l) i" using f lt by simp
  show "rp_policy_id (policy_of (active_policies l) i) = i" using f by metis
  show "policy_ok (policy_of (active_policies l) i)" using f assms(1) nth_mem unfolding config_ok_def by metis
qed

lemma policy_same_index:
  assumes "config_ok l" and "i \<in> rp_policy_id ` set (active_policies l)" and "j \<in> rp_policy_id ` set (active_policies l)"
  shows "(word_of_nat (find_policy (active_policies l) i) :: size_t) = word_of_nat (find_policy (active_policies l) j) \<longleftrightarrow> i = j"
  using found_policy(2-4) [OF assms(1,2)] found_policy(2-4) [OF assms(1,3)] by metis

lemma plan_requests_eq:
  assumes cfg: "config_ok l" and "j \<le> length reqs"
    and "\<forall>r \<in> set (take j reqs). rq_policy_id r \<in> rp_policy_id ` set (active_policies l)"
  shows "fst (plan_requests l now reqs [j ..< length reqs] (map (init_plan l now) (take j reqs))) =
      batch_code (active_policies l) (map rq_dim (take j reqs)) (drop j reqs) \<and>
    (batch_code (active_policies l) (map rq_dim (take j reqs)) (drop j reqs) = VIREO_OK \<longrightarrow>
      snd (plan_requests l now reqs [j ..< length reqs] (map (init_plan l now) (take j reqs))) = map (init_plan l now) reqs)"
  using assms(2,3)
proof (induction "length reqs - j" arbitrary: j)
  case 0
  then show ?case by simp
next
  case (Suc n)
  let ?ps = "active_policies l" and ?r = "reqs ! j"
  let ?p = "find_policy ?ps (rq_policy_id ?r)"
  have j: "j < length reqs" "n = length reqs - Suc j" using Suc.hyps(2) by simp_all
  have upt: "[j ..< length reqs] = j # [Suc j ..< length reqs]" using j by (simp add: upt_conv_Cons)
  have drop: "drop j reqs = ?r # drop (Suc j) reqs" and take: "take (Suc j) reqs = take j reqs @ [?r]"
    using j by (simp_all add: Cons_nth_drop_Suc take_Suc_conv_app_nth)
  have lps: "length ?ps = unat (rl_policy_count l)" using cfg by (simp add: config_ok_def word_le_nat_alt)
  have known: "?p = unat (rl_policy_count l) \<longleftrightarrow> rq_policy_id ?r \<notin> rp_policy_id ` set ?ps"
    using find_policy_props(2) [of ?ps "rq_policy_id ?r"] lps by simp
  show ?case
  proof (cases "rq_policy_id ?r \<in> rp_policy_id ` set ?ps")
    case False
    then show ?thesis using known by (auto simp: upt drop request_code_def)
  next
    case True
    note f = found_policy [OF cfg True]
    have len: "length (map (init_plan l now) (take j reqs)) = j" using j by simp
    have dup: "list_ex (\<lambda>k. pn_policy_index (map (init_plan l now) (take j reqs) ! k) = word_of_nat ?p \<and>
        rq_key (reqs ! k) = rq_key ?r) [0 ..< j] \<longleftrightarrow> rq_dim ?r \<in> set (map rq_dim (take j reqs))" (is "?L \<longleftrightarrow> ?R")
    proof -
      have "pn_policy_index (map (init_plan l now) (take j reqs) ! k) = word_of_nat ?p \<longleftrightarrow> rq_policy_id (reqs ! k) = rq_policy_id ?r"
        if "k < j" for k
      proof -
        have "reqs ! k \<in> set (take j reqs)" using that j by (auto simp: in_set_conv_nth)
        then show ?thesis
          using policy_same_index [OF cfg _ True, of "rq_policy_id (reqs ! k)"] Suc.prems(2) that j by (simp add: init_plan_def Let_def)
      qed
      then have "?L \<longleftrightarrow> (\<exists>k < j. rq_dim (reqs ! k) = rq_dim ?r)" by (auto simp: list_ex_iff rq_dim_def)
      also have "\<dots> \<longleftrightarrow> rq_dim ?r \<in> rq_dim ` (!) reqs ` {0 ..< j}"
        by (auto, metis atLeastLessThan_iff imageI le0)
      also have "(!) reqs ` {0 ..< j} = set (take j reqs)" using j nth_image [of j reqs] by simp
      also have "rq_dim ?r \<in> rq_dim ` set (take j reqs) \<longleftrightarrow> ?R" by simp
      finally show ?thesis .
    qed
    have ext: "map (init_plan l now) (take j reqs) @ [\<lparr>pn_policy_index = word_of_nat ?p, pn_slot = SIZE_MAX,
        pn_tokens = rp_burst_tokens (rl_policies l ! ?p), pn_anchor = now\<rparr>] = map (init_plan l now) (take (Suc j) reqs)"
      by (simp add: take init_plan_def Let_def)
    have "\<forall>r \<in> set (take (Suc j) reqs). rq_policy_id r \<in> rp_policy_id ` set ?ps" using Suc.prems(2) True by (simp add: take)
    note IH = Suc.hyps(1) [OF j(2) _ this]
    have dims: "map rq_dim (take (Suc j) reqs) = map rq_dim (take j reqs) @ [rq_dim ?r]" by (simp add: take)
    have step: "plan_requests l now reqs (j # js) (map (init_plan l now) (take j reqs)) =
        (if request_code ?ps (map rq_dim (take j reqs)) ?r = VIREO_OK
         then plan_requests l now reqs js (map (init_plan l now) (take (Suc j) reqs))
         else (request_code ?ps (map rq_dim (take j reqs)) ?r, map (init_plan l now) (take j reqs)))" for js
      unfolding plan_requests.simps Let_def f(3) ext [unfolded f(3)] request_code_def dup using True known by simp
    show ?thesis using IH j(1) unfolding upt drop dims step by (simp del: plan_requests.simps)
  qed
qed

lemma batch_code_OK:
  "batch_code ps earlier reqs = VIREO_OK \<longleftrightarrow>
     (\<forall>r \<in> set reqs. rq_policy_id r \<noteq> 0 \<and> rq_cost r \<noteq> 0 \<and> rq_policy_id r \<in> rp_policy_id ` set ps \<and>
        rq_cost r \<le> rp_burst_tokens (policy_of ps (rq_policy_id r))) \<and>
     distinct (map rq_dim reqs) \<and> rq_dim ` set reqs \<inter> set earlier = {}"
  by (induction reqs arbitrary: earlier) (auto simp: request_code_def not_less)

subsection \<open>Matching the batch against the table\<close>

text \<open>\<open>tracks l r i\<close>: slot \<open>i\<close> holds the bucket that request \<open>r\<close> is charged to.\<close>

definition tracks :: "vireo_rate_limiter \<Rightarrow> vireo_rate_limit_request \<Rightarrow> nat \<Rightarrow> bool" where
  "tracks l r i \<longleftrightarrow> occupied l i \<and> entry_dim l (rl_entries l ! i) = rq_dim r"

definition known_request :: "vireo_rate_limiter \<Rightarrow> vireo_rate_limit_request \<Rightarrow> bool" where
  "known_request l r \<longleftrightarrow> rq_policy_id r \<in> rp_policy_id ` set (active_policies l)"

lemma fold_map2:
  "length rs = length ps \<Longrightarrow> fold (\<lambda>i ps. map2 (f i) rs ps) is ps = map2 (\<lambda>r. fold (\<lambda>i. f i r) is) rs ps"
proof (induction "is" arbitrary: ps)
  case Nil
  then show ?case by (induction rs ps rule: list_induct2) simp_all
next
  case (Cons i "is")
  have "fold (\<lambda>i ps. map2 (f i) rs ps) (i # is) ps = map2 (\<lambda>r. fold (\<lambda>i. f i r) is) rs (map2 (f i) rs ps)"
    using Cons by simp
  also have "\<dots> = map2 (\<lambda>r. fold (\<lambda>i. f i r) (i # is)) rs ps" using Cons.prems by (induction rs ps rule: list_induct2) simp_all
  finally show ?case .
qed

lemma tracks_iff:
  assumes inv: "limiter_inv l" and known: "known_request l r" and i: "i < slot_count l"
  shows "tracks l r i \<longleftrightarrow> en_occupied (rl_entries l ! i) \<and>
    en_policy_index (rl_entries l ! i) = word_of_nat (find_policy (active_policies l) (rq_policy_id r)) \<and> en_key (rl_entries l ! i) = rq_key r"
proof (cases "en_occupied (rl_entries l ! i)")
  case True
  let ?e = "rl_entries l ! i" and ?p = "find_policy (active_policies l) (rq_policy_id r)"
  have o: "occupied l i" using True i by (simp add: occupied_def)
  note f = found_policy [OF invD(1) [OF inv] known [unfolded known_request_def]]
  have pi: "en_policy_index ?e < rl_policy_count l" using occupied_entry(1) [OF inv o] by (simp add: entry_ok_def)
  have "rp_policy_id (entry_policy l ?e) = rq_policy_id r \<longleftrightarrow> en_policy_index ?e = word_of_nat ?p"
  proof
    assume "en_policy_index ?e = word_of_nat ?p"
    then show "rp_policy_id (entry_policy l ?e) = rq_policy_id r" using f(2-4) by (simp add: entry_policy_def)
  next
    assume eq: "rp_policy_id (entry_policy l ?e) = rq_policy_id r"
    let ?ids = "map rp_policy_id (active_policies l)"
    have len: "length ?ids = unat (rl_policy_count l)" using invD(1) [OF inv] by (simp add: config_ok_def word_le_nat_alt)
    have "?ids ! unat (en_policy_index ?e) = ?ids ! ?p"
      using eq pi len f(1,3,4) by (simp add: entry_policy_def word_less_nat_alt)
    then have "unat (en_policy_index ?e) = ?p"
      using nth_eq_iff_index_eq [of ?ids] invD(1) [OF inv] len pi f(1) by (simp add: config_ok_def word_less_nat_alt)
    then show "en_policy_index ?e = word_of_nat ?p" using f(2) by (simp add: word_unat_eq_iff)
  qed
  then show ?thesis using o True by (auto simp: tracks_def entry_dim_def rq_dim_def)
qed (simp add: tracks_def occupied_def)

lemma match_one:
  assumes inv: "limiter_inv l" and known: "known_request l r" and le: "rl_last_now l \<le> now" and "n \<le> slot_count l"
  defines "q \<equiv> fold (\<lambda>i. match_entry l now i r) [0 ..< n] (init_plan l now r)"
  shows "pn_policy_index q = word_of_nat (find_policy (active_policies l) (rq_policy_id r)) \<and>
    (if \<exists>i < n. tracks l r i
     then \<exists>i < n. tracks l r i \<and> pn_slot q = word_of_nat i \<and>
       plan_holds (policy_of (active_policies l) (rq_policy_id r)) now (limiter_credit l (unat now) (rq_dim r)) q
     else q = init_plan l now r)"
  using assms(4) unfolding q_def
proof (induction n)
  case 0
  then show ?case by (simp add: init_plan_def Let_def)
next
  case (Suc n)
  let ?q = "fold (\<lambda>i. match_entry l now i r) [0 ..< n] (init_plan l now r)" and ?p = "policy_of (active_policies l) (rq_policy_id r)"
  have n: "n < slot_count l" using Suc.prems by simp
  note IH = Suc.IH [OF order.strict_implies_order [OF n], THEN conjunct2] and ix = Suc.IH [OF order.strict_implies_order [OF n], THEN conjunct1]
  have st: "fold (\<lambda>i. match_entry l now i r) [0 ..< Suc n] (init_plan l now r) = match_entry l now n r ?q" by simp
  show ?case
  proof (cases "tracks l r n")
    case False
    then have "match_entry l now n r ?q = ?q" using tracks_iff [OF inv known n] ix by (auto simp: match_entry_def [of l now n r] Let_def)
    moreover have "(\<exists>i < Suc n. tracks l r i \<and> P i) \<longleftrightarrow> (\<exists>i < n. tracks l r i \<and> P i)" for P using False by (auto simp: less_Suc_eq)
    moreover from this [of "\<lambda>_. True"] have "(\<exists>i < Suc n. tracks l r i) \<longleftrightarrow> (\<exists>i < n. tracks l r i)" by simp
    ultimately show ?thesis using IH ix unfolding st by (simp only:)
  next
    case True
    let ?e = "rl_entries l ! n"
    have o: "occupied l n" "entry_dim l ?e = rq_dim r" using True by (simp_all add: tracks_def)
    note oe = occupied_entry [OF inv o(1)]
    have pe: "entry_policy l ?e = ?p" using oe(3) o(2) by (simp add: rq_dim_def)
    have m: "match_entry l now n r ?q = refill ?e ?p now (?q\<lparr>pn_slot := word_of_nat n\<rparr>)"
      using tracks_iff [OF inv known n] True ix pe by (simp add: match_entry_def [of l now n r] Let_def entry_policy_def)
    have e: "en_tokens ?e \<le> rp_burst_tokens ?p" "en_anchor ?e \<le> now" using oe(1) pe le by (auto simp: entry_ok_def)
    note h = refill_holds [OF oe(2) [unfolded pe] e]
    have "limiter_credit l (unat now) (rq_dim r) = entry_credit ?p (unat now) ?e"
      using limiter_credit_found [OF inv o(1), of "unat now"] o(2) pe by simp
    then show ?thesis using True ix h unfolding st m by auto
  qed
qed

lemma match_request:
  assumes inv: "limiter_inv l" and known: "known_request l r" and le: "rl_last_now l \<le> now"
  defines "q \<equiv> fold (\<lambda>i. match_entry l now i r) [0 ..< slot_count l] (init_plan l now r)"
  shows "pn_policy_index q = word_of_nat (find_policy (active_policies l) (rq_policy_id r))"
    and "plan_holds (policy_of (active_policies l) (rq_policy_id r)) now (limiter_credit l (unat now) (rq_dim r)) q"
    and "tracks l r i \<Longrightarrow> pn_slot q = word_of_nat i" and "(\<And>i. \<not> tracks l r i) \<Longrightarrow> pn_slot q = SIZE_MAX"
proof -
  let ?p = "policy_of (active_policies l) (rq_policy_id r)"
  note m = match_one [OF inv known le order_refl, folded q_def]
  have lt: "i < slot_count l" if "tracks l r i" for i using that by (simp add: tracks_def occupied_def)
  note f = found_policy [OF invD(1) [OF inv] known [unfolded known_request_def]]
  show "pn_policy_index q = word_of_nat (find_policy (active_policies l) (rq_policy_id r))" using m by simp
  show "pn_slot q = word_of_nat i" if t: "tracks l r i"
  proof -
    obtain j where "tracks l r j" "pn_slot q = word_of_nat j" using m lt [OF t] t by (metis (no_types, lifting))
    moreover from this t have "j = i" using occupied_entry(4) [OF inv, of i j] by (simp add: tracks_def)
    ultimately show ?thesis by simp
  qed
  show "pn_slot q = SIZE_MAX" if "\<And>i. \<not> tracks l r i" using m that by (auto simp: init_plan_def Let_def)
  show "plan_holds ?p now (limiter_credit l (unat now) (rq_dim r)) q"
  proof (cases "\<exists>i < slot_count l. tracks l r i")
    case False
    then have "\<not> tracks l r i" for i using lt by blast
    then have "limiter_credit l (unat now) (rq_dim r) = bucket_full ?p"
      using limiter_credit_new [OF inv, of "rq_dim r"] by (auto simp: tracks_def rq_dim_def)
    moreover have "q = init_plan l now r" using m False by simp
    ultimately show ?thesis using f(3) policy_ok_bounds [OF f(5)] by (simp add: plan_holds_def init_plan_def Let_def bucket_full_def)
  qed (use m in auto)
qed

subsection \<open>Weighing the plans\<close>

lemma plan_wait_eq:
  assumes "plan_holds p now c q" and "policy_ok p" and "rq_cost r \<le> rp_burst_tokens p"
    and "rl_policies l ! unat (pn_policy_index q) = p"
  shows "unat (plan_wait l now r q) = unat (rq_cost r) * unat (rp_refill_interval_ns p) - c"
    and "pn_tokens q < rq_cost r \<longleftrightarrow> c < unat (rq_cost r) * unat (rp_refill_interval_ns p)"
proof -
  let ?I = "unat (rp_refill_interval_ns p)" and ?T = "unat (pn_tokens q)" and ?C = "unat (rq_cost r)"
  let ?d = "unat now - unat (pn_anchor q)"
  note b = policy_ok_bounds [OF assms(2)]
  have h: "c = ?T * ?I + ?d" "?d < ?I" "pn_anchor q \<le> now" using assms(1) by (simp_all add: plan_holds_def)
  have le: "?C * ?I \<le> c" if "?C \<le> ?T" using mult_le_mono1 [OF that, of ?I] h(1) by linarith
  have gt: "?d < (?C - ?T) * ?I" "c < ?C * ?I" if "?T < ?C"
  proof -
    have "1 \<le> ?C - ?T" using that by linarith
    then have "?I \<le> (?C - ?T) * ?I" using mult_le_mono1 [of 1 "?C - ?T" ?I] by linarith
    then show "?d < (?C - ?T) * ?I" using h(2) by linarith
    then show "c < ?C * ?I" using h(1) that by (simp add: diff_mult_distrib)
  qed
  show t: "pn_tokens q < rq_cost r \<longleftrightarrow> c < ?C * ?I" using le gt by (auto simp: word_less_nat_alt not_less) (meson not_le)
  show "unat (plan_wait l now r q) = ?C * ?I - c"
  proof (cases "pn_tokens q < rq_cost r")
    case False
    then show ?thesis using le by (simp add: plan_wait_def word_less_nat_alt)
  next
    case True
    then have lt: "?T < ?C" by (simp add: word_less_nat_alt)
    have df: "unat (ucast (rq_cost r - pn_tokens q) :: u64) = ?C - ?T" using True by (simp add: unat_ucast_le unat_sub_le)
    have "(?C - ?T) * ?I \<le> 1000000 * 3600000000000"
      by (rule mult_le_mono) (use assms(3) b(2,4) in \<open>simp_all add: word_le_nat_alt\<close>)
    then have m: "unat (ucast (rq_cost r - pn_tokens q) * rp_refill_interval_ns p :: u64) = (?C - ?T) * ?I"
      using unat_mult_less [of "ucast (rq_cost r - pn_tokens q)" "rp_refill_interval_ns p"] df by simp
    have s: "unat (now - pn_anchor q) = ?d" using h(3) by (simp add: unat_sub_le)
    have "unat (plan_wait l now r q) = (?C - ?T) * ?I - ?d"
      using True assms(4) m s gt(1) [OF lt] unat_sub_le [of "now - pn_anchor q" "ucast (rq_cost r - pn_tokens q) * rp_refill_interval_ns p"]
      by (simp add: plan_wait_def word_le_nat_alt)
    then show ?thesis using h(1) lt by (simp add: diff_mult_distrib)
  qed
qed

lemma weigh_fold:
  "fold (weigh_plan l now) rqs (m, w) = (m + length (filter (\<lambda>(r, q). pn_slot q = SIZE_MAX) rqs), fold (\<lambda>(r, q). max (plan_wait l now r q)) rqs w)"
  by (induction rqs arbitrary: m w) (auto simp: weigh_plan_def Let_def max_def not_less)

lemma unat_fold_max: "unat (fold (\<lambda>(r, q). max (f r q)) rqs w) = Max (insert (unat w) ((\<lambda>(r, q). unat (f r q)) ` set rqs))"
  for w :: "64 word"
proof (induction rqs arbitrary: w)
  case (Cons rq rqs)
  have "unat (max a b) = max (unat a) (unat b)" for a b :: "64 word" by (simp add: max_def word_le_nat_alt)
  then show ?case using Cons by (cases rq) (cases "rqs = []"; simp add: max.assoc max.left_commute)
qed simp

subsection \<open>Candidate slots\<close>

lemma pick_candidates_eq:
  "length cs \<le> m \<Longrightarrow> pick_candidates l now plans m is cs =
     cs @ take (m - length cs) (map word_of_nat (filter (\<lambda>i. \<not> referenced plans (word_of_nat i) \<and> slot_usable l now i) is))"
proof (induction "is" arbitrary: cs)
  case (Cons i "is")
  show ?case
  proof (cases "length cs < m")
    case True
    then have "m - length cs = Suc (m - Suc (length cs))" by simp
    then show ?thesis using Cons.IH [of cs] Cons.IH [of "cs @ [word_of_nat i]"] True by auto
  next
    case False
    then show ?thesis using Cons.prems by simp
  qed
qed simp

lemma slot_usable_iff:
  assumes "limiter_inv l" and "rl_last_now l \<le> now" and "i < slot_count l"
  shows "slot_usable l now i \<longleftrightarrow> (occupied l i \<longrightarrow> limiter_credit l (unat now) (entry_dim l (rl_entries l ! i)) =
    full_credit (active_policies l) (entry_dim l (rl_entries l ! i)))"
proof (cases "occupied l i")
  case True
  let ?e = "rl_entries l ! i"
  note oe = occupied_entry [OF assms(1) True]
  have "en_tokens ?e \<le> rp_burst_tokens (entry_policy l ?e)" "en_anchor ?e \<le> now" using oe(1) assms(2) by (auto simp: entry_ok_def)
  note h = refill_holds(1) [OF oe(2) this, THEN plan_holds_full(2), OF oe(2)]
  show ?thesis
    using True h limiter_credit_found [OF assms(1) True] oe(3) by (simp add: slot_usable_def Let_def occupied_def entry_policy_def [symmetric])
next
  case False
  then show ?thesis using assms(3) by (simp add: slot_usable_def Let_def occupied_def)
qed

subsection \<open>Charging one bucket\<close>

text \<open>\<open>chargeable l now r q\<close>: plan \<open>q\<close> may be committed for request \<open>r\<close> in its slot.\<close>

definition chargeable :: "vireo_rate_limiter \<Rightarrow> vireo_monotonic_ns \<Rightarrow> vireo_rate_limit_request \<Rightarrow> plan \<Rightarrow> bool" where
  "chargeable l now r q \<longleftrightarrow> unat (pn_slot q) < slot_count l \<and> known_request l r \<and>
     pn_policy_index q = word_of_nat (find_policy (active_policies l) (rq_policy_id r)) \<and>
     plan_holds (policy_of (active_policies l) (rq_policy_id r)) now (limiter_credit l (unat now) (rq_dim r)) q \<and>
     (if \<exists>i. tracks l r i then tracks l r (unat (pn_slot q))
      else occupied l (unat (pn_slot q)) \<longrightarrow>
        limiter_credit l (unat now) (entry_dim l (rl_entries l ! unat (pn_slot q))) =
          full_credit (active_policies l) (entry_dim l (rl_entries l ! unat (pn_slot q))))"

definition charged_entry :: "vireo_rate_limit_request \<Rightarrow> plan \<Rightarrow> vireo_rate_limit_entry" where
  "charged_entry r q = \<lparr>en_occupied = True, en_policy_index = pn_policy_index q, en_key = rq_key r,
     en_tokens = pn_tokens q - rq_cost r, en_anchor = pn_anchor q\<rparr>"

lemma commit_frame:
  "rl_max_keys (commit_plan rq l) = rl_max_keys l" "rl_policy_count (commit_plan rq l) = rl_policy_count l"
  "rl_policies (commit_plan rq l) = rl_policies l" "rl_last_now (commit_plan rq l) = rl_last_now l"
  "rl_self (commit_plan rq l) = rl_self l" "rl_allocator (commit_plan rq l) = rl_allocator l"
  by (simp_all add: commit_plan_def Let_def split_def)

lemma commit_entries:
  "rl_entries (commit_plan (r, q) l) = (rl_entries l)[unat (pn_slot q) := charged_entry r q]"
  "rl_tracked_keys (commit_plan (r, q) l) =
     (if en_occupied (rl_entries l ! unat (pn_slot q)) then rl_tracked_keys l else rl_tracked_keys l + 1)"
  by (simp_all add: commit_plan_def Let_def charged_entry_def)

lemma commit_step:
  assumes inv: "limiter_inv l" and now: "rl_last_now l = now" and ch: "chargeable l now r q" and cost: "rq_cost r \<le> pn_tokens q"
  defines "l' \<equiv> commit_plan (r, q) l"
  shows "limiter_inv l'"
    and "limiter_credit l' (unat now) x =
      limiter_credit l (unat now) x - (if rq_dim r = x then rq_price (active_policies l) r else 0)"
    and "i \<noteq> unat (pn_slot q) \<Longrightarrow> occupied l' i = occupied l i \<and> rl_entries l' ! i = rl_entries l ! i"
    and "entry_dim l' (rl_entries l' ! unat (pn_slot q)) = rq_dim r" and "occupied l' (unat (pn_slot q))"
proof -
  let ?s = "unat (pn_slot q)" and ?ps = "active_policies l" and ?p = "policy_of (active_policies l) (rq_policy_id r)"
  let ?c = "limiter_credit l (unat now) (rq_dim r)" and ?e = "charged_entry r q"
  have s: "?s < slot_count l" and known: "known_request l r" and pi: "pn_policy_index q = word_of_nat (find_policy ?ps (rq_policy_id r))"
    and h: "plan_holds ?p now ?c q"
    using ch by (simp_all add: chargeable_def)
  note cfg = invD(1) [OF inv] and len = invD(3) [OF inv]
  note f = found_policy [OF cfg known [unfolded known_request_def]]
  note fr = commit_frame [of "(r, q)" l, folded l'_def] and ce = commit_entries [of r q l, folded l'_def]
  have ps': "active_policies l' = ?ps" by (simp add: fr)
  have pol: "entry_policy l' e = entry_policy l e" "entry_dim l' e = entry_dim l e" for e
    by (simp_all add: entry_policy_def entry_dim_def fr)
  have at: "rl_entries l' ! ?s = ?e" using s len by (simp add: ce)
  show other: "occupied l' i = occupied l i \<and> rl_entries l' ! i = rl_entries l ! i" if "i \<noteq> ?s" for i
    using that by (simp add: occupied_def ce fr)
  have pe: "entry_policy l ?e = ?p" using pi f(2,3) by (simp add: entry_policy_def charged_entry_def)
  have de: "entry_dim l ?e = rq_dim r" using pe f(4) by (simp add: entry_dim_def rq_dim_def charged_entry_def)
  show "entry_dim l' (rl_entries l' ! ?s) = rq_dim r" using at de pol by simp
  show os: "occupied l' ?s" using at s by (simp add: occupied_def fr charged_entry_def)
  have cfg': "config_ok l'" using cfg by (simp add: config_ok_def fr ce)
  have eok: "entry_ok l now ?e"
  proof -
    have "unat (word_of_nat (find_policy ?ps (rq_policy_id r)) :: size_t) < unat (rl_policy_count l)" using f(1,2) by simp
    moreover have "pn_tokens q - rq_cost r \<le> rp_burst_tokens ?p"
      using h cost by (auto simp: plan_holds_def word_le_nat_alt unat_sub_le)
    ultimately show ?thesis using h pi pe unfolding entry_ok_def by (simp add: charged_entry_def plan_holds_def word_less_nat_alt)
  qed
  have uniq: "i = ?s" if "occupied l i" "entry_dim l (rl_entries l ! i) = rq_dim r" for i
  proof -
    have "tracks l r i" using that by (simp add: tracks_def)
    then have "tracks l r ?s" using ch by (auto simp: chargeable_def split: if_splits)
    then show ?thesis using that occupied_entry(4) [OF inv, of ?s i] by (simp add: tracks_def)
  qed
  have "card {i. occupied l' i} = unat (rl_tracked_keys l')"
  proof (cases "occupied l ?s")
    case True
    then have "occupied l' i \<longleftrightarrow> occupied l i" for i using other os by (cases "i = ?s") auto
    then show ?thesis using True inv by (simp add: ce limiter_inv_def entries_ok_def occupied_def)
  next
    case False
    have "{i. occupied l i} \<subseteq> {..< slot_count l}" by (auto simp: occupied_def)
    then have fin: "finite {i. occupied l i}" "card {i. occupied l i} \<le> 4096"
      using invD(4) [OF inv] card_mono [of "{..< slot_count l}" "{i. occupied l i}"] by (auto intro: finite_subset)
    have "occupied l' i \<longleftrightarrow> i = ?s \<or> occupied l i" for i using other os by (cases "i = ?s") auto
    then have "{i. occupied l' i} = insert ?s {i. occupied l i}" by blast
    moreover have tk: "unat (rl_tracked_keys l) = card {i. occupied l i}" using inv by (simp add: limiter_inv_def entries_ok_def)
    moreover have "unat (rl_tracked_keys l + 1) = unat (rl_tracked_keys l) + 1"
      using unat_add_less [of "rl_tracked_keys l" 1] tk fin(2) by simp
    ultimately show ?thesis using False fin s by (simp add: ce occupied_def)
  qed
  moreover have "entry_ok l' (rl_last_now l') (rl_entries l' ! i)" if "occupied l' i" for i
    using that eok now other at occupied_entry(1) [OF inv] by (cases "i = ?s") (auto simp: entry_ok_def pol fr)
  moreover have "i = j" if "occupied l' i" "occupied l' j" "entry_dim l' (rl_entries l' ! i) = entry_dim l' (rl_entries l' ! j)" for i j
    using that at de other uniq occupied_entry(4) [OF inv, of j i] by (cases "i = ?s"; cases "j = ?s") (auto simp: pol)
  ultimately show inv': "limiter_inv l'" using cfg' by (auto simp: limiter_inv_def entries_ok_def)
  show "limiter_credit l' (unat now) x = limiter_credit l (unat now) x - (if rq_dim r = x then rq_price ?ps r else 0)"
  proof (cases "rq_dim r = x")
    case True
    let ?I = "unat (rp_refill_interval_ns ?p)"
    have c: "?c = unat (pn_tokens q) * ?I + (unat now - unat (pn_anchor q))" using h by (simp add: plan_holds_def)
    have cc: "unat (rq_cost r) * ?I \<le> unat (pn_tokens q) * ?I" using cost by (simp add: word_le_nat_alt)
    have "entry_credit ?p (unat now) ?e = ?c - rq_price ?ps r"
      using plan_holds_full(1) [OF h f(5)] c cost cc
      by (simp add: entry_credit_def charged_entry_def rq_price_def unat_sub_le diff_mult_distrib)
    moreover have "limiter_credit l' (unat now) (rq_dim r) = entry_credit ?p (unat now) ?e"
      using limiter_credit_found [OF inv' os] at de pol pe by simp
    ultimately show ?thesis using True by simp
  next
    case False
    show ?thesis
    proof (cases "\<exists>i. occupied l' i \<and> entry_dim l' (rl_entries l' ! i) = x")
      case True
      then obtain i where i: "occupied l' i" "entry_dim l' (rl_entries l' ! i) = x" by blast
      then have "i \<noteq> ?s" using at de pol False by auto
      then show ?thesis
        using i other [of i] limiter_credit_found [OF inv' i(1)] limiter_credit_found [OF inv, of i] False by (auto simp: pol)
    next
      case none: False
      have new: "limiter_credit l' (unat now) x = full_credit ?ps x" using limiter_credit_new [OF inv'] none by (auto simp: ps')
      have "limiter_credit l (unat now) x = full_credit ?ps x"
      proof (cases "\<exists>i. occupied l i \<and> entry_dim l (rl_entries l ! i) = x")
        case True
        then obtain i where i: "occupied l i" "entry_dim l (rl_entries l ! i) = x" by blast
        then have "i = ?s" using none other [of i] pol(2) by metis
        moreover have "\<not> tracks l r ?s" using i calculation False by (simp add: tracks_def)
        ultimately show ?thesis using ch i by (auto simp: chargeable_def split: if_splits)
      next
        case False
        then show ?thesis using limiter_credit_new [OF inv] by blast
      qed
      then show ?thesis using new False by simp
    qed
  qed
qed

lemma chargeable_commit:
  assumes inv: "limiter_inv l" and now: "rl_last_now l = now" and ch: "chargeable l now r q" and cost: "rq_cost r \<le> pn_tokens q"
    and ch': "chargeable l now r' q'" and dims: "rq_dim r' \<noteq> rq_dim r" and slots: "pn_slot q' \<noteq> pn_slot q"
  shows "chargeable (commit_plan (r, q) l) now r' q'"
proof -
  let ?l = "commit_plan (r, q) l"
  note c = commit_step [OF inv now ch cost] and fr = commit_frame [of "(r, q)" l]
  have sl: "unat (pn_slot q') \<noteq> unat (pn_slot q)" using slots by (simp add: word_unat_eq_iff)
  have dim: "entry_dim ?l e = entry_dim l e" for e by (simp add: entry_dim_def entry_policy_def fr)
  have one: "tracks l v i \<Longrightarrow> chargeable l now v w \<Longrightarrow> i = unat (pn_slot w)" for v w i
    using occupied_entry(4) [OF inv, of "unat (pn_slot w)" i] by (auto simp: chargeable_def tracks_def split: if_splits)
  have tr: "tracks ?l r' i \<longleftrightarrow> tracks l r' i" for i
  proof (cases "i = unat (pn_slot q)")
    case True
    then show ?thesis using c(4,5) dims sl one [OF _ ch', of i] by (auto simp: tracks_def)
  next
    case False
    then show ?thesis using c(3) [OF False] by (simp add: tracks_def dim)
  qed
  have cr: "limiter_credit ?l (unat now) x = limiter_credit l (unat now) x" if "x \<noteq> rq_dim r" for x
    using c(2) [of x] that by auto
  have e: "occupied ?l (unat (pn_slot q')) = occupied l (unat (pn_slot q'))" "rl_entries ?l ! unat (pn_slot q') = rl_entries l ! unat (pn_slot q')"
    using c(3) [OF sl] by simp_all
  have "entry_dim l (rl_entries l ! unat (pn_slot q')) \<noteq> rq_dim r" if "occupied l (unat (pn_slot q'))"
    using one [OF _ ch, of "unat (pn_slot q')"] that sl by (auto simp: tracks_def)
  then show ?thesis using ch' unfolding chargeable_def tr e dim fr known_request_def using cr dims by (auto split: if_splits)
qed

lemma commit_all:
  assumes "limiter_inv l" and "rl_last_now l = now" and "\<forall>(r, q) \<in> set rqs. chargeable l now r q \<and> rq_cost r \<le> pn_tokens q"
    and "distinct (map (rq_dim \<circ> fst) rqs)" and "distinct (map (pn_slot \<circ> snd) rqs)"
  shows "limiter_inv (fold commit_plan rqs l) \<and>
    (\<forall>x. limiter_credit (fold commit_plan rqs l) (unat now) x =
      limiter_credit l (unat now) x - (\<Sum>(r, q) \<leftarrow> rqs. if rq_dim r = x then rq_price (active_policies l) r else 0)) \<and>
    rl_max_keys (fold commit_plan rqs l) = rl_max_keys l \<and> active_policies (fold commit_plan rqs l) = active_policies l \<and>
    rl_last_now (fold commit_plan rqs l) = now"
  using assms
proof (induction rqs arbitrary: l)
  case (Cons rq rqs)
  obtain r q where rq: "rq = (r, q)" by (cases rq)
  have ch: "chargeable l now r q" "rq_cost r \<le> pn_tokens q" using Cons.prems(3) rq by auto
  let ?l = "commit_plan (r, q) l"
  note c = commit_step [OF Cons.prems(1,2) ch] and fr = commit_frame [of "(r, q)" l]
  have "\<forall>(r', q') \<in> set rqs. chargeable ?l now r' q' \<and> rq_cost r' \<le> pn_tokens q'"
  proof clarify
    fix r' q' assume m: "(r', q') \<in> set rqs"
    then have "rq_dim r' \<noteq> rq_dim r" "pn_slot q' \<noteq> pn_slot q" using Cons.prems(4,5) rq by force+
    then show "chargeable ?l now r' q' \<and> rq_cost r' \<le> pn_tokens q'"
      using chargeable_commit [OF Cons.prems(1,2) ch] Cons.prems(3) m by auto
  qed
  note IH = Cons.IH [OF c(1) _ this]
  have "active_policies ?l = active_policies l" by (simp add: fr)
  note IH' = IH [unfolded this fr, OF Cons.prems(2)]
  show ?case using IH' Cons.prems(4,5) unfolding rq fold_Cons o_apply c(2) fr by (simp add: diff_diff_left)
qed simp

subsection \<open>Assigning slots\<close>

lemma assign_slots_props:
  assumes "length cs = length (filter (\<lambda>q. pn_slot q = SIZE_MAX) qs)" and "distinct cs" and "SIZE_MAX \<notin> set cs"
    and "distinct (map pn_slot (filter (\<lambda>q. pn_slot q \<noteq> SIZE_MAX) qs))"
    and "set cs \<inter> pn_slot ` set qs = {}"
  shows "list_all2 (\<lambda>q q'. q' = q\<lparr>pn_slot := pn_slot q'\<rparr> \<and> (if pn_slot q = SIZE_MAX then pn_slot q' \<in> set cs else pn_slot q' = pn_slot q))
      qs (assign_slots qs cs) \<and> distinct (map pn_slot (assign_slots qs cs)) \<and>
    pn_slot ` set (assign_slots qs cs) = (pn_slot ` set qs - {SIZE_MAX}) \<union> set cs"
  using assms
proof (induction qs arbitrary: cs)
  case (Cons q qs)
  show ?case
  proof (cases "pn_slot q = SIZE_MAX")
    case True
    then obtain c ds where cs: "cs = c # ds" using Cons.prems(1) by (cases cs) auto
    note IH = Cons.IH [of ds]
    have "list_all2 (\<lambda>q q'. q' = q\<lparr>pn_slot := pn_slot q'\<rparr> \<and> (if pn_slot q = SIZE_MAX then pn_slot q' \<in> set ds else pn_slot q' = pn_slot q))
      qs (assign_slots qs ds)" and d: "distinct (map pn_slot (assign_slots qs ds))"
      and im: "pn_slot ` set (assign_slots qs ds) = (pn_slot ` set qs - {SIZE_MAX}) \<union> set ds"
      using IH Cons.prems cs True by auto
    then have "list_all2 (\<lambda>q q'. q' = q\<lparr>pn_slot := pn_slot q'\<rparr> \<and> (if pn_slot q = SIZE_MAX then pn_slot q' \<in> set cs else pn_slot q' = pn_slot q))
      qs (assign_slots qs ds)" by (auto elim!: list_all2_mono simp: cs)
    moreover have "c \<notin> pn_slot ` set (assign_slots qs ds)" using im Cons.prems cs by auto
    ultimately show ?thesis using True cs d im Cons.prems by auto
  next
    case False
    have "list_all2 (\<lambda>q q'. q' = q\<lparr>pn_slot := pn_slot q'\<rparr> \<and> (if pn_slot q = SIZE_MAX then pn_slot q' \<in> set cs else pn_slot q' = pn_slot q))
      qs (assign_slots qs cs)" "distinct (map pn_slot (assign_slots qs cs))"
      and im: "pn_slot ` set (assign_slots qs cs) = (pn_slot ` set qs - {SIZE_MAX}) \<union> set cs"
      using Cons.IH [of cs] Cons.prems False by auto
    moreover have "pn_slot q \<notin> pn_slot ` set (assign_slots qs cs)" using im Cons.prems False by auto
    ultimately show ?thesis using False by auto
  qed
qed simp

subsection \<open>The decision\<close>

definition matched :: "vireo_rate_limiter \<Rightarrow> vireo_monotonic_ns \<Rightarrow> vireo_rate_limit_request \<Rightarrow> plan" where
  "matched l now r = fold (\<lambda>i. match_entry l now i r) [0 ..< slot_count l] (init_plan l now r)"

lemma match_entries_eq: "match_entries l now reqs (map (init_plan l now) reqs) = map (matched l now) reqs"
proof -
  have "map2 (\<lambda>r. fold (\<lambda>i. match_entry l now i r) [0 ..< slot_count l]) reqs (map (init_plan l now) reqs) = map (matched l now) reqs"
    by (induction reqs) (simp_all add: matched_def)
  then show ?thesis by (simp add: match_entries_def fold_map2)
qed

lemma word_small: "i < 4096 \<Longrightarrow> unat (word_of_nat i :: size_t) = i" "i < 4096 \<Longrightarrow> (word_of_nat i :: size_t) \<noteq> SIZE_MAX"
proof -
  assume i: "i < 4096"
  then show u: "unat (word_of_nat i :: size_t) = i" by (simp add: unsigned_of_nat take_bit_nat_eq_self)
  show "(word_of_nat i :: size_t) \<noteq> SIZE_MAX"
  proof
    assume "(word_of_nat i :: size_t) = SIZE_MAX"
    then have "i = unat SIZE_MAX" using u by simp
    then show False using i by (simp add: unat_max_word)
  qed
qed

lemma tracks_lt: "limiter_inv l \<Longrightarrow> tracks l r i \<Longrightarrow> i < 4096"
  using invD(4) [of l] by (auto simp: tracks_def occupied_def)

lemma matched_slot:
  assumes inv: "limiter_inv l" and known: "known_request l r" and le: "rl_last_now l \<le> now"
  shows "i < slot_count l \<Longrightarrow> pn_slot (matched l now r) = word_of_nat i \<longleftrightarrow> tracks l r i"
    and "pn_slot (matched l now r) = SIZE_MAX \<longleftrightarrow> (\<forall>i. \<not> tracks l r i)"
proof -
  note m = match_request [OF inv known le, folded matched_def]
  show "pn_slot (matched l now r) = SIZE_MAX \<longleftrightarrow> (\<forall>i. \<not> tracks l r i)"
    using m(3,4) word_small(2) tracks_lt [OF inv] by metis
  show "pn_slot (matched l now r) = word_of_nat i \<longleftrightarrow> tracks l r i" if "i < slot_count l"
  proof
    assume e: "pn_slot (matched l now r) = word_of_nat i"
    have i: "i < 4096" using that invD(4) [OF inv] by simp
    then obtain j where j: "tracks l r j" using m(4) e word_small(2) by metis
    then have "unat (word_of_nat j :: size_t) = unat (word_of_nat i :: size_t)" using m(3) e by metis
    then show "tracks l r i" using j word_small(1) [OF i] word_small(1) [OF tracks_lt [OF inv j]] by simp
  qed (rule m(3))
qed

text \<open>A batch that passed validation.\<close>

definition batch_ok :: "vireo_rate_limiter \<Rightarrow> vireo_rate_limit_request list \<Rightarrow> bool" where
  "batch_ok l reqs \<longleftrightarrow> (\<forall>r \<in> set reqs. known_request l r \<and> rq_cost r \<le> rp_burst_tokens (policy_of (active_policies l) (rq_policy_id r))) \<and>
     distinct (map rq_dim reqs)"

lemma free_slots:
  assumes inv: "limiter_inv l" and ok: "batch_ok l reqs" and le: "rl_last_now l \<le> now"
  defines "qs \<equiv> map (matched l now) reqs" and "cr \<equiv> limiter_credit l (unat now)"
  shows "length (filter (\<lambda>i. \<not> referenced qs (word_of_nat i) \<and> slot_usable l now i) [0 ..< slot_count l]) +
      card {x. cr x < full_credit (active_policies l) x \<and> x \<notin> rq_dim ` set reqs} +
      length reqs = slot_count l + length (filter (\<lambda>q. pn_slot q = SIZE_MAX) qs)"
proof -
  let ?n = "slot_count l" and ?ps = "active_policies l"
  have known: "known_request l r" if "r \<in> set reqs" for r using ok that by (simp add: batch_ok_def)
  have dist: "distinct reqs" "inj_on rq_dim (set reqs)" using ok distinct_map by (auto simp: batch_ok_def)
  have ref: "referenced qs (word_of_nat i) \<longleftrightarrow> (\<exists>r \<in> set reqs. tracks l r i)" if "i < ?n" for i
    using matched_slot(1) [OF inv known le that] by (auto simp: referenced_def qs_def list_ex_iff)
  let ?t = "\<lambda>r. \<exists>i. tracks l r i"
  define A R U where "A = {i. i < ?n \<and> \<not> referenced qs (word_of_nat i) \<and> slot_usable l now i}"
    and "R = {i. i < ?n \<and> referenced qs (word_of_nat i)}" and "U = {i. i < ?n \<and> \<not> referenced qs (word_of_nat i) \<and> \<not> slot_usable l now i}"
  have fin: "finite A" "finite R" "finite U" by (simp_all add: A_def R_def U_def)
  have "{..< ?n} = A \<union> R \<union> U" "A \<inter> R = {}" "(A \<union> R) \<inter> U = {}" by (auto simp: A_def R_def U_def)
  then have sum: "?n = card A + card R + card U" using fin by (metis card_Un_disjoint card_lessThan finite_UnI)
  have "card R = card {r \<in> set reqs. ?t r}"
  proof (rule bij_betw_same_card [symmetric])
    have tu: "tracks l r i \<Longrightarrow> tracks l r j \<Longrightarrow> i = j" for r i j using occupied_entry(4) [OF inv, of j i] by (simp add: tracks_def)
    have the: "(THE i. tracks l r i) = i" if "tracks l r i" for r i using that tu by blast
    show "bij_betw (\<lambda>r. THE i. tracks l r i) {r \<in> set reqs. ?t r} R"
    proof (rule bij_betw_imageI)
      show "inj_on (\<lambda>r. THE i. tracks l r i) {r \<in> set reqs. ?t r}"
      proof (rule inj_onI, clarify)
        fix r r' i i' assume *: "r \<in> set reqs" "r' \<in> set reqs" "tracks l r i" "tracks l r' i'" "(THE i. tracks l r i) = (THE i. tracks l r' i)"
        then have "i = i'" using the by simp
        then have "rq_dim r = rq_dim r'" using * by (simp add: tracks_def)
        then show "r = r'" using dist(2) * by (simp add: inj_on_def)
      qed
      have "i \<in> R \<longleftrightarrow> (\<exists>r \<in> set reqs. tracks l r i)" for i using ref [of i] by (auto simp: R_def tracks_def occupied_def)
      moreover have "(\<lambda>r. THE i. tracks l r i) ` {r \<in> set reqs. ?t r} = {i. \<exists>r \<in> set reqs. tracks l r i}"
        using the by (auto simp: image_iff)
      ultimately show "(\<lambda>r. THE i. tracks l r i) ` {r \<in> set reqs. ?t r} = R" by blast
    qed
  qed
  also have "\<dots> = length (filter ?t reqs)" using dist(1) by (metis distinct_card distinct_filter set_filter)
  finally have R: "card R = length (filter ?t reqs)" .
  have "length (filter (\<lambda>q. pn_slot q = SIZE_MAX) qs) = length (filter (\<lambda>r. \<not> ?t r) reqs)"
  proof -
    have "filter (\<lambda>r. pn_slot (matched l now r) = SIZE_MAX) reqs = filter (\<lambda>r. \<not> ?t r) reqs"
      by (rule filter_cong [OF refl]) (use matched_slot(2) [OF inv known le] in blast)
    then show ?thesis by (simp add: qs_def filter_map o_def)
  qed
  then have miss: "length (filter (\<lambda>q. pn_slot q = SIZE_MAX) qs) + card R = length reqs"
    using R sum_length_filter_compl [of ?t reqs] by simp
  have "card U = card {x. cr x < full_credit ?ps x \<and> x \<notin> rq_dim ` set reqs}"
  proof (rule bij_betw_same_card, rule bij_betw_imageI)
    have occ: "occupied l i" if "i \<in> U" for i using that slot_usable_iff [OF inv le] by (auto simp: U_def)
    show "inj_on (\<lambda>i. entry_dim l (rl_entries l ! i)) U"
      using occ occupied_entry(4) [OF inv] by (meson inj_onI)
    show "(\<lambda>i. entry_dim l (rl_entries l ! i)) ` U = {x. cr x < full_credit ?ps x \<and> x \<notin> rq_dim ` set reqs}"
    proof (intro set_eqI iffI)
      fix x assume "x \<in> (\<lambda>i. entry_dim l (rl_entries l ! i)) ` U"
      then obtain i where i: "i \<in> U" "x = entry_dim l (rl_entries l ! i)" by blast
      have "cr x \<le> full_credit ?ps x"
        using limiter_credit_found [OF inv occ [OF i(1)]] occupied_entry(3) [OF inv occ [OF i(1)]] i(2) by (simp add: cr_def entry_credit_def)
      moreover have "cr x \<noteq> full_credit ?ps x" using i slot_usable_iff [OF inv le] by (auto simp: U_def cr_def)
      moreover have "x \<notin> rq_dim ` set reqs" using i ref [of i] occ [OF i(1)] by (auto simp: U_def tracks_def)
      ultimately show "x \<in> {x. cr x < full_credit ?ps x \<and> x \<notin> rq_dim ` set reqs}" by simp
    next
      fix x assume "x \<in> {x. cr x < full_credit ?ps x \<and> x \<notin> rq_dim ` set reqs}"
      then have x: "cr x < full_credit ?ps x" "x \<notin> rq_dim ` set reqs" by auto
      then obtain i where i: "occupied l i" "entry_dim l (rl_entries l ! i) = x"
        using limiter_credit_new [OF inv] unfolding cr_def by (metis less_irrefl)
      then have "i < ?n" by (simp add: occupied_def)
      then have "i \<in> U" using i x slot_usable_iff [OF inv le] ref by (auto simp: U_def tracks_def cr_def)
      then show "x \<in> (\<lambda>i. entry_dim l (rl_entries l ! i)) ` U" using i by blast
    qed
  qed
  moreover have "length (filter (\<lambda>i. \<not> referenced qs (word_of_nat i) \<and> slot_usable l now i) [0 ..< ?n]) = card A"
    unfolding A_def by (subst distinct_card [symmetric]) (auto intro: arg_cong [where f = card])
  ultimately show ?thesis using sum miss by linarith
qed

end
