(* ===== verification/Security_Rate_Enforcement.thy ===== *)
theory Security_Rate_Enforcement
  imports Security_Token_Bucket
begin

text \<open>
  The rate limiter computes the decisions of the token buckets, and what follows for its users: the
  volume that a key is granted in any period is bounded, the advertised waiting time is exact,
  and rejected or invalid batches change nothing but the clock.
\<close>

subsection \<open>One check\<close>

lemma later_frame:
  "limiter_credit (l\<lparr>rl_last_now := t\<rparr>) = limiter_credit l" "occupied (l\<lparr>rl_last_now := t\<rparr>) = occupied l"
  "entry_dim (l\<lparr>rl_last_now := t\<rparr>) = entry_dim l" "tracks (l\<lparr>rl_last_now := t\<rparr>) = tracks l"
  "chargeable (l\<lparr>rl_last_now := t\<rparr>) = chargeable l"
  by (simp_all add: fun_eq_iff limiter_credit_def occupied_def entry_dim_def entry_policy_def tracks_def chargeable_def known_request_def
      cong: if_cong option.case_cong)

lemma later_inv: "limiter_inv l \<Longrightarrow> rl_last_now l \<le> t \<Longrightarrow> limiter_inv (l\<lparr>rl_last_now := t\<rparr>)"
  by (auto simp: limiter_inv_def config_ok_def entries_ok_def entry_ok_def entry_policy_def later_frame intro: order_trans)

lemma commit_later: "(fold commit_plan rqs l)\<lparr>rl_last_now := t\<rparr> = fold commit_plan rqs (l\<lparr>rl_last_now := t\<rparr>)"
proof (induction rqs arbitrary: l)
  case (Cons rq rqs)
  have "(commit_plan rq l)\<lparr>rl_last_now := t\<rparr> = commit_plan rq (l\<lparr>rl_last_now := t\<rparr>)"
    by (simp add: commit_plan_def Let_def split_def)
  then show ?case using Cons by simp
qed simp

lemma later_spec: "limiter_spec (l\<lparr>rl_last_now := now\<rparr>) = \<lparr>sp_now = unat now, sp_credit = limiter_credit l (unat now)\<rparr>"
  by (simp add: limiter_spec_def later_frame)

lemma matched_wait:
  assumes inv: "limiter_inv l" and ok: "batch_ok l reqs" and le: "rl_last_now l \<le> now" and r: "r \<in> set reqs"
  shows "unat (plan_wait l now r (matched l now r)) = rq_price (active_policies l) r - limiter_credit l (unat now) (rq_dim r)"
    and "pn_tokens (matched l now r) < rq_cost r \<longleftrightarrow> limiter_credit l (unat now) (rq_dim r) < rq_price (active_policies l) r"
proof -
  have k: "known_request l r" "rq_cost r \<le> rp_burst_tokens (policy_of (active_policies l) (rq_policy_id r))"
    using ok r by (simp_all add: batch_ok_def)
  note f = found_policy [OF invD(1) [OF inv] k(1) [unfolded known_request_def]]
  note m = match_request [OF inv k(1) le, folded matched_def]
  have "rl_policies l ! unat (pn_policy_index (matched l now r)) = policy_of (active_policies l) (rq_policy_id r)"
    using m(1) f(2,3) by simp
  from plan_wait_eq [OF m(2) f(5) k(2) this]
  show "unat (plan_wait l now r (matched l now r)) = rq_price (active_policies l) r - limiter_credit l (unat now) (rq_dim r)"
    and "pn_tokens (matched l now r) < rq_cost r \<longleftrightarrow> limiter_credit l (unat now) (rq_dim r) < rq_price (active_policies l) r"
    by (simp_all add: rq_price_def)
qed

lemma weighed:
  assumes inv: "limiter_inv l" and ok: "batch_ok l reqs" and le: "rl_last_now l \<le> now" and ne: "reqs \<noteq> []"
    and w: "fold (weigh_plan l now) (zip reqs (map (matched l now) reqs)) (0, 0) = (missing, retry)"
  shows "missing = length (filter (\<lambda>q. pn_slot q = SIZE_MAX) (map (matched l now) reqs))"
    and "unat retry = Max ((\<lambda>r. rq_price (active_policies l) r - limiter_credit l (unat now) (rq_dim r)) ` set reqs)"
    and "retry \<noteq> 0 \<longleftrightarrow> (\<exists>r \<in> set reqs. limiter_credit l (unat now) (rq_dim r) < rq_price (active_policies l) r)"
proof -
  let ?f = "\<lambda>r. rq_price (active_policies l) r - limiter_credit l (unat now) (rq_dim r)"
  have z: "zip reqs (map (matched l now) reqs) = map (\<lambda>r. (r, matched l now r)) reqs" by (induction reqs) simp_all
  show "missing = length (filter (\<lambda>q. pn_slot q = SIZE_MAX) (map (matched l now) reqs))"
    using w by (simp add: weigh_fold z filter_map o_def)
  have "unat retry = Max (insert 0 ((\<lambda>r. unat (plan_wait l now r (matched l now r))) ` set reqs))"
    using w unat_fold_max [of "plan_wait l now" "zip reqs (map (matched l now) reqs)" 0] by (simp add: weigh_fold z image_image)
  also have "(\<lambda>r. unat (plan_wait l now r (matched l now r))) ` set reqs = ?f ` set reqs"
    by (rule image_cong [OF refl]) (rule matched_wait(1) [OF inv ok le])
  finally show M: "unat retry = Max (?f ` set reqs)" using ne by (simp add: Max_insert)
  have "retry \<noteq> 0 \<longleftrightarrow> 0 < Max (?f ` set reqs)" using M by (simp add: unat_gt_0 [symmetric])
  also have "\<dots> \<longleftrightarrow> (\<exists>r \<in> set reqs. 0 < ?f r)" using ne by (simp add: Max_gr_iff)
  finally show "retry \<noteq> 0 \<longleftrightarrow> (\<exists>r \<in> set reqs. limiter_credit l (unat now) (rq_dim r) < rq_price (active_policies l) r)" by simp
qed

lemma charge_batch:
  assumes inv: "limiter_inv l" and ok: "batch_ok l reqs" and le: "rl_last_now l \<le> now"
    and afford: "\<forall>r \<in> set reqs. rq_price (active_policies l) r \<le> limiter_credit l (unat now) (rq_dim r)"
    and c: "candidates = pick_candidates l now (map (matched l now) reqs)
      (length (filter (\<lambda>q. pn_slot q = SIZE_MAX) (map (matched l now) reqs))) [0 ..< slot_count l] []"
    and len: "\<not> length candidates < length (filter (\<lambda>q. pn_slot q = SIZE_MAX) (map (matched l now) reqs))"
  defines "l' \<equiv> (fold commit_plan (zip reqs (assign_slots (map (matched l now) reqs) candidates)) l)\<lparr>rl_last_now := now\<rparr>"
  shows "limiter_inv l'" and "active_policies l' = active_policies l" and "rl_max_keys l' = rl_max_keys l" and "rl_last_now l' = now"
    and "limiter_credit l' (unat now) x = limiter_credit l (unat now) x -
      (\<Sum>r \<leftarrow> reqs. if rq_dim r = x then rq_price (active_policies l) r else 0)"
proof -
  let ?qs = "map (matched l now) reqs" and ?l = "l\<lparr>rl_last_now := now\<rparr>"
  let ?m = "length (filter (\<lambda>q. pn_slot q = SIZE_MAX) ?qs)"
  let ?av = "\<lambda>i. \<not> referenced ?qs (word_of_nat i) \<and> slot_usable l now i"
  have known: "known_request l r" if "r \<in> set reqs" for r using ok that by (simp add: batch_ok_def)
  have cs: "candidates = take ?m (map word_of_nat (filter ?av [0 ..< slot_count l]))" by (simp add: c pick_candidates_eq)
  have lc: "length candidates = ?m" using len unfolding cs by simp
  have n: "slot_count l \<le> 4096" using invD(4) [OF inv] .
  have inj: "inj_on (word_of_nat :: nat \<Rightarrow> size_t) {..< 4096}" using word_small(1) by (metis inj_onI lessThan_iff)
  have dc: "distinct candidates" unfolding cs
    by (rule distinct_take, simp add: distinct_map, rule inj_on_subset [OF inj]) (use n in auto)
  have cin: "\<exists>i < slot_count l. c = word_of_nat i \<and> ?av i" if "c \<in> set candidates" for c
    using that set_take_subset unfolding cs by fastforce
  have mx: "SIZE_MAX \<notin> set candidates" using cin word_small(2) n by (metis less_le_trans)
  have slot: "pn_slot (matched l now r) \<noteq> SIZE_MAX \<Longrightarrow> \<exists>i. tracks l r i \<and> pn_slot (matched l now r) = word_of_nat i"
    if "r \<in> set reqs" for r
    using matched_slot(2) [OF inv known [OF that] le] match_request(3) [OF inv known [OF that] le, folded matched_def] by blast
  have dims: "distinct (map rq_dim reqs)" using ok by (simp add: batch_ok_def)
  have ds: "distinct (map pn_slot (filter (\<lambda>q. pn_slot q \<noteq> SIZE_MAX) ?qs))"
  proof -
    have "inj_on (pn_slot \<circ> matched l now) {r \<in> set reqs. pn_slot (matched l now r) \<noteq> SIZE_MAX}"
    proof (rule inj_onI, clarsimp)
      fix r r' assume r: "r \<in> set reqs" "r' \<in> set reqs" "pn_slot (matched l now r) = pn_slot (matched l now r')" "pn_slot (matched l now r') \<noteq> SIZE_MAX"
      then obtain i i' where i: "tracks l r i" "tracks l r' i'" "(word_of_nat i :: size_t) = word_of_nat i'" using slot by metis
      then have "i = i'" using inj tracks_lt [OF inv] by (auto simp: inj_on_def)
      then have "rq_dim r = rq_dim r'" using i by (simp add: tracks_def)
      then show "r = r'" using dims r by (auto simp: distinct_map inj_on_def)
    qed
    moreover have "distinct reqs" using dims by (simp add: distinct_map)
    ultimately have "distinct (map (pn_slot \<circ> matched l now) (filter (\<lambda>r. pn_slot (matched l now r) \<noteq> SIZE_MAX) reqs))"
      by (simp add: distinct_map [of "pn_slot \<circ> matched l now"])
    then show ?thesis by (simp add: filter_map o_def)
  qed
  have dj: "set candidates \<inter> pn_slot ` set ?qs = {}" using cin by (fastforce simp: referenced_def list_ex_iff)
  note as = assign_slots_props [OF lc dc mx ds dj]
  let ?as = "assign_slots ?qs candidates"
  have la: "length ?as = length reqs" using as list_all2_lengthD by fastforce
  have ch: "\<forall>(r, q) \<in> set (zip reqs ?as). chargeable ?l now r q \<and> rq_cost r \<le> pn_tokens q"
  proof clarify
    fix r q assume "(r, q) \<in> set (zip reqs ?as)"
    then obtain j where j: "j < length reqs" "r = reqs ! j" "q = ?as ! j" using la by (auto simp: in_set_zip)
    then have r: "r \<in> set reqs" by simp
    have q: "q = (matched l now r)\<lparr>pn_slot := pn_slot q\<rparr>"
      "if pn_slot (matched l now r) = SIZE_MAX then pn_slot q \<in> set candidates else pn_slot q = pn_slot (matched l now r)"
      using as list_all2_nthD [of _ ?qs ?as j] j by (auto split: if_splits)
    note m = match_request [OF inv known [OF r] le, folded matched_def]
    have qf: "pn_tokens q = pn_tokens (matched l now r)" "pn_anchor q = pn_anchor (matched l now r)"
      "pn_policy_index q = pn_policy_index (matched l now r)"
      by (subst q(1), simp)+
    have h: "plan_holds (policy_of (active_policies l) (rq_policy_id r)) now (limiter_credit l (unat now) (rq_dim r)) q"
      using m(2) by (simp add: plan_holds_def qf)
    have "unat (pn_slot q) < slot_count l \<and> (if \<exists>i. tracks l r i then tracks l r (unat (pn_slot q))
      else occupied l (unat (pn_slot q)) \<longrightarrow> limiter_credit l (unat now) (entry_dim l (rl_entries l ! unat (pn_slot q))) =
          full_credit (active_policies l) (entry_dim l (rl_entries l ! unat (pn_slot q))))"
    proof (cases "\<exists>i. tracks l r i")
      case True
      then obtain i where i: "tracks l r i" by blast
      then have "pn_slot q = word_of_nat i" using q(2) m(3) word_small(2) tracks_lt [OF inv] by (metis (no_types, lifting))
      then have "unat (pn_slot q) = i" using word_small(1) tracks_lt [OF inv i] by simp
      then show ?thesis using i by (auto simp: tracks_def occupied_def)
    next
      case False
      then have "pn_slot q \<in> set candidates" using q(2) m(4) by auto
      then obtain i where i: "i < slot_count l" "pn_slot q = word_of_nat i" "?av i" using cin by blast
      then have "unat (pn_slot q) = i" using word_small(1) n by simp
      then show ?thesis using i slot_usable_iff [OF inv le i(1)] False by auto
    qed
    then have "chargeable l now r q" using h known [OF r] m(1) by (simp add: chargeable_def qf)
    moreover have "rq_cost r \<le> pn_tokens q" using matched_wait(2) [OF inv ok le r] afford r by (auto simp: qf not_less [symmetric])
    ultimately show "chargeable ?l now r q \<and> rq_cost r \<le> pn_tokens q" by (simp add: later_frame)
  qed
  have d1: "distinct (map (rq_dim \<circ> fst) (zip reqs ?as))" using dims la by (simp flip: map_map)
  have d2: "distinct (map (pn_slot \<circ> snd) (zip reqs ?as))" using as la by (simp flip: map_map)
  have ap: "active_policies ?l = active_policies l" by simp
  note all = commit_all [OF later_inv [OF inv le] _ ch d1 d2, folded commit_later, folded l'_def, unfolded ap]
  have sum: "(\<Sum>(r, q) \<leftarrow> zip reqs ?as. if rq_dim r = x then rq_price (active_policies l) r else 0) =
      (\<Sum>r \<leftarrow> reqs. if rq_dim r = x then rq_price (active_policies l) r else 0)" for x
  proof -
    have mz: "map (\<lambda>(r, q). f r) (zip reqs qs) = map f reqs" if "length qs = length reqs" for f :: "_ \<Rightarrow> nat" and qs :: "plan list"
      using that by (induction qs reqs rule: list_induct2) auto
    show ?thesis by (rule arg_cong [where f = sum_list]) (rule mz [OF la])
  qed
  show "limiter_inv l'" "active_policies l' = active_policies l" "rl_max_keys l' = rl_max_keys l" "rl_last_now l' = now"
    using all by simp_all
  show "limiter_credit l' (unat now) x = limiter_credit l (unat now) x -
      (\<Sum>r \<leftarrow> reqs. if rq_dim r = x then rq_price (active_policies l) r else 0)"
    using all sum [of x] by (simp add: later_frame del: split_paired_All)
qed

lemma check_code:
  "vireo_rate_limiter_check (Some l) now (Some reqs) n (Some d) =
     (if n = 0 then (VIREO_RESULT_INVALID_ARGUMENT, Some l, Some d)
      else if n > 8 then (VIREO_RESULT_RANGE, Some l, Some d)
      else if batch_code (active_policies l) [] reqs \<noteq> VIREO_OK then (batch_code (active_policies l) [] reqs, Some l, Some d)
      else if now < rl_last_now l then (VIREO_RESULT_INVALID_ARGUMENT, Some l, Some d)
      else vireo_rate_limiter_check (Some l) now (Some reqs) n (Some d))"
  if "limiter_inv l" and "unat n = length reqs"
proof -
  have p: "fst (plan_requests l now reqs [0 ..< length reqs] []) = batch_code (active_policies l) [] reqs"
    using plan_requests_eq [OF invD(1) [OF that(1)], of 0 reqs now] by simp
  show ?thesis using p that(2) by (cases "plan_requests l now reqs [0 ..< length reqs] []") (auto simp: vireo_rate_limiter_check_def)
qed

lemma check_refines:
  assumes inv: "limiter_inv l" and n: "unat n = length reqs" "n \<noteq> 0" "n \<le> 8"
    and code: "batch_code (active_policies l) [] reqs = VIREO_OK" and le: "rl_last_now l \<le> now"
  obtains l' d' where "vireo_rate_limiter_check (Some l) now (Some reqs) n (Some d) = (VIREO_OK, Some l', Some d')"
    and "limiter_inv l'" and "active_policies l' = active_policies l" and "rl_max_keys l' = rl_max_keys l"
    and "bucket_check (active_policies l) (slot_count l) (unat now) reqs (limiter_spec l) =
      (rd_outcome d', unat (rd_retry_after_ns d'), limiter_spec l')"
    and "rd_tracked_keys d' = rl_tracked_keys l'"
    and "rd_outcome d' \<noteq> VIREO_RATE_LIMIT_ADMITTED \<Longrightarrow> l' = l\<lparr>rl_last_now := now\<rparr>"
proof -
  let ?ps = "active_policies l" and ?qs = "map (matched l now) reqs" and ?cr = "limiter_credit l (unat now)"
  have ok: "batch_ok l reqs" using code by (auto simp: batch_code_OK batch_ok_def known_request_def)
  have ne: "reqs \<noteq> []" using n(1,2) by (auto simp: unat_eq_zero)
  have cr: "credit_at ?ps (limiter_spec l) (unat now) = ?cr" using credit_at_limiter [OF inv le] by (simp add: fun_eq_iff)
  have pl: "plan_requests l now reqs [0 ..< length reqs] [] = (VIREO_OK, map (init_plan l now) reqs)"
    using plan_requests_eq [OF invD(1) [OF inv], of 0 reqs now] code by (simp add: prod_eq_iff)
  obtain missing retry where w: "fold (weigh_plan l now) (zip reqs ?qs) (0, 0) = (missing, retry)" by (metis surj_pair)
  note wt = weighed [OF inv ok le ne w]
  define candidates where "candidates = pick_candidates l now ?qs missing [0 ..< slot_count l] []"
  have chk: "vireo_rate_limiter_check (Some l) now (Some reqs) n (Some d) =
      (if retry \<noteq> 0
       then (VIREO_OK, Some (l\<lparr>rl_last_now := now\<rparr>), Some \<lparr>rd_outcome = VIREO_RATE_LIMIT_THROTTLED,
         rd_retry_after_ns = retry, rd_tracked_keys = rl_tracked_keys l\<rparr>)
       else if length candidates < missing
       then (VIREO_OK, Some (l\<lparr>rl_last_now := now\<rparr>), Some \<lparr>rd_outcome = VIREO_RATE_LIMIT_CAPACITY,
         rd_retry_after_ns = 0, rd_tracked_keys = rl_tracked_keys l\<rparr>)
       else (let l = fold commit_plan (zip reqs (assign_slots ?qs candidates)) l in
         (VIREO_OK, Some (l\<lparr>rl_last_now := now\<rparr>), Some \<lparr>rd_outcome = VIREO_RATE_LIMIT_ADMITTED,
           rd_retry_after_ns = 0, rd_tracked_keys = rl_tracked_keys l\<rparr>)))"
  proof -
    have "\<not> n > 8" "\<not> now < rl_last_now l" using n(3) le by (simp_all add: not_less)
    then show ?thesis using n(1,2) pl w by (simp add: vireo_rate_limiter_check_def Let_def match_entries_eq candidates_def)
  qed
  show thesis
  proof (cases "retry = 0")
    case False
    then have ex: "\<exists>r \<in> set reqs. ?cr (rq_dim r) < rq_price ?ps r" using wt(3) by blast
    have "bucket_check ?ps (slot_count l) (unat now) reqs (limiter_spec l) =
        (VIREO_RATE_LIMIT_THROTTLED, unat retry, limiter_spec (l\<lparr>rl_last_now := now\<rparr>))"
      unfolding bucket_check_def cr Let_def if_P [OF ex] wt(2) later_spec ..
    then show thesis using that [of "l\<lparr>rl_last_now := now\<rparr>"] chk False later_inv [OF inv le] by simp
  next
    case True
    then have nex: "\<not> (\<exists>r \<in> set reqs. ?cr (rq_dim r) < rq_price ?ps r)" using wt(3) by blast
    let ?free = "length (filter (\<lambda>i. \<not> referenced ?qs (word_of_nat i) \<and> slot_usable l now i) [0 ..< slot_count l])"
    have "length candidates = min missing ?free" by (simp add: candidates_def pick_candidates_eq min.commute)
    then have cap: "length candidates < missing \<longleftrightarrow>
        slot_count l < card {x. ?cr x < full_credit ?ps x \<and> x \<notin> rq_dim ` set reqs} + length reqs"
      using free_slots [OF inv ok le] wt(1) by linarith
    show thesis
    proof (cases "length candidates < missing")
      case full: True
      have "bucket_check ?ps (slot_count l) (unat now) reqs (limiter_spec l) =
          (VIREO_RATE_LIMIT_CAPACITY, 0, limiter_spec (l\<lparr>rl_last_now := now\<rparr>))"
        unfolding bucket_check_def cr Let_def if_not_P [OF nex] if_P [OF full [unfolded cap]] later_spec ..
      then show thesis using that [of "l\<lparr>rl_last_now := now\<rparr>"] chk True full later_inv [OF inv le] by simp
    next
      case fits: False
      have afford: "\<forall>r \<in> set reqs. rq_price ?ps r \<le> ?cr (rq_dim r)" using nex by (auto simp: not_less)
      note cb = charge_batch [OF inv ok le afford candidates_def [unfolded wt(1)] fits [unfolded wt(1)]]
      let ?l = "(fold commit_plan (zip reqs (assign_slots ?qs candidates)) l)\<lparr>rl_last_now := now\<rparr>"
      have "bucket_check ?ps (slot_count l) (unat now) reqs (limiter_spec l) = (VIREO_RATE_LIMIT_ADMITTED, 0, limiter_spec ?l)"
        unfolding bucket_check_def cr Let_def if_not_P [OF nex] if_not_P [OF fits [unfolded cap]]
        using cb(4,5) by (simp add: limiter_spec_def fun_eq_iff)
      then show thesis using that [of ?l] chk True fits cb(1-3) by (simp add: Let_def)
    qed
  qed
qed

subsection \<open>Creation\<close>

lemma check_policies_OK:
  assumes "check_policies ps js = VIREO_OK" and "j \<in> set js"
  shows "policy_ok (ps ! j)" and "k < j \<Longrightarrow> rp_policy_id (ps ! k) \<noteq> rp_policy_id (ps ! j)"
  using assms by (induction js) (auto simp: policy_ok_def list_ex_iff not_less split: if_splits, metis atLeastLessThan_iff le0)

lemma create_OK:
  assumes run: "vireo_rate_limiter_create (Some opts) (Some ps) n now (Some None) h = (VIREO_OK, Some (Some l), h')"
    and n: "unat n \<le> length ps"
  shows "limiter_inv l" and "active_policies l = take (unat n) ps" and "rl_max_keys l = rlo_max_keys opts" and "rl_last_now l = now"
    and "limiter_credit l t x = full_credit (take (unat n) ps) x" and "rl_allocated_bytes l \<le> rlo_max_memory_bytes opts"
    and "heap_live h' = (rl_self l, unat (rl_allocated_bytes l)) # heap_live h" and "rl_allocator l = native_allocator"
proof -
  obtain b total where c: "check_policies ps [0 ..< unat n] = VIREO_OK" "\<not> n > 16" "\<not> rlo_max_keys opts > 4096"
      "\<not> total > rlo_max_memory_bytes opts"
    and a: "allocate_default h total = (Some b, h')"
    and l: "l = \<lparr>rl_max_keys = rlo_max_keys opts, rl_tracked_keys = 0, rl_policy_count = n,
       rl_allocated_bytes = total, rl_max_memory_bytes = rlo_max_memory_bytes opts,
       rl_last_now = now, rl_allocator = native_allocator,
       rl_policies = take (unat n) ps @ replicate (16 - unat n) no_policy,
       rl_entries = replicate (unat (rlo_max_keys opts)) no_entry, rl_self = b\<rparr>"
    using run
    by (auto simp: vireo_rate_limiter_create_def vireo_rate_limiter_create_with_allocator_def Let_def native_allocator_def
        split: if_splits prod.splits option.splits)
  have n16: "unat n \<le> 16" using c(2) by (simp add: word_le_nat_alt not_less)
  show ap: "active_policies l = take (unat n) ps" using n by (simp add: l)
  have none: "\<not> occupied l i" for i by (auto simp: occupied_def l no_entry_def)
  have ok: "\<forall>p \<in> set (take (unat n) ps). policy_ok p"
    using check_policies_OK(1) [OF c(1)] n by (auto simp: in_set_conv_nth)
  have "distinct (map rp_policy_id (take (unat n) ps))"
    unfolding distinct_conv_nth using check_policies_OK(2) [OF c(1)] n
    by (auto simp: nat_neq_iff) (metis atLeastLessThan_iff le0 set_upt)+
  then have "config_ok l" using ok n n16 c(2,3) ap by (simp add: config_ok_def l word_le_nat_alt not_less)
  moreover have "entries_ok l" using none by (simp add: entries_ok_def) (simp add: l)
  ultimately show inv: "limiter_inv l" by (simp add: limiter_inv_def)
  show "limiter_credit l t x = full_credit (take (unat n) ps) x" using limiter_credit_new [OF inv] none ap by simp
  show "rl_max_keys l = rlo_max_keys opts" "rl_last_now l = now" "rl_allocated_bytes l \<le> rlo_max_memory_bytes opts"
    "heap_live h' = (rl_self l, unat (rl_allocated_bytes l)) # heap_live h" "rl_allocator l = native_allocator"
    using c(4) allocate_Some [OF a] by (simp_all add: l not_less)
qed

subsection \<open>Sequences of checks\<close>

type_synonym rate_call = "vireo_monotonic_ns \<times> vireo_rate_limit_request list"
type_synonym 'w rate_answer = "vireo_result + vireo_rate_limit_outcome \<times> 'w"

definition no_decision :: vireo_rate_limit_decision where
  "no_decision = \<lparr>rd_outcome = VIREO_RATE_LIMIT_ADMITTED, rd_retry_after_ns = 0, rd_tracked_keys = 0\<rparr>"

definition limiter_step :: "rate_call \<Rightarrow> vireo_rate_limiter \<Rightarrow> nat rate_answer \<times> vireo_rate_limiter" where
  "limiter_step call l =
     (let (rc, l', d) = vireo_rate_limiter_check (Some l) (fst call) (Some (snd call)) (word_of_nat (length (snd call))) (Some no_decision)
      in (if rc = VIREO_OK then Inr (rd_outcome (the d), unat (rd_retry_after_ns (the d))) else Inl rc, the l'))"

definition bucket_step ::
  "vireo_rate_limit_policy list \<Rightarrow> nat \<Rightarrow> rate_call \<Rightarrow> bucket_spec \<Rightarrow> nat rate_answer \<times> bucket_spec" where
  "bucket_step ps slots call s =
     (let (now, reqs) = call in
      if reqs = [] then (Inl VIREO_RESULT_INVALID_ARGUMENT, s)
      else if length reqs > 8 then (Inl VIREO_RESULT_RANGE, s)
      else if batch_code ps [] reqs \<noteq> VIREO_OK then (Inl (batch_code ps [] reqs), s)
      else if unat now < sp_now s then (Inl VIREO_RESULT_INVALID_ARGUMENT, s)
      else let (out, wait, s') = bucket_check ps slots (unat now) reqs s in (Inr (out, wait), s'))"

lemma limiter_step_refines:
  assumes inv: "limiter_inv l" and len: "length (snd call) < 2 ^ 64"
  shows "limiter_inv (snd (limiter_step call l))" and "active_policies (snd (limiter_step call l)) = active_policies l"
    and "rl_max_keys (snd (limiter_step call l)) = rl_max_keys l"
    and "bucket_step (active_policies l) (slot_count l) call (limiter_spec l) =
      (fst (limiter_step call l), limiter_spec (snd (limiter_step call l)))"
proof -
  obtain now reqs where call: "call = (now, reqs)" by (cases call)
  let ?n = "word_of_nat (length reqs) :: size_t"
  have n: "unat ?n = length reqs" using len call by (simp add: unsigned_of_nat take_bit_nat_eq_self)
  have n0: "?n = 0 \<longleftrightarrow> reqs = []" using n by (metis length_0_conv unat_eq_zero)
  have n8: "?n > 8 \<longleftrightarrow> length reqs > 8" using n by (simp add: word_less_nat_alt)
  have t: "unat now < sp_now (limiter_spec l) \<longleftrightarrow> now < rl_last_now l" by (simp add: limiter_spec_def word_less_nat_alt)
  note code = check_code [OF inv n, of now no_decision]
  let ?good = "?n \<noteq> 0 \<and> \<not> ?n > 8 \<and> batch_code (active_policies l) [] reqs = VIREO_OK \<and> \<not> now < rl_last_now l"
  have "limiter_inv (snd (limiter_step call l)) \<and> active_policies (snd (limiter_step call l)) = active_policies l \<and>
    rl_max_keys (snd (limiter_step call l)) = rl_max_keys l \<and>
    bucket_step (active_policies l) (slot_count l) call (limiter_spec l) = (fst (limiter_step call l), limiter_spec (snd (limiter_step call l)))"
  proof (cases ?good)
    case True
    obtain l' d' where r: "vireo_rate_limiter_check (Some l) now (Some reqs) ?n (Some no_decision) = (VIREO_OK, Some l', Some d')"
      "limiter_inv l'" "active_policies l' = active_policies l" "rl_max_keys l' = rl_max_keys l"
      "bucket_check (active_policies l) (slot_count l) (unat now) reqs (limiter_spec l) =
        (rd_outcome d', unat (rd_retry_after_ns d'), limiter_spec l')"
      using True check_refines [OF inv n, of now no_decision] by (metis not_less)
    have st: "limiter_step call l = (Inr (rd_outcome d', unat (rd_retry_after_ns d')), l')"
      using r(1) by (simp add: limiter_step_def call)
    show ?thesis using r True n0 n8 t unfolding st by (simp add: bucket_step_def call)
  next
    case False
    then have st: "snd (limiter_step call l) = l" and "fst (limiter_step call l) =
        Inl (if reqs = [] then VIREO_RESULT_INVALID_ARGUMENT else if length reqs > 8 then VIREO_RESULT_RANGE
          else if batch_code (active_policies l) [] reqs \<noteq> VIREO_OK then batch_code (active_policies l) [] reqs
          else VIREO_RESULT_INVALID_ARGUMENT)"
      using code n0 n8 by (auto simp: limiter_step_def call split: if_splits)
    then show ?thesis using inv False n0 n8 t by (auto simp: bucket_step_def call)
  qed
  then show "limiter_inv (snd (limiter_step call l))" "active_policies (snd (limiter_step call l)) = active_policies l"
    "rl_max_keys (snd (limiter_step call l)) = rl_max_keys l"
    "bucket_step (active_policies l) (slot_count l) call (limiter_spec l) = (fst (limiter_step call l), limiter_spec (snd (limiter_step call l)))"
    by simp_all
qed

lemma limiter_run_refines:
  assumes "limiter_inv l" and "\<forall>c \<in> set calls. length (snd c) < 2 ^ 64"
  shows "run_calls (bucket_step (active_policies l) (slot_count l)) calls (limiter_spec l) =
    (fst (run_calls limiter_step calls l), limiter_spec (snd (run_calls limiter_step calls l)))"
  using assms
proof (induction calls arbitrary: l)
  case (Cons c calls)
  have "length (snd c) < 2 ^ 64" using Cons.prems(2) by simp
  note s = limiter_step_refines [OF Cons.prems(1) this]
  from Cons.IH [OF s(1)] Cons.prems(2) s(2-4) show ?case by (simp add: Let_def split_def)
qed simp

subsection \<open>Bounded grants\<close>

text \<open>What an admitted batch granted to the bucket \<open>x\<close>, in tokens.\<close>

definition granted :: "u32 \<times> bytes \<Rightarrow> rate_call \<Rightarrow> nat rate_answer \<Rightarrow> nat" where
  "granted x call a =
     (case a of
        Inr (VIREO_RATE_LIMIT_ADMITTED, _) \<Rightarrow> (\<Sum>r \<leftarrow> snd call. if rq_dim r = x then unat (rq_cost r) else 0)
      | _ \<Rightarrow> 0)"

definition granted_between :: "u32 \<times> bytes \<Rightarrow> nat \<Rightarrow> nat \<Rightarrow> rate_call list \<Rightarrow> nat rate_answer list \<Rightarrow> nat" where
  "granted_between x t1 t2 calls as =
     (\<Sum>(c, a) \<leftarrow> zip calls as. if t1 \<le> unat (fst c) \<and> unat (fst c) \<le> t2 then granted x c a else 0)"

lemma price_granted:
  "(\<Sum>r \<leftarrow> reqs. if rq_dim r = x then rq_price ps r else 0) =
   (\<Sum>r \<leftarrow> reqs. if rq_dim r = x then unat (rq_cost r) else 0) * unat (rp_refill_interval_ns (policy_of ps (fst x)))"
proof (induction reqs)
  case (Cons r reqs)
  have "rq_dim r = x \<Longrightarrow> rq_price ps r = unat (rq_cost r) * unat (rp_refill_interval_ns (policy_of ps (fst x)))"
    by (auto simp: rq_dim_def rq_price_def)
  then show ?case using Cons by (auto simp: add_mult_distrib)
qed simp

lemma affordable_sum:
  assumes "distinct (map rq_dim reqs)" and "\<forall>r \<in> set reqs. rq_price ps r \<le> cr (rq_dim r)"
  shows "(\<Sum>r \<leftarrow> reqs. if rq_dim r = x then rq_price ps r else 0) \<le> cr x"
proof (cases "x \<in> rq_dim ` set reqs")
  case False
  then have "(\<Sum>r \<leftarrow> reqs. if rq_dim r = x then rq_price ps r else 0) = 0" by (induction reqs) auto
  then show ?thesis by linarith
next
  case True
  then show ?thesis using assms
  proof (induction reqs)
    case (Cons r reqs)
    show ?case
    proof (cases "rq_dim r = x")
      case eq: True
      then have "x \<notin> rq_dim ` set reqs" using Cons.prems(2) by auto
      then have "(\<Sum>r \<leftarrow> reqs. if rq_dim r = x then rq_price ps r else 0) = 0" by (induction reqs) auto
      moreover have "(\<Sum>r \<leftarrow> r # reqs. if rq_dim r = x then rq_price ps r else 0) =
          rq_price ps r + (\<Sum>r \<leftarrow> reqs. if rq_dim r = x then rq_price ps r else 0)" using eq by simp
      moreover have "rq_price ps r \<le> cr x" using eq Cons.prems(3) by auto
      ultimately show ?thesis by linarith
    qed (use Cons in auto)
  qed simp
qed

text \<open>A check at time \<open>now\<close> grants at most what the credit at that time loses.\<close>

lemma bucket_step_granted:
  assumes "bucket_step ps slots c s = (a, s')"
  shows "granted x c a = 0 \<and> s' = s \<or> sp_now s \<le> unat (fst c) \<and> sp_now s' = unat (fst c) \<and>
    sp_credit s' x + granted x c a * unat (rp_refill_interval_ns (policy_of ps (fst x))) = credit_at ps s (unat (fst c)) x"
proof -
  obtain now reqs where c: "c = (now, reqs)" by (cases c)
  let ?cr = "credit_at ps s (unat now)"
  show ?thesis
  proof (cases "\<exists>e. a = Inl e")
    case True
    then show ?thesis using assms by (auto simp: bucket_step_def c granted_def Let_def split: if_splits prod.splits)
  next
    case False
    then have code: "batch_code ps [] reqs = VIREO_OK" "sp_now s \<le> unat now"
      and a: "\<exists>out w. bucket_check ps slots (unat now) reqs s = (out, w, s') \<and> a = Inr (out, w)"
      using assms by (auto simp: bucket_step_def c Let_def split: if_splits prod.splits)
    have d: "distinct (map rq_dim reqs)" using code(1) by (simp add: batch_code_OK)
    obtain out w where o: "bucket_check ps slots (unat now) reqs s = (out, w, s')" "a = Inr (out, w)" using a by blast
    show ?thesis
    proof (cases "out = VIREO_RATE_LIMIT_ADMITTED")
      case True
      then have "\<forall>r \<in> set reqs. rq_price ps r \<le> ?cr (rq_dim r)"
        and s': "s' = \<lparr>sp_now = unat now, sp_credit = (\<lambda>x. ?cr x - (\<Sum>r \<leftarrow> reqs. if rq_dim r = x then rq_price ps r else 0))\<rparr>"
        using o(1) by (auto simp: bucket_check_def Let_def not_less split: if_splits)
      note le = affordable_sum [OF d this(1), of x]
      show ?thesis using True o(2) code(2) s' le by (simp add: c granted_def price_granted)
    next
      case False
      then have "s' = \<lparr>sp_now = unat now, sp_credit = ?cr\<rparr>" using o(1) by (auto simp: bucket_check_def Let_def split: if_splits)
      moreover have "granted x c a = 0" using False o(2) by (cases out) (simp_all add: granted_def)
      ultimately show ?thesis using code(2) c by simp
    qed
  qed
qed

lemma bucket_run_bounded:
  assumes "t1 \<le> t2"
  shows "granted_between x t1 t2 calls (fst (run_calls (bucket_step ps slots) calls s)) * unat (rp_refill_interval_ns (policy_of ps (fst x))) \<le>
    (if sp_now s < t1 then full_credit ps x + (t2 - t1) else if sp_now s \<le> t2 then sp_credit s x + (t2 - sp_now s) else 0)"
proof (induction calls arbitrary: s)
  case Nil
  then show ?case by (simp add: granted_between_def)
next
  case (Cons c calls)
  let ?I = "unat (rp_refill_interval_ns (policy_of ps (fst x)))" and ?now = "unat (fst c)"
  obtain a s' where st: "bucket_step ps slots c s = (a, s')" by (metis surj_pair)
  define rest where "rest = granted_between x t1 t2 calls (fst (run_calls (bucket_step ps slots) calls s')) * ?I"
  have eq: "granted_between x t1 t2 (c # calls) (fst (run_calls (bucket_step ps slots) (c # calls) s)) * ?I =
      (if t1 \<le> ?now \<and> ?now \<le> t2 then granted x c a * ?I else 0) + rest"
    using st by (simp add: granted_between_def rest_def Let_def split_def add_mult_distrib)
  note IH = Cons.IH [of s', folded rest_def] and g = bucket_step_granted [OF st, of x]
  have cr: "credit_at ps s ?now x \<le> full_credit ps x" "credit_at ps s ?now x \<le> sp_credit s x + (?now - sp_now s)"
    by (simp_all add: credit_at_def)
  from g show ?case
  proof
    assume "granted x c a = 0 \<and> s' = s"
    then have "granted x c a = 0" "s' = s" by auto
    then show ?thesis unfolding eq using IH by (simp only: mult_0 if_cancel add_0)
  next
    assume h: "sp_now s \<le> ?now \<and> sp_now s' = ?now \<and> sp_credit s' x + granted x c a * ?I = credit_at ps s ?now x"
    then show ?thesis unfolding eq using IH cr assms by (auto split: if_splits)
  qed
qed

lemma limiter_run_inv:
  assumes "limiter_inv l" and "\<forall>c \<in> set calls. length (snd c) < 2 ^ 64"
  shows "limiter_inv (snd (run_calls limiter_step calls l)) \<and>
    active_policies (snd (run_calls limiter_step calls l)) = active_policies l \<and>
    rl_max_keys (snd (run_calls limiter_step calls l)) = rl_max_keys l"
  using assms
proof (induction calls arbitrary: l)
  case (Cons c calls)
  have "length (snd c) < 2 ^ 64" using Cons.prems(2) by simp
  note s = limiter_step_refines [OF Cons.prems(1) this]
  from Cons.IH [OF s(1)] Cons.prems(2) s(2,3) show ?case by (simp add: Let_def split_def)
qed simp

lemma bucket_retry:
  assumes t: "unat t = unat now + d" and st: "bucket_step ps slots (now, reqs) s = (Inr (VIREO_RATE_LIMIT_THROTTLED, w), s')"
  shows "if d < w then \<exists>s2. bucket_step ps slots (t, reqs) s' = (Inr (VIREO_RATE_LIMIT_THROTTLED, w - d), s2)
    else \<exists>out s2. bucket_step ps slots (t, reqs) s' = (Inr (out, 0), s2) \<and> out \<noteq> VIREO_RATE_LIMIT_THROTTLED"
proof -
  let ?cr = "credit_at ps s (unat now)" and ?f = "\<lambda>cr r. rq_price ps r - cr (rq_dim r)"
  have b: "reqs \<noteq> []" "\<not> length reqs > 8" "batch_code ps [] reqs = VIREO_OK"
    and o: "bucket_check ps slots (unat now) reqs s = (VIREO_RATE_LIMIT_THROTTLED, w, s')"
    using st by (auto simp: bucket_step_def Let_def split: if_splits prod.splits)
  have s': "s' = \<lparr>sp_now = unat now, sp_credit = ?cr\<rparr>" and w: "w = Max (?f ?cr ` set reqs)"
    using o by (auto simp: bucket_check_def Let_def split: if_splits)
  let ?cr2 = "credit_at ps s' (unat t)"
  have cr2: "?cr2 x = min (full_credit ps x) (?cr x + d)" for x by (simp add: credit_at_def s' t)
  have price: "rq_price ps r \<le> full_credit ps (rq_dim r)" if "r \<in> set reqs" for r
    using b(3) that mult_le_mono1 by (auto simp: batch_code_OK rq_price_def bucket_full_def rq_dim_def word_le_nat_alt)
  have f2: "?f ?cr2 r = ?f ?cr r - d" if "r \<in> set reqs" for r using price [OF that] by (simp add: cr2 min_def)
  have step: "bucket_step ps slots (t, reqs) s' =
      (let (out, wait, s'') = bucket_check ps slots (unat t) reqs s' in (Inr (out, wait), s''))"
    using b t by (simp add: bucket_step_def s')
  have ex: "(\<exists>r \<in> set reqs. ?cr2 (rq_dim r) < rq_price ps r) \<longleftrightarrow> d < w"
  proof -
    have "(\<exists>r \<in> set reqs. ?cr2 (rq_dim r) < rq_price ps r) \<longleftrightarrow> (\<exists>r \<in> set reqs. 0 < ?f ?cr2 r)" by simp
    also have "\<dots> \<longleftrightarrow> (\<exists>r \<in> set reqs. d < ?f ?cr r)" by (rule bex_cong [OF refl]) (simp only: f2 zero_less_diff)
    also have "\<dots> \<longleftrightarrow> d < w" using b(1) unfolding w by (simp add: Max_gr_iff)
    finally show ?thesis .
  qed
  show ?thesis
  proof (cases "d < w")
    case True
    have "Max (?f ?cr2 ` set reqs) = Max ((\<lambda>v. v - d) ` ?f ?cr ` set reqs)" using f2 by (simp add: image_image cong: image_cong)
    also have "\<dots> = w - d" unfolding w
      by (rule mono_Max_commute [symmetric]) (use b(1) in \<open>auto intro!: monoI diff_le_mono\<close>)
    finally show ?thesis using True ex step by (simp add: bucket_check_def Let_def)
  next
    case False
    then show ?thesis using ex step by (auto simp: bucket_check_def Let_def)
  qed
qed

subsection \<open>Properties of the limiter\<close>

text \<open>
  C7. The rate limiter refines token buckets: from creation on, every sequence of checks is answered,
  errors included, as by one continuous token bucket per policy and key that starts full: refills,
  remainders, matching, slot reuse and eviction of full buckets are invisible, a batch is charged as a
  whole or not at all, and the capacity rejection happens exactly when the batch and the buckets that
  are not full do not fit the table.
\<close>

theorem rate_limiter_refines_buckets:
  assumes "vireo_rate_limiter_create (Some opts) (Some ps) n now (Some None) h = (VIREO_OK, Some (Some l), h')"
    and "unat n \<le> length ps" and "\<forall>c \<in> set calls. length (snd c) < 2 ^ 64"
  shows "fst (run_calls limiter_step calls l) =
    fst (run_calls (bucket_step (take (unat n) ps) (unat (rlo_max_keys opts))) calls
      \<lparr>sp_now = unat now, sp_credit = full_credit (take (unat n) ps)\<rparr>)"
proof -
  note c = create_OK [OF assms(1,2)]
  have "limiter_spec l = \<lparr>sp_now = unat now, sp_credit = full_credit (take (unat n) ps)\<rparr>"
    using c(4,5) by (simp add: limiter_spec_def fun_eq_iff)
  then show ?thesis using limiter_run_refines [OF c(1) assms(3)] c(2,3) by simp
qed

text \<open>
  C8. The limit is enforced: whatever the checks, their order and the evictions in between, the
  tokens granted to one key of one policy by all checks with times between \<open>t1\<close> and \<open>t2\<close> are at most
  the burst plus one per full refill interval in that period.
\<close>

theorem rate_limit_enforced:
  assumes "vireo_rate_limiter_create (Some opts) (Some ps) n now (Some None) h = (VIREO_OK, Some (Some l), h')"
    and "unat n \<le> length ps" and "\<forall>c \<in> set calls. length (snd c) < 2 ^ 64"
    and "p \<in> set (take (unat n) ps)" and "t1 \<le> t2"
  shows "granted_between (rp_policy_id p, key) t1 t2 calls (fst (run_calls limiter_step calls l)) \<le>
    unat (rp_burst_tokens p) + (t2 - t1) div unat (rp_refill_interval_ns p)"
proof -
  note c = create_OK [OF assms(1,2)]
  let ?ps = "take (unat n) ps" and ?x = "(rp_policy_id p, key)"
  let ?G = "granted_between ?x t1 t2 calls (fst (run_calls limiter_step calls l))"
  have id: "rp_policy_id p \<in> rp_policy_id ` set ?ps" using assms(4) by simp
  have cfg: "config_ok l" using invD(1) [OF c(1)] .
  have p: "policy_of ?ps (rp_policy_id p) = p"
  proof -
    note f = found_policy [OF cfg, unfolded c(2), OF id]
    have "policy_of ?ps (rp_policy_id p) \<in> set ?ps" using find_policy_props(3) [OF id] nth_mem by metis
    moreover have "inj_on rp_policy_id (set ?ps)" using cfg c(2) by (auto simp: config_ok_def distinct_map)
    ultimately show ?thesis using f(4) assms(4) by (auto simp: inj_on_def)
  qed
  have ok: "policy_ok p" using cfg c(2) assms(4) by (simp add: config_ok_def)
  let ?I = "unat (rp_refill_interval_ns p)"
  have I: "0 < ?I" using policy_ok_bounds(3) [OF ok] .
  have cred: "sp_credit (limiter_spec l) ?x \<le> bucket_full p" using c(5) p by (simp add: limiter_spec_def)
  have "?G * ?I \<le> bucket_full p + (t2 - t1)"
    using bucket_run_bounded [OF assms(5), of ?x calls ?ps "slot_count l" "limiter_spec l"] limiter_run_refines [OF c(1) assms(3)] c(2) p cred
    by (auto split: if_splits)
  then have "?G * ?I div ?I \<le> (unat (rp_burst_tokens p) * ?I + (t2 - t1)) div ?I"
    unfolding bucket_full_def by (rule div_le_mono)
  then show ?thesis using I by (simp add: add.commute)
qed

text \<open>
  C36. The advertised waiting time is exact: when a batch is throttled at time \<open>now\<close> with a waiting
  time \<open>w\<close>, the same batch checked next at \<open>now + d\<close> is throttled again, with waiting time \<open>w - d\<close>, as long as
  \<open>d < w\<close>, and is not throttled from \<open>d = w\<close> on.
\<close>

theorem rate_retry_exact:
  assumes "vireo_rate_limiter_create (Some opts) (Some ps) n t0 (Some None) h = (VIREO_OK, Some (Some l0), h')"
    and "unat n \<le> length ps" and "\<forall>c \<in> set calls. length (snd c) < 2 ^ 64" and "run_calls limiter_step calls l0 = (as, l)"
    and "length reqs < 2 ^ 64" and "limiter_step (now, reqs) l = (Inr (VIREO_RATE_LIMIT_THROTTLED, w), l1)"
    and "unat now + unat d < 2 ^ 64"
  shows "if unat d < w then fst (limiter_step (now + d, reqs) l1) = Inr (VIREO_RATE_LIMIT_THROTTLED, w - unat d)
    else \<exists>out. fst (limiter_step (now + d, reqs) l1) = Inr (out, 0) \<and> out \<noteq> VIREO_RATE_LIMIT_THROTTLED"
proof -
  note c = create_OK [OF assms(1,2)]
  have inv: "limiter_inv l" "active_policies l = active_policies l0" "rl_max_keys l = rl_max_keys l0"
    using limiter_run_inv [OF c(1) assms(3)] assms(4) by simp_all
  let ?ps = "active_policies l" and ?s = "limiter_spec l"
  have len: "length (snd (now, reqs)) < 2 ^ 64" "length (snd (now + d, reqs)) < 2 ^ 64" using assms(5) by simp_all
  note s1 = limiter_step_refines [OF inv(1) len(1), unfolded assms(6) fst_conv snd_conv]
  note s2 = limiter_step_refines [OF s1(1) len(2)]
  have t: "unat (now + d) = unat now + unat d" using unat_add_less [of now d] assms(7) by simp
  show ?thesis
    using bucket_retry [OF t s1(4)] s2(4) s1(2,3) t by (auto simp: prod_eq_iff split: if_splits)
qed

text \<open>
  C37. Errors and rejections of a check on any reachable limiter: an invalid batch is reported with the code
  of the first offending request, a batch is validated before the clock, a failing call leaves limiter
  and decision alone, and a rejected batch (throttled or out of slots) changes nothing but the clock.
\<close>

theorem rate_check_errors:
  assumes "vireo_rate_limiter_create (Some opts) (Some ps) n t0 (Some None) h = (VIREO_OK, Some (Some l0), h')"
    and "unat n \<le> length ps" and "\<forall>c \<in> set calls. length (snd c) < 2 ^ 64" and "run_calls limiter_step calls l0 = (as, l)"
    and "unat m = length reqs" and "vireo_rate_limiter_check (Some l) now (Some reqs) m (Some d) = (rc, out, d')"
  shows "rc = (if m = 0 then VIREO_RESULT_INVALID_ARGUMENT else if m > 8 then VIREO_RESULT_RANGE
      else if batch_code (take (unat n) ps) [] reqs \<noteq> VIREO_OK then batch_code (take (unat n) ps) [] reqs
      else if now < rl_last_now l then VIREO_RESULT_INVALID_ARGUMENT else VIREO_OK) \<and>
    (rc \<noteq> VIREO_OK \<longrightarrow> out = Some l \<and> d' = Some d) \<and>
    (rc = VIREO_OK \<and> rd_outcome (the d') \<noteq> VIREO_RATE_LIMIT_ADMITTED \<longrightarrow> out = Some (l\<lparr>rl_last_now := now\<rparr>))"
proof -
  note c = create_OK [OF assms(1,2)]
  have inv: "limiter_inv l" and ap: "active_policies l = take (unat n) ps"
    using limiter_run_inv [OF c(1) assms(3)] assms(4) c(2) by simp_all
  note code = check_code [OF inv assms(5), of now d, unfolded assms(6) ap]
  show ?thesis
  proof (cases "m \<noteq> 0 \<and> \<not> m > 8 \<and> batch_code (take (unat n) ps) [] reqs = VIREO_OK \<and> \<not> now < rl_last_now l")
    case False
    then show ?thesis using code by (auto split: if_splits)
  next
    case True
    then obtain l' d2 where "vireo_rate_limiter_check (Some l) now (Some reqs) m (Some d) = (VIREO_OK, Some l', Some d2)"
      "rd_outcome d2 \<noteq> VIREO_RATE_LIMIT_ADMITTED \<Longrightarrow> l' = l\<lparr>rl_last_now := now\<rparr>"
      using check_refines [OF inv assms(5), of now d, unfolded ap] by (metis not_less)
    then show ?thesis using True assms(6) by auto
  qed
qed

subsection \<open>A concrete limiter\<close>

definition demo_policies :: "vireo_rate_limit_policy list" where
  "demo_policies = [\<lparr>rp_policy_id = 1, rp_burst_tokens = 3, rp_refill_interval_ns = 10\<rparr>,
     \<lparr>rp_policy_id = 2, rp_burst_tokens = 5, rp_refill_interval_ns = 100\<rparr>]"

definition demo_limiter_created :: "vireo_result \<times> vireo_rate_limiter option option \<times> vireo_heap" where
  "demo_limiter_created = vireo_rate_limiter_create (Some \<lparr>rlo_max_keys = 2, rlo_max_memory_bytes = 4096\<rparr>) (Some demo_policies) 2 1000
     (Some None) demo_heap"

definition demo_limiter :: vireo_rate_limiter where
  "demo_limiter = the (the (fst (snd demo_limiter_created)))"

lemma demo_limiter_OK:
  "vireo_rate_limiter_create (Some \<lparr>rlo_max_keys = 2, rlo_max_memory_bytes = 4096\<rparr>) (Some demo_policies) 2 1000 (Some None) demo_heap =
     (VIREO_OK, Some (Some demo_limiter), snd (snd demo_limiter_created))"
proof -
  have "fst demo_limiter_created = VIREO_OK" by code_simp
  moreover have "\<not> Option.is_none (fst (snd demo_limiter_created))" "\<not> Option.is_none (the (fst (snd demo_limiter_created)))"
    by code_simp+
  ultimately have "demo_limiter_created = (VIREO_OK, Some (Some demo_limiter), snd (snd demo_limiter_created))"
    by (auto simp: demo_limiter_def Option.is_none_def prod_eq_iff)
  then show ?thesis by (simp add: demo_limiter_created_def)
qed

abbreviation demo_key :: bytes where
  "demo_key \<equiv> replicate 32 7"

definition demo_calls :: "rate_call list" where
  "demo_calls = [(1000, [\<lparr>rq_policy_id = 1, rq_key = demo_key, rq_cost = 2\<rparr>, \<lparr>rq_policy_id = 2, rq_key = demo_key, rq_cost = 1\<rparr>]),
     (1000, [\<lparr>rq_policy_id = 9, rq_key = demo_key, rq_cost = 1\<rparr>]),
     (1005, [\<lparr>rq_policy_id = 1, rq_key = demo_key, rq_cost = 2\<rparr>]),
     (1011, [\<lparr>rq_policy_id = 1, rq_key = demo_key, rq_cost = 2\<rparr>])]"

definition demo_answers :: "nat rate_answer list" where
  "demo_answers = [Inr (VIREO_RATE_LIMIT_ADMITTED, 0), Inl VIREO_RESULT_NOT_FOUND, Inr (VIREO_RATE_LIMIT_THROTTLED, 5),
     Inr (VIREO_RATE_LIMIT_ADMITTED, 0)]"

lemma demo_answers_OK: "fst (run_calls limiter_step demo_calls demo_limiter) = demo_answers"
  by code_simp

lemma demo_calls_small: "\<forall>c \<in> set demo_calls. length (snd c) < 2 ^ 64"
  by (simp add: demo_calls_def)

theorem rate_limiter_refines_buckets_witness:
  "demo_answers = fst (run_calls (bucket_step demo_policies 2) demo_calls \<lparr>sp_now = 1000, sp_credit = full_credit demo_policies\<rparr>)"
  using rate_limiter_refines_buckets [OF demo_limiter_OK _ demo_calls_small] demo_answers_OK by (simp add: demo_policies_def)

theorem rate_limit_enforced_witness:
  "granted_between (1, demo_key) 1000 1011 demo_calls demo_answers \<le> 4"
proof -
  let ?p = "\<lparr>rp_policy_id = 1, rp_burst_tokens = 3, rp_refill_interval_ns = 10\<rparr>"
  have "?p \<in> set (take (unat (2 :: size_t)) demo_policies)" by (simp add: demo_policies_def)
  then show ?thesis
    using rate_limit_enforced [OF demo_limiter_OK _ demo_calls_small, of ?p 1000 1011 demo_key] demo_answers_OK by (simp add: demo_policies_def)
qed

theorem rate_retry_exact_witness:
  "\<exists>l1. limiter_step (1005, [\<lparr>rq_policy_id = 1, rq_key = demo_key, rq_cost = 2\<rparr>])
       (snd (run_calls limiter_step (take 2 demo_calls) demo_limiter)) = (Inr (VIREO_RATE_LIMIT_THROTTLED, 5), l1) \<and>
     fst (limiter_step (1007, [\<lparr>rq_policy_id = 1, rq_key = demo_key, rq_cost = 2\<rparr>]) l1) = Inr (VIREO_RATE_LIMIT_THROTTLED, 3)"
proof -
  let ?r = "[\<lparr>rq_policy_id = 1, rq_key = demo_key, rq_cost = 2\<rparr>] :: vireo_rate_limit_request list"
  let ?l = "snd (run_calls limiter_step (take 2 demo_calls) demo_limiter)" and ?now = "1005 :: vireo_monotonic_ns" and ?d = "2 :: vireo_monotonic_ns"
  have "fst (limiter_step (?now, ?r) ?l) = Inr (VIREO_RATE_LIMIT_THROTTLED, 5)" by code_simp
  then have st: "limiter_step (?now, ?r) ?l = (Inr (VIREO_RATE_LIMIT_THROTTLED, 5), snd (limiter_step (?now, ?r) ?l))" by (simp add: prod_eq_iff)
  have small: "\<forall>c \<in> set (take 2 demo_calls). length (snd c) < 2 ^ 64" by (simp add: demo_calls_def)
  have run: "run_calls limiter_step (take 2 demo_calls) demo_limiter = (fst (run_calls limiter_step (take 2 demo_calls) demo_limiter), ?l)" by simp
  have "fst (limiter_step (?now + ?d, ?r) (snd (limiter_step (?now, ?r) ?l))) = Inr (VIREO_RATE_LIMIT_THROTTLED, 3)"
    using rate_retry_exact [OF demo_limiter_OK _ small run _ st, of ?d] by (simp add: demo_policies_def)
  then show ?thesis using st by (intro exI [of _ "snd (limiter_step (?now, ?r) ?l)"]) simp
qed

theorem rate_check_errors_witness:
  "fst (vireo_rate_limiter_check (Some demo_limiter) 999 (Some [\<lparr>rq_policy_id = 1, rq_key = demo_key, rq_cost = 2\<rparr>]) 1 (Some no_decision)) =
     VIREO_RESULT_INVALID_ARGUMENT"
proof -
  let ?r = "[\<lparr>rq_policy_id = 1, rq_key = demo_key, rq_cost = 2\<rparr>] :: vireo_rate_limit_request list"
  let ?v = "vireo_rate_limiter_check (Some demo_limiter) 999 (Some ?r) 1 (Some no_decision)"
  have run: "run_calls limiter_step [] demo_limiter = ([], demo_limiter)" by simp
  have v: "?v = (fst ?v, fst (snd ?v), snd (snd ?v))" by simp
  have b: "batch_code (take (unat (2 :: size_t)) demo_policies) [] ?r = VIREO_OK" by code_simp
  have t: "(999 :: vireo_monotonic_ns) < rl_last_now demo_limiter" by code_simp
  show ?thesis using rate_check_errors [OF demo_limiter_OK _ _ run _ v] b t by (simp add: demo_policies_def)
qed

end
