(* ===== verification/Thread_Ring.thy ===== *)
theory Thread_Ring
  imports Base_Memory
begin

text \<open>
  What the two bounded queues between the threads share: the results of the pthread calls, a ring of
  owner pointers, and the contract of a queue that hands over owners in order.

  The pthread library is outside the sources. Every call of it returns an integer error code, zero
  for success; the model takes the codes of successive calls from a list, so a theorem about all lists
  covers every way in which these calls can fail. A critical section runs from a successful lock to the
  unlock, so an execution of several threads is a sequence of such sections.
\<close>

type_synonym sync_codes = "int list"
type_synonym sync_fn = "sync_codes \<Rightarrow> int \<times> sync_codes"

abbreviation EBUSY :: int where "EBUSY \<equiv> 16"
abbreviation ENOMEM :: int where "ENOMEM \<equiv> 12"

definition sync_call :: sync_fn where
  "sync_call codes = (case codes of [] \<Rightarrow> (0, []) | c # cs \<Rightarrow> (c, cs))"

lemma sync_no_fault: "sync_call [] = (0, [])"
  by (simp add: sync_call_def)

lemma run_calls_Cons:
  "fst (run_calls f (p # ps) s) = fst (f p s) # fst (run_calls f ps (snd (f p s)))"
  "snd (run_calls f (p # ps) s) = snd (run_calls f ps (snd (f p s)))"
  by (simp_all add: Let_def split_def)

subsection \<open>Rings of owners\<close>

definition ring_pos :: "nat \<Rightarrow> nat \<Rightarrow> nat \<Rightarrow> nat" where
  "ring_pos n h k = (h + k) mod n"

definition ring_items :: "'t option list \<Rightarrow> nat \<Rightarrow> nat \<Rightarrow> 't list" where
  "ring_items slots h count = map (\<lambda>k. the (slots ! ring_pos (length slots) h k)) [0 ..< count]"

definition ring_inv :: "'t option list \<Rightarrow> nat \<Rightarrow> nat \<Rightarrow> nat \<Rightarrow> bool" where
  "ring_inv slots h t count \<longleftrightarrow> h < length slots \<and> t = ring_pos (length slots) h count \<and> count \<le> length slots \<and>
     (\<forall>i < length slots. slots ! i \<noteq> None \<longleftrightarrow> (\<exists>k < count. i = ring_pos (length slots) h k))"

lemma ring_pos_lt: "0 < n \<Longrightarrow> ring_pos n h k < n"
  by (simp add: ring_pos_def)

lemma ring_pos_inj:
  assumes "ring_pos n h j = ring_pos n h k" and "j < n" and "k < n"
  shows "j = k"
proof -
  have "a = b" if "a \<le> b" "b < n" "(h + b) mod n = (h + a) mod n" for a b
  proof -
    have "n dvd (h + b) - (h + a)" using that mod_eq_dvd_iff_nat [of "h + a" "h + b" n] by simp
    then show ?thesis using that dvd_imp_le [of n "b - a"] by (cases "b - a = 0") auto
  qed
  from this [of j k] this [of k j] show ?thesis using assms by (cases "j \<le> k") (auto simp: ring_pos_def)
qed

lemma ring_pos_Suc: "0 < n \<Longrightarrow> ring_pos n h (Suc k) = (if ring_pos n h k = n - 1 then 0 else Suc (ring_pos n h k))"
  by (auto simp: ring_pos_def mod_Suc)

lemma ring_pos_shift: "ring_pos n (ring_pos n h 1) k = ring_pos n h (Suc k)"
  by (simp add: ring_pos_def mod_add_left_eq)

lemma length_ring_items [simp]: "length (ring_items slots h count) = count"
  by (simp add: ring_items_def)

lemma ring_push:
  assumes inv: "ring_inv slots h t count" and room: "count < length slots"
  shows "ring_inv (slots[t := Some x]) h (if t = length slots - 1 then 0 else Suc t) (Suc count)"
    and "ring_items (slots[t := Some x]) h (Suc count) = ring_items slots h count @ [x]" and "t < length slots"
proof -
  let ?n = "length slots"
  have n: "0 < ?n" "h < ?n" and t: "t = ring_pos ?n h count"
    and occ: "\<And>i. i < ?n \<Longrightarrow> slots ! i \<noteq> None \<longleftrightarrow> (\<exists>k < count. i = ring_pos ?n h k)"
    using inv room by (auto simp: ring_inv_def)
  show tl: "t < ?n" using t n ring_pos_lt by simp
  have ne: "ring_pos ?n h k \<noteq> t" if "k < count" for k using ring_pos_inj [of ?n h k count] that room t by auto
  have "slots[t := Some x] ! i \<noteq> None \<longleftrightarrow> (\<exists>k < Suc count. i = ring_pos ?n h k)" if "i < ?n" for i
  proof (cases "i = t")
    case True
    then show ?thesis using that t by auto
  next
    case False
    then show ?thesis using occ [OF that] t by (auto simp: less_Suc_eq)
  qed
  then show "ring_inv (slots[t := Some x]) h (if t = ?n - 1 then 0 else Suc t) (Suc count)"
    using n room t ring_pos_Suc [OF n(1), of h count] by (simp add: ring_inv_def)
  show "ring_items (slots[t := Some x]) h (Suc count) = ring_items slots h count @ [x]"
  proof -
    have "map (\<lambda>k. the (slots[t := Some x] ! ring_pos ?n h k)) [0 ..< count] = map (\<lambda>k. the (slots ! ring_pos ?n h k)) [0 ..< count]"
      by (rule map_cong [OF refl]) (simp add: ne [symmetric])
    then show ?thesis using tl t by (simp add: ring_items_def)
  qed
qed

lemma ring_pop:
  assumes inv: "ring_inv slots h t count" and ne: "count \<noteq> 0"
  shows "ring_inv (slots[h := None]) (if h = length slots - 1 then 0 else Suc h) t (count - 1)"
    and "\<exists>x. slots ! h = Some x \<and>
      ring_items slots h count = x # ring_items (slots[h := None]) (if h = length slots - 1 then 0 else Suc h) (count - 1)"
    and "h < length slots"
proof -
  let ?n = "length slots" and ?h = "if h = length slots - 1 then 0 else Suc h"
  obtain c where c: "count = Suc c" using ne by (cases count) auto
  have n: "0 < ?n" "h < ?n" "count \<le> ?n" and t: "t = ring_pos ?n h count"
    and occ: "\<And>i. i < ?n \<Longrightarrow> slots ! i \<noteq> None \<longleftrightarrow> (\<exists>k < count. i = ring_pos ?n h k)"
    using inv by (auto simp: ring_inv_def)
  show "h < ?n" by (rule n(2))
  have h0: "ring_pos ?n h 0 = h" using n by (simp add: ring_pos_def)
  have h1: "?h = ring_pos ?n h 1" using ring_pos_Suc [OF n(1), of h 0] h0 by simp
  have sh: "ring_pos ?n ?h k = ring_pos ?n h (Suc k)" for k unfolding h1 by (rule ring_pos_shift)
  have ne: "ring_pos ?n h (Suc k) \<noteq> h" if "k < c" for k
    using ring_pos_inj [of ?n h "Suc k" 0] that h0 c n(1,3) by (metis Suc_le_eq Suc_less_eq le_trans less_Suc_eq nat.distinct(1) order_less_le_trans)
  have "slots[h := None] ! i \<noteq> None \<longleftrightarrow> (\<exists>k < c. i = ring_pos ?n ?h k)" if "i < ?n" for i
  proof (cases "i = h")
    case True
    then show ?thesis using ne n(2) unfolding sh by (metis nth_list_update_eq)
  next
    case False
    then have "(\<exists>k < count. i = ring_pos ?n h k) \<longleftrightarrow> (\<exists>k < c. i = ring_pos ?n ?h k)"
      using h0 unfolding c sh by (metis Suc_less_eq less_Suc_eq_0_disj)
    then show ?thesis using occ [OF that] False by simp
  qed
  moreover have "t = ring_pos ?n ?h c" using t c sh by simp
  moreover have "?h < ?n" using h1 ring_pos_lt n(1) by simp
  ultimately show "ring_inv (slots[h := None]) ?h t (count - 1)" using c n(3) by (simp add: ring_inv_def)
  have "slots ! h \<noteq> None" using occ [OF n(2)] h0 c by (metis zero_less_Suc)
  then obtain x where x: "slots ! h = Some x" by blast
  have "ring_items slots h count = the (slots ! h) # map (\<lambda>k. the (slots ! ring_pos ?n h (Suc k))) [0 ..< c]"
    unfolding ring_items_def c by (simp add: upt_conv_Cons [of 0 "Suc c"] h0 o_def flip: map_Suc_upt del: upt_Suc)
  also have "map (\<lambda>k. the (slots ! ring_pos ?n h (Suc k))) [0 ..< c] = ring_items (slots[h := None]) ?h (count - 1)"
    unfolding ring_items_def length_list_update sh by (rule map_cong) (simp_all add: c ne [symmetric])
  finally show "\<exists>x. slots ! h = Some x \<and> ring_items slots h count = x # ring_items (slots[h := None]) ?h (count - 1)"
    using x by simp
qed

lemma ring_empty: "0 < n \<Longrightarrow> ring_inv (replicate n None) 0 0 0"
  by (simp add: ring_inv_def ring_pos_def)

text \<open>The next ring index as the code computes it on machine words.\<close>

lemma ring_next_word:
  assumes "unat i < unat (n :: size_t)"
  shows "unat (if i = n - 1 then 0 else i + 1) = (if unat i = unat n - 1 then 0 else Suc (unat i))"
proof -
  have n: "n \<noteq> 0" using assms by (metis not_less0 unat_0)
  have "unat (n - 1) = unat n - 1" using n by (simp add: unat_minus_one)
  then have "i = n - 1 \<longleftrightarrow> unat i = unat n - 1" by (simp add: word_unat_eq_iff)
  moreover have "unat (i + 1) = Suc (unat i)" if "i \<noteq> n - 1"
    using unat_add_less [of i 1] assms unat_lt_64 [of n] by simp
  ultimately show ?thesis by auto
qed

subsection \<open>Hand-over in order\<close>

text \<open>
  The contract of a queue that owners pass through: an operation may take in owners from its caller and
  may give owners to its caller, and what is inside changes accordingly, first in, first out. Over any run
  the owners taken in are the owners given out followed by those still inside: none is lost,
  duplicated or overtaken.
\<close>

locale owner_queue =
  fixes items :: "'s \<Rightarrow> 'a list" and good :: "'s \<Rightarrow> bool" and exec :: "'op \<Rightarrow> 's \<Rightarrow> 'ev \<times> 's"
    and taken :: "'op \<Rightarrow> 'ev \<Rightarrow> 'a list" and given :: "'op \<Rightarrow> 'ev \<Rightarrow> 'a list"
  assumes exec_good: "good s \<Longrightarrow> good (snd (exec p s))"
    and exec_fifo: "good s \<Longrightarrow> items s @ taken p (fst (exec p s)) = given p (fst (exec p s)) @ items (snd (exec p s))"
begin

lemma run_conserves:
  "good s \<Longrightarrow> run_calls exec ps s = (es, s') \<Longrightarrow>
     items s @ concat (map2 taken ps es) = concat (map2 given ps es) @ items s' \<and> good s'"
proof (induction ps arbitrary: s es)
  case (Cons p ps)
  obtain e s1 where x: "exec p s = (e, s1)" by (metis surj_pair)
  obtain es1 where r: "run_calls exec ps s1 = (es1, s')" and es: "es = e # es1"
    using Cons.prems(2) x by (auto simp: Let_def split: prod.splits)
  have g: "good s1" and f: "items s @ taken p e = given p e @ items s1"
    using exec_good [OF Cons.prems(1), of p] exec_fifo [OF Cons.prems(1), of p] x by simp_all
  have "items s @ taken p e @ concat (map2 taken ps es1) = given p e @ items s1 @ concat (map2 taken ps es1)"
    using f by (metis append_assoc)
  then show ?case using Cons.IH [OF g r] by (simp add: es)
qed simp

end

end
