(* ===== verification/Thread_Task_Queue.thy ===== *)
theory Thread_Task_Queue
  imports Thread_Ring
begin

text \<open>
  The bounded task queue, \<^verbatim>\<open>src/thread/task_queue.c\<close>: a ring of task owners under one mutex with
  three modes, rejection counters and an optional condition variable for waiting workers. Tasks are
  values of a type \<open>'t\<close>; an owner variable is an \<open>option\<close>, emptied when its task is handed over. The mutex and
  the condition variable are not part of the state, since every critical section is one step; the
  operations of the code on them are fields that draw an error code.
\<close>

abbreviation VIREO_TASK_QUEUE_MAX_CAPACITY :: size_t where "VIREO_TASK_QUEUE_MAX_CAPACITY \<equiv> 65536"
abbreviation VIREO_TASK_QUEUE_MAX_ALLOCATION_BYTES :: size_t where "VIREO_TASK_QUEUE_MAX_ALLOCATION_BYTES \<equiv> 67108864"

datatype vireo_task_queue_state = VIREO_TASK_QUEUE_OPEN | VIREO_TASK_QUEUE_DRAIN | VIREO_TASK_QUEUE_CANCEL_PENDING

datatype vireo_task_queue_stage = VIREO_TASK_QUEUE_STAGE_NONE | VIREO_TASK_QUEUE_STAGE_LOCK | VIREO_TASK_QUEUE_STAGE_UNLOCK |
  VIREO_TASK_QUEUE_STAGE_WAIT | VIREO_TASK_QUEUE_STAGE_WAKE

record vireo_task_queue_options =
  tqo_capacity :: size_t
  tqo_max_memory_bytes :: size_t

record vireo_task_queue_info =
  tqi_capacity :: size_t
  tqi_count :: size_t
  tqi_allocated_bytes :: size_t
  tqi_max_memory_bytes :: size_t
  tqi_state :: vireo_task_queue_state
  tqi_wait_prepared :: bool

record vireo_task_queue_metrics =
  tqm_depth :: size_t
  tqm_high_watermark :: size_t
  tqm_full_rejections :: u64
  tqm_closed_rejections :: u64
  tqm_rejection_count_saturated :: bool

record vireo_task_queue_transfer_report =
  tqt_stage :: vireo_task_queue_stage
  tqt_transferred :: bool
  tqt_pthread_error :: int

record vireo_task_queue_close_report =
  tqc_stage :: vireo_task_queue_stage
  tqc_changed :: bool
  tqc_pthread_error :: int

record vireo_task_queue_allocator =
  qa_allocate :: "(vireo_heap \<Rightarrow> size_t \<Rightarrow> nat option \<times> vireo_heap) option"
  qa_deallocate :: "(vireo_heap \<Rightarrow> nat \<Rightarrow> bytes \<Rightarrow> vireo_heap) option"

record vireo_task_queue_sync_ops =
  qs_init :: "sync_fn option"
  qs_try_lock :: "sync_fn option"
  qs_unlock :: "sync_fn option"
  qs_destroy :: "sync_fn option"

record vireo_task_queue_wait_ops =
  qw_init :: "sync_fn option"
  qw_lock :: "sync_fn option"
  qw_wait :: "sync_fn option"
  qw_signal :: "sync_fn option"
  qw_broadcast :: "sync_fn option"
  qw_destroy :: "sync_fn option"

record 't vireo_task_queue =
  tq_capacity :: size_t
  tq_count :: size_t
  tq_high_watermark :: size_t
  tq_full_rejections :: u64
  tq_closed_rejections :: u64
  tq_rejection_count_saturated :: bool
  tq_allocated_bytes :: size_t
  tq_max_memory_bytes :: size_t
  tq_allocator :: vireo_task_queue_allocator
  tq_sync :: vireo_task_queue_sync_ops
  tq_head :: size_t
  tq_tail :: size_t
  tq_state :: vireo_task_queue_state
  tq_wait_ops :: vireo_task_queue_wait_ops
  tq_wait_prepared :: bool
  tq_retiring :: bool
  tq_slots :: "'t option list"
  tq_self :: nat

abbreviation sizeof_task_queue :: size_t where "sizeof_task_queue \<equiv> 304"

definition standard_sync :: vireo_task_queue_sync_ops where
  "standard_sync = \<lparr>qs_init = Some sync_call, qs_try_lock = Some sync_call, qs_unlock = Some sync_call, qs_destroy = Some sync_call\<rparr>"

definition standard_wait :: vireo_task_queue_wait_ops where
  "standard_wait = \<lparr>qw_init = Some sync_call, qw_lock = Some sync_call, qw_wait = Some sync_call, qw_signal = Some sync_call,
     qw_broadcast = Some sync_call, qw_destroy = Some sync_call\<rparr>"

text \<open>The condition variable operations before \<open>prepare_wait\<close>: uninitialised memory in the code, never called.\<close>

definition no_wait_ops :: vireo_task_queue_wait_ops where
  "no_wait_ops = \<lparr>qw_init = None, qw_lock = None, qw_wait = None, qw_signal = None, qw_broadcast = None, qw_destroy = None\<rparr>"

subsection \<open>Creation and inspection\<close>

definition vireo_task_queue_create_with_ops ::
  "vireo_task_queue_options option \<Rightarrow> vireo_task_queue_allocator option \<Rightarrow> vireo_task_queue_sync_ops option \<Rightarrow>
   't vireo_task_queue option option \<Rightarrow> sync_codes \<Rightarrow> vireo_heap \<Rightarrow>
   vireo_result \<times> 't vireo_task_queue option option \<times> sync_codes \<times> vireo_heap" where
  "vireo_task_queue_create_with_ops options allocator sync out_queue codes heap =
     (if Option.is_none out_queue \<or> \<not> Option.is_none (the out_queue) \<or> Option.is_none options \<or>
         tqo_capacity (the options) = 0 \<or> tqo_max_memory_bytes (the options) = 0 \<or> Option.is_none allocator \<or>
         Option.is_none (qa_allocate (the allocator)) \<or> Option.is_none (qa_deallocate (the allocator)) \<or> Option.is_none sync \<or>
         Option.is_none (qs_init (the sync)) \<or> Option.is_none (qs_try_lock (the sync)) \<or> Option.is_none (qs_unlock (the sync)) \<or>
         Option.is_none (qs_destroy (the sync))
      then (VIREO_RESULT_INVALID_ARGUMENT, out_queue, codes, heap)
      else
        let snapshot = the options; (result, slots_bytes) = vireo_checked_size_mul (tqo_capacity snapshot) 8 (Some 0) in
        if result \<noteq> VIREO_OK then (result, out_queue, codes, heap)
        else
          let (result, bytes) = vireo_checked_size_add sizeof_task_queue (the slots_bytes) (Some 0) in
          if result \<noteq> VIREO_OK then (result, out_queue, codes, heap)
          else if tqo_capacity snapshot > VIREO_TASK_QUEUE_MAX_CAPACITY \<or>
            tqo_max_memory_bytes snapshot > VIREO_TASK_QUEUE_MAX_ALLOCATION_BYTES \<or> the bytes > tqo_max_memory_bytes snapshot
          then (VIREO_RESULT_RANGE, out_queue, codes, heap)
          else
            let (memory, heap) = the (qa_allocate (the allocator)) heap (the bytes) in
            case memory of
              None \<Rightarrow> (VIREO_RESULT_NO_MEMORY, out_queue, codes, heap)
            | Some block \<Rightarrow>
                let queue = \<lparr>tq_capacity = tqo_capacity snapshot, tq_count = 0, tq_high_watermark = 0, tq_full_rejections = 0,
                      tq_closed_rejections = 0, tq_rejection_count_saturated = False, tq_allocated_bytes = the bytes,
                      tq_max_memory_bytes = tqo_max_memory_bytes snapshot, tq_allocator = the allocator, tq_sync = the sync,
                      tq_head = 0, tq_tail = 0, tq_state = VIREO_TASK_QUEUE_OPEN, tq_wait_ops = no_wait_ops, tq_wait_prepared = False,
                      tq_retiring = False, tq_slots = replicate (unat (tqo_capacity snapshot)) None, tq_self = block\<rparr>;
                    (code, codes) = the (qs_init (tq_sync queue)) codes in
                if code \<noteq> 0
                then (if code = ENOMEM then VIREO_RESULT_NO_MEMORY else VIREO_RESULT_INTERNAL, out_queue, codes,
                  the (qa_deallocate (tq_allocator queue)) heap block [])
                else (VIREO_OK, Some (Some queue), codes, heap))"

definition vireo_task_queue_create ::
  "vireo_task_queue_options option \<Rightarrow> 't vireo_task_queue option option \<Rightarrow> sync_codes \<Rightarrow> vireo_heap \<Rightarrow>
   vireo_result \<times> 't vireo_task_queue option option \<times> sync_codes \<times> vireo_heap" where
  "vireo_task_queue_create options out_queue codes heap =
     vireo_task_queue_create_with_ops options (Some \<lparr>qa_allocate = Some allocate_default, qa_deallocate = Some deallocate_default\<rparr>)
       (Some standard_sync) out_queue codes heap"

definition vireo_task_queue_inspect ::
  "'t vireo_task_queue option \<Rightarrow> vireo_task_queue_info option \<Rightarrow> sync_codes \<Rightarrow> vireo_result \<times> vireo_task_queue_info option \<times> sync_codes" where
  "vireo_task_queue_inspect queue out_info codes =
     (if Option.is_none queue \<or> Option.is_none out_info then (VIREO_RESULT_INVALID_ARGUMENT, out_info, codes)
      else
        let q = the queue in
        if tq_retiring q then (VIREO_RESULT_CANCELLED, out_info, codes)
        else
          let (code, codes) = the (qs_try_lock (tq_sync q)) codes in
          if code \<noteq> 0 then (if code = EBUSY then VIREO_RESULT_BUSY else VIREO_RESULT_INTERNAL, out_info, codes)
          else
            let value = \<lparr>tqi_capacity = tq_capacity q, tqi_count = tq_count q, tqi_allocated_bytes = tq_allocated_bytes q,
                  tqi_max_memory_bytes = tq_max_memory_bytes q, tqi_state = tq_state q, tqi_wait_prepared = tq_wait_prepared q\<rparr>;
                (code, codes) = the (qs_unlock (tq_sync q)) codes in
            if code \<noteq> 0 then (VIREO_RESULT_INTERNAL, out_info, codes) else (VIREO_OK, Some value, codes))"

definition vireo_task_queue_inspect_metrics ::
  "'t vireo_task_queue option \<Rightarrow> vireo_task_queue_metrics option \<Rightarrow> sync_codes \<Rightarrow>
   vireo_result \<times> vireo_task_queue_metrics option \<times> sync_codes" where
  "vireo_task_queue_inspect_metrics queue out_metrics codes =
     (if Option.is_none queue \<or> Option.is_none out_metrics then (VIREO_RESULT_INVALID_ARGUMENT, out_metrics, codes)
      else
        let q = the queue in
        if tq_retiring q then (VIREO_RESULT_CANCELLED, out_metrics, codes)
        else
          let (code, codes) = the (qs_try_lock (tq_sync q)) codes in
          if code \<noteq> 0 then (if code = EBUSY then VIREO_RESULT_BUSY else VIREO_RESULT_INTERNAL, out_metrics, codes)
          else
            let value = \<lparr>tqm_depth = tq_count q, tqm_high_watermark = tq_high_watermark q, tqm_full_rejections = tq_full_rejections q,
                  tqm_closed_rejections = tq_closed_rejections q, tqm_rejection_count_saturated = tq_rejection_count_saturated q\<rparr>;
                (code, codes) = the (qs_unlock (tq_sync q)) codes in
            if code \<noteq> 0 then (VIREO_RESULT_INTERNAL, out_metrics, codes) else (VIREO_OK, Some value, codes))"

definition vireo_task_queue_destroy ::
  "'t vireo_task_queue option option \<Rightarrow> sync_codes \<Rightarrow> vireo_heap \<Rightarrow>
   vireo_result \<times> 't vireo_task_queue option option \<times> sync_codes \<times> vireo_heap" where
  "vireo_task_queue_destroy owner codes heap =
     (case owner of
        None \<Rightarrow> (VIREO_RESULT_INVALID_ARGUMENT, owner, codes, heap)
      | Some None \<Rightarrow> (VIREO_OK, Some None, codes, heap)
      | Some (Some q) \<Rightarrow>
          if tq_count q \<noteq> 0 then (VIREO_RESULT_BUSY, owner, codes, heap)
          else
            let (cond_code, codes, q) =
                  (if tq_wait_prepared q
                   then let (cond_code, codes) = the (qw_destroy (tq_wait_ops q)) codes in
                     (cond_code, codes, if cond_code \<noteq> 0 then q else q\<lparr>tq_wait_prepared := False, tq_retiring := True\<rparr>)
                   else (0, codes, q)) in
            if cond_code \<noteq> 0 then (if cond_code = EBUSY then VIREO_RESULT_BUSY else VIREO_RESULT_INTERNAL, Some (Some q), codes, heap)
            else
              let (code, codes) = the (qs_destroy (tq_sync q)) codes in
              if code \<noteq> 0 then (if code = EBUSY then VIREO_RESULT_BUSY else VIREO_RESULT_INTERNAL, Some (Some q), codes, heap)
              else (VIREO_OK, Some None, codes, the (qa_deallocate (tq_allocator q)) heap (tq_self q) []))"

subsection \<open>Transfers\<close>

datatype transfer_kind = TRANSFER_PUSH | TRANSFER_POP | TRANSFER_TAKE_CANCELLED

definition count_rejection :: "u64 \<Rightarrow> bool \<Rightarrow> u64 \<times> bool" where
  "count_rejection counter saturated = (if counter < UINT64_MAX then (counter + 1, saturated) else (counter, True))"

text \<open>The three pieces of the critical section: a rejection, storing an owner, and taking one.\<close>

definition reject_closed :: "'t vireo_task_queue \<Rightarrow> 't vireo_task_queue" where
  "reject_closed q =
     (let (c, s) = count_rejection (tq_closed_rejections q) (tq_rejection_count_saturated q)
      in q\<lparr>tq_closed_rejections := c, tq_rejection_count_saturated := s\<rparr>)"

definition reject_full :: "'t vireo_task_queue \<Rightarrow> 't vireo_task_queue" where
  "reject_full q =
     (let (c, s) = count_rejection (tq_full_rejections q) (tq_rejection_count_saturated q)
      in q\<lparr>tq_full_rejections := c, tq_rejection_count_saturated := s\<rparr>)"

definition store_task :: "'t \<Rightarrow> 't vireo_task_queue \<Rightarrow> 't vireo_task_queue" where
  "store_task t q =
     (let q = q\<lparr>tq_slots := (tq_slots q)[unat (tq_tail q) := Some t]\<rparr>;
          q = q\<lparr>tq_tail := if tq_tail q = tq_capacity q - 1 then 0 else tq_tail q + 1, tq_count := tq_count q + 1\<rparr>
      in if tq_count q > tq_high_watermark q then q\<lparr>tq_high_watermark := tq_count q\<rparr> else q)"

definition fetch_task :: "'t vireo_task_queue \<Rightarrow> 't option \<times> 't vireo_task_queue" where
  "fetch_task q =
     (tq_slots q ! unat (tq_head q),
      q\<lparr>tq_slots := (tq_slots q)[unat (tq_head q) := None],
        tq_head := if tq_head q = tq_capacity q - 1 then 0 else tq_head q + 1, tq_count := tq_count q - 1\<rparr>)"

definition no_transfer :: vireo_task_queue_transfer_report where
  "no_transfer = \<lparr>tqt_stage = VIREO_TASK_QUEUE_STAGE_NONE, tqt_transferred = False, tqt_pthread_error = 0\<rparr>"

text \<open>The part of \<open>transfer\<close> between lock and signal: result, owner, whether the owner moved, and the queue.\<close>

definition transfer_locked ::
  "'t vireo_task_queue \<Rightarrow> 't option \<Rightarrow> transfer_kind \<Rightarrow> vireo_result \<times> 't option \<times> bool \<times> 't vireo_task_queue" where
  "transfer_locked q owner kind =
     (if kind = TRANSFER_PUSH
      then
        if tq_state q \<noteq> VIREO_TASK_QUEUE_OPEN then (VIREO_RESULT_CANCELLED, owner, False, reject_closed q)
        else if tq_count q = tq_capacity q then (VIREO_RESULT_BUSY, owner, False, reject_full q)
        else (VIREO_OK, None, True, store_task (the owner) q)
      else if kind = TRANSFER_TAKE_CANCELLED \<and> tq_state q \<noteq> VIREO_TASK_QUEUE_CANCEL_PENDING then (VIREO_RESULT_BUSY, owner, False, q)
      else if kind = TRANSFER_POP \<and> tq_state q = VIREO_TASK_QUEUE_CANCEL_PENDING then (VIREO_RESULT_CANCELLED, owner, False, q)
      else if tq_count q = 0
      then (if kind = TRANSFER_POP \<and> tq_state q = VIREO_TASK_QUEUE_DRAIN then VIREO_RESULT_CANCELLED else VIREO_RESULT_NOT_FOUND,
        owner, False, q)
      else let (t, q) = fetch_task q in (VIREO_OK, t, True, q))"

definition transfer ::
  "'t vireo_task_queue option \<Rightarrow> 't option option \<Rightarrow> transfer_kind \<Rightarrow> vireo_task_queue_transfer_report option \<Rightarrow> sync_codes \<Rightarrow>
   vireo_result \<times> 't vireo_task_queue option \<times> 't option option \<times> vireo_task_queue_transfer_report option \<times> sync_codes" where
  "transfer queue owner kind report codes =
     (if Option.is_none report \<or> Option.is_none queue \<or> Option.is_none owner \<or> (kind \<noteq> TRANSFER_PUSH \<and> \<not> Option.is_none (the owner))
      then (VIREO_RESULT_INVALID_ARGUMENT, queue, owner, map_option (\<lambda>_. no_transfer) report, codes)
      else if kind = TRANSFER_PUSH \<and> Option.is_none (the owner)
      then (VIREO_RESULT_NOT_FOUND, queue, owner, Some no_transfer, codes)
      else
        let q = the queue in
        if tq_retiring q then (VIREO_RESULT_CANCELLED, queue, owner, Some no_transfer, codes)
        else
          let (code, codes) = the (qs_try_lock (tq_sync q)) codes in
          if code \<noteq> 0
          then (if code = EBUSY then VIREO_RESULT_BUSY else VIREO_RESULT_INTERNAL, queue, owner,
            Some (no_transfer\<lparr>tqt_stage := VIREO_TASK_QUEUE_STAGE_LOCK, tqt_pthread_error := code\<rparr>), codes)
          else
            let (result, own, moved, q) = transfer_locked q (the owner) kind;
                value = no_transfer\<lparr>tqt_transferred := moved\<rparr>;
                (result, value, codes) =
                  (if kind = TRANSFER_PUSH \<and> moved \<and> tq_wait_prepared q
                   then let (code, codes) = the (qw_signal (tq_wait_ops q)) codes in
                     if code \<noteq> 0
                     then (VIREO_RESULT_INTERNAL, value\<lparr>tqt_stage := VIREO_TASK_QUEUE_STAGE_WAKE, tqt_pthread_error := code\<rparr>, codes)
                     else (result, value, codes)
                   else (result, value, codes));
                (code, codes) = the (qs_unlock (tq_sync q)) codes;
                (result, value) =
                  (if code \<noteq> 0
                   then (VIREO_RESULT_INTERNAL, value\<lparr>tqt_stage := VIREO_TASK_QUEUE_STAGE_UNLOCK, tqt_pthread_error := code\<rparr>)
                   else (result, value))
            in (result, Some q, Some own, Some value, codes))"

definition vireo_task_queue_try_push where
  "vireo_task_queue_try_push queue inout_task report codes = transfer queue inout_task TRANSFER_PUSH report codes"

definition vireo_task_queue_try_pop where
  "vireo_task_queue_try_pop queue out_task report codes = transfer queue out_task TRANSFER_POP report codes"

definition vireo_task_queue_try_take_cancelled where
  "vireo_task_queue_try_take_cancelled queue out_task report codes = transfer queue out_task TRANSFER_TAKE_CANCELLED report codes"

definition no_close :: vireo_task_queue_close_report where
  "no_close = \<lparr>tqc_stage = VIREO_TASK_QUEUE_STAGE_NONE, tqc_changed = False, tqc_pthread_error = 0\<rparr>"

definition vireo_task_queue_close ::
  "'t vireo_task_queue option \<Rightarrow> vireo_task_queue_state \<Rightarrow> vireo_task_queue_close_report option \<Rightarrow> sync_codes \<Rightarrow>
   vireo_result \<times> 't vireo_task_queue option \<times> vireo_task_queue_close_report option \<times> sync_codes" where
  "vireo_task_queue_close queue mode report codes =
     (if Option.is_none report \<or> Option.is_none queue \<or> (mode \<noteq> VIREO_TASK_QUEUE_DRAIN \<and> mode \<noteq> VIREO_TASK_QUEUE_CANCEL_PENDING)
      then (VIREO_RESULT_INVALID_ARGUMENT, queue, map_option (\<lambda>_. no_close) report, codes)
      else
        let q = the queue in
        if tq_retiring q then (VIREO_RESULT_CANCELLED, queue, Some no_close, codes)
        else
          let (code, codes) = the (qs_try_lock (tq_sync q)) codes in
          if code \<noteq> 0
          then (if code = EBUSY then VIREO_RESULT_BUSY else VIREO_RESULT_INTERNAL, queue,
            Some (no_close\<lparr>tqc_stage := VIREO_TASK_QUEUE_STAGE_LOCK, tqc_pthread_error := code\<rparr>), codes)
          else
            let (result, value, q) =
                  (if tq_state q = VIREO_TASK_QUEUE_OPEN
                   then (VIREO_OK, no_close\<lparr>tqc_changed := True\<rparr>, q\<lparr>tq_state := mode\<rparr>)
                   else (if tq_state q = mode then VIREO_OK else VIREO_RESULT_BUSY, no_close, q));
                (result, value, codes) =
                  (if result = VIREO_OK \<and> tq_wait_prepared q
                   then let (code, codes) = the (qw_broadcast (tq_wait_ops q)) codes in
                     if code \<noteq> 0
                     then (VIREO_RESULT_INTERNAL, value\<lparr>tqc_stage := VIREO_TASK_QUEUE_STAGE_WAKE, tqc_pthread_error := code\<rparr>, codes)
                     else (result, value, codes)
                   else (result, value, codes));
                (code, codes) = the (qs_unlock (tq_sync q)) codes;
                (result, value) =
                  (if code \<noteq> 0
                   then (VIREO_RESULT_INTERNAL, value\<lparr>tqc_stage := VIREO_TASK_QUEUE_STAGE_UNLOCK, tqc_pthread_error := code\<rparr>)
                   else (result, value))
            in (result, Some q, Some value, codes))"

subsection \<open>Waiting\<close>

definition vireo_task_queue_prepare_wait_with_ops ::
  "'t vireo_task_queue option \<Rightarrow> vireo_task_queue_wait_ops option \<Rightarrow> sync_codes \<Rightarrow> vireo_result \<times> 't vireo_task_queue option \<times> sync_codes" where
  "vireo_task_queue_prepare_wait_with_ops queue ops codes =
     (if Option.is_none queue \<or> Option.is_none ops \<or> Option.is_none (qw_init (the ops)) \<or> Option.is_none (qw_lock (the ops)) \<or>
         Option.is_none (qw_wait (the ops)) \<or> Option.is_none (qw_signal (the ops)) \<or> Option.is_none (qw_broadcast (the ops)) \<or>
         Option.is_none (qw_destroy (the ops))
      then (VIREO_RESULT_INVALID_ARGUMENT, queue, codes)
      else
        let q = the queue in
        if tq_retiring q then (VIREO_RESULT_CANCELLED, queue, codes)
        else if tq_count q \<noteq> 0 \<or> tq_state q \<noteq> VIREO_TASK_QUEUE_OPEN then (VIREO_RESULT_BUSY, queue, codes)
        else if tq_wait_prepared q then (VIREO_OK, queue, codes)
        else
          let (code, codes) = the (qw_init (the ops)) codes in
          if code \<noteq> 0 then (if code = ENOMEM then VIREO_RESULT_NO_MEMORY else VIREO_RESULT_INTERNAL, queue, codes)
          else (VIREO_OK, Some (q\<lparr>tq_wait_ops := the ops, tq_wait_prepared := True\<rparr>), codes))"

definition vireo_task_queue_prepare_wait ::
  "'t vireo_task_queue option \<Rightarrow> sync_codes \<Rightarrow> vireo_result \<times> 't vireo_task_queue option \<times> sync_codes" where
  "vireo_task_queue_prepare_wait queue codes = vireo_task_queue_prepare_wait_with_ops queue (Some standard_wait) codes"

text \<open>
  The waiting loop. Each \<open>pthread_cond_wait\<close> gives up the mutex, so other threads change the queue: \<open>others\<close>
  lists, for the successive waits, what they do to it before the waiter holds the mutex again. When the
  list ends while the queue is still open and empty the call has not returned: the value is \<open>None\<close>.
\<close>

fun wait_loop ::
  "('t vireo_task_queue \<Rightarrow> 't vireo_task_queue) list \<Rightarrow> sync_codes \<Rightarrow> 't vireo_task_queue \<Rightarrow>
   (int \<times> 't vireo_task_queue \<times> sync_codes) option" where
  "wait_loop others codes q =
     (if tq_count q = 0 \<and> tq_state q = VIREO_TASK_QUEUE_OPEN
      then
        case others of
          [] \<Rightarrow> None
        | f # others \<Rightarrow>
            let (code, codes) = the (qw_wait (tq_wait_ops q)) codes; q = f q in
            if code \<noteq> 0 then Some (code, q, codes) else wait_loop others codes q
      else Some (0, q, codes))"

definition vireo_task_queue_wait_pop ::
  "('t vireo_task_queue \<Rightarrow> 't vireo_task_queue) list \<Rightarrow> 't vireo_task_queue option \<Rightarrow> 't option option \<Rightarrow>
   vireo_task_queue_transfer_report option \<Rightarrow> sync_codes \<Rightarrow>
   (vireo_result \<times> 't vireo_task_queue option \<times> 't option option \<times> vireo_task_queue_transfer_report option \<times> sync_codes) option" where
  "vireo_task_queue_wait_pop others queue out_task report codes =
     (if Option.is_none queue \<or> Option.is_none out_task \<or> Option.is_none report \<or> \<not> Option.is_none (the out_task)
      then Some (VIREO_RESULT_INVALID_ARGUMENT, queue, out_task, map_option (\<lambda>_. no_transfer) report, codes)
      else
        let q = the queue in
        if tq_retiring q then Some (VIREO_RESULT_CANCELLED, queue, out_task, Some no_transfer, codes)
        else if \<not> tq_wait_prepared q then Some (VIREO_RESULT_NOT_FOUND, queue, out_task, Some no_transfer, codes)
        else
          let (code, codes) = the (qw_lock (tq_wait_ops q)) codes in
          if code \<noteq> 0
          then Some (VIREO_RESULT_INTERNAL, queue, out_task,
            Some (no_transfer\<lparr>tqt_stage := VIREO_TASK_QUEUE_STAGE_LOCK, tqt_pthread_error := code\<rparr>), codes)
          else
            case wait_loop others codes q of
              None \<Rightarrow> None
            | Some (code, q, codes) \<Rightarrow>
                let (result, own, value, q) =
                      (if code \<noteq> 0
                       then (VIREO_RESULT_INTERNAL, None,
                         no_transfer\<lparr>tqt_stage := VIREO_TASK_QUEUE_STAGE_WAIT, tqt_pthread_error := code\<rparr>, q)
                       else if tq_state q = VIREO_TASK_QUEUE_CANCEL_PENDING \<or> tq_count q = 0
                       then (VIREO_RESULT_CANCELLED, None, no_transfer, q)
                       else let (t, q) = fetch_task q in (VIREO_OK, t, no_transfer\<lparr>tqt_transferred := True\<rparr>, q));
                    (code, codes) = the (qs_unlock (tq_sync q)) codes;
                    (result, value) =
                      (if code \<noteq> 0
                       then (VIREO_RESULT_INTERNAL, value\<lparr>tqt_stage := VIREO_TASK_QUEUE_STAGE_UNLOCK, tqt_pthread_error := code\<rparr>)
                       else (result, value))
                in Some (result, Some q, Some own, Some value, codes))"

end
