(* ===== verification/Thread_Task_Flow.thy ===== *)
theory Thread_Task_Flow
  imports Thread_Task_Queue
begin

text \<open>
  The task queue in use. Whatever the pthread calls return, tasks pass through it in order and each has
  exactly one owner; when they succeed, the queue behaves as a bounded list with a mode; and a
  closed queue drains: waiting workers receive what is left and are then told to stop.
\<close>

subsection \<open>Operations as steps\<close>

datatype 't tq_op = TQ_Push 't | TQ_Pop | TQ_Take_Cancelled | TQ_Close vireo_task_queue_state | TQ_Prepare | TQ_Wait_Pop

text \<open>An event carries the result, whether an owner moved, and the caller's owner variable afterwards.\<close>

datatype 't tq_event = TQ_Event vireo_result bool "'t option" | TQ_Blocked

type_synonym 't tq_run = "'t vireo_task_queue \<times> sync_codes"

definition transfer_event ::
  "vireo_result \<times> 't vireo_task_queue option \<times> 't option option \<times> vireo_task_queue_transfer_report option \<times> sync_codes \<Rightarrow>
   't tq_event \<times> 't tq_run" where
  "transfer_event r = (case r of (rc, q, own, rep, codes) \<Rightarrow> (TQ_Event rc (tqt_transferred (the rep)) (the own), (the q, codes)))"

fun tq_exec :: "'t tq_op \<Rightarrow> 't tq_run \<Rightarrow> 't tq_event \<times> 't tq_run" where
  "tq_exec (TQ_Push t) (q, codes) = transfer_event (vireo_task_queue_try_push (Some q) (Some (Some t)) (Some no_transfer) codes)"
| "tq_exec TQ_Pop (q, codes) = transfer_event (vireo_task_queue_try_pop (Some q) (Some None) (Some no_transfer) codes)"
| "tq_exec TQ_Take_Cancelled (q, codes) =
     transfer_event (vireo_task_queue_try_take_cancelled (Some q) (Some None) (Some no_transfer) codes)"
| "tq_exec (TQ_Close m) (q, codes) =
     (case vireo_task_queue_close (Some q) m (Some no_close) codes of
        (rc, q, rep, codes) \<Rightarrow> (TQ_Event rc (tqc_changed (the rep)) None, (the q, codes)))"
| "tq_exec TQ_Prepare (q, codes) =
     (case vireo_task_queue_prepare_wait (Some q) codes of (rc, q, codes) \<Rightarrow> (TQ_Event rc False None, (the q, codes)))"
| "tq_exec TQ_Wait_Pop (q, codes) =
     (case vireo_task_queue_wait_pop [] (Some q) (Some None) (Some no_transfer) codes of
        None \<Rightarrow> (TQ_Blocked, (q, codes))
      | Some r \<Rightarrow> transfer_event r)"

fun tq_taken :: "'t tq_op \<Rightarrow> 't tq_event \<Rightarrow> 't list" where
  "tq_taken (TQ_Push t) (TQ_Event rc True own) = [t]"
| "tq_taken _ _ = []"

fun tq_given :: "'t tq_op \<Rightarrow> 't tq_event \<Rightarrow> 't list" where
  "tq_given (TQ_Push t) _ = []"
| "tq_given _ (TQ_Event rc moved (Some t)) = [t]"
| "tq_given _ _ = []"

subsection \<open>Invariant\<close>

definition tq_items :: "'t vireo_task_queue \<Rightarrow> 't list" where
  "tq_items q = ring_items (tq_slots q) (unat (tq_head q)) (unat (tq_count q))"

definition tq_inv :: "'t vireo_task_queue \<Rightarrow> bool" where
  "tq_inv q \<longleftrightarrow> ring_inv (tq_slots q) (unat (tq_head q)) (unat (tq_tail q)) (unat (tq_count q)) \<and>
     length (tq_slots q) = unat (tq_capacity q) \<and> tq_count q \<le> tq_high_watermark q \<and> tq_high_watermark q \<le> tq_capacity q"

lemma tq_items_length: "length (tq_items q) = unat (tq_count q)"
  by (simp add: tq_items_def)

lemma store_task_ok:
  assumes inv: "tq_inv q" and room: "tq_count q \<noteq> tq_capacity q"
  shows "tq_inv (store_task t q)" and "tq_items (store_task t q) = tq_items q @ [t]"
proof -
  have r: "ring_inv (tq_slots q) (unat (tq_head q)) (unat (tq_tail q)) (unat (tq_count q))"
    and len: "length (tq_slots q) = unat (tq_capacity q)"
    and hw: "tq_count q \<le> tq_high_watermark q" "tq_high_watermark q \<le> tq_capacity q"
    using inv by (simp_all add: tq_inv_def)
  have "unat (tq_count q) \<le> unat (tq_capacity q)" using r len by (simp add: ring_inv_def)
  then have c: "unat (tq_count q) < length (tq_slots q)" using room len by (metis le_neq_implies_less word_unat_eq_iff)
  note p = ring_push(1,2) [OF r c, of t] and tlen = ring_push(3) [OF r c]
  have cnt: "unat (tq_count q + 1) = Suc (unat (tq_count q))"
    using unat_add_less [of "tq_count q" 1] c len unat_lt_64 [of "tq_capacity q"] by simp
  note tl = ring_next_word [of "tq_tail q" "tq_capacity q", OF tlen [unfolded len]]
  have le: "tq_count q + 1 \<le> tq_capacity q" using cnt c len by (simp add: word_le_nat_alt)
  show "tq_items (store_task t q) = tq_items q @ [t]"
    using p(2) cnt by (simp add: tq_items_def store_task_def Let_def)
  show "tq_inv (store_task t q)"
    using p(1) tl cnt len hw le by (auto simp: tq_inv_def store_task_def Let_def not_less split: if_splits)
qed

lemma fetch_task_ok:
  assumes inv: "tq_inv q" and ne: "tq_count q \<noteq> 0"
  obtains t q' where "fetch_task q = (Some t, q')" and "tq_inv q'" and "tq_items q = t # tq_items q'"
    and "tq_state q' = tq_state q" and "tq_capacity q' = tq_capacity q" and "tq_wait_prepared q' = tq_wait_prepared q"
    and "tq_sync q' = tq_sync q" and "tq_wait_ops q' = tq_wait_ops q" and "tq_retiring q' = tq_retiring q"
proof -
  have r: "ring_inv (tq_slots q) (unat (tq_head q)) (unat (tq_tail q)) (unat (tq_count q))"
    and len: "length (tq_slots q) = unat (tq_capacity q)"
    and hw: "tq_count q \<le> tq_high_watermark q" "tq_high_watermark q \<le> tq_capacity q"
    using inv by (simp_all add: tq_inv_def)
  have c: "unat (tq_count q) \<noteq> 0" using ne by (simp add: unat_eq_zero)
  note p = ring_pop [OF r c]
  have cnt: "unat (tq_count q - 1) = unat (tq_count q) - 1" using ne by (simp add: unat_minus_one)
  note hd = ring_next_word [of "tq_head q" "tq_capacity q", OF p(3) [unfolded len]]
  obtain t where t: "tq_slots q ! unat (tq_head q) = Some t" "ring_items (tq_slots q) (unat (tq_head q)) (unat (tq_count q)) =
      t # ring_items ((tq_slots q)[unat (tq_head q) := None])
        (if unat (tq_head q) = length (tq_slots q) - 1 then 0 else Suc (unat (tq_head q))) (unat (tq_count q) - 1)"
    using p(2) by blast
  have le: "tq_count q - 1 \<le> tq_high_watermark q" using cnt hw by (simp add: word_le_nat_alt)
  let ?q = "snd (fetch_task q)"
  show thesis
  proof (rule that [of t ?q])
    show "fetch_task q = (Some t, ?q)" using t(1) by (simp add: fetch_task_def)
    show "tq_inv ?q" using p(1) hd cnt len hw le by (simp add: tq_inv_def fetch_task_def)
    show "tq_items q = t # tq_items ?q" using t(2) hd cnt len by (simp add: tq_items_def fetch_task_def)
  qed (simp_all add: fetch_task_def)
qed

lemma reject_ok:
  "tq_inv q \<Longrightarrow> tq_inv (reject_closed q)" "tq_items (reject_closed q) = tq_items q"
  "tq_inv q \<Longrightarrow> tq_inv (reject_full q)" "tq_items (reject_full q) = tq_items q"
  by (simp_all add: tq_inv_def tq_items_def reject_closed_def reject_full_def count_rejection_def Let_def)

subsection \<open>Transfers conserve tasks\<close>

lemma transfer_locked_ok:
  assumes inv: "tq_inv q" and own: "kind = TRANSFER_PUSH \<longleftrightarrow> own \<noteq> None" and tl: "transfer_locked q own kind = (rc, own', moved, q')"
  shows "tq_inv q'"
    and "tq_items q @ (if kind = TRANSFER_PUSH \<and> moved then [the own] else []) =
      (if kind \<noteq> TRANSFER_PUSH \<and> moved then [the own'] else []) @ tq_items q'"
    and "own' = (if moved then if kind = TRANSFER_PUSH then None else Some (hd (tq_items q)) else own)"
proof -
  have "tq_inv q' \<and> tq_items q @ (if kind = TRANSFER_PUSH \<and> moved then [the own] else []) =
      (if kind \<noteq> TRANSFER_PUSH \<and> moved then [the own'] else []) @ tq_items q' \<and>
      own' = (if moved then if kind = TRANSFER_PUSH then None else Some (hd (tq_items q)) else own)"
  proof (cases "kind = TRANSFER_PUSH")
    case True
    then show ?thesis using tl inv store_task_ok [OF inv] by (auto simp: transfer_locked_def reject_ok split: if_splits)
  next
    case False
    show ?thesis
    proof (cases moved)
      case True
      then have ne: "tq_count q \<noteq> 0" and f: "fetch_task q = (own', q')"
        using tl False by (auto simp: transfer_locked_def Let_def split: if_splits prod.splits)
      obtain t q1 where t: "fetch_task q = (Some t, q1)" "tq_inv q1" "tq_items q = t # tq_items q1" by (rule fetch_task_ok [OF inv ne])
      then show ?thesis using f True False by simp
    next
      case False
      then show ?thesis using tl inv \<open>kind \<noteq> TRANSFER_PUSH\<close>
        by (auto simp: transfer_locked_def Let_def split: if_splits prod.splits)
    qed
  qed
  then show "tq_inv q'" "tq_items q @ (if kind = TRANSFER_PUSH \<and> moved then [the own] else []) =
      (if kind \<noteq> TRANSFER_PUSH \<and> moved then [the own'] else []) @ tq_items q'"
    "own' = (if moved then if kind = TRANSFER_PUSH then None else Some (hd (tq_items q)) else own)"
    by simp_all
qed

lemma transfer_cases:
  assumes own: "kind = TRANSFER_PUSH \<longleftrightarrow> own \<noteq> None"
    and tr: "transfer (Some q) (Some own) kind (Some rep) codes = (rc, out, own', rep', codes')"
  obtains (unchanged) "out = Some q" and "own' = Some own" and "rep' \<noteq> None" and "\<not> tqt_transferred (the rep')"
  | (locked) rc1 own1 moved q1 where "transfer_locked q own kind = (rc1, own1, moved, q1)" and "out = Some q1" and "own' = Some own1"
    and "rep' \<noteq> None" and "tqt_transferred (the rep') = moved"
proof -
  obtain rc1 own1 moved q1 where l: "transfer_locked q own kind = (rc1, own1, moved, q1)" by (metis prod_cases4)
  have "out = Some q \<and> own' = Some own \<and> rep' \<noteq> None \<and> \<not> tqt_transferred (the rep') \<or>
      out = Some q1 \<and> own' = Some own1 \<and> rep' \<noteq> None \<and> tqt_transferred (the rep') = moved"
    using tr own l
    by (auto simp: transfer_def no_transfer_def Let_def Option.is_none_def split: if_splits prod.splits)
  then show thesis using unchanged locked [OF l] by blast
qed

lemma transfer_event_ok:
  assumes inv: "tq_inv q" and own: "kind = TRANSFER_PUSH \<longleftrightarrow> own \<noteq> None"
    and ex: "transfer_event (transfer (Some q) (Some own) kind (Some rep) codes) = (e, (q', codes'))"
  shows "\<exists>rc moved own'. e = TQ_Event rc moved own' \<and> tq_inv q' \<and>
    tq_items q @ (if kind = TRANSFER_PUSH \<and> moved then [the own] else []) =
      (if kind \<noteq> TRANSFER_PUSH \<and> moved then [the own'] else []) @ tq_items q' \<and>
    own' = (if moved then if kind = TRANSFER_PUSH then None else Some (hd (tq_items q)) else own)"
proof -
  obtain rc out own' rep' c where tr: "transfer (Some q) (Some own) kind (Some rep) codes = (rc, out, own', rep', c)" by (metis prod_cases5)
  then have e: "e = TQ_Event rc (tqt_transferred (the rep')) (the own')" "q' = the out" using ex by (simp_all add: transfer_event_def)
  from own tr show ?thesis
  proof (cases rule: transfer_cases)
    case unchanged
    then show ?thesis using e inv by auto
  next
    case (locked rc1 own1 moved q1)
    then show ?thesis using e transfer_locked_ok [OF inv own locked(1)] by auto
  qed
qed

lemma close_ok:
  assumes "tq_inv q" and "vireo_task_queue_close (Some q) m (Some rep) codes = (rc, out, rep', codes')"
  shows "out \<noteq> None \<and> tq_inv (the out) \<and> tq_items (the out) = tq_items q"
proof -
  have "out = Some q \<or> out = Some (q\<lparr>tq_state := m\<rparr>)"
    using assms(2) by (auto simp: vireo_task_queue_close_def Let_def Option.is_none_def split: if_splits prod.splits)
  then show ?thesis using assms(1) by (auto simp: tq_inv_def tq_items_def)
qed

lemma prepare_ok:
  assumes "tq_inv q" and "vireo_task_queue_prepare_wait (Some q) codes = (rc, out, codes')"
  shows "out \<noteq> None \<and> tq_inv (the out) \<and> tq_items (the out) = tq_items q"
proof -
  have "out = Some q \<or> out = Some (q\<lparr>tq_wait_ops := standard_wait, tq_wait_prepared := True\<rparr>)"
    using assms(2) by (auto simp: vireo_task_queue_prepare_wait_def vireo_task_queue_prepare_wait_with_ops_def Let_def split: if_splits prod.splits)
  then show ?thesis using assms(1) by (auto simp: tq_inv_def tq_items_def)
qed

lemma wait_pop_cases:
  assumes w: "vireo_task_queue_wait_pop [] (Some q) (Some None) (Some rep) codes = Some (rc, out, own', rep', codes')"
  obtains (unchanged) "out = Some q" and "own' = Some None" and "rep' \<noteq> None" and "\<not> tqt_transferred (the rep')"
  | (fetched) t q1 where "tq_count q \<noteq> 0" and "fetch_task q = (t, q1)" and "out = Some q1" and "own' = Some t" and "rep' \<noteq> None"
    and "tqt_transferred (the rep')"
proof -
  obtain t q1 where f: "fetch_task q = (t, q1)" by (metis surj_pair)
  have "out = Some q \<and> own' = Some None \<and> rep' \<noteq> None \<and> \<not> tqt_transferred (the rep') \<or>
      tq_count q \<noteq> 0 \<and> out = Some q1 \<and> own' = Some t \<and> rep' \<noteq> None \<and> tqt_transferred (the rep')"
    using w f
    by (auto simp: vireo_task_queue_wait_pop_def no_transfer_def Let_def split: if_splits prod.splits option.splits)
  then show thesis using unchanged fetched [OF _ f] by blast
qed

lemma tq_exec_ok:
  assumes inv: "tq_inv q" and ex: "tq_exec p (q, codes) = (e, (q', codes'))"
  shows "tq_inv q' \<and> tq_items q @ tq_taken p e = tq_given p e @ tq_items q'"
proof (cases p)
  case (TQ_Push t)
  then show ?thesis
    using transfer_event_ok [OF inv, of TRANSFER_PUSH "Some t" no_transfer codes e q' codes'] ex
    by (auto simp: vireo_task_queue_try_push_def split: if_splits)
next
  case TQ_Pop
  then show ?thesis
    using transfer_event_ok [OF inv, of TRANSFER_POP None no_transfer codes e q' codes'] ex
    by (auto simp: vireo_task_queue_try_pop_def split: if_splits)
next
  case TQ_Take_Cancelled
  then show ?thesis
    using transfer_event_ok [OF inv, of TRANSFER_TAKE_CANCELLED None no_transfer codes e q' codes'] ex
    by (auto simp: vireo_task_queue_try_take_cancelled_def split: if_splits)
next
  case (TQ_Close m)
  obtain rc out rep c where r: "vireo_task_queue_close (Some q) m (Some no_close) codes = (rc, out, rep, c)" by (metis prod_cases4)
  then show ?thesis using ex TQ_Close close_ok [OF inv r] by auto
next
  case TQ_Prepare
  obtain rc out c where r: "vireo_task_queue_prepare_wait (Some q) codes = (rc, out, c)" by (metis prod_cases3)
  then show ?thesis using ex TQ_Prepare prepare_ok [OF inv r] by auto
next
  case TQ_Wait_Pop
  show ?thesis
  proof (cases "vireo_task_queue_wait_pop [] (Some q) (Some None) (Some no_transfer) codes")
    case None
    then show ?thesis using ex TQ_Wait_Pop inv by auto
  next
    case (Some r)
    obtain rc out own' rep' c where r: "r = (rc, out, own', rep', c)" by (metis prod_cases5)
    have e: "e = TQ_Event rc (tqt_transferred (the rep')) (the own')" "q' = the out"
      using ex TQ_Wait_Pop Some r by (simp_all add: transfer_event_def)
    from Some [unfolded r] show ?thesis
    proof (cases rule: wait_pop_cases)
      case unchanged
      then show ?thesis using e inv TQ_Wait_Pop by auto
    next
      case (fetched t q1)
      obtain t' q2 where "fetch_task q = (Some t', q2)" "tq_inv q2" "tq_items q = t' # tq_items q2" by (rule fetch_task_ok [OF inv fetched(1)])
      then show ?thesis using e TQ_Wait_Pop fetched by auto
    qed
  qed
qed

interpretation task_flow: owner_queue "\<lambda>s. tq_items (fst s)" "\<lambda>s. tq_inv (fst s)" tq_exec tq_taken tq_given
proof
  fix s :: "'a tq_run" and p :: "'a tq_op"
  obtain q codes where s: "s = (q, codes)" by (cases s)
  obtain e q' codes' where x: "tq_exec p (q, codes) = (e, (q', codes'))" by (metis surj_pair)
  show "tq_inv (fst s) \<Longrightarrow> tq_inv (fst (snd (tq_exec p s)))"
    and "tq_inv (fst s) \<Longrightarrow> tq_items (fst s) @ tq_taken p (fst (tq_exec p s)) =
      tq_given p (fst (tq_exec p s)) @ tq_items (fst (snd (tq_exec p s)))"
    using tq_exec_ok [OF _ x] x s by simp_all
qed

subsection \<open>Creation\<close>

definition tq_ready :: "'t vireo_task_queue \<Rightarrow> bool" where
  "tq_ready q \<longleftrightarrow> tq_inv q \<and> tq_sync q = standard_sync \<and> (tq_wait_prepared q \<longrightarrow> tq_wait_ops q = standard_wait) \<and> \<not> tq_retiring q"

lemma tq_create_OK:
  assumes "vireo_task_queue_create (Some opts) (Some None) codes h = (VIREO_OK, Some (Some q), codes', h')"
  shows "tq_ready q" and "tq_items q = []" and "tq_state q = VIREO_TASK_QUEUE_OPEN" and "\<not> tq_wait_prepared q"
    and "tq_capacity q = tqo_capacity opts" and "tq_capacity q \<noteq> 0"
proof -
  obtain b bytes where cap: "tqo_capacity opts \<noteq> 0" and q: "q = \<lparr>tq_capacity = tqo_capacity opts, tq_count = 0, tq_high_watermark = 0, tq_full_rejections = 0,
      tq_closed_rejections = 0, tq_rejection_count_saturated = False, tq_allocated_bytes = bytes,
      tq_max_memory_bytes = tqo_max_memory_bytes opts,
      tq_allocator = \<lparr>qa_allocate = Some allocate_default, qa_deallocate = Some deallocate_default\<rparr>, tq_sync = standard_sync,
      tq_head = 0, tq_tail = 0, tq_state = VIREO_TASK_QUEUE_OPEN, tq_wait_ops = no_wait_ops, tq_wait_prepared = False,
      tq_retiring = False, tq_slots = replicate (unat (tqo_capacity opts)) None, tq_self = b\<rparr>"
    using assms
    by (auto simp: vireo_task_queue_create_def vireo_task_queue_create_with_ops_def Let_def split: if_splits prod.splits option.splits)
  have "0 < unat (tqo_capacity opts)" using cap by (simp add: unat_gt_0)
  then show "tq_ready q" using ring_empty by (simp add: tq_ready_def tq_inv_def q)
  show "tq_items q = []" "tq_state q = VIREO_TASK_QUEUE_OPEN" "\<not> tq_wait_prepared q" "tq_capacity q = tqo_capacity opts" "tq_capacity q \<noteq> 0"
    using cap by (simp_all add: q tq_items_def ring_items_def)
qed

subsection \<open>Specification\<close>

record 't tq_spec =
  qp_items :: "'t list"
  qp_mode :: vireo_task_queue_state
  qp_capacity :: nat
  qp_prepared :: bool

fun spec_exec :: "'t tq_op \<Rightarrow> 't tq_spec \<Rightarrow> 't tq_event \<times> 't tq_spec" where
  "spec_exec (TQ_Push t) s =
     (if qp_mode s \<noteq> VIREO_TASK_QUEUE_OPEN then (TQ_Event VIREO_RESULT_CANCELLED False (Some t), s)
      else if length (qp_items s) = qp_capacity s then (TQ_Event VIREO_RESULT_BUSY False (Some t), s)
      else (TQ_Event VIREO_OK True None, s\<lparr>qp_items := qp_items s @ [t]\<rparr>))"
| "spec_exec TQ_Pop s =
     (if qp_mode s = VIREO_TASK_QUEUE_CANCEL_PENDING then (TQ_Event VIREO_RESULT_CANCELLED False None, s)
      else case qp_items s of
        [] \<Rightarrow> (TQ_Event (if qp_mode s = VIREO_TASK_QUEUE_DRAIN then VIREO_RESULT_CANCELLED else VIREO_RESULT_NOT_FOUND) False None, s)
      | t # ts \<Rightarrow> (TQ_Event VIREO_OK True (Some t), s\<lparr>qp_items := ts\<rparr>))"
| "spec_exec TQ_Take_Cancelled s =
     (if qp_mode s \<noteq> VIREO_TASK_QUEUE_CANCEL_PENDING then (TQ_Event VIREO_RESULT_BUSY False None, s)
      else case qp_items s of
        [] \<Rightarrow> (TQ_Event VIREO_RESULT_NOT_FOUND False None, s)
      | t # ts \<Rightarrow> (TQ_Event VIREO_OK True (Some t), s\<lparr>qp_items := ts\<rparr>))"
| "spec_exec (TQ_Close m) s =
     (if m = VIREO_TASK_QUEUE_OPEN then (TQ_Event VIREO_RESULT_INVALID_ARGUMENT False None, s)
      else if qp_mode s = VIREO_TASK_QUEUE_OPEN then (TQ_Event VIREO_OK True None, s\<lparr>qp_mode := m\<rparr>)
      else (TQ_Event (if qp_mode s = m then VIREO_OK else VIREO_RESULT_BUSY) False None, s))"
| "spec_exec TQ_Prepare s =
     (if qp_items s \<noteq> [] \<or> qp_mode s \<noteq> VIREO_TASK_QUEUE_OPEN then (TQ_Event VIREO_RESULT_BUSY False None, s)
      else (TQ_Event VIREO_OK False None, s\<lparr>qp_prepared := True\<rparr>))"
| "spec_exec TQ_Wait_Pop s =
     (if \<not> qp_prepared s then (TQ_Event VIREO_RESULT_NOT_FOUND False None, s)
      else if qp_mode s = VIREO_TASK_QUEUE_CANCEL_PENDING then (TQ_Event VIREO_RESULT_CANCELLED False None, s)
      else case qp_items s of
        [] \<Rightarrow> if qp_mode s = VIREO_TASK_QUEUE_OPEN then (TQ_Blocked, s) else (TQ_Event VIREO_RESULT_CANCELLED False None, s)
      | t # ts \<Rightarrow> (TQ_Event VIREO_OK True (Some t), s\<lparr>qp_items := ts\<rparr>))"

definition tq_abs :: "'t vireo_task_queue \<Rightarrow> 't tq_spec" where
  "tq_abs q = \<lparr>qp_items = tq_items q, qp_mode = tq_state q, qp_capacity = unat (tq_capacity q), qp_prepared = tq_wait_prepared q\<rparr>"

lemma standard_ops:
  "qs_try_lock standard_sync = Some sync_call" "qs_unlock standard_sync = Some sync_call" "qs_init standard_sync = Some sync_call"
  "qw_init standard_wait = Some sync_call" "qw_lock standard_wait = Some sync_call" "qw_wait standard_wait = Some sync_call"
  "qw_signal standard_wait = Some sync_call" "qw_broadcast standard_wait = Some sync_call" "qw_destroy standard_wait = Some sync_call"
  by (simp_all add: standard_sync_def standard_wait_def)

lemmas no_fault = sync_no_fault standard_ops

lemma count_items: "tq_count q = 0 \<longleftrightarrow> tq_items q = []"
  by (metis length_0_conv tq_items_length unat_eq_zero)

lemma full_items: "tq_inv q \<Longrightarrow> tq_count q = tq_capacity q \<longleftrightarrow> length (tq_items q) = unat (tq_capacity q)"
  by (simp add: tq_items_length word_unat_eq_iff)

lemma store_frame:
  "tq_sync (store_task t q) = tq_sync q" "tq_wait_prepared (store_task t q) = tq_wait_prepared q" "tq_wait_ops (store_task t q) = tq_wait_ops q"
  "tq_retiring (store_task t q) = tq_retiring q" "tq_state (store_task t q) = tq_state q" "tq_capacity (store_task t q) = tq_capacity q"
  by (simp_all add: store_task_def Let_def)

lemma reject_frame:
  "tq_sync (reject_full q) = tq_sync q" "tq_wait_prepared (reject_full q) = tq_wait_prepared q" "tq_wait_ops (reject_full q) = tq_wait_ops q"
  "tq_retiring (reject_full q) = tq_retiring q" "tq_state (reject_full q) = tq_state q" "tq_capacity (reject_full q) = tq_capacity q"
  "tq_sync (reject_closed q) = tq_sync q" "tq_wait_prepared (reject_closed q) = tq_wait_prepared q" "tq_wait_ops (reject_closed q) = tq_wait_ops q"
  "tq_retiring (reject_closed q) = tq_retiring q" "tq_state (reject_closed q) = tq_state q" "tq_capacity (reject_closed q) = tq_capacity q"
  by (simp_all add: reject_full_def reject_closed_def count_rejection_def Let_def)

lemma transfer_no_fault:
  assumes r: "tq_ready q" and own: "kind = TRANSFER_PUSH \<longleftrightarrow> own \<noteq> None"
    and tl: "transfer_locked q own kind = (rc, own', moved, q')"
    and fr: "tq_sync q' = tq_sync q" "tq_wait_prepared q' = tq_wait_prepared q" "tq_wait_ops q' = tq_wait_ops q"
  shows "transfer_event (transfer (Some q) (Some own) kind (Some rep) []) = (TQ_Event rc moved own', (q', []))"
  using r own tl fr
  by (auto simp: transfer_def tq_ready_def Let_def no_fault no_transfer_def transfer_event_def Option.is_none_def)

lemma tq_exec_refines:
  assumes r: "tq_ready q"
  shows "\<exists>q'. tq_exec p (q, []) = (fst (spec_exec p (tq_abs q)), (q', [])) \<and> tq_ready q' \<and> tq_abs q' = snd (spec_exec p (tq_abs q))"
proof -
  have inv: "tq_inv q" using r by (simp add: tq_ready_def)
  have take: "\<exists>t q1. tq_items q = t # tq_items q1 \<and> fetch_task q = (Some t, q1) \<and> tq_ready q1 \<and>
      tq_abs q1 = (tq_abs q)\<lparr>qp_items := tq_items q1\<rparr> \<and>
      tq_sync q1 = tq_sync q \<and> tq_wait_prepared q1 = tq_wait_prepared q \<and> tq_wait_ops q1 = tq_wait_ops q" if "tq_count q \<noteq> 0"
    by (rule fetch_task_ok [OF inv that]) (use r in \<open>auto simp: tq_ready_def tq_abs_def\<close>)
  show ?thesis
  proof (cases p)
    case (TQ_Push t)
    note tr = transfer_no_fault [OF r, of TRANSFER_PUSH "Some t" _ _ _ _ no_transfer]
    consider "tq_state q \<noteq> VIREO_TASK_QUEUE_OPEN" | "tq_state q = VIREO_TASK_QUEUE_OPEN" "tq_count q = tq_capacity q"
      | "tq_state q = VIREO_TASK_QUEUE_OPEN" "tq_count q \<noteq> tq_capacity q" by blast
    then show ?thesis
    proof cases
      case 1
      then show ?thesis using tr [of VIREO_RESULT_CANCELLED "Some t" False "reject_closed q"] TQ_Push r
        by (auto simp: transfer_locked_def vireo_task_queue_try_push_def tq_abs_def tq_ready_def reject_ok reject_frame)
    next
      case 2
      then show ?thesis using tr [of VIREO_RESULT_BUSY "Some t" False "reject_full q"] TQ_Push r full_items [OF inv]
        by (auto simp: transfer_locked_def vireo_task_queue_try_push_def tq_abs_def tq_ready_def reject_ok reject_frame)
    next
      case 3
      then show ?thesis using tr [of VIREO_OK None True "store_task t q"] TQ_Push r full_items [OF inv] store_task_ok [OF inv 3(2)]
        by (auto simp: transfer_locked_def vireo_task_queue_try_push_def tq_abs_def tq_ready_def store_frame)
    qed
  next
    case TQ_Pop
    note tr = transfer_no_fault [OF r, of TRANSFER_POP None _ _ _ _ no_transfer]
    show ?thesis
    proof (cases "tq_state q = VIREO_TASK_QUEUE_CANCEL_PENDING \<or> tq_count q = 0")
      case True
      then show ?thesis
        using tr [of "if tq_state q = VIREO_TASK_QUEUE_OPEN then VIREO_RESULT_NOT_FOUND else VIREO_RESULT_CANCELLED" None False q] TQ_Pop r
          count_items [of q] by (cases "tq_state q") (auto simp: transfer_locked_def vireo_task_queue_try_pop_def tq_abs_def)
    next
      case False
      then obtain t q1 where "tq_items q = t # tq_items q1" "fetch_task q = (Some t, q1)" "tq_ready q1"
        "tq_abs q1 = (tq_abs q)\<lparr>qp_items := tq_items q1\<rparr>"
        "tq_sync q1 = tq_sync q" "tq_wait_prepared q1 = tq_wait_prepared q" "tq_wait_ops q1 = tq_wait_ops q" using take by blast
      then show ?thesis using tr [of VIREO_OK "Some t" True q1] False TQ_Pop
        by (auto simp: transfer_locked_def vireo_task_queue_try_pop_def) (auto simp: tq_abs_def)
    qed
  next
    case TQ_Take_Cancelled
    note tr = transfer_no_fault [OF r, of TRANSFER_TAKE_CANCELLED None _ _ _ _ no_transfer]
    show ?thesis
    proof (cases "tq_state q \<noteq> VIREO_TASK_QUEUE_CANCEL_PENDING \<or> tq_count q = 0")
      case True
      then show ?thesis
        using tr [of "if tq_state q \<noteq> VIREO_TASK_QUEUE_CANCEL_PENDING then VIREO_RESULT_BUSY else VIREO_RESULT_NOT_FOUND" None False q]
          TQ_Take_Cancelled r count_items [of q]
        by (auto simp: transfer_locked_def vireo_task_queue_try_take_cancelled_def tq_abs_def)
    next
      case False
      then obtain t q1 where "tq_items q = t # tq_items q1" "fetch_task q = (Some t, q1)" "tq_ready q1"
        "tq_abs q1 = (tq_abs q)\<lparr>qp_items := tq_items q1\<rparr>"
        "tq_sync q1 = tq_sync q" "tq_wait_prepared q1 = tq_wait_prepared q" "tq_wait_ops q1 = tq_wait_ops q" using take by blast
      then show ?thesis using tr [of VIREO_OK "Some t" True q1] False TQ_Take_Cancelled
        by (auto simp: transfer_locked_def vireo_task_queue_try_take_cancelled_def) (auto simp: tq_abs_def)
    qed
  next
    case (TQ_Close m)
    then show ?thesis using r
      by (cases m; cases "tq_state q") (auto simp: vireo_task_queue_close_def Let_def tq_ready_def no_fault tq_abs_def no_close_def tq_inv_def tq_items_def)
  next
    case TQ_Prepare
    then show ?thesis using r count_items [of q]
      by (auto simp: vireo_task_queue_prepare_wait_def vireo_task_queue_prepare_wait_with_ops_def Let_def tq_ready_def no_fault tq_abs_def
          tq_inv_def tq_items_def)
  next
    case TQ_Wait_Pop
    show ?thesis
    proof (cases "tq_count q = 0 \<or> tq_state q = VIREO_TASK_QUEUE_CANCEL_PENDING \<or> \<not> tq_wait_prepared q")
      case True
      then show ?thesis using TQ_Wait_Pop r count_items [of q]
        by (cases "tq_state q")
          (auto simp: vireo_task_queue_wait_pop_def Let_def tq_ready_def no_fault tq_abs_def no_transfer_def transfer_event_def split: list.splits)
    next
      case False
      then obtain t q1 where "tq_items q = t # tq_items q1" "fetch_task q = (Some t, q1)" "tq_ready q1"
        "tq_abs q1 = (tq_abs q)\<lparr>qp_items := tq_items q1\<rparr>"
        "tq_sync q1 = tq_sync q" "tq_wait_prepared q1 = tq_wait_prepared q" "tq_wait_ops q1 = tq_wait_ops q" using take by blast
      then show ?thesis using False TQ_Wait_Pop r
        by (auto simp: vireo_task_queue_wait_pop_def Let_def tq_ready_def no_fault no_transfer_def transfer_event_def) (auto simp: tq_abs_def)
    qed
  qed
qed

lemma tq_run_refines:
  assumes "tq_ready q" and "run_calls tq_exec ps (q, []) = (es, (q', codes'))"
  shows "run_calls spec_exec ps (tq_abs q) = (es, tq_abs q') \<and> tq_ready q' \<and> codes' = []"
  using assms
proof (induction ps arbitrary: q es)
  case (Cons p ps)
  obtain q1 where q1: "tq_exec p (q, []) = (fst (spec_exec p (tq_abs q)), (q1, []))" "tq_ready q1" "tq_abs q1 = snd (spec_exec p (tq_abs q))"
    using tq_exec_refines [OF Cons.prems(1)] by blast
  obtain es1 where r: "run_calls tq_exec ps (q1, []) = (es1, (q', codes'))" and es: "es = fst (spec_exec p (tq_abs q)) # es1"
    using Cons.prems(2) q1(1) by (auto simp: Let_def split: prod.splits)
  then show ?case using Cons.IH [OF q1(2) r] q1(3) by (simp add: Let_def split_def)
qed simp

subsection \<open>Properties of the task queue\<close>

text \<open>
  What an event tells the caller: its owner variable was emptied exactly when a pushed task went in, and
  filled exactly when a task came out.
\<close>

fun tq_owner_ok :: "'t tq_op \<Rightarrow> 't tq_event \<Rightarrow> bool" where
  "tq_owner_ok (TQ_Push t) (TQ_Event rc moved own) \<longleftrightarrow> own = (if moved then None else Some t)"
| "tq_owner_ok (TQ_Close m) e \<longleftrightarrow> True"
| "tq_owner_ok p (TQ_Event rc moved own) \<longleftrightarrow> (moved \<longleftrightarrow> own \<noteq> None)"
| "tq_owner_ok p TQ_Blocked \<longleftrightarrow> p = TQ_Wait_Pop"

lemma tq_exec_owner:
  assumes inv: "tq_inv q" and ex: "tq_exec p (q, codes) = (e, (q', codes'))"
  shows "tq_owner_ok p e"
proof (cases p)
  case (TQ_Push t)
  then show ?thesis
    using transfer_event_ok [OF inv, of TRANSFER_PUSH "Some t" no_transfer codes e q' codes'] ex by (auto simp: vireo_task_queue_try_push_def)
next
  case TQ_Pop
  then show ?thesis
    using transfer_event_ok [OF inv, of TRANSFER_POP None no_transfer codes e q' codes'] ex by (auto simp: vireo_task_queue_try_pop_def)
next
  case TQ_Take_Cancelled
  then show ?thesis
    using transfer_event_ok [OF inv, of TRANSFER_TAKE_CANCELLED None no_transfer codes e q' codes'] ex
    by (auto simp: vireo_task_queue_try_take_cancelled_def)
next
  case (TQ_Close m)
  then show ?thesis by simp
next
  case TQ_Prepare
  then show ?thesis using ex by (auto split: prod.splits)
next
  case TQ_Wait_Pop
  show ?thesis
  proof (cases "vireo_task_queue_wait_pop [] (Some q) (Some None) (Some no_transfer) codes")
    case None
    then show ?thesis using ex TQ_Wait_Pop by auto
  next
    case (Some r)
    obtain rc out own' rep' c where r: "r = (rc, out, own', rep', c)" by (metis prod_cases5)
    have e: "e = TQ_Event rc (tqt_transferred (the rep')) (the own')" using ex TQ_Wait_Pop Some r by (simp add: transfer_event_def)
    from Some [unfolded r] show ?thesis
    proof (cases rule: wait_pop_cases)
      case unchanged
      then show ?thesis using e TQ_Wait_Pop by auto
    next
      case (fetched t q1)
      obtain t' q2 where "fetch_task q = (Some t', q2)" by (rule fetch_task_ok [OF inv fetched(1)])
      then show ?thesis using e TQ_Wait_Pop fetched by auto
    qed
  qed
qed

lemma tq_run_owner:
  assumes "tq_inv q" and "run_calls tq_exec ps (q, codes) = (es, s')"
  shows "list_all2 tq_owner_ok ps es"
  using assms
proof (induction ps arbitrary: q codes es)
  case (Cons p ps)
  obtain e q1 c1 where x: "tq_exec p (q, codes) = (e, (q1, c1))" by (metis surj_pair)
  obtain es1 where r: "run_calls tq_exec ps (q1, c1) = (es1, s')" and es: "es = e # es1"
    using Cons.prems(2) x by (auto simp: Let_def split: prod.splits)
  then show ?case using Cons.IH [OF _ r] tq_exec_ok [OF Cons.prems(1) x] tq_exec_owner [OF Cons.prems(1) x] by simp
qed simp


text \<open>
  C10. When the pthread calls succeed, the queue refines a bounded list with a mode: every operation answers
  as the specification does, which rejects pushes once closed or full, keeps a draining queue open for
  pops, gives a cancelled queue back only through its own operation, and never changes a chosen mode.
\<close>

theorem task_queue_refines:
  assumes "vireo_task_queue_create (Some opts) (Some None) codes0 h = (VIREO_OK, Some (Some q), codes1, h')"
    and "run_calls tq_exec ops (q, []) = (es, (q', codes'))"
  shows "run_calls spec_exec ops
      \<lparr>qp_items = [], qp_mode = VIREO_TASK_QUEUE_OPEN, qp_capacity = unat (tqo_capacity opts), qp_prepared = False\<rparr> =
    (es, \<lparr>qp_items = tq_items q', qp_mode = tq_state q', qp_capacity = unat (tqo_capacity opts), qp_prepared = tq_wait_prepared q'\<rparr>)"
proof -
  note c = tq_create_OK [OF assms(1)]
  have cap: "qp_capacity (snd (run_calls spec_exec ps s)) = qp_capacity s" for ps :: "'a tq_op list" and s
  proof (induction ps arbitrary: s)
    case (Cons p ps)
    have "qp_capacity (snd (spec_exec p s)) = qp_capacity s" by (cases p) (auto split: list.splits)
    then show ?case using Cons by (simp add: Let_def split_def)
  qed simp
  note r = tq_run_refines [OF c(1) assms(2)]
  have "qp_capacity (tq_abs q') = qp_capacity (tq_abs q)" using cap [of ops "tq_abs q"] r by simp
  then show ?thesis using r c(2-5) by (simp add: tq_abs_def)
qed


subsection \<open>A concrete queue\<close>

definition demo_tq :: "vireo_result \<times> nat vireo_task_queue option option \<times> sync_codes \<times> vireo_heap" where
  "demo_tq = vireo_task_queue_create (Some \<lparr>tqo_capacity = 2, tqo_max_memory_bytes = 4096\<rparr>) (Some None) [] demo_heap"

definition demo_queue :: "nat vireo_task_queue" where
  "demo_queue = the (the (fst (snd demo_tq)))"

lemma demo_tq_OK:
  "vireo_task_queue_create (Some \<lparr>tqo_capacity = 2, tqo_max_memory_bytes = 4096\<rparr>) (Some None) [] demo_heap =
     (VIREO_OK, Some (Some demo_queue), fst (snd (snd demo_tq)), snd (snd (snd demo_tq)))"
proof -
  have "fst demo_tq = VIREO_OK" by code_simp
  moreover have "\<not> Option.is_none (fst (snd demo_tq))" "\<not> Option.is_none (the (fst (snd demo_tq)))" by code_simp+
  ultimately have "demo_tq = (VIREO_OK, Some (Some demo_queue), fst (snd (snd demo_tq)), snd (snd (snd demo_tq)))"
    by (auto simp: demo_queue_def Option.is_none_def prod_eq_iff)
  then show ?thesis by (simp add: demo_tq_def)
qed

definition demo_tq_ops :: "nat tq_op list" where
  "demo_tq_ops = [TQ_Prepare, TQ_Push 5, TQ_Push 6, TQ_Push 7, TQ_Pop, TQ_Push 8]"


theorem task_queue_refines_witness:
  "fst (run_calls spec_exec demo_tq_ops \<lparr>qp_items = [], qp_mode = VIREO_TASK_QUEUE_OPEN, qp_capacity = 2, qp_prepared = False\<rparr>) =
     fst (run_calls tq_exec demo_tq_ops (demo_queue, []))"
proof -
  obtain es q' codes' where run: "run_calls tq_exec demo_tq_ops (demo_queue, []) = (es, (q', codes'))" by (metis surj_pair)
  then show ?thesis using task_queue_refines [OF demo_tq_OK run] by simp
qed


end
