(* ===== verification/Thread_Completion_Queue.thy ===== *)
theory Thread_Completion_Queue
  imports Thread_Ring
begin

text \<open>
  The completion queue, \<^verbatim>\<open>src/thread/completion_queue.c\<close>, through which the workers hand results back to the
  reactor: many producers, one consumer. It differs from the task queue in what it waits for (a
  producer waits for room) and in its modes (open, or closed for producers). Conventions are those
  of the task queue.
\<close>

abbreviation VIREO_COMPLETION_QUEUE_MAX_CAPACITY :: size_t where "VIREO_COMPLETION_QUEUE_MAX_CAPACITY \<equiv> 65536"
abbreviation VIREO_COMPLETION_QUEUE_MAX_ALLOCATION_BYTES :: size_t where "VIREO_COMPLETION_QUEUE_MAX_ALLOCATION_BYTES \<equiv> 67108864"

datatype vireo_completion_queue_transfer_stage = VIREO_COMPLETION_QUEUE_TRANSFER_NONE | VIREO_COMPLETION_QUEUE_TRANSFER_LOCK |
  VIREO_COMPLETION_QUEUE_TRANSFER_UNLOCK | VIREO_COMPLETION_QUEUE_TRANSFER_WAIT | VIREO_COMPLETION_QUEUE_TRANSFER_WAKE

datatype vireo_completion_queue_close_stage = VIREO_COMPLETION_QUEUE_CLOSE_NONE | VIREO_COMPLETION_QUEUE_CLOSE_LOCK |
  VIREO_COMPLETION_QUEUE_CLOSE_UNLOCK | VIREO_COMPLETION_QUEUE_CLOSE_WAKE

record vireo_completion_queue_options =
  cqo_capacity :: size_t
  cqo_max_memory_bytes :: size_t

record vireo_completion_queue_info =
  cqi_capacity :: size_t
  cqi_count :: size_t
  cqi_allocated_bytes :: size_t
  cqi_max_memory_bytes :: size_t
  cqi_closed :: bool
  cqi_wait_prepared :: bool

record vireo_completion_queue_metrics =
  cqm_depth :: size_t
  cqm_high_watermark :: size_t
  cqm_full_rejections :: u64
  cqm_closed_rejections :: u64
  cqm_rejection_count_saturated :: bool

record vireo_completion_queue_transfer_report =
  cqt_stage :: vireo_completion_queue_transfer_stage
  cqt_transferred :: bool
  cqt_pthread_error :: int

record vireo_completion_queue_close_report =
  cqc_stage :: vireo_completion_queue_close_stage
  cqc_changed :: bool
  cqc_pthread_error :: int

record vireo_completion_queue_allocator =
  ca_allocate :: "(vireo_heap \<Rightarrow> size_t \<Rightarrow> nat option \<times> vireo_heap) option"
  ca_deallocate :: "(vireo_heap \<Rightarrow> nat \<Rightarrow> bytes \<Rightarrow> vireo_heap) option"

record vireo_completion_queue_sync =
  cs_init :: "sync_fn option"
  cs_try_lock :: "sync_fn option"
  cs_unlock :: "sync_fn option"
  cs_destroy :: "sync_fn option"

record vireo_completion_queue_wait_ops =
  cw_init :: "sync_fn option"
  cw_lock :: "sync_fn option"
  cw_wait :: "sync_fn option"
  cw_signal :: "sync_fn option"
  cw_broadcast :: "sync_fn option"
  cw_destroy :: "sync_fn option"

record 't vireo_completion_queue =
  cq_capacity :: size_t
  cq_allocated_bytes :: size_t
  cq_max_memory_bytes :: size_t
  cq_allocator :: vireo_completion_queue_allocator
  cq_sync :: vireo_completion_queue_sync
  cq_head :: size_t
  cq_tail :: size_t
  cq_count :: size_t
  cq_high_watermark :: size_t
  cq_full_rejections :: u64
  cq_closed_rejections :: u64
  cq_rejection_count_saturated :: bool
  cq_closed :: bool
  cq_wait_ops :: vireo_completion_queue_wait_ops
  cq_wait_prepared :: bool
  cq_retiring :: bool
  cq_slots :: "'t option list"
  cq_self :: nat

abbreviation sizeof_completion_queue :: size_t where "sizeof_completion_queue \<equiv> 296"

definition cq_standard_sync :: vireo_completion_queue_sync where
  "cq_standard_sync = \<lparr>cs_init = Some sync_call, cs_try_lock = Some sync_call, cs_unlock = Some sync_call, cs_destroy = Some sync_call\<rparr>"

definition cq_standard_wait :: vireo_completion_queue_wait_ops where
  "cq_standard_wait = \<lparr>cw_init = Some sync_call, cw_lock = Some sync_call, cw_wait = Some sync_call, cw_signal = Some sync_call,
     cw_broadcast = Some sync_call, cw_destroy = Some sync_call\<rparr>"

definition cq_no_wait_ops :: vireo_completion_queue_wait_ops where
  "cq_no_wait_ops = \<lparr>cw_init = None, cw_lock = None, cw_wait = None, cw_signal = None, cw_broadcast = None, cw_destroy = None\<rparr>"

subsection \<open>Creation and inspection\<close>

definition vireo_completion_queue_create_with_ops ::
  "vireo_completion_queue_options option \<Rightarrow> vireo_completion_queue_allocator option \<Rightarrow> vireo_completion_queue_sync option \<Rightarrow>
   't vireo_completion_queue option option \<Rightarrow> sync_codes \<Rightarrow> vireo_heap \<Rightarrow>
   vireo_result \<times> 't vireo_completion_queue option option \<times> sync_codes \<times> vireo_heap" where
  "vireo_completion_queue_create_with_ops options allocator sync out_queue codes heap =
     (if Option.is_none out_queue \<or> \<not> Option.is_none (the out_queue) \<or> Option.is_none options \<or>
         cqo_capacity (the options) = 0 \<or> cqo_max_memory_bytes (the options) = 0 \<or> Option.is_none allocator \<or>
         Option.is_none (ca_allocate (the allocator)) \<or> Option.is_none (ca_deallocate (the allocator)) \<or> Option.is_none sync \<or>
         Option.is_none (cs_init (the sync)) \<or> Option.is_none (cs_try_lock (the sync)) \<or> Option.is_none (cs_unlock (the sync)) \<or>
         Option.is_none (cs_destroy (the sync))
      then (VIREO_RESULT_INVALID_ARGUMENT, out_queue, codes, heap)
      else
        let capacity = cqo_capacity (the options); budget = cqo_max_memory_bytes (the options);
            (result, slot_bytes) = vireo_checked_size_mul capacity 8 (Some 0) in
        if result \<noteq> VIREO_OK then (result, out_queue, codes, heap)
        else
          let (result, allocated_bytes) = vireo_checked_size_add sizeof_completion_queue (the slot_bytes) (Some 0) in
          if result \<noteq> VIREO_OK then (result, out_queue, codes, heap)
          else if capacity > VIREO_COMPLETION_QUEUE_MAX_CAPACITY \<or> budget > VIREO_COMPLETION_QUEUE_MAX_ALLOCATION_BYTES \<or>
            the allocated_bytes > budget
          then (VIREO_RESULT_RANGE, out_queue, codes, heap)
          else
            let (memory, heap) = the (ca_allocate (the allocator)) heap (the allocated_bytes) in
            case memory of
              None \<Rightarrow> (VIREO_RESULT_NO_MEMORY, out_queue, codes, heap)
            | Some block \<Rightarrow>
                let queue = \<lparr>cq_capacity = capacity, cq_allocated_bytes = the allocated_bytes, cq_max_memory_bytes = budget,
                      cq_allocator = the allocator, cq_sync = the sync, cq_head = 0, cq_tail = 0, cq_count = 0, cq_high_watermark = 0,
                      cq_full_rejections = 0, cq_closed_rejections = 0, cq_rejection_count_saturated = False, cq_closed = False,
                      cq_wait_ops = cq_no_wait_ops, cq_wait_prepared = False, cq_retiring = False,
                      cq_slots = replicate (unat capacity) None, cq_self = block\<rparr>;
                    (code, codes) = the (cs_init (the sync)) codes in
                if code \<noteq> 0
                then (if code = ENOMEM then VIREO_RESULT_NO_MEMORY else VIREO_RESULT_INTERNAL, out_queue, codes,
                  the (ca_deallocate (the allocator)) heap block [])
                else (VIREO_OK, Some (Some queue), codes, heap))"

definition vireo_completion_queue_create ::
  "vireo_completion_queue_options option \<Rightarrow> 't vireo_completion_queue option option \<Rightarrow> sync_codes \<Rightarrow> vireo_heap \<Rightarrow>
   vireo_result \<times> 't vireo_completion_queue option option \<times> sync_codes \<times> vireo_heap" where
  "vireo_completion_queue_create options out_queue codes heap =
     vireo_completion_queue_create_with_ops options (Some \<lparr>ca_allocate = Some allocate_default, ca_deallocate = Some deallocate_default\<rparr>)
       (Some cq_standard_sync) out_queue codes heap"

definition vireo_completion_queue_inspect ::
  "'t vireo_completion_queue option \<Rightarrow> vireo_completion_queue_info option \<Rightarrow> sync_codes \<Rightarrow>
   vireo_result \<times> vireo_completion_queue_info option \<times> sync_codes" where
  "vireo_completion_queue_inspect queue out_info codes =
     (if Option.is_none queue \<or> Option.is_none out_info then (VIREO_RESULT_INVALID_ARGUMENT, out_info, codes)
      else
        let q = the queue in
        if cq_retiring q then (VIREO_RESULT_CANCELLED, out_info, codes)
        else
          let (code, codes) = the (cs_try_lock (cq_sync q)) codes in
          if code \<noteq> 0 then (if code = EBUSY then VIREO_RESULT_BUSY else VIREO_RESULT_INTERNAL, out_info, codes)
          else
            let info = \<lparr>cqi_capacity = cq_capacity q, cqi_count = cq_count q, cqi_allocated_bytes = cq_allocated_bytes q,
                  cqi_max_memory_bytes = cq_max_memory_bytes q, cqi_closed = cq_closed q, cqi_wait_prepared = cq_wait_prepared q\<rparr>;
                (code, codes) = the (cs_unlock (cq_sync q)) codes in
            (if code = 0 then VIREO_OK else VIREO_RESULT_INTERNAL, if code = 0 then Some info else out_info, codes))"

definition vireo_completion_queue_inspect_metrics ::
  "'t vireo_completion_queue option \<Rightarrow> vireo_completion_queue_metrics option \<Rightarrow> sync_codes \<Rightarrow>
   vireo_result \<times> vireo_completion_queue_metrics option \<times> sync_codes" where
  "vireo_completion_queue_inspect_metrics queue out_metrics codes =
     (if Option.is_none queue \<or> Option.is_none out_metrics then (VIREO_RESULT_INVALID_ARGUMENT, out_metrics, codes)
      else
        let q = the queue in
        if cq_retiring q then (VIREO_RESULT_CANCELLED, out_metrics, codes)
        else
          let (code, codes) = the (cs_try_lock (cq_sync q)) codes in
          if code \<noteq> 0 then (if code = EBUSY then VIREO_RESULT_BUSY else VIREO_RESULT_INTERNAL, out_metrics, codes)
          else
            let metrics = \<lparr>cqm_depth = cq_count q, cqm_high_watermark = cq_high_watermark q, cqm_full_rejections = cq_full_rejections q,
                  cqm_closed_rejections = cq_closed_rejections q, cqm_rejection_count_saturated = cq_rejection_count_saturated q\<rparr>;
                (code, codes) = the (cs_unlock (cq_sync q)) codes in
            (if code = 0 then VIREO_OK else VIREO_RESULT_INTERNAL, if code = 0 then Some metrics else out_metrics, codes))"

definition vireo_completion_queue_destroy ::
  "'t vireo_completion_queue option option \<Rightarrow> sync_codes \<Rightarrow> vireo_heap \<Rightarrow>
   vireo_result \<times> 't vireo_completion_queue option option \<times> sync_codes \<times> vireo_heap" where
  "vireo_completion_queue_destroy owner codes heap =
     (case owner of
        None \<Rightarrow> (VIREO_RESULT_INVALID_ARGUMENT, owner, codes, heap)
      | Some None \<Rightarrow> (VIREO_OK, owner, codes, heap)
      | Some (Some q) \<Rightarrow>
          if cq_count q \<noteq> 0 then (VIREO_RESULT_BUSY, owner, codes, heap)
          else
            let (cond_code, codes, q) =
                  (if cq_wait_prepared q
                   then let (cond_code, codes) = the (cw_destroy (cq_wait_ops q)) codes in
                     (cond_code, codes, if cond_code \<noteq> 0 then q else q\<lparr>cq_wait_prepared := False, cq_retiring := True\<rparr>)
                   else (0, codes, q)) in
            if cond_code \<noteq> 0 then (if cond_code = EBUSY then VIREO_RESULT_BUSY else VIREO_RESULT_INTERNAL, Some (Some q), codes, heap)
            else
              let (code, codes) = the (cs_destroy (cq_sync q)) codes in
              if code \<noteq> 0 then (if code = EBUSY then VIREO_RESULT_BUSY else VIREO_RESULT_INTERNAL, Some (Some q), codes, heap)
              else (VIREO_OK, Some None, codes, the (ca_deallocate (cq_allocator q)) heap (cq_self q) []))"

subsection \<open>Transfers\<close>

definition record_rejection :: "u64 \<Rightarrow> bool \<Rightarrow> u64 \<times> bool" where
  "record_rejection count saturated = (if count = UINT64_MAX then (count, True) else (count + 1, saturated))"

definition record_high_watermark :: "'t vireo_completion_queue \<Rightarrow> 't vireo_completion_queue" where
  "record_high_watermark q = (if cq_count q > cq_high_watermark q then q\<lparr>cq_high_watermark := cq_count q\<rparr> else q)"

definition cq_reject_closed :: "'t vireo_completion_queue \<Rightarrow> 't vireo_completion_queue" where
  "cq_reject_closed q =
     (let (c, s) = record_rejection (cq_closed_rejections q) (cq_rejection_count_saturated q)
      in q\<lparr>cq_closed_rejections := c, cq_rejection_count_saturated := s\<rparr>)"

definition cq_reject_full :: "'t vireo_completion_queue \<Rightarrow> 't vireo_completion_queue" where
  "cq_reject_full q =
     (let (c, s) = record_rejection (cq_full_rejections q) (cq_rejection_count_saturated q)
      in q\<lparr>cq_full_rejections := c, cq_rejection_count_saturated := s\<rparr>)"

definition cq_store :: "'t \<Rightarrow> 't vireo_completion_queue \<Rightarrow> 't vireo_completion_queue" where
  "cq_store t q =
     (let q = q\<lparr>cq_slots := (cq_slots q)[unat (cq_tail q) := Some t]\<rparr>;
          q = q\<lparr>cq_tail := if cq_tail q = cq_capacity q - 1 then 0 else cq_tail q + 1, cq_count := cq_count q + 1\<rparr>
      in record_high_watermark q)"

definition cq_fetch :: "'t vireo_completion_queue \<Rightarrow> 't option \<times> 't vireo_completion_queue" where
  "cq_fetch q =
     (cq_slots q ! unat (cq_head q),
      q\<lparr>cq_slots := (cq_slots q)[unat (cq_head q) := None],
        cq_head := if cq_head q = cq_capacity q - 1 then 0 else cq_head q + 1, cq_count := cq_count q - 1\<rparr>)"

definition cq_no_transfer :: vireo_completion_queue_transfer_report where
  "cq_no_transfer = \<lparr>cqt_stage = VIREO_COMPLETION_QUEUE_TRANSFER_NONE, cqt_transferred = False, cqt_pthread_error = 0\<rparr>"

definition cq_transfer_locked ::
  "'t vireo_completion_queue \<Rightarrow> 't option \<Rightarrow> bool \<Rightarrow> vireo_result \<times> 't option \<times> bool \<times> 't vireo_completion_queue" where
  "cq_transfer_locked q owner pushing =
     (if pushing
      then
        let q' = (if cq_closed q then cq_reject_closed q else if cq_count q = cq_capacity q then cq_reject_full q else q) in
        if \<not> cq_closed q \<and> cq_count q < cq_capacity q then (VIREO_OK, None, True, cq_store (the owner) q')
        else (if cq_closed q then VIREO_RESULT_CANCELLED else VIREO_RESULT_BUSY, owner, False, q')
      else if cq_count q \<noteq> 0 then let (t, q) = cq_fetch q in (VIREO_OK, t, True, q)
      else (if cq_closed q then VIREO_RESULT_CANCELLED else VIREO_RESULT_NOT_FOUND, owner, False, q))"

definition cq_transfer ::
  "'t vireo_completion_queue option \<Rightarrow> 't option option \<Rightarrow> bool \<Rightarrow> vireo_completion_queue_transfer_report option \<Rightarrow> sync_codes \<Rightarrow>
   vireo_result \<times> 't vireo_completion_queue option \<times> 't option option \<times> vireo_completion_queue_transfer_report option \<times> sync_codes" where
  "cq_transfer queue owner pushing out_report codes =
     (if Option.is_none queue \<or> Option.is_none owner \<or> Option.is_none out_report \<or> (\<not> pushing \<and> \<not> Option.is_none (the owner))
      then (VIREO_RESULT_INVALID_ARGUMENT, queue, owner, map_option (\<lambda>_. cq_no_transfer) out_report, codes)
      else if pushing \<and> Option.is_none (the owner) then (VIREO_RESULT_NOT_FOUND, queue, owner, Some cq_no_transfer, codes)
      else
        let q = the queue in
        if cq_retiring q then (VIREO_RESULT_CANCELLED, queue, owner, Some cq_no_transfer, codes)
        else
          let (code, codes) = the (cs_try_lock (cq_sync q)) codes in
          if code \<noteq> 0
          then (if code = EBUSY then VIREO_RESULT_BUSY else VIREO_RESULT_INTERNAL, queue, owner,
            Some (cq_no_transfer\<lparr>cqt_stage := VIREO_COMPLETION_QUEUE_TRANSFER_LOCK, cqt_pthread_error := code\<rparr>), codes)
          else
            let (result, own, moved, q) = cq_transfer_locked q (the owner) pushing;
                report = cq_no_transfer\<lparr>cqt_transferred := moved\<rparr>;
                (result, report, codes) =
                  (if \<not> pushing \<and> moved \<and> cq_wait_prepared q
                   then let (code, codes) = the (cw_signal (cq_wait_ops q)) codes in
                     if code \<noteq> 0
                     then (VIREO_RESULT_INTERNAL, report\<lparr>cqt_stage := VIREO_COMPLETION_QUEUE_TRANSFER_WAKE, cqt_pthread_error := code\<rparr>, codes)
                     else (result, report, codes)
                   else (result, report, codes));
                (code, codes) = the (cs_unlock (cq_sync q)) codes;
                (result, report) =
                  (if code \<noteq> 0
                   then (VIREO_RESULT_INTERNAL, report\<lparr>cqt_stage := VIREO_COMPLETION_QUEUE_TRANSFER_UNLOCK, cqt_pthread_error := code\<rparr>)
                   else (result, report))
            in (result, Some q, Some own, Some report, codes))"

definition vireo_completion_queue_try_push where
  "vireo_completion_queue_try_push queue owner out_report codes = cq_transfer queue owner True out_report codes"

definition vireo_completion_queue_try_pop where
  "vireo_completion_queue_try_pop queue out_completion out_report codes = cq_transfer queue out_completion False out_report codes"

definition cq_no_close :: vireo_completion_queue_close_report where
  "cq_no_close = \<lparr>cqc_stage = VIREO_COMPLETION_QUEUE_CLOSE_NONE, cqc_changed = False, cqc_pthread_error = 0\<rparr>"

definition vireo_completion_queue_close ::
  "'t vireo_completion_queue option \<Rightarrow> vireo_completion_queue_close_report option \<Rightarrow> sync_codes \<Rightarrow>
   vireo_result \<times> 't vireo_completion_queue option \<times> vireo_completion_queue_close_report option \<times> sync_codes" where
  "vireo_completion_queue_close queue out_report codes =
     (if Option.is_none queue \<or> Option.is_none out_report
      then (VIREO_RESULT_INVALID_ARGUMENT, queue, map_option (\<lambda>_. cq_no_close) out_report, codes)
      else
        let q = the queue in
        if cq_retiring q then (VIREO_RESULT_CANCELLED, queue, Some cq_no_close, codes)
        else
          let (code, codes) = the (cs_try_lock (cq_sync q)) codes in
          if code \<noteq> 0
          then (if code = EBUSY then VIREO_RESULT_BUSY else VIREO_RESULT_INTERNAL, queue,
            Some (cq_no_close\<lparr>cqc_stage := VIREO_COMPLETION_QUEUE_CLOSE_LOCK, cqc_pthread_error := code\<rparr>), codes)
          else
            let (report, q) = (if \<not> cq_closed q then (cq_no_close\<lparr>cqc_changed := True\<rparr>, q\<lparr>cq_closed := True\<rparr>) else (cq_no_close, q));
                (result, report, codes) =
                  (if cq_wait_prepared q
                   then let (code, codes) = the (cw_broadcast (cq_wait_ops q)) codes in
                     if code \<noteq> 0
                     then (VIREO_RESULT_INTERNAL, report\<lparr>cqc_stage := VIREO_COMPLETION_QUEUE_CLOSE_WAKE, cqc_pthread_error := code\<rparr>, codes)
                     else (VIREO_OK, report, codes)
                   else (VIREO_OK, report, codes));
                (code, codes) = the (cs_unlock (cq_sync q)) codes;
                (result, report) =
                  (if code \<noteq> 0
                   then (VIREO_RESULT_INTERNAL, report\<lparr>cqc_stage := VIREO_COMPLETION_QUEUE_CLOSE_UNLOCK, cqc_pthread_error := code\<rparr>)
                   else (result, report))
            in (result, Some q, Some report, codes))"

subsection \<open>Waiting producers\<close>

definition vireo_completion_queue_prepare_wait_with_ops ::
  "'t vireo_completion_queue option \<Rightarrow> vireo_completion_queue_wait_ops option \<Rightarrow> sync_codes \<Rightarrow>
   vireo_result \<times> 't vireo_completion_queue option \<times> sync_codes" where
  "vireo_completion_queue_prepare_wait_with_ops queue ops codes =
     (if Option.is_none queue \<or> Option.is_none ops \<or> Option.is_none (cw_init (the ops)) \<or> Option.is_none (cw_lock (the ops)) \<or>
         Option.is_none (cw_wait (the ops)) \<or> Option.is_none (cw_signal (the ops)) \<or> Option.is_none (cw_broadcast (the ops)) \<or>
         Option.is_none (cw_destroy (the ops))
      then (VIREO_RESULT_INVALID_ARGUMENT, queue, codes)
      else
        let q = the queue in
        if cq_retiring q then (VIREO_RESULT_CANCELLED, queue, codes)
        else if cq_count q \<noteq> 0 \<or> cq_closed q then (VIREO_RESULT_BUSY, queue, codes)
        else if cq_wait_prepared q then (VIREO_OK, queue, codes)
        else
          let (code, codes) = the (cw_init (the ops)) codes in
          if code \<noteq> 0 then (if code = ENOMEM then VIREO_RESULT_NO_MEMORY else VIREO_RESULT_INTERNAL, queue, codes)
          else (VIREO_OK, Some (q\<lparr>cq_wait_ops := the ops, cq_wait_prepared := True\<rparr>), codes))"

definition vireo_completion_queue_prepare_wait ::
  "'t vireo_completion_queue option \<Rightarrow> sync_codes \<Rightarrow> vireo_result \<times> 't vireo_completion_queue option \<times> sync_codes" where
  "vireo_completion_queue_prepare_wait queue codes = vireo_completion_queue_prepare_wait_with_ops queue (Some cq_standard_wait) codes"

text \<open>The loop of a waiting producer; \<open>others\<close> is what the other threads do to the queue during each wait.\<close>

fun cq_wait_loop ::
  "('t vireo_completion_queue \<Rightarrow> 't vireo_completion_queue) list \<Rightarrow> sync_codes \<Rightarrow> 't vireo_completion_queue \<Rightarrow>
   (int \<times> 't vireo_completion_queue \<times> sync_codes) option" where
  "cq_wait_loop others codes q =
     (if cq_count q = cq_capacity q \<and> \<not> cq_closed q
      then
        case others of
          [] \<Rightarrow> None
        | f # others \<Rightarrow>
            let (code, codes) = the (cw_wait (cq_wait_ops q)) codes; q = f q in
            if code \<noteq> 0 then Some (code, q, codes) else cq_wait_loop others codes q
      else Some (0, q, codes))"

definition vireo_completion_queue_wait_push ::
  "('t vireo_completion_queue \<Rightarrow> 't vireo_completion_queue) list \<Rightarrow> 't vireo_completion_queue option \<Rightarrow> 't option option \<Rightarrow>
   vireo_completion_queue_transfer_report option \<Rightarrow> sync_codes \<Rightarrow>
   (vireo_result \<times> 't vireo_completion_queue option \<times> 't option option \<times> vireo_completion_queue_transfer_report option \<times> sync_codes) option" where
  "vireo_completion_queue_wait_push others queue owner out_report codes =
     (if Option.is_none queue \<or> Option.is_none owner \<or> Option.is_none out_report
      then Some (VIREO_RESULT_INVALID_ARGUMENT, queue, owner, map_option (\<lambda>_. cq_no_transfer) out_report, codes)
      else if Option.is_none (the owner) then Some (VIREO_RESULT_NOT_FOUND, queue, owner, Some cq_no_transfer, codes)
      else
        let q = the queue in
        if cq_retiring q then Some (VIREO_RESULT_CANCELLED, queue, owner, Some cq_no_transfer, codes)
        else if \<not> cq_wait_prepared q then Some (VIREO_RESULT_NOT_FOUND, queue, owner, Some cq_no_transfer, codes)
        else
          let (code, codes) = the (cw_lock (cq_wait_ops q)) codes in
          if code \<noteq> 0
          then Some (VIREO_RESULT_INTERNAL, queue, owner,
            Some (cq_no_transfer\<lparr>cqt_stage := VIREO_COMPLETION_QUEUE_TRANSFER_LOCK, cqt_pthread_error := code\<rparr>), codes)
          else
            case cq_wait_loop others codes q of
              None \<Rightarrow> None
            | Some (code, q, codes) \<Rightarrow>
                let (result, own, report, q) =
                      (if code \<noteq> 0
                       then (VIREO_RESULT_INTERNAL, the owner,
                         cq_no_transfer\<lparr>cqt_stage := VIREO_COMPLETION_QUEUE_TRANSFER_WAIT, cqt_pthread_error := code\<rparr>, q)
                       else if cq_closed q then (VIREO_RESULT_CANCELLED, the owner, cq_no_transfer, cq_reject_closed q)
                       else (VIREO_OK, None, cq_no_transfer\<lparr>cqt_transferred := True\<rparr>, cq_store (the (the owner)) q));
                    (code, codes) = the (cs_unlock (cq_sync q)) codes;
                    (result, report) =
                      (if code \<noteq> 0
                       then (VIREO_RESULT_INTERNAL, report\<lparr>cqt_stage := VIREO_COMPLETION_QUEUE_TRANSFER_UNLOCK, cqt_pthread_error := code\<rparr>)
                       else (result, report))
                in Some (result, Some q, Some own, Some report, codes))"

end
