(* ===== verification/Thread_Completion_Flow.thy ===== *)
theory Thread_Completion_Flow
  imports Thread_Completion_Queue
begin

text \<open>
  The completion queue in use, along the lines of the task queue: in-order hand-over under all results
  of the pthread calls, refinement of a bounded list that can be closed, and a reactor that empties a
  closed queue.
\<close>

subsection \<open>Operations as steps\<close>

datatype 't cq_op = CQ_Push 't | CQ_Pop | CQ_Close | CQ_Prepare | CQ_Wait_Push 't

datatype 't cq_event = CQ_Event vireo_result bool "'t option" | CQ_Blocked

type_synonym 't cq_run = "'t vireo_completion_queue \<times> sync_codes"

definition cq_transfer_event ::
  "vireo_result \<times> 't vireo_completion_queue option \<times> 't option option \<times> vireo_completion_queue_transfer_report option \<times> sync_codes \<Rightarrow>
   't cq_event \<times> 't cq_run" where
  "cq_transfer_event r = (case r of (rc, q, own, rep, codes) \<Rightarrow> (CQ_Event rc (cqt_transferred (the rep)) (the own), (the q, codes)))"

fun cq_exec :: "'t cq_op \<Rightarrow> 't cq_run \<Rightarrow> 't cq_event \<times> 't cq_run" where
  "cq_exec (CQ_Push t) (q, codes) =
     cq_transfer_event (vireo_completion_queue_try_push (Some q) (Some (Some t)) (Some cq_no_transfer) codes)"
| "cq_exec CQ_Pop (q, codes) = cq_transfer_event (vireo_completion_queue_try_pop (Some q) (Some None) (Some cq_no_transfer) codes)"
| "cq_exec CQ_Close (q, codes) =
     (case vireo_completion_queue_close (Some q) (Some cq_no_close) codes of
        (rc, q, rep, codes) \<Rightarrow> (CQ_Event rc (cqc_changed (the rep)) None, (the q, codes)))"
| "cq_exec CQ_Prepare (q, codes) =
     (case vireo_completion_queue_prepare_wait (Some q) codes of (rc, q, codes) \<Rightarrow> (CQ_Event rc False None, (the q, codes)))"
| "cq_exec (CQ_Wait_Push t) (q, codes) =
     (case vireo_completion_queue_wait_push [] (Some q) (Some (Some t)) (Some cq_no_transfer) codes of
        None \<Rightarrow> (CQ_Blocked, (q, codes))
      | Some r \<Rightarrow> cq_transfer_event r)"

fun cq_taken :: "'t cq_op \<Rightarrow> 't cq_event \<Rightarrow> 't list" where
  "cq_taken (CQ_Push t) (CQ_Event rc True own) = [t]"
| "cq_taken (CQ_Wait_Push t) (CQ_Event rc True own) = [t]"
| "cq_taken _ _ = []"

fun cq_given :: "'t cq_op \<Rightarrow> 't cq_event \<Rightarrow> 't list" where
  "cq_given CQ_Pop (CQ_Event rc moved (Some t)) = [t]"
| "cq_given _ _ = []"

fun cq_owner_ok :: "'t cq_op \<Rightarrow> 't cq_event \<Rightarrow> bool" where
  "cq_owner_ok (CQ_Push t) (CQ_Event rc moved own) \<longleftrightarrow> own = (if moved then None else Some t)"
| "cq_owner_ok (CQ_Wait_Push t) (CQ_Event rc moved own) \<longleftrightarrow> own = (if moved then None else Some t)"
| "cq_owner_ok CQ_Pop (CQ_Event rc moved own) \<longleftrightarrow> (moved \<longleftrightarrow> own \<noteq> None)"
| "cq_owner_ok (CQ_Wait_Push t) CQ_Blocked \<longleftrightarrow> True"
| "cq_owner_ok p (CQ_Event rc moved own) \<longleftrightarrow> own = None"
| "cq_owner_ok p CQ_Blocked \<longleftrightarrow> False"

subsection \<open>Invariant\<close>

definition cq_items :: "'t vireo_completion_queue \<Rightarrow> 't list" where
  "cq_items q = ring_items (cq_slots q) (unat (cq_head q)) (unat (cq_count q))"

definition cq_inv :: "'t vireo_completion_queue \<Rightarrow> bool" where
  "cq_inv q \<longleftrightarrow> ring_inv (cq_slots q) (unat (cq_head q)) (unat (cq_tail q)) (unat (cq_count q)) \<and>
     length (cq_slots q) = unat (cq_capacity q) \<and> cq_count q \<le> cq_high_watermark q \<and> cq_high_watermark q \<le> cq_capacity q"

lemma cq_items_length: "length (cq_items q) = unat (cq_count q)"
  by (simp add: cq_items_def)

lemma cq_count_items: "cq_count q = 0 \<longleftrightarrow> cq_items q = []"
  by (metis length_0_conv cq_items_length unat_eq_zero)

lemma cq_full_items: "cq_count q = cq_capacity q \<longleftrightarrow> length (cq_items q) = unat (cq_capacity q)"
  by (simp add: cq_items_length word_unat_eq_iff)

lemma cq_room: "cq_inv q \<Longrightarrow> cq_count q < cq_capacity q \<longleftrightarrow> cq_count q \<noteq> cq_capacity q"
  by (auto simp: cq_inv_def)

lemma cq_frame:
  "cq_sync (cq_store t q) = cq_sync q" "cq_wait_prepared (cq_store t q) = cq_wait_prepared q" "cq_wait_ops (cq_store t q) = cq_wait_ops q"
  "cq_retiring (cq_store t q) = cq_retiring q" "cq_closed (cq_store t q) = cq_closed q" "cq_capacity (cq_store t q) = cq_capacity q"
  "cq_sync (cq_reject_full q) = cq_sync q" "cq_wait_prepared (cq_reject_full q) = cq_wait_prepared q" "cq_wait_ops (cq_reject_full q) = cq_wait_ops q"
  "cq_retiring (cq_reject_full q) = cq_retiring q" "cq_closed (cq_reject_full q) = cq_closed q" "cq_capacity (cq_reject_full q) = cq_capacity q"
  "cq_sync (cq_reject_closed q) = cq_sync q" "cq_wait_prepared (cq_reject_closed q) = cq_wait_prepared q"
  "cq_wait_ops (cq_reject_closed q) = cq_wait_ops q" "cq_retiring (cq_reject_closed q) = cq_retiring q"
  "cq_closed (cq_reject_closed q) = cq_closed q" "cq_capacity (cq_reject_closed q) = cq_capacity q"
  by (simp_all add: cq_store_def record_high_watermark_def cq_reject_full_def cq_reject_closed_def record_rejection_def Let_def)

lemma cq_store_ok:
  assumes inv: "cq_inv q" and room: "cq_count q \<noteq> cq_capacity q"
  shows "cq_inv (cq_store t q)" and "cq_items (cq_store t q) = cq_items q @ [t]"
proof -
  have r: "ring_inv (cq_slots q) (unat (cq_head q)) (unat (cq_tail q)) (unat (cq_count q))"
    and len: "length (cq_slots q) = unat (cq_capacity q)"
    and hw: "cq_count q \<le> cq_high_watermark q" "cq_high_watermark q \<le> cq_capacity q"
    using inv by (simp_all add: cq_inv_def)
  have c: "unat (cq_count q) < length (cq_slots q)" using room inv cq_room [OF inv] len by (simp add: word_less_nat_alt)
  note p = ring_push(1,2) [OF r c, of t] and tl = ring_next_word [of "cq_tail q" "cq_capacity q", OF ring_push(3) [OF r c, unfolded len]]
  have cnt: "unat (cq_count q + 1) = Suc (unat (cq_count q))"
    using unat_add_less [of "cq_count q" 1] c len unat_lt_64 [of "cq_capacity q"] by simp
  have le: "cq_count q + 1 \<le> cq_capacity q" using cnt c len by (simp add: word_le_nat_alt)
  show "cq_items (cq_store t q) = cq_items q @ [t]"
    using p(2) cnt by (simp add: cq_items_def cq_store_def record_high_watermark_def Let_def)
  show "cq_inv (cq_store t q)"
    using p(1) tl cnt len hw le by (auto simp: cq_inv_def cq_store_def record_high_watermark_def Let_def not_less split: if_splits)
qed

lemma cq_fetch_ok:
  assumes inv: "cq_inv q" and ne: "cq_count q \<noteq> 0"
  shows "\<exists>t. cq_fetch q = (Some t, snd (cq_fetch q)) \<and> cq_items q = t # cq_items (snd (cq_fetch q)) \<and> cq_inv (snd (cq_fetch q))"
proof -
  have r: "ring_inv (cq_slots q) (unat (cq_head q)) (unat (cq_tail q)) (unat (cq_count q))"
    and len: "length (cq_slots q) = unat (cq_capacity q)"
    and hw: "cq_count q \<le> cq_high_watermark q" "cq_high_watermark q \<le> cq_capacity q"
    using inv by (simp_all add: cq_inv_def)
  have c: "unat (cq_count q) \<noteq> 0" using ne by (simp add: unat_eq_zero)
  note p = ring_pop [OF r c]
  have cnt: "unat (cq_count q - 1) = unat (cq_count q) - 1" using ne by (simp add: unat_minus_one)
  note hd = ring_next_word [of "cq_head q" "cq_capacity q", OF p(3) [unfolded len]]
  have le: "cq_count q - 1 \<le> cq_high_watermark q" using cnt hw by (simp add: word_le_nat_alt)
  have "cq_inv (snd (cq_fetch q))" using p(1) hd cnt len hw le by (simp add: cq_inv_def cq_fetch_def)
  then show ?thesis using p(2) hd cnt len by (auto simp: cq_items_def cq_fetch_def)
qed

lemma cq_reject_ok:
  "cq_inv q \<Longrightarrow> cq_inv (cq_reject_closed q)" "cq_items (cq_reject_closed q) = cq_items q"
  "cq_inv q \<Longrightarrow> cq_inv (cq_reject_full q)" "cq_items (cq_reject_full q) = cq_items q"
  by (simp_all add: cq_inv_def cq_items_def cq_reject_closed_def cq_reject_full_def record_rejection_def Let_def)

subsection \<open>Transfers conserve completions\<close>

text \<open>What every step does to the queue and to the caller's variable, as one relation.\<close>

definition cq_moves :: "'t vireo_completion_queue \<Rightarrow> 't option \<Rightarrow> bool \<Rightarrow> 't option \<Rightarrow> 't vireo_completion_queue \<Rightarrow> bool" where
  "cq_moves q own moved own' q' \<longleftrightarrow> cq_inv q' \<and>
     (if \<not> moved then own' = own \<and> cq_items q' = cq_items q
      else case own of
        None \<Rightarrow> own' \<noteq> None \<and> cq_items q = the own' # cq_items q'
      | Some t \<Rightarrow> own' = None \<and> cq_items q' = cq_items q @ [t])"

lemma cq_transfer_locked_ok:
  assumes inv: "cq_inv q" and tl: "cq_transfer_locked q own (own \<noteq> None) = (rc, own', moved, q')"
  shows "cq_moves q own moved own' q'"
proof (cases own)
  case None
  then show ?thesis using tl inv cq_fetch_ok [OF inv]
    by (auto simp: cq_transfer_locked_def cq_moves_def Let_def split: if_splits prod.splits)
next
  case (Some t)
  then show ?thesis using tl inv cq_store_ok [OF inv] cq_room [OF inv]
    by (auto simp: cq_transfer_locked_def cq_moves_def Let_def cq_reject_ok split: if_splits prod.splits)
qed

lemma cq_moves_refl: "cq_inv q \<Longrightarrow> cq_moves q own False own q"
  by (simp add: cq_moves_def)

lemma cq_transfer_event_ok:
  assumes inv: "cq_inv q" and ex: "cq_transfer_event (cq_transfer (Some q) (Some own) (own \<noteq> None) (Some rep) codes) = (e, (q', codes'))"
  shows "\<exists>rc moved own'. e = CQ_Event rc moved own' \<and> cq_moves q own moved own' q'"
proof -
  obtain rc1 own1 moved q1 where l: "cq_transfer_locked q own (own \<noteq> None) = (rc1, own1, moved, q1)" by (metis prod_cases4)
  have "\<exists>rc. e = CQ_Event rc False own \<and> q' = q \<or> e = CQ_Event rc moved own1 \<and> q' = q1"
    using ex l
    by (auto simp: cq_transfer_def cq_transfer_event_def cq_no_transfer_def Let_def Option.is_none_def split: if_splits prod.splits)
  then show ?thesis using cq_transfer_locked_ok [OF inv l] cq_moves_refl [OF inv] by blast
qed

lemma cq_wait_push_ok:
  assumes inv: "cq_inv q" and ex: "cq_exec (CQ_Wait_Push t) (q, codes) = (e, (q', codes'))"
  shows "e = CQ_Blocked \<and> q' = q \<or> (\<exists>rc moved own'. e = CQ_Event rc moved own' \<and> cq_moves q (Some t) moved own' q')"
proof (cases "vireo_completion_queue_wait_push [] (Some q) (Some (Some t)) (Some cq_no_transfer) codes")
  case None
  then show ?thesis using ex by auto
next
  case (Some r)
  obtain rc out own' rep' c where r: "r = (rc, out, own', rep', c)" by (metis prod_cases5)
  have e: "e = CQ_Event rc (cqt_transferred (the rep')) (the own')" "q' = the out"
    using ex Some r by (simp_all add: cq_transfer_event_def)
  have "\<not> cqt_transferred (the rep') \<and> the own' = Some t \<and> (the out = q \<or> the out = cq_reject_closed q) \<or>
      cqt_transferred (the rep') \<and> the own' = None \<and> the out = cq_store t q \<and> cq_count q \<noteq> cq_capacity q"
    using Some r
    by (auto simp: vireo_completion_queue_wait_push_def cq_no_transfer_def Let_def split: if_splits prod.splits option.splits)
  then show ?thesis using e inv cq_store_ok [OF inv] by (auto simp: cq_moves_def cq_reject_ok)
qed

lemma cq_close_ok:
  assumes "cq_inv q" and "vireo_completion_queue_close (Some q) (Some rep) codes = (rc, out, rep', codes')"
  shows "cq_moves q None False None (the out)"
proof -
  have "out = Some q \<or> out = Some (q\<lparr>cq_closed := True\<rparr>)"
    using assms(2) by (auto simp: vireo_completion_queue_close_def Let_def Option.is_none_def split: if_splits prod.splits)
  then show ?thesis using assms(1) by (auto simp: cq_moves_def cq_inv_def cq_items_def)
qed

lemma cq_prepare_ok:
  assumes "cq_inv q" and "vireo_completion_queue_prepare_wait (Some q) codes = (rc, out, codes')"
  shows "cq_moves q None False None (the out)"
proof -
  have "out = Some q \<or> out = Some (q\<lparr>cq_wait_ops := cq_standard_wait, cq_wait_prepared := True\<rparr>)"
    using assms(2)
    by (auto simp: vireo_completion_queue_prepare_wait_def vireo_completion_queue_prepare_wait_with_ops_def Let_def split: if_splits prod.splits)
  then show ?thesis using assms(1) by (auto simp: cq_moves_def cq_inv_def cq_items_def)
qed

lemma cq_exec_ok:
  assumes inv: "cq_inv q" and ex: "cq_exec p (q, codes) = (e, (q', codes'))"
  shows "cq_inv q' \<and> cq_items q @ cq_taken p e = cq_given p e @ cq_items q' \<and> cq_owner_ok p e"
proof (cases p)
  case (CQ_Push t)
  then show ?thesis using cq_transfer_event_ok [OF inv, of "Some t" cq_no_transfer codes e q' codes'] ex
    by (auto simp: vireo_completion_queue_try_push_def cq_moves_def split: if_splits)
next
  case CQ_Pop
  then show ?thesis using cq_transfer_event_ok [OF inv, of None cq_no_transfer codes e q' codes'] ex
    by (auto simp: vireo_completion_queue_try_pop_def cq_moves_def split: if_splits)
next
  case CQ_Close
  obtain rc out rep c where r: "vireo_completion_queue_close (Some q) (Some cq_no_close) codes = (rc, out, rep, c)" by (metis prod_cases4)
  then show ?thesis using ex CQ_Close cq_close_ok [OF inv r] by (auto simp: cq_moves_def)
next
  case CQ_Prepare
  obtain rc out c where r: "vireo_completion_queue_prepare_wait (Some q) codes = (rc, out, c)" by (metis prod_cases3)
  then show ?thesis using ex CQ_Prepare cq_prepare_ok [OF inv r] by (auto simp: cq_moves_def)
next
  case (CQ_Wait_Push t)
  then show ?thesis using cq_wait_push_ok [OF inv] ex inv by (fastforce simp: cq_moves_def split: if_splits)
qed

interpretation completion_flow: owner_queue "\<lambda>s. cq_items (fst s)" "\<lambda>s. cq_inv (fst s)" cq_exec cq_taken cq_given
proof
  fix s :: "'a cq_run" and p :: "'a cq_op"
  obtain q codes where s: "s = (q, codes)" by (cases s)
  obtain e q' codes' where x: "cq_exec p (q, codes) = (e, (q', codes'))" by (metis surj_pair)
  show "cq_inv (fst s) \<Longrightarrow> cq_inv (fst (snd (cq_exec p s)))"
    and "cq_inv (fst s) \<Longrightarrow> cq_items (fst s) @ cq_taken p (fst (cq_exec p s)) =
      cq_given p (fst (cq_exec p s)) @ cq_items (fst (snd (cq_exec p s)))"
    using cq_exec_ok [OF _ x] x s by simp_all
qed

subsection \<open>Creation and specification\<close>

definition cq_ready :: "'t vireo_completion_queue \<Rightarrow> bool" where
  "cq_ready q \<longleftrightarrow> cq_inv q \<and> cq_sync q = cq_standard_sync \<and> (cq_wait_prepared q \<longrightarrow> cq_wait_ops q = cq_standard_wait) \<and> \<not> cq_retiring q"

lemma cq_create_OK:
  assumes "vireo_completion_queue_create (Some opts) (Some None) codes h = (VIREO_OK, Some (Some q), codes', h')"
  shows "cq_ready q" and "cq_items q = []" and "\<not> cq_closed q" and "\<not> cq_wait_prepared q" and "cq_capacity q = cqo_capacity opts"
proof -
  obtain b bytes where cap: "cqo_capacity opts \<noteq> 0" and q: "q = \<lparr>cq_capacity = cqo_capacity opts, cq_allocated_bytes = bytes,
      cq_max_memory_bytes = cqo_max_memory_bytes opts,
      cq_allocator = \<lparr>ca_allocate = Some allocate_default, ca_deallocate = Some deallocate_default\<rparr>, cq_sync = cq_standard_sync,
      cq_head = 0, cq_tail = 0, cq_count = 0, cq_high_watermark = 0, cq_full_rejections = 0, cq_closed_rejections = 0,
      cq_rejection_count_saturated = False, cq_closed = False, cq_wait_ops = cq_no_wait_ops, cq_wait_prepared = False, cq_retiring = False,
      cq_slots = replicate (unat (cqo_capacity opts)) None, cq_self = b\<rparr>"
    using assms
    by (auto simp: vireo_completion_queue_create_def vireo_completion_queue_create_with_ops_def Let_def split: if_splits prod.splits option.splits)
  have "0 < unat (cqo_capacity opts)" using cap by (simp add: unat_gt_0)
  then show "cq_ready q" using ring_empty by (simp add: cq_ready_def cq_inv_def q)
  show "cq_items q = []" "\<not> cq_closed q" "\<not> cq_wait_prepared q" "cq_capacity q = cqo_capacity opts"
    by (simp_all add: q cq_items_def ring_items_def)
qed

text \<open>The specification: a bounded list that producers fill until it is closed and the reactor empties.\<close>

record 't cq_spec =
  cp_items :: "'t list"
  cp_closed :: bool
  cp_capacity :: nat
  cp_prepared :: bool

fun cq_spec_exec :: "'t cq_op \<Rightarrow> 't cq_spec \<Rightarrow> 't cq_event \<times> 't cq_spec" where
  "cq_spec_exec (CQ_Push t) s =
     (if cp_closed s then (CQ_Event VIREO_RESULT_CANCELLED False (Some t), s)
      else if length (cp_items s) = cp_capacity s then (CQ_Event VIREO_RESULT_BUSY False (Some t), s)
      else (CQ_Event VIREO_OK True None, s\<lparr>cp_items := cp_items s @ [t]\<rparr>))"
| "cq_spec_exec CQ_Pop s =
     (case cp_items s of
        [] \<Rightarrow> (CQ_Event (if cp_closed s then VIREO_RESULT_CANCELLED else VIREO_RESULT_NOT_FOUND) False None, s)
      | t # ts \<Rightarrow> (CQ_Event VIREO_OK True (Some t), s\<lparr>cp_items := ts\<rparr>))"
| "cq_spec_exec CQ_Close s = (CQ_Event VIREO_OK (\<not> cp_closed s) None, s\<lparr>cp_closed := True\<rparr>)"
| "cq_spec_exec CQ_Prepare s =
     (if cp_items s \<noteq> [] \<or> cp_closed s then (CQ_Event VIREO_RESULT_BUSY False None, s)
      else (CQ_Event VIREO_OK False None, s\<lparr>cp_prepared := True\<rparr>))"
| "cq_spec_exec (CQ_Wait_Push t) s =
     (if \<not> cp_prepared s then (CQ_Event VIREO_RESULT_NOT_FOUND False (Some t), s)
      else if cp_closed s then (CQ_Event VIREO_RESULT_CANCELLED False (Some t), s)
      else if length (cp_items s) = cp_capacity s then (CQ_Blocked, s)
      else (CQ_Event VIREO_OK True None, s\<lparr>cp_items := cp_items s @ [t]\<rparr>))"

definition cq_abs :: "'t vireo_completion_queue \<Rightarrow> 't cq_spec" where
  "cq_abs q = \<lparr>cp_items = cq_items q, cp_closed = cq_closed q, cp_capacity = unat (cq_capacity q), cp_prepared = cq_wait_prepared q\<rparr>"

lemma cq_standard_ops:
  "cs_try_lock cq_standard_sync = Some sync_call" "cs_unlock cq_standard_sync = Some sync_call" "cs_init cq_standard_sync = Some sync_call"
  "cw_init cq_standard_wait = Some sync_call" "cw_lock cq_standard_wait = Some sync_call" "cw_wait cq_standard_wait = Some sync_call"
  "cw_signal cq_standard_wait = Some sync_call" "cw_broadcast cq_standard_wait = Some sync_call" "cw_destroy cq_standard_wait = Some sync_call"
  by (simp_all add: cq_standard_sync_def cq_standard_wait_def)

lemmas cq_no_fault = sync_no_fault cq_standard_ops

lemma cq_transfer_no_fault:
  assumes r: "cq_ready q" and tl: "cq_transfer_locked q own (own \<noteq> None) = (rc, own', moved, q')"
    and fr: "cq_sync q' = cq_sync q" "cq_wait_prepared q' = cq_wait_prepared q" "cq_wait_ops q' = cq_wait_ops q"
  shows "cq_transfer_event (cq_transfer (Some q) (Some own) (own \<noteq> None) (Some rep) []) = (CQ_Event rc moved own', (q', []))"
  using r tl fr
  by (auto simp: cq_transfer_def cq_ready_def Let_def cq_no_fault cq_no_transfer_def cq_transfer_event_def Option.is_none_def)

lemma cq_push_refines:
  assumes r: "cq_ready q"
  shows "\<exists>q'. cq_exec (CQ_Push t) (q, []) = (fst (cq_spec_exec (CQ_Push t) (cq_abs q)), (q', [])) \<and> cq_ready q' \<and>
    cq_abs q' = snd (cq_spec_exec (CQ_Push t) (cq_abs q))"
proof -
  have inv: "cq_inv q" using r by (simp add: cq_ready_def)
  note tr = cq_transfer_no_fault [OF r, of "Some t" _ _ _ _ cq_no_transfer]
  consider "cq_closed q" | "\<not> cq_closed q" "cq_count q = cq_capacity q" | "\<not> cq_closed q" "cq_count q \<noteq> cq_capacity q" by blast
  then show ?thesis
  proof cases
    case 1
    then show ?thesis using tr [of VIREO_RESULT_CANCELLED "Some t" False "cq_reject_closed q"] r
      by (auto simp: cq_transfer_locked_def vireo_completion_queue_try_push_def cq_abs_def cq_ready_def cq_reject_ok cq_frame)
  next
    case 2
    then show ?thesis using tr [of VIREO_RESULT_BUSY "Some t" False "cq_reject_full q"] r cq_full_items [of q]
      by (auto simp: cq_transfer_locked_def vireo_completion_queue_try_push_def cq_abs_def cq_ready_def cq_reject_ok cq_frame)
  next
    case 3
    then show ?thesis using tr [of VIREO_OK None True "cq_store t q"] r cq_full_items [of q] cq_store_ok [OF inv 3(2)] cq_room [OF inv]
      by (auto simp: cq_transfer_locked_def vireo_completion_queue_try_push_def cq_abs_def cq_ready_def cq_frame)
  qed
qed

lemma cq_pop_refines:
  assumes r: "cq_ready q"
  shows "\<exists>q'. cq_exec CQ_Pop (q, []) = (fst (cq_spec_exec CQ_Pop (cq_abs q)), (q', [])) \<and> cq_ready q' \<and>
    cq_abs q' = snd (cq_spec_exec CQ_Pop (cq_abs q))"
proof (cases "cq_count q = 0")
  case True
  then show ?thesis
    using cq_transfer_no_fault [OF r, of None "if cq_closed q then VIREO_RESULT_CANCELLED else VIREO_RESULT_NOT_FOUND" None False q cq_no_transfer]
      r cq_count_items [of q]
    by (auto simp: cq_transfer_locked_def vireo_completion_queue_try_pop_def cq_abs_def)
next
  case False
  let ?q = "snd (cq_fetch q)"
  have inv: "cq_inv q" using r by (simp add: cq_ready_def)
  obtain t where t: "cq_fetch q = (Some t, ?q)" "cq_items q = t # cq_items ?q" "cq_inv ?q" using cq_fetch_ok [OF inv False] by blast
  have fr: "cq_sync ?q = cq_sync q" "cq_wait_prepared ?q = cq_wait_prepared q" "cq_wait_ops ?q = cq_wait_ops q"
    "cq_retiring ?q = cq_retiring q" "cq_closed ?q = cq_closed q" "cq_capacity ?q = cq_capacity q"
    by (simp_all add: cq_fetch_def)
  have "cq_transfer_locked q None False = (VIREO_OK, Some t, True, ?q)"
    unfolding cq_transfer_locked_def by (subst t(1)) (simp add: False)
  then have "cq_exec CQ_Pop (q, []) = (CQ_Event VIREO_OK True (Some t), (?q, []))"
    using cq_transfer_no_fault [OF r, of None VIREO_OK "Some t" True ?q cq_no_transfer] fr by (simp add: vireo_completion_queue_try_pop_def)
  then show ?thesis using t(2,3) r fr by (simp add: cq_ready_def cq_abs_def)
qed

lemma cq_wait_push_refines:
  assumes r: "cq_ready q"
  shows "\<exists>q'. cq_exec (CQ_Wait_Push t) (q, []) = (fst (cq_spec_exec (CQ_Wait_Push t) (cq_abs q)), (q', [])) \<and> cq_ready q' \<and>
    cq_abs q' = snd (cq_spec_exec (CQ_Wait_Push t) (cq_abs q))"
proof -
  have inv: "cq_inv q" using r by (simp add: cq_ready_def)
  show ?thesis using r cq_full_items [of q] cq_store_ok [OF inv]
    by (auto simp: vireo_completion_queue_wait_push_def Let_def cq_ready_def cq_no_fault cq_abs_def cq_no_transfer_def cq_transfer_event_def
        cq_reject_ok cq_frame)
qed

lemma cq_exec_refines:
  assumes r: "cq_ready q"
  shows "\<exists>q'. cq_exec p (q, []) = (fst (cq_spec_exec p (cq_abs q)), (q', [])) \<and> cq_ready q' \<and> cq_abs q' = snd (cq_spec_exec p (cq_abs q))"
proof (cases p)
  case CQ_Close
  then show ?thesis using r
    by (auto simp: vireo_completion_queue_close_def Let_def cq_ready_def cq_no_fault cq_abs_def cq_no_close_def cq_inv_def cq_items_def)
next
  case CQ_Prepare
  then show ?thesis using r cq_count_items [of q]
    by (auto simp: vireo_completion_queue_prepare_wait_def vireo_completion_queue_prepare_wait_with_ops_def Let_def cq_ready_def cq_no_fault
        cq_abs_def cq_inv_def cq_items_def)
qed (simp_all only: cq_push_refines [OF r] cq_pop_refines [OF r] cq_wait_push_refines [OF r])

lemma cq_run_refines:
  assumes "cq_ready q" and "run_calls cq_exec ps (q, []) = (es, (q', codes'))"
  shows "run_calls cq_spec_exec ps (cq_abs q) = (es, cq_abs q') \<and> cq_ready q' \<and> codes' = []"
  using assms
proof (induction ps arbitrary: q es)
  case (Cons p ps)
  obtain q1 where q1: "cq_exec p (q, []) = (fst (cq_spec_exec p (cq_abs q)), (q1, []))" "cq_ready q1" "cq_abs q1 = snd (cq_spec_exec p (cq_abs q))"
    using cq_exec_refines [OF Cons.prems(1)] by blast
  obtain es1 where r: "run_calls cq_exec ps (q1, []) = (es1, (q', codes'))" and es: "es = fst (cq_spec_exec p (cq_abs q)) # es1"
    using Cons.prems(2) q1(1) by (auto simp: Let_def split: prod.splits)
  then show ?case using Cons.IH [OF q1(2) r] q1(3) by (simp add: Let_def split_def)
qed simp

lemma cq_run_owner:
  assumes "cq_inv q" and "run_calls cq_exec ps (q, codes) = (es, s')"
  shows "list_all2 cq_owner_ok ps es"
  using assms
proof (induction ps arbitrary: q codes es)
  case (Cons p ps)
  obtain e q1 c1 where x: "cq_exec p (q, codes) = (e, (q1, c1))" by (metis surj_pair)
  obtain es1 where r: "run_calls cq_exec ps (q1, c1) = (es1, s')" and es: "es = e # es1"
    using Cons.prems(2) x by (auto simp: Let_def split: prod.splits)
  then show ?case using Cons.IH [OF _ r] cq_exec_ok [OF Cons.prems(1) x] by simp
qed simp

lemma cq_spec_capacity: "cp_capacity (snd (run_calls cq_spec_exec ps s)) = cp_capacity s"
proof (induction ps arbitrary: s)
  case (Cons p ps)
  have "cp_capacity (snd (cq_spec_exec p s)) = cp_capacity s" by (cases p) (auto split: list.splits)
  then show ?case using Cons by (simp add: Let_def split_def)
qed simp

subsection \<open>Properties of the completion queue\<close>


text \<open>
  C13. When the pthread calls succeed, the completion queue refines a bounded list: a producer is refused
  when the list is full and turned away once it is closed, a waiting producer blocks exactly while
  an open list is full, and the reactor can empty a closed list and is then told that nothing more comes.
\<close>

theorem completion_queue_refines:
  assumes "vireo_completion_queue_create (Some opts) (Some None) codes0 h = (VIREO_OK, Some (Some q), codes1, h')"
    and "run_calls cq_exec ops (q, []) = (es, (q', codes'))"
  shows "run_calls cq_spec_exec ops \<lparr>cp_items = [], cp_closed = False, cp_capacity = unat (cqo_capacity opts), cp_prepared = False\<rparr> =
    (es, \<lparr>cp_items = cq_items q', cp_closed = cq_closed q', cp_capacity = unat (cqo_capacity opts), cp_prepared = cq_wait_prepared q'\<rparr>)"
proof -
  note c = cq_create_OK [OF assms(1)]
  note r = cq_run_refines [OF c(1) assms(2)]
  have "cp_capacity (cq_abs q') = cp_capacity (cq_abs q)" using cq_spec_capacity [of ops "cq_abs q"] r by simp
  then show ?thesis using r c(2-5) by (simp add: cq_abs_def)
qed

subsection \<open>A concrete queue\<close>

definition demo_cq :: "vireo_result \<times> nat vireo_completion_queue option option \<times> sync_codes \<times> vireo_heap" where
  "demo_cq = vireo_completion_queue_create (Some \<lparr>cqo_capacity = 2, cqo_max_memory_bytes = 4096\<rparr>) (Some None) [] demo_heap"

definition demo_completions :: "nat vireo_completion_queue" where
  "demo_completions = the (the (fst (snd demo_cq)))"

lemma demo_cq_OK:
  "vireo_completion_queue_create (Some \<lparr>cqo_capacity = 2, cqo_max_memory_bytes = 4096\<rparr>) (Some None) [] demo_heap =
     (VIREO_OK, Some (Some demo_completions), fst (snd (snd demo_cq)), snd (snd (snd demo_cq)))"
proof -
  have "fst demo_cq = VIREO_OK" by code_simp
  moreover have "\<not> Option.is_none (fst (snd demo_cq))" "\<not> Option.is_none (the (fst (snd demo_cq)))" by code_simp+
  ultimately have "demo_cq = (VIREO_OK, Some (Some demo_completions), fst (snd (snd demo_cq)), snd (snd (snd demo_cq)))"
    by (auto simp: demo_completions_def Option.is_none_def prod_eq_iff)
  then show ?thesis by (simp add: demo_cq_def)
qed

definition demo_cq_ops :: "nat cq_op list" where
  "demo_cq_ops = [CQ_Prepare, CQ_Push 5, CQ_Wait_Push 6, CQ_Wait_Push 7, CQ_Pop, CQ_Wait_Push 7, CQ_Close, CQ_Push 8, CQ_Pop, CQ_Pop, CQ_Pop]"


theorem completion_queue_refines_witness:
  "fst (run_calls cq_spec_exec demo_cq_ops \<lparr>cp_items = [], cp_closed = False, cp_capacity = 2, cp_prepared = False\<rparr>) =
     fst (run_calls cq_exec demo_cq_ops (demo_completions, [])) \<and>
   fst (run_calls cq_exec demo_cq_ops (demo_completions, [])) =
     [CQ_Event VIREO_OK False None, CQ_Event VIREO_OK True None, CQ_Event VIREO_OK True None, CQ_Blocked,
      CQ_Event VIREO_OK True (Some 5), CQ_Event VIREO_OK True None, CQ_Event VIREO_OK True None,
      CQ_Event VIREO_RESULT_CANCELLED False (Some 8), CQ_Event VIREO_OK True (Some 6), CQ_Event VIREO_OK True (Some 7),
      CQ_Event VIREO_RESULT_CANCELLED False None]"
proof -
  obtain es q' codes' where run: "run_calls cq_exec demo_cq_ops (demo_completions, []) = (es, (q', codes'))" by (metis surj_pair)
  have "fst (run_calls cq_spec_exec demo_cq_ops \<lparr>cp_items = [], cp_closed = False, cp_capacity = 2, cp_prepared = False\<rparr>) =
      fst (run_calls cq_exec demo_cq_ops (demo_completions, []))" using completion_queue_refines [OF demo_cq_OK run] run by simp
  moreover have "fst (run_calls cq_exec demo_cq_ops (demo_completions, [])) =
     [CQ_Event VIREO_OK False None, CQ_Event VIREO_OK True None, CQ_Event VIREO_OK True None, CQ_Blocked,
      CQ_Event VIREO_OK True (Some 5), CQ_Event VIREO_OK True None, CQ_Event VIREO_OK True None,
      CQ_Event VIREO_RESULT_CANCELLED False (Some 8), CQ_Event VIREO_OK True (Some 6), CQ_Event VIREO_OK True (Some 7),
      CQ_Event VIREO_RESULT_CANCELLED False None]" by code_simp
  ultimately show ?thesis by blast
qed

end
