(* ===== verification/Net_Connection.thy ===== *)
theory Net_Connection
  imports Base_Buffer Protocol_Message
begin

text \<open>
  The connection, \<^verbatim>\<open>src/net/connection.c\<close>: one socket, a read and a write buffer, bounded receive and send
  rounds, recognition of whole frames, and (in theory \<open>Net_Binding\<close>) the binding to the event loop, flow
  control and closing.

  The world outside is a record \<open>net_env\<close>. Socket queries and \<open>close\<close> answer from a list; \<open>recv\<close> hands out the
  segments that arrived, cut to the request; \<open>send\<close> takes a prefix of what is offered, and \<open>ne_wire\<close> is
  what it took so far; either may fail with any errno or answer outside its contract. A call past the end of its
  list fails with \<open>EAGAIN\<close> (for queries \<open>EBADF\<close>). The event loop answers from a list of results. The TLS object
  that a connection may own is a parameter with the operations the connection delegates to. The table of
  resource operations is the system table, so only the presence of its entries is kept.
\<close>

subsection \<open>The world\<close>

abbreviation EAGAIN :: int where "EAGAIN \<equiv> 11"
abbreviation EBADF :: int where "EBADF \<equiv> 9"

datatype recv_answer = Recv_Data bytes | Recv_Fail int | Recv_Odd int

datatype send_answer = Send_Take nat | Send_Fail int | Send_Odd int

record vireo_event_loop_handle =
  lh_loop_id :: u64
  lh_token :: u64

record vireo_event_loop_error =
  ele_stage :: nat
  ele_epoll_stage :: nat
  ele_epoll_errno :: int
  ele_system_errno :: int

definition no_loop_error :: vireo_event_loop_error where
  "no_loop_error = \<lparr>ele_stage = 0, ele_epoll_stage = 0, ele_epoll_errno = 0, ele_system_errno = 0\<rparr>"

record net_env =
  ne_heap :: vireo_heap
  ne_query :: "(int \<times> int \<times> int) list"
  ne_recv :: "recv_answer list"
  ne_delivered :: bytes
  ne_send :: "send_answer list"
  ne_wire :: bytes
  ne_loop :: "(vireo_result \<times> vireo_event_loop_handle \<times> vireo_event_loop_error) list"

text \<open>A query answers a return value, a value for its output variable and errno.\<close>

definition sys_query :: "net_env \<Rightarrow> (int \<times> int \<times> int) \<times> net_env" where
  "sys_query env = (case ne_query env of [] \<Rightarrow> ((-1, 0, EBADF), env) | a # as \<Rightarrow> (a, env\<lparr>ne_query := as\<rparr>))"

text \<open>The answer of \<open>recv\<close>: the return value, the bytes put into the caller's array, and errno.\<close>

definition sys_receive :: "size_t \<Rightarrow> net_env \<Rightarrow> (int \<times> bytes \<times> int) \<times> net_env" where
  "sys_receive request env =
     (case ne_recv env of
        [] \<Rightarrow> ((-1, [], EAGAIN), env)
      | Recv_Fail e # as \<Rightarrow> ((-1, [], e), env\<lparr>ne_recv := as\<rparr>)
      | Recv_Odd n # as \<Rightarrow> ((if -1 \<le> n \<and> n \<le> uint request then -2 else n, [], 0), env\<lparr>ne_recv := as\<rparr>)
      | Recv_Data d # as \<Rightarrow>
          let got = take (unat request) d; rest = drop (unat request) d in
          ((int (length got), got, 0),
           env\<lparr>ne_recv := (if rest = [] then as else Recv_Data rest # as), ne_delivered := ne_delivered env @ got\<rparr>))"

definition sys_send :: "bytes \<Rightarrow> size_t \<Rightarrow> net_env \<Rightarrow> (int \<times> int) \<times> net_env" where
  "sys_send data request env =
     (case ne_send env of
        [] \<Rightarrow> ((-1, EAGAIN), env)
      | Send_Fail e # as \<Rightarrow> ((-1, e), env\<lparr>ne_send := as\<rparr>)
      | Send_Odd n # as \<Rightarrow> ((if -1 \<le> n \<and> n \<le> uint request then 0 else n, 0), env\<lparr>ne_send := as\<rparr>)
      | Send_Take k # as \<Rightarrow>
          let n = min k (unat request) in
          ((int n, 0), env\<lparr>ne_send := as, ne_wire := ne_wire env @ take n data\<rparr>))"

definition sys_loop :: "net_env \<Rightarrow> (vireo_result \<times> vireo_event_loop_handle \<times> vireo_event_loop_error) \<times> net_env" where
  "sys_loop env =
     (case ne_loop env of
        [] \<Rightarrow> ((VIREO_OK, \<lparr>lh_loop_id = 1, lh_token = 1\<rparr>, no_loop_error), env)
      | a # as \<Rightarrow> (a, env\<lparr>ne_loop := as\<rparr>))"

subsection \<open>Data\<close>

abbreviation VIREO_CONNECTION_MAX_BUFFER_BYTES :: size_t where "VIREO_CONNECTION_MAX_BUFFER_BYTES \<equiv> 67108864"

record vireo_connection_options =
  co_read_capacity :: size_t
  co_write_capacity :: size_t
  co_max_buffer_bytes :: size_t

record vireo_connection_flow_options =
  fo_max_frame_bytes :: size_t
  fo_read_low :: size_t
  fo_read_high :: size_t
  fo_write_low :: size_t
  fo_write_high :: size_t

datatype vireo_connection_transport = VIREO_CONNECTION_TRANSPORT_RAW | VIREO_CONNECTION_TRANSPORT_TLS

datatype vireo_connection_close_state = VIREO_CONNECTION_CLOSE_OPEN | VIREO_CONNECTION_CLOSE_DRAINING | VIREO_CONNECTION_CLOSE_READY

datatype vireo_connection_close_mode = VIREO_CONNECTION_CLOSE_MODE_NONE | VIREO_CONNECTION_CLOSE_MODE_DRAIN |
  VIREO_CONNECTION_CLOSE_MODE_IMMEDIATE

datatype vireo_connection_close_reason = VIREO_CONNECTION_CLOSE_REASON_NONE | VIREO_CONNECTION_CLOSE_REASON_APPLICATION |
  VIREO_CONNECTION_CLOSE_REASON_PEER_EOF | VIREO_CONNECTION_CLOSE_REASON_PROTOCOL | VIREO_CONNECTION_CLOSE_REASON_IO |
  VIREO_CONNECTION_CLOSE_REASON_SERVER_STOP | VIREO_CONNECTION_CLOSE_REASON_RESOURCE_LIMIT

record vireo_connection_info =
  ci_read_buffer :: vireo_buffer_info
  ci_write_buffer :: vireo_buffer_info
  ci_buffer_capacity_bytes :: size_t
  ci_max_buffer_bytes :: size_t
  ci_read_eof :: bool
  ci_loop_attached :: bool
  ci_loop_interests :: u32
  ci_callback_active :: bool
  ci_flow_enabled :: bool
  ci_read_pressure :: bool
  ci_write_pressure :: bool
  ci_flow_options :: vireo_connection_flow_options
  ci_close_state :: vireo_connection_close_state
  ci_close_mode :: vireo_connection_close_mode
  ci_close_reason :: vireo_connection_close_reason
  ci_transport :: vireo_connection_transport

datatype vireo_connection_stage = VIREO_CONNECTION_STAGE_NONE | VIREO_CONNECTION_STAGE_VALIDATE_FD |
  VIREO_CONNECTION_STAGE_ALLOCATE_CONTROL | VIREO_CONNECTION_STAGE_CREATE_READ_BUFFER |
  VIREO_CONNECTION_STAGE_CREATE_WRITE_BUFFER | VIREO_CONNECTION_STAGE_CLOSE_SOCKET | VIREO_CONNECTION_STAGE_RECEIVE |
  VIREO_CONNECTION_STAGE_ENQUEUE | VIREO_CONNECTION_STAGE_SEND | VIREO_CONNECTION_STAGE_TLS | VIREO_CONNECTION_STAGE_QUERY_PEER

record vireo_tls_connection_error =
  te_stage :: nat
  te_system_errno :: int
  te_openssl_error_code :: u64
  te_has_more_errors :: bool

definition no_tls_error :: vireo_tls_connection_error where
  "no_tls_error = \<lparr>te_stage = 0, te_system_errno = 0, te_openssl_error_code = 0, te_has_more_errors = False\<rparr>"

record vireo_connection_error =
  ce_stage :: vireo_connection_stage
  ce_system_errno :: int
  ce_tls_error :: vireo_tls_connection_error

record vireo_connection_peer =
  cp_family :: u8
  cp_address :: bytes

record vireo_connection_receive_budget =
  rb_max_bytes :: size_t
  rb_max_syscalls :: size_t

datatype vireo_connection_receive_stop = VIREO_CONNECTION_RECEIVE_STOP_WOULD_BLOCK | VIREO_CONNECTION_RECEIVE_STOP_EOF |
  VIREO_CONNECTION_RECEIVE_STOP_BUFFER_FULL | VIREO_CONNECTION_RECEIVE_STOP_BYTE_BUDGET |
  VIREO_CONNECTION_RECEIVE_STOP_CALL_BUDGET | VIREO_CONNECTION_RECEIVE_STOP_ERROR

record vireo_connection_receive_info =
  ri_received_bytes :: size_t
  ri_recv_calls :: size_t
  ri_stop_reason :: vireo_connection_receive_stop

datatype vireo_connection_frame_direction = VIREO_CONNECTION_FRAME_REQUEST | VIREO_CONNECTION_FRAME_RESPONSE

record vireo_connection_frame_options =
  fr_direction :: vireo_connection_frame_direction
  fr_max_frame_bytes :: size_t

record vireo_connection_frame_budget =
  fb_max_messages :: size_t
  fb_max_bytes :: size_t

text \<open>The body of a view is a borrowed region of the read buffer; the model holds its bytes.\<close>

record vireo_connection_frame_view =
  fv_header :: vireo_protocol_header
  fv_body :: "bytes option"
  fv_body_size :: size_t
  fv_wire_size :: size_t

datatype vireo_connection_frame_stop = VIREO_CONNECTION_FRAME_STOP_NEED_MORE | VIREO_CONNECTION_FRAME_STOP_EOF |
  VIREO_CONNECTION_FRAME_STOP_MESSAGE_BUDGET | VIREO_CONNECTION_FRAME_STOP_BYTE_BUDGET | VIREO_CONNECTION_FRAME_STOP_OUTPUT_FULL |
  VIREO_CONNECTION_FRAME_STOP_ERROR

record vireo_connection_frame_info =
  fi_frame_count :: size_t
  fi_frame_bytes :: size_t
  fi_stop_reason :: vireo_connection_frame_stop

datatype vireo_connection_frame_issue = VIREO_CONNECTION_FRAME_ISSUE_NONE | VIREO_CONNECTION_FRAME_ISSUE_CODEC |
  VIREO_CONNECTION_FRAME_ISSUE_FRAME_TOO_LARGE | VIREO_CONNECTION_FRAME_ISSUE_TRUNCATED

record vireo_connection_frame_error =
  fe_issue :: vireo_connection_frame_issue
  fe_codec_issue :: vireo_protocol_codec_issue

record vireo_connection_send_budget =
  sb_max_bytes :: size_t
  sb_max_syscalls :: size_t

datatype vireo_connection_send_stop = VIREO_CONNECTION_SEND_STOP_EMPTY | VIREO_CONNECTION_SEND_STOP_WOULD_BLOCK |
  VIREO_CONNECTION_SEND_STOP_BYTE_BUDGET | VIREO_CONNECTION_SEND_STOP_CALL_BUDGET | VIREO_CONNECTION_SEND_STOP_ERROR

record vireo_connection_send_info =
  si_sent_bytes :: size_t
  si_send_calls :: size_t
  si_stop_reason :: vireo_connection_send_stop

text \<open>The table of resource operations and the table of loop operations: which entries are set.\<close>

record vireo_connection_ops =
  op_allocate :: bool
  op_deallocate :: bool
  op_get_flags :: bool
  op_socket_type :: bool
  op_peer_connected :: bool
  op_close_fd :: bool
  op_create_buffer :: bool
  op_destroy_buffer :: bool
  op_receive :: bool
  op_send_bytes :: bool

record vireo_connection_loop_ops =
  lo_add :: bool
  lo_mod :: bool
  lo_del :: bool

text \<open>The binding names its loop, callback and context by numbers; \<open>cn_self\<close> is the control block on the heap.\<close>

record 'tls vireo_connection =
  cn_owned_fd :: int
  cn_owned_tls :: "'tls option"
  cn_read_buffer :: "vireo_buffer option"
  cn_write_buffer :: "vireo_buffer option"
  cn_buffer_capacity_bytes :: size_t
  cn_max_buffer_bytes :: size_t
  cn_read_eof :: bool
  cn_ops :: vireo_connection_ops
  cn_loop_ops :: vireo_connection_loop_ops
  cn_borrowed_loop :: "nat option"
  cn_loop_attached :: bool
  cn_loop_handle :: vireo_event_loop_handle
  cn_loop_interests :: u32
  cn_callback :: "nat option"
  cn_callback_context :: "nat option"
  cn_callback_active :: bool
  cn_flow_enabled :: bool
  cn_read_pressure :: bool
  cn_write_pressure :: bool
  cn_flow_options :: vireo_connection_flow_options
  cn_close_state :: vireo_connection_close_state
  cn_close_mode :: vireo_connection_close_mode
  cn_close_reason :: vireo_connection_close_reason
  cn_self :: nat

text \<open>The TLS object, from \<^verbatim>\<open>src/net/tls_connection.c\<close> and \<^verbatim>\<open>src/net/tls_io.c\<close>: what a connection asks of it.\<close>

datatype vireo_tls_io_state = VIREO_TLS_IO_DISABLED | VIREO_TLS_IO_OPEN | VIREO_TLS_IO_FAILED | VIREO_TLS_IO_PREPARED

record vireo_tls_io_info =
  ti_state :: vireo_tls_io_state
  ti_read_eof :: bool
  ti_read_capacity :: size_t
  ti_write_capacity :: size_t
  ti_max_buffer_bytes :: size_t
  ti_max_read_unit_bytes :: size_t
  ti_buffer_bytes :: size_t
  ti_read_buffer :: vireo_buffer_info
  ti_write_buffer :: vireo_buffer_info

record 'tls tls_ops =
  to_create_server :: "int \<Rightarrow> net_env \<Rightarrow> vireo_result \<times> 'tls option \<times> vireo_tls_connection_error \<times> net_env"
  to_io_inspect :: "'tls \<Rightarrow> vireo_result \<times> vireo_tls_io_info"
  to_read_peek :: "'tls \<Rightarrow> bytes option option \<Rightarrow> size_t option \<Rightarrow> vireo_result \<times> bytes option option \<times> size_t option"
  to_read_consume :: "'tls \<Rightarrow> size_t \<Rightarrow> vireo_result \<times> 'tls"
  to_enqueue :: "'tls \<Rightarrow> bytes option \<Rightarrow> size_t \<Rightarrow> vireo_result \<times> 'tls \<times> vireo_tls_connection_error"
  to_destroy :: "'tls \<Rightarrow> net_env \<Rightarrow> net_env"

subsection \<open>Creation and destruction\<close>

text \<open>Error outputs are written on every path; errno is restored on every path and not modelled.\<close>

definition finish ::
  "vireo_connection_error option \<Rightarrow> vireo_connection_stage \<Rightarrow> int \<Rightarrow> vireo_connection_error option" where
  "finish error stage cause = map_option (\<lambda>_. \<lparr>ce_stage = stage, ce_system_errno = cause, ce_tls_error = no_tls_error\<rparr>) error"

definition tls_finish ::
  "vireo_connection_error option \<Rightarrow> vireo_result \<Rightarrow> vireo_tls_connection_error \<Rightarrow> vireo_connection_error option" where
  "tls_finish error result dependency =
     (let error = finish error VIREO_CONNECTION_STAGE_NONE 0 in
      if result \<noteq> VIREO_OK
      then map_option (\<lambda>_. \<lparr>ce_stage = VIREO_CONNECTION_STAGE_TLS, ce_system_errno = te_system_errno dependency,
        ce_tls_error = dependency\<rparr>) error
      else error)"

definition resource_ops_valid :: "vireo_connection_ops option \<Rightarrow> bool" where
  "resource_ops_valid ops \<longleftrightarrow> ops \<noteq> None \<and> op_allocate (the ops) \<and> op_deallocate (the ops) \<and> op_get_flags (the ops) \<and>
     op_socket_type (the ops) \<and> op_peer_connected (the ops) \<and> op_close_fd (the ops) \<and> op_create_buffer (the ops) \<and>
     op_destroy_buffer (the ops) \<and> op_receive (the ops) \<and> op_send_bytes (the ops)"

definition system_ops :: vireo_connection_ops where
  "system_ops = \<lparr>op_allocate = True, op_deallocate = True, op_get_flags = True, op_socket_type = True, op_peer_connected = True,
     op_close_fd = True, op_create_buffer = True, op_destroy_buffer = True, op_receive = True, op_send_bytes = True\<rparr>"

definition system_loop_ops :: vireo_connection_loop_ops where
  "system_loop_ops = \<lparr>lo_add = True, lo_mod = True, lo_del = True\<rparr>"

abbreviation O_NONBLOCK :: int where "O_NONBLOCK \<equiv> 2048"
abbreviation FD_CLOEXEC :: int where "FD_CLOEXEC \<equiv> 1"
abbreviation SOCK_STREAM :: int where "SOCK_STREAM \<equiv> 1"
abbreviation sizeof_connection :: size_t where "sizeof_connection \<equiv> 312"

text \<open>The freshly initialised control block.\<close>

definition no_flow_options :: vireo_connection_flow_options where
  "no_flow_options = \<lparr>fo_max_frame_bytes = 0, fo_read_low = 0, fo_read_high = 0, fo_write_low = 0, fo_write_high = 0\<rparr>"

definition no_loop_handle :: vireo_event_loop_handle where
  "no_loop_handle = \<lparr>lh_loop_id = 0, lh_token = 0\<rparr>"

definition connection_init :: "size_t \<Rightarrow> size_t \<Rightarrow> vireo_connection_ops \<Rightarrow> nat \<Rightarrow> 'tls vireo_connection" where
  "connection_init capacity_bytes max_buffer_bytes ops self =
     \<lparr>cn_owned_fd = -1, cn_owned_tls = None, cn_read_buffer = None, cn_write_buffer = None,
      cn_buffer_capacity_bytes = capacity_bytes, cn_max_buffer_bytes = max_buffer_bytes, cn_read_eof = False, cn_ops = ops,
      cn_loop_ops = system_loop_ops, cn_borrowed_loop = None, cn_loop_attached = False, cn_loop_handle = no_loop_handle,
      cn_loop_interests = 0, cn_callback = None, cn_callback_context = None, cn_callback_active = False, cn_flow_enabled = False,
      cn_read_pressure = False, cn_write_pressure = False, cn_flow_options = no_flow_options,
      cn_close_state = VIREO_CONNECTION_CLOSE_OPEN, cn_close_mode = VIREO_CONNECTION_CLOSE_MODE_NONE,
      cn_close_reason = VIREO_CONNECTION_CLOSE_REASON_NONE, cn_self = self\<rparr>"

definition create_buffer :: "size_t \<Rightarrow> vireo_buffer option \<Rightarrow> net_env \<Rightarrow> vireo_result \<times> vireo_buffer option \<times> net_env" where
  "create_buffer capacity out env =
     (case vireo_buffer_create capacity (Some out) (ne_heap env) of (result, out, heap) \<Rightarrow> (result, the out, env\<lparr>ne_heap := heap\<rparr>))"

definition destroy_buffer :: "vireo_buffer option \<Rightarrow> net_env \<Rightarrow> net_env" where
  "destroy_buffer owner env = (case vireo_buffer_destroy (Some owner) (ne_heap env) of (result, owner, heap) \<Rightarrow> env\<lparr>ne_heap := heap\<rparr>)"

definition release_memory :: "'tls tls_ops \<Rightarrow> 'tls vireo_connection \<Rightarrow> net_env \<Rightarrow> net_env" where
  "release_memory tls connection env =
     (let env = (case cn_owned_tls connection of Some t \<Rightarrow> to_destroy tls t env | None \<Rightarrow> env);
          env = (if cn_write_buffer connection \<noteq> None then destroy_buffer (cn_write_buffer connection) env else env);
          env = (if cn_read_buffer connection \<noteq> None then destroy_buffer (cn_read_buffer connection) env else env)
      in env\<lparr>ne_heap := deallocate_default (ne_heap env) (cn_self connection) []\<rparr>)"

text \<open>The checks on the descriptor, in order: stage and cause of the first that fails.\<close>

definition validate_fd :: "net_env \<Rightarrow> (vireo_result \<times> vireo_connection_stage \<times> int) \<times> net_env" where
  "validate_fd env =
     (let ((flags, v, cause), env) = sys_query env in
      if flags < 0 then ((VIREO_RESULT_IO, VIREO_CONNECTION_STAGE_VALIDATE_FD, cause), env)
      else if flags AND O_NONBLOCK = 0 then ((VIREO_RESULT_INVALID_ARGUMENT, VIREO_CONNECTION_STAGE_NONE, 0), env)
      else
        let ((flags, v, cause), env) = sys_query env in
        if flags < 0 then ((VIREO_RESULT_IO, VIREO_CONNECTION_STAGE_VALIDATE_FD, cause), env)
        else if flags AND FD_CLOEXEC = 0 then ((VIREO_RESULT_INVALID_ARGUMENT, VIREO_CONNECTION_STAGE_NONE, 0), env)
        else
          let ((rc, typ, cause), env) = sys_query env in
          if rc < 0 then ((VIREO_RESULT_IO, VIREO_CONNECTION_STAGE_VALIDATE_FD, cause), env)
          else if typ \<noteq> SOCK_STREAM then ((VIREO_RESULT_INVALID_ARGUMENT, VIREO_CONNECTION_STAGE_NONE, 0), env)
          else
            let ((rc, v, cause), env) = sys_query env in
            if rc < 0 then ((VIREO_RESULT_IO, VIREO_CONNECTION_STAGE_VALIDATE_FD, cause), env)
            else ((VIREO_OK, VIREO_CONNECTION_STAGE_NONE, 0), env))"

definition vireo_connection_create_with_ops ::
  "'tls tls_ops \<Rightarrow> vireo_connection_options option \<Rightarrow> int option \<Rightarrow> vireo_connection_ops option \<Rightarrow>
   'tls vireo_connection option option \<Rightarrow> vireo_connection_error option \<Rightarrow> net_env \<Rightarrow>
   vireo_result \<times> int option \<times> 'tls vireo_connection option option \<times> vireo_connection_error option \<times> net_env" where
  "vireo_connection_create_with_ops tls options fd_owner ops out_connection error env =
     (if options = None \<or> fd_owner = None \<or> Option.is_none out_connection \<or> the fd_owner < 0 \<or>
         \<not> Option.is_none (the out_connection) \<or> \<not> resource_ops_valid ops
      then (VIREO_RESULT_INVALID_ARGUMENT, fd_owner, out_connection, finish error VIREO_CONNECTION_STAGE_NONE 0, env)
      else
        let (result, capacity_bytes) = vireo_checked_size_add (co_read_capacity (the options)) (co_write_capacity (the options)) (Some 0) in
        if result \<noteq> VIREO_OK then (result, fd_owner, out_connection, finish error VIREO_CONNECTION_STAGE_NONE 0, env)
        else if co_read_capacity (the options) = 0 \<or> co_write_capacity (the options) = 0 \<or>
          co_read_capacity (the options) > VIREO_BUFFER_MAX_CAPACITY \<or> co_write_capacity (the options) > VIREO_BUFFER_MAX_CAPACITY \<or>
          co_max_buffer_bytes (the options) = 0 \<or> co_max_buffer_bytes (the options) > VIREO_CONNECTION_MAX_BUFFER_BYTES \<or>
          the capacity_bytes > co_max_buffer_bytes (the options)
        then (VIREO_RESULT_RANGE, fd_owner, out_connection, finish error VIREO_CONNECTION_STAGE_NONE 0, env)
        else
          let ((result, stage, cause), env) = validate_fd env in
          if result \<noteq> VIREO_OK then (result, fd_owner, out_connection, finish error stage cause, env)
          else
            let (candidate, heap) = allocate_default (ne_heap env) sizeof_connection; env = env\<lparr>ne_heap := heap\<rparr> in
            case candidate of
              None \<Rightarrow> (VIREO_RESULT_NO_MEMORY, fd_owner, out_connection, finish error VIREO_CONNECTION_STAGE_ALLOCATE_CONTROL 0, env)
            | Some self \<Rightarrow>
                let c = connection_init (the capacity_bytes) (co_max_buffer_bytes (the options)) (the ops) self;
                    (result, buffer, env) = create_buffer (co_read_capacity (the options)) (cn_read_buffer c) env;
                    c = c\<lparr>cn_read_buffer := buffer\<rparr> in
                if result \<noteq> VIREO_OK
                then (result, fd_owner, out_connection, finish error VIREO_CONNECTION_STAGE_CREATE_READ_BUFFER 0, release_memory tls c env)
                else
                  let (result, buffer, env) = create_buffer (co_write_capacity (the options)) (cn_write_buffer c) env;
                      c = c\<lparr>cn_write_buffer := buffer\<rparr> in
                  if result \<noteq> VIREO_OK
                  then (result, fd_owner, out_connection, finish error VIREO_CONNECTION_STAGE_CREATE_WRITE_BUFFER 0, release_memory tls c env)
                  else (VIREO_OK, Some (-1), Some (Some (c\<lparr>cn_owned_fd := the fd_owner\<rparr>)), finish error VIREO_CONNECTION_STAGE_NONE 0, env))"

definition vireo_connection_create where
  "vireo_connection_create tls options fd_owner out_connection error env =
     vireo_connection_create_with_ops tls options fd_owner (Some system_ops) out_connection error env"

definition vireo_connection_create_with_loop_ops ::
  "'tls tls_ops \<Rightarrow> vireo_connection_options option \<Rightarrow> int option \<Rightarrow> vireo_connection_loop_ops option \<Rightarrow>
   'tls vireo_connection option option \<Rightarrow> vireo_connection_error option \<Rightarrow> net_env \<Rightarrow>
   vireo_result \<times> int option \<times> 'tls vireo_connection option option \<times> vireo_connection_error option \<times> net_env" where
  "vireo_connection_create_with_loop_ops tls options fd_owner loop_ops out_connection error env =
     (if Option.is_none out_connection \<or> \<not> Option.is_none (the out_connection) \<or> loop_ops = None \<or> \<not> lo_add (the loop_ops) \<or>
         \<not> lo_mod (the loop_ops) \<or> \<not> lo_del (the loop_ops)
      then (VIREO_RESULT_INVALID_ARGUMENT, fd_owner, out_connection, finish error VIREO_CONNECTION_STAGE_NONE 0, env)
      else
        let (result, fd_owner, candidate, error, env) =
              vireo_connection_create_with_ops tls options fd_owner (Some system_ops) (Some None) error env in
        (result, fd_owner,
         if result = VIREO_OK then Some (map_option (\<lambda>c. c\<lparr>cn_loop_ops := the loop_ops\<rparr>) (the candidate)) else out_connection, error, env))"

text \<open>A TLS connection. The context and the TLS options are read by the TLS object only; here they are present or not.\<close>

definition vireo_connection_create_tls_server_with_ops ::
  "'tls tls_ops \<Rightarrow> bool \<Rightarrow> bool \<Rightarrow> int option \<Rightarrow> vireo_connection_ops option \<Rightarrow> 'tls vireo_connection option option \<Rightarrow>
   vireo_connection_error option \<Rightarrow> net_env \<Rightarrow>
   vireo_result \<times> int option \<times> 'tls vireo_connection option option \<times> vireo_connection_error option \<times> net_env" where
  "vireo_connection_create_tls_server_with_ops tls has_context has_options fd_owner ops out_connection error env =
     (if \<not> has_context \<or> \<not> has_options \<or> fd_owner = None \<or> Option.is_none out_connection \<or> the fd_owner < 0 \<or>
         \<not> Option.is_none (the out_connection) \<or> \<not> resource_ops_valid ops
      then (VIREO_RESULT_INVALID_ARGUMENT, fd_owner, out_connection, finish error VIREO_CONNECTION_STAGE_NONE 0, env)
      else
        let (candidate, heap) = allocate_default (ne_heap env) sizeof_connection; env = env\<lparr>ne_heap := heap\<rparr> in
        case candidate of
          None \<Rightarrow> (VIREO_RESULT_NO_MEMORY, fd_owner, out_connection, finish error VIREO_CONNECTION_STAGE_ALLOCATE_CONTROL 0, env)
        | Some self \<Rightarrow>
            let (result, t, dependency, env) = to_create_server tls (the fd_owner) env;
                c = (connection_init 0 0 (the ops) self)\<lparr>cn_owned_tls := t\<rparr> in
            if result \<noteq> VIREO_OK then (result, fd_owner, out_connection, tls_finish error result dependency, release_memory tls c env)
            else (VIREO_OK, Some (-1), Some (Some (c\<lparr>cn_owned_fd := the fd_owner\<rparr>)), finish error VIREO_CONNECTION_STAGE_NONE 0, env))"

definition vireo_connection_create_tls_server where
  "vireo_connection_create_tls_server tls has_context has_options fd_owner out_connection error env =
     vireo_connection_create_tls_server_with_ops tls has_context has_options fd_owner (Some system_ops) out_connection error env"

definition vireo_connection_tls_borrow ::
  "'tls vireo_connection option \<Rightarrow> 'tls option option \<Rightarrow> vireo_result \<times> 'tls option option" where
  "vireo_connection_tls_borrow connection out_borrowed_tls =
     (if Option.is_none connection \<or> Option.is_none out_borrowed_tls then (VIREO_RESULT_INVALID_ARGUMENT, out_borrowed_tls)
      else if Option.is_none (cn_owned_tls (the connection)) then (VIREO_RESULT_NOT_FOUND, out_borrowed_tls)
      else (VIREO_OK, Some (cn_owned_tls (the connection))))"

definition vireo_connection_destroy ::
  "'tls tls_ops \<Rightarrow> 'tls vireo_connection option option \<Rightarrow> vireo_connection_error option \<Rightarrow> net_env \<Rightarrow>
   vireo_result \<times> 'tls vireo_connection option option \<times> vireo_connection_error option \<times> net_env" where
  "vireo_connection_destroy tls connection error env =
     (case connection of
        None \<Rightarrow> (VIREO_RESULT_INVALID_ARGUMENT, connection, finish error VIREO_CONNECTION_STAGE_NONE 0, env)
      | Some None \<Rightarrow> (VIREO_OK, connection, finish error VIREO_CONNECTION_STAGE_NONE 0, env)
      | Some (Some owned) \<Rightarrow>
          if cn_loop_attached owned \<or> cn_callback_active owned
          then (VIREO_RESULT_BUSY, connection, finish error VIREO_CONNECTION_STAGE_NONE 0, env)
          else
            let env = (case cn_owned_tls owned of Some t \<Rightarrow> to_destroy tls t env | None \<Rightarrow> env);
                owned = owned\<lparr>cn_owned_tls := None\<rparr>;
                ((failed, v, err), env) = sys_query env;
                cause = (if failed < 0 then err else 0);
                env = release_memory tls owned env in
            (if failed < 0 then VIREO_RESULT_IO else VIREO_OK, Some None,
             finish error (if failed < 0 then VIREO_CONNECTION_STAGE_CLOSE_SOCKET else VIREO_CONNECTION_STAGE_NONE) cause, env))"

subsection \<open>Inspection\<close>

definition no_buffer_info :: vireo_buffer_info where
  "no_buffer_info = \<lparr>bi_capacity = 0, bi_readable_size = 0, bi_tail_space = 0\<rparr>"

definition no_connection_info :: vireo_connection_info where
  "no_connection_info = \<lparr>ci_read_buffer = no_buffer_info, ci_write_buffer = no_buffer_info, ci_buffer_capacity_bytes = 0,
     ci_max_buffer_bytes = 0, ci_read_eof = False, ci_loop_attached = False, ci_loop_interests = 0, ci_callback_active = False,
     ci_flow_enabled = False, ci_read_pressure = False, ci_write_pressure = False, ci_flow_options = no_flow_options,
     ci_close_state = VIREO_CONNECTION_CLOSE_OPEN, ci_close_mode = VIREO_CONNECTION_CLOSE_MODE_NONE,
     ci_close_reason = VIREO_CONNECTION_CLOSE_REASON_NONE, ci_transport = VIREO_CONNECTION_TRANSPORT_RAW\<rparr>"

text \<open>The part that depends on the transport: result and the fields read from the buffers.\<close>

definition inspect_transport :: "'tls tls_ops \<Rightarrow> 'tls vireo_connection \<Rightarrow> vireo_result \<times> vireo_connection_info" where
  "inspect_transport tls c =
     (case cn_owned_tls c of
        Some t \<Rightarrow>
          let (result, io) = to_io_inspect tls t in
          if result \<noteq> VIREO_OK then (result, no_connection_info)
          else
            let i = no_connection_info\<lparr>ci_transport := VIREO_CONNECTION_TRANSPORT_TLS, ci_read_buffer := ti_read_buffer io,
                  ci_write_buffer := ti_write_buffer io, ci_read_eof := ti_read_eof io\<rparr> in
            (VIREO_OK,
             if ti_state io \<noteq> VIREO_TLS_IO_DISABLED
             then let cap = ti_read_capacity io + ti_write_capacity io in
               i\<lparr>ci_buffer_capacity_bytes := cap, ci_max_buffer_bytes := ti_max_buffer_bytes io - (ti_buffer_bytes io - cap)\<rparr>
             else i)
      | None \<Rightarrow>
          let (result, rb) = vireo_buffer_inspect (cn_read_buffer c) (Some no_buffer_info) in
          if result \<noteq> VIREO_OK then (result, no_connection_info)
          else
            let (result, wb) = vireo_buffer_inspect (cn_write_buffer c) (Some no_buffer_info) in
            if result \<noteq> VIREO_OK then (result, no_connection_info)
            else (VIREO_OK, no_connection_info\<lparr>ci_read_buffer := the rb, ci_write_buffer := the wb,
              ci_buffer_capacity_bytes := cn_buffer_capacity_bytes c, ci_max_buffer_bytes := cn_max_buffer_bytes c,
              ci_read_eof := cn_read_eof c\<rparr>))"

definition vireo_connection_inspect ::
  "'tls tls_ops \<Rightarrow> 'tls vireo_connection option \<Rightarrow> vireo_connection_info option \<Rightarrow> vireo_result \<times> vireo_connection_info option" where
  "vireo_connection_inspect tls connection out_info =
     (if Option.is_none connection \<or> out_info = None then (VIREO_RESULT_INVALID_ARGUMENT, out_info)
      else
        let c = the connection; (result, candidate) = inspect_transport tls c in
        if result \<noteq> VIREO_OK then (result, out_info)
        else (VIREO_OK, Some (candidate\<lparr>ci_loop_attached := cn_loop_attached c, ci_loop_interests := cn_loop_interests c,
          ci_callback_active := cn_callback_active c, ci_flow_enabled := cn_flow_enabled c, ci_read_pressure := cn_read_pressure c,
          ci_write_pressure := cn_write_pressure c, ci_flow_options := cn_flow_options c, ci_close_state := cn_close_state c,
          ci_close_mode := cn_close_mode c, ci_close_reason := cn_close_reason c\<rparr>)))"

text \<open>
  The peer query. The answer of \<open>getpeername\<close> is its return value, errno, the 128 bytes of the address storage and the
  size it reports; the family is the first 16-bit field in host (little-endian) order.
\<close>

record peer_answer =
  pa_queried :: int
  pa_errno :: int
  pa_storage :: bytes
  pa_size :: u32

definition ss_family :: "bytes \<Rightarrow> u16" where
  "ss_family storage = ucast (storage ! 0) OR push_bit 8 (ucast (storage ! 1))"

definition vireo_connection_peer_query_with ::
  "'tls vireo_connection option \<Rightarrow> vireo_connection_peer option \<Rightarrow> vireo_connection_error option \<Rightarrow> peer_answer option \<Rightarrow>
   vireo_result \<times> vireo_connection_peer option \<times> vireo_connection_error option" where
  "vireo_connection_peer_query_with connection peer error get_peer =
     (if Option.is_none connection \<or> peer = None \<or> get_peer = None
      then (VIREO_RESULT_INVALID_ARGUMENT, peer, finish error VIREO_CONNECTION_STAGE_NONE 0)
      else
        let a = the get_peer; queried = pa_queried a; cause = pa_errno a; address = pa_storage a; sz = pa_size a in
        if queried \<noteq> 0
        then (if queried = -1 then VIREO_RESULT_IO else VIREO_RESULT_INTERNAL, peer,
          finish error VIREO_CONNECTION_STAGE_QUERY_PEER (if queried = -1 then cause else 0))
        else if sz < 2 \<or> sz > 128 then (VIREO_RESULT_INTERNAL, peer, finish error VIREO_CONNECTION_STAGE_QUERY_PEER 0)
        else if ss_family address = 2
        then
          if sz \<noteq> 16 then (VIREO_RESULT_INTERNAL, peer, finish error VIREO_CONNECTION_STAGE_QUERY_PEER 0)
          else (VIREO_OK, Some \<lparr>cp_family = 4, cp_address = mem_write 0 (mem_read 4 4 address) (replicate 16 0)\<rparr>,
            finish error VIREO_CONNECTION_STAGE_NONE 0)
        else if ss_family address = 10
        then
          if sz \<noteq> 28 then (VIREO_RESULT_INTERNAL, peer, finish error VIREO_CONNECTION_STAGE_QUERY_PEER 0)
          else (VIREO_OK, Some \<lparr>cp_family = 6, cp_address = mem_write 0 (mem_read 8 16 address) (replicate 16 0)\<rparr>,
            finish error VIREO_CONNECTION_STAGE_NONE 0)
        else (VIREO_RESULT_NOT_FOUND, peer, finish error VIREO_CONNECTION_STAGE_QUERY_PEER 0))"

subsection \<open>Receiving\<close>

definition receive_finish ::
  "vireo_connection_error option \<Rightarrow> vireo_result \<Rightarrow> int \<Rightarrow> vireo_connection_error option" where
  "receive_finish error result cause =
     finish error (if result = VIREO_OK then VIREO_CONNECTION_STAGE_NONE else VIREO_CONNECTION_STAGE_RECEIVE) cause"

text \<open>
  The receive loop: result, errno cause, statistics, connection and world. Every pass either ends the loop or makes one
  more call, and the calls are bounded by the budget. The scratch array is cleared before each exit, which is not
  visible outside.
\<close>

lemma word_count_up: "n \<noteq> (m :: size_t) \<Longrightarrow> unat (m - (n + 1)) < unat (m - n)"
proof -
  assume "n \<noteq> m"
  then have "m - n \<noteq> 0" by simp
  then have "unat (m - n - 1) < unat (m - n)" by (simp add: unat_minus_one unat_gt_0)
  then show ?thesis by (simp add: diff_diff_eq)
qed

function receive_loop ::
  "vireo_connection_receive_budget \<Rightarrow> vireo_connection_receive_info \<Rightarrow> size_t \<Rightarrow> 'tls vireo_connection \<Rightarrow> net_env \<Rightarrow>
   vireo_result \<times> int \<times> vireo_connection_receive_info \<times> 'tls vireo_connection \<times> net_env" where
  "receive_loop budget info tail_space c env =
     (if ri_received_bytes info = rb_max_bytes budget
      then (VIREO_OK, 0, info\<lparr>ri_stop_reason := VIREO_CONNECTION_RECEIVE_STOP_BYTE_BUDGET\<rparr>, c, env)
      else if tail_space = 0 then (VIREO_OK, 0, info\<lparr>ri_stop_reason := VIREO_CONNECTION_RECEIVE_STOP_BUFFER_FULL\<rparr>, c, env)
      else if ri_recv_calls info = rb_max_syscalls budget
      then (VIREO_OK, 0, info\<lparr>ri_stop_reason := VIREO_CONNECTION_RECEIVE_STOP_CALL_BUDGET\<rparr>, c, env)
      else
        let request = rb_max_bytes budget - ri_received_bytes info;
            request = (if request > tail_space then tail_space else request);
            request = (if request > 4096 then 4096 else request);
            info1 = info\<lparr>ri_recv_calls := ri_recv_calls info + 1\<rparr>;
            ((n, data, cause), env) = sys_receive request env;
            scratch = mem_write 0 data (replicate 4096 0) in
        if n < -1 \<or> n > sint request then (VIREO_RESULT_INTERNAL, 0, info1, c, env)
        else if n = -1
        then
          if cause = EAGAIN then (VIREO_OK, 0, info1\<lparr>ri_stop_reason := VIREO_CONNECTION_RECEIVE_STOP_WOULD_BLOCK\<rparr>, c, env)
          else (VIREO_RESULT_IO, cause, info1, c, env)
        else if n = 0
        then (VIREO_OK, 0, info1\<lparr>ri_stop_reason := VIREO_CONNECTION_RECEIVE_STOP_EOF\<rparr>, c\<lparr>cn_read_eof := True\<rparr>, env)
        else
          let received = word_of_int n;
              (result, total) = vireo_checked_size_add (ri_received_bytes info1) received (Some (ri_received_bytes info1));
              info2 = info1\<lparr>ri_received_bytes := the total\<rparr> in
          if result \<noteq> VIREO_OK then (VIREO_RESULT_INTERNAL, 0, info2, c, env)
          else
            let (result, rb) = vireo_buffer_append (cn_read_buffer c) (Some scratch) received; c = c\<lparr>cn_read_buffer := rb\<rparr> in
            if result \<noteq> VIREO_OK then (VIREO_RESULT_INTERNAL, 0, info2, c, env)
            else receive_loop budget info2 (tail_space - received) c env)"
  by pat_completeness auto
termination
  by (relation "measure (\<lambda>(budget, info, tail_space, c, env). unat (rb_max_syscalls budget - ri_recv_calls info))")
    (auto intro: word_count_up)

declare receive_loop.simps [simp del]

definition vireo_connection_receive ::
  "'tls vireo_connection option \<Rightarrow> vireo_connection_receive_budget option \<Rightarrow> vireo_connection_receive_info option \<Rightarrow>
   vireo_connection_error option \<Rightarrow> net_env \<Rightarrow>
   vireo_result \<times> 'tls vireo_connection option \<times> vireo_connection_receive_info option \<times> vireo_connection_error option \<times> net_env" where
  "vireo_connection_receive connection budget out_info error env =
     (if Option.is_none connection \<or> budget = None \<or> out_info = None
      then (VIREO_RESULT_INVALID_ARGUMENT, connection, out_info, finish error VIREO_CONNECTION_STAGE_NONE 0, env)
      else if rb_max_bytes (the budget) = 0 \<or> rb_max_syscalls (the budget) = 0
      then (VIREO_RESULT_RANGE, connection, out_info, finish error VIREO_CONNECTION_STAGE_NONE 0, env)
      else
        let c = the connection in
        if \<not> Option.is_none (cn_owned_tls c)
        then (VIREO_RESULT_BUSY, connection, out_info, finish error VIREO_CONNECTION_STAGE_NONE 0, env)
        else
          let info = \<lparr>ri_received_bytes = 0, ri_recv_calls = 0, ri_stop_reason = VIREO_CONNECTION_RECEIVE_STOP_ERROR\<rparr> in
          if cn_close_state c \<noteq> VIREO_CONNECTION_CLOSE_OPEN
          then (VIREO_RESULT_BUSY, connection, out_info, finish error VIREO_CONNECTION_STAGE_NONE 0, env)
          else
            let (result, rb) = vireo_buffer_compact (cn_read_buffer c); c = c\<lparr>cn_read_buffer := rb\<rparr> in
            if result \<noteq> VIREO_OK
            then (VIREO_RESULT_INTERNAL, Some c, Some info, receive_finish error VIREO_RESULT_INTERNAL 0, env)
            else if cn_read_eof c
            then (VIREO_OK, Some c, Some (info\<lparr>ri_stop_reason := VIREO_CONNECTION_RECEIVE_STOP_EOF\<rparr>), receive_finish error VIREO_OK 0, env)
            else
              let (result, buffer_info) = vireo_buffer_inspect (cn_read_buffer c) (Some no_buffer_info) in
              if result \<noteq> VIREO_OK
              then (VIREO_RESULT_INTERNAL, Some c, Some info, receive_finish error VIREO_RESULT_INTERNAL 0, env)
              else
                let (result, cause, info, c, env) = receive_loop (the budget) info (bi_tail_space (the buffer_info)) c env in
                (result, Some c, Some info, receive_finish error result cause, env))"

definition vireo_connection_read_peek ::
  "'tls tls_ops \<Rightarrow> 'tls vireo_connection option \<Rightarrow> bytes option option \<Rightarrow> size_t option \<Rightarrow>
   vireo_result \<times> bytes option option \<times> size_t option" where
  "vireo_connection_read_peek tls connection out_data out_size =
     (if Option.is_none connection then (VIREO_RESULT_INVALID_ARGUMENT, out_data, out_size)
      else case cn_owned_tls (the connection) of
        Some t \<Rightarrow> to_read_peek tls t out_data out_size
      | None \<Rightarrow> vireo_buffer_peek (cn_read_buffer (the connection)) out_data out_size)"

definition vireo_connection_read_consume ::
  "'tls tls_ops \<Rightarrow> 'tls vireo_connection option \<Rightarrow> size_t \<Rightarrow> vireo_result \<times> 'tls vireo_connection option" where
  "vireo_connection_read_consume tls connection sz =
     (if Option.is_none connection then (VIREO_RESULT_INVALID_ARGUMENT, connection)
      else
        let c = the connection in
        case cn_owned_tls c of
          Some t \<Rightarrow> (case to_read_consume tls t sz of (result, t) \<Rightarrow> (result, Some (c\<lparr>cn_owned_tls := Some t\<rparr>)))
        | None \<Rightarrow> (case vireo_buffer_consume (cn_read_buffer c) sz of (result, rb) \<Rightarrow> (result, Some (c\<lparr>cn_read_buffer := rb\<rparr>))))"

subsection \<open>Frames\<close>

definition frame_finish ::
  "vireo_connection_frame_error option \<Rightarrow> vireo_connection_frame_issue \<Rightarrow> vireo_protocol_codec_issue \<Rightarrow>
   vireo_connection_frame_error option" where
  "frame_finish error issue codec_issue = map_option (\<lambda>_. \<lparr>fe_issue = issue, fe_codec_issue = codec_issue\<rparr>) error"

text \<open>How a codec result ends the loop: protocol faults keep their issue, anything else is an internal error.\<close>

definition codec_fault ::
  "vireo_result \<Rightarrow> vireo_protocol_codec_issue option \<Rightarrow> vireo_result \<times> vireo_connection_frame_issue \<times> vireo_protocol_codec_issue" where
  "codec_fault result codec_issue =
     (if result = VIREO_RESULT_PROTOCOL then (result, VIREO_CONNECTION_FRAME_ISSUE_CODEC, the codec_issue)
      else (VIREO_RESULT_INTERNAL, VIREO_CONNECTION_FRAME_ISSUE_NONE, VIREO_PROTOCOL_CODEC_ISSUE_NONE))"

abbreviation no_fault :: "vireo_result \<times> vireo_connection_frame_issue \<times> vireo_protocol_codec_issue" where
  "no_fault \<equiv> (VIREO_OK, VIREO_CONNECTION_FRAME_ISSUE_NONE, VIREO_PROTOCOL_CODEC_ISSUE_NONE)"

abbreviation internal_fault :: "vireo_result \<times> vireo_connection_frame_issue \<times> vireo_protocol_codec_issue" where
  "internal_fault \<equiv> (VIREO_RESULT_INTERNAL, VIREO_CONNECTION_FRAME_ISSUE_NONE, VIREO_PROTOCOL_CODEC_ISSUE_NONE)"

function frame_loop ::
  "vireo_connection_frame_options \<Rightarrow> vireo_connection_frame_budget \<Rightarrow> size_t \<Rightarrow> bool \<Rightarrow> bytes option \<Rightarrow> size_t \<Rightarrow>
   vireo_connection_frame_info \<Rightarrow> vireo_connection_frame_view list \<Rightarrow>
   (vireo_result \<times> vireo_connection_frame_issue \<times> vireo_protocol_codec_issue) \<times> vireo_connection_frame_info \<times>
   vireo_connection_frame_view list" where
  "frame_loop options budget view_capacity read_eof bytes readable info views =
     (if fi_frame_count info = fb_max_messages budget
      then (no_fault, info\<lparr>fi_stop_reason := VIREO_CONNECTION_FRAME_STOP_MESSAGE_BUDGET\<rparr>, views)
      else if fi_frame_count info = view_capacity
      then (no_fault, info\<lparr>fi_stop_reason := VIREO_CONNECTION_FRAME_STOP_OUTPUT_FULL\<rparr>, views)
      else
        let remaining = readable - fi_frame_bytes info in
        if remaining = 0
        then (no_fault, info\<lparr>fi_stop_reason := if read_eof then VIREO_CONNECTION_FRAME_STOP_EOF
          else VIREO_CONNECTION_FRAME_STOP_NEED_MORE\<rparr>, views)
        else
          let byte_budget = fb_max_bytes budget - fi_frame_bytes info in
          if byte_budget < 32 then (no_fault, info\<lparr>fi_stop_reason := VIREO_CONNECTION_FRAME_STOP_BYTE_BUDGET\<rparr>, views)
          else if remaining < 32
          then
            if \<not> read_eof then (no_fault, info\<lparr>fi_stop_reason := VIREO_CONNECTION_FRAME_STOP_NEED_MORE\<rparr>, views)
            else ((VIREO_RESULT_PROTOCOL, VIREO_CONNECTION_FRAME_ISSUE_TRUNCATED, VIREO_PROTOCOL_CODEC_ISSUE_NONE), info, views)
          else
            let wire = drop (unat (fi_frame_bytes info)) (the bytes);
                (result, header, codec_issue) =
                  vireo_protocol_header_decode (Some wire) remaining (Some zero_header) (Some VIREO_PROTOCOL_CODEC_ISSUE_NONE);
                (result, codec_issue) =
                  (if result = VIREO_OK
                   then if fr_direction options = VIREO_CONNECTION_FRAME_REQUEST
                     then vireo_protocol_request_header_validate header codec_issue
                     else vireo_protocol_response_header_validate header codec_issue
                   else (result, codec_issue)) in
            if result \<noteq> VIREO_OK then (codec_fault result codec_issue, info, views)
            else
              let (result, body_size) = vireo_checked_u64_to_size (ucast (h_body_len (the header))) (Some 0);
                  (result, wire_size) = (if result = VIREO_OK then vireo_checked_size_add 32 (the body_size) (Some 0) else (result, Some 0)) in
              if result \<noteq> VIREO_OK then (internal_fault, info, views)
              else if the wire_size > fr_max_frame_bytes options
              then ((VIREO_RESULT_PROTOCOL, VIREO_CONNECTION_FRAME_ISSUE_FRAME_TOO_LARGE, VIREO_PROTOCOL_CODEC_ISSUE_NONE), info, views)
              else if the wire_size > byte_budget
              then (no_fault, info\<lparr>fi_stop_reason := VIREO_CONNECTION_FRAME_STOP_BYTE_BUDGET\<rparr>, views)
              else if the wire_size > remaining
              then
                if \<not> read_eof then (no_fault, info\<lparr>fi_stop_reason := VIREO_CONNECTION_FRAME_STOP_NEED_MORE\<rparr>, views)
                else ((VIREO_RESULT_PROTOCOL, VIREO_CONNECTION_FRAME_ISSUE_TRUNCATED, VIREO_PROTOCOL_CODEC_ISSUE_NONE), info, views)
              else
                let body = (if the body_size = 0 then None else Some (drop 32 wire));
                    (result, codec_issue) = vireo_protocol_frame_crc32c_verify (Some wire) 32 body (the body_size) codec_issue in
                if result \<noteq> VIREO_OK then (codec_fault result codec_issue, info, views)
                else
                  let (result, prefix_bytes) = vireo_checked_size_add (fi_frame_bytes info) (the wire_size) (Some 0) in
                  if result \<noteq> VIREO_OK then (internal_fault, info, views)
                  else frame_loop options budget view_capacity read_eof bytes readable
                    (info\<lparr>fi_frame_count := fi_frame_count info + 1, fi_frame_bytes := the prefix_bytes\<rparr>)
                    (views[unat (fi_frame_count info) :=
                      \<lparr>fv_header = the header, fv_body = map_option (take (unat (the body_size))) body, fv_body_size = the body_size,
                       fv_wire_size = the wire_size\<rparr>]))"
  by pat_completeness auto
termination
  by (relation "measure (\<lambda>(options, budget, view_capacity, read_eof, bytes, readable, info, views).
      unat (fb_max_messages budget - fi_frame_count info))") (auto intro: word_count_up)

declare frame_loop.simps [simp del]

definition vireo_connection_frames_peek ::
  "'tls tls_ops \<Rightarrow> 'tls vireo_connection option \<Rightarrow> vireo_connection_frame_options option \<Rightarrow> vireo_connection_frame_budget option \<Rightarrow>
   vireo_connection_frame_view list option \<Rightarrow> size_t \<Rightarrow> vireo_connection_frame_info option \<Rightarrow> vireo_connection_frame_error option \<Rightarrow>
   vireo_result \<times> vireo_connection_frame_view list option \<times> vireo_connection_frame_info option \<times> vireo_connection_frame_error option" where
  "vireo_connection_frames_peek tls connection options budget views view_capacity out_info error =
     (let info = \<lparr>fi_frame_count = 0, fi_frame_bytes = 0, fi_stop_reason = VIREO_CONNECTION_FRAME_STOP_ERROR\<rparr>;
          no_issue = frame_finish error VIREO_CONNECTION_FRAME_ISSUE_NONE VIREO_PROTOCOL_CODEC_ISSUE_NONE in
      if Option.is_none connection \<or> options = None \<or> budget = None \<or> views = None \<or> out_info = None
      then (VIREO_RESULT_INVALID_ARGUMENT, views, out_info, no_issue)
      else
        let c = the connection; (result, current) = vireo_connection_inspect tls connection (Some no_connection_info) in
        if result \<noteq> VIREO_OK then (VIREO_RESULT_INTERNAL, views, Some info, no_issue)
        else
          let io = (case cn_owned_tls c of Some t \<Rightarrow> Some (snd (to_io_inspect tls t)) | None \<Rightarrow> None) in
          if io \<noteq> None \<and> (ti_state (the io) = VIREO_TLS_IO_DISABLED \<or> ti_state (the io) = VIREO_TLS_IO_PREPARED)
          then (VIREO_RESULT_BUSY, views, out_info, no_issue)
          else
            let tls_unit = (case io of Some i \<Rightarrow> ti_max_read_unit_bytes i | None \<Rightarrow> 0);
                buffer_info = ci_read_buffer (the current);
                (result, body_max) = vireo_checked_u64_to_size (ucast VIREO_PROTOCOL_MAX_BODY_SIZE) (Some 0);
                (result, protocol_max) = (if result = VIREO_OK then vireo_checked_size_add 32 (the body_max) body_max else (result, body_max)) in
            if result \<noteq> VIREO_OK then (VIREO_RESULT_INTERNAL, views, Some info, no_issue)
            else if view_capacity = 0 \<or> fb_max_messages (the budget) = 0 \<or> fb_max_bytes (the budget) = 0 \<or>
              fr_max_frame_bytes (the options) < 32 \<or> fr_max_frame_bytes (the options) > bi_capacity buffer_info \<or>
              (io \<noteq> None \<and> fr_max_frame_bytes (the options) > tls_unit) \<or> fr_max_frame_bytes (the options) > the protocol_max \<or>
              fb_max_bytes (the budget) < fr_max_frame_bytes (the options) \<or>
              (cn_flow_enabled c \<and> fr_max_frame_bytes (the options) > fo_max_frame_bytes (cn_flow_options c))
            then (VIREO_RESULT_RANGE, views, out_info, no_issue)
            else
              let (result, bytes, readable) = vireo_connection_read_peek tls connection (Some None) (Some 0) in
              if result \<noteq> VIREO_OK then (VIREO_RESULT_INTERNAL, views, Some info, no_issue)
              else
                let ((result, issue, codec_issue), info, views) =
                      frame_loop (the options) (the budget) view_capacity (ci_read_eof (the current)) (the bytes) (the readable) info
                        (the views) in
                (result, Some views, Some info, frame_finish error issue codec_issue))"

subsection \<open>Sending\<close>

definition vireo_connection_write_enqueue ::
  "'tls tls_ops \<Rightarrow> 'tls vireo_connection option \<Rightarrow> bytes option \<Rightarrow> size_t \<Rightarrow> vireo_connection_error option \<Rightarrow>
   vireo_result \<times> 'tls vireo_connection option \<times> vireo_connection_error option" where
  "vireo_connection_write_enqueue tls connection bytes sz error =
     (if Option.is_none connection \<or> (sz \<noteq> 0 \<and> bytes = None)
      then (VIREO_RESULT_INVALID_ARGUMENT, connection, finish error VIREO_CONNECTION_STAGE_NONE 0)
      else
        let c = the connection in
        case cn_owned_tls c of
          Some t \<Rightarrow>
            (case to_enqueue tls t bytes sz of
               (result, t, dependency) \<Rightarrow> (result, Some (c\<lparr>cn_owned_tls := Some t\<rparr>), tls_finish error result dependency))
        | None \<Rightarrow>
            let (result, buffer_info) = vireo_buffer_inspect (cn_write_buffer c) (Some no_buffer_info) in
            if result \<noteq> VIREO_OK then (VIREO_RESULT_INTERNAL, connection, finish error VIREO_CONNECTION_STAGE_ENQUEUE 0)
            else
              let bi = the buffer_info; (result, pending) = vireo_checked_size_add (bi_readable_size bi) sz (Some 0) in
              if result \<noteq> VIREO_OK then (result, connection, finish error VIREO_CONNECTION_STAGE_NONE 0)
              else if sz > bi_capacity bi then (VIREO_RESULT_RANGE, connection, finish error VIREO_CONNECTION_STAGE_NONE 0)
              else if the pending > bi_capacity bi then (VIREO_RESULT_BUSY, connection, finish error VIREO_CONNECTION_STAGE_NONE 0)
              else if cn_close_state c \<noteq> VIREO_CONNECTION_CLOSE_OPEN
              then (VIREO_RESULT_BUSY, connection, finish error VIREO_CONNECTION_STAGE_NONE 0)
              else
                let (result, wb) = (if sz > bi_tail_space bi then vireo_buffer_compact (cn_write_buffer c) else (VIREO_OK, cn_write_buffer c));
                    (result, wb) = (if result \<noteq> VIREO_OK then (result, wb) else vireo_buffer_append wb bytes sz);
                    c = c\<lparr>cn_write_buffer := wb\<rparr> in
                if result \<noteq> VIREO_OK then (VIREO_RESULT_INTERNAL, Some c, finish error VIREO_CONNECTION_STAGE_ENQUEUE 0)
                else (VIREO_OK, Some c, finish error VIREO_CONNECTION_STAGE_NONE 0))"

definition send_finish ::
  "vireo_connection_error option \<Rightarrow> vireo_result \<Rightarrow> int \<Rightarrow> vireo_connection_error option" where
  "send_finish error result cause =
     finish error (if result = VIREO_OK then VIREO_CONNECTION_STAGE_NONE else VIREO_CONNECTION_STAGE_SEND) cause"

function send_loop ::
  "vireo_connection_send_budget \<Rightarrow> vireo_connection_send_info \<Rightarrow> 'tls vireo_connection \<Rightarrow> net_env \<Rightarrow>
   vireo_result \<times> int \<times> vireo_connection_send_info \<times> 'tls vireo_connection \<times> net_env" where
  "send_loop budget info c env =
     (let (result, bytes, pending) = vireo_buffer_peek (cn_write_buffer c) (Some None) (Some 0) in
      if result \<noteq> VIREO_OK then (VIREO_RESULT_INTERNAL, 0, info, c, env)
      else if the pending = 0 then (VIREO_OK, 0, info\<lparr>si_stop_reason := VIREO_CONNECTION_SEND_STOP_EMPTY\<rparr>, c, env)
      else if si_sent_bytes info = sb_max_bytes budget
      then (VIREO_OK, 0, info\<lparr>si_stop_reason := VIREO_CONNECTION_SEND_STOP_BYTE_BUDGET\<rparr>, c, env)
      else if si_send_calls info = sb_max_syscalls budget
      then (VIREO_OK, 0, info\<lparr>si_stop_reason := VIREO_CONNECTION_SEND_STOP_CALL_BUDGET\<rparr>, c, env)
      else
        let request = sb_max_bytes budget - si_sent_bytes info;
            request = (if request > the pending then the pending else request);
            request = (if request > 4096 then 4096 else request);
            info1 = info\<lparr>si_send_calls := si_send_calls info + 1\<rparr>;
            ((n, cause), env) = sys_send (the (the bytes)) request env in
        if n < -1 \<or> n = 0 \<or> n > sint request then (VIREO_RESULT_INTERNAL, 0, info1, c, env)
        else if n = -1
        then
          if cause = EAGAIN then (VIREO_OK, 0, info1\<lparr>si_stop_reason := VIREO_CONNECTION_SEND_STOP_WOULD_BLOCK\<rparr>, c, env)
          else (VIREO_RESULT_IO, cause, info1, c, env)
        else
          let sent = word_of_int n;
              (result, total) = vireo_checked_size_add (si_sent_bytes info1) sent (Some (si_sent_bytes info1));
              info2 = info1\<lparr>si_sent_bytes := the total\<rparr> in
          if result \<noteq> VIREO_OK then (VIREO_RESULT_INTERNAL, 0, info2, c, env)
          else
            let (result, wb) = vireo_buffer_consume (cn_write_buffer c) sent; c = c\<lparr>cn_write_buffer := wb\<rparr> in
            if result \<noteq> VIREO_OK then (VIREO_RESULT_INTERNAL, 0, info2, c, env)
            else send_loop budget info2 c env)"
  by pat_completeness auto
termination
  by (relation "measure (\<lambda>(budget, info, c, env). unat (sb_max_syscalls budget - si_send_calls info))") (auto intro: word_count_up)

declare send_loop.simps [simp del]

definition vireo_connection_send ::
  "'tls vireo_connection option \<Rightarrow> vireo_connection_send_budget option \<Rightarrow> vireo_connection_send_info option \<Rightarrow>
   vireo_connection_error option \<Rightarrow> net_env \<Rightarrow>
   vireo_result \<times> 'tls vireo_connection option \<times> vireo_connection_send_info option \<times> vireo_connection_error option \<times> net_env" where
  "vireo_connection_send connection budget out_info error env =
     (if Option.is_none connection \<or> budget = None \<or> out_info = None
      then (VIREO_RESULT_INVALID_ARGUMENT, connection, out_info, finish error VIREO_CONNECTION_STAGE_NONE 0, env)
      else if sb_max_bytes (the budget) = 0 \<or> sb_max_syscalls (the budget) = 0
      then (VIREO_RESULT_RANGE, connection, out_info, finish error VIREO_CONNECTION_STAGE_NONE 0, env)
      else
        let c = the connection in
        if \<not> Option.is_none (cn_owned_tls c)
        then (VIREO_RESULT_BUSY, connection, out_info, finish error VIREO_CONNECTION_STAGE_NONE 0, env)
        else if cn_close_state c = VIREO_CONNECTION_CLOSE_READY
        then (VIREO_RESULT_BUSY, connection, out_info, finish error VIREO_CONNECTION_STAGE_NONE 0, env)
        else
          let info = \<lparr>si_sent_bytes = 0, si_send_calls = 0, si_stop_reason = VIREO_CONNECTION_SEND_STOP_ERROR\<rparr>;
              (result, cause, info, c, env) = send_loop (the budget) info c env in
          (result, Some c, Some info, send_finish error result cause, env))"

end
