(* ===== verification/Net_Binding.thy ===== *)
theory Net_Binding
  imports Net_Connection
begin

text \<open>
  The second half of \<^verbatim>\<open>src/net/connection.c\<close>: a connection bound to an event loop, the two hysteresis water marks
  that switch its interests, and the permanent close states. Results of the event loop come from the world.
\<close>

abbreviation VIREO_EPOLL_INTEREST_READ :: u32 where "VIREO_EPOLL_INTEREST_READ \<equiv> 1"
abbreviation VIREO_EPOLL_INTEREST_WRITE :: u32 where "VIREO_EPOLL_INTEREST_WRITE \<equiv> 2"
abbreviation VIREO_EPOLL_INTEREST_PEER_WRITE_CLOSED :: u32 where "VIREO_EPOLL_INTEREST_PEER_WRITE_CLOSED \<equiv> 4"

datatype vireo_connection_loop_stage = VIREO_CONNECTION_LOOP_STAGE_NONE | VIREO_CONNECTION_LOOP_STAGE_ATTACH |
  VIREO_CONNECTION_LOOP_STAGE_UPDATE | VIREO_CONNECTION_LOOP_STAGE_DETACH | VIREO_CONNECTION_LOOP_STAGE_FLOW_CONFIGURE |
  VIREO_CONNECTION_LOOP_STAGE_FLOW_REFRESH | VIREO_CONNECTION_LOOP_STAGE_REQUEST_CLOSE | VIREO_CONNECTION_LOOP_STAGE_CLOSE_REFRESH

record vireo_connection_loop_error =
  le_stage :: vireo_connection_loop_stage
  le_loop_error :: vireo_event_loop_error

type_synonym 'tls loop_result = "vireo_result \<times> 'tls vireo_connection option \<times> vireo_connection_loop_error option \<times> net_env"

definition loop_finish ::
  "vireo_connection_loop_error option \<Rightarrow> vireo_result \<Rightarrow> vireo_connection_loop_stage \<Rightarrow> vireo_event_loop_error option \<Rightarrow>
   vireo_connection_loop_error option" where
  "loop_finish error result stage dependency =
     map_option (\<lambda>_. if result \<noteq> VIREO_OK \<and> dependency \<noteq> None then \<lparr>le_stage = stage, le_loop_error = the dependency\<rparr>
       else \<lparr>le_stage = VIREO_CONNECTION_LOOP_STAGE_NONE, le_loop_error = no_loop_error\<rparr>) error"

text \<open>A refusal of this layer: no stage, nothing changed.\<close>

abbreviation loop_refuse ::
  "vireo_connection_loop_error option \<Rightarrow> vireo_result \<Rightarrow> 'tls vireo_connection option \<Rightarrow> net_env \<Rightarrow> 'tls loop_result" where
  "loop_refuse error result connection env \<equiv>
     (result, connection, loop_finish error result VIREO_CONNECTION_LOOP_STAGE_NONE None, env)"

definition valid_interests :: "u32 \<Rightarrow> bool" where
  "valid_interests interests \<longleftrightarrow>
     interests AND NOT (VIREO_EPOLL_INTEREST_READ OR VIREO_EPOLL_INTEREST_WRITE OR VIREO_EPOLL_INTEREST_PEER_WRITE_CLOSED) = 0"

definition clear_binding :: "'tls vireo_connection \<Rightarrow> 'tls vireo_connection" where
  "clear_binding c = c\<lparr>cn_borrowed_loop := None, cn_loop_attached := False, cn_loop_handle := no_loop_handle, cn_loop_interests := 0,
     cn_callback := None, cn_callback_context := None, cn_flow_enabled := False, cn_read_pressure := False, cn_write_pressure := False,
     cn_flow_options := no_flow_options\<rparr>"

text \<open>The dispatcher; \<open>call\<close> runs a callback of the layer above, which may change the connection.\<close>

definition dispatch_connection ::
  "(nat option \<Rightarrow> u32 \<Rightarrow> nat option \<Rightarrow> 'tls vireo_connection \<Rightarrow> 'tls vireo_connection) \<Rightarrow> u32 \<Rightarrow> 'tls vireo_connection \<Rightarrow>
   'tls vireo_connection" where
  "dispatch_connection call events c =
     (let callback = cn_callback c; context = cn_callback_context c;
          c = call callback events context (c\<lparr>cn_callback_active := True\<rparr>)
      in c\<lparr>cn_callback_active := False\<rparr>)"

definition vireo_connection_attach ::
  "'tls vireo_connection option \<Rightarrow> nat option \<Rightarrow> u32 \<Rightarrow> nat option \<Rightarrow> nat option \<Rightarrow> vireo_connection_loop_error option \<Rightarrow> net_env \<Rightarrow>
   'tls loop_result" where
  "vireo_connection_attach connection loop interests callback context error env =
     (if Option.is_none connection \<or> loop = None \<or> callback = None \<or> \<not> valid_interests interests
      then loop_refuse error VIREO_RESULT_INVALID_ARGUMENT connection env
      else
        let c = the connection in
        if cn_close_state c \<noteq> VIREO_CONNECTION_CLOSE_OPEN \<or> cn_loop_attached c \<or> cn_callback_active c
        then loop_refuse error VIREO_RESULT_BUSY connection env
        else
          let ((result, handle, dependency), env) = sys_loop env;
              c = (if result = VIREO_OK
                   then c\<lparr>cn_borrowed_loop := loop, cn_loop_attached := True, cn_loop_handle := handle, cn_loop_interests := interests,
                     cn_callback := callback, cn_callback_context := context\<rparr>
                   else c)
          in (result, Some c, loop_finish error result VIREO_CONNECTION_LOOP_STAGE_ATTACH (Some dependency), env))"

definition vireo_connection_set_interests ::
  "'tls vireo_connection option \<Rightarrow> u32 \<Rightarrow> vireo_connection_loop_error option \<Rightarrow> net_env \<Rightarrow> 'tls loop_result" where
  "vireo_connection_set_interests connection interests error env =
     (if Option.is_none connection \<or> \<not> valid_interests interests then loop_refuse error VIREO_RESULT_INVALID_ARGUMENT connection env
      else
        let c = the connection in
        if cn_close_state c \<noteq> VIREO_CONNECTION_CLOSE_OPEN then loop_refuse error VIREO_RESULT_BUSY connection env
        else if \<not> cn_loop_attached c then loop_refuse error VIREO_RESULT_NOT_FOUND connection env
        else if cn_flow_enabled c then loop_refuse error VIREO_RESULT_BUSY connection env
        else
          let ((result, handle, dependency), env) = sys_loop env;
              c = (if result = VIREO_OK then c\<lparr>cn_loop_interests := interests\<rparr> else c)
          in (result, Some c, loop_finish error result VIREO_CONNECTION_LOOP_STAGE_UPDATE (Some dependency), env))"

definition vireo_connection_detach ::
  "'tls vireo_connection option \<Rightarrow> vireo_connection_loop_error option \<Rightarrow> net_env \<Rightarrow> 'tls loop_result" where
  "vireo_connection_detach connection error env =
     (if Option.is_none connection then loop_refuse error VIREO_RESULT_INVALID_ARGUMENT connection env
      else
        let c = the connection in
        if \<not> cn_loop_attached c then loop_refuse error VIREO_OK connection env
        else
          let ((result, handle, dependency), env) = sys_loop env;
              c = (if result = VIREO_OK then clear_binding c else c)
          in (result, Some c, loop_finish error result VIREO_CONNECTION_LOOP_STAGE_DETACH (Some dependency), env))"

definition vireo_connection_forget_destroyed_loop ::
  "'tls vireo_connection option \<Rightarrow> vireo_connection_loop_error option \<Rightarrow> net_env \<Rightarrow> 'tls loop_result" where
  "vireo_connection_forget_destroyed_loop connection error env =
     (if Option.is_none connection then loop_refuse error VIREO_RESULT_INVALID_ARGUMENT connection env
      else if cn_callback_active (the connection) then loop_refuse error VIREO_RESULT_BUSY connection env
      else loop_refuse error VIREO_OK (Some (clear_binding (the connection))) env)"

subsection \<open>Flow control\<close>

definition flow_pressure :: "size_t \<Rightarrow> size_t \<Rightarrow> size_t \<Rightarrow> bool \<Rightarrow> bool" where
  "flow_pressure occupied low high pressure = (if pressure then occupied > low else occupied \<ge> high)"

definition flow_apply ::
  "'tls vireo_connection \<Rightarrow> vireo_connection_flow_options \<Rightarrow> vireo_connection_info \<Rightarrow> bool \<Rightarrow> vireo_connection_loop_stage \<Rightarrow>
   vireo_connection_loop_error option \<Rightarrow> net_env \<Rightarrow> 'tls loop_result" where
  "flow_apply c options info reset stage error env =
     (let read_pressure = flow_pressure (bi_readable_size (ci_read_buffer info)) (fo_read_low options) (fo_read_high options)
            (\<not> reset \<and> cn_read_pressure c);
          write_pressure = flow_pressure (bi_readable_size (ci_write_buffer info)) (fo_write_low options) (fo_write_high options)
            (\<not> reset \<and> cn_write_pressure c);
          interests = (if \<not> ci_read_eof info \<and> \<not> read_pressure \<and> \<not> write_pressure
            then VIREO_EPOLL_INTEREST_READ OR VIREO_EPOLL_INTEREST_PEER_WRITE_CLOSED else 0);
          interests = (if bi_readable_size (ci_write_buffer info) \<noteq> 0 then interests OR VIREO_EPOLL_INTEREST_WRITE else interests);
          ((result, handle, dependency), env) =
            (if interests \<noteq> cn_loop_interests c then sys_loop env else ((VIREO_OK, no_loop_handle, no_loop_error), env)) in
      if result \<noteq> VIREO_OK then (result, Some c, loop_finish error result stage (Some dependency), env)
      else loop_refuse error VIREO_OK
        (Some (c\<lparr>cn_flow_options := options, cn_flow_enabled := True, cn_read_pressure := read_pressure, cn_write_pressure := write_pressure,
          cn_loop_interests := interests\<rparr>)) env)"

definition vireo_connection_flow_configure ::
  "'tls tls_ops \<Rightarrow> 'tls vireo_connection option \<Rightarrow> vireo_connection_flow_options option \<Rightarrow> vireo_connection_loop_error option \<Rightarrow> net_env \<Rightarrow>
   'tls loop_result" where
  "vireo_connection_flow_configure tls connection options error env =
     (if Option.is_none connection \<or> options = None then loop_refuse error VIREO_RESULT_INVALID_ARGUMENT connection env
      else
        let c = the connection; f = the options in
        if \<not> Option.is_none (cn_owned_tls c) then loop_refuse error VIREO_RESULT_BUSY connection env
        else if cn_close_state c \<noteq> VIREO_CONNECTION_CLOSE_OPEN then loop_refuse error VIREO_RESULT_BUSY connection env
        else if \<not> cn_loop_attached c then loop_refuse error VIREO_RESULT_NOT_FOUND connection env
        else
          let (inspected, info) = vireo_connection_inspect tls connection (Some no_connection_info);
              (result, body_max) = (if inspected = VIREO_OK then vireo_checked_u64_to_size (ucast VIREO_PROTOCOL_MAX_BODY_SIZE) (Some 0)
                else (inspected, Some 0));
              (result, protocol_max) = (if result = VIREO_OK then vireo_checked_size_add 32 (the body_max) body_max else (result, body_max)) in
          if result \<noteq> VIREO_OK then loop_refuse error VIREO_RESULT_INTERNAL connection env
          else if fo_max_frame_bytes f < 32 \<or> fo_max_frame_bytes f > bi_capacity (ci_read_buffer (the info)) \<or>
            fo_max_frame_bytes f > the protocol_max \<or> fo_read_low f < fo_max_frame_bytes f - 1 \<or> fo_read_low f \<ge> fo_read_high f \<or>
            fo_read_high f > bi_capacity (ci_read_buffer (the info)) \<or> fo_write_low f \<ge> fo_write_high f \<or>
            fo_write_high f > bi_capacity (ci_write_buffer (the info))
          then loop_refuse error VIREO_RESULT_RANGE connection env
          else flow_apply c f (the info) True VIREO_CONNECTION_LOOP_STAGE_FLOW_CONFIGURE error env)"

definition vireo_connection_flow_refresh ::
  "'tls tls_ops \<Rightarrow> 'tls vireo_connection option \<Rightarrow> vireo_connection_loop_error option \<Rightarrow> net_env \<Rightarrow> 'tls loop_result" where
  "vireo_connection_flow_refresh tls connection error env =
     (if Option.is_none connection then loop_refuse error VIREO_RESULT_INVALID_ARGUMENT connection env
      else
        let c = the connection in
        if \<not> Option.is_none (cn_owned_tls c) then loop_refuse error VIREO_RESULT_BUSY connection env
        else if cn_close_state c \<noteq> VIREO_CONNECTION_CLOSE_OPEN then loop_refuse error VIREO_RESULT_BUSY connection env
        else if \<not> cn_loop_attached c \<or> \<not> cn_flow_enabled c then loop_refuse error VIREO_RESULT_NOT_FOUND connection env
        else
          let (result, info) = vireo_connection_inspect tls connection (Some no_connection_info) in
          if result \<noteq> VIREO_OK then loop_refuse error VIREO_RESULT_INTERNAL connection env
          else flow_apply c (cn_flow_options c) (the info) False VIREO_CONNECTION_LOOP_STAGE_FLOW_REFRESH error env)"

definition vireo_connection_flow_disable ::
  "'tls vireo_connection option \<Rightarrow> vireo_connection_loop_error option \<Rightarrow> net_env \<Rightarrow> 'tls loop_result" where
  "vireo_connection_flow_disable connection error env =
     (if Option.is_none connection then loop_refuse error VIREO_RESULT_INVALID_ARGUMENT connection env
      else
        let c = the connection in
        if \<not> Option.is_none (cn_owned_tls c) then loop_refuse error VIREO_RESULT_BUSY connection env
        else if cn_close_state c \<noteq> VIREO_CONNECTION_CLOSE_OPEN then loop_refuse error VIREO_RESULT_BUSY connection env
        else loop_refuse error VIREO_OK
          (Some (c\<lparr>cn_flow_enabled := False, cn_read_pressure := False, cn_write_pressure := False, cn_flow_options := no_flow_options\<rparr>)) env)"

subsection \<open>Closing\<close>

definition close_sync ::
  "'tls vireo_connection \<Rightarrow> vireo_connection_loop_stage \<Rightarrow> vireo_connection_loop_error option \<Rightarrow> net_env \<Rightarrow> 'tls loop_result" where
  "close_sync c stage error env =
     (let (result, info) = vireo_buffer_inspect (cn_write_buffer c) (Some no_buffer_info) in
      if result \<noteq> VIREO_OK then loop_refuse error VIREO_RESULT_INTERNAL (Some c) env
      else
        let draining = (cn_close_mode c = VIREO_CONNECTION_CLOSE_MODE_DRAIN \<and> bi_readable_size (the info) \<noteq> 0);
            c = c\<lparr>cn_close_state := if draining then VIREO_CONNECTION_CLOSE_DRAINING else VIREO_CONNECTION_CLOSE_READY\<rparr>;
            interests = (if draining then VIREO_EPOLL_INTEREST_WRITE else 0) in
        if cn_loop_attached c \<and> interests \<noteq> cn_loop_interests c
        then
          let ((result, handle, dependency), env) = sys_loop env in
          if result \<noteq> VIREO_OK then (result, Some c, loop_finish error result stage (Some dependency), env)
          else loop_refuse error VIREO_OK (Some (c\<lparr>cn_loop_interests := interests\<rparr>)) env
        else loop_refuse error VIREO_OK (Some c) env)"

definition vireo_connection_request_close ::
  "'tls vireo_connection option \<Rightarrow> vireo_connection_close_mode \<Rightarrow> vireo_connection_close_reason \<Rightarrow> vireo_connection_loop_error option \<Rightarrow>
   net_env \<Rightarrow> 'tls loop_result" where
  "vireo_connection_request_close connection mode reason error env =
     (if Option.is_none connection \<or> (mode \<noteq> VIREO_CONNECTION_CLOSE_MODE_DRAIN \<and> mode \<noteq> VIREO_CONNECTION_CLOSE_MODE_IMMEDIATE) \<or>
         reason = VIREO_CONNECTION_CLOSE_REASON_NONE
      then loop_refuse error VIREO_RESULT_INVALID_ARGUMENT connection env
      else
        let c = the connection in
        if \<not> Option.is_none (cn_owned_tls c) then loop_refuse error VIREO_RESULT_BUSY connection env
        else if cn_close_mode c = VIREO_CONNECTION_CLOSE_MODE_IMMEDIATE \<and> mode = VIREO_CONNECTION_CLOSE_MODE_DRAIN
        then loop_refuse error VIREO_RESULT_BUSY connection env
        else
          let c = (if cn_close_state c = VIREO_CONNECTION_CLOSE_OPEN
                then c\<lparr>cn_close_reason := reason, cn_close_state := if mode = VIREO_CONNECTION_CLOSE_MODE_DRAIN
                  then VIREO_CONNECTION_CLOSE_DRAINING else VIREO_CONNECTION_CLOSE_READY\<rparr>
                else c);
              c = c\<lparr>cn_close_mode := mode\<rparr>;
              c = (if mode = VIREO_CONNECTION_CLOSE_MODE_IMMEDIATE then c\<lparr>cn_close_state := VIREO_CONNECTION_CLOSE_READY\<rparr> else c)
          in close_sync c VIREO_CONNECTION_LOOP_STAGE_REQUEST_CLOSE error env)"

definition vireo_connection_close_refresh ::
  "'tls vireo_connection option \<Rightarrow> vireo_connection_loop_error option \<Rightarrow> net_env \<Rightarrow> 'tls loop_result" where
  "vireo_connection_close_refresh connection error env =
     (if Option.is_none connection then loop_refuse error VIREO_RESULT_INVALID_ARGUMENT connection env
      else
        let c = the connection in
        if \<not> Option.is_none (cn_owned_tls c) then loop_refuse error VIREO_RESULT_BUSY connection env
        else if cn_close_state c = VIREO_CONNECTION_CLOSE_OPEN then loop_refuse error VIREO_RESULT_NOT_FOUND connection env
        else close_sync c VIREO_CONNECTION_LOOP_STAGE_CLOSE_REFRESH error env)"

end
