(* ===== verification/Net_Stream.thy ===== *)
theory Net_Stream
  imports Net_Binding
begin

text \<open>
  The two byte streams of a connection. Whatever the socket and the event loop answer, what the layer above reads
  is what arrived, in order, and what the socket took is what the layer above queued, in order; a
  connection that was asked to drain and reports that it is ready to be destroyed has sent everything.
\<close>

subsection \<open>Invariant\<close>

definition in_bytes :: "'tls vireo_connection \<Rightarrow> bytes" where
  "in_bytes c = buf_bytes (the (cn_read_buffer c))"

definition out_bytes :: "'tls vireo_connection \<Rightarrow> bytes" where
  "out_bytes c = buf_bytes (the (cn_write_buffer c))"

text \<open>A raw connection with sound buffers.\<close>

definition conn_raw :: "'tls vireo_connection \<Rightarrow> bool" where
  "conn_raw c \<longleftrightarrow> cn_owned_tls c = None \<and>
     (\<exists>rb wb. cn_read_buffer c = Some rb \<and> buf_inv rb \<and> cn_write_buffer c = Some wb \<and> buf_inv wb)"

text \<open>
  The close states: open exactly while no mode and no reason are set; an immediate close is ready at once; a draining
  close is ready only when nothing is left to send.
\<close>

definition close_inv :: "'tls vireo_connection \<Rightarrow> bool" where
  "close_inv c \<longleftrightarrow>
     (cn_close_state c = VIREO_CONNECTION_CLOSE_OPEN \<longleftrightarrow> cn_close_mode c = VIREO_CONNECTION_CLOSE_MODE_NONE) \<and>
     (cn_close_state c = VIREO_CONNECTION_CLOSE_OPEN \<longleftrightarrow> cn_close_reason c = VIREO_CONNECTION_CLOSE_REASON_NONE) \<and>
     (cn_close_mode c = VIREO_CONNECTION_CLOSE_MODE_IMMEDIATE \<longrightarrow> cn_close_state c = VIREO_CONNECTION_CLOSE_READY) \<and>
     (cn_close_mode c = VIREO_CONNECTION_CLOSE_MODE_DRAIN \<and> cn_close_state c = VIREO_CONNECTION_CLOSE_READY \<longrightarrow> out_bytes c = [])"

lemma conn_rawE:
  assumes "conn_raw c"
  obtains rb wb where "cn_owned_tls c = None" and "cn_read_buffer c = Some rb" and "buf_inv rb"
    and "cn_write_buffer c = Some wb" and "buf_inv wb" and "in_bytes c = buf_bytes rb" and "out_bytes c = buf_bytes wb"
  using assms by (auto simp: conn_raw_def in_bytes_def out_bytes_def)

subsection \<open>The system calls\<close>

lemma sys_receive_cases:
  assumes "sys_receive request env = ((n, data, cause), env')"
  shows "ne_wire env' = ne_wire env \<and> ne_send env' = ne_send env \<and> ne_heap env' = ne_heap env \<and> ne_loop env' = ne_loop env \<and>
    (if 0 < n \<and> n \<le> uint request then n = int (length data) \<and> ne_delivered env' = ne_delivered env @ data
     else ne_delivered env' = ne_delivered env)"
proof (cases "\<exists>d as. ne_recv env = Recv_Data d # as")
  case True
  then obtain d as where d: "ne_recv env = Recv_Data d # as" by blast
  have "int (length (take (unat request) d)) \<le> uint request" unfolding uint_nat of_nat_le_iff by simp
  then show ?thesis using assms by (auto simp: sys_receive_def Let_def d simp del: length_take)
next
  case False
  then show ?thesis using assms
    by (auto simp: sys_receive_def Let_def split: list.splits recv_answer.splits if_splits)
qed

lemma sys_send_cases:
  assumes "sys_send data request env = ((n, cause), env')"
  shows "ne_delivered env' = ne_delivered env \<and> ne_recv env' = ne_recv env \<and> ne_heap env' = ne_heap env \<and> ne_loop env' = ne_loop env \<and>
    ne_wire env' = ne_wire env @ (if 0 < n \<and> n \<le> uint request then take (nat n) data else [])"
proof (cases "\<exists>k as. ne_send env = Send_Take k # as")
  case True
  then obtain k as where k: "ne_send env = Send_Take k # as" by blast
  have "int (min k (unat request)) \<le> uint request" unfolding uint_nat of_nat_le_iff by simp
  then show ?thesis using assms by (auto simp: sys_send_def Let_def k simp del: of_nat_min)
next
  case False
  then show ?thesis using assms
    by (auto simp: sys_send_def Let_def split: list.splits send_answer.splits if_splits)
qed

lemma sint_small: "request \<le> (4096 :: size_t) \<Longrightarrow> sint request = uint request"
proof -
  assume "request \<le> (4096 :: size_t)"
  then have "uint request \<le> 4096" by (simp add: word_le_def)
  moreover have "0 \<le> uint request" by simp
  ultimately have "- 9223372036854775808 \<le> uint request" "uint request < 9223372036854775808" by linarith+
  then show ?thesis unfolding sint_uint by (intro signed_take_bit_int_eq_self) simp_all
qed

subsection \<open>Receiving\<close>

text \<open>The request of one pass: positive, within the budget, the free space and the scratch array.\<close>

lemma clamp_request:
  fixes m tail :: size_t
  assumes "m \<noteq> 0" and "tail \<noteq> 0"
    and "r1 = (if m > tail then tail else m)" and "r = (if r1 > 4096 then 4096 else r1)"
  shows "r \<le> 4096" and "r \<le> tail" and "r \<le> m" and "r \<noteq> 0" and "sint r = uint r"
proof -
  have "r1 \<noteq> 0" "r1 \<le> tail" "r1 \<le> m" using assms by auto
  then show 1: "r \<le> 4096" and "r \<le> tail" and "r \<le> m" and "r \<noteq> 0" using assms(4) by auto
  show "sint r = uint r" by (rule sint_small [OF 1])
qed

lemma receive_loop_unfold:
  assumes "ri_received_bytes info \<noteq> rb_max_bytes budget" and "tail \<noteq> 0" and "ri_recv_calls info \<noteq> rb_max_syscalls budget"
    and r1: "r1 = (if rb_max_bytes budget - ri_received_bytes info > tail then tail else rb_max_bytes budget - ri_received_bytes info)"
    and r: "r = (if r1 > 4096 then 4096 else r1)" and sys: "sys_receive r env = ((n, data, cause), env')"
  shows "receive_loop budget info tail c env =
     (let info1 = info\<lparr>ri_recv_calls := ri_recv_calls info + 1\<rparr>; scratch = mem_write 0 data (replicate 4096 0) in
        if n < -1 \<or> n > sint r then (VIREO_RESULT_INTERNAL, 0, info1, c, env')
        else if n = -1
        then
          if cause = EAGAIN then (VIREO_OK, 0, info1\<lparr>ri_stop_reason := VIREO_CONNECTION_RECEIVE_STOP_WOULD_BLOCK\<rparr>, c, env')
          else (VIREO_RESULT_IO, cause, info1, c, env')
        else if n = 0
        then (VIREO_OK, 0, info1\<lparr>ri_stop_reason := VIREO_CONNECTION_RECEIVE_STOP_EOF\<rparr>, c\<lparr>cn_read_eof := True\<rparr>, env')
        else
          let received = word_of_int n;
              (result, total) = vireo_checked_size_add (ri_received_bytes info1) received (Some (ri_received_bytes info1));
              info2 = info1\<lparr>ri_received_bytes := the total\<rparr> in
          if result \<noteq> VIREO_OK then (VIREO_RESULT_INTERNAL, 0, info2, c, env')
          else
            let (result, rb) = vireo_buffer_append (cn_read_buffer c) (Some scratch) received; c = c\<lparr>cn_read_buffer := rb\<rparr> in
            if result \<noteq> VIREO_OK then (VIREO_RESULT_INTERNAL, 0, info2, c, env')
            else receive_loop budget info2 (tail - received) c env')"
  unfolding receive_loop.simps [of budget info tail c env] Let_def r1 [symmetric] r [symmetric] sys prod.case
  using assms(1-3) by simp

text \<open>A pass that ends the loop leaves the buffer alone; at most it notes the end of the stream.\<close>

lemma receive_loop_halts:
  assumes unf: "ri_received_bytes info \<noteq> rb_max_bytes budget" "tail \<noteq> 0" "ri_recv_calls info \<noteq> rb_max_syscalls budget"
     "r1 = (if rb_max_bytes budget - ri_received_bytes info > tail then tail else rb_max_bytes budget - ri_received_bytes info)"
     "r = (if r1 > 4096 then 4096 else r1)" "sys_receive r env = ((n, data, cause), env')"
    and n: "n < -1 \<or> n > sint r \<or> n = -1 \<or> n = 0"
  shows "\<exists>rc cause' info' eof. receive_loop budget info tail c env = (rc, cause', info', c\<lparr>cn_read_eof := eof\<rparr>, env') \<and>
    (cn_read_eof c \<longrightarrow> eof) \<and> ri_received_bytes info' = ri_received_bytes info"
proof -
  note eq = receive_loop_unfold [OF unf, of c, unfolded Let_def]
  let ?i = "info\<lparr>ri_recv_calls := ri_recv_calls info + 1\<rparr>"
  consider "n < -1 \<or> n > sint r" | "\<not> (n < -1 \<or> n > sint r)" "n = -1" "cause = EAGAIN" | "\<not> (n < -1 \<or> n > sint r)" "n = -1" "cause \<noteq> EAGAIN"
    | "\<not> (n < -1 \<or> n > sint r)" "n = 0" using n by blast
  then show ?thesis
  proof cases
    case 1
    then have "receive_loop budget info tail c env = (VIREO_RESULT_INTERNAL, 0, ?i, c\<lparr>cn_read_eof := cn_read_eof c\<rparr>, env')"
      unfolding eq by simp
    then show ?thesis by fastforce
  next
    case 2
    then have "receive_loop budget info tail c env = (VIREO_OK, 0, ?i\<lparr>ri_stop_reason := VIREO_CONNECTION_RECEIVE_STOP_WOULD_BLOCK\<rparr>,
        c\<lparr>cn_read_eof := cn_read_eof c\<rparr>, env')" unfolding eq by simp
    then show ?thesis by fastforce
  next
    case 3
    then have "receive_loop budget info tail c env = (VIREO_RESULT_IO, cause, ?i, c\<lparr>cn_read_eof := cn_read_eof c\<rparr>, env')"
      unfolding eq by simp
    then show ?thesis by fastforce
  next
    case 4
    then have "receive_loop budget info tail c env = (VIREO_OK, 0, ?i\<lparr>ri_stop_reason := VIREO_CONNECTION_RECEIVE_STOP_EOF\<rparr>,
        c\<lparr>cn_read_eof := True\<rparr>, env')" unfolding eq by simp
    then show ?thesis by fastforce
  qed
qed

text \<open>Appending what arrived in the scratch array.\<close>

lemma append_scratch:
  assumes inv: "buf_inv rb" and fit: "unat (b_write_index rb) + length data \<le> unat (b_capacity rb)" and small: "length data \<le> 4096"
  obtains rb' where "vireo_buffer_append (Some rb) (Some (mem_write 0 data (replicate 4096 0))) (word_of_nat (length data)) = (VIREO_OK, Some rb')"
    and "buf_inv rb'" and "buf_bytes rb' = buf_bytes rb @ data" and "b_capacity rb' = b_capacity rb"
    and "b_write_index rb' = b_write_index rb + word_of_nat (length data)"
proof -
  let ?k = "word_of_nat (length data) :: size_t"
  have k: "unat ?k = length data" using small by (simp add: unsigned_of_nat take_bit_nat_eq_self)
  define rb' where "rb' = rb\<lparr>b_data := mem_write (unat (b_write_index rb)) data (b_data rb), b_write_index := b_write_index rb + ?k\<rparr>"
  have scratch: "take (length data) (mem_write 0 data (replicate 4096 0)) = data" by (simp add: mem_write_def)
  have lens: "unat ?k \<le> length (mem_write 0 data (replicate 4096 (0 :: u8)))" using k small by simp
  have "vireo_buffer_append (Some rb) (Some (mem_write 0 data (replicate 4096 0))) ?k = (VIREO_OK, Some rb')"
    unfolding append_eq [OF inv lens] using fit k scratch by (simp add: rb'_def)
  moreover have "buf_inv rb'" "buf_bytes rb' = buf_bytes rb @ data"
    using append_refines(1,2) [OF inv lens] fit k scratch by (simp_all add: rb'_def)
  ultimately show thesis by (rule that) (simp_all add: rb'_def)
qed

definition receive_frame :: "net_env \<Rightarrow> net_env \<Rightarrow> bool" where
  "receive_frame env env' \<longleftrightarrow> ne_wire env' = ne_wire env \<and> ne_send env' = ne_send env \<and> ne_heap env' = ne_heap env"

lemma receive_loop_step:
  assumes c: "cn_read_buffer c = Some rb" and inv: "buf_inv rb" and tail: "tail = b_capacity rb - b_write_index rb"
    and le: "ri_received_bytes info \<le> rb_max_bytes budget"
  shows "(\<exists>rc cause info' eof env'. receive_loop budget info tail c env = (rc, cause, info', c\<lparr>cn_read_eof := eof\<rparr>, env') \<and>
      (cn_read_eof c \<longrightarrow> eof) \<and> ne_delivered env' = ne_delivered env \<and> receive_frame env env' \<and> ri_received_bytes info' = ri_received_bytes info) \<or>
    (\<exists>data rb' env' info'. receive_loop budget info tail c env =
        receive_loop budget info' (b_capacity rb' - b_write_index rb') (c\<lparr>cn_read_buffer := Some rb'\<rparr>) env' \<and>
      buf_inv rb' \<and> buf_bytes rb' = buf_bytes rb @ data \<and> b_capacity rb' = b_capacity rb \<and>
      ne_delivered env' = ne_delivered env @ data \<and> receive_frame env env' \<and>
      ri_recv_calls info' = ri_recv_calls info + 1 \<and> ri_recv_calls info \<noteq> rb_max_syscalls budget \<and>
      unat (ri_received_bytes info') = unat (ri_received_bytes info) + length data \<and> ri_received_bytes info' \<le> rb_max_bytes budget)"
    (is "?stop \<or> ?go")
proof (cases "ri_received_bytes info = rb_max_bytes budget \<or> tail = 0 \<or> ri_recv_calls info = rb_max_syscalls budget")
  case True
  then have ?stop by (subst receive_loop.simps) (auto simp: receive_frame_def intro!: exI [of _ "cn_read_eof c"])
  then show ?thesis by blast
next
  case False
  let ?m = "rb_max_bytes budget - ri_received_bytes info"
  define r1 where "r1 = (if ?m > tail then tail else ?m)"
  define r where "r = (if r1 > 4096 then 4096 else r1)"
  have m: "?m \<noteq> 0" "tail \<noteq> 0" using False by auto
  note r = clamp_request [OF m r1_def r_def]
  obtain n data cause env' where sys: "sys_receive r env = ((n, data, cause), env')" by (metis surj_pair)
  note sc = sys_receive_cases [OF sys]
  have nf: "ri_received_bytes info \<noteq> rb_max_bytes budget" "ri_recv_calls info \<noteq> rb_max_syscalls budget" using False by auto
  note unf = nf(1) m(2) nf(2) r1_def r_def sys
  have fr: "receive_frame env env'" using sc by (simp add: receive_frame_def)
  show ?thesis
  proof (cases "0 < n \<and> n \<le> uint r")
    case False
    then have "n < -1 \<or> n > sint r \<or> n = -1 \<or> n = 0" using r(5) by linarith
    moreover have "ne_delivered env' = ne_delivered env" using sc False by (simp only: if_False)
    ultimately have ?stop using receive_loop_halts [OF unf, of c] fr by blast
    then show ?thesis by blast
  next
    case True
    then have n: "n = int (length data)" and dl: "ne_delivered env' = ne_delivered env @ data" using sc by simp_all
    let ?k = "word_of_nat (length data) :: size_t"
    have "int (length data) \<le> int (unat r)" using True n by simp
    then have lr: "length data \<le> unat r" by linarith
    have rle: "unat r \<le> 4096" "unat r \<le> unat tail" "unat r \<le> unat ?m" using r(1-3) by (simp_all add: word_le_nat_alt)
    have small: "length data \<le> 4096" using lr rle(1) by simp
    have k: "unat ?k = length data" using small by (simp add: unsigned_of_nat take_bit_nat_eq_self)
    have "unat (b_write_index rb) \<le> unat (b_capacity rb)" using inv by (simp add: buf_inv_def)
    then have "unat (b_write_index rb) + length data \<le> unat (b_capacity rb)" using lr rle(2) tail unat_tail [OF inv] by simp
    then obtain rb' where app: "vireo_buffer_append (Some rb) (Some (mem_write 0 data (replicate 4096 0))) ?k = (VIREO_OK, Some rb')"
      and b': "buf_inv rb'" "buf_bytes rb' = buf_bytes rb @ data" "b_capacity rb' = b_capacity rb" "b_write_index rb' = b_write_index rb + ?k"
      using append_scratch [OF inv _ small] by blast
    have tot: "unat (ri_received_bytes info) + length data \<le> unat (rb_max_bytes budget)"
      using lr rle(3) unat_sub_le [OF le] le by (simp add: word_le_nat_alt)
    then have sum: "unat (ri_received_bytes info) + unat ?k < 2 ^ 64" using k unat_lt_64 [of "rb_max_bytes budget"] by simp
    let ?i = "info\<lparr>ri_recv_calls := ri_recv_calls info + 1, ri_received_bytes := ri_received_bytes info + ?k\<rparr>"
    have "receive_loop budget info tail c env =
        receive_loop budget ?i (b_capacity rb' - b_write_index rb') (c\<lparr>cn_read_buffer := Some rb'\<rparr>) env'"
      unfolding receive_loop_unfold [OF unf] Let_def using True r(5) sum app n b'(3,4) by (simp add: c size_add_Some tail diff_diff_eq)
    moreover have "unat (ri_received_bytes info + ?k) = unat (ri_received_bytes info) + length data" using sum k by (simp add: unat_add_less)
    ultimately have ?go
      using b'(1-3) dl fr nf(2) tot by (intro exI [of _ data] exI [of _ rb'] exI [of _ env'] exI [of _ ?i]) (simp add: word_le_nat_alt)
    then show ?thesis by blast
  qed
qed

lemma receive_loop_ok:
  assumes "cn_read_buffer c = Some rb" and "buf_inv rb" and "tail = b_capacity rb - b_write_index rb"
    and "ri_received_bytes info \<le> rb_max_bytes budget" and "receive_loop budget info tail c env = (rc, cause, info', c', env')"
  shows "\<exists>data rb' eof. c' = c\<lparr>cn_read_buffer := Some rb', cn_read_eof := eof\<rparr> \<and> (cn_read_eof c \<longrightarrow> eof) \<and> buf_inv rb' \<and>
    buf_bytes rb' = buf_bytes rb @ data \<and> b_capacity rb' = b_capacity rb \<and>
    ne_delivered env' = ne_delivered env @ data \<and> receive_frame env env' \<and>
    unat (ri_received_bytes info') = unat (ri_received_bytes info) + length data \<and> ri_received_bytes info' \<le> rb_max_bytes budget"
  using assms
proof (induction "unat (rb_max_syscalls budget - ri_recv_calls info)" arbitrary: info tail c rb env rule: less_induct)
  case less
  from receive_loop_step [OF less.prems(1-4), of env] show ?case
  proof (elim disjE exE conjE)
    fix rc1 cause1 info1 eof env1
    assume eq: "receive_loop budget info tail c env = (rc1, cause1, info1, c\<lparr>cn_read_eof := eof\<rparr>, env1)"
      and rest: "cn_read_eof c \<longrightarrow> eof" "ne_delivered env1 = ne_delivered env" "receive_frame env env1"
        "ri_received_bytes info1 = ri_received_bytes info"
    have "c' = c\<lparr>cn_read_buffer := Some rb, cn_read_eof := eof\<rparr>" "env' = env1" "info' = info1"
      using eq less.prems(1,5) by (simp_all del: receive_loop.simps)
    then show ?thesis using rest less.prems(2,4) by (intro exI [of _ "[]"] exI [of _ rb] exI [of _ eof]) simp
  next
    fix data rb1 env1 info1
    assume eq: "receive_loop budget info tail c env =
        receive_loop budget info1 (b_capacity rb1 - b_write_index rb1) (c\<lparr>cn_read_buffer := Some rb1\<rparr>) env1"
      and b: "buf_inv rb1" "buf_bytes rb1 = buf_bytes rb @ data" "b_capacity rb1 = b_capacity rb"
      and d: "ne_delivered env1 = ne_delivered env @ data" "receive_frame env env1"
      and i: "ri_recv_calls info1 = ri_recv_calls info + 1" "ri_recv_calls info \<noteq> rb_max_syscalls budget"
        "unat (ri_received_bytes info1) = unat (ri_received_bytes info) + length data" "ri_received_bytes info1 \<le> rb_max_bytes budget"
    have dec: "unat (rb_max_syscalls budget - ri_recv_calls info1) < unat (rb_max_syscalls budget - ri_recv_calls info)"
      unfolding i(1) by (rule word_count_up [OF i(2)])
    have run: "receive_loop budget info1 (b_capacity rb1 - b_write_index rb1) (c\<lparr>cn_read_buffer := Some rb1\<rparr>) env1 = (rc, cause, info', c', env')"
      using less.prems(5) unfolding eq .
    obtain data2 rb2 eof where
      "c' = c\<lparr>cn_read_buffer := Some rb1\<rparr>\<lparr>cn_read_buffer := Some rb2, cn_read_eof := eof\<rparr>" "cn_read_eof c \<longrightarrow> eof" "buf_inv rb2"
      "buf_bytes rb2 = buf_bytes rb1 @ data2" "b_capacity rb2 = b_capacity rb1" "ne_delivered env' = ne_delivered env1 @ data2"
      "receive_frame env1 env'" "unat (ri_received_bytes info') = unat (ri_received_bytes info1) + length data2"
      "ri_received_bytes info' \<le> rb_max_bytes budget"
      using less.hyps [OF dec _ b(1) refl i(4) run] by auto
    then show ?thesis using b d i(3)
      by (intro exI [of _ "data @ data2"] exI [of _ rb2] exI [of _ eof]) (simp add: receive_frame_def)
  qed
qed

subsection \<open>Sending\<close>

lemma peek_bytes:
  assumes "buf_inv b"
  shows "\<exists>d. vireo_buffer_peek (Some b) (Some x) (Some y) = (VIREO_OK, Some d, Some (b_write_index b - b_read_index b)) \<and>
    (buf_bytes b \<noteq> [] \<longrightarrow> d \<noteq> None \<and> length (buf_bytes b) \<le> length (the d) \<and> take (length (buf_bytes b)) (the d) = buf_bytes b)"
    and "b_write_index b - b_read_index b = 0 \<longleftrightarrow> buf_bytes b = []"
    and "unat (b_write_index b - b_read_index b) = length (buf_bytes b)"
proof -
  show n: "unat (b_write_index b - b_read_index b) = length (buf_bytes b)" using unat_readable [OF assms] assms by simp
  then show z: "b_write_index b - b_read_index b = 0 \<longleftrightarrow> buf_bytes b = []" by (metis length_0_conv unat_eq_zero)
  have "length (buf_bytes b) \<le> length (drop (unat (b_read_index b)) (b_data b))"
    "take (length (buf_bytes b)) (drop (unat (b_read_index b)) (b_data b)) = buf_bytes b"
    using assms by (auto simp: buf_inv_def) (simp add: buf_bytes_def mem_read_def)
  then show "\<exists>d. vireo_buffer_peek (Some b) (Some x) (Some y) = (VIREO_OK, Some d, Some (b_write_index b - b_read_index b)) \<and>
    (buf_bytes b \<noteq> [] \<longrightarrow> d \<noteq> None \<and> length (buf_bytes b) \<le> length (the d) \<and> take (length (buf_bytes b)) (the d) = buf_bytes b)"
    using z by (simp add: vireo_buffer_peek_def Let_def)
qed

lemma consume_prefix:
  assumes inv: "buf_inv b" and "length data \<le> length (buf_bytes b)" and "length data < 2 ^ 64"
  obtains b' where "vireo_buffer_consume (Some b) (word_of_nat (length data)) = (VIREO_OK, Some b')" and "buf_inv b'"
    and "buf_bytes b' = drop (length data) (buf_bytes b)" and "b_capacity b' = b_capacity b"
proof -
  let ?k = "word_of_nat (length data) :: size_t"
  have k: "unat ?k = length data" using assms(3) by (simp add: unsigned_of_nat take_bit_nat_eq_self)
  have le: "unat ?k \<le> length (buf_bytes b)" using k assms(2) by simp
  obtain b' where b': "vireo_buffer_consume (Some b) ?k = (VIREO_OK, Some b')" "b_capacity b' = b_capacity b"
    using le consume_eq [OF inv, of ?k] by (auto simp: Let_def)
  show thesis using that [OF b'(1)] consume_refines(1,2) [OF inv le b'(1)] b'(2) k by simp
qed

definition send_frame :: "net_env \<Rightarrow> net_env \<Rightarrow> bool" where
  "send_frame env env' \<longleftrightarrow> ne_delivered env' = ne_delivered env \<and> ne_recv env' = ne_recv env \<and> ne_heap env' = ne_heap env"

lemma send_loop_unfold:
  assumes peek: "vireo_buffer_peek (cn_write_buffer c) (Some None) (Some 0) = (VIREO_OK, Some (Some bytes), Some pending)"
    and "pending \<noteq> 0" and "si_sent_bytes info \<noteq> sb_max_bytes budget" and "si_send_calls info \<noteq> sb_max_syscalls budget"
    and r1: "r1 = (if sb_max_bytes budget - si_sent_bytes info > pending then pending else sb_max_bytes budget - si_sent_bytes info)"
    and r: "r = (if r1 > 4096 then 4096 else r1)" and sys: "sys_send bytes r env = ((n, cause), env')"
  shows "send_loop budget info c env =
     (let info1 = info\<lparr>si_send_calls := si_send_calls info + 1\<rparr> in
        if n < -1 \<or> n = 0 \<or> n > sint r then (VIREO_RESULT_INTERNAL, 0, info1, c, env')
        else if n = -1
        then
          if cause = EAGAIN then (VIREO_OK, 0, info1\<lparr>si_stop_reason := VIREO_CONNECTION_SEND_STOP_WOULD_BLOCK\<rparr>, c, env')
          else (VIREO_RESULT_IO, cause, info1, c, env')
        else
          let sent = word_of_int n;
              (result, total) = vireo_checked_size_add (si_sent_bytes info1) sent (Some (si_sent_bytes info1));
              info2 = info1\<lparr>si_sent_bytes := the total\<rparr> in
          if result \<noteq> VIREO_OK then (VIREO_RESULT_INTERNAL, 0, info2, c, env')
          else
            let (result, wb) = vireo_buffer_consume (cn_write_buffer c) sent; c = c\<lparr>cn_write_buffer := wb\<rparr> in
            if result \<noteq> VIREO_OK then (VIREO_RESULT_INTERNAL, 0, info2, c, env')
            else send_loop budget info2 c env')"
  unfolding send_loop.simps [of budget info c env] peek prod.case Let_def option.sel r1 [symmetric] r [symmetric] sys
  using assms(2-4) by simp

text \<open>A pass that ends the loop changes neither connection nor wire.\<close>

lemma send_loop_halts:
  assumes unf: "vireo_buffer_peek (cn_write_buffer c) (Some None) (Some 0) = (VIREO_OK, Some (Some bytes), Some pending)"
     "pending \<noteq> 0" "si_sent_bytes info \<noteq> sb_max_bytes budget" "si_send_calls info \<noteq> sb_max_syscalls budget"
     "r1 = (if sb_max_bytes budget - si_sent_bytes info > pending then pending else sb_max_bytes budget - si_sent_bytes info)"
     "r = (if r1 > 4096 then 4096 else r1)" "sys_send bytes r env = ((n, cause), env')"
    and n: "n \<le> 0 \<or> n > sint r"
  shows "\<exists>rc cause' info'. send_loop budget info c env = (rc, cause', info', c, env') \<and> si_sent_bytes info' = si_sent_bytes info \<and>
    (rc = VIREO_OK \<longrightarrow> si_stop_reason info' \<noteq> VIREO_CONNECTION_SEND_STOP_EMPTY)"
proof -
  note eq = send_loop_unfold [OF unf, unfolded Let_def]
  consider "n < -1 \<or> n = 0 \<or> n > sint r" | "\<not> (n < -1 \<or> n = 0 \<or> n > sint r)" "n = -1" using n by linarith
  then show ?thesis
  proof cases
    case 1
    then show ?thesis unfolding eq by simp
  next
    case 2
    then show ?thesis unfolding eq by (cases "cause = EAGAIN") simp_all
  qed
qed

lemma send_loop_step:
  assumes c: "cn_write_buffer c = Some wb" and inv: "buf_inv wb" and le: "si_sent_bytes info \<le> sb_max_bytes budget"
  shows "(\<exists>rc cause info' env'. send_loop budget info c env = (rc, cause, info', c, env') \<and> ne_wire env' = ne_wire env \<and>
      send_frame env env' \<and> si_sent_bytes info' = si_sent_bytes info \<and>
      (rc = VIREO_OK \<and> si_stop_reason info' = VIREO_CONNECTION_SEND_STOP_EMPTY \<longrightarrow> buf_bytes wb = [])) \<or>
    (\<exists>data wb' env' info'. send_loop budget info c env = send_loop budget info' (c\<lparr>cn_write_buffer := Some wb'\<rparr>) env' \<and>
      buf_inv wb' \<and> buf_bytes wb = data @ buf_bytes wb' \<and> b_capacity wb' = b_capacity wb \<and>
      ne_wire env' = ne_wire env @ data \<and> send_frame env env' \<and>
      si_send_calls info' = si_send_calls info + 1 \<and> si_send_calls info \<noteq> sb_max_syscalls budget \<and>
      unat (si_sent_bytes info') = unat (si_sent_bytes info) + length data \<and> si_sent_bytes info' \<le> sb_max_bytes budget)"
    (is "?stop \<or> ?go")
proof -
  let ?p = "b_write_index wb - b_read_index wb" and ?m = "sb_max_bytes budget - si_sent_bytes info"
  note pk = peek_bytes [OF inv]
  obtain d where peek: "vireo_buffer_peek (cn_write_buffer c) (Some None) (Some 0) = (VIREO_OK, Some d, Some ?p)"
    and d: "buf_bytes wb \<noteq> [] \<longrightarrow> d \<noteq> None \<and> length (buf_bytes wb) \<le> length (the d) \<and> take (length (buf_bytes wb)) (the d) = buf_bytes wb"
    using pk(1) unfolding c by blast
  show ?thesis
  proof (cases "?p = 0 \<or> si_sent_bytes info = sb_max_bytes budget \<or> si_send_calls info = sb_max_syscalls budget")
    case True
    then have ?stop using pk(2)
      by (subst send_loop.simps, unfold peek prod.case Let_def) (auto simp: send_frame_def)
    then show ?thesis by blast
  next
    case False
    then have ne: "?p \<noteq> 0" and nf: "si_sent_bytes info \<noteq> sb_max_bytes budget" "si_send_calls info \<noteq> sb_max_syscalls budget" by auto
    then obtain bs where bs: "d = Some bs" "length (buf_bytes wb) \<le> length bs" "take (length (buf_bytes wb)) bs = buf_bytes wb"
      using d pk(2) by auto
    define r1 where "r1 = (if ?m > ?p then ?p else ?m)"
    define r where "r = (if r1 > 4096 then 4096 else r1)"
    have m: "?m \<noteq> 0" using nf by auto
    note r = clamp_request [OF m ne r1_def r_def]
    obtain n cause env' where sys: "sys_send bs r env = ((n, cause), env')" by (metis surj_pair)
    note sc = sys_send_cases [OF sys]
    note unf = peek [unfolded bs(1)] ne nf r1_def r_def sys
    have fr: "send_frame env env'" using sc by (simp add: send_frame_def)
    show ?thesis
    proof (cases "0 < n \<and> n \<le> uint r")
      case False
      then have "n \<le> 0 \<or> n > sint r" using r(5) by linarith
      moreover have "ne_wire env' = ne_wire env" using sc False by (simp only: if_False append_Nil2)
      ultimately have ?stop using send_loop_halts [OF unf] fr by blast
      then show ?thesis by blast
    next
      case True
      define data where "data = take (nat n) (buf_bytes wb)"
      let ?k = "word_of_nat (length data) :: size_t"
      have "int (nat n) \<le> int (unat r)" using True by simp
      then have lr: "nat n \<le> unat r" by linarith
      have rle: "unat r \<le> 4096" "unat r \<le> length (buf_bytes wb)" "unat r \<le> unat ?m"
        using r(1-3) pk(3) by (simp_all add: word_le_nat_alt)
      have len: "length data = nat n" using lr rle(2) by (simp add: data_def)
      have small: "length data \<le> 4096" using len lr rle(1) by simp
      have k: "unat ?k = length data" using small by (simp add: unsigned_of_nat take_bit_nat_eq_self)
      have w: "ne_wire env' = ne_wire env @ data"
        using sc True bs(2,3) lr rle(2) by (simp add: data_def) (metis min.absorb1 le_trans take_take)
      obtain wb' where cs: "vireo_buffer_consume (Some wb) ?k = (VIREO_OK, Some wb')"
        and b': "buf_inv wb'" "buf_bytes wb' = drop (length data) (buf_bytes wb)" "b_capacity wb' = b_capacity wb"
        by (rule consume_prefix [OF inv, of data]) (use len lr rle(2) small in simp_all)
      have tot: "unat (si_sent_bytes info) + length data \<le> unat (sb_max_bytes budget)"
        using lr len rle(3) unat_sub_le [OF le] le by (simp add: word_le_nat_alt)
      then have sum: "unat (si_sent_bytes info) + unat ?k < 2 ^ 64" using k unat_lt_64 [of "sb_max_bytes budget"] by simp
      let ?i = "info\<lparr>si_send_calls := si_send_calls info + 1, si_sent_bytes := si_sent_bytes info + ?k\<rparr>"
      have n: "word_of_int n = ?k" using True len by simp
      have "send_loop budget info c env = send_loop budget ?i (c\<lparr>cn_write_buffer := Some wb'\<rparr>) env'"
        unfolding send_loop_unfold [OF unf] Let_def using True r(5) sum cs n by (simp add: c size_add_Some)
      moreover have "unat (si_sent_bytes info + ?k) = unat (si_sent_bytes info) + length data" using sum k by (simp add: unat_add_less)
      moreover have "buf_bytes wb = data @ buf_bytes wb'" unfolding b'(2) len by (simp add: data_def)
      ultimately have ?go
        using b'(1,3) w fr nf(2) tot by (intro exI [of _ data] exI [of _ wb'] exI [of _ env'] exI [of _ ?i]) (simp add: word_le_nat_alt)
      then show ?thesis by blast
    qed
  qed
qed

lemma send_loop_ok:
  assumes "cn_write_buffer c = Some wb" and "buf_inv wb" and "si_sent_bytes info \<le> sb_max_bytes budget"
    and "send_loop budget info c env = (rc, cause, info', c', env')"
  shows "\<exists>data wb'. c' = c\<lparr>cn_write_buffer := Some wb'\<rparr> \<and> buf_inv wb' \<and> buf_bytes wb = data @ buf_bytes wb' \<and>
    b_capacity wb' = b_capacity wb \<and> ne_wire env' = ne_wire env @ data \<and> send_frame env env' \<and>
    unat (si_sent_bytes info') = unat (si_sent_bytes info) + length data \<and> si_sent_bytes info' \<le> sb_max_bytes budget \<and>
    (rc = VIREO_OK \<and> si_stop_reason info' = VIREO_CONNECTION_SEND_STOP_EMPTY \<longrightarrow> buf_bytes wb' = [])"
  using assms
proof (induction "unat (sb_max_syscalls budget - si_send_calls info)" arbitrary: info c wb env rule: less_induct)
  case less
  from send_loop_step [OF less.prems(1-3), of env] show ?case
  proof (elim disjE exE conjE)
    fix rc1 cause1 info1 env1
    assume eq: "send_loop budget info c env = (rc1, cause1, info1, c, env1)"
      and rest: "ne_wire env1 = ne_wire env" "send_frame env env1" "si_sent_bytes info1 = si_sent_bytes info"
        "rc1 = VIREO_OK \<and> si_stop_reason info1 = VIREO_CONNECTION_SEND_STOP_EMPTY \<longrightarrow> buf_bytes wb = []"
    have "c' = c\<lparr>cn_write_buffer := Some wb\<rparr>" "env' = env1" "info' = info1" "rc = rc1"
      using eq less.prems(1,4) by (simp_all del: send_loop.simps)
    then show ?thesis using rest less.prems(2,3) by (intro exI [of _ "[]"] exI [of _ wb]) simp
  next
    fix data wb1 env1 info1
    assume eq: "send_loop budget info c env = send_loop budget info1 (c\<lparr>cn_write_buffer := Some wb1\<rparr>) env1"
      and b: "buf_inv wb1" "buf_bytes wb = data @ buf_bytes wb1" "b_capacity wb1 = b_capacity wb"
      and d: "ne_wire env1 = ne_wire env @ data" "send_frame env env1"
      and i: "si_send_calls info1 = si_send_calls info + 1" "si_send_calls info \<noteq> sb_max_syscalls budget"
        "unat (si_sent_bytes info1) = unat (si_sent_bytes info) + length data" "si_sent_bytes info1 \<le> sb_max_bytes budget"
    have dec: "unat (sb_max_syscalls budget - si_send_calls info1) < unat (sb_max_syscalls budget - si_send_calls info)"
      unfolding i(1) by (rule word_count_up [OF i(2)])
    have run: "send_loop budget info1 (c\<lparr>cn_write_buffer := Some wb1\<rparr>) env1 = (rc, cause, info', c', env')"
      using less.prems(4) unfolding eq .
    obtain data2 wb2 where "c' = c\<lparr>cn_write_buffer := Some wb1\<rparr>\<lparr>cn_write_buffer := Some wb2\<rparr>" "buf_inv wb2"
      "buf_bytes wb1 = data2 @ buf_bytes wb2" "b_capacity wb2 = b_capacity wb1" "ne_wire env' = ne_wire env1 @ data2" "send_frame env1 env'"
      "unat (si_sent_bytes info') = unat (si_sent_bytes info1) + length data2" "si_sent_bytes info' \<le> sb_max_bytes budget"
      "rc = VIREO_OK \<and> si_stop_reason info' = VIREO_CONNECTION_SEND_STOP_EMPTY \<longrightarrow> buf_bytes wb2 = []"
      using less.hyps [OF dec _ b(1) i(4) run] by auto
    then show ?thesis using b d i(3) by (intro exI [of _ "data @ data2"] exI [of _ wb2]) (simp add: send_frame_def)
  qed
qed

end
