(* ===== verification/Net_Session.thy ===== *)
theory Net_Session
  imports Net_Stream
begin

text \<open>
  A connection in use: any sequence of its operations, with any answers of the socket and the event loop. The invariant, the
  two streams, and the progress of closing.
\<close>

subsection \<open>Operations as steps\<close>

datatype conn_op =
    CO_Receive vireo_connection_receive_budget
  | CO_Consume size_t
  | CO_Enqueue bytes
  | CO_Send vireo_connection_send_budget
  | CO_Attach u32
  | CO_Set_Interests u32
  | CO_Detach
  | CO_Forget
  | CO_Flow_Configure vireo_connection_flow_options
  | CO_Flow_Refresh
  | CO_Flow_Disable
  | CO_Close vireo_connection_close_mode vireo_connection_close_reason
  | CO_Close_Refresh

type_synonym 'tls conn_run = "'tls vireo_connection \<times> net_env"

definition no_receive_info :: vireo_connection_receive_info where
  "no_receive_info = \<lparr>ri_received_bytes = 0, ri_recv_calls = 0, ri_stop_reason = VIREO_CONNECTION_RECEIVE_STOP_ERROR\<rparr>"

definition no_send_info :: vireo_connection_send_info where
  "no_send_info = \<lparr>si_sent_bytes = 0, si_send_calls = 0, si_stop_reason = VIREO_CONNECTION_SEND_STOP_ERROR\<rparr>"

definition loop_event :: "'tls loop_result \<Rightarrow> (vireo_result \<times> bytes) \<times> 'tls conn_run" where
  "loop_event r = (case r of (rc, c, e, env) \<Rightarrow> ((rc, []), (the c, env)))"

text \<open>An event is the result and the bytes that passed to or from the caller: what it consumed, as shown by a peek before, or queued.\<close>

fun conn_exec :: "'tls tls_ops \<Rightarrow> conn_op \<Rightarrow> 'tls conn_run \<Rightarrow> (vireo_result \<times> bytes) \<times> 'tls conn_run" where
  "conn_exec tls (CO_Receive b) (c, env) =
     (case vireo_connection_receive (Some c) (Some b) (Some no_receive_info) None env of (rc, c, i, e, env) \<Rightarrow> ((rc, []), (the c, env)))"
| "conn_exec tls (CO_Consume n) (c, env) =
     (case vireo_connection_read_peek tls (Some c) (Some None) (Some 0) of (prc, d, sz) \<Rightarrow>
      case vireo_connection_read_consume tls (Some c) n of (rc, c) \<Rightarrow>
        ((rc, if rc = VIREO_OK \<and> n \<noteq> 0 then take (unat n) (the (the d)) else []), (the c, env)))"
| "conn_exec tls (CO_Enqueue xs) (c, env) =
     (case vireo_connection_write_enqueue tls (Some c) (Some xs) (word_of_nat (length xs)) None of
        (rc, c, e) \<Rightarrow> ((rc, if rc = VIREO_OK then take (unat (word_of_nat (length xs) :: size_t)) xs else []), (the c, env)))"
| "conn_exec tls (CO_Send b) (c, env) =
     (case vireo_connection_send (Some c) (Some b) (Some no_send_info) None env of (rc, c, i, e, env) \<Rightarrow> ((rc, []), (the c, env)))"
| "conn_exec tls (CO_Attach interests) (c, env) = loop_event (vireo_connection_attach (Some c) (Some 0) interests (Some 0) None None env)"
| "conn_exec tls (CO_Set_Interests interests) (c, env) = loop_event (vireo_connection_set_interests (Some c) interests None env)"
| "conn_exec tls CO_Detach (c, env) = loop_event (vireo_connection_detach (Some c) None env)"
| "conn_exec tls CO_Forget (c, env) = loop_event (vireo_connection_forget_destroyed_loop (Some c) None env)"
| "conn_exec tls (CO_Flow_Configure f) (c, env) = loop_event (vireo_connection_flow_configure tls (Some c) (Some f) None env)"
| "conn_exec tls CO_Flow_Refresh (c, env) = loop_event (vireo_connection_flow_refresh tls (Some c) None env)"
| "conn_exec tls CO_Flow_Disable (c, env) = loop_event (vireo_connection_flow_disable (Some c) None env)"
| "conn_exec tls (CO_Close mode reason) (c, env) = loop_event (vireo_connection_request_close (Some c) mode reason None env)"
| "conn_exec tls CO_Close_Refresh (c, env) = loop_event (vireo_connection_close_refresh (Some c) None env)"

fun conn_read :: "conn_op \<Rightarrow> vireo_result \<times> bytes \<Rightarrow> bytes" where
  "conn_read (CO_Consume n) (rc, bs) = bs"
| "conn_read _ _ = []"

fun conn_queued :: "conn_op \<Rightarrow> vireo_result \<times> bytes \<Rightarrow> bytes" where
  "conn_queued (CO_Enqueue xs) (rc, bs) = bs"
| "conn_queued _ _ = []"

subsection \<open>Invariant\<close>

definition read_cap :: "'tls vireo_connection \<Rightarrow> size_t" where
  "read_cap c = b_capacity (the (cn_read_buffer c))"

definition write_cap :: "'tls vireo_connection \<Rightarrow> size_t" where
  "write_cap c = b_capacity (the (cn_write_buffer c))"

text \<open>The water marks a connection accepts: the low read mark leaves room for all but the last byte of a frame.\<close>

definition flow_ok :: "size_t \<Rightarrow> size_t \<Rightarrow> vireo_connection_flow_options \<Rightarrow> bool" where
  "flow_ok rcap wcap f \<longleftrightarrow> 32 \<le> unat (fo_max_frame_bytes f) \<and> unat (fo_max_frame_bytes f) \<le> unat rcap \<and>
     unat (fo_max_frame_bytes f) \<le> unat (fo_read_low f) + 1 \<and> unat (fo_read_low f) < unat (fo_read_high f) \<and>
     unat (fo_read_high f) \<le> unat rcap \<and> unat (fo_write_low f) < unat (fo_write_high f) \<and> unat (fo_write_high f) \<le> unat wcap"

definition flow_inv :: "'tls vireo_connection \<Rightarrow> bool" where
  "flow_inv c \<longleftrightarrow> (if cn_flow_enabled c then cn_loop_attached c \<and> flow_ok (read_cap c) (write_cap c) (cn_flow_options c)
     else \<not> cn_read_pressure c \<and> \<not> cn_write_pressure c)"

definition conn_inv :: "'tls vireo_connection \<Rightarrow> bool" where
  "conn_inv c \<longleftrightarrow> conn_raw c \<and> close_inv c \<and> flow_inv c"

text \<open>Closing only moves forward: the first reason stays, a mode is only raised, a ready connection stays ready.\<close>

definition close_forward :: "'tls vireo_connection \<Rightarrow> 'tls vireo_connection \<Rightarrow> bool" where
  "close_forward c c' \<longleftrightarrow>
     (cn_close_state c \<noteq> VIREO_CONNECTION_CLOSE_OPEN \<longrightarrow> cn_close_state c' \<noteq> VIREO_CONNECTION_CLOSE_OPEN \<and>
        cn_close_reason c' = cn_close_reason c) \<and>
     (cn_close_state c = VIREO_CONNECTION_CLOSE_READY \<longrightarrow> cn_close_state c' = VIREO_CONNECTION_CLOSE_READY) \<and>
     (cn_close_mode c = VIREO_CONNECTION_CLOSE_MODE_IMMEDIATE \<longrightarrow> cn_close_mode c' = VIREO_CONNECTION_CLOSE_MODE_IMMEDIATE)"

text \<open>What every step does: the invariant, the capacities, the close states, and the two streams.\<close>

definition conn_step :: "bytes \<Rightarrow> bytes \<Rightarrow> 'tls conn_run \<Rightarrow> 'tls conn_run \<Rightarrow> bool" where
  "conn_step rd qd s s' \<longleftrightarrow> conn_inv (fst s') \<and> read_cap (fst s') = read_cap (fst s) \<and> write_cap (fst s') = write_cap (fst s) \<and>
     close_forward (fst s) (fst s') \<and>
     (\<exists>d w. ne_delivered (snd s') = ne_delivered (snd s) @ d \<and> in_bytes (fst s) @ d = rd @ in_bytes (fst s') \<and>
        ne_wire (snd s') = ne_wire (snd s) @ w \<and> out_bytes (fst s) @ qd = w @ out_bytes (fst s'))"

lemma conn_stepI:
  assumes "conn_inv c'" and "read_cap c' = read_cap c" and "write_cap c' = write_cap c" and "close_forward c c'"
    and "ne_delivered env' = ne_delivered env @ d" and "in_bytes c @ d = rd @ in_bytes c'"
    and "ne_wire env' = ne_wire env @ w" and "out_bytes c @ qd = w @ out_bytes c'"
  shows "conn_step rd qd (c, env) (c', env')"
  using assms by (auto simp: conn_step_def)

lemma close_forward_refl: "close_forward c c"
  by (simp add: close_forward_def)

text \<open>A change of the buffers alone.\<close>

definition same_control :: "'tls vireo_connection \<Rightarrow> 'tls vireo_connection \<Rightarrow> bool" where
  "same_control c c' \<longleftrightarrow> cn_owned_tls c' = cn_owned_tls c \<and> cn_close_state c' = cn_close_state c \<and> cn_close_mode c' = cn_close_mode c \<and>
     cn_close_reason c' = cn_close_reason c \<and> cn_flow_enabled c' = cn_flow_enabled c \<and> cn_flow_options c' = cn_flow_options c \<and>
     cn_loop_attached c' = cn_loop_attached c \<and> cn_read_pressure c' = cn_read_pressure c \<and> cn_write_pressure c' = cn_write_pressure c"

lemma conn_inv_buffers:
  assumes "conn_inv c" and "cn_read_buffer c = Some rb" and "cn_write_buffer c = Some wb"
    and "cn_read_buffer c' = Some rb'" and "cn_write_buffer c' = Some wb'" and "same_control c c'" and "buf_inv rb'" and "buf_inv wb'"
    and "b_capacity rb' = b_capacity rb" and "b_capacity wb' = b_capacity wb"
    and "cn_close_state c = VIREO_CONNECTION_CLOSE_OPEN \<or> (buf_bytes wb = [] \<longrightarrow> buf_bytes wb' = [])"
  shows "conn_inv c'" and "read_cap c' = read_cap c" and "write_cap c' = write_cap c" and "close_forward c c'"
    and "in_bytes c' = buf_bytes rb'" and "out_bytes c' = buf_bytes wb'" and "in_bytes c = buf_bytes rb" and "out_bytes c = buf_bytes wb"
proof -
  show caps: "read_cap c' = read_cap c" "write_cap c' = write_cap c" using assms(2-5,9,10) by (simp_all add: read_cap_def write_cap_def)
  show io: "in_bytes c' = buf_bytes rb'" "out_bytes c' = buf_bytes wb'" "in_bytes c = buf_bytes rb" "out_bytes c = buf_bytes wb"
    using assms(2-5) by (simp_all add: in_bytes_def out_bytes_def)
  have "conn_raw c'" using assms(1,4-8) by (auto simp: conn_inv_def conn_raw_def same_control_def)
  moreover have "close_inv c'" using assms(1,6,11) io by (auto simp: conn_inv_def close_inv_def same_control_def)
  moreover have "flow_inv c'" using assms(1,6) caps by (auto simp: conn_inv_def flow_inv_def same_control_def)
  ultimately show "conn_inv c'" by (simp add: conn_inv_def)
  show "close_forward c c'" using assms(6) by (simp add: close_forward_def same_control_def)
qed

lemma conn_inv_parts:
  assumes "conn_inv c"
  obtains rb wb where "cn_owned_tls c = None" "cn_read_buffer c = Some rb" "buf_inv rb" "cn_write_buffer c = Some wb" "buf_inv wb"
  using assms unfolding conn_inv_def by (auto elim: conn_rawE)

subsection \<open>Input and output steps\<close>

lemma receive_step:
  assumes inv: "conn_inv c" and ex: "conn_exec tls (CO_Receive b) (c, env) = (ev, (c', env'))"
  shows "conn_step [] [] (c, env) (c', env')"
proof -
  obtain rb wb where rw: "cn_owned_tls c = None" "cn_read_buffer c = Some rb" "buf_inv rb" "cn_write_buffer c = Some wb" "buf_inv wb"
    by (rule conn_inv_parts [OF inv])
  obtain rb1 where k: "vireo_buffer_compact (Some rb) = (VIREO_OK, Some rb1)" by (simp add: vireo_buffer_compact_def Let_def)
  note k1 = compact_refines(2,3,5) [OF rw(3) k]
  let ?c1 = "c\<lparr>cn_read_buffer := Some rb1\<rparr>" and ?info = "\<lparr>ri_received_bytes = 0, ri_recv_calls = 0, ri_stop_reason = VIREO_CONNECTION_RECEIVE_STOP_ERROR\<rparr>"
  obtain rc cause info2 c2 env2 where l: "receive_loop b ?info (b_capacity rb1 - b_write_index rb1) ?c1 env = (rc, cause, info2, c2, env2)"
    by (metis prod_cases5)
  have "c' = c \<and> env' = env \<or> c' = ?c1 \<and> env' = env \<or> c' = c2 \<and> env' = env2"
    using ex rw k l by (auto simp: vireo_connection_receive_def Let_def vireo_buffer_inspect_def split: if_splits)
  moreover obtain data2 rb2 eof where "c2 = ?c1\<lparr>cn_read_buffer := Some rb2, cn_read_eof := eof\<rparr>" "buf_inv rb2"
      "buf_bytes rb2 = buf_bytes rb @ data2" "b_capacity rb2 = b_capacity rb" "ne_delivered env2 = ne_delivered env @ data2" "ne_wire env2 = ne_wire env"
    using receive_loop_ok [OF _ k1(1) refl _ l] k1(2,3) by (auto simp: receive_frame_def)
  ultimately obtain data rb' where c': "cn_read_buffer c' = Some rb'" "cn_write_buffer c' = Some wb" "same_control c c'"
    and b': "buf_inv rb'" "buf_bytes rb' = buf_bytes rb @ data" "b_capacity rb' = b_capacity rb"
    and e': "ne_delivered env' = ne_delivered env @ data" "ne_wire env' = ne_wire env"
    using k1 rw by (auto simp: same_control_def)
  have o: "cn_close_state c = VIREO_CONNECTION_CLOSE_OPEN \<or> (buf_bytes wb = [] \<longrightarrow> buf_bytes wb = [])" by simp
  note ci = conn_inv_buffers [OF inv rw(2,4) c' b'(1) rw(5) b'(3) refl o]
  show ?thesis by (rule conn_stepI [OF ci(1-4) e'(1), of _ "[]" "[]"]) (simp_all add: ci b' e')
qed

lemma consume_step:
  assumes inv: "conn_inv c" and ex: "conn_exec tls (CO_Consume n) (c, env) = ((rc, bs), (c', env'))"
  shows "conn_step bs [] (c, env) (c', env')"
proof -
  obtain rb wb where rw: "cn_owned_tls c = None" "cn_read_buffer c = Some rb" "buf_inv rb" "cn_write_buffer c = Some wb" "buf_inv wb"
    by (rule conn_inv_parts [OF inv])
  have o: "cn_close_state c = VIREO_CONNECTION_CLOSE_OPEN \<or> (buf_bytes wb = [] \<longrightarrow> buf_bytes wb = [])" by simp
  obtain d where pk: "vireo_buffer_peek (Some rb) (Some None) (Some 0) = (VIREO_OK, Some d, Some (b_write_index rb - b_read_index rb))"
    "buf_bytes rb \<noteq> [] \<longrightarrow> d \<noteq> None \<and> length (buf_bytes rb) \<le> length (the d) \<and> take (length (buf_bytes rb)) (the d) = buf_bytes rb"
    using peek_bytes(1) [OF rw(3)] by blast
  show ?thesis
  proof (cases "unat n \<le> length (buf_bytes rb)")
    case True
    obtain rb' where c: "vireo_buffer_consume (Some rb) n = (VIREO_OK, Some rb')" and cap: "b_capacity rb' = b_capacity rb"
      using True consume_eq [OF rw(3), of n] by (auto simp: Let_def)
    note b' = consume_refines(1,2) [OF rw(3) True c]
    have "bs = take (unat n) (buf_bytes rb)"
    proof (cases "n = 0")
      case False
      then have "buf_bytes rb \<noteq> []" using True by (auto simp: unat_eq_zero)
      then have "take (unat n) (the d) = take (unat n) (buf_bytes rb)" using pk(2) True by (metis min.absorb1 take_take)
      then show ?thesis using ex rw c pk(1) False by (simp add: vireo_connection_read_peek_def vireo_connection_read_consume_def Let_def)
    qed (use ex rw c in \<open>simp add: vireo_connection_read_peek_def vireo_connection_read_consume_def Let_def split: prod.splits\<close>)
    moreover have e: "env' = env" and c': "c' = c\<lparr>cn_read_buffer := Some rb'\<rparr>"
      using ex rw c by (simp_all add: vireo_connection_read_peek_def vireo_connection_read_consume_def Let_def split: prod.splits)
    have cs: "cn_read_buffer c' = Some rb'" "cn_write_buffer c' = Some wb" "same_control c c'" using c' rw by (simp_all add: same_control_def)
    note ci = conn_inv_buffers [OF inv rw(2,4) cs b'(1) rw(5) cap refl o]
    ultimately show ?thesis using b' by (intro conn_stepI [OF ci(1-4), of _ _ "[]" _ "[]"]) (simp_all add: ci e)
  next
    case False
    then have "rc = VIREO_RESULT_RANGE" "bs = []" "c' = c" "env' = env"
      using ex rw consume_eq [OF rw(3), of n]
      by (auto simp: vireo_connection_read_peek_def vireo_connection_read_consume_def Let_def split: prod.splits)
    then show ?thesis using inv by (intro conn_stepI [of _ _ _ _ "[]" _ "[]"]) (simp_all add: close_forward_refl)
  qed
qed

text \<open>What a queue request does to the write buffer when it is accepted.\<close>

lemma enqueue_cases:
  assumes inv: "buf_inv wb" and src: "unat sz \<le> length xs" and fit: "length (buf_bytes wb) + unat sz \<le> unat (b_capacity wb)"
    and wb1: "(if sz > b_capacity wb - b_write_index wb then vireo_buffer_compact (Some wb) else (VIREO_OK, Some wb)) = (rc1, wb1)"
  shows "rc1 = VIREO_OK \<and> (\<exists>wb'. vireo_buffer_append wb1 (Some xs) sz = (VIREO_OK, Some wb') \<and> buf_inv wb' \<and>
    buf_bytes wb' = buf_bytes wb @ take (unat sz) xs \<and> b_capacity wb' = b_capacity wb)"
proof -
  obtain b where b: "wb1 = Some b" "rc1 = VIREO_OK" "buf_inv b" "buf_bytes b = buf_bytes wb" "b_capacity b = b_capacity wb"
    and room: "unat (b_write_index b) + unat sz \<le> unat (b_capacity b)"
  proof (cases "sz > b_capacity wb - b_write_index wb")
    case True
    obtain b where kb: "vireo_buffer_compact (Some wb) = (VIREO_OK, Some b)" by (simp add: vireo_buffer_compact_def Let_def)
    note kr = compact_refines(2-5) [OF inv kb]
    have "unat (b_write_index b) = length (buf_bytes b)" using kr(1,3) by simp
    then show thesis using that [of b] kr kb wb1 True fit by simp
  next
    case False
    then have "unat sz \<le> unat (b_capacity wb) - unat (b_write_index wb)"
      using unat_tail [OF inv] by (metis not_less word_le_nat_alt)
    moreover have "unat (b_write_index wb) \<le> unat (b_capacity wb)" using inv by (simp add: buf_inv_def)
    ultimately show thesis using that [of wb] wb1 False inv by simp
  qed
  define b' where "b' = b\<lparr>b_data := mem_write (unat (b_write_index b)) (take (unat sz) xs) (b_data b), b_write_index := b_write_index b + sz\<rparr>"
  have "vireo_buffer_append wb1 (Some xs) sz = (VIREO_OK, Some b')"
    using append_eq [OF b(3) src] room by (simp add: b(1) b'_def)
  moreover have "buf_inv b'" "buf_bytes b' = buf_bytes b @ take (unat sz) xs"
    using append_refines(1,2) [OF b(3) src room b'_def] by simp_all
  ultimately show ?thesis using b by (auto simp: b'_def)
qed

lemma enqueue_step:
  assumes inv: "conn_inv c" and ex: "conn_exec tls (CO_Enqueue xs) (c, env) = ((rc, bs), (c', env'))"
  shows "conn_step [] bs (c, env) (c', env')"
proof -
  obtain rb wb where rw: "cn_owned_tls c = None" "cn_read_buffer c = Some rb" "buf_inv rb" "cn_write_buffer c = Some wb" "buf_inv wb"
    by (rule conn_inv_parts [OF inv])
  let ?n = "word_of_nat (length xs) :: size_t" and ?p = "b_write_index wb - b_read_index wb"
  let ?xs = "take (unat ?n) xs"
  have src: "unat ?n \<le> length xs" by (simp add: unsigned_of_nat take_bit_nat_less_eq_self)
  then have n: "unat ?n = length ?xs" by simp
  have p: "unat ?p = length (buf_bytes wb)" by (rule peek_bytes(3) [OF rw(5)])
  obtain rc1 wb1 where wb1: "(if ?n > b_capacity wb - b_write_index wb then vireo_buffer_compact (Some wb) else (VIREO_OK, Some wb)) = (rc1, wb1)"
    by (metis surj_pair)
  let ?fits = "length (buf_bytes wb) + unat ?n \<le> unat (b_capacity wb) \<and> cn_close_state c = VIREO_CONNECTION_CLOSE_OPEN"
  show ?thesis
  proof (cases ?fits)
    case True
    obtain wb' where w: "rc1 = VIREO_OK" "vireo_buffer_append wb1 (Some xs) ?n = (VIREO_OK, Some wb')" "buf_inv wb'"
      "buf_bytes wb' = buf_bytes wb @ ?xs" "b_capacity wb' = b_capacity wb"
      using enqueue_cases [OF rw(5) src _ wb1] True by blast
    have sum: "unat (?p + ?n) = length (buf_bytes wb) + unat ?n" "unat ?p + unat ?n < 2 ^ 64"
      using True p unat_lt_64 [of "b_capacity wb"] by (simp_all add: unat_add_less)
    have "\<not> ?n > b_capacity wb" "\<not> ?p + ?n > b_capacity wb" using sum(1) True by (simp_all add: word_less_nat_alt not_less)
    then have "vireo_connection_write_enqueue tls (Some c) (Some xs) ?n None =
        (VIREO_OK, Some (c\<lparr>cn_write_buffer := Some wb'\<rparr>), finish None VIREO_CONNECTION_STAGE_NONE 0)"
      using rw w True sum(2) wb1
      by (simp add: vireo_connection_write_enqueue_def Let_def vireo_buffer_inspect_def size_add_Some cong: if_cong)
    then have "rc = VIREO_OK" "bs = ?xs" "env' = env" "c' = c\<lparr>cn_write_buffer := Some wb'\<rparr>" using ex by simp_all
    moreover have cs: "cn_read_buffer c' = Some rb" "cn_write_buffer c' = Some wb'" "same_control c c'"
      using rw calculation by (simp_all add: same_control_def)
    note ci = conn_inv_buffers [OF inv rw(2,4) cs rw(3) w(3) refl w(5)]
    ultimately show ?thesis using True by (intro conn_stepI [of _ _ _ _ "[]" _ "[]"]) (simp_all add: ci w)
  next
    case False
    have "rc \<noteq> VIREO_OK \<and> bs = [] \<and> env' = env \<and> c' = c"
    proof (cases "unat ?p + unat ?n < 2 ^ 64")
      case True
      then have "unat (?p + ?n) = length (buf_bytes wb) + unat ?n" using p by (simp add: unat_add_less)
      then show ?thesis using ex rw False True
        by (auto simp: vireo_connection_write_enqueue_def Let_def vireo_buffer_inspect_def size_add_Some word_less_nat_alt not_less split: if_splits prod.splits)
    next
      case False
      then show ?thesis using ex rw
        by (auto simp: vireo_connection_write_enqueue_def Let_def vireo_buffer_inspect_def size_add_Some split: if_splits)
    qed
    then show ?thesis using inv by (intro conn_stepI [of _ _ _ _ "[]" _ "[]"]) (simp_all add: close_forward_refl)
  qed
qed

lemma send_step:
  assumes inv: "conn_inv c" and ex: "conn_exec tls (CO_Send b) (c, env) = (ev, (c', env'))"
  shows "conn_step [] [] (c, env) (c', env')"
proof -
  obtain rb wb where rw: "cn_owned_tls c = None" "cn_read_buffer c = Some rb" "buf_inv rb" "cn_write_buffer c = Some wb" "buf_inv wb"
    by (rule conn_inv_parts [OF inv])
  obtain rc cause info2 c2 env2 where l: "send_loop b no_send_info c env = (rc, cause, info2, c2, env2)" by (metis prod_cases5)
  have "c' = c \<and> env' = env \<or> c' = c2 \<and> env' = env2"
    using ex rw l by (auto simp: vireo_connection_send_def Let_def no_send_info_def split: if_splits)
  moreover obtain data2 wb2 where "c2 = c\<lparr>cn_write_buffer := Some wb2\<rparr>" "buf_inv wb2" "buf_bytes wb = data2 @ buf_bytes wb2"
    "b_capacity wb2 = b_capacity wb" "ne_wire env2 = ne_wire env @ data2" "ne_delivered env2 = ne_delivered env"
    using send_loop_ok [OF rw(4,5) _ l] by (auto simp: send_frame_def no_send_info_def)
  ultimately obtain data wb' where c': "cn_read_buffer c' = Some rb" "cn_write_buffer c' = Some wb'" "same_control c c'"
    and b': "buf_inv wb'" "buf_bytes wb = data @ buf_bytes wb'" "b_capacity wb' = b_capacity wb"
    and e': "ne_wire env' = ne_wire env @ data" "ne_delivered env' = ne_delivered env"
    using rw by (auto simp: same_control_def)
  have o: "cn_close_state c = VIREO_CONNECTION_CLOSE_OPEN \<or> (buf_bytes wb = [] \<longrightarrow> buf_bytes wb' = [])" using b'(2) by auto
  note ci = conn_inv_buffers [OF inv rw(2,4) c' rw(3) b'(1) refl b'(3) o]
  show ?thesis using e' by (intro conn_stepI [OF ci(1-4), of _ _ "[]"]) (simp_all add: ci b')
qed

subsection \<open>Control steps\<close>

lemma sys_loop_frame: "sys_loop env = (a, env') \<Longrightarrow> ne_delivered env' = ne_delivered env \<and> ne_wire env' = ne_wire env"
  by (auto simp: sys_loop_def split: list.splits)

definition same_buffers :: "'tls vireo_connection \<Rightarrow> 'tls vireo_connection \<Rightarrow> bool" where
  "same_buffers c c' \<longleftrightarrow> cn_owned_tls c' = cn_owned_tls c \<and> cn_read_buffer c' = cn_read_buffer c \<and> cn_write_buffer c' = cn_write_buffer c"

lemma control_stepI:
  assumes "conn_inv c" and "same_buffers c c'" and "close_inv c'" and "close_forward c c'" and "flow_inv c'"
    and "ne_delivered env' = ne_delivered env" and "ne_wire env' = ne_wire env"
  shows "conn_step [] [] (c, env) (c', env')"
proof (rule conn_stepI [of _ _ _ _ "[]" _ "[]"])
  show "conn_inv c'" using assms(1-3,5) by (simp add: conn_inv_def conn_raw_def same_buffers_def)
qed (use assms in \<open>simp_all add: same_buffers_def read_cap_def write_cap_def in_bytes_def out_bytes_def\<close>)

text \<open>Steps that leave the close states alone.\<close>

definition same_close :: "'tls vireo_connection \<Rightarrow> 'tls vireo_connection \<Rightarrow> bool" where
  "same_close c c' \<longleftrightarrow> same_buffers c c' \<and> cn_close_state c' = cn_close_state c \<and> cn_close_mode c' = cn_close_mode c \<and>
     cn_close_reason c' = cn_close_reason c"

lemma binding_stepI:
  assumes "conn_inv c" and "same_close c c'" and "flow_inv c'" and "ne_delivered env' = ne_delivered env" and "ne_wire env' = ne_wire env"
  shows "conn_step [] [] (c, env) (c', env')"
proof (rule control_stepI [OF assms(1)])
  show "close_inv c'" using assms(1,2) by (auto simp: conn_inv_def close_inv_def same_close_def same_buffers_def out_bytes_def)
qed (use assms in \<open>simp_all add: same_close_def close_forward_def\<close>)

lemma clear_binding_facts: "same_close c (clear_binding c)" "flow_inv (clear_binding c)"
  by (simp_all add: clear_binding_def same_close_def same_buffers_def flow_inv_def)

lemma binding_steps:
  assumes inv: "conn_inv c" and op: "op \<in> {CO_Attach i, CO_Set_Interests i, CO_Detach, CO_Forget, CO_Flow_Disable}"
    and ex: "conn_exec tls op (c, env) = (ev, (c', env'))"
  shows "conn_step [] [] (c, env) (c', env')"
proof -
  obtain a env1 where l: "sys_loop env = (a, env1)" by (metis surj_pair)
  have fl: "flow_inv c" using inv by (simp add: conn_inv_def)
  have fr: "env' = env \<or> env' = env1"
    using op ex l by (auto simp: loop_event_def vireo_connection_attach_def vireo_connection_set_interests_def vireo_connection_detach_def
        vireo_connection_forget_destroyed_loop_def vireo_connection_flow_disable_def Let_def split: if_splits prod.splits)
  have "c' = c \<or> c' = clear_binding c \<or> (\<exists>h. \<not> cn_loop_attached c \<and> c' = c\<lparr>cn_borrowed_loop := Some 0, cn_loop_attached := True,
      cn_loop_handle := h, cn_loop_interests := i, cn_callback := Some 0, cn_callback_context := None\<rparr>) \<or> c' = c\<lparr>cn_loop_interests := i\<rparr> \<or>
      c' = c\<lparr>cn_flow_enabled := False, cn_read_pressure := False, cn_write_pressure := False, cn_flow_options := no_flow_options\<rparr>"
    using op ex l by (auto simp: loop_event_def vireo_connection_attach_def vireo_connection_set_interests_def vireo_connection_detach_def
        vireo_connection_forget_destroyed_loop_def vireo_connection_flow_disable_def Let_def split: if_splits prod.splits)
  then have "same_close c c' \<and> flow_inv c'"
    using fl clear_binding_facts [of c]
    by (elim disjE) (auto simp: same_close_def same_buffers_def flow_inv_def read_cap_def write_cap_def)
  then show ?thesis using fr sys_loop_frame [OF l] by (intro binding_stepI [OF inv]) auto
qed

lemma flow_apply_cases:
  assumes "flow_apply c f info reset stage None env = (rc, out, e, env')" and "cn_loop_attached c" and "flow_ok (read_cap c) (write_cap c) f"
    and "flow_inv c"
  shows "same_close c (the out) \<and> flow_inv (the out) \<and> ne_delivered env' = ne_delivered env \<and> ne_wire env' = ne_wire env \<and>
    (rc = VIREO_OK \<longrightarrow> cn_flow_enabled (the out) \<and> cn_flow_options (the out) = f \<and>
      cn_read_pressure (the out) = flow_pressure (bi_readable_size (ci_read_buffer info)) (fo_read_low f) (fo_read_high f)
        (\<not> reset \<and> cn_read_pressure c) \<and>
      cn_write_pressure (the out) = flow_pressure (bi_readable_size (ci_write_buffer info)) (fo_write_low f) (fo_write_high f)
        (\<not> reset \<and> cn_write_pressure c) \<and>
      cn_loop_interests (the out) =
        (if \<not> ci_read_eof info \<and> \<not> cn_read_pressure (the out) \<and> \<not> cn_write_pressure (the out) then 5 else 0) OR
        (if bi_readable_size (ci_write_buffer info) \<noteq> 0 then 2 else 0))"
proof -
  define rp where "rp = flow_pressure (bi_readable_size (ci_read_buffer info)) (fo_read_low f) (fo_read_high f) (\<not> reset \<and> cn_read_pressure c)"
  define wp where "wp = flow_pressure (bi_readable_size (ci_write_buffer info)) (fo_write_low f) (fo_write_high f) (\<not> reset \<and> cn_write_pressure c)"
  define i1 where "i1 = (if \<not> ci_read_eof info \<and> \<not> rp \<and> \<not> wp then VIREO_EPOLL_INTEREST_READ OR VIREO_EPOLL_INTEREST_PEER_WRITE_CLOSED else 0)"
  define i where "i = (if bi_readable_size (ci_write_buffer info) \<noteq> 0 then i1 OR VIREO_EPOLL_INTEREST_WRITE else i1)"
  obtain res h d env2 where q: "(if i \<noteq> cn_loop_interests c then sys_loop env else ((VIREO_OK, no_loop_handle, no_loop_error), env)) = ((res, h, d), env2)"
    by (metis surj_pair)
  let ?c = "c\<lparr>cn_flow_options := f, cn_flow_enabled := True, cn_read_pressure := rp, cn_write_pressure := wp, cn_loop_interests := i\<rparr>"
  have fr: "ne_delivered env2 = ne_delivered env \<and> ne_wire env2 = ne_wire env"
    using q sys_loop_frame [of env] by (auto split: if_splits)
  have "env' = env2 \<and> (rc \<noteq> VIREO_OK \<and> out = Some c \<or> rc = VIREO_OK \<and> out = Some ?c)"
    using assms(1) unfolding flow_apply_def Let_def rp_def [symmetric] wp_def [symmetric] i1_def [symmetric] i_def [symmetric] q prod.case
    by (auto split: if_splits)
  moreover have "same_close c ?c" "same_close c c" by (simp_all add: same_close_def same_buffers_def)
  moreover have "flow_inv ?c" using assms(2,3) by (simp add: flow_inv_def read_cap_def write_cap_def)
  moreover have "i = (if \<not> ci_read_eof info \<and> \<not> rp \<and> \<not> wp then 5 else 0) OR (if bi_readable_size (ci_write_buffer info) \<noteq> 0 then 2 else 0)"
    by (simp add: i_def i1_def)
  ultimately show ?thesis using fr assms(4) rp_def wp_def by (elim conjE disjE) simp_all
qed

text \<open>What a raw connection reports of its buffers.\<close>

lemma inspect_raw:
  assumes "conn_inv c"
  shows "\<exists>i. vireo_connection_inspect tls (Some c) (Some old) = (VIREO_OK, Some i) \<and>
    bi_capacity (ci_read_buffer i) = read_cap c \<and> bi_capacity (ci_write_buffer i) = write_cap c \<and>
    unat (bi_readable_size (ci_read_buffer i)) = length (in_bytes c) \<and> unat (bi_readable_size (ci_write_buffer i)) = length (out_bytes c) \<and>
    ci_read_eof i = cn_read_eof c"
proof -
  obtain rb wb where rw: "cn_owned_tls c = None" "cn_read_buffer c = Some rb" "buf_inv rb" "cn_write_buffer c = Some wb" "buf_inv wb"
    by (rule conn_inv_parts [OF assms])
  then show ?thesis using peek_bytes(3) [OF rw(3)] peek_bytes(3) [OF rw(5)]
    by (simp add: vireo_connection_inspect_def inspect_transport_def vireo_buffer_inspect_def Let_def in_bytes_def out_bytes_def read_cap_def
        write_cap_def)
qed

lemma flow_range:
  assumes "\<not> (fo_max_frame_bytes f < 32 \<or> fo_max_frame_bytes f > rcap \<or> fo_max_frame_bytes f > pm \<or>
      fo_read_low f < fo_max_frame_bytes f - 1 \<or> fo_read_low f \<ge> fo_read_high f \<or> fo_read_high f > rcap \<or>
      fo_write_low f \<ge> fo_write_high f \<or> fo_write_high f > wcap)"
  shows "flow_ok rcap wcap f"
proof -
  have m: "32 \<le> unat (fo_max_frame_bytes f)" using assms by (simp add: word_less_nat_alt not_less)
  then have "fo_max_frame_bytes f \<noteq> 0" by auto
  then have "unat (fo_max_frame_bytes f - 1) = unat (fo_max_frame_bytes f) - 1" by (simp add: unat_minus_one)
  moreover have "unat (fo_max_frame_bytes f - 1) \<le> unat (fo_read_low f)" using assms by (simp add: word_le_nat_alt not_less)
  ultimately show ?thesis using m assms by (simp add: flow_ok_def word_less_nat_alt word_le_nat_alt not_less not_le)
qed

lemma loop_event_refuse: "loop_event (loop_refuse None rc (Some c) env) = ((rc, []), (c, env))"
  by (simp add: loop_event_def)

text \<open>Configuring and refreshing flow control are refused, or apply the options to what the connection reports.\<close>

lemma flow_exec:
  assumes inv: "conn_inv c" and op: "op = CO_Flow_Configure f \<or> op = CO_Flow_Refresh" and ex: "conn_exec tls op (c, env) = ((rc, bs), (c', env'))"
  obtains (refused) "rc \<noteq> VIREO_OK" and "c' = c" and "env' = env"
    | (applied) g i reset stage where "loop_event (flow_apply c g i reset stage None env) = ((rc, bs), (c', env'))"
      and "vireo_connection_inspect tls (Some c) (Some no_connection_info) = (VIREO_OK, Some i)"
      and "cn_loop_attached c" and "flow_ok (read_cap c) (write_cap c) g"
proof -
  have fl: "flow_inv c" and tls: "cn_owned_tls c = None" using inv by (simp_all add: conn_inv_def conn_raw_def)
  obtain i where i: "vireo_connection_inspect tls (Some c) (Some no_connection_info) = (VIREO_OK, Some i)"
    "bi_capacity (ci_read_buffer i) = read_cap c" "bi_capacity (ci_write_buffer i) = write_cap c"
    using inspect_raw [OF inv] by blast
  have mx: "vireo_checked_u64_to_size 16777216 (Some 0) = (VIREO_OK, Some 16777216)"
    "vireo_checked_size_add 32 16777216 (Some 16777216) = (VIREO_OK, Some 16777248)"
    by (simp_all add: vireo_checked_u64_to_size_def size_add_Some)
  have conf: "(\<exists>rc. rc \<noteq> VIREO_OK \<and> vireo_connection_flow_configure tls (Some c) (Some f) None env = loop_refuse None rc (Some c) env) \<or>
      (cn_loop_attached c \<and> flow_ok (read_cap c) (write_cap c) f \<and> vireo_connection_flow_configure tls (Some c) (Some f) None env =
        flow_apply c f i True VIREO_CONNECTION_LOOP_STAGE_FLOW_CONFIGURE None env)"
    using flow_range [of f "read_cap c" _ "write_cap c"] tls
    by (simp add: vireo_connection_flow_configure_def Let_def i mx) (metis vireo_result.distinct)
  have refr: "(\<exists>rc. rc \<noteq> VIREO_OK \<and> vireo_connection_flow_refresh tls (Some c) None env = loop_refuse None rc (Some c) env) \<or>
      (cn_loop_attached c \<and> flow_ok (read_cap c) (write_cap c) (cn_flow_options c) \<and> vireo_connection_flow_refresh tls (Some c) None env =
        flow_apply c (cn_flow_options c) i False VIREO_CONNECTION_LOOP_STAGE_FLOW_REFRESH None env)"
    using fl tls by (simp add: vireo_connection_flow_refresh_def Let_def i flow_inv_def)
  have ev: "loop_event (if op = CO_Flow_Refresh then vireo_connection_flow_refresh tls (Some c) None env
      else vireo_connection_flow_configure tls (Some c) (Some f) None env) = ((rc, bs), (c', env'))" using op ex by auto
  show thesis
  proof (cases "op = CO_Flow_Refresh")
    case True
    then show thesis using refr ev refused applied [of "cn_flow_options c" i] i(1) by (auto simp: loop_event_refuse)
  next
    case False
    then show thesis using conf ev refused applied [of f i] i(1) by (auto simp: loop_event_refuse)
  qed
qed

lemma flow_step:
  assumes inv: "conn_inv c" and op: "op = CO_Flow_Configure f \<or> op = CO_Flow_Refresh" and ex: "conn_exec tls op (c, env) = (ev, (c', env'))"
  shows "conn_step [] [] (c, env) (c', env')"
proof -
  have fl: "flow_inv c" using inv by (simp add: conn_inv_def)
  obtain rc bs where ev: "ev = (rc, bs)" by (cases ev)
  from ex [unfolded ev] show ?thesis
  proof (rule flow_exec [OF inv op])
    fix g i reset stage
    assume l: "loop_event (flow_apply c g i reset stage None env) = ((rc, bs), (c', env'))" "cn_loop_attached c" "flow_ok (read_cap c) (write_cap c) g"
    obtain rc out e env2 where r: "flow_apply c g i reset stage None env = (rc, out, e, env2)" by (metis prod_cases4)
    then show ?thesis using flow_apply_cases [OF r l(2,3) fl] l(1) by (intro binding_stepI [OF inv]) (auto simp: loop_event_def)
  qed (use inv fl in \<open>auto intro!: binding_stepI simp: same_close_def same_buffers_def\<close>)
qed

subsection \<open>Closing steps\<close>

lemma close_sync_ok:
  assumes wb: "cn_write_buffer c = Some wb" "buf_inv wb" and fl: "flow_inv c"
    and ex: "close_sync c stage None env = (rc, out, e, env')"
  shows "\<exists>i. the out = c\<lparr>cn_close_state := if cn_close_mode c = VIREO_CONNECTION_CLOSE_MODE_DRAIN \<and> out_bytes c \<noteq> []
      then VIREO_CONNECTION_CLOSE_DRAINING else VIREO_CONNECTION_CLOSE_READY, cn_loop_interests := i\<rparr>"
    and "ne_delivered env' = ne_delivered env" and "ne_wire env' = ne_wire env"
proof -
  have z: "b_write_index wb - b_read_index wb = 0 \<longleftrightarrow> out_bytes c = []" using peek_bytes(2) [OF wb(2)] wb(1) by (simp add: out_bytes_def)
  obtain a env1 where l: "sys_loop env = (a, env1)" by (metis surj_pair)
  let ?d = "cn_close_mode c = VIREO_CONNECTION_CLOSE_MODE_DRAIN \<and> out_bytes c \<noteq> []"
  let ?c = "c\<lparr>cn_close_state := if ?d then VIREO_CONNECTION_CLOSE_DRAINING else VIREO_CONNECTION_CLOSE_READY\<rparr>"
  have "(out = Some ?c \<or> (\<exists>i. out = Some (?c\<lparr>cn_loop_interests := i\<rparr>))) \<and> (env' = env \<or> env' = env1)"
    using ex wb l z by (auto simp: close_sync_def vireo_buffer_inspect_def Let_def split: if_splits prod.splits)
  moreover have "?c = ?c\<lparr>cn_loop_interests := cn_loop_interests c\<rparr>" by simp
  ultimately show "\<exists>i. the out = c\<lparr>cn_close_state := if ?d then VIREO_CONNECTION_CLOSE_DRAINING else VIREO_CONNECTION_CLOSE_READY, cn_loop_interests := i\<rparr>"
    and "ne_delivered env' = ne_delivered env" and "ne_wire env' = ne_wire env"
    using sys_loop_frame [OF l] by (metis option.sel, auto)
qed

lemma closing_stepI:
  assumes inv: "conn_inv c" and cl: "close_sync c1 stage None env = (rc, out, e, env')"
    and c1: "c1 = c\<lparr>cn_close_state := st, cn_close_mode := m, cn_close_reason := r\<rparr>"
    and m: "m \<noteq> VIREO_CONNECTION_CLOSE_MODE_NONE" and r: "r \<noteq> VIREO_CONNECTION_CLOSE_REASON_NONE"
    and same: "cn_close_state c \<noteq> VIREO_CONNECTION_CLOSE_OPEN \<Longrightarrow> r = cn_close_reason c"
    and up: "cn_close_mode c = VIREO_CONNECTION_CLOSE_MODE_IMMEDIATE \<Longrightarrow> m = VIREO_CONNECTION_CLOSE_MODE_IMMEDIATE"
  shows "conn_step [] [] (c, env) (the out, env')"
proof -
  obtain rb wb where rw: "cn_owned_tls c = None" "cn_read_buffer c = Some rb" "buf_inv rb" "cn_write_buffer c = Some wb" "buf_inv wb"
    by (rule conn_inv_parts [OF inv])
  have fl: "flow_inv c1" using inv by (auto simp: c1 conn_inv_def flow_inv_def read_cap_def write_cap_def)
  have wb: "cn_write_buffer c1 = Some wb" using rw by (simp add: c1)
  obtain i where o: "the out = c1\<lparr>cn_close_state := if cn_close_mode c1 = VIREO_CONNECTION_CLOSE_MODE_DRAIN \<and> out_bytes c1 \<noteq> []
      then VIREO_CONNECTION_CLOSE_DRAINING else VIREO_CONNECTION_CLOSE_READY, cn_loop_interests := i\<rparr>"
    and e: "ne_delivered env' = ne_delivered env" "ne_wire env' = ne_wire env"
    using close_sync_ok [OF wb rw(5) fl cl] by blast
  have b: "out_bytes (the out) = out_bytes c" "out_bytes c1 = out_bytes c" by (simp_all add: o c1 out_bytes_def)
  show ?thesis
  proof (rule control_stepI [OF inv])
    show "same_buffers c (the out)" by (simp add: o c1 same_buffers_def)
    show "close_inv (the out)" using m r b by (cases m) (auto simp: o c1 close_inv_def)
    show "close_forward c (the out)"
    proof -
      have "out_bytes c = []" if "cn_close_state c = VIREO_CONNECTION_CLOSE_READY" "m = VIREO_CONNECTION_CLOSE_MODE_DRAIN"
        using that inv up by (cases "cn_close_mode c") (auto simp: conn_inv_def close_inv_def)
      then show ?thesis using same up b by (auto simp: o c1 close_forward_def)
    qed
    show "flow_inv (the out)" using fl by (auto simp: o flow_inv_def read_cap_def write_cap_def)
  qed (rule e)+
qed

lemma close_step:
  assumes inv: "conn_inv c" and op: "op = CO_Close mode reason \<or> op = CO_Close_Refresh" and ex: "conn_exec tls op (c, env) = (ev, (c', env'))"
  shows "conn_step [] [] (c, env) (c', env')"
proof (cases "c' = c \<and> env' = env")
  case True
  then show ?thesis using inv by (auto intro!: binding_stepI simp: conn_inv_def same_close_def same_buffers_def)
next
  case False
  have tls: "cn_owned_tls c = None" and ci: "close_inv c" using inv by (simp_all add: conn_inv_def conn_raw_def)
  obtain rc out e env2 c1 st stage where cl: "close_sync c1 stage None env = (rc, out, e, env2)" and res: "c' = the out" "env' = env2"
    and c1: "c1 = c\<lparr>cn_close_state := st, cn_close_mode := cn_close_mode c1, cn_close_reason := cn_close_reason c1\<rparr>"
    and m: "cn_close_mode c1 \<noteq> VIREO_CONNECTION_CLOSE_MODE_NONE" and r: "cn_close_reason c1 \<noteq> VIREO_CONNECTION_CLOSE_REASON_NONE"
    and same: "cn_close_state c \<noteq> VIREO_CONNECTION_CLOSE_OPEN \<Longrightarrow> cn_close_reason c1 = cn_close_reason c"
    and up: "cn_close_mode c = VIREO_CONNECTION_CLOSE_MODE_IMMEDIATE \<Longrightarrow> cn_close_mode c1 = VIREO_CONNECTION_CLOSE_MODE_IMMEDIATE"
    using op
  proof
    assume o: "op = CO_Close mode reason"
    let ?c1 = "if cn_close_state c = VIREO_CONNECTION_CLOSE_OPEN
      then c\<lparr>cn_close_reason := reason, cn_close_state := if mode = VIREO_CONNECTION_CLOSE_MODE_DRAIN
        then VIREO_CONNECTION_CLOSE_DRAINING else VIREO_CONNECTION_CLOSE_READY\<rparr> else c"
    let ?c2 = "?c1\<lparr>cn_close_mode := mode\<rparr>"
    let ?c3 = "if mode = VIREO_CONNECTION_CLOSE_MODE_IMMEDIATE then ?c2\<lparr>cn_close_state := VIREO_CONNECTION_CLOSE_READY\<rparr> else ?c2"
    obtain rc out e env2 where cl: "close_sync ?c3 VIREO_CONNECTION_LOOP_STAGE_REQUEST_CLOSE None env = (rc, out, e, env2)" by (metis prod_cases4)
    have g: "mode \<noteq> VIREO_CONNECTION_CLOSE_MODE_NONE" "reason \<noteq> VIREO_CONNECTION_CLOSE_REASON_NONE"
      "cn_close_mode c = VIREO_CONNECTION_CLOSE_MODE_IMMEDIATE \<Longrightarrow> mode = VIREO_CONNECTION_CLOSE_MODE_IMMEDIATE"
      using ex False tls unfolding o by (cases mode; auto simp: loop_event_def vireo_connection_request_close_def Let_def split: if_splits)+
    have r: "c' = the out" "env' = env2"
      using ex False tls cl unfolding o conn_exec.simps vireo_connection_request_close_def Let_def
      by (auto simp: loop_event_def split: if_splits)
    show thesis by (rule that [OF cl r, of "cn_close_state ?c3"]) (use g ci in \<open>auto simp: close_inv_def\<close>)
  next
    assume o: "op = CO_Close_Refresh"
    obtain rc out e env2 where cl: "close_sync c VIREO_CONNECTION_LOOP_STAGE_CLOSE_REFRESH None env = (rc, out, e, env2)" by (metis prod_cases4)
    have g: "cn_close_state c \<noteq> VIREO_CONNECTION_CLOSE_OPEN" and r: "c' = the out" "env' = env2"
      using ex False tls cl unfolding o by (auto simp: loop_event_def vireo_connection_close_refresh_def Let_def split: if_splits)
    show thesis by (rule that [OF cl r, of "cn_close_state c"]) (use g ci in \<open>auto simp: close_inv_def\<close>)
  qed
  show ?thesis unfolding res by (rule closing_stepI [OF inv cl c1 m r same up])
qed

lemma conn_step_trans:
  assumes "conn_step rd1 qd1 s s1" and "conn_step rd2 qd2 s1 s2"
  shows "conn_step (rd1 @ rd2) (qd1 @ qd2) s s2"
proof -
  obtain d1 w1 where 1: "ne_delivered (snd s1) = ne_delivered (snd s) @ d1" "in_bytes (fst s) @ d1 = rd1 @ in_bytes (fst s1)"
    "ne_wire (snd s1) = ne_wire (snd s) @ w1" "out_bytes (fst s) @ qd1 = w1 @ out_bytes (fst s1)" using assms(1) by (auto simp: conn_step_def)
  obtain d2 w2 where 2: "ne_delivered (snd s2) = ne_delivered (snd s1) @ d2" "in_bytes (fst s1) @ d2 = rd2 @ in_bytes (fst s2)"
    "ne_wire (snd s2) = ne_wire (snd s1) @ w2" "out_bytes (fst s1) @ qd2 = w2 @ out_bytes (fst s2)" using assms(2) by (auto simp: conn_step_def)
  have "in_bytes (fst s) @ d1 @ d2 = (rd1 @ rd2) @ in_bytes (fst s2)" "out_bytes (fst s) @ qd1 @ qd2 = (w1 @ w2) @ out_bytes (fst s2)"
    using 1(2,4) 2(2,4) by (metis append_assoc)+
  then have "\<exists>d w. ne_delivered (snd s2) = ne_delivered (snd s) @ d \<and> in_bytes (fst s) @ d = (rd1 @ rd2) @ in_bytes (fst s2) \<and>
        ne_wire (snd s2) = ne_wire (snd s) @ w \<and> out_bytes (fst s) @ qd1 @ qd2 = w @ out_bytes (fst s2)"
    using 1(1,3) 2(1,3) by (intro exI [of _ "d1 @ d2"] exI [of _ "w1 @ w2"]) simp
  then show ?thesis using assms by (simp add: conn_step_def close_forward_def)
qed

lemma conn_exec_step:
  assumes "conn_inv c" and "conn_exec tls op (c, env) = (ev, s')"
  shows "conn_step (conn_read op ev) (conn_queued op ev) (c, env) s'"
proof -
  obtain rc bs c' env' where e: "ev = (rc, bs)" "s' = (c', env')" by (metis surj_pair)
  note st = assms(2) [unfolded e]
  show ?thesis unfolding e
  proof (cases op)
    case (CO_Receive b)
    then show "conn_step (conn_read op (rc, bs)) (conn_queued op (rc, bs)) (c, env) (c', env')"
      using receive_step [OF assms(1) st [unfolded CO_Receive]] by simp
  next
    case (CO_Consume n)
    then show "conn_step (conn_read op (rc, bs)) (conn_queued op (rc, bs)) (c, env) (c', env')"
      using consume_step [OF assms(1) st [unfolded CO_Consume]] by simp
  next
    case (CO_Enqueue xs)
    then show "conn_step (conn_read op (rc, bs)) (conn_queued op (rc, bs)) (c, env) (c', env')"
      using enqueue_step [OF assms(1) st [unfolded CO_Enqueue]] by simp
  next
    case (CO_Send b)
    then show "conn_step (conn_read op (rc, bs)) (conn_queued op (rc, bs)) (c, env) (c', env')"
      using send_step [OF assms(1) st [unfolded CO_Send]] by simp
  next
    case (CO_Flow_Configure f)
    then show "conn_step (conn_read op (rc, bs)) (conn_queued op (rc, bs)) (c, env) (c', env')"
      using flow_step [OF assms(1) _ st, of f] by simp
  next
    case (CO_Flow_Refresh)
    then show "conn_step (conn_read op (rc, bs)) (conn_queued op (rc, bs)) (c, env) (c', env')"
      using flow_step [OF assms(1) _ st] by simp
  next
    case (CO_Close mode reason)
    then show "conn_step (conn_read op (rc, bs)) (conn_queued op (rc, bs)) (c, env) (c', env')"
      using close_step [OF assms(1) _ st, of mode reason] by simp
  next
    case CO_Close_Refresh
    then show "conn_step (conn_read op (rc, bs)) (conn_queued op (rc, bs)) (c, env) (c', env')"
      using close_step [OF assms(1) _ st] by simp
  qed (use binding_steps [OF assms(1) _ st] in auto)
qed

lemma conn_run_step:
  assumes "conn_inv c" and "run_calls (conn_exec tls) ops (c, env) = (es, s')"
  shows "conn_step (concat (map2 conn_read ops es)) (concat (map2 conn_queued ops es)) (c, env) s'"
  using assms
proof (induction ops arbitrary: c env es)
  case Nil
  then show ?case by (auto intro!: conn_stepI simp: close_forward_refl)
next
  case (Cons op ops)
  obtain ev c1 env1 where x: "conn_exec tls op (c, env) = (ev, (c1, env1))" by (metis surj_pair)
  obtain es1 where r: "run_calls (conn_exec tls) ops (c1, env1) = (es1, s')" and es: "es = ev # es1"
    using Cons.prems(2) x by (auto simp: Let_def split: prod.splits)
  note st = conn_exec_step [OF Cons.prems(1) x]
  then have "conn_inv c1" by (simp add: conn_step_def)
  from conn_step_trans [OF st Cons.IH [OF this r]] show ?case by (simp add: es)
qed

subsection \<open>Creation\<close>

lemma created_buffer:
  assumes "create_buffer n None env = (VIREO_OK, out, env')"
  shows "\<exists>b. out = Some b \<and> buf_inv b \<and> buf_bytes b = [] \<and> b_capacity b = n" and "ne_delivered env' = ne_delivered env"
    and "ne_wire env' = ne_wire env"
proof -
  obtain o1 h where v: "vireo_buffer_create n (Some None) (ne_heap env) = (VIREO_OK, o1, h)" and o1: "out = the o1" and e: "env' = env\<lparr>ne_heap := h\<rparr>"
    using assms by (auto simp: create_buffer_def split: prod.splits)
  obtain h2 blk self where "n \<noteq> 0" "n \<le> 67108864" "o1 = Some (Some \<lparr>b_data = fresh_bytes h2 n, b_capacity = n, b_read_index = 0,
      b_write_index = 0, b_block = blk, b_self = self\<rparr>)"
    using v by (auto simp: vireo_buffer_create_def vireo_buffer_create_with_allocator_def Let_def split: if_splits prod.splits option.splits)
  then show "\<exists>b. out = Some b \<and> buf_inv b \<and> buf_bytes b = [] \<and> b_capacity b = n"
    by (simp add: o1 buf_inv_def buf_bytes_def fresh_bytes_def unat_gt_0 word_le_nat_alt)
  show "ne_delivered env' = ne_delivered env" "ne_wire env' = ne_wire env" by (simp_all add: e)
qed

lemma validate_fd_frame: "validate_fd env = (r, env') \<Longrightarrow> ne_delivered env' = ne_delivered env \<and> ne_wire env' = ne_wire env"
proof -
  have q: "sys_query e = (a, e') \<Longrightarrow> ne_delivered e' = ne_delivered e \<and> ne_wire e' = ne_wire e" for a e e'
    by (auto simp: sys_query_def split: list.splits)
  show "validate_fd env = (r, env') \<Longrightarrow> ne_delivered env' = ne_delivered env \<and> ne_wire env' = ne_wire env"
    unfolding validate_fd_def Let_def by (auto split: prod.splits if_splits dest!: q)
qed

lemma connection_create_OK:
  assumes cr: "vireo_connection_create tls (Some opts) (Some fd) (Some None) err env = (VIREO_OK, fd', Some (Some c), err', env')"
  shows "conn_inv c" and "in_bytes c = []" and "out_bytes c = []" and "cn_close_state c = VIREO_CONNECTION_CLOSE_OPEN"
    and "read_cap c = co_read_capacity opts" and "write_cap c = co_write_capacity opts" and "cn_owned_fd c = fd" and "fd' = Some (-1)"
    and "ne_delivered env' = ne_delivered env" and "ne_wire env' = ne_wire env"
proof -
  obtain v env1 self heap cap rb env2 wb where v: "validate_fd env = (v, env1)"
    and rb: "create_buffer (co_read_capacity opts) None (env1\<lparr>ne_heap := heap\<rparr>) = (VIREO_OK, rb, env2)"
    and wb: "create_buffer (co_write_capacity opts) None env2 = (VIREO_OK, wb, env')"
    and c: "c = (connection_init cap (co_max_buffer_bytes opts) system_ops self)\<lparr>cn_read_buffer := rb, cn_write_buffer := wb, cn_owned_fd := fd\<rparr>"
    and fd: "fd' = Some (-1)"
    using cr by (auto simp: vireo_connection_create_def vireo_connection_create_with_ops_def Let_def connection_init_def
        split: if_splits prod.splits option.splits)
  obtain b1 b2 where b: "rb = Some b1" "buf_inv b1" "buf_bytes b1 = []" "b_capacity b1 = co_read_capacity opts"
    "wb = Some b2" "buf_inv b2" "buf_bytes b2 = []" "b_capacity b2 = co_write_capacity opts"
    using created_buffer(1) [OF rb] created_buffer(1) [OF wb] by blast
  show "conn_inv c"
    using b by (simp add: conn_inv_def conn_raw_def close_inv_def flow_inv_def c connection_init_def)
  show "in_bytes c = []" "out_bytes c = []" "cn_close_state c = VIREO_CONNECTION_CLOSE_OPEN"
    "read_cap c = co_read_capacity opts" "write_cap c = co_write_capacity opts" "cn_owned_fd c = fd" "fd' = Some (-1)"
    using b fd by (simp_all add: c connection_init_def in_bytes_def out_bytes_def read_cap_def write_cap_def)
  show "ne_delivered env' = ne_delivered env" "ne_wire env' = ne_wire env"
    using validate_fd_frame [OF v] created_buffer(2,3) [OF rb] created_buffer(2,3) [OF wb] by simp_all
qed

end
