(* ===== verification/Net_Frames.thy ===== *)
theory Net_Frames
  imports Net_Session
begin

text \<open>
  Frame recognition. The read buffer of a connection holds whole frames followed by a rest; \<open>vireo_connection_frames_peek\<close>
  returns exactly these frames, as far as its budgets reach, however the bytes arrived, and says what the rest is.
\<close>

subsection \<open>Frames in a byte string\<close>

type_synonym frame = "vireo_protocol_header \<times> bytes"

definition frame_wire :: "frame \<Rightarrow> bytes" where
  "frame_wire f = header_bytes (fst f) @ snd f"

definition frame_good :: "bool \<Rightarrow> nat \<Rightarrow> frame \<Rightarrow> bool" where
  "frame_good response limit f \<longleftrightarrow> legal_frame (fst f) \<and> direction_ok response (fst f) \<and> unat (h_body_len (fst f)) = length (snd f) \<and>
     32 + length (snd f) \<le> limit \<and> h_crc32c (fst f) = frame_crc (header_bytes (fst f)) (snd f)"

definition frame_view :: "frame \<Rightarrow> vireo_connection_frame_view" where
  "frame_view f = \<lparr>fv_header = fst f, fv_body = (if snd f = [] then None else Some (snd f)), fv_body_size = word_of_nat (length (snd f)),
     fv_wire_size = word_of_nat (32 + length (snd f))\<rparr>"

text \<open>A legal header at the start of a byte string, and the start of a frame whose end is missing.\<close>

definition head_at :: "bool \<Rightarrow> bytes \<Rightarrow> vireo_protocol_header \<Rightarrow> bool" where
  "head_at response bs h \<longleftrightarrow> 32 \<le> length bs \<and> take 32 bs = header_bytes h \<and> legal_frame h \<and> direction_ok response h"

definition partial_frame :: "bool \<Rightarrow> nat \<Rightarrow> bytes \<Rightarrow> bool" where
  "partial_frame response limit bs \<longleftrightarrow> length bs < 32 \<or>
     (\<exists>h. head_at response bs h \<and> 32 + unat (h_body_len h) \<le> limit \<and> length bs < 32 + unat (h_body_len h))"

text \<open>Why the recognition stops behind \<open>n\<close> frames, with \<open>left\<close> bytes of its budget and the byte string \<open>rest\<close> ahead.\<close>

inductive frame_end ::
  "bool \<Rightarrow> nat \<Rightarrow> bool \<Rightarrow> nat \<Rightarrow> nat \<Rightarrow> nat \<Rightarrow> nat \<Rightarrow> bytes \<Rightarrow> vireo_result \<Rightarrow> vireo_connection_frame_stop \<Rightarrow> vireo_connection_frame_issue \<Rightarrow> bool"
  for response :: bool and limit :: nat and eof :: bool and msgs :: nat and cap :: nat and left :: nat and n :: nat and rest :: bytes
  where
  messages: "n = msgs \<Longrightarrow> frame_end response limit eof msgs cap left n rest VIREO_OK VIREO_CONNECTION_FRAME_STOP_MESSAGE_BUDGET
    VIREO_CONNECTION_FRAME_ISSUE_NONE"
| views: "n \<noteq> msgs \<Longrightarrow> n = cap \<Longrightarrow> frame_end response limit eof msgs cap left n rest VIREO_OK VIREO_CONNECTION_FRAME_STOP_OUTPUT_FULL
    VIREO_CONNECTION_FRAME_ISSUE_NONE"
| ended: "n \<noteq> msgs \<Longrightarrow> n \<noteq> cap \<Longrightarrow> eof \<Longrightarrow> rest = [] \<Longrightarrow> frame_end response limit eof msgs cap left n rest VIREO_OK
    VIREO_CONNECTION_FRAME_STOP_EOF VIREO_CONNECTION_FRAME_ISSUE_NONE"
| more: "n \<noteq> msgs \<Longrightarrow> n \<noteq> cap \<Longrightarrow> \<not> eof \<Longrightarrow> partial_frame response limit rest \<Longrightarrow> frame_end response limit eof msgs cap left n rest VIREO_OK
    VIREO_CONNECTION_FRAME_STOP_NEED_MORE VIREO_CONNECTION_FRAME_ISSUE_NONE"
| budget: "n \<noteq> msgs \<Longrightarrow> n \<noteq> cap \<Longrightarrow> left < 32 \<or> (\<exists>h. head_at response rest h \<and> 32 + unat (h_body_len h) \<le> limit \<and> left < 32 + unat (h_body_len h)) \<Longrightarrow>
    frame_end response limit eof msgs cap left n rest VIREO_OK VIREO_CONNECTION_FRAME_STOP_BYTE_BUDGET VIREO_CONNECTION_FRAME_ISSUE_NONE"
| truncated: "n \<noteq> msgs \<Longrightarrow> n \<noteq> cap \<Longrightarrow> eof \<Longrightarrow> rest \<noteq> [] \<Longrightarrow> partial_frame response limit rest \<Longrightarrow>
    frame_end response limit eof msgs cap left n rest VIREO_RESULT_PROTOCOL VIREO_CONNECTION_FRAME_STOP_ERROR
      VIREO_CONNECTION_FRAME_ISSUE_TRUNCATED"
| large: "n \<noteq> msgs \<Longrightarrow> n \<noteq> cap \<Longrightarrow> head_at response rest h \<Longrightarrow> limit < 32 + unat (h_body_len h) \<Longrightarrow>
    frame_end response limit eof msgs cap left n rest VIREO_RESULT_PROTOCOL VIREO_CONNECTION_FRAME_STOP_ERROR
      VIREO_CONNECTION_FRAME_ISSUE_FRAME_TOO_LARGE"
| corrupt: "n \<noteq> msgs \<Longrightarrow> n \<noteq> cap \<Longrightarrow> 32 \<le> length rest \<Longrightarrow>
    (\<forall>h. head_at response rest h \<longrightarrow> 32 + unat (h_body_len h) \<le> length rest \<and>
       h_crc32c h \<noteq> frame_crc (header_bytes h) (take (unat (h_body_len h)) (drop 32 rest))) \<Longrightarrow>
    frame_end response limit eof msgs cap left n rest VIREO_RESULT_PROTOCOL VIREO_CONNECTION_FRAME_STOP_ERROR
      VIREO_CONNECTION_FRAME_ISSUE_CODEC"

lemma header_bytes_inject:
  assumes "header_bytes h = header_bytes g" and "legal_frame h" and "legal_frame g"
  shows "h = g"
proof -
  note d = header_decode_eq [of "header_bytes h" 32 zero_header VIREO_PROTOCOL_CODEC_ISSUE_NONE _ VIREO_PROTOCOL_CODEC_ISSUE_NONE]
  have "vireo_protocol_header_decode (Some (header_bytes h)) 32 (Some zero_header) (Some VIREO_PROTOCOL_CODEC_ISSUE_NONE) =
      (VIREO_OK, Some k, Some VIREO_PROTOCOL_CODEC_ISSUE_NONE)" if "k = h \<or> k = g" for k
    using that assms d [of k] by (auto simp: legal_frame_def)
  from this [of h] this [of g] show ?thesis by simp
qed

lemma head_at_unique: "head_at response bs h \<Longrightarrow> head_at response bs g \<Longrightarrow> h = g"
  by (auto simp: head_at_def intro: header_bytes_inject)

lemma good_head: "frame_good response limit f \<Longrightarrow> head_at response (frame_wire f @ rest) (fst f)"
  by (simp add: frame_good_def frame_wire_def head_at_def)

lemma good_wire_length: "frame_good response limit f \<Longrightarrow> length (frame_wire f) = 32 + unat (h_body_len (fst f))"
  by (simp add: frame_good_def frame_wire_def)

lemma good_unique:
  assumes "frame_good response limit f" and "frame_good response limit g" and "frame_wire f @ xs = frame_wire g @ ys"
  shows "f = g" and "xs = ys"
proof -
  have h: "fst f = fst g" using head_at_unique [OF good_head [OF assms(1), of xs]] good_head [OF assms(2), of ys] assms(3) by simp
  then have "length (snd f) = length (snd g)" using assms(1,2) by (simp add: frame_good_def)
  then show "f = g" "xs = ys" using assms(3) h by (simp_all add: frame_wire_def prod_eq_iff)
qed

text \<open>Where the recognition stops short of its message limits, no whole frame within the budget is left.\<close>

lemma frame_end_maximal:
  assumes "frame_end response limit eof msgs cap left n rest rc stop issue" and "n \<noteq> msgs" and "n \<noteq> cap"
    and "frame_good response limit f" and "rest = frame_wire f @ ys" and "length (frame_wire f) \<le> left"
  shows False
proof -
  have h: "head_at response rest (fst f)" using good_head [OF assms(4)] assms(5) by simp
  have len: "length (frame_wire f) = 32 + unat (h_body_len (fst f))" by (rule good_wire_length [OF assms(4)])
  have full: "32 + unat (h_body_len (fst f)) \<le> length rest" using len by (simp add: assms(5))
  have lim: "32 + unat (h_body_len (fst f)) \<le> limit" using assms(4) by (simp add: frame_good_def)
  have only: "g = fst f" if "head_at response rest g" for g by (rule head_at_unique [OF that h])
  have np: "\<not> partial_frame response limit rest"
  proof
    assume "partial_frame response limit rest"
    then obtain g where "length rest < 32 \<or> head_at response rest g \<and> length rest < 32 + unat (h_body_len g)"
      by (auto simp: partial_frame_def)
    then show False using full only [of g] by auto
  qed
  from assms(1) show False
  proof cases
    case corrupt
    have "take (unat (h_body_len (fst f))) (drop 32 rest) = snd f"
      using assms(4) by (simp add: assms(5) frame_wire_def frame_good_def)
    then show False using corrupt h assms(4) by (auto simp: frame_good_def)
  next
    case budget
    then obtain g where "left < 32 \<or> head_at response rest g \<and> left < 32 + unat (h_body_len g)" by blast
    then show False using only [of g] assms(6) len by auto
  next
    case (large g)
    then show False using only [of g] lim by simp
  qed (use assms np full in auto)
qed

subsection \<open>One pass of the loop\<close>

lemma request_validate_outcome:
  assumes "vireo_protocol_request_header_validate (Some h) (Some i) = (r, ci)"
  shows "r \<in> {VIREO_OK, VIREO_RESULT_PROTOCOL}" and "ci \<noteq> None" and "r = VIREO_OK \<Longrightarrow> ci = Some VIREO_PROTOCOL_CODEC_ISSUE_NONE"
  using assms by (auto simp: vireo_protocol_request_header_validate_def Let_def split: if_splits)

lemma response_validate_outcome:
  assumes "vireo_protocol_response_header_validate (Some h) (Some i) = (r, ci)"
  shows "r \<in> {VIREO_OK, VIREO_RESULT_PROTOCOL}" and "ci \<noteq> None" and "r = VIREO_OK \<Longrightarrow> ci = Some VIREO_PROTOCOL_CODEC_ISSUE_NONE"
  using assms by (auto simp: vireo_protocol_response_header_validate_def Let_def split: if_splits)

lemma codec_outcome:
  assumes len: "unat sz \<le> length w" and sz: "32 \<le> sz"
    and dec: "vireo_protocol_header_decode (Some w) sz (Some zero_header) (Some VIREO_PROTOCOL_CODEC_ISSUE_NONE) = (r0, h0, c0)"
    and val: "(if r0 = VIREO_OK then if fr_direction options = VIREO_CONNECTION_FRAME_REQUEST
        then vireo_protocol_request_header_validate h0 c0 else vireo_protocol_response_header_validate h0 c0 else (r0, c0)) = (r, ci)"
  shows "(r = VIREO_OK \<and> ci = Some VIREO_PROTOCOL_CODEC_ISSUE_NONE \<and>
      (\<exists>h. h0 = Some h \<and> head_at (fr_direction options = VIREO_CONNECTION_FRAME_RESPONSE) (take (unat sz) w) h)) \<or>
    (r = VIREO_RESULT_PROTOCOL \<and> ci \<noteq> None \<and> (\<nexists>h. head_at (fr_direction options = VIREO_CONNECTION_FRAME_RESPONSE) (take (unat sz) w) h))"
proof -
  let ?resp = "fr_direction options = VIREO_CONNECTION_FRAME_RESPONSE"
  have dir: "fr_direction options = VIREO_CONNECTION_FRAME_REQUEST \<longleftrightarrow> \<not> ?resp" by (cases "fr_direction options") simp_all
  have r0: "r0 = VIREO_OK \<and> (\<exists>h. h0 = Some h) \<and> c0 = Some VIREO_PROTOCOL_CODEC_ISSUE_NONE \<or> r0 = VIREO_RESULT_PROTOCOL \<and> c0 \<noteq> None"
    using dec sz by (auto simp: vireo_protocol_header_decode_def Let_def not_less [symmetric] split: if_splits)
  note v = request_validate_outcome response_validate_outcome
  have ch: "checked_header w sz ?resp = (if r = VIREO_OK then h0 else None)"
    using dec val dir r0 by (auto simp: checked_header_def)
  have hd: "head_at ?resp (take (unat sz) w) h \<longleftrightarrow> checked_header w sz ?resp = Some h" for h
    using checked_header_iff [OF len, of ?resp h] sz len by (auto simp: head_at_def word_le_nat_alt min_def)
  show ?thesis
  proof (cases "r0 = VIREO_OK")
    case True
    then obtain h where h: "h0 = Some h" "c0 = Some VIREO_PROTOCOL_CODEC_ISSUE_NONE" using r0 by auto
    have "r \<in> {VIREO_OK, VIREO_RESULT_PROTOCOL}" "ci \<noteq> None" "r = VIREO_OK \<Longrightarrow> ci = Some VIREO_PROTOCOL_CODEC_ISSUE_NONE"
      using val v [of h _ r ci] True h by (cases ?resp; simp add: dir; metis)+
    then show ?thesis using ch hd h by auto
  next
    case False
    then show ?thesis using val r0 ch hd by auto
  qed
qed

lemma crc_outcome:
  assumes len: "32 + unat (h_body_len h) \<le> length w" and hd: "take 32 w = header_bytes h" and lim: "h_body_len h \<le> VIREO_PROTOCOL_MAX_BODY_SIZE"
    and n: "n = ucast (h_body_len h)" and body: "body = (if n = 0 then None else Some (drop 32 w))"
  shows "vireo_protocol_frame_crc32c_verify (Some w) 32 body n (Some i) =
    (if h_crc32c h = frame_crc (header_bytes h) (take (unat (h_body_len h)) (drop 32 w)) then (VIREO_OK, Some VIREO_PROTOCOL_CODEC_ISSUE_NONE)
     else (VIREO_RESULT_PROTOCOL, Some VIREO_PROTOCOL_CODEC_ISSUE_CRC_MISMATCH))"
proof -
  let ?b = "take (unat (h_body_len h)) (drop 32 w)"
  have un: "unat n = unat (h_body_len h)" by (simp add: n unat_ucast_le)
  have w: "w = header_bytes h @ drop 32 w" using hd append_take_drop_id [of 32 w] by simp
  have ok: "frame_ok w 32 ?b n" using len lim un by (simp add: frame_ok_def word_le_nat_alt)
  have v: "vireo_protocol_frame_crc32c_verify (Some w) 32 body n (Some i) = vireo_protocol_frame_crc32c_verify (Some w) 32 (Some ?b) n (Some i)"
  proof (cases "n = 0")
    case True
    then have b: "?b = []" using un by simp
    have c: "vireo_protocol_frame_crc32c_calculate x 32 None 0 z = vireo_protocol_frame_crc32c_calculate x 32 (Some []) 0 z" for x z
      by (simp add: vireo_protocol_frame_crc32c_calculate_def)
    have bn: "body = None" using body True by simp
    show ?thesis unfolding b bn True vireo_protocol_frame_crc32c_verify_def c by simp
  next
    case False
    then show ?thesis using body crc_verify_take [of "Some w" 32 "drop 32 w" n] un by simp
  qed
  have "rd32 (drop 12 w) = h_body_len h" "rd32 (drop 28 w) = h_crc32c h" using w header_bytes_at(1,2) [of h "drop 32 w"] by simp_all
  moreover have "frame_crc w ?b = frame_crc (header_bytes h) ?b"
    using w header_bytes_at(3) [of h "drop 32 w" "h_crc32c h" "[]"] by (simp add: frame_crc_def)
  ultimately show ?thesis unfolding v crc_verify_eq [OF ok] by (auto simp: n)
qed

lemma frame_loop_unfold:
  fixes fb mb readable :: size_t
  assumes "fi_frame_count info \<noteq> fb_max_messages budget" "fi_frame_count info \<noteq> vcap" "readable - fi_frame_bytes info \<noteq> 0"
    "\<not> fb_max_bytes budget - fi_frame_bytes info < 32" "\<not> readable - fi_frame_bytes info < 32"
    and w: "w = drop (unat (fi_frame_bytes info)) (the bytes)"
    and dec: "vireo_protocol_header_decode (Some w) (readable - fi_frame_bytes info) (Some zero_header) (Some VIREO_PROTOCOL_CODEC_ISSUE_NONE) = (r0, h0, c0)"
    and val: "(if r0 = VIREO_OK then if fr_direction options = VIREO_CONNECTION_FRAME_REQUEST
        then vireo_protocol_request_header_validate h0 c0 else vireo_protocol_response_header_validate h0 c0 else (r0, c0)) = (r, ci)"
  shows "frame_loop options budget vcap eof bytes readable info views =
    (if r \<noteq> VIREO_OK then (codec_fault r ci, info, views)
     else
       let (result, body_size) = vireo_checked_u64_to_size (ucast (h_body_len (the h0))) (Some 0);
           (result, wire_size) = (if result = VIREO_OK then vireo_checked_size_add 32 (the body_size) (Some 0) else (result, Some 0)) in
       if result \<noteq> VIREO_OK then (internal_fault, info, views)
       else if the wire_size > fr_max_frame_bytes options
       then ((VIREO_RESULT_PROTOCOL, VIREO_CONNECTION_FRAME_ISSUE_FRAME_TOO_LARGE, VIREO_PROTOCOL_CODEC_ISSUE_NONE), info, views)
       else if the wire_size > fb_max_bytes budget - fi_frame_bytes info
       then (no_fault, info\<lparr>fi_stop_reason := VIREO_CONNECTION_FRAME_STOP_BYTE_BUDGET\<rparr>, views)
       else if the wire_size > readable - fi_frame_bytes info
       then
         if \<not> eof then (no_fault, info\<lparr>fi_stop_reason := VIREO_CONNECTION_FRAME_STOP_NEED_MORE\<rparr>, views)
         else ((VIREO_RESULT_PROTOCOL, VIREO_CONNECTION_FRAME_ISSUE_TRUNCATED, VIREO_PROTOCOL_CODEC_ISSUE_NONE), info, views)
       else
         let body = (if the body_size = 0 then None else Some (drop 32 w));
             (result, codec_issue) = vireo_protocol_frame_crc32c_verify (Some w) 32 body (the body_size) ci in
         if result \<noteq> VIREO_OK then (codec_fault result codec_issue, info, views)
         else
           let (result, prefix_bytes) = vireo_checked_size_add (fi_frame_bytes info) (the wire_size) (Some 0) in
           if result \<noteq> VIREO_OK then (internal_fault, info, views)
           else frame_loop options budget vcap eof bytes readable
             (info\<lparr>fi_frame_count := fi_frame_count info + 1, fi_frame_bytes := the prefix_bytes\<rparr>)
             (views[unat (fi_frame_count info) :=
               \<lparr>fv_header = the h0, fv_body = map_option (take (unat (the body_size))) body, fv_body_size = the body_size,
                fv_wire_size = the wire_size\<rparr>]))"
  unfolding frame_loop.simps [of options budget vcap eof bytes readable info views] Let_def w [symmetric] dec prod.case val
  using assms(1-5) by simp

text \<open>The state of the loop: the frames found so far are counted, and \<open>rest\<close> is what they leave of the readable bytes.\<close>

definition loop_at ::
  "vireo_connection_frame_budget \<Rightarrow> size_t \<Rightarrow> bytes option \<Rightarrow> size_t \<Rightarrow> vireo_connection_frame_info \<Rightarrow> bytes \<Rightarrow> bool" where
  "loop_at budget cap d readable info rest \<longleftrightarrow> fi_frame_count info \<le> fb_max_messages budget \<and> fi_frame_count info \<le> cap \<and>
     fi_frame_bytes info \<le> fb_max_bytes budget \<and> fi_frame_bytes info \<le> readable \<and> fi_stop_reason info = VIREO_CONNECTION_FRAME_STOP_ERROR \<and>
     unat (readable - fi_frame_bytes info) = length rest \<and>
     (rest \<noteq> [] \<longrightarrow> unat readable \<le> length (the d) \<and> rest = drop (unat (fi_frame_bytes info)) (take (unat readable) (the d)))"

lemma loop_at_wire:
  assumes "loop_at budget cap d readable info rest" and "rest \<noteq> []" and "w = drop (unat (fi_frame_bytes info)) (the d)"
  shows "take (unat (readable - fi_frame_bytes info)) w = rest" and "unat (readable - fi_frame_bytes info) \<le> length w"
    and "m \<le> length rest \<Longrightarrow> take m w = take m rest" and "i + j \<le> length rest \<Longrightarrow> take i (drop j w) = take i (drop j rest)"
proof -
  have k: "unat (readable - fi_frame_bytes info) = unat readable - unat (fi_frame_bytes info)"
    using assms(1) by (auto simp: loop_at_def unat_sub)
  have p: "unat readable \<le> length (the d)" "rest = drop (unat (fi_frame_bytes info)) (take (unat readable) (the d))"
    using assms(1,2) unfolding loop_at_def by blast+
  show t: "take (unat (readable - fi_frame_bytes info)) w = rest" unfolding k p(2) assms(3) by (simp add: drop_take)
  show "unat (readable - fi_frame_bytes info) \<le> length w" unfolding k assms(3) using p(1) by simp
  have l: "unat (readable - fi_frame_bytes info) = length rest" using assms(1) by (simp add: loop_at_def)
  then have r: "rest = take (length rest) w" using t by simp
  show "take m w = take m rest" if "m \<le> length rest" using that by (subst r) (simp add: min_def)
  show "take i (drop j w) = take i (drop j rest)" if "i + j \<le> length rest" using that by (subst r) (simp add: drop_take min_def)
qed

text \<open>The loop stops here.\<close>

definition loop_stops where
  "loop_stops options budget cap eof d readable info vs rest \<longleftrightarrow>
     (\<exists>r stop issue ci. frame_loop options budget cap eof d readable info vs = ((r, issue, ci), info\<lparr>fi_stop_reason := stop\<rparr>, vs) \<and>
        frame_end (fr_direction options = VIREO_CONNECTION_FRAME_RESPONSE) (unat (fr_max_frame_bytes options)) eof (unat (fb_max_messages budget))
          (unat cap) (unat (fb_max_bytes budget - fi_frame_bytes info)) (unat (fi_frame_count info)) rest r stop issue)"

lemma loop_stopsI:
  assumes "frame_loop options budget cap eof d readable info vs = ((r, issue, ci), info\<lparr>fi_stop_reason := stop\<rparr>, vs)"
    and "frame_end (fr_direction options = VIREO_CONNECTION_FRAME_RESPONSE) (unat (fr_max_frame_bytes options)) eof (unat (fb_max_messages budget))
          (unat cap) (unat (fb_max_bytes budget - fi_frame_bytes info)) (unat (fi_frame_count info)) rest r stop issue"
  shows "loop_stops options budget cap eof d readable info vs rest"
  using assms by (auto simp: loop_stops_def)

lemma frame_loop_early:
  fixes readable :: size_t
  assumes at: "loop_at budget cap d readable info rest"
    and "fi_frame_count info = fb_max_messages budget \<or> fi_frame_count info = cap \<or> readable - fi_frame_bytes info = 0 \<or>
      fb_max_bytes budget - fi_frame_bytes info < 32 \<or> readable - fi_frame_bytes info < 32"
  shows "loop_stops options budget cap eof d readable info vs rest"
proof -
  note u = frame_loop.simps [of options budget cap eof d readable info vs] Let_def
  have same: "info = info\<lparr>fi_stop_reason := VIREO_CONNECTION_FRAME_STOP_ERROR\<rparr>" using at by (simp add: loop_at_def)
  have rest: "length rest = unat (readable - fi_frame_bytes info)" using at by (simp add: loop_at_def)
  have z: "readable - fi_frame_bytes info = 0 \<longleftrightarrow> rest = []" using rest by (metis length_0_conv unat_eq_zero)
  have s: "readable - fi_frame_bytes info < 32 \<longleftrightarrow> length rest < 32" using rest by (simp add: word_less_nat_alt)
  consider "fi_frame_count info = fb_max_messages budget" | "fi_frame_count info \<noteq> fb_max_messages budget" "fi_frame_count info = cap"
    | "fi_frame_count info \<noteq> fb_max_messages budget" "fi_frame_count info \<noteq> cap" "rest = []"
    | "fi_frame_count info \<noteq> fb_max_messages budget" "fi_frame_count info \<noteq> cap" "rest \<noteq> []" "fb_max_bytes budget - fi_frame_bytes info < 32"
    | "fi_frame_count info \<noteq> fb_max_messages budget" "fi_frame_count info \<noteq> cap" "rest \<noteq> []" "\<not> fb_max_bytes budget - fi_frame_bytes info < 32"
      "length rest < 32"
    using assms(2) z s by blast
  then show ?thesis
  proof cases
    case 1
    then show ?thesis by (intro loop_stopsI [OF _ messages]) (subst u, simp_all)
  next
    case 2
    then show ?thesis by (intro loop_stopsI [OF _ views]) (subst u, simp_all add: word_unat_eq_iff)
  next
    case 3
    show ?thesis
    proof (cases eof)
      case True
      with 3 z show ?thesis by (intro loop_stopsI [OF _ ended]) (subst u, simp_all add: word_unat_eq_iff)
    next
      case False
      with 3 z show ?thesis by (intro loop_stopsI [OF _ more]) (subst u, simp_all add: partial_frame_def word_unat_eq_iff)
    qed
  next
    case 4
    then show ?thesis using z by (intro loop_stopsI [OF _ budget]) (subst u, simp_all add: word_less_nat_alt word_unat_eq_iff)
  next
    case 5
    show ?thesis
    proof (cases eof)
      case True
      with 5 z s show ?thesis
        by (intro loop_stopsI [OF _ truncated]) (subst u, simp_all add: partial_frame_def same [symmetric] word_unat_eq_iff)
    next
      case False
      with 5 z s show ?thesis by (intro loop_stopsI [OF _ more]) (subst u, simp_all add: partial_frame_def word_unat_eq_iff)
    qed
  qed
qed

lemma frame_loop_no_header:
  assumes at: "loop_at budget cap d readable info rest"
    and go: "fi_frame_count info \<noteq> fb_max_messages budget" "fi_frame_count info \<noteq> cap" "readable - fi_frame_bytes info \<noteq> 0"
      "\<not> fb_max_bytes budget - fi_frame_bytes info < 32" "\<not> readable - fi_frame_bytes info < 32"
    and none: "\<nexists>h. head_at (fr_direction options = VIREO_CONNECTION_FRAME_RESPONSE) rest h"
  shows "loop_stops options budget cap eof d readable info vs rest"
proof -
  let ?w = "drop (unat (fi_frame_bytes info)) (the d)"
  obtain r0 h0 c0 where dec: "vireo_protocol_header_decode (Some ?w) (readable - fi_frame_bytes info) (Some zero_header)
      (Some VIREO_PROTOCOL_CODEC_ISSUE_NONE) = (r0, h0, c0)" by (metis prod_cases3)
  obtain r ci where val: "(if r0 = VIREO_OK then if fr_direction options = VIREO_CONNECTION_FRAME_REQUEST
        then vireo_protocol_request_header_validate h0 c0 else vireo_protocol_response_header_validate h0 c0 else (r0, c0)) = (r, ci)"
    by fastforce
  have len: "unat (readable - fi_frame_bytes info) = length rest" using at by (simp add: loop_at_def)
  then have ne: "rest \<noteq> []" using go(3) by (metis length_0_conv unat_eq_zero)
  have same: "info = info\<lparr>fi_stop_reason := VIREO_CONNECTION_FRAME_STOP_ERROR\<rparr>" using at by (simp add: loop_at_def)
  have "r = VIREO_RESULT_PROTOCOL"
    using codec_outcome [OF loop_at_wire(2) [OF at ne refl] _ dec val] loop_at_wire(1) [OF at ne refl] none go(5) by (auto simp: not_less)
  then have "frame_loop options budget cap eof d readable info vs =
      ((VIREO_RESULT_PROTOCOL, VIREO_CONNECTION_FRAME_ISSUE_CODEC, the ci), info\<lparr>fi_stop_reason := VIREO_CONNECTION_FRAME_STOP_ERROR\<rparr>, vs)"
    using frame_loop_unfold [OF go refl dec val] same by (simp add: codec_fault_def)
  then show ?thesis
  proof (rule loop_stopsI [OF _ corrupt])
    show "32 \<le> length rest" using go(5) len by (simp add: word_less_nat_alt)
  qed (use go none in \<open>auto simp: word_unat_eq_iff\<close>)
qed

lemma frame_loop_header:
  assumes at: "loop_at budget cap d readable info rest"
    and go: "fi_frame_count info \<noteq> fb_max_messages budget" "fi_frame_count info \<noteq> cap" "readable - fi_frame_bytes info \<noteq> 0"
      "\<not> fb_max_bytes budget - fi_frame_bytes info < 32" "\<not> readable - fi_frame_bytes info < 32"
    and h: "head_at (fr_direction options = VIREO_CONNECTION_FRAME_RESPONSE) rest h"
    and m: "m = 32 + unat (h_body_len h)"
  shows "frame_loop options budget cap eof d readable info vs =
    (if unat (fr_max_frame_bytes options) < m
     then ((VIREO_RESULT_PROTOCOL, VIREO_CONNECTION_FRAME_ISSUE_FRAME_TOO_LARGE, VIREO_PROTOCOL_CODEC_ISSUE_NONE), info, vs)
     else if unat (fb_max_bytes budget - fi_frame_bytes info) < m
     then (no_fault, info\<lparr>fi_stop_reason := VIREO_CONNECTION_FRAME_STOP_BYTE_BUDGET\<rparr>, vs)
     else if length rest < m
     then if \<not> eof then (no_fault, info\<lparr>fi_stop_reason := VIREO_CONNECTION_FRAME_STOP_NEED_MORE\<rparr>, vs)
       else ((VIREO_RESULT_PROTOCOL, VIREO_CONNECTION_FRAME_ISSUE_TRUNCATED, VIREO_PROTOCOL_CODEC_ISSUE_NONE), info, vs)
     else if h_crc32c h \<noteq> frame_crc (header_bytes h) (take (unat (h_body_len h)) (drop 32 rest))
     then ((VIREO_RESULT_PROTOCOL, VIREO_CONNECTION_FRAME_ISSUE_CODEC, VIREO_PROTOCOL_CODEC_ISSUE_CRC_MISMATCH), info, vs)
     else frame_loop options budget cap eof d readable
       (info\<lparr>fi_frame_count := fi_frame_count info + 1, fi_frame_bytes := fi_frame_bytes info + word_of_nat m\<rparr>)
       (vs[unat (fi_frame_count info) := frame_view (h, take (unat (h_body_len h)) (drop 32 rest))]))"
proof -
  let ?w = "drop (unat (fi_frame_bytes info)) (the d)" and ?rem = "readable - fi_frame_bytes info"
  let ?b = "ucast (h_body_len h) :: size_t" and ?body = "take (unat (h_body_len h)) (drop 32 rest)"
  obtain r0 h0 c0 where dec: "vireo_protocol_header_decode (Some ?w) ?rem (Some zero_header) (Some VIREO_PROTOCOL_CODEC_ISSUE_NONE) = (r0, h0, c0)"
    by (metis prod_cases3)
  obtain r ci where val: "(if r0 = VIREO_OK then if fr_direction options = VIREO_CONNECTION_FRAME_REQUEST
        then vireo_protocol_request_header_validate h0 c0 else vireo_protocol_response_header_validate h0 c0 else (r0, c0)) = (r, ci)"
    by fastforce
  have len: "unat ?rem = length rest" using at by (simp add: loop_at_def)
  then have ne: "rest \<noteq> []" using go(3) by (metis length_0_conv unat_eq_zero)
  have sz: "32 \<le> ?rem" using go(5) by simp
  obtain g where ok: "r = VIREO_OK" "ci = Some VIREO_PROTOCOL_CODEC_ISSUE_NONE" "h0 = Some g"
      "head_at (fr_direction options = VIREO_CONNECTION_FRAME_RESPONSE) rest g"
    using codec_outcome [OF loop_at_wire(2) [OF at ne refl] sz dec val] h unfolding loop_at_wire(1) [OF at ne refl] by blast
  have g: "g = h" by (rule head_at_unique [OF ok(4) h])
  have max: "unat (h_body_len h) \<le> 16777216" using h by (simp add: head_at_def legal_frame_def word_le_nat_alt)
  have b: "unat ?b = unat (h_body_len h)" by (simp add: unat_ucast_le)
  have m': "unat (32 + ?b) = m" "32 + ?b = word_of_nat m" using max by (simp_all add: m b unat_word_ariths flip: unat_ucast_le)
  have conv: "vireo_checked_u64_to_size (ucast (h_body_len h)) (Some 0) = (VIREO_OK, Some ?b)"
    by (simp add: vireo_checked_u64_to_size_def)
  have add: "vireo_checked_size_add 32 ?b (Some 0) = (VIREO_OK, Some (32 + ?b))" using max b by (simp add: size_add_Some)
  have crc: "vireo_protocol_frame_crc32c_verify (Some ?w) 32 (if ?b = 0 then None else Some (drop 32 ?w)) ?b (Some VIREO_PROTOCOL_CODEC_ISSUE_NONE) =
    (if h_crc32c h = frame_crc (header_bytes h) ?body then (VIREO_OK, Some VIREO_PROTOCOL_CODEC_ISSUE_NONE)
     else (VIREO_RESULT_PROTOCOL, Some VIREO_PROTOCOL_CODEC_ISSUE_CRC_MISMATCH))" if "m \<le> length rest"
  proof -
    have "32 + unat (h_body_len h) \<le> length ?w" using loop_at_wire(2) [OF at ne refl] that m len by simp
    moreover have "take 32 ?w = header_bytes h" using loop_at_wire(3) [OF at ne refl, of 32] h by (simp add: head_at_def)
    moreover have "take (unat (h_body_len h)) (drop 32 ?w) = ?body" by (rule loop_at_wire(4) [OF at ne refl]) (use that m in simp)
    ultimately show ?thesis using crc_outcome [of h ?w ?b] h by (simp add: head_at_def legal_frame_def)
  qed
  have view: "\<lparr>fv_header = h, fv_body = map_option (take (unat ?b)) (if ?b = 0 then None else Some (drop 32 ?w)), fv_body_size = ?b,
      fv_wire_size = 32 + ?b\<rparr> = frame_view (h, ?body)" if "m \<le> length rest"
  proof -
    have "take (unat (h_body_len h)) (drop 32 ?w) = ?body" by (rule loop_at_wire(4) [OF at ne refl]) (use that m in simp)
    moreover have l: "length ?body = unat (h_body_len h)" using that m by simp
    moreover have "?b = 0 \<longleftrightarrow> ?body = []" using b l by (metis length_0_conv unat_eq_zero)
    moreover have "word_of_nat (length ?body) = ?b" "word_of_nat (32 + length ?body) = 32 + ?b" unfolding l m'(2) m by simp_all
    ultimately show ?thesis unfolding frame_view_def fst_conv snd_conv b by simp
  qed
  have fits: "unat (fi_frame_bytes info) + m < 2 ^ 64" if "m \<le> length rest"
  proof -
    have "fi_frame_bytes info \<le> readable" using at by (simp add: loop_at_def)
    then have "unat (fi_frame_bytes info) + unat ?rem = unat readable" by (simp add: unat_sub word_le_nat_alt)
    then show ?thesis using that len unsigned_less [of readable, where 'a = nat] by simp
  qed
  show ?thesis
    unfolding frame_loop_unfold [OF go refl dec val] ok(1-3) g option.sel conv add prod.case Let_def
    using fits view crc
    by (simp add: codec_fault_def size_add_Some word_less_nat_alt m'(1) len m'(2) [symmetric])
qed

lemma frame_loop_step:
  assumes at: "loop_at budget cap d readable info rest"
  obtains (stop) "loop_stops options budget cap eof d readable info vs rest"
    | (frame) f ys where "frame_good (fr_direction options = VIREO_CONNECTION_FRAME_RESPONSE) (unat (fr_max_frame_bytes options)) f"
      and "rest = frame_wire f @ ys" and "length (frame_wire f) \<le> unat (fb_max_bytes budget - fi_frame_bytes info)"
      and "fi_frame_count info < fb_max_messages budget" and "fi_frame_count info < cap"
      and "frame_loop options budget cap eof d readable info vs = frame_loop options budget cap eof d readable
        (info\<lparr>fi_frame_count := fi_frame_count info + 1, fi_frame_bytes := fi_frame_bytes info + word_of_nat (length (frame_wire f))\<rparr>)
        (vs[unat (fi_frame_count info) := frame_view f])"
proof -
  let ?resp = "fr_direction options = VIREO_CONNECTION_FRAME_RESPONSE" and ?limit = "unat (fr_max_frame_bytes options)"
  have same: "info\<lparr>fi_stop_reason := VIREO_CONNECTION_FRAME_STOP_ERROR\<rparr> = info" using at by (simp add: loop_at_def)
  show thesis
  proof (cases "fi_frame_count info = fb_max_messages budget \<or> fi_frame_count info = cap \<or> readable - fi_frame_bytes info = 0 \<or>
      fb_max_bytes budget - fi_frame_bytes info < 32 \<or> readable - fi_frame_bytes info < 32")
    case True
    then show thesis by (rule stop [OF frame_loop_early [OF at]])
  next
    case False
    then have go: "fi_frame_count info \<noteq> fb_max_messages budget" "fi_frame_count info \<noteq> cap" "readable - fi_frame_bytes info \<noteq> 0"
      "\<not> fb_max_bytes budget - fi_frame_bytes info < 32" "\<not> readable - fi_frame_bytes info < 32" by blast+
    have ne: "unat (fi_frame_count info) \<noteq> unat (fb_max_messages budget)" "unat (fi_frame_count info) \<noteq> unat cap"
      using go(1,2) by (simp_all add: word_unat_eq_iff)
    have len: "unat (readable - fi_frame_bytes info) = length rest" using at by (simp add: loop_at_def)
    then have long: "32 \<le> length rest" using go(5) by (simp add: word_less_nat_alt)
    show thesis
    proof (cases "\<exists>h. head_at ?resp rest h")
      case False
      then show thesis by (rule stop [OF frame_loop_no_header [OF at go]])
    next
      case True
      then obtain h where h: "head_at ?resp rest h" by blast
      let ?m = "32 + unat (h_body_len h)" and ?body = "take (unat (h_body_len h)) (drop 32 rest)"
      note loop = frame_loop_header [OF at go h refl, of eof vs]
      have only: "g = h" if "head_at ?resp rest g" for g by (rule head_at_unique [OF that h])
      consider (large) "?limit < ?m" | (budget) "?m \<le> ?limit" "unat (fb_max_bytes budget - fi_frame_bytes info) < ?m"
        | (short) "?m \<le> ?limit" "?m \<le> unat (fb_max_bytes budget - fi_frame_bytes info)" "length rest < ?m"
        | (bad) "?m \<le> ?limit" "?m \<le> unat (fb_max_bytes budget - fi_frame_bytes info)" "?m \<le> length rest"
            "h_crc32c h \<noteq> frame_crc (header_bytes h) ?body"
        | (good) "?m \<le> ?limit" "?m \<le> unat (fb_max_bytes budget - fi_frame_bytes info)" "?m \<le> length rest"
            "h_crc32c h = frame_crc (header_bytes h) ?body" by linarith
      then show thesis
      proof cases
        case large
        then show thesis using loop same by (intro stop loop_stopsI [OF _ frame_end.large [OF ne h]]) simp_all
      next
        case budget
        then show thesis using loop h by (intro stop loop_stopsI [OF _ frame_end.budget [OF ne]]) auto
      next
        case short
        then have "partial_frame ?resp ?limit rest" using h by (auto simp: partial_frame_def)
        then show thesis using loop short same long
          by (cases eof) (intro stop loop_stopsI [OF _ truncated [OF ne]] loop_stopsI [OF _ more [OF ne]]; force)+
      next
        case bad
        then show thesis using loop same long by (intro stop loop_stopsI [OF _ corrupt [OF ne]]) (auto dest: only)
      next
        case good
        have w: "rest = frame_wire (h, ?body) @ drop ?m rest"
          using h by (simp add: frame_wire_def head_at_def) (metis append_take_drop_id drop_drop add.commute)
        have l: "length (frame_wire (h, ?body)) = ?m" using good(3) h by (simp add: frame_wire_def)
        have "fi_frame_count info < fb_max_messages budget" "fi_frame_count info < cap" using at go(1,2) by (auto simp: loop_at_def)
        then show thesis using loop good w l h
          by (intro frame [of "(h, ?body)" "drop ?m rest"]) (simp_all add: frame_good_def head_at_def)
      qed
    qed
  qed
qed

subsection \<open>The loop\<close>

abbreviation wires :: "frame list \<Rightarrow> bytes" where
  "wires fs \<equiv> concat (map frame_wire fs)"

abbreviation past :: "vireo_connection_frame_info \<Rightarrow> frame list \<Rightarrow> vireo_connection_frame_info" where
  "past info fs \<equiv> info\<lparr>fi_frame_count := fi_frame_count info + word_of_nat (length fs),
     fi_frame_bytes := fi_frame_bytes info + word_of_nat (length (wires fs))\<rparr>"

lemma loop_at_next:
  assumes at: "loop_at budget cap d readable info (frame_wire f @ ys)" and fit: "length (frame_wire f) \<le> unat (fb_max_bytes budget - fi_frame_bytes info)"
    and n: "fi_frame_count info < fb_max_messages budget" "fi_frame_count info < cap"
  shows "loop_at budget cap d readable (past info [f]) ys"
    and "unat (fi_frame_count (past info [f])) = Suc (unat (fi_frame_count info))"
    and "unat (fi_frame_bytes (past info [f])) = unat (fi_frame_bytes info) + length (frame_wire f)"
proof -
  let ?i = "past info [f]" and ?l = "length (frame_wire f)"
  have le: "fi_frame_bytes info \<le> readable" "fi_frame_bytes info \<le> fb_max_bytes budget" using at by (simp_all add: loop_at_def)
  then have r: "unat (readable - fi_frame_bytes info) = unat readable - unat (fi_frame_bytes info)"
    "unat (fb_max_bytes budget - fi_frame_bytes info) = unat (fb_max_bytes budget) - unat (fi_frame_bytes info)" by (simp_all add: unat_sub)
  have len: "?l + length ys = unat readable - unat (fi_frame_bytes info)" using at r by (simp add: loop_at_def)
  have lt: "unat (fi_frame_bytes info) + ?l \<le> unat readable" "unat (fi_frame_bytes info) + ?l \<le> unat (fb_max_bytes budget)"
    using len le fit r by (simp_all add: word_le_nat_alt)
  have small: "unat (fi_frame_bytes info) + ?l < 2 ^ 64" using lt(1) unsigned_less [of readable, where 'a = nat] by simp
  have "unat (word_of_nat ?l :: size_t) = ?l" using small by (simp add: unsigned_of_nat take_bit_nat_eq_self)
  then show b: "unat (fi_frame_bytes ?i) = unat (fi_frame_bytes info) + ?l" using small by (simp add: unat_word_ariths)
  show c: "unat (fi_frame_count ?i) = Suc (unat (fi_frame_count info))"
    using n(1) unsigned_less [of "fb_max_messages budget", where 'a = nat] by (simp add: unat_word_ariths word_less_nat_alt)
  have cb: "fi_frame_count ?i \<le> fb_max_messages budget" "fi_frame_count ?i \<le> cap" using n c by (simp_all only: word_le_nat_alt word_less_nat_alt)
  have bb: "fi_frame_bytes ?i \<le> fb_max_bytes budget" "fi_frame_bytes ?i \<le> readable" using lt b by (simp_all only: word_le_nat_alt)
  then have rr: "unat (readable - fi_frame_bytes ?i) = length ys" using b len lt(1) by (simp only: unat_sub)
  have data: "unat readable \<le> length (the d)" "frame_wire f @ ys = drop (unat (fi_frame_bytes info)) (take (unat readable) (the d))" if "ys \<noteq> []"
    using at that unfolding loop_at_def by blast+
  have "ys = drop (unat (fi_frame_bytes ?i)) (take (unat readable) (the d))" if "ys \<noteq> []"
  proof -
    have "ys = drop ?l (frame_wire f @ ys)" by simp
    then show ?thesis unfolding data(2) [OF that] b by (simp add: add.commute)
  qed
  then show "loop_at budget cap d readable ?i ys" unfolding loop_at_def using cb bb rr data(1) at by (auto simp: loop_at_def simp del: vireo_connection_frame_info.update_convs)
qed

lemma frame_loop_ok:
  assumes "loop_at budget cap d readable info rest" and "unat cap \<le> length vs"
  shows "\<exists>fs ys r stop issue ci. frame_loop options budget cap eof d readable info vs =
      ((r, issue, ci), (past info fs)\<lparr>fi_stop_reason := stop\<rparr>,
       take (unat (fi_frame_count info)) vs @ map frame_view fs @ drop (unat (fi_frame_count info) + length fs) vs) \<and>
    rest = wires fs @ ys \<and> list_all (frame_good (fr_direction options = VIREO_CONNECTION_FRAME_RESPONSE) (unat (fr_max_frame_bytes options))) fs \<and>
    unat (fi_frame_count info) + length fs \<le> unat (fb_max_messages budget) \<and> unat (fi_frame_count info) + length fs \<le> unat cap \<and>
    unat (fi_frame_bytes info) + length (wires fs) \<le> unat (fb_max_bytes budget) \<and>
    frame_end (fr_direction options = VIREO_CONNECTION_FRAME_RESPONSE) (unat (fr_max_frame_bytes options)) eof (unat (fb_max_messages budget))
      (unat cap) (unat (fb_max_bytes budget) - (unat (fi_frame_bytes info) + length (wires fs))) (unat (fi_frame_count info) + length fs) ys r stop issue"
  using assms
proof (induction "length rest" arbitrary: rest info vs rule: less_induct)
  case less
  note at = less.prems(1)
  have le: "fi_frame_count info \<le> fb_max_messages budget" "fi_frame_count info \<le> cap" "fi_frame_bytes info \<le> fb_max_bytes budget"
    using at by (simp_all add: loop_at_def)
  from at show ?case
  proof (rule frame_loop_step [of budget cap d readable info rest options eof vs])
    assume "loop_stops options budget cap eof d readable info vs rest"
    then show ?thesis using le unat_sub [OF le(3)] unfolding loop_stops_def
      by (elim exE conjE) (rule exI [of _ "[]"], auto simp: word_le_nat_alt)
  next
    fix f ys
    assume f: "frame_good (fr_direction options = VIREO_CONNECTION_FRAME_RESPONSE) (unat (fr_max_frame_bytes options)) f"
      and rest: "rest = frame_wire f @ ys" and fit: "length (frame_wire f) \<le> unat (fb_max_bytes budget - fi_frame_bytes info)"
      and n: "fi_frame_count info < fb_max_messages budget" "fi_frame_count info < cap"
      and loop: "frame_loop options budget cap eof d readable info vs = frame_loop options budget cap eof d readable
        (info\<lparr>fi_frame_count := fi_frame_count info + 1, fi_frame_bytes := fi_frame_bytes info + word_of_nat (length (frame_wire f))\<rparr>)
        (vs[unat (fi_frame_count info) := frame_view f])"
    note nx = loop_at_next [OF at [unfolded rest] fit n]
    have small: "length ys < length rest" using good_wire_length [OF f] by (simp add: rest)
    have cap: "unat cap \<le> length (vs[unat (fi_frame_count info) := frame_view f])" using less.prems(2) by simp
    have lt: "unat (fi_frame_count info) < length vs" using n(2) less.prems(2) by (simp add: word_less_nat_alt)
    have v: "take (Suc k) (vs[k := x]) = take k vs @ [x]" "drop (Suc k + j) (vs[k := x]) = drop (Suc k + j) vs" if "k < length vs" for k j x
      using that by (simp_all add: take_Suc_conv_app_nth)
    obtain fs zs r stop issue ci where ih: "frame_loop options budget cap eof d readable (past info [f]) (vs[unat (fi_frame_count info) := frame_view f]) =
      ((r, issue, ci), (past (past info [f]) fs)\<lparr>fi_stop_reason := stop\<rparr>,
       take (Suc (unat (fi_frame_count info))) (vs[unat (fi_frame_count info) := frame_view f]) @ map frame_view fs @
       drop (Suc (unat (fi_frame_count info)) + length fs) (vs[unat (fi_frame_count info) := frame_view f]))"
      "ys = wires fs @ zs" "list_all (frame_good (fr_direction options = VIREO_CONNECTION_FRAME_RESPONSE) (unat (fr_max_frame_bytes options))) fs"
      "Suc (unat (fi_frame_count info)) + length fs \<le> unat (fb_max_messages budget)" "Suc (unat (fi_frame_count info)) + length fs \<le> unat cap"
      "unat (fi_frame_bytes info) + length (frame_wire f) + length (wires fs) \<le> unat (fb_max_bytes budget)"
      "frame_end (fr_direction options = VIREO_CONNECTION_FRAME_RESPONSE) (unat (fr_max_frame_bytes options)) eof (unat (fb_max_messages budget))
        (unat cap) (unat (fb_max_bytes budget) - (unat (fi_frame_bytes info) + length (frame_wire f) + length (wires fs)))
        (Suc (unat (fi_frame_count info)) + length fs) zs r stop issue"
      using less.hyps [OF small nx(1) cap] unfolding nx(2,3) by blast
    have eq: "frame_loop options budget cap eof d readable info vs = frame_loop options budget cap eof d readable (past info [f])
        (vs[unat (fi_frame_count info) := frame_view f])" unfolding loop by simp
    have p: "past (past info [f]) fs = past info (f # fs)" by (simp add: algebra_simps)
    show ?thesis unfolding eq ih(1) p v [OF lt]
      by (intro exI [of _ "f # fs"] exI [of _ zs] exI) (use ih(2-) f in \<open>simp add: rest add.assoc\<close>)
  qed
qed

end
