(* ===== verification/Net_Guarantees.thy ===== *)
theory Net_Guarantees
  imports Net_Frames
begin

text \<open>
  What a raw connection guarantees from its creation on, for every sequence of operations and every answer of the socket, the
  allocator and the event loop: the two streams, the frames it recognises, that flow control never starves it, and how it closes.
\<close>

subsection \<open>Histories\<close>

lemma history:
  assumes "vireo_connection_create tls (Some opts) (Some fd) (Some None) err env0 = (VIREO_OK, fd', Some (Some c0), err', env1)"
    and "run_calls (conn_exec tls) ops (c0, env1) = (es, (c, env))"
  shows "conn_inv c" and "read_cap c = co_read_capacity opts" and "write_cap c = co_write_capacity opts"
    and "\<exists>recv sent. ne_delivered env = ne_delivered env0 @ recv \<and> recv = concat (map2 conn_read ops es) @ in_bytes c \<and>
      ne_wire env = ne_wire env0 @ sent \<and> concat (map2 conn_queued ops es) = sent @ out_bytes c"
proof -
  note k = connection_create_OK [OF assms(1)]
  note st = conn_run_step [OF k(1) assms(2)]
  show "conn_inv c" "read_cap c = co_read_capacity opts" "write_cap c = co_write_capacity opts" using st k by (simp_all add: conn_step_def)
  show "\<exists>recv sent. ne_delivered env = ne_delivered env0 @ recv \<and> recv = concat (map2 conn_read ops es) @ in_bytes c \<and>
      ne_wire env = ne_wire env0 @ sent \<and> concat (map2 conn_queued ops es) = sent @ out_bytes c"
    using st k by (auto simp: conn_step_def)
qed

lemma capacity:
  assumes "conn_inv c"
  shows "length (in_bytes c) \<le> unat (read_cap c)" and "length (out_bytes c) \<le> unat (write_cap c)"
proof -
  obtain rb wb where rw: "cn_owned_tls c = None" "cn_read_buffer c = Some rb" "buf_inv rb" "cn_write_buffer c = Some wb" "buf_inv wb"
    by (rule conn_inv_parts [OF assms])
  have "length (buf_bytes b) \<le> unat (b_capacity b)" if "buf_inv b" for b :: vireo_buffer
    using that peek_bytes(3) [OF that] unat_readable [OF that] unfolding buf_inv_def by linarith
  from this [OF rw(3)] this [OF rw(5)] show "length (in_bytes c) \<le> unat (read_cap c)" "length (out_bytes c) \<le> unat (write_cap c)"
    by (simp_all add: in_bytes_def out_bytes_def read_cap_def write_cap_def rw)
qed

subsection \<open>Frame recognition of a connection\<close>

text \<open>The limits a caller may ask for.\<close>

definition peek_limits :: "'tls vireo_connection \<Rightarrow> vireo_connection_frame_options \<Rightarrow> vireo_connection_frame_budget \<Rightarrow> size_t \<Rightarrow> bool" where
  "peek_limits c options budget cap \<longleftrightarrow> 0 < cap \<and> 0 < fb_max_messages budget \<and> 32 \<le> fr_max_frame_bytes options \<and>
     fr_max_frame_bytes options \<le> read_cap c \<and> fr_max_frame_bytes options \<le> 16777248 \<and> fr_max_frame_bytes options \<le> fb_max_bytes budget \<and>
     (cn_flow_enabled c \<longrightarrow> fr_max_frame_bytes options \<le> fo_max_frame_bytes (cn_flow_options c))"

lemma frames_peek_cases:
  assumes "conn_inv c"
  shows "vireo_connection_frames_peek tls (Some c) (Some options) (Some budget) (Some vs) cap (Some i) err =
    (if peek_limits c options budget cap
     then let ((r, issue, ci), info, vs) = frame_loop options budget cap (cn_read_eof c)
          (the (fst (snd (vireo_connection_read_peek tls (Some c) (Some None) (Some 0)))))
          (the (snd (snd (vireo_connection_read_peek tls (Some c) (Some None) (Some 0)))))
          \<lparr>fi_frame_count = 0, fi_frame_bytes = 0, fi_stop_reason = VIREO_CONNECTION_FRAME_STOP_ERROR\<rparr> vs
       in (r, Some vs, Some info, frame_finish err issue ci)
     else (VIREO_RESULT_RANGE, Some vs, Some i, frame_finish err VIREO_CONNECTION_FRAME_ISSUE_NONE VIREO_PROTOCOL_CODEC_ISSUE_NONE))"
proof -
  obtain rb wb where rw: "cn_owned_tls c = None" "cn_read_buffer c = Some rb" "buf_inv rb" "cn_write_buffer c = Some wb" "buf_inv wb"
    by (rule conn_inv_parts [OF assms])
  obtain j where j: "vireo_connection_inspect tls (Some c) (Some no_connection_info) = (VIREO_OK, Some j)"
    "bi_capacity (ci_read_buffer j) = read_cap c" "ci_read_eof j = cn_read_eof c"
    using inspect_raw [OF assms] by blast
  obtain d sz where p: "vireo_connection_read_peek tls (Some c) (Some None) (Some 0) = (VIREO_OK, Some d, Some sz)"
    using peek_bytes(1) [OF rw(3), of None 0] by (auto simp: vireo_connection_read_peek_def rw)
  have mx: "vireo_checked_u64_to_size 16777216 (Some 0) = (VIREO_OK, Some 16777216)"
    "vireo_checked_size_add 32 16777216 (Some 16777216) = (VIREO_OK, Some 16777248)"
    by (simp_all add: vireo_checked_u64_to_size_def size_add_Some)
  have bad: "(cap = 0 \<or> fb_max_messages budget = 0 \<or> fb_max_bytes budget = 0 \<or> fr_max_frame_bytes options < 32 \<or>
      fr_max_frame_bytes options > read_cap c \<or> fr_max_frame_bytes options > 16777248 \<or> fb_max_bytes budget < fr_max_frame_bytes options \<or>
      (cn_flow_enabled c \<and> fr_max_frame_bytes options > fo_max_frame_bytes (cn_flow_options c))) \<longleftrightarrow> \<not> peek_limits c options budget cap"
    by (auto simp: peek_limits_def word_neq_0_conv not_less not_le)
  show ?thesis
    unfolding vireo_connection_frames_peek_def Let_def
    using bad by (simp add: j mx p rw split: prod.splits)
qed

text \<open>Two readings of one byte string as frames: the one that stops for lack of a further frame is the longer.\<close>

lemma wires_prefix:
  assumes "list_all (frame_good response limit) fs" and "list_all (frame_good response limit) gs" and "wires fs @ xs = wires gs @ ys"
    and "length gs \<le> length fs"
  shows "\<exists>hs. fs = gs @ hs"
  using assms
proof (induction gs arbitrary: fs)
  case Nil
  then show ?case by simp
next
  case (Cons g gs)
  then obtain f fs' where fs: "fs = f # fs'" by (cases fs) auto
  have f: "frame_good response limit f" "frame_good response limit g" "frame_wire f @ (wires fs' @ xs) = frame_wire g @ (wires gs @ ys)"
    using Cons.prems fs by simp_all
  note u = good_unique [OF f]
  have "\<exists>hs. fs' = gs @ hs" using Cons.prems fs u(2) by (intro Cons.IH) simp_all
  then show ?case using fs u(1) by auto
qed

lemma peek_longest:
  assumes fs: "list_all (frame_good response limit) fs" and gs: "list_all (frame_good response limit) gs" and eq: "wires fs @ rest = wires gs @ ys"
    and stop: "frame_end response limit eof msgs cap (bytes - length (wires fs)) (length fs) rest r reason issue"
    and lim: "length gs \<le> msgs" "length gs \<le> cap" "length (wires gs) \<le> bytes"
  shows "\<exists>hs. fs = gs @ hs"
proof (cases "length gs \<le> length fs")
  case True
  then show ?thesis by (rule wires_prefix [OF fs gs eq])
next
  case False
  then obtain hs where hs: "gs = fs @ hs" "hs \<noteq> []" using wires_prefix [OF gs fs eq [symmetric]] by auto
  then obtain f gs' where f: "hs = f # gs'" by (cases hs) auto
  have "length (frame_wire f) \<le> bytes - length (wires fs)" using lim(3) by (simp add: hs f)
  then have False using frame_end_maximal [OF stop, of f "wires gs' @ ys"] gs eq lim(1,2) by (simp add: hs f)
  then show ?thesis ..
qed

definition peek_verdict where
  "peek_verdict tls c options budget vs cap i err fs rest r reason issue \<longleftrightarrow>
     (\<exists>ci. vireo_connection_frames_peek tls (Some c) (Some options) (Some budget) (Some vs) cap (Some i) err =
       (r, Some (map frame_view fs @ drop (length fs) vs),
        Some \<lparr>fi_frame_count = word_of_nat (length fs), fi_frame_bytes = word_of_nat (length (wires fs)), fi_stop_reason = reason\<rparr>,
        frame_finish err issue ci)) \<and>
     in_bytes c = wires fs @ rest \<and>
     list_all (frame_good (fr_direction options = VIREO_CONNECTION_FRAME_RESPONSE) (unat (fr_max_frame_bytes options))) fs \<and>
     length fs \<le> unat (fb_max_messages budget) \<and> length fs \<le> unat cap \<and> length (wires fs) \<le> unat (fb_max_bytes budget) \<and>
     frame_end (fr_direction options = VIREO_CONNECTION_FRAME_RESPONSE) (unat (fr_max_frame_bytes options)) (cn_read_eof c)
       (unat (fb_max_messages budget)) (unat cap) (unat (fb_max_bytes budget) - length (wires fs)) (length fs) rest r reason issue"

lemma frames_peek_ok:
  assumes inv: "conn_inv c" and lim: "peek_limits c options budget cap" and room: "unat cap \<le> length vs"
  shows "\<exists>fs rest r reason issue. peek_verdict tls c options budget vs cap i err fs rest r reason issue"
proof -
  obtain rb wb where rw: "cn_owned_tls c = None" "cn_read_buffer c = Some rb" "buf_inv rb" "cn_write_buffer c = Some wb" "buf_inv wb"
    by (rule conn_inv_parts [OF inv])
  let ?sz = "b_write_index rb - b_read_index rb"
  let ?i = "\<lparr>fi_frame_count = 0, fi_frame_bytes = 0, fi_stop_reason = VIREO_CONNECTION_FRAME_STOP_ERROR\<rparr>"
  obtain d where d: "vireo_buffer_peek (Some rb) (Some None) (Some 0) = (VIREO_OK, Some d, Some ?sz)"
    and b: "buf_bytes rb \<noteq> [] \<longrightarrow> d \<noteq> None \<and> length (buf_bytes rb) \<le> length (the d) \<and> take (length (buf_bytes rb)) (the d) = buf_bytes rb"
    using peek_bytes(1) [OF rw(3)] by blast
  have p: "vireo_connection_read_peek tls (Some c) (Some None) (Some 0) = (VIREO_OK, Some d, Some ?sz)"
    by (simp add: vireo_connection_read_peek_def rw d)
  have n: "unat ?sz = length (buf_bytes rb)" by (rule peek_bytes(3) [OF rw(3)])
  have at: "loop_at budget cap d ?sz ?i (buf_bytes rb)" using lim b n by (auto simp: loop_at_def)
  have in_b: "in_bytes c = buf_bytes rb" by (simp add: in_bytes_def rw)
  obtain fs ys r stop issue ci where f: "frame_loop options budget cap (cn_read_eof c) d ?sz ?i vs =
      ((r, issue, ci), (past ?i fs)\<lparr>fi_stop_reason := stop\<rparr>, map frame_view fs @ drop (length fs) vs)"
    "buf_bytes rb = wires fs @ ys" "list_all (frame_good (fr_direction options = VIREO_CONNECTION_FRAME_RESPONSE) (unat (fr_max_frame_bytes options))) fs"
    "length fs \<le> unat (fb_max_messages budget)" "length fs \<le> unat cap" "length (wires fs) \<le> unat (fb_max_bytes budget)"
    "frame_end (fr_direction options = VIREO_CONNECTION_FRAME_RESPONSE) (unat (fr_max_frame_bytes options)) (cn_read_eof c)
      (unat (fb_max_messages budget)) (unat cap) (unat (fb_max_bytes budget) - length (wires fs)) (length fs) ys r stop issue"
    using frame_loop_ok [OF at room, of options "cn_read_eof c"] by auto
  have "peek_verdict tls c options budget vs cap i err fs ys r stop issue"
    unfolding peek_verdict_def frames_peek_cases [OF inv] p in_b using f lim by auto
  then show ?thesis by blast
qed

subsection \<open>Progress under flow control\<close>

text \<open>A full read buffer never hides an incomplete frame: behind the low mark there is a whole frame or a protocol error.\<close>

lemma full_buffer_yields:
  assumes v: "peek_verdict tls c options budget vs cap i err fs rest r reason issue" and lim: "peek_limits c options budget cap"
    and full: "unat (fr_max_frame_bytes options) \<le> length (in_bytes c)" and open_read: "\<not> cn_read_eof c"
  shows "fs \<noteq> [] \<or> r = VIREO_RESULT_PROTOCOL"
proof (cases "fs = []")
  case True
  have rest: "unat (fr_max_frame_bytes options) \<le> length rest" using v full True by (simp add: peek_verdict_def)
  have m: "32 \<le> unat (fr_max_frame_bytes options)" "unat (fr_max_frame_bytes options) \<le> unat (fb_max_bytes budget)"
    using lim by (simp_all add: peek_limits_def word_le_nat_alt)
  have n: "0 < unat (fb_max_messages budget)" "0 < unat cap" using lim by (simp_all add: peek_limits_def word_less_nat_alt)
  have np: "\<not> partial_frame (fr_direction options = VIREO_CONNECTION_FRAME_RESPONSE) (unat (fr_max_frame_bytes options)) rest"
    using rest m(1) by (auto simp: partial_frame_def)
  have "frame_end (fr_direction options = VIREO_CONNECTION_FRAME_RESPONSE) (unat (fr_max_frame_bytes options)) (cn_read_eof c)
       (unat (fb_max_messages budget)) (unat cap) (unat (fb_max_bytes budget)) 0 rest r reason issue" using v True by (simp add: peek_verdict_def)
  then have "r = VIREO_RESULT_PROTOCOL" using n m np open_read by cases auto
  then show ?thesis ..
qed simp

lemma flow_apply_eof: "flow_apply c g i reset stage err env = (rc, out, e, env') \<Longrightarrow> cn_read_eof (the out) = cn_read_eof c"
  by (auto simp: flow_apply_def Let_def split: if_splits prod.splits)

lemma flow_applied:
  assumes inv: "conn_inv c" and op: "op = CO_Flow_Configure f \<or> op = CO_Flow_Refresh"
    and ex: "conn_exec tls op (c, env) = ((VIREO_OK, bs), (c', env'))"
  shows "flow_ok (read_cap c') (write_cap c') (cn_flow_options c')" and "cn_flow_enabled c'"
    and "cn_read_pressure c' \<Longrightarrow> unat (fo_read_low (cn_flow_options c')) < length (in_bytes c')"
    and "\<not> cn_read_pressure c' \<Longrightarrow> length (in_bytes c') < unat (read_cap c')"
    and "cn_write_pressure c' \<Longrightarrow> out_bytes c' \<noteq> []"
    and "bit (cn_loop_interests c') 0 \<longleftrightarrow> \<not> cn_read_eof c' \<and> \<not> cn_read_pressure c' \<and> \<not> cn_write_pressure c'"
    and "bit (cn_loop_interests c') 1 \<longleftrightarrow> out_bytes c' \<noteq> []"
proof -
  have fl: "flow_inv c" using inv by (simp add: conn_inv_def)
  obtain g i reset stage where l: "loop_event (flow_apply c g i reset stage None env) = ((VIREO_OK, bs), (c', env'))"
      "vireo_connection_inspect tls (Some c) (Some no_connection_info) = (VIREO_OK, Some i)" "cn_loop_attached c" "flow_ok (read_cap c) (write_cap c) g"
    by (rule flow_exec [OF inv op ex]) auto
  obtain rc out e env2 where r: "flow_apply c g i reset stage None env = (rc, out, e, env2)" by (metis prod_cases4)
  have rc: "rc = VIREO_OK" "the out = c'" using l(1) r by (simp_all add: loop_event_def)
  note fa = flow_apply_cases [OF r l(3,4) fl, unfolded rc]
  have same: "in_bytes c' = in_bytes c" "out_bytes c' = out_bytes c" "read_cap c' = read_cap c" "write_cap c' = write_cap c" "cn_read_eof c' = cn_read_eof c"
    using fa flow_apply_eof [OF r] rc by (simp_all add: same_close_def same_buffers_def in_bytes_def out_bytes_def read_cap_def write_cap_def)
  have n: "unat (bi_readable_size (ci_read_buffer i)) = length (in_bytes c)" "unat (bi_readable_size (ci_write_buffer i)) = length (out_bytes c)"
      "ci_read_eof i = cn_read_eof c"
    using inspect_raw [OF inv, of tls no_connection_info] l(2) by simp_all
  have z: "bi_readable_size (ci_write_buffer i) \<noteq> 0 \<longleftrightarrow> out_bytes c \<noteq> []" using n(2) by (metis length_0_conv unat_eq_zero)
  show "flow_ok (read_cap c') (write_cap c') (cn_flow_options c')" "cn_flow_enabled c'" using fa l(4) same by simp_all
  have g: "unat (fo_read_low g) < unat (fo_read_high g)" "unat (fo_read_high g) \<le> unat (read_cap c)" "unat (fo_write_low g) < unat (fo_write_high g)"
    using l(4) by (simp_all add: flow_ok_def)
  show "cn_read_pressure c' \<Longrightarrow> unat (fo_read_low (cn_flow_options c')) < length (in_bytes c')"
    using fa n(1) g same by (auto simp: flow_pressure_def word_less_nat_alt word_le_nat_alt split: if_splits)
  show "\<not> cn_read_pressure c' \<Longrightarrow> length (in_bytes c') < unat (read_cap c')"
    using fa n(1) g same by (auto simp: flow_pressure_def word_less_nat_alt word_le_nat_alt split: if_splits)
  show "cn_write_pressure c' \<Longrightarrow> out_bytes c' \<noteq> []"
    using fa n(2) g same by (auto simp: flow_pressure_def word_less_nat_alt word_le_nat_alt split: if_splits)
  show "bit (cn_loop_interests c') 0 \<longleftrightarrow> \<not> cn_read_eof c' \<and> \<not> cn_read_pressure c' \<and> \<not> cn_write_pressure c'"
    using fa n(3) same by (auto simp: bit_simps)
  show "bit (cn_loop_interests c') 1 \<longleftrightarrow> out_bytes c' \<noteq> []" using fa z same by (auto simp: bit_simps)
qed

subsection \<open>Closing\<close>

lemma closed_refuses:
  assumes "conn_inv c" and "cn_close_state c \<noteq> VIREO_CONNECTION_CLOSE_OPEN" and "conn_exec tls op (c, env) = (ev, s')"
  shows "conn_queued op ev = []"
proof (cases op)
  case (CO_Enqueue xs)
  obtain rb wb where rw: "cn_owned_tls c = None" "cn_read_buffer c = Some rb" "buf_inv rb" "cn_write_buffer c = Some wb" "buf_inv wb"
    by (rule conn_inv_parts [OF assms(1)])
  show ?thesis using assms(2,3)
    by (auto simp: CO_Enqueue vireo_connection_write_enqueue_def rw vireo_buffer_inspect_def Let_def split: prod.splits if_splits)
qed (cases ev; simp)+

lemma closed_run_refuses:
  assumes "conn_inv c" and "cn_close_state c \<noteq> VIREO_CONNECTION_CLOSE_OPEN" and "run_calls (conn_exec tls) ops (c, env) = (es, s')"
  shows "concat (map2 conn_queued ops es) = []"
  using assms
proof (induction ops arbitrary: c env es)
  case (Cons op ops)
  obtain ev c1 env1 where x: "conn_exec tls op (c, env) = (ev, (c1, env1))" by (metis surj_pair)
  obtain es1 where r: "run_calls (conn_exec tls) ops (c1, env1) = (es1, s')" and es: "es = ev # es1"
    using Cons.prems(3) x by (auto simp: Let_def split: prod.splits)
  have st: "conn_inv c1" "close_forward c c1" using conn_exec_step [OF Cons.prems(1) x] by (simp_all add: conn_step_def)
  then have "cn_close_state c1 \<noteq> VIREO_CONNECTION_CLOSE_OPEN" using Cons.prems(2) by (simp add: close_forward_def)
  from Cons.IH [OF st(1) this r] closed_refuses [OF Cons.prems(1,2) x] show ?case by (simp add: es)
qed simp

subsection \<open>A connection to try\<close>

definition demo_tls :: "unit tls_ops" where
  "demo_tls = \<lparr>to_create_server = (\<lambda>fd env. (VIREO_RESULT_INTERNAL, None, no_tls_error, env)),
     to_io_inspect = (\<lambda>t. (VIREO_RESULT_INTERNAL, undefined)), to_read_peek = (\<lambda>t d n. (VIREO_RESULT_INTERNAL, d, n)),
     to_read_consume = (\<lambda>t n. (VIREO_RESULT_INTERNAL, t)), to_enqueue = (\<lambda>t d n. (VIREO_RESULT_INTERNAL, t, no_tls_error)),
     to_destroy = (\<lambda>t env. env)\<rparr>"

definition demo_net :: net_env where
  "demo_net = \<lparr>ne_heap = demo_heap\<lparr>heap_failing := []\<rparr>, ne_query = [(2048, 0, 0), (1, 0, 0), (0, 1, 0), (0, 0, 0)],
     ne_recv = [Recv_Data [1, 2, 3], Recv_Data [4]], ne_delivered = [], ne_send = [Send_Take 1, Send_Take 8], ne_wire = [],
     ne_loop = replicate 9 (VIREO_OK, no_loop_handle, no_loop_error)\<rparr>"

definition demo_options :: vireo_connection_options where
  "demo_options = \<lparr>co_read_capacity = 64, co_write_capacity = 64, co_max_buffer_bytes = 128\<rparr>"

definition demo_made where
  "demo_made = vireo_connection_create demo_tls (Some demo_options) (Some 7) (Some None) None demo_net"

definition demo_start :: "unit conn_run" where
  "demo_start = (the (the (fst (snd (snd demo_made)))), snd (snd (snd (snd demo_made))))"

lemma demo_made_parts:
  "fst demo_made = VIREO_OK \<and> fst (snd demo_made) = Some (-1) \<and> \<not> Option.is_none (fst (snd (snd demo_made))) \<and>
     \<not> Option.is_none (the (fst (snd (snd demo_made)))) \<and> fst (snd (snd (snd demo_made))) = None"
  by code_simp

lemma demo_made_OK:
  "vireo_connection_create demo_tls (Some demo_options) (Some 7) (Some None) None demo_net =
     (VIREO_OK, Some (-1), Some (Some (fst demo_start)), None, snd demo_start)"
  using demo_made_parts unfolding demo_start_def demo_made_def [symmetric]
  by (auto simp: prod_eq_iff Option.is_none_def)

definition demo_flow :: vireo_connection_flow_options where
  "demo_flow = \<lparr>fo_max_frame_bytes = 32, fo_read_low = 31, fo_read_high = 40, fo_write_low = 1, fo_write_high = 2\<rparr>"

definition demo_ops :: "conn_op list" where
  "demo_ops = [CO_Receive \<lparr>rb_max_bytes = 100, rb_max_syscalls = 2\<rparr>, CO_Consume 2, CO_Enqueue [7, 8],
     CO_Send \<lparr>sb_max_bytes = 9, sb_max_syscalls = 1\<rparr>, CO_Attach 1]"

definition demo_peek :: vireo_connection_frame_options where
  "demo_peek = \<lparr>fr_direction = VIREO_CONNECTION_FRAME_REQUEST, fr_max_frame_bytes = 32\<rparr>"

definition demo_budget :: vireo_connection_frame_budget where
  "demo_budget = \<lparr>fb_max_messages = 2, fb_max_bytes = 64\<rparr>"

definition demo_view :: vireo_connection_frame_view where
  "demo_view = \<lparr>fv_header = zero_header, fv_body = None, fv_body_size = 0, fv_wire_size = 0\<rparr>"

definition demo_info :: vireo_connection_frame_info where
  "demo_info = \<lparr>fi_frame_count = 0, fi_frame_bytes = 0, fi_stop_reason = VIREO_CONNECTION_FRAME_STOP_ERROR\<rparr>"

definition demo_es where "demo_es = fst (run_calls (conn_exec demo_tls) demo_ops demo_start)"

definition demo_conn where "demo_conn = fst (snd (run_calls (conn_exec demo_tls) demo_ops demo_start))"

definition demo_env where "demo_env = snd (snd (run_calls (conn_exec demo_tls) demo_ops demo_start))"

lemma demo_session: "run_calls (conn_exec demo_tls) demo_ops (fst demo_start, snd demo_start) = (demo_es, (demo_conn, demo_env))"
  by (simp add: demo_es_def demo_conn_def demo_env_def)

lemma demo_facts:
  "(case run_calls (conn_exec demo_tls) demo_ops demo_start of (es, (c, env)) \<Rightarrow>
     (concat (map2 conn_read demo_ops es), in_bytes c, concat (map2 conn_queued demo_ops es), peek_limits c demo_peek demo_budget 2,
      (case conn_exec demo_tls (CO_Flow_Configure demo_flow) (c, env) of (ev, (c, env)) \<Rightarrow> (ev, peek_limits c demo_peek demo_budget 2,
        fo_max_frame_bytes (cn_flow_options c))))) =
   ([1, 2], [3, 4], [7, 8], True, (VIREO_OK, []), True, 32)"
  by code_simp

definition demo_close :: "conn_op list" where
  "demo_close = [CO_Enqueue [7, 8], CO_Send \<lparr>sb_max_bytes = 9, sb_max_syscalls = 1\<rparr>,
     CO_Close VIREO_CONNECTION_CLOSE_MODE_DRAIN VIREO_CONNECTION_CLOSE_REASON_APPLICATION]"

definition demo_drain :: "conn_op list" where
  "demo_drain = [CO_Enqueue [9], CO_Send \<lparr>sb_max_bytes = 9, sb_max_syscalls = 2\<rparr>, CO_Close_Refresh]"

lemma demo_drained:
  "(case run_calls (conn_exec demo_tls) demo_close demo_start of (es, s) \<Rightarrow>
     (concat (map2 conn_queued demo_close es), cn_close_state (fst s), cn_close_reason (fst s),
      (case run_calls (conn_exec demo_tls) demo_drain s of (es, s) \<Rightarrow> (cn_close_mode (fst s), cn_close_state (fst s))))) =
   ([7, 8], VIREO_CONNECTION_CLOSE_DRAINING, VIREO_CONNECTION_CLOSE_REASON_APPLICATION, VIREO_CONNECTION_CLOSE_MODE_DRAIN,
    VIREO_CONNECTION_CLOSE_READY)"
  by code_simp

subsection \<open>Guarantees\<close>

text \<open>
  C1. The two byte streams of a connection. After its creation and any sequence of operations, with any answers of
  the socket and the event loop (short and partial transfers, interruptions, errors, odd return values): the bytes the socket delivered are
  exactly the bytes the layer above consumed followed by those still in the read buffer, the bytes the layer above queued are
  exactly the bytes the socket took followed by those still in the write buffer, nothing is lost, doubled or reordered, and both
  buffers stay within the configured capacities.
\<close>

theorem connection_streams:
  assumes "vireo_connection_create tls (Some opts) (Some fd) (Some None) err env0 = (VIREO_OK, fd', Some (Some c0), err', env1)"
    and "run_calls (conn_exec tls) ops (c0, env1) = (es, (c, env))"
  shows "\<exists>recv sent. ne_delivered env = ne_delivered env0 @ recv \<and> recv = concat (map2 conn_read ops es) @ in_bytes c \<and>
      ne_wire env = ne_wire env0 @ sent \<and> concat (map2 conn_queued ops es) = sent @ out_bytes c \<and>
      length (in_bytes c) \<le> unat (co_read_capacity opts) \<and> length (out_bytes c) \<le> unat (co_write_capacity opts)"
  using history [OF assms] capacity [OF history(1) [OF assms]] by simp

theorem connection_streams_witness:
  "concat (map2 conn_read demo_ops demo_es) = [1, 2] \<and> in_bytes demo_conn = [3, 4] \<and> ne_delivered demo_env = [1, 2] @ in_bytes demo_conn \<and>
   concat (map2 conn_queued demo_ops demo_es) = [7, 8] \<and> [7, 8] = ne_wire demo_env @ out_bytes demo_conn \<and> length (in_bytes demo_conn) \<le> 64"
proof -
  have "concat (map2 conn_read demo_ops demo_es) = [1, 2]" "in_bytes demo_conn = [3, 4]" "concat (map2 conn_queued demo_ops demo_es) = [7, 8]"
    using demo_facts demo_session by (simp_all split: prod.splits)
  then show ?thesis using connection_streams [OF demo_made_OK demo_session] by (simp add: demo_net_def demo_options_def)
qed

text \<open>
  C2. Frame recognition is exact. The read buffer of any connection in use is the frames reported by \<open>frames_peek\<close> followed by a rest.
  Each reported frame has a legal header for its direction, a body of the announced length, a correct checksum and at most the allowed
  size; the count, the byte total and the views are those of these frames and the other views are untouched; the budgets hold.
  The reported stop reason or protocol error is the true one for the rest, and the reading is the longest: every other sequence
  of good frames at the start of the buffer within the budgets is a part of it. Requests outside the limits change nothing.
\<close>

theorem frames_peek_exact:
  assumes "vireo_connection_create tls (Some opts) (Some fd) (Some None) err env0 = (VIREO_OK, fd', Some (Some c0), err', env1)"
    and "run_calls (conn_exec tls) ops (c0, env1) = (es, (c, env))" and "unat cap \<le> length vs"
  shows "if peek_limits c options budget cap
    then \<exists>fs rest r reason issue. peek_verdict tls c options budget vs cap i ferr fs rest r reason issue \<and>
      (\<forall>gs ys. in_bytes c = wires gs @ ys \<and>
         list_all (frame_good (fr_direction options = VIREO_CONNECTION_FRAME_RESPONSE) (unat (fr_max_frame_bytes options))) gs \<and>
         length gs \<le> unat (fb_max_messages budget) \<and> length gs \<le> unat cap \<and> length (wires gs) \<le> unat (fb_max_bytes budget) \<longrightarrow>
         (\<exists>hs. fs = gs @ hs))
    else vireo_connection_frames_peek tls (Some c) (Some options) (Some budget) (Some vs) cap (Some i) ferr =
      (VIREO_RESULT_RANGE, Some vs, Some i, frame_finish ferr VIREO_CONNECTION_FRAME_ISSUE_NONE VIREO_PROTOCOL_CODEC_ISSUE_NONE)"
proof (cases "peek_limits c options budget cap")
  case True
  note inv = history(1) [OF assms(1,2)]
  obtain fs rest r reason issue where v: "peek_verdict tls c options budget vs cap i ferr fs rest r reason issue"
    using frames_peek_ok [OF inv True assms(3)] by blast
  have "\<exists>hs. fs = gs @ hs" if "in_bytes c = wires gs @ ys"
      "list_all (frame_good (fr_direction options = VIREO_CONNECTION_FRAME_RESPONSE) (unat (fr_max_frame_bytes options))) gs"
      "length gs \<le> unat (fb_max_messages budget)" "length gs \<le> unat cap" "length (wires gs) \<le> unat (fb_max_bytes budget)" for gs ys
    using v [unfolded peek_verdict_def] that by (elim conjE) (erule peek_longest, assumption, simp, assumption+)
  then show ?thesis unfolding if_P [OF True] using v by blast
next
  case False
  then show ?thesis using frames_peek_cases [OF history(1) [OF assms(1,2)]] by simp
qed

theorem frames_peek_exact_witness:
  "\<exists>fs rest r reason issue.
     peek_verdict demo_tls demo_conn demo_peek demo_budget [demo_view, demo_view] 2 demo_info None fs rest r reason issue"
proof -
  have lim: "peek_limits demo_conn demo_peek demo_budget 2" using demo_facts demo_session by (simp split: prod.splits)
  have room: "unat (2 :: size_t) \<le> length [demo_view, demo_view]" by simp
  show ?thesis using frames_peek_exact [OF demo_made_OK demo_session room, of demo_peek demo_budget demo_info None] unfolding if_P [OF lim] by blast
qed

text \<open>
  C3. Flow control cannot stall a connection. Whenever configuring or refreshing the water marks succeeds, the connection waits for input
  with free space in its read buffer, or its input has ended, or it is held back by unsent output and waits for the socket to take it, or the
  frames already in the buffer let the layer above go on: a peek with the configured frame size finds a whole frame or reports a protocol
  error. An incomplete frame never fills the buffer above its marks.
\<close>

theorem connection_never_stalls:
  assumes "vireo_connection_create tls (Some opts) (Some fd) (Some None) err env0 = (VIREO_OK, fd', Some (Some c0), err', env1)"
    and "run_calls (conn_exec tls) ops (c0, env1) = (es, (c, env))" and "op = CO_Flow_Configure f \<or> op = CO_Flow_Refresh"
    and "conn_exec tls op (c, env) = ((VIREO_OK, bs), (c', env'))" and "fr_max_frame_bytes options = fo_max_frame_bytes (cn_flow_options c')"
    and "peek_limits c' options budget cap" and "unat cap \<le> length vs"
  shows "(bit (cn_loop_interests c') 0 \<and> length (in_bytes c') < unat (read_cap c')) \<or> cn_read_eof c' \<or>
    (cn_write_pressure c' \<and> bit (cn_loop_interests c') 1 \<and> out_bytes c' \<noteq> []) \<or>
    (case vireo_connection_frames_peek tls (Some c') (Some options) (Some budget) (Some vs) cap (Some i) ferr of
       (r, vs', info, ferr') \<Rightarrow> r = VIREO_RESULT_PROTOCOL \<or> 0 < fi_frame_count (the info))"
proof -
  note inv = history(1) [OF assms(1,2)]
  note fa = flow_applied [OF inv assms(3,4)]
  have inv': "conn_inv c'" using conn_exec_step [OF inv assms(4)] by (simp add: conn_step_def)
  obtain fs rest r reason issue where v: "peek_verdict tls c' options budget vs cap i ferr fs rest r reason issue"
    using frames_peek_ok [OF inv' assms(6,7)] by blast
  have yields: "fs \<noteq> [] \<or> r = VIREO_RESULT_PROTOCOL" if "cn_read_pressure c'" "\<not> cn_read_eof c'"
  proof (rule full_buffer_yields [OF v assms(6) _ that(2)])
    show "unat (fr_max_frame_bytes options) \<le> length (in_bytes c')" using fa(1) fa(3) [OF that(1)] by (simp add: assms(5) flow_ok_def)
  qed
  have count: "0 < (word_of_nat (length fs) :: size_t)" if "fs \<noteq> []"
  proof -
    have "length fs < 2 ^ 64" using v unsigned_less [of cap, where 'a = nat] by (simp add: peek_verdict_def)
    then show ?thesis using that by (simp add: word_less_nat_alt unsigned_of_nat take_bit_nat_eq_self)
  qed
  have peek: "case vireo_connection_frames_peek tls (Some c') (Some options) (Some budget) (Some vs) cap (Some i) ferr of
       (r, vs', info, ferr') \<Rightarrow> r = VIREO_RESULT_PROTOCOL \<or> 0 < fi_frame_count (the info)" if "fs \<noteq> [] \<or> r = VIREO_RESULT_PROTOCOL"
    using v that count by (auto simp: peek_verdict_def)
  show ?thesis using fa(4-7) yields peek by (cases "cn_write_pressure c'"; cases "cn_read_pressure c'"; cases "cn_read_eof c'") simp_all
qed

theorem connection_never_stalls_witness:
  "(case conn_exec demo_tls (CO_Flow_Configure demo_flow) (demo_conn, demo_env) of (ev, (c, env)) \<Rightarrow> fst ev = VIREO_OK \<and>
     ((bit (cn_loop_interests c) 0 \<and> length (in_bytes c) < unat (read_cap c)) \<or> cn_read_eof c \<or>
      (cn_write_pressure c \<and> bit (cn_loop_interests c) 1 \<and> out_bytes c \<noteq> []) \<or>
      (case vireo_connection_frames_peek demo_tls (Some c) (Some demo_peek) (Some demo_budget) (Some [demo_view, demo_view]) 2 (Some demo_info) None of
         (r, vs', info, ferr') \<Rightarrow> r = VIREO_RESULT_PROTOCOL \<or> 0 < fi_frame_count (the info))))"
proof -
  obtain c env where x: "conn_exec demo_tls (CO_Flow_Configure demo_flow) (demo_conn, demo_env) = ((VIREO_OK, []), (c, env))"
    "peek_limits c demo_peek demo_budget 2" "fr_max_frame_bytes demo_peek = fo_max_frame_bytes (cn_flow_options c)"
    using demo_facts demo_session by (auto simp: demo_peek_def split: prod.splits)
  have "unat (2 :: size_t) \<le> length [demo_view, demo_view]" by simp
  then show ?thesis
    using connection_never_stalls [OF demo_made_OK demo_session disjI1 [OF refl] x(1) x(3,2), of "[demo_view, demo_view]" demo_info None]
    unfolding x(1) by simp
qed

text \<open>
  C4. Closing is final and draining is complete. Once a close was requested, no operation reopens the connection or changes the first
  reason, nothing more is accepted for sending, a connection ready to be destroyed stays ready and an immediate close is never
  weakened; and when a draining close reports that it is ready, everything queued before it has been taken by the socket.
\<close>

theorem connection_close_final:
  assumes "vireo_connection_create tls (Some opts) (Some fd) (Some None) err env0 = (VIREO_OK, fd', Some (Some c0), err', env1)"
    and "run_calls (conn_exec tls) ops (c0, env1) = (es, (c, env))" and "cn_close_state c \<noteq> VIREO_CONNECTION_CLOSE_OPEN"
    and "run_calls (conn_exec tls) ops' (c, env) = (es', (c', env'))"
  shows "cn_close_state c' \<noteq> VIREO_CONNECTION_CLOSE_OPEN \<and> cn_close_reason c' = cn_close_reason c \<and>
    concat (map2 conn_queued ops' es') = [] \<and>
    (cn_close_state c = VIREO_CONNECTION_CLOSE_READY \<longrightarrow> cn_close_state c' = VIREO_CONNECTION_CLOSE_READY) \<and>
    (cn_close_mode c = VIREO_CONNECTION_CLOSE_MODE_IMMEDIATE \<longrightarrow> cn_close_mode c' = VIREO_CONNECTION_CLOSE_MODE_IMMEDIATE) \<and>
    (cn_close_mode c' = VIREO_CONNECTION_CLOSE_MODE_DRAIN \<and> cn_close_state c' = VIREO_CONNECTION_CLOSE_READY \<longrightarrow>
       ne_wire env' = ne_wire env0 @ concat (map2 conn_queued ops es))"
proof -
  note h = history [OF assms(1,2)]
  note st = conn_run_step [OF h(1) assms(4)]
  note q = closed_run_refuses [OF h(1) assms(3,4)]
  have "conn_inv c'" and fw: "close_forward c c'" using st by (simp_all add: conn_step_def)
  then have d: "cn_close_mode c' = VIREO_CONNECTION_CLOSE_MODE_DRAIN \<and> cn_close_state c' = VIREO_CONNECTION_CLOSE_READY \<Longrightarrow> out_bytes c' = []"
    by (simp add: conn_inv_def close_inv_def)
  obtain sent w where "ne_wire env = ne_wire env0 @ sent" "concat (map2 conn_queued ops es) = sent @ out_bytes c"
      "ne_wire env' = ne_wire env @ w" "out_bytes c @ concat (map2 conn_queued ops' es') = w @ out_bytes c'"
    using h(4) st by (auto simp: conn_step_def)
  then have "ne_wire env' @ out_bytes c' = ne_wire env0 @ concat (map2 conn_queued ops es)" using q by simp
  then show ?thesis using fw assms(3) q d by (auto simp: close_forward_def)
qed

theorem connection_close_final_witness:
  "\<exists>es c env es' c' env'. run_calls (conn_exec demo_tls) demo_close demo_start = (es, (c, env)) \<and>
     run_calls (conn_exec demo_tls) demo_drain (c, env) = (es', (c', env')) \<and>
     cn_close_reason c' = VIREO_CONNECTION_CLOSE_REASON_APPLICATION \<and> cn_close_state c' = VIREO_CONNECTION_CLOSE_READY \<and>
     ne_wire env' = [7, 8] \<and> concat (map2 conn_queued demo_drain es') = []"
proof -
  obtain es c env where r: "run_calls (conn_exec demo_tls) demo_close (fst demo_start, snd demo_start) = (es, (c, env))" by (metis surj_pair)
  obtain es' c' env' where r': "run_calls (conn_exec demo_tls) demo_drain (c, env) = (es', (c', env'))" by (metis surj_pair)
  have f: "cn_close_state c = VIREO_CONNECTION_CLOSE_DRAINING" "cn_close_reason c = VIREO_CONNECTION_CLOSE_REASON_APPLICATION"
      "concat (map2 conn_queued demo_close es) = [7, 8]" "cn_close_mode c' = VIREO_CONNECTION_CLOSE_MODE_DRAIN" "cn_close_state c' = VIREO_CONNECTION_CLOSE_READY"
    using demo_drained r r' by (simp_all split: prod.splits)
  show ?thesis using connection_close_final [OF demo_made_OK r _ r'] f r r' by (auto simp: demo_net_def)
qed

end
