(* ===== verification/Security_Password.thy ===== *)
theory Security_Password
  imports Base_Result
begin

text \<open>
  Password records: \<^verbatim>\<open>src/security/password_phc.c\<close>, the bounded reader and writer of PHC strings, and
  \<^verbatim>\<open>src/security/password.c\<close>, creation and verification on top of it. The random source and the key derivation (Argon2id in
  production) are the two functions of the runtime table, a parameter. Strings are \<open>string\<close> values; a cursor into the input is the rest of the
  input from there on. The cleansing of local arrays at the end of the functions is not observable and left out.
\<close>

subsection \<open>Data\<close>

abbreviation VIREO_PASSWORD_SALT_BYTES :: nat where "VIREO_PASSWORD_SALT_BYTES \<equiv> 16"
abbreviation VIREO_PASSWORD_TAG_BYTES :: nat where "VIREO_PASSWORD_TAG_BYTES \<equiv> 32"
abbreviation VIREO_PASSWORD_MAX_BYTES :: size_t where "VIREO_PASSWORD_MAX_BYTES \<equiv> 4096"
abbreviation VIREO_PASSWORD_ENCODED_CAPACITY :: nat where "VIREO_PASSWORD_ENCODED_CAPACITY \<equiv> 128"

record vireo_password_policy =
  pp_create_memory_kib :: u32
  pp_create_iterations :: u32
  pp_max_verify_memory_kib :: u32
  pp_max_verify_iterations :: u32
  pp_max_password_bytes :: size_t

record vireo_password_info =
  pi_version :: u32
  pi_memory_kib :: u32
  pi_iterations :: u32
  pi_parallelism :: u32
  pi_encoded_length :: size_t

record vireo_password_record =
  pr_info :: vireo_password_info
  pr_salt :: bytes
  pr_tag :: bytes

text \<open>
  The runtime table: the random source fills a region of the given length and returns a status; the derivation maps password, salt and the two
  costs to a result and a tag. Both are present; the checks of the code that they are not NULL are left out.
\<close>

record vireo_password_runtime =
  pt_random_bytes :: "nat \<Rightarrow> int \<times> bytes"
  pt_derive :: "bytes \<Rightarrow> bytes \<Rightarrow> u32 \<Rightarrow> u32 \<Rightarrow> vireo_result \<times> bytes"

definition alphabet :: string where
  "alphabet = ''ABCDEFGHIJKLMNOPQRSTUVWXYZabcdefghijklmnopqrstuvwxyz0123456789+/''"

definition vireo_password_policy_valid :: "vireo_password_policy option \<Rightarrow> bool" where
  "vireo_password_policy_valid policy =
     (case policy of None \<Rightarrow> False
      | Some p \<Rightarrow> pp_create_memory_kib p \<ge> 65536 \<and> pp_create_memory_kib p \<le> 262144 \<and>
          pp_create_iterations p \<ge> 3 \<and> pp_create_iterations p \<le> 10 \<and>
          pp_max_verify_memory_kib p \<ge> pp_create_memory_kib p \<and> pp_max_verify_memory_kib p \<le> 262144 \<and>
          pp_max_verify_iterations p \<ge> pp_create_iterations p \<and> pp_max_verify_iterations p \<le> 10 \<and>
          pp_max_password_bytes p \<ge> 1 \<and> pp_max_password_bytes p \<le> VIREO_PASSWORD_MAX_BYTES)"

subsection \<open>Reading\<close>

definition literal :: "string \<Rightarrow> string \<Rightarrow> bool \<times> string" where
  "literal cursor word =
     (if length cursor < length word \<or> take (length word) cursor \<noteq> word then (False, cursor)
      else (True, drop (length word) cursor))"

abbreviation code_of :: "char \<Rightarrow> nat" where "code_of \<equiv> of_char"

definition is_digit :: "char \<Rightarrow> bool" where
  "is_digit c \<longleftrightarrow> 48 \<le> code_of c \<and> code_of c \<le> 57"

text \<open>The digit loop: \<open>None\<close> is the early return, otherwise the number and the position behind the digits.\<close>

fun decimal_loop :: "bool \<Rightarrow> nat \<Rightarrow> u32 \<Rightarrow> string \<Rightarrow> (u32 \<times> string) option" where
  "decimal_loop zero count number [] = Some (number, [])"
| "decimal_loop zero count number (c # p) =
     (if is_digit c
      then
        let digit = word_of_nat (code_of c - 48) in
        if number > (UINT32_MAX - digit) div 10 \<or> (zero \<and> count \<noteq> 0) then None
        else decimal_loop zero (Suc count) (number * 10 + digit) p
      else Some (number, c # p))"

definition decimal :: "string \<Rightarrow> u32 \<Rightarrow> bool \<times> string \<times> u32" where
  "decimal cursor v =
     (case cursor of
        [] \<Rightarrow> (False, cursor, v)
      | c # p \<Rightarrow>
          if \<not> is_digit c then (False, cursor, v)
          else case decimal_loop (c = CHR ''0'') 0 0 cursor of
              None \<Rightarrow> (False, cursor, v)
            | Some (number, p) \<Rightarrow> (True, p, number))"

definition base64_digit :: "char \<Rightarrow> int" where
  "base64_digit ch =
     (let c = code_of ch in
      if c \<ge> 65 \<and> c \<le> 90 then int c - 65
      else if c \<ge> 97 \<and> c \<le> 122 then int c - 97 + 26
      else if c \<ge> 48 \<and> c \<le> 57 then int c - 48 + 52
      else if c = 43 then 62
      else if c = 47 then 63
      else -1)"

text \<open>The decoder writes into the caller's array as it goes, also when it fails later.\<close>

fun decode_loop :: "nat \<Rightarrow> string \<Rightarrow> u32 \<Rightarrow> nat \<Rightarrow> nat \<Rightarrow> bytes \<Rightarrow> bool \<times> bytes" where
  "decode_loop sz [] accumulator bits written out =
     (written = sz \<and> accumulator AND (push_bit bits 1 - 1) = 0, out)"
| "decode_loop sz (c # input) accumulator bits written out =
     (let digit = base64_digit c in
      if digit < 0 then (False, out)
      else
        let accumulator = push_bit 6 accumulator OR word_of_int digit; bits = bits + 6 in
        if bits \<ge> 8
        then
          let bits = bits - 8 in
          if written = sz then (False, out)
          else decode_loop sz input accumulator bits (Suc written) (mem_write written [ucast (drop_bit bits accumulator AND 255)] out)
        else decode_loop sz input accumulator bits written out)"

definition decode :: "string \<Rightarrow> bytes \<Rightarrow> nat \<Rightarrow> bool \<times> bytes" where
  "decode input out sz = decode_loop sz input 0 0 0 out"

definition vireo_password_parse ::
  "vireo_password_policy \<Rightarrow> string \<Rightarrow> size_t \<Rightarrow> vireo_password_record \<Rightarrow> vireo_result \<times> vireo_password_record" where
  "vireo_password_parse policy encoded len record =
     (let cursor = take (unat len) encoded;
          (ok, cursor) = literal cursor ''$argon2id$v=19$m='' in
      if \<not> ok then (VIREO_RESULT_PROTOCOL, record)
      else
        let (ok, cursor, memory) = decimal cursor 0 in
        if \<not> ok then (VIREO_RESULT_PROTOCOL, record)
        else
          let (ok, cursor) = literal cursor '',t='' in
          if \<not> ok then (VIREO_RESULT_PROTOCOL, record)
          else
            let (ok, cursor, iterations) = decimal cursor 0 in
            if \<not> ok then (VIREO_RESULT_PROTOCOL, record)
            else
              let (ok, cursor) = literal cursor '',p=1$'' in
              if \<not> ok \<or> length cursor \<noteq> 66 \<or> cursor ! 22 \<noteq> CHR ''$'' then (VIREO_RESULT_PROTOCOL, record)
              else
                let (ok, salt) = decode (take 22 cursor) (pr_salt record) VIREO_PASSWORD_SALT_BYTES;
                    record = record\<lparr>pr_salt := salt\<rparr> in
                if \<not> ok then (VIREO_RESULT_PROTOCOL, record)
                else
                  let (ok, tag) = decode (take 43 (drop 23 cursor)) (pr_tag record) VIREO_PASSWORD_TAG_BYTES;
                      record = record\<lparr>pr_tag := tag\<rparr> in
                  if \<not> ok then (VIREO_RESULT_PROTOCOL, record)
                  else if memory < 8 \<or> memory > pp_max_verify_memory_kib policy \<or>
                    iterations < 1 \<or> iterations > pp_max_verify_iterations policy
                  then (VIREO_RESULT_RANGE, record)
                  else (VIREO_OK, record\<lparr>pr_info := \<lparr>pi_version = 19, pi_memory_kib = memory, pi_iterations = iterations,
                    pi_parallelism = 1, pi_encoded_length = len\<rparr>\<rparr>))"

subsection \<open>Writing\<close>

text \<open>The inner loop: while six bits are there, the next digit.\<close>

fun encode_digits :: "u32 \<Rightarrow> nat \<Rightarrow> string \<times> nat" where
  "encode_digits accumulator bits =
     (if bits \<ge> 6
      then
        let bits = bits - 6; (digits, rest) = encode_digits accumulator bits in
        (alphabet ! unat (drop_bit bits accumulator AND 63) # digits, rest)
      else ([], bits))"

declare encode_digits.simps [simp del]

fun encode_loop :: "bytes \<Rightarrow> u32 \<Rightarrow> nat \<Rightarrow> string" where
  "encode_loop [] accumulator bits =
     (if bits \<noteq> 0 then [alphabet ! unat (push_bit (6 - bits) accumulator AND 63)] else [])"
| "encode_loop (b # input) accumulator bits =
     (let accumulator = push_bit 8 accumulator OR ucast b; (digits, bits) = encode_digits accumulator (bits + 8) in
      digits @ encode_loop input accumulator bits)"

definition encode_base64 :: "bytes \<Rightarrow> string" where
  "encode_base64 input = encode_loop input 0 0"

text \<open>The conversion \<^verbatim>\<open>%u\<close> of the C library.\<close>

fun show_nat :: "nat \<Rightarrow> string" where
  "show_nat n = (if n < 10 then [char_of (48 + n)] else show_nat (n div 10) @ [char_of (48 + n mod 10)])"

declare show_nat.simps [simp del]

definition password_text :: "u32 \<Rightarrow> u32 \<Rightarrow> bytes \<Rightarrow> bytes \<Rightarrow> string" where
  "password_text memory_kib iterations salt tag =
     ''$argon2id$v=19$m='' @ show_nat (unat memory_kib) @ '',t='' @ show_nat (unat iterations) @ '',p=1$'' @
     encode_base64 salt @ ''$'' @ encode_base64 tag"

definition vireo_password_encode ::
  "u32 \<Rightarrow> u32 \<Rightarrow> bytes \<Rightarrow> bytes \<Rightarrow> string \<Rightarrow> size_t \<Rightarrow> vireo_result \<times> string \<times> size_t" where
  "vireo_password_encode memory_kib iterations salt tag out len =
     (let text = password_text memory_kib iterations salt tag; count = length text;
          out = mem_write 0 (take (VIREO_PASSWORD_ENCODED_CAPACITY - 1) text @ [CHR 0x00]) out in
      if count \<ge> VIREO_PASSWORD_ENCODED_CAPACITY then (VIREO_RESULT_INTERNAL, out, len)
      else (VIREO_OK, out, word_of_nat count))"

subsection \<open>Creation and verification\<close>

definition zero_info :: vireo_password_info where
  "zero_info = \<lparr>pi_version = 0, pi_memory_kib = 0, pi_iterations = 0, pi_parallelism = 0, pi_encoded_length = 0\<rparr>"

definition zero_record :: vireo_password_record where
  "zero_record = \<lparr>pr_info = zero_info, pr_salt = replicate VIREO_PASSWORD_SALT_BYTES 0, pr_tag = replicate VIREO_PASSWORD_TAG_BYTES 0\<rparr>"

definition vireo_password_create_with_runtime ::
  "vireo_password_policy option \<Rightarrow> bytes option \<Rightarrow> size_t \<Rightarrow> string option \<Rightarrow> size_t \<Rightarrow> size_t option \<Rightarrow> vireo_password_runtime option \<Rightarrow>
   vireo_result \<times> string option \<times> size_t option" where
  "vireo_password_create_with_runtime policy password len encoded capacity encoded_length runtime =
     (if \<not> vireo_password_policy_valid policy \<or> password = None \<or> encoded = None \<or> encoded_length = None \<or> Option.is_none runtime
      then (VIREO_RESULT_INVALID_ARGUMENT, encoded, encoded_length)
      else if len = 0 \<or> len > pp_max_password_bytes (the policy) \<or> capacity < of_nat VIREO_PASSWORD_ENCODED_CAPACITY
      then (VIREO_RESULT_RANGE, encoded, encoded_length)
      else
        let (status, salt) = pt_random_bytes (the runtime) VIREO_PASSWORD_SALT_BYTES in
        if status \<noteq> 1 then (VIREO_RESULT_IO, encoded, encoded_length)
        else
          let (result, tag) = pt_derive (the runtime) (take (unat len) (the password)) salt
                (pp_create_memory_kib (the policy)) (pp_create_iterations (the policy)) in
          if result \<noteq> VIREO_OK then (result, encoded, encoded_length)
          else
            let (result, temporary, written) = vireo_password_encode (pp_create_memory_kib (the policy))
                  (pp_create_iterations (the policy)) salt tag (replicate VIREO_PASSWORD_ENCODED_CAPACITY (CHR 0x00)) 0 in
            if result = VIREO_OK
            then (result, Some (mem_write 0 (take (Suc (unat written)) temporary) (the encoded)), Some written)
            else (result, encoded, encoded_length))"

definition vireo_password_hash_create where
  "vireo_password_hash_create native_runtime policy password len encoded capacity encoded_length =
     vireo_password_create_with_runtime policy password len encoded capacity encoded_length (Some native_runtime)"

definition vireo_password_hash_inspect ::
  "vireo_password_policy option \<Rightarrow> string option \<Rightarrow> size_t \<Rightarrow> vireo_password_info option \<Rightarrow> vireo_result \<times> vireo_password_info option" where
  "vireo_password_hash_inspect policy encoded len info =
     (if \<not> vireo_password_policy_valid policy \<or> encoded = None \<or> info = None then (VIREO_RESULT_INVALID_ARGUMENT, info)
      else if len = 0 \<or> len \<ge> of_nat VIREO_PASSWORD_ENCODED_CAPACITY then (VIREO_RESULT_RANGE, info)
      else
        let (result, record) = vireo_password_parse (the policy) (the encoded) len zero_record in
        if result = VIREO_OK then (result, Some (pr_info record)) else (result, info))"

definition vireo_password_verify_with_runtime ::
  "vireo_password_policy option \<Rightarrow> bytes option \<Rightarrow> size_t \<Rightarrow> string option \<Rightarrow> size_t \<Rightarrow> bool option \<Rightarrow> vireo_password_runtime option \<Rightarrow>
   vireo_result \<times> bool option" where
  "vireo_password_verify_with_runtime policy password len encoded encoded_length matches runtime =
     (if \<not> vireo_password_policy_valid policy \<or> password = None \<or> encoded = None \<or> matches = None \<or> Option.is_none runtime
      then (VIREO_RESULT_INVALID_ARGUMENT, matches)
      else if len = 0 \<or> len > pp_max_password_bytes (the policy) \<or> encoded_length = 0 \<or>
        encoded_length \<ge> of_nat VIREO_PASSWORD_ENCODED_CAPACITY
      then (VIREO_RESULT_RANGE, matches)
      else
        let (result, record) = vireo_password_parse (the policy) (the encoded) encoded_length zero_record in
        if result \<noteq> VIREO_OK then (result, matches)
        else
          let (result, tag) = pt_derive (the runtime) (take (unat len) (the password)) (pr_salt record)
                (pi_memory_kib (pr_info record)) (pi_iterations (pr_info record)) in
          if result = VIREO_OK then (result, Some (tag = pr_tag record)) else (result, matches))"

definition vireo_password_hash_verify where
  "vireo_password_hash_verify native_runtime policy password len encoded encoded_length matches =
     vireo_password_verify_with_runtime policy password len encoded encoded_length matches (Some native_runtime)"

end
