(* ===== verification/Security_Phc.thy ===== *)
theory Security_Phc
  imports Security_Password
begin

text \<open>
  The PHC strings of \<open>Security_Password\<close>: the reader accepts exactly the strings the writer produces, so a stored
  record has one spelling only, and a created record verifies the password it was made from.
\<close>

subsection \<open>Positional numbers\<close>

abbreviation shift_in :: "nat \<Rightarrow> nat \<Rightarrow> nat list \<Rightarrow> nat" where
  "shift_in b \<equiv> foldl (\<lambda>a d. a * b + d)"

lemma shift_in_ge: "0 < b \<Longrightarrow> a \<le> shift_in b a ds"
proof (induction ds arbitrary: a)
  case (Cons d ds)
  have "a \<le> a * b + d" using Cons.prems by (simp add: trans_le_add1)
  also have "\<dots> \<le> shift_in b (a * b + d) ds" by (rule Cons.IH [OF Cons.prems])
  finally show ?case by simp
qed simp

lemma shift_in_inject:
  assumes "length xs = length ys" and "\<forall>x \<in> set xs. x < b" and "\<forall>y \<in> set ys. y < b" and "shift_in b 0 xs = shift_in b 0 ys"
  shows "xs = ys"
  using assms
proof (induction xs arbitrary: ys rule: rev_induct)
  case (snoc x xs)
  then obtain ys' y where ys: "ys = ys' @ [y]" "length xs = length ys'" by (cases ys rule: rev_cases) auto
  have eq: "shift_in b 0 xs * b + x = shift_in b 0 ys' * b + y" "x < b" "y < b" using snoc.prems ys by simp_all
  have "(shift_in b 0 xs * b + x) mod b = x" "(shift_in b 0 ys' * b + y) mod b = y"
    "(shift_in b 0 xs * b + x) div b = shift_in b 0 xs" "(shift_in b 0 ys' * b + y) div b = shift_in b 0 ys'" using eq(2,3) by simp_all
  then have "x = y" "shift_in b 0 xs = shift_in b 0 ys'" unfolding eq(1) by simp_all
  then show ?case using snoc.IH [of ys'] snoc.prems ys by simp
qed simp

subsection \<open>Decimal numbers\<close>

abbreviation dval :: "char \<Rightarrow> nat" where "dval c \<equiv> code_of c - 48"

abbreviation no_digit :: "string \<Rightarrow> bool" where "no_digit s \<equiv> s = [] \<or> \<not> is_digit (hd s)"

lemma digit_char: "d < 10 \<Longrightarrow> code_of (char_of (48 + d)) = 48 + d"
  by simp

lemma digit_char_of: "is_digit c \<Longrightarrow> char_of (48 + dval c) = c"
  by (simp add: is_digit_def)

lemma zero_char: "code_of c = 48 \<longleftrightarrow> c = CHR ''0''"
proof -
  have "code_of (CHR ''0'') = 48" by simp
  then show ?thesis by (metis of_char_eq_iff)
qed

lemma show_nat_props:
  "list_all is_digit (show_nat n) \<and> show_nat n \<noteq> [] \<and> shift_in 10 0 (map dval (show_nat n)) = n \<and>
   (hd (show_nat n) = CHR ''0'' \<longrightarrow> length (show_nat n) = 1)"
proof (induction n rule: show_nat.induct)
  case (1 n)
  show ?case
  proof (cases "n < 10")
    case True
    then show ?thesis by (simp add: show_nat.simps [of n] digit_char is_digit_def)
  next
    case False
    have "hd (show_nat (n div 10)) \<noteq> CHR ''0''"
    proof
      assume z: "hd (show_nat (n div 10)) = CHR ''0''"
      then have "show_nat (n div 10) = [CHR ''0'']"
        using 1 [OF False] by (cases "show_nat (n div 10)") auto
      then have "shift_in 10 0 (map dval (show_nat (n div 10))) = 0" by simp
      then show False using 1 [OF False] False by auto
    qed
    moreover have "shift_in 10 0 (map dval (show_nat n)) = n"
      using 1 [OF False] False by (simp add: show_nat.simps [of n] digit_char)
    ultimately show ?thesis using 1 [OF False] False
      by (simp add: show_nat.simps [of n] digit_char is_digit_def)
  qed
qed

lemma show_nat_canonical:
  assumes "list_all is_digit ds" and "ds \<noteq> []" and "hd ds = CHR ''0'' \<longrightarrow> length ds = 1"
  shows "show_nat (shift_in 10 0 (map dval ds)) = ds"
  using assms
proof (induction ds rule: rev_induct)
  case (snoc c ds)
  have c: "is_digit c" "dval c < 10" using snoc.prems by (auto simp: is_digit_def)
  show ?case
  proof (cases "ds = []")
    case True
    then show ?thesis using c digit_char_of [of c] by (simp add: show_nat.simps [of "dval c"])
  next
    case False
    then have h: "hd ds \<noteq> CHR ''0''" using snoc.prems by auto
    then have ih: "show_nat (shift_in 10 0 (map dval ds)) = ds" using snoc False by auto
    have "hd ds \<in> set ds" using False by simp
    then have "is_digit (hd ds)" using snoc.prems by (auto simp: list_all_iff)
    moreover have "code_of (hd ds) \<noteq> 48" using h zero_char [of "hd ds"] by blast
    ultimately have "0 < dval (hd ds)" by (auto simp: is_digit_def)
    then have "0 < shift_in 10 0 (map dval ds)" using False shift_in_ge [of 10 "dval (hd ds)" "map dval (tl ds)"] by (cases ds) auto
    then show ?thesis using ih c digit_char_of [of c] by (simp add: show_nat.simps [of "shift_in 10 0 (map dval ds) * 10 + dval c"])
  qed
qed simp

lemma decimal_step:
  fixes number :: u32
  assumes "d < 10"
  shows "(number > (UINT32_MAX - word_of_nat d) div 10) \<longleftrightarrow> 2 ^ 32 \<le> unat number * 10 + d"
    and "unat number * 10 + d < 2 ^ 32 \<Longrightarrow> unat (number * 10 + word_of_nat d) = unat number * 10 + d"
proof -
  have d: "unat (word_of_nat d :: u32) = d" using assms by (simp add: unsigned_of_nat take_bit_nat_eq_self)
  have "word_of_nat d \<le> UINT32_MAX" by simp
  then have "unat (UINT32_MAX - word_of_nat d :: u32) = 4294967295 - d" unfolding unat_sub [OF word_order.extremum] d by (simp add: unat_max_word)
  then have "unat ((UINT32_MAX - word_of_nat d :: u32) div 10) = (4294967295 - d) div 10" by (simp add: unat_div)
  then show "(number > (UINT32_MAX - word_of_nat d) div 10) \<longleftrightarrow> 2 ^ 32 \<le> unat number * 10 + d"
    using assms unfolding word_less_nat_alt by simp linarith
  show "unat (number * 10 + word_of_nat d) = unat number * 10 + d" if "unat number * 10 + d < 2 ^ 32"
    using that d by (simp add: unat_word_ariths)
qed

lemma decimal_loop_eq:
  "decimal_loop zero count number p =
    (if shift_in 10 (unat number) (map dval (takeWhile is_digit p)) < 2 ^ 32 \<and>
        (zero \<and> takeWhile is_digit p \<noteq> [] \<longrightarrow> count = 0 \<and> length (takeWhile is_digit p) = 1)
     then Some (word_of_nat (shift_in 10 (unat number) (map dval (takeWhile is_digit p))), dropWhile is_digit p) else None)"
proof (induction zero count number p rule: decimal_loop.induct)
  case (1 zero count number)
  have "unat number < 2 ^ 32" using unsigned_less [of number, where 'a = nat] by simp
  then show ?case by simp
next
  case (2 zero count number c p)
  have small: "unat number < 2 ^ 32" using unsigned_less [of number, where 'a = nat] by simp
  show ?case
  proof (cases "is_digit c")
    case False
    then show ?thesis using small by simp
  next
    case True
    have d: "dval c < 10" using True by (auto simp: is_digit_def)
    note st = decimal_step [OF d, of number]
    have ge: "unat number * 10 + dval c \<le> shift_in 10 (unat number * 10 + dval c) (map dval (takeWhile is_digit p))"
      by (rule shift_in_ge) simp
    show ?thesis
    proof (cases "2 ^ 32 \<le> unat number * 10 + dval c \<or> (zero \<and> count \<noteq> 0)")
      case t: True
      then have "decimal_loop zero count number (c # p) = None" using True st(1) by (auto simp: Let_def)
      moreover have "\<not> (shift_in 10 (unat number) (map dval (takeWhile is_digit (c # p))) < 2 ^ 32 \<and>
        (zero \<and> takeWhile is_digit (c # p) \<noteq> [] \<longrightarrow> count = 0 \<and> length (takeWhile is_digit (c # p)) = 1))"
        using t True ge by auto
      ultimately show ?thesis by simp
    next
      case f: False
      then have "\<not> (number > (UINT32_MAX - word_of_nat (dval c)) div 10 \<or> (zero \<and> count \<noteq> 0))" using st(1) by auto
      then have "decimal_loop zero count number (c # p) = decimal_loop zero (Suc count) (number * 10 + word_of_nat (dval c)) p"
        using True by (auto simp: Let_def)
      then show ?thesis using "2.IH" [OF True refl] f st True by (auto simp: Let_def not_le)
    qed
  qed
qed

lemma takeWhile_digits:
  "list_all is_digit ds \<Longrightarrow> no_digit rest \<Longrightarrow> takeWhile is_digit (ds @ rest) = ds \<and> dropWhile is_digit (ds @ rest) = rest"
  by (induction ds) (cases rest; auto)+

lemma decimal_show:
  assumes "n < 2 ^ 32" and "no_digit rest"
  shows "decimal (show_nat n @ rest) v = (True, rest, word_of_nat n)"
proof -
  note sp = show_nat_props [of n]
  note tw = takeWhile_digits [of "show_nat n" rest]
  obtain c p where c: "show_nat n = c # p" "is_digit c" using sp by (cases "show_nat n") auto
  have "decimal_loop (c = CHR ''0'') 0 0 (show_nat n @ rest) = Some (word_of_nat n, rest)"
    using sp tw assms c by (auto simp: decimal_loop_eq)
  then show ?thesis using c by (simp add: decimal_def)
qed

lemma decimal_True:
  assumes "decimal cursor v = (True, rest, w)"
  shows "cursor = show_nat (unat w) @ rest" and "no_digit rest"
proof -
  obtain c p where c: "cursor = c # p" "is_digit c" using assms by (auto simp: decimal_def split: list.splits if_splits)
  let ?ds = "takeWhile is_digit cursor" and ?v = "shift_in 10 0 (map dval (takeWhile is_digit cursor))"
  have l: "decimal_loop (c = CHR ''0'') 0 0 cursor = Some (w, rest)"
    using assms c by (auto simp: decimal_def split: option.splits)
  then have s: "?v < 2 ^ 32" "hd ?ds = CHR ''0'' \<longrightarrow> length ?ds = 1" "w = word_of_nat ?v" "rest = dropWhile is_digit cursor"
    using c by (auto simp: decimal_loop_eq split: if_splits)
  have "unat w = ?v" using s(1,3) by (simp add: unsigned_of_nat take_bit_nat_eq_self)
  moreover have "show_nat ?v = ?ds"
    using c s(2) by (intro show_nat_canonical) (auto simp: list_all_iff dest: set_takeWhileD)
  ultimately show "cursor = show_nat (unat w) @ rest" by (simp add: s(4))
  show "no_digit rest" using hd_dropWhile [of is_digit cursor] by (auto simp: s(4))
qed

subsection \<open>Base64\<close>

abbreviation bval :: "char \<Rightarrow> nat" where "bval c \<equiv> nat (base64_digit c)"

abbreviation in_alphabet :: "string \<Rightarrow> bool" where "in_alphabet \<equiv> list_all (\<lambda>c. 0 \<le> base64_digit c)"

lemma alphabet_eq: "alphabet = map char_of ([65..<91] @ [97..<123] @ [48..<58] @ [43, 47 :: nat])"
proof -
  have "map code_of alphabet = [65..<91] @ [97..<123] @ [48..<58] @ [43, 47]" unfolding alphabet_def by (simp add: upt_rec)
  moreover have "alphabet = map char_of (map code_of alphabet)" by (simp add: comp_def)
  ultimately show ?thesis by metis
qed

lemma alphabet_char:
  "d < 26 \<Longrightarrow> alphabet ! d = char_of (65 + d)" "d < 26 \<Longrightarrow> alphabet ! (d + 26) = char_of (97 + d)"
  "d < 10 \<Longrightarrow> alphabet ! (d + 52) = char_of (48 + d)" "alphabet ! 62 = char_of (43 :: nat)" "alphabet ! 63 = char_of (47 :: nat)"
proof -
  define A B C where abc: "A = [65..<91 :: nat]" "B = [97..<123 :: nat]" "C = [48..<58 :: nat]"
  have len: "length A = 26" "length B = 26" "length C = 10" by (simp_all add: abc)
  have al: "alphabet = map char_of (A @ B @ C @ [43, 47])" unfolding abc by (rule alphabet_eq)
  have nth: "d < 26 \<Longrightarrow> A ! d = 65 + d" "d < 26 \<Longrightarrow> B ! d = 97 + d" "d < 10 \<Longrightarrow> C ! d = 48 + d"
    unfolding abc by (rule nth_upt, simp)+
  show "d < 26 \<Longrightarrow> alphabet ! d = char_of (65 + d)" "d < 26 \<Longrightarrow> alphabet ! (d + 26) = char_of (97 + d)"
    "d < 10 \<Longrightarrow> alphabet ! (d + 52) = char_of (48 + d)" "alphabet ! 62 = char_of (43 :: nat)" "alphabet ! 63 = char_of (47 :: nat)"
    unfolding al using nth by (simp_all add: nth_append len del: map_append)
qed

lemma alphabet_nth:
  assumes "d < 64"
  shows "base64_digit (alphabet ! d) = int d"
proof -
  consider "d < 26" | e where "d = e + 26" "e < 26" | e where "d = e + 52" "e < 10" | "d = 62" | "d = 63"
    using assms that(2) [of "d - 26"] that(3) [of "d - 52"] that(1,4,5) by linarith
  then show ?thesis by cases (simp_all add: alphabet_char base64_digit_def)
qed

lemma base64_digit_char:
  assumes "0 \<le> base64_digit c"
  shows "base64_digit c < 64 \<and> alphabet ! bval c = c"
proof -
  consider "65 \<le> code_of c" "code_of c \<le> 90" | "97 \<le> code_of c" "code_of c \<le> 122" | "48 \<le> code_of c" "code_of c \<le> 57"
    | "code_of c = 43" | "code_of c = 47"
    using assms by (auto simp: base64_digit_def Let_def split: if_splits)
  then show ?thesis
  proof cases
    case 1
    then have "bval c = code_of c - 65" by (simp add: base64_digit_def)
    then show ?thesis using 1 alphabet_char(1) [of "code_of c - 65"] by (simp add: base64_digit_def)
  next
    case 2
    then have "bval c = code_of c - 97 + 26" by (simp add: base64_digit_def)
    then show ?thesis using 2 alphabet_char(2) [of "code_of c - 97"] by (simp add: base64_digit_def)
  next
    case 3
    then have "bval c = code_of c - 48 + 52" by (simp add: base64_digit_def)
    then show ?thesis using 3 alphabet_char(3) [of "code_of c - 48"] by (simp add: base64_digit_def)
  next
    case 4
    then have "c = char_of (43 :: nat)" using char_of_char [of c] by metis
    then show ?thesis using alphabet_char(4) 4 by (simp add: base64_digit_def)
  next
    case 5
    then have "c = char_of (47 :: nat)" using char_of_char [of c] by metis
    then show ?thesis using alphabet_char(5) 5 by (simp add: base64_digit_def)
  qed
qed

lemma shift_or:
  assumes "d < 2 ^ k"
  shows "push_bit k (word_of_nat v :: u32) OR word_of_nat d = word_of_nat (v * 2 ^ k + d)"
proof -
  have dk: "take_bit k d = d" using assms by (simp add: take_bit_nat_eq_self)
  have "\<not> bit (push_bit k (word_of_nat v :: u32)) n \<or> \<not> bit (word_of_nat d :: u32) n" for n
  proof (cases "n < k")
    case True
    then show ?thesis by (simp add: bit_push_bit_iff)
  next
    case False
    then have "\<not> bit d n" using dk by (metis bit_take_bit_iff)
    then show ?thesis by (simp add: bit_of_nat_iff)
  qed
  then have "push_bit k (word_of_nat v :: u32) OR word_of_nat d = push_bit k (word_of_nat v) + word_of_nat d"
    by (subst disjunctive_add) auto
  then show ?thesis by (simp add: push_bit_eq_mult)
qed

lemma drop_mod:
  assumes "n + m \<le> 32"
  shows "unat (drop_bit n (word_of_nat v :: u32) AND mask m) = v div 2 ^ n mod 2 ^ m"
proof -
  have "unat (drop_bit n (word_of_nat v :: u32) AND mask m) = take_bit m (drop_bit n (take_bit 32 v))"
    by (simp flip: take_bit_eq_mask add: unsigned_take_bit_eq unsigned_drop_bit_eq unsigned_of_nat)
  also have "\<dots> = take_bit m (drop_bit n v)" using assms by (simp add: drop_bit_take_bit)
  finally show ?thesis by (simp add: drop_bit_eq_div take_bit_eq_mod)
qed

lemma div_shift: "d < 2 ^ k \<Longrightarrow> (v * 2 ^ k + d) div 2 ^ (b + k) = (v :: nat) div 2 ^ b"
  by (simp add: power_add div_mult2_eq mult.commute [of "2 ^ b"])

lemma div_byte: "(v :: nat) div 2 ^ b = v div 2 ^ (b + k) * 2 ^ k + v div 2 ^ b mod 2 ^ k"
  unfolding power_add div_mult2_eq by (simp only: div_mult_mod_eq)

lemma decode_loop_ok:
  assumes "(8 * written + bits + 6 * length input) div 8 = sz" and "bits < 8" and "length out = sz" and "acc = word_of_nat v"
    and "shift_in 256 0 (map unat (take written out)) = v div 2 ^ bits"
  shows "\<exists>ok out'. decode_loop sz input acc bits written out = (ok, out') \<and> length out' = sz \<and>
    (ok \<longleftrightarrow> in_alphabet input \<and> shift_in 64 v (map bval input) mod 2 ^ ((8 * written + bits + 6 * length input) mod 8) = 0) \<and>
    (ok \<longrightarrow> shift_in 256 0 (map unat out') = shift_in 64 v (map bval input) div 2 ^ ((8 * written + bits + 6 * length input) mod 8))"
  using assms
proof (induction input arbitrary: acc bits written out v)
  case Nil
  have "acc AND (push_bit bits 1 - 1) = take_bit bits acc"
    by (simp add: take_bit_eq_mask mask_eq_exp_minus_1 push_bit_eq_mult)
  also have "\<dots> = word_of_nat (take_bit bits v)" using Nil.prems(2,4) by (simp add: take_bit_of_nat [symmetric])
  finally have a: "acc AND (push_bit bits 1 - 1) = (word_of_nat (take_bit bits v) :: u32)" .
  have "(2 :: nat) ^ bits \<le> 2 ^ 32" using Nil.prems(2) by (intro power_increasing) simp_all
  then have "take_bit bits v < 2 ^ 32" by (rule less_le_trans [OF take_bit_nat_less_exp])
  then have "acc AND (push_bit bits 1 - 1) = 0 \<longleftrightarrow> v mod 2 ^ bits = 0"
    unfolding a by (auto simp: word_of_nat_eq_0_iff take_bit_eq_mod [symmetric] take_bit_nat_eq_self dest: dvd_imp_le)
  moreover have "written = sz" "bits = (8 * written + bits) mod 8" using Nil.prems(1,2) by auto
  ultimately show ?case using Nil.prems by simp
next
  case (Cons c input)
  show ?case
  proof (cases "base64_digit c < 0")
    case True
    then show ?thesis using Cons.prems(3) by (intro exI [of _ False] exI [of _ out]) simp
  next
    case nd: False
    let ?d = "bval c"
    have d: "?d < 2 ^ 6" "word_of_int (base64_digit c) = (word_of_nat ?d :: u32)"
      using nd base64_digit_char [of c] by auto
    let ?acc = "push_bit 6 acc OR word_of_int (base64_digit c)" and ?v = "v * 2 ^ 6 + ?d"
    have acc: "?acc = word_of_nat ?v" unfolding d(2) Cons.prems(4) by (rule shift_or [OF d(1)])
    have v: "?v div 2 ^ (bits + 6) = v div 2 ^ bits" by (rule div_shift [OF d(1)])
    show ?thesis
    proof (cases "bits + 6 \<ge> 8")
      case True
      define b where "b = bits + 6 - 8"
      have b: "bits + 6 = b + 8" "b < 8" using True Cons.prems(2) by (simp_all add: b_def)
      have tot: "8 * Suc written + b + 6 * length input = 8 * written + bits + 6 * length (c # input)" using b by simp
      have tz: "(8 * Suc written + b + 6 * length input) div 8 = sz" unfolding tot by (rule Cons.prems(1))
      then have room: "written < sz" by simp
      let ?byte = "ucast (drop_bit b ?acc AND 255) :: u8"
      have byte: "unat ?byte = ?v div 2 ^ b mod 2 ^ 8"
        using b(2) drop_mod [of b 8 ?v] unfolding acc
        by (simp add: mask_eq_exp_minus_1 unsigned_ucast_eq take_bit_nat_eq_self del: power_0)
      let ?out = "mem_write written [?byte] out"
      have len: "length ?out = sz" using room Cons.prems(3) by simp
      have "take (Suc written) ?out = take written out @ [?byte]" using room Cons.prems(3) by (simp add: mem_write_def)
      then have "shift_in 256 0 (map unat (take (Suc written) ?out)) = v div 2 ^ bits * 2 ^ 8 + ?v div 2 ^ b mod 2 ^ 8"
        using Cons.prems(5) byte by simp
      also have "\<dots> = ?v div 2 ^ b" using div_byte [of ?v b 8] v b(1) by simp
      finally have num: "shift_in 256 0 (map unat (take (Suc written) ?out)) = ?v div 2 ^ b" .
      note ih = Cons.IH [OF tz b(2) len acc num]
      have e: "decode_loop sz (c # input) acc bits written out = decode_loop sz input ?acc b (Suc written) ?out"
        using nd True room by (simp add: Let_def b_def)
      show ?thesis unfolding e using ih nd unfolding tot by simp
    next
      case False
      have tot: "8 * written + (bits + 6) + 6 * length input = 8 * written + bits + 6 * length (c # input)" by simp
      have tz: "(8 * written + (bits + 6) + 6 * length input) div 8 = sz" unfolding tot by (rule Cons.prems(1))
      have b: "bits + 6 < 8" using False by simp
      have num: "shift_in 256 0 (map unat (take written out)) = ?v div 2 ^ (bits + 6)" unfolding v by (rule Cons.prems(5))
      note ih = Cons.IH [OF tz b Cons.prems(3) acc num]
      have e: "decode_loop sz (c # input) acc bits written out = decode_loop sz input ?acc (bits + 6) written out"
        using nd b by (simp add: Let_def)
      show ?thesis unfolding e using ih nd unfolding tot by simp
    qed
  qed
qed

lemma encode_digits_ok:
  assumes "bits \<le> 26"
  shows "\<exists>ds. encode_digits (word_of_nat v) bits = (ds, bits mod 6) \<and> length ds = bits div 6 \<and> in_alphabet ds \<and>
    shift_in 64 (v div 2 ^ bits) (map bval ds) = v div 2 ^ (bits mod 6)"
  using assms
proof (induction bits rule: less_induct)
  case (less bits)
  show ?case
  proof (cases "bits \<ge> 6")
    case False
    then show ?thesis by (simp add: encode_digits.simps [of _ bits])
  next
    case True
    define b where "b = bits - 6"
    have b: "bits = b + 6" "b < bits" "b + 6 \<le> 32" using True less.prems by (simp_all add: b_def)
    obtain ds where ih: "encode_digits (word_of_nat v) b = (ds, b mod 6)" "length ds = b div 6" "in_alphabet ds"
        "shift_in 64 (v div 2 ^ b) (map bval ds) = v div 2 ^ (b mod 6)"
      using less.IH [OF b(2)] less.prems b(2) by auto
    let ?d = "unat (drop_bit b (word_of_nat v :: u32) AND 63)"
    have d: "?d = v div 2 ^ b mod 2 ^ 6" using drop_mod [OF b(3), of v] by (simp add: mask_eq_exp_minus_1)
    then have lt: "?d < 64" by simp
    have "v div 2 ^ bits * 64 + ?d = v div 2 ^ b" unfolding d b(1) using div_byte [of v b 6] by simp
    moreover have "encode_digits (word_of_nat v) bits = (alphabet ! ?d # ds, b mod 6)"
      using True ih(1) by (simp add: encode_digits.simps [of _ bits] b_def [symmetric] Let_def)
    moreover have "bits mod 6 = b mod 6" "bits div 6 = Suc (b div 6)" by (simp_all add: b(1))
    ultimately show ?thesis using ih(2-4) alphabet_nth [OF lt] by simp
  qed
qed

lemma encode_loop_ok:
  assumes "bits < 6"
  shows "length (encode_loop input (word_of_nat v) bits) = (bits + 8 * length input) div 6 + (if (bits + 8 * length input) mod 6 = 0 then 0 else 1) \<and>
    in_alphabet (encode_loop input (word_of_nat v) bits) \<and>
    shift_in 64 (v div 2 ^ bits) (map bval (encode_loop input (word_of_nat v) bits)) =
      shift_in 256 v (map unat input) * 2 ^ (if (bits + 8 * length input) mod 6 = 0 then 0 else 6 - (bits + 8 * length input) mod 6)"
  using assms
proof (induction input arbitrary: v bits)
  case Nil
  show ?case
  proof (cases "bits = 0")
    case False
    let ?d = "unat (push_bit (6 - bits) (word_of_nat v :: u32) AND 63)"
    have "push_bit (6 - bits) (word_of_nat v :: u32) = word_of_nat (v * 2 ^ (6 - bits))" by (simp add: push_bit_eq_mult)
    then have d: "?d = v * 2 ^ (6 - bits) mod 64" using drop_mod [of 0 6 "v * 2 ^ (6 - bits)"] by (simp add: mask_eq_exp_minus_1)
    have "v * 2 ^ (6 - bits) div 64 = v div 2 ^ bits"
      using Nil.prems div_shift [of 0 "6 - bits" v bits] by simp
    then have "v div 2 ^ bits * 64 + ?d = v * 2 ^ (6 - bits)" unfolding d by (metis div_mult_mod_eq)
    moreover have "?d < 64" unfolding d by simp
    ultimately show ?thesis using Nil.prems False alphabet_nth [of ?d] by simp
  qed simp
next
  case (Cons b input)
  let ?v = "v * 2 ^ 8 + unat b"
  have lt: "unat b < 2 ^ 8" using unsigned_less [of b, where 'a = nat] by simp
  have bw: "(ucast b :: u32) = word_of_nat (unat b)" by simp
  have acc: "push_bit 8 (word_of_nat v :: u32) OR ucast b = word_of_nat ?v" unfolding bw by (rule shift_or [OF lt])
  obtain ds where ds: "encode_digits (word_of_nat ?v) (bits + 8) = (ds, (bits + 8) mod 6)" "length ds = (bits + 8) div 6" "in_alphabet ds"
      "shift_in 64 (?v div 2 ^ (bits + 8)) (map bval ds) = ?v div 2 ^ ((bits + 8) mod 6)"
    using encode_digits_ok [of "bits + 8" ?v] Cons.prems by auto
  have v: "?v div 2 ^ (bits + 8) = v div 2 ^ bits" by (rule div_shift [OF lt])
  let ?r = "(bits + 8) mod 6"
  have e: "encode_loop (b # input) (word_of_nat v) bits = ds @ encode_loop input (word_of_nat ?v) ?r"
    by (simp only: encode_loop.simps Let_def acc ds(1) prod.case)
  have tot: "bits + 8 * length (b # input) = 6 * ((bits + 8) div 6) + (?r + 8 * length input)" by simp
  have m: "(bits + 8 * length (b # input)) mod 6 = (?r + 8 * length input) mod 6" unfolding tot by (rule mod_mult_self4)
  have dv: "(bits + 8 * length (b # input)) div 6 = (bits + 8) div 6 + (?r + 8 * length input) div 6" unfolding tot by (rule div_mult_self4) simp
  show ?case unfolding e m dv using Cons.IH [of ?r ?v] ds(2-4) v by simp
qed

text \<open>Decoding succeeds exactly on what the encoder writes, for the two sizes in use.\<close>

lemma bval_inject: "in_alphabet xs \<Longrightarrow> in_alphabet ys \<Longrightarrow> map bval xs = map bval ys \<Longrightarrow> xs = ys"
proof (induction xs arbitrary: ys)
  case (Cons x xs)
  then obtain y zs where ys: "ys = y # zs" by (cases ys) auto
  have "0 \<le> base64_digit x" "0 \<le> base64_digit y" using Cons.prems(1,2) ys by simp_all
  then have "alphabet ! bval x = x" "alphabet ! bval y = y" using base64_digit_char by blast+
  moreover have "bval x = bval y" using Cons.prems(3) ys by simp
  ultimately have "x = y" by metis
  then show ?case using Cons ys by simp
qed simp

lemma decode_exact:
  assumes size: "(n, sz) \<in> {(22, 16), (43, 32)}" and len: "length input = n" "length out = sz"
  shows "\<exists>ok out'. decode input out sz = (ok, out') \<and> length out' = sz \<and>
    (ok \<longleftrightarrow> (\<exists>bs. length bs = sz \<and> input = encode_base64 bs)) \<and> (ok \<longrightarrow> input = encode_base64 out')"
proof -
  define k where "k = 6 * n mod 8"
  have arith: "6 * n div 8 = sz" "8 * sz mod 6 \<noteq> 0" "6 - 8 * sz mod 6 = k" "8 * sz div 6 + 1 = n" using size by (auto simp: k_def)
  let ?V = "shift_in 64 0 (map bval input)"
  obtain ok out' where d: "decode input out sz = (ok, out')" "length out' = sz" "ok \<longleftrightarrow> in_alphabet input \<and> ?V mod 2 ^ k = 0"
      "ok \<longrightarrow> shift_in 256 0 (map unat out') = ?V div 2 ^ k"
    using decode_loop_ok [of 0 0 input sz out 0 0] len arith(1) by (auto simp: decode_def k_def)
  have enc: "length (encode_base64 bs) = n" "in_alphabet (encode_base64 bs)"
      "shift_in 64 0 (map bval (encode_base64 bs)) = shift_in 256 0 (map unat bs) * 2 ^ k" if "length bs = sz" for bs
    using encode_loop_ok [of 0 bs 0] that arith by (simp_all add: encode_base64_def)
  have same: "input = encode_base64 out'" if "ok"
  proof -
    have "?V mod 2 ^ k = 0" using d(3) that by blast
    then have "2 ^ k dvd ?V" by (simp only: mod_eq_0_iff_dvd)
    then have "?V = shift_in 256 0 (map unat out') * 2 ^ k" using d(4) that by (simp only: dvd_div_mult_self simp_thms)
    then have "shift_in 64 0 (map bval input) = shift_in 64 0 (map bval (encode_base64 out'))" using enc(3) [OF d(2)] by simp
    moreover have al: "in_alphabet input" "in_alphabet (encode_base64 out')" using d(3) that enc(2) [OF d(2)] by simp_all
    ultimately have "map bval input = map bval (encode_base64 out')"
      using enc(1) [OF d(2)] len(1) base64_digit_char
      by (intro shift_in_inject [where b = 64]) (auto simp: list_all_iff nat_less_iff)
    then show ?thesis by (rule bval_inject [OF al])
  qed
  have "ok" if "length bs = sz" "input = encode_base64 bs" for bs using d(3) enc [OF that(1)] that(2) by simp
  then show ?thesis using d(1,2) same by blast
qed

subsection \<open>The text of a record\<close>

abbreviation policy_allows :: "vireo_password_policy \<Rightarrow> u32 \<Rightarrow> u32 \<Rightarrow> bool" where
  "policy_allows policy m t \<equiv> 8 \<le> m \<and> m \<le> pp_max_verify_memory_kib policy \<and> 1 \<le> t \<and> t \<le> pp_max_verify_iterations policy"

lemma literal_iff: "literal cursor w = (True, rest) \<longleftrightarrow> cursor = w @ rest"
  by (auto simp: literal_def not_less) (metis append_take_drop_id)

lemma literal_append: "literal (w @ rest) w = (True, rest)"
  by (simp add: literal_iff)

lemma encode_base64_length: "length bs = 16 \<Longrightarrow> length (encode_base64 bs) = 22" "length bs = 32 \<Longrightarrow> length (encode_base64 bs) = 43"
  using encode_loop_ok [of 0 bs 0] by (simp_all add: encode_base64_def)

lemma encode_base64_inject:
  assumes "encode_base64 bs = encode_base64 cs" and "length bs = length cs"
  shows "bs = cs"
proof -
  have "shift_in 256 0 (map unat bs) = shift_in 256 0 (map unat cs)"
    using encode_loop_ok [of 0 bs 0] encode_loop_ok [of 0 cs 0] assms by (simp add: encode_base64_def split: if_splits)
  moreover have "unat (x :: u8) < 256" for x using unsigned_less [of x, where 'a = nat] by simp
  ultimately have "map unat bs = map unat cs" using assms(2) by (intro shift_in_inject [where b = 256]) auto
  then show ?thesis by (metis inj_map_eq_map injI word_unat_eq_iff)
qed

lemma decode_encode:
  fixes n :: nat
  assumes "(n, sz) \<in> {(22, 16), (43, 32)}" and "length bs = sz" and "length out = sz"
  shows "decode (encode_base64 bs) out sz = (True, bs)"
proof -
  have "length (encode_base64 bs) = n" using assms(1,2) encode_base64_length [of bs] by auto
  from decode_exact [OF assms(1) this assms(3)] show ?thesis using assms(2) encode_base64_inject [of bs] by fastforce
qed

lemma parse_text:
  assumes ist: "take (unat len) encoded = password_text m t salt tag" and l: "length salt = 16" "length tag = 32"
    and r: "length (pr_salt record) = 16" "length (pr_tag record) = 32"
  shows "vireo_password_parse policy encoded len record =
    (if policy_allows policy m t
     then (VIREO_OK, \<lparr>pr_info = \<lparr>pi_version = 19, pi_memory_kib = m, pi_iterations = t, pi_parallelism = 1, pi_encoded_length = len\<rparr>,
       pr_salt = salt, pr_tag = tag\<rparr>)
     else (VIREO_RESULT_RANGE, record\<lparr>pr_salt := salt, pr_tag := tag\<rparr>))"
proof -
  let ?e = "encode_base64 salt @ ''$'' @ encode_base64 tag"
  note el = encode_base64_length(1) [OF l(1)] encode_base64_length(2) [OF l(2)]
  have mt: "unat m < 2 ^ 32" "unat t < 2 ^ 32"
    using unsigned_less [of m, where 'a = nat] unsigned_less [of t, where 'a = nat] by simp_all
  have l1: "literal (take (unat len) encoded) ''$argon2id$v=19$m='' =
      (True, show_nat (unat m) @ '',t='' @ show_nat (unat t) @ '',p=1$'' @ ?e)"
    unfolding ist password_text_def by (rule literal_append)
  have d1: "decimal (show_nat (unat m) @ '',t='' @ show_nat (unat t) @ '',p=1$'' @ ?e) 0 =
      (True, '',t='' @ show_nat (unat t) @ '',p=1$'' @ ?e, m)"
    using decimal_show [OF mt(1), of "'',t='' @ show_nat (unat t) @ '',p=1$'' @ ?e" 0] by (simp add: is_digit_def)
  have l2: "literal ('',t='' @ show_nat (unat t) @ '',p=1$'' @ ?e) '',t='' = (True, show_nat (unat t) @ '',p=1$'' @ ?e)"
    by (rule literal_append)
  have d2: "decimal (show_nat (unat t) @ '',p=1$'' @ ?e) 0 = (True, '',p=1$'' @ ?e, t)"
    using decimal_show [OF mt(2), of "'',p=1$'' @ ?e" 0] by (simp add: is_digit_def)
  have l3: "literal ('',p=1$'' @ ?e) '',p=1$'' = (True, ?e)" by (rule literal_append)
  have dec: "decode (encode_base64 salt) (pr_salt record) 16 = (True, salt)" "decode (encode_base64 tag) (pr_tag record) 32 = (True, tag)"
    using decode_encode [of 22 16] decode_encode [of 43 32] l r by simp_all
  have e: "length ?e = 66" "?e ! 22 = CHR ''$''" "take 22 ?e = encode_base64 salt" "take 43 (drop 23 ?e) = encode_base64 tag"
    using el by (simp_all add: nth_append)
  show ?thesis
    unfolding vireo_password_parse_def Let_def l1 d1 l2 d2 l3 prod.case e dec
    by (cases "record") (use dec in \<open>auto simp: not_le not_less\<close>)
qed

lemma parse_accepts:
  assumes p: "vireo_password_parse policy encoded len record = (rc, record')" and rc: "rc \<noteq> VIREO_RESULT_PROTOCOL"
    and r: "length (pr_salt record) = 16" "length (pr_tag record) = 32"
  shows "\<exists>m t salt tag. take (unat len) encoded = password_text m t salt tag \<and> length salt = 16 \<and> length tag = 32"
proof -
  obtain c1 where 1: "literal (take (unat len) encoded) ''$argon2id$v=19$m='' = (True, c1)"
    using p rc by (auto simp: vireo_password_parse_def Let_def split: prod.splits if_splits)
  obtain c2 m where 2: "decimal c1 0 = (True, c2, m)"
    using p rc by (auto simp: vireo_password_parse_def Let_def 1 split: prod.splits if_splits)
  obtain c3 where 3: "literal c2 '',t='' = (True, c3)"
    using p rc by (auto simp: vireo_password_parse_def Let_def 1 2 split: prod.splits if_splits)
  obtain c4 t where 4: "decimal c3 0 = (True, c4, t)"
    using p rc by (auto simp: vireo_password_parse_def Let_def 1 2 3 split: prod.splits if_splits)
  obtain c5 where 5: "literal c4 '',p=1$'' = (True, c5)" "length c5 = 66" "c5 ! 22 = CHR ''$''"
    using p rc by (auto simp: vireo_password_parse_def Let_def 1 2 3 4 split: prod.splits if_splits)
  obtain salt where 6: "decode (take 22 c5) (pr_salt record) 16 = (True, salt)"
    using p rc by (auto simp: vireo_password_parse_def Let_def 1 2 3 4 5 split: prod.splits if_splits)
  obtain tag where 7: "decode (take 43 (drop 23 c5)) (pr_tag record) 32 = (True, tag)"
    using p rc by (auto simp: vireo_password_parse_def Let_def 1 2 3 4 5 6 split: prod.splits if_splits)
  have b: "take 22 c5 = encode_base64 salt" "length salt = 16" "take 43 (drop 23 c5) = encode_base64 tag" "length tag = 32"
    using decode_exact [of 22 16 "take 22 c5" "pr_salt record"] decode_exact [of 43 32 "take 43 (drop 23 c5)" "pr_tag record"] 5(2) 6 7 r
    by simp_all
  have "c5 = take 22 c5 @ c5 ! 22 # drop 23 c5" using id_take_nth_drop [of 22 c5] 5(2) by simp
  moreover have "drop 23 c5 = take 43 (drop 23 c5)" using 5(2) by simp
  ultimately have "c5 = encode_base64 salt @ ''$'' @ encode_base64 tag" using b 5(3) by simp
  then have "take (unat len) encoded = password_text m t salt tag"
    using 1 3 5(1) decimal_True(1) [OF 2] decimal_True(1) [OF 4] by (simp add: literal_iff password_text_def)
  then show ?thesis using b by blast
qed

lemma show_nat_length: "n < 10 ^ k \<Longrightarrow> 0 < k \<Longrightarrow> length (show_nat n) \<le> k"
proof (induction n arbitrary: k rule: show_nat.induct)
  case (1 n)
  show ?case
  proof (cases "n < 10")
    case True
    then show ?thesis using 1(3) by (simp add: show_nat.simps [of n])
  next
    case False
    obtain j where j: "k = Suc j" using 1(3) by (cases k) auto
    have "n div 10 < 10 ^ j" "0 < j" using 1(2) False j by (simp_all add: less_mult_imp_div_less mult.commute) (cases j; simp)
    then show ?thesis using 1(1) [OF False, of j] j False by (simp add: show_nat.simps [of n])
  qed
qed

lemma password_text_length:
  assumes "length salt = 16" and "length tag = 32"
  shows "length (password_text m t salt tag) \<le> 111" and "0 < length (password_text m t salt tag)"
proof -
  have "unat w < 10 ^ 10" for w :: u32 using unsigned_less [of w, where 'a = nat] by simp
  then have "length (show_nat (unat m)) \<le> 10" "length (show_nat (unat t)) \<le> 10" using show_nat_length by simp_all
  then show "length (password_text m t salt tag) \<le> 111" "0 < length (password_text m t salt tag)"
    using encode_base64_length assms by (simp_all add: password_text_def)
qed

lemma encode_text:
  assumes "length salt = 16" and "length tag = 32" and "length out = 128"
  shows "vireo_password_encode m t salt tag out len =
    (VIREO_OK, mem_write 0 (password_text m t salt tag @ [CHR 0x00]) out, word_of_nat (length (password_text m t salt tag)))"
  using password_text_length [OF assms(1,2), of m t] by (simp add: vireo_password_encode_def Let_def)

subsection \<open>A policy and a runtime to try\<close>

definition demo_policy :: vireo_password_policy where
  "demo_policy = \<lparr>pp_create_memory_kib = 65536, pp_create_iterations = 3, pp_max_verify_memory_kib = 262144, pp_max_verify_iterations = 10,
     pp_max_password_bytes = 1024\<rparr>"

definition demo_runtime :: vireo_password_runtime where
  "demo_runtime = \<lparr>pt_random_bytes = (\<lambda>n. (1, replicate n 7)), pt_derive = (\<lambda>p s m t. (VIREO_OK, take 32 (p @ replicate 32 0)))\<rparr>"

subsection \<open>Guarantees\<close>

text \<open>
  C21. Reading a password record is exact. A text is accepted by the reader, or refused only for its costs, exactly if it is the text the
  writer produces for some costs, salt and tag; salt, tag and costs of the result are then those values, whatever the caller's
  arrays held before, and the cost limits of the policy decide between success and a range error. Every other text is a protocol error. So a
  record has one spelling only: no leading zeros, no other alphabet, no stray padding bits.
\<close>

theorem password_parse_exact:
  assumes "length (pr_salt record) = 16" and "length (pr_tag record) = 32" and "length salt = 16" and "length tag = 32"
  shows "(fst (vireo_password_parse policy encoded len record) = VIREO_RESULT_PROTOCOL \<longleftrightarrow>
      (\<nexists>m t salt tag. length salt = 16 \<and> length tag = 32 \<and> take (unat len) encoded = password_text m t salt tag)) \<and>
    (take (unat len) encoded = password_text m t salt tag \<longrightarrow> vireo_password_parse policy encoded len record =
      (if policy_allows policy m t
       then (VIREO_OK, \<lparr>pr_info = \<lparr>pi_version = 19, pi_memory_kib = m, pi_iterations = t, pi_parallelism = 1, pi_encoded_length = len\<rparr>,
         pr_salt = salt, pr_tag = tag\<rparr>)
       else (VIREO_RESULT_RANGE, record\<lparr>pr_salt := salt, pr_tag := tag\<rparr>)))"
proof (intro conjI iffI impI)
  assume "fst (vireo_password_parse policy encoded len record) = VIREO_RESULT_PROTOCOL"
  then show "\<nexists>m t salt tag. length salt = 16 \<and> length tag = 32 \<and> take (unat len) encoded = password_text m t salt tag"
    using parse_text [of len encoded _ _ _ _ "record" policy] assms(1,2) by (auto split: if_splits)
next
  assume "\<nexists>m t salt tag. length salt = 16 \<and> length tag = 32 \<and> take (unat len) encoded = password_text m t salt tag"
  then show "fst (vireo_password_parse policy encoded len record) = VIREO_RESULT_PROTOCOL"
    using parse_accepts [of policy encoded len "record"] assms(1,2) by (metis prod.collapse)
qed (rule parse_text [OF _ assms(3,4,1,2)])

theorem password_parse_exact_witness:
  "vireo_password_parse demo_policy (password_text 65536 3 (replicate 16 1) (replicate 32 2))
     (word_of_nat (length (password_text 65536 3 (replicate 16 1) (replicate 32 2)))) zero_record =
   (VIREO_OK, \<lparr>pr_info = \<lparr>pi_version = 19, pi_memory_kib = 65536, pi_iterations = 3, pi_parallelism = 1,
       pi_encoded_length = word_of_nat (length (password_text 65536 3 (replicate 16 1) (replicate 32 2)))\<rparr>,
     pr_salt = replicate 16 1, pr_tag = replicate 32 2\<rparr>)"
proof -
  have l: "length (pr_salt zero_record) = 16" "length (pr_tag zero_record) = 32" "length (replicate 16 (1 :: u8)) = 16"
    "length (replicate 32 (2 :: u8)) = 32" by (simp_all add: zero_record_def)
  let ?text = "password_text 65536 3 (replicate 16 1) (replicate 32 2)"
  have "unat (word_of_nat (length ?text) :: size_t) = length ?text"
    using password_text_length(1) [OF l(3,4), of 65536 3] by (simp add: unsigned_of_nat take_bit_nat_eq_self)
  then have tk: "take (unat (word_of_nat (length ?text) :: size_t)) ?text = ?text" by simp
  have allow: "policy_allows demo_policy 65536 3" by (simp add: demo_policy_def)
  show ?thesis using password_parse_exact [OF l, of demo_policy ?text "word_of_nat (length ?text)" 65536 3] unfolding tk if_P [OF allow] by blast
qed

text \<open>
  C22. Creating and verifying passwords. For any derivation function that yields 32-byte tags and any random source: when creation succeeds, it
  wrote a text with a terminating zero into the caller's array, left the bytes behind it alone and reported its length; and verifying any
  password against it derives a tag with the same salt and costs and reports whether the two tags are equal. In particular
  the password itself is accepted, whatever policy is in force at that time, as long as it still covers the costs.
\<close>

theorem password_create_verify:
  assumes create: "vireo_password_create_with_runtime (Some policy) (Some password) len (Some encoded) capacity (Some old) (Some runtime) =
      (VIREO_OK, Some encoded', Some len')"
    and random: "length (snd (pt_random_bytes runtime 16)) = 16" and tags: "\<And>p s m t. length (snd (pt_derive runtime p s m t)) = 32"
    and array: "unat capacity \<le> length encoded"
    and policy': "vireo_password_policy_valid (Some policy')"
      "pp_create_memory_kib policy \<le> pp_max_verify_memory_kib policy'" "pp_create_iterations policy \<le> pp_max_verify_iterations policy'"
    and other: "other_len \<noteq> 0" "other_len \<le> pp_max_password_bytes policy'"
  shows "length encoded' = length encoded \<and> unat len' < 128 \<and> encoded' ! unat len' = CHR 0x00 \<and>
    drop (Suc (unat len')) encoded' = drop (Suc (unat len')) encoded \<and>
    vireo_password_verify_with_runtime (Some policy') (Some other) other_len (Some encoded') len' (Some False) (Some runtime) =
      (let salt = snd (pt_random_bytes runtime 16);
           tag = snd (pt_derive runtime (take (unat len) password) salt (pp_create_memory_kib policy) (pp_create_iterations policy));
           (rc, tag') = pt_derive runtime (take (unat other_len) other) salt (pp_create_memory_kib policy) (pp_create_iterations policy) in
       if rc = VIREO_OK then (VIREO_OK, Some (tag' = tag)) else (rc, Some False))"
proof -
  define m t where mt: "m = pp_create_memory_kib policy" "t = pp_create_iterations policy"
  obtain st salt rc tag where r: "pt_random_bytes runtime 16 = (st, salt)" "pt_derive runtime (take (unat len) password) salt m t = (rc, tag)"
    by (metis surj_pair)
  have l: "length salt = 16" "length tag = 32" using random tags [of "take (unat len) password" salt m t] r by simp_all
  let ?text = "password_text m t salt tag"
  have valid: "vireo_password_policy_valid (Some policy)" and cap: "128 \<le> capacity" and ok: "st = 1" "rc = VIREO_OK"
    using create r by (auto simp: vireo_password_create_with_runtime_def mt [symmetric] Let_def not_less split: if_splits prod.splits)
  have n: "0 < length ?text" "length ?text \<le> 111" using password_text_length [OF l] by simp_all
  have un: "unat (word_of_nat (length ?text) :: size_t) = length ?text" using n by (simp add: unsigned_of_nat take_bit_nat_eq_self)
  have e: "encoded' = mem_write 0 (?text @ [CHR 0x00]) encoded" "len' = word_of_nat (length ?text)"
    using create r ok encode_text [OF l, of "replicate 128 (CHR 0x00)" m t 0] un n
    by (simp_all add: vireo_password_create_with_runtime_def mt [symmetric] Let_def mem_write_def split: if_splits)
  have room: "Suc (length ?text) \<le> length encoded" using array cap n by (simp add: word_le_nat_alt)
  have tk: "take (unat len') encoded' = ?text" using e un by (simp add: mem_write_def)
  have allow: "policy_allows policy' m t"
    using valid policy' by (simp add: vireo_password_policy_valid_def mt word_le_nat_alt)
  have len': "len' \<noteq> 0" "\<not> 128 \<le> len'" using e(2) un n by (auto simp: word_le_nat_alt)
  have ol: "\<not> pp_max_password_bytes policy' < other_len" using other(2) by simp
  note parse = parse_text [OF tk l, of zero_record policy']
  have "vireo_password_verify_with_runtime (Some policy') (Some other) other_len (Some encoded') len' (Some False) (Some runtime) =
      (let (rc, tag') = pt_derive runtime (take (unat other_len) other) salt m t in
       if rc = VIREO_OK then (VIREO_OK, Some (tag' = tag)) else (rc, Some False))"
    using policy'(1) other(1) ol len' parse allow
    by (simp add: vireo_password_verify_with_runtime_def zero_record_def Let_def case_prod_beta)
  moreover have "length encoded' = length encoded" "unat len' < 128" "encoded' ! unat len' = CHR 0x00"
      "drop (Suc (unat len')) encoded' = drop (Suc (unat len')) encoded"
    using e un room n by (simp_all add: mem_write_def nth_append)
  ultimately show ?thesis unfolding mt [symmetric] r snd_conv Let_def by blast
qed

theorem password_create_verify_witness:
  "\<exists>e n. vireo_password_create_with_runtime (Some demo_policy) (Some [1, 2]) 2 (Some (replicate 128 (CHR ''x''))) 128 (Some 0) (Some demo_runtime) =
      (VIREO_OK, Some e, Some n) \<and>
    vireo_password_verify_with_runtime (Some demo_policy) (Some [1, 2]) 2 (Some e) n (Some False) (Some demo_runtime) = (VIREO_OK, Some True) \<and>
    vireo_password_verify_with_runtime (Some demo_policy) (Some [1, 3]) 2 (Some e) n (Some False) (Some demo_runtime) = (VIREO_OK, Some False)"
proof -
  have valid: "vireo_password_policy_valid (Some demo_policy)" by (simp add: vireo_password_policy_valid_def demo_policy_def)
  have l: "length (replicate 16 7 :: bytes) = 16" "length (take 32 ([1, 2] @ replicate 32 0) :: bytes) = 32" by simp_all
  obtain e n where c: "vireo_password_create_with_runtime (Some demo_policy) (Some [1, 2]) 2 (Some (replicate 128 (CHR ''x''))) 128 (Some 0)
      (Some demo_runtime) = (VIREO_OK, Some e, Some n)"
    using valid encode_text [OF l, of "replicate 128 (CHR 0x00)" 65536 3 0]
    by (simp add: vireo_password_create_with_runtime_def demo_policy_def demo_runtime_def del: take_append)
  have h: "length (snd (pt_random_bytes demo_runtime 16)) = 16" "length (snd (pt_derive demo_runtime p s m t)) = 32"
    "unat (128 :: size_t) \<le> length (replicate 128 (CHR ''x''))"
    "pp_create_memory_kib demo_policy \<le> pp_max_verify_memory_kib demo_policy" "pp_create_iterations demo_policy \<le> pp_max_verify_iterations demo_policy"
    "(2 :: size_t) \<noteq> 0" "2 \<le> pp_max_password_bytes demo_policy" for p s m t
    by (simp_all add: demo_runtime_def demo_policy_def)
  note v = password_create_verify [OF c h(1,2,3) valid h(4-7)]
  show ?thesis using c v [of "[1, 2]"] v [of "[1, 3]"] by (auto simp: demo_runtime_def)
qed

end
