(* ===== verification/Thread_Task_Objects.thy ===== *)
theory Thread_Task_Objects
  imports Base_Memory Protocol_Registry
begin

text \<open>
  Tasks, completions and shared cancellation: \<^verbatim>\<open>src/thread/task_route.c\<close>, \<^verbatim>\<open>task_metadata.c\<close>, \<^verbatim>\<open>task_cancel.c\<close>,
  \<^verbatim>\<open>task.c\<close>, \<^verbatim>\<open>completion_metadata.c\<close> and \<^verbatim>\<open>completion.c\<close>. A task or completion has one owner and is a value. A cancellation
  object is shared: it lives in a table from block numbers to objects, and a reference is the block number. Atomic accesses are
  single steps; \<open>races\<close> lists the counts that failed compare-and-exchange attempts of a retain observed.
\<close>

subsection \<open>Routes and metadata\<close>

record vireo_task_route =
  rt_client_owner_id :: u64
  rt_client_slot_index :: size_t
  rt_client_generation :: u64
  rt_request_sequence :: u32

definition route_has_valid_shape :: "vireo_task_route \<Rightarrow> bool" where
  "route_has_valid_shape route =
     (let empty = (rt_client_owner_id route = 0 \<and> rt_client_slot_index route = 0 \<and> rt_client_generation route = 0 \<and>
            rt_request_sequence route = 0);
          nonempty = (rt_client_owner_id route \<noteq> 0 \<and> rt_client_generation route \<noteq> 0 \<and> rt_request_sequence route \<noteq> 0) in
      empty \<or> nonempty)"

definition vireo_task_route_make ::
  "u64 \<Rightarrow> size_t \<Rightarrow> u64 \<Rightarrow> u32 \<Rightarrow> vireo_task_route option \<Rightarrow> vireo_result \<times> vireo_task_route option" where
  "vireo_task_route_make client_owner_id client_slot_index client_generation request_sequence out_route =
     (if out_route = None \<or> client_owner_id = 0 \<or> client_generation = 0 \<or> request_sequence = 0
      then (VIREO_RESULT_INVALID_ARGUMENT, out_route)
      else (VIREO_OK, Some \<lparr>rt_client_owner_id = client_owner_id, rt_client_slot_index = client_slot_index,
        rt_client_generation = client_generation, rt_request_sequence = request_sequence\<rparr>))"

definition vireo_task_route_is_empty :: "vireo_task_route \<Rightarrow> bool option \<Rightarrow> vireo_result \<times> bool option" where
  "vireo_task_route_is_empty route out_empty =
     (if out_empty = None \<or> \<not> route_has_valid_shape route then (VIREO_RESULT_INVALID_ARGUMENT, out_empty)
      else (VIREO_OK, Some (rt_client_owner_id route = 0)))"

definition vireo_task_route_equal :: "vireo_task_route \<Rightarrow> vireo_task_route \<Rightarrow> bool option \<Rightarrow> vireo_result \<times> bool option" where
  "vireo_task_route_equal left right out_equal =
     (if out_equal = None \<or> \<not> route_has_valid_shape left \<or> \<not> route_has_valid_shape right
      then (VIREO_RESULT_INVALID_ARGUMENT, out_equal)
      else (VIREO_OK, Some (rt_client_owner_id left = rt_client_owner_id right \<and> rt_client_slot_index left = rt_client_slot_index right \<and>
        rt_client_generation left = rt_client_generation right \<and> rt_request_sequence left = rt_request_sequence right)))"

record vireo_task_metadata =
  md_route :: vireo_task_route
  md_request_instance_id :: u64
  md_operation :: u32
  md_deadline_ns :: u64

definition metadata_has_valid_shape :: "vireo_task_metadata \<Rightarrow> bool" where
  "metadata_has_valid_shape metadata =
     (let (result, empty) = vireo_task_route_is_empty (md_route metadata) (Some False) in
      result = VIREO_OK \<and> empty = Some False \<and> md_request_instance_id metadata \<noteq> 0 \<and> md_operation metadata \<noteq> 0)"

definition vireo_task_metadata_make ::
  "vireo_task_route \<Rightarrow> u64 \<Rightarrow> u32 \<Rightarrow> u64 \<Rightarrow> vireo_task_metadata option \<Rightarrow> vireo_result \<times> vireo_task_metadata option" where
  "vireo_task_metadata_make route request_instance_id operation deadline_ns out_metadata =
     (if out_metadata = None then (VIREO_RESULT_INVALID_ARGUMENT, out_metadata)
      else
        let v = \<lparr>md_route = route, md_request_instance_id = request_instance_id, md_operation = operation, md_deadline_ns = deadline_ns\<rparr> in
        if \<not> metadata_has_valid_shape v then (VIREO_RESULT_INVALID_ARGUMENT, out_metadata) else (VIREO_OK, Some v))"

definition vireo_task_metadata_deadline_expired :: "vireo_task_metadata \<Rightarrow> u64 \<Rightarrow> bool option \<Rightarrow> vireo_result \<times> bool option" where
  "vireo_task_metadata_deadline_expired metadata now_ns out_expired =
     (if out_expired = None \<or> \<not> metadata_has_valid_shape metadata then (VIREO_RESULT_INVALID_ARGUMENT, out_expired)
      else (VIREO_OK, Some (now_ns \<ge> md_deadline_ns metadata)))"

definition vireo_task_metadata_same_request ::
  "vireo_task_metadata \<Rightarrow> vireo_task_metadata \<Rightarrow> bool option \<Rightarrow> vireo_result \<times> bool option" where
  "vireo_task_metadata_same_request left right out_same =
     (if out_same = None \<or> \<not> metadata_has_valid_shape left \<or> \<not> metadata_has_valid_shape right
      then (VIREO_RESULT_INVALID_ARGUMENT, out_same)
      else
        let (result, same_route) = vireo_task_route_equal (md_route left) (md_route right) (Some False) in
        if result \<noteq> VIREO_OK then (result, out_same)
        else (VIREO_OK, Some (the same_route \<and> md_request_instance_id left = md_request_instance_id right)))"

text \<open>Completion metadata; its result is an enumeration value that may be undefined, hence a number.\<close>

record vireo_completion_metadata =
  cm_request :: vireo_task_metadata
  cm_result :: int
  cm_suggested_status :: u16

definition result_is_defined :: "int \<Rightarrow> bool" where
  "result_is_defined result \<longleftrightarrow> result \<in> set (map vireo_result_code
     [VIREO_OK, VIREO_RESULT_INVALID_ARGUMENT, VIREO_RESULT_RANGE, VIREO_RESULT_OVERFLOW, VIREO_RESULT_NO_MEMORY,
      VIREO_RESULT_NOT_FOUND, VIREO_RESULT_BUSY, VIREO_RESULT_TIMEOUT, VIREO_RESULT_CANCELLED, VIREO_RESULT_IO, VIREO_RESULT_PROTOCOL,
      VIREO_RESULT_DATABASE, VIREO_RESULT_INTERNAL])"

definition completion_has_valid_shape :: "vireo_completion_metadata \<Rightarrow> bool" where
  "completion_has_valid_shape metadata =
     (let (result, same) = vireo_task_metadata_same_request (cm_request metadata) (cm_request metadata) (Some False) in
      result = VIREO_OK \<and> the same \<and> result_is_defined (cm_result metadata) \<and> vireo_status_is_known (cm_suggested_status metadata))"

definition vireo_completion_metadata_make ::
  "vireo_task_metadata \<Rightarrow> int \<Rightarrow> u16 \<Rightarrow> vireo_completion_metadata option \<Rightarrow> vireo_result \<times> vireo_completion_metadata option" where
  "vireo_completion_metadata_make request result suggested_status out_metadata =
     (if out_metadata = None then (VIREO_RESULT_INVALID_ARGUMENT, out_metadata)
      else
        let v = \<lparr>cm_request = request, cm_result = result, cm_suggested_status = suggested_status\<rparr> in
        if \<not> completion_has_valid_shape v then (VIREO_RESULT_INVALID_ARGUMENT, out_metadata) else (VIREO_OK, Some v))"

definition vireo_completion_metadata_same_request ::
  "vireo_completion_metadata \<Rightarrow> vireo_completion_metadata \<Rightarrow> bool option \<Rightarrow> vireo_result \<times> bool option" where
  "vireo_completion_metadata_same_request left right out_same =
     (if out_same = None \<or> \<not> completion_has_valid_shape left \<or> \<not> completion_has_valid_shape right
      then (VIREO_RESULT_INVALID_ARGUMENT, out_same)
      else vireo_task_metadata_same_request (cm_request left) (cm_request right) out_same)"

definition vireo_completion_metadata_deadline_expired ::
  "vireo_completion_metadata \<Rightarrow> u64 \<Rightarrow> bool option \<Rightarrow> vireo_result \<times> bool option" where
  "vireo_completion_metadata_deadline_expired metadata now_ns out_expired =
     (if out_expired = None \<or> \<not> completion_has_valid_shape metadata then (VIREO_RESULT_INVALID_ARGUMENT, out_expired)
      else vireo_task_metadata_deadline_expired (cm_request metadata) now_ns out_expired)"

subsection \<open>Shared cancellation\<close>

abbreviation VIREO_TASK_CANCEL_MAX_ALLOCATION_BYTES :: size_t where "VIREO_TASK_CANCEL_MAX_ALLOCATION_BYTES \<equiv> 67108864"
abbreviation sizeof_task_cancel :: size_t where "sizeof_task_cancel \<equiv> 40"

text \<open>An allocator table says which of its callbacks are set.\<close>

record vireo_task_allocator =
  ta_allocate :: bool
  ta_deallocate :: bool

abbreviation allocator_usable :: "vireo_task_allocator option \<Rightarrow> bool" where
  "allocator_usable allocator \<equiv> allocator \<noteq> None \<and> ta_allocate (the allocator) \<and> ta_deallocate (the allocator)"

definition standard_allocator :: vireo_task_allocator where
  "standard_allocator = \<lparr>ta_allocate = True, ta_deallocate = True\<rparr>"

record vireo_task_cancel =
  tc_references :: u64
  tc_requested :: bool

record task_env =
  te_heap :: vireo_heap
  te_cancels :: "(nat \<times> vireo_task_cancel) list"

text \<open>The object behind a reference, and writing it.\<close>

definition cancel_at :: "nat \<Rightarrow> task_env \<Rightarrow> vireo_task_cancel" where
  "cancel_at a env = the (map_of (te_cancels env) a)"

definition set_cancel :: "nat \<Rightarrow> vireo_task_cancel \<Rightarrow> task_env \<Rightarrow> task_env" where
  "set_cancel a c env = env\<lparr>te_cancels := map (\<lambda>(b, d). if b = a then (b, c) else (b, d)) (te_cancels env)\<rparr>"

definition vireo_task_cancel_create_with_allocator ::
  "size_t \<Rightarrow> vireo_task_allocator option \<Rightarrow> nat option option \<Rightarrow> task_env \<Rightarrow> vireo_result \<times> nat option option \<times> task_env" where
  "vireo_task_cancel_create_with_allocator allocation_budget allocator out_cancel env =
     (if out_cancel = None \<or> the out_cancel \<noteq> None \<or> allocation_budget = 0 \<or> \<not> allocator_usable allocator
      then (VIREO_RESULT_INVALID_ARGUMENT, out_cancel, env)
      else if allocation_budget > VIREO_TASK_CANCEL_MAX_ALLOCATION_BYTES \<or> allocation_budget < sizeof_task_cancel
      then (VIREO_RESULT_RANGE, out_cancel, env)
      else
        case allocate_default (te_heap env) sizeof_task_cancel of
          (None, heap) \<Rightarrow> (VIREO_RESULT_NO_MEMORY, out_cancel, env\<lparr>te_heap := heap\<rparr>)
        | (Some cancel, heap) \<Rightarrow>
            (VIREO_OK, Some (Some cancel), env\<lparr>te_heap := heap,
               te_cancels := (cancel, \<lparr>tc_references = 1, tc_requested = False\<rparr>) # te_cancels env\<rparr>))"

definition vireo_task_cancel_create where
  "vireo_task_cancel_create allocation_budget out_cancel env =
     vireo_task_cancel_create_with_allocator allocation_budget (Some standard_allocator) out_cancel env"

fun retain_loop :: "u64 list \<Rightarrow> u64 \<Rightarrow> vireo_result \<times> u64" where
  "retain_loop [] count = (if count = UINT64_MAX then (VIREO_RESULT_OVERFLOW, count) else (VIREO_OK, count + 1))"
| "retain_loop (seen # races) count = (if seen = UINT64_MAX then (VIREO_RESULT_OVERFLOW, count) else retain_loop races count)"

definition vireo_task_cancel_retain ::
  "nat option \<Rightarrow> nat option option \<Rightarrow> u64 list \<Rightarrow> task_env \<Rightarrow> vireo_result \<times> nat option option \<times> task_env" where
  "vireo_task_cancel_retain cancel out_cancel races env =
     (if cancel = None \<or> out_cancel = None \<or> the out_cancel \<noteq> None then (VIREO_RESULT_INVALID_ARGUMENT, out_cancel, env)
      else
        let c = cancel_at (the cancel) env; (result, count) = retain_loop races (tc_references c) in
        if result \<noteq> VIREO_OK then (result, out_cancel, env)
        else (VIREO_OK, Some cancel, set_cancel (the cancel) (c\<lparr>tc_references := count\<rparr>) env))"

definition vireo_task_cancel_request :: "nat option \<Rightarrow> task_env \<Rightarrow> vireo_result \<times> task_env" where
  "vireo_task_cancel_request cancel env =
     (case cancel of None \<Rightarrow> (VIREO_RESULT_INVALID_ARGUMENT, env)
      | Some a \<Rightarrow> (VIREO_OK, set_cancel a ((cancel_at a env)\<lparr>tc_requested := True\<rparr>) env))"

definition vireo_task_cancel_is_requested :: "nat option \<Rightarrow> bool option \<Rightarrow> task_env \<Rightarrow> vireo_result \<times> bool option" where
  "vireo_task_cancel_is_requested cancel out_requested env =
     (if cancel = None \<or> out_requested = None then (VIREO_RESULT_INVALID_ARGUMENT, out_requested)
      else (VIREO_OK, Some (tc_requested (cancel_at (the cancel) env))))"

text \<open>Moving an owner; \<open>same\<close> says that source and destination are one variable.\<close>

definition vireo_task_cancel_move ::
  "bool \<Rightarrow> nat option option \<Rightarrow> nat option option \<Rightarrow> vireo_result \<times> nat option option \<times> nat option option" where
  "vireo_task_cancel_move same source destination =
     (if source = None \<or> destination = None \<or> same \<or> the destination \<noteq> None then (VIREO_RESULT_INVALID_ARGUMENT, source, destination)
      else if the source = None then (VIREO_RESULT_NOT_FOUND, source, destination)
      else (VIREO_OK, Some None, source))"

definition vireo_task_cancel_destroy :: "nat option option \<Rightarrow> task_env \<Rightarrow> vireo_result \<times> nat option option \<times> task_env" where
  "vireo_task_cancel_destroy owner env =
     (case owner of None \<Rightarrow> (VIREO_RESULT_INVALID_ARGUMENT, owner, env)
      | Some None \<Rightarrow> (VIREO_OK, Some None, env)
      | Some (Some cancel) \<Rightarrow>
          let c = cancel_at cancel env; previous = tc_references c;
              env = set_cancel cancel (c\<lparr>tc_references := previous - 1\<rparr>) env;
              env = (if previous = 1
                then env\<lparr>te_heap := deallocate_default (te_heap env) cancel [], te_cancels := filter (\<lambda>(b, d). b \<noteq> cancel) (te_cancels env)\<rparr>
                else env) in
          (VIREO_OK, Some None, env))"

subsection \<open>Tasks\<close>

abbreviation VIREO_TASK_MAX_ALLOCATION_BYTES :: size_t where "VIREO_TASK_MAX_ALLOCATION_BYTES \<equiv> 67108864"
abbreviation sizeof_task :: size_t where "sizeof_task \<equiv> 104"

record vireo_task =
  tk_metadata :: vireo_task_metadata
  tk_payload_size :: size_t
  tk_allocated_bytes :: size_t
  tk_cancel :: "nat option"
  tk_payload :: bytes
  tk_self :: nat

record vireo_task_info =
  ti_metadata :: vireo_task_metadata
  ti_payload_size :: size_t
  ti_allocated_bytes :: size_t

record vireo_task_payload_view =
  tv_data :: "bytes option"
  tv_size :: size_t

definition create_copy ::
  "vireo_task_metadata \<Rightarrow> bytes option \<Rightarrow> size_t \<Rightarrow> size_t \<Rightarrow> nat option \<Rightarrow> vireo_task_allocator option \<Rightarrow> vireo_task option option \<Rightarrow>
   u64 list \<Rightarrow> task_env \<Rightarrow> vireo_result \<times> vireo_task option option \<times> task_env" where
  "create_copy metadata data payload_size allocation_budget cancel allocator out_task races env =
     (if out_task = None \<or> the out_task \<noteq> None \<or> allocation_budget = 0 \<or> (payload_size \<noteq> 0 \<and> data = None) \<or> \<not> allocator_usable allocator
      then (VIREO_RESULT_INVALID_ARGUMENT, out_task, env)
      else
        let (result, ignored_expired) = vireo_task_metadata_deadline_expired metadata 0 (Some False) in
        if result \<noteq> VIREO_OK then (result, out_task, env)
        else
          let (result, sz) = vireo_checked_size_add sizeof_task payload_size (Some 0) in
          if result \<noteq> VIREO_OK then (result, out_task, env)
          else if allocation_budget > VIREO_TASK_MAX_ALLOCATION_BYTES \<or> the sz > allocation_budget
          then (VIREO_RESULT_RANGE, out_task, env)
          else
            let (result, held_cancel, env) =
                  (if cancel \<noteq> None then vireo_task_cancel_retain cancel (Some None) races env else (VIREO_OK, Some None, env)) in
            if result \<noteq> VIREO_OK then (result, out_task, env)
            else
              let (memory, heap) = allocate_default (te_heap env) (the sz); env = env\<lparr>te_heap := heap\<rparr> in
              case memory of
                None \<Rightarrow>
                  let (result, held_cancel, env) = vireo_task_cancel_destroy held_cancel env in
                  (if result = VIREO_OK then VIREO_RESULT_NO_MEMORY else result, out_task, env)
              | Some self \<Rightarrow>
                  (VIREO_OK, Some (Some \<lparr>tk_metadata = metadata, tk_payload_size = payload_size, tk_allocated_bytes = the sz,
                     tk_cancel = the held_cancel, tk_payload = (if payload_size \<noteq> 0 then take (unat payload_size) (the data) else []),
                     tk_self = self\<rparr>), env))"

definition vireo_task_create_copy_with_allocator where
  "vireo_task_create_copy_with_allocator metadata data payload_size allocation_budget allocator out_task races env =
     create_copy metadata data payload_size allocation_budget None allocator out_task races env"

definition vireo_task_create_copy_with_cancel_and_allocator where
  "vireo_task_create_copy_with_cancel_and_allocator metadata data payload_size allocation_budget cancel allocator out_task races env =
     (if cancel = None then (VIREO_RESULT_INVALID_ARGUMENT, out_task, env)
      else create_copy metadata data payload_size allocation_budget cancel allocator out_task races env)"

definition vireo_task_create_copy where
  "vireo_task_create_copy metadata data payload_size allocation_budget out_task races env =
     vireo_task_create_copy_with_allocator metadata data payload_size allocation_budget (Some standard_allocator) out_task races env"

definition vireo_task_create_copy_with_cancel where
  "vireo_task_create_copy_with_cancel metadata data payload_size allocation_budget cancel out_task races env =
     vireo_task_create_copy_with_cancel_and_allocator metadata data payload_size allocation_budget cancel (Some standard_allocator)
       out_task races env"

definition vireo_task_is_cancel_requested :: "vireo_task option \<Rightarrow> bool option \<Rightarrow> task_env \<Rightarrow> vireo_result \<times> bool option" where
  "vireo_task_is_cancel_requested task out_requested env =
     (if task = None \<or> out_requested = None then (VIREO_RESULT_INVALID_ARGUMENT, out_requested)
      else if tk_cancel (the task) = None then (VIREO_OK, Some False)
      else vireo_task_cancel_is_requested (tk_cancel (the task)) out_requested env)"

definition vireo_task_retain_cancel ::
  "vireo_task option \<Rightarrow> nat option option \<Rightarrow> u64 list \<Rightarrow> task_env \<Rightarrow> vireo_result \<times> nat option option \<times> task_env" where
  "vireo_task_retain_cancel task out_cancel races env =
     (if task = None \<or> out_cancel = None \<or> the out_cancel \<noteq> None then (VIREO_RESULT_INVALID_ARGUMENT, out_cancel, env)
      else if tk_cancel (the task) = None then (VIREO_RESULT_NOT_FOUND, out_cancel, env)
      else vireo_task_cancel_retain (tk_cancel (the task)) out_cancel races env)"

definition vireo_task_inspect :: "vireo_task option \<Rightarrow> vireo_task_info option \<Rightarrow> vireo_result \<times> vireo_task_info option" where
  "vireo_task_inspect task out_info =
     (if task = None \<or> out_info = None then (VIREO_RESULT_INVALID_ARGUMENT, out_info)
      else (VIREO_OK, Some \<lparr>ti_metadata = tk_metadata (the task), ti_payload_size = tk_payload_size (the task),
        ti_allocated_bytes = tk_allocated_bytes (the task)\<rparr>))"

definition vireo_task_borrow_payload ::
  "vireo_task option \<Rightarrow> vireo_task_payload_view option \<Rightarrow> vireo_result \<times> vireo_task_payload_view option" where
  "vireo_task_borrow_payload task out_view =
     (if task = None \<or> out_view = None then (VIREO_RESULT_INVALID_ARGUMENT, out_view)
      else (VIREO_OK, Some \<lparr>tv_data = (if tk_payload_size (the task) \<noteq> 0 then Some (tk_payload (the task)) else None),
        tv_size = tk_payload_size (the task)\<rparr>))"

definition vireo_task_move ::
  "bool \<Rightarrow> vireo_task option option \<Rightarrow> vireo_task option option \<Rightarrow> vireo_result \<times> vireo_task option option \<times> vireo_task option option" where
  "vireo_task_move same source destination =
     (if source = None \<or> destination = None \<or> same \<or> the destination \<noteq> None then (VIREO_RESULT_INVALID_ARGUMENT, source, destination)
      else if the source = None then (VIREO_RESULT_NOT_FOUND, source, destination)
      else (VIREO_OK, Some None, source))"

text \<open>
  The whole block is erased before it is released; the bytes of its control part, whose layout is not modelled, count as the
  allocator's fill byte.
\<close>

definition vireo_task_destroy :: "vireo_task option option \<Rightarrow> task_env \<Rightarrow> vireo_result \<times> vireo_task option option \<times> task_env" where
  "vireo_task_destroy owner env =
     (case owner of None \<Rightarrow> (VIREO_RESULT_INVALID_ARGUMENT, owner, env)
      | Some None \<Rightarrow> (VIREO_OK, Some None, env)
      | Some (Some task) \<Rightarrow>
          let (result, cancel, env) = vireo_task_cancel_destroy (Some (tk_cancel task)) env in
          if result \<noteq> VIREO_OK then (result, Some (Some (task\<lparr>tk_cancel := the cancel\<rparr>)), env)
          else
            let memory = fresh_bytes (te_heap env) sizeof_task @ tk_payload task; memory = clear_at 0 (tk_allocated_bytes task) memory in
            (VIREO_OK, Some None, env\<lparr>te_heap := deallocate_default (te_heap env) (tk_self task) memory\<rparr>))"

subsection \<open>Completions\<close>

abbreviation VIREO_COMPLETION_MAX_ALLOCATION_BYTES :: size_t where "VIREO_COMPLETION_MAX_ALLOCATION_BYTES \<equiv> 67108864"
abbreviation sizeof_completion :: size_t where "sizeof_completion \<equiv> 104"

record vireo_completion =
  cp_metadata :: vireo_completion_metadata
  cp_payload_size :: size_t
  cp_allocated_bytes :: size_t
  cp_payload :: bytes
  cp_self :: nat

record vireo_completion_info =
  cpi_metadata :: vireo_completion_metadata
  cpi_payload_size :: size_t
  cpi_allocated_bytes :: size_t

record vireo_completion_payload_view =
  cv_data :: "bytes option"
  cv_size :: size_t

definition vireo_completion_create_copy_with_allocator ::
  "vireo_completion_metadata \<Rightarrow> bytes option \<Rightarrow> size_t \<Rightarrow> size_t \<Rightarrow> vireo_task_allocator option \<Rightarrow> vireo_completion option option \<Rightarrow>
   vireo_heap \<Rightarrow> vireo_result \<times> vireo_completion option option \<times> vireo_heap" where
  "vireo_completion_create_copy_with_allocator metadata data payload_size allocation_budget allocator out_completion heap =
     (if out_completion = None \<or> the out_completion \<noteq> None \<or> allocation_budget = 0 \<or> (payload_size \<noteq> 0 \<and> data = None) \<or>
         \<not> allocator_usable allocator
      then (VIREO_RESULT_INVALID_ARGUMENT, out_completion, heap)
      else
        let (result, same) = vireo_completion_metadata_same_request metadata metadata (Some False) in
        if result \<noteq> VIREO_OK then (result, out_completion, heap)
        else
          let (result, allocated_bytes) = vireo_checked_size_add sizeof_completion payload_size (Some 0) in
          if result \<noteq> VIREO_OK then (result, out_completion, heap)
          else if allocation_budget > VIREO_COMPLETION_MAX_ALLOCATION_BYTES \<or> the allocated_bytes > allocation_budget
          then (VIREO_RESULT_RANGE, out_completion, heap)
          else
            case allocate_default heap (the allocated_bytes) of
              (None, heap) \<Rightarrow> (VIREO_RESULT_NO_MEMORY, out_completion, heap)
            | (Some self, heap) \<Rightarrow>
                (VIREO_OK, Some (Some \<lparr>cp_metadata = metadata, cp_payload_size = payload_size, cp_allocated_bytes = the allocated_bytes,
                   cp_payload = (if payload_size \<noteq> 0 then take (unat payload_size) (the data) else []), cp_self = self\<rparr>), heap))"

definition vireo_completion_create_copy where
  "vireo_completion_create_copy metadata data payload_size allocation_budget out_completion heap =
     vireo_completion_create_copy_with_allocator metadata data payload_size allocation_budget (Some standard_allocator) out_completion heap"

definition vireo_completion_inspect ::
  "vireo_completion option \<Rightarrow> vireo_completion_info option \<Rightarrow> vireo_result \<times> vireo_completion_info option" where
  "vireo_completion_inspect completion out_info =
     (if completion = None \<or> out_info = None then (VIREO_RESULT_INVALID_ARGUMENT, out_info)
      else (VIREO_OK, Some \<lparr>cpi_metadata = cp_metadata (the completion), cpi_payload_size = cp_payload_size (the completion),
        cpi_allocated_bytes = cp_allocated_bytes (the completion)\<rparr>))"

definition vireo_completion_borrow_payload ::
  "vireo_completion option \<Rightarrow> vireo_completion_payload_view option \<Rightarrow> vireo_result \<times> vireo_completion_payload_view option" where
  "vireo_completion_borrow_payload completion out_view =
     (if completion = None \<or> out_view = None then (VIREO_RESULT_INVALID_ARGUMENT, out_view)
      else (VIREO_OK, Some \<lparr>cv_data = (if cp_payload_size (the completion) = 0 then None else Some (cp_payload (the completion))),
        cv_size = cp_payload_size (the completion)\<rparr>))"

definition vireo_completion_move ::
  "bool \<Rightarrow> vireo_completion option option \<Rightarrow> vireo_completion option option \<Rightarrow>
   vireo_result \<times> vireo_completion option option \<times> vireo_completion option option" where
  "vireo_completion_move same source destination =
     (if source = None \<or> destination = None \<or> same \<or> the destination \<noteq> None then (VIREO_RESULT_INVALID_ARGUMENT, source, destination)
      else if the source = None then (VIREO_RESULT_NOT_FOUND, source, destination)
      else (VIREO_OK, Some None, source))"

definition vireo_completion_destroy ::
  "vireo_completion option option \<Rightarrow> vireo_heap \<Rightarrow> vireo_result \<times> vireo_completion option option \<times> vireo_heap" where
  "vireo_completion_destroy owner heap =
     (case owner of None \<Rightarrow> (VIREO_RESULT_INVALID_ARGUMENT, owner, heap)
      | Some None \<Rightarrow> (VIREO_OK, Some None, heap)
      | Some (Some completion) \<Rightarrow>
          let memory = fresh_bytes heap sizeof_completion @ cp_payload completion;
              memory = clear_at 0 (cp_allocated_bytes completion) memory in
          (VIREO_OK, Some None, deallocate_default heap (cp_self completion) memory))"

end
