(* ===== verification/Net_Inflight.thy ===== *)
theory Net_Inflight
  imports Thread_Task_Objects Thread_Task_Queue Thread_Completion_Queue Net_Connection
begin

text \<open>
  Requests in flight: \<^verbatim>\<open>src/net/inflight.c\<close>, \<^verbatim>\<open>inflight_instance.c\<close> (request identities), \<^verbatim>\<open>inflight_store.c\<close>, \<^verbatim>\<open>inflight_store_records.c\<close>
  (the fixed table of requests whose completion is awaited), \<^verbatim>\<open>inflight_submit.c\<close> (register, then submit to the worker pool),
  \<^verbatim>\<open>inflight_completion.c\<close>, \<^verbatim>\<open>inflight_completion_consume.c\<close>, \<^verbatim>\<open>inflight_completion_drain.c\<close> (match, deliver and end requests) and
  \<^verbatim>\<open>inflight_client_cleanup.c\<close> (cancel all requests of a client). The two read-only queries to the server object are the fields of
  \<open>vireo_tcp_server\<close>; the delivery callback is an argument that acts on a context of its own.
\<close>

subsection \<open>Request identities\<close>

datatype vireo_inflight_stage = VIREO_INFLIGHT_NONE | VIREO_INFLIGHT_CHECK_CLIENT | VIREO_INFLIGHT_MAKE_ROUTE | VIREO_INFLIGHT_MAKE_METADATA |
  VIREO_INFLIGHT_CHECK_METADATA | VIREO_INFLIGHT_CHECK_SERVER | VIREO_INFLIGHT_CHECK_RECORD | VIREO_INFLIGHT_ISSUE_INSTANCE |
  VIREO_INFLIGHT_RETAIN_CANCEL | VIREO_INFLIGHT_RELEASE_CANCEL | VIREO_INFLIGHT_CHECK_COMPLETION | VIREO_INFLIGHT_MATCH_RECORD

record vireo_connection_pool_lease =
  cl_pool_id :: u64
  cl_slot_index :: size_t
  cl_generation :: u64

text \<open>What \<^verbatim>\<open>vireo_tcp_server_client_inspect\<close> (result and close state) and \<^verbatim>\<open>vireo_tcp_server_inspect\<close> (result and stop request) answer.\<close>

record vireo_tcp_server =
  sv_client_inspect :: "vireo_connection_pool_lease \<Rightarrow> vireo_result \<times> vireo_connection_close_state"
  sv_inspect :: "vireo_result \<times> bool"

definition no_route :: vireo_task_route where
  "no_route = \<lparr>rt_client_owner_id = 0, rt_client_slot_index = 0, rt_client_generation = 0, rt_request_sequence = 0\<rparr>"

definition no_metadata :: vireo_task_metadata where
  "no_metadata = \<lparr>md_route = no_route, md_request_instance_id = 0, md_operation = 0, md_deadline_ns = 0\<rparr>"

text \<open>The stage is published through a pointer that may be NULL.\<close>

abbreviation publish :: "vireo_inflight_stage \<Rightarrow> vireo_inflight_stage option \<Rightarrow> vireo_inflight_stage option" where
  "publish detail stage \<equiv> map_option (\<lambda>_. detail) stage"

definition vireo_inflight_metadata_make ::
  "vireo_tcp_server option \<Rightarrow> vireo_connection_pool_lease \<Rightarrow> u32 \<Rightarrow> u64 \<Rightarrow> u32 \<Rightarrow> u64 \<Rightarrow> vireo_task_metadata option \<Rightarrow>
   vireo_inflight_stage option \<Rightarrow> vireo_result \<times> vireo_task_metadata option \<times> vireo_inflight_stage option" where
  "vireo_inflight_metadata_make server client request_sequence request_instance_id operation deadline_ns out_metadata stage =
     (let empty = (cl_pool_id client = 0 \<and> cl_slot_index client = 0 \<and> cl_generation client = 0) in
      if server = None \<or> out_metadata = None \<or> request_sequence = 0 \<or> request_instance_id = 0 \<or> operation = 0 \<or>
         (\<not> empty \<and> (cl_pool_id client = 0 \<or> cl_generation client = 0))
      then (VIREO_RESULT_INVALID_ARGUMENT, out_metadata, publish VIREO_INFLIGHT_NONE stage)
      else
        let (result, client_info) = sv_client_inspect (the server) client in
        if result \<noteq> VIREO_OK then (result, out_metadata, publish VIREO_INFLIGHT_CHECK_CLIENT stage)
        else
          let (result, route) = vireo_task_route_make (cl_pool_id client) (cl_slot_index client) (cl_generation client) request_sequence (Some no_route) in
          if result \<noteq> VIREO_OK then (result, out_metadata, publish VIREO_INFLIGHT_MAKE_ROUTE stage)
          else
            let (result, v) = vireo_task_metadata_make (the route) request_instance_id operation deadline_ns (Some no_metadata) in
            if result \<noteq> VIREO_OK then (result, out_metadata, publish VIREO_INFLIGHT_MAKE_METADATA stage)
            else (VIREO_OK, v, publish VIREO_INFLIGHT_NONE stage))"

definition vireo_inflight_check_client ::
  "vireo_tcp_server option \<Rightarrow> vireo_task_metadata \<Rightarrow> vireo_connection_close_state option \<Rightarrow> vireo_inflight_stage option \<Rightarrow>
   vireo_result \<times> vireo_connection_close_state option \<times> vireo_inflight_stage option" where
  "vireo_inflight_check_client server metadata out_close_state stage =
     (if server = None \<or> out_close_state = None
      then (VIREO_RESULT_INVALID_ARGUMENT, out_close_state, publish VIREO_INFLIGHT_NONE stage)
      else
        let (result, validated) = vireo_task_metadata_make (md_route metadata) (md_request_instance_id metadata) (md_operation metadata)
              (md_deadline_ns metadata) (Some no_metadata) in
        if result \<noteq> VIREO_OK then (result, out_close_state, publish VIREO_INFLIGHT_CHECK_METADATA stage)
        else
          let route = md_route (the validated);
              (result, state) = sv_client_inspect (the server) \<lparr>cl_pool_id = rt_client_owner_id route,
                cl_slot_index = rt_client_slot_index route, cl_generation = rt_client_generation route\<rparr> in
          if result \<noteq> VIREO_OK then (result, out_close_state, publish VIREO_INFLIGHT_CHECK_CLIENT stage)
          else if state \<noteq> VIREO_CONNECTION_CLOSE_OPEN \<and> state \<noteq> VIREO_CONNECTION_CLOSE_DRAINING \<and> state \<noteq> VIREO_CONNECTION_CLOSE_READY
          then (VIREO_RESULT_INTERNAL, out_close_state, publish VIREO_INFLIGHT_CHECK_CLIENT stage)
          else (VIREO_OK, Some state, publish VIREO_INFLIGHT_NONE stage))"

text \<open>
  Issuing instance numbers: \<open>moved\<close> is the counter value that other threads left between the load and the single
  compare-and-exchange, if they moved it. The exchange yields whether it succeeded and the counter.
\<close>

record vireo_inflight_instance_issuer =
  ii_last_issued :: u64
  ii_compare_exchange :: "(u64 \<Rightarrow> u64 \<Rightarrow> u64 \<Rightarrow> bool \<times> u64) option"

definition compare_once :: "u64 \<Rightarrow> u64 \<Rightarrow> u64 \<Rightarrow> bool \<times> u64" where
  "compare_once counter expected desired = (if counter = expected then (True, desired) else (False, counter))"

definition process_issuer :: vireo_inflight_instance_issuer where
  "process_issuer = \<lparr>ii_last_issued = 0, ii_compare_exchange = Some compare_once\<rparr>"

definition vireo_inflight_metadata_make_next_with_issuer ::
  "vireo_inflight_instance_issuer option \<Rightarrow> vireo_tcp_server option \<Rightarrow> vireo_connection_pool_lease \<Rightarrow> u32 \<Rightarrow> u32 \<Rightarrow> u64 \<Rightarrow>
   vireo_task_metadata option \<Rightarrow> vireo_inflight_stage option \<Rightarrow> u64 option \<Rightarrow>
   vireo_result \<times> vireo_inflight_instance_issuer option \<times> vireo_task_metadata option \<times> vireo_inflight_stage option" where
  "vireo_inflight_metadata_make_next_with_issuer issuer server client request_sequence operation deadline_ns out_metadata stage moved =
     (if out_metadata = None \<or> Option.is_none issuer \<or> Option.is_none (ii_compare_exchange (the issuer))
      then (VIREO_RESULT_INVALID_ARGUMENT, issuer, out_metadata, publish VIREO_INFLIGHT_NONE stage)
      else
        let (result, v, detail) = vireo_inflight_metadata_make server client request_sequence 1 operation deadline_ns (Some no_metadata)
              (Some VIREO_INFLIGHT_NONE) in
        if result \<noteq> VIREO_OK then (result, issuer, out_metadata, publish (the detail) stage)
        else
          let expected = ii_last_issued (the issuer); (result, desired) = vireo_checked_u64_add expected 1 (Some 0) in
          if result \<noteq> VIREO_OK then (result, issuer, out_metadata, publish VIREO_INFLIGHT_ISSUE_INSTANCE stage)
          else
            let counter = (case moved of None \<Rightarrow> expected | Some m \<Rightarrow> m);
                (success, counter) = the (ii_compare_exchange (the issuer)) counter expected (the desired);
                issuer = map_option (ii_last_issued_update (\<lambda>_. counter)) issuer in
            if \<not> success then (VIREO_RESULT_BUSY, issuer, out_metadata, publish VIREO_INFLIGHT_ISSUE_INSTANCE stage)
            else (VIREO_OK, issuer, Some ((the v)\<lparr>md_request_instance_id := the desired\<rparr>), publish VIREO_INFLIGHT_NONE stage))"

text \<open>The public entry uses the counter of the process.\<close>

definition vireo_inflight_metadata_make_next where
  "vireo_inflight_metadata_make_next issuer server client request_sequence operation deadline_ns out_metadata stage moved =
     vireo_inflight_metadata_make_next_with_issuer (Some issuer) server client request_sequence operation deadline_ns out_metadata stage moved"

subsection \<open>The table of requests\<close>

abbreviation VIREO_INFLIGHT_STORE_MAX_CAPACITY :: size_t where "VIREO_INFLIGHT_STORE_MAX_CAPACITY \<equiv> 65536"
abbreviation VIREO_INFLIGHT_STORE_MAX_ALLOCATION_BYTES :: size_t where "VIREO_INFLIGHT_STORE_MAX_ALLOCATION_BYTES \<equiv> 67108864"
abbreviation sizeof_inflight_slot :: size_t where "sizeof_inflight_slot \<equiv> 72"
abbreviation sizeof_inflight_store :: size_t where "sizeof_inflight_store \<equiv> 56"

record vireo_inflight_store_options =
  so_capacity :: size_t
  so_max_memory_bytes :: size_t

record vireo_inflight_store_info =
  si_capacity :: size_t
  si_count :: size_t
  si_allocated_bytes :: size_t
  si_max_memory_bytes :: size_t

record vireo_inflight_store_slot =
  sl_occupied :: bool
  sl_metadata :: vireo_task_metadata
  sl_cancel :: "nat option"

record vireo_inflight_store =
  st_capacity :: size_t
  st_count :: size_t
  st_allocated_bytes :: size_t
  st_max_memory_bytes :: size_t
  st_slots :: "vireo_inflight_store_slot list"
  st_self :: nat

definition empty_slot :: vireo_inflight_store_slot where
  "empty_slot = \<lparr>sl_occupied = False, sl_metadata = no_metadata, sl_cancel = None\<rparr>"

definition vireo_inflight_store_create_with_allocator ::
  "vireo_inflight_store_options option \<Rightarrow> vireo_task_allocator option \<Rightarrow> vireo_inflight_store option option \<Rightarrow> task_env \<Rightarrow>
   vireo_result \<times> vireo_inflight_store option option \<times> task_env" where
  "vireo_inflight_store_create_with_allocator options allocator out_store env =
     (if out_store = None \<or> the out_store \<noteq> None \<or> options = None \<or> so_capacity (the options) = 0 \<or> so_max_memory_bytes (the options) = 0 \<or>
         \<not> allocator_usable allocator
      then (VIREO_RESULT_INVALID_ARGUMENT, out_store, env)
      else
        let opt = the options;
            (result, slot_bytes) = vireo_checked_size_mul (so_capacity opt) sizeof_inflight_slot (Some 0);
            (result, allocated_bytes) =
              (if result = VIREO_OK then vireo_checked_size_add sizeof_inflight_store (the slot_bytes) (Some 0) else (result, Some 0)) in
        if result \<noteq> VIREO_OK then (result, out_store, env)
        else if so_capacity opt > VIREO_INFLIGHT_STORE_MAX_CAPACITY \<or>
          so_max_memory_bytes opt > VIREO_INFLIGHT_STORE_MAX_ALLOCATION_BYTES \<or> the allocated_bytes > so_max_memory_bytes opt
        then (VIREO_RESULT_RANGE, out_store, env)
        else
          let (memory, heap) = allocate_default (te_heap env) (the allocated_bytes); env = env\<lparr>te_heap := heap\<rparr> in
          case memory of
            None \<Rightarrow> (VIREO_RESULT_NO_MEMORY, out_store, env)
          | Some self \<Rightarrow> (VIREO_OK, Some (Some \<lparr>st_capacity = so_capacity opt, st_count = 0, st_allocated_bytes = the allocated_bytes,
              st_max_memory_bytes = so_max_memory_bytes opt, st_slots = replicate (unat (so_capacity opt)) empty_slot, st_self = self\<rparr>), env))"

definition vireo_inflight_store_create where
  "vireo_inflight_store_create options out_store env =
     vireo_inflight_store_create_with_allocator options (Some standard_allocator) out_store env"

definition vireo_inflight_store_inspect ::
  "vireo_inflight_store option \<Rightarrow> vireo_inflight_store_info option \<Rightarrow> vireo_result \<times> vireo_inflight_store_info option" where
  "vireo_inflight_store_inspect store out_info =
     (if store = None \<or> out_info = None then (VIREO_RESULT_INVALID_ARGUMENT, out_info)
      else (VIREO_OK, Some \<lparr>si_capacity = st_capacity (the store), si_count = st_count (the store),
        si_allocated_bytes = st_allocated_bytes (the store), si_max_memory_bytes = st_max_memory_bytes (the store)\<rparr>))"

definition vireo_inflight_store_destroy ::
  "vireo_inflight_store option option \<Rightarrow> task_env \<Rightarrow> vireo_result \<times> vireo_inflight_store option option \<times> task_env" where
  "vireo_inflight_store_destroy owner env =
     (case owner of None \<Rightarrow> (VIREO_RESULT_INVALID_ARGUMENT, owner, env)
      | Some None \<Rightarrow> (VIREO_OK, Some None, env)
      | Some (Some store) \<Rightarrow>
          if st_count store \<noteq> 0 then (VIREO_RESULT_BUSY, owner, env)
          else (VIREO_OK, Some None, env\<lparr>te_heap := deallocate_default (te_heap env) (st_self store) []\<rparr>))"

text \<open>\<^verbatim>\<open>inflight_store_records.c\<close>. The loops run over the slots with their index; \<open>free\<close> is the capacity until a free slot is seen.\<close>

definition validate :: "vireo_task_metadata \<Rightarrow> vireo_result" where
  "validate metadata = fst (vireo_task_metadata_make (md_route metadata) (md_request_instance_id metadata) (md_operation metadata)
     (md_deadline_ns metadata) (Some no_metadata))"

definition same_client :: "vireo_task_route \<Rightarrow> vireo_task_route \<Rightarrow> bool" where
  "same_client left right \<longleftrightarrow> rt_client_owner_id left = rt_client_owner_id right \<and>
     rt_client_slot_index left = rt_client_slot_index right \<and> rt_client_generation left = rt_client_generation right"

fun find_record :: "vireo_task_metadata \<Rightarrow> vireo_inflight_store_slot list \<Rightarrow> nat \<Rightarrow> nat \<Rightarrow> vireo_result \<times> nat" where
  "find_record key [] i out_index = (VIREO_RESULT_NOT_FOUND, out_index)"
| "find_record key (slot # slots) i out_index =
     (if \<not> sl_occupied slot then find_record key slots (Suc i) out_index
      else
        let (result, same) = vireo_task_metadata_same_request key (sl_metadata slot) (Some False) in
        if result \<noteq> VIREO_OK then (result, out_index)
        else if the same then (VIREO_OK, i)
        else find_record key slots (Suc i) out_index)"

fun scan_records ::
  "vireo_task_metadata \<Rightarrow> bool \<Rightarrow> nat \<Rightarrow> vireo_inflight_store_slot list \<Rightarrow> nat \<Rightarrow> nat \<Rightarrow> size_t \<Rightarrow> vireo_result \<times> nat \<times> size_t" where
  "scan_records metadata limited capacity [] i free client_count = (VIREO_OK, free, client_count)"
| "scan_records metadata limited capacity (slot # slots) i free client_count =
     (if \<not> sl_occupied slot then scan_records metadata limited capacity slots (Suc i) (if free = capacity then i else free) client_count
      else if same_client (md_route metadata) (md_route (sl_metadata slot))
      then
        if rt_request_sequence (md_route metadata) = rt_request_sequence (md_route (sl_metadata slot)) \<or>
           md_request_instance_id metadata = md_request_instance_id (sl_metadata slot)
        then (VIREO_RESULT_BUSY, free, client_count)
        else if limited
        then
          let (result, client_count) = vireo_checked_size_add client_count 1 (Some client_count) in
          if result \<noteq> VIREO_OK then (result, free, the client_count)
          else scan_records metadata limited capacity slots (Suc i) free (the client_count)
        else scan_records metadata limited capacity slots (Suc i) free client_count
      else scan_records metadata limited capacity slots (Suc i) free client_count)"

type_synonym retain_task_fn = "vireo_task option \<Rightarrow> nat option option \<Rightarrow> task_env \<Rightarrow> vireo_result \<times> nat option option \<times> task_env"
type_synonym retain_cancel_fn = "nat option \<Rightarrow> nat option option \<Rightarrow> task_env \<Rightarrow> vireo_result \<times> nat option option \<times> task_env"

record vireo_inflight_cancel_operations =
  co_retain_task :: "retain_task_fn option"
  co_retain_cancel :: "retain_cancel_fn option"

definition standard_retain_task :: "u64 list \<Rightarrow> retain_task_fn" where
  "standard_retain_task races task out env = vireo_task_retain_cancel task out races env"

definition standard_retain_cancel :: "u64 list \<Rightarrow> retain_cancel_fn" where
  "standard_retain_cancel races cancel out env = vireo_task_cancel_retain cancel out races env"

definition cancel_operations :: "u64 list \<Rightarrow> vireo_inflight_cancel_operations" where
  "cancel_operations races = \<lparr>co_retain_task = Some (standard_retain_task races), co_retain_cancel = Some (standard_retain_cancel races)\<rparr>"

definition register_impl ::
  "vireo_inflight_store option \<Rightarrow> vireo_tcp_server option \<Rightarrow> vireo_task_metadata \<Rightarrow> bool \<Rightarrow> size_t \<Rightarrow> vireo_task option \<Rightarrow>
   vireo_inflight_cancel_operations option \<Rightarrow> vireo_inflight_stage option \<Rightarrow> task_env \<Rightarrow>
   vireo_result \<times> vireo_inflight_store option \<times> vireo_inflight_stage option \<times> task_env" where
  "register_impl store server metadata limited max_client_requests task operations stage env =
     (if store = None \<or> Option.is_none server \<or> (limited \<and> max_client_requests = 0)
      then (VIREO_RESULT_INVALID_ARGUMENT, store, publish VIREO_INFLIGHT_NONE stage, env)
      else
        let s = the store; result = validate metadata in
        if result \<noteq> VIREO_OK then (result, store, publish VIREO_INFLIGHT_CHECK_METADATA stage, env)
        else if limited \<and> max_client_requests > st_capacity s
        then (VIREO_RESULT_RANGE, store, publish VIREO_INFLIGHT_CHECK_RECORD stage, env)
        else
          let (result, state, detail) = vireo_inflight_check_client server metadata (Some VIREO_CONNECTION_CLOSE_OPEN) (Some VIREO_INFLIGHT_NONE) in
          if result \<noteq> VIREO_OK then (result, store, publish (the detail) stage, env)
          else
            let (result, stop_requested) = sv_inspect (the server) in
            if result \<noteq> VIREO_OK then (result, store, publish VIREO_INFLIGHT_CHECK_SERVER stage, env)
            else if stop_requested then (VIREO_RESULT_CANCELLED, store, publish VIREO_INFLIGHT_CHECK_SERVER stage, env)
            else if state \<noteq> Some VIREO_CONNECTION_CLOSE_OPEN then (VIREO_RESULT_BUSY, store, publish VIREO_INFLIGHT_CHECK_CLIENT stage, env)
            else
              let (result, free, client_count) =
                    scan_records metadata limited (unat (st_capacity s)) (st_slots s) 0 (unat (st_capacity s)) 0 in
              if result \<noteq> VIREO_OK then (result, store, publish VIREO_INFLIGHT_CHECK_RECORD stage, env)
              else if limited \<and> client_count \<ge> max_client_requests
              then (VIREO_RESULT_BUSY, store, publish VIREO_INFLIGHT_CHECK_RECORD stage, env)
              else if free = unat (st_capacity s) then (VIREO_RESULT_BUSY, store, publish VIREO_INFLIGHT_CHECK_RECORD stage, env)
              else
                let (result, next_count) = vireo_checked_size_add (st_count s) 1 (Some 0) in
                if result \<noteq> VIREO_OK then (result, store, publish VIREO_INFLIGHT_CHECK_RECORD stage, env)
                else if the next_count > st_capacity s then (VIREO_RESULT_INTERNAL, store, publish VIREO_INFLIGHT_CHECK_RECORD stage, env)
                else
                  let (result, cancel, env) =
                        (if task \<noteq> None then the (co_retain_task (the operations)) task (Some None) env else (VIREO_OK, Some None, env)) in
                  if task \<noteq> None \<and> result \<noteq> VIREO_OK \<and> result \<noteq> VIREO_RESULT_NOT_FOUND
                  then (result, store, publish VIREO_INFLIGHT_RETAIN_CANCEL stage, env)
                  else
                    let s = s\<lparr>st_slots := (st_slots s)[free := \<lparr>sl_occupied = True, sl_metadata = metadata, sl_cancel = the cancel\<rparr>],
                          st_count := the next_count\<rparr> in
                    (VIREO_OK, Some s, publish VIREO_INFLIGHT_NONE stage, env))"

definition vireo_inflight_store_register where
  "vireo_inflight_store_register store server metadata stage env = register_impl store server metadata False 0 None None stage env"

definition vireo_inflight_store_register_limited where
  "vireo_inflight_store_register_limited store server metadata max_client_requests stage env =
     register_impl store server metadata True max_client_requests None None stage env"

fun count_records :: "vireo_task_route \<Rightarrow> vireo_inflight_store_slot list \<Rightarrow> size_t \<Rightarrow> vireo_result \<times> size_t" where
  "count_records route [] count = (VIREO_OK, count)"
| "count_records route (slot # slots) count =
     (if \<not> sl_occupied slot \<or> \<not> same_client route (md_route (sl_metadata slot)) then count_records route slots count
      else
        let (result, count) = vireo_checked_size_add count 1 (Some count) in
        if result \<noteq> VIREO_OK then (result, the count) else count_records route slots (the count))"

definition vireo_inflight_store_count_client ::
  "vireo_inflight_store option \<Rightarrow> vireo_connection_pool_lease \<Rightarrow> size_t option \<Rightarrow> vireo_inflight_stage option \<Rightarrow>
   vireo_result \<times> size_t option \<times> vireo_inflight_stage option" where
  "vireo_inflight_store_count_client store client out_count stage =
     (if store = None \<or> out_count = None then (VIREO_RESULT_INVALID_ARGUMENT, out_count, publish VIREO_INFLIGHT_NONE stage)
      else if cl_pool_id client = 0 \<and> cl_slot_index client = 0 \<and> cl_generation client = 0
      then (VIREO_RESULT_NOT_FOUND, out_count, publish VIREO_INFLIGHT_NONE stage)
      else
        let (result, route) = vireo_task_route_make (cl_pool_id client) (cl_slot_index client) (cl_generation client) 1 (Some no_route) in
        if result \<noteq> VIREO_OK then (result, out_count, publish VIREO_INFLIGHT_NONE stage)
        else
          let (result, count) = count_records (the route) (st_slots (the store)) 0 in
          if result \<noteq> VIREO_OK then (result, out_count, publish VIREO_INFLIGHT_CHECK_RECORD stage)
          else (VIREO_OK, Some count, publish VIREO_INFLIGHT_NONE stage))"

definition vireo_inflight_store_get ::
  "vireo_inflight_store option \<Rightarrow> vireo_task_metadata \<Rightarrow> vireo_task_metadata option \<Rightarrow> vireo_inflight_stage option \<Rightarrow>
   vireo_result \<times> vireo_task_metadata option \<times> vireo_inflight_stage option" where
  "vireo_inflight_store_get store key out_record stage =
     (if store = None \<or> out_record = None then (VIREO_RESULT_INVALID_ARGUMENT, out_record, publish VIREO_INFLIGHT_NONE stage)
      else
        let result = validate key in
        if result \<noteq> VIREO_OK then (result, out_record, publish VIREO_INFLIGHT_CHECK_METADATA stage)
        else
          let (result, index) = find_record key (st_slots (the store)) 0 0 in
          if result \<noteq> VIREO_OK then (result, out_record, publish VIREO_INFLIGHT_CHECK_RECORD stage)
          else (VIREO_OK, Some (sl_metadata (st_slots (the store) ! index)), publish VIREO_INFLIGHT_NONE stage))"

definition vireo_inflight_store_take ::
  "vireo_inflight_store option \<Rightarrow> vireo_task_metadata \<Rightarrow> vireo_task_metadata option \<Rightarrow> vireo_inflight_stage option \<Rightarrow> task_env \<Rightarrow>
   vireo_result \<times> vireo_inflight_store option \<times> vireo_task_metadata option \<times> vireo_inflight_stage option \<times> task_env" where
  "vireo_inflight_store_take store key out_record stage env =
     (if store = None \<or> out_record = None then (VIREO_RESULT_INVALID_ARGUMENT, store, out_record, publish VIREO_INFLIGHT_NONE stage, env)
      else
        let s = the store; result = validate key in
        if result \<noteq> VIREO_OK then (result, store, out_record, publish VIREO_INFLIGHT_CHECK_METADATA stage, env)
        else
          let (result, index) = find_record key (st_slots s) 0 0 in
          if result \<noteq> VIREO_OK then (result, store, out_record, publish VIREO_INFLIGHT_CHECK_RECORD stage, env)
          else if st_count s = 0 \<or> st_count s > st_capacity s
          then (VIREO_RESULT_INTERNAL, store, out_record, publish VIREO_INFLIGHT_CHECK_RECORD stage, env)
          else
            let slot = st_slots s ! index; (result, cancel, env) = vireo_task_cancel_destroy (Some (sl_cancel slot)) env in
            if result \<noteq> VIREO_OK
            then (result, Some (s\<lparr>st_slots := (st_slots s)[index := slot\<lparr>sl_cancel := the cancel\<rparr>]\<rparr>), out_record,
              publish VIREO_INFLIGHT_RELEASE_CANCEL stage, env)
            else (VIREO_OK,
              Some (s\<lparr>st_slots := (st_slots s)[index := \<lparr>sl_occupied = False, sl_metadata = no_metadata, sl_cancel = the cancel\<rparr>],
                st_count := st_count s - 1\<rparr>), Some (sl_metadata slot), publish VIREO_INFLIGHT_NONE stage, env))"

definition vireo_inflight_store_register_task_limited_with_operations ::
  "vireo_inflight_store option \<Rightarrow> vireo_tcp_server option \<Rightarrow> vireo_task option \<Rightarrow> size_t \<Rightarrow> vireo_inflight_cancel_operations option \<Rightarrow>
   vireo_inflight_stage option \<Rightarrow> task_env \<Rightarrow> vireo_result \<times> vireo_inflight_store option \<times> vireo_inflight_stage option \<times> task_env" where
  "vireo_inflight_store_register_task_limited_with_operations store server task max_client_requests operations stage env =
     (if store = None \<or> Option.is_none server \<or> task = None \<or> max_client_requests = 0 \<or> Option.is_none operations \<or>
         Option.is_none (co_retain_task (the operations)) \<or> Option.is_none (co_retain_cancel (the operations))
      then (VIREO_RESULT_INVALID_ARGUMENT, store, publish VIREO_INFLIGHT_NONE stage, env)
      else
        let (result, info) = vireo_task_inspect task (Some \<lparr>ti_metadata = no_metadata, ti_payload_size = 0, ti_allocated_bytes = 0\<rparr>) in
        if result \<noteq> VIREO_OK then (result, store, publish VIREO_INFLIGHT_CHECK_METADATA stage, env)
        else register_impl store server (ti_metadata (the info)) True max_client_requests task operations stage env)"

definition vireo_inflight_store_register_task_limited where
  "vireo_inflight_store_register_task_limited store server task max_client_requests stage races env =
     vireo_inflight_store_register_task_limited_with_operations store server task max_client_requests (Some (cancel_operations races)) stage env"

definition vireo_inflight_store_retain_cancel_with_operations ::
  "vireo_inflight_store option \<Rightarrow> vireo_task_metadata \<Rightarrow> nat option option \<Rightarrow> vireo_inflight_cancel_operations option \<Rightarrow>
   vireo_inflight_stage option \<Rightarrow> task_env \<Rightarrow> vireo_result \<times> nat option option \<times> vireo_inflight_stage option \<times> task_env" where
  "vireo_inflight_store_retain_cancel_with_operations store key out_cancel operations stage env =
     (if store = None \<or> out_cancel = None \<or> the out_cancel \<noteq> None \<or> Option.is_none operations \<or>
         Option.is_none (co_retain_task (the operations)) \<or> Option.is_none (co_retain_cancel (the operations))
      then (VIREO_RESULT_INVALID_ARGUMENT, out_cancel, publish VIREO_INFLIGHT_NONE stage, env)
      else
        let result = validate key in
        if result \<noteq> VIREO_OK then (result, out_cancel, publish VIREO_INFLIGHT_CHECK_METADATA stage, env)
        else
          let (result, index) = find_record key (st_slots (the store)) 0 0 in
          if result \<noteq> VIREO_OK then (result, out_cancel, publish VIREO_INFLIGHT_CHECK_RECORD stage, env)
          else if sl_cancel (st_slots (the store) ! index) = None
          then (VIREO_RESULT_NOT_FOUND, out_cancel, publish VIREO_INFLIGHT_RETAIN_CANCEL stage, env)
          else
            let (result, out_cancel, env) =
                  the (co_retain_cancel (the operations)) (sl_cancel (st_slots (the store) ! index)) out_cancel env in
            (result, out_cancel, publish (if result = VIREO_OK then VIREO_INFLIGHT_NONE else VIREO_INFLIGHT_RETAIN_CANCEL) stage, env))"

definition vireo_inflight_store_retain_cancel where
  "vireo_inflight_store_retain_cancel store key out_cancel stage races env =
     vireo_inflight_store_retain_cancel_with_operations store key out_cancel (Some (cancel_operations races)) stage env"

subsection \<open>Submitting to the worker pool\<close>

text \<open>The fields of the worker pool that its submit entry reads (\<^verbatim>\<open>src/thread/thread_pool.c\<close>).\<close>

record vireo_thread_pool =
  wp_worker_count :: size_t
  wp_configured :: bool
  wp_retiring :: bool
  wp_start_attempted :: bool
  wp_stop_requested :: bool
  wp_execution_enabled :: bool
  wp_created_count :: size_t
  wp_joined_count :: size_t
  wp_queue :: "vireo_task vireo_task_queue option"

datatype vireo_thread_pool_submit_stage = VIREO_THREAD_POOL_SUBMIT_STAGE_NONE | VIREO_THREAD_POOL_SUBMIT_STAGE_CHECK_POOL |
  VIREO_THREAD_POOL_SUBMIT_STAGE_SUBMIT_QUEUE

record vireo_thread_pool_submit_report =
  ps_stage :: vireo_thread_pool_submit_stage
  ps_queue_called :: bool
  ps_queue_report :: vireo_task_queue_transfer_report

definition no_pool_report :: vireo_thread_pool_submit_report where
  "no_pool_report = \<lparr>ps_stage = VIREO_THREAD_POOL_SUBMIT_STAGE_NONE, ps_queue_called = False, ps_queue_report = no_transfer\<rparr>"

type_synonym try_push_fn = "vireo_task vireo_task_queue option \<Rightarrow> vireo_task option option \<Rightarrow> vireo_task_queue_transfer_report option \<Rightarrow> sync_codes \<Rightarrow>
  vireo_result \<times> vireo_task vireo_task_queue option \<times> vireo_task option option \<times> vireo_task_queue_transfer_report option \<times> sync_codes"

definition vireo_thread_pool_try_submit_with_submitter ::
  "vireo_thread_pool option \<Rightarrow> vireo_task option option \<Rightarrow> try_push_fn option \<Rightarrow> vireo_thread_pool_submit_report option \<Rightarrow> sync_codes \<Rightarrow>
   vireo_result \<times> vireo_thread_pool option \<times> vireo_task option option \<times> vireo_thread_pool_submit_report option \<times> sync_codes" where
  "vireo_thread_pool_try_submit_with_submitter pool task_owner submitter report codes =
     (if Option.is_none pool \<or> task_owner = None \<or> report = None \<or> Option.is_none submitter
      then (VIREO_RESULT_INVALID_ARGUMENT, pool, task_owner, map_option (\<lambda>_. no_pool_report) report, codes)
      else if the task_owner = None then (VIREO_RESULT_NOT_FOUND, pool, task_owner, Some no_pool_report, codes)
      else
        let p = the pool; v = no_pool_report\<lparr>ps_stage := VIREO_THREAD_POOL_SUBMIT_STAGE_CHECK_POOL\<rparr> in
        if wp_retiring p \<or> wp_stop_requested p then (VIREO_RESULT_CANCELLED, pool, task_owner, Some v, codes)
        else if \<not> wp_configured p \<or> \<not> wp_start_attempted p then (VIREO_RESULT_NOT_FOUND, pool, task_owner, Some v, codes)
        else if wp_created_count p \<noteq> wp_worker_count p \<or> \<not> wp_execution_enabled p \<or> wp_joined_count p \<noteq> 0
        then (VIREO_RESULT_BUSY, pool, task_owner, Some v, codes)
        else
          let (result, queue, task_owner, queue_report, codes) = the submitter (wp_queue p) task_owner (Some no_transfer) codes;
              v = \<lparr>ps_stage = (if result = VIREO_OK then VIREO_THREAD_POOL_SUBMIT_STAGE_NONE else VIREO_THREAD_POOL_SUBMIT_STAGE_SUBMIT_QUEUE),
                ps_queue_called = True, ps_queue_report = the queue_report\<rparr> in
          (result, Some (p\<lparr>wp_queue := queue\<rparr>), task_owner, Some v, codes))"

definition vireo_thread_pool_try_submit where
  "vireo_thread_pool_try_submit pool task_owner report codes =
     vireo_thread_pool_try_submit_with_submitter pool task_owner (Some vireo_task_queue_try_push) report codes"

datatype vireo_inflight_submit_stage = VIREO_INFLIGHT_SUBMIT_NONE | VIREO_INFLIGHT_SUBMIT_INSPECT_TASK |
  VIREO_INFLIGHT_SUBMIT_REGISTER_REQUEST | VIREO_INFLIGHT_SUBMIT_SUBMIT_TASK

record vireo_inflight_submit_report =
  sr_stage :: vireo_inflight_submit_stage
  sr_metadata :: vireo_task_metadata
  sr_task_inspected :: bool
  sr_registration_committed :: bool
  sr_record_retained :: bool
  sr_submit_called :: bool
  sr_pool_report :: vireo_thread_pool_submit_report
  sr_rollback_called :: bool
  sr_rollback_result :: vireo_result
  sr_inflight_stage :: vireo_inflight_stage

definition no_submit_report :: vireo_inflight_submit_report where
  "no_submit_report = \<lparr>sr_stage = VIREO_INFLIGHT_SUBMIT_NONE, sr_metadata = no_metadata, sr_task_inspected = False,
     sr_registration_committed = False, sr_record_retained = False, sr_submit_called = False, sr_pool_report = no_pool_report,
     sr_rollback_called = False, sr_rollback_result = VIREO_OK, sr_inflight_stage = VIREO_INFLIGHT_NONE\<rparr>"

record vireo_inflight_submit_operations =
  op_submit :: "(vireo_thread_pool option \<Rightarrow> vireo_task option option \<Rightarrow> vireo_thread_pool_submit_report option \<Rightarrow> sync_codes \<Rightarrow>
     vireo_result \<times> vireo_thread_pool option \<times> vireo_task option option \<times> vireo_thread_pool_submit_report option \<times> sync_codes) option"
  op_take :: "(vireo_inflight_store option \<Rightarrow> vireo_task_metadata \<Rightarrow> vireo_task_metadata option \<Rightarrow> vireo_inflight_stage option \<Rightarrow> task_env \<Rightarrow>
     vireo_result \<times> vireo_inflight_store option \<times> vireo_task_metadata option \<times> vireo_inflight_stage option \<times> task_env) option"

definition vireo_inflight_store_try_submit_with_operations ::
  "vireo_inflight_store option \<Rightarrow> vireo_tcp_server option \<Rightarrow> vireo_thread_pool option \<Rightarrow> size_t \<Rightarrow> vireo_task option option \<Rightarrow>
   vireo_inflight_submit_operations option \<Rightarrow> vireo_inflight_submit_report option \<Rightarrow> u64 list \<Rightarrow> sync_codes \<Rightarrow> task_env \<Rightarrow>
   vireo_result \<times> vireo_inflight_store option \<times> vireo_thread_pool option \<times> vireo_task option option \<times>
   vireo_inflight_submit_report option \<times> sync_codes \<times> task_env" where
  "vireo_inflight_store_try_submit_with_operations store server pool max_client_requests task_owner operations report races codes env =
     (if store = None \<or> Option.is_none server \<or> Option.is_none pool \<or> task_owner = None \<or> report = None \<or> max_client_requests = 0 \<or>
         Option.is_none operations \<or> Option.is_none (op_submit (the operations)) \<or> Option.is_none (op_take (the operations))
      then (VIREO_RESULT_INVALID_ARGUMENT, store, pool, task_owner, map_option (\<lambda>_. no_submit_report) report, codes, env)
      else if the task_owner = None then (VIREO_RESULT_NOT_FOUND, store, pool, task_owner, Some no_submit_report, codes, env)
      else
        let (result, info) = vireo_task_inspect (the task_owner) (Some \<lparr>ti_metadata = no_metadata, ti_payload_size = 0, ti_allocated_bytes = 0\<rparr>);
            v = no_submit_report\<lparr>sr_stage := VIREO_INFLIGHT_SUBMIT_INSPECT_TASK\<rparr> in
        if result \<noteq> VIREO_OK then (result, store, pool, task_owner, Some v, codes, env)
        else
          let v = v\<lparr>sr_metadata := ti_metadata (the info), sr_task_inspected := True, sr_stage := VIREO_INFLIGHT_SUBMIT_REGISTER_REQUEST\<rparr>;
              (result, store, detail, env) =
                vireo_inflight_store_register_task_limited store server (the task_owner) max_client_requests (Some (sr_inflight_stage v)) races env;
              v = v\<lparr>sr_inflight_stage := the detail\<rparr> in
          if result \<noteq> VIREO_OK then (result, store, pool, task_owner, Some v, codes, env)
          else
            let v = v\<lparr>sr_registration_committed := True, sr_record_retained := True, sr_submit_called := True,
                  sr_stage := VIREO_INFLIGHT_SUBMIT_SUBMIT_TASK\<rparr>;
                (result, pool, task_owner, pool_report, codes) = the (op_submit (the operations)) pool task_owner (Some (sr_pool_report v)) codes;
                v = v\<lparr>sr_pool_report := the pool_report\<rparr> in
            if result = VIREO_OK then (result, store, pool, task_owner, Some (v\<lparr>sr_stage := VIREO_INFLIGHT_SUBMIT_NONE\<rparr>), codes, env)
            else if \<not> tqt_transferred (ps_queue_report (sr_pool_report v))
            then
              let (rollback, store, removed, detail, env) =
                    the (op_take (the operations)) store (sr_metadata v) (Some no_metadata) (Some (sr_inflight_stage v)) env;
                  v = v\<lparr>sr_rollback_called := True, sr_rollback_result := rollback, sr_inflight_stage := the detail\<rparr>;
                  v = (if rollback = VIREO_OK then v\<lparr>sr_record_retained := False\<rparr> else v) in
              (result, store, pool, task_owner, Some v, codes, env)
            else (result, store, pool, task_owner, Some v, codes, env))"

definition vireo_inflight_store_try_submit where
  "vireo_inflight_store_try_submit store server pool max_client_requests task_owner report races codes env =
     vireo_inflight_store_try_submit_with_operations store server pool max_client_requests task_owner
       (Some \<lparr>op_submit = Some vireo_thread_pool_try_submit, op_take = Some vireo_inflight_store_take\<rparr>) report races codes env"

subsection \<open>Completions\<close>

record vireo_inflight_completion_match =
  im_metadata :: vireo_task_metadata
  im_close_state :: vireo_connection_close_state

definition vireo_inflight_store_check_completion ::
  "vireo_inflight_store option \<Rightarrow> vireo_tcp_server option \<Rightarrow> vireo_completion option \<Rightarrow> vireo_inflight_completion_match option \<Rightarrow>
   vireo_inflight_stage option \<Rightarrow> vireo_result \<times> vireo_inflight_completion_match option \<times> vireo_inflight_stage option" where
  "vireo_inflight_store_check_completion store server completion out_match stage =
     (if store = None \<or> Option.is_none server \<or> completion = None \<or> out_match = None
      then (VIREO_RESULT_INVALID_ARGUMENT, out_match, publish VIREO_INFLIGHT_NONE stage)
      else
        let no_result = \<lparr>cm_request = no_metadata, cm_result = 0, cm_suggested_status = 0\<rparr>;
            (result, info) = vireo_completion_inspect completion (Some \<lparr>cpi_metadata = no_result, cpi_payload_size = 0, cpi_allocated_bytes = 0\<rparr>) in
        if result \<noteq> VIREO_OK then (result, out_match, publish VIREO_INFLIGHT_CHECK_COMPLETION stage)
        else
          let m = cpi_metadata (the info);
              (result, validated) = vireo_completion_metadata_make (cm_request m) (cm_result m) (cm_suggested_status m) (Some no_result) in
          if result \<noteq> VIREO_OK then (result, out_match, publish VIREO_INFLIGHT_CHECK_COMPLETION stage)
          else
            let request = cm_request (the validated);
                (result, state, detail) = vireo_inflight_check_client server request (Some VIREO_CONNECTION_CLOSE_OPEN) (Some VIREO_INFLIGHT_NONE) in
            if result \<noteq> VIREO_OK then (result, out_match, publish (the detail) stage)
            else
              let (result, rec, detail) = vireo_inflight_store_get store request (Some no_metadata) detail in
              if result \<noteq> VIREO_OK then (result, out_match, publish (the detail) stage)
              else if md_operation request \<noteq> md_operation (the rec) \<or> md_deadline_ns request \<noteq> md_deadline_ns (the rec)
              then (VIREO_RESULT_INVALID_ARGUMENT, out_match, publish VIREO_INFLIGHT_MATCH_RECORD stage)
              else (VIREO_OK, Some \<lparr>im_metadata = the rec, im_close_state = the state\<rparr>, publish VIREO_INFLIGHT_NONE stage))"

datatype vireo_inflight_consume_stage = VIREO_INFLIGHT_CONSUME_NONE | VIREO_INFLIGHT_CONSUME_INSPECT | VIREO_INFLIGHT_CONSUME_CHECK_MATCH |
  VIREO_INFLIGHT_CONSUME_CHECK_RECORD | VIREO_INFLIGHT_CONSUME_TAKE_RECORD | VIREO_INFLIGHT_CONSUME_DELIVER | VIREO_INFLIGHT_CONSUME_DESTROY

datatype vireo_inflight_completion_disposition = VIREO_INFLIGHT_COMPLETION_NONE | VIREO_INFLIGHT_COMPLETION_MATCHED |
  VIREO_INFLIGHT_COMPLETION_CLIENT_GONE | VIREO_INFLIGHT_COMPLETION_REQUEST_GONE

record vireo_inflight_completion_consume_report =
  cr_stage :: vireo_inflight_consume_stage
  cr_disposition :: vireo_inflight_completion_disposition
  cr_completion_inspected :: bool
  cr_completion_metadata :: vireo_completion_metadata
  cr_match :: vireo_inflight_completion_match
  cr_record_consumed :: bool
  cr_delivery_called :: bool
  cr_delivery_result :: vireo_result
  cr_destroy_called :: bool
  cr_completion_consumed :: bool
  cr_inflight_stage :: vireo_inflight_stage
  cr_destroy_result :: vireo_result

definition no_consume_report :: vireo_inflight_completion_consume_report where
  "no_consume_report = \<lparr>cr_stage = VIREO_INFLIGHT_CONSUME_NONE, cr_disposition = VIREO_INFLIGHT_COMPLETION_NONE, cr_completion_inspected = False,
     cr_completion_metadata = \<lparr>cm_request = no_metadata, cm_result = 0, cm_suggested_status = 0\<rparr>,
     cr_match = \<lparr>im_metadata = no_metadata, im_close_state = VIREO_CONNECTION_CLOSE_OPEN\<rparr>, cr_record_consumed = False,
     cr_delivery_called = False, cr_delivery_result = VIREO_OK, cr_destroy_called = False, cr_completion_consumed = False,
     cr_inflight_stage = VIREO_INFLIGHT_NONE, cr_destroy_result = VIREO_OK\<rparr>"

text \<open>
  Consuming one completion, in the three phases of the source: classify it, end its record, deliver and destroy it. The phases pass the
  report on; \<open>Inl\<close> is an early return.
\<close>

definition consume_classify ::
  "vireo_inflight_store option \<Rightarrow> vireo_tcp_server option \<Rightarrow> vireo_completion \<Rightarrow> vireo_inflight_completion_consume_report \<Rightarrow>
   (vireo_result \<times> vireo_inflight_completion_consume_report) + (vireo_inflight_completion_consume_report \<times> vireo_task_metadata option)" where
  "consume_classify store server completion v =
     (let (result, match, detail) = vireo_inflight_store_check_completion store server (Some completion) (Some (cr_match v)) (Some (cr_inflight_stage v));
          v = v\<lparr>cr_match := the match, cr_inflight_stage := the detail\<rparr>; request = cm_request (cr_completion_metadata v) in
      if result = VIREO_OK then Inr (v\<lparr>cr_disposition := VIREO_INFLIGHT_COMPLETION_MATCHED\<rparr>, Some (im_metadata (cr_match v)))
      else if result = VIREO_RESULT_NOT_FOUND \<and>
        (cr_inflight_stage v = VIREO_INFLIGHT_CHECK_CLIENT \<or> cr_inflight_stage v = VIREO_INFLIGHT_CHECK_RECORD)
      then
        if cr_inflight_stage v = VIREO_INFLIGHT_CHECK_CLIENT
        then
          let v = v\<lparr>cr_disposition := VIREO_INFLIGHT_COMPLETION_CLIENT_GONE\<rparr>;
              (result, rec, detail) = vireo_inflight_store_get store request (Some no_metadata) (Some VIREO_INFLIGHT_NONE) in
          if result = VIREO_OK
          then
            if md_operation (the rec) \<noteq> md_operation request \<or> md_deadline_ns (the rec) \<noteq> md_deadline_ns request
            then Inl (VIREO_RESULT_INVALID_ARGUMENT,
              v\<lparr>cr_inflight_stage := VIREO_INFLIGHT_MATCH_RECORD, cr_stage := VIREO_INFLIGHT_CONSUME_CHECK_RECORD\<rparr>)
            else Inr (v, rec)
          else if result \<noteq> VIREO_RESULT_NOT_FOUND
          then Inl (result, v\<lparr>cr_inflight_stage := the detail, cr_stage := VIREO_INFLIGHT_CONSUME_CHECK_RECORD\<rparr>)
          else Inr (v, None)
        else Inr (v\<lparr>cr_disposition := VIREO_INFLIGHT_COMPLETION_REQUEST_GONE\<rparr>, None)
      else Inl (result, v\<lparr>cr_stage := VIREO_INFLIGHT_CONSUME_CHECK_MATCH\<rparr>))"

type_synonym 'c deliver_fn = "'c \<Rightarrow> vireo_completion option \<Rightarrow> vireo_inflight_completion_match \<Rightarrow> vireo_result \<times> 'c"

definition consume_deliver ::
  "vireo_completion option option \<Rightarrow> 'c deliver_fn \<Rightarrow> 'c \<Rightarrow> vireo_inflight_completion_consume_report \<Rightarrow> task_env \<Rightarrow>
   vireo_result \<times> vireo_completion option option \<times> 'c \<times> vireo_inflight_completion_consume_report \<times> task_env" where
  "consume_deliver owner deliver context v env =
     (let (v, context) =
            (if cr_disposition v = VIREO_INFLIGHT_COMPLETION_MATCHED
             then let (result, context) = deliver context (the owner) (cr_match v) in
               (v\<lparr>cr_delivery_called := True, cr_delivery_result := result\<rparr>, context)
             else (v, context)) in
      if cr_disposition v = VIREO_INFLIGHT_COMPLETION_MATCHED \<and> cr_delivery_result v \<noteq> VIREO_OK
      then (cr_delivery_result v, owner, context, v\<lparr>cr_stage := VIREO_INFLIGHT_CONSUME_DELIVER\<rparr>, env)
      else
        let (result, owner, heap) = vireo_completion_destroy owner (te_heap env); env = env\<lparr>te_heap := heap\<rparr>;
            v = v\<lparr>cr_destroy_called := True, cr_destroy_result := result, cr_completion_consumed := the owner = None\<rparr> in
        if result \<noteq> VIREO_OK then (result, owner, context, v\<lparr>cr_stage := VIREO_INFLIGHT_CONSUME_DESTROY\<rparr>, env)
        else (VIREO_OK, owner, context, v\<lparr>cr_stage := VIREO_INFLIGHT_CONSUME_NONE\<rparr>, env))"

definition vireo_inflight_store_consume_completion ::
  "vireo_inflight_store option \<Rightarrow> vireo_tcp_server option \<Rightarrow> vireo_completion option option \<Rightarrow> 'c deliver_fn option \<Rightarrow> 'c \<Rightarrow>
   vireo_inflight_completion_consume_report option \<Rightarrow> task_env \<Rightarrow>
   vireo_result \<times> vireo_inflight_store option \<times> vireo_completion option option \<times> 'c \<times>
   vireo_inflight_completion_consume_report option \<times> task_env" where
  "vireo_inflight_store_consume_completion store server owner deliver context report env =
     (if store = None \<or> Option.is_none server \<or> owner = None \<or> Option.is_none deliver \<or> report = None
      then (VIREO_RESULT_INVALID_ARGUMENT, store, owner, context, map_option (\<lambda>_. no_consume_report) report, env)
      else if the owner = None then (VIREO_RESULT_NOT_FOUND, store, owner, context, Some no_consume_report, env)
      else
        let (result, info) = vireo_completion_inspect (the owner)
              (Some \<lparr>cpi_metadata = cr_completion_metadata no_consume_report, cpi_payload_size = 0, cpi_allocated_bytes = 0\<rparr>) in
        if result \<noteq> VIREO_OK
        then (result, store, owner, context, Some (no_consume_report\<lparr>cr_stage := VIREO_INFLIGHT_CONSUME_INSPECT\<rparr>), env)
        else
          case consume_classify store server (the (the owner))
            (no_consume_report\<lparr>cr_completion_inspected := True, cr_completion_metadata := cpi_metadata (the info)\<rparr>) of
            Inl (result, v) \<Rightarrow> (result, store, owner, context, Some v, env)
          | Inr (v, rec) \<Rightarrow>
              let (result, store, ended, detail, env) =
                    (case rec of None \<Rightarrow> (VIREO_OK, store, None, Some VIREO_INFLIGHT_NONE, env)
                     | Some r \<Rightarrow> vireo_inflight_store_take store r (Some no_metadata) (Some VIREO_INFLIGHT_NONE) env) in
              if result \<noteq> VIREO_OK
              then (result, store, owner, context,
                Some (v\<lparr>cr_inflight_stage := the detail, cr_stage := VIREO_INFLIGHT_CONSUME_TAKE_RECORD\<rparr>), env)
              else
                let v = (if rec \<noteq> None then v\<lparr>cr_record_consumed := True\<rparr> else v);
                    (result, owner, context, v, env) = consume_deliver owner (the deliver) context v env in
                (result, store, owner, context, Some v, env))"

subsection \<open>Draining the completion queue\<close>

abbreviation VIREO_INFLIGHT_COMPLETION_DRAIN_MAX_ITEMS :: size_t where "VIREO_INFLIGHT_COMPLETION_DRAIN_MAX_ITEMS \<equiv> 65536"

datatype vireo_inflight_completion_drain_stage = VIREO_INFLIGHT_COMPLETION_DRAIN_NONE | VIREO_INFLIGHT_COMPLETION_DRAIN_POP |
  VIREO_INFLIGHT_COMPLETION_DRAIN_CONSUME

datatype vireo_inflight_completion_drain_stop = VIREO_INFLIGHT_COMPLETION_DRAIN_NOT_STARTED | VIREO_INFLIGHT_COMPLETION_DRAIN_EMPTY |
  VIREO_INFLIGHT_COMPLETION_DRAIN_BUDGET | VIREO_INFLIGHT_COMPLETION_DRAIN_ERROR

record vireo_inflight_completion_drain_report =
  dr_stage :: vireo_inflight_completion_drain_stage
  dr_stop_reason :: vireo_inflight_completion_drain_stop
  dr_pop_calls :: size_t
  dr_received :: size_t
  dr_finished :: size_t
  dr_delivered :: size_t
  dr_late_cleaned :: size_t
  dr_last_item_consume_called :: bool
  dr_queue_report :: vireo_completion_queue_transfer_report
  dr_consume_report :: vireo_inflight_completion_consume_report

definition no_drain_report :: vireo_inflight_completion_drain_report where
  "no_drain_report = \<lparr>dr_stage = VIREO_INFLIGHT_COMPLETION_DRAIN_NONE, dr_stop_reason = VIREO_INFLIGHT_COMPLETION_DRAIN_NOT_STARTED,
     dr_pop_calls = 0, dr_received = 0, dr_finished = 0, dr_delivered = 0, dr_late_cleaned = 0, dr_last_item_consume_called = False,
     dr_queue_report = cq_no_transfer, dr_consume_report = no_consume_report\<rparr>"

text \<open>What one call works on: the table, the queue, the owner left over, the callback's context, the memory and the pthread results.\<close>

record 'c drain_state =
  ds_store :: vireo_inflight_store
  ds_queue :: "vireo_completion vireo_completion_queue"
  ds_remaining :: "vireo_completion option"
  ds_context :: 'c
  ds_env :: task_env
  ds_codes :: sync_codes

definition pop_public :: "'c drain_state \<Rightarrow> vireo_result \<times> vireo_completion_queue_transfer_report \<times> 'c drain_state" where
  "pop_public st =
     (let (result, queue, owner, report, codes) =
            vireo_completion_queue_try_pop (Some (ds_queue st)) (Some (ds_remaining st)) (Some cq_no_transfer) (ds_codes st) in
      (result, the report, st\<lparr>ds_queue := the queue, ds_remaining := the owner, ds_codes := codes\<rparr>))"

definition consume_public ::
  "vireo_tcp_server option \<Rightarrow> 'c deliver_fn option \<Rightarrow> 'c drain_state \<Rightarrow>
   vireo_result \<times> vireo_inflight_completion_consume_report \<times> 'c drain_state" where
  "consume_public server deliver st =
     (let (result, store, owner, context, report, env) =
            vireo_inflight_store_consume_completion (Some (ds_store st)) server (Some (ds_remaining st)) deliver (ds_context st)
              (Some no_consume_report) (ds_env st) in
      (result, the report, st\<lparr>ds_store := the store, ds_remaining := the owner, ds_context := context, ds_env := env\<rparr>))"

fun drain_loop ::
  "('s \<Rightarrow> vireo_result \<times> vireo_completion_queue_transfer_report \<times> 's) \<Rightarrow>
   ('s \<Rightarrow> vireo_result \<times> vireo_inflight_completion_consume_report \<times> 's) \<Rightarrow> nat \<Rightarrow>
   vireo_inflight_completion_drain_report \<Rightarrow> 's \<Rightarrow> vireo_result \<times> vireo_inflight_completion_drain_report \<times> 's" where
  "drain_loop pop consume 0 v st = (VIREO_OK, v\<lparr>dr_stop_reason := VIREO_INFLIGHT_COMPLETION_DRAIN_BUDGET\<rparr>, st)"
| "drain_loop pop consume (Suc items) v st =
     (let v = v\<lparr>dr_last_item_consume_called := False, dr_consume_report := no_consume_report, dr_pop_calls := dr_pop_calls v + 1\<rparr>;
          (result, queue_report, st) = pop st;
          v = v\<lparr>dr_queue_report := queue_report, dr_received := (if cqt_transferred queue_report then dr_received v + 1 else dr_received v)\<rparr> in
      if result \<noteq> VIREO_OK
      then
        if result = VIREO_RESULT_NOT_FOUND \<and> \<not> cqt_transferred queue_report
        then (VIREO_OK, v\<lparr>dr_stop_reason := VIREO_INFLIGHT_COMPLETION_DRAIN_EMPTY\<rparr>, st)
        else (result, v\<lparr>dr_stage := VIREO_INFLIGHT_COMPLETION_DRAIN_POP, dr_stop_reason := VIREO_INFLIGHT_COMPLETION_DRAIN_ERROR\<rparr>, st)
      else
        let (result, report, st) = consume st;
            v = v\<lparr>dr_last_item_consume_called := True, dr_consume_report := report,
              dr_delivered := (if cr_delivery_called report \<and> cr_delivery_result report = VIREO_OK then dr_delivered v + 1 else dr_delivered v)\<rparr> in
        if result \<noteq> VIREO_OK
        then (result, v\<lparr>dr_stage := VIREO_INFLIGHT_COMPLETION_DRAIN_CONSUME, dr_stop_reason := VIREO_INFLIGHT_COMPLETION_DRAIN_ERROR\<rparr>, st)
        else
          let v = v\<lparr>dr_finished := dr_finished v + 1,
                dr_late_cleaned := (if cr_disposition report = VIREO_INFLIGHT_COMPLETION_CLIENT_GONE \<or>
                  cr_disposition report = VIREO_INFLIGHT_COMPLETION_REQUEST_GONE then dr_late_cleaned v + 1 else dr_late_cleaned v)\<rparr> in
          drain_loop pop consume items v st)"

text \<open>The pointer arguments of a drain are those of \<open>st\<close>; a NULL among them is \<open>None\<close>.\<close>

definition vireo_inflight_completion_drain_with_ops ::
  "vireo_tcp_server option \<Rightarrow> size_t \<Rightarrow> 'c deliver_fn option \<Rightarrow> vireo_inflight_completion_drain_report option \<Rightarrow>
   ('c drain_state \<Rightarrow> vireo_result \<times> vireo_completion_queue_transfer_report \<times> 'c drain_state) option \<Rightarrow>
   ('c drain_state \<Rightarrow> vireo_result \<times> vireo_inflight_completion_consume_report \<times> 'c drain_state) option \<Rightarrow> 'c drain_state option \<Rightarrow>
   vireo_result \<times> vireo_inflight_completion_drain_report option \<times> 'c drain_state option" where
  "vireo_inflight_completion_drain_with_ops server max_items deliver report pop consume st =
     (if Option.is_none server \<or> Option.is_none deliver \<or> report = None \<or> max_items = 0 \<or> Option.is_none pop \<or> Option.is_none consume \<or>
         Option.is_none st \<or> ds_remaining (the st) \<noteq> None
      then (VIREO_RESULT_INVALID_ARGUMENT, map_option (\<lambda>_. no_drain_report) report, st)
      else if max_items > VIREO_INFLIGHT_COMPLETION_DRAIN_MAX_ITEMS then (VIREO_RESULT_RANGE, Some no_drain_report, st)
      else
        let (result, v, st) = drain_loop (the pop) (the consume) (unat max_items) no_drain_report (the st) in
        (result, Some v, Some st))"

definition vireo_inflight_store_drain_completions where
  "vireo_inflight_store_drain_completions server max_items deliver report st =
     vireo_inflight_completion_drain_with_ops server max_items deliver report (Some pop_public) (Some (consume_public server deliver)) st"

subsection \<open>Cancelling the requests of a client\<close>

datatype vireo_inflight_client_cleanup_stage = VIREO_INFLIGHT_CLIENT_CLEANUP_NONE | VIREO_INFLIGHT_CLIENT_CLEANUP_CHECK_RECORD |
  VIREO_INFLIGHT_CLIENT_CLEANUP_REQUEST_CANCEL | VIREO_INFLIGHT_CLIENT_CLEANUP_RELEASE_CANCEL

datatype vireo_inflight_client_cleanup_stop = VIREO_INFLIGHT_CLIENT_CLEANUP_STOP_NONE | VIREO_INFLIGHT_CLIENT_CLEANUP_COMPLETE |
  VIREO_INFLIGHT_CLIENT_CLEANUP_BUDGET | VIREO_INFLIGHT_CLIENT_CLEANUP_ERROR

record vireo_inflight_client_cleanup_report =
  cc_stage :: vireo_inflight_client_cleanup_stage
  cc_stop_reason :: vireo_inflight_client_cleanup_stop
  cc_next_index :: size_t
  cc_scanned_slots :: size_t
  cc_matched_records :: size_t
  cc_cancel_requests :: size_t
  cc_without_cancel :: size_t
  cc_removed_records :: size_t
  cc_last_metadata :: vireo_task_metadata
  cc_last_cancel_requested :: bool

definition no_cleanup_report :: vireo_inflight_client_cleanup_report where
  "no_cleanup_report = \<lparr>cc_stage = VIREO_INFLIGHT_CLIENT_CLEANUP_NONE, cc_stop_reason = VIREO_INFLIGHT_CLIENT_CLEANUP_STOP_NONE,
     cc_next_index = 0, cc_scanned_slots = 0, cc_matched_records = 0, cc_cancel_requests = 0, cc_without_cancel = 0, cc_removed_records = 0,
     cc_last_metadata = no_metadata, cc_last_cancel_requested = False\<rparr>"

record vireo_inflight_client_cleanup_ops =
  cu_request :: "(nat option \<Rightarrow> task_env \<Rightarrow> vireo_result \<times> task_env) option"
  cu_release :: "(nat option option \<Rightarrow> task_env \<Rightarrow> vireo_result \<times> nat option option \<times> task_env) option"

definition request_public :: "nat option \<Rightarrow> task_env \<Rightarrow> vireo_result \<times> task_env" where
  "request_public cancel env = vireo_task_cancel_request cancel env"

definition release_public :: "nat option option \<Rightarrow> task_env \<Rightarrow> vireo_result \<times> nat option option \<times> task_env" where
  "release_public owner env = vireo_task_cancel_destroy owner env"

definition cleanup_default_ops :: vireo_inflight_client_cleanup_ops where
  "cleanup_default_ops = \<lparr>cu_request = Some request_public, cu_release = Some release_public\<rparr>"

definition belongs :: "vireo_task_metadata \<Rightarrow> vireo_connection_pool_lease \<Rightarrow> bool" where
  "belongs metadata client \<longleftrightarrow> rt_client_owner_id (md_route metadata) = cl_pool_id client \<and>
     rt_client_slot_index (md_route metadata) = cl_slot_index client \<and> rt_client_generation (md_route metadata) = cl_generation client"

text \<open>One matching slot: request cancellation, release the reference of the table, empty the slot.\<close>

definition cleanup_slot ::
  "vireo_inflight_client_cleanup_ops \<Rightarrow> vireo_inflight_store \<Rightarrow> vireo_inflight_client_cleanup_report \<Rightarrow> task_env \<Rightarrow>
   vireo_result \<times> vireo_inflight_store \<times> vireo_inflight_client_cleanup_report \<times> task_env" where
  "cleanup_slot ops s v env =
     (let i = unat (cc_next_index v); slot = st_slots s ! i;
          v = v\<lparr>cc_matched_records := cc_matched_records v + 1, cc_last_metadata := sl_metadata slot, cc_last_cancel_requested := False,
            cc_stop_reason := VIREO_INFLIGHT_CLIENT_CLEANUP_ERROR, cc_stage := VIREO_INFLIGHT_CLIENT_CLEANUP_CHECK_RECORD\<rparr> in
      if st_count s = 0 then (VIREO_RESULT_INTERNAL, s, v, env)
      else
        let (result, v, env) =
              (if sl_cancel slot \<noteq> None
               then
                 let v = v\<lparr>cc_stage := VIREO_INFLIGHT_CLIENT_CLEANUP_REQUEST_CANCEL\<rparr>; (result, env) = the (cu_request ops) (sl_cancel slot) env in
                 if result \<noteq> VIREO_OK then (result, v, env)
                 else (VIREO_OK, v\<lparr>cc_cancel_requests := cc_cancel_requests v + 1, cc_last_cancel_requested := True\<rparr>, env)
               else (VIREO_OK, v\<lparr>cc_without_cancel := cc_without_cancel v + 1\<rparr>, env)) in
        if result \<noteq> VIREO_OK then (result, s, v, env)
        else
          let v = v\<lparr>cc_stage := VIREO_INFLIGHT_CLIENT_CLEANUP_RELEASE_CANCEL\<rparr>;
              (result, cancel, env) = the (cu_release ops) (Some (sl_cancel slot)) env in
          if result \<noteq> VIREO_OK then (result, s\<lparr>st_slots := (st_slots s)[i := slot\<lparr>sl_cancel := the cancel\<rparr>]\<rparr>, v, env)
          else (VIREO_OK, s\<lparr>st_slots := (st_slots s)[i := \<lparr>sl_occupied = False, sl_metadata = no_metadata, sl_cancel = the cancel\<rparr>],
              st_count := st_count s - 1\<rparr>, v\<lparr>cc_removed_records := cc_removed_records v + 1\<rparr>, env))"

text \<open>The loop ends when the index reaches the capacity or the budget is used up; \<open>n\<close> slots lie between the index and the capacity.\<close>

fun cleanup_loop ::
  "nat \<Rightarrow> vireo_connection_pool_lease \<Rightarrow> size_t \<Rightarrow> vireo_inflight_client_cleanup_ops \<Rightarrow> vireo_inflight_store \<Rightarrow>
   vireo_inflight_client_cleanup_report \<Rightarrow> task_env \<Rightarrow> vireo_result \<times> vireo_inflight_store \<times> vireo_inflight_client_cleanup_report \<times> task_env" where
  "cleanup_loop 0 client max_slots ops s v env = (VIREO_OK, s, v, env)"
| "cleanup_loop (Suc n) client max_slots ops s v env =
     (if \<not> cc_scanned_slots v < max_slots then (VIREO_OK, s, v, env)
      else
        let slot = st_slots s ! unat (cc_next_index v); v = v\<lparr>cc_scanned_slots := cc_scanned_slots v + 1\<rparr>;
            (result, s, v, env) =
              (if sl_occupied slot \<and> belongs (sl_metadata slot) client then cleanup_slot ops s v env else (VIREO_OK, s, v, env)) in
        if result \<noteq> VIREO_OK then (result, s, v, env)
        else cleanup_loop n client max_slots ops s (v\<lparr>cc_next_index := cc_next_index v + 1\<rparr>) env)"

definition vireo_inflight_client_cleanup_with_ops ::
  "vireo_inflight_store option \<Rightarrow> vireo_connection_pool_lease \<Rightarrow> size_t \<Rightarrow> size_t \<Rightarrow> vireo_inflight_client_cleanup_report option \<Rightarrow>
   vireo_inflight_client_cleanup_ops option \<Rightarrow> task_env \<Rightarrow>
   vireo_result \<times> vireo_inflight_store option \<times> vireo_inflight_client_cleanup_report option \<times> task_env" where
  "vireo_inflight_client_cleanup_with_ops store client begin_index max_slots out ops env =
     (if store = None \<or> out = None \<or> max_slots = 0 \<or> Option.is_none ops \<or> Option.is_none (cu_request (the ops)) \<or>
         Option.is_none (cu_release (the ops))
      then (VIREO_RESULT_INVALID_ARGUMENT, store, map_option (\<lambda>_. no_cleanup_report) out, env)
      else if max_slots > VIREO_INFLIGHT_STORE_MAX_CAPACITY \<or> begin_index > st_capacity (the store)
      then (VIREO_RESULT_RANGE, store, Some no_cleanup_report, env)
      else if cl_pool_id client = 0 \<and> cl_slot_index client = 0 \<and> cl_generation client = 0
      then (VIREO_RESULT_NOT_FOUND, store, Some no_cleanup_report, env)
      else if cl_pool_id client = 0 \<or> cl_generation client = 0
      then (VIREO_RESULT_INVALID_ARGUMENT, store, Some no_cleanup_report, env)
      else
        let s = the store; v = no_cleanup_report\<lparr>cc_next_index := begin_index\<rparr> in
        if st_count s > st_capacity s
        then (VIREO_RESULT_INTERNAL, store, Some (v\<lparr>cc_stage := VIREO_INFLIGHT_CLIENT_CLEANUP_CHECK_RECORD,
          cc_stop_reason := VIREO_INFLIGHT_CLIENT_CLEANUP_ERROR\<rparr>), env)
        else
          let (result, s, v, env) = cleanup_loop (unat (st_capacity s) - unat begin_index) client max_slots (the ops) s v env in
          if result \<noteq> VIREO_OK then (result, Some s, Some v, env)
          else (VIREO_OK, Some s, Some (v\<lparr>cc_stage := VIREO_INFLIGHT_CLIENT_CLEANUP_NONE, cc_stop_reason :=
            (if cc_next_index v = st_capacity s then VIREO_INFLIGHT_CLIENT_CLEANUP_COMPLETE else VIREO_INFLIGHT_CLIENT_CLEANUP_BUDGET)\<rparr>), env))"

definition vireo_inflight_store_cancel_client_batch where
  "vireo_inflight_store_cancel_client_batch store client begin_index max_slots out env =
     vireo_inflight_client_cleanup_with_ops store client begin_index max_slots out (Some cleanup_default_ops) env"

end
