(* ===== verification/Thread_Task_Lifetime.thy ===== *)
theory Thread_Task_Lifetime
  imports Thread_Task_Objects "HOL-Library.Multiset"
begin

text \<open>
  Ownership of tasks, completions and shared cancellation objects. A session has arrays of owner variables, each NULL or holding one
  object, and runs the operations of \<^verbatim>\<open>src/thread/task.c\<close>, \<^verbatim>\<open>task_cancel.c\<close> and \<^verbatim>\<open>completion.c\<close> on them; an index outside the array
  stands for a NULL pointer argument. The locale \<open>owner_api\<close> states what destroy and move of one kind of object promise about the
  invariant; it is interpreted for the three kinds.
\<close>

subsection \<open>Owner variables\<close>

text \<open>The objects held by one owner variable behind a pointer, and by an array of owner variables.\<close>

fun held :: "'a option option \<Rightarrow> 'a multiset" where
  "held (Some (Some x)) = {#x#}"
| "held (Some None) = {#}"
| "held None = {#}"

fun owned :: "'a option list \<Rightarrow> 'a multiset" where
  "owned [] = {#}"
| "owned (x # xs) = held (Some x) + owned xs"

definition variable :: "'a option list \<Rightarrow> nat \<Rightarrow> 'a option option" where
  "variable xs i = (if i < length xs then Some (xs ! i) else None)"

fun assign :: "'a option list \<Rightarrow> nat \<Rightarrow> 'a option option \<Rightarrow> 'a option list" where
  "assign xs i None = xs"
| "assign xs i (Some v) = xs[i := v]"

lemma owned_split:
  "i < length xs \<Longrightarrow> owned xs = held (Some (xs ! i)) + owned (xs[i := None])"
proof (induction xs arbitrary: i)
  case (Cons x xs)
  then show ?case by (cases i) (auto simp: ac_simps)
qed simp

definition others_owned :: "'a option list \<Rightarrow> nat \<Rightarrow> 'a multiset" where
  "others_owned xs i = (if i < length xs then owned (xs[i := None]) else owned xs)"

lemma owned_variable: "owned xs = held (variable xs i) + others_owned xs i"
  using owned_split [of i xs] by (simp add: variable_def others_owned_def)

lemma owned_assign:
  assumes "w = None \<longleftrightarrow> variable xs i = None"
  shows "owned (assign xs i w) = held w + others_owned xs i"
proof (cases w)
  case None
  with assms show ?thesis by (simp add: variable_def others_owned_def split: if_splits)
next
  case (Some v)
  with assms have "i < length xs" by (simp add: variable_def split: if_splits)
  with Some show ?thesis using owned_split [of i "xs[i := v]"] by (simp add: others_owned_def)
qed

lemma variable_in_owned: "variable xs i = Some (Some x) \<Longrightarrow> x \<in># owned xs"
  using owned_split [of i xs] by (auto simp: variable_def split: if_splits)

lemma owned_empty_iff: "owned xs = {#} \<longleftrightarrow> set xs \<subseteq> {None}"
proof (induction xs)
  case (Cons x xs)
  then show ?case by (cases x) auto
qed simp

subsection \<open>The invariant\<close>

text \<open>
  \<open>H\<close> holds every reference to a cancellation object, once per holder; \<open>B\<close> the other live blocks; \<open>R\<close> the blocks released before.
\<close>

definition references :: "(nat \<times> vireo_task_cancel) list \<Rightarrow> nat \<Rightarrow> nat" where
  "references cs a = (case map_of cs a of None \<Rightarrow> 0 | Some c \<Rightarrow> unat (tc_references c))"

definition erased_since :: "bytes list \<Rightarrow> vireo_heap \<Rightarrow> bool" where
  "erased_since R h \<longleftrightarrow> (\<exists>zs. heap_released h = zs @ R \<and> (\<forall>z \<in> set zs. set z \<subseteq> {0}))"

definition env_inv :: "bytes list \<Rightarrow> nat multiset \<Rightarrow> nat multiset \<Rightarrow> task_env \<Rightarrow> bool" where
  "env_inv R H B env \<longleftrightarrow>
     heap_wf (te_heap env) \<and> erased_since R (te_heap env) \<and>
     mset (map fst (heap_live (te_heap env))) = B + mset (map fst (te_cancels env)) \<and>
     (\<forall>a. count H a = references (te_cancels env) a) \<and> (\<forall>(a, c) \<in> set (te_cancels env). tc_references c \<noteq> 0)"

lemma env_inv_distinct:
  assumes "env_inv R H B env"
  shows "distinct (map fst (te_cancels env)) \<and> (\<forall>a \<in># B. a \<notin> fst ` set (te_cancels env))"
proof -
  obtain bs where bs: "mset bs = B" using ex_mset by blast
  have "mset (map fst (heap_live (te_heap env))) = mset (bs @ map fst (te_cancels env))"
    and "distinct (map fst (heap_live (te_heap env)))"
    using assms bs unfolding env_inv_def heap_wf_def by simp_all
  then have "distinct (bs @ map fst (te_cancels env))"
    using mset_eq_imp_distinct_iff by blast
  with bs show ?thesis by (auto simp: disjoint_iff image_iff) force
qed

lemma drop_key_mset:
  "distinct (map fst xs) \<Longrightarrow> mset (map fst (filter (\<lambda>(b, d). b \<noteq> a) xs)) = mset (map fst xs) - {#a#}"
proof -
  assume d: "distinct (map fst xs)"
  have "map fst (filter (\<lambda>(b, d). b \<noteq> a) xs) = filter (\<lambda>b. b \<noteq> a) (map fst xs)"
    by (induction xs) auto
  also have "\<dots> = remove1 a (map fst xs)"
    using distinct_remove1_removeAll [OF d, of a] removeAll_filter_not_eq [of a] by (simp add: eq_commute)
  finally show ?thesis by (metis mset_remove1)
qed

lemma map_of_drop_key: "map_of (filter (\<lambda>(b, d). b \<noteq> a) xs) x = (if x = a then None else map_of xs x)"
  by (induction xs) auto

lemma map_of_set_cancel:
  "map_of (te_cancels (set_cancel a c env)) x = (if x = a then map_option (\<lambda>_. c) (map_of (te_cancels env) a) else map_of (te_cancels env) x)"
proof -
  have "map_of (map (\<lambda>(b, d). if b = a then (b, c) else (b, d)) cs) x = (if x = a then map_option (\<lambda>_. c) (map_of cs a) else map_of cs x)" for cs
    by (induction cs) auto
  then show ?thesis by (simp add: set_cancel_def)
qed

lemma drop_set_cancel:
  "filter (\<lambda>(b, d). b \<noteq> a) (te_cancels (set_cancel a c env)) = filter (\<lambda>(b, d). b \<noteq> a) (te_cancels env)"
proof -
  have "filter (\<lambda>(b, d). b \<noteq> a) (map (\<lambda>(b, d). if b = a then (b, c) else (b, d)) cs) = filter (\<lambda>(b, d). b \<noteq> a) cs" for cs
    by (induction cs) auto
  then show ?thesis by (simp add: set_cancel_def)
qed

lemma overwrite_set_cancel:
  "(set_cancel a c env)\<lparr>te_heap := h, te_cancels := cs\<rparr> = env\<lparr>te_heap := h, te_cancels := cs\<rparr>"
  by (simp add: set_cancel_def)

lemma keys_set_cancel [simp]: "map fst (te_cancels (set_cancel a c env)) = map fst (te_cancels env)"
  by (auto simp: set_cancel_def)

lemma heap_set_cancel [simp]: "te_heap (set_cancel a c env) = te_heap env"
  by (simp add: set_cancel_def)

lemma env_inv_held:
  assumes "env_inv R H B env" "a \<in># H"
  obtains c where "map_of (te_cancels env) a = Some c" "cancel_at a env = c" "unat (tc_references c) = count H a" "tc_references c \<noteq> 0"
proof (cases "map_of (te_cancels env) a")
  case None
  then show ?thesis using assms by (simp add: env_inv_def references_def flip: count_greater_zero_iff)
next
  case (Some c)
  then have "(a, c) \<in> set (te_cancels env)" by (rule map_of_SomeD)
  then show ?thesis using that [of c] Some assms by (auto simp: env_inv_def references_def cancel_at_def)
qed

lemma refs_nonzero:
  "distinct (map fst cs) \<Longrightarrow> (\<forall>(a, c) \<in> set cs. tc_references c \<noteq> 0) \<longleftrightarrow> (\<forall>a c. map_of cs a = Some c \<longrightarrow> tc_references c \<noteq> 0)"
  by (auto dest: map_of_SomeD)

lemma env_inv_set:
  assumes inv: "env_inv R H B env" and "a \<in># H" and "tc_references c \<noteq> 0"
    and H': "\<And>x. count H' x = (if x = a then unat (tc_references c) else count H x)"
  shows "env_inv R H' B (set_cancel a c env)"
proof -
  obtain d where d: "map_of (te_cancels env) a = Some d" using env_inv_held [OF assms(1,2)] by blast
  have "distinct (map fst (te_cancels env))" using env_inv_distinct [OF inv] by blast
  then have "\<forall>(b, e) \<in> set (te_cancels (set_cancel a c env)). tc_references e \<noteq> 0"
    using inv assms(3) refs_nonzero [of "te_cancels env"] refs_nonzero [of "te_cancels (set_cancel a c env)"]
    by (auto simp: env_inv_def map_of_set_cancel)
  moreover have "count H' x = references (te_cancels (set_cancel a c env)) x" for x
    using H' d inv by (simp add: references_def map_of_set_cancel env_inv_def)
  ultimately show ?thesis using inv by (simp add: env_inv_def del: list.map mset_map)
qed

lemma env_inv_block:
  assumes inv: "env_inv R H B env" and a: "allocate_default (te_heap env) n = (b, h)"
  shows "env_inv R H (held (Some b) + B) (env\<lparr>te_heap := h\<rparr>)"
  using inv allocate_wf [OF _ a] allocate_None [of "te_heap env" n h] allocate_Some [of "te_heap env" n _ h] a
  by (cases b) (auto simp: env_inv_def erased_since_def)

lemma env_inv_release:
  assumes inv: "env_inv R H (add_mset b B) env" and z: "set contents \<subseteq> {0}"
  shows "env_inv R H B (env\<lparr>te_heap := deallocate_default (te_heap env) b contents\<rparr>)"
proof -
  have "distinct (map fst (heap_live (te_heap env)))" using inv by (simp add: env_inv_def heap_wf_def)
  from drop_key_mset [OF this, of b]
  have "mset (map fst (heap_live (deallocate_default (te_heap env) b contents))) = B + mset (map fst (te_cancels env))"
    using inv by (simp add: env_inv_def deallocate_default_def)
  moreover have "erased_since R (deallocate_default (te_heap env) b contents)"
  proof -
    obtain zs where "heap_released (te_heap env) = zs @ R" "\<forall>z \<in> set zs. set z \<subseteq> {0}"
      using inv by (auto simp: env_inv_def erased_since_def)
    with z show ?thesis
      unfolding erased_since_def by (intro exI [of _ "contents # zs"]) (simp add: deallocate_default_def)
  qed
  ultimately show ?thesis using inv by (simp add: env_inv_def deallocate_wf del: mset_map)
qed

text \<open>The table of objects and the heap agree on the block of a cancellation object: it is created and dropped in both.\<close>

lemma env_inv_new:
  assumes inv: "env_inv R H (add_mset a B) env" and "a \<notin># H" and "a \<notin># B"
  shows "env_inv R (add_mset a H) B (env\<lparr>te_cancels := (a, \<lparr>tc_references = 1, tc_requested = q\<rparr>) # te_cancels env\<rparr>)"
proof -
  have "references (te_cancels env) a = 0" using assms by (metis env_inv_def count_eq_zero_iff)
  then show ?thesis using inv by (auto simp: env_inv_def references_def)
qed

lemma env_inv_drop:
  assumes inv: "env_inv R (add_mset a H) B env" and last: "a \<notin># H"
  shows "env_inv R H B (env\<lparr>te_heap := deallocate_default (te_heap env) a [], te_cancels := filter (\<lambda>(b, d). b \<noteq> a) (te_cancels env)\<rparr>)"
proof -
  let ?cs = "filter (\<lambda>(b, d). b \<noteq> a) (te_cancels env)"
  obtain c where c: "map_of (te_cancels env) a = Some c" using env_inv_held [OF inv, of a] by auto
  then have "a \<in># mset (map fst (te_cancels env))" by (metis map_of_eq_None_iff option.discI set_map set_mset_mset)
  moreover have d: "distinct (map fst (te_cancels env))" using env_inv_distinct [OF inv] by blast
  ultimately have keys: "mset (map fst (te_cancels env)) = add_mset a (mset (map fst ?cs))"
    unfolding drop_key_mset [OF d] by (metis insert_DiffM)
  have "count H x = references ?cs x" for x
  proof (cases "x = a")
    case True
    with last show ?thesis by (simp add: references_def map_of_drop_key count_eq_zero_iff)
  next
    case False
    then have "count H x = references (te_cancels env) x" using inv by (metis env_inv_def count_add_mset)
    with False show ?thesis by (simp add: references_def map_of_drop_key)
  qed
  moreover have "\<forall>(b, e) \<in> set ?cs. tc_references e \<noteq> 0" using inv by (auto simp: env_inv_def)
  ultimately have "env_inv R H (add_mset a B) (env\<lparr>te_cancels := ?cs\<rparr>)"
    using inv keys by (simp add: env_inv_def del: mset_map)
  from env_inv_release [OF this, of "[]"] show ?thesis by (cases env) simp
qed

text \<open>\<open>Q\<close> holds the objects whose cancellation was requested at any time; block numbers are not reused.\<close>

definition asked :: "nat set \<Rightarrow> task_env \<Rightarrow> bool" where
  "asked Q env \<longleftrightarrow> (\<forall>a c. map_of (te_cancels env) a = Some c \<longrightarrow> (tc_requested c \<longleftrightarrow> a \<in> Q)) \<and> (\<forall>a \<in> Q. a < heap_calls (te_heap env))"

definition env_ok :: "bytes list \<Rightarrow> nat set \<Rightarrow> nat multiset \<Rightarrow> nat multiset \<Rightarrow> task_env \<Rightarrow> bool" where
  "env_ok R Q H B env \<longleftrightarrow> env_inv R H B env \<and> asked Q env"

subsection \<open>Cancellation objects\<close>

lemma cancel_create_ok:
  assumes ok: "env_ok R Q (held v + H) B env" and call: "vireo_task_cancel_create_with_allocator budget al v env = (r, v', env')"
  shows "env_ok R Q (held v' + H) B env' \<and> (v' = None \<longleftrightarrow> v = None)"
proof -
  obtain m h where m: "allocate_default (te_heap env) sizeof_task_cancel = (m, h)" by fastforce
  have "v' = v \<and> env' = env \<or> v' = v \<and> m = None \<and> env' = env\<lparr>te_heap := h\<rparr> \<or>
     (v = Some None \<and> (\<exists>a. m = Some a \<and> v' = Some (Some a) \<and>
        env' = env\<lparr>te_heap := h, te_cancels := (a, \<lparr>tc_references = 1, tc_requested = False\<rparr>) # te_cancels env\<rparr>))"
    using call m by (cases v; cases m) (simp_all add: vireo_task_cancel_create_with_allocator_def split: if_splits)
  then consider "v' = v" "env' = env" | "v' = v" "m = None" "env' = env\<lparr>te_heap := h\<rparr>"
    | a where "v = Some None" "m = Some a" "v' = Some (Some a)"
      "env' = env\<lparr>te_heap := h, te_cancels := (a, \<lparr>tc_references = 1, tc_requested = False\<rparr>) # te_cancels env\<rparr>"
    by blast
  then show ?thesis
  proof cases
    case 1
    with ok show ?thesis by simp
  next
    case 2
    with ok m env_inv_block [of R "held v + H" B env _ None h] show ?thesis
      by (auto simp: env_ok_def asked_def allocate_default_def Let_def split: if_splits)
  next
    case (3 a)
    note alloc = m [unfolded 3(2)]
    have inv: "env_inv R H B env" and q: "asked Q env" using ok 3(1) by (simp_all add: env_ok_def)
    have live: "\<forall>x \<in># B + mset (map fst (te_cancels env)). x < heap_calls (te_heap env)"
      using inv unfolding env_inv_def heap_wf_def by (metis set_mset_mset)
    have a: "a = heap_calls (te_heap env)" "heap_calls h = Suc a" using allocate_Some [OF alloc] by simp_all
    have "a \<notin># H"
    proof
      assume "a \<in># H"
      then obtain c where "map_of (te_cancels env) a = Some c" using env_inv_held [OF inv] by blast
      then have "a \<in># mset (map fst (te_cancels env))" by (metis map_of_eq_None_iff option.discI set_map set_mset_mset)
      then have "a < a" using live a(1) by (metis Un_iff set_mset_union)
      then show False by simp
    qed
    moreover have "a \<notin># B" using live a(1) by auto
    ultimately have "env_inv R (add_mset a H) B env'"
      using env_inv_new [OF env_inv_block [OF inv alloc, simplified], of False] 3(4) by simp
    moreover have "asked Q env'"
      using q a 3(4) by (auto simp: asked_def)
    ultimately show ?thesis using 3 by (simp add: env_ok_def)
  qed
qed

lemma asked_set_cancel:
  "asked Q env \<Longrightarrow> tc_requested c = (a \<in> Q) \<Longrightarrow> asked Q (set_cancel a c env)"
  by (auto simp: asked_def map_of_set_cancel split: if_splits)

lemma retain_loop_cases: "retain_loop races n = (r, m) \<Longrightarrow> r = VIREO_OK \<Longrightarrow> n \<noteq> UINT64_MAX \<and> m = n + 1"
  by (induction races n rule: retain_loop.induct) (auto split: if_splits)

lemma cancel_retain_ok:
  assumes ok: "env_ok R Q (held v + H) B env" and call: "vireo_task_cancel_retain cancel v races env = (r, v', env')"
    and live: "\<And>a. cancel = Some a \<Longrightarrow> a \<in># held v + H"
  shows "env_ok R Q (held v' + H) B env' \<and> (v' = None \<longleftrightarrow> v = None)"
proof (cases "cancel = None \<or> v = None \<or> the v \<noteq> None")
  case True
  then show ?thesis using call ok by (auto simp: vireo_task_cancel_retain_def)
next
  case False
  then obtain a where a: "cancel = Some a" "v = Some None" "a \<in># H" using live by (auto split: option.splits)
  then have inv: "env_inv R H B env" and q: "asked Q env" using ok by (simp_all add: env_ok_def)
  obtain c where c: "map_of (te_cancels env) a = Some c" "cancel_at a env = c" "unat (tc_references c) = count H a"
    using env_inv_held [OF inv a(3)] by blast
  obtain s m where sm: "retain_loop races (tc_references c) = (s, m)" by fastforce
  show ?thesis
  proof (cases "s = VIREO_OK")
    case True
    from retain_loop_cases [OF sm True] have m: "tc_references c \<noteq> UINT64_MAX" "m = tc_references c + 1" by simp_all
    then have "unat m = Suc (unat (tc_references c))"
      by (metis add.commute add_neg_numeral_special(7) add_left_imp_eq unatSuc)
    then have "count (add_mset a H) x = (if x = a then unat (tc_references (c\<lparr>tc_references := m\<rparr>)) else count H x)" and "m \<noteq> 0" for x
      using c(3) by auto
    from env_inv_set [OF inv a(3) _ this(1)] this(2)
    have "env_inv R (add_mset a H) B (set_cancel a (c\<lparr>tc_references := m\<rparr>) env)" by simp
    moreover have "asked Q (set_cancel a (c\<lparr>tc_references := m\<rparr>) env)"
      using q c(1) by (intro asked_set_cancel) (auto simp: asked_def)
    ultimately show ?thesis
      using call a(1,2) c(2) sm True by (auto simp: vireo_task_cancel_retain_def env_ok_def)
  next
    case False
    then show ?thesis using call a(1,2) c(2) sm ok by (auto simp: vireo_task_cancel_retain_def)
  qed
qed

lemma cancel_request_ok:
  assumes ok: "env_ok R Q H B env" and call: "vireo_task_cancel_request cancel env = (r, env')"
    and live: "\<And>a. cancel = Some a \<Longrightarrow> a \<in># H"
  shows "env_ok R (Q \<union> set_option cancel) H B env'"
proof (cases cancel)
  case None
  then show ?thesis using call ok by (simp add: vireo_task_cancel_request_def)
next
  case (Some a)
  have inv: "env_inv R H B env" and q: "asked Q env" using ok by (simp_all add: env_ok_def)
  obtain c where c: "map_of (te_cancels env) a = Some c" "cancel_at a env = c" "unat (tc_references c) = count H a" "tc_references c \<noteq> 0"
    using env_inv_held [OF inv] live Some by blast
  have "env_inv R H B (set_cancel a (c\<lparr>tc_requested := True\<rparr>) env)"
    using env_inv_set [OF inv, of a "c\<lparr>tc_requested := True\<rparr>" H] c live Some by simp
  moreover have "a < heap_calls (te_heap env)"
  proof -
    have "a \<in># mset (map fst (te_cancels env))" using c(1) by (metis map_of_eq_None_iff option.discI set_map set_mset_mset)
    then show ?thesis using inv unfolding env_inv_def heap_wf_def by (metis UnCI set_mset_mset set_mset_union)
  qed
  then have "asked (insert a Q) (set_cancel a (c\<lparr>tc_requested := True\<rparr>) env)"
    using q by (auto simp: asked_def map_of_set_cancel split: if_splits)
  ultimately show ?thesis
    using call Some c(2) by (auto simp: vireo_task_cancel_request_def env_ok_def)
qed

lemma cancel_destroy_ok:
  assumes ok: "env_ok R Q (held v + H) B env" and call: "vireo_task_cancel_destroy v env = (r, v', env')"
  shows "env_ok R Q H B env' \<and> v' = map_option (\<lambda>_. None) v \<and> (v \<noteq> None \<longrightarrow> r = VIREO_OK) \<and> heap_fill (te_heap env') = heap_fill (te_heap env)"
proof (cases "\<exists>a. v = Some (Some a)")
  case False
  then show ?thesis using call ok by (auto simp: vireo_task_cancel_destroy_def split: option.splits)
next
  case True
  then obtain a where a: "v = Some (Some a)" by blast
  then have inv: "env_inv R (add_mset a H) B env" and q: "asked Q env" using ok by (simp_all add: env_ok_def)
  obtain c where c: "map_of (te_cancels env) a = Some c" "cancel_at a env = c" "unat (tc_references c) = Suc (count H a)" "tc_references c \<noteq> 0"
    using env_inv_held [OF inv, of a] by auto
  let ?c = "c\<lparr>tc_references := tc_references c - 1\<rparr>"
  have minus: "unat (tc_references c - 1) = count H a" using c(3,4) by (simp add: unat_minus_one)
  have asked: "asked Q (set_cancel a d env)" if "d = c \<or> d = ?c" for d
    using q c(1) that by (intro asked_set_cancel) (auto simp: asked_def)
  show ?thesis
  proof (cases "tc_references c = 1")
    case True
    with c(3) have "a \<notin># H" by (simp add: not_in_iff)
    let ?env = "env\<lparr>te_heap := deallocate_default (te_heap env) a [], te_cancels := filter (\<lambda>(b, d). b \<noteq> a) (te_cancels env)\<rparr>"
    have "env' = ?env"
      using call a c(2) True by (simp add: vireo_task_cancel_destroy_def Let_def drop_set_cancel overwrite_set_cancel)
    moreover have "asked Q ?env" using q by (auto simp: asked_def map_of_drop_key deallocate_default_def)
    ultimately show ?thesis
      using call a env_inv_drop [OF inv \<open>a \<notin># H\<close>] by (auto simp: env_ok_def vireo_task_cancel_destroy_def Let_def deallocate_default_def)
  next
    case False
    then have nz: "tc_references ?c \<noteq> 0" by simp
    have "env_inv R H B (set_cancel a ?c env)"
      using env_inv_set [OF inv, of a ?c H] minus nz by simp
    then show ?thesis
      using call a c(2) False asked by (auto simp: vireo_task_cancel_destroy_def Let_def env_ok_def)
  qed
qed

subsection \<open>Tasks and completions\<close>

definition task_wf :: "vireo_task \<Rightarrow> bool" where
  "task_wf t \<longleftrightarrow> metadata_has_valid_shape (tk_metadata t) \<and> length (tk_payload t) = unat (tk_payload_size t) \<and>
     unat (tk_allocated_bytes t) = unat sizeof_task + unat (tk_payload_size t) \<and> tk_allocated_bytes t \<le> VIREO_TASK_MAX_ALLOCATION_BYTES"

definition completion_wf :: "vireo_completion \<Rightarrow> bool" where
  "completion_wf t \<longleftrightarrow> completion_has_valid_shape (cp_metadata t) \<and> length (cp_payload t) = unat (cp_payload_size t) \<and>
     unat (cp_allocated_bytes t) = unat sizeof_completion + unat (cp_payload_size t) \<and>
     cp_allocated_bytes t \<le> VIREO_COMPLETION_MAX_ALLOCATION_BYTES"

text \<open>The references and the blocks that a collection of tasks accounts for.\<close>

definition refs_of :: "vireo_task multiset \<Rightarrow> nat multiset" where
  "refs_of ts = (\<Sum>t \<in># ts. held (Some (tk_cancel t)))"

lemma refs_of_simps [simp]:
  "refs_of {#} = {#}" "refs_of (add_mset t ts) = held (Some (tk_cancel t)) + refs_of ts" "refs_of (ts + us) = refs_of ts + refs_of us"
  by (simp_all add: refs_of_def)

definition tasks_ok :: "bytes list \<Rightarrow> nat set \<Rightarrow> nat multiset \<Rightarrow> nat multiset \<Rightarrow> vireo_task multiset \<Rightarrow> task_env \<Rightarrow> bool" where
  "tasks_ok R Q H B ts env \<longleftrightarrow> env_ok R Q (refs_of ts + H) (image_mset tk_self ts + B) env \<and> (\<forall>t \<in># ts. task_wf t)"

lemma task_destroy_ok:
  assumes ok: "tasks_ok R Q H B (held v + ts) env" and call: "vireo_task_destroy v env = (r, v', env')"
  shows "tasks_ok R Q H B ts env' \<and> v' = map_option (\<lambda>_. None) v \<and> (v \<noteq> None \<longrightarrow> r = VIREO_OK)"
proof (cases "\<exists>t. v = Some (Some t)")
  case False
  then show ?thesis using call ok by (auto simp: vireo_task_destroy_def split: option.splits)
next
  case True
  then obtain t where t: "v = Some (Some t)" by blast
  obtain r1 v1 env1 where d: "vireo_task_cancel_destroy (Some (tk_cancel t)) env = (r1, v1, env1)" by (metis prod_cases3)
  have ok1: "env_ok R Q (held (Some (tk_cancel t)) + (refs_of ts + H)) (add_mset (tk_self t) (image_mset tk_self ts + B)) env"
    and wf: "task_wf t" and wfs: "\<forall>t \<in># ts. task_wf t"
    using ok t by (simp_all add: tasks_ok_def ac_simps)
  from cancel_destroy_ok [OF ok1 d]
  have ok2: "env_ok R Q (refs_of ts + H) (add_mset (tk_self t) (image_mset tk_self ts + B)) env1" and r1: "r1 = VIREO_OK" by simp_all
  let ?memory = "clear_at 0 (tk_allocated_bytes t) (fresh_bytes (te_heap env1) sizeof_task @ tk_payload t)"
  have zero: "set ?memory \<subseteq> {0}"
    using wf by (subst clear_at_all) (auto simp: task_wf_def fresh_bytes_def)
  have "env_ok R Q (refs_of ts + H) (image_mset tk_self ts + B) (env1\<lparr>te_heap := deallocate_default (te_heap env1) (tk_self t) ?memory\<rparr>)"
    using ok2 env_inv_release [OF _ zero] by (auto simp: env_ok_def asked_def deallocate_default_def)
  moreover have "env' = env1\<lparr>te_heap := deallocate_default (te_heap env1) (tk_self t) ?memory\<rparr>" "r = VIREO_OK" "v' = Some None"
    using call t d r1 by (simp_all add: vireo_task_destroy_def Let_def)
  ultimately show ?thesis using t wfs by (simp add: tasks_ok_def)
qed

lemma deadline_query_shape:
  "fst (vireo_task_metadata_deadline_expired md now (Some e)) = VIREO_OK \<longleftrightarrow> metadata_has_valid_shape md"
  by (simp add: vireo_task_metadata_deadline_expired_def)

text \<open>What the caller of a creating operation provides: the bytes it announces.\<close>

abbreviation readable :: "bytes option \<Rightarrow> size_t \<Rightarrow> bool" where
  "readable data n \<equiv> data \<noteq> None \<longrightarrow> unat n \<le> length (the data)"

definition task_made :: "vireo_task_metadata \<Rightarrow> bytes option \<Rightarrow> size_t \<Rightarrow> nat option \<Rightarrow> size_t \<Rightarrow> nat \<Rightarrow> vireo_task" where
  "task_made metadata data n cancel sz self =
     \<lparr>tk_metadata = metadata, tk_payload_size = n, tk_allocated_bytes = sz, tk_cancel = cancel,
      tk_payload = (if n \<noteq> 0 then take (unat n) (the data) else []), tk_self = self\<rparr>"

lemma task_made_wf:
  assumes "metadata_has_valid_shape metadata" and "n \<noteq> 0 \<longrightarrow> data \<noteq> None" and "readable data n"
    and "vireo_checked_size_add sizeof_task n (Some 0) = (VIREO_OK, Some sz)" and "sz \<le> VIREO_TASK_MAX_ALLOCATION_BYTES"
  shows "task_wf (task_made metadata data n cancel sz self)"
  using assms by (auto simp: task_wf_def task_made_def size_add_Some unat_add_less split: if_splits)

lemma create_copy_outcome:
  assumes call: "create_copy metadata data n budget cancel al v races env = (r, v', env')"
    and shape: "fst (vireo_task_metadata_deadline_expired metadata 0 (Some False)) = VIREO_OK \<longleftrightarrow> metadata_has_valid_shape metadata"
  obtains "v' = v" "env' = env" "r \<noteq> VIREO_OK"
  | sz r1 held_cancel env1 m h where "v = Some None" "metadata_has_valid_shape metadata" "n \<noteq> 0 \<longrightarrow> data \<noteq> None"
      "vireo_checked_size_add sizeof_task n (Some 0) = (VIREO_OK, Some sz)" "sz \<le> VIREO_TASK_MAX_ALLOCATION_BYTES"
      "(if cancel \<noteq> None then vireo_task_cancel_retain cancel (Some None) races env else (VIREO_OK, Some None, env)) = (r1, held_cancel, env1)"
      "allocate_default (te_heap env1) sz = (m, h)"
      "(r, v', env') = (if r1 \<noteq> VIREO_OK then (r1, v, env1) else case m of
         None \<Rightarrow> (let (result, hc, e) = vireo_task_cancel_destroy held_cancel (env1\<lparr>te_heap := h\<rparr>) in
            (if result = VIREO_OK then VIREO_RESULT_NO_MEMORY else result, v, e))
       | Some self \<Rightarrow> (VIREO_OK, Some (Some (task_made metadata data n (the held_cancel) sz self)), env1\<lparr>te_heap := h\<rparr>))"
proof -
  obtain r0 e0 where d: "vireo_task_metadata_deadline_expired metadata 0 (Some False) = (r0, e0)" by fastforce
  obtain r2 sz where a: "vireo_checked_size_add sizeof_task n (Some 0) = (r2, sz)" by fastforce
  obtain r1 hc env1 where c: "(if cancel \<noteq> None then vireo_task_cancel_retain cancel (Some None) races env else (VIREO_OK, Some None, env)) = (r1, hc, env1)"
    by (metis prod_cases3)
  obtain m h where m: "allocate_default (te_heap env1) (the sz) = (m, h)" by fastforce
  show thesis
  proof (cases "v = None \<or> the v \<noteq> None \<or> budget = 0 \<or> (n \<noteq> 0 \<and> data = None) \<or> \<not> allocator_usable al \<or> r0 \<noteq> VIREO_OK \<or>
      r2 \<noteq> VIREO_OK \<or> budget > VIREO_TASK_MAX_ALLOCATION_BYTES \<or> the sz > budget")
    case True
    then have "v' = v \<and> env' = env \<and> r \<noteq> VIREO_OK"
      using call unfolding create_copy_def d a by (auto split: if_splits)
    then show ?thesis using that(1) by blast
  next
    case False
    then obtain s where s: "sz = Some s" using a by (auto simp: vireo_checked_size_add_def split: if_splits)
    note m = m [unfolded s option.sel]
    have "(v = None \<or> the v \<noteq> None \<or> budget = 0 \<or> (n \<noteq> 0 \<and> data = None) \<or> \<not> allocator_usable al) = False"
      and "(r0 \<noteq> VIREO_OK) = False" and "(r2 \<noteq> VIREO_OK) = False" and "(budget > VIREO_TASK_MAX_ALLOCATION_BYTES \<or> s > budget) = False"
      using False s by auto
    note guards = this
    have "create_copy metadata data n budget cancel al v races env = (if r1 \<noteq> VIREO_OK then (r1, v, env1) else case m of
         None \<Rightarrow> (let (result, hc, e) = vireo_task_cancel_destroy hc (env1\<lparr>te_heap := h\<rparr>) in
            (if result = VIREO_OK then VIREO_RESULT_NO_MEMORY else result, v, e))
       | Some self \<Rightarrow> (VIREO_OK, Some (Some (task_made metadata data n (the hc) s self)), env1\<lparr>te_heap := h\<rparr>))"
      unfolding create_copy_def d a c m s Let_def prod.case option.sel guards if_False task_made_def by (rule refl)
    with False s d a c m shape call show ?thesis by (intro that(2) [of s r1 hc env1 m h]) auto
  qed
qed

lemma create_copy_ok:
  assumes ok: "tasks_ok R Q H B (held v + ts) env" and rd: "readable data n"
    and call: "create_copy metadata data n budget cancel al v races env = (r, v', env')"
    and live: "\<And>a. cancel = Some a \<Longrightarrow> a \<in># refs_of (held v + ts) + H"
  shows "tasks_ok R Q H B (held v' + ts) env' \<and> (v' = None \<longleftrightarrow> v = None)"
proof (rule create_copy_outcome [OF call deadline_query_shape], goal_cases)
  case 1
  then show ?thesis using ok by simp
next
  case (2 sz r1 hc env1 m h)
  have ok0: "env_ok R Q (held (Some None) + (refs_of ts + H)) (image_mset tk_self ts + B) env" and wfs: "\<forall>t \<in># ts. task_wf t"
    using ok 2(1) by (simp_all add: tasks_ok_def)
  have ok1: "env_ok R Q (held hc + (refs_of ts + H)) (image_mset tk_self ts + B) env1 \<and> hc \<noteq> None"
  proof (cases cancel)
    case None
    then show ?thesis using 2(6) ok0 by auto
  next
    case (Some a)
    with live 2(1) have "a \<in># held (Some None) + (refs_of ts + H)" by simp
    with cancel_retain_ok [OF ok0, of cancel races r1 hc env1] 2(6) Some show ?thesis by auto
  qed
  have asked: "asked Q (env1\<lparr>te_heap := h\<rparr>)"
    using ok1 2(7) by (auto simp: env_ok_def asked_def allocate_default_def Let_def split: if_splits)
  note block = env_inv_block [of R _ _ env1, OF _ 2(7)]
  show ?thesis
  proof (cases "r1 = VIREO_OK")
    case False
    then have "v' = v" "env' = env1" "hc = Some None" using 2(6,8) by (auto simp: vireo_task_cancel_retain_def Let_def split: if_splits prod.splits)
    with ok1 wfs 2(1) show ?thesis by (simp add: tasks_ok_def)
  next
    case True
    show ?thesis
    proof (cases m)
      case None
      obtain r3 v3 env3 where d: "vireo_task_cancel_destroy hc (env1\<lparr>te_heap := h\<rparr>) = (r3, v3, env3)" by (metis prod_cases3)
      have "env_ok R Q (held hc + (refs_of ts + H)) (image_mset tk_self ts + B) (env1\<lparr>te_heap := h\<rparr>)"
        using block ok1 asked None by (simp add: env_ok_def)
      from cancel_destroy_ok [OF this d] show ?thesis
        using 2(1,8) True None d wfs by (simp add: tasks_ok_def)
    next
      case (Some self)
      have "env_ok R Q (held hc + (refs_of ts + H)) (add_mset self (image_mset tk_self ts + B)) (env1\<lparr>te_heap := h\<rparr>)"
        using block ok1 asked Some by (simp add: env_ok_def)
      moreover have "task_wf (task_made metadata data n (the hc) sz self)"
        using task_made_wf [OF 2(2,3) rd 2(4,5)] .
      moreover have "tk_self (task_made metadata data n (the hc) sz self) = self" "Some (tk_cancel (task_made metadata data n (the hc) sz self)) = hc"
        using ok1 by (auto simp: task_made_def)
      ultimately show ?thesis
        using 2(1,8) True Some wfs by (simp add: tasks_ok_def ac_simps)
    qed
  qed
qed

text \<open>Completions take no part in the counting of references.\<close>

definition completions_ok ::
  "bytes list \<Rightarrow> nat set \<Rightarrow> nat multiset \<Rightarrow> nat multiset \<Rightarrow> vireo_completion multiset \<Rightarrow> task_env \<Rightarrow> bool" where
  "completions_ok R Q H B ps env \<longleftrightarrow> env_ok R Q H (image_mset cp_self ps + B) env \<and> (\<forall>p \<in># ps. completion_wf p)"

lemma completion_create_ok:
  assumes ok: "completions_ok R Q H B (held v + ps) env" and rd: "readable data n"
    and call: "vireo_completion_create_copy_with_allocator metadata data n budget al v (te_heap env) = (r, v', h)"
  shows "completions_ok R Q H B (held v' + ps) (env\<lparr>te_heap := h\<rparr>) \<and> (v' = None \<longleftrightarrow> v = None)"
proof -
  obtain r0 same where q: "vireo_completion_metadata_same_request metadata metadata (Some False) = (r0, same)" by fastforce
  obtain r2 sz where a: "vireo_checked_size_add sizeof_completion n (Some 0) = (r2, sz)" by fastforce
  obtain m h1 where m: "allocate_default (te_heap env) (the sz) = (m, h1)" by fastforce
  have shape: "completion_has_valid_shape metadata" if "r0 = VIREO_OK"
    using q that by (auto simp: vireo_completion_metadata_same_request_def split: if_splits)
  show ?thesis
  proof (cases "v = None \<or> the v \<noteq> None \<or> budget = 0 \<or> (n \<noteq> 0 \<and> data = None) \<or> \<not> allocator_usable al \<or> r0 \<noteq> VIREO_OK \<or>
      r2 \<noteq> VIREO_OK \<or> budget > VIREO_COMPLETION_MAX_ALLOCATION_BYTES \<or> the sz > budget")
    case True
    then have "v' = v \<and> h = te_heap env"
      using call unfolding vireo_completion_create_copy_with_allocator_def q a by (auto split: if_splits)
    then show ?thesis using ok by simp
  next
    case False
    then obtain s where s: "sz = Some s" using a by (auto simp: vireo_checked_size_add_def split: if_splits)
    note m = m [unfolded s option.sel]
    have v: "v = Some None" using False by (cases v) auto
    have ok0: "env_ok R Q H (image_mset cp_self ps + B) env" and wfs: "\<forall>p \<in># ps. completion_wf p"
      using ok v by (simp_all add: completions_ok_def)
    have asked: "asked Q (env\<lparr>te_heap := h1\<rparr>)"
      using ok0 m by (auto simp: env_ok_def asked_def allocate_default_def Let_def split: if_splits)
    note block = env_inv_block [of R _ _ env, OF _ m]
    show ?thesis
    proof (cases m)
      case None
      then have "v' = v" "h = h1"
        using call False m unfolding vireo_completion_create_copy_with_allocator_def q a s by (auto split: if_splits)
      with v block [of H "image_mset cp_self ps + B"] ok0 asked None wfs show ?thesis by (simp add: env_ok_def completions_ok_def)
    next
      case (Some self)
      let ?p = "\<lparr>cp_metadata = metadata, cp_payload_size = n, cp_allocated_bytes = s,
        cp_payload = (if n \<noteq> 0 then take (unat n) (the data) else []), cp_self = self\<rparr>"
      have "v' = Some (Some ?p) \<and> h = h1"
        using call False m Some unfolding vireo_completion_create_copy_with_allocator_def q a s by (auto split: if_splits)
      moreover have "completion_wf ?p"
        using shape False a rd unfolding s by (auto simp: completion_wf_def size_add_Some unat_add_less split: if_splits)
      ultimately show ?thesis
        using v block [of H "image_mset cp_self ps + B"] ok0 asked Some wfs by (auto simp: env_ok_def completions_ok_def)
    qed
  qed
qed

lemma completion_destroy_ok:
  assumes ok: "completions_ok R Q H B (held v + ps) env" and call: "vireo_completion_destroy v (te_heap env) = (r, v', h)"
  shows "completions_ok R Q H B ps (env\<lparr>te_heap := h\<rparr>) \<and> v' = map_option (\<lambda>_. None) v \<and> (v \<noteq> None \<longrightarrow> r = VIREO_OK)"
proof (cases "\<exists>p. v = Some (Some p)")
  case False
  then show ?thesis using call ok by (auto simp: vireo_completion_destroy_def split: option.splits)
next
  case True
  then obtain p where p: "v = Some (Some p)" by blast
  let ?memory = "clear_at 0 (cp_allocated_bytes p) (fresh_bytes (te_heap env) sizeof_completion @ cp_payload p)"
  have ok1: "env_ok R Q H (add_mset (cp_self p) (image_mset cp_self ps + B)) env" and wf: "completion_wf p" and wfs: "\<forall>p \<in># ps. completion_wf p"
    using ok p by (simp_all add: completions_ok_def)
  have zero: "set ?memory \<subseteq> {0}"
    using wf by (subst clear_at_all) (auto simp: completion_wf_def fresh_bytes_def)
  have "env_ok R Q H (image_mset cp_self ps + B) (env\<lparr>te_heap := deallocate_default (te_heap env) (cp_self p) ?memory\<rparr>)"
    using ok1 env_inv_release [OF _ zero] by (auto simp: env_ok_def asked_def deallocate_default_def)
  with call p wfs show ?thesis by (simp add: vireo_completion_destroy_def Let_def completions_ok_def)
qed

subsection \<open>The interface of an owned object\<close>

locale owner_api =
  fixes inv :: "'o multiset \<Rightarrow> 'e \<Rightarrow> bool"
    and destroy :: "'o option option \<Rightarrow> 'e \<Rightarrow> vireo_result \<times> 'o option option \<times> 'e"
    and move :: "bool \<Rightarrow> 'o option option \<Rightarrow> 'o option option \<Rightarrow> vireo_result \<times> 'o option option \<times> 'o option option"
  assumes destroy_releases: "inv (held v + M) e \<Longrightarrow> destroy v e = (r, v', e') \<Longrightarrow>
      inv M e' \<and> v' = map_option (\<lambda>_. None) v \<and> (v \<noteq> None \<longrightarrow> r = VIREO_OK)"
    and move_keeps: "move same s d = (r, s', d') \<Longrightarrow>
      held s' + held d' = held s + held d \<and> (s' = None \<longleftrightarrow> s = None) \<and> (d' = None \<longleftrightarrow> d = None) \<and> (same \<longrightarrow> s' = s \<and> d' = d)"

fun destroy_all :: "('o option option \<Rightarrow> 'e \<Rightarrow> vireo_result \<times> 'o option option \<times> 'e) \<Rightarrow> 'o option list \<Rightarrow> 'e \<Rightarrow> 'o option list \<times> 'e" where
  "destroy_all f [] e = ([], e)"
| "destroy_all f (x # xs) e = (let (r, v, e) = f (Some x) e; (vs, e) = destroy_all f xs e in (the v # vs, e))"

definition move_between where
  "move_between f xs i j = (let (r, s, d) = f (i = j) (variable xs i) (variable xs j) in (r, assign (assign xs i s) j d))"

lemma held_map_None [simp]: "held (map_option (\<lambda>_. None) v) = {#}"
  by (cases v) auto

lemma assign_variable [simp]: "assign xs i (variable xs i) = xs"
  by (simp add: variable_def)

lemma variable_assign_other: "i \<noteq> j \<Longrightarrow> variable (assign xs i w) j = variable xs j"
  by (cases w) (auto simp: variable_def)

context owner_api
begin

lemma destroy_variable:
  assumes "inv (owned xs + M) e" and "destroy (variable xs i) e = (r, v', e')"
  shows "inv (owned (assign xs i v') + M) e'"
proof -
  have "inv (held (variable xs i) + (others_owned xs i + M)) e"
    using assms(1) owned_variable [of xs i] by (simp add: add.assoc)
  from destroy_releases [OF this assms(2)] show ?thesis
    by (simp add: owned_assign)
qed

lemma move_between_keeps:
  assumes "move_between move xs i j = (r, ys)"
  shows "owned ys = owned xs"
proof -
  obtain s d where m: "move (i = j) (variable xs i) (variable xs j) = (r, s, d)" and ys: "ys = assign (assign xs i s) j d"
    using assms by (auto simp: move_between_def Let_def split: prod.splits)
  show ?thesis
  proof (cases "i = j")
    case True
    with move_keeps [OF m] ys show ?thesis by simp
  next
    case False
    let ?zs = "assign xs i s"
    have "owned ys + held (variable xs j) = held d + others_owned ?zs j + held (variable xs j)"
      using move_keeps [OF m] ys False by (simp add: owned_assign variable_assign_other)
    also have "\<dots> = held d + owned ?zs"
      using owned_variable [of ?zs j] False by (simp add: variable_assign_other ac_simps)
    also have "\<dots> = held s + held d + others_owned xs i"
      using move_keeps [OF m] by (simp add: owned_assign ac_simps)
    also have "\<dots> = held (variable xs i) + held (variable xs j) + others_owned xs i"
      using move_keeps [OF m] by simp
    also have "\<dots> = owned xs + held (variable xs j)"
      using owned_variable [of xs i] by (simp add: ac_simps)
    finally show ?thesis by simp
  qed
qed

lemma destroy_all_releases:
  "inv (owned xs + M) e \<Longrightarrow> destroy_all destroy xs e = (ys, e') \<Longrightarrow> inv M e' \<and> ys = replicate (length xs) None"
proof (induction xs arbitrary: e e' ys)
  case (Cons x xs)
  obtain r v e1 where d: "destroy (Some x) e = (r, v, e1)" by (metis prod_cases3)
  obtain vs e2 where all: "destroy_all destroy xs e1 = (vs, e2)" by fastforce
  have "inv (owned xs + M) e1 \<and> v = Some None"
    using destroy_releases [OF _ d, of "owned xs + M"] Cons.prems(1) by (simp add: add.assoc)
  with Cons.IH [OF _ all] Cons.prems(2) d all show ?case by auto
qed simp

end

definition completion_destroy_in where
  "completion_destroy_in v env = (let (r, v, h) = vireo_completion_destroy v (te_heap env) in (r, v, env\<lparr>te_heap := h\<rparr>))"

interpretation cancels: owner_api "\<lambda>M. env_ok R Q (M + H) B" vireo_task_cancel_destroy vireo_task_cancel_move
proof
  fix v M e r v' e'
  assume "env_ok R Q (held v + M + H) B e" and "vireo_task_cancel_destroy v e = (r, v', e')"
  then show "env_ok R Q (M + H) B e' \<and> v' = map_option (\<lambda>_. None) v \<and> (v \<noteq> None \<longrightarrow> r = VIREO_OK)"
    using cancel_destroy_ok [of R Q v "M + H" B e r v' e'] by (simp add: add.assoc)
qed (auto simp: vireo_task_cancel_move_def split: if_splits)

interpretation tasks: owner_api "tasks_ok R Q H B" vireo_task_destroy vireo_task_move
proof
  fix v M e r v' e'
  assume "tasks_ok R Q H B (held v + M) e" and "vireo_task_destroy v e = (r, v', e')"
  then show "tasks_ok R Q H B M e' \<and> v' = map_option (\<lambda>_. None) v \<and> (v \<noteq> None \<longrightarrow> r = VIREO_OK)"
    by (rule task_destroy_ok)
qed (auto simp: vireo_task_move_def split: if_splits)

interpretation completions: owner_api "completions_ok R Q H B" completion_destroy_in vireo_completion_move
proof
  fix v M e r v' e'
  assume ok: "completions_ok R Q H B (held v + M) e" and d: "completion_destroy_in v e = (r, v', e')"
  obtain h where "vireo_completion_destroy v (te_heap e) = (r, v', h)" "e' = e\<lparr>te_heap := h\<rparr>"
    using d by (auto simp: completion_destroy_in_def split: prod.splits)
  with completion_destroy_ok [OF ok]
  show "completions_ok R Q H B M e' \<and> v' = map_option (\<lambda>_. None) v \<and> (v \<noteq> None \<longrightarrow> r = VIREO_OK)" by blast
qed (auto simp: vireo_completion_move_def split: if_splits)

subsection \<open>Sessions\<close>

record task_session =
  se_env :: task_env
  se_cancels :: "nat option list"
  se_tasks :: "vireo_task option list"
  se_completions :: "vireo_completion option list"
  se_asked :: "nat list"

datatype task_op =
    CancelCreate nat size_t
  | CancelRetain nat nat "u64 list"
  | CancelRequest nat
  | CancelMove nat nat
  | CancelDestroy nat
  | TaskCreate nat vireo_task_metadata "bytes option" size_t size_t
  | TaskCreateWithCancel nat vireo_task_metadata "bytes option" size_t size_t nat "u64 list"
  | TaskRetainCancel nat nat "u64 list"
  | TaskMove nat nat
  | TaskDestroy nat
  | CompletionCreate nat vireo_completion_metadata "bytes option" size_t size_t
  | CompletionMove nat nat
  | CompletionDestroy nat

text \<open>The value of an owner variable as a pointer argument: NULL when there is no such variable.\<close>

definition pointer :: "'a option list \<Rightarrow> nat \<Rightarrow> 'a option" where
  "pointer xs i = (if i < length xs then xs ! i else None)"

fun task_step :: "task_op \<Rightarrow> task_session \<Rightarrow> vireo_result \<times> task_session" where
  "task_step (CancelCreate i budget) s =
     (let (r, v, e) = vireo_task_cancel_create budget (variable (se_cancels s) i) (se_env s) in
      (r, s\<lparr>se_env := e, se_cancels := assign (se_cancels s) i v\<rparr>))"
| "task_step (CancelRetain j i races) s =
     (let (r, v, e) = vireo_task_cancel_retain (pointer (se_cancels s) j) (variable (se_cancels s) i) races (se_env s) in
      (r, s\<lparr>se_env := e, se_cancels := assign (se_cancels s) i v\<rparr>))"
| "task_step (CancelRequest j) s =
     (let p = pointer (se_cancels s) j; (r, e) = vireo_task_cancel_request p (se_env s) in
      (r, s\<lparr>se_env := e, se_asked := (case p of None \<Rightarrow> [] | Some a \<Rightarrow> [a]) @ se_asked s\<rparr>))"
| "task_step (CancelMove i j) s =
     (let (r, cs) = move_between vireo_task_cancel_move (se_cancels s) i j in (r, s\<lparr>se_cancels := cs\<rparr>))"
| "task_step (CancelDestroy i) s =
     (let (r, v, e) = vireo_task_cancel_destroy (variable (se_cancels s) i) (se_env s) in
      (r, s\<lparr>se_env := e, se_cancels := assign (se_cancels s) i v\<rparr>))"
| "task_step (TaskCreate i metadata data n budget) s =
     (let (r, v, e) = vireo_task_create_copy metadata data n budget (variable (se_tasks s) i) [] (se_env s) in
      (r, s\<lparr>se_env := e, se_tasks := assign (se_tasks s) i v\<rparr>))"
| "task_step (TaskCreateWithCancel i metadata data n budget j races) s =
     (let (r, v, e) = vireo_task_create_copy_with_cancel metadata data n budget (pointer (se_cancels s) j) (variable (se_tasks s) i) races
        (se_env s) in
      (r, s\<lparr>se_env := e, se_tasks := assign (se_tasks s) i v\<rparr>))"
| "task_step (TaskRetainCancel t i races) s =
     (let (r, v, e) = vireo_task_retain_cancel (pointer (se_tasks s) t) (variable (se_cancels s) i) races (se_env s) in
      (r, s\<lparr>se_env := e, se_cancels := assign (se_cancels s) i v\<rparr>))"
| "task_step (TaskMove i j) s =
     (let (r, ts) = move_between vireo_task_move (se_tasks s) i j in (r, s\<lparr>se_tasks := ts\<rparr>))"
| "task_step (TaskDestroy i) s =
     (let (r, v, e) = vireo_task_destroy (variable (se_tasks s) i) (se_env s) in
      (r, s\<lparr>se_env := e, se_tasks := assign (se_tasks s) i v\<rparr>))"
| "task_step (CompletionCreate i metadata data n budget) s =
     (let (r, v, h) = vireo_completion_create_copy metadata data n budget (variable (se_completions s) i) (te_heap (se_env s)) in
      (r, s\<lparr>se_env := (se_env s)\<lparr>te_heap := h\<rparr>, se_completions := assign (se_completions s) i v\<rparr>))"
| "task_step (CompletionMove i j) s =
     (let (r, ps) = move_between vireo_completion_move (se_completions s) i j in (r, s\<lparr>se_completions := ps\<rparr>))"
| "task_step (CompletionDestroy i) s =
     (let (r, v, e) = completion_destroy_in (variable (se_completions s) i) (se_env s) in
      (r, s\<lparr>se_env := e, se_completions := assign (se_completions s) i v\<rparr>))"

fun data_readable :: "task_op \<Rightarrow> bool" where
  "data_readable (TaskCreate i metadata data n budget) \<longleftrightarrow> readable data n"
| "data_readable (TaskCreateWithCancel i metadata data n budget j races) \<longleftrightarrow> readable data n"
| "data_readable (CompletionCreate i metadata data n budget) \<longleftrightarrow> readable data n"
| "data_readable _ \<longleftrightarrow> True"

definition no_objects :: "vireo_heap \<Rightarrow> nat \<Rightarrow> nat \<Rightarrow> nat \<Rightarrow> task_session" where
  "no_objects h cs ts ps = \<lparr>se_env = \<lparr>te_heap = h, te_cancels = []\<rparr>, se_cancels = replicate cs None, se_tasks = replicate ts None,
     se_completions = replicate ps None, se_asked = []\<rparr>"

text \<open>Every holder of a reference: an owner variable or a task. \<open>F\<close> is what others hold.\<close>

definition holders :: "task_session \<Rightarrow> nat multiset" where
  "holders s = owned (se_cancels s) + refs_of (owned (se_tasks s))"

definition session_ok :: "bytes list \<Rightarrow> nat multiset \<Rightarrow> nat multiset \<Rightarrow> task_session \<Rightarrow> bool" where
  "session_ok R F B s \<longleftrightarrow>
     env_ok R (set (se_asked s)) (holders s + F) (image_mset tk_self (owned (se_tasks s)) + (image_mset cp_self (owned (se_completions s)) + B))
       (se_env s) \<and>
     (\<forall>t \<in># owned (se_tasks s). task_wf t) \<and> (\<forall>p \<in># owned (se_completions s). completion_wf p)"

text \<open>The invariant seen by the operations on each kind of object.\<close>

lemma session_cancels:
  "session_ok R F B s \<longleftrightarrow>
     env_ok R (set (se_asked s)) (owned (se_cancels s) + (refs_of (owned (se_tasks s)) + F))
       (image_mset tk_self (owned (se_tasks s)) + (image_mset cp_self (owned (se_completions s)) + B)) (se_env s) \<and>
     (\<forall>t \<in># owned (se_tasks s). task_wf t) \<and> (\<forall>p \<in># owned (se_completions s). completion_wf p)"
  by (simp add: session_ok_def holders_def add.assoc)

lemma session_tasks:
  "session_ok R F B s \<longleftrightarrow>
     tasks_ok R (set (se_asked s)) (owned (se_cancels s) + F) (image_mset cp_self (owned (se_completions s)) + B) (owned (se_tasks s)) (se_env s) \<and>
     (\<forall>p \<in># owned (se_completions s). completion_wf p)"
  by (auto simp: session_ok_def holders_def tasks_ok_def ac_simps)

lemma session_completions:
  "session_ok R F B s \<longleftrightarrow>
     completions_ok R (set (se_asked s)) (holders s + F) (image_mset tk_self (owned (se_tasks s)) + B) (owned (se_completions s)) (se_env s) \<and>
     (\<forall>t \<in># owned (se_tasks s). task_wf t)"
  by (auto simp: session_ok_def completions_ok_def ac_simps)

text \<open>An owner variable is filled by a creating or retaining operation.\<close>

lemma fill_cancel:
  assumes ok: "session_ok R F B s"
    and call: "\<And>H. env_ok R (set (se_asked s)) (held (variable (se_cancels s) i) + H)
        (image_mset tk_self (owned (se_tasks s)) + (image_mset cp_self (owned (se_completions s)) + B)) (se_env s) \<Longrightarrow>
      holders s + F = held (variable (se_cancels s) i) + H \<Longrightarrow>
      env_ok R (set (se_asked s)) (held v + H) (image_mset tk_self (owned (se_tasks s)) + (image_mset cp_self (owned (se_completions s)) + B)) e \<and>
      (v = None \<longleftrightarrow> variable (se_cancels s) i = None)"
  shows "session_ok R F B (s\<lparr>se_env := e, se_cancels := assign (se_cancels s) i v\<rparr>)"
proof -
  let ?H = "others_owned (se_cancels s) i + (refs_of (owned (se_tasks s)) + F)"
  have "holders s + F = held (variable (se_cancels s) i) + ?H"
    unfolding holders_def owned_variable [of "se_cancels s" i] by (simp add: add.assoc)
  with call [of ?H] ok show ?thesis
    by (auto simp: session_cancels holders_def owned_assign add.assoc)
qed

lemma fill_task:
  assumes ok: "session_ok R F B s"
    and call: "\<And>ts. tasks_ok R (set (se_asked s)) (owned (se_cancels s) + F) (image_mset cp_self (owned (se_completions s)) + B)
        (held (variable (se_tasks s) i) + ts) (se_env s) \<Longrightarrow>
      owned (se_tasks s) = held (variable (se_tasks s) i) + ts \<Longrightarrow>
      tasks_ok R (set (se_asked s)) (owned (se_cancels s) + F) (image_mset cp_self (owned (se_completions s)) + B) (held v + ts) e \<and>
      (v = None \<longleftrightarrow> variable (se_tasks s) i = None)"
  shows "session_ok R F B (s\<lparr>se_env := e, se_tasks := assign (se_tasks s) i v\<rparr>)"
  using call [of "others_owned (se_tasks s) i"] ok owned_variable [of "se_tasks s" i] by (simp add: session_tasks owned_assign)

lemma fill_completion:
  assumes ok: "session_ok R F B s"
    and call: "\<And>ps. completions_ok R (set (se_asked s)) (holders s + F) (image_mset tk_self (owned (se_tasks s)) + B)
        (held (variable (se_completions s) i) + ps) (se_env s) \<Longrightarrow>
      completions_ok R (set (se_asked s)) (holders s + F) (image_mset tk_self (owned (se_tasks s)) + B) (held v + ps) e \<and>
      (v = None \<longleftrightarrow> variable (se_completions s) i = None)"
  shows "session_ok R F B (s\<lparr>se_env := e, se_completions := assign (se_completions s) i v\<rparr>)"
  using call [of "others_owned (se_completions s) i"] ok owned_variable [of "se_completions s" i]
  by (simp add: session_completions owned_assign holders_def)

lemma pointer_held: "pointer (se_cancels s) j = Some a \<Longrightarrow> a \<in># owned (se_cancels s)"
  by (rule variable_in_owned [of _ j]) (simp add: pointer_def variable_def split: if_splits)

lemma pointer_task: "pointer (se_tasks s) j = Some t \<Longrightarrow> t \<in># owned (se_tasks s)"
  by (rule variable_in_owned [of _ j]) (simp add: pointer_def variable_def split: if_splits)

lemma refs_of_member: "t \<in># ts \<Longrightarrow> tk_cancel t = Some a \<Longrightarrow> a \<in># refs_of ts"
  by (metis held.simps(1) insert_DiffM refs_of_simps(2) union_iff union_single_eq_member)

lemma destroy_cancel_ok:
  assumes "session_ok R F B s" "vireo_task_cancel_destroy (variable (se_cancels s) i) (se_env s) = (r, v, e)"
  shows "session_ok R F B (s\<lparr>se_env := e, se_cancels := assign (se_cancels s) i v\<rparr>)"
  using cancels.destroy_variable [of _ _ _ _ "{#}", simplified, OF _ assms(2)] assms(1) by (auto simp: session_cancels)

lemma destroy_task_ok:
  assumes "session_ok R F B s" "vireo_task_destroy (variable (se_tasks s) i) (se_env s) = (r, v, e)"
  shows "session_ok R F B (s\<lparr>se_env := e, se_tasks := assign (se_tasks s) i v\<rparr>)"
  using tasks.destroy_variable [of _ _ _ _ _ "{#}", simplified, OF _ assms(2)] assms(1) by (auto simp: session_tasks)

lemma destroy_completion_ok:
  assumes "session_ok R F B s" "completion_destroy_in (variable (se_completions s) i) (se_env s) = (r, v, e)"
  shows "session_ok R F B (s\<lparr>se_env := e, se_completions := assign (se_completions s) i v\<rparr>)"
  using completions.destroy_variable [of _ _ _ _ _ "{#}", simplified, OF _ assms(2)] assms(1)
  by (auto simp: session_completions holders_def)

lemma retain_ok:
  assumes ok: "session_ok R F B s" and live: "\<And>a. p = Some a \<Longrightarrow> a \<in># holders s + F"
    and call: "vireo_task_cancel_retain p (variable (se_cancels s) i) races (se_env s) = (r, v, e)"
  shows "session_ok R F B (s\<lparr>se_env := e, se_cancels := assign (se_cancels s) i v\<rparr>)"
  using cancel_retain_ok [OF _ call] live by (intro fill_cancel [OF ok]) auto

lemma create_task_ok:
  assumes ok: "session_ok R F B s" and rd: "readable data n" and live: "\<And>a. p = Some a \<Longrightarrow> a \<in># owned (se_cancels s)"
    and call: "create_copy metadata data n budget p al (variable (se_tasks s) i) races (se_env s) = (r, v, e)"
  shows "session_ok R F B (s\<lparr>se_env := e, se_tasks := assign (se_tasks s) i v\<rparr>)"
  using create_copy_ok [OF _ rd call] live by (intro fill_task [OF ok]) auto

lemma create_cancellable_ok:
  assumes ok: "session_ok R F B s" and rd: "readable data n"
    and call: "vireo_task_create_copy_with_cancel metadata data n budget (pointer (se_cancels s) j) (variable (se_tasks s) i) races (se_env s) =
      (r, v, e)"
  shows "session_ok R F B (s\<lparr>se_env := e, se_tasks := assign (se_tasks s) i v\<rparr>)"
proof (cases "pointer (se_cancels s) j = None")
  case True
  with call ok show ?thesis
    by (auto simp: vireo_task_create_copy_with_cancel_def vireo_task_create_copy_with_cancel_and_allocator_def)
next
  case False
  with call have "create_copy metadata data n budget (pointer (se_cancels s) j) (Some standard_allocator) (variable (se_tasks s) i) races
    (se_env s) = (r, v, e)"
    by (simp add: vireo_task_create_copy_with_cancel_def vireo_task_create_copy_with_cancel_and_allocator_def)
  from create_task_ok [OF ok rd _ this] pointer_held [of s j] show ?thesis by simp
qed

lemma retain_from_task_ok:
  assumes ok: "session_ok R F B s"
    and call: "vireo_task_retain_cancel (pointer (se_tasks s) t) (variable (se_cancels s) i) races (se_env s) = (r, v, e)"
  shows "session_ok R F B (s\<lparr>se_env := e, se_cancels := assign (se_cancels s) i v\<rparr>)"
proof (cases "v = variable (se_cancels s) i \<and> e = se_env s")
  case True
  with ok show ?thesis by simp
next
  case False
  with call obtain t' where t': "pointer (se_tasks s) t = Some t'"
    "vireo_task_cancel_retain (tk_cancel t') (variable (se_cancels s) i) races (se_env s) = (r, v, e)"
    by (auto simp: vireo_task_retain_cancel_def split: if_splits)
  from retain_ok [OF ok _ t'(2)] pointer_task [OF t'(1)] refs_of_member show ?thesis by (auto simp: holders_def)
qed

lemma task_step_ok:
  assumes ok: "session_ok R F B s" and rd: "data_readable c"
  shows "session_ok R F B (snd (task_step c s))"
proof (cases c)
  case (CancelCreate i budget)
  obtain r v e where call: "vireo_task_cancel_create budget (variable (se_cancels s) i) (se_env s) = (r, v, e)" by (metis prod_cases3)
  have "session_ok R F B (s\<lparr>se_env := e, se_cancels := assign (se_cancels s) i v\<rparr>)"
    using cancel_create_ok call [unfolded vireo_task_cancel_create_def] by (intro fill_cancel [OF ok]) blast
  with CancelCreate call show ?thesis by simp
next
  case (CancelRetain j i races)
  obtain r v e where call: "vireo_task_cancel_retain (pointer (se_cancels s) j) (variable (se_cancels s) i) races (se_env s) = (r, v, e)"
    by (metis prod_cases3)
  from retain_ok [OF ok _ call] pointer_held [of s j] CancelRetain call show ?thesis by (simp add: holders_def)
next
  case (CancelRequest j)
  obtain r e where call: "vireo_task_cancel_request (pointer (se_cancels s) j) (se_env s) = (r, e)" by fastforce
  from cancel_request_ok [OF _ call] pointer_held [of s j] ok CancelRequest call show ?thesis
    by (cases "pointer (se_cancels s) j") (auto simp: session_ok_def holders_def)
next
  case (CancelMove i j)
  obtain r cs where "move_between vireo_task_cancel_move (se_cancels s) i j = (r, cs)" by fastforce
  with cancels.move_between_keeps [OF this] CancelMove ok show ?thesis by (simp add: session_ok_def holders_def)
next
  case (CancelDestroy i)
  obtain r v e where call: "vireo_task_cancel_destroy (variable (se_cancels s) i) (se_env s) = (r, v, e)" by (metis prod_cases3)
  from destroy_cancel_ok [OF ok call] CancelDestroy call show ?thesis by simp
next
  case (TaskCreate i metadata data n budget)
  obtain r v e where call: "vireo_task_create_copy metadata data n budget (variable (se_tasks s) i) [] (se_env s) = (r, v, e)"
    by (metis prod_cases3)
  from create_task_ok [OF ok _ _ call [unfolded vireo_task_create_copy_def vireo_task_create_copy_with_allocator_def]] TaskCreate rd call
  show ?thesis by simp
next
  case (TaskCreateWithCancel i metadata data n budget j races)
  obtain r v e where call: "vireo_task_create_copy_with_cancel metadata data n budget (pointer (se_cancels s) j) (variable (se_tasks s) i) races
    (se_env s) = (r, v, e)" by (metis prod_cases3)
  from create_cancellable_ok [OF ok _ call] TaskCreateWithCancel rd call show ?thesis by simp
next
  case (TaskRetainCancel t i races)
  obtain r v e where call: "vireo_task_retain_cancel (pointer (se_tasks s) t) (variable (se_cancels s) i) races (se_env s) = (r, v, e)"
    by (metis prod_cases3)
  from retain_from_task_ok [OF ok call] TaskRetainCancel call show ?thesis by simp
next
  case (TaskMove i j)
  obtain r ts where "move_between vireo_task_move (se_tasks s) i j = (r, ts)" by fastforce
  with tasks.move_between_keeps [OF this] TaskMove ok show ?thesis by (simp add: session_ok_def holders_def)
next
  case (TaskDestroy i)
  obtain r v e where call: "vireo_task_destroy (variable (se_tasks s) i) (se_env s) = (r, v, e)" by (metis prod_cases3)
  from destroy_task_ok [OF ok call] TaskDestroy call show ?thesis by simp
next
  case (CompletionCreate i metadata data n budget)
  obtain r v h where call: "vireo_completion_create_copy metadata data n budget (variable (se_completions s) i) (te_heap (se_env s)) = (r, v, h)"
    by (metis prod_cases3)
  have "session_ok R F B (s\<lparr>se_env := (se_env s)\<lparr>te_heap := h\<rparr>, se_completions := assign (se_completions s) i v\<rparr>)"
    using completion_create_ok [OF _ _ call [unfolded vireo_completion_create_copy_def]] CompletionCreate rd
    by (intro fill_completion [OF ok]) auto
  with CompletionCreate call show ?thesis by simp
next
  case (CompletionMove i j)
  obtain r ps where "move_between vireo_completion_move (se_completions s) i j = (r, ps)" by fastforce
  with completions.move_between_keeps [OF this] CompletionMove ok show ?thesis by (simp add: session_ok_def holders_def)
next
  case (CompletionDestroy i)
  obtain r v e where call: "completion_destroy_in (variable (se_completions s) i) (se_env s) = (r, v, e)" by (metis prod_cases3)
  from destroy_completion_ok [OF ok call] CompletionDestroy call show ?thesis by simp
qed

lemma session_run_ok:
  "session_ok R F B s \<Longrightarrow> \<forall>c \<in> set cs. data_readable c \<Longrightarrow> session_ok R F B (snd (run_calls task_step cs s))"
proof (induction cs arbitrary: s)
  case (Cons c cs)
  have "session_ok R F B (snd (task_step c s))" using task_step_ok [of R F B s c] Cons.prems by simp
  with Cons show ?case by (simp add: case_prod_beta Let_def)
qed simp

lemma owned_replicate_None [simp]: "owned (replicate n None) = {#}"
  by (induction n) auto

lemma no_objects_ok:
  "heap_wf h \<Longrightarrow> session_ok (heap_released h) {#} (mset (map fst (heap_live h))) (no_objects h ncs nts nps)"
  by (simp add: session_ok_def holders_def no_objects_def env_ok_def env_inv_def asked_def erased_since_def references_def)

definition destroy_everything :: "task_session \<Rightarrow> task_session" where
  "destroy_everything s =
     (let (ts, e) = destroy_all vireo_task_destroy (se_tasks s) (se_env s);
          (ps, e) = destroy_all completion_destroy_in (se_completions s) e;
          (cs, e) = destroy_all vireo_task_cancel_destroy (se_cancels s) e in
      s\<lparr>se_env := e, se_cancels := cs, se_tasks := ts, se_completions := ps\<rparr>)"

lemma destroy_everything_ok:
  assumes "session_ok R F B s"
  shows "env_inv R F B (se_env (destroy_everything s))"
proof -
  obtain ts e1 where d1: "destroy_all vireo_task_destroy (se_tasks s) (se_env s) = (ts, e1)" by fastforce
  obtain ps e2 where d2: "destroy_all completion_destroy_in (se_completions s) e1 = (ps, e2)" by fastforce
  obtain cs e3 where d3: "destroy_all vireo_task_cancel_destroy (se_cancels s) e2 = (cs, e3)" by fastforce
  let ?Q = "set (se_asked s)" and ?H = "owned (se_cancels s)" and ?P = "owned (se_completions s)"
  have "tasks_ok R ?Q (?H + F) (image_mset cp_self ?P + B) (owned (se_tasks s) + {#}) (se_env s)"
    and wf: "\<forall>p \<in># ?P. completion_wf p"
    using assms by (simp_all add: session_tasks)
  from tasks.destroy_all_releases [OF this(1) d1] wf
  have "completions_ok R ?Q (?H + F) B (?P + {#}) e1" by (simp add: tasks_ok_def completions_ok_def)
  from completions.destroy_all_releases [OF this d2]
  have "env_ok R ?Q (?H + {#} + F) B e2" by (simp add: completions_ok_def)
  from cancels.destroy_all_releases [OF this d3]
  have "env_ok R ?Q F B e3" by simp
  with d1 d2 d3 show ?thesis by (simp add: destroy_everything_def env_ok_def)
qed

lemma counted_live:
  assumes "env_inv R H B e"
  shows "(a \<in># H \<longleftrightarrow> a \<in> fst ` set (te_cancels e)) \<and> (a \<in># H \<longrightarrow> a \<in> fst ` set (heap_live (te_heap e)) \<and> unat (tc_references (cancel_at a e)) = count H a)"
proof -
  have live: "a \<in> fst ` set (heap_live (te_heap e))" if "a \<in> fst ` set (te_cancels e)"
  proof -
    have "a \<in># mset (map fst (heap_live (te_heap e)))" using assms that by (simp add: env_inv_def)
    then show ?thesis by simp
  qed
  have "a \<in># H" if ac: "(a, c) \<in> set (te_cancels e)" for c
  proof -
    have "map_of (te_cancels e) a = Some c" using ac env_inv_distinct [OF assms] by simp
    moreover have "tc_references c \<noteq> 0" using assms ac by (auto simp: env_inv_def)
    ultimately have "count H a \<noteq> 0" using assms by (simp add: env_inv_def references_def unat_eq_0)
    then show ?thesis by (simp add: not_in_iff)
  qed
  moreover have "a \<in> fst ` set (te_cancels e) \<and> unat (tc_references (cancel_at a e)) = count H a" if "a \<in># H"
    using env_inv_held [OF assms that] by (metis fst_conv imageI map_of_SomeD)
  ultimately show ?thesis using live by auto
qed

lemma no_holders_no_cancels: "env_inv R {#} B e \<Longrightarrow> te_cancels e = []"
  using counted_live [of R "{#}" B e] by (cases "te_cancels e") force+

subsection \<open>Guarantees\<close>


text \<open>
  C15. Cancellation is shared and permanent: a query through any reference, or through any task that carries one, succeeds and answers
  whether some holder of that object has requested cancellation at any time before; a task without a reference is never cancelled.
\<close>

theorem task_cancel_exact:
  assumes wf: "heap_wf h" and rd: "\<forall>c \<in> set cs. data_readable c"
    and run: "snd (run_calls task_step cs (no_objects h ncs nts nps)) = s"
  shows "(\<forall>a \<in># owned (se_cancels s). vireo_task_cancel_is_requested (Some a) (Some q) (se_env s) = (VIREO_OK, Some (a \<in> set (se_asked s)))) \<and>
    (\<forall>t \<in># owned (se_tasks s). vireo_task_is_cancel_requested (Some t) (Some q) (se_env s) =
      (VIREO_OK, Some (case tk_cancel t of None \<Rightarrow> False | Some a \<Rightarrow> a \<in> set (se_asked s))))"
proof -
  have ok: "session_ok (heap_released h) {#} (mset (map fst (heap_live h))) s"
    using session_run_ok [OF no_objects_ok [OF wf] rd] run by blast
  have query: "vireo_task_cancel_is_requested (Some a) (Some q) (se_env s) = (VIREO_OK, Some (a \<in> set (se_asked s)))" if "a \<in># holders s" for a
  proof -
    from ok obtain B where "env_inv (heap_released h) (holders s) B (se_env s)" and q: "asked (set (se_asked s)) (se_env s)"
      by (auto simp: session_ok_def env_ok_def)
    from env_inv_held [OF this(1) that] obtain c where "map_of (te_cancels (se_env s)) a = Some c" "cancel_at a (se_env s) = c" by blast
    with q show ?thesis by (auto simp: vireo_task_cancel_is_requested_def asked_def)
  qed
  then show ?thesis
    using refs_of_member by (auto simp: holders_def vireo_task_is_cancel_requested_def split: option.splits)
qed

text \<open>
  Objects are well formed: whatever the callers do, every task and completion that exists identifies its request by non-zero
  client, generation, sequence, instance and operation, a completion also carries a defined result and a known status, the payload has
  exactly the announced size, and the block size is the control part plus the payload, without wrap-around and within the limit.
\<close>

theorem task_objects_well_formed:
  assumes wf: "heap_wf h" and rd: "\<forall>c \<in> set cs. data_readable c"
    and run: "snd (run_calls task_step cs (no_objects h ncs nts nps)) = s"
  shows "(\<forall>t \<in># owned (se_tasks s). rt_client_owner_id (md_route (tk_metadata t)) \<noteq> 0 \<and> rt_client_generation (md_route (tk_metadata t)) \<noteq> 0 \<and>
      rt_request_sequence (md_route (tk_metadata t)) \<noteq> 0 \<and> md_request_instance_id (tk_metadata t) \<noteq> 0 \<and> md_operation (tk_metadata t) \<noteq> 0 \<and>
      length (tk_payload t) = unat (tk_payload_size t) \<and> unat (tk_allocated_bytes t) = unat sizeof_task + length (tk_payload t) \<and>
      unat (tk_allocated_bytes t) \<le> 2 ^ 26) \<and>
    (\<forall>p \<in># owned (se_completions s). metadata_has_valid_shape (cm_request (cp_metadata p)) \<and>
      (\<exists>r. cm_result (cp_metadata p) = vireo_result_code r) \<and> vireo_status_is_known (cm_suggested_status (cp_metadata p)) \<and>
      length (cp_payload p) = unat (cp_payload_size p) \<and> unat (cp_allocated_bytes p) = unat sizeof_completion + length (cp_payload p) \<and>
      unat (cp_allocated_bytes p) \<le> 2 ^ 26)"
proof -
  have ok: "session_ok (heap_released h) {#} (mset (map fst (heap_live h))) s"
    using session_run_ok [OF no_objects_ok [OF wf] rd] run by blast
  have route: "rt_client_owner_id (md_route m) \<noteq> 0 \<and> rt_client_generation (md_route m) \<noteq> 0 \<and> rt_request_sequence (md_route m) \<noteq> 0 \<and>
    md_request_instance_id m \<noteq> 0 \<and> md_operation m \<noteq> 0" if "metadata_has_valid_shape m" for m
    using that by (auto simp: metadata_has_valid_shape_def vireo_task_route_is_empty_def route_has_valid_shape_def Let_def split: if_splits)
  have shape: "metadata_has_valid_shape (cm_request m) \<and> (\<exists>r. cm_result m = vireo_result_code r) \<and> vireo_status_is_known (cm_suggested_status m)"
    if "completion_has_valid_shape m" for m
  proof -
    have "result_is_defined (cm_result m)" using that by (simp add: completion_has_valid_shape_def Let_def split: prod.splits)
    then have "\<exists>r. cm_result m = vireo_result_code r" unfolding result_is_defined_def set_map by blast
    then show ?thesis
      using that by (auto simp: completion_has_valid_shape_def vireo_task_metadata_same_request_def Let_def split: if_splits)
  qed
  have le: "unat w \<le> 2 ^ 26" if "w \<le> 67108864" for w :: size_t
    using that by (simp add: word_le_nat_alt)
  have "\<forall>t \<in># owned (se_tasks s). task_wf t \<and> unat (tk_allocated_bytes t) \<le> 2 ^ 26"
    and "\<forall>p \<in># owned (se_completions s). completion_wf p \<and> unat (cp_allocated_bytes p) \<le> 2 ^ 26"
    using ok le unfolding session_ok_def task_wf_def completion_wf_def by blast+
  then show ?thesis
    using route shape unfolding task_wf_def completion_wf_def by (simp cong: conj_cong)
qed

subsection \<open>A concrete session\<close>

text \<open>
  The fourth allocation of \<open>demo_heap\<close> fails. A cancellation object is created, shared with a task and a second variable, requested
  and released by its creator; a completion is created, a further task finds no memory; then the task is moved and destroyed.
\<close>

definition demo_request :: vireo_task_metadata where
  "demo_request = \<lparr>md_route = \<lparr>rt_client_owner_id = 1, rt_client_slot_index = 0, rt_client_generation = 2, rt_request_sequence = 3\<rparr>,
     md_request_instance_id = 4, md_operation = 5, md_deadline_ns = 900\<rparr>"

definition demo_lifetime :: "task_op list" where
  "demo_lifetime =
     [CancelCreate 0 1000, TaskCreateWithCancel 0 demo_request (Some [7, 8, 9]) 2 1000 0 [], CancelRetain 0 1 [5], CancelRequest 1,
      CancelDestroy 0, CompletionCreate 0 \<lparr>cm_request = demo_request, cm_result = 0, cm_suggested_status = 0\<rparr> (Some [1]) 1 200,
      TaskCreate 1 demo_request None 0 1000, TaskMove 0 1]"

lemma demo_lifetime_readable: "\<forall>c \<in> set demo_lifetime. data_readable c"
  by (simp add: demo_lifetime_def)

lemma demo_lifetime_run:
  "(case run_calls task_step demo_lifetime (no_objects demo_heap 2 2 1) of (rs, s) \<Rightarrow>
      rs = [VIREO_OK, VIREO_OK, VIREO_OK, VIREO_OK, VIREO_OK, VIREO_OK, VIREO_RESULT_NO_MEMORY, VIREO_OK] \<and>
      se_cancels s = [None, Some 0] \<and> map (map_option tk_payload) (se_tasks s) = [None, Some [7, 8]] \<and>
      map (map_option cp_payload) (se_completions s) = [Some [1]] \<and> se_asked s = [0]) = True"
  by code_simp


theorem task_cancel_exact_witness:
  "\<exists>s. snd (run_calls task_step demo_lifetime (no_objects demo_heap 2 2 1)) = s \<and>
     vireo_task_cancel_is_requested (Some 0) (Some False) (se_env s) = (VIREO_OK, Some True)"
proof -
  let ?s = "snd (run_calls task_step demo_lifetime (no_objects demo_heap 2 2 1))"
  have "se_cancels ?s = [None, Some 0]" "se_asked ?s = [0]" using demo_lifetime_run by (simp_all add: case_prod_beta)
  with task_cancel_exact [OF demo_heap_wf demo_lifetime_readable refl, of 2 2 1 False] show ?thesis by simp
qed

theorem task_objects_well_formed_witness:
  "\<exists>s t. snd (run_calls task_step demo_lifetime (no_objects demo_heap 2 2 1)) = s \<and> se_tasks s = [None, Some t] \<and>
     tk_payload t = [7, 8] \<and> unat (tk_payload_size t) = 2 \<and> unat (tk_allocated_bytes t) = 106"
proof -
  let ?s = "snd (run_calls task_step demo_lifetime (no_objects demo_heap 2 2 1))"
  have "map (map_option tk_payload) (se_tasks ?s) = [None, Some [7, 8]]" using demo_lifetime_run by (simp add: case_prod_beta)
  then obtain t where t: "se_tasks ?s = [None, Some t]" "tk_payload t = [7, 8]" by auto
  with task_objects_well_formed [OF demo_heap_wf demo_lifetime_readable refl, of 2 2 1] show ?thesis by simp
qed

end
