(* ===== verification/Net_Inflight_Records.thy ===== *)
theory Net_Inflight_Records
  imports Net_Inflight Thread_Task_Lifetime
begin

text \<open>
  The table of requests in flight as a set of records. \<open>table_wf\<close> is its invariant: the count is exact, free slots are clean, every
  record is well formed and the requests of one client differ in sequence and in instance. The loops of the code are related to
  conditions on the set \<open>table_records\<close>, and every operation is shown to act on that set.
\<close>

subsection \<open>Records\<close>

definition records_of :: "vireo_inflight_store_slot list \<Rightarrow> vireo_task_metadata set" where
  "records_of slots = sl_metadata ` {x \<in> set slots. sl_occupied x}"

abbreviation table_records :: "vireo_inflight_store \<Rightarrow> vireo_task_metadata set" where
  "table_records s \<equiv> records_of (st_slots s)"

definition same_request :: "vireo_task_metadata \<Rightarrow> vireo_task_metadata \<Rightarrow> bool" where
  "same_request a b \<longleftrightarrow> md_route a = md_route b \<and> md_request_instance_id a = md_request_instance_id b"

text \<open>Two records that may not be in flight together.\<close>

definition conflict :: "vireo_task_metadata \<Rightarrow> vireo_task_metadata \<Rightarrow> bool" where
  "conflict a b \<longleftrightarrow> same_client (md_route a) (md_route b) \<and>
     (rt_request_sequence (md_route a) = rt_request_sequence (md_route b) \<or> md_request_instance_id a = md_request_instance_id b)"

definition slots_wf :: "vireo_inflight_store_slot list \<Rightarrow> bool" where
  "slots_wf slots \<longleftrightarrow>
     (\<forall>x \<in> set slots. if sl_occupied x then metadata_has_valid_shape (sl_metadata x) else x = empty_slot) \<and>
     (\<forall>i < length slots. \<forall>j < length slots. i \<noteq> j \<longrightarrow> sl_occupied (slots ! i) \<longrightarrow> sl_occupied (slots ! j) \<longrightarrow>
        \<not> conflict (sl_metadata (slots ! i)) (sl_metadata (slots ! j)))"

definition table_wf :: "vireo_inflight_store \<Rightarrow> bool" where
  "table_wf s \<longleftrightarrow> slots_wf (st_slots s) \<and> length (st_slots s) = unat (st_capacity s) \<and> st_capacity s \<noteq> 0 \<and> unat (st_capacity s) \<le> 65536 \<and>
     unat (st_count s) = length (filter sl_occupied (st_slots s))"

text \<open>The references that the table holds.\<close>

definition table_refs :: "vireo_inflight_store_slot list \<Rightarrow> nat multiset" where
  "table_refs slots = owned (map sl_cancel slots)"

lemma same_request_conflict: "same_request a b \<Longrightarrow> conflict a b"
  by (simp add: same_request_def conflict_def same_client_def)

lemma conflict_commute: "conflict a b \<longleftrightarrow> conflict b a"
  by (auto simp: conflict_def same_client_def)

lemma route_equal_iff: "left = (right :: vireo_task_route) \<longleftrightarrow> rt_client_owner_id left = rt_client_owner_id right \<and>
    rt_client_slot_index left = rt_client_slot_index right \<and> rt_client_generation left = rt_client_generation right \<and>
    rt_request_sequence left = rt_request_sequence right"
  by (cases left; cases right) auto

lemma shape_route: "metadata_has_valid_shape m \<Longrightarrow> route_has_valid_shape (md_route m)"
  by (auto simp: metadata_has_valid_shape_def vireo_task_route_is_empty_def split: if_splits)

lemma make_own_metadata:
  "vireo_task_metadata_make (md_route m) (md_request_instance_id m) (md_operation m) (md_deadline_ns m) (Some z) =
     (if metadata_has_valid_shape m then (VIREO_OK, Some m) else (VIREO_RESULT_INVALID_ARGUMENT, Some z))"
  by (cases m) (simp add: vireo_task_metadata_make_def Let_def)

lemma validate_cases: "validate m = (if metadata_has_valid_shape m then VIREO_OK else VIREO_RESULT_INVALID_ARGUMENT)"
  by (simp add: validate_def make_own_metadata)

lemma same_request_query:
  "metadata_has_valid_shape a \<Longrightarrow> metadata_has_valid_shape b \<Longrightarrow>
   vireo_task_metadata_same_request a b (Some q) = (VIREO_OK, Some (same_request a b))"
  by (auto simp: vireo_task_metadata_same_request_def vireo_task_route_equal_def shape_route same_request_def route_equal_iff)

lemma slots_wf_Cons: "slots_wf (x # slots) \<Longrightarrow> slots_wf slots"
  unfolding slots_wf_def by (force simp: nth_Cons')

lemma slots_wf_Cons_conflict:
  "slots_wf (x # slots) \<Longrightarrow> sl_occupied x \<Longrightarrow> m \<in> records_of slots \<Longrightarrow> \<not> conflict (sl_metadata x) m"
proof -
  assume wf: "slots_wf (x # slots)" and x: "sl_occupied x" and "m \<in> records_of slots"
  then obtain j where "j < length slots" "sl_occupied (slots ! j)" "m = sl_metadata (slots ! j)"
    by (auto simp: records_of_def in_set_conv_nth)
  moreover have "\<not> conflict (sl_metadata ((x # slots) ! 0)) (sl_metadata ((x # slots) ! Suc j))"
    using wf x calculation unfolding slots_wf_def by (metis Suc_less_eq length_Cons nat.simps(3) nth_Cons_0 nth_Cons_Suc zero_less_Suc)
  ultimately show ?thesis by simp
qed

lemma records_of_Cons: "records_of (x # slots) = (if sl_occupied x then insert (sl_metadata x) (records_of slots) else records_of slots)"
  by (auto simp: records_of_def)

lemma records_of_Nil [simp]: "records_of [] = {}"
  by (simp add: records_of_def)

lemma slot_record: "j < length slots \<Longrightarrow> sl_occupied (slots ! j) \<Longrightarrow> sl_metadata (slots ! j) \<in> records_of slots"
  by (auto simp: records_of_def)

lemma finite_records [simp]: "finite (records_of slots)"
  by (simp add: records_of_def)

lemma conflict_self: "conflict m m"
  by (simp add: conflict_def same_client_def)

text \<open>A record occupies one slot only, so counting slots counts records.\<close>

lemma count_filter_records:
  "slots_wf slots \<Longrightarrow> length (filter (\<lambda>x. sl_occupied x \<and> P (sl_metadata x)) slots) = card {m \<in> records_of slots. P m}"
proof (induction slots)
  case (Cons x slots)
  have "sl_metadata x \<notin> records_of slots" if "sl_occupied x"
    using slots_wf_Cons_conflict [OF Cons.prems that] conflict_self by blast
  moreover have "{m. (m = a \<or> m \<in> S) \<and> P m} = (if P a then insert a {m \<in> S. P m} else {m \<in> S. P m})" for a and S :: "vireo_task_metadata set"
    by auto
  ultimately show ?case using Cons slots_wf_Cons [OF Cons.prems] by (auto simp: records_of_Cons)
qed simp

lemma table_wf_count: "table_wf s \<Longrightarrow> unat (st_count s) = card (table_records s)"
  using count_filter_records [of "st_slots s" "\<lambda>_. True"] by (simp add: table_wf_def)

subsection \<open>The loops over the slots\<close>

lemma find_record_cases:
  assumes "slots_wf slots" and "metadata_has_valid_shape key" and "find_record key slots i out = (r, k)"
  shows "(r = VIREO_OK \<and> (\<exists>j < length slots. k = i + j \<and> sl_occupied (slots ! j) \<and> same_request key (sl_metadata (slots ! j)))) \<or>
    (r = VIREO_RESULT_NOT_FOUND \<and> (\<forall>m \<in> records_of slots. \<not> same_request key m))"
  using assms(1,3,2)
proof (induction key slots i out rule: find_record.induct)
  case (1 key i out)
  then show ?case by simp
next
  case (2 key x slots i out)
  have wf: "slots_wf slots" using slots_wf_Cons [OF "2.prems"(1)] .
  have shift: ?case if "find_record key slots (Suc i) out = (r, k)" and "\<not> (sl_occupied x \<and> same_request key (sl_metadata x))"
    and "r = VIREO_OK \<and> (\<exists>j < length slots. k = Suc i + j \<and> sl_occupied (slots ! j) \<and> same_request key (sl_metadata (slots ! j))) \<or>
      r = VIREO_RESULT_NOT_FOUND \<and> (\<forall>m \<in> records_of slots. \<not> same_request key m)"
    using that by (auto simp: records_of_Cons intro: exI [of _ "Suc _"])
  show ?case
  proof (cases "sl_occupied x")
    case False
    with shift "2.IH"(1) "2.prems"(2,3) wf show ?thesis by simp
  next
    case True
    then have "metadata_has_valid_shape (sl_metadata x)" using "2.prems"(1) by (simp add: slots_wf_def)
    note q = same_request_query [OF "2.prems"(3) this, of False]
    show ?thesis
    proof (cases "same_request key (sl_metadata x)")
      case same: True
      then have "r = VIREO_OK" "k = i" using "2.prems"(2) True by (simp_all add: q)
      with True same show ?thesis by (intro disjI1) auto
    next
      case other: False
      then have rest: "find_record key slots (Suc i) out = (r, k)" using "2.prems"(2) True by (simp add: q)
      with "2.IH"(2) [of "(VIREO_OK, Some False)" VIREO_OK "Some False"] other True q wf "2.prems"(3) show ?thesis by (intro shift) simp_all
    qed
  qed
qed

lemma add_one: "unat (c :: size_t) + n < 2 ^ 64 \<Longrightarrow> 0 < n \<Longrightarrow> vireo_checked_size_add c 1 (Some d) = (VIREO_OK, Some (c + 1)) \<and> unat (c + 1) = Suc (unat c)"
  by (simp add: size_add_Some unat_add_less)

lemma scan_records_cases:
  assumes "unat c0 + length slots < 2 ^ 64" and "i + length slots = cap" and "scan_records m limited cap slots i free c0 = (r, f, c)"
  shows "if \<exists>n \<in> records_of slots. conflict m n then r = VIREO_RESULT_BUSY
    else r = VIREO_OK \<and> (f = cap \<longleftrightarrow> free = cap \<and> (\<forall>x \<in> set slots. sl_occupied x)) \<and>
      (f \<noteq> cap \<longrightarrow> free = cap \<longrightarrow> (\<exists>j < length slots. f = i + j \<and> \<not> sl_occupied (slots ! j))) \<and> (free \<noteq> cap \<longrightarrow> f = free) \<and>
      (limited \<longrightarrow> unat c = unat c0 + length (filter (\<lambda>x. sl_occupied x \<and> same_client (md_route m) (md_route (sl_metadata x))) slots))"
  using assms
proof (induction m limited cap slots i free c0 rule: scan_records.induct)
  case (1 m limited cap i free c0)
  then show ?case by simp
next
  case (2 m limited cap x slots i free c0)
  show ?case
  proof (cases "sl_occupied x")
    case False
    have "\<not> i = cap" using "2.prems"(2) by simp
    with "2.IH"(1) [OF False] False "2.prems" show ?thesis
      by (auto simp: records_of_Cons split: if_splits intro: exI [of _ 0] exI [of _ "Suc _"])
  next
    case occ: True
    show ?thesis
    proof (cases "conflict m (sl_metadata x)")
      case True
      then show ?thesis using "2.prems"(3) occ by (auto simp: conflict_def records_of_Cons)
    next
      case False
      have add: "vireo_checked_size_add c0 1 (Some c0) = (VIREO_OK, Some (c0 + 1))" "unat (c0 + 1) = Suc (unat c0)"
        using add_one [of c0 "length (x # slots)" c0] "2.prems"(1) by simp_all
      show ?thesis
      proof (cases "limited \<and> same_client (md_route m) (md_route (sl_metadata x))")
        case True
        with False have seq: "\<not> (rt_request_sequence (md_route m) = rt_request_sequence (md_route (sl_metadata x)) \<or>
            md_request_instance_id m = md_request_instance_id (sl_metadata x))" by (auto simp: conflict_def)
        from "2.IH"(2) [of "(VIREO_OK, Some (c0 + 1))" VIREO_OK "Some (c0 + 1)"] occ True add "2.prems" seq False show ?thesis
          by (auto simp: records_of_Cons split: if_splits intro: exI [of _ "Suc _"])
      next
        case other: False
        from "2.IH"(3,4) occ other "2.prems" False show ?thesis
          by (auto simp: records_of_Cons conflict_def split: if_splits intro: exI [of _ "Suc _"])
      qed
    qed
  qed
qed

lemma count_records_cases:
  assumes "unat c0 + length slots < 2 ^ 64" and "count_records route slots c0 = (r, c)"
  shows "r = VIREO_OK \<and> unat c = unat c0 + length (filter (\<lambda>x. sl_occupied x \<and> same_client route (md_route (sl_metadata x))) slots)"
  using assms
proof (induction route slots c0 rule: count_records.induct)
  case (2 route x slots c0)
  have add: "vireo_checked_size_add c0 1 (Some c0) = (VIREO_OK, Some (c0 + 1))" "unat (c0 + 1) = Suc (unat c0)"
    using add_one [of c0 "length (x # slots)" c0] "2.prems"(1) by simp_all
  show ?case using 2 add by (auto split: if_splits)
qed simp

subsection \<open>Filling and clearing a slot\<close>

lemma records_update:
  assumes "j < length slots"
  shows "records_of (slots[j := y]) = (if sl_occupied y then {sl_metadata y} else {}) \<union> records_of (take j slots @ drop (Suc j) slots)"
  using assms by (auto simp: records_of_def upd_conv_take_nth_drop)

lemma records_split:
  "j < length slots \<Longrightarrow> records_of slots = (if sl_occupied (slots ! j) then {sl_metadata (slots ! j)} else {}) \<union> records_of (take j slots @ drop (Suc j) slots)"
  using records_update [of j slots "slots ! j"] by simp

lemma fill_slot:
  fixes c :: "nat option"
  assumes wf: "slots_wf slots" and j: "j < length slots" "\<not> sl_occupied (slots ! j)"
    and m: "metadata_has_valid_shape m" "\<forall>n \<in> records_of slots. \<not> conflict m n"
  defines "y \<equiv> \<lparr>sl_occupied = True, sl_metadata = m, sl_cancel = c\<rparr>"
  shows "slots_wf (slots[j := y]) \<and> records_of (slots[j := y]) = insert m (records_of slots) \<and>
    length (filter sl_occupied (slots[j := y])) = Suc (length (filter sl_occupied slots)) \<and>
    table_refs (slots[j := y]) = held (Some c) + table_refs slots"
proof -
  have e: "slots ! j = empty_slot" using wf j unfolding slots_wf_def by (metis nth_mem)
  have "\<not> conflict m (sl_metadata (slots ! i))" if "i < length slots" "sl_occupied (slots ! i)" for i
    using that m(2) by (auto simp: records_of_def)
  with wf m(1) j have "slots_wf (slots[j := y])"
    unfolding slots_wf_def y_def by (auto simp: nth_list_update conflict_commute set_conv_nth)
  moreover have "records_of (slots[j := y]) = insert m (records_of slots)"
    using records_update [OF j(1), of y] records_split [OF j(1)] j(2) by (simp add: y_def)
  moreover have "length (filter sl_occupied (slots[j := y])) = Suc (length (filter sl_occupied slots))"
  proof -
    have "filter sl_occupied slots = filter sl_occupied (take j slots) @ filter sl_occupied (drop (Suc j) slots)"
      using j by (subst id_take_nth_drop [OF j(1)]) simp
    then show ?thesis by (simp add: upd_conv_take_nth_drop [OF j(1)] y_def)
  qed
  moreover have "table_refs (slots[j := y]) = held (Some c) + table_refs slots"
    using owned_split [of j "map sl_cancel slots"] owned_split [of j "map sl_cancel (slots[j := y])"] j(1) e
    by (simp add: table_refs_def map_update y_def empty_slot_def)
  ultimately show ?thesis by blast
qed

lemma clear_slot:
  assumes wf: "slots_wf slots" and j: "j < length slots" "sl_occupied (slots ! j)"
  shows "slots_wf (slots[j := empty_slot]) \<and> records_of (slots[j := empty_slot]) = records_of slots - {sl_metadata (slots ! j)} \<and>
    length (filter sl_occupied slots) = Suc (length (filter sl_occupied (slots[j := empty_slot]))) \<and>
    table_refs slots = held (Some (sl_cancel (slots ! j))) + table_refs (slots[j := empty_slot])"
proof -
  let ?rest = "take j slots @ drop (Suc j) slots"
  have "sl_metadata (slots ! j) \<notin> records_of ?rest"
  proof
    assume "sl_metadata (slots ! j) \<in> records_of ?rest"
    then obtain x where x: "x \<in> set ?rest" "sl_occupied x" "sl_metadata x = sl_metadata (slots ! j)"
      unfolding records_of_def image_iff by force
    then obtain i where "i < length slots" "i \<noteq> j" "slots ! i = x"
    proof -
      from x(1) consider "x \<in> set (take j slots)" | "x \<in> set (drop (Suc j) slots)" by auto
      then show thesis
      proof cases
        case 1
        then show ?thesis using that by (auto simp: in_set_conv_nth)
      next
        case 2
        then obtain k where "k < length slots - Suc j" "x = drop (Suc j) slots ! k" by (auto simp: in_set_conv_nth)
        then show ?thesis using that [of "Suc j + k"] j(1) by simp
      qed
    qed
    with wf j x show False unfolding slots_wf_def by (metis conflict_self)
  qed
  then have "records_of (slots[j := empty_slot]) = records_of slots - {sl_metadata (slots ! j)}"
    using records_update [OF j(1), of empty_slot] records_split [OF j(1)] j(2) by (simp add: empty_slot_def)
  moreover have "slots_wf (slots[j := empty_slot])"
    using wf j unfolding slots_wf_def by (auto simp: nth_list_update empty_slot_def set_conv_nth)
  moreover have "length (filter sl_occupied slots) = Suc (length (filter sl_occupied (slots[j := empty_slot])))"
    using j by (subst id_take_nth_drop [OF j(1)]) (simp add: upd_conv_take_nth_drop [OF j(1)] empty_slot_def)
  moreover have "table_refs slots = held (Some (sl_cancel (slots ! j))) + table_refs (slots[j := empty_slot])"
    using owned_split [of j "map sl_cancel slots"] j(1) by (simp add: table_refs_def map_update empty_slot_def)
  ultimately show ?thesis by blast
qed

subsection \<open>Operations on the set of records\<close>

abbreviation lease_of :: "vireo_task_metadata \<Rightarrow> vireo_connection_pool_lease" where
  "lease_of m \<equiv> \<lparr>cl_pool_id = rt_client_owner_id (md_route m), cl_slot_index = rt_client_slot_index (md_route m),
     cl_generation = rt_client_generation (md_route m)\<rparr>"

text \<open>The decision on a registration, stated over the set of records in flight; \<open>limit\<close> bounds the requests of the client, if given.\<close>

definition admission :: "vireo_tcp_server \<Rightarrow> vireo_task_metadata \<Rightarrow> nat option \<Rightarrow> nat \<Rightarrow> vireo_task_metadata set \<Rightarrow> vireo_result" where
  "admission server m limit capacity S =
     (if limit = Some 0 \<or> \<not> metadata_has_valid_shape m then VIREO_RESULT_INVALID_ARGUMENT
      else if (case limit of None \<Rightarrow> False | Some l \<Rightarrow> l > capacity) then VIREO_RESULT_RANGE
      else if fst (sv_client_inspect server (lease_of m)) \<noteq> VIREO_OK then fst (sv_client_inspect server (lease_of m))
      else if fst (sv_inspect server) \<noteq> VIREO_OK then fst (sv_inspect server)
      else if snd (sv_inspect server) then VIREO_RESULT_CANCELLED
      else if snd (sv_client_inspect server (lease_of m)) \<noteq> VIREO_CONNECTION_CLOSE_OPEN then VIREO_RESULT_BUSY
      else if (\<exists>n \<in> S. conflict m n) \<or>
        (case limit of None \<Rightarrow> False | Some l \<Rightarrow> l \<le> card {n \<in> S. same_client (md_route m) (md_route n)}) \<or> capacity \<le> card S
      then VIREO_RESULT_BUSY
      else VIREO_OK)"

lemma check_client_cases:
  "vireo_inflight_check_client (Some server) m (Some q) (Some d) =
     (if \<not> metadata_has_valid_shape m then (VIREO_RESULT_INVALID_ARGUMENT, Some q, Some VIREO_INFLIGHT_CHECK_METADATA)
      else if fst (sv_client_inspect server (lease_of m)) \<noteq> VIREO_OK
      then (fst (sv_client_inspect server (lease_of m)), Some q, Some VIREO_INFLIGHT_CHECK_CLIENT)
      else (VIREO_OK, Some (snd (sv_client_inspect server (lease_of m))), Some VIREO_INFLIGHT_NONE))"
proof -
  have "state = VIREO_CONNECTION_CLOSE_OPEN \<or> state = VIREO_CONNECTION_CLOSE_DRAINING \<or> state = VIREO_CONNECTION_CLOSE_READY" for state
    by (cases state) auto
  then show ?thesis
    by (auto simp: vireo_inflight_check_client_def make_own_metadata Let_def case_prod_beta)
qed

definition retained where
  "retained task operations env =
     (if task \<noteq> None then the (co_retain_task (the operations)) task (Some None) env else (VIREO_OK, Some None, env))"

lemma scan_table:
  assumes wf: "table_wf s" and scan: "scan_records m limited (unat (st_capacity s)) (st_slots s) 0 (unat (st_capacity s)) 0 = (sr, f, c)"
  shows "if \<exists>n \<in> table_records s. conflict m n then sr = VIREO_RESULT_BUSY
    else sr = VIREO_OK \<and> (f = unat (st_capacity s) \<longleftrightarrow> unat (st_capacity s) \<le> card (table_records s)) \<and>
      (f \<noteq> unat (st_capacity s) \<longrightarrow> f < length (st_slots s) \<and> \<not> sl_occupied (st_slots s ! f)) \<and>
      (limited \<longrightarrow> unat c = card {n \<in> table_records s. same_client (md_route m) (md_route n)})"
proof -
  have len: "length (st_slots s) = unat (st_capacity s)" "unat (st_capacity s) \<le> 65536" and sw: "slots_wf (st_slots s)"
    and cnt: "card (table_records s) = length (filter sl_occupied (st_slots s))"
    using wf table_wf_count [OF wf] by (simp_all add: table_wf_def)
  have "(\<forall>x \<in> set (st_slots s). sl_occupied x) \<longleftrightarrow> unat (st_capacity s) \<le> card (table_records s)"
    unfolding cnt len(1) [symmetric] by (metis filter_id_conv length_filter_less linorder_not_le order_refl)
  then show ?thesis
    using scan_records_cases [OF _ _ scan] len count_filter_records [OF sw, of "\<lambda>n. same_client (md_route m) (md_route n)"]
    by (auto split: if_splits)
qed

lemma add_record_count:
  assumes "table_wf s" "card (table_records s) < unat (st_capacity s)"
  shows "vireo_checked_size_add (st_count s) 1 (Some 0) = (VIREO_OK, Some (st_count s + 1))" "\<not> st_count s + 1 > st_capacity s"
    "unat (st_count s + 1) = Suc (unat (st_count s))"
  using add_one [of "st_count s" 1 0] table_wf_count [OF assms(1)] assms by (simp_all add: table_wf_def word_less_nat_alt)

lemma register_impl_cases:
  assumes wf: "table_wf s"
    and call: "register_impl (Some s) (Some server) m limited max_client_requests task operations stage env = (r, s', stage', env')"
    and ret: "retained task operations env = (rr, cancel, env1)"
  defines "a \<equiv> admission server m (if limited then Some (unat max_client_requests) else None) (unat (st_capacity s)) (table_records s)"
  shows "if a \<noteq> VIREO_OK then r = a \<and> s' = Some s \<and> env' = env
    else if task \<noteq> None \<and> rr \<noteq> VIREO_OK \<and> rr \<noteq> VIREO_RESULT_NOT_FOUND then r = rr \<and> s' = Some s \<and> env' = env1
    else r = VIREO_OK \<and> env' = env1 \<and> metadata_has_valid_shape m \<and> (\<forall>n \<in> table_records s. \<not> conflict m n) \<and>
      (\<exists>j < length (st_slots s). \<not> sl_occupied (st_slots s ! j) \<and>
        s' = Some (s\<lparr>st_slots := (st_slots s)[j := \<lparr>sl_occupied = True, sl_metadata = m, sl_cancel = the cancel\<rparr>], st_count := st_count s + 1\<rparr>))"
proof -
  let ?cap = "unat (st_capacity s)"
  define checked where "checked \<longleftrightarrow> \<not> (limited \<and> max_client_requests = 0) \<and> metadata_has_valid_shape m \<and>
    \<not> (limited \<and> max_client_requests > st_capacity s) \<and> fst (sv_client_inspect server (lease_of m)) = VIREO_OK \<and>
    fst (sv_inspect server) = VIREO_OK \<and> \<not> snd (sv_inspect server) \<and> snd (sv_client_inspect server (lease_of m)) = VIREO_CONNECTION_CLOSE_OPEN"
  obtain sr f c where scan: "scan_records m limited ?cap (st_slots s) 0 ?cap 0 = (sr, f, c)" by (metis prod_cases3)
  note sc = scan_table [OF wf scan]
  let ?client = "sv_client_inspect server (lease_of m)"
  have early: "r = a \<and> s' = Some s \<and> env' = env \<and> a \<noteq> VIREO_OK" if nc: "\<not> checked"
  proof -
    consider "limited \<and> max_client_requests = 0" | "\<not> (limited \<and> max_client_requests = 0)" "\<not> metadata_has_valid_shape m"
      | "\<not> (limited \<and> max_client_requests = 0)" "metadata_has_valid_shape m" "limited \<and> max_client_requests > st_capacity s"
      | "\<not> (limited \<and> max_client_requests = 0)" "metadata_has_valid_shape m" "\<not> (limited \<and> max_client_requests > st_capacity s)" "fst ?client \<noteq> VIREO_OK"
      | "\<not> (limited \<and> max_client_requests = 0)" "metadata_has_valid_shape m" "\<not> (limited \<and> max_client_requests > st_capacity s)" "fst ?client = VIREO_OK"
        "fst (sv_inspect server) \<noteq> VIREO_OK \<or> snd (sv_inspect server) \<or> snd ?client \<noteq> VIREO_CONNECTION_CLOSE_OPEN"
      using nc unfolding checked_def by blast
    then show ?thesis
      by cases (use call in \<open>auto simp: register_impl_def validate_cases check_client_cases a_def admission_def Let_def case_prod_beta
        word_less_nat_alt unat_eq_0 split: if_splits\<close>)
  qed
  show ?thesis
  proof (cases checked)
    case False
    with early show ?thesis by simp
  next
    case ok: True
    let ?conflict = "\<exists>n \<in> table_records s. conflict m n"
    let ?limit = "limited \<and> unat max_client_requests \<le> card {n \<in> table_records s. same_client (md_route m) (md_route n)}"
    have a: "a = (if ?conflict \<or> ?limit \<or> ?cap \<le> card (table_records s) then VIREO_RESULT_BUSY else VIREO_OK)"
      using ok by (auto simp: a_def admission_def checked_def word_less_nat_alt unat_eq_0)
    have guards: "(Some s = None \<or> Option.is_none (Some server) \<or> limited \<and> max_client_requests = 0) = False" "(validate m \<noteq> VIREO_OK) = False"
      "(limited \<and> max_client_requests > st_capacity s) = False"
      "vireo_inflight_check_client (Some server) m (Some VIREO_CONNECTION_CLOSE_OPEN) (Some VIREO_INFLIGHT_NONE) =
        (VIREO_OK, Some VIREO_CONNECTION_CLOSE_OPEN, Some VIREO_INFLIGHT_NONE)"
      "sv_inspect server = (VIREO_OK, False)" "(VIREO_OK \<noteq> VIREO_OK) = False" "(Some VIREO_CONNECTION_CLOSE_OPEN \<noteq> Some VIREO_CONNECTION_CLOSE_OPEN) = False"
      using ok by (auto simp: checked_def validate_cases check_client_cases prod_eq_iff)
    have "register_impl (Some s) (Some server) m limited max_client_requests task operations stage env =
      (if sr \<noteq> VIREO_OK then (sr, Some s, publish VIREO_INFLIGHT_CHECK_RECORD stage, env)
       else if limited \<and> c \<ge> max_client_requests then (VIREO_RESULT_BUSY, Some s, publish VIREO_INFLIGHT_CHECK_RECORD stage, env)
       else if f = ?cap then (VIREO_RESULT_BUSY, Some s, publish VIREO_INFLIGHT_CHECK_RECORD stage, env)
       else
         let (result, next_count) = vireo_checked_size_add (st_count s) 1 (Some 0) in
         if result \<noteq> VIREO_OK then (result, Some s, publish VIREO_INFLIGHT_CHECK_RECORD stage, env)
         else if the next_count > st_capacity s then (VIREO_RESULT_INTERNAL, Some s, publish VIREO_INFLIGHT_CHECK_RECORD stage, env)
         else if task \<noteq> None \<and> rr \<noteq> VIREO_OK \<and> rr \<noteq> VIREO_RESULT_NOT_FOUND
         then (rr, Some s, publish VIREO_INFLIGHT_RETAIN_CANCEL stage, env1)
         else (VIREO_OK, Some (s\<lparr>st_slots := (st_slots s)[f := \<lparr>sl_occupied = True, sl_metadata = m, sl_cancel = the cancel\<rparr>],
           st_count := the next_count\<rparr>), publish VIREO_INFLIGHT_NONE stage, env1))"
      unfolding register_impl_def Let_def option.sel guards scan ret [unfolded retained_def] prod.case if_False by (rule refl)
    note eq = this [unfolded call]
    show ?thesis
    proof (cases "a = VIREO_OK")
      case False
      then have "r = VIREO_RESULT_BUSY \<and> s' = Some s \<and> env' = env"
        using eq sc a by (auto simp: word_le_nat_alt split: if_splits)
      with False a show ?thesis by (auto split: if_splits)
    next
      case True
      then have nc: "\<not> ?conflict" and nl: "\<not> ?limit" and nf: "\<not> ?cap \<le> card (table_records s)"
        using a by (metis vireo_result.distinct(11) vireo_result.simps)+
      then have f: "sr = VIREO_OK" "f \<noteq> ?cap" "f < length (st_slots s)" "\<not> sl_occupied (st_slots s ! f)" using sc by auto
      have "\<not> (limited \<and> c \<ge> max_client_requests)" using sc nc nl by (auto simp: word_le_nat_alt)
      with f eq nf add_record_count(1,2) [OF wf]
      have eq': "(r, s', stage', env') = (if task \<noteq> None \<and> rr \<noteq> VIREO_OK \<and> rr \<noteq> VIREO_RESULT_NOT_FOUND
         then (rr, Some s, publish VIREO_INFLIGHT_RETAIN_CANCEL stage, env1)
         else (VIREO_OK, Some (s\<lparr>st_slots := (st_slots s)[f := \<lparr>sl_occupied = True, sl_metadata = m, sl_cancel = the cancel\<rparr>],
           st_count := st_count s + 1\<rparr>), publish VIREO_INFLIGHT_NONE stage, env1))"
        by simp
      have "metadata_has_valid_shape m" using ok by (simp add: checked_def)
      with eq' True nc f(3,4) show ?thesis by auto
    qed
  qed
qed

lemma cancel_destroy_fst: "\<exists>env'. vireo_task_cancel_destroy (Some c) env = (VIREO_OK, Some None, env')"
  by (cases c) (auto simp: vireo_task_cancel_destroy_def Let_def)

lemma take_cases:
  assumes wf: "table_wf s" and call: "vireo_inflight_store_take (Some s) key (Some old) stage env = (r, s', out, stage', env')"
  shows "if \<not> metadata_has_valid_shape key then r = VIREO_RESULT_INVALID_ARGUMENT \<and> s' = Some s \<and> out = Some old \<and> env' = env
    else if \<not> (\<exists>m \<in> table_records s. same_request key m) then r = VIREO_RESULT_NOT_FOUND \<and> s' = Some s \<and> out = Some old \<and> env' = env
    else \<exists>j < length (st_slots s). sl_occupied (st_slots s ! j) \<and> same_request key (sl_metadata (st_slots s ! j)) \<and> r = VIREO_OK \<and>
      out = Some (sl_metadata (st_slots s ! j)) \<and> s' = Some (s\<lparr>st_slots := (st_slots s)[j := empty_slot], st_count := st_count s - 1\<rparr>) \<and>
      vireo_task_cancel_destroy (Some (sl_cancel (st_slots s ! j))) env = (VIREO_OK, Some None, env')"
proof (cases "metadata_has_valid_shape key")
  case False
  then show ?thesis using call by (simp add: vireo_inflight_store_take_def validate_cases)
next
  case True
  obtain fr k where f: "find_record key (st_slots s) 0 0 = (fr, k)" by fastforce
  have sw: "slots_wf (st_slots s)" and cap: "st_count s \<le> st_capacity s"
    using wf length_filter_le [of sl_occupied "st_slots s"] by (auto simp: table_wf_def word_le_nat_alt)
  from find_record_cases [OF sw True f] show ?thesis
  proof
    assume "fr = VIREO_OK \<and> (\<exists>j < length (st_slots s). k = 0 + j \<and> sl_occupied (st_slots s ! j) \<and> same_request key (sl_metadata (st_slots s ! j)))"
    then have k: "fr = VIREO_OK" "k < length (st_slots s)" "sl_occupied (st_slots s ! k)" "same_request key (sl_metadata (st_slots s ! k))" by auto
    then have rec: "\<exists>m \<in> table_records s. same_request key m" using slot_record by blast
    have "st_count s \<noteq> 0"
    proof
      assume "st_count s = 0"
      then have "length (filter sl_occupied (st_slots s)) = 0" using wf by (simp add: table_wf_def)
      then show False using k by (simp add: filter_empty_conv)
    qed
    then have c: "(st_count s = 0 \<or> st_count s > st_capacity s) = False" using cap by auto
    obtain env1 where d: "vireo_task_cancel_destroy (Some (sl_cancel (st_slots s ! k))) env = (VIREO_OK, Some None, env1)"
      using cancel_destroy_fst by blast
    have "(r, s', out, stage', env') = (VIREO_OK, Some (s\<lparr>st_slots := (st_slots s)[k := empty_slot], st_count := st_count s - 1\<rparr>),
        Some (sl_metadata (st_slots s ! k)), publish VIREO_INFLIGHT_NONE stage, env1)"
      using call k(1) True unfolding vireo_inflight_store_take_def validate_cases option.sel Let_def f prod.case c d by (simp add: empty_slot_def)
    with k d rec True show ?thesis by auto
  next
    assume "fr = VIREO_RESULT_NOT_FOUND \<and> (\<forall>m \<in> table_records s. \<not> same_request key m)"
    then show ?thesis using call f True by (auto simp: vireo_inflight_store_take_def validate_cases)
  qed
qed

lemma get_cases:
  assumes wf: "table_wf s"
  shows "if \<not> metadata_has_valid_shape key
    then vireo_inflight_store_get (Some s) key (Some old) stage = (VIREO_RESULT_INVALID_ARGUMENT, Some old, publish VIREO_INFLIGHT_CHECK_METADATA stage)
    else if \<not> (\<exists>m \<in> table_records s. same_request key m)
    then vireo_inflight_store_get (Some s) key (Some old) stage = (VIREO_RESULT_NOT_FOUND, Some old, publish VIREO_INFLIGHT_CHECK_RECORD stage)
    else \<exists>m \<in> table_records s. same_request key m \<and>
      vireo_inflight_store_get (Some s) key (Some old) stage = (VIREO_OK, Some m, publish VIREO_INFLIGHT_NONE stage)"
proof (cases "metadata_has_valid_shape key")
  case False
  then show ?thesis by (simp add: vireo_inflight_store_get_def validate_cases)
next
  case True
  obtain fr k where f: "find_record key (st_slots s) 0 0 = (fr, k)" by fastforce
  have sw: "slots_wf (st_slots s)" using wf by (simp add: table_wf_def)
  show ?thesis
    using find_record_cases [OF sw True f] True f slot_record [of _ "st_slots s"]
    by (auto simp: vireo_inflight_store_get_def validate_cases)
qed

lemma count_client_cases:
  assumes wf: "table_wf s" and "cl_pool_id client \<noteq> 0" "cl_generation client \<noteq> 0"
  shows "\<exists>n. vireo_inflight_store_count_client (Some s) client (Some old) stage = (VIREO_OK, Some n, publish VIREO_INFLIGHT_NONE stage) \<and>
    unat n = card {m \<in> table_records s. belongs m client}"
proof -
  let ?route = "\<lparr>rt_client_owner_id = cl_pool_id client, rt_client_slot_index = cl_slot_index client,
    rt_client_generation = cl_generation client, rt_request_sequence = 1\<rparr>"
  obtain cr c where c: "count_records ?route (st_slots s) 0 = (cr, c)" by fastforce
  have sw: "slots_wf (st_slots s)" and len: "length (st_slots s) \<le> 65536" using wf by (simp_all add: table_wf_def)
  have "same_client ?route (md_route m) \<longleftrightarrow> belongs m client" for m by (auto simp: same_client_def belongs_def)
  then have "cr = VIREO_OK" "unat c = card {m \<in> table_records s. belongs m client}"
    using count_records_cases [OF _ c] len count_filter_records [OF sw, of "\<lambda>m. belongs m client"] by simp_all
  with assms(2,3) c show ?thesis by (simp add: vireo_inflight_store_count_client_def vireo_task_route_make_def)
qed

subsection \<open>The table and the references it holds\<close>

definition table_ok :: "bytes list \<Rightarrow> nat set \<Rightarrow> nat multiset \<Rightarrow> nat multiset \<Rightarrow> vireo_inflight_store \<Rightarrow> task_env \<Rightarrow> bool" where
  "table_ok R Q H B s env \<longleftrightarrow> table_wf s \<and> env_ok R Q (table_refs (st_slots s) + H) B env"

lemma filled_table:
  assumes wf: "table_wf s" and j: "j < length (st_slots s)" "\<not> sl_occupied (st_slots s ! j)"
    and m: "metadata_has_valid_shape m" "\<forall>n \<in> table_records s. \<not> conflict m n"
  shows "table_wf (s\<lparr>st_slots := (st_slots s)[j := \<lparr>sl_occupied = True, sl_metadata = m, sl_cancel = c\<rparr>], st_count := st_count s + 1\<rparr>)"
proof -
  have "length (filter sl_occupied (st_slots s)) < length (st_slots s)" using j by (metis length_filter_less nth_mem)
  then have "card (table_records s) < unat (st_capacity s)" using wf table_wf_count [OF wf] by (simp add: table_wf_def)
  with fill_slot [OF _ j m, of c] add_record_count(3) [OF wf] wf show ?thesis by (simp add: table_wf_def)
qed

lemma cleared_table:
  assumes wf: "table_wf s" and j: "j < length (st_slots s)" "sl_occupied (st_slots s ! j)"
  shows "table_wf (s\<lparr>st_slots := (st_slots s)[j := empty_slot], st_count := st_count s - 1\<rparr>)"
proof -
  have c: "slots_wf ((st_slots s)[j := empty_slot])" "unat (st_count s) = Suc (length (filter sl_occupied ((st_slots s)[j := empty_slot])))"
    using clear_slot [OF _ j] wf by (simp_all add: table_wf_def)
  then have "st_count s \<noteq> 0" by auto
  then have "unat (st_count s - 1) = length (filter sl_occupied ((st_slots s)[j := empty_slot]))" using c(2) by (simp add: unat_minus_one)
  with c(1) wf show ?thesis by (simp add: table_wf_def)
qed

lemma retained_ok:
  assumes ok: "env_ok R Q H B env" and ret: "retained task (Some (cancel_operations races)) env = (rr, cancel, env1)"
    and live: "\<And>t a. task = Some t \<Longrightarrow> tk_cancel t = Some a \<Longrightarrow> a \<in># H"
  shows "env_ok R Q (held cancel + H) B env1 \<and> cancel \<noteq> None \<and> (rr \<noteq> VIREO_OK \<longrightarrow> cancel = Some None)"
proof (cases "\<exists>t. task = Some t \<and> tk_cancel t \<noteq> None")
  case False
  then show ?thesis
    using ret ok by (cases task) (auto simp: retained_def cancel_operations_def standard_retain_task_def vireo_task_retain_cancel_def)
next
  case True
  then obtain t a where t: "task = Some t" "tk_cancel t = Some a" by blast
  then have call: "vireo_task_cancel_retain (Some a) (Some None) races env = (rr, cancel, env1)"
    using ret by (simp add: retained_def cancel_operations_def standard_retain_task_def vireo_task_retain_cancel_def)
  have "env_ok R Q (held (Some None) + H) B env" using ok by simp
  from cancel_retain_ok [OF this call] live t have "env_ok R Q (held cancel + H) B env1 \<and> cancel \<noteq> None" by auto
  moreover have "cancel = Some None" if "rr \<noteq> VIREO_OK"
    using call that by (auto simp: vireo_task_cancel_retain_def Let_def split: if_splits prod.splits)
  ultimately show ?thesis by blast
qed

lemma inflight_register_ok:
  assumes ok: "table_ok R Q H B s env"
    and call: "register_impl (Some s) (Some server) m limited max_client_requests task (Some (cancel_operations races)) stage env = (r, s', stage', env')"
    and live: "\<And>t a. task = Some t \<Longrightarrow> tk_cancel t = Some a \<Longrightarrow> a \<in># table_refs (st_slots s) + H"
  defines "a \<equiv> admission server m (if limited then Some (unat max_client_requests) else None) (unat (st_capacity s)) (table_records s)"
  shows "\<exists>s1. s' = Some s1 \<and> table_ok R Q H B s1 env' \<and> st_capacity s1 = st_capacity s \<and> st_self s1 = st_self s \<and>
    (a \<noteq> VIREO_OK \<longrightarrow> r = a) \<and> (task = None \<longrightarrow> r = a) \<and> (r \<noteq> VIREO_OK \<longrightarrow> s1 = s) \<and> (r = VIREO_OK \<longrightarrow> table_records s1 = insert m (table_records s))"
proof -
  have wf: "table_wf s" and eok: "env_ok R Q (table_refs (st_slots s) + H) B env" using ok by (simp_all add: table_ok_def)
  obtain rr cancel env1 where ret: "retained task (Some (cancel_operations races)) env = (rr, cancel, env1)" by (metis prod_cases3)
  have r1: "env_ok R Q (held cancel + (table_refs (st_slots s) + H)) B env1" "cancel \<noteq> None" "rr \<noteq> VIREO_OK \<longrightarrow> cancel = Some None"
    using retained_ok [OF eok ret] live by blast+
  note cs = register_impl_cases [OF wf call ret, folded a_def]
  consider "a \<noteq> VIREO_OK" | "a = VIREO_OK" "task \<noteq> None \<and> rr \<noteq> VIREO_OK \<and> rr \<noteq> VIREO_RESULT_NOT_FOUND"
    | "a = VIREO_OK" "\<not> (task \<noteq> None \<and> rr \<noteq> VIREO_OK \<and> rr \<noteq> VIREO_RESULT_NOT_FOUND)" by blast
  then show ?thesis
  proof cases
    case 1
    with cs ok show ?thesis by simp
  next
    case 2
    with cs r1 wf show ?thesis by (simp add: table_ok_def)
  next
    case 3
    then obtain j where j: "j < length (st_slots s)" "\<not> sl_occupied (st_slots s ! j)" "metadata_has_valid_shape m" "\<forall>n \<in> table_records s. \<not> conflict m n"
      "s' = Some (s\<lparr>st_slots := (st_slots s)[j := \<lparr>sl_occupied = True, sl_metadata = m, sl_cancel = the cancel\<rparr>], st_count := st_count s + 1\<rparr>)"
      "r = VIREO_OK" "env' = env1"
      using cs by auto
    have "slots_wf (st_slots s)" using wf by (simp add: table_wf_def)
    with fill_slot [OF this j(1-4), of "the cancel"] filled_table [OF wf j(1-4), of "the cancel"] j 3(1) r1
    show ?thesis by (simp add: table_ok_def add.assoc)
  qed
qed

lemma take_ok:
  assumes ok: "table_ok R Q H B s env" and call: "vireo_inflight_store_take (Some s) key (Some old) stage env = (r, s', out, stage', env')"
  shows "\<exists>s1. s' = Some s1 \<and> table_ok R Q H B s1 env' \<and> st_capacity s1 = st_capacity s \<and> st_self s1 = st_self s \<and>
    (if r = VIREO_OK then \<exists>m \<in> table_records s. same_request key m \<and> out = Some m \<and> table_records s1 = table_records s - {m} else s1 = s \<and> out = Some old) \<and>
    r = (if \<not> metadata_has_valid_shape key then VIREO_RESULT_INVALID_ARGUMENT
      else if \<exists>m \<in> table_records s. same_request key m then VIREO_OK else VIREO_RESULT_NOT_FOUND)"
proof -
  have wf: "table_wf s" and eok: "env_ok R Q (table_refs (st_slots s) + H) B env" and sw: "slots_wf (st_slots s)"
    using ok by (simp_all add: table_ok_def table_wf_def)
  note cs = take_cases [OF wf call]
  show ?thesis
  proof (cases "metadata_has_valid_shape key \<and> (\<exists>m \<in> table_records s. same_request key m)")
    case False
    with cs ok show ?thesis by (auto split: if_splits)
  next
    case True
    then obtain j where j: "j < length (st_slots s)" "sl_occupied (st_slots s ! j)" "same_request key (sl_metadata (st_slots s ! j))" "r = VIREO_OK"
      "out = Some (sl_metadata (st_slots s ! j))" "s' = Some (s\<lparr>st_slots := (st_slots s)[j := empty_slot], st_count := st_count s - 1\<rparr>)"
      "vireo_task_cancel_destroy (Some (sl_cancel (st_slots s ! j))) env = (VIREO_OK, Some None, env')"
      using cs by auto
    note clear = clear_slot [OF sw j(1,2)]
    have "env_ok R Q (held (Some (sl_cancel (st_slots s ! j))) + (table_refs ((st_slots s)[j := empty_slot]) + H)) B env"
      using eok clear by (simp add: add.assoc)
    from cancel_destroy_ok [OF this j(7)] clear cleared_table [OF wf j(1,2)] slot_record [OF j(1,2)] j True
    show ?thesis by (auto simp: table_ok_def)
  qed
qed

end
