(* ===== verification/Net_Inflight_Cleanup.thy ===== *)
theory Net_Inflight_Cleanup
  imports Net_Inflight_Records
begin

text \<open>
  Cancelling the requests of a client (\<^verbatim>\<open>src/net/inflight_client_cleanup.c\<close>): one batch clears the client's slots in the range it
  scans and asks their tasks to stop; consecutive batches, each continuing where the last one ended, reach the end of the table.
\<close>

definition stopped :: "vireo_inflight_store_slot list \<Rightarrow> vireo_connection_pool_lease \<Rightarrow> nat \<Rightarrow> nat \<Rightarrow> nat set" where
  "stopped slots client lo hi =
     {a. \<exists>i < length slots. lo \<le> i \<and> i < hi \<and> sl_occupied (slots ! i) \<and> belongs (sl_metadata (slots ! i)) client \<and> sl_cancel (slots ! i) = Some a}"

definition swept :: "vireo_inflight_store_slot list \<Rightarrow> vireo_connection_pool_lease \<Rightarrow> nat \<Rightarrow> nat \<Rightarrow> vireo_inflight_store_slot list" where
  "swept slots client lo hi =
     map (\<lambda>i. if lo \<le> i \<and> i < hi \<and> sl_occupied (slots ! i) \<and> belongs (sl_metadata (slots ! i)) client then empty_slot else slots ! i)
       [0..<length slots]"

lemma length_swept [simp]: "length (swept slots client lo hi) = length slots"
  by (simp add: swept_def)

lemma nth_swept:
  "i < length slots \<Longrightarrow> swept slots client lo hi ! i =
     (if lo \<le> i \<and> i < hi \<and> sl_occupied (slots ! i) \<and> belongs (sl_metadata (slots ! i)) client then empty_slot else slots ! i)"
  by (simp add: swept_def)

lemma swept_none [simp]: "hi \<le> lo \<Longrightarrow> swept slots client lo hi = slots"
  by (rule nth_equalityI) (auto simp: nth_swept)

lemma stopped_none [simp]: "hi \<le> lo \<Longrightarrow> stopped slots client lo hi = {}"
  by (auto simp: stopped_def)

lemma sweep_first:
  assumes "lo < length slots" "lo < hi"
  shows "swept slots client lo hi =
    swept (if sl_occupied (slots ! lo) \<and> belongs (sl_metadata (slots ! lo)) client then slots[lo := empty_slot] else slots) client (Suc lo) hi"
  using assms by (intro nth_equalityI) (auto simp: nth_swept nth_list_update empty_slot_def)

lemma stop_first:
  assumes "lo < length slots" "lo < hi"
  shows "stopped slots client lo hi =
    (if sl_occupied (slots ! lo) \<and> belongs (sl_metadata (slots ! lo)) client
     then set_option (sl_cancel (slots ! lo)) \<union> stopped (slots[lo := empty_slot]) client (Suc lo) hi
     else stopped slots client (Suc lo) hi)"
  using assms unfolding stopped_def
  by (auto simp: nth_list_update Suc_le_eq order_le_less intro: exI [of _ lo])

lemma sweep_sweep: "lo \<le> mid \<Longrightarrow> mid \<le> hi \<Longrightarrow> swept (swept slots client lo mid) client mid hi = swept slots client lo hi"
  by (rule nth_equalityI) (auto simp: nth_swept empty_slot_def)

lemma stop_stop:
  "lo \<le> mid \<Longrightarrow> mid \<le> hi \<Longrightarrow> stopped slots client lo mid \<union> stopped (swept slots client lo mid) client mid hi = stopped slots client lo hi"
proof -
  assume "lo \<le> mid" "mid \<le> hi"
  moreover have "stopped (swept slots client lo mid) client mid hi = stopped slots client mid hi"
    unfolding stopped_def by (auto simp: nth_swept)
  ultimately show ?thesis unfolding stopped_def by (auto simp: not_le) (meson linorder_not_le)
qed

lemma cleanup_slot_ok:
  assumes ok: "table_ok R Q H B s env" and i: "unat (cc_next_index v) < length (st_slots s)" "sl_occupied (st_slots s ! unat (cc_next_index v))"
    and call: "cleanup_slot cleanup_default_ops s v env = (r, s1, v1, env1)"
  shows "r = VIREO_OK \<and> s1 = s\<lparr>st_slots := (st_slots s)[unat (cc_next_index v) := empty_slot], st_count := st_count s - 1\<rparr> \<and>
    table_ok R (Q \<union> set_option (sl_cancel (st_slots s ! unat (cc_next_index v)))) H B s1 env1 \<and>
    cc_next_index v1 = cc_next_index v \<and> cc_scanned_slots v1 = cc_scanned_slots v"
proof -
  let ?i = "unat (cc_next_index v)"
  let ?slot = "st_slots s ! ?i"
  have wf: "table_wf s" and eok: "env_ok R Q (table_refs (st_slots s) + H) B env" and sw: "slots_wf (st_slots s)"
    using ok by (simp_all add: table_ok_def table_wf_def)
  note clear = clear_slot [OF sw i]
  have nz: "(st_count s = 0) = False" using wf clear unfolding table_wf_def by (metis nat.distinct(1) unsigned_0)
  obtain r2 env2 where q: "vireo_task_cancel_request (sl_cancel ?slot) env = (r2, env2)" by fastforce
  let ?env = "if sl_cancel ?slot \<noteq> None then env2 else env"
  have r2: "sl_cancel ?slot \<noteq> None \<longrightarrow> r2 = VIREO_OK" using q by (auto simp: vireo_task_cancel_request_def)
  have "env_ok R (Q \<union> set_option (sl_cancel ?slot)) (table_refs (st_slots s) + H) B ?env"
  proof (cases "sl_cancel ?slot")
    case None
    with eok show ?thesis by simp
  next
    case (Some a)
    have refs: "table_refs (st_slots s) = held (Some (sl_cancel ?slot)) + table_refs ((st_slots s)[?i := empty_slot])" using clear by blast
    have "a \<in># table_refs (st_slots s) + H" unfolding refs Some by simp
    with cancel_request_ok [OF eok q] Some show ?thesis by simp
  qed
  then have eok2: "env_ok R (Q \<union> set_option (sl_cancel ?slot)) (held (Some (sl_cancel ?slot)) + (table_refs ((st_slots s)[?i := empty_slot]) + H)) B ?env"
    using clear by (simp add: add.assoc)
  obtain env3 where d: "vireo_task_cancel_destroy (Some (sl_cancel ?slot)) ?env = (VIREO_OK, Some None, env3)"
    using cancel_destroy_fst by blast
  have "r = VIREO_OK \<and> s1 = s\<lparr>st_slots := (st_slots s)[?i := empty_slot], st_count := st_count s - 1\<rparr> \<and> env1 = env3 \<and>
    cc_next_index v1 = cc_next_index v \<and> cc_scanned_slots v1 = cc_scanned_slots v"
    using call q d r2 nz
    by (cases "sl_cancel ?slot") (auto simp: cleanup_slot_def cleanup_default_ops_def request_public_def release_public_def empty_slot_def Let_def)
  with cancel_destroy_ok [OF eok2 d] cleared_table [OF wf i] show ?thesis by (simp add: table_ok_def)
qed

lemma cleanup_loop_ok:
  assumes "table_ok R Q H B s env" and "unat (cc_next_index v) + n = unat (st_capacity s)" and "unat (cc_scanned_slots v) + n < 2 ^ 64"
    and "cleanup_loop n client max_slots cleanup_default_ops s v env = (r, s', v', env')"
  defines "lo \<equiv> unat (cc_next_index v)"
  shows "r = VIREO_OK \<and> (\<exists>k \<le> n. unat (cc_next_index v') = lo + k \<and> unat (cc_scanned_slots v') = unat (cc_scanned_slots v) + k \<and>
    (k < n \<longrightarrow> max_slots \<le> cc_scanned_slots v') \<and> st_slots s' = swept (st_slots s) client lo (lo + k) \<and> st_capacity s' = st_capacity s \<and>
    st_self s' = st_self s \<and> table_ok R (Q \<union> stopped (st_slots s) client lo (lo + k)) H B s' env')"
  using assms(1-4) unfolding lo_def
proof (induction n arbitrary: Q s v env)
  case 0
  then show ?case by simp
next
  case (Suc n)
  let ?i = "unat (cc_next_index v)"
  let ?hit = "sl_occupied (st_slots s ! ?i) \<and> belongs (sl_metadata (st_slots s ! ?i)) client"
  have len: "length (st_slots s) = unat (st_capacity s)" using Suc.prems(1) by (simp add: table_ok_def table_wf_def)
  then have i: "?i < length (st_slots s)" using Suc.prems(2) by simp
  show ?case
  proof (cases "cc_scanned_slots v < max_slots")
    case False
    then show ?thesis using Suc.prems by (auto intro!: exI [of _ 0])
  next
    case True
    let ?v = "v\<lparr>cc_scanned_slots := cc_scanned_slots v + 1\<rparr>"
    obtain r1 s1 v1 env1 where step: "(if ?hit then cleanup_slot cleanup_default_ops s ?v env else (VIREO_OK, s, ?v, env)) = (r1, s1, v1, env1)"
      by (metis prod_cases4)
    have one: "r1 = VIREO_OK \<and> st_slots s1 = (if ?hit then (st_slots s)[?i := empty_slot] else st_slots s) \<and> st_capacity s1 = st_capacity s \<and>
      st_self s1 = st_self s \<and> table_ok R (if ?hit then Q \<union> set_option (sl_cancel (st_slots s ! ?i)) else Q) H B s1 env1 \<and>
      cc_next_index v1 = cc_next_index v \<and> cc_scanned_slots v1 = cc_scanned_slots v + 1"
      using step cleanup_slot_ok [OF Suc.prems(1), of ?v r1 s1 v1 env1] i Suc.prems(1) by (cases ?hit) auto
    let ?v1 = "v1\<lparr>cc_next_index := cc_next_index v1 + 1\<rparr>"
    have rest: "cleanup_loop n client max_slots cleanup_default_ops s1 ?v1 env1 = (r, s', v', env')"
      using Suc.prems(4) True step one by (simp add: Let_def)
    have idx: "unat (cc_next_index ?v1) = Suc ?i" and scn: "unat (cc_scanned_slots ?v1) = Suc (unat (cc_scanned_slots v))"
      using one Suc.prems(2,3) unat_lt_64 [of "st_capacity s"] by (simp_all add: unat_word_ariths)
    obtain k where k: "k \<le> n" "unat (cc_next_index v') = Suc ?i + k" "unat (cc_scanned_slots v') = Suc (unat (cc_scanned_slots v)) + k"
      "k < n \<longrightarrow> max_slots \<le> cc_scanned_slots v'" "st_slots s' = swept (st_slots s1) client (Suc ?i) (Suc ?i + k)"
      "st_capacity s' = st_capacity s" "st_self s' = st_self s" "r = VIREO_OK"
      "table_ok R ((if ?hit then Q \<union> set_option (sl_cancel (st_slots s ! ?i)) else Q) \<union> stopped (st_slots s1) client (Suc ?i) (Suc ?i + k)) H B s' env'"
      using Suc.IH [OF _ _ _ rest, of "if ?hit then Q \<union> set_option (sl_cancel (st_slots s ! ?i)) else Q"] one idx scn Suc.prems(2,3) by auto
    have "st_slots s' = swept (st_slots s) client ?i (?i + Suc k)"
      using k(5) one sweep_first [OF i, of "?i + Suc k" client] by simp
    moreover have "table_ok R (Q \<union> stopped (st_slots s) client ?i (?i + Suc k)) H B s' env'"
      using k(9) one stop_first [OF i, of "?i + Suc k" client] by (cases ?hit) (simp_all add: Un_assoc)
    ultimately show ?thesis using k by (intro conjI exI [of _ "Suc k"]) simp_all
  qed
qed

lemma batch_refused:
  assumes "cl_pool_id client = 0 \<or> cl_generation client = 0 \<or> max_slots = 0 \<or> max_slots > 65536 \<or> begin_index > st_capacity s"
    and "vireo_inflight_store_cancel_client_batch (Some s) client begin_index max_slots (Some old) env = (r, s', rep, env')"
  shows "r \<noteq> VIREO_OK \<and> s' = Some s \<and> env' = env"
  using assms by (auto simp: vireo_inflight_store_cancel_client_batch_def vireo_inflight_client_cleanup_with_ops_def cleanup_default_ops_def split: if_splits)

lemma batch_ok:
  assumes ok: "table_ok R Q H B s env" and client: "cl_pool_id client \<noteq> 0" "cl_generation client \<noteq> 0"
    and args: "max_slots \<noteq> 0" "max_slots \<le> 65536" "begin_index \<le> st_capacity s"
    and call: "vireo_inflight_store_cancel_client_batch (Some s) client begin_index max_slots (Some old) env = (r, s', rep, env')"
  shows "\<exists>s1 v k. r = VIREO_OK \<and> s' = Some s1 \<and> rep = Some v \<and> unat (cc_next_index v) = unat begin_index + k \<and>
    unat begin_index + k \<le> unat (st_capacity s) \<and> (unat begin_index + k < unat (st_capacity s) \<longrightarrow> unat max_slots \<le> k) \<and>
    cc_stop_reason v = (if cc_next_index v = st_capacity s then VIREO_INFLIGHT_CLIENT_CLEANUP_COMPLETE else VIREO_INFLIGHT_CLIENT_CLEANUP_BUDGET) \<and>
    st_slots s1 = swept (st_slots s) client (unat begin_index) (unat begin_index + k) \<and> st_capacity s1 = st_capacity s \<and> st_self s1 = st_self s \<and>
    table_ok R (Q \<union> stopped (st_slots s) client (unat begin_index) (unat begin_index + k)) H B s1 env'"
proof -
  let ?v = "no_cleanup_report\<lparr>cc_next_index := begin_index\<rparr>" and ?n = "unat (st_capacity s) - unat begin_index"
  obtain r1 s1 v1 env1 where loop: "cleanup_loop ?n client max_slots cleanup_default_ops s ?v env = (r1, s1, v1, env1)" by (metis prod_cases4)
  have le: "unat begin_index \<le> unat (st_capacity s)" using args(3) by (simp add: word_le_nat_alt)
  have cap: "unat (st_capacity s) \<le> 65536" and cnt: "\<not> st_count s > st_capacity s"
    using ok length_filter_le [of sl_occupied "st_slots s"] by (simp_all add: table_ok_def table_wf_def word_less_nat_alt)
  have eq: "unat (cc_next_index ?v) + ?n = unat (st_capacity s)" and small: "unat (cc_scanned_slots ?v) + ?n < 2 ^ 64"
    using le cap by (simp_all add: no_cleanup_report_def)
  obtain k where k: "r1 = VIREO_OK" "k \<le> ?n" "unat (cc_next_index v1) = unat begin_index + k" "unat (cc_scanned_slots v1) = k"
    "k < ?n \<longrightarrow> max_slots \<le> cc_scanned_slots v1" "st_slots s1 = swept (st_slots s) client (unat begin_index) (unat begin_index + k)"
    "st_capacity s1 = st_capacity s" "st_self s1 = st_self s"
    "table_ok R (Q \<union> stopped (st_slots s) client (unat begin_index) (unat begin_index + k)) H B s1 env1"
    using cleanup_loop_ok [OF ok eq small loop] by (auto simp: no_cleanup_report_def)
  have guards: "(Some s = None \<or> Some old = None \<or> max_slots = 0 \<or> Option.is_none (Some cleanup_default_ops) \<or>
      Option.is_none (cu_request cleanup_default_ops) \<or> Option.is_none (cu_release cleanup_default_ops)) = False"
    "(max_slots > VIREO_INFLIGHT_STORE_MAX_CAPACITY \<or> begin_index > st_capacity s) = False"
    "(cl_pool_id client = 0 \<and> cl_slot_index client = 0 \<and> cl_generation client = 0) = False"
    "(cl_pool_id client = 0 \<or> cl_generation client = 0) = False" "(st_count s > st_capacity s) = False" "(VIREO_OK \<noteq> VIREO_OK) = False"
    using client args cnt by (auto simp: cleanup_default_ops_def)
  have "vireo_inflight_store_cancel_client_batch (Some s) client begin_index max_slots (Some old) env =
      (VIREO_OK, Some s1, Some (v1\<lparr>cc_stage := VIREO_INFLIGHT_CLIENT_CLEANUP_NONE, cc_stop_reason :=
      (if cc_next_index v1 = st_capacity s1 then VIREO_INFLIGHT_CLIENT_CLEANUP_COMPLETE else VIREO_INFLIGHT_CLIENT_CLEANUP_BUDGET)\<rparr>), env1)"
    unfolding vireo_inflight_store_cancel_client_batch_def vireo_inflight_client_cleanup_with_ops_def Let_def option.sel guards loop [unfolded k(1)]
      prod.case if_False by (rule refl)
  with call have "(r, s', rep, env') = (VIREO_OK, Some s1, Some (v1\<lparr>cc_stage := VIREO_INFLIGHT_CLIENT_CLEANUP_NONE, cc_stop_reason :=
      (if cc_next_index v1 = st_capacity s1 then VIREO_INFLIGHT_CLIENT_CLEANUP_COMPLETE else VIREO_INFLIGHT_CLIENT_CLEANUP_BUDGET)\<rparr>), env1)"
    by simp
  with k le show ?thesis
    by (intro exI [of _ s1] exI [of _ "v1\<lparr>cc_stage := VIREO_INFLIGHT_CLIENT_CLEANUP_NONE, cc_stop_reason :=
      (if cc_next_index v1 = st_capacity s1 then VIREO_INFLIGHT_CLIENT_CLEANUP_COMPLETE else VIREO_INFLIGHT_CLIENT_CLEANUP_BUDGET)\<rparr>"] exI [of _ k])
      (auto simp: word_le_nat_alt)
qed

text \<open>Consecutive batches, at most \<open>n\<close>, each starting where the one before stopped.\<close>

fun cleanup_batches ::
  "nat \<Rightarrow> vireo_connection_pool_lease \<Rightarrow> size_t \<Rightarrow> size_t \<Rightarrow> vireo_inflight_store \<Rightarrow> task_env \<Rightarrow>
   vireo_inflight_client_cleanup_stop \<times> vireo_inflight_store \<times> task_env" where
  "cleanup_batches 0 client max_slots begin_index s env = (VIREO_INFLIGHT_CLIENT_CLEANUP_BUDGET, s, env)"
| "cleanup_batches (Suc n) client max_slots begin_index s env =
     (let (r, store, report, env) = vireo_inflight_store_cancel_client_batch (Some s) client begin_index max_slots (Some no_cleanup_report) env in
      if cc_stop_reason (the report) = VIREO_INFLIGHT_CLIENT_CLEANUP_BUDGET
      then cleanup_batches n client max_slots (cc_next_index (the report)) (the store) env
      else (cc_stop_reason (the report), the store, env))"

lemma batches_ok:
  assumes "table_ok R Q H B s env" and "cl_pool_id client \<noteq> 0" "cl_generation client \<noteq> 0"
    and "max_slots \<noteq> 0" "max_slots \<le> 65536" "begin_index \<le> st_capacity s" and "unat (st_capacity s) - unat begin_index < n * unat max_slots"
    and "cleanup_batches n client max_slots begin_index s env = (stop, s', env')"
  shows "stop = VIREO_INFLIGHT_CLIENT_CLEANUP_COMPLETE \<and> st_slots s' = swept (st_slots s) client (unat begin_index) (unat (st_capacity s)) \<and>
    table_ok R (Q \<union> stopped (st_slots s) client (unat begin_index) (unat (st_capacity s))) H B s' env'"
  using assms(1,6-)
proof (induction n arbitrary: Q s env begin_index)
  case 0
  then show ?case by simp
next
  case (Suc n)
  let ?b = "unat begin_index" and ?c = "unat (st_capacity s)"
  obtain r st rep e where call: "vireo_inflight_store_cancel_client_batch (Some s) client begin_index max_slots (Some no_cleanup_report) env = (r, st, rep, e)"
    by (metis prod_cases4)
  obtain s1 v k where b: "st = Some s1" "rep = Some v" "unat (cc_next_index v) = ?b + k" "?b + k \<le> ?c" "?b + k < ?c \<longrightarrow> unat max_slots \<le> k"
    "cc_stop_reason v = (if cc_next_index v = st_capacity s then VIREO_INFLIGHT_CLIENT_CLEANUP_COMPLETE else VIREO_INFLIGHT_CLIENT_CLEANUP_BUDGET)"
    "st_slots s1 = swept (st_slots s) client ?b (?b + k)" "st_capacity s1 = st_capacity s"
    "table_ok R (Q \<union> stopped (st_slots s) client ?b (?b + k)) H B s1 e"
    using batch_ok [OF Suc.prems(1) assms(2-5) Suc.prems(2) call] by blast
  show ?case
  proof (cases "cc_next_index v = st_capacity s")
    case True
    then have "?b + k = ?c" using b(3) by simp
    then show ?thesis using Suc.prems(4) call b True by simp
  next
    case False
    then have lt: "?b + k < ?c" using b(3,4) by (metis le_neq_implies_less word_unat_eq_iff)
    then have "?c - unat (cc_next_index v) < n * unat max_slots" using b(3,5) Suc.prems(3) by auto
    moreover have "cleanup_batches n client max_slots (cc_next_index v) s1 e = (stop, s', env')"
      using Suc.prems(4) call b(1,2,6) False by simp
    moreover have "cc_next_index v \<le> st_capacity s1" using b(3,4,8) by (simp add: word_le_nat_alt)
    ultimately have "stop = VIREO_INFLIGHT_CLIENT_CLEANUP_COMPLETE \<and> st_slots s' = swept (st_slots s1) client (?b + k) ?c \<and>
      table_ok R (Q \<union> stopped (st_slots s) client ?b (?b + k) \<union> stopped (st_slots s1) client (?b + k) ?c) H B s' env'"
      using Suc.IH [OF b(9), of "cc_next_index v"] b(3,8) by simp
    then show ?thesis
      unfolding b(7) using sweep_sweep [of ?b "?b + k" ?c "st_slots s" client] stop_stop [of ?b "?b + k" ?c "st_slots s" client] b(4)
      by (simp add: Un_assoc)
  qed
qed

lemma swept_all_records:
  assumes "length slots = n"
  shows "records_of (swept slots client 0 n) = {m \<in> records_of slots. \<not> belongs m client}"
proof -
  let ?f = "\<lambda>x. if sl_occupied x \<and> belongs (sl_metadata x) client then empty_slot else x"
  have "swept slots client 0 n = map ?f slots" using assms by (intro nth_equalityI) (auto simp: nth_swept)
  moreover have "records_of (map ?f slots) = {m \<in> records_of slots. \<not> belongs m client}"
    by (induction slots) (auto simp: records_of_Cons empty_slot_def)
  ultimately show ?thesis by simp
qed

end
