(* ===== verification/Net_Inflight_Flow.thy ===== *)
theory Net_Inflight_Flow
  imports Net_Inflight_Cleanup
begin

text \<open>
  The table of requests in use, together with the tasks, completions and references around it: any sequence of operations on all of
  them, with any answers of the server and of the delivery callback. Two ghost fields log the registrations and the deliveries.
\<close>

subsection \<open>Consuming a completion\<close>

lemma records_valid: "table_wf s \<Longrightarrow> m \<in> table_records s \<Longrightarrow> metadata_has_valid_shape m"
  by (auto simp: table_wf_def slots_wf_def records_of_def)

lemma records_unique: "table_wf s \<Longrightarrow> m \<in> table_records s \<Longrightarrow> n \<in> table_records s \<Longrightarrow> conflict m n \<Longrightarrow> m = n"
proof -
  assume wf: "table_wf s" and "m \<in> table_records s" "n \<in> table_records s" and c: "conflict m n"
  then obtain i j where "i < length (st_slots s)" "sl_occupied (st_slots s ! i)" "m = sl_metadata (st_slots s ! i)"
    "j < length (st_slots s)" "sl_occupied (st_slots s ! j)" "n = sl_metadata (st_slots s ! j)"
    by (auto simp: records_of_def in_set_conv_nth)
  with wf c show ?thesis unfolding table_wf_def slots_wf_def by metis
qed

lemma completion_shape: "completion_has_valid_shape m \<Longrightarrow> metadata_has_valid_shape (cm_request m)"
  by (auto simp: completion_has_valid_shape_def vireo_task_metadata_same_request_def Let_def split: if_splits)

lemma make_own_completion:
  "completion_has_valid_shape m \<Longrightarrow> vireo_completion_metadata_make (cm_request m) (cm_result m) (cm_suggested_status m) (Some z) = (VIREO_OK, Some m)"
  by (cases m) (simp add: vireo_completion_metadata_make_def Let_def)

text \<open>A completion matches, is late, or is refused.\<close>

lemma check_completion_cases:
  assumes wf: "table_wf s" and p: "completion_wf p"
    and call: "vireo_inflight_store_check_completion (Some s) (Some server) (Some p) (Some old) (Some d) = (r, mt, d')"
  shows "(r = VIREO_OK \<longrightarrow> (\<exists>m \<in> table_records s. \<exists>state. same_request (cm_request (cp_metadata p)) m \<and> mt = Some \<lparr>im_metadata = m, im_close_state = state\<rparr>)) \<and>
    (r \<noteq> VIREO_OK \<longrightarrow> mt = Some old) \<and> d' \<noteq> None"
proof -
  let ?m = "cp_metadata p"
  let ?req = "cm_request ?m"
  have sh: "completion_has_valid_shape ?m" "metadata_has_valid_shape ?req" using p completion_shape by (auto simp: completion_wf_def)
  note g = get_cases [OF wf, of ?req no_metadata "Some VIREO_INFLIGHT_NONE"]
  show ?thesis
  proof (cases "fst (sv_client_inspect server (lease_of ?req)) = VIREO_OK")
    case False
    then show ?thesis
      using call sh by (auto simp: vireo_inflight_store_check_completion_def vireo_completion_inspect_def make_own_completion check_client_cases Let_def)
  next
    case True
    obtain gr m gd where get: "vireo_inflight_store_get (Some s) ?req (Some no_metadata) (Some VIREO_INFLIGHT_NONE) = (gr, m, gd)" by (metis prod_cases3)
    have "gr = VIREO_OK \<longrightarrow> (\<exists>n \<in> table_records s. same_request ?req n \<and> m = Some n)" and "gd \<noteq> None"
      using g get sh(2) by (auto split: if_splits)
    then show ?thesis
      using call sh True get
      by (auto simp: vireo_inflight_store_check_completion_def vireo_completion_inspect_def make_own_completion check_client_cases Let_def split: if_splits)
  qed
qed

lemma classify_cases:
  assumes wf: "table_wf s" and p: "completion_wf p" and v: "cr_completion_metadata v = cp_metadata p"
  shows "case consume_classify (Some s) (Some server) p v of
      Inl (r, v') \<Rightarrow> r \<noteq> VIREO_OK \<and> cr_delivery_called v' = cr_delivery_called v
    | Inr (v', rec) \<Rightarrow> cr_delivery_called v' = cr_delivery_called v \<and>
        (case rec of None \<Rightarrow> cr_disposition v' \<noteq> VIREO_INFLIGHT_COMPLETION_MATCHED
         | Some m \<Rightarrow> m \<in> table_records s \<and> same_request (cm_request (cp_metadata p)) m \<and>
             (cr_disposition v' = VIREO_INFLIGHT_COMPLETION_MATCHED \<longrightarrow> im_metadata (cr_match v') = m))"
proof -
  obtain r mt d where c: "vireo_inflight_store_check_completion (Some s) (Some server) (Some p) (Some (cr_match v)) (Some (cr_inflight_stage v)) = (r, mt, d)"
    by (metis prod_cases3)
  note cc = check_completion_cases [OF wf p c]
  let ?req = "cm_request (cp_metadata p)"
  have sh: "metadata_has_valid_shape ?req" using p completion_shape by (auto simp: completion_wf_def)
  obtain gr m gd where get: "vireo_inflight_store_get (Some s) ?req (Some no_metadata) (Some VIREO_INFLIGHT_NONE) = (gr, m, gd)" by (metis prod_cases3)
  have "gr = VIREO_OK \<longrightarrow> (\<exists>n \<in> table_records s. same_request ?req n \<and> m = Some n)"
    using get_cases [OF wf, of ?req no_metadata "Some VIREO_INFLIGHT_NONE"] get sh by (auto split: if_splits)
  note rec = this
  consider "r = VIREO_OK" | "r = VIREO_RESULT_NOT_FOUND" "the d = VIREO_INFLIGHT_CHECK_CLIENT" | "r = VIREO_RESULT_NOT_FOUND" "the d = VIREO_INFLIGHT_CHECK_RECORD"
    | "r \<noteq> VIREO_OK" "\<not> (r = VIREO_RESULT_NOT_FOUND \<and> (the d = VIREO_INFLIGHT_CHECK_CLIENT \<or> the d = VIREO_INFLIGHT_CHECK_RECORD))" by blast
  then show ?thesis
  proof cases
    case 1
    with cc obtain n state where "n \<in> table_records s" "same_request ?req n" "mt = Some \<lparr>im_metadata = n, im_close_state = state\<rparr>" by blast
    with 1 c show ?thesis by (simp add: consume_classify_def Let_def)
  next
    case 2
    with c v get have "consume_classify (Some s) (Some server) p v =
      (let v = v\<lparr>cr_match := the mt, cr_inflight_stage := VIREO_INFLIGHT_CHECK_CLIENT, cr_disposition := VIREO_INFLIGHT_COMPLETION_CLIENT_GONE\<rparr> in
       if gr = VIREO_OK
       then if md_operation (the m) \<noteq> md_operation ?req \<or> md_deadline_ns (the m) \<noteq> md_deadline_ns ?req
         then Inl (VIREO_RESULT_INVALID_ARGUMENT, v\<lparr>cr_inflight_stage := VIREO_INFLIGHT_MATCH_RECORD, cr_stage := VIREO_INFLIGHT_CONSUME_CHECK_RECORD\<rparr>)
         else Inr (v, m)
       else if gr \<noteq> VIREO_RESULT_NOT_FOUND then Inl (gr, v\<lparr>cr_inflight_stage := the gd, cr_stage := VIREO_INFLIGHT_CONSUME_CHECK_RECORD\<rparr>)
       else Inr (v, None))"
      by (simp add: consume_classify_def Let_def)
    with rec show ?thesis by (cases "gr = VIREO_OK"; cases "gr = VIREO_RESULT_NOT_FOUND") (auto simp: Let_def)
  next
    case 3
    with c show ?thesis by (simp add: consume_classify_def Let_def)
  next
    case 4
    with c show ?thesis by (simp add: consume_classify_def Let_def)
  qed
qed

lemma deliver_ok:
  assumes ok: "completions_ok R Q H B (held v + ps) env" and v: "v \<noteq> None"
    and call: "consume_deliver v deliver context w env = (r, v', context', w', env')" and fresh: "\<not> cr_delivery_called w"
  shows "completions_ok R Q H B (held v' + ps) env' \<and> v' \<noteq> None \<and> cr_match w' = cr_match w \<and>
    (cr_delivery_called w' \<longrightarrow> cr_disposition w = VIREO_INFLIGHT_COMPLETION_MATCHED) \<and> (r = VIREO_OK \<longrightarrow> v' = Some None)"
proof -
  obtain dr dc where d: "(if cr_disposition w = VIREO_INFLIGHT_COMPLETION_MATCHED then deliver context (the v) (cr_match w) else (VIREO_OK, context)) = (dr, dc)"
    by fastforce
  obtain r1 v1 h1 where c: "vireo_completion_destroy v (te_heap env) = (r1, v1, h1)" by (metis prod_cases3)
  have gone: "completions_ok R Q H B ps (env\<lparr>te_heap := h1\<rparr>)" "v1 = Some None" "r1 = VIREO_OK"
    using completion_destroy_ok [OF ok c] v by auto
  show ?thesis
  proof (cases "cr_disposition w = VIREO_INFLIGHT_COMPLETION_MATCHED")
    case True
    show ?thesis
    proof (cases "dr = VIREO_OK")
      case False
      with True d call ok v show ?thesis by (auto simp: consume_deliver_def)
    next
      case ok_dr: True
      with True d call c gone(2,3) have "(r, v', context', w', env') = (VIREO_OK, Some None, dc, w\<lparr>cr_delivery_called := True, cr_delivery_result := VIREO_OK,
          cr_destroy_called := True, cr_destroy_result := VIREO_OK, cr_completion_consumed := True, cr_stage := VIREO_INFLIGHT_CONSUME_NONE\<rparr>,
          env\<lparr>te_heap := h1\<rparr>)"
        by (simp add: consume_deliver_def)
      then have "v' = Some None" "env' = env\<lparr>te_heap := h1\<rparr>" "cr_match w' = cr_match w" by simp_all
      with True gone(1) show ?thesis by simp
    qed
  next
    case False
    with call c gone(2,3) have "(r, v', context', w', env') = (VIREO_OK, Some None, context, w\<lparr>cr_destroy_called := True,
        cr_destroy_result := VIREO_OK, cr_completion_consumed := True, cr_stage := VIREO_INFLIGHT_CONSUME_NONE\<rparr>, env\<lparr>te_heap := h1\<rparr>)"
      by (simp add: consume_deliver_def)
    then have "v' = Some None" "env' = env\<lparr>te_heap := h1\<rparr>" "cr_match w' = cr_match w" "\<not> cr_delivery_called w'" using fresh by simp_all
    with gone(1) show ?thesis by simp
  qed
qed

lemma consume_ok:
  assumes wf: "table_wf s" and ok: "completions_ok R Q (table_refs (st_slots s) + H) B (held v + ps) env"
    and call: "vireo_inflight_store_consume_completion (Some s) (Some server) v (Some deliver) context (Some rep) env = (r, s', v', context', rep', env')"
  shows "\<exists>s1 w. s' = Some s1 \<and> rep' = Some w \<and> table_wf s1 \<and> completions_ok R Q (table_refs (st_slots s1) + H) B (held v' + ps) env' \<and>
    (v' = None \<longleftrightarrow> v = None) \<and> st_capacity s1 = st_capacity s \<and> st_self s1 = st_self s \<and>
    (if cr_delivery_called w then im_metadata (cr_match w) \<in> table_records s \<and> table_records s1 = table_records s - {im_metadata (cr_match w)}
     else table_records s1 \<subseteq> table_records s)"
proof (cases "\<exists>p. v = Some (Some p)")
  case False
  then have "v = None \<or> v = Some None" by (metis not_Some_eq)
  then have "s' = Some s \<and> v' = v \<and> rep' = Some no_consume_report \<and> env' = env"
    using call by (auto simp: vireo_inflight_store_consume_completion_def)
  moreover have "\<not> cr_delivery_called no_consume_report" by (simp add: no_consume_report_def)
  ultimately show ?thesis using wf ok by simp
next
  case True
  then obtain p where v: "v = Some (Some p)" by blast
  then have p: "completion_wf p" using ok by (simp add: completions_ok_def)
  let ?w = "no_consume_report\<lparr>cr_completion_inspected := True, cr_completion_metadata := cp_metadata p\<rparr>"
  have fresh: "\<not> cr_delivery_called ?w" by (simp add: no_consume_report_def)
  note cl = classify_cases [OF wf p, of ?w server]
  have red: "vireo_inflight_store_consume_completion (Some s) (Some server) v (Some deliver) context (Some rep) env =
    (case consume_classify (Some s) (Some server) p ?w of
       Inl (result, w) \<Rightarrow> (result, Some s, v, context, Some w, env)
     | Inr (w, rec) \<Rightarrow>
         let (result, store, ended, detail, env) =
               (case rec of None \<Rightarrow> (VIREO_OK, Some s, None, Some VIREO_INFLIGHT_NONE, env)
                | Some m \<Rightarrow> vireo_inflight_store_take (Some s) m (Some no_metadata) (Some VIREO_INFLIGHT_NONE) env) in
         if result \<noteq> VIREO_OK
         then (result, store, v, context, Some (w\<lparr>cr_inflight_stage := the detail, cr_stage := VIREO_INFLIGHT_CONSUME_TAKE_RECORD\<rparr>), env)
         else
           let w = (if rec \<noteq> None then w\<lparr>cr_record_consumed := True\<rparr> else w);
               (result, owner, context, w, env) = consume_deliver v deliver context w env in
           (result, store, owner, context, Some w, env))"
    unfolding v vireo_inflight_store_consume_completion_def option.sel by (simp add: vireo_completion_inspect_def)
  show ?thesis
  proof (cases "consume_classify (Some s) (Some server) p ?w")
    case (Inl x)
    with red call cl fresh wf ok show ?thesis by (auto split: prod.splits)
  next
    case (Inr x)
    obtain w rec where x: "x = (w, rec)" by fastforce
    have w: "\<not> cr_delivery_called w" using cl Inr x fresh by simp
    show ?thesis
    proof (cases rec)
      case None
      obtain r1 v1 c1 w1 env1 where d: "consume_deliver v deliver context w env = (r1, v1, c1, w1, env1)" by (metis prod_cases5)
      have "cr_disposition w \<noteq> VIREO_INFLIGHT_COMPLETION_MATCHED" using cl Inr x None by simp
      with deliver_ok [OF ok _ d w] v d call red Inr x None wf show ?thesis by auto
    next
      case (Some m)
      then have m: "m \<in> table_records s" "cr_disposition w = VIREO_INFLIGHT_COMPLETION_MATCHED \<longrightarrow> im_metadata (cr_match w) = m"
        using cl Inr x by simp_all
      obtain tr ts tm td env1 where t: "vireo_inflight_store_take (Some s) m (Some no_metadata) (Some VIREO_INFLIGHT_NONE) env = (tr, ts, tm, td, env1)"
        by (metis prod_cases5)
      have tok: "table_ok R Q H (image_mset cp_self (held v + ps) + B) s env" using wf ok by (simp add: table_ok_def completions_ok_def)
      have "\<exists>n \<in> table_records s. same_request m n" using m(1) by (auto simp: same_request_def)
      then have tr: "tr = VIREO_OK" using take_ok [OF tok t] records_valid [OF wf m(1)] by auto
      obtain s1 n where s1: "ts = Some s1" "table_ok R Q H (image_mset cp_self (held v + ps) + B) s1 env1" "tr = VIREO_OK"
        "st_capacity s1 = st_capacity s" "st_self s1 = st_self s" "n \<in> table_records s" "same_request m n" "table_records s1 = table_records s - {n}"
        using take_ok [OF tok t] unfolding tr by auto
      have nm: "n = m" using records_unique [OF wf s1(6) m(1)] s1(7) same_request_conflict conflict_commute by blast
      have ok1: "completions_ok R Q (table_refs (st_slots s1) + H) B (held v + ps) env1"
        using s1(2) ok by (simp add: table_ok_def completions_ok_def)
      let ?w1 = "w\<lparr>cr_record_consumed := True\<rparr>"
      obtain r2 v2 c2 w2 env2 where d: "consume_deliver v deliver context ?w1 env1 = (r2, v2, c2, w2, env2)" by (metis prod_cases5)
      have "completions_ok R Q (table_refs (st_slots s1) + H) B (held v2 + ps) env2 \<and> v2 \<noteq> None \<and> cr_match w2 = cr_match w \<and>
        (cr_delivery_called w2 \<longrightarrow> cr_disposition w = VIREO_INFLIGHT_COMPLETION_MATCHED)"
        using deliver_ok [OF ok1 _ d] w v by simp
      moreover have "(r, s', v', context', rep', env') = (r2, Some s1, v2, c2, Some w2, env2)"
        using call red Inr x Some t s1(1,3) d by simp
      moreover have "table_wf s1" using s1(2) by (simp add: table_ok_def)
      ultimately show ?thesis using s1 nm m v by auto
    qed
  qed
qed

subsection \<open>Sessions\<close>

record inflight_session =
  in_tasks :: task_session
  in_store :: vireo_inflight_store
  in_registered :: "vireo_task_metadata list"
  in_delivered :: "vireo_task_metadata list"

text \<open>The callback of a consume is any function of the completion and the match.\<close>

datatype inflight_op =
    Objects task_op
  | Register vireo_tcp_server vireo_task_metadata "size_t option"
  | RegisterTask vireo_tcp_server nat size_t "u64 list"
  | TakeRecord vireo_task_metadata
  | RetainRecord vireo_task_metadata nat "u64 list"
  | Consume vireo_tcp_server nat "vireo_completion option \<Rightarrow> vireo_inflight_completion_match \<Rightarrow> vireo_result"
  | CancelClient vireo_connection_pool_lease size_t size_t

definition with_env :: "task_env \<Rightarrow> task_session \<Rightarrow> task_session" where
  "with_env e t = t\<lparr>se_env := e\<rparr>"

fun inflight_step :: "inflight_op \<Rightarrow> inflight_session \<Rightarrow> vireo_result \<times> inflight_session" where
  "inflight_step (Objects c) s = (let (r, t) = task_step c (in_tasks s) in (r, s\<lparr>in_tasks := t\<rparr>))"
| "inflight_step (Register server m limit) s =
     (let (r, store, stage, e) =
            (case limit of None \<Rightarrow> vireo_inflight_store_register (Some (in_store s)) (Some server) m None (se_env (in_tasks s))
             | Some l \<Rightarrow> vireo_inflight_store_register_limited (Some (in_store s)) (Some server) m l None (se_env (in_tasks s))) in
      (r, s\<lparr>in_tasks := with_env e (in_tasks s), in_store := the store,
         in_registered := (if r = VIREO_OK then [m] else []) @ in_registered s\<rparr>))"
| "inflight_step (RegisterTask server i limit races) s =
     (let task = pointer (se_tasks (in_tasks s)) i;
          (r, store, stage, e) = vireo_inflight_store_register_task_limited (Some (in_store s)) (Some server) task limit None races (se_env (in_tasks s)) in
      (r, s\<lparr>in_tasks := with_env e (in_tasks s), in_store := the store,
         in_registered := (if r = VIREO_OK then [tk_metadata (the task)] else []) @ in_registered s\<rparr>))"
| "inflight_step (TakeRecord key) s =
     (let (r, store, out, stage, e) = vireo_inflight_store_take (Some (in_store s)) key (Some no_metadata) None (se_env (in_tasks s)) in
      (r, s\<lparr>in_tasks := with_env e (in_tasks s), in_store := the store\<rparr>))"
| "inflight_step (RetainRecord key i races) s =
     (let (r, v, stage, e) = vireo_inflight_store_retain_cancel (Some (in_store s)) key (variable (se_cancels (in_tasks s)) i) None races (se_env (in_tasks s)) in
      (r, s\<lparr>in_tasks := (in_tasks s)\<lparr>se_env := e, se_cancels := assign (se_cancels (in_tasks s)) i v\<rparr>\<rparr>))"
| "inflight_step (Consume server i reply) s =
     (let (r, store, v, context, report, e) =
            vireo_inflight_store_consume_completion (Some (in_store s)) (Some server) (variable (se_completions (in_tasks s)) i)
              (Some (\<lambda>context p m. (reply p m, context))) () (Some no_consume_report) (se_env (in_tasks s)) in
      (r, s\<lparr>in_tasks := (in_tasks s)\<lparr>se_env := e, se_completions := assign (se_completions (in_tasks s)) i v\<rparr>, in_store := the store,
         in_delivered := (if cr_delivery_called (the report) then [im_metadata (cr_match (the report))] else []) @ in_delivered s\<rparr>))"
| "inflight_step (CancelClient client begin_index max_slots) s =
     (let (r, store, report, e) =
            vireo_inflight_store_cancel_client_batch (Some (in_store s)) client begin_index max_slots (Some no_cleanup_report) (se_env (in_tasks s));
          hit = [a \<leftarrow> List.map_filter sl_cancel (filter (\<lambda>x. sl_occupied x \<and> belongs (sl_metadata x) client)
            (take (unat (cc_next_index (the report)) - unat begin_index) (drop (unat begin_index) (st_slots (in_store s))))). r = VIREO_OK] in
      (r, s\<lparr>in_tasks := (in_tasks s)\<lparr>se_env := e, se_asked := hit @ se_asked (in_tasks s)\<rparr>, in_store := the store\<rparr>))"

fun op_readable :: "inflight_op \<Rightarrow> bool" where
  "op_readable (Objects c) \<longleftrightarrow> data_readable c"
| "op_readable _ \<longleftrightarrow> True"

definition inflight_ok :: "bytes list \<Rightarrow> nat multiset \<Rightarrow> inflight_session \<Rightarrow> bool" where
  "inflight_ok R B s \<longleftrightarrow> table_wf (in_store s) \<and> session_ok R (table_refs (st_slots (in_store s))) (add_mset (st_self (in_store s)) B) (in_tasks s)"

text \<open>How often a request was registered, delivered, or is in flight.\<close>

definition occurrences :: "vireo_task_metadata \<Rightarrow> vireo_task_metadata list \<Rightarrow> nat" where
  "occurrences key ms = length (filter (same_request key) ms)"

definition once :: "inflight_session \<Rightarrow> bool" where
  "once s \<longleftrightarrow> (\<forall>key. occurrences key (in_delivered s) + card {m \<in> table_records (in_store s). same_request key m} \<le> occurrences key (in_registered s))"

text \<open>The invariant as seen by the operations on the table and by those on completions.\<close>

definition object_blocks :: "task_session \<Rightarrow> nat multiset" where
  "object_blocks t = image_mset tk_self (owned (se_tasks t)) + image_mset cp_self (owned (se_completions t))"

definition objects_wf :: "task_session \<Rightarrow> bool" where
  "objects_wf t \<longleftrightarrow> (\<forall>x \<in># owned (se_tasks t). task_wf x) \<and> (\<forall>p \<in># owned (se_completions t). completion_wf p)"

lemma inflight_table:
  "inflight_ok R B s \<longleftrightarrow>
     table_ok R (set (se_asked (in_tasks s))) (holders (in_tasks s)) (object_blocks (in_tasks s) + add_mset (st_self (in_store s)) B)
       (in_store s) (se_env (in_tasks s)) \<and> objects_wf (in_tasks s)"
  by (auto simp: inflight_ok_def session_ok_def table_ok_def object_blocks_def objects_wf_def ac_simps)

lemma with_env_simps [simp]:
  "se_env (with_env e t) = e" "se_asked (with_env e t) = se_asked t" "holders (with_env e t) = holders t"
  "object_blocks (with_env e t) = object_blocks t" "objects_wf (with_env e t) = objects_wf t"
  by (simp_all add: with_env_def holders_def object_blocks_def objects_wf_def)

lemma asked_update [simp]:
  "holders (t\<lparr>se_env := e, se_asked := q\<rparr>) = holders t" "object_blocks (t\<lparr>se_env := e, se_asked := q\<rparr>) = object_blocks t"
  "objects_wf (t\<lparr>se_env := e, se_asked := q\<rparr>) = objects_wf t"
  by (simp_all add: holders_def object_blocks_def objects_wf_def)

lemma table_update:
  assumes "inflight_ok R B s"
    and "table_ok R (set (se_asked t)) (holders (in_tasks s)) (object_blocks (in_tasks s) + add_mset (st_self (in_store s)) B) st (se_env t)"
    and "st_self st = st_self (in_store s)" "holders t = holders (in_tasks s)" "object_blocks t = object_blocks (in_tasks s)"
    "objects_wf t = objects_wf (in_tasks s)"
  shows "inflight_ok R B (s\<lparr>in_tasks := t, in_store := st, in_registered := rs, in_delivered := ds\<rparr>)"
  using assms by (simp add: inflight_table)

lemma once_fewer:
  "once s \<Longrightarrow> table_records st \<subseteq> table_records (in_store s) \<Longrightarrow> once (s\<lparr>in_tasks := t, in_store := st\<rparr>)"
proof -
  assume o: "once s" and sub: "table_records st \<subseteq> table_records (in_store s)"
  have "card {m \<in> table_records st. same_request key m} \<le> card {m \<in> table_records (in_store s). same_request key m}" for key
    using sub by (intro card_mono) auto
  with o show ?thesis unfolding once_def by (auto intro: le_trans [OF add_left_mono])
qed

lemma count_insert_request:
  "finite S \<Longrightarrow> card {n \<in> insert m S. same_request key n} \<le> card {n \<in> S. same_request key n} + (if same_request key m then 1 else 0)"
proof -
  assume "finite S"
  moreover have "{n \<in> insert m S. same_request key n} = (if same_request key m then insert m {n \<in> S. same_request key n} else {n \<in> S. same_request key n})" by auto
  ultimately show ?thesis by (simp add: card_insert_if)
qed

lemma count_remove_request:
  "finite S \<Longrightarrow> n \<in> S \<Longrightarrow> card {m \<in> S - {n}. same_request key m} + (if same_request key n then 1 else 0) = card {m \<in> S. same_request key m}"
proof -
  assume "finite S" "n \<in> S"
  moreover from this have "{m \<in> S. same_request key m} =
    (if same_request key n then insert n {m \<in> S - {n}. same_request key m} else {m \<in> S - {n}. same_request key m})" by auto
  ultimately show ?thesis by (simp add: card_insert_if)
qed

lemma occurrences_Cons: "occurrences key (m # ms) = occurrences key ms + (if same_request key m then 1 else 0)"
  by (simp add: occurrences_def)

lemma once_registered:
  assumes "once s" "table_records st = insert m (table_records (in_store s))"
  shows "once (s\<lparr>in_tasks := t, in_store := st, in_registered := m # in_registered s\<rparr>)"
  unfolding once_def
proof
  fix key
  show "occurrences key (in_delivered (s\<lparr>in_tasks := t, in_store := st, in_registered := m # in_registered s\<rparr>)) +
      card {n \<in> table_records (in_store (s\<lparr>in_tasks := t, in_store := st, in_registered := m # in_registered s\<rparr>)). same_request key n}
    \<le> occurrences key (in_registered (s\<lparr>in_tasks := t, in_store := st, in_registered := m # in_registered s\<rparr>))"
    using assms(1) [unfolded once_def, THEN spec, of key] count_insert_request [of "table_records (in_store s)" m key]
    by (simp add: assms(2) occurrences_Cons split: if_splits)
qed

lemma once_delivered:
  assumes "once s" "n \<in> table_records (in_store s)" "table_records st = table_records (in_store s) - {n}"
  shows "once (s\<lparr>in_tasks := t, in_store := st, in_delivered := n # in_delivered s\<rparr>)"
  unfolding once_def
proof
  fix key
  show "occurrences key (in_delivered (s\<lparr>in_tasks := t, in_store := st, in_delivered := n # in_delivered s\<rparr>)) +
      card {m \<in> table_records (in_store (s\<lparr>in_tasks := t, in_store := st, in_delivered := n # in_delivered s\<rparr>)). same_request key m}
    \<le> occurrences key (in_registered (s\<lparr>in_tasks := t, in_store := st, in_delivered := n # in_delivered s\<rparr>))"
    using assms(1) [unfolded once_def, THEN spec, of key] count_remove_request [OF _ assms(2), of key]
    by (simp add: assms(3) occurrences_Cons split: if_splits)
qed

lemma register_without_task:
  "register_impl store server m limited l None operations stage env = register_impl store server m limited l None (Some (cancel_operations [])) stage env"
  by (simp add: register_impl_def)

lemma registered_step:
  assumes ok: "inflight_ok R B s" "once s"
    and call: "register_impl (Some (in_store s)) (Some server) m limited l task (Some (cancel_operations races)) None (se_env (in_tasks s)) = (r, st, stage, e)"
    and live: "\<And>t a. task = Some t \<Longrightarrow> tk_cancel t = Some a \<Longrightarrow> a \<in># table_refs (st_slots (in_store s)) + holders (in_tasks s)"
  shows "inflight_ok R B (s\<lparr>in_tasks := with_env e (in_tasks s), in_store := the st, in_registered := (if r = VIREO_OK then [m] else []) @ in_registered s\<rparr>) \<and>
    once (s\<lparr>in_tasks := with_env e (in_tasks s), in_store := the st, in_registered := (if r = VIREO_OK then [m] else []) @ in_registered s\<rparr>)"
proof -
  note tok = ok(1) [unfolded inflight_table, THEN conjunct1]
  obtain st1 where st1: "st = Some st1" "table_ok R (set (se_asked (in_tasks s))) (holders (in_tasks s)) (object_blocks (in_tasks s) + add_mset (st_self (in_store s)) B) st1 e"
    "st_self st1 = st_self (in_store s)" "r \<noteq> VIREO_OK \<longrightarrow> st1 = in_store s" "r = VIREO_OK \<longrightarrow> table_records st1 = insert m (table_records (in_store s))"
    using inflight_register_ok [OF tok call] live by blast
  have "inflight_ok R B (s\<lparr>in_tasks := with_env e (in_tasks s), in_store := st1, in_registered := rs, in_delivered := in_delivered s\<rparr>)" for rs
    by (rule table_update [OF ok(1)]) (use st1(2,3) in simp_all)
  moreover have "once (s\<lparr>in_tasks := with_env e (in_tasks s), in_store := st1\<rparr>)" if "st1 = in_store s"
    using once_fewer [OF ok(2), of st1] that by simp
  moreover have "once (s\<lparr>in_tasks := with_env e (in_tasks s), in_store := st1, in_registered := m # in_registered s\<rparr>)" if "r = VIREO_OK"
    using once_registered [OF ok(2)] st1(5) that by blast
  ultimately show ?thesis using st1(1,4) by simp
qed

lemma register_step_ok:
  assumes "inflight_ok R B s" "once s"
  shows "inflight_ok R B (snd (inflight_step (Register server m limit) s)) \<and> once (snd (inflight_step (Register server m limit) s))"
proof -
  obtain r st stage e where call: "register_impl (Some (in_store s)) (Some server) m (limit \<noteq> None) (case limit of None \<Rightarrow> 0 | Some l \<Rightarrow> l) None
      (Some (cancel_operations [])) None (se_env (in_tasks s)) = (r, st, stage, e)" by (metis prod_cases4)
  have "(case limit of None \<Rightarrow> vireo_inflight_store_register (Some (in_store s)) (Some server) m None (se_env (in_tasks s))
      | Some l \<Rightarrow> vireo_inflight_store_register_limited (Some (in_store s)) (Some server) m l None (se_env (in_tasks s))) = (r, st, stage, e)"
    using call by (cases limit) (simp_all add: vireo_inflight_store_register_def vireo_inflight_store_register_limited_def register_without_task [of _ _ _ _ _ None])
  with registered_step [OF assms call] show ?thesis by simp
qed

lemma register_task_step_ok:
  assumes ok: "inflight_ok R B s" "once s"
  shows "inflight_ok R B (snd (inflight_step (RegisterTask server i l races) s)) \<and> once (snd (inflight_step (RegisterTask server i l races) s))"
proof (cases "pointer (se_tasks (in_tasks s)) i = None \<or> l = 0")
  case True
  then have "vireo_inflight_store_register_task_limited (Some (in_store s)) (Some server) (pointer (se_tasks (in_tasks s)) i) l None races (se_env (in_tasks s)) =
      (VIREO_RESULT_INVALID_ARGUMENT, Some (in_store s), None, se_env (in_tasks s))"
    by (auto simp: vireo_inflight_store_register_task_limited_def vireo_inflight_store_register_task_limited_with_operations_def)
  with ok show ?thesis by (simp add: with_env_def once_def inflight_ok_def)
next
  case False
  then obtain t where t: "pointer (se_tasks (in_tasks s)) i = Some t" by auto
  obtain r st stage e where call: "register_impl (Some (in_store s)) (Some server) (tk_metadata t) True l (Some t) (Some (cancel_operations races)) None
      (se_env (in_tasks s)) = (r, st, stage, e)" by (metis prod_cases4)
  have eq: "vireo_inflight_store_register_task_limited (Some (in_store s)) (Some server) (Some t) l None races (se_env (in_tasks s)) = (r, st, stage, e)"
    using False call by (simp add: vireo_inflight_store_register_task_limited_def vireo_inflight_store_register_task_limited_with_operations_def
      vireo_task_inspect_def cancel_operations_def)
  have "a \<in># holders (in_tasks s)" if "tk_cancel t = Some a" for a
    using refs_of_member [OF pointer_task [OF t] that] by (simp add: holders_def)
  then show ?thesis using registered_step [OF ok call] eq t by (cases "r = VIREO_OK") simp_all
qed

lemma take_step_ok:
  assumes ok: "inflight_ok R B s" "once s"
  shows "inflight_ok R B (snd (inflight_step (TakeRecord key) s)) \<and> once (snd (inflight_step (TakeRecord key) s))"
proof -
  obtain r st out stage e where call: "vireo_inflight_store_take (Some (in_store s)) key (Some no_metadata) None (se_env (in_tasks s)) = (r, st, out, stage, e)"
    by (metis prod_cases5)
  obtain st1 where st1: "st = Some st1" "table_ok R (set (se_asked (in_tasks s))) (holders (in_tasks s)) (object_blocks (in_tasks s) + add_mset (st_self (in_store s)) B) st1 e"
    "st_self st1 = st_self (in_store s)" "table_records st1 \<subseteq> table_records (in_store s)"
    using take_ok [OF ok(1) [unfolded inflight_table, THEN conjunct1] call] by (auto split: if_splits)
  have "inflight_ok R B (s\<lparr>in_tasks := with_env e (in_tasks s), in_store := st1, in_registered := in_registered s, in_delivered := in_delivered s\<rparr>)"
    by (rule table_update [OF ok(1)]) (use st1(2,3) in simp_all)
  with once_fewer [OF ok(2) st1(4)] call st1(1) show ?thesis by simp
qed

lemma retain_record_step_ok:
  assumes ok: "inflight_ok R B s" "once s"
  shows "inflight_ok R B (snd (inflight_step (RetainRecord key i races) s)) \<and> once (snd (inflight_step (RetainRecord key i races) s))"
proof -
  let ?t = "in_tasks s" and ?slots = "st_slots (in_store s)"
  obtain r v stage e where call: "vireo_inflight_store_retain_cancel (Some (in_store s)) key (variable (se_cancels ?t) i) None races (se_env ?t) = (r, v, stage, e)"
    by (metis prod_cases4)
  have ses: "session_ok R (table_refs ?slots) (add_mset (st_self (in_store s)) B) ?t" and sw: "slots_wf ?slots"
    using ok(1) by (simp_all add: inflight_ok_def table_wf_def)
  have "session_ok R (table_refs ?slots) (add_mset (st_self (in_store s)) B) (?t\<lparr>se_env := e, se_cancels := assign (se_cancels ?t) i v\<rparr>)"
  proof (cases "v = variable (se_cancels ?t) i \<and> e = se_env ?t")
    case True
    with ses show ?thesis by simp
  next
    case False
    obtain fr k where f: "find_record key ?slots 0 0 = (fr, k)" by fastforce
    from False call f have ret: "vireo_task_cancel_retain (sl_cancel (?slots ! k)) (variable (se_cancels ?t) i) races (se_env ?t) = (r, v, e)"
      and "fr = VIREO_OK" and "metadata_has_valid_shape key"
      by (auto simp: vireo_inflight_store_retain_cancel_def vireo_inflight_store_retain_cancel_with_operations_def cancel_operations_def
        standard_retain_cancel_def validate_cases Let_def split: if_splits prod.splits)
    then have "k < length ?slots" using find_record_cases [OF sw _ f] by auto
    then have "a \<in># table_refs ?slots" if "sl_cancel (?slots ! k) = Some a" for a
      using owned_split [of k "map sl_cancel ?slots"] that by (simp add: table_refs_def)
    with retain_ok [OF ses _ ret] show ?thesis by simp
  qed
  then show ?thesis using ok call by (simp add: inflight_ok_def once_def)
qed

lemma consume_step_ok:
  assumes ok: "inflight_ok R B s" "once s"
  shows "inflight_ok R B (snd (inflight_step (Consume server i reply) s)) \<and> once (snd (inflight_step (Consume server i reply) s))"
proof -
  let ?t = "in_tasks s" and ?v = "variable (se_completions (in_tasks s)) i" and ?ps = "others_owned (se_completions (in_tasks s)) i"
  let ?B = "image_mset tk_self (owned (se_tasks ?t)) + add_mset (st_self (in_store s)) B"
  obtain r st v c rep e where call: "vireo_inflight_store_consume_completion (Some (in_store s)) (Some server) ?v (Some (\<lambda>context p m. (reply p m, context))) ()
      (Some no_consume_report) (se_env ?t) = (r, st, v, c, rep, e)" by (metis prod_cases6)
  have wf: "table_wf (in_store s)" and ses: "session_ok R (table_refs (st_slots (in_store s))) (add_mset (st_self (in_store s)) B) ?t"
    using ok(1) by (simp_all add: inflight_ok_def)
  have cok: "completions_ok R (set (se_asked ?t)) (table_refs (st_slots (in_store s)) + holders ?t) ?B (held ?v + ?ps) (se_env ?t)"
    and tw: "\<forall>t \<in># owned (se_tasks ?t). task_wf t"
    using ses owned_variable [of "se_completions ?t" i] by (simp_all add: session_completions add.commute)
  obtain st1 w where st1: "st = Some st1" "rep = Some w" "table_wf st1" "st_self st1 = st_self (in_store s)" "v = None \<longleftrightarrow> ?v = None"
    "completions_ok R (set (se_asked ?t)) (table_refs (st_slots st1) + holders ?t) ?B (held v + ?ps) e"
    "if cr_delivery_called w then im_metadata (cr_match w) \<in> table_records (in_store s) \<and> table_records st1 = table_records (in_store s) - {im_metadata (cr_match w)}
     else table_records st1 \<subseteq> table_records (in_store s)"
    using consume_ok [OF wf cok call] by (elim exE conjE) (rule that; assumption)
  let ?t1 = "?t\<lparr>se_env := e, se_completions := assign (se_completions ?t) i v\<rparr>"
  have "session_ok R (table_refs (st_slots st1)) (add_mset (st_self st1) B) ?t1"
  proof -
    have "owned (se_completions ?t1) = held v + ?ps" using owned_assign [OF st1(5)] by simp
    moreover have "holders ?t1 + table_refs (st_slots st1) = table_refs (st_slots st1) + holders ?t" by (simp add: holders_def add.commute)
    ultimately show ?thesis
      using st1(4) st1(6) [unfolded add.commute [of "table_refs (st_slots st1)"]] tw unfolding session_completions by simp
  qed
  then have inv: "inflight_ok R B (s\<lparr>in_tasks := ?t1, in_store := st1, in_delivered := ds\<rparr>)" for ds
    using st1(3) by (simp add: inflight_ok_def)
  show ?thesis
  proof (cases "cr_delivery_called w")
    case True
    with once_delivered [OF ok(2), of "im_metadata (cr_match w)" st1 ?t1] st1(1,2,7) inv call show ?thesis by simp
  next
    case False
    with once_fewer [OF ok(2), of st1 ?t1] st1(1,2,7) inv [of "in_delivered s"] call show ?thesis by simp
  qed
qed

lemma set_map_filter_cancel:
  "set (List.map_filter sl_cancel (filter (\<lambda>x. sl_occupied x \<and> belongs (sl_metadata x) client) (take k (drop b slots)))) = stopped slots client b (b + k)"
proof -
  have "x \<in> set (take k (drop b slots)) \<longleftrightarrow> (\<exists>i < length slots. b \<le> i \<and> i < b + k \<and> slots ! i = x)" for x
  proof
    assume "x \<in> set (take k (drop b slots))"
    then obtain n where "n < k" "n < length slots - b" "x = drop b slots ! n" by (auto simp: in_set_conv_nth)
    then show "\<exists>i < length slots. b \<le> i \<and> i < b + k \<and> slots ! i = x" by (intro exI [of _ "b + n"]) auto
  next
    assume "\<exists>i < length slots. b \<le> i \<and> i < b + k \<and> slots ! i = x"
    then obtain i where "i < length slots" "b \<le> i" "i < b + k" "slots ! i = x" by blast
    then show "x \<in> set (take k (drop b slots))" by (auto simp: in_set_conv_nth intro!: exI [of _ "i - b"])
  qed
  then show ?thesis unfolding stopped_def by (auto simp: List.map_filter_def image_iff) force+
qed

lemma cancel_step_ok:
  assumes ok: "inflight_ok R B s" "once s"
  shows "inflight_ok R B (snd (inflight_step (CancelClient client b n) s)) \<and> once (snd (inflight_step (CancelClient client b n) s))"
proof -
  let ?t = "in_tasks s"
  obtain r st rep e where call: "vireo_inflight_store_cancel_client_batch (Some (in_store s)) client b n (Some no_cleanup_report) (se_env ?t) = (r, st, rep, e)"
    by (metis prod_cases4)
  show ?thesis
  proof (cases "cl_pool_id client = 0 \<or> cl_generation client = 0 \<or> n = 0 \<or> n > 65536 \<or> b > st_capacity (in_store s)")
    case True
    with batch_refused [OF True call] call ok show ?thesis by (simp add: inflight_ok_def once_def)
  next
    case False
    then obtain st1 v k where b: "r = VIREO_OK" "st = Some st1" "rep = Some v" "unat (cc_next_index v) = unat b + k" "st_self st1 = st_self (in_store s)"
      "st_slots st1 = swept (st_slots (in_store s)) client (unat b) (unat b + k)"
      "table_ok R (set (se_asked ?t) \<union> stopped (st_slots (in_store s)) client (unat b) (unat b + k)) (holders ?t)
        (object_blocks ?t + add_mset (st_self (in_store s)) B) st1 e"
      using batch_ok [OF ok(1) [unfolded inflight_table, THEN conjunct1] _ _ _ _ _ call] by (auto simp: not_less)
    let ?hit = "List.map_filter sl_cancel (filter (\<lambda>x. sl_occupied x \<and> belongs (sl_metadata x) client) (take k (drop (unat b) (st_slots (in_store s)))))"
    let ?t1 = "?t\<lparr>se_env := e, se_asked := ?hit @ se_asked ?t\<rparr>"
    have "inflight_ok R B (s\<lparr>in_tasks := ?t1, in_store := st1, in_registered := in_registered s, in_delivered := in_delivered s\<rparr>)"
      by (rule table_update [OF ok(1)]) (use b(5,7) in \<open>simp_all add: set_map_filter_cancel Un_commute\<close>)
    moreover have "table_records st1 \<subseteq> table_records (in_store s)"
      unfolding b(6) records_of_def swept_def by (auto simp: empty_slot_def split: if_splits)
    ultimately show ?thesis using once_fewer [OF ok(2), of st1 ?t1] call b(1-4) by simp
  qed
qed

lemma inflight_step_ok:
  assumes ok: "inflight_ok R B s" "once s" and rd: "op_readable c"
  shows "inflight_ok R B (snd (inflight_step c s)) \<and> once (snd (inflight_step c s))"
proof (cases c)
  case (Objects c)
  with task_step_ok [of R "table_refs (st_slots (in_store s))" "add_mset (st_self (in_store s)) B" "in_tasks s" c] ok rd
  show ?thesis by (simp add: inflight_ok_def once_def case_prod_beta)
qed (use ok in \<open>simp_all only: register_step_ok register_task_step_ok take_step_ok retain_record_step_ok consume_step_ok cancel_step_ok\<close>)

lemma inflight_run_ok:
  "inflight_ok R B s \<Longrightarrow> once s \<Longrightarrow> \<forall>c \<in> set cs. op_readable c \<Longrightarrow>
   inflight_ok R B (snd (run_calls inflight_step cs s)) \<and> once (snd (run_calls inflight_step cs s))"
proof (induction cs arbitrary: s)
  case (Cons c cs)
  with inflight_step_ok [of R B s c] show ?case by (simp add: case_prod_beta Let_def)
qed simp

end
