(* ===== verification/Net_Inflight_Guarantees.thy ===== *)
theory Net_Inflight_Guarantees
  imports Net_Inflight_Flow Thread_Task_Flow
begin

text \<open>
  What the table of requests in flight guarantees from its creation on, for every sequence of operations: it is a set of requests with exact
  queries and admission, every registration is answered at most once, the requests of a client can be cancelled completely, references
  are counted, and a submission either hands the task to the worker queue and records it or leaves both as they were.
\<close>

definition inflight_start :: "vireo_inflight_store \<Rightarrow> task_env \<Rightarrow> nat \<Rightarrow> nat \<Rightarrow> nat \<Rightarrow> inflight_session" where
  "inflight_start st env ncs nts nps = \<lparr>in_tasks = no_objects (te_heap env) ncs nts nps, in_store = st, in_registered = [], in_delivered = []\<rparr>"

definition no_cancels :: "vireo_heap \<Rightarrow> task_env" where
  "no_cancels h = \<lparr>te_heap = h, te_cancels = []\<rparr>"

lemma owned_map_None: "(\<And>x. x \<in> set xs \<Longrightarrow> f x = None) \<Longrightarrow> owned (map f xs) = {#}"
  by (induction xs) auto

lemma empty_table:
  assumes "n \<noteq> 0" "unat n \<le> 65536"
  shows "table_wf \<lparr>st_capacity = n, st_count = 0, st_allocated_bytes = a, st_max_memory_bytes = b, st_slots = replicate (unat n) empty_slot, st_self = self\<rparr> \<and>
    table_refs (replicate (unat n) empty_slot) = {#} \<and> records_of (replicate (unat n) empty_slot) = {}"
  using assms by (auto simp: table_wf_def slots_wf_def table_refs_def records_of_def empty_slot_def map_replicate_const)

lemma created_ok:
  assumes wf: "heap_wf h" and call: "vireo_inflight_store_create (Some options) (Some None) (no_cancels h) = (VIREO_OK, Some (Some st), env)"
  shows "inflight_ok (heap_released h) (mset (map fst (heap_live h))) (inflight_start st env ncs nts nps) \<and> once (inflight_start st env ncs nts nps) \<and>
    te_cancels env = [] \<and> st_capacity st = so_capacity options"
proof -
  obtain r1 sb where m: "vireo_checked_size_mul (so_capacity options) sizeof_inflight_slot (Some 0) = (r1, sb)" by fastforce
  obtain r2 ab where a: "(if r1 = VIREO_OK then vireo_checked_size_add sizeof_inflight_store (the sb) (Some 0) else (r1, Some 0)) = (r2, ab)" by fastforce
  obtain mem h1 where al: "allocate_default h (the ab) = (mem, h1)" by fastforce
  have "so_capacity options \<noteq> 0" "so_capacity options \<le> 65536" and mem: "mem = Some (st_self st)" and env: "env = \<lparr>te_heap = h1, te_cancels = []\<rparr>"
    and st: "\<exists>x y. st = \<lparr>st_capacity = so_capacity options, st_count = 0, st_allocated_bytes = x, st_max_memory_bytes = y,
      st_slots = replicate (unat (so_capacity options)) empty_slot, st_self = st_self st\<rparr>"
    using call m a al unfolding vireo_inflight_store_create_def vireo_inflight_store_create_with_allocator_def
    by (auto simp: no_cancels_def Let_def not_less split: if_splits option.splits)
  then have cap: "so_capacity options \<noteq> 0" "unat (so_capacity options) \<le> 65536" by (simp_all add: word_le_nat_alt)
  obtain x y where st': "st = \<lparr>st_capacity = so_capacity options, st_count = 0, st_allocated_bytes = x, st_max_memory_bytes = y,
      st_slots = replicate (unat (so_capacity options)) empty_slot, st_self = st_self st\<rparr>" using st by blast
  note t = empty_table [OF cap, of x y "st_self st", folded st']
  have sl: "st_slots st = replicate (unat (so_capacity options)) empty_slot" "st_capacity st = so_capacity options" by (subst st'; simp)+
  have "env_inv (heap_released h) {#} (mset (map fst (heap_live h))) (no_cancels h)"
    using wf by (simp add: env_inv_def no_cancels_def erased_since_def references_def)
  from env_inv_block [OF this, of "the ab" mem h1] al
  have "env_inv (heap_released h) {#} (add_mset (st_self st) (mset (map fst (heap_live h)))) env"
    using mem env by (simp add: no_cancels_def)
  then have "inflight_ok (heap_released h) (mset (map fst (heap_live h))) (inflight_start st env ncs nts nps)"
    using t sl env by (simp add: inflight_ok_def inflight_start_def session_ok_def no_objects_def holders_def env_ok_def asked_def)
  moreover have "once (inflight_start st env ncs nts nps)" using t sl by (simp add: once_def inflight_start_def occurrences_def)
  ultimately show ?thesis using env sl by simp
qed

lemma started_run_ok:
  assumes "heap_wf h" and "vireo_inflight_store_create (Some options) (Some None) (no_cancels h) = (VIREO_OK, Some (Some st), env)"
    and "\<forall>c \<in> set cs. op_readable c" and "snd (run_calls inflight_step cs (inflight_start st env ncs nts nps)) = s"
  shows "inflight_ok (heap_released h) (mset (map fst (heap_live h))) s \<and> once s"
  using inflight_run_ok [OF _ _ assms(3)] created_ok [OF assms(1,2)] assms(4) by blast

lemma register_exact:
  assumes ok: "inflight_ok R B s"
  defines "a server m limit \<equiv> admission server m (map_option unat limit) (unat (st_capacity (in_store s))) (table_records (in_store s))"
  shows "fst (inflight_step (Register server m limit) s) = a server m limit \<and>
    table_records (in_store (snd (inflight_step (Register server m limit) s))) =
      (if a server m limit = VIREO_OK then insert m (table_records (in_store s)) else table_records (in_store s))"
proof -
  obtain r st stage e where call: "register_impl (Some (in_store s)) (Some server) m (limit \<noteq> None) (case limit of None \<Rightarrow> 0 | Some l \<Rightarrow> l) None
      (Some (cancel_operations [])) None (se_env (in_tasks s)) = (r, st, stage, e)" by (metis prod_cases4)
  have lim: "(if limit \<noteq> None then Some (unat (case limit of None \<Rightarrow> 0 | Some l \<Rightarrow> l)) else None) = map_option unat limit" by (cases limit) auto
  obtain st1 where "st = Some st1" "r = a server m limit" "r \<noteq> VIREO_OK \<longrightarrow> st1 = in_store s"
    "r = VIREO_OK \<longrightarrow> table_records st1 = insert m (table_records (in_store s))"
    using inflight_register_ok [OF ok [unfolded inflight_table, THEN conjunct1] call, unfolded lim] unfolding a_def by auto
  moreover have "(case limit of None \<Rightarrow> vireo_inflight_store_register (Some (in_store s)) (Some server) m None (se_env (in_tasks s))
      | Some l \<Rightarrow> vireo_inflight_store_register_limited (Some (in_store s)) (Some server) m l None (se_env (in_tasks s))) = (r, st, stage, e)"
    using call by (cases limit) (simp_all add: vireo_inflight_store_register_def vireo_inflight_store_register_limited_def register_without_task [of _ _ _ _ _ None])
  ultimately show ?thesis by simp
qed

lemma take_exact:
  assumes ok: "inflight_ok R B s"
  shows "if metadata_has_valid_shape key \<and> (\<exists>m \<in> table_records (in_store s). same_request key m)
    then fst (inflight_step (TakeRecord key) s) = VIREO_OK \<and>
      table_records (in_store (snd (inflight_step (TakeRecord key) s))) = {m \<in> table_records (in_store s). \<not> same_request key m}
    else fst (inflight_step (TakeRecord key) s) \<noteq> VIREO_OK \<and> snd (inflight_step (TakeRecord key) s) = s"
proof -
  have tw: "table_wf (in_store s)" using ok by (simp add: inflight_ok_def)
  obtain r st out stage e where call: "vireo_inflight_store_take (Some (in_store s)) key (Some no_metadata) None (se_env (in_tasks s)) = (r, st, out, stage, e)"
    by (metis prod_cases5)
  note tc = take_cases [OF tw call]
  show ?thesis
  proof (cases "metadata_has_valid_shape key \<and> (\<exists>m \<in> table_records (in_store s). same_request key m)")
    case False
    then show ?thesis using tc call by (auto simp: with_env_def split: if_splits)
  next
    case True
    obtain st1 n where st1: "st = Some st1" "r = VIREO_OK" "n \<in> table_records (in_store s)" "same_request key n" "table_records st1 = table_records (in_store s) - {n}"
      using take_ok [OF ok [unfolded inflight_table, THEN conjunct1] call] True by auto
    have "m = n" if "m \<in> table_records (in_store s)" "same_request key m" for m
      using records_unique [OF tw that(1) st1(3)] that(2) st1(4) same_request_conflict by (metis same_request_def)
    then have "table_records (in_store s) - {n} = {m \<in> table_records (in_store s). \<not> same_request key m}" using st1(4) by auto
    with st1 call True show ?thesis by simp
  qed
qed

subsection \<open>Submission\<close>

lemma push_outcome:
  assumes inv: "tq_inv q" and call: "vireo_task_queue_try_push (Some q) (Some (Some t)) (Some rep) codes = (rc, out, own, rep', codes')"
  shows "\<exists>q1 v. out = Some q1 \<and> rep' = Some v \<and> tq_inv q1 \<and> (rc = VIREO_OK \<longrightarrow> tqt_transferred v) \<and>
    (if tqt_transferred v then own = Some None \<and> tq_items q1 = tq_items q @ [t] else own = Some (Some t) \<and> tq_items q1 = tq_items q)"
proof -
  have tr: "transfer (Some q) (Some (Some t)) TRANSFER_PUSH (Some rep) codes = (rc, out, own, rep', codes')"
    using call by (simp add: vireo_task_queue_try_push_def)
  have kind: "TRANSFER_PUSH = TRANSFER_PUSH \<longleftrightarrow> Some t \<noteq> None" by simp
  have "rc = VIREO_OK \<longrightarrow> tqt_transferred (the rep')"
    using tr by (auto simp: transfer_def transfer_locked_def no_transfer_def Let_def Option.is_none_def split: if_splits prod.splits)
  moreover from kind tr have "\<exists>q1 v. out = Some q1 \<and> rep' = Some v \<and> tq_inv q1 \<and>
    (if tqt_transferred v then own = Some None \<and> tq_items q1 = tq_items q @ [t] else own = Some (Some t) \<and> tq_items q1 = tq_items q)"
  proof (cases rule: transfer_cases)
    case unchanged
    then show ?thesis using inv by auto
  next
    case (locked rc1 own1 moved q1)
    then show ?thesis using transfer_locked_ok [OF inv kind locked(1)] by (auto split: if_splits)
  qed
  ultimately show ?thesis by (elim exE conjE) (intro exI conjI; simp)
qed

lemma pool_submit_outcome:
  assumes inv: "tq_inv q" and pool: "wp_queue p = Some q"
    and call: "vireo_thread_pool_try_submit (Some p) (Some (Some t)) (Some rep) codes = (rc, p', own, rep', codes')"
  shows "\<exists>q1 v. p' = Some (p\<lparr>wp_queue := Some q1\<rparr>) \<and> rep' = Some v \<and> tq_inv q1 \<and> (rc = VIREO_OK \<longrightarrow> tqt_transferred (ps_queue_report v)) \<and>
    (if tqt_transferred (ps_queue_report v) then own = Some None \<and> tq_items q1 = tq_items q @ [t] else own = Some (Some t) \<and> tq_items q1 = tq_items q)"
proof -
  obtain r1 o1 w1 v1 c1 where push: "vireo_task_queue_try_push (Some q) (Some (Some t)) (Some no_transfer) codes = (r1, o1, w1, v1, c1)" by (metis prod_cases5)
  note po = push_outcome [OF inv push]
  have same: "p\<lparr>wp_queue := Some q\<rparr> = p" using pool by (metis vireo_thread_pool.surjective vireo_thread_pool.update_convs(9) vireo_thread_pool.select_convs(9))
  show ?thesis
  proof (cases "wp_retiring p \<or> wp_stop_requested p \<or> \<not> wp_configured p \<or> \<not> wp_start_attempted p \<or>
      wp_created_count p \<noteq> wp_worker_count p \<or> \<not> wp_execution_enabled p \<or> wp_joined_count p \<noteq> 0")
    case True
    then have "p' = Some p" "own = Some (Some t)" "rc \<noteq> VIREO_OK" "\<exists>v. rep' = Some v \<and> \<not> tqt_transferred (ps_queue_report v)"
      using call by (auto simp: vireo_thread_pool_try_submit_def vireo_thread_pool_try_submit_with_submitter_def no_pool_report_def no_transfer_def Let_def
        split: if_splits)
    then show ?thesis using inv same by (intro exI [of _ q]) auto
  next
    case False
    then obtain u where "p' = Some (p\<lparr>wp_queue := o1\<rparr>)" "own = w1" "rc = r1" "rep' = Some u" "ps_queue_report u = the v1"
      using call push pool by (auto simp: vireo_thread_pool_try_submit_def vireo_thread_pool_try_submit_with_submitter_def Let_def)
    moreover obtain q1 v where "o1 = Some q1" "v1 = Some v" "tq_inv q1" "r1 = VIREO_OK \<longrightarrow> tqt_transferred v"
      "if tqt_transferred v then w1 = Some None \<and> tq_items q1 = tq_items q @ [t] else w1 = Some (Some t) \<and> tq_items q1 = tq_items q"
      using po by (elim exE conjE) (rule that; assumption)
    ultimately show ?thesis by (intro exI [of _ q1] exI [of _ u]) simp
  qed
qed

text \<open>Registering the task of a submission, and undoing it.\<close>

lemma register_task_eq:
  "l \<noteq> 0 \<Longrightarrow> vireo_inflight_store_register_task_limited (Some s) (Some server) (Some t) l stage races env =
     register_impl (Some s) (Some server) (tk_metadata t) True l (Some t) (Some (cancel_operations races)) stage env"
  by (simp add: vireo_inflight_store_register_task_limited_def vireo_inflight_store_register_task_limited_with_operations_def
    vireo_task_inspect_def cancel_operations_def)

lemma take_back:
  assumes ok: "table_ok R Q H B s env" and m: "metadata_has_valid_shape m" "table_records s = insert m S" "m \<notin> S"
    and call: "vireo_inflight_store_take (Some s) m (Some old) stage env = (r, s', out, stage', env')"
  shows "\<exists>s1. s' = Some s1 \<and> table_ok R Q H B s1 env' \<and> r = VIREO_OK \<and> table_records s1 = S"
proof -
  have self: "\<exists>n \<in> table_records s. same_request m n" using m(2) by (auto simp: same_request_def)
  then obtain s1 n where s1: "s' = Some s1" "table_ok R Q H B s1 env'" "r = VIREO_OK" "n \<in> table_records s" "same_request m n" "table_records s1 = table_records s - {n}"
    using take_ok [OF ok call] m(1) by auto
  have "n = m" using records_unique [of s m n] ok s1(4,5) same_request_conflict m(2) by (simp add: table_ok_def)
  with s1 m(2,3) show ?thesis by auto
qed

lemma submit_outcome:
  assumes ok: "inflight_ok R B s" and inv: "tq_inv q" and pool: "wp_queue p = Some q"
    and t: "pointer (se_tasks (in_tasks s)) i = Some t"
    and call: "vireo_inflight_store_try_submit (Some (in_store s)) (Some server) (Some p) l (Some (Some t)) (Some rep) races codes (se_env (in_tasks s)) =
      (r, st, p', own, rep', codes', e)"
  shows "\<exists>st1 q1. st = Some st1 \<and> p' = Some (p\<lparr>wp_queue := Some q1\<rparr>) \<and> tq_inv q1 \<and>
    table_ok R (set (se_asked (in_tasks s))) (holders (in_tasks s)) (object_blocks (in_tasks s) + add_mset (st_self (in_store s)) B) st1 e \<and>
    (own = Some None \<and> tq_items q1 = tq_items q @ [t] \<and> tk_metadata t \<notin> table_records (in_store s) \<and> table_records st1 = insert (tk_metadata t) (table_records (in_store s)) \<or>
     r \<noteq> VIREO_OK \<and> own = Some (Some t) \<and> tq_items q1 = tq_items q \<and> table_records st1 = table_records (in_store s))"
proof (cases "l = 0")
  case True
  have same: "p\<lparr>wp_queue := Some q\<rparr> = p" using pool by (metis vireo_thread_pool.surjective vireo_thread_pool.update_convs(9) vireo_thread_pool.select_convs(9))
  from True show ?thesis
    using call inv same ok by (auto simp: vireo_inflight_store_try_submit_def vireo_inflight_store_try_submit_with_operations_def inflight_table intro!: exI [of _ q])
next
  case l: False
  have same: "p\<lparr>wp_queue := Some q\<rparr> = p" using pool by (metis vireo_thread_pool.surjective vireo_thread_pool.update_convs(9) vireo_thread_pool.select_convs(9))
  let ?m = "tk_metadata t" and ?S = "table_records (in_store s)"
  let ?ok = "table_ok R (set (se_asked (in_tasks s))) (holders (in_tasks s)) (object_blocks (in_tasks s) + add_mset (st_self (in_store s)) B)"
  have table: "?ok (in_store s) (se_env (in_tasks s))" using ok by (simp add: inflight_table)
  obtain r1 o1 d1 e1 where reg: "register_impl (Some (in_store s)) (Some server) ?m True l (Some t) (Some (cancel_operations races))
      (Some VIREO_INFLIGHT_NONE) (se_env (in_tasks s)) = (r1, o1, d1, e1)" by (metis prod_cases4)
  obtain r2 p2 w2 v2 c2 where sub: "vireo_thread_pool_try_submit (Some p) (Some (Some t)) (Some no_pool_report) codes = (r2, p2, w2, v2, c2)" by (metis prod_cases5)
  obtain q1 v where q1: "p2 = Some (p\<lparr>wp_queue := Some q1\<rparr>)" "v2 = Some v" "tq_inv q1" "r2 = VIREO_OK \<longrightarrow> tqt_transferred (ps_queue_report v)"
    "if tqt_transferred (ps_queue_report v) then w2 = Some None \<and> tq_items q1 = tq_items q @ [t] else w2 = Some (Some t) \<and> tq_items q1 = tq_items q"
    using pool_submit_outcome [OF inv pool sub] by (elim exE conjE) (rule that; assumption)
  have live: "a \<in># table_refs (st_slots (in_store s)) + holders (in_tasks s)" if "Some t = Some x" "tk_cancel x = Some a" for x a
    using refs_of_member [OF pointer_task [OF t]] that by (simp add: holders_def)
  let ?a = "admission server ?m (Some (unat l)) (unat (st_capacity (in_store s))) ?S"
  obtain st1 where st1: "o1 = Some st1" "?ok st1 e1" "?a \<noteq> VIREO_OK \<longrightarrow> r1 = ?a" "r1 \<noteq> VIREO_OK \<longrightarrow> st1 = in_store s"
    "r1 = VIREO_OK \<longrightarrow> table_records st1 = insert ?m ?S"
    by (rule exE [OF inflight_register_ok [OF table reg]], rule live, assumption+, auto)
  note body = call [unfolded vireo_inflight_store_try_submit_def vireo_inflight_store_try_submit_with_operations_def]
  consider "r1 \<noteq> VIREO_OK" | "r1 = VIREO_OK" "tqt_transferred (ps_queue_report v)" | "r1 = VIREO_OK" "\<not> tqt_transferred (ps_queue_report v)" by blast
  then show ?thesis
  proof cases
    case 1
    then have "r = r1" "st = o1" "p' = Some p" "own = Some (Some t)" "e = e1"
      using body l reg by (simp_all add: vireo_task_inspect_def register_task_eq no_submit_report_def)
    with 1 st1 inv same show ?thesis by (intro exI [of _ st1] exI [of _ q]) simp
  next
    case 2
    then have "st = o1" "p' = p2" "own = w2" "e = e1"
      using body l reg sub q1(2) by (simp_all add: vireo_task_inspect_def register_task_eq no_submit_report_def Let_def split: if_splits)
    moreover have "?m \<notin> ?S" using 2 st1(3) conflict_self by (auto simp: admission_def split: if_splits)
    ultimately show ?thesis using 2 st1 q1 by (intro exI [of _ st1] exI [of _ q1]) simp
  next
    case 3
    then have new: "?m \<notin> ?S" "metadata_has_valid_shape ?m" using st1(3) conflict_self by (auto simp: admission_def split: if_splits)
    obtain r3 o3 x3 d3 e3 where tk: "vireo_inflight_store_take (Some st1) ?m (Some no_metadata) (Some (the d1)) e1 = (r3, o3, x3, d3, e3)" by (metis prod_cases5)
    obtain st3 where st3: "o3 = Some st3" "?ok st3 e3" "table_records st3 = ?S"
      using take_back [OF st1(2) new(2) _ new(1) tk] 3(1) st1(5) by blast
    have "r2 \<noteq> VIREO_OK" using 3 q1(4) by blast
    moreover have "r = r2" "st = o3" "p' = p2" "own = w2" "e = e3"
      using body l reg sub q1(2) st1(1) tk 3 calculation by (simp_all add: vireo_task_inspect_def register_task_eq no_submit_report_def Let_def)
    ultimately show ?thesis using 3 st3 q1 by (intro exI [of _ st3] exI [of _ q1]) simp
  qed
qed

subsection \<open>Guarantees\<close>

text \<open>
  C16. The table is a set of requests. After any operations its count is the number of records and within the capacity, and two records of one
  client differ in sequence and instance. A lookup returns the record of exactly the requested identity, or NOT_FOUND; the count of a client
  is exact; a registration is decided by the rule stated over the set and adds exactly its record when it succeeds; taking a
  record removes exactly that one.
\<close>

theorem inflight_table_exact:
  assumes wf: "heap_wf h" and created: "vireo_inflight_store_create (Some options) (Some None) (no_cancels h) = (VIREO_OK, Some (Some st), env)"
    and rd: "\<forall>c \<in> set cs. op_readable c" and run: "snd (run_calls inflight_step cs (inflight_start st env ncs nts nps)) = s"
  defines "t \<equiv> in_store s" and "S \<equiv> table_records (in_store s)"
  shows "(unat (st_count t) = card S \<and> card S \<le> unat (st_capacity t)) \<and>
    (\<forall>m \<in> S. \<forall>n \<in> S. same_client (md_route m) (md_route n) \<longrightarrow>
       rt_request_sequence (md_route m) = rt_request_sequence (md_route n) \<or> md_request_instance_id m = md_request_instance_id n \<longrightarrow> m = n) \<and>
    (\<forall>key. metadata_has_valid_shape key \<longrightarrow>
       (\<forall>m \<in> S. same_request key m \<longrightarrow> vireo_inflight_store_get (Some t) key (Some no_metadata) None = (VIREO_OK, Some m, None)) \<and>
       ((\<forall>m \<in> S. \<not> same_request key m) \<longrightarrow> vireo_inflight_store_get (Some t) key (Some no_metadata) None = (VIREO_RESULT_NOT_FOUND, Some no_metadata, None))) \<and>
    (\<forall>client. cl_pool_id client \<noteq> 0 \<longrightarrow> cl_generation client \<noteq> 0 \<longrightarrow>
       (\<exists>n. vireo_inflight_store_count_client (Some t) client (Some 0) None = (VIREO_OK, Some n, None) \<and> unat n = card {m \<in> S. belongs m client})) \<and>
    (\<forall>server m limit. let a = admission server m (map_option unat limit) (unat (st_capacity t)) S; (r, s') = inflight_step (Register server m limit) s in
       r = a \<and> table_records (in_store s') = (if a = VIREO_OK then insert m S else S)) \<and>
    (\<forall>key. let (r, s') = inflight_step (TakeRecord key) s in
       if metadata_has_valid_shape key \<and> (\<exists>m \<in> S. same_request key m)
       then r = VIREO_OK \<and> table_records (in_store s') = {m \<in> S. \<not> same_request key m}
       else r \<noteq> VIREO_OK \<and> s' = s)"
proof -
  have ok: "inflight_ok (heap_released h) (mset (map fst (heap_live h))) s" using started_run_ok [OF wf created rd run] by blast
  then have tw: "table_wf t" by (simp add: inflight_ok_def t_def)
  have S: "S = table_records t" by (simp add: S_def t_def)
  have uniq: "m = n" if "m \<in> S" "n \<in> S" "same_request key m" "same_request key n" for m n key
    using records_unique [OF tw] that same_request_conflict unfolding S by (metis same_request_def)
  have "unat (st_count t) = card S \<and> card S \<le> unat (st_capacity t)"
    using table_wf_count [OF tw] tw length_filter_le [of sl_occupied "st_slots t"] by (simp add: S table_wf_def)
  moreover have "\<forall>m \<in> S. \<forall>n \<in> S. same_client (md_route m) (md_route n) \<longrightarrow>
       rt_request_sequence (md_route m) = rt_request_sequence (md_route n) \<or> md_request_instance_id m = md_request_instance_id n \<longrightarrow> m = n"
    using records_unique [OF tw] unfolding S conflict_def by blast
  moreover have "(\<forall>m \<in> S. same_request key m \<longrightarrow> vireo_inflight_store_get (Some t) key (Some no_metadata) None = (VIREO_OK, Some m, None)) \<and>
       ((\<forall>m \<in> S. \<not> same_request key m) \<longrightarrow> vireo_inflight_store_get (Some t) key (Some no_metadata) None = (VIREO_RESULT_NOT_FOUND, Some no_metadata, None))"
    if "metadata_has_valid_shape key" for key
    using get_cases [OF tw, of key no_metadata None] that uniq unfolding S by (auto split: if_splits)
  moreover have "\<exists>n. vireo_inflight_store_count_client (Some t) client (Some 0) None = (VIREO_OK, Some n, None) \<and> unat n = card {m \<in> S. belongs m client}"
    if "cl_pool_id client \<noteq> 0" "cl_generation client \<noteq> 0" for client
    using count_client_cases [OF tw that, of 0 None] unfolding S by simp
  moreover have "let a = admission server m (map_option unat limit) (unat (st_capacity t)) S; (r, s') = inflight_step (Register server m limit) s in
       r = a \<and> table_records (in_store s') = (if a = VIREO_OK then insert m S else S)" for server m limit
    using register_exact [OF ok, of server m limit] unfolding S t_def Let_def case_prod_beta .
  moreover have "let (r, s') = inflight_step (TakeRecord key) s in
       if metadata_has_valid_shape key \<and> (\<exists>m \<in> S. same_request key m)
       then r = VIREO_OK \<and> table_records (in_store s') = {m \<in> S. \<not> same_request key m} else r \<noteq> VIREO_OK \<and> s' = s" for key
    using take_exact [OF ok, of key] unfolding S t_def Let_def case_prod_beta .
  ultimately show ?thesis by blast
qed


text \<open>
  C19. Cancelling a client is complete. After any operations, consecutive batches with any positive budget, each continuing where the one
  before stopped, finish: then no record of the client is left, every other record is, and exactly the cancellation objects of the removed
  records have become requested, so the tasks that still run see it.
\<close>

theorem inflight_cancel_complete:
  assumes wf: "heap_wf h" and created: "vireo_inflight_store_create (Some options) (Some None) (no_cancels h) = (VIREO_OK, Some (Some st), env)"
    and rd: "\<forall>c \<in> set cs. op_readable c" and run: "snd (run_calls inflight_step cs (inflight_start st env ncs nts nps)) = s"
    and client: "cl_pool_id client \<noteq> 0" "cl_generation client \<noteq> 0" and budget: "max_slots \<noteq> 0" "max_slots \<le> 65536"
    and enough: "unat (st_capacity (in_store s)) < n * unat max_slots"
    and batches: "cleanup_batches n client max_slots 0 (in_store s) (se_env (in_tasks s)) = (stop, t, e)"
  shows "stop = VIREO_INFLIGHT_CLIENT_CLEANUP_COMPLETE \<and> table_records t = {m \<in> table_records (in_store s). \<not> belongs m client} \<and>
    (\<forall>a c. map_of (te_cancels e) a = Some c \<longrightarrow> tc_requested c = (a \<in> set (se_asked (in_tasks s)) \<or>
       (\<exists>x \<in> set (st_slots (in_store s)). sl_occupied x \<and> belongs (sl_metadata x) client \<and> sl_cancel x = Some a)))"
proof -
  have ok: "inflight_ok (heap_released h) (mset (map fst (heap_live h))) s" using started_run_ok [OF wf created rd run] by blast
  have len: "length (st_slots (in_store s)) = unat (st_capacity (in_store s))" using ok by (simp add: inflight_ok_def table_wf_def)
  have b: "stop = VIREO_INFLIGHT_CLIENT_CLEANUP_COMPLETE" "st_slots t = swept (st_slots (in_store s)) client 0 (unat (st_capacity (in_store s)))"
    and q: "asked (set (se_asked (in_tasks s)) \<union> stopped (st_slots (in_store s)) client 0 (unat (st_capacity (in_store s)))) e"
    using batches_ok [OF ok [unfolded inflight_table, THEN conjunct1] client budget _ _ batches] enough by (simp_all add: table_ok_def env_ok_def)
  have "a \<in> stopped (st_slots (in_store s)) client 0 (unat (st_capacity (in_store s))) \<longleftrightarrow>
      (\<exists>x \<in> set (st_slots (in_store s)). sl_occupied x \<and> belongs (sl_metadata x) client \<and> sl_cancel x = Some a)" for a
    using len by (auto simp: stopped_def set_conv_nth)
  with q b swept_all_records [OF len, of client] show ?thesis by (auto simp: asked_def)
qed

text \<open>
  C20. References and memory are accounted for. After any operations every reference held by a variable, a task or a record in flight denotes a
  live cancellation object whose count is the number of these holders, every object has a holder, and the live blocks are those before plus one
  for the table and one per task, completion and object. The table can be destroyed exactly when no request is in flight, and then
  its block is released.
\<close>

theorem inflight_references_counted:
  assumes wf: "heap_wf h" and created: "vireo_inflight_store_create (Some options) (Some None) (no_cancels h) = (VIREO_OK, Some (Some st), env)"
    and rd: "\<forall>c \<in> set cs. op_readable c" and run: "snd (run_calls inflight_step cs (inflight_start st env ncs nts nps)) = s"
  defines "e \<equiv> se_env (in_tasks s)" and "H \<equiv> holders (in_tasks s) + table_refs (st_slots (in_store s))"
  shows "(\<forall>a \<in># H. a \<in> fst ` set (heap_live (te_heap e)) \<and> unat (tc_references (cancel_at a e)) = count H a) \<and>
    fst ` set (te_cancels e) = set_mset H \<and> distinct (map fst (heap_live (te_heap e))) \<and>
    mset (map fst (heap_live (te_heap e))) = mset (map fst (heap_live h)) + mset (map fst (te_cancels e)) +
      image_mset tk_self (owned (se_tasks (in_tasks s))) + image_mset cp_self (owned (se_completions (in_tasks s))) + {#st_self (in_store s)#} \<and>
    (case vireo_inflight_store_destroy (Some (Some (in_store s))) e of (r, owner, e') \<Rightarrow>
       if table_records (in_store s) = {}
       then r = VIREO_OK \<and> owner = Some None \<and>
         mset (map fst (heap_live (te_heap e'))) = mset (map fst (heap_live (te_heap e))) - {#st_self (in_store s)#}
       else r = VIREO_RESULT_BUSY \<and> owner = Some (Some (in_store s)) \<and> e' = e)"
proof -
  have ok: "inflight_ok (heap_released h) (mset (map fst (heap_live h))) s" using started_run_ok [OF wf created rd run] by blast
  then have tw: "table_wf (in_store s)" and inv: "env_inv (heap_released h) H (image_mset tk_self (owned (se_tasks (in_tasks s))) +
      (image_mset cp_self (owned (se_completions (in_tasks s))) + add_mset (st_self (in_store s)) (mset (map fst (heap_live h))))) e"
    by (simp_all add: inflight_ok_def session_ok_def env_ok_def H_def e_def)
  have d: "distinct (map fst (heap_live (te_heap e)))" using inv by (simp add: env_inv_def heap_wf_def)
  have "st_count (in_store s) = 0 \<longleftrightarrow> table_records (in_store s) = {}"
    using table_wf_count [OF tw] by (metis card_eq_0_iff finite_records unat_eq_0)
  then have "case vireo_inflight_store_destroy (Some (Some (in_store s))) e of (r, owner, e') \<Rightarrow>
       if table_records (in_store s) = {}
       then r = VIREO_OK \<and> owner = Some None \<and>
         mset (map fst (heap_live (te_heap e'))) = mset (map fst (heap_live (te_heap e))) - {#st_self (in_store s)#}
       else r = VIREO_RESULT_BUSY \<and> owner = Some (Some (in_store s)) \<and> e' = e"
    using drop_key_mset [OF d, of "st_self (in_store s)"] by (simp add: vireo_inflight_store_destroy_def deallocate_default_def)
  moreover have "fst ` set (te_cancels e) = set_mset H" using counted_live [OF inv] by blast
  moreover have "mset (map fst (heap_live (te_heap e))) = mset (map fst (heap_live h)) + mset (map fst (te_cancels e)) +
      image_mset tk_self (owned (se_tasks (in_tasks s))) + image_mset cp_self (owned (se_completions (in_tasks s))) + {#st_self (in_store s)#}"
    using inv by (simp add: env_inv_def ac_simps)
  ultimately show ?thesis using d counted_live [OF inv] by blast
qed

text \<open>
  C18. A submission is atomic. After any operations on the table and on the worker queue, submitting a task either hands the task over (it is the
  last element of the worker queue, the caller's variable is cleared and the table holds exactly one new record, the task's request), or fails with
  the task still the caller's and both the worker queue and the set of records as they were, a registration already made being undone. In
  both cases every reference is still counted. Failures of the mutex and condition variables are included.
\<close>

theorem inflight_submit_atomic:
  assumes wf: "heap_wf h" and created: "vireo_inflight_store_create (Some options) (Some None) (no_cancels h) = (VIREO_OK, Some (Some st), env)"
    and rd: "\<forall>c \<in> set cs. op_readable c" and run: "snd (run_calls inflight_step cs (inflight_start st env ncs nts nps)) = s"
    and queue: "vireo_task_queue_create (Some qo) (Some None) codes0 h0 = (VIREO_OK, Some (Some q0), codes1, h1)"
      "run_calls tq_exec ops (q0, codes2) = (es, (q, codes3))" "wp_queue p = Some q"
    and t: "pointer (se_tasks (in_tasks s)) i = Some t"
    and call: "vireo_inflight_store_try_submit (Some (in_store s)) (Some server) (Some p) limit (Some (Some t)) (Some rep) races codes (se_env (in_tasks s)) =
      (r, out, p', own, rep', codes', e)"
  shows "\<exists>st1 q1. out = Some st1 \<and> p' = Some (p\<lparr>wp_queue := Some q1\<rparr>) \<and>
    (own = Some None \<and> tq_items q1 = tq_items q @ [t] \<and> tk_metadata t \<notin> table_records (in_store s) \<and>
       table_records st1 = insert (tk_metadata t) (table_records (in_store s)) \<or>
     r \<noteq> VIREO_OK \<and> own = Some (Some t) \<and> tq_items q1 = tq_items q \<and> table_records st1 = table_records (in_store s)) \<and>
    (\<forall>a \<in># holders (in_tasks s) + table_refs (st_slots st1).
       unat (tc_references (cancel_at a e)) = count (holders (in_tasks s) + table_refs (st_slots st1)) a)"
proof -
  have ok: "inflight_ok (heap_released h) (mset (map fst (heap_live h))) s" using started_run_ok [OF wf created rd run] by blast
  have "tq_inv q0" using tq_create_OK [OF queue(1)] by (simp add: tq_ready_def)
  then have inv: "tq_inv q" using task_flow.run_conserves [of "(q0, codes2)" ops es "(q, codes3)"] queue(2) by simp
  obtain st1 q1 where o: "out = Some st1" "p' = Some (p\<lparr>wp_queue := Some q1\<rparr>)"
    and table: "table_ok (heap_released h) (set (se_asked (in_tasks s))) (holders (in_tasks s))
      (object_blocks (in_tasks s) + add_mset (st_self (in_store s)) (mset (map fst (heap_live h)))) st1 e"
    and two: "own = Some None \<and> tq_items q1 = tq_items q @ [t] \<and> tk_metadata t \<notin> table_records (in_store s) \<and>
        table_records st1 = insert (tk_metadata t) (table_records (in_store s)) \<or>
      r \<noteq> VIREO_OK \<and> own = Some (Some t) \<and> tq_items q1 = tq_items q \<and> table_records st1 = table_records (in_store s)"
    using submit_outcome [OF ok inv queue(3) t call] by (elim exE conjE) (rule that; assumption)
  have "\<forall>a \<in># holders (in_tasks s) + table_refs (st_slots st1).
      unat (tc_references (cancel_at a e)) = count (holders (in_tasks s) + table_refs (st_slots st1)) a"
    using table counted_live by (fastforce simp: table_ok_def env_ok_def add.commute)
  with o two show ?thesis by (intro exI [of _ st1] exI [of _ q1] conjI)
qed

subsection \<open>A concrete run\<close>

text \<open>
  A table for two requests; the server answers that the client is open and that it is not stopping. A cancellation object is created and shared
  with a task, the task's request is registered, answered by a completion, and a second completion for the same request comes late.
\<close>

definition calm_heap :: vireo_heap where
  "calm_heap = demo_heap\<lparr>heap_failing := []\<rparr>"

definition demo_server :: vireo_tcp_server where
  "demo_server = \<lparr>sv_client_inspect = (\<lambda>_. (VIREO_OK, VIREO_CONNECTION_CLOSE_OPEN)), sv_inspect = (VIREO_OK, False)\<rparr>"

definition demo_options :: vireo_inflight_store_options where
  "demo_options = \<lparr>so_capacity = 2, so_max_memory_bytes = 4096\<rparr>"

definition demo_created where
  "demo_created = vireo_inflight_store_create (Some demo_options) (Some None) (no_cancels calm_heap)"

definition demo_start :: inflight_session where
  "demo_start = inflight_start (the (the (fst (snd demo_created)))) (snd (snd demo_created)) 1 1 1"

definition demo_objects :: "inflight_op list" where
  "demo_objects = [Objects (CancelCreate 0 1000), Objects (TaskCreateWithCancel 0 demo_request (Some [7, 8, 9]) 2 1000 0 [])]"

definition demo_registered :: "inflight_op list" where
  "demo_registered = demo_objects @ [RegisterTask demo_server 0 2 []]"

definition demo_answered :: "inflight_op list" where
  "demo_answered = demo_registered @ concat (replicate 2
     [Objects (CompletionCreate 0 \<lparr>cm_request = demo_request, cm_result = 0, cm_suggested_status = 0\<rparr> (Some [1]) 1 200),
      Consume demo_server 0 (\<lambda>_ _. VIREO_OK)])"

lemma calm_heap_wf: "heap_wf calm_heap"
  by (simp add: heap_wf_def calm_heap_def demo_heap_def)

lemma demo_created_OK:
  "vireo_inflight_store_create (Some demo_options) (Some None) (no_cancels calm_heap) =
     (VIREO_OK, Some (Some (the (the (fst (snd demo_created))))), snd (snd demo_created))"
proof -
  have "fst demo_created = VIREO_OK" by code_simp
  moreover have "\<not> Option.is_none (fst (snd demo_created))" "\<not> Option.is_none (the (fst (snd demo_created)))" by code_simp+
  ultimately have "demo_created = (VIREO_OK, Some (Some (the (the (fst (snd demo_created))))), snd (snd demo_created))"
    by (auto simp: Option.is_none_def prod_eq_iff)
  then show ?thesis by (simp only: demo_created_def)
qed

lemma demo_readable: "\<forall>c \<in> set demo_objects. op_readable c" "\<forall>c \<in> set demo_registered. op_readable c" "\<forall>c \<in> set demo_answered. op_readable c"
  by (auto simp: demo_objects_def demo_registered_def demo_answered_def)

lemma demo_registered_run:
  "(case run_calls inflight_step demo_registered demo_start of (rs, s) \<Rightarrow>
      rs = [VIREO_OK, VIREO_OK, VIREO_OK] \<and> map sl_metadata (filter sl_occupied (st_slots (in_store s))) = [demo_request] \<and>
      se_cancels (in_tasks s) = [Some 1] \<and> st_capacity (in_store s) = 2) = True"
  by code_simp

lemma demo_answered_run:
  "(case run_calls inflight_step demo_answered demo_start of (rs, s) \<Rightarrow>
      rs = replicate 7 VIREO_OK \<and> in_registered s = [demo_request] \<and> in_delivered s = [demo_request]) = True"
  by code_simp

definition after :: "inflight_op list \<Rightarrow> inflight_session" where
  "after ops = snd (run_calls inflight_step ops demo_start)"

lemmas demo_setup = calm_heap_wf demo_created_OK

lemma in_flight_run: "snd (run_calls inflight_step ops (inflight_start (the (the (fst (snd demo_created)))) (snd (snd demo_created)) 1 1 1)) = after ops"
  by (simp add: after_def demo_start_def)

lemma demo_table: "table_records (in_store (after demo_registered)) = {demo_request}" "st_capacity (in_store (after demo_registered)) = 2"
  "se_cancels (in_tasks (after demo_registered)) = [Some 1]"
proof -
  have "map sl_metadata (filter sl_occupied (st_slots (in_store (after demo_registered)))) = [demo_request]"
    using demo_registered_run by (simp add: after_def case_prod_beta)
  then have "set (map sl_metadata (filter sl_occupied (st_slots (in_store (after demo_registered))))) = {demo_request}" by simp
  then show "table_records (in_store (after demo_registered)) = {demo_request}" by (auto simp: records_of_def)
qed (use demo_registered_run in \<open>simp_all add: after_def case_prod_beta\<close>)

theorem inflight_table_exact_witness:
  "vireo_inflight_store_get (Some (in_store (after demo_registered))) demo_request (Some no_metadata) None = (VIREO_OK, Some demo_request, None) \<and>
   unat (st_count (in_store (after demo_registered))) = 1"
proof -
  have "metadata_has_valid_shape demo_request" by code_simp
  moreover have "same_request demo_request demo_request" by (simp add: same_request_def)
  ultimately show ?thesis
    using inflight_table_exact [OF demo_setup demo_readable(2) in_flight_run] by (simp add: demo_table)
qed


theorem inflight_cancel_complete_witness:
  "\<exists>t e. cleanup_batches 3 \<lparr>cl_pool_id = 1, cl_slot_index = 0, cl_generation = 2\<rparr> 1 0 (in_store (after demo_registered))
       (se_env (in_tasks (after demo_registered))) = (VIREO_INFLIGHT_CLIENT_CLEANUP_COMPLETE, t, e) \<and> table_records t = {}"
proof -
  obtain stop t e where b: "cleanup_batches 3 \<lparr>cl_pool_id = 1, cl_slot_index = 0, cl_generation = 2\<rparr> 1 0 (in_store (after demo_registered))
       (se_env (in_tasks (after demo_registered))) = (stop, t, e)" by (metis prod_cases3)
  have "belongs demo_request \<lparr>cl_pool_id = 1, cl_slot_index = 0, cl_generation = 2\<rparr>" by code_simp
  then show ?thesis
    using inflight_cancel_complete [OF demo_setup demo_readable(2) in_flight_run _ _ _ _ _ b] b by (simp add: demo_table)
qed

theorem inflight_references_counted_witness:
  "unat (tc_references (cancel_at 1 (se_env (in_tasks (after demo_registered))))) =
     count (holders (in_tasks (after demo_registered)) + table_refs (st_slots (in_store (after demo_registered)))) 1"
proof -
  have "1 \<in># holders (in_tasks (after demo_registered))" by (simp add: holders_def demo_table)
  then show ?thesis using inflight_references_counted [OF demo_setup demo_readable(2) in_flight_run] by simp
qed

definition worker_created :: "vireo_result \<times> vireo_task vireo_task_queue option option \<times> sync_codes \<times> vireo_heap" where
  "worker_created = vireo_task_queue_create (Some \<lparr>tqo_capacity = 2, tqo_max_memory_bytes = 4096\<rparr>) (Some None) [] calm_heap"

definition worker_queue :: "vireo_task vireo_task_queue" where
  "worker_queue = the (the (fst (snd worker_created)))"

definition demo_workers :: vireo_thread_pool where
  "demo_workers = \<lparr>wp_worker_count = 1, wp_configured = True, wp_retiring = False, wp_start_attempted = True, wp_stop_requested = False,
     wp_execution_enabled = True, wp_created_count = 1, wp_joined_count = 0, wp_queue = Some worker_queue\<rparr>"

lemma worker_created_OK:
  "vireo_task_queue_create (Some \<lparr>tqo_capacity = 2, tqo_max_memory_bytes = 4096\<rparr>) (Some None) [] calm_heap =
     (VIREO_OK, Some (Some worker_queue), fst (snd (snd worker_created)), snd (snd (snd worker_created)))"
proof -
  have "fst worker_created = VIREO_OK" by code_simp
  moreover have "\<not> Option.is_none (fst (snd worker_created))" "\<not> Option.is_none (the (fst (snd worker_created)))" by code_simp+
  ultimately have "worker_created = (VIREO_OK, Some (Some worker_queue), fst (snd (snd worker_created)), snd (snd (snd worker_created)))"
    by (auto simp: worker_queue_def Option.is_none_def prod_eq_iff)
  then show ?thesis by (simp only: worker_created_def)
qed

definition demo_submit where
  "demo_submit = (let s = after demo_objects in vireo_inflight_store_try_submit (Some (in_store s)) (Some demo_server) (Some demo_workers) 2
     (Some (pointer (se_tasks (in_tasks s)) 0)) (Some no_submit_report) [] [] (se_env (in_tasks s)))"

lemma demo_task: "\<exists>t. pointer (se_tasks (in_tasks (after demo_objects))) 0 = Some t"
proof -
  have "\<not> Option.is_none (pointer (se_tasks (in_tasks (after demo_objects))) 0)" by code_simp
  then show ?thesis by (auto simp: Option.is_none_def)
qed

theorem inflight_submit_atomic_witness:
  "\<exists>t st1 q1. pointer (se_tasks (in_tasks (after demo_objects))) 0 = Some t \<and> fst demo_submit = VIREO_OK \<and> fst (snd demo_submit) = Some st1 \<and>
     fst (snd (snd demo_submit)) = Some (demo_workers\<lparr>wp_queue := Some q1\<rparr>) \<and> tq_items q1 = tq_items worker_queue @ [t] \<and> tk_metadata t \<in> table_records st1"
proof -
  obtain t where t: "pointer (se_tasks (in_tasks (after demo_objects))) 0 = Some t" using demo_task by blast
  obtain r out p' own rep codes e where sub: "demo_submit = (r, out, p', own, rep, codes, e)" by (metis prod_cases7)
  have r: "fst demo_submit = VIREO_OK" by code_simp
  have pool: "wp_queue demo_workers = Some worker_queue" by (simp add: demo_workers_def)
  have run: "run_calls tq_exec [] (worker_queue, []) = ([], (worker_queue, []))" by simp
  have call: "vireo_inflight_store_try_submit (Some (in_store (after demo_objects))) (Some demo_server) (Some demo_workers) 2 (Some (Some t))
      (Some no_submit_report) [] [] (se_env (in_tasks (after demo_objects))) = (r, out, p', own, rep, codes, e)"
    using sub t by (simp add: demo_submit_def Let_def)
  have f: "fst demo_submit = r" "fst (snd demo_submit) = out" "fst (snd (snd demo_submit)) = p'" by (simp_all add: sub)
  have "r = VIREO_OK" using r f(1) by simp
  with inflight_submit_atomic [OF demo_setup demo_readable(1) in_flight_run worker_created_OK run pool t call] t show ?thesis unfolding f by blast
qed

end
