(* ===== verification/Spec2Isabelle.thy ===== *)
theory Spec2Isabelle
  imports Base_Buffer Base_Pool Protocol_Utf8 Protocol_Schema Protocol_Node_Root Protocol_Node_Remove Protocol_Node_Mkdir
    Protocol_Node_Move Protocol_Auth_Request Timer_Shutdown Security_Rate_Enforcement Thread_Task_Flow Thread_Completion_Flow Net_Guarantees Security_Phc Net_Inflight_Guarantees
begin

text \<open>
  A verification library for Vireo, a networked file server in C. The sources are under \<^verbatim>\<open>src/\<close> and \<^verbatim>\<open>include/vireo/\<close> of the
  repository. The server reads frames from connections, decodes requests, admits them under rate limits, hands them as tasks to worker
  threads, collects completions and writes responses; timers drive its deadlines. The library models the modules that carry this logic,
  operation by operation, and proves what each of them promises to its users.

  \<^bold>\<open>The program and its model\<close>

  \<^item> \<^emph>\<open>base\<close>. \<open>Base_Result\<close>: result codes (\<^verbatim>\<open>result.c\<close>). \<open>Base_Checked\<close>: checked arithmetic (\<^verbatim>\<open>checked.c\<close>). \<open>Base_Memory\<close>: the allocator
    pair that the modules are given, and \<^verbatim>\<open>secure_clear.c\<close>. \<open>Base_Buffer\<close>: the byte buffer (\<^verbatim>\<open>buffer.c\<close>). \<open>Base_Slots\<close>, \<open>Base_Pool\<close>: tables with a
    free list threaded through them, and the object pool with leases (\<^verbatim>\<open>pool.c\<close>).
  \<^item> \<^emph>\<open>protocol\<close>. \<open>Protocol_Registry\<close>: constants and names (\<^verbatim>\<open>protocol.c\<close>). \<open>Protocol_Wire\<close>, \<open>Protocol_Codec\<close>: big-endian integers, frame header,
    CRC-32C (\<^verbatim>\<open>codec.c\<close>). \<open>Protocol_Tlv\<close>, \<open>Protocol_Utf8\<close>, \<open>Protocol_Schema\<close>: fields, text checks, rule tables (\<^verbatim>\<open>tlv.c\<close>). \<open>Protocol_Message\<close>,
    \<open>Protocol_Id_Key\<close>: what the message codecs share. \<open>Protocol_Node_Root\<close>, \<open>Protocol_Node_Remove\<close>, \<open>Protocol_Node_Mkdir\<close>, \<open>Protocol_Node_Move\<close>,
    \<open>Protocol_Auth_Request\<close>: one message family each (\<^verbatim>\<open>node_root.c\<close>, \<^verbatim>\<open>node_remove.c\<close>, \<^verbatim>\<open>node_mkdir.c\<close>, \<^verbatim>\<open>node_move.c\<close>, \<^verbatim>\<open>auth_request.c\<close>).
  \<^item> \<^emph>\<open>timer\<close>. \<open>Timer_Time\<close>: deadlines and ticks (\<^verbatim>\<open>clock_deadline.c\<close>, \<^verbatim>\<open>wheel_time.c\<close>). \<open>Timer_Handle\<close>: handles and their owner table
    (\<^verbatim>\<open>handle.c\<close>, \<^verbatim>\<open>handle_owner.c\<close>). \<open>Timer_Links\<close>, \<open>Timer_Wheel\<close>: the timing wheel over intrusive lists (\<^verbatim>\<open>wheel.c\<close>, \<^verbatim>\<open>wheel_registry.c\<close>,
    \<^verbatim>\<open>wheel_advance.c\<close>, \<^verbatim>\<open>wheel_shutdown.c\<close>). \<open>Timer_Wheel_Inv\<close>, \<open>Timer_Wheel_Ops\<close>, \<open>Timer_Wheel_Advance\<close>, \<open>Timer_Service\<close>, \<open>Timer_Shutdown\<close>: its proofs.
  \<^item> \<^emph>\<open>security\<close>. \<open>Security_Rate_Limiter\<close> (\<^verbatim>\<open>rate_limiter.c\<close>), \<open>Security_Token_Bucket\<close>, \<open>Security_Rate_Enforcement\<close>: the keyed rate limiter, its
    specification and the proofs. \<open>Security_Password\<close> (\<^verbatim>\<open>password_phc.c\<close>, \<^verbatim>\<open>password.c\<close>), \<open>Security_Phc\<close>: password records.
  \<^item> \<^emph>\<open>thread\<close>. \<open>Thread_Ring\<close>: rings, results of pthread calls, the contract of a queue of owners. \<open>Thread_Task_Queue\<close>, \<open>Thread_Task_Flow\<close>:
    \<^verbatim>\<open>task_queue.c\<close>. \<open>Thread_Completion_Queue\<close>, \<open>Thread_Completion_Flow\<close>: \<^verbatim>\<open>completion_queue.c\<close>. \<open>Thread_Task_Objects\<close>, \<open>Thread_Task_Lifetime\<close>: tasks,
    completions, routes, metadata and shared cancellation (\<^verbatim>\<open>task.c\<close>, \<^verbatim>\<open>task_cancel.c\<close>, \<^verbatim>\<open>task_route.c\<close>, \<^verbatim>\<open>task_metadata.c\<close>, \<^verbatim>\<open>completion.c\<close>,
    \<^verbatim>\<open>completion_metadata.c\<close>).
  \<^item> \<^emph>\<open>net\<close>. \<open>Net_Connection\<close>, \<open>Net_Binding\<close>: every operation of \<^verbatim>\<open>connection.c\<close>, on top of the buffer and the codec. \<open>Net_Stream\<close>,
    \<open>Net_Frames\<close>, \<open>Net_Session\<close>, \<open>Net_Guarantees\<close>: its proofs. \<open>Net_Inflight\<close>: requests in flight, that is request identities, the table, submission,
    matching, consuming and draining of completions, cancellation of a client (\<^verbatim>\<open>inflight.c\<close> and the files \<^verbatim>\<open>inflight_*.c\<close>, with the submit entry of
    \<^verbatim>\<open>thread_pool.c\<close>). \<open>Net_Inflight_Records\<close>, \<open>Net_Inflight_Cleanup\<close>, \<open>Net_Inflight_Flow\<close>, \<open>Net_Inflight_Guarantees\<close>: its proofs.

  A C struct is a record, an enumeration a datatype or, where values outside it can occur, a number; each function is one definition of the same
  name that returns its result code, the values of its output arguments and the new state; branches follow the order of the source. A static helper whose
  name occurs in several files carries a prefix of its file. A loop of the source is a recursive function next to the definition of its C function.

  \<^bold>\<open>Conventions\<close>

  \<^item> Integers have the widths of LP64 Linux, which the build requires; arithmetic on them wraps as in C. An argument of enumeration type holds a
    declared value unless the code checks it.
  \<^item> A pointer that the code compares with NULL is an option; an output argument \<open>None\<close> is a NULL pointer, \<open>Some v\<close> a variable that
    held \<open>v\<close>. Where two pointers are compared, a flag says whether they are equal. Local variables that C leaves uninitialised and that are
    not read start as zeros. Saving and restoring \<^verbatim>\<open>errno\<close> is not modelled.
  \<^item> The allocator \<open>vireo_heap\<close> numbers its requests; an arbitrary list says which of them fail. It keeps the live blocks and the contents
    of every released block, so leaks, double releases and residues of secrets are visible. Block sizes of structs are those of LP64.
  \<^item> Results of system calls, pthread calls and event loop calls come from lists in the state, so a theorem for all states covers every
    answer. A critical section is one step. Failed compare-and-exchange attempts are a list of the values they observed; such a loop is a
    recursion on that list. A wait on a condition variable takes the steps of other threads from a list.
  \<^item> Code outside the repository is a parameter: the derivation and random functions of the password module, the TLS object of a connection.
    The table of requests in flight asks the server object, which is not modelled, for the state of a client; its answers are arguments.
    Callbacks that the code takes as function pointers are function arguments.
  \<^item> No fuel is used. Loops are structural recursions or have a termination proof with the measure of the C loop (bytes left, budget left, slots
    left); the lists of answers are consumed or default to a fixed answer when they are empty.

  \<^bold>\<open>Interfaces\<close>

  \<open>checked_binop\<close> (checked arithmetic, six instances), \<open>byte_fifo\<close> (what the connection needs of a buffer), \<open>lease_table\<close> (leases with generations:
  the object pool and the timer handles), \<open>wire_int\<close> and \<open>field_sink\<close> (integers and fields on the wire), \<open>frame_codec\<close> and its extension
  \<open>id_key_codec\<close> (a message codec: encode accepts exactly the valid values and decode inverts it), \<open>owner_queue\<close> (a queue that hands over owners in
  order: both queues), \<open>owner_api\<close> (destroy and move of an owned object: tasks, completions, cancellation references).

  \<^bold>\<open>What is shown\<close>

  \<^item> \<^emph>\<open>Connection\<close>: for every sequence of operations and every answer of the socket the bytes read are the bytes that arrived and the bytes sent the
    bytes queued, in order and without loss; frames are recognised exactly; flow control with two water marks never leaves a connection that can
    neither read nor write nor be closed; closing is final and a finished drain has sent everything.
  \<^item> \<^emph>\<open>Buffer, pool\<close>: the buffer is a byte queue whatever sequence of operations moves its storage; leases are exclusive and a stale lease is
    refused; nothing leaks and released memory is zero.
  \<^item> \<^emph>\<open>Protocol\<close>: the header codec, the field layer and every modelled message round-trip; validators accept exactly what their specification
    says (schema, UTF-8, names, headers, authentication requests); bursts of errors within four bytes are detected by the checksum.
  \<^item> \<^emph>\<open>Timer\<close>: the wheel refines an abstract timer service (never early, never twice, none missed); bounded advances catch up with the
    clock; shutdown terminates and hands back each timer.
  \<^item> \<^emph>\<open>Rate limiter\<close>: it decides as one continuous token bucket per policy and key, in spite of its table with eviction; the granted volume is
    bounded, the advertised waiting time exact, a refused batch without effect.
  \<^item> \<^emph>\<open>Passwords\<close>: the record reader accepts exactly the writer's texts; what was created verifies.
  \<^item> \<^emph>\<open>Queues, tasks\<close>: no task or completion is lost, duplicated or reordered, also when pthread calls fail; with working calls the
    queues refine bounded lists; a closed queue drains. References to cancellation objects are counted exactly and never dangle, cancellation is
    seen by all holders, payloads are erased before release.
  \<^item> \<^emph>\<open>Requests in flight\<close>: the table is a set of requests with exact admission, lookup and counts; each registration is answered at most once; a
    submission is atomic between table and worker queue; cancelling a client in batches ends with none of its requests left; references held by
    records are counted with all others.

  \<^bold>\<open>Not modelled\<close>

  The configuration reader (\<^verbatim>\<open>config.c\<close>) and the log (\<^verbatim>\<open>log.c\<close>): text files and output. Reading and waiting on the system clock. The eventfd notifier and the
  worker threads (\<^verbatim>\<open>notifier.c\<close>, \<^verbatim>\<open>thread_pool.c\<close>, \<^verbatim>\<open>completion_publish.c\<close>): thread creation around the modelled queues. Session and page tokens: thin layers
  over the HMAC and random functions of a library. Acceptor, event loop, epoll and the server object (\<^verbatim>\<open>tcp_server.c\<close>, \<^verbatim>\<open>event_loop.c\<close>): mostly system
  calls. TLS: a driver of OpenSSL. The connection pool, client deadlines, the asynchronous service and the reactors: wiring of the
  modelled parts to the server object. Services and persistence: SQL text and calls of the MySQL client library. The remaining message codecs (\<^verbatim>\<open>node_stat.c\<close>,
  \<^verbatim>\<open>node_list.c\<close>, \<^verbatim>\<open>auth_response.c\<close>, \<^verbatim>\<open>chunk.c\<close>) follow the pattern of the modelled ones. The process entry points under \<^verbatim>\<open>src/app\<close>.
\<close>

end
